(* ===== verification/Prelude.thy ===== *)
theory Prelude
  imports Complex_Main "HOL-Library.AList"
begin

text \<open>
  Shared ground of the development: the exceptions the source raises as values, the
  result type of a computation that may raise, its sequencing combinators, and the
  generic facts about lists and association lists that the components use.

  A Python expression that may raise is a value of \<open>'a res\<close>: \<open>Inl e\<close> when it
  raises \<open>e\<close>, \<open>Inr x\<close> when it returns \<open>x\<close>.  \<open>rbind\<close> runs one
  computation after another and stops at the first exception, as statements in a
  function body do; \<open>mapR\<close> is a comprehension, \<open>foldR\<close> a loop over a list.
  Two constructors are not exceptions of the source: \<open>NonFiniteFloat\<close> marks a number outside
  the model (an infinity or NaN where the model has rationals), \<open>Diverges\<close> a loop of the source
  that does not return.
\<close>

section \<open>Exceptions and results\<close>

datatype py_exc =
    ValueError
  | TypeError
  | KeyError
  | IndexError
  | AttributeError
  | ArithmeticError
  | RuntimeError
  | RefusedError string
  | HTTPError nat string
  | LookupError
  | AssertionError
  | RecipeError string
  | NonFiniteFloat
  | Diverges

type_synonym 'a res = "py_exc + 'a"

named_theorems res_simps \<open>evaluation rules of the result combinators\<close>
named_theorems dict_simps \<open>lookup and update rules of dictionaries\<close>

definition rbind :: "'e + 'a \<Rightarrow> ('a \<Rightarrow> 'e + 'b) \<Rightarrow> 'e + 'b" where
  "rbind m f = (case m of Inl e \<Rightarrow> Inl e | Inr x \<Rightarrow> f x)"

definition rmap :: "('a \<Rightarrow> 'b) \<Rightarrow> 'e + 'a \<Rightarrow> 'e + 'b" where
  "rmap f m = (case m of Inl e \<Rightarrow> Inl e | Inr x \<Rightarrow> Inr (f x))"

definition is_ok :: "'e + 'a \<Rightarrow> bool" where
  "is_ok m = (case m of Inl _ \<Rightarrow> False | Inr _ \<Rightarrow> True)"

text \<open>\<open>rtry P m h\<close> is \<open>try: m except ...: h\<close>, \<open>P\<close> telling the
  exceptions the clause names.\<close>

definition rtry :: "('e \<Rightarrow> bool) \<Rightarrow> 'e + 'a \<Rightarrow> 'e + 'a \<Rightarrow> 'e + 'a" where
  "rtry P m h = (case m of Inl e \<Rightarrow> (if P e then h else Inl e) | Inr x \<Rightarrow> Inr x)"

fun mapR :: "('a \<Rightarrow> 'e + 'b) \<Rightarrow> 'a list \<Rightarrow> 'e + 'b list" where
  "mapR f [] = Inr []"
| "mapR f (x # xs) = rbind (f x) (\<lambda>y. rbind (mapR f xs) (\<lambda>ys. Inr (y # ys)))"

fun foldR :: "('s \<Rightarrow> 'a \<Rightarrow> 'e + 's) \<Rightarrow> 's \<Rightarrow> 'a list \<Rightarrow> 'e + 's" where
  "foldR f s [] = Inr s"
| "foldR f s (x # xs) = rbind (f s x) (\<lambda>s'. foldR f s' xs)"

fun filterR :: "('a \<Rightarrow> 'e + bool) \<Rightarrow> 'a list \<Rightarrow> 'e + 'a list" where
  "filterR p [] = Inr []"
| "filterR p (x # xs) = rbind (p x) (\<lambda>b. rbind (filterR p xs) (\<lambda>ys. Inr (if b then x # ys else ys)))"

text \<open>\<open>any(p(x) for x in xs)\<close> and \<open>next((x for x in xs if p(x)), None)\<close>:
  both stop at the first hit.\<close>

fun anyR :: "('a \<Rightarrow> 'e + bool) \<Rightarrow> 'a list \<Rightarrow> 'e + bool" where
  "anyR p [] = Inr False"
| "anyR p (x # xs) = rbind (p x) (\<lambda>b. if b then Inr True else anyR p xs)"

fun findR :: "('a \<Rightarrow> 'e + bool) \<Rightarrow> 'a list \<Rightarrow> 'e + 'a option" where
  "findR p [] = Inr None"
| "findR p (x # xs) = rbind (p x) (\<lambda>b. if b then Inr (Some x) else findR p xs)"

lemma rbind_Inr [simp, res_simps]: "rbind (Inr x) f = f x"
  by (simp add: rbind_def)

lemma rbind_Inl [simp, res_simps]: "rbind (Inl e) f = Inl e"
  by (simp add: rbind_def)

lemma rmap_Inr [simp, res_simps]: "rmap f (Inr x) = Inr (f x)"
  by (simp add: rmap_def)

lemma rmap_Inl [simp, res_simps]: "rmap f (Inl e) = Inl e"
  by (simp add: rmap_def)

lemma rtry_Inr [simp, res_simps]: "rtry P (Inr x) h = Inr x"
  by (simp add: rtry_def)

lemma rtry_Inl [simp, res_simps]: "rtry P (Inl e) h = (if P e then h else Inl e)"
  by (simp add: rtry_def)

lemma is_ok_simps [simp, res_simps]: "is_ok (Inr x)" "\<not> is_ok (Inl e)"
  by (simp_all add: is_ok_def)

lemma rbind_eq_Inr: "rbind m f = Inr y \<longleftrightarrow> (\<exists>x. m = Inr x \<and> f x = Inr y)"
  by (cases m) auto

lemma rmap_eq_Inr: "rmap f m = Inr y \<longleftrightarrow> (\<exists>x. m = Inr x \<and> y = f x)"
  by (cases m) auto

lemma rbind_assoc: "rbind (rbind m f) g = rbind m (\<lambda>x. rbind (f x) g)"
  by (cases m) auto

lemma rbind_right [simp]: "rbind m Inr = m"
  by (cases m) auto

lemma rbindE:
  assumes "rbind m f = Inr y"
  obtains x where "m = Inr x" and "f x = Inr y"
  using assms by (auto simp: rbind_eq_Inr)

lemma rbind_cong [fundef_cong]:
  "m = m' \<Longrightarrow> (\<And>x. m' = Inr x \<Longrightarrow> f x = g x) \<Longrightarrow> rbind m f = rbind m' g"
  by (cases m') auto

lemma rtry_cong [fundef_cong]:
  "m = m' \<Longrightarrow> (\<And>e. m' = Inl e \<Longrightarrow> P e = P' e) \<Longrightarrow> (\<And>e. m' = Inl e \<Longrightarrow> h = h')
   \<Longrightarrow> rtry P m h = rtry P' m' h'"
  by (cases m') auto

lemma mapR_cong [fundef_cong]:
  "xs = ys \<Longrightarrow> (\<And>x. x \<in> set ys \<Longrightarrow> f x = g x) \<Longrightarrow> mapR f xs = mapR g ys"
proof (induction ys arbitrary: xs)
  case (Cons y ys)
  have "mapR f ys = mapR g ys" by (rule Cons.IH) (use Cons.prems in auto)
  then show ?case using Cons.prems by simp
qed simp

lemma foldR_cong [fundef_cong]:
  "s = s' \<Longrightarrow> xs = ys \<Longrightarrow> (\<And>t y. y \<in> set ys \<Longrightarrow> f t y = g t y) \<Longrightarrow> foldR f s xs = foldR g s' ys"
proof (induction ys arbitrary: s s' xs)
  case (Cons y ys)
  have "foldR f t ys = foldR g t ys" for t by (rule Cons.IH) (use Cons.prems in auto)
  then show ?case using Cons.prems by (auto intro: rbind_cong)
qed simp

lemma mapR_Inr_map: "(\<And>x. x \<in> set xs \<Longrightarrow> f x = Inr (g x)) \<Longrightarrow> mapR f xs = Inr (map g xs)"
  by (induction xs) auto

lemma mapR_length: "mapR f xs = Inr ys \<Longrightarrow> length ys = length xs"
  by (induction xs arbitrary: ys) (auto simp: rbind_eq_Inr)

lemma mapR_nth: "mapR f xs = Inr ys \<Longrightarrow> i < length xs \<Longrightarrow> f (xs ! i) = Inr (ys ! i)"
proof (induction xs arbitrary: ys i)
  case (Cons x xs)
  then show ?case by (cases i) (auto simp: rbind_eq_Inr)
qed simp

lemma mapR_eq_Inr_iff: "mapR f xs = Inr ys \<longleftrightarrow> list_all2 (\<lambda>x y. f x = Inr y) xs ys"
proof (induction xs arbitrary: ys)
  case Nil
  then show ?case by (cases ys) auto
next
  case (Cons x xs)
  then show ?case by (cases ys) (auto simp: rbind_eq_Inr)
qed

lemma foldR_append: "foldR f s (xs @ ys) = rbind (foldR f s xs) (\<lambda>s'. foldR f s' ys)"
  by (induction xs arbitrary: s) (auto simp: rbind_assoc)

lemma foldR_Inr_fold: "(\<And>t x. x \<in> set xs \<Longrightarrow> f t x = Inr (g x t)) \<Longrightarrow> foldR f s xs = Inr (fold g xs s)"
  by (induction xs arbitrary: s) auto

lemma foldR_invariant:
  assumes "foldR f s xs = Inr s'" and "P s"
    and "\<And>t x t'. x \<in> set xs \<Longrightarrow> P t \<Longrightarrow> f t x = Inr t' \<Longrightarrow> P t'"
  shows "P s'"
  using assms
proof (induction xs arbitrary: s)
  case (Cons x xs)
  from Cons.prems(1) obtain t where t: "f s x = Inr t" and rest: "foldR f t xs = Inr s'"
    by (auto simp: rbind_eq_Inr)
  have "P t" using Cons.prems(2,3) t by auto
  with rest show ?case using Cons.prems(3) by (auto intro: Cons.IH)
qed simp

lemma filterR_Inr_filter: "(\<And>x. x \<in> set xs \<Longrightarrow> p x = Inr (q x)) \<Longrightarrow> filterR p xs = Inr (filter q xs)"
  by (induction xs) auto

lemma anyR_Inr: "(\<And>x. x \<in> set xs \<Longrightarrow> p x = Inr (q x)) \<Longrightarrow> anyR p xs = Inr (list_ex q xs)"
  by (induction xs) auto

lemma findR_Inr: "(\<And>x. x \<in> set xs \<Longrightarrow> p x = Inr (q x)) \<Longrightarrow> findR p xs = Inr (find q xs)"
  by (induction xs) auto

lemma findR_SomeD: "findR p xs = Inr (Some x) \<Longrightarrow> x \<in> set xs \<and> p x = Inr True"
  by (induction xs) (auto simp: rbind_eq_Inr split: if_splits)

section \<open>Association lists\<close>

lemma map_of_update [simp, dict_simps]:
  "map_of (AList.update k v d) k' = (if k' = k then Some v else map_of d k')"
  by (simp add: update_conv')

lemma map_of_delete [simp, dict_simps]:
  "map_of (AList.delete k d) k' = (if k' = k then None else map_of d k')"
  by (simp add: delete_conv')

lemma distinct_keys_update [simp]:
  "distinct (map fst d) \<Longrightarrow> distinct (map fst (AList.update k v d))"
  by (rule distinct_update)

lemma distinct_keys_delete [simp]:
  "distinct (map fst d) \<Longrightarrow> distinct (map fst (AList.delete k d))"
  by (rule distinct_delete)

end
