(* ===== verification/Rounding.thy ===== *)
theory Rounding
  imports Prelude "HOL-Library.Log_Nat"
begin

text \<open>
  Rounding of exact rationals, on which both number types of the source are built:
  round half to even (Python's float arithmetic and the Decimal context), round half
  away from zero (\<open>ROUND_HALF_UP\<close> of the decimal module), the magnitude of a rational in
  a base, and rounding to a number of significant digits of a base.  Base 2 with 53
  digits is a Python float, base 10 with 28 digits the default Decimal context.
\<close>

section \<open>Rounding to an integer\<close>

definition rhe :: "rat \<Rightarrow> int" where
  "rhe x = (let f = \<lfloor>x\<rfloor>; r = x - of_int f in
     if r < 1/2 then f else if 1/2 < r then f + 1 else if even f then f else f + 1)"

definition rhu :: "rat \<Rightarrow> int" where
  "rhu x = (if 0 \<le> x then \<lfloor>x + 1/2\<rfloor> else - \<lfloor>- x + 1/2\<rfloor>)"

definition rtrunc :: "rat \<Rightarrow> int" where
  "rtrunc x = (if 0 \<le> x then \<lfloor>x\<rfloor> else - \<lfloor>- x\<rfloor>)"

lemma floor_frac: "0 \<le> x - of_int \<lfloor>x\<rfloor>" "x - of_int \<lfloor>x\<rfloor> < (1::rat)"
  using floor_correct [of x] by simp_all

lemma rhe_error: "\<bar>of_int (rhe x) - x\<bar> \<le> 1/2"
proof -
  define f where "f = \<lfloor>x\<rfloor>"
  have "0 \<le> x - of_int f" "x - of_int f < 1" using floor_frac [of x] by (simp_all add: f_def)
  then show ?thesis by (auto simp: rhe_def Let_def abs_if simp flip: f_def)
qed

lemma rhe_unique: "\<bar>of_int n - x\<bar> < 1/2 \<Longrightarrow> rhe x = n"
proof -
  assume "\<bar>of_int n - x\<bar> < 1/2"
  with rhe_error [of x] have "\<bar>of_int (rhe x) - (of_int n :: rat)\<bar> < 1" by linarith
  then have "\<bar>rhe x - n\<bar> < 1"
    by (metis of_int_abs of_int_diff of_int_less_1_iff)
  then show ?thesis by simp
qed

lemma rhe_of_int [simp]: "rhe (of_int n) = n"
  by (simp add: rhe_def)

lemma rhe_0 [simp]: "rhe 0 = 0"
  using rhe_of_int [of 0] by simp

lemma rhe_mono: "x \<le> y \<Longrightarrow> rhe x \<le> rhe y"
proof -
  assume xy: "x \<le> y"
  then have fl: "\<lfloor>x\<rfloor> \<le> \<lfloor>y\<rfloor>" by (rule floor_mono)
  show ?thesis
  proof (cases "\<lfloor>x\<rfloor> = \<lfloor>y\<rfloor>")
    case True
    then show ?thesis using xy by (auto simp: rhe_def Let_def)
  next
    case False
    with fl have "\<lfloor>x\<rfloor> + 1 \<le> \<lfloor>y\<rfloor>" by simp
    moreover have "rhe x \<le> \<lfloor>x\<rfloor> + 1" by (simp add: rhe_def Let_def)
    moreover have "\<lfloor>y\<rfloor> \<le> rhe y" by (simp add: rhe_def Let_def)
    ultimately show ?thesis by linarith
  qed
qed

lemma rhe_minus: "rhe (- x) = - rhe x"
proof (cases "x = of_int \<lfloor>x\<rfloor>")
  case True
  then show ?thesis by (metis of_int_minus rhe_of_int)
next
  case False
  have c: "\<lfloor>- x\<rfloor> = - \<lfloor>x\<rfloor> - 1"
  proof (intro floor_unique)
    show "of_int (- \<lfloor>x\<rfloor> - 1) \<le> - x" using floor_frac(2) [of x] by simp
    have "of_int \<lfloor>x\<rfloor> < x" using False floor_frac(1) [of x] by linarith
    then show "- x < of_int (- \<lfloor>x\<rfloor> - 1) + 1" by simp
  qed
  show ?thesis
    unfolding rhe_def Let_def c by (auto simp: field_simps)
qed

lemma rhu_error: "\<bar>of_int (rhu x) - x\<bar> \<le> 1/2"
proof -
  have "\<bar>of_int \<lfloor>y + 1/2\<rfloor> - y\<bar> \<le> 1/2" for y :: rat
  proof -
    define f where "f = \<lfloor>y + 1/2\<rfloor>"
    have "of_int f \<le> y + 1/2" "y + 1/2 < of_int f + 1"
      using floor_correct [of "y + 1/2"] by (simp_all add: f_def)
    then show ?thesis unfolding f_def [symmetric] by linarith
  qed
  from this [of x] this [of "- x"] show ?thesis
    unfolding rhu_def by (smt (verit) abs_minus_cancel minus_diff_eq of_int_minus minus_minus diff_minus_eq_add add.commute minus_add_distrib)
qed

lemma rhu_of_int [simp]: "rhu (of_int n) = n"
proof -
  have "\<lfloor>of_int m + 1/2 :: rat\<rfloor> = m" for m :: int by (intro floor_unique) auto
  from this [of n] this [of "- n"] show ?thesis by (auto simp: rhu_def)
qed

lemma rhu_0 [simp]: "rhu 0 = 0"
  using rhu_of_int [of 0] by simp

lemma rhu_minus: "rhu (- x) = - rhu x"
proof (cases "x = 0")
  case False
  then show ?thesis by (auto simp: rhu_def)
qed simp

lemma rhu_mono: "x \<le> y \<Longrightarrow> rhu x \<le> rhu y"
proof -
  assume xy: "x \<le> y"
  have pos: "0 \<le> \<lfloor>z + 1/2\<rfloor>" if "0 \<le> z" for z :: rat
    using that by simp
  consider "0 \<le> x" | "x < 0" "0 \<le> y" | "x < 0" "y < 0" by linarith
  then show ?thesis
  proof cases
    case 1
    with xy have "0 \<le> y" by simp
    then have "\<lfloor>x + 1/2\<rfloor> \<le> \<lfloor>y + 1/2\<rfloor>" using xy by (intro floor_mono) simp
    then show ?thesis using 1 \<open>0 \<le> y\<close> by (simp add: rhu_def)
  next
    case 2
    have "0 \<le> \<lfloor>- x + 1/2\<rfloor>" "0 \<le> \<lfloor>y + 1/2\<rfloor>" using 2 pos [of "- x"] pos [of y] by simp_all
    then have "- \<lfloor>- x + 1/2\<rfloor> \<le> \<lfloor>y + 1/2\<rfloor>" by linarith
    then show ?thesis using 2 by (simp add: rhu_def)
  next
    case 3
    have "\<lfloor>- y + 1/2\<rfloor> \<le> \<lfloor>- x + 1/2\<rfloor>" using xy by (intro floor_mono) simp
    then show ?thesis using 3 by (simp add: rhu_def)
  qed
qed

lemma rhu_nonneg: "0 \<le> x \<Longrightarrow> 0 \<le> rhu x"
  using rhu_mono [of 0 x] by simp

lemma rhu_nonpos: "x \<le> 0 \<Longrightarrow> rhu x \<le> 0"
  using rhu_mono [of x 0] by simp

lemma rtrunc_of_int [simp]: "rtrunc (of_int n) = n"
  by (auto simp: rtrunc_def floor_minus)

lemma rtrunc_nonneg: "0 \<le> x \<Longrightarrow> rtrunc x = \<lfloor>x\<rfloor>"
  by (simp add: rtrunc_def)

section \<open>Magnitude and significant digits\<close>

text \<open>\<open>mag b x\<close> is the exponent \<open>e\<close> with \<open>b ^ e \<le> x < b ^ (e + 1)\<close> for positive \<open>x\<close>.\<close>

definition mag :: "nat \<Rightarrow> rat \<Rightarrow> int" where
  "mag b x = (let (n, d) = quotient_of x; k = int (floorlog b (nat n)) - int (floorlog b (nat d))
     in if of_nat b powi k \<le> x then k else k - 1)"

text \<open>The number of digits of a positive integer, computed on integers (\<open>ilen\<close>) so that
  evaluation never leaves binary numerals.\<close>

function ilen :: "int \<Rightarrow> int \<Rightarrow> int" where
  "ilen b n = (if 0 < n \<and> 1 < b then 1 + ilen b (n div b) else 0)"
  by pat_completeness auto
termination
  by (relation "measure (\<lambda>(b, n). nat n)") (auto simp: nat_less_iff intro: int_div_less_self)

declare ilen.simps [simp del]

lemma ilen_floorlog: "ilen (int b) n = int (floorlog b (nat n))"
proof (induction "int b" n rule: ilen.induct)
  case (1 n)
  show ?case
  proof (cases "0 < n \<and> 1 < int b")
    case True
    then have "floorlog b (nat n) = floorlog b (nat n div b) + 1"
      by (subst compute_floorlog) auto
    moreover have "nat (n div int b) = nat n div b" using True by (simp add: nat_div_distrib)
    ultimately show ?thesis using True 1 by (simp add: ilen.simps [of "int b" n])
  next
    case False
    then show ?thesis by (auto simp: ilen.simps [of "int b" n] floorlog_def)
  qed
qed

lemma mag_code [code]:
  "mag b x = (let (n, d) = quotient_of x; k = ilen (int b) n - ilen (int b) d
     in if of_nat b powi k \<le> x then k else k - 1)"
  by (simp add: mag_def ilen_floorlog)

definition round_sig :: "nat \<Rightarrow> nat \<Rightarrow> rat \<Rightarrow> rat" where
  "round_sig b p x = (if x = 0 then 0 else
     let u = of_nat b powi (mag b \<bar>x\<bar> - int p + 1) in of_int (rhe (x / u)) * u)"

lemma floorlog_bounds_rat:
  assumes "1 < b" "0 < (n::int)"
  shows "of_nat b powi (int (floorlog b (nat n)) - 1) \<le> (of_int n :: rat)"
    and "(of_int n :: rat) < of_nat b powi (int (floorlog b (nat n)))"
proof -
  let ?m = "nat n"
  have m: "0 < ?m" and n: "(of_int n :: rat) = of_nat ?m" using assms by simp_all
  have b: "b ^ (floorlog b ?m - 1) \<le> ?m" "?m < b ^ floorlog b ?m"
    using floorlog_bounds [OF m assms(1)] by simp_all
  have f: "0 < floorlog b ?m" using m assms(1) by (simp add: floorlog_def)
  have "(of_nat (b ^ (floorlog b ?m - 1)) :: rat) \<le> of_nat ?m" using b(1) by (simp only: of_nat_le_iff)
  moreover have "(of_nat b :: rat) powi (int (floorlog b ?m) - 1) = of_nat (b ^ (floorlog b ?m - 1))"
  proof -
    have "int (floorlog b ?m) - 1 = int (floorlog b ?m - 1)" using f by simp
    then show ?thesis by (simp only: power_int_of_nat of_nat_power)
  qed
  ultimately show "of_nat b powi (int (floorlog b (nat n)) - 1) \<le> (of_int n :: rat)" by (simp add: n)
  have "(of_nat ?m :: rat) < of_nat (b ^ floorlog b ?m)" using b(2) by (simp only: of_nat_less_iff)
  then show "(of_int n :: rat) < of_nat b powi (int (floorlog b (nat n)))" by (simp add: n)
qed

lemma mag_bounds:
  assumes "1 < b" "0 < x"
  shows "of_nat b powi (mag b x) \<le> x" and "x < of_nat b powi (mag b x + 1)"
proof -
  obtain n d where q: "quotient_of x = (n, d)" by (cases "quotient_of x")
  have d: "0 < d" using quotient_of_denom_pos [OF q] .
  have x: "x = of_int n / of_int d" using quotient_of_div [OF q] .
  have n: "0 < n" using assms(2) d by (simp add: x zero_less_divide_iff)
  let ?B = "of_nat b :: rat" and ?i = "int (floorlog b (nat n))" and ?j = "int (floorlog b (nat d))"
  have B: "?B \<noteq> 0" "1 < ?B" "0 < ?B" using assms(1) by simp_all
  note nb = floorlog_bounds_rat [OF assms(1) n] and db = floorlog_bounds_rat [OF assms(1) d]
  have dpos: "(0::rat) < of_int d" using d by simp
  have hi: "x < ?B powi (?i - ?j + 1)"
  proof -
    have "?B powi ?i = ?B powi (?i - ?j + 1) * ?B powi (?j - 1)"
      using B by (simp flip: power_int_add)
    also have "\<dots> \<le> ?B powi (?i - ?j + 1) * of_int d"
      using db(1) B by (intro mult_left_mono) simp_all
    finally have "of_int n < ?B powi (?i - ?j + 1) * of_int d" using nb(2) by linarith
    then show ?thesis using dpos by (simp add: x pos_divide_less_eq)
  qed
  have lo: "?B powi (?i - ?j - 1) < x"
  proof -
    have "?B powi (?i - ?j - 1) * of_int d < ?B powi (?i - ?j - 1) * ?B powi ?j"
      using db(2) B by (intro mult_strict_left_mono) simp_all
    also have "\<dots> = ?B powi (?i - ?j - 1 + ?j)" by (simp only: power_int_add B(1) simp_thms not_False_eq_True)
    also have "\<dots> = ?B powi (?i - 1)" by simp
    finally have "?B powi (?i - ?j - 1) * of_int d < of_int n" using nb(1) by linarith
    then show ?thesis using dpos by (simp add: x pos_less_divide_eq)
  qed
  have m: "mag b x = (if ?B powi (?i - ?j) \<le> x then ?i - ?j else ?i - ?j - 1)"
    by (simp add: mag_def q)
  show "of_nat b powi (mag b x) \<le> x" using lo by (auto simp: m)
  show "x < of_nat b powi (mag b x + 1)" using hi by (auto simp: m)
qed

lemma mag_unique:
  assumes "1 < b" "of_nat b powi e \<le> x" "x < of_nat b powi (e + 1)"
  shows "mag b x = e"
proof -
  let ?B = "of_nat b :: rat"
  have B: "1 < ?B" using assms(1) by simp
  have x: "0 < x" using assms(2) B by (meson less_le_trans less_trans zero_less_one zero_less_power_int)
  have "?B powi e < ?B powi (mag b x + 1)" using assms(2) mag_bounds(2) [OF assms(1) x] by linarith
  then have "e < mag b x + 1" using B power_int_increasing [of "mag b x + 1" e ?B] by (meson not_less less_imp_le leD)
  moreover have "?B powi (mag b x) < ?B powi (e + 1)" using assms(3) mag_bounds(1) [OF assms(1) x] by linarith
  then have "mag b x < e + 1" using B power_int_increasing [of "e + 1" "mag b x" ?B] by (meson not_less less_imp_le leD)
  ultimately show ?thesis by simp
qed

lemma round_sig_0 [simp]: "round_sig b p 0 = 0"
  by (simp add: round_sig_def)

lemma round_sig_minus: "round_sig b p (- x) = - round_sig b p x"
  by (simp add: round_sig_def Let_def rhe_minus)

lemma round_sig_error:
  assumes "1 < b" "x \<noteq> 0"
  shows "\<bar>round_sig b p x - x\<bar> \<le> of_nat b powi (mag b \<bar>x\<bar> - int p + 1) / 2"
proof -
  define u :: rat where "u = of_nat b powi (mag b \<bar>x\<bar> - int p + 1)"
  have u: "0 < u" using assms(1) by (simp add: u_def)
  have "round_sig b p x = of_int (rhe (x / u)) * u"
    using assms(2) by (simp add: round_sig_def Let_def u_def)
  then have "round_sig b p x - x = (of_int (rhe (x / u)) - x / u) * u"
    using u by (simp add: left_diff_distrib)
  then have "\<bar>round_sig b p x - x\<bar> = \<bar>of_int (rhe (x / u)) - x / u\<bar> * u"
    using u by (simp add: abs_mult)
  also have "\<dots> \<le> 1/2 * u" using rhe_error [of "x / u"] u by (intro mult_right_mono) auto
  finally show ?thesis by (simp add: u_def)
qed

lemma round_sig_exact:
  assumes "1 < b" "x = of_int n * of_nat b powi (mag b \<bar>x\<bar> - int p + 1)"
  shows "round_sig b p x = x"
proof (cases "x = 0")
  case False
  define u :: rat where "u = of_nat b powi (mag b \<bar>x\<bar> - int p + 1)"
  have u: "0 < u" using assms(1) by (simp add: u_def)
  have x: "x = of_int n * u" using assms(2) by (simp only: u_def)
  have "round_sig b p x = of_int (rhe (x / u)) * u"
    using False by (simp add: round_sig_def Let_def u_def)
  also have "x / u = of_int n" using u by (simp add: x)
  finally show ?thesis by (simp add: x)
qed simp

lemma round_sig_nonneg: "1 < b \<Longrightarrow> 0 \<le> x \<Longrightarrow> 0 \<le> round_sig b p x"
  using rhe_mono [of 0 "x / of_nat b powi (mag b \<bar>x\<bar> - int p + 1)"]
  by (auto simp: round_sig_def Let_def)

end
