(* ===== verification/PyFloat.thy ===== *)
theory PyFloat
  imports Rounding
begin

text \<open>
  Python floats as the exact rationals they denote.  \<open>fl\<close> rounds a rational to the nearest
  binary64 value (53 significant bits, ties to even); the exponent range is not bounded, so
  overflow, the subnormal range and negative zero are outside the model.  \<open>shortest\<close> is the
  decimal that \<open>repr\<close> prints: the value with the fewest significant digits that reads back as
  the same float.  The main fact, \<open>shortest_fl\<close>, is that a decimal of at most 15
  significant digits survives being stored as a float and printed again.
\<close>

definition fl :: "rat \<Rightarrow> rat" where
  "fl x = round_sig 2 53 x"

definition float_digits :: "rat \<Rightarrow> nat" where
  "float_digits x = (case find (\<lambda>p. fl (round_sig 10 p x) = x) [1..<17] of Some p \<Rightarrow> p | None \<Rightarrow> 17)"

definition shortest :: "rat \<Rightarrow> rat" where
  "shortest x = round_sig 10 (float_digits x) x"

text \<open>\<open>round(x, n)\<close> of a float: the exact value correctly rounded to \<open>n\<close> decimals, as a float.\<close>

definition round_float :: "rat \<Rightarrow> nat \<Rightarrow> rat" where
  "round_float x n = fl (of_int (rhe (x * 10 ^ n)) / 10 ^ n)"

lemma fl_0 [simp]: "fl 0 = 0"
  by (simp add: fl_def)

lemma fl_minus: "fl (- x) = - fl x"
  by (simp add: fl_def round_sig_minus)

lemma fl_nonneg: "0 \<le> x \<Longrightarrow> 0 \<le> fl x"
  by (simp add: fl_def round_sig_nonneg)

lemma fl_nonpos: "x \<le> 0 \<Longrightarrow> fl x \<le> 0"
  using fl_nonneg [of "- x"] by (simp add: fl_minus)

lemma fl_error: "\<bar>fl x - x\<bar> \<le> \<bar>x\<bar> / 2 ^ 53"
proof (cases "x = 0")
  case False
  have "\<bar>fl x - x\<bar> \<le> 2 powi (mag 2 \<bar>x\<bar> - 53 + 1) / 2"
    using round_sig_error [of 2 x 53] False by (simp add: fl_def)
  also have "(2::rat) powi (mag 2 \<bar>x\<bar> - 53 + 1) = 2 powi (mag 2 \<bar>x\<bar>) * 2 powi (- 52)"
    using power_int_add [of "2::rat" "mag 2 \<bar>x\<bar>" "- 52"] by simp
  also have "(2::rat) powi (- 52) = 2 / 2 ^ 53"
    by (simp add: power_int_minus)
  also have "2 powi (mag 2 \<bar>x\<bar>) * (2 / 2 ^ 53) / 2 = 2 powi (mag 2 \<bar>x\<bar>) / (2 ^ 53 :: rat)"
    by simp
  also have "\<dots> \<le> \<bar>x\<bar> / 2 ^ 53"
    using mag_bounds(1) [of 2 "\<bar>x\<bar>"] False by (intro divide_right_mono) auto
  finally show ?thesis .
qed simp

lemma fl_pos: "0 < x \<Longrightarrow> 0 < fl x"
  using fl_error [of x] by (auto simp: field_simps abs_if split: if_splits)

lemma fl_eq_0 [simp]: "fl x = 0 \<longleftrightarrow> x = 0"
  using fl_pos [of x] fl_pos [of "- x"] by (cases x "0::rat" rule: linorder_cases) (auto simp: fl_minus)

lemma p10_pos [simp]: "0 < (10::rat) powi e"
  by simp

lemma p10_less_iff: "(10::rat) powi a < 10 powi b \<longleftrightarrow> a < b"
  using power_int_strict_increasing [of a b "10::rat"] power_int_increasing [of b a "10::rat"]
  by (cases "a < b") auto

lemma p10_le_iff: "(10::rat) powi a \<le> 10 powi b \<longleftrightarrow> a \<le> b"
  using p10_less_iff [of b a] by linarith

lemma p10_add: "(10::rat) powi (a + b) = 10 powi a * 10 powi b"
  by (simp add: power_int_add)

lemma p10_nat: "0 \<le> e \<Longrightarrow> (10::rat) powi e = of_int (10 ^ nat e)"
  by (metis int_nat_eq of_int_numeral of_int_power power_int_of_nat)

text \<open>A decimal of at most \<open>p\<close> significant digits.\<close>

definition sig_digits :: "nat \<Rightarrow> rat \<Rightarrow> bool" where
  "sig_digits p d \<longleftrightarrow> (\<exists>n j. d = of_int n * 10 powi j \<and> \<bar>n\<bar> \<le> 10 ^ p)"

lemma sig_digits_strict:
  assumes "sig_digits p d" "0 < d" "0 < p"
  obtains n j where "d = of_int n * 10 powi j" "0 < n" "n < 10 ^ p"
proof -
  obtain n j where d: "d = of_int n * 10 powi j" and n: "\<bar>n\<bar> \<le> 10 ^ p"
    using assms(1) by (auto simp: sig_digits_def)
  have pos: "0 < n" using assms(2) p10_pos [of j] by (auto simp: d zero_less_mult_iff)
  show ?thesis
  proof (cases "n = 10 ^ p")
    case True
    have "d = of_int 1 * 10 powi (int p + j)"
      by (simp add: d True power_int_add)
    then show ?thesis using that [of 1 "int p + j"] assms(3) by simp
  qed (use that [of n j] d n pos in auto)
qed

lemma sig_digits_round_sig: "0 < p \<Longrightarrow> sig_digits p (round_sig 10 p x)"
proof (cases "x = 0")
  case True
  then show ?thesis by (auto simp: sig_digits_def intro!: exI [of _ 0])
next
  case False
  assume p: "0 < p"
  define m where "m = mag 10 \<bar>x\<bar>"
  define u :: rat where "u = 10 powi (m - int p + 1)"
  have u: "0 < u" by (simp add: u_def)
  have "\<bar>x\<bar> < 10 powi (m + 1)" using mag_bounds(2) [of 10 "\<bar>x\<bar>"] False by (simp add: m_def)
  also have "\<dots> = 10 ^ p * u"
    by (simp add: u_def flip: power_int_of_nat power_int_add)
  finally have "\<bar>x / u\<bar> \<le> of_int (10 ^ p)" using u by (simp add: field_simps)
  then have "x / u \<le> of_int (10 ^ p)" "- of_int (10 ^ p) \<le> x / u" by linarith+
  then have "rhe (x / u) \<le> rhe (of_int (10 ^ p))" "rhe (of_int (- (10 ^ p))) \<le> rhe (x / u)"
    by (auto intro!: rhe_mono)
  then have "rhe (x / u) \<le> 10 ^ p" "- (10 ^ p) \<le> rhe (x / u)"
    by (simp_all only: rhe_of_int)
  moreover have "round_sig 10 p x = of_int (rhe (x / u)) * 10 powi (m - int p + 1)"
    using False by (simp add: round_sig_def Let_def u_def m_def)
  ultimately show ?thesis unfolding sig_digits_def by (intro exI [of _ "rhe (x / u)"] exI conjI) auto
qed

lemma round_sig_15_fl_pos:
  assumes "sig_digits 15 d" "0 < d"
  shows "round_sig 10 15 (fl d) = d"
proof -
  obtain n j where d: "d = of_int n * 10 powi j" and n: "0 < n" "n < 10 ^ 15"
    using sig_digits_strict [OF assms] by auto
  define x where "x = fl d"
  define m where "m = mag 10 x"
  have x: "0 < x" using fl_pos [OF assms(2)] by (simp add: x_def)
  have err: "\<bar>x - d\<bar> \<le> d / 2 ^ 53" using fl_error [of d] assms(2) by (simp add: x_def)
  have lo: "10 powi m \<le> x" and hi: "x < 10 powi (m + 1)"
    using mag_bounds [of 10 x] x by (simp_all add: m_def)
  have jm: "m - 14 \<le> j"
  proof (rule ccontr)
    assume "\<not> m - 14 \<le> j"
    then have j: "15 + j \<le> m" by simp
    have "d \<le> of_int (10 ^ 15 - 1) * 10 powi j"
      unfolding d using n(2) by (intro mult_right_mono) simp_all
    also have "\<dots> = 10 powi (15 + j) - 10 powi j" by (simp add: p10_add algebra_simps)
    also have "(10::rat) powi (15 + j) \<le> 10 powi m" using j by (simp only: p10_le_iff)
    finally have "d \<le> x - 10 powi j" using lo by linarith
    moreover have "d / 2 ^ 53 < 10 powi j"
    proof -
      have "d < of_int (10 ^ 15) * 10 powi j" unfolding d using n(2) by (intro mult_strict_right_mono) simp_all
      also have "\<dots> < 2 ^ 53 * 10 powi j" by (intro mult_strict_right_mono) simp_all
      finally show ?thesis by (simp add: divide_less_eq mult.commute)
    qed
    ultimately show False using err by linarith
  qed
  define t :: rat where "t = 10 powi (m - 14)"
  have t: "0 < t" by (simp add: t_def)
  define N where "N = n * 10 ^ nat (j - (m - 14))"
  have dN: "d = of_int N * t"
  proof -
    have "(10::rat) powi j = 10 powi (j - (m - 14)) * t" by (simp add: t_def flip: p10_add)
    also have "(10::rat) powi (j - (m - 14)) = of_int (10 ^ nat (j - (m - 14)))"
      using jm by (intro p10_nat) simp
    finally show ?thesis by (simp add: d N_def)
  qed
  have "(10::rat) powi (m + 1) = 10 ^ 15 * t" using p10_add [of 15 "m - 14"] by (simp add: t_def add.commute)
  then have "x < 10 ^ 15 * t" using hi by simp
  then have "\<bar>x - d\<bar> < t / 2" using err t by (simp add: abs_if field_simps split: if_splits)
  then have "\<bar>of_int N - x / t\<bar> < 1/2" using t unfolding dN by (auto simp: abs_if field_simps split: if_splits)
  then have "rhe (x / t) = N" by (rule rhe_unique)
  moreover have "round_sig 10 15 x = of_int (rhe (x / t)) * t"
    using x by (simp add: round_sig_def Let_def t_def m_def)
  ultimately show ?thesis by (simp add: dN x_def)
qed

lemma round_sig_15_fl: "sig_digits 15 d \<Longrightarrow> round_sig 10 15 (fl d) = d"
proof (cases d "0::rat" rule: linorder_cases)
  case less
  assume d: "sig_digits 15 d"
  then obtain n j where "d = of_int n * 10 powi j" "\<bar>n\<bar> \<le> 10 ^ 15" by (auto simp: sig_digits_def)
  then have "sig_digits 15 (- d)" unfolding sig_digits_def by (intro exI [of _ "- n"] exI [of _ j]) simp
  with less round_sig_15_fl_pos [of "- d"] show ?thesis by (simp add: fl_minus round_sig_minus)
qed (auto intro: round_sig_15_fl_pos)

lemma sig_digits_mono: "sig_digits p d \<Longrightarrow> p \<le> q \<Longrightarrow> sig_digits q d"
proof -
  assume "sig_digits p d" and pq: "p \<le> q"
  then obtain n j where d: "d = of_int n * 10 powi j" and n: "\<bar>n\<bar> \<le> 10 ^ p" by (auto simp: sig_digits_def)
  have "(10::int) ^ p \<le> 10 ^ q" using pq by (intro power_increasing) auto
  with n have "\<bar>n\<bar> \<le> 10 ^ q" by linarith
  with d show ?thesis unfolding sig_digits_def by blast
qed

lemma find_append_split: "find P (xs @ ys) = (case find P xs of Some x \<Rightarrow> Some x | None \<Rightarrow> find P ys)"
  by (induction xs) auto

theorem shortest_fl: "sig_digits 15 d \<Longrightarrow> shortest (fl d) = d"
proof -
  assume d: "sig_digits 15 d"
  let ?P = "\<lambda>p. fl (round_sig 10 p (fl d)) = fl d"
  have p15: "?P 15" by (simp add: round_sig_15_fl [OF d])
  have up: "[1..<17] = [1..<15] @ [15, 16::nat]" by (simp add: upt_rec)
  have up': "[Suc 0..<17] = [1..<15] @ [15, 16::nat]" using up by simp
  obtain p where p: "float_digits (fl d) = p" "?P p" "1 \<le> p" "p \<le> 15"
  proof (cases "find ?P [1..<15]")
    case None
    then have "find ?P [1..<17] = Some 15" using p15 by (simp add: up up' find_append_split del: upt_rec_numeral)
    then show ?thesis using that [of 15] p15 by (simp add: float_digits_def)
  next
    case (Some p)
    then have "find ?P [1..<17] = Some p" by (simp add: up up' find_append_split del: upt_rec_numeral)
    moreover have "?P p" "p \<in> set [1..<15]" using Some by (auto simp: find_Some_iff simp del: upt_rec_numeral)
    ultimately show ?thesis using that [of p] by (simp add: float_digits_def)
  qed
  define d' where "d' = round_sig 10 p (fl d)"
  have "sig_digits 15 d'"
    using sig_digits_mono [OF sig_digits_round_sig, of p 15] p(3,4) by (simp add: d'_def)
  then have "round_sig 10 15 (fl d') = d'" by (rule round_sig_15_fl)
  moreover have "fl d' = fl d" using p(2) by (simp add: d'_def)
  ultimately have "d' = d" by (simp add: round_sig_15_fl [OF d])
  then show ?thesis by (simp add: shortest_def p(1) d'_def)
qed

lemma fl_inject: "sig_digits 15 a \<Longrightarrow> sig_digits 15 b \<Longrightarrow> fl a = fl b \<longleftrightarrow> a = b"
  by (metis shortest_fl)

lemma sig_digits_of_scaled: "x = of_int n / 10 ^ k \<Longrightarrow> \<bar>n\<bar> \<le> 10 ^ p \<Longrightarrow> sig_digits p x"
  unfolding sig_digits_def
  by (intro exI [of _ n] exI [of _ "- int k"]) (simp add: power_int_minus field_simps)

end
