(* ===== verification/PyDecimal.thy ===== *)
theory PyDecimal
  imports PyFloat
begin

text \<open>
  Python's \<open>decimal.Decimal\<close> under the default context: 28 significant digits, ties to
  even.  A finite decimal is its coefficient and exponent, \<open>Fin c e\<close> for \<open>c * 10 ^ e\<close>,
  as the module keeps it, so that both the value (\<open>dval\<close>) and the text (\<open>dec_str\<close> in
  \<open>PyText\<close>) are determined; infinities, quiet and signalling NaN are values of their own.
  Every signal the default context traps (invalid operation, division by zero) is the
  exception \<open>ArithmeticError\<close>.  The exponent range is not bounded and negative zero is
  not distinguished from zero.

  The lemmas give the value of each operation: sum, difference and product are exact while
  they fit in 28 digits (\<open>fits28\<close>), a quotient is within half a unit in the 28th digit, and
  \<open>dquantize\<close> is rounding half away from zero to a number of places.
\<close>

datatype dec = Fin int int | Inf bool | NaN | SNaN

definition ndig :: "int \<Rightarrow> nat" where
  "ndig c = nat (ilen 10 \<bar>c\<bar>)"

abbreviation prec :: nat where "prec \<equiv> 28"

text \<open>The value of a finite decimal.\<close>

fun dval :: "dec \<Rightarrow> rat" where
  "dval (Fin c e) = of_int c * 10 powi e"
| "dval _ = 0"

definition is_fin :: "dec \<Rightarrow> bool" where
  "is_fin d = (case d of Fin _ _ \<Rightarrow> True | _ \<Rightarrow> False)"

text \<open>Rounding a result to the context.\<close>

fun dfix :: "dec \<Rightarrow> dec" where
  "dfix (Fin c e) =
     (if ndig c \<le> prec then Fin c e
      else let s = ndig c - prec; c' = rhe (of_int c / 10 ^ s)
           in if ndig c' \<le> prec then Fin c' (e + int s) else Fin (c' div 10) (e + int s + 1))"
| "dfix d = d"

definition dec_binop :: "(dec \<Rightarrow> dec \<Rightarrow> dec res) \<Rightarrow> dec \<Rightarrow> dec \<Rightarrow> dec res" where
  "dec_binop f a b =
     (if a = SNaN \<or> b = SNaN then Inl ArithmeticError
      else if a = NaN \<or> b = NaN then Inr NaN else f a b)"

fun dadd0 :: "dec \<Rightarrow> dec \<Rightarrow> dec res" where
  "dadd0 (Fin a ea) (Fin b eb) =
     (let e = min ea eb in Inr (dfix (Fin (a * 10 ^ nat (ea - e) + b * 10 ^ nat (eb - e)) e)))"
| "dadd0 (Inf s) (Inf t) = (if s = t then Inr (Inf s) else Inl ArithmeticError)"
| "dadd0 (Inf s) _ = Inr (Inf s)"
| "dadd0 _ b = Inr b"

definition dadd :: "dec \<Rightarrow> dec \<Rightarrow> dec res" where
  "dadd a b = dec_binop dadd0 a b"

fun dcopy_neg :: "dec \<Rightarrow> dec" where
  "dcopy_neg (Fin c e) = Fin (- c) e"
| "dcopy_neg (Inf s) = Inf (\<not> s)"
| "dcopy_neg d = d"

definition dsub :: "dec \<Rightarrow> dec \<Rightarrow> dec res" where
  "dsub a b = dadd a (dcopy_neg b)"

text \<open>Unary minus rounds to the context.\<close>

definition dneg :: "dec \<Rightarrow> dec res" where
  "dneg a = (if a = SNaN then Inl ArithmeticError else Inr (dfix (dcopy_neg a)))"

fun dmul0 :: "dec \<Rightarrow> dec \<Rightarrow> dec res" where
  "dmul0 (Fin a ea) (Fin b eb) = Inr (dfix (Fin (a * b) (ea + eb)))"
| "dmul0 (Inf s) (Inf t) = Inr (Inf (s \<noteq> t))"
| "dmul0 (Inf s) (Fin b _) = (if b = 0 then Inl ArithmeticError else Inr (Inf (s \<noteq> (b < 0))))"
| "dmul0 (Fin a _) (Inf t) = (if a = 0 then Inl ArithmeticError else Inr (Inf ((a < 0) \<noteq> t)))"
| "dmul0 _ b = Inr b"

definition dmul :: "dec \<Rightarrow> dec \<Rightarrow> dec res" where
  "dmul a b = dec_binop dmul0 a b"

text \<open>
  The quotient: at least one guard digit beyond the context, an inexact quotient marked by
  a last digit that is neither 0 nor 5, an exact one brought as near to the ideal exponent as it goes.
\<close>

fun strip_zeros :: "nat \<Rightarrow> int \<Rightarrow> int \<Rightarrow> dec" where
  "strip_zeros 0 c e = Fin c e"
| "strip_zeros (Suc n) c e = (if c mod 10 = 0 then strip_zeros n (c div 10) (e + 1) else Fin c e)"

definition ddiv_fin :: "int \<Rightarrow> int \<Rightarrow> int \<Rightarrow> int \<Rightarrow> dec" where
  "ddiv_fin a ea b eb =
     (let shift = int (ndig b) - int (ndig a) + int prec + 1;
          e = ea - eb - shift;
          n = (if 0 \<le> shift then \<bar>a\<bar> * 10 ^ nat shift else \<bar>a\<bar>);
          m = (if 0 \<le> shift then \<bar>b\<bar> else \<bar>b\<bar> * 10 ^ nat (- shift));
          q = n div m; s = sgn a * sgn b
      in if n mod m \<noteq> 0 then dfix (Fin (s * (if q mod 5 = 0 then q + 1 else q)) e)
         else (case strip_zeros (nat (ea - eb - e)) q e of Fin c e' \<Rightarrow> dfix (Fin (s * c) e') | d \<Rightarrow> d))"

fun ddiv0 :: "dec \<Rightarrow> dec \<Rightarrow> dec res" where
  "ddiv0 (Fin a ea) (Fin b eb) =
     (if b = 0 then Inl ArithmeticError
      else if a = 0 then Inr (Fin 0 (ea - eb))
      else Inr (ddiv_fin a ea b eb))"
| "ddiv0 (Inf _) (Inf _) = Inl ArithmeticError"
| "ddiv0 (Inf s) (Fin b _) = Inr (Inf (s \<noteq> (b < 0)))"
| "ddiv0 _ _ = Inr (Fin 0 0)"

definition ddiv :: "dec \<Rightarrow> dec \<Rightarrow> dec res" where
  "ddiv a b = dec_binop ddiv0 a b"

text \<open>Order: a comparison with a NaN is an invalid operation; \<open>==\<close> with a quiet NaN is false.\<close>

fun dless0 :: "dec \<Rightarrow> dec \<Rightarrow> bool" where
  "dless0 (Fin a ea) (Fin b eb) = (dval (Fin a ea) < dval (Fin b eb))"
| "dless0 (Inf s) (Inf t) = (s \<and> \<not> t)"
| "dless0 (Inf s) _ = s"
| "dless0 _ (Inf t) = (\<not> t)"
| "dless0 _ _ = False"

fun deq0 :: "dec \<Rightarrow> dec \<Rightarrow> bool" where
  "deq0 (Fin a ea) (Fin b eb) = (dval (Fin a ea) = dval (Fin b eb))"
| "deq0 (Inf s) (Inf t) = (s = t)"
| "deq0 _ _ = False"

definition is_nan :: "dec \<Rightarrow> bool" where
  "is_nan d = (d = NaN \<or> d = SNaN)"

definition dless :: "dec \<Rightarrow> dec \<Rightarrow> bool res" where
  "dless a b = (if is_nan a \<or> is_nan b then Inl ArithmeticError else Inr (dless0 a b))"

definition dleq :: "dec \<Rightarrow> dec \<Rightarrow> bool res" where
  "dleq a b = (if is_nan a \<or> is_nan b then Inl ArithmeticError else Inr (dless0 a b \<or> deq0 a b))"

definition deq :: "dec \<Rightarrow> dec \<Rightarrow> bool res" where
  "deq a b = (if a = SNaN \<or> b = SNaN then Inl ArithmeticError else Inr (deq0 a b))"

text \<open>\<open>max(a, b)\<close> and \<open>min(a, b)\<close> of the language: the first unless the second is strictly beyond it.\<close>

definition dmax :: "dec \<Rightarrow> dec \<Rightarrow> dec res" where
  "dmax a b = rbind (dless a b) (\<lambda>l. Inr (if l then b else a))"

definition dmin :: "dec \<Rightarrow> dec \<Rightarrow> dec res" where
  "dmin a b = rbind (dless b a) (\<lambda>l. Inr (if l then b else a))"

text \<open>\<open>d.quantize(Decimal(10) ** q, ROUND_HALF_UP)\<close>.\<close>

fun dquantize :: "dec \<Rightarrow> int \<Rightarrow> dec res" where
  "dquantize (Fin c e) q =
     (let c' = (if q \<le> e then c * 10 ^ nat (e - q) else rhu (of_int c / 10 ^ nat (q - e)))
      in if ndig c' \<le> prec then Inr (Fin c' q) else Inl ArithmeticError)"
| "dquantize NaN q = Inr NaN"
| "dquantize _ q = Inl ArithmeticError"

fun dec_true :: "dec \<Rightarrow> bool" where
  "dec_true (Fin c _) = (c \<noteq> 0)"
| "dec_true _ = True"

fun dec_int :: "dec \<Rightarrow> int res" where
  "dec_int (Fin c e) = Inr (rtrunc (dval (Fin c e)))"
| "dec_int (Inf _) = Inl ArithmeticError"
| "dec_int _ = Inl ValueError"

fun dec_float :: "dec \<Rightarrow> rat res" where
  "dec_float (Fin c e) = Inr (fl (dval (Fin c e)))"
| "dec_float SNaN = Inl ValueError"
| "dec_float _ = Inl NonFiniteFloat"

text \<open>The digits and exponent \<open>repr\<close> prints a float with, and the decimal read back from
  that text: a float below \<open>10 ^ 16\<close> prints with a decimal point, a whole one with \<open>.0\<close>.\<close>

definition float_parts :: "rat \<Rightarrow> int \<times> int" where
  "float_parts x =
     (let p = float_digits x; e = mag 10 \<bar>x\<bar> - int p + 1; c = rhe (x / 10 powi e)
      in if \<bar>c\<bar> = 10 ^ p then (sgn c, e + int p) else (c, e))"

definition dec_of_float :: "rat \<Rightarrow> dec" where
  "dec_of_float x =
     (if x = 0 then Fin 0 (- 1)
      else let (c, e) = float_parts x
           in if 0 \<le> e \<and> int (ndig c) + e \<le> 16 then Fin (c * 10 ^ nat (e + 1)) (- 1) else Fin c e)"

definition dec_of_int :: "int \<Rightarrow> dec" where
  "dec_of_int n = Fin n 0"

section \<open>Values of the operations\<close>

lemma is_fin_simps [simp]: "is_fin (Fin c e)" "\<not> is_fin (Inf s)" "\<not> is_fin NaN" "\<not> is_fin SNaN"
  by (simp_all add: is_fin_def)

lemma is_finE: assumes "is_fin d" obtains c e where "d = Fin c e"
  using assms by (cases d) auto

lemma is_nan_Fin [simp]: "\<not> is_nan (Fin c e)"
  by (simp add: is_nan_def)

lemma ndig_floorlog: "ndig c = floorlog 10 (nat \<bar>c\<bar>)"
  using ilen_floorlog [of 10 "\<bar>c\<bar>"] by (simp add: ndig_def)

lemma ndig_le_iff: "ndig c \<le> k \<longleftrightarrow> \<bar>c\<bar> < 10 ^ k"
proof -
  have "ndig c \<le> k \<longleftrightarrow> nat \<bar>c\<bar> < 10 ^ k"
    by (simp add: ndig_floorlog floorlog_le_iff)
  also have "\<dots> \<longleftrightarrow> \<bar>c\<bar> < 10 ^ k"
    by (metis abs_ge_zero nat_less_iff of_nat_numeral of_nat_power)
  finally show ?thesis .
qed

text \<open>A value that fits in the context: at most 28 digits.\<close>

definition fits28 :: "rat \<Rightarrow> bool" where
  "fits28 x \<longleftrightarrow> sig_digits prec x"

lemma strip_zeros_fin: "is_fin (strip_zeros n c e)"
  by (induction n arbitrary: c e) auto

lemma dval_strip_zeros: "dval (strip_zeros n c e) = of_int c * 10 powi e"
proof (induction n arbitrary: c e)
  case (Suc n)
  have "of_int (c div 10) * 10 powi (e + 1) = (of_int c * 10 powi e :: rat)" if "c mod 10 = 0"
  proof -
    have "c = c div 10 * 10" using that by presburger
    then have "(of_int c :: rat) = of_int (c div 10) * 10" by (metis of_int_mult of_int_numeral)
    then show ?thesis by (simp add: p10_add)
  qed
  then show ?case using Suc by simp
qed simp

lemma dfix_fin [simp]: "is_fin (dfix d) = is_fin d"
  by (cases d) (auto simp: Let_def)

lemma dfix_small: "\<bar>c\<bar> < 10 ^ prec \<Longrightarrow> dfix (Fin c e) = Fin c e"
  using ndig_le_iff [of c prec] by simp

lemma dec_mag:
  assumes "c \<noteq> 0"
  shows "mag 10 \<bar>of_int c * 10 powi e\<bar> = int (ndig c) - 1 + e"
proof (rule mag_unique)
  have "1 < (10::nat)" "0 < \<bar>c\<bar>" using assms by simp_all
  note b = floorlog_bounds_rat [OF this]
  have eq: "floorlog 10 (nat \<bar>c\<bar>) = ndig c" by (simp add: ndig_floorlog)
  have "(10::rat) powi (int (ndig c) - 1) * 10 powi e \<le> of_int \<bar>c\<bar> * 10 powi e"
    using b(1) by (intro mult_right_mono) (simp_all add: eq)
  then show "of_nat 10 powi (int (ndig c) - 1 + e) \<le> \<bar>(of_int c :: rat) * 10 powi e\<bar>"
    by (simp add: p10_add abs_mult)
  have "of_int \<bar>c\<bar> * 10 powi e < (10::rat) powi (int (ndig c)) * 10 powi e"
    using b(2) by (intro mult_strict_right_mono) (simp_all add: eq)
  then show "\<bar>(of_int c :: rat) * 10 powi e\<bar> < of_nat 10 powi (int (ndig c) - 1 + e + 1)"
    by (simp add: p10_add abs_mult)
qed simp

lemma dval_dfix: "is_fin d \<Longrightarrow> dval (dfix d) = round_sig 10 prec (dval d)"
proof (elim is_finE, simp only:)
  fix c e
  show "dval (dfix (Fin c e)) = round_sig 10 prec (dval (Fin c e))"
  proof (cases "c = 0")
    case True
    then show ?thesis by (simp add: ndig_def ilen.simps)
  next
    case False
    let ?x = "dval (Fin c e)"
    have m: "mag 10 \<bar>?x\<bar> = int (ndig c) - 1 + e" using dec_mag [OF False, of e] by simp
    define u :: rat where "u = 10 powi (mag 10 \<bar>?x\<bar> - int prec + 1)"
    have r: "round_sig 10 prec ?x = of_int (rhe (?x / u)) * u"
      using False by (simp add: round_sig_def Let_def u_def)
    show ?thesis
    proof (cases "ndig c \<le> prec")
      case True
      have "?x = of_int (c * 10 ^ (prec - ndig c)) * u"
      proof -
        have "(10::rat) powi e = 10 powi (int (prec - ndig c)) * u"
          using True unfolding u_def m by (simp flip: p10_add)
        then show ?thesis by (simp add: power_int_of_nat)
      qed
      then have "round_sig 10 prec ?x = ?x"
        unfolding u_def by (intro round_sig_exact [where n = "c * 10 ^ (prec - ndig c)"]) simp_all
      then show ?thesis using True by simp
    next
      case big: False
      define s where "s = ndig c - prec"
      define c' where "c' = rhe (of_int c / 10 ^ s)"
      have u: "u = 10 powi (e + int s)" unfolding u_def m using big by (simp add: s_def add.commute add_diff_eq)
      have xu: "?x / u = of_int c / 10 ^ s"
        by (simp add: u p10_add power_int_of_nat)
      have rs: "round_sig 10 prec ?x = of_int c' * 10 powi (e + int s)"
        by (simp only: r xu c'_def flip: u)
      show ?thesis
      proof (cases "ndig c' \<le> prec")
        case True
        then show ?thesis using big rs by (simp add: Let_def flip: s_def c'_def)
      next
        case carry: False
        have "c' mod 10 = 0"
        proof -
          have "\<bar>c\<bar> < 10 ^ ndig c" using ndig_le_iff [of c "ndig c"] by simp
          also have "ndig c = prec + s" using big by (simp add: s_def)
          then have "(10::int) ^ ndig c = 10 ^ prec * 10 ^ s" by (simp only: power_add)
          finally have "c \<le> 10 ^ prec * 10 ^ s" "- (10 ^ prec * 10 ^ s) \<le> c" by linarith+
          then have "(of_int c :: rat) \<le> of_int (10 ^ prec * 10 ^ s)" "of_int (- (10 ^ prec * 10 ^ s)) \<le> (of_int c :: rat)"
            by (simp_all only: of_int_le_iff)
          then have "of_int c / 10 ^ s \<le> (of_int (10 ^ prec) :: rat)" "of_int (- (10 ^ prec)) \<le> (of_int c / 10 ^ s :: rat)"
            by (simp_all add: pos_divide_le_eq pos_le_divide_eq)
          then have "rhe (of_int c / 10 ^ s) \<le> rhe (of_int (10 ^ prec))" "rhe (of_int (- (10 ^ prec))) \<le> rhe (of_int c / 10 ^ s)"
            by (auto intro!: rhe_mono)
          then have "\<bar>c'\<bar> \<le> 10 ^ prec" unfolding c'_def rhe_of_int by linarith
          moreover have "\<not> \<bar>c'\<bar> < 10 ^ prec" using carry ndig_le_iff by blast
          ultimately have "\<bar>c'\<bar> = 10 ^ prec" by linarith
          then have "c' = 10 ^ prec \<or> c' = - (10 ^ prec)" by linarith
          then show ?thesis by (elim disjE) simp_all
        qed
        then have c10: "c' = c' div 10 * 10" by presburger
        have "of_int (c' div 10) * 10 powi (e + int s + 1) = (of_int (c' div 10 * 10) * 10 powi (e + int s) :: rat)"
          by (simp add: p10_add)
        then show ?thesis using big carry rs c10 by (simp add: Let_def flip: s_def c'_def)
      qed
    qed
  qed
qed

text \<open>A value of at most \<open>p\<close> digits is its own rounding to \<open>p\<close> digits.\<close>

lemma round_sig_sig_digits: "sig_digits p d \<Longrightarrow> 0 < p \<Longrightarrow> round_sig 10 p d = d"
proof -
  have pos: "round_sig 10 p d = d" if "sig_digits p d" "0 < d" "0 < p" for d
  proof -
    obtain n j where d: "d = of_int n * 10 powi j" and n: "0 < n" "n < 10 ^ p"
      using sig_digits_strict [OF \<open>sig_digits p d\<close> \<open>0 < d\<close> \<open>0 < p\<close>] by auto
    have m: "mag 10 \<bar>d\<bar> = int (ndig n) - 1 + j" using dec_mag [of n j] n(1) by (simp add: d)
    have "ndig n \<le> p" using n by (simp add: ndig_le_iff)
    then have "of_int (n * 10 ^ (p - ndig n)) * (10::rat) powi (mag 10 \<bar>d\<bar> - int p + 1) = d"
      unfolding m by (simp add: d power_int_of_nat [symmetric] p10_add [symmetric])
    then show ?thesis by (intro round_sig_exact [where n = "n * 10 ^ (p - ndig n)"]) simp_all
  qed
  assume d: "sig_digits p d" "0 < p"
  consider "0 < d" | "d = 0" | "0 < - d" by linarith
  then show ?thesis
  proof cases
    case 3
    obtain n j where "d = of_int n * 10 powi j" "\<bar>n\<bar> \<le> 10 ^ p" using d(1) by (auto simp: sig_digits_def)
    then have "sig_digits p (- d)" unfolding sig_digits_def by (intro exI [of _ "- n"] exI [of _ j]) simp
    with pos [of "- d"] 3 d(2) show ?thesis by (simp add: round_sig_minus)
  qed (use pos d in auto)
qed

abbreviation rnd28 :: "rat \<Rightarrow> rat" where "rnd28 \<equiv> round_sig 10 prec"

lemma rnd28_fits: "fits28 x \<Longrightarrow> rnd28 x = x"
  by (simp add: fits28_def round_sig_sig_digits)

lemma rnd28_nonneg: "0 \<le> x \<Longrightarrow> 0 \<le> rnd28 x"
  by (simp add: round_sig_nonneg)

lemma rnd28_error: "\<bar>rnd28 x - x\<bar> \<le> \<bar>x\<bar> / (2 * 10 ^ 27)"
proof (cases "x = 0")
  case False
  have "\<bar>rnd28 x - x\<bar> \<le> 10 powi (mag 10 \<bar>x\<bar> - 27) / 2"
    using round_sig_error [of 10 x 28] False by simp
  also have "(10::rat) powi (mag 10 \<bar>x\<bar> - 27) = 10 powi (mag 10 \<bar>x\<bar>) / 10 ^ 27"
    using p10_add [of "mag 10 \<bar>x\<bar>" "- 27"] by (simp add: power_int_minus)
  also have "\<dots> \<le> \<bar>x\<bar> / 10 ^ 27"
    using mag_bounds(1) [of 10 "\<bar>x\<bar>"] False by (intro divide_right_mono) auto
  finally show ?thesis by simp
qed simp

text \<open>\<open>dec_is m x\<close>: the computation \<open>m\<close> returns a finite decimal of value \<open>x\<close>.\<close>

definition dec_is :: "dec res \<Rightarrow> rat \<Rightarrow> bool" where
  "dec_is m x \<longleftrightarrow> (\<exists>d. m = Inr d \<and> is_fin d \<and> dval d = x)"

lemma dec_isI: "m = Inr d \<Longrightarrow> is_fin d \<Longrightarrow> dval d = x \<Longrightarrow> dec_is m x"
  by (auto simp: dec_is_def)

lemma dec_isE:
  assumes "dec_is m x"
  obtains d where "m = Inr d" "is_fin d" "dval d = x"
  using assms by (auto simp: dec_is_def)

lemma dec_is_Inr [simp]: "dec_is (Inr d) x \<longleftrightarrow> is_fin d \<and> dval d = x"
  by (auto simp: dec_is_def)

lemma dec_is_Inl [simp]: "\<not> dec_is (Inl e) x"
  by (auto simp: dec_is_def)

lemma dval_add_align:
  assumes "e \<le> ea" "e \<le> eb"
  shows "dval (Fin (a * 10 ^ nat (ea - e) + b * 10 ^ nat (eb - e)) e) = dval (Fin a ea) + dval (Fin b eb)"
proof -
  have "(10::rat) powi ea = of_int (10 ^ nat (ea - e)) * 10 powi e" "(10::rat) powi eb = of_int (10 ^ nat (eb - e)) * 10 powi e"
    using p10_add [of "ea - e" e] p10_add [of "eb - e" e] p10_nat [of "ea - e"] p10_nat [of "eb - e"] assms by simp_all
  then show ?thesis by (simp add: algebra_simps)
qed

lemma dadd_val: "is_fin a \<Longrightarrow> is_fin b \<Longrightarrow> dec_is (dadd a b) (rnd28 (dval a + dval b))"
  by (elim is_finE) (simp add: dadd_def dec_binop_def Let_def dval_dfix dval_add_align del: dval.simps dfix.simps)

lemma dcopy_neg_fin [simp]: "is_fin (dcopy_neg d) = is_fin d" "dval (dcopy_neg d) = - dval d"
  by (cases d; simp)+

lemma dsub_val: "is_fin a \<Longrightarrow> is_fin b \<Longrightarrow> dec_is (dsub a b) (rnd28 (dval a - dval b))"
  using dadd_val [of a "dcopy_neg b"] by (simp add: dsub_def)

lemma dneg_val: "is_fin a \<Longrightarrow> dec_is (dneg a) (rnd28 (- dval a))"
  by (elim is_finE) (simp add: dneg_def dval_dfix del: dfix.simps)

lemma dmul_val: "is_fin a \<Longrightarrow> is_fin b \<Longrightarrow> dec_is (dmul a b) (rnd28 (dval a * dval b))"
  by (elim is_finE) (simp add: dmul_def dec_binop_def dval_dfix p10_add del: dfix.simps, simp add: mult_ac)

lemma is_fin_neq [simp]: "is_fin a \<Longrightarrow> a \<noteq> NaN" "is_fin a \<Longrightarrow> a \<noteq> SNaN" "is_fin a \<Longrightarrow> \<not> is_nan a"
  by (auto simp: is_nan_def)

lemma dless_val [simp]: "is_fin a \<Longrightarrow> is_fin b \<Longrightarrow> dless a b = Inr (dval a < dval b)"
  by (elim is_finE) (simp add: dless_def del: dval.simps)

lemma dleq_val [simp]: "is_fin a \<Longrightarrow> is_fin b \<Longrightarrow> dleq a b = Inr (dval a \<le> dval b)"
  by (elim is_finE) (auto simp add: dleq_def simp del: dval.simps)

lemma deq_val [simp]: "is_fin a \<Longrightarrow> is_fin b \<Longrightarrow> deq a b = Inr (dval a = dval b)"
  by (elim is_finE) (simp add: deq_def del: dval.simps)

lemma dmax_val: "is_fin a \<Longrightarrow> is_fin b \<Longrightarrow> dec_is (dmax a b) (max (dval a) (dval b))"
  by (simp add: dmax_def max_def)

lemma dmin_val: "is_fin a \<Longrightarrow> is_fin b \<Longrightarrow> dec_is (dmin a b) (min (dval a) (dval b))"
  by (simp add: dmin_def min_def)

lemma dec_true_val [simp]: "is_fin a \<Longrightarrow> dec_true a \<longleftrightarrow> dval a \<noteq> 0"
  by (elim is_finE) simp

lemma dec_int_val [simp]: "is_fin a \<Longrightarrow> dec_int a = Inr (rtrunc (dval a))"
  by (elim is_finE) simp

lemma dec_float_val [simp]: "is_fin a \<Longrightarrow> dec_float a = Inr (fl (dval a))"
  by (elim is_finE) simp

text \<open>Rounding half away from zero to \<open>q\<close> decimal places.\<close>

definition round_places :: "int \<Rightarrow> rat \<Rightarrow> rat" where
  "round_places q x = of_int (rhu (x * 10 powi q)) * 10 powi (- q)"

lemma rhu_dval: "rhu (dval (Fin c e) * 10 powi (- q)) =
    (if q \<le> e then c * 10 ^ nat (e - q) else rhu (of_int c / 10 ^ nat (q - e)))"
proof (cases "q \<le> e")
  case True
  have "dval (Fin c e) * 10 powi (- q) = of_int c * 10 powi (e - q)"
    using p10_add [of e "- q"] by simp
  also have "\<dots> = of_int (c * 10 ^ nat (e - q))" using p10_nat [of "e - q"] True by simp
  finally show ?thesis using True by (simp only: rhu_of_int if_True)
next
  case False
  have "dval (Fin c e) * 10 powi (- q) = of_int c * 10 powi (- (q - e))"
    using p10_add [of e "- q"] by simp
  also have "\<dots> = of_int c / 10 ^ nat (q - e)"
    using p10_nat [of "q - e"] False by (simp only: power_int_minus) (simp add: divide_inverse)
  finally show ?thesis using False by simp
qed

lemma dquantize_val:
  assumes "is_fin d" "\<bar>rhu (dval d * 10 powi q)\<bar> < 10 ^ prec"
  shows "dquantize d (- q) = Inr (Fin (rhu (dval d * 10 powi q)) (- q))"
proof -
  obtain c e where d: "d = Fin c e" using assms(1) by (rule is_finE)
  show ?thesis using assms(2) rhu_dval [of c e "- q"] by (simp add: d Let_def ndig_le_iff del: dval.simps)
qed

lemma dquantize_Inr:
  assumes "is_fin d" "dquantize d (- q) = Inr r"
  shows "r = Fin (rhu (dval d * 10 powi q)) (- q)" "\<bar>rhu (dval d * 10 powi q)\<bar> < 10 ^ prec"
    "dval r = round_places q (dval d)"
proof -
  obtain c e where d: "d = Fin c e" using assms(1) by (rule is_finE)
  show r: "r = Fin (rhu (dval d * 10 powi q)) (- q)" "\<bar>rhu (dval d * 10 powi q)\<bar> < 10 ^ prec"
    using assms(2) rhu_dval [of c e "- q"] by (auto simp: d Let_def ndig_le_iff simp del: dval.simps split: if_splits)
  show "dval r = round_places q (dval d)" by (simp add: r(1) round_places_def)
qed

lemma dquantize_fin_cases:
  "is_fin d \<Longrightarrow> dquantize d (- q) =
     (if \<bar>rhu (dval d * 10 powi q)\<bar> < 10 ^ prec then Inr (Fin (rhu (dval d * 10 powi q)) (- q))
      else Inl ArithmeticError)"
proof (elim is_finE, simp only:)
  fix c e
  show "dquantize (Fin c e) (- q) = (if \<bar>rhu (dval (Fin c e) * 10 powi q)\<bar> < 10 ^ prec
      then Inr (Fin (rhu (dval (Fin c e) * 10 powi q)) (- q)) else Inl ArithmeticError)"
    using rhu_dval [of c e "- q"] by (simp add: Let_def ndig_le_iff del: dval.simps)
qed

lemma round_places_error: "\<bar>round_places q x - x\<bar> \<le> 10 powi (- q) / 2"
proof -
  have "\<bar>of_int (rhu (x * 10 powi q)) - x * 10 powi q\<bar> * 10 powi (- q) \<le> 1/2 * 10 powi (- q)"
    by (intro mult_right_mono rhu_error) simp
  also have "\<bar>of_int (rhu (x * 10 powi q)) - x * 10 powi q\<bar> * 10 powi (- q)
    = \<bar>(of_int (rhu (x * 10 powi q)) - x * 10 powi q) * 10 powi (- q)\<bar>" by (simp add: abs_mult)
  also have "(of_int (rhu (x * 10 powi q)) - x * 10 powi q) * 10 powi (- q) = round_places q x - x"
    using p10_add [of q "- q"] by (simp add: round_places_def left_diff_distrib)
  finally show ?thesis by simp
qed

lemma round_places_exact: "x = of_int n * 10 powi (- q) \<Longrightarrow> round_places q x = x"
proof -
  assume x: "x = of_int n * 10 powi (- q)"
  have "x * 10 powi q = of_int n" using p10_add [of "- q" q] by (simp add: x mult.assoc)
  then have "rhu (x * 10 powi q) = n" by (simp only: rhu_of_int)
  then show ?thesis by (simp add: round_places_def x)
qed

lemma round_places_idem [simp]: "round_places q (round_places q x) = round_places q x"
  by (rule round_places_exact) (simp only: round_places_def)

lemma round_places_0 [simp]: "round_places q 0 = 0"
  by (simp add: round_places_def)

lemma round_places_mono: "x \<le> y \<Longrightarrow> round_places q x \<le> round_places q y"
  unfolding round_places_def by (intro mult_right_mono) (auto intro!: rhu_mono mult_right_mono)

lemma round_places_nonneg: "0 \<le> x \<Longrightarrow> 0 \<le> round_places q x"
  using round_places_mono [of 0 x q] by simp

lemma round_places_minus: "round_places q (- x) = - round_places q x"
  by (simp add: round_places_def rhu_minus)

text \<open>
  The quotient is correctly rounded.  A last digit other than 0 and 5 stands for the digits
  cut off (\<open>sticky\<close>): it lies strictly between the same multiples of 5 as the exact
  quotient, and every tie and every power of ten is a multiple of 5 there.
\<close>

lemma round_sig_sticky:
  fixes q :: int and y :: rat
  assumes q: "0 < q" "q mod 5 \<noteq> 0" "int prec < mag 10 (of_int q) + 1"
    and sticky: "\<And>k :: int. of_int (5 * k) < y \<longleftrightarrow> 5 * k < q" "\<And>k :: int. y < of_int (5 * k) \<longleftrightarrow> q < 5 * k"
  shows "round_sig 10 prec y = round_sig 10 prec (of_int q)"
proof -
  define m where "m = mag 10 (of_int q :: rat)"
  have qpos: "(0::rat) < of_int q" using q(1) by simp
  have m: "28 \<le> m" using q(3) by (simp add: m_def)
  note mb = mag_bounds [of 10 "of_int q :: rat", folded m_def]
  have p10: "(10::rat) powi k = of_int (5 * (2 * 10 ^ nat (k - 1)))" if "1 \<le> k" for k
  proof -
    have "(10::rat) powi k = 10 powi (k - 1) * 10" using p10_add [of "k - 1" 1] by simp
    also have "(10::rat) powi (k - 1) = of_int (10 ^ nat (k - 1))" using that by (intro p10_nat) simp
    finally show ?thesis by simp
  qed
  have ne: "of_int q \<noteq> (of_int (5 * k) :: rat)" for k :: int
  proof -
    have "q \<noteq> 5 * k" using q(2) by auto
    then show ?thesis by (metis of_int_eq_iff)
  qed
  have lo: "(10::rat) powi m < y"
  proof -
    have "(10::rat) powi m \<le> of_int q" using mb(1) qpos by simp
    moreover have "(10::rat) powi m = of_int (5 * (2 * 10 ^ nat (m - 1)))" using m by (intro p10) simp
    ultimately have "of_int (5 * (2 * 10 ^ nat (m - 1))) < (of_int q :: rat)" and
      pm: "(10::rat) powi m = of_int (5 * (2 * 10 ^ nat (m - 1)))"
      using ne [of "2 * 10 ^ nat (m - 1)"] by linarith+
    then have "of_int (5 * (2 * 10 ^ nat (m - 1))) < y" unfolding sticky(1) by (simp only: of_int_less_iff)
    then show ?thesis by (simp only: pm)
  qed
  have hi: "y < (10::rat) powi (m + 1)"
  proof -
    have "of_int q < (10::rat) powi (m + 1)" using mb(2) qpos by simp
    moreover have "(10::rat) powi (m + 1) = of_int (5 * (2 * 10 ^ nat (m + 1 - 1)))" using m by (intro p10) simp
    ultimately show ?thesis by (simp only: sticky(2) of_int_less_iff)
  qed
  have ypos: "0 < y" using lo p10_pos [of m] by linarith
  have my: "mag 10 \<bar>y\<bar> = m" using lo hi ypos by (intro mag_unique) simp_all
  define u :: rat where "u = 10 powi (m - 27)"
  define h :: int where "h = 10 ^ nat (m - 27 - 1)"
  have h: "0 < h" by (simp add: h_def)
  have u: "u = of_int (10 * h)" using p10 [of "m - 27"] m by (simp add: u_def h_def)
  have upos: "0 < u" by (simp add: u_def)
  define n where "n = rhe (of_int q / u)"
  have "\<bar>of_int n - of_int q / u\<bar> \<le> 1/2" using rhe_error by (simp add: n_def)
  then have "\<bar>of_int n - of_int q / u\<bar> * u \<le> 1/2 * u" using upos by (intro mult_right_mono) auto
  moreover have "\<bar>of_int n - of_int q / u\<bar> * u = \<bar>of_int n * u - of_int q\<bar>"
    using upos by (simp add: abs_mult_pos left_diff_distrib)
  ultimately have "\<bar>of_int (10 * h * n) - of_int q\<bar> \<le> (of_int (5 * h) :: rat)" by (simp add: u mult_ac)
  then have "\<bar>10 * h * n - q\<bar> \<le> 5 * h" by (simp only: of_int_diff [symmetric] of_int_abs [symmetric] of_int_le_iff)
  moreover have "10 * h * n - q \<noteq> 5 * h" "10 * h * n - q \<noteq> - (5 * h)"
  proof -
    have "q \<noteq> 5 * (2 * h * n - h)" "q \<noteq> 5 * (2 * h * n + h)" using q(2) by auto
    then show "10 * h * n - q \<noteq> 5 * h" "10 * h * n - q \<noteq> - (5 * h)" by (simp_all add: algebra_simps)
  qed
  ultimately have b: "5 * (2 * h * n - h) < q" "q < 5 * (2 * h * n + h)" by (simp_all add: algebra_simps)
  then have "of_int (5 * (2 * h * n - h)) < y" "y < of_int (5 * (2 * h * n + h))" by (simp_all only: sticky)
  then have "(of_int n - 1/2) * u < y" "y < (of_int n + 1/2) * u" by (simp_all add: u algebra_simps)
  then have "of_int n - 1/2 < y / u" "y / u < of_int n + 1/2"
    using upos by (simp_all add: pos_less_divide_eq pos_divide_less_eq)
  then have "\<bar>of_int n - y / u\<bar> < 1/2" by linarith
  then have "rhe (y / u) = n" by (rule rhe_unique)
  then show ?thesis using ypos qpos q(1) my by (simp add: round_sig_def Let_def n_def u_def m_def)
qed

lemma ddiv_fin_val:
  assumes "a \<noteq> 0" "b \<noteq> 0"
  shows "is_fin (ddiv_fin a ea b eb)"
    "dval (ddiv_fin a ea b eb) = rnd28 (dval (Fin a ea) / dval (Fin b eb))"
proof -
  define shift where "shift = int (ndig b) - int (ndig a) + int prec + 1"
  define e where "e = ea - eb - shift"
  define n where "n = (if 0 \<le> shift then \<bar>a\<bar> * 10 ^ nat shift else \<bar>a\<bar>)"
  define m where "m = (if 0 \<le> shift then \<bar>b\<bar> else \<bar>b\<bar> * 10 ^ nat (- shift))"
  define q where "q = n div m"
  define s where "s = sgn a * sgn b"
  define y :: rat where "y = of_int n / of_int m"
  have m: "0 < m" using assms by (simp add: m_def)
  have yq: "of_int q \<le> y" "y < of_int q + 1"
  proof -
    have "q = \<lfloor>y\<rfloor>" by (simp add: q_def y_def floor_divide_of_int_eq)
    then show "of_int q \<le> y" "y < of_int q + 1" using floor_correct [of y] by simp_all
  qed
  have yval: "y = of_int \<bar>a\<bar> / of_int \<bar>b\<bar> * 10 powi shift"
  proof (cases "0 \<le> shift")
    case True
    then show ?thesis using p10_nat [of shift] by (simp add: y_def n_def m_def)
  next
    case False
    have "y = of_int \<bar>a\<bar> / of_int \<bar>b\<bar> * inverse (of_int (10 ^ nat (- shift)))"
      using False by (simp add: y_def n_def m_def divide_inverse)
    also have "inverse (of_int (10 ^ nat (- shift))) = (10::rat) powi shift"
      using False p10_nat [of "- shift"] by (metis inverse_inverse_eq linorder_le_cases neg_0_le_iff_le power_int_minus)
    finally show ?thesis .
  qed
  have sgn: "of_int s * (of_int \<bar>a\<bar> / of_int \<bar>b\<bar>) = (of_int a / of_int b :: rat)"
    by (cases "a < 0"; cases "b < 0"; simp add: s_def assms sgn_if)
  have target: "dval (Fin a ea) / dval (Fin b eb) = of_int s * y * 10 powi e"
  proof -
    have "of_int s * y * 10 powi e = of_int a / of_int b * (10 powi shift * 10 powi e)"
      by (simp add: yval flip: sgn)
    also have "10 powi shift * 10 powi e = (10::rat) powi (ea + (- eb))"
      by (simp add: e_def flip: p10_add)
    also have "\<dots> = 10 powi ea / 10 powi eb" by (simp only: p10_add power_int_minus divide_inverse)
    finally show ?thesis by simp
  qed
  have ylow: "10 powi 28 \<le> y"
  proof -
    have "1 < (10::nat)" "0 < \<bar>a\<bar>" "0 < \<bar>b\<bar>" using assms by simp_all
    note fa = floorlog_bounds_rat [OF this(1,2)] and fb = floorlog_bounds_rat [OF this(1,3)]
    let ?na = "int (ndig a)" and ?nb = "int (ndig b)"
    have "(10::rat) powi 28 * of_int \<bar>b\<bar> \<le> 10 powi 28 * 10 powi ?nb"
      using fb(2) by (intro mult_left_mono) (simp_all add: ndig_floorlog)
    also have "\<dots> = 10 powi (28 + ?nb)" by (simp only: p10_add)
    also have "28 + ?nb = (?na - 1) + shift" by (simp add: shift_def)
    also have "10 powi \<dots> = 10 powi (?na - 1) * (10::rat) powi shift" by (simp only: p10_add)
    also have "\<dots> \<le> of_int \<bar>a\<bar> * 10 powi shift"
      using fa(1) by (intro mult_right_mono) (simp_all add: ndig_floorlog)
    finally have "(10::rat) powi 28 \<le> of_int \<bar>a\<bar> * 10 powi shift / of_int \<bar>b\<bar>"
      using assms by (simp add: pos_le_divide_eq)
    then show ?thesis by (simp add: yval)
  qed
  have q28: "10 ^ 28 \<le> q"
  proof -
    have "of_int (10 ^ 28) \<le> y" using ylow by simp
    then have "10 ^ 28 \<le> \<lfloor>y\<rfloor>" by (simp only: le_floor_iff)
    then show ?thesis by (simp add: q_def y_def floor_divide_of_int_eq)
  qed
  have scale: "rnd28 (of_int s * z * 10 powi e) = of_int s * rnd28 z * 10 powi e" if "0 < z" for z
  proof -
    have shift: "rnd28 (z * 10 powi e) = rnd28 z * 10 powi e"
    proof -
      define k where "k = mag 10 z"
      have lo: "10 powi k \<le> z" and hi: "z < 10 powi (k + 1)"
        using mag_bounds [of 10 z] that by (simp_all add: k_def)
      have "10 powi (k + e) \<le> z * 10 powi e" unfolding p10_add using lo by (intro mult_right_mono) simp_all
      moreover have "z * 10 powi e < 10 powi (k + 1) * 10 powi e" using hi by (intro mult_strict_right_mono) simp_all
      then have "z * 10 powi e < 10 powi (k + e + 1)" by (simp add: add_ac flip: p10_add)
      ultimately have "mag 10 (z * 10 powi e) = k + e" by (intro mag_unique) simp_all
      moreover have "10 powi (k + e - 27) = 10 powi (k - 27) * (10::rat) powi e"
        using p10_add [of "k - 27" e] by (simp add: algebra_simps)
      ultimately show ?thesis using that by (simp add: round_sig_def Let_def k_def)
    qed
    have "s = 1 \<or> s = - 1" using assms by (auto simp: s_def sgn_if)
    then show ?thesis using shift by (auto simp: round_sig_minus)
  qed
  have unf: "ddiv_fin a ea b eb = (if n mod m \<noteq> 0 then dfix (Fin (s * (if q mod 5 = 0 then q + 1 else q)) e)
     else (case strip_zeros (nat (ea - eb - e)) q e of Fin c e' \<Rightarrow> dfix (Fin (s * c) e') | d \<Rightarrow> d))"
    unfolding ddiv_fin_def Let_def shift_def [symmetric] e_def [symmetric] n_def [symmetric]
      m_def [symmetric] q_def [symmetric] s_def [symmetric] by (rule refl)
  have "is_fin (ddiv_fin a ea b eb) \<and> dval (ddiv_fin a ea b eb) = rnd28 (dval (Fin a ea) / dval (Fin b eb))"
  proof (cases "n mod m = 0")
    case True
    obtain c e' where st: "strip_zeros (nat (ea - eb - e)) q e = Fin c e'"
      using strip_zeros_fin by (rule is_finE)
    have "of_int c * 10 powi e' = (of_int q * 10 powi e :: rat)"
      using dval_strip_zeros [of "nat (ea - eb - e)" q e] by (simp add: st)
    moreover have "n = q * m" using True div_mult_mod_eq [of n m] by (simp add: q_def)
    then have "y = of_int q" using m by (simp add: y_def)
    ultimately have "dval (Fin (s * c) e') = dval (Fin a ea) / dval (Fin b eb)"
      unfolding target by simp
    then show ?thesis unfolding unf using True by (simp add: st dval_dfix del: dval.simps dfix.simps)
  next
    case False
    define q' where "q' = (if q mod 5 = 0 then q + 1 else q)"
    have q': "q' mod 5 \<noteq> 0" "10 ^ 28 \<le> q'" using q28 by (auto simp: q'_def mod_add_left_eq) presburger+
    have strict: "of_int q < y"
    proof -
      have "of_int q * of_int m \<noteq> (of_int n :: rat)"
      proof -
        have "q * m \<noteq> n" using False div_mult_mod_eq [of n m] unfolding q_def by linarith
        then show ?thesis by (metis of_int_eq_iff of_int_mult)
      qed
      moreover have "of_int m \<noteq> (0::rat)" using m by simp
      ultimately have "y \<noteq> of_int q" unfolding y_def by (metis nonzero_divide_eq_eq)
      then show ?thesis using yq(1) by simp
    qed
    have sticky: "of_int (5 * k) < y \<longleftrightarrow> 5 * k < q'" "y < of_int (5 * k) \<longleftrightarrow> q' < 5 * k" for k :: int
    proof -
      have 1: "of_int (5 * k) < y \<longleftrightarrow> 5 * k \<le> q"
      proof
        assume "of_int (5 * k) < y"
        then have "(of_int (5 * k) :: rat) < of_int (q + 1)" using yq(2) by simp
        then show "5 * k \<le> q" by (simp only: of_int_less_iff)
      next
        assume "5 * k \<le> q"
        then have "(of_int (5 * k) :: rat) \<le> of_int q" by (simp only: of_int_le_iff)
        then show "of_int (5 * k) < y" using strict by linarith
      qed
      have 2: "y < of_int (5 * k) \<longleftrightarrow> q < 5 * k"
      proof
        assume "y < of_int (5 * k)"
        then have "(of_int q :: rat) < of_int (5 * k)" using strict by linarith
        then show "q < 5 * k" by (simp only: of_int_less_iff)
      next
        assume "q < 5 * k"
        then have "(of_int (q + 1) :: rat) \<le> of_int (5 * k)" by (simp only: of_int_le_iff)
        then show "y < of_int (5 * k)" using yq(2) by simp
      qed
      show "of_int (5 * k) < y \<longleftrightarrow> 5 * k < q'" "y < of_int (5 * k) \<longleftrightarrow> q' < 5 * k"
        unfolding 1 2 q'_def by presburger+
    qed
    have "rnd28 y = rnd28 (of_int q')"
    proof (rule round_sig_sticky)
      have "(10::rat) powi 28 \<le> of_int q'"
        using q'(2) by (metis of_int_le_iff of_int_numeral of_int_power power_int_numeral)
      then have "(10::rat) powi 28 < 10 powi (mag 10 (of_int q') + 1)"
        using mag_bounds(2) [of 10 "of_int q' :: rat"] p10_pos [of 28] by (simp only: of_nat_numeral) linarith
      then show "int prec < mag 10 (of_int q') + 1" by (simp only: p10_less_iff)
    qed (use q' sticky in auto)
    moreover have "dval (Fin (s * q') e) = of_int s * of_int q' * 10 powi e" by simp
    ultimately have "rnd28 (dval (Fin (s * q') e)) = rnd28 (dval (Fin a ea) / dval (Fin b eb))"
      unfolding target using scale [of y] scale [of "of_int q'"] ylow p10_pos [of 28] q'(2) by simp
    then show ?thesis unfolding unf using False
      by (simp add: dval_dfix del: dval.simps dfix.simps flip: q'_def)
  qed
  then show "is_fin (ddiv_fin a ea b eb)" "dval (ddiv_fin a ea b eb) = rnd28 (dval (Fin a ea) / dval (Fin b eb))"
    by simp_all
qed

lemma ddiv_val:
  assumes "is_fin a" "is_fin b" "dval b \<noteq> 0"
  shows "dec_is (ddiv a b) (rnd28 (dval a / dval b))"
proof -
  obtain c e d f where a: "a = Fin c e" and b: "b = Fin d f" using assms by (elim is_finE)
  have d: "d \<noteq> 0" using assms(3) by (simp add: b)
  show ?thesis
  proof (cases "c = 0")
    case True
    then show ?thesis using d by (simp add: a b ddiv_def dec_binop_def)
  next
    case False
    then show ?thesis using d ddiv_fin_val [OF False d, of e f]
      by (simp add: a b ddiv_def dec_binop_def del: dval.simps)
  qed
qed

lemma ddiv_zero: "is_fin a \<Longrightarrow> is_fin b \<Longrightarrow> dval b = 0 \<Longrightarrow> ddiv a b = Inl ArithmeticError"
  by (elim is_finE) (simp add: ddiv_def dec_binop_def)

lemma dec_of_float_fin [simp]: "is_fin (dec_of_float x)"
  by (auto simp: dec_of_float_def Let_def split: prod.splits)

lemma dval_dec_of_float: "dval (dec_of_float x) = shortest x"
proof (cases "x = 0")
  case True
  then show ?thesis by (simp add: dec_of_float_def shortest_def)
next
  case False
  define p where "p = float_digits x"
  define e where "e = mag 10 \<bar>x\<bar> - int p + 1"
  define c where "c = rhe (x / 10 powi e)"
  have sh: "shortest x = of_int c * 10 powi e"
    using False by (simp add: shortest_def round_sig_def Let_def c_def e_def p_def)
  obtain c' e' where parts: "float_parts x = (c', e')" by (cases "float_parts x")
  have fp: "float_parts x = (if \<bar>c\<bar> = 10 ^ p then (sgn c, e + int p) else (c, e))"
    unfolding float_parts_def Let_def p_def [symmetric] e_def [symmetric] c_def [symmetric] by (rule refl)
  have val: "of_int c' * 10 powi e' = (of_int c * 10 powi e :: rat)"
  proof (cases "\<bar>c\<bar> = 10 ^ p")
    case True
    have "c = sgn c * 10 ^ p" using True by (simp add: sgn_mult_abs flip: True)
    then have "(of_int c :: rat) = of_int (sgn c) * 10 powi (int p)"
      by (metis of_int_mult of_int_numeral of_int_power power_int_of_nat)
    moreover have "c' = sgn c" "e' = e + int p" using parts True by (simp_all add: fp)
    ultimately show ?thesis by (simp add: p10_add)
  next
    case False
    then show ?thesis using parts by (simp add: fp)
  qed
  have "of_int (c' * 10 ^ nat (e' + 1)) * (10::rat) powi (- 1) = of_int c' * 10 powi e'" if "0 \<le> e'"
    using p10_nat [of "e' + 1"] that p10_add [of e' 1] by (simp add: power_int_minus)
  then have "dval (dec_of_float x) = of_int c' * 10 powi e'"
    using False parts by (simp add: dec_of_float_def)
  then show ?thesis by (simp add: val sh)
qed

text \<open>What is stored as a float reads back as the decimal it was, up to 15 significant digits.\<close>

theorem stored_decimal_reads_back: "sig_digits 15 d \<Longrightarrow> dval (dec_of_float (fl d)) = d"
  by (simp add: dval_dec_of_float shortest_fl)

lemma dec_of_int_val [simp]: "is_fin (dec_of_int n)" "dval (dec_of_int n) = of_int n"
  by (simp_all add: dec_of_int_def)

end
