(* ===== verification/PyText.thy ===== *)
theory PyText
  imports PyDecimal "HOL-Library.Char_ord" "HOL-Library.List_Lexorder"
begin

text \<open>
  The string operations the source uses, over lists of characters (ASCII), and the decimal
  literals: \<open>parse_dec\<close> is what \<open>Decimal(text)\<close> accepts, \<open>dec_str\<close> what \<open>str(Decimal)\<close>
  prints and \<open>float_str\<close> what \<open>repr(float)\<close> prints.  A printed decimal reads back as itself,
  coefficient and exponent included (\<open>parse_dec_str\<close>).
\<close>

section \<open>Characters\<close>

definition char_code :: "char \<Rightarrow> nat" where
  "char_code c = of_char c"

definition to_upper :: "char \<Rightarrow> char" where
  "to_upper c = (let n = char_code c in if 97 \<le> n \<and> n \<le> 122 then char_of (n - 32) else c)"

definition to_lower :: "char \<Rightarrow> char" where
  "to_lower c = (let n = char_code c in if 65 \<le> n \<and> n \<le> 90 then char_of (n + 32) else c)"

definition py_upper :: "string \<Rightarrow> string" where "py_upper s = map to_upper s"

definition py_lower :: "string \<Rightarrow> string" where "py_lower s = map to_lower s"

definition is_space :: "char \<Rightarrow> bool" where
  "is_space c = (let n = char_code c in n = 32 \<or> (9 \<le> n \<and> n \<le> 13) \<or> (28 \<le> n \<and> n \<le> 31))"

definition py_strip :: "string \<Rightarrow> string" where
  "py_strip s = rev (dropWhile is_space (rev (dropWhile is_space s)))"

definition starts_with :: "string \<Rightarrow> string \<Rightarrow> bool" where
  "starts_with pre s = (take (length pre) s = pre)"

definition ends_with :: "string \<Rightarrow> string \<Rightarrow> bool" where
  "ends_with suf s = (length suf \<le> length s \<and> drop (length s - length suf) s = suf)"

section \<open>Digits\<close>

definition digit_char :: "int \<Rightarrow> char" where
  "digit_char d = char_of (nat (48 + d))"

definition char_digit :: "char \<Rightarrow> int option" where
  "char_digit c = (let n = int (char_code c) in if 48 \<le> n \<and> n \<le> 57 then Some (n - 48) else None)"

text \<open>The digits of a number that is not negative, most significant first.\<close>

function int_digits :: "int \<Rightarrow> int list" where
  "int_digits n = (if n < 10 then [n] else int_digits (n div 10) @ [n mod 10])"
  by pat_completeness auto
termination by (relation "measure nat") (auto simp: nat_less_iff)

declare int_digits.simps [simp del]

definition nat_str :: "int \<Rightarrow> string" where
  "nat_str n = map digit_char (int_digits n)"

definition int_str :: "int \<Rightarrow> string" where
  "int_str n = (if n < 0 then ''-'' @ nat_str (- n) else nat_str n)"

definition digits_val :: "int list \<Rightarrow> int" where
  "digits_val ds = foldl (\<lambda>a d. 10 * a + d) 0 ds"

fun take_digits :: "string \<Rightarrow> int list \<times> string" where
  "take_digits [] = ([], [])"
| "take_digits (c # cs) =
     (case char_digit c of
        None \<Rightarrow> ([], c # cs)
      | Some d \<Rightarrow> (let (ds, r) = take_digits cs in (d # ds, r)))"

section \<open>Decimal literals\<close>

text \<open>A signed exponent, the whole rest of the text.\<close>

definition parse_exp :: "string \<Rightarrow> int option" where
  "parse_exp s =
     (let (sg, r) = (case s of CHR ''-'' # t \<Rightarrow> (- 1, t) | CHR ''+'' # t \<Rightarrow> (1, t) | _ \<Rightarrow> (1, s));
          (ds, rest) = take_digits r
      in if ds = [] \<or> rest \<noteq> [] then None else Some (sg * digits_val ds))"

text \<open>An unsigned number: digits with at most one point, an optional exponent.\<close>

definition parse_number :: "string \<Rightarrow> (int \<times> int) option" where
  "parse_number s =
     (let (ip, r) = take_digits s;
          (fp, r') = (case r of CHR ''.'' # t \<Rightarrow> take_digits t | _ \<Rightarrow> ([], r));
          c = digits_val (ip @ fp)
      in if ip = [] \<and> fp = [] then None
         else (case r' of
             [] \<Rightarrow> Some (c, - int (length fp))
           | x # t \<Rightarrow> if x = CHR ''e'' \<or> x = CHR ''E''
                      then map_option (\<lambda>k. (c, k - int (length fp))) (parse_exp t) else None))"

definition all_digits :: "string \<Rightarrow> bool" where
  "all_digits s = list_all (\<lambda>c. char_digit c \<noteq> None) s"

definition parse_special :: "string \<Rightarrow> bool \<Rightarrow> dec option" where
  "parse_special s neg =
     (let l = py_lower s in
      if l = ''inf'' \<or> l = ''infinity'' then Some (Inf neg)
      else if starts_with ''nan'' l \<and> all_digits (drop 3 l) then Some NaN
      else if starts_with ''snan'' l \<and> all_digits (drop 4 l) then Some SNaN
      else None)"

definition parse_unsigned :: "string \<Rightarrow> bool \<Rightarrow> dec option" where
  "parse_unsigned s neg =
     (case parse_number s of
        Some (c, e) \<Rightarrow> Some (Fin (if neg then - c else c) e)
      | None \<Rightarrow> parse_special s neg)"

definition parse_signed :: "string \<Rightarrow> dec option" where
  "parse_signed s =
     (case s of CHR ''-'' # t \<Rightarrow> parse_unsigned t True
              | CHR ''+'' # t \<Rightarrow> parse_unsigned t False
              | _ \<Rightarrow> parse_unsigned s False)"

text \<open>\<open>Decimal(text)\<close>: surrounding space and every underscore are dropped first.\<close>

definition parse_dec :: "string \<Rightarrow> dec option" where
  "parse_dec s = parse_signed (filter (\<lambda>c. c \<noteq> CHR ''_'') (py_strip s))"

text \<open>\<open>float(text)\<close> takes an underscore only between two digits.\<close>

fun underscores_ok :: "bool \<Rightarrow> string \<Rightarrow> bool" where
  "underscores_ok p [] = True"
| "underscores_ok p (c # cs) =
     (if c = CHR ''_''
      then p \<and> (case cs of [] \<Rightarrow> False | d # _ \<Rightarrow> char_digit d \<noteq> None) \<and> underscores_ok False cs
      else underscores_ok (char_digit c \<noteq> None) cs)"

definition parse_float :: "string \<Rightarrow> dec option" where
  "parse_float s = (if underscores_ok False (py_strip s) then parse_dec s else None)"

text \<open>\<open>int(text)\<close>.\<close>

definition parse_int :: "string \<Rightarrow> int option" where
  "parse_int s =
     (let t = py_strip s;
          (sg, r) = (case t of CHR ''-'' # u \<Rightarrow> (- 1, u) | CHR ''+'' # u \<Rightarrow> (1, u) | _ \<Rightarrow> (1, t));
          (ds, rest) = take_digits (filter (\<lambda>c. c \<noteq> CHR ''_'') r)
      in if ds = [] \<or> rest \<noteq> [] \<or> \<not> underscores_ok False r then None else Some (sg * digits_val ds))"

section \<open>Printing\<close>

text \<open>\<open>str(Decimal)\<close>: scientific notation only for a positive exponent or a value below 1e-6.\<close>

definition dec_body :: "int \<Rightarrow> int \<Rightarrow> string" where
  "dec_body c e =
     (let ds = nat_str c; n = int (length ds); left = e + n;
          dot = (if e \<le> 0 \<and> - 6 < left then left else 1);
          body = (if dot \<le> 0 then ''0.'' @ replicate (nat (- dot)) (CHR ''0'') @ ds
                  else if n \<le> dot then ds @ replicate (nat (dot - n)) (CHR ''0'')
                  else take (nat dot) ds @ ''.'' @ drop (nat dot) ds)
      in if left = dot then body
         else body @ ''E'' @ (if 0 \<le> left - dot then ''+'' else []) @ int_str (left - dot))"

fun dec_str :: "dec \<Rightarrow> string" where
  "dec_str (Fin c e) = (if c < 0 then ''-'' @ dec_body (- c) e else dec_body c e)"
| "dec_str (Inf s) = (if s then ''-Infinity'' else ''Infinity'')"
| "dec_str NaN = ''NaN''"
| "dec_str SNaN = ''sNaN''"

text \<open>\<open>repr(float)\<close>.\<close>

definition float_body :: "int \<Rightarrow> int \<Rightarrow> string" where
  "float_body c e =
     (let ds = nat_str c; n = int (length ds); point = n + e in
      if - 4 < point \<and> point \<le> 16
      then (if point \<le> 0 then ''0.'' @ replicate (nat (- point)) (CHR ''0'') @ ds
            else if n \<le> point then ds @ replicate (nat (point - n)) (CHR ''0'') @ ''.0''
            else take (nat point) ds @ ''.'' @ drop (nat point) ds)
      else take 1 ds @ (if n = 1 then [] else ''.'' @ drop 1 ds) @ ''e''
           @ (let x = point - 1; a = nat_str \<bar>x\<bar> in
              (if x < 0 then ''-'' else ''+'') @ (if length a = 1 then ''0'' else []) @ a))"

definition float_str :: "rat \<Rightarrow> string" where
  "float_str x =
     (if x = 0 then ''0.0''
      else let (c, e) = float_parts x in if c < 0 then ''-'' @ float_body (- c) e else float_body c e)"

section \<open>Reading back what is printed\<close>

lemma char_digit_digit_char: "0 \<le> d \<Longrightarrow> d < 10 \<Longrightarrow> char_digit (digit_char d) = Some d"
proof -
  assume d: "0 \<le> d" "d < 10"
  have "of_char (char_of (nat (48 + d)) :: char) = nat (48 + d) mod 256" by (rule of_char_of)
  also have "\<dots> = nat (48 + d)" using d by (intro mod_less) (simp add: nat_less_iff)
  finally show ?thesis using d by (simp add: char_digit_def digit_char_def char_code_def Let_def)
qed

lemma int_digits_range: "0 \<le> n \<Longrightarrow> d \<in> set (int_digits n) \<Longrightarrow> 0 \<le> d \<and> d < 10"
proof (induction n rule: int_digits.induct)
  case (1 n)
  then show ?case by (cases "n < 10") (auto simp: int_digits.simps [of n] pos_imp_zdiv_nonneg_iff)
qed

lemma int_digits_nonempty [simp]: "int_digits n \<noteq> []"
  by (subst int_digits.simps) simp

lemma digits_val_append: "digits_val (xs @ ys) = digits_val xs * 10 ^ length ys + digits_val ys"
proof (induction ys rule: rev_induct)
  case (snoc y ys)
  have "digits_val (xs @ ys @ [y]) = 10 * digits_val (xs @ ys) + y" by (simp add: digits_val_def)
  moreover have "digits_val (ys @ [y]) = 10 * digits_val ys + y" by (simp add: digits_val_def)
  ultimately show ?case by (simp add: snoc.IH algebra_simps)
qed (simp add: digits_val_def)

lemma digits_val_int_digits [simp]: "digits_val (int_digits n) = n"
proof (induction n rule: int_digits.induct)
  case (1 n)
  then show ?case
    by (cases "n < 10") (simp_all add: int_digits.simps [of n] digits_val_append, simp_all add: digits_val_def)
qed

lemma digits_val_zeros [simp]: "digits_val (replicate k 0) = 0"
  by (induction k) (simp_all add: digits_val_def)

lemma digits_val_zeros_append [simp]: "digits_val (replicate k 0 @ ds) = digits_val ds"
  by (simp add: digits_val_append)

text \<open>\<open>stops s\<close>: \<open>s\<close> does not begin with a digit, so reading digits before it ends there.\<close>

definition stops :: "string \<Rightarrow> bool" where
  "stops s = (case s of [] \<Rightarrow> True | c # _ \<Rightarrow> char_digit c = None)"

lemma take_digits_stops: "stops s \<Longrightarrow> take_digits s = ([], s)"
  by (cases s) (auto simp: stops_def)

lemma take_digits_map:
  assumes "\<forall>d \<in> set ds. 0 \<le> d \<and> d < 10" "stops s"
  shows "take_digits (map digit_char ds @ s) = (ds, s)"
  using assms by (induction ds) (auto simp: char_digit_digit_char take_digits_stops)

lemma digit_char_0: "CHR ''0'' = digit_char 0"
proof -
  have "CHR ''0'' = char_of (of_char (CHR ''0'') :: nat)" by (rule char_of_char [symmetric])
  also have "(of_char (CHR ''0'') :: nat) = 48" by simp
  finally show ?thesis by (simp add: digit_char_def)
qed

lemma nat_str_digits: "replicate k (CHR ''0'') @ nat_str n = map digit_char (replicate k 0 @ int_digits n)"
  by (simp add: nat_str_def digit_char_0 map_replicate)

definition digit_list :: "int list \<Rightarrow> bool" where
  "digit_list ds \<longleftrightarrow> (\<forall>d \<in> set ds. 0 \<le> d \<and> d < 10)"

lemma digit_list_simps [simp]:
  "digit_list []" "digit_list (xs @ ys) \<longleftrightarrow> digit_list xs \<and> digit_list ys" "digit_list (replicate k 0)"
  by (auto simp: digit_list_def)

lemma digit_list_int_digits [simp]: "0 \<le> n \<Longrightarrow> digit_list (int_digits n)"
  using int_digits_range by (auto simp: digit_list_def)

lemma digit_list_take_drop [simp]: "digit_list ds \<Longrightarrow> digit_list (take k ds)" "digit_list ds \<Longrightarrow> digit_list (drop k ds)"
  by (auto simp: digit_list_def dest: in_set_takeD in_set_dropD)

lemma take_digits_list: "digit_list ds \<Longrightarrow> stops s \<Longrightarrow> take_digits (map digit_char ds @ s) = (ds, s)"
  by (simp add: take_digits_map digit_list_def)

lemma stops_simps [simp]: "stops []" "stops (CHR ''.'' # s)" "stops (CHR ''E'' # s)" "stops (CHR ''e'' # s)"
  by (simp_all add: stops_def char_digit_def char_code_def)

text \<open>The exponent suffix of a printed decimal.\<close>

definition exp_tail :: "int \<Rightarrow> string" where
  "exp_tail k = CHR ''E'' # (if 0 \<le> k then ''+'' else []) @ int_str k"

lemma parse_exp_tail: "parse_exp ((if 0 \<le> k then ''+'' else []) @ int_str k) = Some k"
proof -
  have t: "take_digits (nat_str n) = (int_digits n, [])" if "0 \<le> n" for n
    using take_digits_list [of "int_digits n" "[]"] that by (simp add: nat_str_def)
  show ?thesis by (auto simp: parse_exp_def int_str_def t)
qed

lemma parse_number_digits:
  assumes "digit_list xs" "digit_list ys" "xs \<noteq> [] \<or> ys \<noteq> []"
    and "sfx = [] \<and> k = 0 \<or> sfx = exp_tail k"
  shows "parse_number (map digit_char xs @ CHR ''.'' # map digit_char ys @ sfx)
      = Some (digits_val (xs @ ys), k - int (length ys))"
proof -
  have st: "stops sfx" using assms(4) by (auto simp: exp_tail_def)
  show ?thesis
    using assms(3,4) by (auto simp: parse_number_def take_digits_list assms(1,2) st exp_tail_def parse_exp_tail [simplified])
qed

lemma parse_number_whole:
  assumes "digit_list xs" "xs \<noteq> []" and "sfx = [] \<and> k = 0 \<or> sfx = exp_tail k"
  shows "parse_number (map digit_char xs @ sfx) = Some (digits_val xs, k)"
proof -
  have st: "stops sfx" using assms(3) by (auto simp: exp_tail_def)
  show ?thesis
    using assms(2,3) by (auto simp: parse_number_def take_digits_list assms(1) st exp_tail_def parse_exp_tail [simplified])
qed

lemma parse_number_dec_body: "0 \<le> c \<Longrightarrow> parse_number (dec_body c e) = Some (c, e)"
proof -
  assume c: "0 \<le> c"
  define ds where "ds = int_digits c"
  define n where "n = int (length ds)"
  have dl: "digit_list ds" "ds \<noteq> []" "digits_val ds = c" "1 \<le> n"
    using c by (simp_all add: ds_def n_def Suc_le_eq)
  define left where "left = e + n"
  define dot where "dot = (if e \<le> 0 \<and> - 6 < left then left else 1)"
  define sfx where "sfx = (if left = dot then [] else exp_tail (left - dot))"
  have sfx: "sfx = [] \<and> left - dot = 0 \<or> sfx = exp_tail (left - dot)" by (simp add: sfx_def)
  have body: "dec_body c e = (if dot \<le> 0 then ''0.'' @ replicate (nat (- dot)) (CHR ''0'') @ nat_str c
      else if n \<le> dot then nat_str c @ replicate (nat (dot - n)) (CHR ''0'')
      else take (nat dot) (nat_str c) @ ''.'' @ drop (nat dot) (nat_str c)) @ sfx"
  proof -
    have n: "int (length (nat_str c)) = n" by (simp add: n_def ds_def nat_str_def)
    show ?thesis
      unfolding dec_body_def Let_def n left_def [symmetric] dot_def [symmetric]
      by (simp add: sfx_def exp_tail_def)
  qed
  consider "dot \<le> 0" | "0 < dot" "n \<le> dot" | "0 < dot" "dot < n" by linarith
  then show ?thesis
  proof cases
    case 1
    have "dec_body c e = map digit_char [0] @ CHR ''.'' # map digit_char (replicate (nat (- dot)) 0 @ ds) @ sfx"
      using 1 by (simp add: body nat_str_def ds_def digit_char_0)
    also have "parse_number \<dots> = Some (digits_val ([0] @ replicate (nat (- dot)) 0 @ ds), left - dot - int (length (replicate (nat (- dot)) (0::int) @ ds)))"
      using dl sfx by (intro parse_number_digits) (auto simp: digit_list_def)
    also have "digits_val ([0] @ replicate (nat (- dot)) 0 @ ds) = c"
      using digits_val_zeros_append [of "Suc (nat (- dot))" ds] dl by simp
    also have "left - dot - int (length (replicate (nat (- dot)) (0::int) @ ds)) = e"
      using 1 by (simp add: left_def n_def)
    finally show ?thesis .
  next
    case 2
    have z: "dot = n \<and> left = n + e"
      using 2 dl(4) by (auto simp: dot_def left_def split: if_splits)
    have "dec_body c e = map digit_char ds @ sfx"
      using 2 z by (simp add: body ds_def nat_str_def)
    also have "parse_number \<dots> = Some (digits_val ds, left - dot)"
      using dl sfx by (intro parse_number_whole) simp_all
    finally show ?thesis using z dl by simp
  next
    case 3
    have "dec_body c e = map digit_char (take (nat dot) ds) @ CHR ''.'' # map digit_char (drop (nat dot) ds) @ sfx"
      using 3 by (simp add: body nat_str_def ds_def take_map drop_map)
    also have "parse_number \<dots> = Some (digits_val (take (nat dot) ds @ drop (nat dot) ds), left - dot - int (length (drop (nat dot) ds)))"
      using dl sfx 3 by (intro parse_number_digits) simp_all
    also have "left - dot - int (length (drop (nat dot) ds)) = e"
      using 3 by (simp add: left_def n_def)
    finally show ?thesis using dl by simp
  qed
qed

text \<open>A printed number holds no space and no underscore, and starts with a digit or a minus sign.\<close>

definition plain_char :: "char \<Rightarrow> bool" where
  "plain_char c \<longleftrightarrow> \<not> is_space c \<and> c \<noteq> CHR ''_''"

lemma plain_digit: "0 \<le> d \<Longrightarrow> d < 10 \<Longrightarrow> plain_char (digit_char d)"
proof -
  assume d: "0 \<le> d" "d < 10"
  have "char_digit (digit_char d) = Some d" using d by (rule char_digit_digit_char)
  then show ?thesis
    by (auto simp: plain_char_def is_space_def char_digit_def char_code_def Let_def split: if_splits)
qed

lemma plain_nat_str: "c \<in> set (nat_str n) \<Longrightarrow> 0 \<le> n \<Longrightarrow> plain_char c"
  using int_digits_range plain_digit by (auto simp: nat_str_def)

lemma plain_literals [simp]: "plain_char (CHR ''0'')" "plain_char (CHR ''.'')" "plain_char (CHR ''E'')"
  "plain_char (CHR ''+'')" "plain_char (CHR ''-'')"
  by (simp_all add: plain_char_def is_space_def char_code_def)

lemma plain_dec_body: "0 \<le> c \<Longrightarrow> list_all plain_char (dec_body c e)"
  unfolding list_all_iff dec_body_def Let_def int_str_def
  by (auto simp: plain_nat_str dest!: in_set_takeD in_set_dropD split: if_splits)

lemma strip_plain: "list_all plain_char s \<Longrightarrow> filter (\<lambda>c. c \<noteq> CHR ''_'') (py_strip s) = s"
proof -
  assume s: "list_all plain_char s"
  have d: "dropWhile is_space t = t" if "list_all plain_char t" for t
    using that by (cases t) (auto simp: plain_char_def)
  have "list_all plain_char (rev s)" using s by (simp add: list_all_iff)
  then have "py_strip s = s" using d [OF s] d [of "rev s"] by (simp add: py_strip_def)
  moreover have "filter (\<lambda>c. c \<noteq> CHR ''_'') s = s"
    using s by (auto simp: list_all_iff plain_char_def filter_id_conv)
  ultimately show ?thesis by simp
qed

lemma not_sign_digit: "0 \<le> d \<Longrightarrow> d < 10 \<Longrightarrow> digit_char d \<noteq> CHR ''-''" "0 \<le> d \<Longrightarrow> d < 10 \<Longrightarrow> digit_char d \<noteq> CHR ''+''"
proof -
  assume d: "0 \<le> d" "d < 10"
  have s: "char_digit (digit_char d) = Some d" using d by (rule char_digit_digit_char)
  show "digit_char d \<noteq> CHR ''-''" "digit_char d \<noteq> CHR ''+''"
    using s by (auto simp: char_digit_def char_code_def)
qed

lemma dec_body_head:
  assumes "0 \<le> c"
  shows "\<exists>d r. dec_body c e = digit_char d # r \<and> 0 \<le> d \<and> d < 10"
proof -
  obtain d ds where dd: "int_digits c = d # ds" by (cases "int_digits c") auto
  have rng: "0 \<le> d" "d < 10" using int_digits_range [OF assms, of d] dd by auto
  show ?thesis
  proof (cases "(if e \<le> 0 \<and> - 6 < e + int (length (nat_str c)) then e + int (length (nat_str c)) else 1) \<le> 0")
    case True
    then show ?thesis by (intro exI [of _ 0]) (auto simp: dec_body_def Let_def digit_char_0)
  next
    case False
    then show ?thesis using rng dd
      by (intro exI [of _ d]) (auto simp: dec_body_def Let_def nat_str_def take_Cons' nat_le_iff)
  qed
qed

lemma parse_signed_dec_body: "0 \<le> c \<Longrightarrow> parse_signed (dec_body c e) = Some (Fin c e)"
proof -
  assume c: "0 \<le> c"
  obtain d r where h: "dec_body c e = digit_char d # r" "0 \<le> d" "d < 10" using dec_body_head [OF c] by blast
  have "parse_signed (digit_char d # r) = parse_unsigned (digit_char d # r) False"
    using not_sign_digit [OF h(2,3)] unfolding parse_signed_def by (simp split: char.splits bool.splits)
  moreover have "parse_number (digit_char d # r) = Some (c, e)"
    using parse_number_dec_body [OF c, of e] by (simp add: h(1))
  ultimately show ?thesis by (simp add: parse_unsigned_def h(1))
qed

theorem parse_dec_str: "parse_dec (dec_str d) = Some d"
proof (cases d)
  case (Fin c e)
  show ?thesis
  proof (cases "c < 0")
    case True
    then have c: "0 \<le> - c" by simp
    have "list_all plain_char (dec_str d)" using plain_dec_body [OF c] True by (simp add: Fin)
    then have "parse_dec (dec_str d) = parse_signed (dec_str d)" by (simp add: parse_dec_def strip_plain)
    then show ?thesis
      using parse_number_dec_body [OF c] True by (simp add: Fin parse_signed_def parse_unsigned_def)
  next
    case False
    then have c: "0 \<le> c" by simp
    show ?thesis using plain_dec_body [OF c] parse_signed_dec_body [OF c] False
      by (simp add: Fin parse_dec_def strip_plain)
  qed
next
  case (Inf s)
  have "parse_dec (dec_str (Inf True)) = Some (Inf True)" "parse_dec (dec_str (Inf False)) = Some (Inf False)"
    by code_simp+
  then show ?thesis using Inf by (cases s) simp_all
next
  case NaN
  have "parse_dec (dec_str NaN) = Some NaN" by code_simp
  then show ?thesis using NaN by simp
next
  case SNaN
  have "parse_dec (dec_str SNaN) = Some SNaN" by code_simp
  then show ?thesis using SNaN by simp
qed

end
