(* ===== verification/PyVal.thy ===== *)
theory PyVal
  imports PyText
begin

text \<open>
  The JSON values the ledger and the projections hold, as Python reads them: None, booleans,
  integers, floats, strings, lists and dictionaries (association lists in insertion order).
  This theory has the language's own operations on them: truth, equality across number
  types, \<open>float()\<close>, \<open>int()\<close>, \<open>str()\<close>, iteration, subscripts, \<open>.get\<close>, and the updates of a
  dictionary.  Values are immutable here, so a copy is the value itself and an update in
  place is a function from the old dictionary to the new one.
\<close>

datatype pyval =
    PNone
  | PBool bool
  | PInt int
  | PFloat rat
  | PStr string
  | PList "pyval list"
  | PDict "(string \<times> pyval) list"

type_synonym dict = "(string \<times> pyval) list"

section \<open>Dictionaries\<close>

abbreviation dput :: "string \<Rightarrow> pyval \<Rightarrow> dict \<Rightarrow> dict" where
  "dput k v d \<equiv> AList.update k v d"

abbreviation ddel :: "string \<Rightarrow> dict \<Rightarrow> dict" where
  "ddel k d \<equiv> AList.delete k d"

abbreviation dhas :: "dict \<Rightarrow> string \<Rightarrow> bool" where
  "dhas d k \<equiv> map_of d k \<noteq> None"

text \<open>\<open>d.get(k)\<close> and \<open>d.get(k, x)\<close>.\<close>

definition dget_or :: "dict \<Rightarrow> string \<Rightarrow> pyval \<Rightarrow> pyval" where
  "dget_or d k x = (case map_of d k of None \<Rightarrow> x | Some v \<Rightarrow> v)"

definition dget :: "dict \<Rightarrow> string \<Rightarrow> pyval" where
  "dget d k = dget_or d k PNone"

text \<open>\<open>d[k]\<close>.\<close>

definition dkey :: "dict \<Rightarrow> string \<Rightarrow> pyval res" where
  "dkey d k = (case map_of d k of None \<Rightarrow> Inl KeyError | Some v \<Rightarrow> Inr v)"

definition dsetdefault :: "string \<Rightarrow> pyval \<Rightarrow> dict \<Rightarrow> dict" where
  "dsetdefault k v d = (if dhas d k then d else dput k v d)"

text \<open>\<open>d.update(e)\<close>, \<open>{**d, **e}\<close>.\<close>

definition dmerge :: "dict \<Rightarrow> dict \<Rightarrow> dict" where
  "dmerge d e = fold (\<lambda>(k, v). AList.update k v) e d"

definition ddels :: "string list \<Rightarrow> dict \<Rightarrow> dict" where
  "ddels ks d = fold AList.delete ks d"

section \<open>Truth and equality\<close>

fun truthy :: "pyval \<Rightarrow> bool" where
  "truthy PNone = False"
| "truthy (PBool b) = b"
| "truthy (PInt i) = (i \<noteq> 0)"
| "truthy (PFloat x) = (x \<noteq> 0)"
| "truthy (PStr s) = (s \<noteq> [])"
| "truthy (PList xs) = (xs \<noteq> [])"
| "truthy (PDict d) = (d \<noteq> [])"

definition py_or :: "pyval \<Rightarrow> pyval \<Rightarrow> pyval" where
  "py_or a b = (if truthy a then a else b)"

text \<open>\<open>v in (None, "")\<close>.\<close>

definition blank :: "pyval \<Rightarrow> bool" where
  "blank v = (v = PNone \<or> v = PStr [])"

text \<open>Equality compares numbers by value across bool, int and float, and dictionaries
  whatever the order of their keys: the values have the same canonical form.\<close>

lemma size_snd_dict [termination_simp]: "p \<in> set d \<Longrightarrow> size (snd p) < Suc (size_list (size_prod (\<lambda>_. 0) size) d)"
  by (induction d) auto

fun canon :: "pyval \<Rightarrow> pyval" where
  "canon (PBool b) = PFloat (of_bool b)"
| "canon (PInt i) = PFloat (of_int i)"
| "canon (PList xs) = PList (map canon xs)"
| "canon (PDict d) = PDict (sort_key fst (map (\<lambda>p. (fst p, canon (snd p))) d))"
| "canon v = v"

definition py_eq :: "pyval \<Rightarrow> pyval \<Rightarrow> bool" where
  "py_eq a b = (canon a = canon b)"

definition str_is :: "pyval \<Rightarrow> string \<Rightarrow> bool" where
  "str_is v s = (v = PStr s)"

text \<open>\<open>v in xs\<close> for a set or tuple of strings.\<close>

definition str_in :: "pyval \<Rightarrow> string list \<Rightarrow> bool" where
  "str_in v xs = (case v of PStr s \<Rightarrow> List.member xs s | _ \<Rightarrow> False)"

section \<open>Access to a value of unknown shape\<close>

definition as_dict :: "pyval \<Rightarrow> dict res" where
  "as_dict v = (case v of PDict d \<Rightarrow> Inr d | _ \<Rightarrow> Inl AttributeError)"

text \<open>\<open>v.get(k)\<close>, \<open>v[k]\<close> and iteration over \<open>v\<close>.\<close>

definition vget :: "pyval \<Rightarrow> string \<Rightarrow> pyval res" where
  "vget v k = (case v of PDict d \<Rightarrow> Inr (dget d k) | _ \<Rightarrow> Inl AttributeError)"

definition vsub :: "pyval \<Rightarrow> string \<Rightarrow> pyval res" where
  "vsub v k = (case v of PDict d \<Rightarrow> dkey d k | _ \<Rightarrow> Inl TypeError)"

fun py_iter :: "pyval \<Rightarrow> pyval list res" where
  "py_iter (PList xs) = Inr xs"
| "py_iter (PStr s) = Inr (map (\<lambda>c. PStr [c]) s)"
| "py_iter (PDict d) = Inr (map (PStr \<circ> fst) d)"
| "py_iter _ = Inl TypeError"

text \<open>\<open>d.setdefault(k, []); d[k].append(v)\<close> is \<open>dappend\<close> after \<open>dsetdefault\<close>.\<close>

definition dappend :: "string \<Rightarrow> pyval \<Rightarrow> dict \<Rightarrow> dict res" where
  "dappend k v d = (case map_of d k of
       None \<Rightarrow> Inl KeyError
     | Some (PList xs) \<Rightarrow> Inr (dput k (PList (xs @ [v])) d)
     | Some _ \<Rightarrow> Inl AttributeError)"

definition dextend :: "string \<Rightarrow> pyval list \<Rightarrow> dict \<Rightarrow> dict res" where
  "dextend k vs d = (case map_of d k of
       None \<Rightarrow> Inl KeyError
     | Some (PList xs) \<Rightarrow> Inr (dput k (PList (xs @ vs)) d)
     | Some _ \<Rightarrow> Inl AttributeError)"

section \<open>Conversions\<close>

fun py_float :: "pyval \<Rightarrow> rat res" where
  "py_float (PBool b) = Inr (of_bool b)"
| "py_float (PInt i) = Inr (fl (of_int i))"
| "py_float (PFloat x) = Inr x"
| "py_float (PStr s) = (case parse_float s of
      None \<Rightarrow> Inl ValueError
    | Some (Fin c e) \<Rightarrow> Inr (fl (dval (Fin c e)))
    | Some (Inf _) \<Rightarrow> Inl NonFiniteFloat
    | Some NaN \<Rightarrow> Inl (if list_ex (\<lambda>c. char_digit c \<noteq> None) s then ValueError else NonFiniteFloat)
    | Some SNaN \<Rightarrow> Inl ValueError)"
| "py_float _ = Inl TypeError"

fun py_int :: "pyval \<Rightarrow> int res" where
  "py_int (PBool b) = Inr (of_bool b)"
| "py_int (PInt i) = Inr i"
| "py_int (PFloat x) = Inr (rtrunc x)"
| "py_int (PStr s) = (case parse_int s of None \<Rightarrow> Inl ValueError | Some i \<Rightarrow> Inr i)"
| "py_int _ = Inl TypeError"

text \<open>Float arithmetic: every result is rounded.\<close>

definition fadd :: "rat \<Rightarrow> rat \<Rightarrow> rat" where "fadd x y = fl (x + y)"
definition fsub :: "rat \<Rightarrow> rat \<Rightarrow> rat" where "fsub x y = fl (x - y)"
definition fmul :: "rat \<Rightarrow> rat \<Rightarrow> rat" where "fmul x y = fl (x * y)"
definition fdiv :: "rat \<Rightarrow> rat \<Rightarrow> rat res" where
  "fdiv x y = (if y = 0 then Inl ArithmeticError else Inr (fl (x / y)))"

definition fsum :: "rat list \<Rightarrow> rat" where
  "fsum xs = foldl fadd 0 xs"

definition hex_digit :: "nat \<Rightarrow> char" where
  "hex_digit n = (if n < 10 then char_of (48 + n) else char_of (87 + n))"

definition repr_char :: "char \<Rightarrow> char \<Rightarrow> string" where
  "repr_char q c = (let n = char_code c in
     if c = q \<or> n = 92 then [char_of (92::nat), c]
     else if n = 10 then [char_of (92::nat), CHR ''n'']
     else if n = 13 then [char_of (92::nat), CHR ''r'']
     else if n = 9 then [char_of (92::nat), CHR ''t'']
     else if n < 32 \<or> n = 127 then [char_of (92::nat), CHR ''x'', hex_digit (n div 16), hex_digit (n mod 16)]
     else [c])"

definition repr_str :: "string \<Rightarrow> string" where
  "repr_str s = (let a = char_of (39::nat); b = char_of (34::nat);
     q = (if List.member s a \<and> \<not> List.member s b then b else a)
     in [q] @ concat (map (repr_char q) s) @ [q])"

fun join :: "string \<Rightarrow> string list \<Rightarrow> string" where
  "join sep [] = []"
| "join sep [s] = s"
| "join sep (s # ss) = s @ sep @ join sep ss"

fun py_repr :: "pyval \<Rightarrow> string" where
  "py_repr PNone = ''None''"
| "py_repr (PBool b) = (if b then ''True'' else ''False'')"
| "py_repr (PInt i) = int_str i"
| "py_repr (PFloat x) = float_str x"
| "py_repr (PStr s) = repr_str s"
| "py_repr (PList xs) = ''['' @ join '', '' (map py_repr xs) @ '']''"
| "py_repr (PDict d) = ''{'' @ join '', '' (map (\<lambda>p. repr_str (fst p) @ '': '' @ py_repr (snd p)) d) @ ''}''"

definition py_str :: "pyval \<Rightarrow> string" where
  "py_str v = (case v of PStr s \<Rightarrow> s | _ \<Rightarrow> py_repr v)"

section \<open>Facts\<close>

lemma dget_or_simps [simp, dict_simps]:
  "dget_or (AList.update k v d) k' x = (if k' = k then v else dget_or d k' x)"
  "dget_or (AList.delete k d) k' x = (if k' = k then x else dget_or d k' x)"
  "dget_or [] k x = x"
  by (simp_all add: dget_or_def)

lemma dget_simps [simp, dict_simps]:
  "dget (AList.update k v d) k' = (if k' = k then v else dget d k')"
  "dget (AList.delete k d) k' = (if k' = k then PNone else dget d k')"
  "dget [] k = PNone"
  by (simp_all add: dget_def)

lemma dkey_simps [simp, dict_simps]:
  "dkey (AList.update k v d) k' = (if k' = k then Inr v else dkey d k')"
  "dkey (AList.delete k d) k' = (if k' = k then Inl KeyError else dkey d k')"
  by (simp_all add: dkey_def)

lemma dget_Some: "map_of d k = Some v \<Longrightarrow> dget d k = v"
  by (simp add: dget_def dget_or_def)

lemma dget_None: "map_of d k = None \<Longrightarrow> dget d k = PNone"
  by (simp add: dget_def dget_or_def)

lemma dkey_Inr: "dkey d k = Inr v \<longleftrightarrow> map_of d k = Some v"
  by (auto simp: dkey_def split: option.splits)

lemma map_of_setdefault [simp, dict_simps]:
  "map_of (dsetdefault k v d) k' = (if k' = k \<and> map_of d k = None then Some v else map_of d k')"
  by (auto simp: dsetdefault_def)

lemma dget_setdefault [simp, dict_simps]:
  "dget (dsetdefault k v d) k' = (if k' = k \<and> map_of d k = None then v else dget d k')"
  by (simp add: dget_def dget_or_def)

lemma map_of_dmerge: "map_of (dmerge d e) k = (case map_of (rev e) k of Some v \<Rightarrow> Some v | None \<Rightarrow> map_of d k)"
proof (induction e arbitrary: d)
  case (Cons p e)
  then show ?case by (cases p) (auto simp: dmerge_def map_of_append map_add_def split: option.splits)
qed (simp add: dmerge_def)

lemma map_of_rev_distinct: "distinct (map fst e) \<Longrightarrow> map_of (rev e) k = map_of e k"
  using map_of_inject_set [of "rev e" e] by (simp add: rev_map [symmetric])

lemma map_of_dmerge_distinct:
  "distinct (map fst e) \<Longrightarrow> map_of (dmerge d e) k = (case map_of e k of Some v \<Rightarrow> Some v | None \<Rightarrow> map_of d k)"
  by (simp add: map_of_dmerge map_of_rev_distinct)

lemma map_of_ddels [simp]: "map_of (ddels ks d) k = (if k \<in> set ks then None else map_of d k)"
  by (induction ks arbitrary: d) (auto simp: ddels_def)

lemma dget_ddels [simp]: "dget (ddels ks d) k = (if k \<in> set ks then PNone else dget d k)"
  by (simp add: dget_def dget_or_def)

lemma distinct_dmerge: "distinct (map fst d) \<Longrightarrow> distinct (map fst (dmerge d e))"
  by (induction e arbitrary: d) (auto simp: dmerge_def split: prod.splits)

lemma py_eq_refl [simp]: "py_eq v v"
  by (simp add: py_eq_def)

lemma py_eq_sym: "py_eq a b \<longleftrightarrow> py_eq b a"
  by (auto simp: py_eq_def)

lemma py_eq_trans: "py_eq a b \<Longrightarrow> py_eq b c \<Longrightarrow> py_eq a c"
  by (simp add: py_eq_def)

lemma py_eq_int [simp]: "py_eq (PInt a) (PInt b) \<longleftrightarrow> a = b"
  by (simp add: py_eq_def)

lemma py_eq_str [simp]: "py_eq (PStr a) v \<longleftrightarrow> v = PStr a"
  by (cases v) (auto simp: py_eq_def)

lemma py_eq_str' [simp]: "py_eq v (PStr a) \<longleftrightarrow> v = PStr a"
  by (cases v) (auto simp: py_eq_def)

lemma py_eq_none [simp]: "py_eq PNone v \<longleftrightarrow> v = PNone"
  by (cases v) (auto simp: py_eq_def)

lemma py_eq_none' [simp]: "py_eq v PNone \<longleftrightarrow> v = PNone"
  by (cases v) (auto simp: py_eq_def)

lemma str_in_iff: "str_in v xs \<longleftrightarrow> (\<exists>s. v = PStr s \<and> s \<in> set xs)"
  by (auto simp: str_in_def split: pyval.splits)

lemma py_or_simps [simp]: "truthy a \<Longrightarrow> py_or a b = a" "\<not> truthy a \<Longrightarrow> py_or a b = b"
  by (simp_all add: py_or_def)

lemma as_dict_PDict [simp]: "as_dict (PDict d) = Inr d"
  by (simp add: as_dict_def)

lemma as_dict_Inr: "as_dict v = Inr d \<longleftrightarrow> v = PDict d"
  by (auto simp: as_dict_def split: pyval.splits)

lemma vget_PDict [simp]: "vget (PDict d) k = Inr (dget d k)"
  by (simp add: vget_def)

lemma vsub_PDict [simp]: "vsub (PDict d) k = dkey d k"
  by (simp add: vsub_def)

lemma vget_Inr: "vget v k = Inr x \<longleftrightarrow> (\<exists>d. v = PDict d \<and> x = dget d k)"
  by (auto simp: vget_def split: pyval.splits)

lemma dappend_PList [simp]: "map_of d k = Some (PList xs) \<Longrightarrow> dappend k v d = Inr (dput k (PList (xs @ [v])) d)"
  by (simp add: dappend_def)

lemma dappend_Inr:
  "dappend k v d = Inr d' \<longleftrightarrow> (\<exists>xs. map_of d k = Some (PList xs) \<and> d' = dput k (PList (xs @ [v])) d)"
  by (auto simp: dappend_def split: option.splits pyval.splits)

lemma dextend_Inr:
  "dextend k vs d = Inr d' \<longleftrightarrow> (\<exists>xs. map_of d k = Some (PList xs) \<and> d' = dput k (PList (xs @ vs)) d)"
  by (auto simp: dextend_def split: option.splits pyval.splits)

end
