(* ===== verification/Rows.thy ===== *)
theory Rows
  imports PyVal
begin

text \<open>
  Operations on the rows of a stored record: the list of dictionaries under a key, the row
  that answers a test, a row rewritten in place, fields copied from the data of an event, and
  membership in a set of names.
\<close>

section \<open>Sets of names\<close>

text \<open>\<open>v in {...}\<close>: a list or a dictionary has no hash.\<close>

definition in_set :: "pyval \<Rightarrow> string list \<Rightarrow> bool res" where
  "in_set v xs = (case v of PList _ \<Rightarrow> Inl TypeError | PDict _ \<Rightarrow> Inl TypeError | _ \<Rightarrow> Inr (str_in v xs))"

text \<open>\<open>TABLE.get(v)\<close> for a table keyed by names.\<close>

definition table_get :: "(string \<times> 'a) list \<Rightarrow> pyval \<Rightarrow> 'a option res" where
  "table_get t v = (case v of PList _ \<Rightarrow> Inl TypeError | PDict _ \<Rightarrow> Inl TypeError
     | PStr s \<Rightarrow> Inr (map_of t s) | _ \<Rightarrow> Inr None)"

lemma in_set_str [simp]: "in_set (PStr s) xs = Inr (s \<in> set xs)"
  by (simp add: in_set_def str_in_def)

lemma in_set_none [simp]: "in_set PNone xs = Inr False"
  by (simp add: in_set_def str_in_def)

lemma in_set_Inr_True: "in_set v xs = Inr True \<longleftrightarrow> (\<exists>s. v = PStr s \<and> s \<in> set xs)"
  by (auto simp: in_set_def str_in_iff split: pyval.splits)

lemma in_set_Inr_False: "in_set v xs = Inr False \<Longrightarrow> v = PStr s \<Longrightarrow> s \<notin> set xs"
  by (auto simp: in_set_def str_in_iff split: pyval.splits)

section \<open>Fields\<close>

text \<open>\<open>if data.get(k): d[k] = data[k]\<close>.\<close>

definition copy_if :: "string \<Rightarrow> dict \<Rightarrow> dict \<Rightarrow> dict" where
  "copy_if k data d = (if truthy (dget data k) then dput k (dget data k) d else d)"

lemma map_of_copy_if [simp, dict_simps]:
  "map_of (copy_if k data d) k' = (if k' = k \<and> truthy (dget data k) then Some (dget data k) else map_of d k')"
  by (auto simp: copy_if_def)

lemma dget_copy_if [simp, dict_simps]:
  "dget (copy_if k data d) k' = (if k' = k \<and> truthy (dget data k) then dget data k else dget d k')"
  by (auto simp: copy_if_def)

text \<open>\<open>float(d.get(k, 0) or 0)\<close> and \<open>int(d.get(k, 0))\<close>.\<close>

definition fget :: "dict \<Rightarrow> string \<Rightarrow> rat res" where
  "fget d k = py_float (py_or (dget_or d k (PInt 0)) (PInt 0))"

definition iget :: "dict \<Rightarrow> string \<Rightarrow> int res" where
  "iget d k = py_int (dget_or d k (PInt 0))"

text \<open>\<open>str(d.get(k) or "").strip()\<close>.\<close>

definition stripped :: "dict \<Rightarrow> string \<Rightarrow> string" where
  "stripped d k = py_strip (py_str (py_or (dget d k) (PStr [])))"

section \<open>Rows\<close>

text \<open>\<open>for x in d.get(k, [])\<close> and \<open>for x in d.get(k) or []\<close>.\<close>

definition rows :: "dict \<Rightarrow> string \<Rightarrow> pyval list res" where
  "rows d k = py_iter (dget_or d k (PList []))"

definition rows_or :: "dict \<Rightarrow> string \<Rightarrow> pyval list res" where
  "rows_or d k = py_iter (py_or (dget d k) (PList []))"

text \<open>The first row answering a test, with its position: \<open>next((r for r in rows if p(r)), None)\<close>.
  A row is a dictionary, or asking it for a key fails.\<close>

fun find_row :: "(dict \<Rightarrow> bool res) \<Rightarrow> nat \<Rightarrow> pyval list \<Rightarrow> (nat \<times> dict) option res" where
  "find_row p i [] = Inr None"
| "find_row p i (v # vs) = rbind (as_dict v) (\<lambda>r. rbind (p r) (\<lambda>b.
     if b then Inr (Some (i, r)) else find_row p (Suc i) vs))"

definition filter_rows :: "(dict \<Rightarrow> bool res) \<Rightarrow> pyval list \<Rightarrow> pyval list res" where
  "filter_rows p vs = filterR (\<lambda>v. rbind (as_dict v) p) vs"

definition map_rows :: "(dict \<Rightarrow> dict res) \<Rightarrow> pyval list \<Rightarrow> pyval list res" where
  "map_rows f vs = mapR (\<lambda>v. rbind (as_dict v) (\<lambda>r. rmap PDict (f r))) vs"

text \<open>A row rewritten in place, and all of them: the key keeps holding the same list.\<close>

definition put_row :: "string \<Rightarrow> nat \<Rightarrow> dict \<Rightarrow> dict \<Rightarrow> dict" where
  "put_row k i r d = (case map_of d k of Some (PList vs) \<Rightarrow> dput k (PList (vs[i := PDict r])) d | _ \<Rightarrow> d)"

definition put_rows :: "string \<Rightarrow> pyval list \<Rightarrow> dict \<Rightarrow> dict" where
  "put_rows k vs d = (case map_of d k of Some (PList _) \<Rightarrow> dput k (PList vs) d | _ \<Rightarrow> d)"

text \<open>\<open>d[k].append(row)\<close>: the list is looked up before the row is made.\<close>

definition append_row :: "string \<Rightarrow> pyval res \<Rightarrow> dict \<Rightarrow> dict res" where
  "append_row k row d =
     (case map_of d k of
        Some (PList vs) \<Rightarrow> rmap (\<lambda>v. dput k (PList (vs @ [v])) d) row
      | Some _ \<Rightarrow> Inl AttributeError | None \<Rightarrow> Inl KeyError)"

lemma find_row_Some:
  "find_row p k vs = Inr (Some (i, r)) \<Longrightarrow> k \<le> i \<and> i - k < length vs \<and> vs ! (i - k) = PDict r \<and> p r = Inr True"
proof (induction vs arbitrary: k)
  case (Cons v vs)
  from Cons.prems obtain r0 b where r0: "v = PDict r0" "p r0 = Inr b" "(if b then Inr (Some (k, r0)) else find_row p (Suc k) vs) = Inr (Some (i, r))"
    by (auto simp: rbind_eq_Inr as_dict_Inr)
  show ?case
  proof (cases b)
    case True
    then show ?thesis using r0 by auto
  next
    case False
    with r0 Cons.IH [of "Suc k"] have "Suc k \<le> i \<and> i - Suc k < length vs \<and> vs ! (i - Suc k) = PDict r \<and> p r = Inr True" by simp
    then show ?thesis by (auto simp: nth_Cons' Suc_diff_Suc)
  qed
qed simp

lemma find_row_0: "find_row p 0 vs = Inr (Some (i, r)) \<Longrightarrow> i < length vs \<and> vs ! i = PDict r \<and> p r = Inr True"
  using find_row_Some [of p 0 vs i r] by simp

lemma rows_find:
  assumes "rbind (rows d k) (find_row P 0) = Inr (Some (i, p))"
  obtains ps where "map_of d k = Some (PList ps)" "i < length ps" "ps ! i = PDict p" "P p = Inr True"
proof -
  from assms obtain vs where vs: "rows d k = Inr vs" and f: "find_row P 0 vs = Inr (Some (i, p))"
    by (auto simp: rbind_eq_Inr)
  from find_row_0 [OF f] have at: "i < length vs" "vs ! i = PDict p" "P p = Inr True" by auto
  have "map_of d k = Some (PList vs)"
  proof (cases "map_of d k")
    case None
    then show ?thesis using vs at by (simp add: rows_def dget_or_def)
  next
    case (Some v)
    then have "py_iter v = Inr vs" using vs by (simp add: rows_def dget_or_def)
    then show ?thesis using at Some nth_mem [OF at(1)] by (cases v) auto
  qed
  then show thesis using at by (rule that)
qed

lemma put_row_PList: "map_of d k = Some (PList vs) \<Longrightarrow> put_row k i r d = dput k (PList (vs[i := PDict r])) d"
  by (simp add: put_row_def)

lemma map_of_put_row_other [simp, dict_simps]: "k' \<noteq> k \<Longrightarrow> map_of (put_row k i r d) k' = map_of d k'"
  by (auto simp: put_row_def split: option.splits pyval.splits)

lemma dget_put_row_other [simp, dict_simps]: "k' \<noteq> k \<Longrightarrow> dget (put_row k i r d) k' = dget d k'"
  by (simp add: dget_def dget_or_def)

lemma map_of_put_rows_other [simp, dict_simps]: "k' \<noteq> k \<Longrightarrow> map_of (put_rows k vs d) k' = map_of d k'"
  by (auto simp: put_rows_def split: option.splits pyval.splits)

lemma dget_put_rows_other [simp, dict_simps]: "k' \<noteq> k \<Longrightarrow> dget (put_rows k vs d) k' = dget d k'"
  by (simp add: dget_def dget_or_def)

end
