(* ===== verification/KernelProj.thy ===== *)
theory KernelProj
  imports Rows
begin

text \<open>
  The small projection handlers: the kernel's own \<open>sys.\<close> events, the marketplace and shop-sync
  events (\<open>celerp/projections/handlers/\<close>), the retired events of earlier releases
  (\<open>celerp/projections/retired.py\<close>) and the journal entries, periods and reconciliations of
  \<open>celerp_accounting/projections.py\<close>.
\<close>

section \<open>Merging data onto a record\<close>

text \<open>\<open>current.update({**before, **data, **after})\<close>.\<close>

definition write_over :: "dict \<Rightarrow> dict \<Rightarrow> dict \<Rightarrow> dict \<Rightarrow> dict res" where
  "write_over before after state data = Inr (dmerge state (dmerge (dmerge before data) after))"

definition of_kind :: "string \<Rightarrow> dict" where
  "of_kind k = [(''entity_type'', PStr k)]"

text \<open>\<open>for field, change in data["fields_changed"].items(): current[field] = change.get("new")\<close>.\<close>

definition write_changes :: "dict \<Rightarrow> dict \<Rightarrow> dict res" where
  "write_changes state data =
     rbind (rbind (dkey data ''fields_changed'') as_dict) (\<lambda>changed.
       foldR (\<lambda>current (field, change). rmap (\<lambda>v. dput field v current) (vget change ''new'')) state changed)"

text \<open>\<open>if data.get(dk): current[k] = data[dk]\<close>.\<close>

definition copy_as :: "string \<Rightarrow> string \<Rightarrow> dict \<Rightarrow> dict \<Rightarrow> dict" where
  "copy_as k dk data d = (if truthy (dget data dk) then dput k (dget data dk) d else d)"

section \<open>System events\<close>

definition older_stock_corrected :: "dict \<Rightarrow> dict \<Rightarrow> dict res" where
  "older_stock_corrected state data =
     rbind (dkey data ''recognized'') (\<lambda>r. rbind (dkey data ''unresolved'') (\<lambda>u.
     rbind (rows state ''corrections'') (\<lambda>cs.
     Inr (dmerge state [(''recognized'', r), (''unresolved'', u), (''corrections'', PList (cs @ [PDict data]))]))))"

definition system_handlers :: "(string \<times> (dict \<Rightarrow> dict \<Rightarrow> dict res)) list" where
  "system_handlers =
    [(''sys.company.created'', write_over (of_kind ''company'') []),
     (''sys.user.created'', write_over (of_kind ''user'') [(''is_active'', PBool True)]),
     (''sys.user.deactivated'', write_over (of_kind ''user'' @ [(''is_active'', PBool False)]) []),
     (''sys.api_key.created'', write_over (of_kind ''api_key'' @ [(''status'', PStr ''active'')]) []),
     (''sys.api_key.revoked'', write_over (of_kind ''api_key'' @ [(''status'', PStr ''revoked'')]) []),
     (''sys.backup.created'', write_over (of_kind ''backup'') []),
     (''sys.migration.applied'', write_over (of_kind ''migration'') []),
     (''sys.older_stock.placed'', write_over (of_kind ''older_stock_placement'') []),
     (''sys.older_stock.corrected'', older_stock_corrected)]"

definition apply_system_event :: "dict \<Rightarrow> string \<Rightarrow> dict \<Rightarrow> dict res" where
  "apply_system_event state event_type data =
     (case map_of system_handlers event_type of None \<Rightarrow> Inl ValueError | Some h \<Rightarrow> h state data)"

section \<open>Marketplace and shop events\<close>

definition listing_created :: "dict \<Rightarrow> dict \<Rightarrow> dict res" where
  "listing_created state data =
     rmap (\<lambda>c. dsetdefault ''is_on_marketplace'' (PBool False) (dsetdefault ''status'' (PStr ''draft'') c))
       (write_over (of_kind ''mp_listing'') [] state data)"

definition listing_published :: "dict \<Rightarrow> dict \<Rightarrow> dict res" where
  "listing_published state data = Inr (dput ''is_on_marketplace'' (PBool True) (dput ''status'' (PStr ''published'') state))"

definition listing_unpublished :: "dict \<Rightarrow> dict \<Rightarrow> dict res" where
  "listing_unpublished state data =
     Inr (copy_as ''unpublish_reason'' ''reason'' data
       (dput ''is_on_marketplace'' (PBool False) (dput ''status'' (PStr ''unpublished'') state)))"

definition order_received :: "dict \<Rightarrow> dict \<Rightarrow> dict res" where
  "order_received state data = rmap (dsetdefault ''status'' (PStr ''received'')) (write_over (of_kind ''mp_order'') [] state data)"

definition order_fulfilled :: "dict \<Rightarrow> dict \<Rightarrow> dict res" where
  "order_fulfilled state data =
     Inr (copy_as ''fulfillment_ref'' ''fulfillment_ref'' data (dput ''status'' (PStr ''fulfilled'') state))"

definition order_cancelled :: "dict \<Rightarrow> dict \<Rightarrow> dict res" where
  "order_cancelled state data = Inr (copy_as ''cancel_reason'' ''reason'' data (dput ''status'' (PStr ''cancelled'') state))"

definition marketplace_handlers :: "(string \<times> (dict \<Rightarrow> dict \<Rightarrow> dict res)) list" where
  "marketplace_handlers =
    [(''mp.listing.created'', listing_created), (''mp.listing.updated'', write_changes),
     (''mp.listing.published'', listing_published), (''mp.listing.unpublished'', listing_unpublished),
     (''mp.order.received'', order_received), (''mp.order.fulfilled'', order_fulfilled),
     (''mp.order.cancelled'', order_cancelled)]"

definition apply_marketplace_event :: "dict \<Rightarrow> string \<Rightarrow> dict \<Rightarrow> dict res" where
  "apply_marketplace_event state event_type data =
     (case map_of marketplace_handlers event_type of None \<Rightarrow> Inl ValueError | Some h \<Rightarrow> h state data)"

definition apply_shop_sync_event :: "dict \<Rightarrow> string \<Rightarrow> dict \<Rightarrow> dict res" where
  "apply_shop_sync_event state event_type data =
     (if event_type = ''shop.sync.enabled'' then Inr (dput ''is_sync_to_shopify'' (PBool True) state)
      else if event_type = ''shop.sync.disabled'' then Inr (dput ''is_sync_to_shopify'' (PBool False) state)
      else Inl ValueError)"

section \<open>Retired events\<close>

definition bom_created :: "dict \<Rightarrow> dict \<Rightarrow> dict res" where
  "bom_created state data =
     Inr (dmerge (dput ''entity_type'' (PStr ''bom'') (dmerge [(''components'', PList [])] state)) data)"

definition bom_updated :: "dict \<Rightarrow> dict \<Rightarrow> dict res" where
  "bom_updated state data = Inr (dmerge state data)"

definition bom_deleted :: "dict \<Rightarrow> dict \<Rightarrow> dict res" where
  "bom_deleted state data = Inr (dput ''deleted'' (PBool True) state)"

definition RETIRED_EVENTS :: "(string \<times> (dict \<Rightarrow> dict \<Rightarrow> dict res)) list" where
  "RETIRED_EVENTS = [(''bom.created'', bom_created), (''bom.updated'', bom_updated), (''bom.deleted'', bom_deleted)]"

section \<open>Accounting events\<close>

definition entry_created :: "dict \<Rightarrow> dict \<Rightarrow> dict res" where
  "entry_created state data =
     rmap (\<lambda>c. dsetdefault ''status'' (PStr ''posted'') (ddel ''reversed_on'' c))
       (write_over (of_kind ''journal_entry'') [] state data)"

definition entry_posted :: "dict \<Rightarrow> dict \<Rightarrow> dict res" where
  "entry_posted state data = Inr (dput ''status'' (PStr ''posted'') state)"

definition entry_voided :: "dict \<Rightarrow> dict \<Rightarrow> dict res" where
  "entry_voided state data =
     Inr (copy_if ''reversed_on'' data (copy_as ''void_reason'' ''reason'' data (dput ''status'' (PStr ''void'') state)))"

definition period_set :: "string \<Rightarrow> dict \<Rightarrow> dict \<Rightarrow> dict res" where
  "period_set status state data =
     rmap (\<lambda>p. dmerge state (of_kind ''period'' @ [(''period'', p), (''status'', PStr status)])) (dkey data ''period'')"

definition accounting_handlers :: "(string \<times> (dict \<Rightarrow> dict \<Rightarrow> dict res)) list" where
  "accounting_handlers =
    [(''acc.journal_entry.created'', entry_created), (''acc.journal_entry.posted'', entry_posted),
     (''acc.journal_entry.voided'', entry_voided), (''acc.period.closed'', period_set ''closed''),
     (''acc.period.reopened'', period_set ''open''),
     (''acc.reconciliation.reopened'', write_over (of_kind ''reconciliation'') [])]"

definition apply_accounting_event :: "dict \<Rightarrow> string \<Rightarrow> dict \<Rightarrow> dict res" where
  "apply_accounting_event state event_type data =
     (case map_of accounting_handlers event_type of None \<Rightarrow> Inl ValueError | Some h \<Rightarrow> h state data)"

section \<open>Facts\<close>

lemma map_of_copy_as [simp, dict_simps]:
  "map_of (copy_as k dk data d) k' = (if k' = k \<and> truthy (dget data dk) then Some (dget data dk) else map_of d k')"
  by (auto simp: copy_as_def)

lemma write_over_Inr: "write_over b a s d = Inr s' \<longleftrightarrow> s' = dmerge s (dmerge (dmerge b d) a)"
  by (auto simp: write_over_def)

lemma apply_accounting_cases:
  assumes "apply_accounting_event s et data = Inr s'"
  obtains (created) "et = ''acc.journal_entry.created''" "s' = dsetdefault ''status'' (PStr ''posted'') (ddel ''reversed_on'' (dmerge s (dmerge (of_kind ''journal_entry'') data)))"
    | (posted) "et = ''acc.journal_entry.posted''" "s' = dput ''status'' (PStr ''posted'') s"
    | (voided) "et = ''acc.journal_entry.voided''" "s' = copy_if ''reversed_on'' data (copy_as ''void_reason'' ''reason'' data (dput ''status'' (PStr ''void'') s))"
    | (other) "et \<in> {''acc.period.closed'', ''acc.period.reopened'', ''acc.reconciliation.reopened''}"
  using assms
  by (auto simp: apply_accounting_event_def accounting_handlers_def entry_created_def entry_posted_def entry_voided_def
      write_over_def dmerge_def split: if_splits)

text \<open>An entry voided with its reversal's date and then written again is live on its own date:
  the reversal's date is gone, and every other field is the one written, the status too.\<close>

theorem entry_written_again_is_live:
  assumes "apply_accounting_event s ''acc.journal_entry.voided'' void = Inr v"
    and "apply_accounting_event v ''acc.journal_entry.created'' data = Inr s'"
    and "distinct (map fst data)" "map_of data ''status'' = Some x"
  shows "map_of s' ''reversed_on'' = None \<and> map_of s' ''status'' = Some x \<and> map_of v ''status'' = Some (PStr ''void'')
    \<and> (\<forall>k y. map_of data k = Some y \<and> k \<noteq> ''reversed_on'' \<longrightarrow> map_of s' k = Some y)"
proof -
  have dd: "distinct (map fst (dmerge (of_kind ''journal_entry'') data))"
    by (simp add: distinct_dmerge of_kind_def)
  have s': "s' = dsetdefault ''status'' (PStr ''posted'') (ddel ''reversed_on'' (dmerge v (dmerge (of_kind ''journal_entry'') data)))"
    using assms(2) by (cases rule: apply_accounting_cases) auto
  have "map_of v ''status'' = Some (PStr ''void'')"
    using assms(1) by (cases rule: apply_accounting_cases) auto
  then show ?thesis
    using assms(3,4) by (auto simp: s' map_of_dmerge_distinct [OF dd] map_of_dmerge_distinct [OF assms(3)])
qed

lemma entry_written_again_is_live_witness:
  "\<exists>v s'. apply_accounting_event [] ''acc.journal_entry.voided'' [(''reversed_on'', PStr ''2025-02-01'')] = Inr v
    \<and> apply_accounting_event v ''acc.journal_entry.created'' [(''status'', PStr ''posted'')] = Inr s'
    \<and> map_of v ''reversed_on'' \<noteq> None \<and> map_of s' ''reversed_on'' = None"
proof -
  define void where "void = [(''reversed_on'', PStr ''2025-02-01'')]"
  define data where "data = [(''status'', PStr ''posted'')]"
  obtain v where v: "apply_accounting_event [] ''acc.journal_entry.voided'' void = Inr v" "map_of v ''reversed_on'' \<noteq> None"
    by (simp add: apply_accounting_event_def accounting_handlers_def entry_voided_def void_def dget_def dget_or_def copy_if_def)
  obtain s' where s': "apply_accounting_event v ''acc.journal_entry.created'' data = Inr s'"
    by (simp add: apply_accounting_event_def accounting_handlers_def entry_created_def write_over_def)
  from entry_written_again_is_live [OF v(1) s', of "PStr ''posted''"] v s' show ?thesis
    unfolding void_def data_def by auto
qed

end
