(* ===== verification/ContactProj.thy ===== *)
theory ContactProj
  imports KernelProj
begin

text \<open>
  \<open>celerp_contacts/projections.py\<close>: a contact's people, addresses, tags, notes and files.  The
  addresses of each kind keep a primary one, mirrored on the contact's own fields.
\<close>

section \<open>Sets\<close>

text \<open>\<open>sorted(set(xs) | set(ys))\<close>: the first of equal values is kept; values of two kinds have no order.\<close>

definition hashable :: "pyval \<Rightarrow> bool" where
  "hashable v = (case v of PList _ \<Rightarrow> False | PDict _ \<Rightarrow> False | _ \<Rightarrow> True)"

fun number :: "pyval \<Rightarrow> rat option" where
  "number (PBool b) = Some (of_bool b)"
| "number (PInt i) = Some (of_int i)"
| "number (PFloat x) = Some x"
| "number _ = None"

fun text_of :: "pyval \<Rightarrow> string option" where
  "text_of (PStr s) = Some s"
| "text_of _ = None"

fun py_distinct :: "pyval list \<Rightarrow> pyval list" where
  "py_distinct [] = []"
| "py_distinct (v # vs) = v # filter (\<lambda>w. \<not> py_eq w v) (py_distinct vs)"

definition py_sorted_set :: "pyval list \<Rightarrow> pyval list res" where
  "py_sorted_set vs =
     (if \<not> list_all hashable vs then Inl TypeError
      else let ds = py_distinct vs
           in if length ds \<le> 1 then Inr ds
              else if list_all (\<lambda>v. text_of v \<noteq> None) ds then Inr (sort_key (\<lambda>v. the (text_of v)) ds)
              else if list_all (\<lambda>v. number v \<noteq> None) ds then Inr (sort_key (\<lambda>v. the (number v)) ds)
              else Inl TypeError)"

text \<open>\<open>current.setdefault(k, []); current[k] = sorted(set(current[k]) | set(more))\<close>.\<close>

definition add_to_set :: "string \<Rightarrow> pyval res \<Rightarrow> dict \<Rightarrow> dict res" where
  "add_to_set k more state =
     (let current = dsetdefault k (PList []) state in
      rbind (rows current k) (\<lambda>xs.
      rbind (if list_all hashable xs then Inr () else Inl TypeError) (\<lambda>_.
      rbind (rbind more py_iter) (\<lambda>ys.
      rmap (\<lambda>zs. dput k (PList zs) current) (py_sorted_set (xs @ ys))))))"

section \<open>Addresses\<close>

definition compose_address :: "dict \<Rightarrow> string res" where
  "compose_address addr =
     rmap (join '', '') (mapR (\<lambda>v. case v of PStr s \<Rightarrow> Inr s | _ \<Rightarrow> Inl TypeError)
       (filter truthy (map (\<lambda>k. dget_or addr k (PStr [])) [''line1'', ''line2'', ''city'', ''state'', ''postal_code'', ''country''])))"

definition of_type :: "string \<Rightarrow> dict \<Rightarrow> bool" where
  "of_type t a = str_is (dget a ''address_type'') t"

definition primary_of :: "string \<Rightarrow> dict \<Rightarrow> bool" where
  "primary_of t a = (of_type t a \<and> truthy (dget a ''is_default''))"

text \<open>One type: the first address marked primary, or the first one promoted, mirrored on the field.\<close>

definition sync_primary :: "dict \<Rightarrow> string \<times> string \<Rightarrow> dict res" where
  "sync_primary state tf =
     (let (t, field) = tf in
      rbind (rows_or state ''addresses'') (\<lambda>addresses.
      rbind (filter_rows (\<lambda>a. Inr (of_type t a)) addresses) (\<lambda>_.
      rbind (find_row (\<lambda>a. Inr (primary_of t a)) 0 addresses) (\<lambda>d.
        case d of Some (_, a) \<Rightarrow> rmap (\<lambda>s. dput field (PStr s) state) (compose_address a)
        | None \<Rightarrow> rbind (find_row (\<lambda>a. Inr (of_type t a)) 0 addresses) (\<lambda>f.
            case f of None \<Rightarrow> Inr state
            | Some (i, a) \<Rightarrow>
                (let a' = dput ''is_default'' (PBool True) a
                 in rmap (\<lambda>s. dput field (PStr s) (put_row ''addresses'' i a' state)) (compose_address a')))))))"

definition ADDRESS_TYPES :: "(string \<times> string) list" where
  "ADDRESS_TYPES = [(''billing'', ''billing_address''), (''shipping'', ''shipping_address'')]"

definition sync_primary_address_fields :: "dict \<Rightarrow> dict res" where
  "sync_primary_address_fields state = foldR sync_primary state ADDRESS_TYPES"

section \<open>Events\<close>

definition contact_created :: "dict \<Rightarrow> dict \<Rightarrow> dict res" where
  "contact_created state data = write_over (of_kind ''contact'') [] state data"

definition copy_not_none :: "string \<Rightarrow> string \<Rightarrow> dict \<Rightarrow> dict \<Rightarrow> dict" where
  "copy_not_none k dk data d = (if dget data dk \<noteq> PNone then dput k (dget data dk) d else d)"

definition contact_merged :: "dict \<Rightarrow> dict \<Rightarrow> dict res" where
  "contact_merged state data =
     rmap (\<lambda>c. copy_not_none ''tags'' ''merged_tags'' data (copy_not_none ''addresses'' ''merged_addresses'' data
                (copy_not_none ''people'' ''merged_people'' data c)))
       (add_to_set ''merged_from'' (dkey data ''source_contact_ids'') state)"

definition contact_tagged :: "dict \<Rightarrow> dict \<Rightarrow> dict res" where
  "contact_tagged state data = add_to_set ''tags'' (dkey data ''tags'') state"

definition contact_note_added :: "dict \<Rightarrow> dict \<Rightarrow> dict res" where
  "contact_note_added state data =
     Inr (dmerge state (of_kind ''contact_note'' @
       map (\<lambda>k. (k, dget data k)) [''note_id'', ''contact_id'', ''note'', ''author_id'', ''author_name'', ''created_at'']
       @ [(''updated_at'', PNone)]))"

definition contact_note_updated :: "dict \<Rightarrow> dict \<Rightarrow> dict res" where
  "contact_note_updated state data = Inr (dput ''updated_at'' (dget data ''updated_at'') (dput ''note'' (dget data ''note'') state))"

definition contact_note_removed :: "dict \<Rightarrow> dict \<Rightarrow> dict res" where
  "contact_note_removed state data = Inr (dput ''deleted'' (PBool True) state)"

text \<open>A primary person's name is the contact's.\<close>

definition name_contact :: "dict \<Rightarrow> dict \<Rightarrow> dict" where
  "name_contact data d =
     (if truthy (dget data ''is_primary'') \<and> truthy (dget data ''name'') then dput ''name'' (dget data ''name'') d else d)"

definition person_added :: "dict \<Rightarrow> dict \<Rightarrow> dict res" where
  "person_added state data =
     rmap (name_contact data) (dappend ''people'' (PDict data) (dsetdefault ''people'' (PList []) state))"

definition person_updated :: "dict \<Rightarrow> dict \<Rightarrow> dict res" where
  "person_updated state data =
     rbind (rbind (rows state ''people'') (find_row (\<lambda>p. Inr (py_eq (dget p ''person_id'') (dget data ''person_id''))) 0)) (\<lambda>hit.
     let c1 = dsetdefault ''people'' (PList []) state;
         c2 = (case hit of Some (i, p) \<Rightarrow> put_row ''people'' i (dmerge p data) c1 | None \<Rightarrow> c1)
     in Inr (name_contact data c2))"

text \<open>\<open>current[k] = [x for x in current.get(k, []) if x.get(f) != data.get(f)]\<close>.\<close>

definition remove_rows :: "string \<Rightarrow> string \<Rightarrow> dict \<Rightarrow> dict \<Rightarrow> dict res" where
  "remove_rows k f state data =
     rbind (rbind (rows state k) (filter_rows (\<lambda>x. Inr (\<not> py_eq (dget x f) (dget data f))))) (\<lambda>kept.
     Inr (dput k (PList kept) state))"

definition unmark :: "pyval \<Rightarrow> dict \<Rightarrow> dict" where
  "unmark t a = (if py_eq (dget a ''address_type'') t then dput ''is_default'' (PBool False) a else a)"

definition address_added :: "dict \<Rightarrow> dict \<Rightarrow> dict res" where
  "address_added state data =
     (let c1 = dsetdefault ''addresses'' (PList []) state in
      rbind (if truthy (dget data ''is_default'')
             then rbind (rbind (rows c1 ''addresses'') (map_rows (\<lambda>a. Inr (unmark (dget_or data ''address_type'' (PStr ''billing'')) a)))) (\<lambda>as.
                  Inr (put_rows ''addresses'' as c1))
             else Inr c1) (\<lambda>c2.
      rbind (dappend ''addresses'' (PDict data) c2) sync_primary_address_fields))"

text \<open>Every row but the one at \<open>i\<close>, which the event replaces.\<close>

definition map_others :: "nat \<Rightarrow> (dict \<Rightarrow> dict) \<Rightarrow> pyval list \<Rightarrow> pyval list res" where
  "map_others i f vs = mapR (\<lambda>(j, v). if j = i then Inr v else rmap (PDict \<circ> f) (as_dict v)) (enumerate 0 vs)"

definition merge_address :: "dict \<Rightarrow> dict \<Rightarrow> dict" where
  "merge_address a data = dmerge a (filter (\<lambda>(k, v). v \<noteq> PNone) data)"

definition address_updated :: "dict \<Rightarrow> dict \<Rightarrow> dict res" where
  "address_updated state data =
     rbind (rows state ''addresses'') (\<lambda>addrs.
     rbind (find_row (\<lambda>a. Inr (py_eq (dget a ''address_id'') (dget data ''address_id''))) 0 addrs) (\<lambda>hit.
     let c1 = dsetdefault ''addresses'' (PList []) state in
     rbind (case hit of None \<Rightarrow> Inr c1
            | Some (i, a) \<Rightarrow>
                (let merged = merge_address a data in
                 rbind (if truthy (dget data ''is_default'')
                        then map_others i (unmark (dget_or merged ''address_type'' (PStr ''billing''))) addrs
                        else Inr addrs) (\<lambda>as.
                 Inr (put_rows ''addresses'' (as[i := PDict merged]) c1)))) sync_primary_address_fields))"

definition address_removed :: "dict \<Rightarrow> dict \<Rightarrow> dict res" where
  "address_removed state data = rbind (remove_rows ''addresses'' ''address_id'' state data) sync_primary_address_fields"

definition contact_file_attached :: "dict \<Rightarrow> dict \<Rightarrow> dict res" where
  "contact_file_attached state data =
     (let c1 = dsetdefault ''files'' (PList []) state in
      append_row ''files'' (rbind (dkey data ''file_id'') (\<lambda>i. rbind (dkey data ''filename'') (\<lambda>n.
      Inr (PDict [(''id'', i), (''filename'', n), (''mime'', dget data ''mime''), (''size'', dget data ''size''),
        (''url'', dget_or data ''url'' (PStr [])), (''description'', py_or (dget data ''description'') (PStr [])),
        (''document_tag'', py_or (dget data ''document_tag'') (PStr [])),
        (''uploaded_at'', py_or (dget data ''uploaded_at'') (PStr []))])))) c1)"

text \<open>The first file of the event's id gets the field.\<close>

definition contact_file_field :: "string \<Rightarrow> dict \<Rightarrow> dict \<Rightarrow> dict res" where
  "contact_file_field k state data =
     rbind (rbind (rows state ''files'') (find_row (\<lambda>f. Inr (py_eq (dget f ''id'') (dget data ''file_id''))) 0)) (\<lambda>hit.
     Inr (case hit of Some (i, f) \<Rightarrow> put_row ''files'' i (dput k (dget_or data k (PStr [])) f) state | None \<Rightarrow> state))"

definition contact_file_deleted :: "dict \<Rightarrow> dict \<Rightarrow> dict res" where
  "contact_file_deleted state data =
     rbind (rbind (rows state ''files'') (filter_rows (\<lambda>f. rmap (\<lambda>i. \<not> py_eq (dget f ''id'') i) (dkey data ''file_id'')))) (\<lambda>kept.
     Inr (dput ''files'' (PList kept) state))"

definition contact_handlers :: "(string \<times> (dict \<Rightarrow> dict \<Rightarrow> dict res)) list" where
  "contact_handlers =
    [(''crm.contact.created'', contact_created), (''crm.contact.updated'', write_changes),
     (''crm.contact.merged'', contact_merged), (''crm.contact.tagged'', contact_tagged),
     (''crm.contact.note_added'', contact_note_added), (''crm.contact.note_updated'', contact_note_updated),
     (''crm.contact.note_removed'', contact_note_removed), (''crm.contact.person_added'', person_added),
     (''crm.contact.person_updated'', person_updated), (''crm.contact.person_removed'', remove_rows ''people'' ''person_id''),
     (''crm.contact.address_added'', address_added), (''crm.contact.address_updated'', address_updated),
     (''crm.contact.address_removed'', address_removed), (''crm.contact.file_attached'', contact_file_attached),
     (''crm.contact.file_tagged'', contact_file_field ''document_tag''),
     (''crm.contact.file_description_updated'', contact_file_field ''description''),
     (''crm.contact.file_deleted'', contact_file_deleted), (''crm.contact.file_removed'', contact_file_deleted)]"

definition apply_contact_event :: "dict \<Rightarrow> string \<Rightarrow> dict \<Rightarrow> dict res" where
  "apply_contact_event state event_type data =
     (case map_of contact_handlers event_type of None \<Rightarrow> Inl ValueError | Some h \<Rightarrow> h state data)"

end
