(* ===== verification/Money.thy ===== *)
theory Money
  imports PyVal "HOL-Library.Product_Lexorder"
begin

text \<open>
  \<open>celerp/services/money.py\<close>: the one module monetary arithmetic goes through.  A function
  whose parameter is a \<open>_MoneyInput\<close> takes here the \<open>Decimal\<close> that \<open>to_decimal\<close> makes of it
  (\<open>to_decimal\<close> of a \<open>Decimal\<close> is that decimal); a currency is the JSON value a document
  holds under \<open>currency\<close>.
\<close>

section \<open>Currencies\<close>

definition CURRENCY_DP :: "(string \<times> nat) list" where
  "CURRENCY_DP =
     map (\<lambda>c. (c, 0)) [''BIF'', ''CLP'', ''DJF'', ''GNF'', ''ISK'', ''JPY'', ''KMF'', ''KRW'', ''PYG'',
       ''RWF'', ''UGX'', ''VND'', ''VUV'', ''XAF'', ''XOF'', ''XPF'']
     @ map (\<lambda>c. (c, 3)) [''BHD'', ''IQD'', ''JOD'', ''KWD'', ''LYD'', ''OMR'', ''TND'']
     @ [(''CLF'', 4)]"

definition DEFAULT_DP :: nat where "DEFAULT_DP = 2"

definition BASIS_DP :: nat where "BASIS_DP = 10"

definition currency_dp :: "pyval \<Rightarrow> nat res" where
  "currency_dp currency =
     (case py_or currency (PStr []) of
        PStr s \<Rightarrow> Inr (case map_of CURRENCY_DP (py_upper s) of Some n \<Rightarrow> n | None \<Rightarrow> DEFAULT_DP)
      | _ \<Rightarrow> Inl AttributeError)"

text \<open>\<open>round(float(v or 0), BASIS_DP)\<close>.\<close>

definition round_basis :: "pyval \<Rightarrow> rat res" where
  "round_basis v = rbind (py_float (py_or v (PInt 0))) (\<lambda>x. Inr (round_float x BASIS_DP))"

section \<open>Coercion and rounding\<close>

fun to_decimal :: "pyval \<Rightarrow> dec res" where
  "to_decimal PNone = Inr (Fin 0 0)"
| "to_decimal (PInt i) = Inr (dec_of_int i)"
| "to_decimal (PFloat x) = Inr (dec_of_float x)"
| "to_decimal (PStr s) = (case parse_dec s of None \<Rightarrow> Inl ArithmeticError | Some d \<Rightarrow> Inr d)"
| "to_decimal _ = Inl ArithmeticError"

text \<open>\<open>to_decimal(x or 0)\<close>.\<close>

definition to_decimal0 :: "pyval \<Rightarrow> dec res" where
  "to_decimal0 v = to_decimal (py_or v (PInt 0))"

definition round_money :: "dec \<Rightarrow> pyval \<Rightarrow> dec res" where
  "round_money d currency = rbind (currency_dp currency) (\<lambda>dp. dquantize d (- int dp))"

definition to_stored_float :: "dec \<Rightarrow> pyval res" where
  "to_stored_float d = rmap PFloat (dec_float d)"

definition line_moves :: "dict \<Rightarrow> bool res" where
  "line_moves line =
     anyR (\<lambda>k. rmap dec_true (to_decimal0 (dget line k))) [''debit'', ''credit'', ''fx_debit'', ''fx_credit'']"

section \<open>Rates\<close>

definition RATE_EXTRA_DP :: nat where "RATE_EXTRA_DP = 4"

definition rate_dp :: "pyval \<Rightarrow> nat res" where
  "rate_dp currency = rmap (\<lambda>dp. dp + RATE_EXTRA_DP) (currency_dp currency)"

definition round_rate :: "dec \<Rightarrow> pyval \<Rightarrow> dec res" where
  "round_rate d currency = rbind (rate_dp currency) (\<lambda>dp. dquantize d (- int dp))"

definition EXCHANGE_RATE_DP :: nat where "EXCHANGE_RATE_DP = 12"

definition round_exchange_rate :: "dec \<Rightarrow> dec res" where
  "round_exchange_rate d = dquantize d (- int EXCHANGE_RATE_DP)"

definition arith_or_type :: "py_exc \<Rightarrow> bool" where
  "arith_or_type e = (e = ArithmeticError \<or> e = TypeError)"

definition checked_exchange_rate :: "pyval \<Rightarrow> dec res" where
  "checked_exchange_rate v =
     rbind (rtry arith_or_type (to_decimal v) (Inl ValueError)) (\<lambda>rate.
     rbind (if is_fin rate then dleq rate (Fin 0 0) else Inr True) (\<lambda>bad.
     if bad then Inl ValueError
     else rbind (round_exchange_rate rate) (\<lambda>stored.
          rbind (dleq stored (Fin 0 0)) (\<lambda>zero.
          if zero then Inl ValueError else Inr stored))))"

definition books_currency :: "dict \<Rightarrow> string" where
  "books_currency settings = py_upper (py_str (py_or (dget settings ''currency'') (PStr ''USD'')))"

definition is_value_error :: "py_exc \<Rightarrow> bool" where
  "is_value_error e = (case e of ValueError \<Rightarrow> True | RefusedError _ \<Rightarrow> True | _ \<Rightarrow> False)"

definition doc_rate :: "dict \<Rightarrow> pyval \<Rightarrow> dec option res" where
  "doc_rate doc base_currency =
     (let base = py_upper (py_str (py_or base_currency (PStr [])));
          currency = py_upper (py_str (py_or (dget doc ''currency'') (PStr base)));
          raw = dget doc ''conversion_rate''
      in if blank raw then Inr (if currency = base then Some (Fin 1 0) else None)
         else rbind (rtry is_value_error (checked_exchange_rate raw) (Inl (RefusedError ''error.rate_invalid''))) (\<lambda>rate.
              rbind (deq rate (Fin 1 0)) (\<lambda>one.
              if currency = base \<and> \<not> one then Inl (RefusedError ''error.rate_not_one_for_base'')
              else Inr (Some rate))))"

definition require_doc_rate :: "dict \<Rightarrow> pyval \<Rightarrow> dec res" where
  "require_doc_rate doc base_currency =
     rbind (doc_rate doc base_currency) (\<lambda>rate.
       case rate of None \<Rightarrow> Inl (RefusedError ''error.rate_required'') | Some r \<Rightarrow> Inr r)"

section \<open>Line amounts and discounts\<close>

text \<open>\<open>except (ArithmeticError, TypeError, ValueError)\<close>.\<close>

definition number_error :: "py_exc \<Rightarrow> bool" where
  "number_error e = (case e of ArithmeticError \<Rightarrow> True | TypeError \<Rightarrow> True | ValueError \<Rightarrow> True | RefusedError _ \<Rightarrow> True | _ \<Rightarrow> False)"

definition document_line_unit :: "dict \<Rightarrow> pyval \<Rightarrow> dec option res" where
  "document_line_unit line currency =
     rtry number_error
       (rbind (to_decimal0 (dget_or line ''quantity'' (PInt 0))) (\<lambda>qty.
        let raw_total = dget line ''line_total'' in
        if \<not> blank raw_total \<and> dec_true qty
        then rbind (to_decimal raw_total) (\<lambda>tot.
             if is_fin tot then rmap Some (ddiv tot qty) else Inr None)
        else let raw_price = (if blank (dget line ''unit_price'') then dget line ''price'' else dget line ''unit_price'') in
             if blank raw_price then Inr None
             else rbind (to_decimal raw_price) (\<lambda>price.
                  rbind (to_decimal0 (dget_or line ''discount_pct'' (PInt 0))) (\<lambda>discount.
                  rbind (ddiv discount (Fin 100 0)) (\<lambda>part.
                  rbind (dsub (Fin 1 0) part) (\<lambda>keep.
                  rbind (dmul price keep) (\<lambda>unit.
                  Inr (if is_fin unit then Some unit else None))))))))
       (Inr None)"

text \<open>The amount of a line: its own total, else quantity times its effective unit charge.
  Only the reading of the inputs is guarded; the final product is not.\<close>

definition document_line_amount :: "dict \<Rightarrow> pyval \<Rightarrow> dec option res" where
  "document_line_amount line currency =
     (let raw_total = dget line ''line_total'' in
      if \<not> blank raw_total
      then rtry number_error
             (rbind (to_decimal raw_total) (\<lambda>tot.
                if is_fin tot then rmap Some (round_money tot currency) else Inr None))
             (Inr None)
      else rbind (rtry number_error (rmap Some (to_decimal0 (dget_or line ''quantity'' (PInt 0)))) (Inr None)) (\<lambda>oq.
           case oq of None \<Rightarrow> Inr None
           | Some qty \<Rightarrow>
             rbind (document_line_unit line currency) (\<lambda>unit.
             case unit of None \<Rightarrow> Inr None
             | Some u \<Rightarrow> rbind (dmul u qty) (\<lambda>x. rmap Some (round_money x currency)))))"

definition require_line_amount :: "dict \<Rightarrow> pyval \<Rightarrow> dec res" where
  "require_line_amount line currency =
     rbind (document_line_amount line currency) (\<lambda>a. case a of None \<Rightarrow> Inl ValueError | Some d \<Rightarrow> Inr d)"

definition discount_from_inputs :: "dict \<Rightarrow> dec \<Rightarrow> pyval \<Rightarrow> dec option res" where
  "discount_from_inputs doc subtotal currency =
     rtry number_error
       (rbind (to_decimal0 (dget_or doc ''discount'' (PInt 0))) (\<lambda>discount.
        rbind (if str_is (dget_or doc ''discount_type'' (PStr ''flat'')) ''percentage''
               then rbind (dmul subtotal discount) (\<lambda>p. ddiv p (Fin 100 0))
               else Inr discount) (\<lambda>amount.
        if is_fin amount then rmap Some (round_money amount currency) else Inr None)))
       (Inr None)"

definition document_discount_amount :: "dict \<Rightarrow> dec \<Rightarrow> pyval \<Rightarrow> dec option res" where
  "document_discount_amount doc subtotal currency =
     (let raw = dget doc ''discount_amount'' in
      if blank raw then discount_from_inputs doc subtotal currency
      else rtry number_error
             (rbind (to_decimal raw) (\<lambda>amount.
                if is_fin amount then rmap Some (round_money amount currency) else Inr None))
             (Inr None))"

section \<open>Conversion and splitting\<close>

definition to_base :: "dec \<Rightarrow> dec \<Rightarrow> pyval \<Rightarrow> pyval res" where
  "to_base amount rate base_currency =
     rbind (dmul amount rate) (\<lambda>x. rbind (round_money x base_currency) to_stored_float)"

text \<open>One step of the loop of \<open>split_to_base\<close>; its state is \<open>(out, running, before)\<close>.\<close>

definition split_step :: "dec \<Rightarrow> pyval \<Rightarrow> dec list \<times> dec \<times> dec \<Rightarrow> dec \<Rightarrow> (dec list \<times> dec \<times> dec) res" where
  "split_step rate base_currency st amount =
     (let (out, running, before) = st in
      rbind (dadd running amount) (\<lambda>running'.
      rbind (dmul running' rate) (\<lambda>x.
      rbind (round_money x base_currency) (\<lambda>upto.
      rbind (dsub upto before) (\<lambda>part.
      Inr (out @ [part], running', upto))))))"

definition split_to_base :: "dec list \<Rightarrow> dec \<Rightarrow> pyval \<Rightarrow> dec list res" where
  "split_to_base amounts rate base_currency =
     rmap fst (foldR (split_step rate base_currency) ([], Fin 0 0, Fin 0 0) amounts)"

text \<open>\<open>sum(xs, Decimal(0))\<close>.\<close>

definition dec_sum :: "dec list \<Rightarrow> dec res" where
  "dec_sum xs = foldR dadd (Fin 0 0) xs"

text \<open>The largest-remainder split of a total that is not negative: whole units rounded
  down, then one more to each part in the order of \<open>whole - exact\<close>, the earlier part first.\<close>

definition allocate_units :: "dec \<Rightarrow> dec list \<Rightarrow> nat \<Rightarrow> dec list res" where
  "allocate_units tot weights dp =
     (let quant = Fin 1 (- int dp) in
      rbind (dec_sum weights) (\<lambda>weight_sum.
      rbind (rbind (ddiv tot quant) dec_int) (\<lambda>units.
      rbind (mapR (\<lambda>w. rbind (dmul (Fin units 0) w) (\<lambda>x. ddiv x weight_sum)) weights) (\<lambda>exact.
      rbind (mapR dec_int exact) (\<lambda>whole.
      rbind (mapR (\<lambda>i. dsub (Fin (whole ! i) 0) (exact ! i)) [0..<length weights]) (\<lambda>keys.
      let order = sort_key (\<lambda>i. (dval (keys ! i), i)) [0..<length weights];
          left = units - sum_list whole;
          chosen = (if 0 \<le> left then take (nat left) order else take (length order - nat (- left)) order);
          whole' = map (\<lambda>i. whole ! i + (if List.member chosen i then 1 else 0)) [0..<length weights]
      in mapR (\<lambda>n. dmul (Fin n 0) quant) whole'))))))"

definition allocate_pro_rata :: "dec \<Rightarrow> dec list \<Rightarrow> pyval \<Rightarrow> dec list res" where
  "allocate_pro_rata amount weights currency =
     rbind (round_money amount currency) (\<lambda>tot.
     rbind (currency_dp currency) (\<lambda>dp.
     rbind (dless tot (Fin 0 0)) (\<lambda>neg.
     if neg then
       rbind (dneg tot) (\<lambda>pos.
       rbind (round_money pos currency) (\<lambda>tot'.
       rbind (allocate_units tot' weights dp) (\<lambda>shares. mapR dneg shares)))
     else allocate_units tot weights dp)))"

definition received_share :: "dec \<Rightarrow> dec \<Rightarrow> dec \<Rightarrow> dec \<Rightarrow> pyval \<Rightarrow> dec res" where
  "received_share tot before after w currency =
     rbind (dmul tot after) (\<lambda>ta. rbind (ddiv ta w) (\<lambda>qa. rbind (round_money qa currency) (\<lambda>ra.
     rbind (dmul tot before) (\<lambda>tb. rbind (ddiv tb w) (\<lambda>qb. rbind (round_money qb currency) (\<lambda>rb.
     dsub ra rb))))))"

text \<open>The candidates of \<open>unit_price_from_total\<close>, fewest decimals first.\<close>

fun first_exact_price :: "dec \<Rightarrow> dec \<Rightarrow> dec \<Rightarrow> pyval \<Rightarrow> nat list \<Rightarrow> dec option res" where
  "first_exact_price exact q target currency [] = Inr None"
| "first_exact_price exact q target currency (d # ds) =
     rbind (dquantize exact (- int d)) (\<lambda>cand.
     rbind (dmul cand q) (\<lambda>x.
     rbind (round_money x currency) (\<lambda>m.
     rbind (deq m target) (\<lambda>hit.
     if hit then Inr (Some cand) else first_exact_price exact q target currency ds))))"

definition unit_price_from_total :: "dec \<Rightarrow> dec \<Rightarrow> pyval \<Rightarrow> dec res" where
  "unit_price_from_total tot q currency =
     rbind (deq q (Fin 0 0)) (\<lambda>zero.
     if zero then Inr (Fin 0 0)
     else rbind (round_money tot currency) (\<lambda>target.
          rbind (ddiv tot q) (\<lambda>exact.
          rbind (currency_dp currency) (\<lambda>lo.
          rbind (rate_dp currency) (\<lambda>hi.
          rbind (first_exact_price exact q target currency [lo..<hi + 1]) (\<lambda>found.
          case found of Some cand \<Rightarrow> Inr cand | None \<Rightarrow> dquantize exact (- int hi)))))))"

end
