(* ===== verification/DocBalance.thy ===== *)
theory DocBalance
  imports Money Rows
begin

text \<open>
  \<open>celerp/services/doc_balance.py\<close>: what a document still owes and when it is overdue.
\<close>

definition DOC_FIELD_FALLBACKS :: "(string \<times> string list) list" where
  "DOC_FIELD_FALLBACKS =
     [(''doc_number'', [''ref'', ''ref_id'']), (''issue_date'', [''created_at'']), (''due_date'', [''payment_due_date'']),
      (''total'', [''total_amount'']), (''amount_outstanding'', [''outstanding_balance''])]"

definition DOC_TYPE_ALIASES :: "(string \<times> string) list" where
  "DOC_TYPE_ALIASES = [(''Invoice'', ''invoice''), (''PO'', ''purchase_order'')]"

definition canonical_doc_type :: "string \<Rightarrow> string" where
  "canonical_doc_type t = (case map_of DOC_TYPE_ALIASES t of Some u \<Rightarrow> u | None \<Rightarrow> t)"

definition MEMO_LIVE_STATUSES :: "string list" where
  "MEMO_LIVE_STATUSES = [''sent'', ''final'', ''partial'', ''received'', ''partially_received'', ''partial_returned'']"

definition MEMO_DRAW_STATUSES :: "string list" where
  "MEMO_DRAW_STATUSES = MEMO_LIVE_STATUSES @ [''paid'']"

definition RECEIVABLE_AWAITING :: "string list" where
  "RECEIVABLE_AWAITING = [''final'', ''sent'', ''awaiting_payment'', ''partial'']"

definition AWAITING_PAYMENT_STATUSES :: "(string \<times> string list) list" where
  "AWAITING_PAYMENT_STATUSES =
     [(''invoice'', RECEIVABLE_AWAITING), (''proforma'', RECEIVABLE_AWAITING), (''memo'', RECEIVABLE_AWAITING),
      (''bill'', [''final'', ''awaiting_payment'', ''partial'', ''received'', ''partially_received'',
                  ''partial_returned'', ''returned'']),
      (''purchase_order'', [''sent'', ''final'', ''awaiting_payment'', ''partial'', ''received'', ''partially_received'',
                            ''partial_returned'', ''returned''])]"

definition OPEN_CREDIT_STATUSES :: "(string \<times> string list) list" where
  "OPEN_CREDIT_STATUSES = [(''credit_note'', RECEIVABLE_AWAITING), (''debit_note'', RECEIVABLE_AWAITING)]"

definition OVERDUE_STATUSES :: "(string \<times> string list) list" where
  "OVERDUE_STATUSES =
     [(''invoice'', RECEIVABLE_AWAITING),
      (''bill'', [''final'', ''awaiting_payment'', ''partial'', ''received'', ''partially_received'',
                  ''partial_returned'', ''returned'']),
      (''memo'', MEMO_LIVE_STATUSES),
      (''consignment_in'', [''final'', ''received'', ''partially_received'', ''partial_returned''])]"

definition BALANCE_DOC_TYPES :: "string list" where
  "BALANCE_DOC_TYPES = [''invoice'', ''bill'']"

definition doc_value :: "dict \<Rightarrow> string \<Rightarrow> pyval" where
  "doc_value state field =
     (let value = dget state field in
      if blank value
      then (case find (\<lambda>k. \<not> blank (dget state k)) (case map_of DOC_FIELD_FALLBACKS field of Some ks \<Rightarrow> ks | None \<Rightarrow> []) of
              Some k \<Rightarrow> dget state k | None \<Rightarrow> value)
      else value)"

definition doc_tax :: "dict \<Rightarrow> pyval" where
  "doc_tax state =
     (if dhas state ''tax_amount'' \<and> dget state ''tax_amount'' \<noteq> PNone then dget state ''tax_amount''
      else if str_is (dget state ''doc_type'') ''list'' \<or> str_is (dget state ''entity_type'') ''list'' then PInt 0
      else py_or (dget state ''tax'') (PInt 0))"

definition settled_on :: "dict \<Rightarrow> string option res" where
  "settled_on state =
     rbind (rows_or state ''payments'') (\<lambda>ps.
     rbind (filter_rows (\<lambda>p. Inr (str_is (dget_or p ''status'' (PStr ''active'')) ''active'' \<and> truthy (dget p ''payment_date''))) ps) (\<lambda>act.
     let days = map (\<lambda>v. case v of PDict p \<Rightarrow> take 10 (py_str (dget p ''payment_date'')) | _ \<Rightarrow> []) act
     in Inr (if days = [] then None else Some (fold max (tl days) (hd days)))))"

definition outstanding_balance :: "dict \<Rightarrow> dec option res" where
  "outstanding_balance state =
     (let balance = doc_value state ''amount_outstanding'';
          balance' = (if blank balance then doc_value state ''total'' else balance)
      in rtry number_error (rbind (to_decimal0 balance') (\<lambda>amount. Inr (if is_fin amount then Some amount else None))) (Inr None))"

definition doc_currency :: "dict \<Rightarrow> pyval" where
  "doc_currency state = PStr (py_str (py_or (dget state ''currency'') (PStr ''USD'')))"

definition is_owed :: "dict \<Rightarrow> bool res" where
  "is_owed state =
     rbind (outstanding_balance state) (\<lambda>balance.
       case balance of None \<Rightarrow> Inr False
       | Some b \<Rightarrow> rbind (round_money b (doc_currency state)) (\<lambda>m. dless (Fin 0 0) m))"

text \<open>\<open>status in TABLE.get(doc_type, ())\<close>: a type the table does not name has no statuses.\<close>

definition status_in :: "(string \<times> string list) list \<Rightarrow> pyval \<Rightarrow> pyval \<Rightarrow> bool res" where
  "status_in t doc_type status =
     rbind (table_get t doc_type) (\<lambda>ss. case ss of None \<Rightarrow> Inr False | Some xs \<Rightarrow> in_set status xs)"

definition is_awaiting_payment :: "pyval \<Rightarrow> pyval \<Rightarrow> bool res" where
  "is_awaiting_payment doc_type status = status_in AWAITING_PAYMENT_STATUSES doc_type status"

definition is_paid_document :: "dict \<Rightarrow> bool res" where
  "is_paid_document state =
     (if str_is (dget state ''status'') ''paid''
      then in_set (dget state ''doc_type'') (map fst AWAITING_PAYMENT_STATUSES) else Inr False)"

definition is_open_credit :: "dict \<Rightarrow> bool res" where
  "is_open_credit state =
     rbind (status_in OPEN_CREDIT_STATUSES (dget state ''doc_type'') (dget state ''status'')) (\<lambda>b.
     if b then is_owed state else Inr False)"

definition is_overdue_document :: "dict \<Rightarrow> string \<Rightarrow> bool res" where
  "is_overdue_document state today =
     (let doc_type = dget state ''doc_type''; due = doc_value state ''due_date'' in
      if \<not> truthy due \<or> today \<le> py_str due then Inr False
      else rbind (status_in OVERDUE_STATUSES doc_type (dget state ''status'')) (\<lambda>live.
           if \<not> live then Inr False
           else rbind (in_set doc_type BALANCE_DOC_TYPES) (\<lambda>bal. if bal then is_owed state else Inr True)))"

section \<open>What the reports rely on\<close>

lemma outstanding_balance_fin: "outstanding_balance state = Inr (Some b) \<Longrightarrow> is_fin b"
  by (auto simp: outstanding_balance_def Let_def rtry_def rbind_eq_Inr split: sum.splits if_splits)

lemma is_owed_True:
  assumes "is_owed state = Inr True"
  obtains b m where "outstanding_balance state = Inr (Some b)" "round_money b (doc_currency state) = Inr m" "0 < dval m"
proof -
  from assms obtain b m where b: "outstanding_balance state = Inr (Some b)" and m: "round_money b (doc_currency state) = Inr m"
    and l: "dless (Fin 0 0) m = Inr True"
    by (auto simp: is_owed_def rbind_eq_Inr split: option.splits)
  obtain dp where "dquantize b (- int dp) = Inr m" using m by (auto simp: round_money_def rbind_eq_Inr)
  then have "is_fin m" using dquantize_Inr(1) [OF outstanding_balance_fin [OF b], of "int dp" m] by auto
  with l b m show thesis by (intro that) auto
qed

lemma overdue_statuses: "map_of OVERDUE_STATUSES t = Some xs \<Longrightarrow> s \<in> set xs \<Longrightarrow>
    s \<notin> {''draft'', ''void'', ''paid'', ''closed'', ''converted''}"
  by (drule map_of_SomeD) (auto simp: OVERDUE_STATUSES_def RECEIVABLE_AWAITING_def MEMO_LIVE_STATUSES_def)

text \<open>An overdue document is in a live status of its type, never draft, void, paid, closed or
  converted; its due date lies strictly before the day; and an overdue invoice or bill still owes
  a positive amount at its currency's precision.\<close>

theorem overdue_document_owes:
  assumes "is_overdue_document state today = Inr True"
  shows "py_str (doc_value state ''due_date'') < today
    \<and> (\<forall>s\<in>{''draft'', ''void'', ''paid'', ''closed'', ''converted''}. dget state ''status'' \<noteq> PStr s)
    \<and> (dget state ''doc_type'' = PStr ''invoice'' \<or> dget state ''doc_type'' = PStr ''bill'' \<longrightarrow>
        (\<exists>b m. outstanding_balance state = Inr (Some b) \<and> round_money b (doc_currency state) = Inr m \<and> 0 < dval m))"
proof -
  from assms have due: "py_str (doc_value state ''due_date'') < today"
    and live: "status_in OVERDUE_STATUSES (dget state ''doc_type'') (dget state ''status'') = Inr True"
    and owed: "\<And>b. in_set (dget state ''doc_type'') BALANCE_DOC_TYPES = Inr b \<Longrightarrow> b \<Longrightarrow> is_owed state = Inr True"
    by (auto simp: is_overdue_document_def Let_def rbind_eq_Inr split: if_splits)
  from live obtain t xs s where "dget state ''doc_type'' = PStr t" "map_of OVERDUE_STATUSES t = Some xs"
    "dget state ''status'' = PStr s" "s \<in> set xs"
    by (auto simp: status_in_def table_get_def rbind_eq_Inr in_set_Inr_True split: option.splits pyval.splits)
  moreover have "is_owed state = Inr True" if "dget state ''doc_type'' = PStr ''invoice'' \<or> dget state ''doc_type'' = PStr ''bill''"
    using owed [of True] that by (auto simp: BALANCE_DOC_TYPES_def)
  ultimately show ?thesis using due overdue_statuses by (fastforce elim: is_owed_True)
qed

lemma overdue_document_owes_witness:
  "\<exists>b. outstanding_balance [(''doc_type'', PStr ''invoice''), (''status'', PStr ''sent''), (''total'', PInt 100), (''due_date'', PStr ''2026-01-31'')] = Inr (Some b)"
proof -
  have "is_overdue_document [(''doc_type'', PStr ''invoice''), (''status'', PStr ''sent''), (''total'', PInt 100), (''due_date'', PStr ''2026-01-31'')] ''2026-02-01'' = Inr True"
    by code_simp
  from overdue_document_owes [OF this] show ?thesis by (auto simp: dget_def dget_or_def)
qed

end
