(* ===== verification/DocLines.thy ===== *)
theory DocLines
  imports Rows
begin

text \<open>
  \<open>celerp/services/document_lines.py\<close>: which line of a document a receipt entry is for.
\<close>

definition line_item_id :: "dict \<Rightarrow> pyval" where
  "line_item_id line = py_or (dget line ''item_id'') (dget line ''entity_id'')"

definition holds_receipt :: "dict \<Rightarrow> dict \<Rightarrow> bool \<Rightarrow> bool" where
  "holds_receipt line entry in_place =
     (let item_id = dget entry ''item_id''; sku = stripped entry ''sku'' in
      if truthy item_id \<or> sku \<noteq> []
      then (truthy item_id \<and> py_eq (line_item_id line) item_id) \<or> (sku \<noteq> [] \<and> stripped line ''sku'' = sku)
      else if truthy (line_item_id line) \<or> stripped line ''sku'' \<noteq> [] then False
      else let name = stripped entry ''name'' in
           in_place \<or> (name \<noteq> [] \<and> py_strip (py_str (py_or (py_or (dget line ''name'') (dget line ''description'')) (PStr []))) = name))"

text \<open>The positions of the lines answering a test.\<close>

definition line_positions :: "(dict \<Rightarrow> bool) \<Rightarrow> pyval list \<Rightarrow> nat list res" where
  "line_positions p lines =
     rmap (\<lambda>hits. map fst (filter snd (enumerate 0 hits))) (mapR (\<lambda>v. rmap p (as_dict v)) lines)"

definition the_only :: "nat list \<Rightarrow> nat option" where
  "the_only found = (case found of [i] \<Rightarrow> Some i | _ \<Rightarrow> None)"

definition received_line_index :: "pyval list \<Rightarrow> dict \<Rightarrow> nat option res" where
  "received_line_index lines entry =
     (let line_id = dget entry ''source_line_id'' in
      if truthy line_id
      then rmap the_only (line_positions (\<lambda>li. py_eq (dget li ''line_id'') line_id) lines)
      else rbind (py_int (dget_or entry ''po_line_index'' (PInt (- 1)))) (\<lambda>index.
           rbind (if 0 \<le> index \<and> index < int (length lines)
                  then rmap (\<lambda>li. holds_receipt li entry True) (as_dict (lines ! nat index)) else Inr False) (\<lambda>there.
           if there then Inr (Some (nat index))
           else rmap the_only (line_positions (\<lambda>li. holds_receipt li entry False) lines))))"

section \<open>The line is one of the document's\<close>

lemma line_positions_Inr:
  assumes "line_positions p lines = Inr found"
  shows "found = filter (\<lambda>i. case lines ! i of PDict r \<Rightarrow> p r | _ \<Rightarrow> False) [0..<length lines]"
    "\<And>i. i < length lines \<Longrightarrow> \<exists>r. lines ! i = PDict r"
proof -
  from assms obtain hits where h: "mapR (\<lambda>v. rmap p (as_dict v)) lines = Inr hits"
    and found: "found = map fst (filter snd (enumerate 0 hits))"
    by (auto simp: line_positions_def rmap_eq_Inr)
  have rows: "\<exists>r. lines ! i = PDict r \<and> hits ! i = p r" if "i < length lines" for i
    using mapR_nth [OF h that] by (auto simp: rmap_eq_Inr as_dict_Inr)
  then show "\<And>i. i < length lines \<Longrightarrow> \<exists>r. lines ! i = PDict r" by blast
  have len: "length hits = length lines" by (rule mapR_length [OF h])
  have "enumerate 0 hits = map (\<lambda>i. (i, hits ! i)) [0..<length lines]"
    by (rule nth_equalityI) (simp_all add: len nth_enumerate_eq)
  then have "found = filter (\<lambda>i. hits ! i) [0..<length lines]"
    by (simp add: found filter_map comp_def)
  also have "\<dots> = filter (\<lambda>i. case lines ! i of PDict r \<Rightarrow> p r | _ \<Rightarrow> False) [0..<length lines]"
  proof (rule filter_cong [OF refl])
    fix i assume "i \<in> set [0..<length lines]"
    then obtain r where "lines ! i = PDict r \<and> hits ! i = p r" using rows [of i] by auto
    then show "hits ! i = (case lines ! i of PDict r \<Rightarrow> p r | _ \<Rightarrow> False)" by simp
  qed
  finally show "found = filter (\<lambda>i. case lines ! i of PDict r \<Rightarrow> p r | _ \<Rightarrow> False) [0..<length lines]" .
qed

lemma the_only_Some: "the_only found = Some i \<longleftrightarrow> found = [i]"
  by (auto simp: the_only_def split: list.splits)


lemma line_positions_only:
  assumes "rmap the_only (line_positions p lines) = Inr (Some i)"
  shows "\<exists>r. i < length lines \<and> lines ! i = PDict r \<and> p r \<and> (\<forall>j<length lines. \<forall>r'. lines ! j = PDict r' \<and> p r' \<longrightarrow> j = i)"
proof -
  from assms have l: "line_positions p lines = Inr [i]"
    by (cases "line_positions p lines") (auto simp: the_only_Some)
  have f: "filter (\<lambda>i. case lines ! i of PDict r \<Rightarrow> p r | _ \<Rightarrow> False) [0..<length lines] = [i]"
    using line_positions_Inr(1) [OF l] by simp
  have "j \<in> set [i] \<longleftrightarrow> j < length lines \<and> (case lines ! j of PDict r \<Rightarrow> p r | _ \<Rightarrow> False)" for j
    unfolding f [symmetric] by auto
  note at = this
  obtain r where r: "i < length lines" "lines ! i = PDict r" using at [of i] line_positions_Inr(2) [OF l, of i] by auto
  then have "p r" using at [of i] by simp
  moreover have "j = i" if "j < length lines" "lines ! j = PDict r'" "p r'" for j r'
    using at [of j] that by simp
  ultimately show ?thesis using r by blast
qed

text \<open>The line a receipt entry is told to be for is a line of the document.  An entry that
  records its line's id gets the one line carrying that id; any other gets a line that holds its
  goods, which is either the one at its recorded position or the only one holding them.\<close>

theorem received_line_index_sound:
  assumes "received_line_index lines entry = Inr (Some i)"
  shows "\<exists>r. i < length lines \<and> lines ! i = PDict r
    \<and> (if truthy (dget entry ''source_line_id'')
       then py_eq (dget r ''line_id'') (dget entry ''source_line_id'')
            \<and> (\<forall>j<length lines. \<forall>r'. lines ! j = PDict r' \<and> py_eq (dget r' ''line_id'') (dget entry ''source_line_id'') \<longrightarrow> j = i)
       else (py_int (dget_or entry ''po_line_index'' (PInt (- 1))) = Inr (int i) \<and> holds_receipt r entry True)
            \<or> (holds_receipt r entry False
                \<and> (\<forall>j<length lines. \<forall>r'. lines ! j = PDict r' \<and> holds_receipt r' entry False \<longrightarrow> j = i)))"
proof (cases "truthy (dget entry ''source_line_id'')")
  case True
  then have "rmap the_only (line_positions (\<lambda>li. py_eq (dget li ''line_id'') (dget entry ''source_line_id'')) lines) = Inr (Some i)"
    using assms by (simp add: received_line_index_def Let_def)
  from line_positions_only [OF this] show ?thesis using True by auto
next
  case False
  with assms obtain index there where idx: "py_int (dget_or entry ''po_line_index'' (PInt (- 1))) = Inr index"
    and there: "(if 0 \<le> index \<and> index < int (length lines)
                  then rmap (\<lambda>li. holds_receipt li entry True) (as_dict (lines ! nat index)) else Inr False) = Inr there"
    and res: "(if there then Inr (Some (nat index))
           else rmap the_only (line_positions (\<lambda>li. holds_receipt li entry False) lines)) = Inr (Some i)"
    by (auto simp: received_line_index_def Let_def rbind_eq_Inr)
  show ?thesis
  proof (cases there)
    case True
    then show ?thesis using there res idx False by (auto simp: rmap_eq_Inr as_dict_Inr split: if_splits)
  next
    case there0: False
    then have "rmap the_only (line_positions (\<lambda>li. holds_receipt li entry False) lines) = Inr (Some i)" using res by simp
    from line_positions_only [OF this] show ?thesis using False by auto
  qed
qed

lemma received_line_index_sound_witness:
  "\<exists>r. [PDict [(''line_id'', PStr ''b'')], PDict [(''line_id'', PStr ''a'')]] ! 1 = PDict r \<and> py_eq (dget r ''line_id'') (PStr ''a'')"
proof -
  have "received_line_index [PDict [(''line_id'', PStr ''b'')], PDict [(''line_id'', PStr ''a'')]] [(''source_line_id'', PStr ''a'')] = Inr (Some 1)"
    by code_simp
  from received_line_index_sound [OF this] show ?thesis by (auto simp: dget_def dget_or_def)
qed

end
