(* ===== verification/DocProj.thy ===== *)
theory DocProj
  imports DocBalance DocLines
begin

text \<open>
  \<open>celerp_docs/doc_projections.py\<close>: the state of a document, a list or one of their notes as the
  fold of its events.  Every branch of \<open>apply_documents_event\<close> is a function from the state and
  the event's data to the new state; \<open>document_handlers\<close> is the dispatch.  A state is the
  dictionary the projection stores; Python's copy before the branch is the identity here.
\<close>

section \<open>Balances and statuses\<close>

definition UNISSUED_STATUSES :: "string list" where "UNISSUED_STATUSES = [''draft'', ''void'']"

definition CREDITED_DOC_TYPES :: "string list" where "CREDITED_DOC_TYPES = [''invoice'', ''credit_note'']"

definition LEGACY_CONTACT_FIELDS :: "(string \<times> string) list" where
  "LEGACY_CONTACT_FIELDS =
     [(''customer_id'', ''contact_id''), (''customer_name'', ''contact_name''), (''receiver'', ''contact_name'')]"

definition contact_field :: "string \<Rightarrow> string" where
  "contact_field k = (case map_of LEGACY_CONTACT_FIELDS k of Some c \<Rightarrow> c | None \<Rightarrow> k)"

text \<open>\<open>to_decimal(d.get(k, 0) or 0)\<close>.\<close>

definition dec_field :: "dict \<Rightarrow> string \<Rightarrow> dec res" where
  "dec_field d k = to_decimal0 (dget_or d k (PInt 0))"

definition credited_of :: "dict \<Rightarrow> dec res" where
  "credited_of state =
     rbind (in_set (dget state ''doc_type'') CREDITED_DOC_TYPES) (\<lambda>c.
       if c then dec_field state ''credited'' else Inr (Fin 0 0))"

definition payment_balances :: "dict \<Rightarrow> dec \<Rightarrow> (dec \<times> dec) res" where
  "payment_balances state paid =
     (let currency = doc_currency state in
      rbind (dec_field state ''total'') (\<lambda>tot.
      rbind (dec_field state ''returned_credit'') (\<lambda>ret.
      rbind (dsub tot ret) (\<lambda>a.
      rbind (dec_field state ''supplier_credit'') (\<lambda>sup.
      rbind (dadd a sup) (\<lambda>b.
      rbind (round_money b currency) (\<lambda>owed.
      rbind (dmax (Fin 0 0) paid) (\<lambda>p.
      rbind (round_money p currency) (\<lambda>paid_d.
      rbind (rbind (credited_of state) (\<lambda>c. round_money c currency)) (\<lambda>credited.
      rbind (rbind (dsub owed paid_d) (\<lambda>x. dsub x credited)) (\<lambda>left.
      rbind (rbind (dmax (Fin 0 0) left) (\<lambda>x. round_money x currency)) (\<lambda>outstanding.
      Inr (paid_d, outstanding)))))))))))))"

definition left_of :: "dict \<Rightarrow> dec res" where
  "left_of payment =
     rbind (to_decimal0 (dget payment ''amount'')) (\<lambda>a. rbind (to_decimal0 (dget payment ''refunded'')) (\<lambda>r. dsub a r))"

definition payment_status :: "dict \<Rightarrow> dec \<Rightarrow> dec \<Rightarrow> string res" where
  "payment_status state paid outstanding =
     rbind (deq outstanding (Fin 0 0)) (\<lambda>settled.
     if settled then Inr ''paid''
     else rbind (dless (Fin 0 0) paid) (\<lambda>some_paid.
          if some_paid then Inr ''partial''
          else rbind (rbind (credited_of state) (dless (Fin 0 0))) (\<lambda>c.
               Inr (if c then ''partial'' else ''final''))))"

text \<open>\<open>to_decimal(current.get("amount_paid", 0))\<close>.\<close>

definition amount_paid_of :: "dict \<Rightarrow> dec res" where
  "amount_paid_of d = to_decimal (dget_or d ''amount_paid'' (PInt 0))"

text \<open>The balances as they stand, and the outstanding amount written from them.\<close>

definition balances_now :: "dict \<Rightarrow> (dec \<times> dec) res" where
  "balances_now d = rbind (amount_paid_of d) (payment_balances d)"

definition put_outstanding :: "dec \<Rightarrow> dict \<Rightarrow> dict res" where
  "put_outstanding outstanding d = rmap (\<lambda>v. dput ''amount_outstanding'' v d) (to_stored_float outstanding)"

definition refresh_outstanding :: "dict \<Rightarrow> dict res" where
  "refresh_outstanding d = rbind (balances_now d) (\<lambda>(_, outstanding). put_outstanding outstanding d)"

text \<open>What every payment event writes: both balances and the status they make.\<close>

definition settle :: "dict \<Rightarrow> dec \<Rightarrow> dict res" where
  "settle d paid0 =
     rbind (payment_balances d paid0) (\<lambda>(paid, outstanding).
     rbind (to_stored_float paid) (\<lambda>p.
     rbind (put_outstanding outstanding (dput ''amount_paid'' p d)) (\<lambda>d'.
     rbind (payment_status d' paid outstanding) (\<lambda>s. Inr (dput ''status'' (PStr s) d')))))"

definition status_without_receipts :: "dict \<Rightarrow> string res" where
  "status_without_receipts state =
     (let before = dget state ''pre_receipt_status'' in
      if str_is before ''draft'' \<and> \<not> truthy (dget state ''finalized'') then Inr ''draft''
      else rbind (balances_now state) (\<lambda>(paid, outstanding).
           rbind (payment_status state paid outstanding) (\<lambda>status.
           Inr (if status = ''final'' \<and> str_is before ''awaiting_payment'' then ''awaiting_payment'' else status))))"

text \<open>The quantity received on each line, in a table by the line's position.\<close>

definition received_step :: "pyval list \<Rightarrow> (nat \<times> rat) list \<Rightarrow> pyval \<Rightarrow> (nat \<times> rat) list res" where
  "received_step lines received_on v =
     rbind (as_dict v) (\<lambda>x.
     rbind (received_line_index lines x) (\<lambda>idx.
       case idx of None \<Rightarrow> Inr received_on
       | Some i \<Rightarrow> rbind (fget x ''quantity_received'') (\<lambda>q.
           Inr (AList.update i (fadd (case map_of received_on i of Some r \<Rightarrow> r | None \<Rightarrow> 0) q) received_on))))"

text \<open>One line: its row with the received quantity, whether it has all it ordered, whether any.\<close>

definition receipt_line :: "(nat \<times> rat) list \<Rightarrow> nat \<times> pyval \<Rightarrow> (pyval \<times> bool \<times> bool) res" where
  "receipt_line received_on iv =
     rbind (as_dict (snd iv)) (\<lambda>line.
     rbind (fget line ''quantity'') (\<lambda>ordered.
     let rec_qty = (case map_of received_on (fst iv) of Some r \<Rightarrow> r | None \<Rightarrow> 0) in
     Inr (PDict (dput ''quantity_received'' (PFloat rec_qty) line), \<not> fadd rec_qty (fl (1 / 10 ^ 9)) < ordered, 0 < rec_qty)))"

text \<open>The status of a document holding receipts, and the document with its lines marked.\<close>

definition receipt_status :: "dict \<Rightarrow> (string \<times> dict) res" where
  "receipt_status current =
     rbind (rows current ''line_items'') (\<lambda>line_items.
     rbind (rows_or current ''received_items'') (\<lambda>received.
     rbind (foldR (received_step line_items) [] received) (\<lambda>received_on.
     rbind (mapR (receipt_line received_on) (enumerate 0 line_items)) (\<lambda>marked.
     let current' = put_rows ''line_items'' (map fst marked) current in
     if line_items \<noteq> [] \<and> list_all (fst \<circ> snd) marked then Inr (''received'', current')
     else if list_ex (snd \<circ> snd) marked then Inr (''partially_received'', current')
     else rmap (\<lambda>s. (s, current')) (status_without_receipts current')))))"

definition put_receipt_status :: "dict \<Rightarrow> dict res" where
  "put_receipt_status current = rmap (\<lambda>(s, d). dput ''status'' (PStr s) d) (receipt_status current)"

section \<open>Document events\<close>

definition doc_created :: "dict \<Rightarrow> dict \<Rightarrow> dict res" where
  "doc_created state data =
     (let c1 = dmerge (dput ''entity_type'' (PStr ''doc'') state) data;
          c2 = dsetdefault ''amount_paid'' (PFloat 0) (dsetdefault ''linked'' (PList []) (dsetdefault ''status'' (PStr ''draft'') c1))
      in rbind (fget c2 ''total'') (\<lambda>tot.
         let c3 = dsetdefault ''files'' (PList []) (dsetdefault ''amount_outstanding'' (PFloat tot) c2) in
         rbind (in_set (dget c3 ''status'') UNISSUED_STATUSES) (\<lambda>unissued.
         if unissued \<and> (truthy (dget c3 ''amount_paid'') \<or> truthy (dget c3 ''payments''))
         then let c4 = ddel ''payments'' (dput ''amount_paid'' (PFloat 0) c3) in
              rbind (payment_balances c4 (Fin 0 0)) (\<lambda>(_, outstanding).
                if str_is (dget c4 ''status'') ''void'' then Inr (dput ''amount_outstanding'' (PFloat 0) c4)
                else put_outstanding outstanding c4)
         else Inr c3)))"

definition doc_pushed :: "dict \<Rightarrow> dict \<Rightarrow> dict res" where
  "doc_pushed state data =
     (let platform = dget data ''platform''; ext_id = dget data ''external_id'' in
      Inr (if truthy platform \<and> truthy ext_id
           then dput (py_str platform @ ''_'' @ py_str (dget_or data ''entity'' (PStr ''invoice'')) @ ''_id'') (PStr (py_str ext_id)) state
           else state))"

text \<open>One field of \<open>doc.updated\<close>: protected fields and a finalized document's rate stay.\<close>

definition doc_update_field :: "string list \<Rightarrow> bool \<Rightarrow> dict \<Rightarrow> string \<times> pyval \<Rightarrow> dict res" where
  "doc_update_field protected rate_fixed current change =
     (if List.member protected (fst change) \<or> (fst change = ''conversion_rate'' \<and> rate_fixed) then Inr current
      else rmap (\<lambda>v. dput (fst change) v current) (vget (snd change) ''new''))"

definition doc_updated :: "dict \<Rightarrow> dict \<Rightarrow> dict res" where
  "doc_updated state data =
     rbind (in_set (dget state ''doc_type'') [''subscription_invoice'', ''subscription_po'']) (\<lambda>is_template.
     rbind (rbind (dkey data ''fields_changed'') as_dict) (\<lambda>changed.
     let protected = (if is_template \<or> dhas changed ''credited'' then [''entity_type'', ''company_id'']
                      else [''status'', ''entity_type'', ''company_id'']);
         is_finalized = (dget_or state ''status'' (PStr ''draft'') \<noteq> PStr ''draft'');
         rate_fixed = (is_finalized \<and> \<not> truthy (dget data ''takes_invoice_rate''))
     in rbind (foldR (doc_update_field protected rate_fixed) state changed) (\<lambda>current.
        if dhas changed ''total'' \<or> dhas changed ''line_items'' then refresh_outstanding current
        else if dhas changed ''credited''
        then rbind (in_set (dget current ''doc_type'') CREDITED_DOC_TYPES) (\<lambda>credits.
             if credits then Inr current
             else rbind (balances_now current) (\<lambda>(paid, outstanding).
                  rbind (put_outstanding outstanding current) (\<lambda>current'.
                  if str_in (dget current' ''status'') [''final'', ''partial'', ''paid'']
                  then rmap (\<lambda>s. dput ''status'' (PStr s) current') (payment_status current' paid outstanding)
                  else Inr current')))
        else Inr current)))"

definition doc_renumbered :: "dict \<Rightarrow> dict \<Rightarrow> dict res" where
  "doc_renumbered state data =
     rbind (rbind (dkey data ''fields_changed'') as_dict) (\<lambda>changed.
       foldR (\<lambda>current change. rmap (\<lambda>v. dput (fst change) v current) (vget (snd change) ''new'')) state changed)"

definition doc_linked :: "dict \<Rightarrow> dict \<Rightarrow> dict res" where
  "doc_linked state data =
     rbind (dkey data ''entity_id'') (\<lambda>i. rbind (dkey data ''entity_type'') (\<lambda>t.
       dappend ''linked'' (PDict [(''entity_id'', i), (''entity_type'', t)]) (dsetdefault ''linked'' (PList []) state)))"

definition doc_sent :: "dict \<Rightarrow> dict \<Rightarrow> dict res" where
  "doc_sent state data =
     Inr (copy_if ''sent_to'' data (copy_if ''sent_via'' data (dput ''status'' (PStr ''sent'') state)))"

text \<open>\<open>if data.get("ref_id")\<close>: the number goes with it.\<close>

definition copy_ref :: "dict \<Rightarrow> dict \<Rightarrow> dict" where
  "copy_ref data d = (let r = dget data ''ref_id'' in if truthy r then dput ''doc_number'' r (dput ''ref_id'' r d) else d)"

definition doc_finalized :: "dict \<Rightarrow> dict \<Rightarrow> dict res" where
  "doc_finalized state data =
     Inr (copy_if ''source_proforma_ref'' data (copy_ref data (dput ''finalized'' (PBool True)
       (dput ''status'' (PStr (if truthy (dget data ''skip_receiving'') then ''awaiting_payment'' else ''final'')) state))))"

definition doc_converted_to_bill :: "dict \<Rightarrow> dict \<Rightarrow> dict res" where
  "doc_converted_to_bill state data =
     Inr (copy_if ''doc_type'' data (copy_if ''source_po_ref'' data (copy_ref data
       (dput ''finalized'' (PBool True) (dput ''status'' (PStr ''awaiting_payment'') state)))))"

definition doc_voided :: "dict \<Rightarrow> dict \<Rightarrow> dict res" where
  "doc_voided state data =
     Inr (if dget state ''status'' \<noteq> PStr ''void''
          then let c1 = dput ''amount_outstanding'' (PFloat 0) (dput ''status'' (PStr ''void'') state);
                   c2 = (if truthy (dget data ''reason'') then dput ''void_reason'' (dget data ''reason'') c1 else c1)
               in copy_if ''pre_void_fulfillment'' data (copy_if ''pre_void_status'' data c2)
          else state)"

definition doc_reverted_to_draft :: "dict \<Rightarrow> dict \<Rightarrow> dict res" where
  "doc_reverted_to_draft state data =
     (let c1 = copy_ref data (copy_if ''doc_type'' data (dput ''finalized'' (PBool False) (dput ''status'' (PStr ''draft'') state)))
      in rbind (iget c1 ''revert_count'') (\<lambda>n.
         let c2 = dput ''revert_count'' (PInt (n + 1)) c1 in
         if str_in (dget c2 ''doc_type'') [''bill'', ''consignment_in'']
         then let c3 = ddels [''fulfilled_items'', ''fulfillment_status'', ''received_items'', ''received_item_ids'',
                              ''returned_items'', ''supplier_credit''] c2;
                  had = truthy (dget c3 ''returned_credit''); c4 = ddel ''returned_credit'' c3
              in rbind (if had then refresh_outstanding c4 else Inr c4) (\<lambda>c5.
                 rbind (rbind (rows c5 ''line_items'') (map_rows (\<lambda>li. Inr (ddels [''entity_id'', ''quantity_received''] li)))) (\<lambda>ls.
                 Inr (put_rows ''line_items'' ls c5)))
         else if truthy (dget c2 ''received_items'')
         then if truthy (dget c2 ''returned_items'') then Inr (dput ''status'' (PStr ''partial_returned'') c2)
              else put_receipt_status c2
         else Inr c2))"

definition doc_unvoided :: "dict \<Rightarrow> dict \<Rightarrow> dict res" where
  "doc_unvoided state data =
     rmap (ddels [''void_reason'', ''pre_void_status''])
       (refresh_outstanding (dput ''status'' (dget_or data ''restored_status'' (PStr ''final'')) state))"

definition doc_closed :: "dict \<Rightarrow> dict \<Rightarrow> dict res" where
  "doc_closed state data =
     (let c1 = dput ''pre_close_status'' (dget data ''pre_close_status'') (dput ''status'' (PStr ''closed'') state)
      in Inr (if truthy (dget data ''reason'') then dput ''close_reason'' (dget data ''reason'') c1 else c1))"

definition doc_reopened :: "dict \<Rightarrow> dict \<Rightarrow> dict res" where
  "doc_reopened state data =
     Inr (ddels [''pre_close_status'', ''close_reason'', ''converted_to'', ''converted_to_type'', ''pre_convert_status'']
       (dput ''status'' (py_or (dget data ''restored_status'') (PStr ''final'')) state))"

section \<open>Payments\<close>

text \<open>The record of a payment: its index is its identity.\<close>

definition payment_record :: "nat \<Rightarrow> dict \<Rightarrow> rat \<Rightarrow> dict" where
  "payment_record n data amount =
     [(''index'', dget_or data ''index'' (PInt (int n))), (''amount'', PFloat amount), (''currency'', dget data ''currency''),
      (''method'', dget data ''method''), (''reference'', dget data ''reference''),
      (''payment_date'', dget data ''payment_date''), (''bank_account'', dget data ''bank_account''),
      (''conversion_rate'', dget data ''conversion_rate''), (''source_doc_id'', dget data ''source_doc_id''),
      (''target_doc_id'', dget data ''target_doc_id''), (''paired_index'', dget data ''paired_index''),
      (''charged_amount'', dget data ''charged_amount''), (''books'', dget data ''books''), (''status'', PStr ''active'')]"

definition payment_received :: "dict \<Rightarrow> dict \<Rightarrow> dict res" where
  "payment_received state data =
     rbind (amount_paid_of state) (\<lambda>before.
     rbind (dkey data ''amount'') (\<lambda>raw.
     rbind (to_decimal raw) (\<lambda>amount.
     rbind (dadd before amount) (\<lambda>paid0.
     rbind (payment_balances state paid0) (\<lambda>(paid, outstanding).
     rbind (to_stored_float paid) (\<lambda>p.
     let c1 = dput ''amount_paid'' p state in
     rbind (in_set (dget_or c1 ''status'' (PStr ''draft'')) UNISSUED_STATUSES) (\<lambda>unissued.
     rbind (if \<not> unissued
            then rbind (put_outstanding outstanding c1) (\<lambda>c2.
                 rmap (\<lambda>s. dput ''status'' (PStr s) c2) (payment_status c2 paid outstanding))
            else if str_is (dget c1 ''status'') ''draft'' then put_outstanding outstanding c1
            else Inr c1) (\<lambda>c2.
     let c3 = dsetdefault ''payments'' (PList []) c2 in
     case dget c3 ''payments'' of
       PList ps \<Rightarrow> rbind (py_float raw) (\<lambda>x. dappend ''payments'' (PDict (payment_record (length ps) data x)) c3)
     | _ \<Rightarrow> Inl AttributeError))))))))"

text \<open>The payment whose index field is \<open>idx\<close>.\<close>

definition find_payment :: "dict \<Rightarrow> pyval \<Rightarrow> (nat \<times> dict) option res" where
  "find_payment d idx = rbind (rows d ''payments'') (find_row (\<lambda>p. Inr (py_eq (dget p ''index'') idx)) 0)"

definition payment_voided :: "dict \<Rightarrow> dict \<Rightarrow> dict res" where
  "payment_voided state data =
     rbind (dkey data ''payment_index'') (\<lambda>idx.
     rbind (find_payment state idx) (\<lambda>target.
       case target of None \<Rightarrow> Inr state
       | Some (i, p) \<Rightarrow>
         let p' = dput ''refund_date'' (dget data ''refund_date'') (dput ''void_reason'' (dget data ''void_reason'')
                    (dput ''status'' (PStr ''voided'') p));
             c1 = put_row ''payments'' i p' state
         in rbind (amount_paid_of c1) (\<lambda>paid. rbind (left_of p') (\<lambda>left. rbind (dsub paid left) (settle c1)))))"

text \<open>\<open>p["index"] = i\<close> for every payment left after a compaction.\<close>

definition reindex :: "pyval list \<Rightarrow> pyval list res" where
  "reindex ps = mapR (\<lambda>(i, v). case v of PDict p \<Rightarrow> Inr (PDict (dput ''index'' (PInt (int i)) p)) | _ \<Rightarrow> Inl TypeError)
                  (enumerate 0 ps)"

text \<open>\<open>0 <= idx < len(payments)\<close> and then \<open>payments[idx]\<close>.\<close>

definition list_position :: "pyval \<Rightarrow> nat \<Rightarrow> nat option res" where
  "list_position idx n =
     (case idx of
        PInt i \<Rightarrow> Inr (if 0 \<le> i \<and> i < int n then Some (nat i) else None)
      | PBool b \<Rightarrow> Inr (if of_bool b < n then Some (of_bool b) else None)
      | PFloat x \<Rightarrow> (if 0 \<le> x \<and> x < of_nat n then Inl TypeError else Inr None)
      | _ \<Rightarrow> Inl TypeError)"

definition payment_deleted :: "dict \<Rightarrow> dict \<Rightarrow> dict res" where
  "payment_deleted state data =
     rbind (dkey data ''payment_index'') (\<lambda>idx.
     rbind (rows state ''payments'') (\<lambda>payments.
     if truthy (dget data ''tombstone'')
     then rbind (find_payment state idx) (\<lambda>target.
          case target of None \<Rightarrow> Inr state
          | Some (i, p) \<Rightarrow>
            if str_is (dget p ''status'') ''active''
            then let p' = dput ''status'' (PStr ''deleted'') p; c1 = put_row ''payments'' i p' state
                 in rbind (amount_paid_of c1) (\<lambda>paid. rbind (left_of p') (\<lambda>left. rbind (dsub paid left) (settle c1)))
            else Inr state)
     else rbind (list_position idx (length payments)) (\<lambda>pos.
          case pos of None \<Rightarrow> Inr state
          | Some i \<Rightarrow>
            rbind (as_dict (payments ! i)) (\<lambda>p.
            rbind (reindex (take i payments @ drop (Suc i) payments)) (\<lambda>ps.
            let c1 = put_rows ''payments'' ps state in
            rbind (amount_paid_of c1) (\<lambda>paid.
            rbind (if str_is (dget p ''status'') ''active'' then left_of p else Inr (Fin 0 0)) (\<lambda>left.
            rbind (dsub paid left) (settle c1))))))))"

definition payment_refunded :: "dict \<Rightarrow> dict \<Rightarrow> dict res" where
  "payment_refunded state data =
     rbind (rbind (dkey data ''amount'') to_decimal) (\<lambda>refunded.
     let idx = dget data ''payment_index'' in
     rbind (if idx \<noteq> PNone then find_payment state idx else Inr None) (\<lambda>target.
     rbind (case target of None \<Rightarrow> Inr state
            | Some (i, p) \<Rightarrow>
              rbind (to_decimal (dget_or p ''refunded'' (PInt 0))) (\<lambda>r.
              rbind (rbind (dadd r refunded) to_stored_float) (\<lambda>v.
              rbind (iget p ''refund_count'') (\<lambda>n.
              Inr (put_row ''payments'' i (dput ''refund_count'' (PInt (n + 1)) (dput ''refunded'' v p)) state))))) (\<lambda>c1.
     rbind (amount_paid_of c1) (\<lambda>paid. rbind (dsub paid refunded) (settle c1)))))"

text \<open>The payment a later event names: its index is read from the data for each payment asked.\<close>

definition find_named_payment :: "dict \<Rightarrow> dict \<Rightarrow> (nat \<times> dict) option res" where
  "find_named_payment d data =
     rbind (rows d ''payments'') (find_row (\<lambda>p. rmap (py_eq (dget p ''index'')) (dkey data ''payment_index'')) 0)"

definition payment_refund_reversed :: "dict \<Rightarrow> dict \<Rightarrow> dict res" where
  "payment_refund_reversed state data =
     rbind (rbind (dkey data ''amount'') to_decimal) (\<lambda>restored.
     rbind (find_named_payment state data) (\<lambda>target.
     rbind (case target of None \<Rightarrow> Inr state
            | Some (i, p) \<Rightarrow>
              rbind (to_decimal (dget_or p ''refunded'' (PInt 0))) (\<lambda>r.
              rbind (dsub r restored) (\<lambda>x. rbind (dmax (Fin 0 0) x) (\<lambda>y. rbind (to_stored_float y) (\<lambda>v.
              Inr (put_row ''payments'' i (dput ''refunded'' v p) state)))))) (\<lambda>c1.
     rbind (amount_paid_of c1) (\<lambda>paid. rbind (dadd paid restored) (settle c1)))))"

definition payment_stripe_released :: "dict \<Rightarrow> dict \<Rightarrow> dict res" where
  "payment_stripe_released state data =
     rbind (find_named_payment state data) (\<lambda>target.
       case target of None \<Rightarrow> Inr state
       | Some (i, p) \<Rightarrow> rmap (\<lambda>v. put_row ''payments'' i (dput ''stripe_released_at'' v p) state) (dkey data ''released_at''))"

end
