(* ===== verification/Taxes.thy ===== *)
theory Taxes
  imports ContactProj DocProj
begin

text \<open>
  The taxes of a company and of a line: \<open>celerp/tax_regimes.py\<close> (the tax lists a country starts
  from, the list a document draws from, the taxes a new line starts with, the taxes a stored
  value holds, which of them a document may carry, and the seeded rows that are no longer
  right) and \<open>celerp_docs/taxes.py\<close> (the amounts of an ordered list of taxes).

  A tax list a company saved is a JSON value; its entries are read where the source reads them.
  \<open>TaxApplication\<close> is a pydantic model: what \<open>model_validate\<close> accepts is a parameter
  \<open>read :: dict \<Rightarrow> tax_application option\<close> of the definitions that call it.  Text is ASCII, where
  \<open>casefold\<close> is \<open>lower\<close>; the two Japanese names of the table stand as their UTF-8 bytes.
\<close>

section \<open>Tax lists by country\<close>

definition tax_row :: "string \<Rightarrow> rat \<Rightarrow> string \<Rightarrow> bool \<Rightarrow> string \<Rightarrow> bool \<Rightarrow> int \<Rightarrow> pyval" where
  "tax_row name rate tax_type is_default description is_compound default_order =
     PDict [(''name'', PStr name), (''rate'', PFloat rate), (''tax_type'', PStr tax_type), (''is_default'', PBool is_default),
       (''description'', PStr description), (''is_compound'', PBool is_compound), (''default_order'', PInt default_order)]"

definition regime :: "string \<Rightarrow> pyval list \<Rightarrow> dict" where
  "regime currency taxes = [(''currency'', PStr currency), (''taxes'', PList taxes)]"

definition TAX_REGIMES :: "(string \<times> dict) list" where
  "TAX_REGIMES =
   [
    (''TH'', regime ''THB''
      [tax_row ''VAT 7%'' 7 ''both'' True ''Thailand standard VAT''
        False 0,
       tax_row ''Exempt'' 0 ''both'' False ''VAT-exempt''
        False 0,
       tax_row ''WHT 3%'' (-3) ''purchase'' False ''Withholding tax on services''
        False 1,
       tax_row ''WHT 5%'' (-5) ''purchase'' False ''Withholding tax on rentals''
        False 1]),
    (''SG'', regime ''SGD''
      [tax_row ''GST 9%'' 9 ''both'' True ''Singapore GST''
        False 0,
       tax_row ''Exempt'' 0 ''both'' False ''GST-exempt''
        False 0]),
    (''MY'', regime ''MYR''
      [tax_row ''Sales Tax 10%'' 10 ''sales'' True ''Malaysia sales tax, standard rate''
        False 0,
       tax_row ''Sales Tax 5%'' 5 ''sales'' False ''Malaysia sales tax, reduced rate for listed goods''
        False 0,
       tax_row ''Service Tax 8%'' 8 ''sales'' False ''Malaysia service tax (selected services)''
        False 0,
       tax_row ''Service Tax 6%'' 6 ''sales'' False ''Malaysia service tax on listed services such as food and drink, telecoms, logistics, parking and rentals''
        False 0,
       tax_row ''Exempt'' 0 ''both'' False ''Tax-exempt''
        False 0]),
    (''PH'', regime ''PHP''
      [tax_row ''VAT 12%'' 12 ''both'' True ''Philippines VAT''
        False 0,
       tax_row ''Zero-rated'' 0 ''both'' False ''Zero-rated VAT (exports)''
        False 0,
       tax_row ''Exempt'' 0 ''both'' False ''VAT-exempt''
        False 0,
       tax_row ''EWT 2%'' (-2) ''purchase'' False ''Expanded withholding tax''
        False 1]),
    (''ID'', regime ''IDR''
      [tax_row ''PPN 11%'' 11 ''both'' True ''12% on a base of 11/12 of the price, for goods that are not luxury goods''
        False 0,
       tax_row ''PPN 12%'' 12 ''both'' False ''Luxury goods, on the full price''
        False 0,
       tax_row ''Exempt'' 0 ''both'' False ''PPN-exempt''
        False 0,
       tax_row ''PPh 2%'' (-2) ''purchase'' False ''Income tax withholding (PPh 23)''
        False 1]),
    (''VN'', regime ''VND''
      [tax_row ''VAT 10%'' 10 ''both'' True ''Vietnam standard VAT''
        False 0,
       tax_row ''VAT 8%'' 8 ''both'' False ''Reduced rate until 31 Dec 2026. Excluded sectors stay at 10%''
        False 0,
       tax_row ''VAT 5%'' 5 ''both'' False ''Vietnam reduced VAT (essential goods)''
        False 0,
       tax_row ''Exempt'' 0 ''both'' False ''VAT-exempt''
        False 0]),
    (''AU'', regime ''AUD''
      [tax_row ''GST 10%'' 10 ''both'' True ''Australia GST''
        False 0,
       tax_row ''GST-free'' 0 ''both'' False ''GST-free supply''
        False 0]),
    (''NZ'', regime ''NZD''
      [tax_row ''GST 15%'' 15 ''both'' True ''New Zealand GST''
        False 0,
       tax_row ''Zero-rated'' 0 ''both'' False ''Zero-rated GST (exports)''
        False 0]),
    (''GB'', regime ''GBP''
      [tax_row ''VAT 20%'' 20 ''both'' True ''UK standard VAT''
        False 0,
       tax_row ''VAT 5%'' 5 ''both'' False ''UK reduced rate VAT''
        False 0,
       tax_row ''Zero-rated'' 0 ''both'' False ''Zero-rated VAT''
        False 0]),
    (''DE'', regime ''EUR''
      [tax_row ''MwSt 19%'' 19 ''both'' True ''Germany standard VAT''
        False 0,
       tax_row ''MwSt 7%'' 7 ''both'' False ''Germany reduced VAT''
        False 0,
       tax_row ''Exempt'' 0 ''both'' False ''VAT-exempt''
        False 0]),
    (''FR'', regime ''EUR''
      [tax_row ''TVA 20%'' 20 ''both'' True ''France standard VAT''
        False 0,
       tax_row ''TVA 10%'' 10 ''both'' False ''France intermediate rate''
        False 0,
       tax_row ''TVA 5.5%'' (11/2) ''both'' False ''France reduced rate''
        False 0,
       tax_row ''Exempt'' 0 ''both'' False ''VAT-exempt''
        False 0]),
    (''US'', regime ''USD''
      [tax_row ''Sales Tax'' 0 ''sales'' True ''State and local sales tax. Set the rate for your area''
        False 0,
       tax_row ''Exempt'' 0 ''both'' False ''Tax-exempt''
        False 0]),
    (''CA'', regime ''CAD''
      [tax_row ''GST 5%'' 5 ''both'' True ''Canada federal GST''
        False 0,
       tax_row ''PST'' 0 ''both'' False ''Provincial sales tax. Set the rate for your province''
        False 1,
       tax_row ''QST 9.975%'' (fl (399/40)) ''both'' False ''Quebec sales tax, charged on the price before GST''
        False 1,
       tax_row ''Exempt'' 0 ''both'' False ''Tax-exempt''
        False 0]),
    (''IN'', regime ''INR''
      [tax_row ''CGST 9%'' 9 ''both'' False ''India central GST (standard rate split)''
        False 0,
       tax_row ''SGST 9%'' 9 ''both'' False ''India state GST (standard rate split)''
        False 0,
       tax_row ''IGST 18%'' 18 ''both'' True ''Integrated GST on sales between states. Within a state, 18% is charged as CGST 9% plus SGST 9%''
        False 0,
       tax_row ''GST 5%'' 5 ''both'' False ''India reduced GST rate''
        False 0,
       tax_row ''Exempt'' 0 ''both'' False ''GST-exempt''
        False 0,
       tax_row ''TDS 2%'' (-2) ''purchase'' False ''Tax deducted at source''
        False 1]),
    (''JP'', regime ''JPY''
      [tax_row ([char_of (230::nat), char_of (182::nat), char_of (136::nat), char_of (232::nat), char_of (178::nat), char_of (187::nat), char_of (231::nat), char_of (168::nat), char_of (142::nat)] @ '' 10%'') 10 ''both'' True ''Japan consumption tax (standard)''
        False 0,
       tax_row ([char_of (230::nat), char_of (182::nat), char_of (136::nat), char_of (232::nat), char_of (178::nat), char_of (187::nat), char_of (231::nat), char_of (168::nat), char_of (142::nat)] @ '' 8%'') 8 ''both'' False ''Japan consumption tax (reduced rate for food and drink)''
        False 0,
       tax_row ''Exempt'' 0 ''both'' False ''Tax-exempt''
        False 0]),
    (''ET'', regime ''ETB''
      [tax_row ''VAT 15%'' 15 ''both'' True ''Ethiopia standard VAT''
        False 0,
       tax_row ''Exempt'' 0 ''both'' False ''VAT-exempt''
        False 0,
       tax_row ''WHT 3%'' (-3) ''purchase'' False ''Withholding on goods contracts above ETB 20,000 and services from ETB 10,000. 30% when the supplier gives no TIN''
        False 1]),
    (''_default'', regime ''USD''
      [tax_row ''Standard Tax'' 0 ''both'' True ''Set your local tax rate''
        False 0,
       tax_row ''Exempt'' 0 ''both'' False ''Tax-exempt''
        False 0])]"

definition TAX_COUNTRIES :: "string list" where
  "TAX_COUNTRIES = filter (\<lambda>code. code \<noteq> ''_default'') (map fst TAX_REGIMES)"

definition tax_country :: "pyval \<Rightarrow> string" where
  "tax_country value =
     (let code = py_upper (py_strip (py_str (py_or value (PStr []))))
      in if List.member TAX_COUNTRIES code then code else [])"

definition get_regime :: "string option \<Rightarrow> dict" where
  "get_regime country_code =
     (let fallback = the (map_of TAX_REGIMES ''_default'')
      in case country_code of
           None \<Rightarrow> fallback
         | Some c \<Rightarrow> if c = [] then fallback
             else (case map_of TAX_REGIMES (py_upper (py_strip c)) of Some r \<Rightarrow> r | None \<Rightarrow> fallback))"

definition TAXES_SEEDED_FOR :: string where "TAXES_SEEDED_FOR = ''taxes_seeded_for''"

definition with_taxes :: "dict \<Rightarrow> pyval \<Rightarrow> string option \<Rightarrow> dict" where
  "with_taxes settings taxes seeded_for =
     (let out = dput ''taxes'' taxes settings
      in case seeded_for of None \<Rightarrow> ddel TAXES_SEEDED_FOR out | Some code \<Rightarrow> dput TAXES_SEEDED_FOR (PStr code) out)"

section \<open>The list a document draws from\<close>

definition generic_taxes :: pyval where
  "generic_taxes = dget (the (map_of TAX_REGIMES ''_default'')) ''taxes''"

definition configured :: "dict \<Rightarrow> string \<Rightarrow> pyval \<Rightarrow> pyval" where
  "configured settings key fallback = (if dget settings key \<noteq> PNone then dget settings key else fallback)"

definition sales_taxes :: "dict \<Rightarrow> pyval" where
  "sales_taxes settings = configured settings ''taxes'' generic_taxes"

definition purchasing_taxes :: "dict \<Rightarrow> pyval" where
  "purchasing_taxes settings = configured settings ''purchasing_taxes'' (sales_taxes settings)"

definition SUPPLIER_DOC_TYPES :: "string list" where
  "SUPPLIER_DOC_TYPES = [''purchase_order'', ''subscription_po'', ''bill'', ''consignment_in'', ''debit_note'']"

definition doc_side :: "pyval \<Rightarrow> string res" where
  "doc_side doc_type = rmap (\<lambda>buys. if buys then ''purchase'' else ''sales'') (in_set doc_type SUPPLIER_DOC_TYPES)"

definition side_taxes :: "dict \<Rightarrow> pyval \<Rightarrow> pyval res" where
  "side_taxes settings doc_type =
     rmap (\<lambda>side. if side = ''purchase'' then purchasing_taxes settings else sales_taxes settings) (doc_side doc_type)"

definition tax_side :: "dict \<Rightarrow> pyval" where
  "tax_side x = py_or (dget x ''tax_type'') (PStr ''both'')"

definition taxes_for :: "pyval \<Rightarrow> pyval \<Rightarrow> dict list res" where
  "taxes_for taxes doc_type =
     rbind (doc_side doc_type) (\<lambda>side. rbind (rbind (py_iter taxes) (mapR as_dict)) (\<lambda>xs.
     Inr (filter (\<lambda>x. str_in (tax_side x) [side, ''both'']) xs)))"

section \<open>The taxes of a line\<close>

text \<open>The tax objects a stored value holds.\<close>

fun dict_items :: "pyval list \<Rightarrow> dict list" where
  "dict_items [] = []"
| "dict_items (PDict d # vs) = d # dict_items vs"
| "dict_items (_ # vs) = dict_items vs"

definition tax_entries :: "pyval \<Rightarrow> dict list" where
  "tax_entries value = (case value of PList vs \<Rightarrow> dict_items vs | _ \<Rightarrow> [])"

definition line_tax_unset :: "dict \<Rightarrow> bool" where
  "line_tax_unset line = (map_of line ''taxes'' = Some PNone)"

text \<open>\<open>float(tax.get("rate") or 0)\<close>.\<close>

definition rate_of :: "dict \<Rightarrow> rat res" where
  "rate_of tax = py_float (py_or (dget tax ''rate'') (PInt 0))"

definition line_tax :: "dict \<Rightarrow> dict res" where
  "line_tax tax =
     rbind (rbind (dkey tax ''rate'') py_float) (\<lambda>rate.
     rbind (py_int (py_or (dget tax ''default_order'') (PInt 0))) (\<lambda>order.
     Inr [(''code'', dget tax ''name''), (''rate'', PFloat rate), (''amount'', PInt 0), (''order'', PInt order),
       (''is_compound'', PBool (truthy (dget tax ''is_compound''))), (''label'', PStr [])]))"

definition line_tax_key :: "dict list \<Rightarrow> pyval res" where
  "line_tax_key taxes =
     rmap PList (mapR (\<lambda>tax.
       rbind (rate_of tax) (\<lambda>rate. rbind (py_int (py_or (dget tax ''order'') (PInt 0))) (\<lambda>order.
       Inr (PList [dget tax ''code'', PFloat rate, PInt order, PBool (truthy (dget tax ''is_compound'')),
         py_or (dget tax ''label'') (PStr [])])))) taxes)"

text \<open>The key as a member of a set: a list or a dictionary in it has no hash.\<close>

definition hashed_key :: "dict list \<Rightarrow> pyval res" where
  "hashed_key taxes =
     rbind (line_tax_key taxes) (\<lambda>k.
       if list_all (\<lambda>tax. hashable (dget tax ''code'') \<and> hashable (py_or (dget tax ''label'') (PStr []))) taxes
       then Inr k else Inl TypeError)"

definition matching_tax :: "dict list \<Rightarrow> pyval \<Rightarrow> rat \<Rightarrow> dict option res" where
  "matching_tax taxes code rate =
     findR (\<lambda>tax. rmap (\<lambda>r. r = rate
       \<and> (if truthy code then py_eq (dget_or tax ''name'' (PStr [])) code else rate \<noteq> 0)) (rate_of tax)) taxes"

definition legacy_line_taxes :: "dict \<Rightarrow> pyval \<Rightarrow> pyval \<Rightarrow> dict list option res" where
  "legacy_line_taxes line taxes doc_type =
     rbind (rtry (\<lambda>e. e = TypeError \<or> e = ValueError) (rmap Some (py_float (py_or (dget line ''tax_rate'') (PInt 0)))) (Inr None)) (\<lambda>read.
     case read of
       None \<Rightarrow> Inr None
     | Some rate \<Rightarrow>
         if rate = 0 then Inr (Some [])
         else let code = py_or (dget line ''tax_code'') (PStr []) in
              rbind (taxes_for taxes doc_type) (\<lambda>company.
              rbind (matching_tax company code rate) (\<lambda>match.
              case match of
                Some tax \<Rightarrow> rmap (\<lambda>t. Some [t]) (line_tax tax)
              | None \<Rightarrow> Inr (Some [[(''code'', code), (''rate'', PFloat rate), (''amount'', PInt 0), (''order'', PInt 0),
                  (''is_compound'', PBool False), (''label'', PStr [])]]))))"

definition carried_taxes :: "pyval \<Rightarrow> pyval \<Rightarrow> dict \<Rightarrow> dict list option res" where
  "carried_taxes taxes doc_type line =
     (if line_tax_unset line then Inr None
      else if tax_entries (dget line ''taxes'') \<noteq> [] then Inr (Some (tax_entries (dget line ''taxes'')))
      else legacy_line_taxes line taxes doc_type)"

text \<open>The company's defaults for a document's side that charge something, as a line carries them.\<close>

definition default_tax :: "dict \<Rightarrow> dict option res" where
  "default_tax tax =
     (if truthy (dget tax ''is_default'')
      then rbind (rate_of tax) (\<lambda>r. if r \<noteq> 0 then rmap Some (line_tax tax) else Inr None)
      else Inr None)"

definition company_defaults :: "pyval \<Rightarrow> pyval \<Rightarrow> dict list option res" where
  "company_defaults taxes doc_type =
     rbind (taxes_for taxes doc_type) (\<lambda>xs. rmap (\<lambda>os. Some (List.map_filter id os)) (mapR default_tax xs))"

definition default_line_taxes :: "pyval \<Rightarrow> pyval \<Rightarrow> dict option \<Rightarrow> dict list option res" where
  "default_line_taxes taxes doc_type doc =
     (case doc of
        Some d \<Rightarrow> if d \<noteq> [] \<and> tax_entries (dget d ''doc_taxes'') \<noteq> []
          then rbind (rows_or d ''line_items'') (\<lambda>vs.
               rbind (mapR (carried_taxes taxes doc_type) (dict_items vs)) (\<lambda>carried.
               if carried = [] \<or> List.member carried None then Inr None
               else rbind (mapR (\<lambda>each. hashed_key (the each)) carried) (\<lambda>keys.
                    if \<not> list_all (py_eq (hd keys)) keys then Inr None
                    else Inr (Some (map (\<lambda>tax. dput ''amount'' (PInt 0) tax) (the (hd carried)))))))
          else company_defaults taxes doc_type
      | None \<Rightarrow> company_defaults taxes doc_type)"

definition set_new_line_taxes :: "dict \<Rightarrow> dict list option \<Rightarrow> dict" where
  "set_new_line_taxes line taxes =
     (case taxes of None \<Rightarrow> dput ''taxes'' PNone line
      | Some ts \<Rightarrow> if ts = [] then line else dput ''taxes'' (PList (map PDict ts)) line)"

section \<open>Reading a stored value\<close>

definition tax_text :: "pyval \<Rightarrow> string" where
  "tax_text entry =
     take 60 (py_str (case entry of PDict d \<Rightarrow> py_or (py_or (dget d ''code'') (dget d ''label'')) entry | _ \<Rightarrow> entry))"

definition is_tax :: "pyval \<Rightarrow> bool" where
  "is_tax v = (case v of PDict _ \<Rightarrow> True | _ \<Rightarrow> False)"

definition unreadable_tax :: "pyval \<Rightarrow> string option" where
  "unreadable_tax value =
     (case value of
        PNone \<Rightarrow> None
      | PList vs \<Rightarrow> map_option tax_text (List.find (\<lambda>v. \<not> is_tax v) vs)
      | _ \<Rightarrow> Some (tax_text value))"

section \<open>The side of a tax\<close>

definition tax_name_key :: "pyval \<Rightarrow> string" where
  "tax_name_key name = py_lower (py_strip (py_str (py_or name (PStr []))))"

definition holds_tax :: "pyval \<Rightarrow> pyval \<Rightarrow> bool res" where
  "holds_tax taxes name =
     rbind (py_iter taxes) (anyR (\<lambda>v. rmap (\<lambda>x. tax_name_key (dget x ''name'') = tax_name_key name) (as_dict v)))"

text \<open>The tax refused, by its name, or by its rate (printed \<open>f"{rate:g}%"\<close>) when it has none.\<close>

datatype tax_label = Named string | Rated rat

definition misplaced_entry :: "string \<Rightarrow> (string \<times> pyval) list \<Rightarrow> dict \<Rightarrow> tax_label option res" where
  "misplaced_entry side sides tax =
     (let code = py_strip (py_str (py_or (dget tax ''code'') (PStr []))) in
      rbind (rtry (\<lambda>e. e = TypeError \<or> e = ValueError) (rate_of tax) (Inr 0)) (\<lambda>rate.
      let placed = (if side = ''sales'' \<and> rate < 0 then PStr ''purchase''
                    else dget_or sides (tax_name_key (PStr code)) (PStr ''both''))
      in Inr (if \<not> str_in placed [side, ''both''] then Some (if code \<noteq> [] then Named code else Rated rate) else None)))"

fun first_misplaced :: "string \<Rightarrow> (string \<times> pyval) list \<Rightarrow> dict list \<Rightarrow> tax_label option res" where
  "first_misplaced side sides [] = Inr None"
| "first_misplaced side sides (tax # rest) =
     rbind (misplaced_entry side sides tax) (\<lambda>found.
       case found of Some l \<Rightarrow> Inr (Some l) | None \<Rightarrow> first_misplaced side sides rest)"

definition named_sides :: "dict list \<Rightarrow> (string \<times> pyval) list" where
  "named_sides xs = fold (\<lambda>x m. AList.update (tax_name_key (dget x ''name'')) (tax_side x) m) xs []"

definition misplaced_tax :: "dict \<Rightarrow> pyval \<Rightarrow> dict list \<Rightarrow> tax_label option res" where
  "misplaced_tax settings doc_type applied =
     rbind (doc_side doc_type) (\<lambda>side.
     rbind (py_iter (if side = ''purchase'' then sales_taxes settings else purchasing_taxes settings)) (\<lambda>other.
     rbind (rbind (side_taxes settings doc_type) py_iter) (\<lambda>own.
     rbind (mapR as_dict (other @ own)) (\<lambda>xs.
     first_misplaced side (named_sides xs) applied))))"

section \<open>Seeded rows that are no longer right\<close>

record retired_entry =
  re_id :: string
  re_all :: bool
  re_rows :: "dict list"

definition retired :: "string \<Rightarrow> bool \<Rightarrow> dict list \<Rightarrow> retired_entry" where
  "retired i a rs = \<lparr>re_id = i, re_all = a, re_rows = rs\<rparr>"

definition RETIRED_SEED_ROWS :: "retired_entry list" where
  "RETIRED_SEED_ROWS =
    [retired ''in-default-2025'' True
       [[(''name'', PStr ''CGST 9%''), (''is_default'', PBool True)], [(''name'', PStr ''SGST 9%''), (''is_default'', PBool True)]],
     retired ''et-wht-2025'' False [[(''name'', PStr ''WHT 2%''), (''rate'', PFloat (-2))]],
     retired ''et-tot-2025'' False [[(''name'', PStr ''TOT 2%'')], [(''name'', PStr ''TOT 10%'')]],
     retired ''ca-qst-compound'' False [[(''name'', PStr ''QST 9.975%''), (''is_compound'', PBool True)]],
     retired ''my-sst-6'' False [[(''name'', PStr ''SST 6%''), (''rate'', PFloat 6)]]]"

definition row_matches :: "dict \<Rightarrow> dict \<Rightarrow> bool" where
  "row_matches row want =
     list_all (\<lambda>(field, value).
       if field = ''name'' then tax_name_key (dget row ''name'') = tax_name_key value
       else if field = ''rate'' then (case rate_of row of Inr r \<Rightarrow> py_eq (PFloat r) value | Inl _ \<Rightarrow> False)
       else py_eq (PBool (truthy (dget row field))) value) want"

definition saved_lists :: "dict \<Rightarrow> (string \<times> dict list) list" where
  "saved_lists settings =
     map (\<lambda>(side, v). (side, tax_entries v))
       (filter (\<lambda>(side, v). case v of PList _ \<Rightarrow> True | _ \<Rightarrow> False)
         [(''sales'', dget settings ''taxes''), (''purchase'', dget settings ''purchasing_taxes'')])"

definition holds_entry :: "retired_entry \<Rightarrow> dict list \<Rightarrow> bool" where
  "holds_entry e rs =
     (if re_all e then list_all (\<lambda>want. list_ex (\<lambda>r. row_matches r want) rs) (re_rows e)
      else list_ex (\<lambda>want. list_ex (\<lambda>r. row_matches r want) rs) (re_rows e))"

definition retired_seed_rows :: "dict \<Rightarrow> (string \<times> string list) list" where
  "retired_seed_rows settings =
     filter (\<lambda>(i, sides). sides \<noteq> [])
       (map (\<lambda>e. (re_id e, map fst (filter (\<lambda>(side, rs). holds_entry e rs) (saved_lists settings)))) RETIRED_SEED_ROWS)"

section \<open>The amounts of an ordered list of taxes\<close>

record tax_application =
  tx_code :: string
  tx_rate :: rat
  tx_amount :: rat
  tx_order :: int
  tx_compound :: bool
  tx_label :: string

type_synonym tax_reader = "dict \<Rightarrow> tax_application option"

text \<open>\<open>model_dump()\<close>.\<close>

definition dump_tax :: "tax_application \<Rightarrow> dict" where
  "dump_tax t = [(''code'', PStr (tx_code t)), (''rate'', PFloat (tx_rate t)), (''amount'', PFloat (tx_amount t)),
     (''order'', PInt (tx_order t)), (''is_compound'', PBool (tx_compound t)), (''label'', PStr (tx_label t))]"

text \<open>One pass of the loop of \<open>compute_tax_amounts\<close>; its state is \<open>(result, running_tax_total)\<close>.\<close>

definition tax_step :: "dec \<Rightarrow> pyval \<Rightarrow> tax_application list \<times> dec \<Rightarrow> tax_application \<Rightarrow> (tax_application list \<times> dec) res" where
  "tax_step base currency st item =
     (if tx_amount item \<noteq> 0
      then rmap (\<lambda>running. (fst st @ [item], running)) (dadd (snd st) (dec_of_float (tx_amount item)))
      else rbind (if tx_compound item then dadd base (snd st) else Inr base) (\<lambda>tax_base.
           rbind (dmul tax_base (dec_of_float (tx_rate item))) (\<lambda>x. rbind (ddiv x (Fin 100 0)) (\<lambda>y.
           rbind (round_money y currency) (\<lambda>amount.
           rbind (dec_float amount) (\<lambda>stored.
           rmap (\<lambda>running. (fst st @ [item\<lparr>tx_amount := stored\<rparr>], running)) (dadd (snd st) amount)))))))"

definition compute_tax_amounts :: "tax_application list \<Rightarrow> rat \<Rightarrow> pyval \<Rightarrow> tax_application list res" where
  "compute_tax_amounts taxes base currency =
     rmap fst (foldR (tax_step (dec_of_float base) currency) ([], Fin 0 0) (sort_key tx_order taxes))"

end
