(* ===== verification/TaxFacts.thy ===== *)
theory TaxFacts
  imports Taxes
begin

text \<open>
  What the tax lists guarantee: the taxes a new line starts with are ones its document may
  carry, whatever list the company saved, as long as its names differ; on a draft that charges a
  tax as a whole they are the taxes of its lines, and fit when those do.
\<close>

lemma strip_strip [simp]: "py_strip (py_strip s) = py_strip s"
proof -
  define a where "a = dropWhile is_space s"
  define b where "b = dropWhile is_space (rev a)"
  have "dropWhile is_space (rev b) = rev b"
  proof (cases "rev b")
    case (Cons c r)
    have "\<not> is_space c"
    proof -
      obtain p where p: "rev a = p @ b" using takeWhile_dropWhile_id [of is_space "rev a"] unfolding b_def by metis
      then have "a = rev b @ rev p" by (metis rev_append rev_rev_ident)
      then have "hd a = c" "a \<noteq> []" using Cons by auto
      then show ?thesis unfolding a_def using hd_dropWhile by metis
    qed
    then show ?thesis by (simp add: Cons)
  qed simp
  moreover have "dropWhile is_space b = b" unfolding b_def by simp
  ultimately show ?thesis by (simp add: py_strip_def a_def [symmetric] b_def [symmetric])
qed

lemma name_key_code: "tax_name_key (PStr (py_strip (py_str (py_or name (PStr []))))) = tax_name_key name"
proof -
  define c where "c = py_strip (py_str (py_or name (PStr [])))"
  have "py_strip c = c" by (simp add: c_def)
  moreover have "py_str (py_or (PStr c) (PStr [])) = c" by (simp add: py_or_def py_str_def)
  ultimately have "tax_name_key (PStr c) = py_lower c" by (simp add: tax_name_key_def)
  then show ?thesis unfolding c_def tax_name_key_def by simp
qed

lemma mapR_append: "mapR f (xs @ ys) = rbind (mapR f xs) (\<lambda>us. rbind (mapR f ys) (\<lambda>vs. Inr (us @ vs)))"
  by (induction xs) (auto simp: rbind_def split: sum.splits)

lemma mapR_mem: "mapR f xs = Inr ys \<Longrightarrow> y \<in> set ys \<Longrightarrow> \<exists>x\<in>set xs. f x = Inr y"
  by (induction xs arbitrary: ys) (auto simp: rbind_eq_Inr)

lemma named_sides_other:
  "tax_name_key (dget x ''name'') \<notin> (\<lambda>y. tax_name_key (dget y ''name'')) ` set ys
    \<Longrightarrow> map_of (fold (\<lambda>x m. AList.update (tax_name_key (dget x ''name'')) (tax_side x) m) ys m) (tax_name_key (dget x ''name''))
      = map_of m (tax_name_key (dget x ''name''))"
  by (induction ys arbitrary: m) auto

lemma named_sides_own:
  assumes "x \<in> set own" "distinct (map (\<lambda>y. tax_name_key (dget y ''name'')) own)"
  shows "map_of (named_sides (other @ own)) (tax_name_key (dget x ''name'')) = Some (tax_side x)"
proof -
  obtain us vs where own: "own = us @ x # vs" using split_list [OF assms(1)] by blast
  then have "tax_name_key (dget x ''name'') \<notin> (\<lambda>y. tax_name_key (dget y ''name'')) ` set vs" using assms(2) by simp
  then show ?thesis by (simp add: named_sides_def own named_sides_other)
qed

lemma first_misplaced_None:
  "(\<And>t. t \<in> set ts \<Longrightarrow> misplaced_entry side sides t = Inr None) \<Longrightarrow> first_misplaced side sides ts = Inr None"
  by (induction ts) auto

lemma company_defaults_from:
  assumes "company_defaults taxes doc_type = Inr (Some ts)" "t \<in> set ts" "py_iter taxes = Inr vs" "mapR as_dict vs = Inr xs"
    and "doc_side doc_type = Inr side"
  shows "\<exists>x\<in>set xs. line_tax x = Inr t \<and> str_in (tax_side x) [side, ''both''] \<and> truthy (dget x ''is_default'')"
proof -
  obtain os where os: "mapR default_tax (filter (\<lambda>x. str_in (tax_side x) [side, ''both'']) xs) = Inr os" "ts = List.map_filter id os"
    using assms(1,3,4,5) by (auto simp: company_defaults_def taxes_for_def rbind_eq_Inr rmap_eq_Inr)
  then have "Some t \<in> set os" using assms(2) by (auto simp: List.map_filter_def)
  then obtain x where "x \<in> set (filter (\<lambda>x. str_in (tax_side x) [side, ''both'']) xs)" "default_tax x = Inr (Some t)"
    using mapR_mem [OF os(1)] by blast
  then show ?thesis by (auto simp: default_tax_def rbind_eq_Inr rmap_eq_Inr split: if_splits)
qed

lemma line_tax_fields:
  assumes "line_tax x = Inr t"
  shows "\<exists>r. rate_of t = Inr r \<and> dget t ''code'' = dget x ''name''"
proof -
  obtain r order where t: "t = [(''code'', dget x ''name''), (''rate'', PFloat r), (''amount'', PInt 0), (''order'', PInt order),
      (''is_compound'', PBool (truthy (dget x ''is_compound''))), (''label'', PStr [])]"
    using assms by (auto simp: line_tax_def rbind_eq_Inr)
  then have "dget t ''rate'' = PFloat r" "dget t ''code'' = dget x ''name''" by (simp_all add: dget_def dget_or_def)
  then show ?thesis by (cases "r = 0") (simp_all add: rate_of_def py_or_def)
qed

text \<open>A draft that charges a tax as a whole keeps its taxation: a new line takes the taxes its lines carry.\<close>

definition charges_as_whole :: "dict option \<Rightarrow> bool" where
  "charges_as_whole doc = (case doc of Some d \<Rightarrow> d \<noteq> [] \<and> tax_entries (dget d ''doc_taxes'') \<noteq> [] | None \<Rightarrow> False)"

text \<open>Every line of the draft carries taxes its document may carry.\<close>

definition lines_fit :: "dict \<Rightarrow> pyval \<Rightarrow> pyval \<Rightarrow> dict option \<Rightarrow> bool" where
  "lines_fit settings taxes doc_type doc =
     (case doc of None \<Rightarrow> True
      | Some d \<Rightarrow> (case rows_or d ''line_items'' of Inl _ \<Rightarrow> True
          | Inr vs \<Rightarrow> list_all (\<lambda>line. case carried_taxes taxes doc_type line of
              Inr (Some ts) \<Rightarrow> misplaced_tax settings doc_type ts = Inr None | _ \<Rightarrow> True) (dict_items vs)))"

lemma misplaced_any_amount: "misplaced_entry side sides (dput ''amount'' v t) = misplaced_entry side sides t"
  by (simp add: misplaced_entry_def rate_of_def)

lemma first_misplaced_any_amount: "first_misplaced side sides (map (dput ''amount'' v) ts) = first_misplaced side sides ts"
  by (induction ts) (simp_all add: misplaced_any_amount)

lemma misplaced_tax_any_amount: "misplaced_tax settings doc_type (map (dput ''amount'' v) ts) = misplaced_tax settings doc_type ts"
  by (simp add: misplaced_tax_def first_misplaced_any_amount)

lemma whole_taxes_from:
  assumes "default_line_taxes taxes doc_type doc = Inr (Some ts)" "charges_as_whole doc"
  obtains d vs line cs where "doc = Some d" "rows_or d ''line_items'' = Inr vs" "line \<in> set (dict_items vs)"
    "carried_taxes taxes doc_type line = Inr (Some cs)" "ts = map (dput ''amount'' (PInt 0)) cs"
proof -
  obtain d where d: "doc = Some d" "d \<noteq> []" "tax_entries (dget d ''doc_taxes'') \<noteq> []"
    using assms(2) by (auto simp: charges_as_whole_def split: option.splits)
  obtain vs carried where v: "rows_or d ''line_items'' = Inr vs" and c: "mapR (carried_taxes taxes doc_type) (dict_items vs) = Inr carried"
    and n: "carried \<noteq> []" "None \<notin> set carried" and ts: "ts = map (dput ''amount'' (PInt 0)) (the (hd carried))"
    using assms(1) d by (auto simp: default_line_taxes_def rbind_eq_Inr split: if_splits)
  have "hd carried \<in> set carried" using n(1) by simp
  moreover obtain cs where cs: "hd carried = Some cs" using n calculation by (cases "hd carried") auto
  ultimately obtain line where "line \<in> set (dict_items vs)" "carried_taxes taxes doc_type line = Inr (Some cs)"
    using mapR_mem [OF c] by metis
  then show thesis using that d(1) v ts cs by simp
qed

lemma company_default_fits:
  assumes defaults: "company_defaults taxes doc_type = Inr (Some ts)" and "side_taxes settings doc_type = Inr taxes"
    and "py_iter taxes = Inr vs" "mapR as_dict vs = Inr own" "distinct (map (\<lambda>x. tax_name_key (dget x ''name'')) own)"
    and "\<And>t r. t \<in> set ts \<Longrightarrow> doc_side doc_type = Inr ''sales'' \<Longrightarrow> rate_of t = Inr r \<Longrightarrow> 0 \<le> r"
    and "misplaced_tax settings doc_type ts = Inr found"
  shows "found = None"
proof -
  obtain side where side: "doc_side doc_type = Inr side" using assms(2) by (auto simp: side_taxes_def rmap_eq_Inr)
  obtain vs' ys where ys: "mapR as_dict (vs' @ vs) = Inr ys" "first_misplaced side (named_sides ys) ts = Inr found"
    using assms(2,3,7) side by (auto simp: misplaced_tax_def rbind_eq_Inr)
  obtain other where other: "ys = other @ own"
    using ys(1) assms(4) by (auto simp: mapR_append rbind_eq_Inr)
  have "misplaced_entry side (named_sides (other @ own)) t = Inr None" if t: "t \<in> set ts" for t
  proof -
    obtain x where x: "x \<in> set own" "line_tax x = Inr t" "str_in (tax_side x) [side, ''both'']"
      using company_defaults_from [OF defaults t assms(3,4) side] by blast
    obtain rate where r: "rate_of t = Inr rate" and name: "dget t ''code'' = dget x ''name''"
      using line_tax_fields [OF x(2)] by blast
    have "\<not> (side = ''sales'' \<and> rate < 0)" using assms(6) [OF t _ r] side by auto
    moreover have "tax_name_key (PStr (py_strip (py_str (py_or (dget t ''code'') (PStr []))))) = tax_name_key (dget x ''name'')"
      by (simp add: name name_key_code)
    ultimately show ?thesis
      using named_sides_own [OF x(1) assms(5), of other] x(3)
      by (simp add: misplaced_entry_def r dget_or_def Let_def) blast
  qed
  then show ?thesis using first_misplaced_None [of ts] ys(2) other by auto
qed

text \<open>C29: a new line starts with taxes its document may carry, whichever document it is added to.  From the
  company's defaults they fit whatever list is saved, when the names in the list of its side differ
  and no default for a sale is negative; on a draft that already charges a tax as a whole they are the
  taxes its lines carry, and fit when those of its lines do.\<close>

theorem default_taxes_fit:
  assumes "default_line_taxes taxes doc_type doc = Inr (Some ts)" "side_taxes settings doc_type = Inr taxes"
    and "py_iter taxes = Inr vs" "mapR as_dict vs = Inr own" "distinct (map (\<lambda>x. tax_name_key (dget x ''name'')) own)"
    and "\<And>t r. \<not> charges_as_whole doc \<Longrightarrow> t \<in> set ts \<Longrightarrow> doc_side doc_type = Inr ''sales'' \<Longrightarrow> rate_of t = Inr r \<Longrightarrow> 0 \<le> r"
    and "charges_as_whole doc \<Longrightarrow> lines_fit settings taxes doc_type doc"
    and "misplaced_tax settings doc_type ts = Inr found"
  shows "found = None"
proof (cases "charges_as_whole doc")
  case True
  then obtain d vs' line cs where c: "doc = Some d" "rows_or d ''line_items'' = Inr vs'" "line \<in> set (dict_items vs')"
      "carried_taxes taxes doc_type line = Inr (Some cs)" "ts = map (dput ''amount'' (PInt 0)) cs"
    using whole_taxes_from [OF assms(1)] by blast
  then have "misplaced_tax settings doc_type cs = Inr None" using assms(7) [OF True] by (auto simp: lines_fit_def list_all_iff)
  then show ?thesis using assms(8) c(5) by (simp add: misplaced_tax_any_amount)
next
  case False
  then have "company_defaults taxes doc_type = Inr (Some ts)"
    using assms(1) by (auto simp: default_line_taxes_def charges_as_whole_def split: option.splits if_splits)
  then show ?thesis by (rule company_default_fits [OF _ assms(2-5) assms(6) [OF False] assms(8)])
qed

definition tax_demo_taxes :: "pyval" where
  "tax_demo_taxes = PList [tax_row ''VAT'' 7 ''both'' True [] False 0, tax_row ''WHT'' (-3) ''purchase'' False [] False 1]"

definition tax_demo_line_tax :: dict where
  "tax_demo_line_tax = [(''code'', PStr ''VAT''), (''rate'', PFloat 7), (''amount'', PInt 0), (''order'', PInt 0), (''is_compound'', PBool False),
     (''label'', PStr [])]"

lemma tax_demo_default: "default_line_taxes tax_demo_taxes (PStr ''invoice'') None = Inr (Some [tax_demo_line_tax])"
  by code_simp

lemma tax_demo_list:
  "side_taxes [(''taxes'', tax_demo_taxes)] (PStr ''invoice'') = Inr tax_demo_taxes"
  "py_iter tax_demo_taxes = Inr (map PDict (tax_entries tax_demo_taxes))"
  "mapR as_dict (map PDict (tax_entries tax_demo_taxes)) = Inr (tax_entries tax_demo_taxes)"
  "distinct (map (\<lambda>x. tax_name_key (dget x ''name'')) (tax_entries tax_demo_taxes))"
  by code_simp+

lemma tax_demo_judged: "is_ok (misplaced_tax [(''taxes'', tax_demo_taxes)] (PStr ''invoice'') [tax_demo_line_tax])"
  by code_simp

text \<open>A draft that charges a tax as a whole, with one line that carries the default.\<close>

definition tax_demo_draft :: dict where
  "tax_demo_draft = [(''doc_taxes'', PList [PDict [(''code'', PStr ''VAT''), (''rate'', PFloat 7)]]),
     (''line_items'', PList [PDict [(''taxes'', PList [PDict (dput ''amount'' (PFloat 3) tax_demo_line_tax)])]])]"

lemma tax_demo_whole:
  "default_line_taxes tax_demo_taxes (PStr ''invoice'') (Some tax_demo_draft) = Inr (Some [tax_demo_line_tax])"
  "charges_as_whole (Some tax_demo_draft)" "\<not> charges_as_whole None"
  "lines_fit [(''taxes'', tax_demo_taxes)] tax_demo_taxes (PStr ''invoice'') (Some tax_demo_draft)"
  by code_simp+

theorem default_taxes_fit_witness:
  "list_all (\<lambda>doc. \<exists>ts. default_line_taxes tax_demo_taxes (PStr ''invoice'') doc = Inr (Some ts)
      \<and> misplaced_tax [(''taxes'', tax_demo_taxes)] (PStr ''invoice'') ts = Inr None) [None, Some tax_demo_draft]"
proof -
  have r: "\<And>t r. t \<in> set [tax_demo_line_tax] \<Longrightarrow> rate_of t = Inr r \<Longrightarrow> 0 \<le> r"
    by (auto simp: tax_demo_line_tax_def rate_of_def dget_def dget_or_def py_or_def)
  obtain found where f: "misplaced_tax [(''taxes'', tax_demo_taxes)] (PStr ''invoice'') [tax_demo_line_tax] = Inr found"
    using tax_demo_judged by (auto simp: is_ok_def split: sum.splits)
  have "found = None" by (rule default_taxes_fit [OF tax_demo_default tax_demo_list _ _ f]) (use r tax_demo_whole(3) in auto)
  moreover have "found = None" by (rule default_taxes_fit [OF tax_demo_whole(1) tax_demo_list _ _ f]) (use tax_demo_whole(2,4) in auto)
  ultimately show ?thesis using f tax_demo_default tax_demo_whole(1) by simp
qed

end
