(* ===== verification/DocGoods.thy ===== *)
theory DocGoods
  imports DocProj
begin

text \<open>
  The rest of \<open>apply_documents_event\<close> in \<open>celerp_docs/doc_projections.py\<close> for documents: conversion,
  invoicing from a memo, goods received and sent back, files, notes and fulfilment.
\<close>

section \<open>Conversion and memo draws\<close>

definition doc_converted :: "dict \<Rightarrow> dict \<Rightarrow> dict res" where
  "doc_converted state data =
     rbind (dkey data ''target_doc_id'') (\<lambda>t.
     Inr (copy_if ''pre_convert_status'' data (dput ''converted_to_type'' (dget data ''target_doc_type'')
       (dput ''converted_to'' t (dput ''status'' (PStr ''converted'') state)))))"

text \<open>\<open>{**ln, "returned": False}\<close> needs a mapping; a value that is none is a \<open>TypeError\<close>.\<close>

definition unpack :: "pyval \<Rightarrow> dict res" where
  "unpack v = (case v of PDict d \<Rightarrow> Inr d | _ \<Rightarrow> Inl TypeError)"

definition doc_lines_invoiced :: "dict \<Rightarrow> dict \<Rightarrow> dict res" where
  "doc_lines_invoiced state data =
     rbind (dkey data ''take'') (\<lambda>tv.
     rbind (rows_or state ''invoiced_on'') (\<lambda>before.
     rbind (unpack tv) (\<lambda>tk.
     rbind (rbind (dkey tk ''lines'') py_iter) (\<lambda>ls.
     rbind (mapR (\<lambda>v. rmap (\<lambda>ln. PDict (dput ''returned'' (PBool False) ln)) (unpack v)) ls) (\<lambda>ls'.
     Inr (dput ''invoiced_on''
       (PList (before @ [PDict (dput ''lines'' (PList ls') (dput ''released'' (PBool False) tk))])) state))))))"

text \<open>A value that can be an element of a set.\<close>

definition hashed :: "pyval \<Rightarrow> pyval res" where
  "hashed v = (case v of PList _ \<Rightarrow> Inl TypeError | PDict _ \<Rightarrow> Inl TypeError | _ \<Rightarrow> Inr v)"

definition line_key :: "pyval \<Rightarrow> (pyval \<times> pyval) res" where
  "line_key v = rbind (rbind (vsub v ''invoice_line_id'') hashed) (\<lambda>a. rbind (rbind (vsub v ''draw_id'') hashed) (\<lambda>b. Inr (a, b)))"

text \<open>One line of a take: it stays returned once it is.\<close>

definition return_line :: "(pyval \<times> pyval) list \<Rightarrow> dict \<Rightarrow> pyval \<Rightarrow> pyval res" where
  "return_line returned tk v =
     rbind (unpack v) (\<lambda>ln.
     rbind (if truthy (dget ln ''returned'') then Inr (dget ln ''returned'')
            else rbind (rbind (dkey ln ''invoice_line_id'') hashed) (\<lambda>a.
                 rbind (rbind (dkey tk ''draw_id'') hashed) (\<lambda>b.
                 Inr (PBool (list_ex (\<lambda>k. py_eq (fst k) a \<and> py_eq (snd k) b) returned))))) (\<lambda>r.
     Inr (PDict (dput ''returned'' r ln))))"

definition return_take :: "(pyval \<times> pyval) list \<Rightarrow> pyval list \<Rightarrow> pyval \<Rightarrow> pyval res" where
  "return_take returned released v =
     rbind (unpack v) (\<lambda>tk.
     rbind (if truthy (dget tk ''released'') then Inr (dget tk ''released'')
            else rbind (rbind (dkey tk ''draw_id'') hashed) (\<lambda>b. Inr (PBool (list_ex (py_eq b) released)))) (\<lambda>r.
     rbind (rbind (dkey tk ''lines'') py_iter) (\<lambda>ls.
     rbind (mapR (return_line returned tk) ls) (\<lambda>ls'.
     Inr (PDict (dput ''lines'' (PList ls') (dput ''released'' r tk)))))))"

definition doc_lines_returned :: "dict \<Rightarrow> dict \<Rightarrow> dict res" where
  "doc_lines_returned state data =
     rbind (rbind (rows_or data ''lines'') (mapR line_key)) (\<lambda>returned.
     rbind (rbind (rows_or data ''release'') (mapR hashed)) (\<lambda>released.
     rbind (rows_or state ''invoiced_on'') (\<lambda>takes.
     rbind (mapR (return_take returned released) takes) (\<lambda>takes'.
     Inr (dput ''invoiced_on'' (PList takes') state)))))"

section \<open>Goods received\<close>

definition receives_stock :: "dict \<Rightarrow> bool" where
  "receives_stock recv = str_is (py_or (dget_or recv ''receive_as'' (PStr ''stock'')) (PStr ''stock'')) ''stock''"

text \<open>\<open>next(created_id_iter, None)\<close>: the value and the identities left.\<close>

definition next_id :: "pyval list \<Rightarrow> pyval \<times> pyval list" where
  "next_id ids = (case ids of [] \<Rightarrow> (PNone, []) | i # rest \<Rightarrow> (i, rest))"

definition assigned_id :: "bool \<Rightarrow> dict \<Rightarrow> pyval list \<Rightarrow> pyval \<times> pyval list" where
  "assigned_id inbound recv ids =
     (if inbound then (if receives_stock recv then next_id ids else (PNone, ids))
      else if truthy (dget recv ''item_id'') then (dget recv ''item_id'', ids)
      else if receives_stock recv then next_id ids else (dget recv ''item_id'', ids))"

text \<open>One receipt entry: its line, when it can be told, is given the parcel's identity unless it has one.\<close>

definition receive_step :: "bool \<Rightarrow> pyval list \<times> pyval list \<Rightarrow> pyval \<Rightarrow> (pyval list \<times> pyval list) res" where
  "receive_step inbound st v =
     (let (ls, ids) = st in
      rbind (as_dict v) (\<lambda>recv.
      let (aid, ids') = assigned_id inbound recv ids in
      if \<not> truthy aid then Inr (ls, ids')
      else rbind (received_line_index ls recv) (\<lambda>idx.
           case idx of None \<Rightarrow> Inr (ls, ids')
           | Some i \<Rightarrow> rbind (as_dict (ls ! i)) (\<lambda>line. Inr (ls[i := PDict (dsetdefault ''entity_id'' aid line)], ids')))))"

definition doc_received :: "dict \<Rightarrow> dict \<Rightarrow> dict res" where
  "doc_received state data =
     (let c1 = dsetdefault ''received_items'' (PList []) (dsetdefault ''pre_receipt_status'' (dget state ''status'') state) in
      rbind (rows data ''received_items'') (\<lambda>received.
      rbind (dextend ''received_items'' received c1) (\<lambda>c2.
      rbind (rows data ''created_item_ids'') (\<lambda>created.
      rbind (dextend ''received_item_ids'' created (dsetdefault ''received_item_ids'' (PList []) c2)) (\<lambda>c3.
      rbind (rows c3 ''line_items'') (\<lambda>ls.
      rbind (foldR (receive_step (str_in (dget c3 ''doc_type'') [''bill'', ''consignment_in''])) (ls, created) received) (\<lambda>(ls', _).
      put_receipt_status (put_rows ''line_items'' ls' c3))))))))"

section \<open>Goods sent back\<close>

text \<open>\<open>current[k] = to_stored_float(to_decimal(current.get(k, 0) or 0) + to_decimal(v))\<close>, and with minus.\<close>

definition add_field :: "string \<Rightarrow> pyval \<Rightarrow> dict \<Rightarrow> dict res" where
  "add_field k v d = rbind (dec_field d k) (\<lambda>a. rbind (to_decimal v) (\<lambda>b. rbind (dadd a b) (\<lambda>s. rmap (\<lambda>x. dput k x d) (to_stored_float s))))"

definition sub_field :: "string \<Rightarrow> pyval \<Rightarrow> dict \<Rightarrow> dict res" where
  "sub_field k v d = rbind (dec_field d k) (\<lambda>a. rbind (to_decimal v) (\<lambda>b. rbind (dsub a b) (\<lambda>s. rmap (\<lambda>x. dput k x d) (to_stored_float s))))"

definition sum_quantities :: "string \<Rightarrow> pyval list \<Rightarrow> rat res" where
  "sum_quantities k vs = foldR (\<lambda>acc v. rbind (as_dict v) (\<lambda>x. rmap (fadd acc) (fget x k))) 0 vs"

definition doc_items_returned :: "dict \<Rightarrow> dict \<Rightarrow> dict res" where
  "doc_items_returned state data =
     rbind (rows data ''items'') (\<lambda>returned.
     rbind (dextend ''returned_items'' returned (dsetdefault ''returned_items'' (PList []) state)) (\<lambda>c1.
     rbind (if truthy (dget data ''payable_credit'')
            then rbind (add_field ''returned_credit'' (dget data ''payable_credit'') c1) (\<lambda>c.
                 rbind (if truthy (dget data ''supplier_credit'') then add_field ''supplier_credit'' (dget data ''supplier_credit'') c else Inr c)
                   refresh_outstanding)
            else Inr c1) (\<lambda>c2.
     if dhas data ''all_returned''
     then Inr (dput ''status'' (PStr (if truthy (dget data ''all_returned'') then ''returned'' else ''partial_returned'')) c2)
     else rbind (rbind (rows c2 ''received_items'') (sum_quantities ''quantity_received'')) (\<lambda>total_received.
          rbind (rbind (rows c2 ''returned_items'') (sum_quantities ''quantity_returned'')) (\<lambda>total_returned.
          Inr (if 0 < total_received \<and> total_received \<le> fadd total_returned (fl (1 / 10 ^ 9))
               then dput ''status'' (PStr ''returned'') c2
               else if 0 < total_returned then dput ''status'' (PStr ''partial_returned'') c2
               else c2))))))"

definition doc_supplier_return_undone :: "dict \<Rightarrow> dict \<Rightarrow> dict res" where
  "doc_supplier_return_undone state data =
     (let key = dget data ''return_key'' in
      rbind (rbind (rows_or state ''returned_items'') (filter_rows (\<lambda>x. Inr (\<not> py_eq (dget x ''return_key'') key)))) (\<lambda>kept.
      let c1 = dput ''returned_items'' (PList kept) state in
      rbind (if truthy (dget data ''payable_credit'') then sub_field ''returned_credit'' (dget data ''payable_credit'') c1 else Inr c1) (\<lambda>c2.
      rbind (if truthy (dget data ''supplier_credit'') then sub_field ''supplier_credit'' (dget data ''supplier_credit'') c2 else Inr c2) (\<lambda>c3.
      rbind (balances_now c3) (\<lambda>(paid, outstanding).
      rbind (put_outstanding outstanding c3) (\<lambda>c4.
      if kept \<noteq> [] then Inr (dput ''status'' (PStr ''partial_returned'') c4)
      else rbind (dless (Fin 0 0) paid) (\<lambda>some_paid.
           if some_paid then rmap (\<lambda>s. dput ''status'' (PStr s) c4) (payment_status c4 paid outstanding)
           else put_receipt_status c4)))))))"

definition doc_return_received :: "dict \<Rightarrow> dict \<Rightarrow> dict res" where
  "doc_return_received state data =
     rbind (rows data ''items'') (\<lambda>items.
       dextend ''return_received_items'' items (dsetdefault ''return_received_items'' (PList []) state))"

definition doc_return_undone :: "dict \<Rightarrow> dict \<Rightarrow> dict res" where
  "doc_return_undone state data = Inr (dput ''return_received_items'' (PList []) state)"

text \<open>A line forgets the parcel the receipt created and what it received.\<close>

definition forget_receipt :: "pyval list \<Rightarrow> dict \<Rightarrow> dict res" where
  "forget_receipt created li =
     rbind (hashed (dget li ''entity_id'')) (\<lambda>e.
     let li' = (if list_ex (py_eq e) created then ddel ''entity_id'' li else li) in
     Inr (if dhas li' ''quantity_received'' then dput ''quantity_received'' (PInt 0) li' else li'))"

definition doc_receive_undone :: "dict \<Rightarrow> dict \<Rightarrow> dict res" where
  "doc_receive_undone state data =
     rbind (rbind (rows_or state ''received_item_ids'') (mapR hashed)) (\<lambda>created.
     let c1 = dput ''returned_items'' (PList []) (dput ''received_item_ids'' (PList []) (dput ''received_items'' (PList []) state)) in
     rbind (status_without_receipts c1) (\<lambda>s.
     let c2 = ddel ''pre_receipt_status'' (dput ''status'' (PStr s) c1) in
     rbind (rbind (rows c2 ''line_items'') (map_rows (forget_receipt created))) (\<lambda>ls.
     Inr (put_rows ''line_items'' ls c2))))"

section \<open>Imports, files, notes and fulfilment\<close>

definition doc_shared_import :: "dict \<Rightarrow> dict \<Rightarrow> dict res" where
  "doc_shared_import state data =
     (let c1 = dput ''status'' (PStr ''received'') (dmerge (dput ''entity_type'' (PStr ''doc'') state) data);
          c2 = dsetdefault ''amount_paid'' (PFloat 0) (dsetdefault ''linked'' (PList []) c1)
      in rbind (fget c2 ''total'') (\<lambda>tot. Inr (dsetdefault ''amount_outstanding'' (PFloat tot) c2)))"

definition doc_file_attached :: "dict \<Rightarrow> dict \<Rightarrow> dict res" where
  "doc_file_attached state data =
     rbind (dkey data ''file_id'') (\<lambda>i. rbind (dkey data ''filename'') (\<lambda>n.
       dappend ''files''
         (PDict [(''id'', i), (''filename'', n), (''mime'', dget data ''mime''), (''size'', dget data ''size''),
                 (''url'', dget_or data ''url'' (PStr [])), (''description'', py_or (dget data ''description'') (PStr [])),
                 (''document_tag'', py_or (dget data ''document_tag'') (PStr [])),
                 (''uploaded_at'', py_or (dget data ''uploaded_at'') (PStr []))])
         (dsetdefault ''files'' (PList []) state)))"

text \<open>The first file of the event's \<open>file_id\<close> gets a field of the event.\<close>

definition set_file_field :: "string \<Rightarrow> dict \<Rightarrow> dict \<Rightarrow> dict res" where
  "set_file_field k state data =
     rbind (rbind (rows state ''files'') (find_row (\<lambda>f. Inr (py_eq (dget f ''id'') (dget data ''file_id''))) 0)) (\<lambda>hit.
       Inr (case hit of None \<Rightarrow> state | Some (i, f) \<Rightarrow> put_row ''files'' i (dput k (dget_or data k (PStr [])) f) state))"

definition doc_file_tagged :: "dict \<Rightarrow> dict \<Rightarrow> dict res" where
  "doc_file_tagged state data = set_file_field ''document_tag'' state data"

definition doc_file_description_updated :: "dict \<Rightarrow> dict \<Rightarrow> dict res" where
  "doc_file_description_updated state data = set_file_field ''description'' state data"

definition doc_file_deleted :: "dict \<Rightarrow> dict \<Rightarrow> dict res" where
  "doc_file_deleted state data =
     rbind (rbind (rows state ''files'') (filter_rows (\<lambda>f. rmap (\<lambda>i. \<not> py_eq (dget f ''id'') i) (dkey data ''file_id'')))) (\<lambda>fs.
       Inr (dput ''files'' (PList fs) state))"

text \<open>A note is a record of its own, on a document or on a list.\<close>

definition note_added :: "string \<Rightarrow> string \<Rightarrow> dict \<Rightarrow> dict \<Rightarrow> dict res" where
  "note_added entity_type owner state data =
     Inr (dmerge state [(''entity_type'', PStr entity_type), (''note_id'', dget data ''note_id''), (owner, dget data owner),
       (''note'', dget data ''note''), (''author_id'', dget data ''author_id''), (''author_name'', dget data ''author_name''),
       (''created_at'', dget data ''created_at''), (''updated_at'', PNone)])"

definition note_updated :: "dict \<Rightarrow> dict \<Rightarrow> dict res" where
  "note_updated state data = Inr (dput ''updated_at'' (dget data ''updated_at'') (dput ''note'' (dget data ''note'') state))"

definition note_removed :: "dict \<Rightarrow> dict \<Rightarrow> dict res" where
  "note_removed state data = Inr (dput ''deleted'' (PBool True) state)"

definition doc_fulfilled_as :: "string \<Rightarrow> dict \<Rightarrow> dict \<Rightarrow> dict res" where
  "doc_fulfilled_as fulfillment state data =
     rbind (dkey data ''fulfilled_items'') (\<lambda>items. rbind (dkey data ''fulfilled_by'') (\<lambda>who.
     Inr (dput ''fulfilled_by'' who (dput ''fulfilled_at'' (py_or (dget data ''fulfilled_at'') (PStr []))
       (dput ''fulfilled_items'' items (dput ''fulfillment_status'' (PStr fulfillment) state))))))"

definition doc_partially_reverted :: "dict \<Rightarrow> dict \<Rightarrow> dict res" where
  "doc_partially_reverted state data =
     (let c1 = dput ''fulfillment_status'' (PStr ''partial'') state in
      if str_is (dget c1 ''doc_type'') ''invoice''
      then rmap (\<lambda>n. dput ''fulfill_cycle'' (PInt (n + 1)) c1) (iget c1 ''fulfill_cycle'')
      else Inr c1)"

definition doc_fulfillment_reversed :: "dict \<Rightarrow> dict \<Rightarrow> dict res" where
  "doc_fulfillment_reversed state data =
     rmap (\<lambda>n. ddels [''fulfillment_status'', ''fulfilled_items'', ''fulfilled_at'', ''fulfilled_by'']
                 (dput ''fulfill_cycle'' (PInt (n + 1)) state)) (iget state ''fulfill_cycle'')"

end
