(* ===== verification/DocLists.thy ===== *)
theory DocLists
  imports DocGoods
begin

text \<open>
  List events of \<open>celerp_docs/doc_projections.py\<close>, with the totals an event carries or, for one
  written before events carried them, the totals the rule of that version gives; and the
  dispatch \<open>apply_documents_event\<close> over every event of a document, a list or a note.
\<close>

section \<open>Legacy totals\<close>

definition fold_legacy_contact :: "dict \<Rightarrow> dict" where
  "fold_legacy_contact state =
     fold (\<lambda>(legacy, canonical) d.
       let value = dget d legacy; d' = ddel legacy d
       in if truthy value \<and> \<not> truthy (dget d' canonical) then dput canonical value d' else d')
     LEGACY_CONTACT_FIELDS state"

text \<open>\<open>document_line_amount(i, currency) or to_decimal(0)\<close>.\<close>

definition line_amount :: "dict \<Rightarrow> pyval \<Rightarrow> dec res" where
  "line_amount line currency =
     rbind (document_line_amount line currency) (\<lambda>a.
       Inr (case a of Some d \<Rightarrow> (if dec_true d then d else Fin 0 0) | None \<Rightarrow> Fin 0 0))"

definition sum_lines :: "(dict \<Rightarrow> dec res) \<Rightarrow> pyval list \<Rightarrow> dec res" where
  "sum_lines f vs = foldR (\<lambda>acc v. rbind (rbind (as_dict v) f) (dadd acc)) (Fin 0 0) vs"

definition legacy_line_tax :: "pyval \<Rightarrow> dict \<Rightarrow> dec res" where
  "legacy_line_tax currency i =
     rbind (line_amount i currency) (\<lambda>a. rbind (dec_field i ''tax_rate'') (\<lambda>r. rbind (dmul a r) (\<lambda>x. ddiv x (Fin 100 0))))"

definition legacy_list_totals :: "dict \<Rightarrow> dict res" where
  "legacy_list_totals state =
     (let currency = dget state ''currency'' in
      rbind (rows state ''line_items'') (\<lambda>items.
      rbind (rbind (sum_lines (\<lambda>i. line_amount i currency) items) (\<lambda>s. round_money s currency)) (\<lambda>subtotal.
      rbind (to_stored_float subtotal) (\<lambda>v1.
      let s1 = dput ''subtotal'' v1 state in
      rbind (discount_from_inputs s1 subtotal currency) (\<lambda>disc.
      case disc of None \<Rightarrow> Inl ValueError
      | Some discount_amount \<Rightarrow>
        rbind (to_stored_float discount_amount) (\<lambda>v2.
        let s2 = dput ''discount_amount'' v2 s1 in
        rbind (dsub subtotal discount_amount) (\<lambda>taxable.
        rbind (sum_lines (legacy_line_tax currency) items) (\<lambda>per_line_tax.
        rbind (if dec_true per_line_tax then round_money per_line_tax currency
               else rbind (dec_field s2 ''tax'') (\<lambda>t. rbind (dmul taxable t) (\<lambda>x. rbind (ddiv x (Fin 100 0)) (\<lambda>y.
                    round_money y currency)))) (\<lambda>tax_amount.
        rbind (to_stored_float tax_amount) (\<lambda>v3.
        rbind (rbind (rbind (dadd taxable tax_amount) (\<lambda>x. round_money x currency)) to_stored_float) (\<lambda>v4.
        Inr (dput ''total'' v4 (dput ''tax_amount'' v3 s2)))))))))))))"

section \<open>List events\<close>

definition RESTORE_POINT :: string where "RESTORE_POINT = ''totals_before_recalc''"

definition list_created_fields :: "dict \<Rightarrow> dict \<Rightarrow> dict" where
  "list_created_fields current data =
     (let c1 = dmerge (dput ''entity_type'' (PStr ''list'') current)
                 (filter (\<lambda>kv. fst kv \<noteq> ''totals'' \<and> fst kv \<noteq> RESTORE_POINT) data)
      in fold (\<lambda>(k, v). dsetdefault k v)
           [(''status'', PStr ''draft''), (''line_items'', PList []), (''subtotal'', PFloat 0), (''discount'', PFloat 0),
            (''discount_type'', PStr ''flat''), (''tax'', PFloat 0), (''total'', PFloat 0)]
           (fold_legacy_contact c1))"

definition list_update_field :: "dict \<Rightarrow> string \<times> pyval \<Rightarrow> dict res" where
  "list_update_field current change =
     (if fst change = ''currency'' \<and> dget current ''currency'' \<noteq> PNone \<and> dget current ''status'' \<noteq> PStr ''draft'' then Inr current
      else rmap (\<lambda>v. dput (contact_field (fst change)) v current) (vget (snd change) ''new''))"

definition list_fields :: "dict \<Rightarrow> string \<Rightarrow> dict \<Rightarrow> dict res" where
  "list_fields current event_type data =
     (if event_type = ''list.created'' then Inr (list_created_fields current data)
      else rbind (rbind (dkey data ''fields_changed'') as_dict) (\<lambda>changed.
           rbind (foldR list_update_field current changed) (\<lambda>c.
           Inr (if dhas data ''totals'' \<and> dhas data ''line_items'' then dput ''line_items'' (dget data ''line_items'') c else c))))"

text \<open>\<open>d.update(v)\<close> with a value of unknown shape.\<close>

definition dupdate :: "pyval \<Rightarrow> dict \<Rightarrow> dict res" where
  "dupdate v d = (case v of PDict e \<Rightarrow> Inr (dmerge d e) | PList [] \<Rightarrow> Inr d | PStr [] \<Rightarrow> Inr d
     | PStr _ \<Rightarrow> Inl ValueError | _ \<Rightarrow> Inl TypeError)"

definition apply_list_totals :: "dict \<Rightarrow> dict \<Rightarrow> dict res" where
  "apply_list_totals current data =
     (case map_of data ''totals'' of None \<Rightarrow> legacy_list_totals current | Some t \<Rightarrow> dupdate t current)"

definition list_created :: "dict \<Rightarrow> dict \<Rightarrow> dict res" where
  "list_created state data = rbind (list_fields state ''list.created'' data) (\<lambda>c. apply_list_totals c data)"

definition list_updated :: "dict \<Rightarrow> dict \<Rightarrow> dict res" where
  "list_updated state data =
     rbind (list_fields state ''list.updated'' data) (\<lambda>c. rmap (ddel RESTORE_POINT) (apply_list_totals c data))"

definition list_totals_recalculated :: "dict \<Rightarrow> dict \<Rightarrow> dict res" where
  "list_totals_recalculated state data =
     rbind (dkey data ''previous'') (\<lambda>prev. rbind (dkey data ''line_items'') (\<lambda>ls. rbind (dkey data ''totals'') (\<lambda>t.
       dupdate t (dput ''line_items'' ls (dput RESTORE_POINT prev state)))))"

definition list_totals_restored :: "dict \<Rightarrow> dict \<Rightarrow> dict res" where
  "list_totals_restored state data =
     rbind (dkey data ''line_items'') (\<lambda>ls. rbind (dkey data ''totals'') (\<lambda>t.
       dupdate t (dput ''line_items'' ls (ddel RESTORE_POINT state))))"

definition list_finalized :: "dict \<Rightarrow> dict \<Rightarrow> dict res" where
  "list_finalized state data = Inr (dput ''status'' (PStr ''finalized'') (dmerge state data))"

definition list_reverted :: "dict \<Rightarrow> dict \<Rightarrow> dict res" where
  "list_reverted state data =
     Inr (ddels [''finalized_at'', ''sent_at'', ''issued_at'', ''accepted_at''] (dput ''status'' (PStr ''draft'') state))"

definition list_closed :: "dict \<Rightarrow> dict \<Rightarrow> dict res" where
  "list_closed state data = Inr (dput ''status'' (PStr ''closed'') (dmerge state data))"

definition list_reopened :: "dict \<Rightarrow> dict \<Rightarrow> dict res" where
  "list_reopened state data = Inr (ddel ''result'' (dput ''status'' (PStr ''finalized'') (dmerge state data)))"

definition list_voided :: "dict \<Rightarrow> dict \<Rightarrow> dict res" where
  "list_voided state data =
     (let c1 = dput ''status'' (PStr ''void'') state
      in Inr (if truthy (dget data ''reason'') then dput ''void_reason'' (dget data ''reason'') c1 else c1))"

definition doc_patched :: "dict \<Rightarrow> dict \<Rightarrow> dict res" where
  "doc_patched state data = Inr (dmerge state data)"

definition list_patched :: "dict \<Rightarrow> dict \<Rightarrow> dict res" where
  "list_patched state data = Inr (dmerge state (map (\<lambda>kv. (contact_field (fst kv), snd kv)) data))"

section \<open>Dispatch\<close>

definition document_handlers :: "(string \<times> (dict \<Rightarrow> dict \<Rightarrow> dict res)) list" where
  "document_handlers =
    [(''doc.created'', doc_created), (''doc.pushed'', doc_pushed), (''doc.updated'', doc_updated),
     (''doc.renumbered'', doc_renumbered), (''doc.linked'', doc_linked), (''doc.sent'', doc_sent),
     (''doc.finalized'', doc_finalized), (''doc.converted_to_bill'', doc_converted_to_bill),
     (''doc.voided'', doc_voided), (''doc.reverted_to_draft'', doc_reverted_to_draft),
     (''doc.unvoided'', doc_unvoided), (''doc.closed'', doc_closed), (''doc.reopened'', doc_reopened),
     (''doc.payment.received'', payment_received), (''doc.payment.voided'', payment_voided),
     (''doc.payment.deleted'', payment_deleted), (''doc.payment.refunded'', payment_refunded),
     (''doc.payment.refund_reversed'', payment_refund_reversed),
     (''doc.payment.stripe_released'', payment_stripe_released), (''doc.converted'', doc_converted),
     (''doc.lines_invoiced'', doc_lines_invoiced), (''doc.lines_returned'', doc_lines_returned),
     (''doc.received'', doc_received), (''doc.items_returned'', doc_items_returned),
     (''doc.supplier_return_undone'', doc_supplier_return_undone),
     (''doc.return_received'', doc_return_received), (''doc.return_undone'', doc_return_undone),
     (''doc.receive_undone'', doc_receive_undone), (''doc.shared_import'', doc_shared_import),
     (''doc.file_attached'', doc_file_attached), (''doc.file_tagged'', doc_file_tagged),
     (''doc.file_description_updated'', doc_file_description_updated), (''doc.file_deleted'', doc_file_deleted),
     (''doc.note_added'', note_added ''doc_note'' ''doc_id''), (''doc.note_updated'', note_updated),
     (''doc.note_removed'', note_removed), (''list.note_added'', note_added ''list_note'' ''list_id''),
     (''list.note_updated'', note_updated), (''list.note_removed'', note_removed),
     (''doc.fulfilled'', doc_fulfilled_as ''fulfilled''), (''doc.partially_fulfilled'', doc_fulfilled_as ''partial''),
     (''doc.partially_reverted'', doc_partially_reverted), (''doc.fulfillment_reversed'', doc_fulfillment_reversed),
     (''list.created'', list_created), (''list.updated'', list_updated),
     (''list.totals_recalculated'', list_totals_recalculated), (''list.totals_restored'', list_totals_restored),
     (''list.finalized'', list_finalized), (''list.reverted'', list_reverted), (''list.closed'', list_closed),
     (''list.reopened'', list_reopened), (''list.voided'', list_voided), (''doc.patched'', doc_patched),
     (''list.patched'', list_patched)]"

definition apply_documents_event :: "dict \<Rightarrow> string \<Rightarrow> dict \<Rightarrow> dict res" where
  "apply_documents_event state event_type data =
     (case map_of document_handlers event_type of None \<Rightarrow> Inl ValueError | Some h \<Rightarrow> h state data)"

end
