(* ===== verification/DocMoney.thy ===== *)
theory DocMoney
  imports Taxes DocLists
begin

text \<open>
  \<open>celerp_docs/doc_money.py\<close>: a document's and a list's money derived from its lines and its
  header inputs, the refusals of a tax that cannot be computed, and the money of a memo drawn
  onto invoices in parts.  \<open>read\<close> is \<open>TaxApplication.model_validate\<close>.  Lines are rewritten in
  place by the source (their \<open>taxes\<close> get the computed amounts); here they are returned beside
  the money.  A message is its catalog key; the route back to a draft, which some end with, is
  the list \<open>draft_route\<close> gives.  The list events' totals of \<open>celerp_docs/doc_projections.py\<close>
  (\<open>list_lines_and_totals\<close>, \<open>with_list_totals\<close>) close the theory.
\<close>

section \<open>Sums\<close>

text \<open>\<open>sum((f(x) for x in xs), start)\<close>.\<close>

definition dec_sum_by :: "('a \<Rightarrow> dec res) \<Rightarrow> dec \<Rightarrow> 'a list \<Rightarrow> dec res" where
  "dec_sum_by f start xs = foldR (\<lambda>acc x. rbind (f x) (dadd acc)) start xs"

section \<open>The way back to a draft\<close>

definition INBOUND_DOC_TYPES :: "string list" where
  "INBOUND_DOC_TYPES = [''consignment_in'', ''bill'']"

definition DRAFT_REVERT_STATUSES :: "string list" where
  "DRAFT_REVERT_STATUSES = [''final'', ''sent'', ''awaiting_payment'']"

definition INBOUND_DRAFT_REVERT_STATUSES :: "string list" where
  "INBOUND_DRAFT_REVERT_STATUSES = DRAFT_REVERT_STATUSES @ [''received'', ''partially_received'', ''fulfilled'']"

definition DRAFT_REVERT_RETURNED :: "string list" where
  "DRAFT_REVERT_RETURNED = [''partial_returned'', ''returned'']"

definition past_draft :: "dict \<Rightarrow> bool" where
  "past_draft state = (dget state ''status'' \<noteq> PNone \<and> dget state ''status'' \<noteq> PStr ''draft'')"

definition took_payment :: "dict \<Rightarrow> bool res" where
  "took_payment state =
     rbind (to_decimal0 (dget state ''amount_paid'')) (\<lambda>paid.
       if dec_true paid then Inr True else rbind (to_decimal0 (dget state ''credited'')) (dless (Fin 0 0)))"

definition lines_out :: "dict \<Rightarrow> bool res" where
  "lines_out state = rmap (list_ex (\<lambda>fi. dget fi ''item_id'' \<noteq> PNone) \<circ> dict_items) (rows_or state ''fulfilled_items'')"

definition revertible_statuses :: "bool \<Rightarrow> bool \<Rightarrow> bool \<Rightarrow> string list" where
  "revertible_statuses inbound received paid =
     (if inbound then INBOUND_DRAFT_REVERT_STATUSES @ (if received then DRAFT_REVERT_RETURNED else [])
      else DRAFT_REVERT_STATUSES)
     @ (if paid then [''paid'', ''partial''] else [])"

definition draft_route :: "dict \<Rightarrow> string list res" where
  "draft_route state =
     (let doc_type = dget_or state ''doc_type'' (PStr []); status = dget state ''status'' in
      if dget state ''entity_type'' = PStr ''list''
      then Inr [if status = PStr ''finalized'' then ''documents.tax_route_revert'' else ''documents.tax_route_new'']
      else rbind (in_set doc_type INBOUND_DOC_TYPES) (\<lambda>inbound.
           rbind (took_payment state) (\<lambda>paid.
           rbind (lines_out state) (\<lambda>out.
           let received = truthy (dget state ''received_items'');
               steps = (if paid then [''documents.tax_route_payments''] else [])
                       @ (if received then [''documents.tax_route_return''] else [])
                       @ (if out then [''documents.tax_route_available''] else [])
           in if received \<and> doc_type = PStr ''purchase_order'' then Inr (steps @ [''documents.tax_route_void''])
              else if received \<and> doc_type = PStr ''bill'' \<and> truthy (dget state ''source_po_ref'')
              then Inr (steps @ [''documents.tax_route_void_order''])
              else rmap (\<lambda>ok. steps @ [if ok then ''documents.tax_route_revert'' else ''documents.tax_route_new''])
                     (in_set status (revertible_statuses inbound received paid))))))"

text \<open>A refusal of a document past draft names the route back, so it is worked out first.\<close>

definition issued_refusal :: "string \<Rightarrow> dict \<Rightarrow> 'a res" where
  "issued_refusal key state = rbind (draft_route state) (\<lambda>route. Inl (HTTPError 422 key))"

definition unreadable_tax_refusal :: "dict \<Rightarrow> 'a res" where
  "unreadable_tax_refusal state =
     (if past_draft state then issued_refusal ''documents.err_tax_unreadable_issued'' state
      else Inl (HTTPError 422 ''documents.err_tax_unreadable''))"

text \<open>The number a message names a line by, from its position or from the numbers of a selection.\<close>

definition line_number :: "nat list \<Rightarrow> nat \<Rightarrow> nat res" where
  "line_number numbers i =
     (if numbers = [] then Inr (Suc i) else if i < length numbers then Inr (Suc (numbers ! i)) else Inl IndexError)"

definition is_unset :: "pyval \<Rightarrow> bool" where
  "is_unset v = (case v of PDict line \<Rightarrow> line_tax_unset line | _ \<Rightarrow> False)"

definition refuse_unset_line_tax :: "pyval list \<Rightarrow> dict \<Rightarrow> nat list \<Rightarrow> bool \<Rightarrow> unit res" where
  "refuse_unset_line_tax lines state numbers receiving =
     (case List.find (\<lambda>i. is_unset (lines ! i)) [0..<length lines] of
        None \<Rightarrow> Inr ()
      | Some i \<Rightarrow> rbind (line_number numbers i) (\<lambda>number.
          if past_draft state then issued_refusal ''documents.err_line_tax_unset_issued'' state
          else Inl (HTTPError 422 (if receiving then ''documents.err_line_tax_unset_receive'' else ''documents.err_line_tax_unset''))))"

section \<open>The taxes of a line and of a document\<close>

definition tax_definition :: "tax_reader \<Rightarrow> dict \<Rightarrow> tax_application option" where
  "tax_definition read entry = read (dput ''amount'' (PFloat 0) entry)"

definition computable_tax :: "tax_reader \<Rightarrow> pyval \<Rightarrow> bool" where
  "computable_tax read entry = (case entry of PDict d \<Rightarrow> tax_definition read d \<noteq> None | _ \<Rightarrow> False)"

text \<open>An entry that is no definition has no \<open>order\<close> to sort by.\<close>

definition recompute_tax_applications :: "tax_reader \<Rightarrow> dict list \<Rightarrow> dec \<Rightarrow> pyval \<Rightarrow> (dict list \<times> dec) res" where
  "recompute_tax_applications read entries base currency =
     rbind (rbind (round_money base currency) dec_float) (\<lambda>stored_base.
     rbind (mapR (\<lambda>e. case tax_definition read e of None \<Rightarrow> Inl AttributeError | Some t \<Rightarrow> Inr t) entries) (\<lambda>defs.
     rbind (compute_tax_amounts defs stored_base currency) (\<lambda>resolved.
     rmap (Pair (map dump_tax resolved)) (dec_sum_by (\<lambda>t. Inr (dec_of_float (tx_amount t))) (Fin 0 0) resolved))))"

definition line_tax_definition :: "tax_reader \<Rightarrow> dict \<Rightarrow> (dict list \<times> dec) res" where
  "line_tax_definition read line =
     (let entries = filter (\<lambda>e. computable_tax read (PDict e)) (tax_entries (dget line ''taxes''))
      in if entries \<noteq> [] then Inr (entries, Fin 0 0) else rmap (Pair []) (dec_field line ''tax_rate''))"

definition line_has_tax :: "tax_reader \<Rightarrow> dict \<Rightarrow> bool res" where
  "line_has_tax read line = rmap (\<lambda>(entries, rate). entries \<noteq> [] \<or> dec_true rate) (line_tax_definition read line)"

definition line_tax_rate :: "tax_reader \<Rightarrow> dict \<Rightarrow> dec res" where
  "line_tax_rate read line =
     rbind (line_tax_definition read line) (\<lambda>(entries, rate). dec_sum_by (\<lambda>e. to_decimal0 (dget e ''rate'')) rate entries)"

definition uncomputable_in :: "tax_reader \<Rightarrow> pyval \<Rightarrow> string option" where
  "uncomputable_in read value =
     (case unreadable_tax value of
        Some name \<Rightarrow> Some name
      | None \<Rightarrow> map_option tax_text (List.find (\<lambda>e. \<not> computable_tax read e) (case value of PList vs \<Rightarrow> vs | _ \<Rightarrow> [])))"

definition held_taxes :: "dict \<Rightarrow> pyval list" where
  "held_taxes values =
     dget values ''doc_taxes''
     # (case dget values ''line_items'' of PList vs \<Rightarrow> map (\<lambda>line. dget line ''taxes'') (dict_items vs) | _ \<Rightarrow> [])"

fun first_some :: "('a \<Rightarrow> 'b option) \<Rightarrow> 'a list \<Rightarrow> 'b option" where
  "first_some f [] = None"
| "first_some f (x # xs) = (case f x of Some y \<Rightarrow> Some y | None \<Rightarrow> first_some f xs)"

definition uncomputable_tax :: "tax_reader \<Rightarrow> dict \<Rightarrow> string option" where
  "uncomputable_tax read values = first_some (uncomputable_in read) (held_taxes values)"

definition refuse_malformed_taxes :: "tax_reader \<Rightarrow> dict \<Rightarrow> dict \<Rightarrow> unit res" where
  "refuse_malformed_taxes read values state =
     (case uncomputable_tax read values of None \<Rightarrow> Inr () | Some _ \<Rightarrow> unreadable_tax_refusal state)"

definition has_rate :: "tax_reader \<Rightarrow> dict \<Rightarrow> bool res" where
  "has_rate read state =
     (if tax_entries (dget state ''doc_taxes'') \<noteq> [] then Inr True
      else rbind (dec_field state ''tax_rate'') (\<lambda>rate.
           if dec_true rate then Inr True
           else rbind (rows_or state ''line_items'') (\<lambda>vs. anyR (line_has_tax read) (dict_items vs))))"

definition is_percentage :: "dict \<Rightarrow> bool" where
  "is_percentage state = (dget state ''discount_type'' = PStr ''percentage'')"

definition fixed_discount :: "dict \<Rightarrow> dec res" where
  "fixed_discount state =
     (if is_percentage state then Inr (Fin 0 0) else rbind (dec_field state ''discount'') (dmax (Fin 0 0)))"

definition unrated_tax :: "tax_reader \<Rightarrow> dict \<Rightarrow> dec res" where
  "unrated_tax read state = rbind (has_rate read state) (\<lambda>rated. if rated then Inr (Fin 0 0) else dec_field state ''tax'')"

section \<open>A memo drawn onto invoices\<close>

definition open_take :: "pyval \<Rightarrow> dict option res" where
  "open_take v =
     rbind (as_dict v) (\<lambda>tk.
       if truthy (dget tk ''released'') then Inr None
       else rbind (rbind (dkey tk ''lines'') py_iter) (\<lambda>ls.
            rmap (\<lambda>kept. Some (dput ''lines'' (PList kept) tk)) (filter_rows (\<lambda>ln. Inr (\<not> truthy (dget ln ''returned''))) ls)))"

definition memo_draws :: "tax_reader \<Rightarrow> dict \<Rightarrow> dict list res" where
  "memo_draws read state =
     (if dget state ''status'' = PStr ''converted'' \<and> truthy (dget state ''converted_to'')
      then rbind (py_float (py_or (dget state ''shipping'') (PInt 0))) (\<lambda>shipping.
           rbind (rbind (fixed_discount state) to_stored_float) (\<lambda>discount.
           rbind (rbind (unrated_tax read state) to_stored_float) (\<lambda>tax.
           Inr [[(''draw_id'', PNone), (''invoice_id'', dget state ''converted_to''), (''doc_number'', PNone),
             (''lines'', PList []), (''shipping'', PFloat shipping), (''discount'', discount), (''tax'', tax),
             (''released'', PBool False), (''legacy'', PBool True)]])))
      else rbind (rows_or state ''invoiced_on'') (\<lambda>vs. rmap (List.map_filter id) (mapR open_take vs)))"

definition drawn_line_money :: "dict \<Rightarrow> pyval \<Rightarrow> dict list \<Rightarrow> pyval \<Rightarrow> dec res" where
  "drawn_line_money memo_line n take_lines currency =
     rbind (line_amount memo_line currency) (\<lambda>amount.
     rbind (dec_field memo_line ''quantity'') (\<lambda>quantity.
     rbind (to_decimal n) (\<lambda>units.
     rbind (dec_sum_by (\<lambda>ln. rbind (dkey ln ''quantity'') to_decimal) (Fin 0 0) take_lines) (\<lambda>taken.
     rbind (rbind (dadd taken units) (\<lambda>x. deq x quantity)) (\<lambda>whole.
     rbind (if whole then rmap Not (anyR (\<lambda>ln. rmap Not (rbind (rbind (dkey ln ''memo_line_amount'') to_decimal) (\<lambda>a. deq a amount))) take_lines)
            else Inr False) (\<lambda>closes.
     if closes
     then rbind (dec_sum_by (\<lambda>ln. rbind (dkey ln ''memo_amount'') to_decimal) (Fin 0 0) take_lines) (dsub amount)
     else if \<not> dec_true quantity then Inr (Fin 0 0)
     else rbind (dmul amount units) (\<lambda>x. rbind (ddiv x quantity) (\<lambda>y. round_money y currency))))))))"

text \<open>What the units still out would bill, over the lines of the memo.\<close>

definition lines_of_take :: "pyval \<Rightarrow> dict \<Rightarrow> dict list res" where
  "lines_of_take line_id tk =
     rbind (rbind (dkey tk ''lines'') py_iter) (\<lambda>vs.
     rbind (mapR (\<lambda>v. rbind (vsub v ''memo_line_id'') (\<lambda>i. Inr (v, py_eq i line_id))) vs) (\<lambda>marked.
     mapR (\<lambda>(v, _). as_dict v) (filter snd marked)))"

definition out_money :: "dict list \<Rightarrow> dict \<Rightarrow> pyval \<Rightarrow> dict \<Rightarrow> dec res" where
  "out_money takes out currency line =
     rbind (table_get out (dget line ''line_id'')) (\<lambda>n.
     rbind (mapR (lines_of_take (dget line ''line_id'')) takes) (\<lambda>prior.
     drawn_line_money line (case n of Some v \<Rightarrow> v | None \<Rightarrow> PInt 0) (concat prior) currency))"

definition still_on_memo :: "dict \<Rightarrow> dict list \<Rightarrow> dict \<Rightarrow> dec \<Rightarrow> dec \<Rightarrow> dec \<Rightarrow> pyval res" where
  "still_on_memo state takes out shipping discount tax =
     rbind (in_set (dget state ''status'') MEMO_DRAW_STATUSES) (\<lambda>live.
     if \<not> live then Inr PNone
     else rbind (rows_or state ''line_items'') (\<lambda>vs.
          rbind (dec_sum_by (out_money takes out (dget state ''currency'')) (Fin 0 0) (dict_items vs)) (\<lambda>goods.
          rbind (dadd goods shipping) (\<lambda>a. rbind (dadd a tax) (\<lambda>b. rbind (dsub b discount) (\<lambda>c.
          rbind (round_money c (dget state ''currency'')) to_stored_float))))))"

definition take_amounts :: "dict \<Rightarrow> pyval res" where
  "take_amounts t =
     rmap PDict (mapR (\<lambda>k. rmap (Pair k) (dkey t k)) [''invoice_id'', ''doc_number'', ''shipping'', ''discount'', ''tax''])"

text \<open>\<open>to_decimal(0) if any(t[key] for t in takes) else\<close> the amount of the memo: what goes whole
  with the first take.\<close>

definition taken_whole :: "string \<Rightarrow> dict list \<Rightarrow> dec res \<Rightarrow> dec res" where
  "taken_whole key takes own =
     rbind (anyR (\<lambda>t. rmap truthy (dkey t key)) takes) (\<lambda>gone. if gone then Inr (Fin 0 0) else own)"

definition memo_fixed_amounts :: "tax_reader \<Rightarrow> dict \<Rightarrow> dict \<Rightarrow> dict res" where
  "memo_fixed_amounts read state out_by_line =
     (let currency = dget state ''currency''; stored = (\<lambda>d. rbind (round_money d currency) to_stored_float) in
      rbind (memo_draws read state) (\<lambda>takes.
      rbind (taken_whole ''shipping'' takes (to_decimal0 (dget state ''shipping''))) (\<lambda>shipping.
      rbind (rbind (fixed_discount state) (\<lambda>f. rbind (dec_sum_by (\<lambda>t. rbind (dkey t ''discount'') to_decimal) (Fin 0 0) takes)
               (\<lambda>s. rbind (dsub f s) (dmax (Fin 0 0))))) (\<lambda>discount.
      rbind (taken_whole ''tax'' takes (unrated_tax read state)) (\<lambda>tax.
      rbind (still_on_memo state takes out_by_line shipping discount tax) (\<lambda>still.
      rbind (stored shipping) (\<lambda>v1. rbind (stored discount) (\<lambda>v2. rbind (stored tax) (\<lambda>v3.
      rbind (mapR take_amounts takes) (\<lambda>v4.
      Inr [(''shipping'', v1), (''discount'', v2), (''tax'', v3), (''takes'', PList v4), (''still_on_memo'', still)]))))))))))"

definition lower_field :: "dict list \<Rightarrow> pyval \<Rightarrow> string \<Rightarrow> dec \<Rightarrow> dict \<Rightarrow> dict res" where
  "lower_field released currency key now d =
     rbind (dec_sum_by (\<lambda>t. to_decimal0 (dget t key)) (Fin 0 0) released) (\<lambda>taken.
     if dec_true taken \<and> dec_true now
     then rbind (dmin taken now) (\<lambda>m. rbind (dsub now m) (\<lambda>left. rbind (round_money left currency) (\<lambda>r.
          rmap (\<lambda>v. dput key v d) (to_stored_float r))))
     else Inr d)"

definition released_header_money :: "tax_reader \<Rightarrow> dict \<Rightarrow> dict list \<Rightarrow> dict res" where
  "released_header_money read state released =
     (let currency = dget state ''currency'' in
      rbind (to_decimal0 (dget state ''shipping'')) (\<lambda>shipping.
      rbind (fixed_discount state) (\<lambda>discount.
      rbind (unrated_tax read state) (\<lambda>tax.
      rbind (lower_field released currency ''shipping'' shipping []) (\<lambda>f1.
      rbind (if is_percentage state then Inr f1 else lower_field released currency ''discount'' discount f1) (\<lambda>f2.
      lower_field released currency ''tax'' tax f2))))))"

record doc_terms =
  dt_discount_pct :: "dec option"
  dt_doc_taxes :: "(string \<times> dec \<times> int \<times> bool) list"
  dt_tax_rate :: dec
  dt_unrated_tax :: dec

definition document_terms :: "tax_reader \<Rightarrow> dict \<Rightarrow> dec \<Rightarrow> doc_terms res" where
  "document_terms read state own_unrated_tax =
     rbind (if is_percentage state then rmap (\<lambda>d. if dec_true d then Some d else None) (dec_field state ''discount'') else Inr None) (\<lambda>pct.
     rbind (dec_field state ''tax_rate'') (\<lambda>rate.
     rbind (dmax (Fin 0 0) (if dec_true own_unrated_tax then own_unrated_tax else Fin 0 0)) (\<lambda>own.
     Inr \<lparr>dt_discount_pct = pct,
       dt_doc_taxes = map (\<lambda>d. (tx_code d, dec_of_float (tx_rate d), tx_order d, tx_compound d))
         (List.map_filter (tax_definition read) (tax_entries (dget state ''doc_taxes''))),
       dt_tax_rate = rate, dt_unrated_tax = own\<rparr>)))"

section \<open>The money of a document\<close>

text \<open>The discount taken off, from the rounded subtotal.\<close>

definition discount_taken :: "dict \<Rightarrow> dec \<Rightarrow> pyval \<Rightarrow> dec res" where
  "discount_taken state subtotal currency =
     rbind (rbind (dec_field state ''discount'') (dmax (Fin 0 0))) (\<lambda>discount.
     rbind (if is_percentage state then rbind (dmul subtotal discount) (\<lambda>x. ddiv x (Fin 100 0)) else Inr discount) (\<lambda>amount.
     rbind (dmax amount (Fin 0 0)) (\<lambda>a. rbind (dmin a subtotal) (\<lambda>b. round_money b currency))))"

text \<open>One pass of the loop over the lines; its state is \<open>(lines, line_tax_total, has_line_tax)\<close>.\<close>

definition tax_line :: "tax_reader \<Rightarrow> pyval \<Rightarrow> dec \<Rightarrow> pyval list \<times> dec \<times> bool \<Rightarrow> pyval \<Rightarrow> (pyval list \<times> dec \<times> bool) res" where
  "tax_line read currency ratio st v =
     (case v of
        PDict line \<Rightarrow>
          rbind (rbind (line_amount line currency) (\<lambda>a. dmul a ratio)) (\<lambda>base.
          rbind (line_tax_definition read line) (\<lambda>(line_taxes, rate).
          if line_taxes \<noteq> []
          then rbind (recompute_tax_applications read line_taxes base currency) (\<lambda>(resolved, amount).
               rmap (\<lambda>s. (fst st @ [PDict (dput ''taxes'' (PList (map PDict resolved)) line)], s, True)) (dadd (fst (snd st)) amount))
          else if dec_true rate
          then rbind (rbind (dmul base rate) (\<lambda>x. rbind (ddiv x (Fin 100 0)) (\<lambda>y. round_money y currency))) (\<lambda>amount.
               rmap (\<lambda>s. (fst st @ [v], s, True)) (dadd (fst (snd st)) amount))
          else Inr (fst st @ [v], snd st)))
      | _ \<Rightarrow> Inr (fst st @ [v], snd st))"

text \<open>The tax of a document none of whose lines and document taxes gives it one.\<close>

definition header_tax :: "tax_reader \<Rightarrow> dict \<Rightarrow> dec \<Rightarrow> pyval \<Rightarrow> bool \<Rightarrow> dict option \<Rightarrow> dec res" where
  "header_tax read state taxable currency keep_unrated_tax stored =
     rbind (dec_field state ''tax_rate'') (\<lambda>rate.
     if dec_true rate then rbind (dmul taxable rate) (\<lambda>x. rbind (ddiv x (Fin 100 0)) (\<lambda>y. round_money y currency))
     else rbind (case stored of None \<Rightarrow> Inr False | Some before \<Rightarrow> has_rate read before) (\<lambda>was_rated.
          if was_rated then Inr (Fin 0 0)
          else rbind (rbind (dec_field state ''tax'') (\<lambda>t. round_money t currency)) (\<lambda>tax.
               if dec_true tax \<and> \<not> keep_unrated_tax then Inl ValueError else Inr tax)))"

text \<open>The tax of the document, and the document taxes with their amounts when it has any.\<close>

definition tax_taken ::
    "tax_reader \<Rightarrow> dict \<Rightarrow> dec \<Rightarrow> dec \<Rightarrow> bool \<Rightarrow> pyval \<Rightarrow> bool \<Rightarrow> dict option \<Rightarrow> (dec \<times> dict list option) res" where
  "tax_taken read state taxable line_tax_total has_line_tax currency keep_unrated_tax stored =
     (let doc_taxes = tax_entries (dget state ''doc_taxes'') in
      if doc_taxes \<noteq> []
      then rbind (recompute_tax_applications read doc_taxes taxable currency) (\<lambda>(resolved, amount).
           rmap (\<lambda>tot. (tot, Some resolved)) (dadd line_tax_total amount))
      else if has_line_tax then Inr (line_tax_total, None)
      else rmap (\<lambda>tax. (tax, None)) (header_tax read state taxable currency keep_unrated_tax stored))"

definition money_fields :: "dec \<Rightarrow> dec \<Rightarrow> dict list option \<Rightarrow> dec \<Rightarrow> dec \<Rightarrow> dict res" where
  "money_fields subtotal discount doc_taxes tax tot =
     rbind (to_stored_float subtotal) (\<lambda>v1. rbind (to_stored_float discount) (\<lambda>v2.
     rbind (to_stored_float tax) (\<lambda>v3. rbind (to_stored_float tot) (\<lambda>v4.
     Inr ([(''subtotal'', v1), (''discount_amount'', v2)]
       @ (case doc_taxes of None \<Rightarrow> [] | Some ts \<Rightarrow> [(''doc_taxes'', PList (map PDict ts))])
       @ [(''tax'', v3), (''total'', v4)])))))"

definition derived_money ::
    "tax_reader \<Rightarrow> dict \<Rightarrow> pyval list \<Rightarrow> pyval \<Rightarrow> bool \<Rightarrow> dict option \<Rightarrow> (dict \<times> pyval list) res" where
  "derived_money read state lines currency keep_unrated_tax stored =
     rbind (rbind (dec_sum_by (\<lambda>line. line_amount line currency) (Fin 0 0) (dict_items lines)) (\<lambda>s. round_money s currency)) (\<lambda>subtotal.
     rbind (discount_taken state subtotal currency) (\<lambda>discount.
     rbind (dsub subtotal discount) (\<lambda>taxable.
     rbind (rbind (dless (Fin 0 0) subtotal) (\<lambda>pos. if pos then ddiv taxable subtotal else Inr (Fin 1 0))) (\<lambda>ratio.
     rbind (foldR (tax_line read currency ratio) ([], Fin 0 0, False) lines) (\<lambda>(lines', line_tax_total, has_line_tax).
     rbind (tax_taken read state taxable line_tax_total has_line_tax currency keep_unrated_tax stored) (\<lambda>(tax0, doc_taxes).
     rbind (round_money tax0 currency) (\<lambda>tax.
     rbind (rbind (dec_field state ''shipping'') (\<lambda>s. round_money s currency)) (\<lambda>shipping.
     rbind (rbind (dadd taxable tax) (\<lambda>x. rbind (dadd x shipping) (\<lambda>y. round_money y currency))) (\<lambda>tot.
     rmap (\<lambda>m. (m, lines')) (money_fields subtotal discount doc_taxes tax tot))))))))))"

definition document_money ::
    "tax_reader \<Rightarrow> dict \<Rightarrow> pyval list \<Rightarrow> pyval \<Rightarrow> bool \<Rightarrow> dict option \<Rightarrow> (dict \<times> pyval list) res" where
  "document_money read state lines currency keep_unrated_tax stored =
     rbind (refuse_malformed_taxes read [(''doc_taxes'', dget state ''doc_taxes''), (''line_items'', PList lines)]
              (case stored of Some before \<Rightarrow> before | None \<Rightarrow> state)) (\<lambda>_.
     derived_money read state lines currency keep_unrated_tax stored)"

definition memo_tax_rate_money :: "tax_reader \<Rightarrow> dict \<Rightarrow> pyval \<Rightarrow> dict res" where
  "memo_tax_rate_money read memo rate =
     rbind (rows_or memo ''line_items'') (\<lambda>vs.
     rmap fst (document_money read (dput ''tax_rate'' rate memo) (map PDict (dict_items vs)) (dget memo ''currency'') False None))"

definition money_from_lines :: "tax_reader \<Rightarrow> dict \<Rightarrow> pyval \<Rightarrow> dict res" where
  "money_from_lines read data currency =
     rbind (rows_or data ''line_items'') (\<lambda>vs.
     rbind (mapR (\<lambda>line. rbind (line_amount line currency) (\<lambda>a. rmap (\<lambda>v. PDict (dput ''line_total'' v line)) (to_stored_float a)))
              (dict_items vs)) (\<lambda>lines.
     rmap (\<lambda>(money, lines'). dput ''line_items'' (PList lines') (dmerge data money))
       (document_money read data lines currency True None)))"

section \<open>What a draw puts on the invoice\<close>

definition DRAWN_LINE_KEYS :: "string list" where
  "DRAWN_LINE_KEYS = [''sku'', ''barcode'', ''name'', ''description'', ''unit'', ''sell_by'', ''unit_price'', ''discount_pct'',
     ''tax_rate'', ''taxes'']"

text \<open>\<open>{k: d[k] for k in keys if d.get(k) not in (None, "", [])}\<close>.\<close>

definition kept_fields :: "string list \<Rightarrow> dict \<Rightarrow> dict" where
  "kept_fields ks d = map (\<lambda>k. (k, dget d k)) (filter (\<lambda>k. \<not> blank (dget d k) \<and> dget d k \<noteq> PList []) ks)"

text \<open>The lines picked of the memo, each with its position and the units drawn of it.\<close>

definition memo_line :: "dict \<Rightarrow> nat \<Rightarrow> pyval res" where
  "memo_line memo i =
     rbind (rbind (dkey memo ''line_items'') py_iter) (\<lambda>vs. if i < length vs then Inr (vs ! i) else Inl IndexError)"

definition drawn_memo_line :: "dict \<Rightarrow> pyval \<Rightarrow> dict list \<Rightarrow> string \<Rightarrow> nat \<times> rat \<Rightarrow> (dict \<times> dict) res" where
  "drawn_memo_line memo currency takes line_id pick =
     rbind (rbind (memo_line memo (fst pick)) as_dict) (\<lambda>ml.
     rbind (mapR (lines_of_take (dget ml ''line_id'')) takes) (\<lambda>prior.
     rbind (drawn_line_money ml (PFloat (snd pick)) (concat prior) currency) (\<lambda>amount.
     rbind (to_stored_float amount) (\<lambda>stored.
     rbind (rbind (line_amount ml currency) to_stored_float) (\<lambda>line_total.
     Inr (dput ''line_total'' stored (dput ''quantity'' (PFloat (snd pick)) (dput ''line_id'' (PStr line_id) (kept_fields DRAWN_LINE_KEYS ml))),
       [(''invoice_line_id'', PStr line_id), (''memo_line_id'', dget ml ''line_id''), (''lot_ids'', PList []),
        (''quantity'', PFloat (snd pick)), (''memo_amount'', stored), (''memo_line_amount'', line_total)]))))))"

record drawn_bill =
  db_lines :: "dict list"
  db_take :: dict
  db_values :: dict

definition NEW_INVOICE_KEYS :: "string list" where
  "NEW_INVOICE_KEYS = [''contact_id'', ''currency'', ''conversion_rate'', ''price_list'', ''payment_terms'', ''doc_taxes'', ''tax_rate'']"

definition add_stored :: "dict \<Rightarrow> string \<Rightarrow> dec res \<Rightarrow> dict \<Rightarrow> dict res" where
  "add_stored tk key own values =
     (if truthy (dget tk key)
      then rbind own (\<lambda>a. rbind (to_decimal (dget tk key)) (\<lambda>b. rbind (dadd a b) (\<lambda>c.
           rmap (\<lambda>v. dput key v values) (to_stored_float c))))
      else Inr values)"

definition bill_values :: "dict \<Rightarrow> dict \<Rightarrow> dict list \<Rightarrow> dict option \<Rightarrow> dict res" where
  "bill_values memo tk lines target =
     (case target of
        None \<Rightarrow>
          Inr (dmerge (kept_fields NEW_INVOICE_KEYS memo)
            [(''discount_type'', PStr (if is_percentage memo then ''percentage'' else ''flat'')),
             (''discount'', if is_percentage memo then dget memo ''discount'' else dget tk ''discount''),
             (''shipping'', dget tk ''shipping''), (''tax'', dget tk ''tax'')])
      | Some st \<Rightarrow>
          rbind (rows_or st ''line_items'') (\<lambda>held.
          rbind (add_stored tk ''shipping'' (to_decimal0 (dget st ''shipping''))
                   [(''line_items'', PList (held @ map PDict lines))]) (\<lambda>v1.
          rbind (if truthy (dget tk ''discount'')
                 then add_stored tk ''discount'' (fixed_discount st) (dput ''discount_type'' (PStr ''flat'') v1)
                 else Inr v1) (\<lambda>v2.
          add_stored tk ''tax'' (to_decimal0 (dget st ''tax'')) v2))))"

definition draw_bill ::
    "tax_reader \<Rightarrow> dict \<Rightarrow> dict \<Rightarrow> dict option \<Rightarrow> (nat \<times> rat) list \<Rightarrow> string list \<Rightarrow> pyval \<Rightarrow> pyval \<Rightarrow> pyval \<Rightarrow> drawn_bill res" where
  "draw_bill read memo out_by_line target picks line_ids draw_id invoice_id doc_number =
     rbind (mapR (\<lambda>pick. memo_line memo (fst pick)) picks) (\<lambda>picked.
     rbind (refuse_malformed_taxes read [(''doc_taxes'', dget memo ''doc_taxes''), (''line_items'', PList picked)] memo) (\<lambda>_.
     rbind (memo_draws read memo) (\<lambda>takes.
     rbind (mapR (\<lambda>(line_id, pick). drawn_memo_line memo (dget memo ''currency'') takes line_id pick) (zip line_ids picks)) (\<lambda>drawn.
     rbind (memo_fixed_amounts read memo out_by_line) (\<lambda>fixed.
     rbind (dec_sum_by (\<lambda>ln. rbind (dkey ln ''memo_amount'') to_decimal) (Fin 0 0) (map snd drawn)) (\<lambda>goods.
     rbind (rbind (rbind (to_decimal (dget fixed ''discount'')) (\<lambda>d. dmin d goods)) to_stored_float) (\<lambda>discount.
     let tk = [(''draw_id'', draw_id), (''invoice_id'', invoice_id), (''doc_number'', doc_number),
               (''lines'', PList (map (PDict \<circ> snd) drawn)), (''shipping'', dget fixed ''shipping''), (''discount'', discount),
               (''tax'', dget fixed ''tax'')]
     in rmap (\<lambda>values. \<lparr>db_lines = map fst drawn, db_take = tk, db_values = values\<rparr>)
          (bill_values memo tk (map fst drawn) target))))))))"

section \<open>The money of a list\<close>

definition list_money :: "tax_reader \<Rightarrow> dict \<Rightarrow> pyval list \<Rightarrow> pyval \<Rightarrow> (dict \<times> pyval list) res" where
  "list_money read state lines currency =
     rbind (discount_from_inputs state (Fin 0 0) currency) (\<lambda>discount.
     case discount of None \<Rightarrow> Inl ValueError
     | Some _ \<Rightarrow>
         rmap (\<lambda>(money, lines').
             ([(''subtotal'', dget money ''subtotal''), (''discount_amount'', dget money ''discount_amount''),
               (''tax_amount'', dget money ''tax''), (''total'', dget money ''total'')], lines'))
           (derived_money read [(''discount'', dget state ''discount''), (''discount_type'', dget state ''discount_type''),
               (''tax_rate'', dget state ''tax'')] lines currency True None))"

definition LIST_TOTAL_FIELDS :: "string list" where
  "LIST_TOTAL_FIELDS = [''subtotal'', ''discount_amount'', ''tax_amount'', ''total'']"

definition stored_list_totals :: "dict \<Rightarrow> dict res" where
  "stored_list_totals state =
     mapR (\<lambda>k. rmap (\<lambda>x. (k, PFloat x)) (py_float (py_or (dget state k) (PInt 0)))) LIST_TOTAL_FIELDS"

definition list_totals :: "tax_reader \<Rightarrow> dict \<Rightarrow> dict res" where
  "list_totals read state =
     rbind (rows_or state ''line_items'') (\<lambda>vs.
     rmap fst (list_money read state (map PDict (dict_items vs)) (dget state ''currency'')))"

definition list_totals_differ :: "tax_reader \<Rightarrow> dict \<Rightarrow> (string \<times> string) option res" where
  "list_totals_differ read state =
     (let currency = dget state ''currency'' in
      rbind (rtry number_error (rmap Some (list_totals read state)) (Inr None)) (\<lambda>derived.
      case derived of None \<Rightarrow> Inr None
      | Some d \<Rightarrow>
        rbind (mapR (\<lambda>k. rbind (to_decimal0 (dget state k)) (\<lambda>x. round_money x currency)) LIST_TOTAL_FIELDS) (\<lambda>held.
        rbind (anyR (\<lambda>(k, h). rbind (rbind (to_decimal (dget d k)) (\<lambda>x. round_money x currency)) (\<lambda>r. rmap Not (deq h r)))
                 (zip LIST_TOTAL_FIELDS held)) (\<lambda>differ.
        if \<not> differ then Inr None
        else rbind (rbind (to_decimal (dget d ''total'')) (\<lambda>x. round_money x currency)) (\<lambda>r.
             Inr (Some (dec_str (last held), dec_str r)))))))"

section \<open>The totals a list event is written with\<close>

definition with_line_total :: "pyval \<Rightarrow> pyval \<Rightarrow> pyval res" where
  "with_line_total currency v =
     (case v of
        PDict i \<Rightarrow> rbind (document_line_amount i currency) (\<lambda>a.
          case a of None \<Rightarrow> Inr v | Some amount \<Rightarrow> rmap (\<lambda>x. PDict (dput ''line_total'' x i)) (to_stored_float amount))
      | _ \<Rightarrow> Inr v)"

definition list_lines_and_totals :: "tax_reader \<Rightarrow> dict \<Rightarrow> (pyval list \<times> dict) res" where
  "list_lines_and_totals read state =
     (let currency = dget state ''currency'' in
      rbind (rows_or state ''line_items'') (\<lambda>vs.
      rbind (mapR (with_line_total currency) vs) (\<lambda>lines.
      rmap (\<lambda>(money, lines'). (lines', money)) (list_money read state lines currency))))"

definition keeps_totals :: "tax_reader \<Rightarrow> dict option \<Rightarrow> dict \<Rightarrow> bool res" where
  "keeps_totals read before after =
     (case before of None \<Rightarrow> Inr False
      | Some b \<Rightarrow> rbind (list_totals read b) (\<lambda>x. rmap (\<lambda>y. py_eq (PDict x) (PDict y)) (list_totals read after)))"

definition with_list_totals :: "tax_reader \<Rightarrow> dict option \<Rightarrow> string \<Rightarrow> dict \<Rightarrow> dict res" where
  "with_list_totals read before event_type data =
     rbind (list_fields (case before of Some b \<Rightarrow> b | None \<Rightarrow> []) event_type data) (\<lambda>after.
     rbind (list_lines_and_totals read after) (\<lambda>(lines, money).
     rbind (keeps_totals read before after) (\<lambda>kept.
     if kept
     then Inr (dput ''totals'' (PDict (map (\<lambda>k. (k, dget_or (the before) k (dget money k))) LIST_TOTAL_FIELDS)) data)
     else let data' = dput ''totals'' (PDict money) data in
          if event_type = ''list.created'' then Inr (dput ''line_items'' (PList lines) data')
          else rbind (rbind (dkey data' ''fields_changed'') as_dict) (\<lambda>changed.
               if dhas changed ''line_items''
               then rmap (\<lambda>change. dput ''fields_changed'' (PDict (dput ''line_items'' (PDict (dput ''new'' (PList lines) change)) changed)) data')
                      (as_dict (dget changed ''line_items''))
               else if \<not> py_eq (PList lines) (dget (case before of Some b \<Rightarrow> b | None \<Rightarrow> []) ''line_items'')
               then Inr (dput ''line_items'' (PList lines) data')
               else Inr data'))))"

end
