(* ===== verification/MoneyFacts.thy ===== *)
theory MoneyFacts
  imports Money
begin

text \<open>
  What the money module guarantees: rounding to a currency, exchange rates, the conversion
  of parts, the pro-rata split and the unit price derived from a total.  The bounds on the
  inputs (\<open>grid10\<close>: at most ten decimal places, the precision of a cost basis; amounts up to
  \<open>10 ^ 15\<close>) keep every sum exact in the 28 digits of a \<open>Decimal\<close>.
\<close>

section \<open>Currencies and rounding\<close>

lemma currency_dp_str: "currency_dp (PStr s) = Inr (case map_of CURRENCY_DP (py_upper s) of Some n \<Rightarrow> n | None \<Rightarrow> DEFAULT_DP)"
  by (cases s) (simp_all add: currency_dp_def py_or_def)

lemma CURRENCY_DP_le: "map_of CURRENCY_DP s = Some n \<Longrightarrow> n \<le> 4"
  by (drule map_of_SomeD) (auto simp: CURRENCY_DP_def)

lemma currency_dp_le: "currency_dp cur = Inr dp \<Longrightarrow> dp \<le> 4"
  by (auto simp: currency_dp_def DEFAULT_DP_def split: pyval.splits option.splits dest: CURRENCY_DP_le)

lemma round_money_fin:
  assumes "is_fin d" "currency_dp cur = Inr dp" "\<bar>rhu (dval d * 10 powi int dp)\<bar> < 10 ^ prec"
  shows "round_money d cur = Inr (Fin (rhu (dval d * 10 powi int dp)) (- int dp))"
  using dquantize_val [OF assms(1) assms(3)] by (simp add: round_money_def assms(2))

lemma round_money_Inr:
  assumes "is_fin d" "currency_dp cur = Inr dp" "round_money d cur = Inr m"
  shows "m = Fin (rhu (dval d * 10 powi int dp)) (- int dp)" "is_fin m" "dval m = round_places (int dp) (dval d)"
  using dquantize_Inr [OF assms(1), of "int dp" m] assms(2,3) by (auto simp: round_money_def simp del: dval.simps)

lemma round_money_val: "is_fin d \<Longrightarrow> currency_dp cur = Inr dp \<Longrightarrow> \<bar>rhu (dval d * 10 powi int dp)\<bar> < 10 ^ prec
  \<Longrightarrow> dec_is (round_money d cur) (round_places (int dp) (dval d))"
  by (simp add: round_money_fin round_places_def)

lemma rhu_small:
  assumes "\<bar>x\<bar> \<le> of_int n"
  shows "\<bar>rhu x\<bar> \<le> n"
  using rhu_mono [of x "of_int n"] rhu_mono [of "- of_int n" x] assms by (auto simp: rhu_minus abs_le_iff)

lemma powi_le_10_4: "dp \<le> 4 \<Longrightarrow> (10::rat) powi int dp \<le> 10 ^ 4"
  using power_increasing [of dp 4 "10::rat"] by simp

lemma scaled_small:
  assumes "dp \<le> 4" "\<bar>x\<bar> \<le> 10 ^ k"
  shows "\<bar>rhu (x * 10 powi int dp)\<bar> \<le> 10 ^ (k + 4)"
proof -
  have "\<bar>x * 10 powi int dp\<bar> = \<bar>x\<bar> * 10 powi int dp" by (simp add: abs_mult)
  also have "\<dots> \<le> 10 ^ k * 10 ^ 4" using assms powi_le_10_4 by (intro mult_mono) auto
  finally show ?thesis by (intro rhu_small) (simp add: power_add)
qed

lemma round_money_bounded:
  assumes "is_fin d" "currency_dp cur = Inr dp" "\<bar>dval d\<bar> \<le> 10 ^ 23"
  shows "round_money d cur = Inr (Fin (rhu (dval d * 10 powi int dp)) (- int dp))"
    "dec_is (round_money d cur) (round_places (int dp) (dval d))"
proof -
  have "\<bar>rhu (dval d * 10 powi int dp)\<bar> \<le> 10 ^ (23 + 4)"
    using scaled_small [OF currency_dp_le [OF assms(2)] assms(3)] .
  then have *: "\<bar>rhu (dval d * 10 powi int dp)\<bar> < 10 ^ prec" by simp
  show "round_money d cur = Inr (Fin (rhu (dval d * 10 powi int dp)) (- int dp))"
    using round_money_fin [OF assms(1,2) *] .
  show "dec_is (round_money d cur) (round_places (int dp) (dval d))"
    using round_money_val [OF assms(1,2) *] .
qed

lemma rhu_unit: "rhu (dval (Fin n (- int dp)) * 10 powi int dp) = n"
proof -
  have "dval (Fin n (- int dp)) * 10 powi int dp = of_int n"
    using p10_add [of "- int dp" "int dp"] by simp
  then show ?thesis by (simp only: rhu_of_int)
qed

text \<open>An amount of at most 23 digits rounds to the nearest whole unit of its currency's
  minor unit, off by half a unit at most, and rounding again changes nothing.\<close>

theorem round_money_nearest:
  assumes "is_fin d" "currency_dp cur = Inr dp" "\<bar>dval d\<bar> \<le> 10 ^ 22"
  shows "\<exists>n. round_money d cur = Inr (Fin n (- int dp)) \<and> \<bar>dval (Fin n (- int dp)) - dval d\<bar> \<le> 10 powi (- int dp) / 2
           \<and> round_money (Fin n (- int dp)) cur = Inr (Fin n (- int dp))"
proof -
  let ?n = "rhu (dval d * 10 powi int dp)"
  have r: "round_money d cur = Inr (Fin ?n (- int dp))"
    using assms by (intro round_money_bounded(1)) auto
  have v: "dval (Fin ?n (- int dp)) = round_places (int dp) (dval d)" by (simp add: round_places_def)
  have "\<bar>?n\<bar> \<le> 10 ^ (22 + 4)"
    using scaled_small [OF currency_dp_le [OF assms(2)] assms(3)] .
  then have "round_money (Fin ?n (- int dp)) cur = Inr (Fin ?n (- int dp))"
    using round_money_fin [OF _ assms(2), of "Fin ?n (- int dp)"] rhu_unit [of ?n dp] by (simp del: dval.simps)
  then show ?thesis using r v round_places_error [of "int dp" "dval d"] by metis
qed

section \<open>Exact sums\<close>

definition grid10 :: "rat \<Rightarrow> bool" where
  "grid10 x \<longleftrightarrow> (\<exists>n::int. x = of_int n / 10 ^ 10)"

lemma grid10_0 [simp]: "grid10 0"
  unfolding grid10_def by (rule exI [of _ 0]) simp

lemma grid10_add: "grid10 x \<Longrightarrow> grid10 y \<Longrightarrow> grid10 (x + y)"
  unfolding grid10_def by (metis add_divide_distrib of_int_add)

lemma grid10_sum: "(\<And>x. x \<in> set xs \<Longrightarrow> grid10 x) \<Longrightarrow> grid10 (sum_list xs)"
  by (induction xs) (auto intro: grid10_add)

lemma grid10_fits: "grid10 x \<Longrightarrow> \<bar>x\<bar> \<le> 10 ^ 15 \<Longrightarrow> fits28 x"
proof -
  assume "grid10 x" "\<bar>x\<bar> \<le> 10 ^ 15"
  then obtain n where n: "x = of_int n / 10 ^ 10" by (auto simp: grid10_def)
  have "\<bar>of_int n :: rat\<bar> \<le> of_int (10 ^ 25)" using \<open>\<bar>x\<bar> \<le> 10 ^ 15\<close> by (simp add: n field_simps)
  then have "\<bar>n\<bar> \<le> 10 ^ 25" by linarith
  then show ?thesis unfolding fits28_def by (intro sig_digits_of_scaled [OF n]) simp
qed

lemma rnd28_abs: "\<bar>rnd28 x\<bar> \<le> 2 * \<bar>x\<bar>"
proof -
  have "\<bar>x\<bar> / (2 * 10 ^ 27) \<le> \<bar>x\<bar>" by (simp add: field_simps)
  then show ?thesis using rnd28_error [of x] by linarith
qed

lemma rnd28_sign: "rnd28 x < 0 \<longleftrightarrow> x < 0" "0 < rnd28 x \<longleftrightarrow> 0 < x"
proof -
  have "x \<noteq> 0 \<Longrightarrow> \<bar>x\<bar> / (2 * 10 ^ 27) < \<bar>x\<bar>" by (simp add: field_simps)
  then show "rnd28 x < 0 \<longleftrightarrow> x < 0" "0 < rnd28 x \<longleftrightarrow> 0 < x"
    using rnd28_error [of x] by (cases "x = 0"; fastforce simp: abs_if split: if_splits)+
qed

lemma rnd28_0 [simp]: "rnd28 0 = 0"
  by simp

lemma dadd_grid:
  assumes "is_fin a" "is_fin b" "grid10 (dval a)" "grid10 (dval b)" "\<bar>dval a\<bar> + \<bar>dval b\<bar> \<le> 10 ^ 15"
  shows "dec_is (dadd a b) (dval a + dval b)"
proof -
  have "\<bar>dval a + dval b\<bar> \<le> 10 ^ 15" using assms(5) by linarith
  then have "fits28 (dval a + dval b)" using assms(3,4) by (intro grid10_fits grid10_add)
  then show ?thesis using dadd_val [OF assms(1,2)] by (simp add: rnd28_fits)
qed

definition grid_decs :: "dec list \<Rightarrow> bool" where
  "grid_decs ds \<longleftrightarrow> (\<forall>d\<in>set ds. is_fin d \<and> grid10 (dval d)) \<and> (\<Sum>d\<leftarrow>ds. \<bar>dval d\<bar>) \<le> 10 ^ 15"

lemma foldR_dadd_grid:
  assumes "is_fin s" "grid10 (dval s)" "\<forall>d\<in>set ds. is_fin d \<and> grid10 (dval d)"
    "\<bar>dval s\<bar> + (\<Sum>d\<leftarrow>ds. \<bar>dval d\<bar>) \<le> 10 ^ 15"
  shows "dec_is (foldR dadd s ds) (dval s + (\<Sum>d\<leftarrow>ds. dval d))"
  using assms
proof (induction ds arbitrary: s)
  case (Cons d ds)
  have pos: "0 \<le> (\<Sum>d\<leftarrow>ds. \<bar>dval d\<bar>)" by (rule sum_list_nonneg) auto
  have "\<bar>dval s\<bar> + \<bar>dval d\<bar> \<le> 10 ^ 15" using Cons.prems(4) pos by simp
  then have "dec_is (dadd s d) (dval s + dval d)" using Cons.prems by (intro dadd_grid) auto
  then obtain t where t: "dadd s d = Inr t" "is_fin t" "dval t = dval s + dval d" by (rule dec_isE)
  have "\<bar>dval t\<bar> + (\<Sum>d\<leftarrow>ds. \<bar>dval d\<bar>) \<le> 10 ^ 15" using Cons.prems(4) by (simp add: t(3))
  then have "dec_is (foldR dadd t ds) (dval t + (\<Sum>d\<leftarrow>ds. dval d))"
    using Cons.prems t by (intro Cons.IH) (auto intro: grid10_add)
  then show ?case by (simp add: t(1,3) add.assoc)
qed simp

lemma dec_sum_grid: "grid_decs ds \<Longrightarrow> dec_is (dec_sum ds) (\<Sum>d\<leftarrow>ds. dval d)"
  using foldR_dadd_grid [of "Fin 0 0" ds] by (simp add: dec_sum_def grid_decs_def)

lemma int_diff_exact:
  assumes "\<bar>a\<bar> \<le> 10 ^ 27" "\<bar>b\<bar> \<le> (10 ^ 27 :: int)"
  shows "dec_is (dsub (Fin a e) (Fin b e)) (dval (Fin a e) - dval (Fin b e))"
proof -
  have "\<bar>a - b\<bar> \<le> \<bar>a\<bar> + \<bar>b\<bar>" by linarith
  also have "\<dots> \<le> 10 ^ 28" using assms by simp
  finally have "\<bar>a - b\<bar> \<le> 10 ^ 28" .
  then have "sig_digits 28 (of_int (a - b) * 10 powi e)" unfolding sig_digits_def by blast
  then have "fits28 (dval (Fin a e) - dval (Fin b e))" by (simp add: fits28_def left_diff_distrib)
  then show ?thesis using dsub_val [of "Fin a e" "Fin b e"] by (simp add: rnd28_fits)
qed

section \<open>Conversion of the parts of a document\<close>

text \<open>What an amount converts to: one product, one rounding.\<close>

definition converted :: "nat \<Rightarrow> rat \<Rightarrow> rat \<Rightarrow> rat" where
  "converted dp rate x = round_places (int dp) (rnd28 (x * rate))"

lemma converted_0 [simp]: "converted dp rate 0 = 0"
  by (simp add: converted_def)

lemma convert_step:
  assumes "is_fin r" "is_fin a" "currency_dp cur = Inr dp" "\<bar>dval a\<bar> \<le> 10 ^ 15" "\<bar>dval r\<bar> \<le> 10 ^ 6"
  shows "\<exists>x n. dmul a r = Inr x \<and> is_fin x \<and> round_money x cur = Inr (Fin n (- int dp)) \<and> \<bar>n\<bar> \<le> 10 ^ 27
           \<and> dval (Fin n (- int dp)) = converted dp (dval r) (dval a)"
proof -
  obtain x where x: "dmul a r = Inr x" "is_fin x" "dval x = rnd28 (dval a * dval r)"
    using dmul_val [OF assms(2,1)] by (rule dec_isE)
  have "\<bar>dval a * dval r\<bar> \<le> 10 ^ 15 * 10 ^ 6"
    unfolding abs_mult using assms(4,5) by (intro mult_mono) auto
  then have b: "\<bar>dval x\<bar> \<le> 10 ^ 22" using rnd28_abs [of "dval a * dval r"] by (simp add: x(3))
  have n: "round_money x cur = Inr (Fin (rhu (dval x * 10 powi int dp)) (- int dp))"
    using b by (intro round_money_bounded(1) [OF x(2) assms(3)]) simp
  have "\<bar>rhu (dval x * 10 powi int dp)\<bar> \<le> 10 ^ (22 + 4)"
    using scaled_small [OF currency_dp_le [OF assms(3)] b] .
  then have "\<bar>rhu (dval x * 10 powi int dp)\<bar> \<le> 10 ^ 27" by simp
  then show ?thesis using x n by (auto simp: converted_def round_places_def)
qed

lemma split_fold:
  assumes "is_fin r" "currency_dp cur = Inr dp" "\<bar>dval r\<bar> \<le> 10 ^ 6"
    and "is_fin s" "grid10 (dval s)" "\<forall>d\<in>set ds. is_fin d \<and> grid10 (dval d)"
    and "\<bar>dval s\<bar> + (\<Sum>d\<leftarrow>ds. \<bar>dval d\<bar>) \<le> 10 ^ 15"
    and "dval (Fin n (- int dp)) = converted dp (dval r) (dval s)" "\<bar>n\<bar> \<le> 10 ^ 27"
  shows "\<exists>parts st. foldR (split_step r cur) (out, s, Fin n (- int dp)) ds = Inr (out @ parts, st)
           \<and> length parts = length ds \<and> (\<forall>d\<in>set parts. is_fin d)
           \<and> (\<forall>k\<le>length ds. (\<Sum>d\<leftarrow>take k parts. dval d)
                = converted dp (dval r) (dval s + (\<Sum>d\<leftarrow>take k ds. dval d)) - converted dp (dval r) (dval s))"
  using assms(4-9)
proof (induction ds arbitrary: s n out)
  case (Cons d ds)
  have pos: "0 \<le> (\<Sum>d\<leftarrow>ds. \<bar>dval d\<bar>)" by (rule sum_list_nonneg) auto
  have "\<bar>dval s\<bar> + \<bar>dval d\<bar> \<le> 10 ^ 15" using Cons.prems(4) pos by simp
  then have "dec_is (dadd s d) (dval s + dval d)" using Cons.prems by (intro dadd_grid) auto
  then obtain t where t: "dadd s d = Inr t" "is_fin t" "dval t = dval s + dval d" by (rule dec_isE)
  have tb: "\<bar>dval t\<bar> + (\<Sum>d\<leftarrow>ds. \<bar>dval d\<bar>) \<le> 10 ^ 15" using Cons.prems(4) by (simp add: t(3))
  then have "\<bar>dval t\<bar> \<le> 10 ^ 15" using pos by linarith
  from convert_step [OF assms(1) t(2) assms(2) this assms(3)]
  obtain x m where x: "dmul t r = Inr x" "round_money x cur = Inr (Fin m (- int dp))" "\<bar>m\<bar> \<le> 10 ^ 27"
    and m: "dval (Fin m (- int dp)) = converted dp (dval r) (dval t)" by blast
  obtain p where p: "dsub (Fin m (- int dp)) (Fin n (- int dp)) = Inr p" "is_fin p"
      "dval p = converted dp (dval r) (dval t) - converted dp (dval r) (dval s)"
    using int_diff_exact [OF x(3) Cons.prems(6), of "- int dp"] Cons.prems(5) m by (auto elim: dec_isE)
  have "grid10 (dval t)" using Cons.prems by (auto simp: t(3) intro: grid10_add)
  from Cons.IH [OF t(2) this _ tb m x(3), of "out @ [p]"] Cons.prems(3) obtain parts st where
    ps: "foldR (split_step r cur) (out @ [p], t, Fin m (- int dp)) ds = Inr (out @ [p] @ parts, st)"
      "length parts = length ds" "\<forall>d\<in>set parts. is_fin d"
    and sums: "\<forall>k\<le>length ds. (\<Sum>d\<leftarrow>take k parts. dval d)
        = converted dp (dval r) (dval t + (\<Sum>d\<leftarrow>take k ds. dval d)) - converted dp (dval r) (dval t)"
    by auto
  have "foldR (split_step r cur) (out, s, Fin n (- int dp)) (d # ds) = Inr (out @ (p # parts), st)"
    using ps(1) by (simp add: split_step_def t(1) x(1,2) p(1))
  moreover have "\<forall>k\<le>length (d # ds). (\<Sum>d\<leftarrow>take k (p # parts). dval d)
      = converted dp (dval r) (dval s + (\<Sum>d\<leftarrow>take k (d # ds). dval d)) - converted dp (dval r) (dval s)"
  proof (intro allI impI)
    fix k assume "k \<le> length (d # ds)"
    then show "(\<Sum>d\<leftarrow>take k (p # parts). dval d)
      = converted dp (dval r) (dval s + (\<Sum>d\<leftarrow>take k (d # ds). dval d)) - converted dp (dval r) (dval s)"
      using sums by (cases k) (auto simp: p(3) t(3) add.assoc)
  qed
  ultimately show ?case using ps(2,3) p(2) by (intro exI [of _ "p # parts"] exI [of _ st]) auto
qed simp

text \<open>C28: \<open>split_to_base\<close> returns one part for each amount, and the parts of the first \<open>k\<close>
  amounts add up to the conversion of their sum, for every \<open>k\<close>: in all, the parts add up to the
  total converted once, which is what \<open>to_base\<close> of the sum stores.\<close>

theorem split_to_base_sums:
  assumes "is_fin rate" "\<bar>dval rate\<bar> \<le> 10 ^ 6" "currency_dp cur = Inr dp" "grid_decs amounts"
  shows "\<exists>parts. split_to_base amounts rate cur = Inr parts \<and> length parts = length amounts
           \<and> (\<forall>k\<le>length amounts. (\<Sum>d\<leftarrow>take k parts. dval d) = converted dp (dval rate) (\<Sum>d\<leftarrow>take k amounts. dval d))
           \<and> rbind (dec_sum amounts) (\<lambda>s. to_base s rate cur) = Inr (PFloat (fl (\<Sum>d\<leftarrow>parts. dval d)))"
proof -
  have bound: "(\<Sum>d\<leftarrow>amounts. \<bar>dval d\<bar>) \<le> 10 ^ 15" using assms(4) by (simp add: grid_decs_def)
  obtain parts st where p: "foldR (split_step rate cur) ([], Fin 0 0, Fin 0 (- int dp)) amounts = Inr (parts, st)"
      "length parts = length amounts"
    and sums: "\<forall>k\<le>length amounts. (\<Sum>d\<leftarrow>take k parts. dval d) = converted dp (dval rate) (\<Sum>d\<leftarrow>take k amounts. dval d)"
    using split_fold [OF assms(1,3,2), of "Fin 0 0" amounts 0 "[]"] assms(4) by (auto simp: grid_decs_def)
  have start: "split_step rate cur ([], Fin 0 0, Fin 0 0) d = split_step rate cur ([], Fin 0 0, Fin 0 (- int dp)) d"
    if "is_fin d" "grid10 (dval d)" "\<bar>dval d\<bar> \<le> 10 ^ 15" for d
  proof -
    have "dec_is (dadd (Fin 0 0) d) (dval d)" using dadd_grid [of "Fin 0 0" d] that by simp
    then obtain t where t: "dadd (Fin 0 0) d = Inr t" "is_fin t" "dval t = dval d" by (rule dec_isE)
    have b: "\<bar>dval t\<bar> \<le> 10 ^ 15" using that t(3) by simp
    obtain x m where x: "dmul t rate = Inr x" "round_money x cur = Inr (Fin m (- int dp))" "\<bar>m\<bar> \<le> 10 ^ 27"
      using convert_step [OF assms(1) t(2) assms(3) b assms(2)] by blast
    have "dsub (Fin m (- int dp)) (Fin 0 0) = dsub (Fin m (- int dp)) (Fin 0 (- int dp))"
      by (simp add: dsub_def dadd_def dec_binop_def min_def)
    then show ?thesis by (simp add: split_step_def t(1) x)
  qed
  have "split_to_base amounts rate cur = Inr parts"
  proof (cases amounts)
    case (Cons d ds)
    have "0 \<le> (\<Sum>d\<leftarrow>ds. \<bar>dval d\<bar>)" by (rule sum_list_nonneg) auto
    then have "is_fin d" "grid10 (dval d)" "\<bar>dval d\<bar> \<le> 10 ^ 15"
      using assms(4) Cons by (auto simp: grid_decs_def)
    from start [OF this] show ?thesis using p(1) by (simp add: split_to_base_def Cons)
  qed (use p in \<open>simp add: split_to_base_def\<close>)
  moreover obtain s where s: "dec_sum amounts = Inr s" "is_fin s" "dval s = (\<Sum>d\<leftarrow>amounts. dval d)"
    using dec_sum_grid [OF assms(4)] by (rule dec_isE)
  have "\<bar>\<Sum>d\<leftarrow>amounts. dval d\<bar> \<le> (\<Sum>d\<leftarrow>amounts. \<bar>dval d\<bar>)"
    using sum_list_abs [of "map dval amounts"] by (simp add: comp_def)
  then have "\<bar>dval s\<bar> \<le> 10 ^ 15" using bound s(3) by linarith
  from convert_step [OF assms(1) s(2) assms(3) this assms(2)] obtain x n where
    "dmul s rate = Inr x" "round_money x cur = Inr (Fin n (- int dp))"
    "dval (Fin n (- int dp)) = converted dp (dval rate) (dval s)" by blast
  then have "to_base s rate cur = Inr (PFloat (fl (converted dp (dval rate) (\<Sum>d\<leftarrow>amounts. dval d))))"
    by (simp add: to_base_def to_stored_float_def s(3) del: dval.simps)
  ultimately show ?thesis using p(2) sums s(1) by (intro exI [of _ parts]) (use sums [rule_format, of "length amounts"] in auto)
qed

lemma usd_dp: "currency_dp (PStr ''USD'') = Inr 2"
  by code_simp

lemma jpy_dp: "currency_dp (PStr ''JPY'') = Inr 0"
  by code_simp

lemma p10_neg: "e \<le> 0 \<Longrightarrow> (10::rat) powi e = 1 / 10 ^ nat (- e)"
  by (elim nonpos_int_cases) (simp add: power_int_minus divide_inverse)

lemma grid10_scaled:
  assumes "k \<le> 10"
  shows "grid10 (of_int n / 10 ^ k)"
proof -
  have t: "(10::rat) ^ 10 = 10 ^ k * 10 ^ (10 - k)" using assms by (simp only: power_add [symmetric]) simp
  have "(of_int n / 10 ^ k :: rat) = of_int n * 10 ^ (10 - k) / 10 ^ 10" by (subst t) simp
  also have "\<dots> = of_int (n * 10 ^ (10 - k)) / 10 ^ 10" by (simp only: of_int_mult of_int_power of_int_numeral)
  finally show ?thesis unfolding grid10_def by blast
qed

lemma grid10_Fin: "- 10 \<le> e \<Longrightarrow> e \<le> 0 \<Longrightarrow> grid10 (dval (Fin c e))"
  using grid10_scaled [of "nat (- e)" c] by (simp only: dval.simps p10_neg) simp

lemma round_money_nearest_witness:
  "\<exists>n. round_money (Fin 1005 (- 3)) (PStr ''USD'') = Inr (Fin n (- 2))"
  using round_money_nearest [of "Fin 1005 (- 3)" "PStr ''USD''" 2] usd_dp by (auto simp: power_int_minus)

lemma split_to_base_sums_witness:
  "\<exists>parts. split_to_base [Fin 1005 (- 2), Fin 3333 (- 3)] (Fin 11 (- 1)) (PStr ''USD'') = Inr parts \<and> length parts = 2
     \<and> (\<Sum>d\<leftarrow>parts. dval d) = converted 2 (11/10) (13383 / 1000)"
proof -
  have g: "grid_decs [Fin 1005 (- 2), Fin 3333 (- 3)]"
    using grid10_Fin [of "- 2" 1005] grid10_Fin [of "- 3" 3333] by (simp add: grid_decs_def power_int_minus)
  from split_to_base_sums [OF _ _ usd_dp g, of "Fin 11 (- 1)"] obtain parts where
    "split_to_base [Fin 1005 (- 2), Fin 3333 (- 3)] (Fin 11 (- 1)) (PStr ''USD'') = Inr parts" "length parts = 2"
    "\<forall>k\<le>2. (\<Sum>d\<leftarrow>take k parts. dval d) = converted 2 (11 / 10) (\<Sum>d\<leftarrow>take k [Fin 1005 (- 2), Fin 3333 (- 3)]. dval d)"
    by (auto simp: power_int_minus)
  then show ?thesis by (intro exI [of _ parts]) (auto simp: power_int_minus dest!: spec [of _ 2])
qed

section \<open>The pro-rata split\<close>

text \<open>The exact part of unit count \<open>U\<close> that weight \<open>w\<close> of \<open>W\<close> takes, as the code computes it.\<close>

definition exact_part :: "rat \<Rightarrow> rat \<Rightarrow> rat \<Rightarrow> rat" where
  "exact_part U w W = rnd28 (rnd28 (U * w) / W)"

lemma exact_part_nonneg: "0 \<le> U \<Longrightarrow> 0 \<le> w \<Longrightarrow> 0 < W \<Longrightarrow> 0 \<le> exact_part U w W"
  unfolding exact_part_def by (intro rnd28_nonneg divide_nonneg_pos) auto

lemma exact_part_error:
  assumes "0 \<le> U" "0 \<le> w" "0 < W"
  shows "\<bar>exact_part U w W - U * w / W\<bar> \<le> U * w / W / 10 ^ 26"
proof -
  define x where "x = U * w"
  define a where "a = rnd28 x"
  define y where "y = x / W"
  have x: "0 \<le> x" using assms by (simp add: x_def)
  have y: "0 \<le> y" using x assms(3) by (simp add: y_def)
  have a: "\<bar>a - x\<bar> \<le> x / (2 * 10 ^ 27)" using rnd28_error [of x] x by (simp add: a_def)
  have "\<bar>a / W - y\<bar> = \<bar>a - x\<bar> / W" using assms(3) by (simp add: y_def diff_divide_distrib [symmetric])
  also have "\<dots> \<le> x / (2 * 10 ^ 27) / W" using a assms(3) by (intro divide_right_mono) auto
  finally have 1: "\<bar>a / W - y\<bar> \<le> y / (2 * 10 ^ 27)" by (simp add: y_def)
  have 2: "\<bar>rnd28 (a / W) - a / W\<bar> \<le> \<bar>a / W\<bar> / (2 * 10 ^ 27)" by (rule rnd28_error)
  define z where "z = a / W"
  have "y / (2 * 10 ^ 27) \<le> y" using y by simp
  then have "\<bar>z\<bar> \<le> 2 * y" using 1 y unfolding z_def [symmetric] by linarith
  then have "\<bar>a / W\<bar> \<le> 2 * y" by (simp only: z_def)
  then have "\<bar>a / W\<bar> / (2 * 10 ^ 27) \<le> y / 10 ^ 27" by simp
  moreover have "y / (2 * 10 ^ 27) + y / 10 ^ 27 \<le> y / 10 ^ 26" using y by simp
  ultimately have "\<bar>rnd28 (a / W) - y\<bar> \<le> y / 10 ^ 26" using 1 2 by linarith
  then show ?thesis by (simp add: exact_part_def a_def x_def y_def)
qed

lemma fracs_bound:
  fixes xs :: "rat list"
  defines "p \<equiv> length (filter (\<lambda>x. of_int \<lfloor>x\<rfloor> \<noteq> x) xs)"
  shows "0 \<le> (\<Sum>x\<leftarrow>xs. x - of_int \<lfloor>x\<rfloor>)" "p = 0 \<Longrightarrow> (\<Sum>x\<leftarrow>xs. x - of_int \<lfloor>x\<rfloor>) = 0"
    "0 < p \<Longrightarrow> (\<Sum>x\<leftarrow>xs. x - of_int \<lfloor>x\<rfloor>) < of_nat p"
proof -
  show "0 \<le> (\<Sum>x\<leftarrow>xs. x - of_int \<lfloor>x\<rfloor>)" by (rule sum_list_nonneg) auto
  have "(p = 0 \<longrightarrow> (\<Sum>x\<leftarrow>xs. x - of_int \<lfloor>x\<rfloor>) = 0) \<and> (0 < p \<longrightarrow> (\<Sum>x\<leftarrow>xs. x - of_int \<lfloor>x\<rfloor>) < of_nat p)"
    unfolding p_def
  proof (induction xs)
    case (Cons x xs)
    have "x - of_int \<lfloor>x\<rfloor> < 1" by linarith
    then show ?case using Cons by (cases "filter (\<lambda>x. of_int \<lfloor>x\<rfloor> \<noteq> x) xs") auto
  qed simp
  then show "p = 0 \<Longrightarrow> (\<Sum>x\<leftarrow>xs. x - of_int \<lfloor>x\<rfloor>) = 0" "0 < p \<Longrightarrow> (\<Sum>x\<leftarrow>xs. x - of_int \<lfloor>x\<rfloor>) < of_nat p"
    by auto
qed

lemma leftover_bounds:
  fixes xs :: "rat list"
  assumes "\<bar>sum_list xs - of_int U\<bar> < 1"
  shows "0 \<le> U - (\<Sum>x\<leftarrow>xs. \<lfloor>x\<rfloor>)" "U - (\<Sum>x\<leftarrow>xs. \<lfloor>x\<rfloor>) \<le> int (length (filter (\<lambda>x. of_int \<lfloor>x\<rfloor> \<noteq> x) xs))"
proof -
  let ?p = "length (filter (\<lambda>x. of_int \<lfloor>x\<rfloor> \<noteq> x) xs)"
  have e: "(\<Sum>x\<leftarrow>xs. x - of_int \<lfloor>x\<rfloor>) = sum_list xs - of_int (\<Sum>x\<leftarrow>xs. \<lfloor>x\<rfloor>)"
    by (induction xs) auto
  note f = fracs_bound [of xs, unfolded e]
  have "of_int (U - (\<Sum>x\<leftarrow>xs. \<lfloor>x\<rfloor>)) > (- 1 :: rat)" using assms f(1) unfolding of_int_diff by linarith
  then show "0 \<le> U - (\<Sum>x\<leftarrow>xs. \<lfloor>x\<rfloor>)" by linarith
  have "of_int (U - (\<Sum>x\<leftarrow>xs. \<lfloor>x\<rfloor>)) < (1 + of_nat ?p :: rat)"
    using assms f(2,3) unfolding of_int_diff by (cases "?p = 0") (simp, linarith)+
  then have "of_int (U - (\<Sum>x\<leftarrow>xs. \<lfloor>x\<rfloor>)) < (of_int (1 + int ?p) :: rat)" by simp
  then show "U - (\<Sum>x\<leftarrow>xs. \<lfloor>x\<rfloor>) \<le> int ?p" unfolding of_int_less_iff by linarith
qed

lemma take_sorted_first:
  assumes "sorted (map f xs)" "k \<le> length (filter P xs)" "x \<in> set (take k xs)"
    and down: "\<And>a b. f a \<le> f b \<Longrightarrow> P b \<Longrightarrow> P a"
  shows "P x"
proof (rule ccontr)
  assume x: "\<not> P x"
  from assms(3) obtain j where j: "j < k" "j < length xs" "x = xs ! j" by (auto simp: in_set_conv_nth)
  have "\<not> P y" if "y \<in> set (drop j xs)" for y
  proof -
    from that obtain i where i: "i < length (drop j xs)" "y = drop j xs ! i" by (auto simp: in_set_conv_nth)
    have "f (xs ! j) \<le> f (xs ! (j + i))"
      using sorted_nth_mono [OF assms(1), of j "j + i"] i(1) j(2) by simp
    then show ?thesis using down x i j by auto
  qed
  then have "filter P (drop j xs) = []" by (simp add: filter_empty_conv)
  then have "filter P xs = filter P (take j xs)" using filter_append [of P "take j xs" "drop j xs"] by simp
  moreover have "length (filter P (take j xs)) \<le> j" by (rule order_trans [OF length_filter_le]) simp
  ultimately show False using assms(2) j(1) by simp
qed

lemma sum_list_chosen:
  assumes "set ch \<subseteq> {..<n}" "distinct ch"
  shows "(\<Sum>i\<leftarrow>[0..<n]. g i + (if List.member ch i then 1 else (0::int))) = (\<Sum>i\<leftarrow>[0..<n]. g i) + int (length ch)"
proof -
  have "(\<Sum>i\<leftarrow>[0..<n]. if List.member ch i then 1 else (0::int)) = (\<Sum>i\<in>{0..<n}. if i \<in> set ch then 1 else 0)"
    by (simp add: sum_list_distinct_conv_sum_set)
  also have "\<dots> = int (card ({0..<n} \<inter> set ch))" by (simp add: sum.If_cases)
  also have "{0..<n} \<inter> set ch = set ch" using assms(1) by auto
  also have "int (card (set ch)) = int (length ch)" using assms(2) by (simp add: distinct_card)
  finally show ?thesis by (simp add: sum_list_addf)
qed

lemma dmul_units:
  assumes "\<bar>n\<bar> < 10 ^ 28"
  shows "dmul (Fin n 0) (Fin 1 (- int dp)) = Inr (Fin n (- int dp))"
  using dfix_small [of n "- int dp"] assms by (simp add: dmul_def dec_binop_def del: dfix.simps)

lemma units_of_total:
  assumes "\<bar>m\<bar> \<le> 10 ^ 25"
  shows "rbind (ddiv (Fin m (- int dp)) (Fin 1 (- int dp))) dec_int = Inr m"
proof -
  have "fits28 (of_int m)" using sig_digits_of_scaled [of "of_int m" m 0 28] assms by (simp add: fits28_def)
  then have "rnd28 (of_int m) = of_int m" by (rule rnd28_fits)
  moreover have "dec_is (ddiv (Fin m (- int dp)) (Fin 1 (- int dp))) (rnd28 (of_int m))"
    using ddiv_val [of "Fin m (- int dp)" "Fin 1 (- int dp)"] by simp
  ultimately show ?thesis by (auto elim!: dec_isE)
qed

text \<open>The two lists the code computes first: the exact parts and the parts rounded down.\<close>

lemma exact_parts:
  assumes "is_fin W" "0 < dval W" "\<forall>w\<in>set ws. is_fin w \<and> 0 \<le> dval w" "0 \<le> m"
  obtains es where "mapR (\<lambda>w. rbind (dmul (Fin m 0) w) (\<lambda>x. ddiv x W)) ws = Inr es" "length es = length ws"
    "\<forall>e\<in>set es. is_fin e" "map dval es = map (\<lambda>w. exact_part (of_int m) (dval w) (dval W)) ws"
    "mapR dec_int es = Inr (map (\<lambda>w. \<lfloor>exact_part (of_int m) (dval w) (dval W)\<rfloor>) ws)"
proof -
  have one: "dec_is (rbind (dmul (Fin m 0) w) (\<lambda>x. ddiv x W)) (exact_part (of_int m) (dval w) (dval W))" if w: "is_fin w" for w
  proof -
    obtain x where x: "dmul (Fin m 0) w = Inr x" "is_fin x" "dval x = rnd28 (of_int m * dval w)"
      using dmul_val [of "Fin m 0" w] w by (auto elim: dec_isE)
    then show ?thesis using ddiv_val [OF x(2) assms(1)] assms(2) by (simp add: exact_part_def)
  qed
  define f where "f w = (SOME e. rbind (dmul (Fin m 0) w) (\<lambda>x. ddiv x W) = Inr e)" for w
  have f: "rbind (dmul (Fin m 0) w) (\<lambda>x. ddiv x W) = Inr (f w)" "is_fin (f w)"
      "dval (f w) = exact_part (of_int m) (dval w) (dval W)" if "is_fin w" for w
    using one [OF that] by (auto simp: f_def elim: dec_isE)
  show thesis
  proof (rule that [of "map f ws"])
    show "mapR (\<lambda>w. rbind (dmul (Fin m 0) w) (\<lambda>x. ddiv x W)) ws = Inr (map f ws)"
      using assms(3) by (intro mapR_Inr_map f) auto
    show "map dval (map f ws) = map (\<lambda>w. exact_part (of_int m) (dval w) (dval W)) ws"
      using assms(3) f(3) by auto
    have "dec_int (f w) = Inr \<lfloor>exact_part (of_int m) (dval w) (dval W)\<rfloor>" if "w \<in> set ws" for w
      using that assms f exact_part_nonneg [of "of_int m" "dval w" "dval W"] by (simp add: rtrunc_nonneg)
    then show "mapR dec_int (map f ws) = Inr (map (\<lambda>w. \<lfloor>exact_part (of_int m) (dval w) (dval W)\<rfloor>) ws)"
      by (induction ws) auto
  qed (use assms(3) f(2) in auto)
qed

lemma exact_parts_sum:
  assumes "(\<Sum>w\<leftarrow>ws. dval w) = W" "0 < W" "\<forall>w\<in>set ws. 0 \<le> dval w" "0 \<le> m" "m \<le> 10 ^ 25"
  shows "\<bar>(\<Sum>w\<leftarrow>ws. exact_part (of_int m) (dval w) W) - of_int m\<bar> < 1"
proof -
  let ?e = "\<lambda>w. exact_part (of_int m) (dval w) W" and ?t = "\<lambda>w. of_int m * dval w / W"
  have t: "(\<Sum>w\<leftarrow>ws. ?t w) = of_int m"
  proof -
    have "(\<Sum>w\<leftarrow>ws. ?t w) = (\<Sum>w\<leftarrow>ws. of_int m / W * dval w)" by simp
    also have "\<dots> = of_int m / W * (\<Sum>w\<leftarrow>ws. dval w)" by (rule sum_list_const_mult)
    also have "\<dots> = of_int m" using assms(1,2) by simp
    finally show ?thesis .
  qed
  have "\<bar>(\<Sum>w\<leftarrow>ws. ?e w) - (\<Sum>w\<leftarrow>ws. ?t w)\<bar> = \<bar>\<Sum>w\<leftarrow>ws. ?e w - ?t w\<bar>"
    by (simp add: sum_list_subtractf)
  also have "\<dots> \<le> (\<Sum>w\<leftarrow>ws. \<bar>?e w - ?t w\<bar>)"
    using sum_list_abs [of "map (\<lambda>w. ?e w - ?t w) ws"] by (simp add: comp_def)
  also have "\<dots> \<le> (\<Sum>w\<leftarrow>ws. ?t w / 10 ^ 26)"
    using assms by (intro sum_list_mono exact_part_error) auto
  also have "\<dots> = (\<Sum>w\<leftarrow>ws. ?t w * (1 / 10 ^ 26))" by simp
  also have "\<dots> = of_int m / 10 ^ 26" unfolding sum_list_mult_const t by simp
  also have "\<dots> < 1"
  proof -
    have "(of_int m :: rat) \<le> of_int (10 ^ 25)" using assms(5) unfolding of_int_le_iff .
    then show ?thesis by simp
  qed
  finally show ?thesis unfolding t .
qed

lemma length_filter_order: "length (filter P (sort_key f xs)) = length (filter P xs)"
  by (simp add: filter_sort)

lemma insort_key_agree: "\<forall>y\<in>insert x (set ys). f y = g y \<Longrightarrow> insort_key f x ys = insort_key g x ys"
  by (induction ys) auto

lemma sort_key_agree: "\<forall>x\<in>set xs. f x = g x \<Longrightarrow> sort_key f xs = sort_key g xs"
proof (induction xs)
  case (Cons x xs)
  then have "insort_key f x (sort_key g xs) = insort_key g x (sort_key g xs)" by (intro insort_key_agree) auto
  then show ?case using Cons by (simp add: sort_key_simps)
qed (simp add: sort_key_simps)

lemma of_int_sum_list_mult: "(\<Sum>i\<leftarrow>xs. of_int (h i) * (u :: rat)) = of_int (\<Sum>i\<leftarrow>xs. h i) * u"
  by (induction xs) (auto simp: algebra_simps)

lemma elem_le_sum: "\<forall>x\<in>set xs. 0 \<le> (x :: 'a :: linordered_idom) \<Longrightarrow> y \<in> set xs \<Longrightarrow> y \<le> sum_list xs"
proof (induction xs)
  case (Cons x xs)
  have "0 \<le> sum_list xs" using Cons.prems by (intro sum_list_nonneg) auto
  then show ?case using Cons by auto
qed simp

lemma filter_exact_parts:
  assumes "\<forall>i<n. k i < (0::rat) \<longleftrightarrow> of_int \<lfloor>e i\<rfloor> \<noteq> (e i :: rat)"
  shows "length (filter (\<lambda>x. of_int \<lfloor>x\<rfloor> \<noteq> x) (map e [0..<n])) = length (filter (\<lambda>i. k i < 0) [0..<n])"
proof -
  have "filter ((\<lambda>x. of_int \<lfloor>x\<rfloor> \<noteq> x) \<circ> e) [0..<n] = filter (\<lambda>i. k i < 0) [0..<n]"
    using assms by (intro filter_cong) auto
  then show ?thesis by (simp add: filter_map)
qed

text \<open>Who gets one of the units rounding left: as many parts as there are units left, each
  with a fraction of its own cut off.\<close>

lemma chosen_parts:
  fixes e k :: "nat \<Rightarrow> rat" and n :: nat and U :: int
  defines "left \<equiv> U - (\<Sum>i\<leftarrow>[0..<n]. \<lfloor>e i\<rfloor>)"
  assumes keys: "\<forall>i<n. k i < 0 \<longleftrightarrow> of_int \<lfloor>e i\<rfloor> \<noteq> e i"
    and near: "\<bar>(\<Sum>i\<leftarrow>[0..<n]. e i) - of_int U\<bar> < 1"
  shows "0 \<le> left" "length (take (nat left) (sort_key (\<lambda>i. (k i, i)) [0..<n])) = nat left"
    "distinct (take (nat left) (sort_key (\<lambda>i. (k i, i)) [0..<n]))"
    "\<And>i. i \<in> set (take (nat left) (sort_key (\<lambda>i. (k i, i)) [0..<n])) \<Longrightarrow> i < n \<and> of_int \<lfloor>e i\<rfloor> \<noteq> e i"
proof -
  let ?order = "sort_key (\<lambda>i. (k i, i)) [0..<n]"
  have m: "(\<Sum>i\<leftarrow>[0..<n]. e i) = sum_list (map e [0..<n])" "(\<Sum>i\<leftarrow>[0..<n]. \<lfloor>e i\<rfloor>) = (\<Sum>x\<leftarrow>map e [0..<n]. \<lfloor>x\<rfloor>)"
    by (simp_all add: comp_def)
  show l0: "0 \<le> left" unfolding left_def m(2) by (rule leftover_bounds(1)) (use near m(1) in simp)
  have "left \<le> int (length (filter (\<lambda>x. of_int \<lfloor>x\<rfloor> \<noteq> x) (map e [0..<n])))"
    unfolding left_def m(2) by (rule leftover_bounds(2)) (use near m(1) in simp)
  then have l: "nat left \<le> length (filter (\<lambda>i. k i < 0) ?order)"
    unfolding filter_exact_parts [OF keys] length_filter_order by simp
  also have "\<dots> \<le> length ?order" by (rule length_filter_le)
  finally show "length (take (nat left) ?order) = nat left" by simp
  show "distinct (take (nat left) ?order)" by (rule distinct_take) simp
  fix i assume i: "i \<in> set (take (nat left) ?order)"
  then have "i < n" using set_take_subset by fastforce
  moreover have "k i < 0"
    by (rule take_sorted_first [of "\<lambda>i. (k i, i)" ?order _ "\<lambda>i. k i < 0", OF _ l i]) (auto simp: less_eq_prod_def)
  ultimately show "i < n \<and> of_int \<lfloor>e i\<rfloor> \<noteq> e i" using keys by simp
qed

lemma allocate_units_spec:
  assumes ws: "grid_decs ws" "\<forall>w\<in>set ws. 0 \<le> dval w" "0 < (\<Sum>w\<leftarrow>ws. dval w)" and m: "0 \<le> m" "m \<le> 10 ^ 25"
  defines "e \<equiv> \<lambda>i. exact_part (of_int m) (dval (ws ! i)) (\<Sum>w\<leftarrow>ws. dval w)"
  shows "\<exists>g. allocate_units (Fin m (- int dp)) ws dp = Inr (map (\<lambda>i. Fin (g i) (- int dp)) [0..<length ws])
           \<and> (\<Sum>i\<leftarrow>[0..<length ws]. g i) = m
           \<and> (\<forall>i<length ws. 0 \<le> g i \<and> g i \<le> m \<and> (g i = \<lfloor>e i\<rfloor> \<or> g i = \<lfloor>e i\<rfloor> + 1 \<and> of_int \<lfloor>e i\<rfloor> \<noteq> e i))"
proof -
  let ?n = "length ws"
  obtain W where W: "dec_sum ws = Inr W" "is_fin W" "dval W = (\<Sum>w\<leftarrow>ws. dval w)"
    using dec_sum_grid [OF ws(1)] by (rule dec_isE)
  have fin: "\<forall>w\<in>set ws. is_fin w \<and> 0 \<le> dval w" using ws by (auto simp: grid_decs_def)
  obtain es where es: "mapR (\<lambda>w. rbind (dmul (Fin m 0) w) (\<lambda>x. ddiv x W)) ws = Inr es" "length es = ?n"
      "\<forall>e\<in>set es. is_fin e" "map dval es = map (\<lambda>w. exact_part (of_int m) (dval w) (dval W)) ws"
      "mapR dec_int es = Inr (map (\<lambda>w. \<lfloor>exact_part (of_int m) (dval w) (dval W)\<rfloor>) ws)"
    by (rule exact_parts [OF W(2) _ fin m(1)]) (use W ws in simp)
  have map_e: "map (\<lambda>w. exact_part (of_int m) (dval w) (dval W)) ws = map e [0..<?n]"
    by (rule nth_equalityI) (simp_all add: e_def W)
  have floors: "map (\<lambda>w. \<lfloor>exact_part (of_int m) (dval w) (dval W)\<rfloor>) ws = map (\<lambda>i. \<lfloor>e i\<rfloor>) [0..<?n]"
    by (rule nth_equalityI) (simp_all add: e_def W)
  have e_i: "dval (es ! i) = e i" "is_fin (es ! i)" if i: "i < ?n" for i
  proof -
    have "map dval es ! i = map e [0..<?n] ! i" using es(4) map_e by (rule arg_cong [OF trans])
    then show "dval (es ! i) = e i" using i es(2) by (simp add: nth_map)
    show "is_fin (es ! i)" using i es(2,3) by simp
  qed
  define key where "key i = (SOME d. dsub (Fin \<lfloor>e i\<rfloor> 0) (es ! i) = Inr d)" for i
  have key: "dsub (Fin \<lfloor>e i\<rfloor> 0) (es ! i) = Inr (key i)" "dval (key i) = rnd28 (of_int \<lfloor>e i\<rfloor> - e i)" if "i < ?n" for i
    using dsub_val [of "Fin \<lfloor>e i\<rfloor> 0" "es ! i"] e_i [OF that] by (auto simp: key_def elim: dec_isE)
  have keys: "mapR (\<lambda>i. dsub (Fin (map (\<lambda>i. \<lfloor>e i\<rfloor>) [0..<?n] ! i) 0) (es ! i)) [0..<?n] = Inr (map key [0..<?n])"
    using key(1) by (intro mapR_Inr_map) auto
  have neg: "\<forall>i<?n. dval (key i) < 0 \<longleftrightarrow> of_int \<lfloor>e i\<rfloor> \<noteq> e i"
  proof (intro allI impI)
    fix i assume "i < ?n"
    show "dval (key i) < 0 \<longleftrightarrow> of_int \<lfloor>e i\<rfloor> \<noteq> e i"
      unfolding key(2) [OF \<open>i < ?n\<close>] rnd28_sign using of_int_floor_le [of "e i"] by linarith
  qed
  have near: "\<bar>(\<Sum>i\<leftarrow>[0..<?n]. e i) - of_int m\<bar> < 1"
    using exact_parts_sum [of ws "dval W" m] W(3) ws m map_e by simp
  define order where "order = sort_key (\<lambda>i. (dval (key i), i)) [0..<?n]"
  define left where "left = m - (\<Sum>i\<leftarrow>[0..<?n]. \<lfloor>e i\<rfloor>)"
  define chosen where "chosen = take (nat left) order"
  define whole where "whole i = \<lfloor>e i\<rfloor> + (if List.member chosen i then 1 else 0)" for i
  note ch = chosen_parts [where k = "\<lambda>i. dval (key i)", OF neg near, folded order_def left_def, folded chosen_def]
  have order: "sort_key (\<lambda>i. (dval (map key [0..<?n] ! i), i)) [0..<?n] = order"
    unfolding order_def by (rule sort_key_agree) auto
  have sum: "(\<Sum>i\<leftarrow>[0..<?n]. whole i) = m"
    using sum_list_chosen [of chosen ?n "\<lambda>i. \<lfloor>e i\<rfloor>"] ch unfolding whole_def left_def by auto
  have nonneg: "0 \<le> e i" if "i < ?n" for i
    unfolding e_def using that ws m by (intro exact_part_nonneg) auto
  have range: "0 \<le> whole i \<and> whole i \<le> m" if "i < ?n" for i
  proof -
    have "\<forall>x\<in>set (map whole [0..<?n]). 0 \<le> x" using nonneg by (auto simp: whole_def)
    then show "0 \<le> whole i \<and> whole i \<le> m"
      using elem_le_sum [of "map whole [0..<?n]" "whole i"] sum that by auto
  qed
  have small: "\<bar>whole i\<bar> < 10 ^ 28" if "i < ?n" for i
    using range [OF that] m(2) by simp
  have out: "mapR (\<lambda>n. dmul (Fin n 0) (Fin 1 (- int dp))) (map whole [0..<?n]) = Inr (map (\<lambda>n. Fin n (- int dp)) (map whole [0..<?n]))"
    by (rule mapR_Inr_map) (use small dmul_units in auto)
  have m25: "\<bar>m\<bar> \<le> 10 ^ 25" using m by simp
  have pick: "(if 0 \<le> left then take (nat left) order else take (length order - nat (- left)) order) = chosen"
    using ch(1) by (simp add: chosen_def)
  have add: "map (\<lambda>i. map (\<lambda>i. \<lfloor>e i\<rfloor>) [0..<?n] ! i + (if List.member chosen i then 1 else 0)) [0..<?n] = map whole [0..<?n]"
    by (rule map_cong) (auto simp: whole_def)
  have "allocate_units (Fin m (- int dp)) ws dp
      = mapR (\<lambda>n. dmul (Fin n 0) (Fin 1 (- int dp))) (map whole [0..<?n])"
    unfolding allocate_units_def Let_def W(1) rbind_Inr units_of_total [OF m25] es(1) es(5) floors keys order
      left_def [symmetric] pick add ..
  then have "allocate_units (Fin m (- int dp)) ws dp = Inr (map (\<lambda>i. Fin (whole i) (- int dp)) [0..<?n])"
    unfolding out by simp
  moreover have "whole i = \<lfloor>e i\<rfloor> \<or> whole i = \<lfloor>e i\<rfloor> + 1 \<and> of_int \<lfloor>e i\<rfloor> \<noteq> e i" if "i < ?n" for i
    using ch(4) [of i] by (simp add: whole_def)
  ultimately show ?thesis using sum range by (intro exI [of _ whole]) blast
qed

lemma unit_part_near:
  assumes "0 \<le> m" "m \<le> 10 ^ 25" "0 \<le> w" "w \<le> W" "0 < W"
    and "g = \<lfloor>exact_part (of_int m) w W\<rfloor>
         \<or> g = \<lfloor>exact_part (of_int m) w W\<rfloor> + 1 \<and> of_int \<lfloor>exact_part (of_int m) w W\<rfloor> \<noteq> exact_part (of_int m) w W"
  shows "\<bar>of_int g - of_int m * w / W\<bar> \<le> 11 / 10" "w = 0 \<Longrightarrow> g = 0"
proof -
  let ?e = "exact_part (of_int m) w W" and ?t = "of_int m * w / W"
  have "of_int m * w / W \<le> of_int m * W / W" using assms by (intro divide_right_mono mult_left_mono) auto
  also have "\<dots> \<le> 10 ^ 25"
  proof -
    have "(of_int m :: rat) \<le> of_int (10 ^ 25)" using assms(2) unfolding of_int_le_iff .
    then show ?thesis using assms(5) by simp
  qed
  finally have "?t / 10 ^ 26 \<le> 10 ^ 25 / 10 ^ 26" by (rule divide_right_mono) simp
  then have "?t / 10 ^ 26 \<le> 1 / 10" by (rule order_trans) simp
  moreover have "\<bar>?e - ?t\<bar> \<le> ?t / 10 ^ 26" using assms by (intro exact_part_error) auto
  ultimately have "\<bar>?e - ?t\<bar> \<le> 1 / 10" by linarith
  moreover have "\<bar>of_int g - ?e\<bar> \<le> 1" using assms(6) by (elim disjE conjE) (simp_all, linarith+)
  ultimately show "\<bar>of_int g - ?t\<bar> \<le> 11 / 10" by linarith
  show "g = 0" if "w = 0" using assms(6) that by (simp add: exact_part_def)
qed

lemma p10_not_neg [simp]: "\<not> (10::rat) powi e < 0"
  using p10_pos [of e] by (simp only: not_less less_imp_le)

lemma dneg_unit: "\<bar>n\<bar> \<le> 10 ^ 25 \<Longrightarrow> dneg (Fin n e) = Inr (Fin (- n) e)"
  using dfix_small [of "- n" e] by (simp add: dneg_def del: dfix.simps)

text \<open>The split of a rounded total, of either sign.\<close>

lemma allocate_signed:
  assumes "is_fin amount" "\<bar>dval amount\<bar> \<le> 10 ^ 20" "currency_dp cur = Inr dp"
    and ws: "grid_decs ws" "\<forall>w\<in>set ws. 0 \<le> dval w" "0 < (\<Sum>w\<leftarrow>ws. dval w)"
  defines "m \<equiv> rhu (dval amount * 10 powi int dp)"
  shows "\<exists>h. allocate_pro_rata amount ws cur = Inr (map (\<lambda>i. Fin (h i) (- int dp)) [0..<length ws])
           \<and> (\<Sum>i\<leftarrow>[0..<length ws]. h i) = m
           \<and> (\<forall>i<length ws. (dval (ws ! i) = 0 \<longrightarrow> h i = 0)
                \<and> \<bar>of_int (h i) - of_int m * dval (ws ! i) / (\<Sum>w\<leftarrow>ws. dval w)\<bar> \<le> 11 / 10)"
proof -
  let ?n = "length ws" and ?W = "\<Sum>w\<leftarrow>ws. dval w"
  have "\<bar>m\<bar> \<le> 10 ^ (20 + 4)"
    unfolding m_def by (rule scaled_small [OF currency_dp_le [OF assms(3)] assms(2)])
  then have m25: "\<bar>m\<bar> \<le> 10 ^ 25" by simp
  have rm: "round_money amount cur = Inr (Fin m (- int dp))"
    unfolding m_def by (rule round_money_fin [OF assms(1,3)]) (use m25 m_def in simp)
  have le: "dval (ws ! i) \<le> ?W" "0 \<le> dval (ws ! i)" if "i < ?n" for i
    using elem_le_sum [of "map dval ws" "dval (ws ! i)"] ws(2) that by auto
  define s :: int where "s = (if m < 0 then - 1 else 1)"
  obtain g where g: "allocate_units (Fin \<bar>m\<bar> (- int dp)) ws dp = Inr (map (\<lambda>i. Fin (g i) (- int dp)) [0..<?n])"
      "(\<Sum>i\<leftarrow>[0..<?n]. g i) = \<bar>m\<bar>"
      "\<forall>i<?n. 0 \<le> g i \<and> g i \<le> \<bar>m\<bar> \<and> (g i = \<lfloor>exact_part (of_int \<bar>m\<bar>) (dval (ws ! i)) ?W\<rfloor>
          \<or> g i = \<lfloor>exact_part (of_int \<bar>m\<bar>) (dval (ws ! i)) ?W\<rfloor> + 1
            \<and> of_int \<lfloor>exact_part (of_int \<bar>m\<bar>) (dval (ws ! i)) ?W\<rfloor> \<noteq> exact_part (of_int \<bar>m\<bar>) (dval (ws ! i)) ?W)"
    using allocate_units_spec [OF ws _ m25, of dp] by auto
  have g3: "0 \<le> g i" "g i \<le> \<bar>m\<bar>" if "i < ?n" for i using g(3) that by blast+
  have call: "allocate_pro_rata amount ws cur = Inr (map (\<lambda>i. Fin (s * g i) (- int dp)) [0..<?n])"
  proof (cases "m < 0")
    case True
    have am: "Fin (- m) (- int dp) = Fin \<bar>m\<bar> (- int dp)" using True by simp
    have rm': "round_money (Fin (- m) (- int dp)) cur = Inr (Fin (- m) (- int dp))"
      using round_money_fin [OF _ assms(3), of "Fin (- m) (- int dp)"] rhu_unit [of "- m" dp] m25 by (simp del: dval.simps)
    have "mapR dneg (map (\<lambda>i. Fin (g i) (- int dp)) [0..<?n]) = Inr (map dcopy_neg (map (\<lambda>i. Fin (g i) (- int dp)) [0..<?n]))"
    proof (rule mapR_Inr_map)
      fix x assume "x \<in> set (map (\<lambda>i. Fin (g i) (- int dp)) [0..<?n])"
      then obtain i where i: "i < ?n" "x = Fin (g i) (- int dp)" by auto
      have "\<bar>g i\<bar> \<le> 10 ^ 25" using g3 [OF i(1)] m25 by linarith
      then show "dneg x = Inr (dcopy_neg x)" by (simp only: i(2) dneg_unit dcopy_neg.simps)
    qed
    then show ?thesis
      using rm rm' dneg_unit [OF m25] True g(1) [folded am]
      by (simp add: allocate_pro_rata_def assms(3) s_def mult_less_0_iff comp_def)
  next
    case False
    then show ?thesis using rm g(1) by (simp add: allocate_pro_rata_def assms(3) s_def mult_less_0_iff)
  qed
  have "(\<Sum>i\<leftarrow>[0..<?n]. s * g i) = s * \<bar>m\<bar>" unfolding sum_list_const_mult g(2) ..
  then have "(\<Sum>i\<leftarrow>[0..<?n]. s * g i) = m" by (simp add: s_def)
  moreover have "(dval (ws ! i) = 0 \<longrightarrow> s * g i = 0)
      \<and> \<bar>of_int (s * g i) - of_int m * dval (ws ! i) / ?W\<bar> \<le> 11 / 10" if i: "i < ?n" for i
  proof -
    have gi: "g i = \<lfloor>exact_part (of_int \<bar>m\<bar>) (dval (ws ! i)) ?W\<rfloor>
          \<or> g i = \<lfloor>exact_part (of_int \<bar>m\<bar>) (dval (ws ! i)) ?W\<rfloor> + 1
            \<and> of_int \<lfloor>exact_part (of_int \<bar>m\<bar>) (dval (ws ! i)) ?W\<rfloor> \<noteq> exact_part (of_int \<bar>m\<bar>) (dval (ws ! i)) ?W"
      using g(3) i by blast
    note n = unit_part_near [OF abs_ge_zero m25 le(2) [OF i] le(1) [OF i] ws(3) gi]
    have "of_int (s * g i) - of_int m * dval (ws ! i) / ?W = of_int s * (of_int (g i) - of_int \<bar>m\<bar> * dval (ws ! i) / ?W)"
      by (simp add: s_def)
    then have "\<bar>of_int (s * g i) - of_int m * dval (ws ! i) / ?W\<bar> = \<bar>of_int (g i) - of_int \<bar>m\<bar> * dval (ws ! i) / ?W\<bar>"
      by (simp only: abs_mult) (simp add: s_def)
    then show ?thesis using n by auto
  qed
  ultimately show ?thesis using call by (intro exI [of _ "\<lambda>i. s * g i"]) blast
qed

text \<open>C27: \<open>allocate_pro_rata\<close> returns one share for each weight; the shares add up to the
  rounded amount exactly, whatever rounding leaves; a part of weight 0 takes nothing; and no
  share is off its proportional part by more than 1.1 units of the currency.\<close>

theorem allocate_pro_rata_sums:
  assumes "is_fin amount" "\<bar>dval amount\<bar> \<le> 10 ^ 20" "currency_dp cur = Inr dp"
    and "grid_decs ws" "\<forall>w\<in>set ws. 0 \<le> dval w" "0 < (\<Sum>w\<leftarrow>ws. dval w)"
  shows "\<exists>shares. allocate_pro_rata amount ws cur = Inr shares \<and> length shares = length ws
           \<and> (\<Sum>s\<leftarrow>shares. dval s) = round_places (int dp) (dval amount)
           \<and> (\<forall>i<length ws. (dval (ws ! i) = 0 \<longrightarrow> dval (shares ! i) = 0)
                \<and> \<bar>dval (shares ! i) - round_places (int dp) (dval amount) * dval (ws ! i) / (\<Sum>w\<leftarrow>ws. dval w)\<bar>
                    \<le> 11 / 10 * 10 powi (- int dp))"
proof -
  let ?m = "rhu (dval amount * 10 powi int dp)" and ?u = "10 powi (- int dp) :: rat" and ?W = "\<Sum>w\<leftarrow>ws. dval w"
  from allocate_signed [OF assms] obtain h where h:
    "allocate_pro_rata amount ws cur = Inr (map (\<lambda>i. Fin (h i) (- int dp)) [0..<length ws])"
    "(\<Sum>i\<leftarrow>[0..<length ws]. h i) = ?m"
    "\<forall>i<length ws. (dval (ws ! i) = 0 \<longrightarrow> h i = 0)
                \<and> \<bar>of_int (h i) - of_int ?m * dval (ws ! i) / ?W\<bar> \<le> 11 / 10" by blast
  have "(\<Sum>i\<leftarrow>[0..<length ws]. of_int (h i) * ?u) = of_int (\<Sum>i\<leftarrow>[0..<length ws]. h i) * ?u"
    by (rule of_int_sum_list_mult)
  then have sum: "(\<Sum>s\<leftarrow>map (\<lambda>i. Fin (h i) (- int dp)) [0..<length ws]. dval s) = round_places (int dp) (dval amount)"
    by (simp add: round_places_def h(2) comp_def)
  have "\<bar>of_int (h i) * ?u - round_places (int dp) (dval amount) * dval (ws ! i) / ?W\<bar> \<le> 11 / 10 * ?u" if "i < length ws" for i
  proof -
    have "of_int (h i) * ?u - round_places (int dp) (dval amount) * dval (ws ! i) / ?W
        = (of_int (h i) - of_int ?m * dval (ws ! i) / ?W) * ?u"
      by (simp add: round_places_def left_diff_distrib)
    then have "\<bar>of_int (h i) * ?u - round_places (int dp) (dval amount) * dval (ws ! i) / ?W\<bar>
        = \<bar>of_int (h i) - of_int ?m * dval (ws ! i) / ?W\<bar> * ?u" by (simp add: abs_mult)
    then show ?thesis using h(3) that by (simp add: mult_right_mono)
  qed
  then show ?thesis using h sum by (intro exI [of _ "map (\<lambda>i. Fin (h i) (- int dp)) [0..<length ws]"]) simp
qed

lemma allocate_pro_rata_sums_witness:
  "\<exists>shares. allocate_pro_rata (Fin 1 0) [Fin 1 0, Fin 1 0, Fin 0 0] (PStr ''USD'') = Inr shares
     \<and> (\<Sum>s\<leftarrow>shares. dval s) = round_places 2 1 \<and> dval (shares ! 2) = 0"
proof -
  have "grid_decs [Fin 1 0, Fin 1 0, Fin 0 0]"
    using grid10_Fin [of 0 1] by (simp add: grid_decs_def)
  from allocate_pro_rata_sums [OF _ _ usd_dp this, of "Fin 1 0"] show ?thesis
    by (auto simp: eval_nat_numeral)
qed

section \<open>Shares of a whole that arrives in pieces\<close>

text \<open>The rounded share of everything up to a point.\<close>

definition share_upto :: "dec \<Rightarrow> dec \<Rightarrow> pyval \<Rightarrow> dec \<Rightarrow> dec res" where
  "share_upto tot w cur b = rbind (dmul tot b) (\<lambda>x. rbind (ddiv x w) (\<lambda>q. round_money q cur))"

lemma received_share_upto:
  "received_share tot before after w cur =
     rbind (share_upto tot w cur after) (\<lambda>ra. rbind (share_upto tot w cur before) (\<lambda>rb. dsub ra rb))"
  by (simp add: received_share_def share_upto_def rbind_assoc)

lemma share_upto_val:
  assumes "is_fin tot" "is_fin w" "is_fin b" "currency_dp cur = Inr dp"
    and "\<bar>dval tot\<bar> \<le> 10 ^ 15" "0 < dval w" "0 \<le> dval b" "dval b \<le> dval w"
  shows "\<exists>n. share_upto tot w cur b = Inr (Fin n (- int dp)) \<and> \<bar>n\<bar> \<le> 10 ^ 27
    \<and> dval (Fin n (- int dp)) = round_places (int dp) (rnd28 (rnd28 (dval tot * dval b) / dval w))"
proof -
  obtain x where x: "dmul tot b = Inr x" "is_fin x" "dval x = rnd28 (dval tot * dval b)"
    using dmul_val [OF assms(1,3)] by (rule dec_isE)
  obtain q where q: "ddiv x w = Inr q" "is_fin q" "dval q = rnd28 (dval x / dval w)"
    using ddiv_val [OF x(2) assms(2)] assms(6) by (auto elim: dec_isE)
  have "\<bar>dval x\<bar> \<le> 2 * (\<bar>dval tot\<bar> * dval b)" using rnd28_abs [of "dval tot * dval b"] assms(7) by (simp add: x(3) abs_mult)
  also have "\<dots> \<le> 2 * (10 ^ 15 * dval w)" using assms by (intro mult_left_mono mult_mono) auto
  finally have "\<bar>dval x / dval w\<bar> \<le> 2 * 10 ^ 15" using assms(6) by (simp add: pos_divide_le_eq mult.assoc)
  then have b: "\<bar>dval q\<bar> \<le> 10 ^ 22" using rnd28_abs [of "dval x / dval w"] by (simp add: q(3))
  have "round_money q cur = Inr (Fin (rhu (dval q * 10 powi int dp)) (- int dp))"
    using b by (intro round_money_bounded(1) [OF q(2) assms(4)]) simp
  moreover have "\<bar>rhu (dval q * 10 powi int dp)\<bar> \<le> 10 ^ (22 + 4)"
    by (rule scaled_small [OF currency_dp_le [OF assms(4)] b])
  ultimately show ?thesis using x q by (auto simp: share_upto_def round_places_def)
qed

lemma received_shares_telescope:
  assumes "is_fin tot" "is_fin w" "currency_dp cur = Inr dp" "\<bar>dval tot\<bar> \<le> 10 ^ 15" "0 < dval w"
    and "\<forall>c\<in>set (c0 # cs). is_fin c \<and> 0 \<le> dval c \<and> dval c \<le> dval w"
  defines "R \<equiv> \<lambda>b. round_places (int dp) (rnd28 (rnd28 (dval tot * dval b) / dval w))"
  shows "\<exists>parts. mapR (\<lambda>(b, a). received_share tot b a w cur) (zip (c0 # cs) cs) = Inr parts
           \<and> (\<Sum>p\<leftarrow>parts. dval p) = R (last (c0 # cs)) - R c0"
  using assms(6)
proof (induction cs arbitrary: c0)
  case (Cons c cs)
  obtain parts where parts: "mapR (\<lambda>(b, a). received_share tot b a w cur) (zip (c # cs) cs) = Inr parts"
      "(\<Sum>p\<leftarrow>parts. dval p) = R (last (c # cs)) - R c"
    using Cons.IH [of c] Cons.prems by auto
  obtain n m where nm: "share_upto tot w cur c0 = Inr (Fin n (- int dp))" "\<bar>n\<bar> \<le> 10 ^ 27" "dval (Fin n (- int dp)) = R c0"
      "share_upto tot w cur c = Inr (Fin m (- int dp))" "\<bar>m\<bar> \<le> 10 ^ 27" "dval (Fin m (- int dp)) = R c"
    using share_upto_val [OF assms(1,2) _ assms(3,4,5), of c0] share_upto_val [OF assms(1,2) _ assms(3,4,5), of c] Cons.prems
    unfolding R_def by (metis list.set_intros(1) list.set_intros(2))
  obtain p where "received_share tot c0 c w cur = Inr p" "dval p = R c - R c0"
    using int_diff_exact [OF nm(5,2), of "- int dp"] nm by (auto simp: received_share_upto elim: dec_isE)
  then show ?case using parts by (intro exI [of _ "p # parts"]) simp
qed simp

text \<open>When a whole arrives in pieces, the received shares of an amount over the pieces add
  up to the rounded amount exactly, in whatever number of pieces it arrives.\<close>

theorem received_shares_sum:
  assumes "is_fin tot" "is_fin w" "currency_dp cur = Inr dp" "\<bar>dval tot\<bar> \<le> 10 ^ 15" "0 < dval w"
    and "\<forall>c\<in>set cuts. is_fin c \<and> 0 \<le> dval c \<and> dval c \<le> dval w"
    and "fits28 (dval tot * dval w)" "fits28 (dval tot)"
  shows "\<exists>parts. mapR (\<lambda>(b, a). received_share tot b a w cur) (zip (Fin 0 0 # cuts @ [w]) (cuts @ [w])) = Inr parts
           \<and> (\<Sum>p\<leftarrow>parts. dval p) = round_places (int dp) (dval tot)"
  using received_shares_telescope [OF assms(1-5), of "Fin 0 0" "cuts @ [w]"] assms(2,5-8)
  by (simp add: rnd28_fits)

lemma received_shares_sum_witness:
  "\<exists>parts. mapR (\<lambda>(b, a). received_share (Fin 100 0) b a (Fin 3 0) (PStr ''USD'')) (zip (Fin 0 0 # [Fin 1 0, Fin 2 0] @ [Fin 3 0]) ([Fin 1 0, Fin 2 0] @ [Fin 3 0])) = Inr parts
     \<and> (\<Sum>p\<leftarrow>parts. dval p) = round_places 2 100"
proof -
  have "fits28 100" "fits28 300"
    using sig_digits_of_scaled [of 100 100 0 28] sig_digits_of_scaled [of 300 300 0 28] by (simp_all add: fits28_def)
  then show ?thesis using received_shares_sum [OF _ _ usd_dp, of "Fin 100 0" "Fin 3 0" "[Fin 1 0, Fin 2 0]"] by simp
qed

section \<open>The unit price behind a total\<close>

lemma rate_dp_val: "currency_dp cur = Inr dp \<Longrightarrow> rate_dp cur = Inr (dp + 4)"
  by (simp add: rate_dp_def RATE_EXTRA_DP_def)

lemma p10_unit_le: "(10::rat) powi (- int d) \<le> 1"
  by (simp add: p10_neg)

lemma round_places_near:
  assumes "x = of_int n * 10 powi (- q)" "\<bar>y - x\<bar> < 10 powi (- q) / 2"
  shows "round_places q y = x"
proof -
  have "x * 10 powi q = of_int n" using p10_add [of "- q" q] by (simp add: assms(1) mult.assoc)
  moreover have "\<bar>y * 10 powi q - x * 10 powi q\<bar> = \<bar>y - x\<bar> * 10 powi q" by (simp add: left_diff_distrib [symmetric] abs_mult)
  moreover have "\<bar>y - x\<bar> * 10 powi q < 10 powi (- q) / 2 * 10 powi q"
    by (rule mult_strict_right_mono [OF assms(2)]) simp
  moreover have "10 powi (- q) / 2 * 10 powi q = (1 / 2 :: rat)" using p10_add [of "- q" q] by simp
  ultimately have "\<bar>y * 10 powi q - of_int n\<bar> < 1 / 2" by linarith
  then have "rhu (y * 10 powi q) = n" using rhu_error [of "y * 10 powi q"] by linarith
  then show ?thesis by (simp add: round_places_def assms(1))
qed

text \<open>At the last of the candidates the product with the quantity is nearer to the total
  than half a unit of the currency.\<close>

lemma unit_price_near:
  assumes "dp \<le> 4" "1 / 1000 \<le> \<bar>q\<bar>" "\<bar>q\<bar> \<le> 9999" "\<bar>t\<bar> \<le> (10 ^ 15 :: rat)"
  defines "e \<equiv> rnd28 (t / q)"
  defines "c \<equiv> round_places (int (dp + 4)) e"
  shows "\<bar>rnd28 (c * q) - t\<bar> < 10 powi (- int dp) / 2" "\<bar>e\<bar> \<le> 2 * 10 ^ 18"
proof -
  let ?u = "10 powi (- int dp) :: rat"
  have u: "10 powi (- int (dp + 4)) = ?u / 10 ^ 4" using p10_add [of "- int dp" "- 4"] by (simp add: power_int_minus)
  have u4: "1 / 10 ^ 4 \<le> ?u" using power_increasing [of dp 4 "10::rat"] assms(1) by (simp add: p10_neg frac_le)
  have u1: "?u \<le> 1" by (simp add: p10_neg)
  have q: "q \<noteq> 0" using assms(2) by auto
  have tq: "\<bar>t / q\<bar> * \<bar>q\<bar> = \<bar>t\<bar>" using q by simp
  have "\<bar>t / q\<bar> \<le> 10 ^ 15 / (1 / 1000)" unfolding abs_divide using assms by (intro frac_le) auto
  then have tq18: "\<bar>t / q\<bar> \<le> 10 ^ 18" by simp
  then show e18: "\<bar>e\<bar> \<le> 2 * 10 ^ 18" using rnd28_abs [of "t / q"] by (simp add: e_def)
  have ce: "\<bar>c - e\<bar> \<le> ?u / 10 ^ 4 / 2" using round_places_error [of "int (dp + 4)" e] u by (simp add: c_def)
  have et: "\<bar>e - t / q\<bar> \<le> \<bar>t / q\<bar> / (2 * 10 ^ 27)" unfolding e_def by (rule rnd28_error)
  have "\<bar>c * q - t\<bar> = \<bar>(c - e) * q + (e - t / q) * q\<bar>" using q by (simp add: algebra_simps)
  also have "\<dots> \<le> \<bar>c - e\<bar> * \<bar>q\<bar> + \<bar>e - t / q\<bar> * \<bar>q\<bar>" unfolding abs_mult [symmetric] by (rule abs_triangle_ineq)
  also have "\<dots> \<le> ?u / 10 ^ 4 / 2 * 9999 + \<bar>t / q\<bar> / (2 * 10 ^ 27) * \<bar>q\<bar>"
    using ce et assms(3) by (intro add_mono mult_mono) auto
  also have "\<bar>t / q\<bar> / (2 * 10 ^ 27) * \<bar>q\<bar> = \<bar>t\<bar> / (2 * 10 ^ 27)" using q by simp
  also have "\<dots> \<le> 10 ^ 15 / (2 * 10 ^ 27)" using assms(4) by (intro divide_right_mono) auto
  finally have 1: "\<bar>c * q - t\<bar> \<le> ?u * 9999 / 20000 + 1 / 10 ^ 12" by simp
  have "\<bar>c * q\<bar> \<le> 2 * 10 ^ 15" using 1 u1 assms(4) by simp
  then have 2: "\<bar>rnd28 (c * q) - c * q\<bar> \<le> 1 / 10 ^ 11" using rnd28_error [of "c * q"] by simp
  have "1 / 10 ^ 12 + 1 / 10 ^ 11 < ?u / 20000" using u4 by simp
  then have "\<bar>c * q - t\<bar> + \<bar>rnd28 (c * q) - c * q\<bar> < ?u / 2" using 1 2 by linarith
  then show "\<bar>rnd28 (c * q) - t\<bar> < ?u / 2" by linarith
qed

text \<open>The price the loop looks for: the currency rounds its product with the quantity to the target.\<close>

definition price_hits :: "dec \<Rightarrow> dec \<Rightarrow> pyval \<Rightarrow> rat \<Rightarrow> bool" where
  "price_hits p q cur t \<longleftrightarrow> dec_is (rbind (dmul p q) (\<lambda>x. round_money x cur)) t"

lemma first_exact_price_hits:
  assumes "is_fin e" "is_fin q" "is_fin target" "currency_dp cur = Inr dp" "\<bar>dval e\<bar> \<le> 2 * 10 ^ 18" "\<bar>dval q\<bar> \<le> 9999"
    and "\<forall>d\<in>set ds. d \<le> 8"
  shows "\<exists>r. first_exact_price e q target cur ds = Inr r
    \<and> (case r of Some p \<Rightarrow> is_fin p \<and> price_hits p q cur (dval target)
       | None \<Rightarrow> \<forall>d\<in>set ds. \<exists>p. dquantize e (- int d) = Inr p \<and> \<not> price_hits p q cur (dval target))"
  using assms(7)
proof (induction ds)
  case (Cons d ds)
  have "\<bar>dval e * 10 powi int d\<bar> \<le> 2 * 10 ^ 18 * 10 ^ 8"
    unfolding abs_mult using assms(5) Cons.prems power_increasing [of d 8 "10::rat"] by (intro mult_mono) auto
  then have "\<bar>rhu (dval e * 10 powi int d)\<bar> \<le> 2 * 10 ^ 26" by (intro rhu_small) simp
  then have "\<bar>rhu (dval e * 10 powi int d)\<bar> < 10 ^ prec" by simp
  from dquantize_val [OF assms(1) this] obtain p where p: "dquantize e (- int d) = Inr p" "is_fin p"
    "dval p = round_places (int d) (dval e)" by (auto simp: round_places_def)
  obtain x where x: "dmul p q = Inr x" "is_fin x" "dval x = rnd28 (dval p * dval q)"
    using dmul_val [OF p(2) assms(2)] by (rule dec_isE)
  have "\<bar>dval p - dval e\<bar> \<le> 1"
    using round_places_error [of "int d" "dval e"] p10_unit_le [of d] unfolding p(3) by linarith
  then have "\<bar>dval p\<bar> \<le> 3 * 10 ^ 18" using assms(5) by simp
  then have "\<bar>dval p * dval q\<bar> \<le> 3 * 10 ^ 18 * 9999" unfolding abs_mult using assms(6) by (intro mult_mono) auto
  then have xb: "\<bar>dval x\<bar> \<le> 10 ^ 23" using rnd28_abs [of "dval p * dval q"] by (simp add: x(3))
  obtain m where m: "round_money x cur = Inr m" "is_fin m"
    using round_money_bounded(2) [OF x(2) assms(4) xb] by (rule dec_isE)
  have hit: "price_hits p q cur (dval target) \<longleftrightarrow> dval m = dval target"
    using x(1) m by (simp add: price_hits_def)
  show ?case
  proof (cases "dval m = dval target")
    case True
    then show ?thesis using p x(1) m assms(3) hit by simp
  next
    case False
    from Cons.IH Cons.prems obtain r where "first_exact_price e q target cur ds = Inr r"
      "case r of Some p \<Rightarrow> is_fin p \<and> price_hits p q cur (dval target)
       | None \<Rightarrow> \<forall>d\<in>set ds. \<exists>p. dquantize e (- int d) = Inr p \<and> \<not> price_hits p q cur (dval target)" by auto
    then show ?thesis using p x(1) m assms(3) hit False by (cases r) auto
  qed
qed simp

text \<open>A typed total that is a whole number of minor units is honoured exactly: for a
  quantity within the headroom of a rate, the price \<open>unit_price_from_total\<close> derives gives back
  that total when it is multiplied by the quantity and rounded.\<close>

theorem unit_price_honours_total:
  assumes "is_fin tot" "is_fin q" "currency_dp cur = Inr dp" "\<bar>dval tot\<bar> \<le> 10 ^ 15"
    and "dval tot = of_int n * 10 powi (- int dp)" "1 / 1000 \<le> \<bar>dval q\<bar>" "\<bar>dval q\<bar> \<le> 9999"
  shows "\<exists>p. unit_price_from_total tot q cur = Inr p \<and> price_hits p q cur (dval tot)"
proof -
  have q0: "dval q \<noteq> 0" using assms(6) by auto
  have dp: "dp \<le> 4" by (rule currency_dp_le [OF assms(3)])
  have "\<bar>dval tot\<bar> \<le> 10 ^ 23" using assms(4) by simp
  from round_money_bounded(2) [OF assms(1,3) this] obtain target where
    target: "round_money tot cur = Inr target" "is_fin target" "dval target = dval tot"
    using round_places_exact [OF assms(5)] by (auto elim: dec_isE)
  obtain e where e: "ddiv tot q = Inr e" "is_fin e" "dval e = rnd28 (dval tot / dval q)"
    using ddiv_val [OF assms(1,2) q0] by (rule dec_isE)
  note near = unit_price_near [OF dp assms(6,7,4), folded e(3)]
  obtain r where r: "first_exact_price e q target cur [dp..<dp + 4 + 1] = Inr r"
      "case r of Some p \<Rightarrow> is_fin p \<and> price_hits p q cur (dval tot)
       | None \<Rightarrow> \<forall>d\<in>set [dp..<dp + 4 + 1]. \<exists>p. dquantize e (- int d) = Inr p \<and> \<not> price_hits p q cur (dval tot)"
    using first_exact_price_hits [OF e(2) assms(2) target(2) assms(3) near(2) assms(7), of "[dp..<dp + 4 + 1]", unfolded target(3)] dp by fastforce
  have "r \<noteq> None"
  proof
    assume "r = None"
    then obtain p where p: "dquantize e (- int (dp + 4)) = Inr p" "\<not> price_hits p q cur (dval tot)"
      using r(2) by (auto dest!: bspec [of _ _ "dp + 4"])
    have pv: "is_fin p" "dval p = round_places (int (dp + 4)) (dval e)" using dquantize_Inr [OF e(2) p(1)] by auto
    obtain x where x: "dmul p q = Inr x" "is_fin x" "dval x = rnd28 (dval p * dval q)"
      using dmul_val [OF pv(1) assms(2)] by (rule dec_isE)
    have d: "\<bar>dval x - dval tot\<bar> < 10 powi (- int dp) / 2" using near(1) by (simp add: x(3) pv(2))
    have "\<bar>dval x\<bar> \<le> 10 ^ 15 + 1" using d p10_unit_le [of dp] assms(4) by linarith
    then have "\<bar>dval x\<bar> \<le> 10 ^ 23" by simp
    from round_money_bounded(2) [OF x(2) assms(3) this] have "price_hits p q cur (dval tot)"
      using x(1) round_places_near [OF assms(5) d] by (simp add: price_hits_def)
    then show False using p(2) by simp
  qed
  then obtain p where "r = Some p" by blast
  then have "unit_price_from_total tot q cur = Inr p"
    using r(1) target(1) e(1) q0 assms(2,3) by (simp add: unit_price_from_total_def rate_dp_val del: upt_Suc)
  then show ?thesis using r(2) \<open>r = Some p\<close> by auto
qed


lemma unit_price_honours_total_witness:
  "\<exists>p. unit_price_from_total (Fin 590 0) (Fin 386 (- 1)) (PStr ''USD'') = Inr p \<and> price_hits p (Fin 386 (- 1)) (PStr ''USD'') 590"
  using unit_price_honours_total [OF _ _ usd_dp, of "Fin 590 0" "Fin 386 (- 1)" 59000] by (simp add: power_int_minus)

section \<open>Rates\<close>

lemma checked_exchange_rate_Inr:
  assumes "checked_exchange_rate v = Inr r"
  obtains n where "r = Fin n (- 12)" "0 < n"
proof -
  obtain rate where rate: "is_fin rate" "round_exchange_rate rate = Inr r" and nz: "dleq r (Fin 0 0) = Inr False"
    using assms by (auto simp: checked_exchange_rate_def rbind_eq_Inr rtry_def split: sum.splits if_splits)
  then obtain n where n: "r = Fin n (- 12)" using dquantize_Inr(1) [of rate 12 r]
    by (auto simp: round_exchange_rate_def EXCHANGE_RATE_DP_def)
  have "0 < n" using nz by (simp add: n mult_le_0_iff not_le)
  with n show thesis by (rule that)
qed

text \<open>A rate that \<open>checked_exchange_rate\<close> accepts is positive and has twelve decimal places:
  zero, negative and non-finite values never come back as a rate.\<close>

theorem checked_exchange_rate_positive:
  assumes "checked_exchange_rate v = Inr r"
  shows "0 < dval r \<and> (\<exists>n. r = Fin n (- 12))"
proof -
  from assms obtain n where "r = Fin n (- 12)" "0 < n" by (rule checked_exchange_rate_Inr)
  then show ?thesis by simp
qed

lemma checked_exchange_rate_positive_witness:
  "\<exists>n. Fin 35500000000000 (- 12) = Fin n (- 12) \<and> 0 < dval (Fin 35500000000000 (- 12))"
proof -
  have "checked_exchange_rate (PStr ''35.5'') = Inr (Fin 35500000000000 (- 12))" by code_simp
  from checked_exchange_rate_positive [OF this] show ?thesis by simp
qed

text \<open>A number that reads as a decimal from half a unit of the twelfth place up to \<open>10 ^ 15\<close> is
  accepted as a rate and stored rounded to twelve places.\<close>

theorem checked_exchange_rate_accepts:
  assumes "to_decimal v = Inr d" "is_fin d" "1 / (2 * 10 ^ 12) \<le> dval d" "dval d \<le> 10 ^ 15"
  shows "dec_is (checked_exchange_rate v) (round_places 12 (dval d))"
proof -
  have "\<bar>dval d * 10 powi 12\<bar> \<le> of_int (10 ^ 27)" using assms(3,4) by (simp add: abs_mult)
  then have "\<bar>rhu (dval d * 10 powi 12)\<bar> \<le> 10 ^ 27" by (rule rhu_small)
  then have q: "round_exchange_rate d = Inr (Fin (rhu (dval d * 10 powi 12)) (- 12))"
    using dquantize_val [OF assms(2), of 12] by (simp add: round_exchange_rate_def EXCHANGE_RATE_DP_def)
  have "1 / 2 \<le> dval d * 10 powi 12" using assms(3) by simp
  then have "rhu (1 / 2) \<le> rhu (dval d * 10 powi 12)" by (rule rhu_mono)
  moreover have "rhu (1 / 2) = 1" by code_simp
  ultimately have pos: "0 < rhu (dval d * 10 powi 12)" by simp
  have "0 < dval d" using assms(3) by (rule less_le_trans [rotated]) simp
  then show ?thesis
    using assms(1,2) q pos by (simp add: checked_exchange_rate_def round_places_def zero_less_mult_iff not_le)
qed

lemma checked_exchange_rate_accepts_witness:
  "dec_is (checked_exchange_rate (PInt 35)) (round_places 12 35)"
  using checked_exchange_rate_accepts [of "PInt 35" "Fin 35 0"] by (simp add: dec_of_int_def)

text \<open>Beyond sixteen digits before the point a rate is neither stored nor refused as a
  \<open>ValueError\<close>: the quantize of the rounding is invalid and its \<open>ArithmeticError\<close> escapes, from
  \<open>doc_rate\<close> as well.\<close>

theorem exchange_rate_overflow:
  "checked_exchange_rate (PInt (10 ^ 16)) = Inl ArithmeticError
   \<and> doc_rate [(''currency'', PStr ''VND''), (''conversion_rate'', PInt (10 ^ 16))] (PStr ''USD'') = Inl ArithmeticError"
  by code_simp

text \<open>The rate a document converts at is positive, it is exactly 1 on a document in the
  books' currency, and it is unknown only on a foreign document that stores none.\<close>

theorem doc_rate_sound:
  assumes "doc_rate doc base = Inr r"
  defines "b \<equiv> py_upper (py_str (py_or base (PStr [])))"
  defines "c \<equiv> py_upper (py_str (py_or (dget doc ''currency'') (PStr b)))"
  shows "case r of
       None \<Rightarrow> c \<noteq> b \<and> blank (dget doc ''conversion_rate'')
     | Some x \<Rightarrow> is_fin x \<and> 0 < dval x \<and> (c = b \<longrightarrow> dval x = 1)"
proof (cases "blank (dget doc ''conversion_rate'')")
  case True
  then show ?thesis using assms(1) by (auto simp: doc_rate_def Let_def b_def c_def)
next
  case False
  with assms(1) obtain x o1 where x: "checked_exchange_rate (dget doc ''conversion_rate'') = Inr x"
    and o1: "deq x (Fin 1 0) = Inr o1" and r: "r = Some x" "\<not> (c = b \<and> \<not> o1)"
    by (auto simp: doc_rate_def Let_def b_def c_def rbind_eq_Inr rtry_def split: sum.splits if_splits)
  from x obtain n where n: "x = Fin n (- 12)" "0 < n" by (rule checked_exchange_rate_Inr)
  then have "o1 = (dval x = 1)" using o1 by (simp del: dval.simps) (simp add: dval.simps)
  then show ?thesis using r n by auto
qed

lemma doc_rate_sound_witness:
  "\<exists>x. doc_rate [(''currency'', PStr ''EUR''), (''conversion_rate'', PStr ''1.1'')] (PStr ''USD'') = Inr (Some x)
     \<and> is_fin x \<and> 0 < dval x"
proof -
  have "doc_rate [(''currency'', PStr ''EUR''), (''conversion_rate'', PStr ''1.1'')] (PStr ''USD'') = Inr (Some (Fin 1100000000000 (- 12)))"
    by code_simp
  from doc_rate_sound [OF this] this show ?thesis by auto
qed

section \<open>Storage\<close>

text \<open>An amount of at most 15 significant digits is read back from the float it is stored
  as, exactly: storing and reading again loses nothing.\<close>

theorem stored_money_reads_back:
  assumes "is_fin m" "sig_digits 15 (dval m)"
  shows "\<exists>v. to_stored_float m = Inr v \<and> dec_is (to_decimal v) (dval m)"
  using stored_decimal_reads_back [OF assms(2)] assms(1) by (simp add: to_stored_float_def)

lemma stored_money_reads_back_witness:
  "\<exists>v. to_stored_float (Fin 1528497 (- 2)) = Inr v \<and> dec_is (to_decimal v) (1528497 / 100)"
  using stored_money_reads_back [of "Fin 1528497 (- 2)"] sig_digits_of_scaled [of "1528497 / 100" 1528497 2 15]
  by (simp add: power_int_minus)

end
