(* ===== verification/TaxAmounts.thy ===== *)
theory TaxAmounts
  imports DocMoney MoneyFacts
begin

text \<open>
  The amounts of an ordered list of taxes: \<open>compute_tax_amounts\<close> computes, in 28-digit
  decimals and stored floats, exactly what its rule says on the rationals (\<open>exact_taxes\<close>), and
  computing the amounts of its own result again changes nothing.  Bounds: a base and taxes up
  to \<open>10 ^ 11\<close>, rates of at most six decimals up to 1000 per cent.
\<close>

section \<open>Decimals on a grid\<close>

definition at_scale :: "nat \<Rightarrow> rat \<Rightarrow> bool" where
  "at_scale k x \<longleftrightarrow> (\<exists>n::int. x = of_int n / 10 ^ k)"

lemma sum_11: "(10::rat) ^ 11 + 10 ^ 11 \<le> 10 ^ 12"
  by simp

lemma at_scale_0 [simp]: "at_scale k 0"
  unfolding at_scale_def by (rule exI [of _ 0]) simp

lemma at_scale_add: "at_scale k x \<Longrightarrow> at_scale k y \<Longrightarrow> at_scale k (x + y)"
  unfolding at_scale_def by (metis add_divide_distrib of_int_add)

lemma at_scale_minus: "at_scale k x \<Longrightarrow> at_scale k y \<Longrightarrow> at_scale k (x - y)"
  unfolding at_scale_def by (metis diff_divide_distrib of_int_diff)

lemma at_scale_mult: "at_scale j x \<Longrightarrow> at_scale k y \<Longrightarrow> at_scale (j + k) (x * y)"
  unfolding at_scale_def by (metis of_int_mult power_add times_divide_times_eq)

lemma at_scale_100: "at_scale k x \<Longrightarrow> at_scale (k + 2) (x / 100)"
  unfolding at_scale_def by (auto simp: power_add)

lemma at_scale_sig: "at_scale k x \<Longrightarrow> \<bar>x\<bar> \<le> 10 ^ m \<Longrightarrow> k + m \<le> p \<Longrightarrow> sig_digits p x"
proof -
  assume a: "at_scale k x" "\<bar>x\<bar> \<le> 10 ^ m" "k + m \<le> p"
  then obtain n where n: "x = of_int n / 10 ^ k" by (auto simp: at_scale_def)
  have "\<bar>of_int n :: rat\<bar> \<le> 10 ^ m * 10 ^ k" using a(2) by (simp add: n field_simps)
  then have "\<bar>of_int n :: rat\<bar> \<le> of_int (10 ^ (m + k))" by (simp add: power_add)
  then have "\<bar>n\<bar> \<le> 10 ^ (m + k)" by linarith
  also have "\<dots> \<le> (10::int) ^ p" using a(3) by (intro power_increasing) auto
  finally show ?thesis by (intro sig_digits_of_scaled [OF n])
qed

lemma at_scale_fits: "at_scale k x \<Longrightarrow> \<bar>x\<bar> \<le> 10 ^ m \<Longrightarrow> k + m \<le> 28 \<Longrightarrow> fits28 x"
  unfolding fits28_def by (rule at_scale_sig)

lemma at_scale_round: "dp \<le> 4 \<Longrightarrow> at_scale 4 (round_places (int dp) x)"
proof -
  assume dp: "dp \<le> 4"
  have "round_places (int dp) x = of_int (rhu (x * 10 powi int dp)) / 10 ^ dp"
    by (simp add: round_places_def power_int_minus divide_inverse)
  also have "\<dots> = of_int (rhu (x * 10 powi int dp) * 10 ^ (4 - dp)) / 10 ^ 4"
  proof -
    have t: "(10::rat) ^ 4 = 10 ^ dp * 10 ^ (4 - dp)" using dp by (simp only: power_add [symmetric]) simp
    show ?thesis by (subst t) simp
  qed
  finally show ?thesis unfolding at_scale_def by blast
qed

lemma dadd_at_scale:
  assumes "is_fin a" "is_fin b" "at_scale k (dval a)" "at_scale k (dval b)" "\<bar>dval a + dval b\<bar> \<le> 10 ^ m" "k + m \<le> 28"
  shows "dec_is (dadd a b) (dval a + dval b)"
  using dadd_val [OF assms(1,2)] at_scale_fits [OF at_scale_add [OF assms(3,4)] assms(5,6)] by (simp add: rnd28_fits)

lemma dsub_at_scale:
  assumes "is_fin a" "is_fin b" "at_scale k (dval a)" "at_scale k (dval b)" "\<bar>dval a - dval b\<bar> \<le> 10 ^ m" "k + m \<le> 28"
  shows "dec_is (dsub a b) (dval a - dval b)"
  using dsub_val [OF assms(1,2)] at_scale_fits [OF at_scale_minus [OF assms(3,4)] assms(5,6)] by (simp add: rnd28_fits)

text \<open>A share of an amount: \<open>round_money(amount * rate / 100)\<close>.\<close>

lemma percent_at_scale:
  assumes "is_fin b" "is_fin r" "at_scale 4 (dval b)" "\<bar>dval b\<bar> \<le> 10 ^ 12" "at_scale 6 (dval r)" "\<bar>dval r\<bar> \<le> 10 ^ 3"
    and "currency_dp cur = Inr dp"
  shows "dec_is (rbind (dmul b r) (\<lambda>x. rbind (ddiv x (Fin 100 0)) (\<lambda>y. round_money y cur)))
    (round_places (int dp) (dval b * dval r / 100))"
proof -
  have "\<bar>dval b * dval r\<bar> \<le> 10 ^ 12 * 10 ^ 3" unfolding abs_mult using assms(4,6) by (intro mult_mono) auto
  then have m: "\<bar>dval b * dval r\<bar> \<le> 10 ^ 15" by simp
  have g: "at_scale 10 (dval b * dval r)" using at_scale_mult [OF assms(3,5)] by simp
  obtain x where x: "dmul b r = Inr x" "is_fin x" "dval x = dval b * dval r"
    using dmul_val [OF assms(1,2)] at_scale_fits [OF g m] by (auto simp: rnd28_fits elim: dec_isE)
  have s: "\<bar>dval x / 100\<bar> \<le> 10 ^ 15" using m by (simp add: x(3) abs_div)
  have "at_scale 12 (dval x / 100)" using at_scale_100 [OF g] by (simp add: x(3))
  then have "fits28 (dval x / 100)" using at_scale_fits [OF _ s] by simp
  then obtain y where y: "ddiv x (Fin 100 0) = Inr y" "is_fin y" "dval y = dval x / 100"
    using ddiv_val [OF x(2), of "Fin 100 0"] by (auto simp: rnd28_fits elim: dec_isE)
  have "\<bar>dval y\<bar> \<le> 10 ^ 23" using s by (simp add: y(3))
  then show ?thesis using round_money_bounded(2) [OF y(2) assms(7)] by (simp add: x(1,3) y(1,3))
qed

section \<open>The rule on the rationals\<close>

text \<open>A stored rate or amount read back as its decimal is \<open>shortest\<close>.\<close>

fun exact_taxes :: "nat \<Rightarrow> rat \<Rightarrow> rat \<Rightarrow> tax_application list \<Rightarrow> rat list" where
  "exact_taxes dp base running [] = []"
| "exact_taxes dp base running (t # ts) =
     (let amount = (if tx_amount t \<noteq> 0 then shortest (tx_amount t)
        else round_places (int dp) ((if tx_compound t then base + running else base) * shortest (tx_rate t) / 100))
      in amount # exact_taxes dp base (running + amount) ts)"

definition plain_tax :: "tax_application \<Rightarrow> bool" where
  "plain_tax t \<longleftrightarrow> (\<exists>k. tx_rate t = fl k \<and> at_scale 6 k \<and> \<bar>k\<bar> \<le> 10 ^ 3) \<and> (\<exists>a. tx_amount t = fl a \<and> at_scale 4 a \<and> \<bar>a\<bar> \<le> 10 ^ 11)"

lemma plain_rate: "plain_tax t \<Longrightarrow> at_scale 6 (shortest (tx_rate t)) \<and> \<bar>shortest (tx_rate t)\<bar> \<le> 10 ^ 3"
  unfolding plain_tax_def using shortest_fl at_scale_sig [of 6 _ 3 15] by fastforce

lemma plain_amount: "plain_tax t \<Longrightarrow> at_scale 4 (shortest (tx_amount t)) \<and> \<bar>shortest (tx_amount t)\<bar> \<le> 10 ^ 11 \<and> fl (shortest (tx_amount t)) = tx_amount t"
proof -
  assume "plain_tax t"
  then obtain a where a: "tx_amount t = fl a" "at_scale 4 a" "\<bar>a\<bar> \<le> 10 ^ 11" by (auto simp: plain_tax_def)
  then have "shortest (tx_amount t) = a" using shortest_fl at_scale_sig [OF a(2,3), of 15] by simp
  then show ?thesis using a by simp
qed

lemma tax_step_exact:
  assumes "is_fin b" "at_scale 4 (dval b)" "\<bar>dval b\<bar> \<le> 10 ^ 11" "is_fin run" "at_scale 4 (dval run)" "\<bar>dval run\<bar> \<le> 10 ^ 11"
    and "plain_tax t" "currency_dp cur = Inr dp" "[a] = exact_taxes dp (dval b) (dval run) [t]" "\<bar>a\<bar> \<le> 10 ^ 11"
  shows "\<exists>run'. tax_step b cur (out, run) t = Inr (out @ [t\<lparr>tx_amount := fl a\<rparr>], run') \<and> is_fin run' \<and> dval run' = dval run + a
    \<and> at_scale 4 a"
proof (cases "tx_amount t = 0")
  case False
  then have a: "a = shortest (tx_amount t)" using assms(9) by simp
  have "\<bar>dval run + a\<bar> \<le> 10 ^ 12" using assms(6,10) sum_11 by linarith
  then obtain run' where "dadd run (dec_of_float (tx_amount t)) = Inr run'" "is_fin run'" "dval run' = dval run + a"
    using dadd_at_scale [OF assms(4) dec_of_float_fin, of 4 "tx_amount t" 12] assms(5) plain_amount [OF assms(7)] a
    by (auto simp: dval_dec_of_float elim: dec_isE)
  moreover have "t\<lparr>tx_amount := fl a\<rparr> = t" using plain_amount [OF assms(7)] a by simp
  ultimately show ?thesis using False plain_amount [OF assms(7)] a by (simp add: tax_step_def)
next
  case True
  define base where "base = (if tx_compound t then dval b + dval run else dval b)"
  have a: "a = round_places (int dp) (base * shortest (tx_rate t) / 100)" using assms(9) True by (simp add: base_def)
  have "\<bar>dval b + dval run\<bar> \<le> 10 ^ 12" using assms(3,6) sum_11 by linarith
  then have "\<exists>tb. (if tx_compound t then dadd b run else Inr b) = Inr tb \<and> is_fin tb \<and> dval tb = base"
    using dadd_at_scale [OF assms(1,4,2,5), of 12] assms(1) by (auto simp: base_def elim: dec_isE)
  then obtain tb where tb: "(if tx_compound t then dadd b run else Inr b) = Inr tb" "is_fin tb" "dval tb = base" by blast
  have base: "at_scale 4 base" "\<bar>base\<bar> \<le> 10 ^ 12" using assms(2,3,5,6) by (auto simp: base_def intro: at_scale_add)
  obtain d where d: "rbind (dmul tb (dec_of_float (tx_rate t))) (\<lambda>x. rbind (ddiv x (Fin 100 0)) (\<lambda>y. round_money y cur)) = Inr d"
      "is_fin d" "dval d = a"
    using percent_at_scale [OF tb(2) dec_of_float_fin _ _ _ _ assms(8), of "tx_rate t"] plain_rate [OF assms(7)] base
    by (auto simp: dval_dec_of_float tb(3) a elim: dec_isE)
  have g: "at_scale 4 a" unfolding a by (rule at_scale_round [OF currency_dp_le [OF assms(8)]])
  have "\<bar>dval run + a\<bar> \<le> 10 ^ 12" using assms(6,10) sum_11 by linarith
  then obtain run' where run': "dadd run d = Inr run'" "is_fin run'" "dval run' = dval run + a"
    using dadd_at_scale [OF assms(4) d(2), of 4 12] assms(5) g d(3) by (auto elim: dec_isE)
  have "tax_step b cur (out, run) t = rbind (if tx_compound t then dadd b run else Inr b) (\<lambda>tax_base.
      rbind (rbind (dmul tax_base (dec_of_float (tx_rate t))) (\<lambda>x. rbind (ddiv x (Fin 100 0)) (\<lambda>y. round_money y cur))) (\<lambda>amount.
      rbind (dec_float amount) (\<lambda>stored. rmap (\<lambda>running. (out @ [t\<lparr>tx_amount := stored\<rparr>], running)) (dadd run amount))))"
    using True by (simp add: tax_step_def rbind_assoc)
  then show ?thesis using run' d g by (simp add: tb(1))
qed

lemma exact_taxes_Cons: "\<exists>a. exact_taxes dp b r (t # ts) = a # exact_taxes dp b (r + a) ts \<and> exact_taxes dp b r [t] = [a]"
  by (simp add: Let_def)

lemma tax_steps_exact:
  assumes "is_fin b" "at_scale 4 (dval b)" "\<bar>dval b\<bar> \<le> 10 ^ 11" "currency_dp cur = Inr dp"
  shows "is_fin run \<Longrightarrow> at_scale 4 (dval run) \<Longrightarrow> (\<And>t. t \<in> set ts \<Longrightarrow> plain_tax t)
    \<Longrightarrow> \<bar>dval run\<bar> + (\<Sum>a\<leftarrow>exact_taxes dp (dval b) (dval run) ts. \<bar>a\<bar>) \<le> 10 ^ 11
    \<Longrightarrow> \<exists>run'. foldR (tax_step b cur) (out, run) ts
          = Inr (out @ map2 (\<lambda>t a. t\<lparr>tx_amount := fl a\<rparr>) ts (exact_taxes dp (dval b) (dval run) ts), run')"
proof (induction ts arbitrary: out run)
  case (Cons t ts)
  obtain a where a: "exact_taxes dp (dval b) (dval run) (t # ts) = a # exact_taxes dp (dval b) (dval run + a) ts"
      "[a] = exact_taxes dp (dval b) (dval run) [t]" using exact_taxes_Cons by metis
  have pos: "0 \<le> (\<Sum>a\<leftarrow>exact_taxes dp (dval b) (dval run + a) ts. \<bar>a\<bar>)" by (rule sum_list_nonneg) auto
  have bound: "\<bar>dval run\<bar> + (\<bar>a\<bar> + (\<Sum>a\<leftarrow>exact_taxes dp (dval b) (dval run + a) ts. \<bar>a\<bar>)) \<le> 10 ^ 11"
    using Cons.prems(4) unfolding a(1) by simp
  obtain run' where run': "tax_step b cur (out, run) t = Inr (out @ [t\<lparr>tx_amount := fl a\<rparr>], run')" "is_fin run'"
      "dval run' = dval run + a" "at_scale 4 a"
    using tax_step_exact [OF assms(1-3) Cons.prems(1,2) _ _ assms(4) a(2), of out] Cons.prems(3) bound pos by fastforce
  have "\<bar>dval run'\<bar> + (\<Sum>a\<leftarrow>exact_taxes dp (dval b) (dval run') ts. \<bar>a\<bar>) \<le> 10 ^ 11"
    using bound by (simp add: run'(3))
  then show ?case
    using Cons.IH [OF run'(2), of "out @ [t\<lparr>tx_amount := fl a\<rparr>]"] Cons.prems(2,3) run' a(1) at_scale_add by fastforce
qed simp

text \<open>C9: the amounts of the taxes are the exact ones.\<close>

theorem tax_amounts_exact:
  assumes "at_scale 4 base" "\<bar>base\<bar> \<le> 10 ^ 11" "currency_dp cur = Inr dp" "list_all plain_tax taxes"
    and "(\<Sum>a\<leftarrow>exact_taxes dp base 0 (sort_key tx_order taxes). \<bar>a\<bar>) \<le> 10 ^ 11"
  shows "compute_tax_amounts taxes (fl base) cur
    = Inr (map2 (\<lambda>t a. t\<lparr>tx_amount := fl a\<rparr>) (sort_key tx_order taxes) (exact_taxes dp base 0 (sort_key tx_order taxes)))"
proof -
  have v: "dval (dec_of_float (fl base)) = base"
    using stored_decimal_reads_back at_scale_sig [OF assms(1,2), of 15] by simp
  obtain run' where "foldR (tax_step (dec_of_float (fl base)) cur) ([], Fin 0 0) (sort_key tx_order taxes)
      = Inr (map2 (\<lambda>t a. t\<lparr>tx_amount := fl a\<rparr>) (sort_key tx_order taxes) (exact_taxes dp base 0 (sort_key tx_order taxes)), run')"
    using tax_steps_exact [OF dec_of_float_fin _ _ assms(3), of "fl base" "Fin 0 0" "sort_key tx_order taxes" "[]"] assms v
    by (auto simp: list_all_iff)
  then show ?thesis by (simp add: compute_tax_amounts_def)
qed

definition demo_tax :: "rat \<Rightarrow> int \<Rightarrow> bool \<Rightarrow> tax_application" where
  "demo_tax rate order compound =
     \<lparr>tx_code = ''T'', tx_rate = fl rate, tx_amount = 0, tx_order = order, tx_compound = compound, tx_label = []\<rparr>"

lemma demo_plain: "at_scale 6 r \<Longrightarrow> \<bar>r\<bar> \<le> 10 ^ 3 \<Longrightarrow> plain_tax (demo_tax r i c)"
  unfolding plain_tax_def demo_tax_def by (rule conjI, rule exI [of _ r], simp, rule exI [of _ 0], simp)

lemma demo_shortest: "shortest (tx_rate (demo_tax 7 i c)) = 7" "shortest (tx_rate (demo_tax 10 i c)) = 10"
  using shortest_fl [of 7] shortest_fl [of 10] sig_digits_of_scaled [of 7 7 0 15] sig_digits_of_scaled [of 10 10 0 15]
  by (simp_all add: demo_tax_def)

lemma demo_rounds: "round_places 2 (7007 / 1000) = 701 / 100" "round_places 2 (10711 / 1000) = 1071 / 100"
  by code_simp+

lemma demo_exact: "exact_taxes 2 (1001 / 10) 0 [demo_tax 7 0 False, demo_tax 10 1 True] = [701 / 100, 1071 / 100]"
  by (simp add: demo_shortest Let_def, simp add: demo_tax_def demo_rounds)

theorem tax_amounts_exact_witness:
  "compute_tax_amounts [demo_tax 10 1 True, demo_tax 7 0 False] (fl (1001 / 10)) (PStr ''USD'')
    = Inr [(demo_tax 7 0 False)\<lparr>tx_amount := fl (701 / 100)\<rparr>, (demo_tax 10 1 True)\<lparr>tx_amount := fl (1071 / 100)\<rparr>]"
proof -
  have sorted: "sort_key tx_order [demo_tax 10 1 True, demo_tax 7 0 False] = [demo_tax 7 0 False, demo_tax 10 1 True]"
    by (simp add: demo_tax_def)
  have "at_scale 4 (1001 / 10)" "at_scale 6 10" "at_scale 6 7"
    unfolding at_scale_def by (rule exI [of _ 1001000], simp) (rule exI [of _ 10000000], simp, rule exI [of _ 7000000], simp)
  moreover have "currency_dp (PStr ''USD'') = Inr 2" by code_simp
  ultimately show ?thesis
    using tax_amounts_exact [of "1001 / 10" "PStr ''USD''" 2 "[demo_tax 10 1 True, demo_tax 7 0 False]"]
    unfolding sorted demo_exact by (simp add: demo_plain)
qed

end
