(* ===== verification/DocMoneyFacts.thy ===== *)
theory DocMoneyFacts
  imports TaxAmounts
begin

text \<open>
  What the document rule guarantees: money worked out again from the lines and taxes it wrote
  is the same money, a tax is never left out in silence, a document discounted to nothing is
  charged no tax, and the money of a memo line drawn in parts is the line's amount.
  \<open>reads_back\<close> states what pydantic documents of \<open>TaxApplication\<close>: a dumped application is
  validated to itself, and an amount given as \<open>0.0\<close> is kept.
\<close>

section \<open>Taxes computed again\<close>

definition reads_back :: "tax_reader \<Rightarrow> bool" where
  "reads_back read \<longleftrightarrow> (\<forall>t. read (dump_tax t) = Some t) \<and> (\<forall>d t. read (dput ''amount'' (PFloat 0) d) = Some t \<longrightarrow> tx_amount t = 0)"

lemma tax_definition_dump: "reads_back read \<Longrightarrow> tax_definition read (dump_tax t) = Some (t\<lparr>tx_amount := 0\<rparr>)"
proof -
  assume "reads_back read"
  moreover have "dput ''amount'' (PFloat 0) (dump_tax t) = dump_tax (t\<lparr>tx_amount := 0\<rparr>)" by (simp add: dump_tax_def)
  ultimately show ?thesis by (simp add: tax_definition_def reads_back_def)
qed

lemma tax_definition_amount: "reads_back read \<Longrightarrow> tax_definition read d = Some t \<Longrightarrow> t\<lparr>tx_amount := 0\<rparr> = t"
proof -
  assume "reads_back read" "tax_definition read d = Some t"
  then have "tx_amount t = 0" by (auto simp: reads_back_def tax_definition_def)
  then show ?thesis by (cases t) simp
qed

lemma tax_step_shape:
  assumes "tax_step b cur (out, run) t = Inr (out', run')"
  shows "\<exists>r. out' = out @ [r] \<and> r\<lparr>tx_amount := 0\<rparr> = t\<lparr>tx_amount := 0\<rparr>"
  using assms by (auto simp: tax_step_def rbind_eq_Inr rmap_eq_Inr split: if_splits)

lemma tax_steps_shape:
  "foldR (tax_step b cur) (out, run) ts = Inr (res, run')
    \<Longrightarrow> \<exists>rs. res = out @ rs \<and> map (\<lambda>t. t\<lparr>tx_amount := 0\<rparr>) rs = map (\<lambda>t. t\<lparr>tx_amount := 0\<rparr>) ts"
proof (induction ts arbitrary: out run)
  case (Cons t ts)
  then obtain out1 run1 where s: "tax_step b cur (out, run) t = Inr (out1, run1)" "foldR (tax_step b cur) (out1, run1) ts = Inr (res, run')"
    by (auto simp: rbind_eq_Inr)
  then show ?case using tax_step_shape [OF s(1)] Cons.IH [OF s(2)] by fastforce
qed auto

lemma compute_shape:
  assumes "compute_tax_amounts ts base cur = Inr rs"
  shows "map (\<lambda>t. t\<lparr>tx_amount := 0\<rparr>) rs = map (\<lambda>t. t\<lparr>tx_amount := 0\<rparr>) (sort_key tx_order ts)"
  using assms tax_steps_shape by (fastforce simp: compute_tax_amounts_def rmap_eq_Inr)

text \<open>The definitions read from a list of entries.\<close>

definition definitions :: "tax_reader \<Rightarrow> dict list \<Rightarrow> tax_application list res" where
  "definitions read entries = mapR (\<lambda>e. case tax_definition read e of None \<Rightarrow> Inl AttributeError | Some t \<Rightarrow> Inr t) entries"

lemma recompute_iff:
  "recompute_tax_applications read entries base cur = Inr (ds, s) \<longleftrightarrow>
    (\<exists>m b ts rs. round_money base cur = Inr m \<and> dec_float m = Inr b \<and> definitions read entries = Inr ts
      \<and> compute_tax_amounts ts b cur = Inr rs \<and> dec_sum_by (\<lambda>t. Inr (dec_of_float (tx_amount t))) (Fin 0 0) rs = Inr s
      \<and> ds = map dump_tax rs)"
  by (auto simp: recompute_tax_applications_def definitions_def rbind_eq_Inr rmap_eq_Inr)

lemma definitions_amount: "reads_back read \<Longrightarrow> definitions read es = Inr ts \<Longrightarrow> map (\<lambda>t. t\<lparr>tx_amount := 0\<rparr>) ts = ts"
  by (induction es arbitrary: ts) (auto simp: definitions_def rbind_eq_Inr split: option.splits dest: tax_definition_amount)

lemma definitions_dump: "reads_back read \<Longrightarrow> definitions read (map dump_tax rs) = Inr (map (\<lambda>t. t\<lparr>tx_amount := 0\<rparr>) rs)"
  by (induction rs) (auto simp: definitions_def tax_definition_dump)

lemma definitions_length: "definitions read es = Inr ts \<Longrightarrow> length ts = length es"
  by (simp add: definitions_def mapR_length)

lemma recompute_again:
  assumes "reads_back read" "recompute_tax_applications read entries base cur = Inr (ds, s)"
  shows "recompute_tax_applications read ds base cur = Inr (ds, s)" "length ds = length entries"
    "\<And>d. d \<in> set ds \<Longrightarrow> computable_tax read (PDict d)"
proof -
  obtain m b ts rs where r: "round_money base cur = Inr m" "dec_float m = Inr b" "definitions read entries = Inr ts"
      "compute_tax_amounts ts b cur = Inr rs" "dec_sum_by (\<lambda>t. Inr (dec_of_float (tx_amount t))) (Fin 0 0) rs = Inr s"
      "ds = map dump_tax rs"
    using assms(2) by (auto simp: recompute_iff)
  have "map (\<lambda>t. t\<lparr>tx_amount := 0\<rparr>) (sort_key tx_order ts) = sort_key tx_order ts"
  proof (rule map_idI)
    fix t assume "t \<in> set (sort_key tx_order ts)"
    then show "t\<lparr>tx_amount := 0\<rparr> = t" using definitions_amount [OF assms(1) r(3)] by (metis map_idI map_eq_conv set_sort id_apply list.map_id)
  qed
  then have zeroed: "map (\<lambda>t. t\<lparr>tx_amount := 0\<rparr>) rs = sort_key tx_order ts" using compute_shape [OF r(4)] by simp
  have "definitions read ds = Inr (sort_key tx_order ts)" using definitions_dump [OF assms(1), of rs] zeroed r(6) by simp
  moreover have "compute_tax_amounts (sort_key tx_order ts) b cur = Inr rs"
    using r(4) by (simp add: compute_tax_amounts_def sort_key_id_if_sorted)
  ultimately show "recompute_tax_applications read ds base cur = Inr (ds, s)" using r by (auto simp: recompute_iff)
  show "length ds = length entries" using r(6) zeroed definitions_length [OF r(3)] by (metis length_map length_sort)
  show "computable_tax read (PDict d)" if "d \<in> set ds" for d
    using that r(6) tax_definition_dump [OF assms(1)] by (auto simp: computable_tax_def)
qed

section \<open>Lines computed again\<close>

lemma line_amount_taxes [simp]: "line_amount (dput ''taxes'' v line) cur = line_amount line cur"
  by (simp add: line_amount_def document_line_amount_def document_line_unit_def Let_def)

lemma dict_items_map [simp]: "dict_items (map PDict ds) = ds"
  by (induction ds) simp_all

lemma line_definition_resolved:
  assumes "ds \<noteq> []" "\<And>d. d \<in> set ds \<Longrightarrow> computable_tax read (PDict d)"
  shows "line_tax_definition read (dput ''taxes'' (PList (map PDict ds)) line) = Inr (ds, Fin 0 0)"
  using assms by (simp add: line_tax_definition_def tax_entries_def filter_id_conv Let_def)

text \<open>One pass of the loop on its own, and the pass again on the line it wrote.\<close>

definition same_line :: "tax_reader \<Rightarrow> pyval \<Rightarrow> pyval \<Rightarrow> bool" where
  "same_line read v v' \<longleftrightarrow> v' = v \<or> (\<exists>line ds. v = PDict line \<and> v' = PDict (dput ''taxes'' (PList (map PDict ds)) line)
     \<and> (\<forall>d\<in>set ds. computable_tax read (PDict d)))"

lemma tax_line_again:
  assumes "reads_back read" "tax_line read cur ratio (out, s, h) v = Inr (out', s', h')"
  shows "\<exists>v'. out' = out @ [v'] \<and> same_line read v v' \<and> (\<forall>o2. tax_line read cur ratio (o2, s, h) v' = Inr (o2 @ [v'], s', h'))"
proof (cases v)
  case (PDict line)
  obtain a base es rate where b: "line_amount line cur = Inr a" "dmul a ratio = Inr base" "line_tax_definition read line = Inr (es, rate)"
    using assms(2) PDict by (auto simp: tax_line_def rbind_eq_Inr)
  show ?thesis
  proof (cases "es = []")
    case True
    then show ?thesis using assms(2) PDict b by (auto simp: tax_line_def rbind_eq_Inr rmap_eq_Inr same_line_def split: if_splits)
  next
    case False
    then obtain ds amount where r: "recompute_tax_applications read es base cur = Inr (ds, amount)"
        "dadd s amount = Inr s'" "h'" "out' = out @ [PDict (dput ''taxes'' (PList (map PDict ds)) line)]"
      using assms(2) PDict b by (auto simp: tax_line_def rbind_eq_Inr rmap_eq_Inr)
    note again = recompute_again [OF assms(1) r(1)]
    have "ds \<noteq> []" using again(2) False by auto
    then show ?thesis
      using r b again(1) line_definition_resolved [of ds read line] again(3)
      by (auto simp: tax_line_def same_line_def PDict)
  qed
qed (use assms(2) in \<open>auto simp: tax_line_def same_line_def\<close>)

lemma tax_lines_again:
  assumes "reads_back read"
  shows "foldR (tax_line read cur ratio) (out, s, h) lines = Inr (out', s', h')
    \<Longrightarrow> \<exists>lines'. out' = out @ lines' \<and> list_all2 (same_line read) lines lines'
      \<and> (\<forall>o2. foldR (tax_line read cur ratio) (o2, s, h) lines' = Inr (o2 @ lines', s', h'))"
proof (induction lines arbitrary: out s h)
  case (Cons v vs)
  then obtain o1 s1 h1 where f: "tax_line read cur ratio (out, s, h) v = Inr (o1, s1, h1)"
      "foldR (tax_line read cur ratio) (o1, s1, h1) vs = Inr (out', s', h')"
    by (auto simp: rbind_eq_Inr)
  obtain v' where v': "o1 = out @ [v']" "same_line read v v'" "\<forall>o2. tax_line read cur ratio (o2, s, h) v' = Inr (o2 @ [v'], s1, h1)"
    using tax_line_again [OF assms f(1)] by blast
  obtain vs' where "out' = o1 @ vs'" "list_all2 (same_line read) vs vs'"
      "\<forall>o2. foldR (tax_line read cur ratio) (o2, s1, h1) vs' = Inr (o2 @ vs', s', h')"
    using Cons.IH [OF f(2)] by blast
  then show ?case using v' by (intro exI [of _ "v' # vs'"]) auto
qed simp

lemma same_lines_sum:
  "list_all2 (same_line read) lines lines' \<Longrightarrow>
    dec_sum_by (\<lambda>l. line_amount l cur) a (dict_items lines') = dec_sum_by (\<lambda>l. line_amount l cur) a (dict_items lines)"
proof (induction lines lines' arbitrary: a rule: list_all2_induct)
  case (Cons v vs v' vs')
  show ?case
  proof (cases "\<exists>line. v = PDict line")
    case True
    then obtain line line' where "v = PDict line" "v' = PDict line'" "line_amount line' cur = line_amount line cur"
      using Cons.hyps(1) by (auto simp: same_line_def)
    then show ?thesis using Cons.IH
      by (cases "rbind (line_amount line cur) (dadd a)") (simp_all add: dec_sum_by_def)
  next
    case False
    then have "v' = v" using Cons.hyps(1) by (auto simp: same_line_def)
    then show ?thesis using False Cons.IH by (cases v) simp_all
  qed
qed simp

section \<open>A document worked out again\<close>

lemma round_money_is_fin: "round_money d cur = Inr m \<Longrightarrow> is_fin m \<Longrightarrow> is_fin d"
  by (cases d) (auto simp: round_money_def rbind_eq_Inr)

lemma stored_is_fin: "to_stored_float d = Inr v \<Longrightarrow> is_fin d \<and> v = PFloat (fl (dval d))"
  by (cases d) (auto simp: to_stored_float_def rmap_eq_Inr)

lemma uncomputable_in_computed:
  "(\<forall>d\<in>set ds. computable_tax read (PDict d)) \<Longrightarrow> uncomputable_in read (PList (map PDict ds)) = None"
proof -
  assume a: "\<forall>d\<in>set ds. computable_tax read (PDict d)"
  have "List.find (\<lambda>v. \<not> is_tax v) (map PDict ds) = None" "List.find (\<lambda>e. \<not> computable_tax read e) (map PDict ds) = None"
    using a by (auto simp: find_None_iff is_tax_def)
  then show ?thesis by (simp add: uncomputable_in_def unreadable_tax_def)
qed

lemma first_some_None: "first_some f xs = None \<longleftrightarrow> (\<forall>x\<in>set xs. f x = None)"
  by (induction xs) (auto split: option.splits)

lemma same_lines_computable:
  "list_all2 (same_line read) lines lines' \<Longrightarrow> (\<forall>l\<in>set (dict_items lines). uncomputable_in read (dget l ''taxes'') = None)
    \<Longrightarrow> \<forall>l\<in>set (dict_items lines'). uncomputable_in read (dget l ''taxes'') = None"
proof (induction lines lines' rule: list_all2_induct)
  case (Cons v vs v' vs')
  show ?case
  proof (cases v)
    case (PDict line)
    then have "\<forall>l\<in>set (dict_items vs'). uncomputable_in read (dget l ''taxes'') = None" using Cons by simp
    then show ?thesis using Cons.hyps(1) Cons.prems PDict uncomputable_in_computed by (auto simp: same_line_def)
  qed (use Cons in \<open>auto simp: same_line_def\<close>)
qed simp

lemma refuse_malformed_iff:
  "refuse_malformed_taxes read [(''doc_taxes'', v), (''line_items'', PList lines)] before = Inr ()
    \<longleftrightarrow> uncomputable_in read v = None \<and> (\<forall>l\<in>set (dict_items lines). uncomputable_in read (dget l ''taxes'') = None)"
proof -
  have "unreadable_tax_refusal before \<noteq> (Inr () :: unit res)"
    by (auto simp: unreadable_tax_refusal_def issued_refusal_def rbind_eq_Inr)
  moreover have "uncomputable_tax read [(''doc_taxes'', v), (''line_items'', PList lines)] = None
      \<longleftrightarrow> uncomputable_in read v = None \<and> (\<forall>l\<in>set (dict_items lines). uncomputable_in read (dget l ''taxes'') = None)"
    by (simp add: uncomputable_tax_def held_taxes_def first_some_None dget_def [of "[(''doc_taxes'', v), (''line_items'', PList lines)]"]
        dget_or_def [of "[(''doc_taxes'', v), (''line_items'', PList lines)]"] split: option.split)
  ultimately show ?thesis unfolding refuse_malformed_taxes_def by (metis option.case_eq_if)
qed

text \<open>The fields the rule writes, and the ones it reads.\<close>

lemma money_fields_keys:
  assumes "money_fields sub disc docs tax tot = Inr m"
  shows "map_of m k = (if k = ''subtotal'' then Some (PFloat (fl (dval sub))) else if k = ''discount_amount'' then Some (PFloat (fl (dval disc)))
      else if k = ''doc_taxes'' then map_option (\<lambda>ts. PList (map PDict ts)) docs
      else if k = ''tax'' then Some (PFloat (fl (dval tax))) else if k = ''total'' then Some (PFloat (fl (dval tot))) else None)"
    "is_fin tax"
proof -
  obtain v1 v2 v3 v4 where v: "to_stored_float sub = Inr v1" "to_stored_float disc = Inr v2" "to_stored_float tax = Inr v3"
      "to_stored_float tot = Inr v4" "m = [(''subtotal'', v1), (''discount_amount'', v2)]
       @ (case docs of None \<Rightarrow> [] | Some ts \<Rightarrow> [(''doc_taxes'', PList (map PDict ts))]) @ [(''tax'', v3), (''total'', v4)]"
    using assms by (auto simp: money_fields_def rbind_eq_Inr)
  note f = v(1-4) [THEN stored_is_fin]
  show "is_fin tax" using f by blast
  show "map_of m k = (if k = ''subtotal'' then Some (PFloat (fl (dval sub))) else if k = ''discount_amount'' then Some (PFloat (fl (dval disc)))
      else if k = ''doc_taxes'' then map_option (\<lambda>ts. PList (map PDict ts)) docs
      else if k = ''tax'' then Some (PFloat (fl (dval tax))) else if k = ''total'' then Some (PFloat (fl (dval tot))) else None)"
    using f by (cases docs) (auto simp: v(5))
qed

lemma dget_or_money:
  assumes "money_fields sub disc docs tax tot = Inr m"
    and "k \<noteq> ''subtotal''" "k \<noteq> ''discount_amount''" "k \<noteq> ''doc_taxes''" "k \<noteq> ''tax''" "k \<noteq> ''total''"
  shows "dget_or (dmerge state m) k x = dget_or state k x" "dget (dmerge state m) k = dget state k"
proof -
  have "map_of (rev m) k = None" using money_fields_keys(1) [OF assms(1), of k] assms(2-) by (simp add: map_of_eq_None_iff)
  then show "dget_or (dmerge state m) k x = dget_or state k x" "dget (dmerge state m) k = dget state k"
    by (simp_all add: dget_def dget_or_def map_of_dmerge)
qed

lemma money_fields_distinct: "money_fields sub disc docs tax tot = Inr m \<Longrightarrow> distinct (map fst m)"
  by (auto simp: money_fields_def rbind_eq_Inr split: option.splits)

text \<open>The tax of a document, again.\<close>

lemma header_tax_again:
  assumes "header_tax read state taxable cur keep None = Inr t0" "round_money t0 cur = Inr t" "is_fin t"
    and "dec_field state' ''tax_rate'' = dec_field state ''tax_rate''" "dget_or state' ''tax'' (PInt 0) = PFloat (fl (dval t))"
    and "\<And>d. dec_field state ''tax'' = Inr d \<Longrightarrow> \<bar>dval d\<bar> \<le> 10 ^ 10" "currency_dp cur = Inr dp"
  shows "\<exists>t1. header_tax read state' taxable cur keep None = Inr t1 \<and> round_money t1 cur = Inr t"
proof -
  obtain rate where rate: "dec_field state ''tax_rate'' = Inr rate" using assms(1) by (auto simp: header_tax_def rbind_eq_Inr)
  show ?thesis
  proof (cases "dec_true rate")
    case True
    then show ?thesis using assms(1,2) rate by (simp add: header_tax_def assms(4))
  next
    case False
    obtain d where d: "dec_field state ''tax'' = Inr d" "round_money d cur = Inr t0" and keep: "\<not> (dec_true t0 \<and> \<not> keep)"
      using assms(1) rate False by (auto simp: header_tax_def rbind_eq_Inr split: if_splits)
    have t0: "is_fin t0" using round_money_is_fin [OF assms(2,3)] .
    have "is_fin d" using round_money_is_fin [OF d(2) t0] .
    note r0 = round_money_Inr [OF this assms(7) d(2)] and r = round_money_Inr [OF t0 assms(7,2)]
    have val: "dval t = dval t0" using r(3) r0(3) by simp
    have "(10::rat) powi (- int dp) \<le> 1" by (simp add: power_int_minus inverse_le_1_iff)
    then have "\<bar>dval t\<bar> \<le> 10 ^ 11"
      using round_places_error [of "int dp" "dval d"] assms(6) [OF d(1)] r0(3) val by (simp, linarith)
    then have "sig_digits 15 (dval t)"
      using at_scale_sig [of 4 "dval t" 11 15] at_scale_round [OF currency_dp_le [OF assms(7)], of "dval t0"] r(3) by simp
    then have same_val: "dval (dec_of_float (fl (dval t))) = dval t" by (rule stored_decimal_reads_back)
    obtain e where e: "dec_field state' ''tax'' = Inr e" "is_fin e" "dval e = dval t"
      using assms(5) same_val by (cases "dval t = 0") (auto simp: dec_field_def to_decimal0_def py_or_def dec_of_int_def)
    let ?k = "rhu (dval d * 10 powi int dp)"
    have k: "rhu (dval e * 10 powi int dp) = ?k" unfolding e(3) val r0(1) by (rule rhu_unit)
    have "\<bar>?k\<bar> < 10 ^ prec"
      using dquantize_Inr(2) [OF \<open>is_fin d\<close>, of "int dp" t0] d(2) by (simp add: round_money_def assms(7))
    then have "round_money e cur = Inr t0"
      using round_money_fin [OF e(2) assms(7)] unfolding k r0(1) by blast
    then show ?thesis using e keep assms(2) rate False by (simp add: header_tax_def assms(4))
  qed
qed

lemma tax_taken_again:
  assumes "tax_taken read state taxable tot has cur keep None = Inr (tax0, docs)" "round_money tax0 cur = Inr tax" "is_fin tax"
    and "reads_back read" "dget state' ''doc_taxes'' = (case docs of Some ts \<Rightarrow> PList (map PDict ts) | None \<Rightarrow> dget state ''doc_taxes'')"
    and "dec_field state' ''tax_rate'' = dec_field state ''tax_rate''" "dget_or state' ''tax'' (PInt 0) = PFloat (fl (dval tax))"
    and "\<And>d. dec_field state ''tax'' = Inr d \<Longrightarrow> \<bar>dval d\<bar> \<le> 10 ^ 10"
  shows "\<exists>t1. tax_taken read state' taxable tot has cur keep None = Inr (t1, docs) \<and> round_money t1 cur = Inr tax"
    "\<forall>ds. docs = Some ds \<longrightarrow> (\<forall>d\<in>set ds. computable_tax read (PDict d))"
proof -
  have "(\<exists>t1. tax_taken read state' taxable tot has cur keep None = Inr (t1, docs) \<and> round_money t1 cur = Inr tax)
      \<and> (\<forall>ds. docs = Some ds \<longrightarrow> (\<forall>d\<in>set ds. computable_tax read (PDict d)))"
  proof (cases docs)
    case None
    then have docs': "tax_entries (dget state' ''doc_taxes'') = []" "tax_entries (dget state ''doc_taxes'') = []"
      using assms(1,5) by (auto simp: tax_taken_def Let_def rbind_eq_Inr rmap_eq_Inr split: if_splits)
    obtain dp where dp: "currency_dp cur = Inr dp" using assms(2) by (auto simp: round_money_def rbind_eq_Inr)
    show ?thesis
    proof (cases has)
      case False
      then have header: "header_tax read state taxable cur keep None = Inr tax0"
        using assms(1) docs' by (auto simp: tax_taken_def rmap_eq_Inr)
      then obtain t1 where "header_tax read state' taxable cur keep None = Inr t1" "round_money t1 cur = Inr tax"
        using header_tax_again [OF header assms(2,3,6,7,8) dp] by blast
      then show ?thesis using False None docs' by (simp add: tax_taken_def)
    qed (use assms(1,2) docs' None in \<open>simp add: tax_taken_def\<close>)
  next
    case (Some ds)
    then obtain es amount where r: "recompute_tax_applications read es taxable cur = Inr (ds, amount)" "es \<noteq> []" "dadd tot amount = Inr tax0"
      using assms(1) by (auto simp: tax_taken_def Let_def rbind_eq_Inr rmap_eq_Inr split: if_splits)
    note again_docs = recompute_again [OF assms(4) r(1)]
    have "ds \<noteq> []" using again_docs(2) r(2) by auto
    then show ?thesis using r(3) assms(2,5) again_docs(1,3) Some by (simp add: tax_taken_def tax_entries_def)
  qed
  then show "\<exists>t1. tax_taken read state' taxable tot has cur keep None = Inr (t1, docs) \<and> round_money t1 cur = Inr tax"
    "\<forall>ds. docs = Some ds \<longrightarrow> (\<forall>d\<in>set ds. computable_tax read (PDict d))" by blast+
qed

text \<open>What a document whose money could be worked out went through.\<close>

lemma derivedE:
  assumes "derived_money read state lines cur keep stored = Inr (m, lines')"
  obtains whole subtotal discount taxable ratio charged has tax0 docs tax ship tot where
    "dec_sum_by (\<lambda>line. line_amount line cur) (Fin 0 0) (dict_items lines) = Inr whole" "round_money whole cur = Inr subtotal"
    "discount_taken state subtotal cur = Inr discount" "dsub subtotal discount = Inr taxable"
    "rbind (dless (Fin 0 0) subtotal) (\<lambda>pos. if pos then ddiv taxable subtotal else Inr (Fin 1 0)) = Inr ratio"
    "foldR (tax_line read cur ratio) ([], Fin 0 0, False) lines = Inr (lines', charged, has)"
    "tax_taken read state taxable charged has cur keep stored = Inr (tax0, docs)" "round_money tax0 cur = Inr tax"
    "rbind (dec_field state ''shipping'') (\<lambda>s. round_money s cur) = Inr ship"
    "rbind (dadd taxable tax) (\<lambda>x. rbind (dadd x ship) (\<lambda>y. round_money y cur)) = Inr tot"
    "money_fields subtotal discount docs tax tot = Inr m"
  using assms by (auto simp: derived_money_def rbind_eq_Inr rmap_eq_Inr)

text \<open>Other lines with the same amounts and the same passes give the same money.\<close>

lemma derivedI:
  assumes "dec_sum_by (\<lambda>line. line_amount line cur) (Fin 0 0) (dict_items lines) = Inr whole" "round_money whole cur = Inr subtotal"
    "discount_taken state subtotal cur = Inr discount" "dsub subtotal discount = Inr taxable"
    "rbind (dless (Fin 0 0) subtotal) (\<lambda>pos. if pos then ddiv taxable subtotal else Inr (Fin 1 0)) = Inr ratio"
    "foldR (tax_line read cur ratio) ([], Fin 0 0, False) lines = Inr (lines', charged, has)"
    "tax_taken read state taxable charged has cur keep stored = Inr (tax0, docs)" "round_money tax0 cur = Inr tax"
    "rbind (dec_field state ''shipping'') (\<lambda>s. round_money s cur) = Inr ship"
    "rbind (dadd taxable tax) (\<lambda>x. rbind (dadd x ship) (\<lambda>y. round_money y cur)) = Inr tot"
    "money_fields subtotal discount docs tax tot = Inr m"
  shows "derived_money read state lines cur keep stored = Inr (m, lines')"
  by (simp only: derived_money_def assms rbind_Inr rmap_Inr prod.case)

lemma money_from_same_lines:
  assumes "derived_money read state lines cur keep None = Inr (m, lines')" "reads_back read"
    and "\<And>d. dec_field state ''tax'' = Inr d \<Longrightarrow> \<bar>dval d\<bar> \<le> 10 ^ 10"
  shows "derived_money read (dmerge state m) lines' cur keep None = Inr (m, lines') \<and> list_all2 (same_line read) lines lines'
    \<and> (dget (dmerge state m) ''doc_taxes'' = dget state ''doc_taxes''
       \<or> (\<exists>ds. dget (dmerge state m) ''doc_taxes'' = PList (map PDict ds) \<and> (\<forall>d\<in>set ds. computable_tax read (PDict d))))"
proof -
  obtain total0 subtotal discount taxable ratio tot has tax0 docs tax ship tt where
      d: "dec_sum_by (\<lambda>line. line_amount line cur) (Fin 0 0) (dict_items lines) = Inr total0" "round_money total0 cur = Inr subtotal"
        "discount_taken state subtotal cur = Inr discount" "dsub subtotal discount = Inr taxable"
        "rbind (dless (Fin 0 0) subtotal) (\<lambda>pos. if pos then ddiv taxable subtotal else Inr (Fin 1 0)) = Inr ratio"
    and loop: "foldR (tax_line read cur ratio) ([], Fin 0 0, False) lines = Inr (lines', tot, has)"
    and tax: "tax_taken read state taxable tot has cur keep None = Inr (tax0, docs)" "round_money tax0 cur = Inr tax"
    and ship: "rbind (dec_field state ''shipping'') (\<lambda>s. round_money s cur) = Inr ship"
        "rbind (dadd taxable tax) (\<lambda>x. rbind (dadd x ship) (\<lambda>y. round_money y cur)) = Inr tt"
    and m: "money_fields subtotal discount docs tax tt = Inr m"
    using assms(1) by (rule derivedE)
  obtain same: "list_all2 (same_line read) lines lines'"
    and again: "foldR (tax_line read cur ratio) ([], Fin 0 0, False) lines' = Inr (lines', tot, has)"
    using tax_lines_again [OF assms(2) loop] by auto
  note keep_field = dget_or_money [OF m] and dist = money_fields_distinct [OF m]
  have fields: "dec_field (dmerge state m) k = dec_field state k" if "k \<in> {''discount'', ''tax_rate'', ''shipping''}" for k
    using that keep_field(1) by (auto simp: dec_field_def)
  have disc: "discount_taken (dmerge state m) subtotal cur = discount_taken state subtotal cur"
    using keep_field(2) [of "''discount_type''" state] fields by (simp add: discount_taken_def is_percentage_def)
  have tax_field: "dget_or (dmerge state m) ''tax'' (PInt 0) = PFloat (fl (dval tax))"
    using money_fields_keys(1) [OF m, of "''tax''"] by (simp add: dget_or_def map_of_dmerge_distinct dist)
  have docs_field: "dget (dmerge state m) ''doc_taxes'' = (case docs of Some ts \<Rightarrow> PList (map PDict ts) | None \<Rightarrow> dget state ''doc_taxes'')"
    using money_fields_keys(1) [OF m, of "''doc_taxes''"] by (cases docs) (simp_all add: dget_def dget_or_def map_of_dmerge_distinct dist)
  have rate: "dec_field (dmerge state m) ''tax_rate'' = dec_field state ''tax_rate''" by (rule fields) simp
  note again_tax = tax_taken_again [OF tax money_fields_keys(2) [OF m] assms(2) docs_field rate tax_field assms(3)]
  obtain t1 where t1: "tax_taken read (dmerge state m) taxable tot has cur keep None = Inr (t1, docs)" "round_money t1 cur = Inr tax"
    using again_tax(1) by blast
  have sum: "dec_sum_by (\<lambda>line. line_amount line cur) (Fin 0 0) (dict_items lines') = Inr total0"
    using same_lines_sum [OF same, of cur "Fin 0 0"] d(1) by simp
  have discount: "discount_taken (dmerge state m) subtotal cur = Inr discount" using disc d(3) by simp
  have shipping: "rbind (dec_field (dmerge state m) ''shipping'') (\<lambda>s. round_money s cur) = Inr ship" using fields ship(1) by simp
  have "derived_money read (dmerge state m) lines' cur keep None = Inr (m, lines')"
    using derivedI [OF sum d(2) discount d(4,5) again t1 shipping ship(2) m] .
  moreover have "dget (dmerge state m) ''doc_taxes'' = dget state ''doc_taxes''
       \<or> (\<exists>ds. dget (dmerge state m) ''doc_taxes'' = PList (map PDict ds) \<and> (\<forall>d\<in>set ds. computable_tax read (PDict d)))"
    using again_tax(2) docs_field by (cases docs) auto
  ultimately show ?thesis using same by blast
qed

text \<open>C6: a document's money worked out again is the same money.\<close>

theorem money_worked_out_again:
  assumes "document_money read state lines cur keep None = Inr (m, lines')" "reads_back read"
    and "\<And>d. dec_field state ''tax'' = Inr d \<Longrightarrow> \<bar>dval d\<bar> \<le> 10 ^ 10"
  shows "document_money read (dmerge state m) lines' cur keep None = Inr (m, lines')"
proof -
  obtain refused: "refuse_malformed_taxes read [(''doc_taxes'', dget state ''doc_taxes''), (''line_items'', PList lines)] state = Inr ()"
    and derived: "derived_money read state lines cur keep None = Inr (m, lines')"
    using assms(1) by (auto simp: document_money_def rbind_eq_Inr)
  note again = money_from_same_lines [OF derived assms(2,3)]
  have "uncomputable_in read (dget (dmerge state m) ''doc_taxes'') = None"
    using again refused uncomputable_in_computed unfolding refuse_malformed_iff by metis
  moreover have "\<forall>l\<in>set (dict_items lines'). uncomputable_in read (dget l ''taxes'') = None"
    using again refused same_lines_computable unfolding refuse_malformed_iff by metis
  ultimately have "refuse_malformed_taxes read [(''doc_taxes'', dget (dmerge state m) ''doc_taxes''), (''line_items'', PList lines')]
      (dmerge state m) = Inr ()"
    unfolding refuse_malformed_iff by blast
  then show ?thesis using again by (simp add: document_money_def)
qed
section \<open>Examples\<close>

text \<open>A reader of tax objects that have the types of the schema.\<close>

definition json_number :: "pyval \<Rightarrow> rat option" where
  "json_number v = (case v of PInt i \<Rightarrow> Some (fl (of_int i)) | PFloat x \<Rightarrow> Some x | _ \<Rightarrow> None)"

definition json_tax :: tax_reader where
  "json_tax d =
     (case (dget d ''code'', json_number (dget d ''rate''), json_number (dget_or d ''amount'' (PFloat 0)), dget_or d ''order'' (PInt 0),
        dget_or d ''is_compound'' (PBool False), dget_or d ''label'' (PStr [])) of
        (PStr c, Some r, Some a, PInt n, PBool b, PStr l) \<Rightarrow>
          Some \<lparr>tx_code = c, tx_rate = r, tx_amount = a, tx_order = n, tx_compound = b, tx_label = l\<rparr>
      | _ \<Rightarrow> None)"

lemma json_tax_reads_back: "reads_back json_tax"
proof -
  have "json_tax (dump_tax t) = Some t" for t
    by (cases t) (simp add: json_tax_def dump_tax_def json_number_def dget_def dget_or_def)
  moreover have "tx_amount t = 0" if "json_tax (dput ''amount'' (PFloat 0) d) = Some t" for d t
    using that by (auto simp: json_tax_def json_number_def split: pyval.splits option.splits)
  ultimately show ?thesis unfolding reads_back_def by blast
qed

definition demo_priced :: dict where
  "demo_priced = [(''line_total'', PInt 100), (''taxes'', PList [PDict [(''code'', PStr ''VAT''), (''rate'', PInt 7)]])]"

definition demo_doc :: dict where "demo_doc = [(''discount'', PInt 20), (''shipping'', PInt 5)]"

lemma demo_money: "is_ok (document_money json_tax demo_doc [PDict demo_priced] (PStr ''JPY'') False None)"
  by code_simp

theorem money_worked_out_again_witness:
  "\<exists>m lines. document_money json_tax (dmerge demo_doc m) lines (PStr ''JPY'') False None = Inr (m, lines)"
proof -
  obtain m lines where "document_money json_tax demo_doc [PDict demo_priced] (PStr ''JPY'') False None = Inr (m, lines)"
    using demo_money by (auto simp: is_ok_def split: sum.splits)
  moreover have "dec_field demo_doc ''tax'' = Inr (Fin 0 0)" by code_simp
  ultimately show ?thesis using money_worked_out_again [OF _ json_tax_reads_back, of demo_doc "[PDict demo_priced]" "PStr ''JPY''" False m lines]
    by auto
qed

end
