(* ===== verification/DrawFacts.thy ===== *)
theory DrawFacts
  imports DocMoneyFacts
begin

text \<open>
  A memo drawn onto invoices: the draw that brings a line's draws to its whole quantity bills
  the rest of its amount, so what the memo then records as billed for the line is the line's
  amount exactly.  The lines are read as \<open>memo_draws\<close> reads them, before and after the event
  that records the draw.  Bounds: quantities of at most six decimals, amounts up to \<open>10 ^ 11\<close>.
\<close>

section \<open>Exact sums\<close>

lemma dec_sum_by_exact:
  assumes "k + m \<le> 28"
  shows "\<forall>x\<in>set xs. \<exists>d. f x = Inr d \<and> is_fin d \<and> dval d = g x \<and> at_scale k (g x)
    \<Longrightarrow> is_fin s \<Longrightarrow> at_scale k (dval s) \<Longrightarrow> \<bar>dval s\<bar> + (\<Sum>x\<leftarrow>xs. \<bar>g x\<bar>) \<le> 10 ^ m
    \<Longrightarrow> dec_is (dec_sum_by f s xs) (dval s + (\<Sum>x\<leftarrow>xs. g x)) \<and> at_scale k (dval s + (\<Sum>x\<leftarrow>xs. g x))"
proof (induction xs arbitrary: s)
  case (Cons x xs)
  obtain d where d: "f x = Inr d" "is_fin d" "dval d = g x" "at_scale k (g x)" using Cons.prems(1) by auto
  have pos: "0 \<le> (\<Sum>x\<leftarrow>xs. \<bar>g x\<bar>)" by (rule sum_list_nonneg) auto
  have bound: "\<bar>dval s\<bar> + (\<bar>g x\<bar> + (\<Sum>x\<leftarrow>xs. \<bar>g x\<bar>)) \<le> 10 ^ m" using Cons.prems(4) by simp
  then have "\<bar>dval s + dval d\<bar> \<le> 10 ^ m" using pos d(3) by linarith
  then obtain t where t: "dadd s d = Inr t" "is_fin t" "dval t = dval s + g x"
    using dadd_at_scale [OF Cons.prems(2) d(2) Cons.prems(3), of m] d(3,4) assms by (auto elim: dec_isE)
  have "\<bar>dval t\<bar> + (\<Sum>x\<leftarrow>xs. \<bar>g x\<bar>) \<le> 10 ^ m" using bound by (simp add: t(3))
  then have "dec_is (dec_sum_by f t xs) (dval t + (\<Sum>x\<leftarrow>xs. g x)) \<and> at_scale k (dval t + (\<Sum>x\<leftarrow>xs. g x))"
    using Cons.prems(1,3) t d(4) by (intro Cons.IH) (auto intro: at_scale_add)
  then show ?case using d(1) t by (simp add: dec_sum_by_def add.assoc)
qed (simp add: dec_sum_by_def)

section \<open>The draw that closes a line\<close>

definition float_of :: "dict \<Rightarrow> string \<Rightarrow> rat" where
  "float_of d k = (case map_of d k of Some (PFloat x) \<Rightarrow> shortest x | _ \<Rightarrow> 0)"

definition has_float :: "dict \<Rightarrow> string \<Rightarrow> nat \<Rightarrow> bool" where
  "has_float d k n \<longleftrightarrow> (\<exists>x. map_of d k = Some (PFloat x)) \<and> at_scale n (float_of d k)"

text \<open>A line of a take, of a memo line of amount \<open>a\<close>.\<close>

definition recorded_draw :: "rat \<Rightarrow> dict \<Rightarrow> bool" where
  "recorded_draw a d \<longleftrightarrow> has_float d ''quantity'' 6 \<and> has_float d ''memo_amount'' 4
     \<and> has_float d ''memo_line_amount'' 4 \<and> float_of d ''memo_line_amount'' = a"

lemma has_float_dec:
  "has_float d k n \<Longrightarrow> \<exists>x. rbind (dkey d k) to_decimal = Inr x \<and> is_fin x \<and> dval x = float_of d k \<and> at_scale n (float_of d k)"
  by (auto simp: has_float_def float_of_def dkey_def dval_dec_of_float)

definition drawn_before :: "dict list \<Rightarrow> rat" where "drawn_before tls = (\<Sum>d\<leftarrow>tls. float_of d ''quantity'')"
definition billed_before :: "dict list \<Rightarrow> rat" where "billed_before tls = (\<Sum>d\<leftarrow>tls. float_of d ''memo_amount'')"

lemma closing_draw:
  assumes "line_amount ml cur = Inr amount" "is_fin amount" "dval amount = a" "at_scale 4 a"
    and "dec_field ml ''quantity'' = Inr q" "is_fin q" "drawn_before tls + shortest x = dval q" "at_scale 6 (shortest x)"
    and "\<forall>d\<in>set tls. recorded_draw a d"
    and "(\<Sum>d\<leftarrow>tls. \<bar>float_of d ''quantity''\<bar>) + \<bar>shortest x\<bar> \<le> 10 ^ 12"
    and "\<bar>a\<bar> + (\<Sum>d\<leftarrow>tls. \<bar>float_of d ''memo_amount''\<bar>) \<le> 10 ^ 11"
  shows "dec_is (drawn_line_money ml (PFloat x) tls cur) (a - billed_before tls)" "at_scale 4 (a - billed_before tls)"
    "\<bar>a - billed_before tls\<bar> \<le> 10 ^ 11"
proof -
  have qty: "\<forall>d\<in>set tls. \<exists>x. rbind (dkey d ''quantity'') to_decimal = Inr x \<and> is_fin x \<and> dval x = float_of d ''quantity'' \<and> at_scale 6 (float_of d ''quantity'')"
    and bill: "\<forall>d\<in>set tls. \<exists>x. rbind (dkey d ''memo_amount'') to_decimal = Inr x \<and> is_fin x \<and> dval x = float_of d ''memo_amount'' \<and> at_scale 4 (float_of d ''memo_amount'')"
    and whole: "\<forall>d\<in>set tls. \<exists>x. rbind (dkey d ''memo_line_amount'') to_decimal = Inr x \<and> is_fin x \<and> dval x = a"
    using assms(9) has_float_dec unfolding recorded_draw_def by metis+
  obtain taken where t: "dec_sum_by (\<lambda>d. rbind (dkey d ''quantity'') to_decimal) (Fin 0 0) tls = Inr taken" "is_fin taken"
      "dval taken = drawn_before tls" "at_scale 6 (drawn_before tls)"
  proof -
    have "(\<Sum>d\<leftarrow>tls. \<bar>float_of d ''quantity''\<bar>) \<le> 10 ^ 12" using assms(10) by linarith
    then show thesis using that dec_sum_by_exact [OF _ qty, of 12 "Fin 0 0"] by (auto simp: drawn_before_def elim!: dec_isE)
  qed
  have "\<bar>drawn_before tls\<bar> \<le> (\<Sum>d\<leftarrow>tls. \<bar>float_of d ''quantity''\<bar>)"
    unfolding drawn_before_def using sum_list_abs [of "map (\<lambda>d. float_of d ''quantity'') tls"] by (simp add: comp_def)
  then have "\<bar>dval taken + dval (dec_of_float x)\<bar> \<le> 10 ^ 12" using assms(10) by (simp add: t(3) dval_dec_of_float)
  then obtain s where s: "dadd taken (dec_of_float x) = Inr s" "is_fin s" "dval s = dval q"
    using dadd_at_scale [OF t(2) dec_of_float_fin, of 6 x 12] t(3,4) assms(7,8) by (auto simp: dval_dec_of_float elim: dec_isE)
  have same: "anyR (\<lambda>d. rmap Not (rbind (rbind (dkey d ''memo_line_amount'') to_decimal) (\<lambda>a. deq a amount))) tls = Inr False"
    using whole by (induction tls) (auto simp: assms(2,3))
  obtain b where b: "dec_sum_by (\<lambda>d. rbind (dkey d ''memo_amount'') to_decimal) (Fin 0 0) tls = Inr b" "is_fin b"
      "dval b = billed_before tls" "at_scale 4 (billed_before tls)"
  proof -
    have "(\<Sum>d\<leftarrow>tls. \<bar>float_of d ''memo_amount''\<bar>) \<le> 10 ^ 11" using assms(11) by linarith
    then show thesis using that dec_sum_by_exact [OF _ bill, of 11 "Fin 0 0"] by (auto simp: billed_before_def elim!: dec_isE)
  qed
  have "\<bar>billed_before tls\<bar> \<le> (\<Sum>d\<leftarrow>tls. \<bar>float_of d ''memo_amount''\<bar>)"
    unfolding billed_before_def using sum_list_abs [of "map (\<lambda>d. float_of d ''memo_amount'') tls"] by (simp add: comp_def)
  then show bound: "\<bar>a - billed_before tls\<bar> \<le> 10 ^ 11" using assms(11) by linarith
  show "at_scale 4 (a - billed_before tls)" using assms(4) b(4) by (rule at_scale_minus)
  have "dec_is (dsub amount b) (a - billed_before tls)"
    using dsub_at_scale [OF assms(2) b(2), of 4 11] assms(3,4) b(3,4) bound by simp
  then show "dec_is (drawn_line_money ml (PFloat x) tls cur) (a - billed_before tls)"
    by (simp add: drawn_line_money_def assms(1,5,6) t(1) s same b(1))
qed

section \<open>The lines of a memo before and after a draw\<close>

text \<open>The take lines that count of the memo line \<open>L\<close>.\<close>

definition lines_drawn :: "tax_reader \<Rightarrow> dict \<Rightarrow> pyval \<Rightarrow> dict list res" where
  "lines_drawn read memo L = rbind (memo_draws read memo) (\<lambda>takes. rmap concat (mapR (lines_of_take L) takes))"

definition draw_entry :: "dict \<Rightarrow> bool" where
  "draw_entry e \<longleftrightarrow> (\<exists>v. map_of e ''memo_line_id'' = Some v)"

lemma mapR_snoc: "mapR f (xs @ [x]) = rbind (mapR f xs) (\<lambda>ys. rmap (\<lambda>y. ys @ [y]) (f x))"
  by (induction xs) (auto simp: rbind_def rmap_def split: sum.splits)

lemma lines_of_fresh_take:
  assumes "map_of T ''lines'' = Some (PList (map (\<lambda>e. PDict (dput ''returned'' (PBool False) e)) entries))" "list_all draw_entry entries"
  shows "lines_of_take L T = Inr (map (dput ''returned'' (PBool False)) (filter (\<lambda>e. py_eq (dget e ''memo_line_id'') L) entries))"
proof -
  have "mapR (\<lambda>v. rbind (vsub v ''memo_line_id'') (\<lambda>i. Inr (v, py_eq i L))) (map (\<lambda>e. PDict (dput ''returned'' (PBool False) e)) es)
      = Inr (map (\<lambda>e. (PDict (dput ''returned'' (PBool False) e), py_eq (dget e ''memo_line_id'') L)) es)" if "list_all draw_entry es" for es
    using that by (induction es) (auto simp: draw_entry_def vsub_def dkey_def dget_def dget_or_def)
  moreover have "mapR (\<lambda>(v, _). as_dict v) (filter snd (map (\<lambda>e. (PDict (dput ''returned'' (PBool False) e), py_eq (dget e ''memo_line_id'') L)) es))
      = Inr (map (dput ''returned'' (PBool False)) (filter (\<lambda>e. py_eq (dget e ''memo_line_id'') L) es))" for es
    by (induction es) auto
  ultimately show ?thesis using assms by (simp add: lines_of_take_def dkey_def)
qed

lemma open_fresh_take:
  assumes "map_of T ''lines'' = Some (PList (map (\<lambda>e. PDict (dput ''returned'' (PBool False) e)) entries))"
    and "dget T ''released'' = PBool False"
  shows "open_take (PDict T) = Inr (Some (dput ''lines'' (PList (map (\<lambda>e. PDict (dput ''returned'' (PBool False) e)) entries)) T))"
proof -
  have "filter_rows (\<lambda>d. Inr (\<not> truthy (dget d ''returned''))) (map (\<lambda>e. PDict (dput ''returned'' (PBool False) e)) es)
      = Inr (map (\<lambda>e. PDict (dput ''returned'' (PBool False) e)) es)" for es
    by (induction es) (auto simp: filter_rows_def)
  then show ?thesis using assms by (simp add: open_take_def dkey_def)
qed

lemma lines_after_draw:
  assumes "doc_lines_invoiced memo [(''take'', PDict tk)] = Inr memo'" "dget memo ''status'' \<noteq> PStr ''converted''"
    and "map_of tk ''lines'' = Some (PList (map PDict entries))" "list_all draw_entry entries" "lines_drawn read memo L = Inr prior"
  shows "lines_drawn read memo' L
    = Inr (prior @ map (dput ''returned'' (PBool False)) (filter (\<lambda>e. py_eq (dget e ''memo_line_id'') L) entries))"
proof -
  define T where "T = dput ''lines'' (PList (map (\<lambda>e. PDict (dput ''returned'' (PBool False) e)) entries)) (dput ''released'' (PBool False) tk)"
  have "mapR (\<lambda>v. rmap (\<lambda>d. PDict (dput ''returned'' (PBool False) d)) (unpack v)) (map PDict es)
      = Inr (map (\<lambda>e. PDict (dput ''returned'' (PBool False) e)) es)" for es
    by (induction es) (auto simp: unpack_def)
  then obtain vs where vs: "rows_or memo ''invoiced_on'' = Inr vs" and memo': "memo' = dput ''invoiced_on'' (PList (vs @ [PDict T])) memo"
    using assms(1,3) by (auto simp: doc_lines_invoiced_def T_def rbind_eq_Inr dkey_def unpack_def)
  obtain os lss where os: "mapR open_take vs = Inr os" "mapR (lines_of_take L) (List.map_filter id os) = Inr lss" "prior = concat lss"
    using assms(2,5) vs by (auto simp: lines_drawn_def memo_draws_def rbind_eq_Inr rmap_eq_Inr)
  have T: "map_of T ''lines'' = Some (PList (map (\<lambda>e. PDict (dput ''returned'' (PBool False) e)) entries))" "dget T ''released'' = PBool False"
    by (simp_all add: T_def)
  let ?T = "dput ''lines'' (PList (map (\<lambda>e. PDict (dput ''returned'' (PBool False) e)) entries)) T"
  have "rows_or memo' ''invoiced_on'' = Inr (vs @ [PDict T])" by (simp add: memo' rows_or_def py_or_def)
  moreover have "dget memo' ''status'' = dget memo ''status''" by (simp add: memo')
  ultimately have draws: "memo_draws read memo' = Inr (List.map_filter id os @ [?T])"
    using assms(2) os(1) open_fresh_take [OF T] by (simp add: memo_draws_def mapR_snoc List.map_filter_def)
  have "lines_of_take L ?T = Inr (map (dput ''returned'' (PBool False)) (filter (\<lambda>e. py_eq (dget e ''memo_line_id'') L) entries))"
    by (rule lines_of_fresh_take) (simp_all add: assms(4))
  then show ?thesis using draws os by (simp add: lines_drawn_def mapR_snoc)
qed

section \<open>The draw as the route makes it\<close>

lemma drawn_memo_line_entry:
  assumes "drawn_memo_line memo cur takes lid pick = Inr (line, e)"
  shows "draw_entry e" "\<And>ml. memo_line memo (fst pick) = Inr (PDict ml) \<Longrightarrow> map_of e ''memo_line_id'' = Some (dget ml ''line_id'')"
    "\<exists>ml. memo_line memo (fst pick) = Inr (PDict ml)"
  using assms by (auto simp: drawn_memo_line_def draw_entry_def rbind_eq_Inr as_dict_Inr)

lemma drawn_memo_line_closing:
  assumes "drawn_memo_line memo cur takes lid (i, x) = Inr (line, e)" "memo_line memo i = Inr (PDict ml)"
    and "mapR (lines_of_take (dget ml ''line_id'')) takes = Inr lss" "dec_is (drawn_line_money ml (PFloat x) (concat lss) cur) r"
    and "at_scale 4 r" "\<bar>r\<bar> \<le> 10 ^ 11"
  shows "float_of e ''memo_amount'' = r" "float_of e ''quantity'' = shortest x"
proof -
  obtain d where d: "drawn_line_money ml (PFloat x) (concat lss) cur = Inr d" "is_fin d" "dval d = r"
    using assms(4) by (auto elim: dec_isE)
  have "map_of e ''memo_amount'' = Some (PFloat (fl r))" "map_of e ''quantity'' = Some (PFloat x)"
    using assms(1-3) d by (auto simp: drawn_memo_line_def rbind_eq_Inr to_stored_float_def)
  moreover have "shortest (fl r) = r" using shortest_fl at_scale_sig [OF assms(5,6), of 15] by simp
  ultimately show "float_of e ''memo_amount'' = r" "float_of e ''quantity'' = shortest x" by (simp_all add: float_of_def)
qed

lemma draw_billE:
  assumes "draw_bill read memo out target picks ids draw_id invoice_id no = Inr b"
  obtains takes drawn where "memo_draws read memo = Inr takes"
    "mapR (\<lambda>(line_id, pick). drawn_memo_line memo (dget memo ''currency'') takes line_id pick) (zip ids picks) = Inr drawn"
    "map_of (db_take b) ''lines'' = Some (PList (map PDict (map snd drawn)))"
  using assms by (auto simp: draw_bill_def rbind_eq_Inr rmap_eq_Inr Let_def)

lemma filter_only:
  assumes "i < length xs" "P (xs ! i)" "\<And>j. j < length xs \<Longrightarrow> j \<noteq> i \<Longrightarrow> \<not> P (xs ! j)"
  shows "filter P xs = [xs ! i]"
proof -
  have "filter P (take i xs) = []" using assms(1,3) by (auto simp: filter_empty_conv in_set_conv_nth)
  moreover have "filter P (drop (Suc i) xs) = []" using assms(1,3) by (auto simp: filter_empty_conv in_set_conv_nth)
  ultimately have "filter P (take i xs @ xs ! i # drop (Suc i) xs) = [xs ! i]" using assms(2) by simp
  then show ?thesis using id_take_nth_drop [OF assms(1)] by simp
qed

text \<open>The draw picks the memo line \<open>ml\<close>, whose id is \<open>L\<close>, as its pick \<open>i\<close> and no other time.\<close>

definition picked_once :: "dict \<Rightarrow> (nat \<times> rat) list \<Rightarrow> nat \<Rightarrow> dict \<Rightarrow> string \<Rightarrow> bool" where
  "picked_once memo picks i ml L \<longleftrightarrow> i < length picks \<and> memo_line memo (fst (picks ! i)) = Inr (PDict ml) \<and> dget ml ''line_id'' = PStr L
     \<and> list_all (\<lambda>j. j = i \<or> (case memo_line memo (fst (picks ! j)) of Inr (PDict d) \<Rightarrow> \<not> py_eq (dget d ''line_id'') (PStr L) | _ \<Rightarrow> True))
         [0..<length picks]"

text \<open>The line's amount is \<open>a\<close>, what is drawn of it was drawn at that amount, and \<open>x\<close> units are the rest.\<close>

definition rest_of_line :: "dict \<Rightarrow> pyval \<Rightarrow> dict list \<Rightarrow> rat \<Rightarrow> rat \<Rightarrow> bool" where
  "rest_of_line ml cur prior x a \<longleftrightarrow> dec_is (line_amount ml cur) a \<and> at_scale 4 a
     \<and> dec_is (dec_field ml ''quantity'') (drawn_before prior + shortest x) \<and> at_scale 6 (shortest x)
     \<and> list_all (recorded_draw a) prior
     \<and> (\<Sum>d\<leftarrow>prior. \<bar>float_of d ''quantity''\<bar>) + \<bar>shortest x\<bar> \<le> 10 ^ 12
     \<and> \<bar>a\<bar> + (\<Sum>d\<leftarrow>prior. \<bar>float_of d ''memo_amount''\<bar>) \<le> 10 ^ 11"

lemma entries_of_line:
  assumes "mapR (\<lambda>(line_id, pick). drawn_memo_line memo cur takes line_id pick) (zip ids picks) = Inr drawn"
    and "length ids = length picks" "picked_once memo picks i ml L"
  shows "length drawn = length picks" "list_all draw_entry (map snd drawn)"
    "drawn_memo_line memo cur takes (ids ! i) (picks ! i) = Inr (drawn ! i)"
    "filter (\<lambda>e. py_eq (dget e ''memo_line_id'') (PStr L)) (map snd drawn) = [snd (drawn ! i)]"
proof -
  show len: "length drawn = length picks" using mapR_length [OF assms(1)] assms(2) by simp
  have each: "drawn_memo_line memo cur takes (ids ! j) (picks ! j) = Inr (fst (drawn ! j), snd (drawn ! j))" if "j < length picks" for j
    using mapR_nth [OF assms(1), of j] that assms(2) by simp
  then show "list_all draw_entry (map snd drawn)"
    unfolding list_all_length using len drawn_memo_line_entry(1) [OF each] by simp
  have i: "i < length picks" using assms(3) by (simp add: picked_once_def)
  show "drawn_memo_line memo cur takes (ids ! i) (picks ! i) = Inr (drawn ! i)" using each [OF i] by simp
  have own: "py_eq (dget (snd (drawn ! i)) ''memo_line_id'') (PStr L)"
    using drawn_memo_line_entry(2) [OF each [OF i]] assms(3) by (auto simp: picked_once_def dget_def dget_or_def)
  have other: "\<not> py_eq (dget (snd (drawn ! j)) ''memo_line_id'') (PStr L)" if j: "j < length picks" "j \<noteq> i" for j
  proof -
    obtain d where d: "memo_line memo (fst (picks ! j)) = Inr (PDict d)" using drawn_memo_line_entry(3) [OF each [OF j(1)]] by auto
    then have "dget (snd (drawn ! j)) ''memo_line_id'' = dget d ''line_id''"
      using drawn_memo_line_entry(2) [OF each [OF j(1)]] by (auto simp: dget_def dget_or_def)
    then show ?thesis using assms(3) j d by (auto simp: picked_once_def list_all_iff)
  qed
  show "filter (\<lambda>e. py_eq (dget e ''memo_line_id'') (PStr L)) (map snd drawn) = [snd (drawn ! i)]"
    using filter_only [of i "map snd drawn" "\<lambda>e. py_eq (dget e ''memo_line_id'') (PStr L)"] own other i len by simp
qed

text \<open>C5: A memo line is billed once and whole.  When a draw takes the units of a memo line that are
  still out and is recorded on the memo, the quantities of the line's recorded draws add up to its
  quantity, and the amounts recorded as billed add up to exactly the line's amount, however the
  earlier draws were rounded.  (Every earlier draw was made at the line's present amount, and the
  draw picks the line once.)\<close>

theorem memo_line_bills_once:
  assumes "draw_bill read memo out target picks ids draw_id invoice_id no = Inr b"
    and "doc_lines_invoiced memo [(''take'', PDict (db_take b))] = Inr memo'" "dget memo ''status'' \<noteq> PStr ''converted''"
    and "length ids = length picks" "picked_once memo picks i ml L" "lines_drawn read memo (PStr L) = Inr prior"
    and "rest_of_line ml (dget memo ''currency'') prior (snd (picks ! i)) a"
  shows "\<exists>drawn. lines_drawn read memo' (PStr L) = Inr drawn \<and> dec_is (dec_field ml ''quantity'') (drawn_before drawn)
    \<and> dec_is (line_amount ml (dget memo ''currency'')) (billed_before drawn)"
proof -
  obtain takes drawn where takes: "memo_draws read memo = Inr takes"
    and drawn: "mapR (\<lambda>(line_id, pick). drawn_memo_line memo (dget memo ''currency'') takes line_id pick) (zip ids picks) = Inr drawn"
    and tk: "map_of (db_take b) ''lines'' = Some (PList (map PDict (map snd drawn)))"
    by (rule draw_billE [OF assms(1)])
  note entries = entries_of_line [OF drawn assms(4,5)]
  let ?e = "snd (drawn ! i)"
  have after: "lines_drawn read memo' (PStr L) = Inr (prior @ [dput ''returned'' (PBool False) ?e])"
    using lines_after_draw [OF assms(2,3) tk entries(2) assms(6)] entries(4) by simp
  obtain lss where lss: "mapR (lines_of_take (PStr L)) takes = Inr lss" "prior = concat lss"
    using assms(6) takes by (auto simp: lines_drawn_def rmap_eq_Inr)
  obtain amount q where aq: "line_amount ml (dget memo ''currency'') = Inr amount" "is_fin amount" "dval amount = a"
      "dec_field ml ''quantity'' = Inr q" "is_fin q" "drawn_before prior + shortest (snd (picks ! i)) = dval q"
    using assms(7) by (auto simp: rest_of_line_def elim!: dec_isE)
  have rest: "dec_is (drawn_line_money ml (PFloat (snd (picks ! i))) prior (dget memo ''currency'')) (a - billed_before prior)"
      "at_scale 4 (a - billed_before prior)" "\<bar>a - billed_before prior\<bar> \<le> 10 ^ 11"
    using closing_draw [OF aq(1-3) _ aq(4-6)] assms(7) by (auto simp: rest_of_line_def list_all_iff)
  have ml: "memo_line memo (fst (picks ! i)) = Inr (PDict ml)" "dget ml ''line_id'' = PStr L"
    using assms(5) by (simp_all add: picked_once_def)
  have "float_of ?e ''memo_amount'' = a - billed_before prior" "float_of ?e ''quantity'' = shortest (snd (picks ! i))"
    using drawn_memo_line_closing [of memo _ takes "ids ! i" "fst (picks ! i)" "snd (picks ! i)" "fst (drawn ! i)" ?e ml lss]
      entries(3) ml lss rest by simp_all
  then have "drawn_before (prior @ [dput ''returned'' (PBool False) ?e]) = dval q" "billed_before (prior @ [dput ''returned'' (PBool False) ?e]) = a"
    using aq(6) by (simp_all add: drawn_before_def billed_before_def float_of_def)
  then show ?thesis using after aq by simp
qed

section \<open>Example\<close>

definition demo_memo_line :: dict where
  "demo_memo_line = [(''line_id'', PStr ''L1''), (''quantity'', PInt 3), (''unit_price'', PInt 1000)]"

definition demo_draw :: dict where
  "demo_draw = [(''memo_line_id'', PStr ''L1''), (''quantity'', PFloat 1), (''memo_amount'', PFloat 1000), (''memo_line_amount'', PFloat 3000)]"

definition demo_take :: dict where
  "demo_take = [(''invoice_id'', PStr ''doc:A''), (''doc_number'', PStr ''INV-0''), (''lines'', PList [PDict demo_draw]),
     (''shipping'', PInt 0), (''discount'', PInt 0), (''tax'', PInt 0)]"

definition demo_memo :: dict where
  "demo_memo = [(''status'', PStr ''sent''), (''currency'', PStr ''JPY''), (''line_items'', PList [PDict demo_memo_line]),
     (''invoiced_on'', PList [PDict demo_take])]"

definition demo_bill :: "drawn_bill res" where
  "demo_bill = draw_bill json_tax demo_memo [(''L1'', PInt 2)] None [(0, 2)] [''I1''] (PStr ''D'') (PStr ''doc:I'') (PStr ''INV-1'')"

lemma demo_recorded: "is_ok (rbind demo_bill (\<lambda>b. doc_lines_invoiced demo_memo [(''take'', PDict (db_take b))]))"
  by code_simp

lemma demo_drawn: "lines_drawn json_tax demo_memo (PStr ''L1'') = Inr [demo_draw]"
  by code_simp

lemma demo_amount: "line_amount demo_memo_line (PStr ''JPY'') = Inr (Fin 3000 0)"
  by code_simp

lemma demo_numbers: "shortest 1 = 1" "shortest 2 = 2" "shortest 1000 = 1000" "shortest 3000 = 3000"
  by code_simp+

lemma demo_rest: "rest_of_line demo_memo_line (PStr ''JPY'') [demo_draw] 2 3000"
proof -
  have "at_scale k (of_int n)" for k n
    unfolding at_scale_def by (rule exI [of _ "n * 10 ^ k"]) simp
  from this [of 4 3000] this [of 4 1000] this [of 6 1] this [of 6 2]
  have scales: "at_scale 4 3000" "at_scale 4 1000" "at_scale 6 1" "at_scale 6 2" by simp_all
  have "float_of demo_draw ''quantity'' = 1" "float_of demo_draw ''memo_amount'' = 1000" "float_of demo_draw ''memo_line_amount'' = 3000"
    by (simp_all add: float_of_def demo_draw_def demo_numbers)
  moreover have "dec_field demo_memo_line ''quantity'' = Inr (Fin 3 0)" by code_simp
  ultimately show ?thesis using demo_amount scales demo_numbers
    by (simp add: rest_of_line_def recorded_draw_def has_float_def drawn_before_def demo_draw_def)
qed

theorem memo_line_bills_once_witness:
  "\<exists>memo' drawn. lines_drawn json_tax memo' (PStr ''L1'') = Inr drawn \<and> drawn_before drawn = 3 \<and> billed_before drawn = 3000"
proof -
  obtain b memo' where b: "demo_bill = Inr b" "doc_lines_invoiced demo_memo [(''take'', PDict (db_take b))] = Inr memo'"
    using demo_recorded by (auto simp: is_ok_def rbind_def split: sum.splits)
  have "picked_once demo_memo [(0, 2)] 0 demo_memo_line ''L1''" by code_simp
  moreover have "dget demo_memo ''status'' \<noteq> PStr ''converted''" "dget demo_memo ''currency'' = PStr ''JPY''" by code_simp+
  ultimately obtain drawn where "lines_drawn json_tax memo' (PStr ''L1'') = Inr drawn"
    "dec_is (dec_field demo_memo_line ''quantity'') (drawn_before drawn)" "dec_is (line_amount demo_memo_line (PStr ''JPY'')) (billed_before drawn)"
    using memo_line_bills_once [OF b(1) [unfolded demo_bill_def] b(2), of 0 demo_memo_line "''L1''" "[demo_draw]" 3000] demo_drawn demo_rest
    by auto
  moreover have "dec_field demo_memo_line ''quantity'' = Inr (Fin 3 0)" by code_simp
  ultimately show ?thesis using demo_amount by auto
qed

end
