(* ===== verification/ListFacts.thy ===== *)
theory ListFacts
  imports DocMoneyFacts
begin

text \<open>
  A list holds the totals its lines give: the data \<open>with_list_totals\<close> writes a new list with,
  folded by the list projection, gives a list whose recomputed totals are the totals it holds.
\<close>

section \<open>The inputs of a list's totals\<close>

definition same_inputs :: "dict \<Rightarrow> dict \<Rightarrow> bool" where
  "same_inputs s s' \<longleftrightarrow> (\<forall>k\<in>{''discount'', ''discount_type'', ''tax''}. map_of s k = map_of s' k)"

lemma list_money_inputs: "same_inputs s s' \<Longrightarrow> list_money read s lines cur = list_money read s' lines cur"
proof -
  assume "same_inputs s s'"
  then have d: "dget_or s k x = dget_or s' k x" "dget s k = dget s' k" if "k \<in> {''discount'', ''discount_type'', ''tax''}" for k x
    using that by (auto simp: same_inputs_def dget_def dget_or_def)
  then have "discount_from_inputs s (Fin 0 0) cur = discount_from_inputs s' (Fin 0 0) cur"
    by (simp add: discount_from_inputs_def)
  moreover have "dget s ''discount'' = dget s' ''discount''" "dget s ''discount_type'' = dget s' ''discount_type''"
    "dget s ''tax'' = dget s' ''tax''" using d(2) by auto
  ultimately show ?thesis unfolding list_money_def by (simp only:)
qed

text \<open>The rule skips what is not a line.\<close>

lemma dict_items_append [simp]: "dict_items (xs @ ys) = dict_items xs @ dict_items ys"
proof (induction xs)
  case (Cons v vs)
  then show ?case by (cases v) simp_all
qed simp

lemma no_line:
  "\<not> is_tax v \<Longrightarrow> tax_line read cur ratio (out, s, h) v = Inr (out @ [v], s, h) \<and> dict_items [v] = [] \<and> dict_items (v # vs) = dict_items vs"
  by (cases v) (simp_all add: tax_line_def is_tax_def)

lemma tax_line_shift:
  assumes "tax_line read cur ratio (out, s, h) v = Inr (o1, s1, h1)" "is_tax v"
  shows "\<exists>line. o1 = out @ [PDict line] \<and> (\<forall>o2. tax_line read cur ratio (o2, s, h) v = Inr (o2 @ [PDict line], s1, h1))"
proof -
  obtain line where v: "v = PDict line" using assms(2) by (auto simp: is_tax_def split: pyval.splits)
  obtain a base es rate where b: "line_amount line cur = Inr a" "dmul a ratio = Inr base" "line_tax_definition read line = Inr (es, rate)"
    using assms(1) v by (auto simp: tax_line_def rbind_eq_Inr)
  show ?thesis
  proof (cases "es = []")
    case True
    then show ?thesis using assms(1) v b by (auto simp: tax_line_def rbind_eq_Inr rmap_eq_Inr split: if_splits)
  next
    case False
    then show ?thesis using assms(1) v b by (auto simp: tax_line_def rbind_eq_Inr rmap_eq_Inr)
  qed
qed

lemma tax_lines_items:
  "foldR (tax_line read cur ratio) (out, s, h) lines = Inr (out', s', h')
    \<Longrightarrow> foldR (tax_line read cur ratio) (map PDict (dict_items out), s, h) (map PDict (dict_items lines))
      = Inr (map PDict (dict_items out'), s', h')"
proof (induction lines arbitrary: out s h)
  case (Cons v vs)
  then obtain o1 s1 h1 where f: "tax_line read cur ratio (out, s, h) v = Inr (o1, s1, h1)"
      "foldR (tax_line read cur ratio) (o1, s1, h1) vs = Inr (out', s', h')"
    by (auto simp: rbind_eq_Inr)
  show ?case
  proof (cases "is_tax v")
    case True
    then have "dict_items (v # vs) = dict_items [v] @ dict_items vs" "map PDict (dict_items [v]) = [v]"
      by (auto simp: is_tax_def split: pyval.splits)
    then show ?thesis using Cons.IH [OF f(2)] tax_line_shift [OF f(1) True] by auto
  next
    case False
    then have "o1 = out @ [v]" "s1 = s" "h1 = h" "dict_items [v] = []" "dict_items (v # vs) = dict_items vs"
      using f(1) no_line [OF False] by auto
    then show ?thesis using Cons.IH [OF f(2)] by simp
  qed
qed simp

lemma derived_items:
  assumes "derived_money read state lines cur keep stored = Inr (m, lines')"
  shows "derived_money read state (map PDict (dict_items lines)) cur keep stored = Inr (m, map PDict (dict_items lines'))"
  using assms
proof (rule derivedE)
  fix whole subtotal discount taxable ratio charged has tax0 docs tax ship tot
  assume sum: "dec_sum_by (\<lambda>line. line_amount line cur) (Fin 0 0) (dict_items lines) = Inr whole"
    and loop: "foldR (tax_line read cur ratio) ([], Fin 0 0, False) lines = Inr (lines', charged, has)"
    and d: "round_money whole cur = Inr subtotal" "discount_taken state subtotal cur = Inr discount" "dsub subtotal discount = Inr taxable"
    "rbind (dless (Fin 0 0) subtotal) (\<lambda>pos. if pos then ddiv taxable subtotal else Inr (Fin 1 0)) = Inr ratio"
    and e: "tax_taken read state taxable charged has cur keep stored = Inr (tax0, docs)" "round_money tax0 cur = Inr tax"
    "rbind (dec_field state ''shipping'') (\<lambda>s. round_money s cur) = Inr ship"
    "rbind (dadd taxable tax) (\<lambda>x. rbind (dadd x ship) (\<lambda>y. round_money y cur)) = Inr tot"
    "money_fields subtotal discount docs tax tot = Inr m"
  have "dec_sum_by (\<lambda>line. line_amount line cur) (Fin 0 0) (dict_items (map PDict (dict_items lines))) = Inr whole" using sum by simp
  moreover have "foldR (tax_line read cur ratio) ([], Fin 0 0, False) (map PDict (dict_items lines)) = Inr (map PDict (dict_items lines'), charged, has)"
    using tax_lines_items [OF loop] by simp
  ultimately show ?thesis using derivedI d e by blast
qed

lemma derived_again:
  assumes "derived_money read state lines cur keep stored = Inr (m, lines')" "reads_back read"
  shows "derived_money read state lines' cur keep stored = Inr (m, lines')"
  using assms(1)
proof (rule derivedE)
  fix whole subtotal discount taxable ratio charged has tax0 docs tax ship tot
  assume sum: "dec_sum_by (\<lambda>line. line_amount line cur) (Fin 0 0) (dict_items lines) = Inr whole"
    and loop: "foldR (tax_line read cur ratio) ([], Fin 0 0, False) lines = Inr (lines', charged, has)"
    and d: "round_money whole cur = Inr subtotal" "discount_taken state subtotal cur = Inr discount" "dsub subtotal discount = Inr taxable"
    "rbind (dless (Fin 0 0) subtotal) (\<lambda>pos. if pos then ddiv taxable subtotal else Inr (Fin 1 0)) = Inr ratio"
    and e: "tax_taken read state taxable charged has cur keep stored = Inr (tax0, docs)" "round_money tax0 cur = Inr tax"
    "rbind (dec_field state ''shipping'') (\<lambda>s. round_money s cur) = Inr ship"
    "rbind (dadd taxable tax) (\<lambda>x. rbind (dadd x ship) (\<lambda>y. round_money y cur)) = Inr tot"
    "money_fields subtotal discount docs tax tot = Inr m"
  obtain same: "list_all2 (same_line read) lines lines'"
    and again: "foldR (tax_line read cur ratio) ([], Fin 0 0, False) lines' = Inr (lines', charged, has)"
    using tax_lines_again [OF assms(2) loop] by auto
  then show ?thesis using derivedI same_lines_sum [OF same] sum d e by metis
qed

lemma list_money_again:
  assumes "list_money read state lines cur = Inr (m, lines')" "reads_back read"
  shows "list_money read state (map PDict (dict_items lines')) cur = Inr (m, map PDict (dict_items lines'))"
proof -
  obtain disc where disc: "discount_from_inputs state (Fin 0 0) cur = Inr (Some disc)"
    using assms(1) by (auto simp: list_money_def rbind_eq_Inr split: option.splits)
  define inputs where "inputs = [(''discount'', dget state ''discount''), (''discount_type'', dget state ''discount_type''),
      (''tax_rate'', dget state ''tax'')]"
  obtain money where money: "derived_money read inputs lines cur True None = Inr (money, lines')"
      "m = [(''subtotal'', dget money ''subtotal''), (''discount_amount'', dget money ''discount_amount''),
        (''tax_amount'', dget money ''tax''), (''total'', dget money ''total'')]"
    using assms(1) disc by (auto simp: list_money_def inputs_def rmap_eq_Inr)
  show ?thesis
    using derived_items [OF derived_again [OF money(1) assms(2)]] money(2) disc by (simp add: list_money_def inputs_def)
qed

section \<open>A list created\<close>

lemma map_of_filter_key: "P k \<Longrightarrow> map_of (filter (\<lambda>kv. P (fst kv)) d) k = map_of d k"
  by (induction d) auto

definition contact_keys :: "string list" where
  "contact_keys = [''customer_id'', ''customer_name'', ''receiver'', ''contact_id'', ''contact_name'']"

lemma map_of_legacy_contact: "k \<notin> set contact_keys \<Longrightarrow> map_of (fold_legacy_contact d) k = map_of d k"
  by (simp add: fold_legacy_contact_def LEGACY_CONTACT_FIELDS_def contact_keys_def Let_def)

lemma map_of_setdefaults:
  "map_of (fold (\<lambda>(k, v). dsetdefault k v) ds d) k = (case map_of d k of Some v \<Rightarrow> Some v | None \<Rightarrow> map_of ds k)"
  by (induction ds arbitrary: d) (auto split: option.splits)

lemma created_field:
  assumes "distinct (map fst data)" "k \<notin> set contact_keys" "k \<notin> {''totals'', RESTORE_POINT, ''entity_type''}"
  shows "map_of (list_created_fields [] data) k
    = (case map_of data k of Some v \<Rightarrow> Some v | None \<Rightarrow> map_of (list_created_fields [] []) k)"
proof -
  have put: "map_of (dmerge (dput ''entity_type'' (PStr ''list'') []) (filter (\<lambda>kv. fst kv \<noteq> ''totals'' \<and> fst kv \<noteq> RESTORE_POINT) d)) k
      = map_of d k" if "distinct (map fst d)" for d
  proof -
    let ?f = "filter (\<lambda>kv. fst kv \<noteq> ''totals'' \<and> fst kv \<noteq> RESTORE_POINT) d"
    have "map_of ?f k = map_of d k" using map_of_filter_key [of "\<lambda>k. k \<noteq> ''totals'' \<and> k \<noteq> RESTORE_POINT" k d] assms(3) by simp
    moreover have "distinct (map fst ?f)" using that by (simp add: distinct_map_filter)
    ultimately show ?thesis using assms(3) by (simp add: map_of_dmerge_distinct split: option.split)
  qed
  show ?thesis
    unfolding list_created_fields_def Let_def map_of_setdefaults map_of_legacy_contact [OF assms(2)] put [OF assms(1)]
    using put [of "[]"] by (simp add: option.case_eq_if)
qed

text \<open>C10: a new list holds the totals its lines give.\<close>

theorem new_list_holds_its_totals:
  assumes "with_list_totals read None ''list.created'' data = Inr data'" "list_created [] data' = Inr s"
    and "reads_back read" "distinct (map fst data)"
  shows "list_totals read s = Inr (map (\<lambda>k. (k, dget s k)) LIST_TOTAL_FIELDS)"
proof -
  let ?after = "list_created_fields [] data"
  obtain vs lines money lines' where l: "rows_or ?after ''line_items'' = Inr vs"
      "list_money read ?after lines (dget ?after ''currency'') = Inr (money, lines')"
      "data' = dput ''line_items'' (PList lines') (dput ''totals'' (PDict money) data)"
    using assms(1)
    by (auto simp: with_list_totals_def list_fields_def keeps_totals_def list_lines_and_totals_def rbind_eq_Inr rmap_eq_Inr Let_def)
  have dist: "distinct (map fst data')" using assms(4) by (simp add: l(3) distinct_update)
  let ?new = "list_created_fields [] data'"
  have same: "map_of ?new k = map_of ?after k" if "k \<in> {''discount'', ''discount_type'', ''tax'', ''currency''}" for k
    using that created_field [OF dist, of k] created_field [OF assms(4), of k] by (auto simp: l(3) contact_keys_def RESTORE_POINT_def)
  have items: "map_of ?new ''line_items'' = Some (PList lines')"
    using created_field [OF dist, of "''line_items''"] by (simp add: l(3) contact_keys_def RESTORE_POINT_def)
  have s: "s = dmerge ?new money"
    using assms(2) by (simp add: list_created_def list_fields_def apply_list_totals_def l(3) dupdate_def)
  obtain v1 v2 v3 v4 where m: "money = [(''subtotal'', v1), (''discount_amount'', v2), (''tax_amount'', v3), (''total'', v4)]"
    using l(2) by (auto simp: list_money_def rbind_eq_Inr rmap_eq_Inr split: option.splits)
  have field: "map_of s k = map_of ?new k" if "k \<in> {''discount'', ''discount_type'', ''tax'', ''currency'', ''line_items''}" for k
    using that by (auto simp: s m dmerge_def)
  have "list_money read s (map PDict (dict_items lines')) (dget s ''currency'') = Inr (money, map PDict (dict_items lines'))"
    using list_money_again [OF l(2) assms(3)] list_money_inputs [of s ?after] same field
    by (simp add: same_inputs_def dget_def dget_or_def)
  moreover have "rows_or s ''line_items'' = Inr lines'"
    using field [of "''line_items''"] items by (cases lines') (simp_all add: rows_or_def dget_def dget_or_def py_or_def)
  moreover have "money = map (\<lambda>k. (k, dget s k)) LIST_TOTAL_FIELDS"
    by (simp add: s m LIST_TOTAL_FIELDS_def dmerge_def)
  ultimately show ?thesis by (simp add: list_totals_def)
qed

section \<open>An example\<close>

definition demo_new_list :: dict where
  "demo_new_list = [(''currency'', PStr ''JPY''), (''line_items'', PList [PDict demo_priced]), (''discount'', PInt 20)]"

lemma demo_new_list_written: "is_ok (rbind (with_list_totals json_tax None ''list.created'' demo_new_list) (list_created []))"
  by code_simp

theorem new_list_holds_its_totals_witness:
  "\<exists>s. list_totals json_tax s = Inr (map (\<lambda>k. (k, dget s k)) LIST_TOTAL_FIELDS)"
proof -
  obtain d s where "with_list_totals json_tax None ''list.created'' demo_new_list = Inr d" "list_created [] d = Inr s"
    using demo_new_list_written by (auto simp: is_ok_def rbind_def split: sum.splits)
  moreover have "distinct (map fst demo_new_list)" by (simp add: demo_new_list_def)
  ultimately show ?thesis using new_list_holds_its_totals json_tax_reads_back by blast
qed

end
