(* ===== verification/Moving.thy ===== *)
theory Moving
  imports Taxes DocBalance DocLines
begin

text \<open>
  \<open>celerp/services/record_quantities.py\<close>: what a stored document or production run can still move,
  read from its state.  A line comes with the quantity on it that can still move; the quantity of a
  line is the JSON value stored, what is left of one a float.
\<close>

definition EPS :: rat where "EPS = fl (1 / 10 ^ 9)"

definition FULFILLABLE_STATUSES :: "(string \<times> string list) list" where
  "FULFILLABLE_STATUSES =
     [(''memo'', MEMO_LIVE_STATUSES), (''invoice'', [''sent'', ''final'', ''partial'', ''paid'', ''awaiting_payment''])]"

definition RECEIVING_STATUSES :: "string list" where
  "RECEIVING_STATUSES =
     [''final'', ''sent'', ''awaiting_payment'', ''partial'', ''paid'',
      ''received'', ''partially_received'', ''partial_returned'', ''returned'']"

definition RECEIVABLE_STATUSES :: "(string \<times> string list) list" where
  "RECEIVABLE_STATUSES =
     [(''bill'', RECEIVING_STATUSES), (''consignment_in'', RECEIVING_STATUSES @ [''draft'']),
      (''purchase_order'', RECEIVING_STATUSES @ [''draft''])]"

definition QUOTATION_SPENT_STATUSES :: "string list" where
  "QUOTATION_SPENT_STATUSES = [''void'', ''converted'']"

definition TEMPLATE_DOC_TYPES :: "string list" where
  "TEMPLATE_DOC_TYPES = [''subscription_invoice'', ''subscription_po'']"

definition INCOMPLETE_RUN_STATUSES :: "string list" where
  "INCOMPLETE_RUN_STATUSES = [''planned'', ''in_progress'', ''on_hold'']"

text \<open>\<open>entity_id.split(":")[-1]\<close>.\<close>

definition after_last_colon :: "string \<Rightarrow> string" where
  "after_last_colon s = rev (takeWhile (\<lambda>c. c \<noteq> CHR '':'') (rev s))"

definition template_label :: "dict \<Rightarrow> string \<Rightarrow> pyval" where
  "template_label state entity_id =
     py_or (dget state ''ref_id'') (py_or (dget state ''doc_number'') (py_or (dget state ''name'') (PStr (after_last_colon entity_id))))"

section \<open>Documents\<close>

text \<open>\<open>s in (v or [])\<close> for a string: a member of a list, a key of a dictionary, part of a string.\<close>

definition str_within :: "string \<Rightarrow> pyval \<Rightarrow> bool res" where
  "str_within s v =
     (case py_or v (PList []) of
        PStr t \<Rightarrow> Inr (list_ex (\<lambda>i. take (length s) (drop i t) = s) [0..<Suc (length t)])
      | w \<Rightarrow> rmap (list_ex (py_eq (PStr s))) (py_iter w))"

definition sent_out_by :: "dict \<Rightarrow> string \<Rightarrow> bool res" where
  "sent_out_by item_state doc_id =
     (if \<not> str_in (dget item_state ''status'') [''sold'', ''memo_out''] then Inr False
      else rmap (\<lambda>b. b \<or> str_is (dget item_state ''status_doc_id'') doc_id)
             (str_within doc_id (dget item_state ''fulfilled_for_docs'')))"

definition unreceived :: "dict \<Rightarrow> rat res" where
  "unreceived line =
     rbind (py_float (py_or (dget line ''quantity'') (PInt 0))) (\<lambda>ordered.
     rbind (py_float (py_or (dget line ''quantity_received'') (PInt 0))) (\<lambda>received.
     rbind (dsub (dec_of_float ordered) (dec_of_float received)) dec_float))"

text \<open>The lines of a record that are objects, and each with its whole quantity.\<close>

definition object_lines :: "dict \<Rightarrow> dict list res" where
  "object_lines state = rmap dict_items (rows_or state ''line_items'')"

definition whole_lines :: "dict list \<Rightarrow> (dict \<times> pyval) list" where
  "whole_lines lines = map (\<lambda>line. (line, dget line ''quantity'')) lines"

definition doc_still_moving :: "dict \<Rightarrow> (dict \<Rightarrow> bool res) \<Rightarrow> (dict \<times> pyval) list res" where
  "doc_still_moving state shipped =
     (let doc_type = dget state ''doc_type''; status = dget state ''status'' in
      rbind (object_lines state) (\<lambda>lines.
      rbind (if str_is doc_type ''quotation'' then rmap Not (in_set status QUOTATION_SPENT_STATUSES) else Inr False) (\<lambda>quoted.
      rbind (if quoted then Inr True
             else rmap (\<lambda>b. b \<and> \<not> str_is status ''cancelled'') (in_set doc_type TEMPLATE_DOC_TYPES)) (\<lambda>carried.
      if carried then Inr (whole_lines lines)
      else rbind (status_in RECEIVABLE_STATUSES doc_type status) (\<lambda>receiving.
      if receiving
      then rmap (\<lambda>lefts. map (\<lambda>(line, left). (line, PFloat left)) (filter (\<lambda>(_, left). 0 < left) lefts))
             (mapR (\<lambda>line. rmap (Pair line) (unreceived line)) lines)
      else rbind (status_in FULFILLABLE_STATUSES doc_type status) (\<lambda>shipping.
      if shipping
      then if str_is (dget state ''fulfillment_status'') ''fulfilled'' then Inr []
           else rmap whole_lines (filterR (\<lambda>line. rmap Not (shipped line)) lines)
      else if status = PNone \<or> str_is status ''draft'' then Inr (whole_lines lines)
      else Inr []))))))"

section \<open>Manufacturing runs\<close>

definition outstanding_input :: "dict \<Rightarrow> dict option res" where
  "outstanding_input inp =
     rbind (py_float (py_or (dget inp ''quantity'') (PInt 0))) (\<lambda>required.
     rbind (py_float (py_or (dget inp ''issued_qty'') (PInt 0))) (\<lambda>issued.
     let rem = fsub required issued in
     Inr (if EPS < rem then Some [(''item_id'', dget inp ''item_id''), (''quantity'', PFloat (round_float rem 6))] else None)))"

definition outstanding_inputs :: "dict \<Rightarrow> dict list res" where
  "outstanding_inputs run_state =
     rbind (rows run_state ''inputs'') (\<lambda>vs.
     rmap (List.map_filter id) (mapR (\<lambda>v. rbind (as_dict v) outstanding_input) vs))"

text \<open>\<open>(v or [{}])[0]\<close>.\<close>

definition first_output :: "dict \<Rightarrow> dict res" where
  "first_output run_state =
     (case py_or (dget run_state ''expected_outputs'') (PList [PDict []]) of
        PList (v # _) \<Rightarrow> as_dict v
      | PStr _ \<Rightarrow> Inl AttributeError
      | PDict _ \<Rightarrow> Inl KeyError
      | _ \<Rightarrow> Inl TypeError)"

definition outstanding_output :: "dict \<Rightarrow> rat res" where
  "outstanding_output run_state =
     rbind (first_output run_state) (\<lambda>out.
     rbind (py_float (py_or (dget out ''quantity'') (PInt 0))) (\<lambda>expected.
     rbind (py_float (py_or (dget run_state ''received_qty'') (PInt 0))) (\<lambda>received.
     Inr (max 0 (round_float (fsub expected received) 6)))))"

definition run_still_moving :: "dict \<Rightarrow> (dict \<times> pyval) list res" where
  "run_still_moving run_state =
     rbind (in_set (dget run_state ''status'') INCOMPLETE_RUN_STATUSES) (\<lambda>open_run.
     if \<not> open_run then Inr []
     else rbind (outstanding_inputs run_state) (\<lambda>inputs.
          rbind (outstanding_output run_state) (\<lambda>left.
          Inr (map (\<lambda>i. ([(''item_id'', dget i ''item_id'')], dget i ''quantity'')) inputs
               @ (if EPS < left then [([(''item_id'', dget run_state ''output_item_id'')], PFloat left)] else [])))))"

definition run_name :: "dict \<Rightarrow> pyval res" where
  "run_name state =
     rmap (\<lambda>out. py_or (dget out ''sku'') (py_or (dget out ''name'') (py_or (dget state ''description'') (PStr ''a production run''))))
       (first_output state)"

end
