(* ===== verification/ItemCost.thy ===== *)
theory ItemCost
  imports Money Rows
begin

text \<open>
  The parts of \<open>celerp_inventory/projections.py\<close> every item event goes through: which keys are
  core, where attributes live, how a lot's cost follows its quantity and its landed cost, the
  pairing of a status with its document, and whether a lot is on the books
  (\<open>celerp/services/lot_origin.py\<close>); with the goods-cost rules of \<open>celerp/services/goods_cost.py\<close>.
\<close>

section \<open>Names\<close>

definition LOT_ACCOUNT_FIELD :: string where "LOT_ACCOUNT_FIELD = ''inventory_account_code''"
definition CONSIGNOR_PAYABLE_FIELD :: string where "CONSIGNOR_PAYABLE_FIELD = ''consignor_payable_code''"
definition CONSIGNOR_FIELD :: string where "CONSIGNOR_FIELD = ''consignor_id''"
definition ON_BOOKS_FIELD :: string where "ON_BOOKS_FIELD = ''inventory_on_books''"
definition GOODS_COST_UNKNOWN :: string where "GOODS_COST_UNKNOWN = ''goods_cost_unknown''"

definition WEIGHT_UNIT_MAP :: "(string \<times> string) list" where
  "WEIGHT_UNIT_MAP = [(''ct'', ''carat''), (''g'', ''gram''), (''kg'', ''kg''), (''oz'', ''oz''), (''lb'', ''lb'')]"

definition ACTIVE_STATUSES :: "string list" where "ACTIVE_STATUSES = [''available'', ''active'']"

definition DEFAULT_ITEM_STATUS :: string where "DEFAULT_ITEM_STATUS = ''available''"

definition OFF_BOOKS :: "string list" where
  "OFF_BOOKS = [''deleted'', ''void'', ''sold'', ''fulfilled'', ''merged'', ''draft'', ''disposed'']"

definition RETIRED :: "string list" where "RETIRED = [''archived'', ''expired'']"

definition STOCK_TYPES :: "string list" where "STOCK_TYPES = [''stocked'', ''component'']"

definition CORE_ITEM_KEYS :: "string list" where
  "CORE_ITEM_KEYS =
     [''attributes'',
      ''id'', ''entity_id'', ''company_id'', ''sku'', ''name'', ''barcode'', ''gtin'', ''rfid_epc'',
      ''category'', ''status'',
      ''created_at'', ''updated_at'', ''location_id'', ''location_name'', ''idempotency_key'', ''external_links'',
      ''quantity'', ''sell_by'', ''unit'', ''weight'', ''weight_unit'', ''gross_weight'', ''gross_weight_unit'',
      ''reserved_quantity'', ''quantity_fulfilled'',
      ''cost_total'', ''cost_price'', ''cost_base'', ''cost_landed'', ''landed_costs'', GOODS_COST_UNKNOWN,
      ''reorder_point'', ''reorder_qty'',
      ''allow_splitting'', ''default_sell_qty'', ''inventory_type'', ''pick_method'', ''consignment_flag'', ''item_type'',
      ''is_expired'', ''expires_at'', ''landed_cost_kind'', ''recoverable'',
      LOT_ACCOUNT_FIELD, CONSIGNOR_PAYABLE_FIELD, CONSIGNOR_FIELD, ON_BOOKS_FIELD,
      ''purchase_sku'', ''purchase_name'', ''purchase_unit'', ''purchase_conversion_factor'',
      ''short_description'', ''description'', ''notes'', ''hs_code'', ''batch_no'',
      ''parent_id'', ''parent_sku'', ''children'', ''child_skus'', ''merged_into'', ''split_from'',
      ''transformed_from'', ''returned_from'', ''transformed_into'', ''fulfilled_for_docs'', ''catalog_item_id'',
      ''_catalog_sku_aliases'',
      ''status_doc_id'', ''status_doc_number'', ''status_line_entity_id'',
      ''parent_item_id'', ''manufacturing_order_id'', ''lot'',
      ''files'', ''attachments'', ''preview_image_id'',
      ''thumbnail_file_id'',
      ''recipe'', ''workflow'', ''tax_codes'']"

definition is_core_item_key :: "string \<Rightarrow> bool" where
  "is_core_item_key key =
     (List.member CORE_ITEM_KEYS key \<or> ends_with ''_price'' key \<or> ends_with ''_price_total'' key)"

section \<open>Attributes\<close>

text \<open>\<open>dict(current.get(k) or {})\<close>.\<close>

definition dict_or :: "dict \<Rightarrow> string \<Rightarrow> dict res" where
  "dict_or d k = (case py_or (dget d k) (PDict []) of PDict e \<Rightarrow> Inr e | PStr _ \<Rightarrow> Inl ValueError | _ \<Rightarrow> Inl TypeError)"

text \<open>One movable key: the value leaves the top level; None removes the attribute.\<close>

definition move_attribute :: "dict \<times> dict \<Rightarrow> string \<Rightarrow> dict \<times> dict" where
  "move_attribute st k =
     (let (current, attrs) = st; val = dget current k
      in (ddel k current, if val = PNone then ddel k attrs else dput k val attrs))"

definition movable_keys :: "dict \<Rightarrow> string list" where
  "movable_keys current = filter (\<lambda>k. k \<noteq> ''attributes'' \<and> \<not> is_core_item_key k) (map fst current)"

definition normalize_attributes :: "dict \<Rightarrow> dict res" where
  "normalize_attributes current =
     (let movable = movable_keys current in
      if movable = [] then Inr current
      else rbind (dict_or current ''attributes'') (\<lambda>attrs.
           let (c, a) = foldl move_attribute (current, attrs) movable
           in Inr (dput ''attributes'' (PDict a) c)))"

text \<open>A category attribute written or cleared: it never stays at the top level.\<close>

definition set_attribute :: "(pyval \<Rightarrow> bool) \<Rightarrow> string \<Rightarrow> pyval \<Rightarrow> dict \<Rightarrow> dict res" where
  "set_attribute clears k v current =
     rbind (dict_or current ''attributes'') (\<lambda>attrs.
     Inr (ddel k (dput ''attributes'' (PDict (if clears v then ddel k attrs else dput k v attrs)) current)))"

section \<open>Status\<close>

text \<open>\<open>str(state.get("status") or dflt).lower()\<close>.\<close>

definition status_or :: "string \<Rightarrow> dict \<Rightarrow> string" where
  "status_or dflt state = py_lower (py_str (py_or (dget state ''status'') (PStr dflt)))"

abbreviation status_lower :: "dict \<Rightarrow> string" where
  "status_lower \<equiv> status_or []"

definition is_item_available :: "dict \<Rightarrow> bool" where
  "is_item_available state = List.member ACTIVE_STATUSES (status_or DEFAULT_ITEM_STATUS state)"

definition is_manufacturable :: "dict \<Rightarrow> bool res" where
  "is_manufacturable state =
     rmap truthy (vget (py_or (dget state ''recipe'') (PDict [])) ''components'')"

datatype claim = FREE_STOCK | OWN_RESERVED

definition demand_claim :: "dict \<Rightarrow> pyval \<Rightarrow> claim option" where
  "demand_claim state doc_id =
     (if is_item_available state then Some FREE_STOCK
      else if status_lower state = ''reserved'' \<and> truthy doc_id \<and> py_eq (dget state ''status_doc_id'') doc_id
      then Some OWN_RESERVED else None)"

definition out_on_another_memo :: "dict \<Rightarrow> pyval \<Rightarrow> pyval \<Rightarrow> bool" where
  "out_on_another_memo state entity_id source_memo_id =
     (let holder = dget state ''status_doc_id'' in
      str_is (dget state ''status'') ''memo_out''
      \<and> (\<not> truthy holder \<or> (\<not> py_eq holder entity_id \<and> \<not> py_eq holder source_memo_id)))"

definition held_elsewhere :: "dict \<Rightarrow> pyval \<Rightarrow> pyval \<Rightarrow> pyval \<Rightarrow> bool" where
  "held_elsewhere item doc_id line_id source_memo_id =
     (if out_on_another_memo item doc_id source_memo_id then True
      else if status_lower item \<noteq> ''reserved'' then False
      else if demand_claim item doc_id = None then True
      else let holder = dget item ''status_line_entity_id'' in truthy holder \<and> \<not> py_eq holder line_id)"

definition in_stock :: "dict \<Rightarrow> bool" where
  "in_stock s =
     (\<not> List.member OFF_BOOKS (status_lower s)
      \<and> (\<not> List.member RETIRED (status_lower s) \<or> dget s ON_BOOKS_FIELD = PBool True))"

definition is_stock_type :: "dict \<Rightarrow> bool res" where
  "is_stock_type s = in_set (py_or (dget s ''inventory_type'') (PStr ''stocked'')) STOCK_TYPES"

definition ready_to_ship :: "dict \<Rightarrow> bool res" where
  "ready_to_ship s =
     rmap (\<lambda>t. t \<and> in_stock s \<and> \<not> List.member RETIRED (status_lower s) \<and> status_lower s \<noteq> ''memo_out'') (is_stock_type s)"

definition stamp_status_doc :: "dict \<Rightarrow> dict \<Rightarrow> dict" where
  "stamp_status_doc current data =
     (let src = dget data ''source_doc_id'';
          c1 = (if truthy src
                then dput ''status_doc_number'' (py_or (dget data ''doc_number'') (PStr [])) (dput ''status_doc_id'' src current)
                else ddels [''status_doc_id'', ''status_doc_number''] current)
      in if truthy src \<and> str_is (dget c1 ''status'') ''reserved'' \<and> truthy (dget data ''source_line_entity_id'')
         then dput ''status_line_entity_id'' (dget data ''source_line_entity_id'') c1
         else ddel ''status_line_entity_id'' c1)"

definition keep_on_books :: "dict \<Rightarrow> dict \<Rightarrow> string \<Rightarrow> dict \<Rightarrow> dict" where
  "keep_on_books before after event_type data =
     (let status = status_lower after;
          kept = (if event_type = ''item.inventory_on_books.recorded'' then List.member RETIRED status
                  else if dget data ON_BOOKS_FIELD = PBool True \<and> List.member RETIRED status then in_stock before
                  else truthy (dget before ON_BOOKS_FIELD) \<and> status = status_lower before)
      in if kept then dput ON_BOOKS_FIELD (PBool True) after else ddel ON_BOOKS_FIELD after)"

section \<open>Units\<close>

definition sync_expiry :: "dict \<Rightarrow> dict res" where
  "sync_expiry state =
     (let attrs = py_or (dget state ''attributes'') (PDict []) in
      rbind (vget attrs ''expiry_date'') (\<lambda>e.
      rbind (if truthy e then Inr e else vget attrs ''warranty_exp'') (\<lambda>v.
      Inr (case v of PStr s \<Rightarrow> if py_strip s \<noteq> [] then dput ''expires_at'' (PStr (py_strip s)) state else state
                   | _ \<Rightarrow> state))))"

definition migrate_sell_by :: "dict \<Rightarrow> dict res" where
  "migrate_sell_by state =
     (if \<not> str_is (dget state ''sell_by'') ''weight'' then Inr state
      else let weight_unit = py_or (dget state ''weight_unit'') (PStr ''ct'') in
           rbind (table_get WEIGHT_UNIT_MAP weight_unit) (\<lambda>u.
           let c1 = dput ''sell_by'' (case u of Some n \<Rightarrow> PStr n | None \<Rightarrow> weight_unit) state;
               weight = dget c1 ''weight''
           in rbind (if weight = PNone then Inr c1
                     else rbind (fget c1 ''quantity'') (\<lambda>qty.
                          rbind (if 1 < qty
                                 then rmap (\<lambda>a. dput ''attributes'' (PDict (dput ''pieces'' (PFloat qty) a)) c1) (dict_or c1 ''attributes'')
                                 else Inr c1) (\<lambda>c2.
                          rmap (\<lambda>w. dput ''quantity'' (PFloat w) c2) (py_float weight)))) (\<lambda>c3.
              Inr (ddels [''weight'', ''weight_unit''] c3))))"

section \<open>Cost\<close>

text \<open>Landed cost by the bill and kind it came from.\<close>

type_synonym pools = "(string \<times> rat) list"

definition pool_dict :: "pools \<Rightarrow> dict" where
  "pool_dict ps = map (\<lambda>(k, v). (k, PFloat v)) ps"

text \<open>\<open>float(v or 0)\<close>.\<close>

definition float_or0 :: "pyval \<Rightarrow> rat res" where
  "float_or0 v = py_float (py_or v (PInt 0))"

definition put_pools :: "dict \<Rightarrow> dict \<Rightarrow> dict" where
  "put_pools pools current = (if pools \<noteq> [] then dput ''landed_costs'' (PDict pools) current else ddel ''landed_costs'' current)"

definition landed_pools_from_units :: "dict \<Rightarrow> dict res" where
  "landed_pools_from_units current0 =
     (let units = dget current0 ''landed_contributions''; current = ddel ''landed_contributions'' current0 in
      if \<not> truthy units then Inr current
      else rbind (fget current ''quantity'') (\<lambda>qty.
           rbind (dict_or current ''landed_costs'') (\<lambda>pools.
           rbind (as_dict units) (\<lambda>us.
           rbind (foldR (\<lambda>ps (k, u). rbind (float_or0 u) (\<lambda>x.
                    if x \<noteq> 0 \<and> 0 < qty then rmap (\<lambda>y. dput k (PFloat (fmul y qty)) ps) (py_float u) else Inr ps)) pools us) (\<lambda>ps.
           Inr (put_pools ps current))))))"

definition set_landed_pools :: "dict \<Rightarrow> dict \<Rightarrow> dict res" where
  "set_landed_pools current pools =
     rbind (filterR (\<lambda>(k, v). rmap (\<lambda>x. x \<noteq> 0) (float_or0 v)) pools) (\<lambda>some.
     rbind (mapR (\<lambda>(k, v). rmap (\<lambda>x. (k, PFloat x)) (py_float v)) some) (\<lambda>kept.
     Inr (put_pools kept current)))"

text \<open>The amounts of a stored table of pools: \<open>float(v or 0) for v in pools.values()\<close>.\<close>

definition pool_values :: "pyval \<Rightarrow> rat list res" where
  "pool_values v = rbind (as_dict v) (mapR (float_or0 \<circ> snd))"

text \<open>The end of \<open>_recompute_cost\<close>, once the lot has a basis.\<close>

definition derive_cost :: "dict \<Rightarrow> dict res" where
  "derive_cost current =
     rbind (fget current ''cost_base'') (\<lambda>base.
     rbind (pool_values (py_or (dget current ''landed_costs'') (PDict []))) (\<lambda>vs.
     rbind (round_basis (PFloat (fsum vs))) (\<lambda>landed.
     rbind (round_basis (PFloat (fadd base landed))) (\<lambda>tot.
     Inr (ddel ''cost_price'' (dput ''cost_total'' (PFloat tot) (dput ''cost_landed'' (PFloat landed) current)))))))"

definition recompute_cost :: "dict \<Rightarrow> dict res" where
  "recompute_cost current =
     (let pools = py_or (dget current ''landed_costs'') (PDict []) in
      rbind (fget current ''quantity'') (\<lambda>qty.
      if dget current ''cost_base'' \<noteq> PNone then derive_cost current
      else if dget current ''cost_total'' \<noteq> PNone
      then rbind (py_float (dget current ''cost_total'')) (\<lambda>b. derive_cost (dput ''cost_base'' (PFloat b) current))
      else if dget current ''cost_price'' \<noteq> PNone
      then if qty \<le> 0 then Inr current
           else rbind (py_float (dget current ''cost_price'')) (\<lambda>p.
                rbind (round_basis (PFloat (fmul p qty))) (\<lambda>b. derive_cost (dput ''cost_base'' (PFloat b) current)))
      else if \<not> truthy pools then Inr current
      else derive_cost (dput ''cost_base'' (PFloat 0) current)))"

definition apply_goods_cost :: "dict \<Rightarrow> string \<Rightarrow> pyval \<Rightarrow> pyval \<Rightarrow> dict res" where
  "apply_goods_cost current field value unknown =
     (let c1 = ddels [''cost_base'', ''cost_price'', ''cost_total'', ''cost_landed'', GOODS_COST_UNKNOWN] current in
      rbind (if blank value then Inr c1
             else if field = ''cost_total'' then rmap (\<lambda>b. dput ''cost_base'' (PFloat b) c1) (round_basis value)
             else rmap (\<lambda>p. dput ''cost_price'' (PFloat p) c1) (py_float value)) (\<lambda>c2.
      rbind (recompute_cost c2) (\<lambda>c3.
      Inr (if truthy unknown then dput GOODS_COST_UNKNOWN (PBool True) c3 else c3))))"

definition set_unknown :: "dict \<Rightarrow> dict \<Rightarrow> dict" where
  "set_unknown current data =
     (case map_of data GOODS_COST_UNKNOWN of None \<Rightarrow> current
      | Some v \<Rightarrow> if truthy v then dput GOODS_COST_UNKNOWN (PBool True) current else ddel GOODS_COST_UNKNOWN current)"

text \<open>\<open>{k: float(v or 0) for k, v in d.items()}\<close>.\<close>

definition read_pools :: "pyval \<Rightarrow> pools res" where
  "read_pools v = rbind (as_dict v) (mapR (\<lambda>(k, x). rmap (Pair k) (float_or0 x)))"

text \<open>A lot without an explicit basis: the goods basis scales with the quantity, pools shrink
  with units that leave, and at zero the whole unit cost is kept.\<close>

definition scale_cost :: "dict \<Rightarrow> pools \<Rightarrow> bool \<Rightarrow> rat \<Rightarrow> rat \<Rightarrow> (dict \<times> pools) res" where
  "scale_cost current pools own_pools old_qty qty =
     (let basis = (if dget current ''cost_base'' = PNone then dget current ''cost_total'' else dget current ''cost_base'') in
      if 0 < old_qty \<and> (basis \<noteq> PNone \<or> pools \<noteq> [])
      then if 0 < qty
           then rbind (if basis \<noteq> PNone
                       then rbind (py_float basis) (\<lambda>b. rmap (\<lambda>x. dput ''cost_base'' (PFloat x) current) (fdiv (fmul b qty) old_qty))
                       else Inr current) (\<lambda>c.
                rbind (if \<not> own_pools \<and> qty < old_qty
                       then mapR (\<lambda>(k, v). rmap (Pair k) (fdiv (fmul v qty) old_qty)) pools
                       else Inr pools) (\<lambda>ps. Inr (c, ps)))
           else let c = ddels [''cost_base'', ''cost_total'', ''cost_landed''] current in
                rbind (float_or0 basis) (\<lambda>b.
                rbind (fdiv (fadd b (fsum (map snd pools))) old_qty) (\<lambda>unit.
                Inr (dput ''cost_price'' (PFloat unit) c, [])))
      else Inr (current, pools))"

definition set_quantity :: "dict \<Rightarrow> pyval \<Rightarrow> pyval \<Rightarrow> pyval \<Rightarrow> dict res" where
  "set_quantity current new_qty cost_base landed_costs =
     rbind (fget current ''quantity'') (\<lambda>old_qty.
     rbind (float_or0 new_qty) (\<lambda>qty.
     rbind (read_pools (py_or (dget current ''landed_costs'') (PDict []))) (\<lambda>pools0.
     rbind (if landed_costs \<noteq> PNone then read_pools landed_costs else Inr pools0) (\<lambda>pools.
     rbind (if cost_base \<noteq> PNone
            then rmap (\<lambda>b. (ddel ''cost_price'' (dput ''cost_base'' (PFloat b) current), pools)) (py_float cost_base)
            else scale_cost current pools (landed_costs \<noteq> PNone) old_qty qty) (\<lambda>(c, ps).
     rbind (set_landed_pools c (pool_dict ps)) (\<lambda>c2.
     recompute_cost (dput ''quantity'' new_qty c2)))))))"

section \<open>Rules on goods costs\<close>

definition GOODS_COST_KEYS :: "string list" where
  "GOODS_COST_KEYS = [''cost_price'', ''cost_total'', ''cost_base'']"

definition UNKNOWN_FLAG_EVENTS :: "string list" where
  "UNKNOWN_FLAG_EVENTS = [''item.created'', ''item.snapshot'', ''item.updated'', ''item.pricing.set'',
     ''item.cost_adjusted'', ''item.quantity.adjusted'']"

definition COST_SETTING_EVENTS :: "string list" where
  "COST_SETTING_EVENTS = [''item.created'', ''item.snapshot'', ''item.patched'', ''item.quantity.adjusted'', ''item.cost_adjusted'']"

definition refusal :: "string \<Rightarrow> string \<Rightarrow> dict \<Rightarrow> dict" where
  "refusal key message params = [(''message'', PStr message), (''message_key'', PStr key), (''params'', PDict params)]"

definition lot_label :: "dict \<Rightarrow> string \<Rightarrow> string" where
  "lot_label state entity_id = py_str (py_or (py_or (dget state ''sku'') (dget state ''name'')) (PStr entity_id))"

text \<open>\<open>except (TypeError, ValueError)\<close>.\<close>

definition type_or_value :: "py_exc \<Rightarrow> bool" where
  "type_or_value e = (e = TypeError \<or> is_value_error e)"

fun negative_cost_error :: "string \<Rightarrow> pyval list \<Rightarrow> dict option res" where
  "negative_cost_error label [] = Inr None"
| "negative_cost_error label (v # vs) =
     (if blank v then negative_cost_error label vs
      else rbind (rtry type_or_value (rmap (\<lambda>x. x < 0) (py_float v)) (Inr False)) (\<lambda>negative.
           if negative
           then Inr (Some (refusal ''inventory.err_cost_negative'' (label @ '': a cost cannot be negative'') [(''lot'', PStr label)]))
           else negative_cost_error label vs))"

definition written_goods_costs :: "string \<Rightarrow> dict \<Rightarrow> dict res" where
  "written_goods_costs event_type data =
     (if event_type = ''item.updated''
      then rbind (as_dict (py_or (dget data ''fields_changed'') (PDict []))) (\<lambda>changes.
           mapR (\<lambda>k. rmap (Pair k) (vget (py_or (dget changes k) (PDict [])) ''new'')) (filter (dhas changes) GOODS_COST_KEYS))
      else if event_type = ''item.pricing.set''
      then Inr (case dget data ''price_type'' of
                  PStr k \<Rightarrow> if List.member GOODS_COST_KEYS k then [(k, dget data ''new_price'')] else []
                | _ \<Rightarrow> [])
      else if List.member COST_SETTING_EVENTS event_type
      then Inr (map (\<lambda>k. (k, dget data k)) (filter (dhas data) GOODS_COST_KEYS))
      else Inr [])"

definition event_goods_costs :: "string \<Rightarrow> dict \<Rightarrow> pyval list res" where
  "event_goods_costs event_type data = rmap (map snd) (written_goods_costs event_type data)"

definition writes_goods_cost :: "string \<Rightarrow> dict \<Rightarrow> bool res" where
  "writes_goods_cost event_type data = rmap (\<lambda>d. d \<noteq> []) (written_goods_costs event_type data)"

definition clears_goods_cost :: "string \<Rightarrow> dict \<Rightarrow> bool res" where
  "clears_goods_cost event_type data = rmap (list_ex (blank \<circ> snd)) (written_goods_costs event_type data)"

definition unknown_flag_error :: "string \<Rightarrow> dict \<Rightarrow> dict option" where
  "unknown_flag_error event_type data =
     (if dhas data GOODS_COST_UNKNOWN \<and> \<not> List.member UNKNOWN_FLAG_EVENTS event_type
      then Some (refusal ''inventory.err_cost_unknown_flag'' (event_type @ '' cannot record whether a goods cost is known'')
                   [(''event'', PStr event_type)])
      else if event_type = ''item.patched'' \<and> list_ex (dhas data) GOODS_COST_KEYS
      then Some (refusal ''inventory.err_cost_in_patch'' ''a patch cannot set a goods cost'' [])
      else None)"

end
