(* ===== verification/MfgProj.thy ===== *)
theory MfgProj
  imports Money ContactProj ItemCost
begin

text \<open>
  \<open>celerp_manufacturing/projection_handler.py\<close>: a manufacturing run as the fold of its events:
  its status, what each input line was issued with its value, what was received, and the work
  in process it holds, as exact decimals kept as text.
\<close>

section \<open>Tables keyed by a value\<close>

text \<open>A dictionary keyed by any hashable value: an association list on canonical keys.\<close>

type_synonym 'a vmap = "(pyval \<times> 'a) list"

definition hkey :: "pyval \<Rightarrow> pyval res" where
  "hkey v = (if hashable v then Inr (canon v) else Inl TypeError)"

text \<open>\<open>table.pop(v, None)\<close>.\<close>

definition vpop :: "pyval \<Rightarrow> 'a vmap \<Rightarrow> ('a option \<times> 'a vmap) res" where
  "vpop v m = rmap (\<lambda>k. (map_of m k, AList.delete k m)) (hkey v)"

section \<open>Amounts kept as text\<close>

text \<open>\<open>_money(value)\<close> of a value, and of a decimal: a zero prints as 0.\<close>

definition money_text :: "pyval \<Rightarrow> pyval res" where
  "money_text v = rmap (PStr \<circ> dec_str) (to_decimal0 v)"

definition dec_or0 :: "dec \<Rightarrow> dec res" where
  "dec_or0 d = (if dec_true d then to_decimal (PStr (dec_str d)) else Inr (Fin 0 0))"

definition money_dec :: "dec \<Rightarrow> pyval res" where
  "money_dec d = rmap (PStr \<circ> dec_str) (dec_or0 d)"

text \<open>\<open>Decimal(v)\<close>: a float exactly.\<close>

definition dec_exact :: "rat \<Rightarrow> dec" where
  "dec_exact x = (let (n, d) = quotient_of x; k = nat (ilen 2 d) - 1 in Fin (n * 5 ^ k) (- int k))"

fun to_dec_exact :: "pyval \<Rightarrow> dec res" where
  "to_dec_exact (PBool b) = Inr (Fin (of_bool b) 0)"
| "to_dec_exact (PInt i) = Inr (Fin i 0)"
| "to_dec_exact (PFloat x) = Inr (dec_exact x)"
| "to_dec_exact (PStr s) = (case parse_dec s of None \<Rightarrow> Inl ArithmeticError | Some d \<Rightarrow> Inr d)"
| "to_dec_exact (PList _) = Inl ValueError"
| "to_dec_exact _ = Inl TypeError"

text \<open>\<open>_add(current, key, value)\<close>, the value as the decimal \<open>Decimal(str(value or 0))\<close>.\<close>

definition add_money :: "string \<Rightarrow> dec res \<Rightarrow> dict \<Rightarrow> dict res" where
  "add_money key amount current =
     rbind (to_dec_exact (py_or (dget current key) (PStr ''0''))) (\<lambda>a. rbind amount (\<lambda>b.
     rbind (dadd a b) (\<lambda>c. rmap (\<lambda>v. dput key v current) (money_dec c))))"

definition add_value :: "string \<Rightarrow> pyval \<Rightarrow> dict \<Rightarrow> dict res" where
  "add_value key v current = add_money key (to_decimal0 v) current"

definition add_dec :: "string \<Rightarrow> dec \<Rightarrow> dict \<Rightarrow> dict res" where
  "add_dec key d current = add_money key (dec_or0 d) current"

text \<open>\<open>Decimal(str(v))\<close> and \<open>-Decimal(str(v))\<close>.\<close>

definition dec_of_str :: "pyval \<Rightarrow> dec res" where
  "dec_of_str v = (if v = PNone then Inl ArithmeticError else to_decimal v)"

definition take_back :: "string \<Rightarrow> pyval res \<Rightarrow> dict \<Rightarrow> dict res" where
  "take_back key v current = rbind v (\<lambda>x. rbind (dec_of_str x) (\<lambda>d. rbind (dneg d) (\<lambda>n. add_dec key n current)))"

section \<open>The run's lines\<close>

definition WIP_FACTS :: "string list" where
  "WIP_FACTS = [''wip_issued'', ''wip_transferred'', ''wip_wasted'', ''wip_account_code'', ''wip_untracked'',
     ''wip_unresolved'', ''receipts'', ''closing'']"

definition CLOSED_FIELDS :: "string list" where
  "CLOSED_FIELDS = [''status'', ''is_in_production'', ''actual_outputs'', ''waste'', ''labor_hours'', ''wip_transferred'', ''wip_wasted'']"

definition positive_line :: "dict \<Rightarrow> bool res" where
  "positive_line line = rmap (\<lambda>q. 0 < q) (float_or0 (dget line ''quantity''))"

text \<open>\<open>expansion.merge_inputs\<close>: one line per component, in first-seen order.\<close>

definition merge_input :: "dict vmap \<Rightarrow> dict \<Rightarrow> dict vmap res" where
  "merge_input merged line =
     rbind (rbind (dkey line ''item_id'') hkey) (\<lambda>k.
       case map_of merged k of
         Some m \<Rightarrow> rbind (rbind (dkey m ''quantity'') py_float) (\<lambda>a.
                   rmap (\<lambda>b. AList.update k (dput ''quantity'' (PFloat (round_float (fadd a b) 6)) m) merged)
                     (rbind (dkey line ''quantity'') py_float))
       | None \<Rightarrow> rmap (\<lambda>b. AList.update k (dput ''quantity'' (PFloat b) line) merged) (rbind (dkey line ''quantity'') py_float))"

definition merge_inputs :: "dict list \<Rightarrow> dict list res" where
  "merge_inputs lines = rmap (map snd) (foldR merge_input [] lines)"

definition dict_rows :: "pyval list \<Rightarrow> dict list res" where
  "dict_rows vs = mapR as_dict vs"

text \<open>Items a release stored as text or numbers cannot be assigned a key: TypeError.\<close>

definition row_for_write :: "pyval \<Rightarrow> dict res" where
  "row_for_write v = (case v of PDict d \<Rightarrow> Inr d | _ \<Rightarrow> Inl TypeError)"

text \<open>\<open>_held\<close>: each listed component's quantity and value on its line, the rest on lines of their own.\<close>

definition held_table :: "dict \<Rightarrow> (pyval \<times> dict) vmap res" where
  "held_table data =
     rbind (rows_or data ''components'') (foldR (\<lambda>m v.
       rbind (vsub v ''item_id'') (\<lambda>i. rbind (hkey i) (\<lambda>k. rmap (\<lambda>c.
         AList.update k (case map_of m k of Some (j, _) \<Rightarrow> (j, c) | None \<Rightarrow> (i, c)) m) (row_for_write v)))) [])"

definition held_line :: "(pyval \<times> dict) vmap \<times> pyval list \<Rightarrow> pyval \<Rightarrow> ((pyval \<times> dict) vmap \<times> pyval list) res" where
  "held_line st v =
     (let (held, out) = st in
      rbind (row_for_write v) (\<lambda>r0.
      let inp = ddel ''issued_value'' (dput ''issued_qty'' (PFloat 0) r0) in
      rbind (positive_line inp) (\<lambda>pos.
      rbind (if pos then vpop (dget inp ''item_id'') held else Inr (None, held)) (\<lambda>(c, held').
        case c of
          Some (_, d) \<Rightarrow> rbind (rbind (dkey d ''quantity'') py_float) (\<lambda>q. rbind (rbind (dkey d ''value'') money_text) (\<lambda>m.
            Inr (held', out @ [PDict (dput ''issued_value'' m (dput ''issued_qty'' (PFloat q) inp))])))
        | None \<Rightarrow> Inr (held', out @ [PDict (ddel GOODS_COST_UNKNOWN inp)])))))"

definition own_line :: "pyval \<times> dict \<Rightarrow> pyval list res" where
  "own_line ic =
     (let (i, c) = ic in
      rbind (rbind (dkey c ''quantity'') py_float) (\<lambda>q.
      if 0 < q then rmap (\<lambda>m. [PDict [(''item_id'', i), (''quantity'', PFloat q), (''issued_qty'', PFloat q), (''issued_value'', m)]])
                         (rbind (dkey c ''value'') money_text)
      else Inr []))"

definition set_held :: "dict \<Rightarrow> dict \<Rightarrow> dict res" where
  "set_held data current =
     rbind (held_table data) (\<lambda>held.
     rbind (rows current ''inputs'') (\<lambda>inputs.
     rbind (foldR held_line (held, []) inputs) (\<lambda>(rest, lines).
     rbind (mapR (own_line \<circ> snd) rest) (\<lambda>own.
     Inr (dput ''inputs'' (PList (lines @ concat own)) current)))))"

section \<open>Events\<close>

definition merge_part :: "dict \<Rightarrow> (string \<Rightarrow> bool) \<Rightarrow> dict" where
  "merge_part d keep = filter (\<lambda>(k, v). keep k) d"

definition run_created :: "dict \<Rightarrow> dict \<Rightarrow> dict res" where
  "run_created state data =
     (let c0 = dmerge state (dmerge (of_kind ''mfg_order'') (merge_part data (\<lambda>k. \<not> List.member WIP_FACTS k)));
          c1 = dsetdefault ''received_lots'' (PList []) (dsetdefault ''received_qty'' (PFloat 0)
                 (dsetdefault ''actual_outputs'' (PList []) (dsetdefault ''is_in_production'' (PBool False)
                   (dsetdefault ''status'' (PStr ''planned'') c0))))
      in rbind (rbind (rows c1 ''inputs'') dict_rows) (\<lambda>inputs.
         let lines = map (\<lambda>i. merge_part i (\<lambda>k. \<not> List.member [''issued_qty'', ''issued_value'', GOODS_COST_UNKNOWN] k)) inputs in
         rbind (filterR positive_line lines) (\<lambda>valid.
         rbind (merge_inputs valid) (\<lambda>merged.
         rbind (filterR (\<lambda>i. rmap Not (positive_line i)) lines) (\<lambda>odd.
         Inr (dput ''inputs'' (PList (map (\<lambda>i. PDict (dput ''issued_qty'' (PFloat 0) i)) (merged @ odd))) c1))))))"

definition set_production :: "string \<Rightarrow> bool \<Rightarrow> dict \<Rightarrow> dict" where
  "set_production status b current = dput ''is_in_production'' (PBool b) (dput ''status'' (PStr status) current)"

definition run_started :: "dict \<Rightarrow> dict \<Rightarrow> dict res" where
  "run_started state data = Inr (set_production ''in_progress'' True state)"

definition run_on_hold :: "dict \<Rightarrow> dict \<Rightarrow> dict res" where
  "run_on_hold state data = Inr (copy_as ''hold_reason'' ''reason'' data (set_production ''on_hold'' False state))"

definition run_resumed :: "dict \<Rightarrow> dict \<Rightarrow> dict res" where
  "run_resumed state data = Inr (ddel ''hold_reason'' (set_production ''in_progress'' True state))"

text \<open>What an issue says of each item: its quantity, its value when stated, and whether its cost is unknown.\<close>

definition issue_item :: "rat vmap \<times> dec vmap \<Rightarrow> dict \<Rightarrow> (rat vmap \<times> dec vmap) res" where
  "issue_item st i =
     (let (issued, values) = st in
      rbind (hkey (dget i ''item_id'')) (\<lambda>k.
      rbind (float_or0 (dget i ''quantity'')) (\<lambda>q.
      let issued' = AList.update k (fadd (case map_of issued k of Some x \<Rightarrow> x | None \<Rightarrow> 0) q) issued in
      case map_of i ''value'' of
        None \<Rightarrow> Inr (issued', values)
      | Some v \<Rightarrow> rbind (case map_of values k of Some d \<Rightarrow> dec_or0 d | None \<Rightarrow> Inr (Fin 0 0)) (\<lambda>a.
                  rbind (dec_of_str v) (\<lambda>b. rbind (dadd a b) (\<lambda>c. Inr (issued', AList.update k c values)))))))"

definition issue_line :: "dec vmap \<Rightarrow> pyval list \<Rightarrow> rat vmap \<times> pyval list \<Rightarrow> dict \<Rightarrow> (rat vmap \<times> pyval list) res" where
  "issue_line values unknown st inp =
     (let (issued, out) = st in
      rbind (hkey (dget inp ''item_id'')) (\<lambda>k.
        case map_of issued k of
          None \<Rightarrow> Inr (issued, out @ [PDict inp])
        | Some q \<Rightarrow>
            rbind (case map_of values k of
                     Some d \<Rightarrow> if dget inp ''issued_value'' \<noteq> PNone \<or> \<not> truthy (dget inp ''issued_qty'')
                               then add_dec ''issued_value'' d inp else Inr (ddel ''issued_value'' inp)
                   | None \<Rightarrow> Inr (ddel ''issued_value'' inp)) (\<lambda>i1.
            rbind (float_or0 (dget i1 ''issued_qty'')) (\<lambda>x.
            let i2 = dput ''issued_qty'' (PFloat (fadd x q)) i1;
                i3 = (if List.member unknown k then dput GOODS_COST_UNKNOWN (PBool True) i2 else i2)
            in Inr (AList.delete k issued, out @ [PDict i3])))))"

definition run_issued :: "dict \<Rightarrow> dict \<Rightarrow> dict res" where
  "run_issued state data =
     (let st = dget state ''status'';
          c0 = (if st = PNone \<or> str_in st [''planned'', ''on_hold''] then set_production ''in_progress'' True state else state);
          c1 = ddel ''hold_reason'' c0 in
      rbind (rbind (rows data ''items'') dict_rows) (\<lambda>items.
      rbind (mapR (\<lambda>i. hkey (dget i ''item_id'')) (filter (\<lambda>i. truthy (dget i GOODS_COST_UNKNOWN)) items)) (\<lambda>unknown.
      rbind (foldR issue_item ([], []) items) (\<lambda>(issued, values).
      rbind (rbind (rows c1 ''inputs'') dict_rows) (\<lambda>inputs.
      rbind (foldR (issue_line values unknown) (issued, []) inputs) (\<lambda>(_, lines).
      let c2 = put_rows ''inputs'' lines c1 in
      case map_of data ''value'' of
        Some v \<Rightarrow> rmap (copy_if ''wip_account_code'' data) (add_value ''wip_issued'' v c2)
      | None \<Rightarrow> Inr (if truthy (dget data ''items'') then dput ''wip_untracked'' (PBool True) c2 else c2)))))))"

text \<open>\<open>max(0.0, round(float(x or 0) - y, 9))\<close>.\<close>

definition less_down :: "pyval \<Rightarrow> rat \<Rightarrow> rat res" where
  "less_down x y = rmap (\<lambda>a. max 0 (round_float (fsub a y) 9)) (float_or0 x)"

definition return_line :: "dict vmap \<times> pyval list \<Rightarrow> dict \<Rightarrow> (dict vmap \<times> pyval list) res" where
  "return_line st inp =
     (let (returned, out) = st in
      rbind (vpop (dget inp ''item_id'') returned) (\<lambda>(l, returned').
        case l of
          None \<Rightarrow> Inr (returned', out @ [PDict inp])
        | Some line \<Rightarrow>
            rbind (float_or0 (dget inp ''issued_qty'')) (\<lambda>_.
            rbind (rbind (dkey line ''quantity'') py_float) (\<lambda>q.
            rbind (less_down (dget inp ''issued_qty'') q) (\<lambda>left.
            rbind (take_back ''issued_value'' (dkey line ''value'') (dput ''issued_qty'' (PFloat left) inp)) (\<lambda>i1.
            Inr (returned', out @ [PDict (if left = 0 then ddel GOODS_COST_UNKNOWN i1 else i1)])))))))"

definition run_returned :: "dict \<Rightarrow> dict \<Rightarrow> dict res" where
  "run_returned state data =
     rbind (rbind (rows data ''items'') dict_rows) (\<lambda>items.
     rbind (foldR (\<lambda>m i. rmap (\<lambda>k. AList.update k i m) (hkey (dget i ''item_id''))) [] items) (\<lambda>returned.
     rbind (rbind (rows state ''inputs'') dict_rows) (\<lambda>inputs.
     rbind (foldR return_line (returned, []) inputs) (\<lambda>(_, lines).
     take_back ''wip_issued'' (dkey data ''value'') (put_rows ''inputs'' lines state)))))"

definition run_received :: "dict \<Rightarrow> dict \<Rightarrow> dict res" where
  "run_received state data =
     rbind (float_or0 (dget state ''received_qty'')) (\<lambda>a. rbind (float_or0 (dget data ''quantity'')) (\<lambda>b.
     let c1 = dput ''received_qty'' (PFloat (fadd a b)) state; lot_id = dget data ''lot_item_id'' in
     rbind (if truthy lot_id
            then rmap (\<lambda>lots. dput ''received_lots'' (PList (if list_ex (py_eq lot_id) lots then lots else lots @ [lot_id])) c1)
                   (rows_or c1 ''received_lots'')
            else Inr c1) (\<lambda>c2.
     case map_of data ''value'' of
       Some v \<Rightarrow> rbind (add_value ''wip_transferred'' v c2) (\<lambda>c3.
                 rbind (rows_or c3 ''receipts'') (\<lambda>rs. rbind (money_text v) (\<lambda>m.
                 Inr (dput ''receipts'' (PList (rs @ [PDict [(''lot_item_id'', lot_id), (''quantity'', PFloat b), (''value'', m)]])) c3))))
     | None \<Rightarrow> Inr (dput ''wip_untracked'' (PBool True) c2))))"

definition run_scheduled :: "dict \<Rightarrow> dict \<Rightarrow> dict res" where
  "run_scheduled state data =
     Inr (foldl (\<lambda>c k. case map_of data k of Some v \<Rightarrow> dput k (py_or v PNone) c | None \<Rightarrow> c) state
       [''due_date'', ''planned_start'', ''priority''])"

definition run_receipt_undone :: "dict \<Rightarrow> dict \<Rightarrow> dict res" where
  "run_receipt_undone state data =
     (let lot_id = dget data ''lot_item_id'' in
      rbind (float_or0 (dget state ''received_qty'')) (\<lambda>_.
      rbind (rbind (dkey data ''quantity'') py_float) (\<lambda>q.
      rbind (less_down (dget state ''received_qty'') q) (\<lambda>left.
      let c1 = dput ''received_qty'' (PFloat left) state in
      rbind (rows_or c1 ''received_lots'') (\<lambda>lots.
      let c2 = dput ''received_lots'' (PList (filter (\<lambda>l. \<not> py_eq l lot_id) lots)) c1 in
      rbind (rbind (rows_or c2 ''receipts'') (filter_rows (\<lambda>r. Inr (\<not> py_eq (dget r ''lot_item_id'') lot_id)))) (\<lambda>rs.
      take_back ''wip_transferred'' (dkey data ''value'') (dput ''receipts'' (PList rs) c2)))))))"

text \<open>\<open>{k: before[k] for k in _CLOSED if k in before}\<close>: a list holding the name, or text it is
  part of, has no such key.\<close>

fun holds_text :: "string \<Rightarrow> string \<Rightarrow> bool" where
  "holds_text k [] = (k = [])"
| "holds_text k (c # cs) = (starts_with k (c # cs) \<or> holds_text k cs)"

definition picked :: "pyval \<Rightarrow> dict res" where
  "picked before =
     (case before of
        PDict b \<Rightarrow> Inr (concat (map (\<lambda>k. case map_of b k of Some v \<Rightarrow> [(k, v)] | None \<Rightarrow> []) CLOSED_FIELDS))
      | PList vs \<Rightarrow> if list_ex (\<lambda>k. List.member vs (PStr k)) CLOSED_FIELDS then Inl TypeError else Inr []
      | PStr t \<Rightarrow> if list_ex (\<lambda>k. holds_text k t) CLOSED_FIELDS then Inl TypeError else Inr []
      | _ \<Rightarrow> Inl TypeError)"

definition reopened :: "dict \<Rightarrow> dict res" where
  "reopened state =
     (let current = merge_part state (\<lambda>k. k \<noteq> ''closing'' \<and> \<not> List.member CLOSED_FIELDS k) in
      rbind (vget (py_or (dget state ''closing'') (PDict [])) ''before'') (\<lambda>b.
      rmap (dmerge current) (picked (py_or b (PDict [])))))"

definition run_reopened :: "dict \<Rightarrow> dict \<Rightarrow> dict res" where
  "run_reopened state data = reopened state"

definition run_completed :: "dict \<Rightarrow> dict \<Rightarrow> dict res" where
  "run_completed state data =
     rbind (if dget data ''closing'' \<noteq> PNone
            then rbind (row_for_write (dget data ''closing'')) (\<lambda>cl.
                 rmap (\<lambda>b. dput ''closing'' (PDict (dput ''before'' (PDict b) cl)) state) (picked (PDict state)))
            else Inr state) (\<lambda>c1.
     let c2 = copy_not_none ''labor_hours'' ''labor_hours'' data (copy_not_none ''waste'' ''waste'' data
                (copy_not_none ''actual_outputs'' ''actual_outputs'' data (set_production ''completed'' False c1))) in
     case map_of data ''transferred'' of
       Some v \<Rightarrow> rbind (money_text v) (\<lambda>t. rbind (money_text (dget data ''wasted'')) (\<lambda>w.
                 Inr (dput ''wip_wasted'' w (dput ''wip_transferred'' t c2))))
     | None \<Rightarrow> Inr c2)"

text \<open>What both ways of settling an older run record of its value.\<close>

definition settle_wip :: "(dict \<Rightarrow> dict) \<Rightarrow> dict \<Rightarrow> dict \<Rightarrow> dict res" where
  "settle_wip forget data current =
     rbind (money_text (dget data ''issued'')) (\<lambda>i. rbind (money_text (dget data ''transferred'')) (\<lambda>t.
     rbind (rows_or data ''receipts'') (\<lambda>rs.
     Inr (ddels [''wip_untracked'', ''wip_unresolved''] (copy_if ''wip_account_code'' data
       (dput ''receipts'' (PList rs) (forget (dput ''wip_transferred'' t (dput ''wip_issued'' i current)))))))))"

definition run_wip_opened :: "dict \<Rightarrow> dict \<Rightarrow> dict res" where
  "run_wip_opened state data =
     rbind (if dhas data ''components'' then set_held data state else Inr state) (settle_wip id data)"

definition run_wip_reconciled :: "dict \<Rightarrow> dict \<Rightarrow> dict res" where
  "run_wip_reconciled state data = rbind (set_held data state) (settle_wip (ddel ''wip_wasted'') data)"

definition run_output_repaired :: "dict \<Rightarrow> dict \<Rightarrow> dict res" where
  "run_output_repaired state data =
     rbind (float_or0 (dget state ''received_qty'')) (\<lambda>_.
     rbind (float_or0 (dget data ''discarded'')) (\<lambda>d.
     rbind (less_down (dget state ''received_qty'') d) (\<lambda>left.
     let c1 = dput ''received_qty'' (PFloat left) state in
     rbind (if truthy (dget data ''output_item_id'')
            then rmap (\<lambda>xs. dput ''expected_outputs'' (PList xs) (dput ''output_item_id'' (dget data ''output_item_id'') c1))
                   (rows_or data ''expected_outputs'')
            else Inr c1) (\<lambda>c2.
     Inr (if str_is (dget c2 ''wip_unresolved'') ''received before tracking'' \<and> left = 0 \<and> \<not> truthy (dget c2 ''received_lots'')
          then ddel ''wip_unresolved'' c2 else c2)))))"

definition operation_recorded :: "dict \<Rightarrow> dict \<Rightarrow> dict res" where
  "operation_recorded state data = write_over (of_kind ''mfg_operation'') [] state data"

definition run_wip_unresolved :: "dict \<Rightarrow> dict \<Rightarrow> dict res" where
  "run_wip_unresolved state data = Inr (dput ''wip_unresolved'' (py_or (dget data ''reason'') (PStr ''unresolved'')) state)"

definition run_cancelled :: "dict \<Rightarrow> dict \<Rightarrow> dict res" where
  "run_cancelled state data = Inr (copy_as ''cancel_reason'' ''reason'' data (set_production ''cancelled'' False state))"

definition mfg_handlers :: "(string \<times> (dict \<Rightarrow> dict \<Rightarrow> dict res)) list" where
  "mfg_handlers =
    [(''mfg.order.created'', run_created), (''mfg.order.started'', run_started), (''mfg.order.on_hold'', run_on_hold),
     (''mfg.order.resumed'', run_resumed), (''mfg.order.issued'', run_issued), (''mfg.order.returned'', run_returned),
     (''mfg.order.received'', run_received), (''mfg.order.scheduled'', run_scheduled),
     (''mfg.order.receipt_undone'', run_receipt_undone), (''mfg.order.reopened'', run_reopened),
     (''mfg.order.completed'', run_completed), (''mfg.order.wip_opened'', run_wip_opened),
     (''mfg.order.output_repaired'', run_output_repaired), (''mfg.order.wip_reconciled'', run_wip_reconciled),
     (''mfg.operation.recorded'', operation_recorded), (''mfg.order.wip_unresolved'', run_wip_unresolved),
     (''mfg.order.cancelled'', run_cancelled)]"

definition apply_manufacturing_event :: "dict \<Rightarrow> string \<Rightarrow> dict \<Rightarrow> dict res" where
  "apply_manufacturing_event state event_type data =
     (case map_of mfg_handlers event_type of None \<Rightarrow> Inl ValueError | Some h \<Rightarrow> h state data)"

end
