(* ===== verification/Pick.thy ===== *)
theory Pick
  imports DocLines MfgProj
begin

text \<open>
  \<open>celerp/services/pick.py\<close>: in which order the lots of a product are drawn, what a line may draw
  from, which line holds which lot, and the allocation itself.  A lot is the dictionary
  \<open>as_lot\<close> makes; creation and expiry times are ISO texts, which Python orders as texts.  What
  each lot has left after the draws planned before is a map from its id, threaded through the
  lines of one operation.
\<close>

section \<open>The order lots are drawn in\<close>

definition VALID_PICK_METHODS :: "string list" where
  "VALID_PICK_METHODS = [''fifo'', ''fefo'', ''lifo'']"

definition splitting_allowed :: "dict \<Rightarrow> bool" where
  "splitting_allowed state = (dget state ''allow_splitting'' \<noteq> PBool False)"

definition resolve_pick_method :: "dict option \<Rightarrow> dict option \<Rightarrow> string" where
  "resolve_pick_method item_state company_settings =
     (let read = (\<lambda>d k. case d of None \<Rightarrow> PNone | Some d \<Rightarrow> dget d k);
          candidates = map (\<lambda>v. py_lower (py_strip (py_str (py_or v (PStr [])))))
            [read item_state ''pick_method'', read company_settings ''inventory_method'']
      in case find (List.member VALID_PICK_METHODS) candidates of Some c \<Rightarrow> c | None \<Rightarrow> ''fifo'')"

definition text_or :: "string \<Rightarrow> dict \<Rightarrow> string \<Rightarrow> string res" where
  "text_or dflt d k = (case py_or (dget d k) (PStr dflt) of PStr s \<Rightarrow> Inr s | _ \<Rightarrow> Inl TypeError)"

definition sorted_inventory :: "dict list \<Rightarrow> string \<Rightarrow> dict list res" where
  "sorted_inventory inventory strategy =
     rbind (mapR (\<lambda>it. rbind (if strategy = ''fefo'' then text_or ''9999-99-99'' it ''expires_at'' else Inr [])
                          (\<lambda>x. rmap (\<lambda>c. ((x, c), it)) (text_or [] it ''created_at''))) inventory) (\<lambda>keyed.
     Inr (map snd (if strategy = ''lifo'' then rev (sort_key fst (rev keyed)) else sort_key fst keyed)))"

definition lots_of_sku :: "dict list \<Rightarrow> (string \<times> dict list) list" where
  "lots_of_sku items =
     foldl (\<lambda>by_sku item. let sku = py_lower (stripped item ''sku'') in
        AList.update sku ((case map_of by_sku sku of Some lots \<Rightarrow> lots | None \<Rightarrow> []) @ [item]) by_sku) [] items"

definition has_stock :: "dict \<Rightarrow> bool res" where
  "has_stock item = rmap (\<lambda>q. 0 < q) (float_or0 (dget item ''quantity''))"

definition consolidate_group :: "dict \<Rightarrow> dict list \<Rightarrow> dict list res" where
  "consolidate_group company_settings lots =
     (if length lots = 1 \<or> \<not> list_all splitting_allowed lots then Inr lots
      else rbind (sorted_inventory lots (resolve_pick_method (Some (hd lots)) (Some company_settings))) (\<lambda>sorted_lots.
           rbind (filterR has_stock sorted_lots) (\<lambda>stocked.
           let rep = hd (if stocked \<noteq> [] then stocked else sorted_lots) in
           rbind (mapR (\<lambda>item. to_decimal (py_or (dget item ''quantity'') (PInt 0))) lots) (\<lambda>qs.
           rbind (foldR dadd (Fin 0 0) qs) (\<lambda>q.
           rbind (to_stored_float q) (\<lambda>v. Inr [dput ''quantity'' v rep]))))))"

definition consolidate_sales_lots :: "dict list \<Rightarrow> dict \<Rightarrow> dict list res" where
  "consolidate_sales_lots items company_settings =
     rmap concat (mapR (\<lambda>(_, lots). consolidate_group company_settings lots) (lots_of_sku items))"

definition as_lot :: "string \<Rightarrow> string \<Rightarrow> dict \<Rightarrow> string option \<Rightarrow> dict res" where
  "as_lot entity_id created_at state claim' =
     rmap (\<lambda>q. [(''entity_id'', PStr entity_id), (''quantity'', PFloat q), (''created_at'', PStr created_at),
                (''expires_at'', dget state ''expires_at''), (''state'', PDict state),
                (''claim'', case claim' of None \<Rightarrow> PNone | Some c \<Rightarrow> PStr c)])
       (float_or0 (dget state ''quantity''))"

definition doc_bound_lots :: "dict list \<Rightarrow> string list" where
  "doc_bound_lots lines = map py_str (filter truthy (map line_item_id lines))"

section \<open>Drawing\<close>

definition SLACK :: rat where "SLACK = fl (1 / 10 ^ 9)"

record draw =
  dr_lot :: dict
  dr_take :: rat
  dr_full :: bool

record drawing =
  dw_draws :: "draw list"
  dw_left :: rat
  dw_seen :: "pyval list"
  dw_remaining :: "rat vmap option"
  dw_skipped :: "dict list"

definition lot_state :: "dict \<Rightarrow> dict res" where
  "lot_state l = as_dict (dget_or l ''state'' (PDict l))"

definition available_of :: "rat vmap option \<Rightarrow> pyval \<Rightarrow> rat \<Rightarrow> rat" where
  "available_of rem key whole = (case rem of None \<Rightarrow> whole | Some m \<Rightarrow> (case map_of m key of Some q \<Rightarrow> q | None \<Rightarrow> whole))"

text \<open>One lot offered to a draw: nothing once the need is met, nothing from a lot seen before or
  empty, and a lot that may not be split is taken whole or passed over.\<close>

definition draw_lot :: "drawing \<Rightarrow> dict \<Rightarrow> drawing res" where
  "draw_lot d l =
     (if dw_left d \<le> SLACK then Inr d
      else rbind (hkey (dget l ''entity_id'')) (\<lambda>key.
      if List.member (dw_seen d) key then Inr d
      else let d1 = d\<lparr>dw_seen := key # dw_seen d\<rparr> in
        rbind (float_or0 (dget l ''quantity'')) (\<lambda>whole.
        let avail = available_of (dw_remaining d) key whole; take = min (dw_left d) avail in
        if avail \<le> SLACK then Inr d1
        else rbind (if take < fsub whole SLACK then rmap (Not \<circ> splitting_allowed) (lot_state l) else Inr False) (\<lambda>pass.
          if pass then Inr (d1\<lparr>dw_skipped := dw_skipped d @ [l]\<rparr>)
          else Inr (d1\<lparr>dw_draws := dw_draws d @ [\<lparr>dr_lot = l, dr_take = take, dr_full = (\<bar>fsub take avail\<bar> \<le> SLACK)\<rparr>],
                       dw_remaining := map_option (AList.update key (fsub avail take)) (dw_remaining d),
                       dw_left := fsub (dw_left d) take\<rparr>)))))"

definition draw_from :: "dict list \<Rightarrow> rat \<Rightarrow> rat vmap option \<Rightarrow> drawing res" where
  "draw_from lots needed remaining =
     foldR draw_lot \<lparr>dw_draws = [], dw_left = needed, dw_seen = [], dw_remaining = remaining, dw_skipped = []\<rparr> lots"

definition shortfall :: "drawing \<Rightarrow> rat" where
  "shortfall d = max 0 (dw_left d)"

definition plan_lot_draws :: "dict \<Rightarrow> rat \<Rightarrow> dict list \<Rightarrow> string \<Rightarrow> drawing res" where
  "plan_lot_draws primary needed siblings pick_method =
     rbind (sorted_inventory siblings pick_method) (\<lambda>rest. draw_from (primary # rest) needed None)"

section \<open>Which line holds which lot\<close>

definition index_of_lines :: "dict list \<Rightarrow> nat vmap res" where
  "index_of_lines lines =
     foldR (\<lambda>m (i, li). if truthy (dget li ''line_id'') then rmap (\<lambda>k. AList.update k i m) (hkey (dget li ''line_id'')) else Inr m)
       [] (enumerate 0 lines)"

definition lines_binding :: "dict list \<Rightarrow> string \<Rightarrow> nat list" where
  "lines_binding lines eid =
     filter (\<lambda>i. truthy (line_item_id (lines ! i)) \<and> py_str (line_item_id (lines ! i)) = eid) [0..<length lines]"

definition lines_carrying :: "dict list \<Rightarrow> string \<Rightarrow> nat list" where
  "lines_carrying lines sku =
     filter (\<lambda>i. truthy (line_item_id (lines ! i)) \<and> stripped (lines ! i) ''sku'' \<noteq> [] \<and> stripped (lines ! i) ''sku'' = sku)
       [0..<length lines]"

record holdings =
  by_line :: "(nat \<times> string) list"
  orphans :: "string list"
  ambiguous :: "(string \<times> nat list) list"

definition attribute_hold :: "dict list \<Rightarrow> nat vmap \<Rightarrow> holdings \<Rightarrow> string \<times> dict \<Rightarrow> holdings res" where
  "attribute_hold lines index_of h held =
     (let (eid, st) = held; stamp = dget st ''status_line_entity_id'' in
      if truthy stamp
      then rmap (\<lambda>k. case map_of index_of k of
               None \<Rightarrow> h\<lparr>orphans := orphans h @ [eid]\<rparr> | Some i \<Rightarrow> h\<lparr>by_line := by_line h @ [(i, eid)]\<rparr>) (hkey stamp)
      else let bound = lines_binding lines eid; found = (if bound \<noteq> [] then bound else lines_carrying lines (stripped st ''sku'')) in
        Inr (case found of
               [] \<Rightarrow> h\<lparr>orphans := orphans h @ [eid]\<rparr>
             | [i] \<Rightarrow> h\<lparr>by_line := by_line h @ [(i, eid)]\<rparr>
             | _ \<Rightarrow> h\<lparr>ambiguous := AList.update eid found (ambiguous h)\<rparr>))"

definition attribute_holds :: "dict list \<Rightarrow> (string \<times> dict) list \<Rightarrow> holdings res" where
  "attribute_holds lines held =
     rbind (index_of_lines lines) (\<lambda>index_of.
     foldR (attribute_hold lines index_of) \<lparr>by_line = [], orphans = [], ambiguous = []\<rparr> held)"

definition lots_of_line :: "(nat \<times> string) list \<Rightarrow> nat \<Rightarrow> string list" where
  "lots_of_line attributed i = map snd (filter (\<lambda>(j, _). j = i) attributed)"

section \<open>What a line draws\<close>

definition lot_sku :: "dict \<Rightarrow> string res" where
  "lot_sku l = rmap (\<lambda>st. stripped st ''sku'') (as_dict (py_or (dget l ''state'') (PDict [])))"

definition line_draw_sources :: "dict list \<Rightarrow> nat \<Rightarrow> (string \<times> dict) list \<Rightarrow> (nat \<times> string) list \<Rightarrow> string
    \<Rightarrow> (dict list \<times> dict option \<times> dict list) res" where
  "line_draw_sources lines index lots attributed pick_method =
     (let li = lines ! index; bound = py_str (py_or (line_item_id li) (PStr []));
          bound_lot = map_of lots bound;
          held = List.map_filter (map_of lots) (lots_of_line attributed index) in
      rbind (mapR (\<lambda>l. rmap (\<lambda>v. (str_is v bound, l)) (dkey l ''entity_id'')) held) (\<lambda>marked.
      rbind (sorted_inventory (map snd (filter (Not \<circ> fst) marked)) pick_method) (\<lambda>others_held.
      rbind (case bound_lot of None \<Rightarrow> Inr PNone
             | Some b \<Rightarrow> rmap (\<lambda>st. dget st ''sku'') (as_dict (py_or (dget b ''state'') (PDict [])))) (\<lambda>bound_sku.
      let own = map snd (filter fst marked) @ others_held;
          primary = (case bound_lot of Some b \<Rightarrow> if str_is (dget b ''claim'') ''free'' then Some b else None | None \<Rightarrow> None);
          sku = py_strip (py_str (py_or (py_or bound_sku (dget li ''sku'')) (PStr [])));
          others = doc_bound_lots (take index lines @ drop (Suc index) lines) in
      rmap (\<lambda>free. (own, primary, free))
        (rmap (map snd) (filterR (\<lambda>(eid, l).
           if str_is (dget l ''claim'') ''free'' \<and> eid \<noteq> bound \<and> \<not> List.member others eid
           then rmap (\<lambda>s. s = sku) (lot_sku l) else Inr False) lots))))))"

definition plan_line_draws :: "rat \<Rightarrow> dict list \<Rightarrow> dict option \<Rightarrow> dict list \<Rightarrow> string \<Rightarrow> rat vmap \<Rightarrow> bool \<Rightarrow> drawing res" where
  "plan_line_draws needed own primary free pick_method remaining spans =
     rbind (if spans then sorted_inventory free pick_method else Inr []) (\<lambda>spanned.
     draw_from (own @ (case primary of Some p \<Rightarrow> [p] | None \<Rightarrow> []) @ spanned) needed (Some remaining))"

end
