(* ===== verification/Units.thy ===== *)
theory Units
  imports Moving Pick
begin

text \<open>
  \<open>celerp/services/units.py\<close> (the company's units, what a quantity may look like in one), the rules on
  a Default Sell Qty of \<open>celerp/services/line_measures.py\<close>, and the check of a new list of units
  (\<open>_validate_units\<close> of \<open>celerp/routers/companies.py\<close>).

  A unit is a JSON object; units are looked up by the name an item or a line gives, so a unit whose
  name is no string is never found.
\<close>

definition DEFAULT_UNITS :: "dict list" where
  "DEFAULT_UNITS =
     map (\<lambda>(name, label, decimals, unit_type).
            [(''name'', PStr name), (''label'', PStr label), (''decimals'', PInt decimals), (''unit_type'', PStr unit_type)])
       [(''piece'', ''Piece'', 0, ''pieces''), (''carat'', ''Carat (ct)'', 2, ''weight''), (''gram'', ''Gram (g)'', 2, ''weight''),
        (''kg'', ''Kilogram (kg)'', 3, ''weight''), (''oz'', ''Ounce (oz)'', 2, ''weight''), (''lb'', ''Pound (lb)'', 2, ''weight''),
        (''liter'', ''Liter (L)'', 2, ''quantity''), (''meter'', ''Meter (m)'', 2, ''quantity'')]"

definition SERVICE_SELL_BY :: "string list" where "SERVICE_SELL_BY = [''service'', ''hour'']"

definition NON_STOCK_INVENTORY_TYPES :: "string list" where "NON_STOCK_INVENTORY_TYPES = [''service'', ''freight'']"

definition is_non_stock_line :: "pyval \<Rightarrow> pyval \<Rightarrow> bool res" where
  "is_non_stock_line inventory_type sell_by =
     rbind (in_set (py_or inventory_type (PStr ''stocked'')) NON_STOCK_INVENTORY_TYPES) (\<lambda>b.
     if b then Inr True else in_set (py_or sell_by (PStr [])) SERVICE_SELL_BY)"

definition default_receive_as :: "pyval \<Rightarrow> pyval \<Rightarrow> string res" where
  "default_receive_as inventory_type sell_by =
     (if str_is inventory_type ''non_stocked'' then Inr ''expense''
      else rmap (\<lambda>b. if b then ''expense'' else ''stock'') (is_non_stock_line inventory_type sell_by))"

definition is_landed_component :: "pyval \<Rightarrow> bool" where
  "is_landed_component inventory_type = str_is (py_or inventory_type (PStr ''stocked'')) ''freight''"

section \<open>The list of units\<close>

type_synonym unit_map = "(string \<times> dict) list"

definition add_unit :: "unit_map \<Rightarrow> dict \<Rightarrow> unit_map res" where
  "add_unit m u =
     rbind (dkey u ''name'') (\<lambda>name.
       case name of
         PStr s \<Rightarrow> Inr (AList.update s u m)
       | _ \<Rightarrow> if hashable name then Inr m else Inl TypeError)"

definition build_unit_map :: "dict list \<Rightarrow> unit_map res" where
  "build_unit_map units = foldR add_unit [] units"

definition settings_units :: "dict option \<Rightarrow> pyval list res" where
  "settings_units settings =
     (let held = (case settings of Some d \<Rightarrow> dget d ''units'' | None \<Rightarrow> PNone) in
      if truthy held then py_iter held else Inr (map PDict DEFAULT_UNITS))"

definition has_unit_type :: "string \<Rightarrow> pyval \<Rightarrow> unit_map \<Rightarrow> bool res" where
  "has_unit_type wanted unit_name unit_map =
     (if \<not> truthy unit_name then Inr False
      else rmap (\<lambda>u. case u of Some u \<Rightarrow> str_is (dget u ''unit_type'') wanted | None \<Rightarrow> False) (table_get unit_map unit_name))"

definition is_weight_unit :: "pyval \<Rightarrow> unit_map \<Rightarrow> bool res" where "is_weight_unit = has_unit_type ''weight''"

definition is_pieces_unit :: "pyval \<Rightarrow> unit_map \<Rightarrow> bool res" where "is_pieces_unit = has_unit_type ''pieces''"

text \<open>\<open>put_units\<close>: the name has to match \<open>^[a-z0-9_]+$\<close>, whose \<open>$\<close> lets one line feed end it.\<close>

record unit_record =
  u_name :: string
  u_label :: string
  u_decimals :: int
  u_type :: string

definition dump_unit :: "unit_record \<Rightarrow> dict" where
  "dump_unit u = [(''name'', PStr (u_name u)), (''label'', PStr (u_label u)), (''decimals'', PInt (u_decimals u)),
     (''unit_type'', PStr (u_type u))]"

definition VALID_UNIT_TYPES :: "string list" where "VALID_UNIT_TYPES = [''weight'', ''pieces'', ''quantity'']"

definition unit_name_char :: "char \<Rightarrow> bool" where
  "unit_name_char c = (let n = char_code c in (97 \<le> n \<and> n \<le> 122) \<or> (48 \<le> n \<and> n \<le> 57) \<or> n = 95)"

definition unit_name_ok :: "string \<Rightarrow> bool" where
  "unit_name_ok s =
     (let body = (if s \<noteq> [] \<and> char_code (last s) = 10 then butlast s else s) in body \<noteq> [] \<and> list_all unit_name_char body)"

definition validate_unit :: "string list \<Rightarrow> unit_record \<Rightarrow> string list res" where
  "validate_unit seen u =
     (if \<not> unit_name_ok (u_name u) then Inl (HTTPError 422 ''company.err_unit_name'')
      else if \<not> (0 \<le> u_decimals u \<and> u_decimals u \<le> 6) then Inl (HTTPError 422 ''company.err_unit_decimals'')
      else if \<not> List.member VALID_UNIT_TYPES (u_type u) then Inl (HTTPError 422 ''unit type'')
      else if List.member seen (u_name u) then Inl (HTTPError 422 ''company.err_unit_duplicate'')
      else Inr (u_name u # seen))"

definition validate_units :: "unit_record list \<Rightarrow> unit res" where
  "validate_units units = rmap (\<lambda>_. ()) (foldR validate_unit [] units)"

section \<open>Quantities in a unit\<close>

text \<open>The exponent of \<open>Decimal(10) ** -decimals\<close>: a positive power of ten is written out.\<close>

definition places_exp :: "int \<Rightarrow> int" where "places_exp decimals = (if 0 \<le> decimals then - decimals else 0)"

definition exceeds_precision :: "rat \<Rightarrow> int \<Rightarrow> bool res" where
  "exceeds_precision qty decimals =
     (let d = dec_of_float qty in rbind (dquantize d (places_exp decimals)) (\<lambda>q. rmap Not (deq d q)))"

definition decimals_of :: "dict \<Rightarrow> int res" where
  "decimals_of u = py_int (py_or (dget u ''decimals'') (PInt 0))"

definition unit_decimals :: "pyval \<Rightarrow> unit_map \<Rightarrow> int option res" where
  "unit_decimals sell_by unit_map =
     (if \<not> truthy sell_by then Inr None
      else rbind (in_set sell_by SERVICE_SELL_BY) (\<lambda>service.
           if service then Inr None
           else rbind (table_get unit_map sell_by) (\<lambda>u.
                case u of None \<Rightarrow> Inr None | Some u \<Rightarrow> rmap Some (decimals_of u))))"

definition sum_quantities :: "pyval list \<Rightarrow> int option \<Rightarrow> rat res" where
  "sum_quantities quantities decimals =
     rbind (foldR (\<lambda>s q. rbind (py_float (py_or q (PInt 0))) (\<lambda>x. dadd s (dec_of_float x))) (Fin 0 0) quantities) (\<lambda>whole.
     rbind (case decimals of None \<Rightarrow> Inr whole | Some d \<Rightarrow> dquantize whole (places_exp d)) dec_float)"

definition quantity_step :: "pyval \<Rightarrow> unit_map \<Rightarrow> rat option res" where
  "quantity_step unit_name unit_map = rmap (map_option (\<lambda>d. fl (10 powi (- d)))) (unit_decimals unit_name unit_map)"

definition validate_quantity :: "rat \<Rightarrow> int \<Rightarrow> string option \<Rightarrow> unit res" where
  "validate_quantity qty decimals label =
     rbind (exceeds_precision qty decimals) (\<lambda>finer.
     if finer then Inl (HTTPError 422 (case label of Some (_ # _) \<Rightarrow> ''quantity.precision'' | _ \<Rightarrow> ''quantity.precision_plain''))
     else Inr ())"

definition validate_positive :: "rat \<Rightarrow> unit res" where
  "validate_positive qty = (if qty \<le> 0 then Inl (HTTPError 422 ''error.qty_positive'') else Inr ())"

definition validate_line_quantity :: "rat \<Rightarrow> pyval \<Rightarrow> unit_map \<Rightarrow> string \<Rightarrow> bool \<Rightarrow> unit res" where
  "validate_line_quantity qty sell_by unit_map label require_positive =
     rbind (unit_decimals sell_by unit_map) (\<lambda>decimals.
     case decimals of None \<Rightarrow> Inr ()
     | Some d \<Rightarrow> rbind (if require_positive then validate_positive qty else Inr ()) (\<lambda>_.
                 validate_quantity qty d (Some label)))"

text \<open>A value that is no number is never finer than a unit allows, and neither is an infinite one;
  \<open>float\<close> answers a value that is no number with one of these exceptions.\<close>

definition not_a_number :: "py_exc \<Rightarrow> bool" where
  "not_a_number e = (e = TypeError \<or> e = ValueError)"

definition finer_than :: "pyval \<Rightarrow> int \<Rightarrow> bool res" where
  "finer_than value decimals =
     (case py_float value of
        Inr qty \<Rightarrow> exceeds_precision qty decimals
      | Inl e \<Rightarrow> if not_a_number e \<or> e = NonFiniteFloat then Inr False else Inl e)"

definition positive :: "pyval \<Rightarrow> bool res" where
  "positive value = rtry not_a_number (rmap (\<lambda>x. 0 < x) (py_float value)) (Inr False)"

section \<open>Quantities shown\<close>

fun dnormalize :: "dec \<Rightarrow> dec" where
  "dnormalize (Fin c e) = (if c = 0 then Fin 0 0 else strip_zeros (ndig c) c e)"
| "dnormalize d = d"

text \<open>The places a number uses: those after the point of its shortest decimal, trailing zeros left out.\<close>

definition places_of :: "rat \<Rightarrow> nat" where
  "places_of x = (case dnormalize (dec_of_float x) of Fin _ e \<Rightarrow> nat (- e) | _ \<Rightarrow> 0)"

definition places :: "pyval \<Rightarrow> nat res" where "places value = rmap places_of (py_float value)"

text \<open>\<open>c / 10 ^ n\<close> in positional notation with \<open>n\<close> places.\<close>

definition fixed_text :: "bool \<Rightarrow> int \<Rightarrow> nat \<Rightarrow> string" where
  "fixed_text negative c n =
     (let ds = nat_str c; full = replicate (Suc n - length ds) (CHR ''0'') @ ds; cut = length full - n in
      (if negative then ''-'' else []) @ take cut full @ (if n = 0 then [] else ''.'' @ drop cut full))"

definition plain_number :: "rat \<Rightarrow> string" where
  "plain_number x =
     (case dnormalize (dec_of_float (round_float x 10)) of
        Fin c e \<Rightarrow> if 0 \<le> e then fixed_text (c < 0) (\<bar>c\<bar> * 10 ^ nat e) 0 else fixed_text (c < 0) \<bar>c\<bar> (nat (- e))
      | _ \<Rightarrow> [])"

text \<open>A format \<open>.nf\<close> rounds the exact number to the even neighbour; \<open>n\<close> has to be a count.\<close>

definition format_qty :: "pyval \<Rightarrow> pyval \<Rightarrow> unit_map \<Rightarrow> string res" where
  "format_qty value unit_name unit_map =
     (if blank value then Inr []
      else case py_float value of
        Inl e \<Rightarrow> if not_a_number e then Inr (py_str value) else Inl e
      | Inr f \<Rightarrow>
          rbind (if truthy unit_name then table_get unit_map unit_name else Inr None) (\<lambda>u.
          case (case u of Some u \<Rightarrow> dget u ''decimals'' | None \<Rightarrow> PNone) of
            PNone \<Rightarrow> Inr (plain_number f)
          | PInt n \<Rightarrow> if 0 \<le> n then Inr (fixed_text (f < 0) \<bar>rhe (f * 10 ^ nat n)\<bar> (nat n)) else Inl ValueError
          | _ \<Rightarrow> Inl ValueError))"

section \<open>Default Sell Qty\<close>

datatype sell_qty = Full | Amount dec

definition stored_sell_qty :: "pyval \<Rightarrow> sell_qty option" where
  "stored_sell_qty value =
     (case value of
        PNone \<Rightarrow> None
      | PBool _ \<Rightarrow> None
      | _ \<Rightarrow> if (case value of PStr s \<Rightarrow> py_lower (py_strip s) = ''full'' | _ \<Rightarrow> False) then Some Full
             else (case parse_dec (py_strip (py_str value)) of
                     Some (Fin c e) \<Rightarrow> if 0 < c then Some (Amount (Fin c e)) else None
                   | _ \<Rightarrow> None))"

definition unit_of_map :: "pyval \<Rightarrow> unit_map \<Rightarrow> dict option res" where
  "unit_of_map unit_name unit_map = table_get unit_map (py_or unit_name (PStr []))"

text \<open>\<open>quantize\<close> with \<open>ROUND_DOWN\<close>.\<close>

fun dquantize_down :: "dec \<Rightarrow> int \<Rightarrow> dec res" where
  "dquantize_down (Fin c e) q =
     (let c' = (if q \<le> e then c * 10 ^ nat (e - q) else sgn c * (\<bar>c\<bar> div 10 ^ nat (q - e)))
      in if ndig c' \<le> prec then Inr (Fin c' q) else Inl ArithmeticError)"
| "dquantize_down NaN q = Inr NaN"
| "dquantize_down _ q = Inl ArithmeticError"

definition floor_to_unit :: "dec \<Rightarrow> pyval \<Rightarrow> unit_map \<Rightarrow> dec res" where
  "floor_to_unit qty unit_name unit_map =
     rbind (unit_of_map unit_name unit_map) (\<lambda>u.
     case u of None \<Rightarrow> Inr qty | Some u \<Rightarrow> rbind (decimals_of u) (\<lambda>d. dquantize_down qty (places_exp d)))"

definition proposed_sell_qty :: "dict \<Rightarrow> unit_map \<Rightarrow> sell_qty res" where
  "proposed_sell_qty state unit_map =
     (let sell_by = dget state ''sell_by''; stored = stored_sell_qty (dget state ''default_sell_qty'') in
      if \<not> splitting_allowed state \<or> stored = Some Full then Inr Full
      else rbind (case stored of
                    Some (Amount a) \<Rightarrow> rmap Some (rtry (\<lambda>e. e = ArithmeticError) (floor_to_unit a sell_by unit_map) (Inr (Fin 0 0)))
                  | _ \<Rightarrow> Inr None) (\<lambda>floored.
           rbind (case floored of Some d \<Rightarrow> dless (Fin 0 0) d | None \<Rightarrow> Inr False) (\<lambda>some_left.
           case (floored, some_left) of
             (Some d, True) \<Rightarrow> Inr (Amount d)
           | _ \<Rightarrow> rmap (\<lambda>u. case u of None \<Rightarrow> Amount (Fin 1 0)
                             | Some u \<Rightarrow> if str_is (dget u ''unit_type'') ''pieces'' then Amount (Fin 1 0) else Full)
                   (unit_of_map sell_by unit_map))))"

definition validate_default_sell_qty :: "pyval \<Rightarrow> pyval \<Rightarrow> unit_map \<Rightarrow> pyval res" where
  "validate_default_sell_qty value sell_by unit_map =
     (if value = PNone \<or> (case value of PStr s \<Rightarrow> py_strip s = [] | _ \<Rightarrow> False) then Inr PNone
      else case stored_sell_qty value of
             None \<Rightarrow> Inl (HTTPError 422 ''item.default_sell_qty_invalid'')
           | Some Full \<Rightarrow> Inr (PStr ''full'')
           | Some (Amount a) \<Rightarrow>
               rbind (dec_float a) (\<lambda>qty. rbind (unit_of_map sell_by unit_map) (\<lambda>u.
               rbind (case u of None \<Rightarrow> Inr ()
                      | Some u \<Rightarrow> rbind (decimals_of u) (\<lambda>d. validate_quantity qty d (Some ''field.label.default_sell_qty''))) (\<lambda>_.
               Inr (PFloat qty)))))"

definition sell_qty_misfit :: "pyval \<Rightarrow> pyval \<Rightarrow> unit_map \<Rightarrow> rat option res" where
  "sell_qty_misfit stored sell_by unit_map =
     (case stored_sell_qty stored of
        Some (Amount a) \<Rightarrow>
          rbind (unit_of_map sell_by unit_map) (\<lambda>u.
          case u of None \<Rightarrow> Inr None
          | Some u \<Rightarrow> rbind (dec_float a) (\<lambda>qty. rbind (decimals_of u) (\<lambda>d.
                      rmap (\<lambda>finer. if finer then Some qty else None) (exceeds_precision qty d))))
      | _ \<Rightarrow> rmap (\<lambda>_. None) (unit_of_map sell_by unit_map))"

definition check_sell_qty_fits_unit :: "pyval \<Rightarrow> pyval \<Rightarrow> unit_map \<Rightarrow> unit res" where
  "check_sell_qty_fits_unit stored sell_by unit_map =
     rbind (sell_qty_misfit stored sell_by unit_map) (\<lambda>qty.
     case qty of None \<Rightarrow> Inr () | Some _ \<Rightarrow> Inl (HTTPError 422 ''item.default_sell_qty_unit_change''))"

end
