(* ===== verification/UnitChange.thy ===== *)
theory UnitChange
  imports Units
begin

text \<open>
  \<open>celerp/services/units.py\<close>, the rules that keep what can still move within its units: a record that
  is about to move again (\<open>require_moving_fits_units\<close>) and a change to the company's units
  (\<open>check_units_change\<close>).  The projections of the company are an argument, as the rows (entity id,
  entity type, state) the two queries choose from; a status or SKU that is no string is chosen as one
  that differs from every name.  Refusals are kept as their message keys, so the labels and figures
  that only their texts show are left out, but for the names of the holders.
\<close>

type_synonym stored = "string \<times> string \<times> dict"
type_synonym moving = "dict \<times> pyval"

section \<open>What a record can still move\<close>

definition names_of_item :: "string \<times> dict \<Rightarrow> pyval list" where
  "names_of_item item = [PStr (fst item), dget (snd item) ''sku'']"

definition put_item_unit :: "pyval \<Rightarrow> (string \<times> pyval) list \<Rightarrow> pyval \<Rightarrow> (string \<times> pyval) list res" where
  "put_item_unit unit m key =
     (if \<not> truthy key then Inr m
      else case key of PStr s \<Rightarrow> Inr (AList.update s unit m) | _ \<Rightarrow> if hashable key then Inr m else Inl TypeError)"

definition item_units :: "(string \<times> dict) list \<Rightarrow> (string \<times> pyval) list res" where
  "item_units items = foldR (\<lambda>m item. foldR (put_item_unit (dget (snd item) ''sell_by'')) m (names_of_item item)) [] items"

definition unit_at :: "(string \<times> pyval) list \<Rightarrow> pyval \<Rightarrow> pyval res" where
  "unit_at item_unit key = rmap (\<lambda>u. case u of Some v \<Rightarrow> v | None \<Rightarrow> PNone) (table_get item_unit key)"

definition line_unit :: "dict \<Rightarrow> (string \<times> pyval) list \<Rightarrow> pyval res" where
  "line_unit line item_unit =
     (let own = py_or (dget line ''unit'') (dget line ''sell_by'') in
      if truthy own then Inr own
      else rbind (unit_at item_unit (dget line ''item_id'')) (\<lambda>a. if truthy a then Inr a else unit_at item_unit (dget line ''sku'')))"

definition item_state :: "(string \<times> dict) list \<Rightarrow> pyval \<Rightarrow> dict res" where
  "item_state items key = rmap (\<lambda>i. case i of Some d \<Rightarrow> d | None \<Rightarrow> []) (table_get items key)"

definition still_moving :: "string \<Rightarrow> string \<Rightarrow> dict \<Rightarrow> (string \<times> dict) list \<Rightarrow> moving list res" where
  "still_moving entity_id entity_type state items =
     (if entity_type = ''doc''
      then doc_still_moving state (\<lambda>line. rbind (item_state items (line_item_id line)) (\<lambda>i. sent_out_by i entity_id))
      else if entity_type = ''mfg_order'' then run_still_moving state
      else if dget state ''status'' = PNone \<or> str_in (dget state ''status'') [''draft'', ''finalized'']
      then rmap whole_lines (object_lines state) else Inr [])"

section \<open>A record about to move again\<close>

definition named_lines :: "string \<Rightarrow> string \<Rightarrow> dict \<Rightarrow> dict list res" where
  "named_lines entity_id entity_type state =
     (if entity_type = ''mfg_order'' then rmap (map fst) (still_moving entity_id entity_type state []) else object_lines state)"

definition key_of :: "pyval \<Rightarrow> string list res" where
  "key_of v =
     (if \<not> truthy v then Inr []
      else case v of PStr s \<Rightarrow> Inr [s] | _ \<Rightarrow> if hashable v then Inr [] else Inl TypeError)"

definition line_keys :: "dict \<Rightarrow> string list res" where
  "line_keys line = rbind (key_of (line_item_id line)) (\<lambda>a. rbind (key_of (dget line ''sku'')) (\<lambda>b. Inr (a @ b)))"

definition items_named :: "stored list \<Rightarrow> string list \<Rightarrow> (string \<times> dict) list" where
  "items_named stored_rows keys =
     map (\<lambda>(i, _, st). (i, st))
       (filter (\<lambda>(i, et, st). et = ''item'' \<and> (List.member keys i \<or> str_in (dget st ''sku'') keys)) stored_rows)"

definition in_removed_unit :: "unit_map \<Rightarrow> (string \<times> pyval) list \<Rightarrow> pyval \<Rightarrow> moving \<Rightarrow> bool res" where
  "in_removed_unit unit_map item_unit unit mv =
     (if \<not> truthy unit then Inr False
      else rbind (table_get unit_map unit) (\<lambda>u.
           if u \<noteq> None then Inr False
           else rbind (in_set unit SERVICE_SELL_BY) (\<lambda>service.
                if service then Inr False
                else rbind (positive (snd mv)) (\<lambda>p.
                     if \<not> p then Inr False
                     else rbind (unit_at item_unit (dget (fst mv) ''item_id'')) (\<lambda>a.
                          rbind (unit_at item_unit (dget (fst mv) ''sku'')) (\<lambda>b. Inr (py_eq unit a \<or> py_eq unit b)))))))"

definition line_fits :: "unit_map \<Rightarrow> (string \<times> dict) list \<Rightarrow> (string \<times> pyval) list \<Rightarrow> bool \<Rightarrow> moving \<Rightarrow> unit res" where
  "line_fits unit_map items item_unit from_template mv =
     rbind (line_unit (fst mv) item_unit) (\<lambda>unit.
     rbind (item_state items (dget (fst mv) ''item_id'')) (\<lambda>_.
     rbind (in_removed_unit unit_map item_unit unit mv) (\<lambda>removed.
     if removed then Inl (HTTPError 422 (if from_template then ''units.template_unit_removed'' else ''units.moving_unit_removed''))
     else rbind (unit_decimals unit unit_map) (\<lambda>decimals.
          case decimals of None \<Rightarrow> Inr ()
          | Some d \<Rightarrow> rbind (finer_than (snd mv) d) (\<lambda>finer.
              if finer then Inl (HTTPError 422
                (if from_template then ''units.template_finer_than_unit'' else ''units.moving_finer_than_unit''))
              else Inr ())))))"

definition all_fit :: "('a \<Rightarrow> unit res) \<Rightarrow> 'a list \<Rightarrow> unit res" where
  "all_fit f xs = rmap (\<lambda>_. ()) (mapR f xs)"

definition require_moving_fits_units ::
    "stored list \<Rightarrow> dict list \<Rightarrow> string \<Rightarrow> string \<Rightarrow> dict \<Rightarrow> moving list \<Rightarrow> string option \<Rightarrow> unit res" where
  "require_moving_fits_units stored_rows units entity_id entity_type state also template =
     rbind (named_lines entity_id entity_type state) (\<lambda>named.
     rbind (mapR line_keys (named @ map fst also)) (\<lambda>keys.
     let items = items_named stored_rows (concat keys) in
     rbind (still_moving entity_id entity_type state items) (\<lambda>lines.
     rbind (item_units items) (\<lambda>item_unit.
     rbind (build_unit_map units) (\<lambda>unit_map.
     all_fit (line_fits unit_map items item_unit (case template of Some (_ # _) \<Rightarrow> True | _ \<Rightarrow> False)) (lines @ also))))))"

section \<open>A change to the company's units\<close>

definition partly_received :: "string \<Rightarrow> dict \<Rightarrow> bool res" where
  "partly_received entity_type state =
     (if entity_type = ''doc'' \<and> str_in (dget state ''doc_type'') [''purchase_order'', ''bill'']
      then rbind (object_lines state)
             (anyR (\<lambda>line. rmap (\<lambda>x. 0 < x) (py_float (py_or (dget line ''quantity_received'') (PInt 0)))))
      else Inr False)"

definition unit_type_of :: "dict \<Rightarrow> pyval" where
  "unit_type_of u = py_or (dget u ''unit_type'') (PStr ''quantity'')"

definition holder_label :: "string \<Rightarrow> string \<Rightarrow> dict \<Rightarrow> (pyval \<times> bool) res" where
  "holder_label entity_id entity_type state =
     (if entity_type = ''mfg_order'' then rmap (\<lambda>n. (n, False)) (run_name state)
      else rbind (if entity_type = ''doc'' then in_set (dget state ''doc_type'') TEMPLATE_DOC_TYPES else Inr False) (\<lambda>template.
           Inr (if template then (template_label state entity_id, True)
                else (py_or (dget state ''doc_number'') (py_or (dget state ''ref_id'') (dget state ''name'')), False))))"

text \<open>The units gone, those of another type, and those with fewer places (or none to compare with).\<close>

definition units_gone :: "unit_map \<Rightarrow> unit_map \<Rightarrow> string list" where
  "units_gone old new = filter (\<lambda>name. map_of new name = None) (map fst old)"

definition units_retyped :: "unit_map \<Rightarrow> unit_map \<Rightarrow> string list" where
  "units_retyped old new =
     map fst (filter (\<lambda>(name, u). case map_of new name of None \<Rightarrow> False | Some v \<Rightarrow> \<not> py_eq (unit_type_of v) (unit_type_of u)) old)"

definition lowered_unit :: "unit_map \<Rightarrow> string \<times> dict \<Rightarrow> (string \<times> int) option res" where
  "lowered_unit old nu =
     rbind (case map_of old (fst nu) of
              None \<Rightarrow> Inr True
            | Some u \<Rightarrow> rbind (rbind (dkey (snd nu) ''decimals'') py_int) (\<lambda>d. rmap (\<lambda>b. d < b) (decimals_of u))) (\<lambda>lower.
     if lower then rmap (\<lambda>d. Some (fst nu, d)) (rbind (dkey (snd nu) ''decimals'') py_int) else Inr None)"

definition units_lowered :: "unit_map \<Rightarrow> unit_map \<Rightarrow> (string \<times> int) list res" where
  "units_lowered old new = rmap (List.map_filter id) (mapR (lowered_unit old) new)"

definition chosen_row :: "string list \<Rightarrow> stored \<Rightarrow> bool" where
  "chosen_row names row = (case row of (_, et, st) \<Rightarrow>
     (et = ''item'' \<and> \<not> str_is (dget st ''status'') ''disposed''
        \<and> (str_in (dget st ''sell_by'') names \<or> str_in (dget st ''weight_unit'') names))
     \<or> (List.member [''doc'', ''list''] et \<and> \<not> str_is (dget st ''status'') ''void'')
     \<or> et = ''mfg_order'')"

definition row_items :: "stored list \<Rightarrow> (string \<times> dict) list" where
  "row_items stored_rows = map (\<lambda>(i, _, st). (i, st)) (filter (\<lambda>(_, et, _). et = ''item'') stored_rows)"

definition row_lines :: "(string \<times> dict) list \<Rightarrow> stored \<Rightarrow> (stored \<times> moving list) res" where
  "row_lines items row = (case row of (i, et, st) \<Rightarrow>
     rmap (Pair row) (if et = ''item'' then Inr [] else still_moving i et st items))"

record holders =
  h_holders :: "string list"
  h_templates :: "string list"
  h_partly :: bool

definition holder_text :: "pyval \<Rightarrow> string" where "holder_text label = py_str (py_or label (PStr ''-''))"

definition add_holder ::
    "(string \<times> pyval) list \<Rightarrow> string \<Rightarrow> (dict \<Rightarrow> bool res) \<Rightarrow> (pyval \<Rightarrow> bool res) \<Rightarrow> holders \<Rightarrow> stored \<times> moving list \<Rightarrow> holders res" where
  "add_holder item_unit name item_holds line_holds h held_row = (case held_row of ((i, et, st), lines) \<Rightarrow>
     rbind (if et = ''item'' then item_holds st
            else rmap (\<lambda>held. held \<noteq> [])
                   (filterR (\<lambda>mv. rbind (line_unit (fst mv) item_unit) (\<lambda>u. if str_is u name then line_holds (snd mv) else Inr False)) lines)) (\<lambda>holds.
     rbind (if et = ''item'' then Inr (py_or (dget st ''sku'') (dget st ''name''), False) else holder_label i et st) (\<lambda>(label, template).
     if \<not> holds then Inr h
     else rbind (if h_partly h then Inr True else partly_received et st) (\<lambda>partly.
          let named = (if template then h\<lparr>h_templates := h_templates h @ [holder_text label]\<rparr>
                       else h\<lparr>h_holders := h_holders h @ [holder_text label]\<rparr>)
          in Inr (named\<lparr>h_partly := partly\<rparr>)))))"

definition holding ::
    "(string \<times> pyval) list \<Rightarrow> (stored \<times> moving list) list \<Rightarrow> string \<Rightarrow> (dict \<Rightarrow> bool res) \<Rightarrow> (pyval \<Rightarrow> bool res) \<Rightarrow> holders res" where
  "holding item_unit held_rows name item_holds line_holds =
     foldR (add_holder item_unit name item_holds line_holds) \<lparr>h_holders = [], h_templates = [], h_partly = False\<rparr> held_rows"

definition sold_or_weighed_in :: "string \<Rightarrow> dict \<Rightarrow> bool res" where
  "sold_or_weighed_in name st = Inr (str_is (dget st ''sell_by'') name \<or> str_is (dget st ''weight_unit'') name)"

definition refuse_unit_in_use :: "bool \<Rightarrow> holders \<Rightarrow> unit res" where
  "refuse_unit_in_use gone h =
     (if h_holders h = [] \<and> h_templates h = [] then Inr ()
      else Inl (HTTPError 422
        (if gone then (if h_partly h then ''units.unit_removed_under_partly_received'' else ''units.unit_removed_in_use'')
         else (if h_partly h then ''units.unit_type_changed_under_partly_received'' else ''units.unit_type_changed_in_use''))))"

definition finer_in_item :: "string \<Rightarrow> int \<Rightarrow> dict \<Rightarrow> bool res" where
  "finer_in_item name decimals st =
     (if \<not> str_is (dget st ''sell_by'') name then Inr False
      else rbind (finer_than (dget st ''quantity'') decimals) (\<lambda>a.
           rbind (case stored_sell_qty (dget st ''default_sell_qty'') of
                    Some (Amount q) \<Rightarrow> rbind (dec_float q) (\<lambda>x. exceeds_precision x decimals)
                  | _ \<Rightarrow> Inr False) (\<lambda>b. Inr (a \<or> b))))"

definition refuse_lowered :: "holders \<Rightarrow> unit res" where
  "refuse_lowered h =
     (if h_holders h = [] \<and> h_templates h = [] then Inr ()
      else Inl (HTTPError 422
        (if h_templates h = []
         then (if h_partly h then ''units.precision_lowered_under_partly_received'' else ''units.precision_lowered_under_quantities'')
         else if h_holders h = [] then ''units.precision_lowered_under_templates''
         else if h_partly h then ''units.precision_lowered_under_partly_received_and_templates''
         else ''units.precision_lowered_under_quantities_and_templates'')))"

definition check_units_change :: "stored list \<Rightarrow> dict list \<Rightarrow> dict list \<Rightarrow> unit res" where
  "check_units_change stored_rows old_units new_units =
     rbind (build_unit_map old_units) (\<lambda>old.
     rbind (build_unit_map new_units) (\<lambda>new.
     rbind (units_lowered old new) (\<lambda>lowered.
     let gone = units_gone old new; retyped = units_retyped old new in
     if gone = [] \<and> retyped = [] \<and> lowered = [] then Inr ()
     else let chosen = filter (chosen_row (gone @ retyped @ map fst lowered)) stored_rows; items = row_items chosen in
          rbind (item_units items) (\<lambda>item_unit.
          rbind (mapR (row_lines items) chosen) (\<lambda>held_rows.
          rbind (all_fit (\<lambda>name. rbind (holding item_unit held_rows name (sold_or_weighed_in name) positive)
                   (refuse_unit_in_use (List.member gone name))) (gone @ retyped)) (\<lambda>_.
          all_fit (\<lambda>(name, d). rbind (holding item_unit held_rows name (finer_in_item name d) (\<lambda>q. finer_than q d)) refuse_lowered)
            lowered))))))"

end
