(* ===== verification/UnitFacts.thy ===== *)
theory UnitFacts
  imports UnitChange
begin

text \<open>
  What a change to the company's units keeps: every item and everything an open record can still move
  goes on fitting its unit.
\<close>

section \<open>Quantities under more places\<close>

lemma places_exp_minus: "places_exp d = - max d 0"
  by (simp add: places_exp_def)

lemma exceeds_precision_False:
  "exceeds_precision x d = Inr False \<longleftrightarrow>
     (\<exists>n. shortest x = of_int n * 10 powi (- max d 0) \<and> \<bar>n\<bar> < 10 ^ prec)"
proof
  let ?p = "max d 0" and ?s = "shortest x"
  assume "exceeds_precision x d = Inr False"
  then obtain q where q: "dquantize (dec_of_float x) (- ?p) = Inr q" "deq (dec_of_float x) q = Inr True"
    by (auto simp: exceeds_precision_def places_exp_minus Let_def rbind_eq_Inr rmap_eq_Inr)
  note r = dquantize_Inr [OF dec_of_float_fin q(1)]
  have "?s = dval q" using q(2) r(1) by (simp add: dval_dec_of_float del: dval.simps)
  then have "?s = of_int (rhu (?s * 10 powi ?p)) * 10 powi (- ?p)" using r(1) by (simp add: dval_dec_of_float)
  then show "\<exists>n. ?s = of_int n * 10 powi (- ?p) \<and> \<bar>n\<bar> < 10 ^ prec" using r(2) by (auto simp: dval_dec_of_float)
next
  let ?p = "max d 0" and ?s = "shortest x"
  assume "\<exists>n. ?s = of_int n * 10 powi (- ?p) \<and> \<bar>n\<bar> < 10 ^ prec"
  then obtain n where n: "?s = of_int n * 10 powi (- ?p)" "\<bar>n\<bar> < 10 ^ prec" by blast
  have "?s * 10 powi ?p = of_int n" using p10_add [of "- ?p" ?p] by (simp add: n(1))
  then have "dquantize (dec_of_float x) (- ?p) = Inr (Fin n (- ?p))"
    using dquantize_val [of "dec_of_float x" ?p] n(2) by (simp add: dval_dec_of_float)
  then show "exceeds_precision x d = Inr False"
    by (simp add: exceeds_precision_def places_exp_minus Let_def dval_dec_of_float n(1))
qed

lemma exceeds_precision_mono:
  assumes "exceeds_precision x d = Inr False" "d \<le> d'" "d' \<le> 6" "\<bar>shortest x\<bar> \<le> 10 ^ 20"
  shows "exceeds_precision x d' = Inr False"
proof -
  let ?p = "max d 0" and ?p' = "max d' 0"
  obtain n where n: "shortest x = of_int n * 10 powi (- ?p)" using assms(1) by (auto simp: exceeds_precision_False)
  define m where "m = n * 10 ^ nat (?p' - ?p)"
  have "(10::rat) powi (?p' - ?p) * 10 powi (- ?p') = 10 powi (- ?p)" using p10_add [of "?p' - ?p" "- ?p'"] by simp
  then have m: "shortest x = of_int m * 10 powi (- ?p')"
    using p10_nat [of "?p' - ?p"] assms(2) by (simp add: m_def n mult.assoc)
  have "(10::rat) powi (- ?p') * 10 ^ 6 \<ge> 1"
    using p10_add [of "- ?p'" 6] p10_le_iff [of 0 "6 - ?p'"] assms(3) by (simp add: p10_nat)
  then have "of_int \<bar>m\<bar> \<le> of_int \<bar>m\<bar> * ((10::rat) powi (- ?p') * 10 ^ 6)" by (simp add: mult_le_cancel_left1)
  also have "\<dots> = \<bar>shortest x\<bar> * 10 ^ 6" by (simp add: m abs_mult)
  also have "\<dots> \<le> 10 ^ 20 * 10 ^ 6" using assms(4) by (intro mult_right_mono) auto
  also have "\<dots> < of_int (10 ^ prec)" by simp
  finally have "\<bar>m\<bar> < 10 ^ prec" by linarith
  then show ?thesis using m by (auto simp: exceeds_precision_False)
qed

text \<open>A quantity that reads as a number, within the digits of the check, or as no number at all.\<close>

definition sized :: "pyval \<Rightarrow> bool" where
  "sized q = (case py_float q of Inr x \<Rightarrow> \<bar>shortest x\<bar> \<le> 10 ^ 20 | Inl e \<Rightarrow> not_a_number e)"

lemma finer_than_mono: "finer_than q d = Inr False \<Longrightarrow> sized q \<Longrightarrow> d \<le> d' \<Longrightarrow> d' \<le> 6 \<Longrightarrow> finer_than q d' = Inr False"
  by (auto simp: finer_than_def sized_def intro: exceeds_precision_mono split: sum.splits)

lemma positive_sized: "sized q \<Longrightarrow> \<exists>b. positive q = Inr b"
  by (cases "py_float q") (auto simp: positive_def sized_def)

section \<open>Units by name\<close>

lemma in_set_update: "(n, u) \<in> set (AList.update k v m) \<Longrightarrow> (n, u) \<in> set m \<or> u = v"
  by (induction m) (auto split: if_splits)

lemma add_unit_cases: "add_unit m v = Inr m' \<Longrightarrow> m' = m \<or> (\<exists>s. m' = AList.update s v m)"
proof -
  assume "add_unit m v = Inr m'"
  then obtain name where "(case name of PStr s \<Rightarrow> Inr (AList.update s v m) | _ \<Rightarrow> if hashable name then Inr m else Inl TypeError) = Inr m'"
    by (auto simp only: add_unit_def rbind_eq_Inr)
  then show ?thesis by (cases name) (auto split: if_splits)
qed

lemma build_unit_map_vals: "build_unit_map us = Inr m \<Longrightarrow> (n, u) \<in> set m \<Longrightarrow> u \<in> set us"
proof -
  have "foldR add_unit m0 us = Inr m \<Longrightarrow> (n, u) \<in> set m \<Longrightarrow> (n, u) \<in> set m0 \<or> u \<in> set us" for m0
  proof (induction us arbitrary: m0)
    case (Cons v us)
    then obtain m1 where m1: "add_unit m0 v = Inr m1" "foldR add_unit m1 us = Inr m" by (auto simp: rbind_eq_Inr)
    have "(n, u) \<in> set m1 \<Longrightarrow> (n, u) \<in> set m0 \<or> u = v"
      using add_unit_cases [OF m1(1)] by (auto dest: in_set_update)
    then show ?case using Cons.IH [OF m1(2) Cons.prems(2)] by auto
  qed simp
  then show "build_unit_map us = Inr m \<Longrightarrow> (n, u) \<in> set m \<Longrightarrow> u \<in> set us" by (fastforce simp: build_unit_map_def)
qed

lemma validated_decimals:
  assumes "validate_units us = Inr ()" "u \<in> set us"
  shows "0 \<le> u_decimals u \<and> u_decimals u \<le> 6"
proof -
  have "foldR validate_unit seen us = Inr s \<Longrightarrow> u \<in> set us \<Longrightarrow> 0 \<le> u_decimals u \<and> u_decimals u \<le> 6" for seen s
    by (induction us arbitrary: seen) (auto simp: rbind_eq_Inr validate_unit_def split: if_splits)
  then show ?thesis using assms by (auto simp: validate_units_def rmap_eq_Inr)
qed

lemma dump_unit_decimals: "dkey (dump_unit u) ''decimals'' = Inr (PInt (u_decimals u))" "decimals_of (dump_unit u) = Inr (u_decimals u)"
  by (auto simp: dump_unit_def dkey_def decimals_of_def dget_def dget_or_def py_or_def)

lemma new_unit:
  assumes "validate_units us = Inr ()" "build_unit_map (map dump_unit us) = Inr m" "map_of m name = Some u"
  obtains d where "decimals_of u = Inr d" "rbind (dkey u ''decimals'') py_int = Inr d" "0 \<le> d" "d \<le> 6"
proof -
  from build_unit_map_vals [OF assms(2) map_of_SomeD [OF assms(3)]] obtain r where "u = dump_unit r" "r \<in> set us" by auto
  then show thesis using that validated_decimals [OF assms(1)] by (simp add: dump_unit_decimals)
qed

section \<open>The items a key names\<close>

definition item_keys :: "string \<times> dict \<Rightarrow> string list" where
  "item_keys item =
     filter (\<lambda>k. k \<noteq> []) (fst item # (case dget (snd item) ''sku'' of PStr s \<Rightarrow> [s] | _ \<Rightarrow> []))"

lemma item_keys_full: "k \<in> set (item_keys item) \<Longrightarrow> k \<noteq> []"
  unfolding item_keys_def set_filter by blast

lemma put_item_unit_cases:
  assumes "put_item_unit u m key = Inr m'"
  shows "m' = (case key of PStr s \<Rightarrow> if s = [] then m else AList.update s u m | _ \<Rightarrow> m)"
  using assms by (cases key) (auto simp: put_item_unit_def split: if_splits)

lemma put_names:
  assumes "foldR (put_item_unit u) m (names_of_item item) = Inr m'"
  shows "map_of m' k = (if k \<in> set (item_keys item) then Some u else map_of m k)"
proof -
  from assms obtain m1 where "put_item_unit u m (PStr (fst item)) = Inr m1" "put_item_unit u m1 (dget (snd item) ''sku'') = Inr m'"
    by (auto simp: names_of_item_def rbind_eq_Inr)
  from this [THEN put_item_unit_cases] show ?thesis
    by (auto simp: item_keys_def split: pyval.splits)
qed

lemma item_units_append:
  "item_units (items @ [item]) = rbind (item_units items) (\<lambda>m. foldR (put_item_unit (dget (snd item) ''sell_by'')) m (names_of_item item))"
  by (simp add: item_units_def foldR_append)

lemma item_units_some:
  "item_units items = Inr m \<Longrightarrow> map_of m k = Some v \<Longrightarrow> \<exists>item\<in>set items. k \<in> set (item_keys item) \<and> v = dget (snd item) ''sell_by''"
proof (induction items arbitrary: m v rule: rev_induct)
  case (snoc item items)
  then obtain m0 where m0: "item_units items = Inr m0" "foldR (put_item_unit (dget (snd item) ''sell_by'')) m0 (names_of_item item) = Inr m"
    by (auto simp: item_units_append rbind_eq_Inr)
  show ?case using put_names [OF m0(2), of k] snoc.IH [OF m0(1)] snoc.prems(2) by (auto split: if_splits)
qed (simp add: item_units_def)

lemma item_units_none:
  "item_units items = Inr m \<Longrightarrow> map_of m k = None \<Longrightarrow> item \<in> set items \<Longrightarrow> k \<notin> set (item_keys item)"
proof (induction items arbitrary: m rule: rev_induct)
  case (snoc it items)
  then obtain m0 where m0: "item_units items = Inr m0" "foldR (put_item_unit (dget (snd it) ''sell_by'')) m0 (names_of_item it) = Inr m"
    by (auto simp: item_units_append rbind_eq_Inr)
  show ?case using put_names [OF m0(2), of k] snoc.IH [OF m0(1)] snoc.prems(2,3) by (auto split: if_splits)
qed simp

text \<open>Items that share a key are sold by the same unit: a SKU has one unit, and an id names one item.\<close>

definition units_agree :: "(string \<times> dict) list \<Rightarrow> bool" where
  "units_agree items \<longleftrightarrow>
     list_all (\<lambda>a. list_all (\<lambda>b. list_all (\<lambda>k. \<not> List.member (item_keys b) k \<or> dget (snd a) ''sell_by'' = dget (snd b) ''sell_by'') (item_keys a))
       items) items"

lemma units_agreeD:
  "units_agree items \<Longrightarrow> a \<in> set items \<Longrightarrow> b \<in> set items \<Longrightarrow> k \<in> set (item_keys a) \<Longrightarrow> k \<in> set (item_keys b)
    \<Longrightarrow> dget (snd a) ''sell_by'' = dget (snd b) ''sell_by''"
  by (auto simp: units_agree_def list_all_iff)

lemma item_units_agree:
  assumes "item_units items = Inr m" "set items \<subseteq> set every" "units_agree every" "item \<in> set items" "k \<in> set (item_keys item)"
  shows "map_of m k = Some (dget (snd item) ''sell_by'')"
proof (cases "map_of m k")
  case None
  then show ?thesis using item_units_none [OF assms(1) None assms(4)] assms(5) by simp
next
  case (Some v)
  then obtain b where "b \<in> set items" "k \<in> set (item_keys b)" "v = dget (snd b) ''sell_by''" using item_units_some [OF assms(1)] by blast
  then show ?thesis using units_agreeD [OF assms(3), of b item k] assms(2,4,5) Some by auto
qed

lemma mem_row_items: "(i, st) \<in> set (row_items rs) \<longleftrightarrow> (i, ''item'', st) \<in> set rs"
  by (force simp: row_items_def)

lemma items_named_iff:
  assumes "k \<in> set keys" "k \<in> set (item_keys (i, st))" "(i, st) \<in> set (row_items rs)"
  shows "(i, st) \<in> set (items_named rs keys)"
proof -
  have "i \<in> set keys \<or> str_in (dget st ''sku'') keys"
    using assms(1,2) by (auto simp: item_keys_def str_in_def split: pyval.splits if_splits)
  then show ?thesis using assms(3) by (force simp: items_named_def mem_row_items)
qed

lemma items_named_sub: "set (items_named rs keys) \<subseteq> set (row_items rs)"
  by (force simp: items_named_def row_items_def)

section \<open>Nobody holds a name\<close>

lemma filterR_Inr: "filterR p xs = Inr ys \<Longrightarrow> ys = filter (\<lambda>x. p x = Inr True) xs \<and> (\<forall>x\<in>set xs. \<exists>b. p x = Inr b)"
  by (induction xs arbitrary: ys) (auto simp: rbind_eq_Inr)

lemma filterR_none: "filterR p xs = Inr [] \<Longrightarrow> x \<in> set xs \<Longrightarrow> p x = Inr False"
proof -
  assume a: "filterR p xs = Inr []" "x \<in> set xs"
  then obtain b where b: "p x = Inr b" using filterR_Inr by blast
  have "p x \<noteq> Inr True" using conjunct1 [OF filterR_Inr [OF a(1)], symmetric] a(2) by (simp add: filter_empty_conv)
  then show "p x = Inr False" using b by (cases b) auto
qed

definition no_holder :: "holders \<Rightarrow> bool" where "no_holder h \<longleftrightarrow> h_holders h = [] \<and> h_templates h = []"

lemma add_holder_none:
  assumes "add_holder iu name f g h ((i, et, st), lines) = Inr h'" "no_holder h'"
  shows "no_holder h" "et = ''item'' \<Longrightarrow> f st = Inr False"
    "\<And>mv u. et \<noteq> ''item'' \<Longrightarrow> mv \<in> set lines \<Longrightarrow> line_unit (fst mv) iu = Inr (PStr name) \<Longrightarrow> g (snd mv) = Inr False"
proof -
  obtain holds lt where holds: "(if et = ''item'' then f st
            else rmap (\<lambda>held. held \<noteq> [])
                   (filterR (\<lambda>mv. rbind (line_unit (fst mv) iu) (\<lambda>u. if str_is u name then g (snd mv) else Inr False)) lines)) = Inr holds"
    and rest: "(case lt of (label, template) \<Rightarrow> if \<not> holds then Inr h
     else rbind (if h_partly h then Inr True else partly_received et st) (\<lambda>partly.
          let named = (if template then h\<lparr>h_templates := h_templates h @ [holder_text label]\<rparr>
                       else h\<lparr>h_holders := h_holders h @ [holder_text label]\<rparr>)
          in Inr (named\<lparr>h_partly := partly\<rparr>))) = Inr h'"
    using assms(1) unfolding add_holder_def prod.case rbind_eq_Inr by blast
  have nobody: "\<not> holds"
  proof
    assume "holds"
    then show False using rest assms(2) by (cases lt) (auto simp: no_holder_def Let_def rbind_eq_Inr split: if_splits)
  qed
  then show "no_holder h" using rest assms(2) by (cases lt) simp
  show "et = ''item'' \<Longrightarrow> f st = Inr False" using holds nobody by simp
  fix mv assume mv: "et \<noteq> ''item''" "mv \<in> set lines" "line_unit (fst mv) iu = Inr (PStr name)"
  then have "filterR (\<lambda>mv. rbind (line_unit (fst mv) iu) (\<lambda>u. if str_is u name then g (snd mv) else Inr False)) lines = Inr []"
    using holds nobody by (auto simp: rmap_eq_Inr)
  from filterR_none [OF this mv(2)] show "g (snd mv) = Inr False" using mv(3) by (simp add: str_is_def)
qed

lemma holding_none:
  assumes "holding iu held_rows name f g = Inr h" "no_holder h" "((i, et, st), lines) \<in> set held_rows"
  shows "et = ''item'' \<Longrightarrow> f st = Inr False"
    "\<And>mv. et \<noteq> ''item'' \<Longrightarrow> mv \<in> set lines \<Longrightarrow> line_unit (fst mv) iu = Inr (PStr name) \<Longrightarrow> g (snd mv) = Inr False"
proof -
  have "foldR (add_holder iu name f g) h0 rs = Inr h \<Longrightarrow> no_holder h \<and>
      (\<forall>((i, et, st), lines)\<in>set rs. (et = ''item'' \<longrightarrow> f st = Inr False) \<and>
         (et \<noteq> ''item'' \<longrightarrow> (\<forall>mv\<in>set lines. line_unit (fst mv) iu = Inr (PStr name) \<longrightarrow> g (snd mv) = Inr False))) \<and> no_holder h0" for h0 rs
  proof (induction rs arbitrary: h0)
    case (Cons r rs)
    obtain i et st lines where r: "r = ((i, et, st), lines)" by (metis prod_cases4 prod.collapse)
    from Cons.prems obtain h1 where h1: "add_holder iu name f g h0 r = Inr h1" "foldR (add_holder iu name f g) h1 rs = Inr h"
      by (auto simp: rbind_eq_Inr)
    show ?case using Cons.IH [OF h1(2)] add_holder_none [OF h1(1) [unfolded r]] by (simp add: r)
  qed (use assms(2) in simp)
  from this [OF assms(1) [unfolded holding_def]] assms(3)
  show "et = ''item'' \<Longrightarrow> f st = Inr False"
    "\<And>mv. et \<noteq> ''item'' \<Longrightarrow> mv \<in> set lines \<Longrightarrow> line_unit (fst mv) iu = Inr (PStr name) \<Longrightarrow> g (snd mv) = Inr False"
    by fastforce+
qed

lemma all_fit_iff: "all_fit f xs = Inr () \<longleftrightarrow> (\<forall>x\<in>set xs. f x = Inr ())"
  by (induction xs) (auto simp: all_fit_def rmap_eq_Inr rbind_eq_Inr)

text \<open>An accepted change: what it looked at, and that nobody held a name it touches.\<close>

definition touched :: "unit_map \<Rightarrow> unit_map \<Rightarrow> (string \<times> int) list \<Rightarrow> string list" where
  "touched old new lowered = units_gone old new @ units_retyped old new @ map fst lowered"

lemma accepted_change:
  assumes "check_units_change rs old_units new_units = Inr ()" "build_unit_map old_units = Inr old" "build_unit_map new_units = Inr new"
    and "units_lowered old new = Inr lowered" "touched old new lowered \<noteq> []"
  obtains iu held_rows where "item_units (row_items (filter (chosen_row (touched old new lowered)) rs)) = Inr iu"
    "mapR (row_lines (row_items (filter (chosen_row (touched old new lowered)) rs))) (filter (chosen_row (touched old new lowered)) rs) = Inr held_rows"
    "\<And>name. name \<in> set (units_gone old new) \<Longrightarrow> \<exists>h. holding iu held_rows name (sold_or_weighed_in name) positive = Inr h \<and> no_holder h"
    "\<And>name d. (name, d) \<in> set lowered \<Longrightarrow> \<exists>h. holding iu held_rows name (finer_in_item name d) (\<lambda>q. finer_than q d) = Inr h \<and> no_holder h"
proof -
  let ?chosen = "filter (chosen_row (touched old new lowered)) rs"
  from assms obtain iu held_rows where iu: "item_units (row_items ?chosen) = Inr iu" and rows: "mapR (row_lines (row_items ?chosen)) ?chosen = Inr held_rows"
    and gone: "all_fit (\<lambda>name. rbind (holding iu held_rows name (sold_or_weighed_in name) positive)
          (refuse_unit_in_use (List.member (units_gone old new) name))) (units_gone old new @ units_retyped old new) = Inr ()"
    and low: "all_fit (\<lambda>(name, d). rbind (holding iu held_rows name (finer_in_item name d) (\<lambda>q. finer_than q d)) refuse_lowered) lowered = Inr ()"
    unfolding check_units_change_def touched_def Let_def
    by (simp only: rbind_Inr append.assoc append_is_Nil_conv map_is_Nil_conv if_False) (auto simp: rbind_eq_Inr)
  show thesis
  proof (rule that [OF iu rows])
    fix name assume "name \<in> set (units_gone old new)"
    then show "\<exists>h. holding iu held_rows name (sold_or_weighed_in name) positive = Inr h \<and> no_holder h"
      using gone by (fastforce simp: all_fit_iff rbind_eq_Inr refuse_unit_in_use_def no_holder_def split: if_splits)
  next
    fix name d assume "(name, d) \<in> set lowered"
    then show "\<exists>h. holding iu held_rows name (finer_in_item name d) (\<lambda>q. finer_than q d) = Inr h \<and> no_holder h"
      using low by (fastforce simp: all_fit_iff rbind_eq_Inr refuse_lowered_def no_holder_def split: if_splits)
  qed
qed

section \<open>What still moves, whichever items are known\<close>

lemma mapR_pair: "mapR (\<lambda>x. rmap (Pair x) (f x)) xs = Inr ys \<Longrightarrow> map fst ys = xs"
  by (induction xs arbitrary: ys) (auto simp: rbind_eq_Inr rmap_eq_Inr)

lemma doc_moving_shape:
  assumes "doc_still_moving st f = Inr lf"
  obtains (shipping) ls where "object_lines st = Inr ls"
      "\<And>g. doc_still_moving st g = rmap whole_lines (filterR (\<lambda>line. rmap Not (g line)) ls)"
  | (other) ls where "object_lines st = Inr ls" "\<And>g. doc_still_moving st g = Inr lf" "fst ` set lf \<subseteq> set ls"
proof -
  let ?t = "dget st ''doc_type''" and ?s = "dget st ''status''"
  obtain ls where ls: "object_lines st = Inr ls" using assms by (auto simp: doc_still_moving_def Let_def rbind_eq_Inr)
  obtain quoted where q: "(if str_is ?t ''quotation'' then rmap Not (in_set ?s QUOTATION_SPENT_STATUSES) else Inr False) = Inr quoted"
    using assms unfolding doc_still_moving_def Let_def rbind_eq_Inr by blast
  obtain carried where c: "(if quoted then Inr True
      else rmap (\<lambda>b. b \<and> \<not> str_is ?s ''cancelled'') (in_set ?t TEMPLATE_DOC_TYPES)) = Inr carried"
    using assms unfolding doc_still_moving_def Let_def q ls rbind_Inr rbind_eq_Inr by blast
  have whole: "fst ` set (whole_lines ls) \<subseteq> set ls" for ls by (auto simp: whole_lines_def)
  show thesis
  proof (cases carried)
    case True
    have "doc_still_moving st g = Inr (whole_lines ls)" for g by (simp only: doc_still_moving_def Let_def q ls c rbind_Inr True if_True)
    then show thesis using assms other ls whole by auto
  next
    case False
    note start = doc_still_moving_def Let_def q ls c rbind_Inr False if_False
    obtain r where r: "status_in RECEIVABLE_STATUSES ?t ?s = Inr r" using assms by (auto simp only: start rbind_eq_Inr)
    show thesis
    proof (cases r)
      case True
      have same: "doc_still_moving st g = rmap (\<lambda>lefts. map (\<lambda>(line, left). (line, PFloat left)) (filter (\<lambda>(_, left). 0 < left) lefts))
          (mapR (\<lambda>line. rmap (Pair line) (unreceived line)) ls)" for g by (simp only: start r True if_True)
      with assms obtain lefts where l: "mapR (\<lambda>line. rmap (Pair line) (unreceived line)) ls = Inr lefts"
        "lf = map (\<lambda>(line, left). (line, PFloat left)) (filter (\<lambda>(_, left). 0 < left) lefts)" by (auto simp: rmap_eq_Inr)
      have "fst ` set lf \<subseteq> fst ` set lefts" by (force simp: l(2))
      then have "fst ` set lf \<subseteq> set ls" using mapR_pair [OF l(1)] by (metis set_map)
      moreover have "doc_still_moving st g = Inr lf" for g using same l by simp
      ultimately show thesis using other [OF ls] by blast
    next
      case no: False
      obtain sh where sh: "status_in FULFILLABLE_STATUSES ?t ?s = Inr sh" using assms by (auto simp only: start r no rbind_eq_Inr)
      note past = start r no sh
      show thesis
      proof (cases sh)
        case True
        show thesis
        proof (cases "str_is (dget st ''fulfillment_status'') ''fulfilled''")
          case True
          have "doc_still_moving st g = Inr []" for g by (simp only: past \<open>sh\<close> True if_True)
          then show thesis using assms other [OF ls] by auto
        next
          case False
          have "doc_still_moving st g = rmap whole_lines (filterR (\<lambda>line. rmap Not (g line)) ls)" for g
            by (simp only: past \<open>sh\<close> False if_True if_False)
          then show thesis using shipping [OF ls] by blast
        qed
      next
        case False
        have "doc_still_moving st g = Inr (if ?s = PNone \<or> str_is ?s ''draft'' then whole_lines ls else [])" for g
          by (simp only: past False if_False) simp
        then show thesis using assms other [OF ls] whole by (auto split: if_splits)
      qed
    qed
  qed
qed

lemma doc_moving_lines:
  assumes "doc_still_moving st f = Inr lf" "object_lines st = Inr ls"
  shows "fst ` set lf \<subseteq> set ls"
  using assms(1)
proof (cases rule: doc_moving_shape)
  case (shipping ls')
  then show ?thesis using assms by (auto simp: rmap_eq_Inr whole_lines_def dest!: filterR_Inr)
qed (use assms in auto)

lemma doc_moving_sub:
  assumes "doc_still_moving st f = Inr lf" "doc_still_moving st g = Inr lg" "object_lines st = Inr ls"
    and "\<And>line. line \<in> set ls \<Longrightarrow> g line = Inr True \<Longrightarrow> f line = Inr True"
  shows "set lf \<subseteq> set lg"
  using assms(1)
proof (cases rule: doc_moving_shape)
  case (shipping ls')
  have ls: "ls' = ls" using shipping(1) assms(3) by simp
  obtain xs ys where xs: "filterR (\<lambda>line. rmap Not (f line)) ls = Inr xs" "lf = whole_lines xs"
    and ys: "filterR (\<lambda>line. rmap Not (g line)) ls = Inr ys" "lg = whole_lines ys"
    using assms(1,2) shipping(2) ls by (auto simp: rmap_eq_Inr)
  have "set xs \<subseteq> set ys"
  proof
    fix line assume "line \<in> set xs"
    then have line: "line \<in> set ls" "rmap Not (f line) = Inr True" using filterR_Inr [OF xs(1)] by auto
    obtain b where b: "g line = Inr b" using filterR_Inr [OF ys(1)] line(1) by (auto simp: rmap_eq_Inr)
    then have "\<not> b" using assms(4) [OF line(1)] line(2) by (cases b) auto
    then show "line \<in> set ys" using filterR_Inr [OF ys(1)] line(1) b by auto
  qed
  then show ?thesis by (auto simp: xs(2) ys(2) whole_lines_def)
qed (use assms in auto)

section \<open>A line under the new units\<close>

lemma unit_at_Inr: "hashable v \<Longrightarrow> \<exists>a. unit_at m v = Inr a"
  by (cases v) (auto simp: unit_at_def table_get_def hashable_def)

lemma item_state_hashable: "item_state items v = Inr d \<Longrightarrow> hashable v"
  by (cases v) (auto simp: item_state_def table_get_def hashable_def)

lemma unit_decimals_str:
  "unit_decimals (PStr u) m =
     (if u = [] \<or> List.member SERVICE_SELL_BY u then Inr None
      else case map_of m u of None \<Rightarrow> Inr None | Some e \<Rightarrow> rmap Some (decimals_of e))"
  by (auto simp: unit_decimals_def table_get_def)

lemma line_fits_again:
  assumes fits: "line_fits old items iu t0 mv = Inr ()" and "sized (snd mv)" "hashable (dget (fst mv) ''sku'')"
    and gone: "\<And>u. line_unit (fst mv) iu = Inr (PStr u) \<Longrightarrow> map_of old u \<noteq> None \<Longrightarrow> map_of new u = None \<Longrightarrow>
      unit_at iu (dget (fst mv) ''item_id'') \<noteq> Inr (PStr u) \<and> unit_at iu (dget (fst mv) ''sku'') \<noteq> Inr (PStr u)"
    and low: "\<And>u nu. line_unit (fst mv) iu = Inr (PStr u) \<Longrightarrow> u \<noteq> [] \<Longrightarrow> map_of new u = Some nu \<Longrightarrow>
      \<exists>d. decimals_of nu = Inr d \<and> d \<le> 6 \<and> (finer_than (snd mv) d = Inr False \<or>
        (\<exists>ou d0. map_of old u = Some ou \<and> decimals_of ou = Inr d0 \<and> d0 \<le> d))"
  shows "line_fits new items iu t mv = Inr ()"
proof -
  obtain unit ist removed where unit: "line_unit (fst mv) iu = Inr unit" and ist: "item_state items (dget (fst mv) ''item_id'') = Inr ist"
    and removed: "in_removed_unit old iu unit mv = Inr removed"
    using fits by (auto simp only: line_fits_def rbind_eq_Inr)
  note at_start = line_fits_def unit ist rbind_Inr
  have kept: "removed = False" using fits by (auto simp only: at_start removed split: if_splits)
  note here = at_start removed kept if_False
  have fits': "in_removed_unit new iu unit mv = Inr False \<Longrightarrow> unit_decimals unit new = Inr None
      \<or> (\<exists>d. unit_decimals unit new = Inr (Some d) \<and> finer_than (snd mv) d = Inr False) \<Longrightarrow> ?thesis"
    unfolding at_start by auto
  have old_ok: "unit_decimals unit old = Inr None \<or> (\<exists>d. unit_decimals unit old = Inr (Some d) \<and> finer_than (snd mv) d = Inr False)"
  proof -
    obtain x where x: "unit_decimals unit old = Inr x" using fits unfolding here rbind_eq_Inr by blast
    then show ?thesis using fits unfolding here by (cases x) (auto simp: rbind_eq_Inr split: if_splits)
  qed
  show ?thesis
  proof (cases "\<exists>u. unit = PStr u \<and> u \<noteq> []")
    case False
    have same: "\<not> truthy unit \<or> (table_get old unit = Inr None \<and> table_get new unit = Inr None)"
      using removed False by (cases unit) (auto simp: in_removed_unit_def table_get_def split: if_splits)
    then have "in_removed_unit new iu unit mv = in_removed_unit old iu unit mv" "unit_decimals unit new = unit_decimals unit old"
      by (auto simp: in_removed_unit_def unit_decimals_def cong: if_cong)
    then show ?thesis using fits' old_ok removed kept by simp
  next
    case True
    then obtain u where u: "unit = PStr u" "u \<noteq> []" by blast
    show ?thesis
    proof (cases "map_of new u")
      case (Some nu)
      then have "in_removed_unit new iu unit mv = Inr False" by (simp add: in_removed_unit_def u table_get_def)
      moreover obtain d where d: "decimals_of nu = Inr d" "d \<le> 6" "finer_than (snd mv) d = Inr False \<or>
          (\<exists>ou d0. map_of old u = Some ou \<and> decimals_of ou = Inr d0 \<and> d0 \<le> d)"
        using low [OF unit [unfolded u(1)] u(2) Some] by blast
      moreover have "finer_than (snd mv) d = Inr False" if ns: "\<not> List.member SERVICE_SELL_BY u"
        using d(3)
      proof
        assume "\<exists>ou d0. map_of old u = Some ou \<and> decimals_of ou = Inr d0 \<and> d0 \<le> d"
        then obtain d0 where d0: "unit_decimals unit old = Inr (Some d0)" "d0 \<le> d" using ns u by (auto simp: unit_decimals_str)
        then have "finer_than (snd mv) d0 = Inr False" using old_ok by auto
        then show ?thesis using finer_than_mono assms(2) d0(2) d(2) by blast
      qed
      ultimately show ?thesis using fits' Some u by (auto simp: unit_decimals_str)
    next
      case None
      have "unit_decimals unit new = Inr None" using None u by (simp add: unit_decimals_str)
      moreover have "in_removed_unit new iu unit mv = Inr False"
      proof (cases "map_of old u")
        case o: None
        then have "in_removed_unit new iu unit mv = in_removed_unit old iu unit mv" using None by (simp add: in_removed_unit_def u table_get_def)
        then show ?thesis using removed kept by simp
      next
        case (Some ou)
        obtain b where b: "positive (snd mv) = Inr b" using positive_sized [OF assms(2)] by blast
        obtain a c where a: "unit_at iu (dget (fst mv) ''item_id'') = Inr a" and c: "unit_at iu (dget (fst mv) ''sku'') = Inr c"
          using unit_at_Inr [OF item_state_hashable [OF ist]] unit_at_Inr [OF assms(3)] by blast
        have "a \<noteq> PStr u" "c \<noteq> PStr u" using gone [OF unit [unfolded u(1)]] Some None a c by auto
        then show ?thesis using None u a b c by (simp add: in_removed_unit_def table_get_def)
      qed
      ultimately show ?thesis using fits' by blast
    qed
  qed
qed

lemma lowered_or_kept:
  assumes "units_lowered old new = Inr lowered" "map_of new u = Some nu" "decimals_of nu = Inr d" "rbind (dkey nu ''decimals'') py_int = Inr d"
  shows "(u, d) \<in> set lowered \<or> (\<exists>ou d0. map_of old u = Some ou \<and> decimals_of ou = Inr d0 \<and> d0 \<le> d)"
proof -
  obtain rs where rs: "mapR (lowered_unit old) new = Inr rs" "lowered = List.map_filter id rs"
    using assms(1) by (auto simp: units_lowered_def rmap_eq_Inr)
  have "(u, nu) \<in> set new" using assms(2) by (rule map_of_SomeD)
  then obtain k where k: "k < length new" "new ! k = (u, nu)" by (auto simp: in_set_conv_nth)
  have lu: "lowered_unit old (u, nu) = Inr (rs ! k)" using mapR_nth [OF rs(1) k(1)] k(2) by simp
  show ?thesis
  proof (cases "rs ! k")
    case None
    then show ?thesis using lu assms(4) by (cases "map_of old u") (auto simp: lowered_unit_def rbind_eq_Inr rmap_eq_Inr split: if_splits)
  next
    case (Some p)
    then have "p = (u, d)" using lu assms(4) by (auto simp: lowered_unit_def rbind_eq_Inr rmap_eq_Inr split: if_splits)
    moreover have "p \<in> set lowered" using Some k(1) mapR_length [OF rs(1)] unfolding rs(2) List.map_filter_def
      by (force simp: in_set_conv_nth)
    ultimately show ?thesis by simp
  qed
qed

section \<open>The two sets of items\<close>

definition item_has :: "string \<Rightarrow> stored \<Rightarrow> bool" where
  "item_has k row = (case row of (i, et, st) \<Rightarrow> et = ''item'' \<and> List.member (item_keys (i, st)) k)"

definition live_item :: "stored \<Rightarrow> bool" where
  "live_item row = (case row of (_, et, st) \<Rightarrow> et = ''item'' \<and> \<not> str_is (dget st ''status'') ''disposed'')"

text \<open>A key of an item is also one of an item that was not written off.\<close>

definition keys_live :: "stored list \<Rightarrow> string list \<Rightarrow> bool" where
  "keys_live rs keys = list_all (\<lambda>k. list_ex (\<lambda>row. live_item row \<and> item_has k row) rs \<or> \<not> list_ex (item_has k) rs) keys"

lemma line_names_key:
  assumes "line_keys line = Inr ks" "dget line ''item_id'' = PStr k \<or> dget line ''sku'' = PStr k" "k \<noteq> []"
  shows "k \<in> set ks"
  using assms by (auto simp: line_keys_def rbind_eq_Inr key_of_def line_item_id_def)

lemma line_item_key:
  assumes "line_keys line = Inr ks" "line_item_id line = PStr k" "k \<noteq> []"
  shows "k \<in> set ks"
  using assms by (auto simp: line_keys_def rbind_eq_Inr key_of_def)

lemma unit_at_str [simp]: "unit_at m (PStr k) = Inr (case map_of m k of Some v \<Rightarrow> v | None \<Rightarrow> PNone)"
  by (simp add: unit_at_def table_get_def)

lemma unit_at_not_str: "(\<And>k. v \<noteq> PStr k) \<Longrightarrow> unit_at m v = unit_at m' v"
  by (cases v) (auto simp: unit_at_def table_get_def)

lemma unit_at_some:
  assumes "item_units items = Inr m" "unit_at m v = Inr (PStr u)"
  obtains k item where "v = PStr k" "k \<noteq> []" "item \<in> set items" "k \<in> set (item_keys item)" "dget (snd item) ''sell_by'' = PStr u"
proof -
  obtain k where v: "v = PStr k" using assms(2) by (cases v) (auto simp: unit_at_def table_get_def)
  then have "map_of m k = Some (PStr u)" using assms(2) by (auto split: option.splits)
  from item_units_some [OF assms(1) this] obtain item where "item \<in> set items" "k \<in> set (item_keys item)" "dget (snd item) ''sell_by'' = PStr u"
    by auto
  moreover from this have "k \<noteq> []" by (blast dest: item_keys_full)
  ultimately show thesis using that v by blast
qed

text \<open>A live item under a key of a line, sold by the unit its line is in.\<close>

lemma live_twin:
  assumes "item \<in> set (row_items rs)" "k \<in> set (item_keys item)" "k \<in> set keys" "keys_live rs keys" "units_agree (row_items rs)"
  obtains i st where "(i, ''item'', st) \<in> set rs" "live_item (i, ''item'', st)" "k \<in> set (item_keys (i, st))"
    "dget st ''sell_by'' = dget (snd item) ''sell_by''"
proof -
  have "(fst item, ''item'', snd item) \<in> set rs" using assms(1) mem_row_items [of "fst item" "snd item"] by simp
  then have "list_ex (item_has k) rs" using assms(2) by (force simp: list_ex_iff item_has_def)
  then obtain i et st where r: "(i, et, st) \<in> set rs" "live_item (i, et, st)" "item_has k (i, et, st)"
    using assms(3,4) by (auto simp: keys_live_def list_all_iff list_ex_iff)
  then have et: "et = ''item''" by (simp add: live_item_def)
  have "dget (snd (i, st)) ''sell_by'' = dget (snd item) ''sell_by''"
    by (rule units_agreeD [OF assms(5) _ assms(1), of "(i, st)" k]) (use r et assms(2) in \<open>auto simp: mem_row_items item_has_def\<close>)
  then show thesis using that r et by (auto simp: item_has_def)
qed

lemma chosen_live: "live_item (i, ''item'', st) \<Longrightarrow> dget st ''sell_by'' = PStr u \<Longrightarrow> u \<in> set names \<Longrightarrow> chosen_row names (i, ''item'', st)"
  by (simp add: live_item_def chosen_row_def str_in_def)

text \<open>The unit of a line, when it is one the change touches, is the same over the items the change
  looks at as over the items the record names.\<close>

lemma unit_transfer:
  assumes "item_units (items_named rs keys) = Inr iu" "item_units (row_items (filter (chosen_row names) rs)) = Inr iu'"
    and agree: "units_agree (row_items rs)" and live: "keys_live rs keys" and "u \<in> set names" "u \<noteq> []"
    and ks: "line_keys line = Inr ks" "set ks \<subseteq> set keys" and unit: "line_unit line iu = Inr (PStr u)"
  shows "line_unit line iu' = Inr (PStr u)"
proof -
  have sub: "set (row_items (filter (chosen_row names) rs)) \<subseteq> set (row_items rs)" by (force simp: row_items_def)
  have key: "k \<in> set keys" if "v = PStr k" "k \<noteq> []" "v = dget line ''item_id'' \<or> v = dget line ''sku''" for v k
    using line_names_key [OF ks(1)] ks(2) that by auto
  have same: "unit_at iu' v = Inr (PStr u)" if v: "unit_at iu v = Inr (PStr u)" "v = dget line ''item_id'' \<or> v = dget line ''sku''" for v
  proof -
    obtain k item where k: "v = PStr k" "k \<noteq> []" "item \<in> set (items_named rs keys)" "k \<in> set (item_keys item)"
        "dget (snd item) ''sell_by'' = PStr u"
      by (rule unit_at_some [OF assms(1) v(1)])
    have "item \<in> set (row_items rs)" using items_named_sub k(3) by blast
    then obtain i st where st: "(i, ''item'', st) \<in> set rs" "live_item (i, ''item'', st)" "k \<in> set (item_keys (i, st))"
        "dget st ''sell_by'' = PStr u"
      using live_twin [OF _ k(4) key [OF k(1,2) v(2)] live agree] k(5) by metis
    then have "(i, st) \<in> set (row_items (filter (chosen_row names) rs))" using chosen_live assms(5) by (simp add: mem_row_items)
    from item_units_agree [OF assms(2) sub agree this st(3)] show ?thesis using st(4) k(1) by simp
  qed
  have unset: "\<exists>a'. unit_at iu' v = Inr a' \<and> \<not> truthy a'" if v: "unit_at iu v = Inr a" "\<not> truthy a" "v = dget line ''item_id'' \<or> v = dget line ''sku''" for v a
  proof (cases "\<exists>k. v = PStr k")
    case False
    then have "unit_at iu' v = Inr a" using unit_at_not_str [of v iu iu'] v(1) by simp
    then show ?thesis using v(2) by blast
  next
    case True
    then obtain k where k: "v = PStr k" by blast
    show ?thesis
    proof (cases "map_of iu' k")
      case (Some x)
      then obtain item where item: "item \<in> set (row_items (filter (chosen_row names) rs))" "k \<in> set (item_keys item)" "x = dget (snd item) ''sell_by''"
        using item_units_some [OF assms(2)] by blast
      then have "k \<noteq> []" by (blast dest: item_keys_full)
      then have "item \<in> set (items_named rs keys)"
        using items_named_iff [of k keys "fst item" "snd item" rs] key [OF k _ v(3)] item sub by auto
      from item_units_agree [OF assms(1) items_named_sub agree this item(2)] show ?thesis using v k Some item(3) by simp
    qed (simp add: k)
  qed
  show ?thesis
  proof (cases "truthy (py_or (dget line ''unit'') (dget line ''sell_by''))")
    case True
    then show ?thesis using unit by (simp add: line_unit_def Let_def)
  next
    case False
    then obtain a where a: "unit_at iu (dget line ''item_id'') = Inr a" "(if truthy a then Inr a else unit_at iu (dget line ''sku'')) = Inr (PStr u)"
      using unit by (auto simp: line_unit_def Let_def rbind_eq_Inr)
    show ?thesis
    proof (cases "truthy a")
      case True
      then show ?thesis using a same [of "dget line ''item_id''"] False assms(6) by (simp add: line_unit_def Let_def)
    next
      case no: False
      then obtain a' where "unit_at iu' (dget line ''item_id'') = Inr a'" "\<not> truthy a'" using unset [OF a(1)] by blast
      then show ?thesis using a same [of "dget line ''sku''"] False no by (simp add: line_unit_def Let_def)
    qed
  qed
qed

section \<open>The company keeps within its units\<close>

definition record_keys :: "stored \<Rightarrow> string list res" where
  "record_keys row = (case row of (i, et, st) \<Rightarrow> rbind (named_lines i et st) (\<lambda>named. rmap concat (mapR line_keys named)))"

text \<open>A record whose moving lines have quantities and SKUs the check can read, and whose keys are
  not those of written-off items alone.\<close>

definition record_plain :: "stored list \<Rightarrow> stored \<Rightarrow> bool" where
  "record_plain rs row = (case row of (i, et, st) \<Rightarrow>
     (case record_keys row of Inl _ \<Rightarrow> True
      | Inr keys \<Rightarrow> keys_live rs keys \<and>
          (case still_moving i et st (items_named rs keys) of Inl _ \<Rightarrow> True
           | Inr lines \<Rightarrow> list_all (\<lambda>mv. sized (snd mv) \<and> hashable (dget (fst mv) ''sku'')) lines)))"

definition item_plain :: "dict \<Rightarrow> bool" where
  "item_plain st \<longleftrightarrow> sized (dget st ''quantity'') \<and>
     (case stored_sell_qty (dget st ''default_sell_qty'') of Some (Amount q) \<Rightarrow> \<bar>shortest (fl (dval q))\<bar> \<le> 10 ^ 20 | _ \<Rightarrow> True)"

definition company_plain :: "stored list \<Rightarrow> bool" where
  "company_plain rs \<longleftrightarrow> list_all (\<lambda>row. fst row \<noteq> []) rs \<and> distinct (map fst (row_items rs)) \<and> units_agree (row_items rs)
     \<and> list_all (\<lambda>row. (\<not> live_item row \<or> item_plain (snd (snd row))) \<and> (\<not> chosen_row [] row \<or> record_plain rs row)) rs"

text \<open>An item is sold by one of the units (or a service, or none), and its quantities fit it.\<close>

definition item_fits :: "dict list \<Rightarrow> dict \<Rightarrow> bool" where
  "item_fits units st =
     (case dget st ''sell_by'' of
        PStr name \<Rightarrow> name = [] \<or> List.member SERVICE_SELL_BY name \<or>
          rbind (build_unit_map units) (\<lambda>m. case map_of m name of None \<Rightarrow> Inr True
            | Some u \<Rightarrow> rbind (decimals_of u) (\<lambda>d. finer_in_item name d st)) = Inr False
      | v \<Rightarrow> \<not> truthy v)"

definition company_fits :: "stored list \<Rightarrow> dict list \<Rightarrow> bool" where
  "company_fits rs units \<longleftrightarrow>
     list_all (\<lambda>(i, et, st). (\<not> live_item (i, et, st) \<or> item_fits units st)
       \<and> (\<not> chosen_row [] (i, et, st) \<or> require_moving_fits_units rs units i et st [] None = Inr ())) rs"

lemma items_named_filter:
  "items_named rs keys = filter (\<lambda>(i, st). List.member keys i \<or> str_in (dget st ''sku'') keys) (row_items rs)"
  by (induction rs) (auto simp: items_named_def row_items_def)

lemma row_items_filter: "row_items (filter P rs) = filter (\<lambda>(i, st). P (i, ''item'', st)) (row_items rs)"
  by (induction rs) (auto simp: row_items_def)

lemma map_of_filtered:
  "distinct (map fst xs) \<Longrightarrow> map_of (filter P xs) k = Some v \<longleftrightarrow> (k, v) \<in> set xs \<and> P (k, v)"
  by (simp add: distinct_map_filter map_of_eq_Some_iff)

lemma sent_out_nothing: "sent_out_by [] d = Inr False"
  by (simp add: sent_out_by_def str_in_def)

lemma moving_sub:
  assumes "still_moving i et st (items_named rs keys) = Inr lines" "still_moving i et st (row_items (filter P rs)) = Inr lines'"
    and "distinct (map fst (row_items rs))" "list_all (\<lambda>row. fst row \<noteq> []) rs"
    and keys: "et \<noteq> ''mfg_order'' \<Longrightarrow> object_lines st = Inr ls" "\<And>line. line \<in> set ls \<Longrightarrow> \<exists>ks. line_keys line = Inr ks \<and> set ks \<subseteq> set keys"
  shows "set lines \<subseteq> set lines'"
proof (cases "et = ''doc''")
  case True
  let ?sent = "\<lambda>items line. rbind (item_state items (line_item_id line)) (\<lambda>s. sent_out_by s i)"
  have "doc_still_moving st (?sent (items_named rs keys)) = Inr lines" "doc_still_moving st (?sent (row_items (filter P rs))) = Inr lines'"
    using assms(1,2) True by (simp_all add: still_moving_def)
  then show ?thesis
  proof (rule doc_moving_sub [OF _ _ keys(1)])
    show "et \<noteq> ''mfg_order''" using True by simp
    fix line assume line: "line \<in> set ls" "?sent (row_items (filter P rs)) line = Inr True"
    then obtain d where d: "item_state (row_items (filter P rs)) (line_item_id line) = Inr d" "sent_out_by d i = Inr True"
      by (auto simp: rbind_eq_Inr)
    then have "d \<noteq> []" using sent_out_nothing by auto
    then obtain k where k: "line_item_id line = PStr k" "map_of (row_items (filter P rs)) k = Some d"
      using d(1) by (cases "line_item_id line") (auto simp: item_state_def table_get_def split: option.splits)
    then have mem: "(k, d) \<in> set (row_items rs)" using map_of_filtered [OF assms(3)] unfolding row_items_filter by blast
    then have "k \<noteq> []" using assms(4) by (auto simp: mem_row_items list_all_iff)
    then have "k \<in> set keys" using keys(2) [OF line(1)] line_item_key k(1) by blast
    then have "map_of (items_named rs keys) k = Some d"
      unfolding items_named_filter map_of_filtered [OF assms(3)] using mem by simp
    then show "?sent (items_named rs keys) line = Inr True" using d(2) by (simp add: item_state_def table_get_def k(1))
  qed
qed (use assms(1,2) in \<open>auto simp: still_moving_def split: if_splits\<close>)

lemma line_of_named:
  assumes "still_moving i et st items = Inr lines" "named_lines i et st = Inr named" "mv \<in> set lines"
  shows "fst mv \<in> set named"
proof (cases "et = ''doc''")
  case True
  then show ?thesis using doc_moving_lines assms by (fastforce simp: still_moving_def named_lines_def)
next
  case False
  then show ?thesis using assms
    by (auto simp: still_moving_def named_lines_def rmap_eq_Inr whole_lines_def split: if_splits)
qed

lemma mapR_result: "mapR f xs = Inr ys \<Longrightarrow> x \<in> set xs \<Longrightarrow> \<exists>y\<in>set ys. f x = Inr y"
  by (induction xs arbitrary: ys) (auto simp: rbind_eq_Inr)

lemma keys_of_line:
  assumes "mapR line_keys named = Inr kss" "line \<in> set named"
  shows "\<exists>ks. line_keys line = Inr ks \<and> set ks \<subseteq> set (concat kss)"
  using mapR_result [OF assms] by auto

lemma held_row:
  assumes "mapR (row_lines items) chosen = Inr held_rows" "(i, et, st) \<in> set chosen"
  obtains lines where "((i, et, st), lines) \<in> set held_rows" "(if et = ''item'' then Inr [] else still_moving i et st items) = Inr lines"
  using mapR_result [OF assms] by (auto simp: row_lines_def rmap_eq_Inr)

lemma unit_gone: "map_of old u \<noteq> None \<Longrightarrow> map_of new u = None \<Longrightarrow> u \<in> set (units_gone old new)"
  by (force simp: units_gone_def dest: map_of_SomeD)

lemma str_in_nil [simp]: "\<not> str_in v []"
  by (cases v) (auto simp: str_in_def)

lemma chosen_more: "chosen_row [] row \<Longrightarrow> chosen_row names row"
  by (auto simp: chosen_row_def)

lemma open_no_item: "chosen_row [] (i, et, st) \<Longrightarrow> et \<noteq> ''item''"
  by (auto simp: chosen_row_def)

text \<open>An item that was not written off: the change refuses to remove its unit, or to leave it fewer
  places than its quantities use.\<close>

lemma item_looked_at:
  assumes check: "check_units_change rs old_units new_units = Inr ()" "build_unit_map old_units = Inr old" "build_unit_map new_units = Inr new"
      "units_lowered old new = Inr lowered"
    and item: "(i, ''item'', st) \<in> set rs" "live_item (i, ''item'', st)" "dget st ''sell_by'' = PStr u"
  shows "u \<notin> set (units_gone old new)" "(u, d) \<in> set lowered \<Longrightarrow> finer_in_item u d st = Inr False"
proof -
  let ?names = "touched old new lowered"
  have looked: "(i, ''item'', st) \<in> set (filter (chosen_row ?names) rs)" if "u \<in> set ?names"
    using chosen_live item that by simp
  show "u \<notin> set (units_gone old new)"
  proof
    assume gone: "u \<in> set (units_gone old new)"
    then have touch: "?names \<noteq> []" "u \<in> set ?names" by (auto simp: touched_def)
    obtain iu held_rows where held: "mapR (row_lines (row_items (filter (chosen_row ?names) rs))) (filter (chosen_row ?names) rs) = Inr held_rows"
        "\<exists>h. holding iu held_rows u (sold_or_weighed_in u) positive = Inr h \<and> no_holder h"
      using accepted_change [OF check touch(1)] gone by metis
    obtain ls where "((i, ''item'', st), ls) \<in> set held_rows" by (rule held_row [OF held(1) looked [OF touch(2)]])
    then have "sold_or_weighed_in u st = Inr False" using holding_none(1) held(2) by blast
    then show False using item(3) by (simp add: sold_or_weighed_in_def str_is_def)
  qed
  assume low: "(u, d) \<in> set lowered"
  then have touch: "?names \<noteq> []" "u \<in> set ?names" by (force simp: touched_def)+
  obtain iu held_rows where held: "mapR (row_lines (row_items (filter (chosen_row ?names) rs))) (filter (chosen_row ?names) rs) = Inr held_rows"
      "\<exists>h. holding iu held_rows u (finer_in_item u d) (\<lambda>q. finer_than q d) = Inr h \<and> no_holder h"
    using accepted_change [OF check touch(1)] low by metis
  obtain ls where "((i, ''item'', st), ls) \<in> set held_rows" by (rule held_row [OF held(1) looked [OF touch(2)]])
  then show "finer_in_item u d st = Inr False" using holding_none(1) held(2) by blast
qed

lemma gone_unit_unused:
  assumes check: "check_units_change rs old_units new_units = Inr ()" "build_unit_map old_units = Inr old" "build_unit_map new_units = Inr new"
      "units_lowered old new = Inr lowered"
    and iu: "item_units (items_named rs keys) = Inr iu" and agree: "units_agree (row_items rs)" and live: "keys_live rs keys"
    and u: "map_of old u \<noteq> None" "map_of new u = None" and key: "\<And>k. v = PStr k \<Longrightarrow> k \<noteq> [] \<Longrightarrow> k \<in> set keys"
  shows "unit_at iu v \<noteq> Inr (PStr u)"
proof
  assume "unit_at iu v = Inr (PStr u)"
  then obtain k item where k: "v = PStr k" "k \<noteq> []" "item \<in> set (items_named rs keys)" "k \<in> set (item_keys item)" "dget (snd item) ''sell_by'' = PStr u"
    by (rule unit_at_some [OF iu])
  have "item \<in> set (row_items rs)" using items_named_sub k(3) by blast
  then obtain i st where "(i, ''item'', st) \<in> set rs" "live_item (i, ''item'', st)" "dget st ''sell_by'' = PStr u"
    using live_twin [OF _ k(4) key [OF k(1,2)] live agree] k(5) by metis
  then show False using item_looked_at(1) [OF check] unit_gone [OF u] by blast
qed

lemma lowered_unit_fits:
  assumes check: "check_units_change rs old_units new_units = Inr ()" "build_unit_map old_units = Inr old" "build_unit_map new_units = Inr new"
      "units_lowered old new = Inr lowered"
    and iu: "item_units (items_named rs (concat kss)) = Inr iu" and agree: "units_agree (row_items rs)" and live: "keys_live rs (concat kss)"
    and ids: "distinct (map fst (row_items rs))" "list_all (\<lambda>row. fst row \<noteq> []) rs"
    and row: "(i, et, st) \<in> set rs" "chosen_row [] (i, et, st)" and named: "named_lines i et st = Inr named" "mapR line_keys named = Inr kss"
    and lines: "still_moving i et st (items_named rs (concat kss)) = Inr lines" "mv \<in> set lines"
    and u: "line_unit (fst mv) iu = Inr (PStr u)" "u \<noteq> []" "(u, d) \<in> set lowered"
  shows "finer_than (snd mv) d = Inr False"
proof -
  let ?names = "touched old new lowered"
  let ?chosen = "filter (chosen_row ?names) rs"
  have touch: "?names \<noteq> []" "u \<in> set ?names" using u(3) by (force simp: touched_def)+
  obtain iu' held_rows where iu': "item_units (row_items ?chosen) = Inr iu'" and held: "mapR (row_lines (row_items ?chosen)) ?chosen = Inr held_rows"
      "\<exists>h. holding iu' held_rows u (finer_in_item u d) (\<lambda>q. finer_than q d) = Inr h \<and> no_holder h"
    using accepted_change [OF check touch(1)] u(3) by metis
  have "(i, et, st) \<in> set ?chosen" using row chosen_more by simp
  then obtain lines' where l': "((i, et, st), lines') \<in> set held_rows" "still_moving i et st (row_items ?chosen) = Inr lines'"
    by (rule held_row [OF held(1)]) (use open_no_item [OF row(2)] in simp)
  have "set lines \<subseteq> set lines'"
    by (rule moving_sub [OF lines(1) l'(2) ids, of named]) (use named(1) keys_of_line [OF named(2)] in \<open>auto simp: named_lines_def\<close>)
  then have "mv \<in> set lines'" using lines(2) by blast
  moreover obtain ks where ks: "line_keys (fst mv) = Inr ks" "set ks \<subseteq> set (concat kss)"
    using keys_of_line [OF named(2) line_of_named [OF lines(1) named(1) lines(2)]] by blast
  moreover have "line_unit (fst mv) iu' = Inr (PStr u)" by (rule unit_transfer [OF iu iu' agree live touch(2) u(2) ks u(1)])
  ultimately show ?thesis using holding_none(2) held(2) l'(1) open_no_item [OF row(2)] by blast
qed

lemma record_keeps_fitting:
  assumes check: "check_units_change rs old_units new_units = Inr ()" and new_units: "new_units = map dump_unit us"
    and valid: "validate_units us = Inr ()" and plain: "company_plain rs"
    and row: "(i, et, st) \<in> set rs" "chosen_row [] (i, et, st)"
    and fits: "require_moving_fits_units rs old_units i et st [] None = Inr ()"
  shows "require_moving_fits_units rs new_units i et st [] t = Inr ()"
proof -
  obtain named kss where named: "named_lines i et st = Inr named" "mapR line_keys named = Inr kss"
    using fits by (auto simp: require_moving_fits_units_def rbind_eq_Inr)
  obtain lines iu old where lines: "still_moving i et st (items_named rs (concat kss)) = Inr lines" and iu: "item_units (items_named rs (concat kss)) = Inr iu"
    and old: "build_unit_map old_units = Inr old" and each: "all_fit (line_fits old (items_named rs (concat kss)) iu False) lines = Inr ()"
    using fits by (auto simp: require_moving_fits_units_def Let_def rbind_eq_Inr named)
  obtain new lowered where new: "build_unit_map new_units = Inr new" and low: "units_lowered old new = Inr lowered"
    using check by (auto simp: check_units_change_def old rbind_eq_Inr)
  have agree: "units_agree (row_items rs)" and ids: "distinct (map fst (row_items rs))" "list_all (\<lambda>row. fst row \<noteq> []) rs"
    and "record_plain rs (i, et, st)" using plain row by (auto simp: company_plain_def list_all_iff)
  then have live: "keys_live rs (concat kss)" and lines_plain: "list_all (\<lambda>mv. sized (snd mv) \<and> hashable (dget (fst mv) ''sku'')) lines"
    using lines by (auto simp: record_plain_def record_keys_def named)
  have "line_fits new (items_named rs (concat kss)) iu b mv = Inr ()" if mv: "mv \<in> set lines" for b mv
  proof (rule line_fits_again)
    show "line_fits old (items_named rs (concat kss)) iu False mv = Inr ()" using each mv by (simp add: all_fit_iff)
    show "sized (snd mv)" "hashable (dget (fst mv) ''sku'')" using lines_plain mv by (auto simp: list_all_iff)
    obtain ks where ks: "line_keys (fst mv) = Inr ks" "set ks \<subseteq> set (concat kss)"
      using keys_of_line [OF named(2) line_of_named [OF lines named(1) mv]] by blast
    fix u assume "map_of old u \<noteq> None" "map_of new u = None"
    note unused = gone_unit_unused [OF check old new low iu agree live this]
    show "unit_at iu (dget (fst mv) ''item_id'') \<noteq> Inr (PStr u) \<and> unit_at iu (dget (fst mv) ''sku'') \<noteq> Inr (PStr u)"
      using unused line_names_key [OF ks(1)] ks(2) by blast
  next
    fix u nu assume u: "line_unit (fst mv) iu = Inr (PStr u)" "u \<noteq> []" "map_of new u = Some nu"
    obtain d where d: "decimals_of nu = Inr d" "rbind (dkey nu ''decimals'') py_int = Inr d" "d \<le> 6"
      using new_unit [OF valid new [unfolded new_units] u(3)] by metis
    show "\<exists>d. decimals_of nu = Inr d \<and> d \<le> 6 \<and> (finer_than (snd mv) d = Inr False \<or>
        (\<exists>ou d0. map_of old u = Some ou \<and> decimals_of ou = Inr d0 \<and> d0 \<le> d))"
      using lowered_or_kept [OF low u(3) d(1,2)] lowered_unit_fits [OF check old new low iu agree live ids row named lines mv u(1,2)] d by blast
  qed
  then have "all_fit (line_fits new (items_named rs (concat kss)) iu b) lines = Inr ()" for b by (simp add: all_fit_iff)
  then show ?thesis by (simp add: require_moving_fits_units_def Let_def named lines iu new)
qed

lemma stored_sell_qty_fin: "stored_sell_qty v = Some (Amount q) \<Longrightarrow> dec_float q = Inr (fl (dval q))"
  by (auto simp: stored_sell_qty_def split: pyval.splits option.splits dec.splits if_splits)

lemma finer_in_item_False:
  "finer_in_item name d st = Inr False \<longleftrightarrow> \<not> str_is (dget st ''sell_by'') name \<or>
     (finer_than (dget st ''quantity'') d = Inr False \<and>
       (case stored_sell_qty (dget st ''default_sell_qty'') of Some (Amount q) \<Rightarrow> exceeds_precision (fl (dval q)) d = Inr False | _ \<Rightarrow> True))"
proof -
  have amount: "(case stored_sell_qty v of Some (Amount q) \<Rightarrow> rbind (dec_float q) (\<lambda>x. exceeds_precision x d) | _ \<Rightarrow> Inr False) = Inr False
      \<longleftrightarrow> (case stored_sell_qty v of Some (Amount q) \<Rightarrow> exceeds_precision (fl (dval q)) d = Inr False | _ \<Rightarrow> True)" for v
  proof (cases "stored_sell_qty v")
    case (Some a)
    then show ?thesis using stored_sell_qty_fin by (cases a) auto
  qed simp
  show ?thesis unfolding amount [symmetric] by (auto simp: finer_in_item_def rbind_eq_Inr)
qed

lemma finer_in_item_mono:
  assumes "finer_in_item name d0 st = Inr False" "item_plain st" "d0 \<le> d" "d \<le> 6"
  shows "finer_in_item name d st = Inr False"
proof (cases "str_is (dget st ''sell_by'') name")
  case True
  have "finer_than (dget st ''quantity'') d = Inr False"
    using assms True finer_than_mono [of _ d0 d] by (simp add: finer_in_item_False item_plain_def)
  moreover have "exceeds_precision (fl (dval q)) d = Inr False" if "stored_sell_qty (dget st ''default_sell_qty'') = Some (Amount q)" for q
    using assms True that exceeds_precision_mono [of _ d0 d] by (simp add: finer_in_item_False item_plain_def)
  ultimately show ?thesis unfolding finer_in_item_False by (simp split: option.split sell_qty.split)
qed (simp add: finer_in_item_def)

lemma item_keeps_fitting:
  assumes check: "check_units_change rs old_units new_units = Inr ()" and new_units: "new_units = map dump_unit us"
    and valid: "validate_units us = Inr ()" and plain: "item_plain st"
    and row: "(i, et, st) \<in> set rs" "live_item (i, et, st)" and fits: "item_fits old_units st"
  shows "item_fits new_units st"
proof (cases "\<exists>name. dget st ''sell_by'' = PStr name \<and> name \<noteq> [] \<and> \<not> List.member SERVICE_SELL_BY name")
  case False
  then show ?thesis using fits by (auto simp: item_fits_def split: pyval.splits)
next
  case True
  then obtain name where name: "dget st ''sell_by'' = PStr name" "name \<noteq> []" "\<not> List.member SERVICE_SELL_BY name" by blast
  have et: "et = ''item''" using row(2) by (simp add: live_item_def)
  obtain old ou d0 where old: "build_unit_map old_units = Inr old" "map_of old name = Some ou" "decimals_of ou = Inr d0" "finer_in_item name d0 st = Inr False"
    using fits name by (auto simp: item_fits_def rbind_eq_Inr split: option.splits)
  obtain new lowered where new: "build_unit_map new_units = Inr new" and low: "units_lowered old new = Inr lowered"
    using check by (auto simp: check_units_change_def old rbind_eq_Inr)
  note looked = item_looked_at [OF check old(1) new low row [unfolded et] name(1)]
  obtain nu where nu: "map_of new name = Some nu" using looked(1) unit_gone [of old name new] old(2) by fastforce
  obtain d where d: "decimals_of nu = Inr d" "rbind (dkey nu ''decimals'') py_int = Inr d" "d \<le> 6"
    using new_unit [OF valid new [unfolded new_units] nu] by metis
  have "finer_in_item name d st = Inr False" using lowered_or_kept [OF low nu d(1,2)]
  proof
    assume "\<exists>ou d0. map_of old name = Some ou \<and> decimals_of ou = Inr d0 \<and> d0 \<le> d"
    then show ?thesis using finer_in_item_mono [OF old(4) plain] old(2,3) d(3) by auto
  qed (rule looked(2))
  then show ?thesis using name new nu d(1) by (simp add: item_fits_def)
qed

text \<open>C11: In a company whose SKUs have one unit each, and whose open records name no item or SKU that
  only written-off stock has (\<open>company_plain\<close>, which also asks of a quantity that it is up to \<open>10 ^ 20\<close>
  when it is a number), a change of units that is accepted leaves every quantity that counts within
  its unit.  If the items that are not written off, and everything the company's open records can
  still move, fit the units before it, they fit the new units after it: no unit they are in is
  removed, and none of their quantities is finer than its unit allows.  The new list is one
  \<open>put_units\<close> takes.  Where an open record does name written-off stock alone it need not hold:
  \<open>written_off_line_missed\<close>.\<close>

theorem units_change_keeps_fit:
  assumes "check_units_change rs old_units (map dump_unit us) = Inr ()" "validate_units us = Inr ()"
    and "company_plain rs" "company_fits rs old_units"
  shows "company_fits rs (map dump_unit us)"
proof -
  have "(\<not> live_item (i, et, st) \<or> item_fits (map dump_unit us) st)
      \<and> (\<not> chosen_row [] (i, et, st) \<or> require_moving_fits_units rs (map dump_unit us) i et st [] None = Inr ())"
    if row: "(i, et, st) \<in> set rs" for i et st
  proof -
    have plain: "live_item (i, et, st) \<Longrightarrow> item_plain st" and fits: "live_item (i, et, st) \<Longrightarrow> item_fits old_units st"
        "chosen_row [] (i, et, st) \<Longrightarrow> require_moving_fits_units rs old_units i et st [] None = Inr ()"
      using assms(3,4) row by (force simp: company_plain_def company_fits_def list_all_iff)+
    show ?thesis
      using record_keeps_fitting [OF assms(1) refl assms(2,3) row _ fits(2)] item_keeps_fitting [OF assms(1) refl assms(2) plain row _ fits(1)]
      by blast
  qed
  then show ?thesis by (auto simp: company_fits_def list_all_iff)
qed

section \<open>Example\<close>

definition demo_units :: "unit_record list" where
  "demo_units = [\<lparr>u_name = ''piece'', u_label = ''Piece'', u_decimals = 0, u_type = ''pieces''\<rparr>,
     \<lparr>u_name = ''gram'', u_label = ''Gram'', u_decimals = 1, u_type = ''weight''\<rparr>]"

definition demo_rows :: "stored list" where
  "demo_rows = [(''item:1'', ''item'', [(''sku'', PStr ''S''), (''sell_by'', PStr ''gram''), (''quantity'', PInt 3)]),
     (''doc:1'', ''doc'', [(''doc_type'', PStr ''invoice''), (''status'', PStr ''draft''),
        (''line_items'', PList [PDict [(''item_id'', PStr ''item:1''), (''quantity'', PInt 2)]])])]"

lemma demo_change: "check_units_change demo_rows DEFAULT_UNITS (map dump_unit demo_units) = Inr ()"
  by code_simp

lemma demo_units_fit: "validate_units demo_units = Inr ()" "company_plain demo_rows" "company_fits demo_rows DEFAULT_UNITS"
  by code_simp+

theorem units_change_keeps_fit_witness: "company_fits demo_rows (map dump_unit demo_units)"
  using units_change_keeps_fit [OF demo_change demo_units_fit] .

text \<open>What the hypothesis on written-off items is for: the change does not read them, so a line that has
  its unit from one is not counted, and the record is refused by the check that follows.\<close>

definition demo_rows_gone :: "stored list" where
  "demo_rows_gone = [(''item:1'', ''item'', [(''sku'', PStr ''S''), (''sell_by'', PStr ''gram''), (''quantity'', PInt 0), (''status'', PStr ''disposed'')]),
     (''doc:1'', ''doc'', [(''doc_type'', PStr ''invoice''), (''status'', PStr ''draft''),
        (''line_items'', PList [PDict [(''item_id'', PStr ''item:1''), (''quantity'', PStr ''1.25'')]])])]"

lemma written_off_line_missed:
  "check_units_change demo_rows_gone DEFAULT_UNITS (map dump_unit demo_units) = Inr ()"
  "require_moving_fits_units demo_rows_gone DEFAULT_UNITS ''doc:1'' ''doc'' (snd (snd (demo_rows_gone ! 1))) [] None = Inr ()"
  "require_moving_fits_units demo_rows_gone (map dump_unit demo_units) ''doc:1'' ''doc'' (snd (snd (demo_rows_gone ! 1))) [] None
     = Inl (HTTPError 422 ''units.moving_finer_than_unit'')"
  by code_simp+

end
