(* ===== verification/Measures.thy ===== *)
theory Measures
  imports Units
begin

text \<open>
  \<open>celerp/services/line_measures.py\<close>: the pieces and the weight of a line beside its quantity, which
  cells of a draft may be edited, and what a line is called.  The two texts made with the \<open>g\<close> format
  (\<open>measure_sublines\<close>, \<open>qty_label\<close>) are left out.
\<close>

definition item_measure_meta :: "dict \<Rightarrow> unit_map \<Rightarrow> dict res" where
  "item_measure_meta item unit_map =
     (let sell_by = dget item ''sell_by'' in
      rbind (is_weight_unit sell_by unit_map) (\<lambda>w. rbind (is_pieces_unit sell_by unit_map) (\<lambda>p.
      Inr [(''sell_by'', sell_by), (''allow_splitting'', PBool (splitting_allowed item)), (''quantity'', dget item ''quantity''),
           (''weight'', dget item ''weight''), (''weight_unit'', dget item ''weight_unit''), (''pieces'', dget item ''pieces''),
           (''qty_is_weight'', PBool w), (''qty_is_pieces'', PBool p)])))"

text \<open>Whether the quantity is the pieces, and whether it is the weight.\<close>

definition line_own_unit :: "dict \<Rightarrow> pyval" where
  "line_own_unit line = py_or (dget line ''unit'') (py_or (dget line ''sell_by'') (PStr []))"

definition classify :: "dict \<Rightarrow> unit_map \<Rightarrow> dict \<Rightarrow> (bool \<times> bool) res" where
  "classify line unit_map meta =
     (if dhas meta ''qty_is_pieces''
      then rbind (dkey meta ''qty_is_pieces'') (\<lambda>p. rbind (dkey meta ''qty_is_weight'') (\<lambda>w. Inr (truthy p, truthy w)))
      else rbind (is_pieces_unit (line_own_unit line) unit_map) (\<lambda>p. rbind (is_weight_unit (line_own_unit line) unit_map) (\<lambda>w. Inr (p, w))))"

definition takes_whole_lot :: "pyval \<Rightarrow> pyval \<Rightarrow> bool res" where
  "takes_whole_lot line_qty lot_qty =
     (if line_qty = PNone \<or> lot_qty = PNone then Inr False
      else rbind (py_float line_qty) (\<lambda>a. rbind (py_float lot_qty) (\<lambda>b. Inr (\<bar>fsub a b\<bar> \<le> fl (1 / 10 ^ 9)))))"

record measures =
  m_pieces :: pyval
  m_weight :: pyval
  m_weight_unit :: pyval
  m_qty_is_pieces :: bool
  m_qty_is_weight :: bool

definition measure_of :: "pyval \<Rightarrow> bool \<Rightarrow> pyval \<Rightarrow> bool \<Rightarrow> pyval \<Rightarrow> pyval" where
  "measure_of held is_qty line_qty whole_lot of_lot =
     (if held \<noteq> PNone then held else if is_qty then line_qty else if whole_lot then of_lot else PNone)"

definition resolve_line_measures :: "dict \<Rightarrow> unit_map \<Rightarrow> dict \<Rightarrow> measures res" where
  "resolve_line_measures line unit_map meta =
     rbind (classify line unit_map meta) (\<lambda>(is_pieces, is_weight).
     rbind (takes_whole_lot (dget line ''quantity'') (dget meta ''quantity'')) (\<lambda>whole_lot.
     let unit1 = py_or (dget line ''weight_unit'') (py_or (dget meta ''weight_unit'') (PStr []));
         unit2 = (if \<not> truthy unit1 \<and> is_weight
                  then py_or (dget line ''unit'') (py_or (dget line ''sell_by'') (py_or (dget meta ''sell_by'') (PStr []))) else unit1)
     in Inr \<lparr>m_pieces = measure_of (dget line ''pieces'') is_pieces (dget line ''quantity'') whole_lot (dget meta ''pieces''),
             m_weight = measure_of (dget line ''weight'') is_weight (dget line ''quantity'') whole_lot (dget meta ''weight''),
             m_weight_unit = unit2, m_qty_is_pieces = is_pieces, m_qty_is_weight = is_weight\<rparr>))"

definition line_label :: "dict \<Rightarrow> string" where
  "line_label line = py_str (py_or (dget line ''sku'') (py_or (dget line ''description'') (py_or (dget line ''name'') (PStr []))))"

definition LINE_IDENTIFIER_MODES :: "string list" where
  "LINE_IDENTIFIER_MODES = [''sku'', ''barcode'', ''barcode_sku'']"

definition line_identifier :: "dict \<Rightarrow> string \<Rightarrow> string \<times> string option" where
  "line_identifier line mode =
     (let sku = py_str (py_or (dget line ''sku'') (PStr [])); barcode = py_str (py_or (dget line ''barcode'') (PStr [])) in
      if mode = ''barcode'' then (if barcode \<noteq> [] then barcode else sku, None)
      else if mode = ''barcode_sku'' \<and> barcode \<noteq> [] then (barcode, if sku \<noteq> [] then Some sku else None)
      else (sku, None))"

definition identifier_backfill :: "dict \<Rightarrow> dict \<Rightarrow> dict" where
  "identifier_backfill line item =
     (if \<not> truthy (dget line ''barcode'') \<and> truthy (dget item ''barcode'')
      then dput ''barcode'' (PStr (py_str (dget item ''barcode''))) line else line)"

definition measure_locks :: "dict \<Rightarrow> bool option \<Rightarrow> bool \<times> bool \<times> bool" where
  "measure_locks meta allow_split =
     (let allow = (case allow_split of Some b \<Rightarrow> b | None \<Rightarrow> splitting_allowed meta) in
      (dget meta ''pieces'' = PNone \<or> truthy (dget meta ''qty_is_pieces'') \<or> \<not> allow,
       dget meta ''weight'' = PNone \<or> truthy (dget meta ''qty_is_weight'') \<or> \<not> allow,
       \<not> allow))"

section \<open>A part of a lot is never given the whole lot's measures\<close>

lemma part_has_no_measure_of_lot:
  assumes "resolve_line_measures line unit_map meta = Inr m" "takes_whole_lot (dget line ''quantity'') (dget meta ''quantity'') = Inr False"
    and "dget line ''pieces'' = PNone" "\<not> m_qty_is_pieces m"
  shows "m_pieces m = PNone"
  using assms by (auto simp: resolve_line_measures_def rbind_eq_Inr Let_def measure_of_def split: prod.splits)

lemma identifier_of_line:
  "line_identifier line mode = (a, Some b) \<Longrightarrow> mode = ''barcode_sku'' \<and> a \<noteq> [] \<and> b = py_str (dget line ''sku'')"
  by (auto simp: line_identifier_def Let_def py_or_def py_str_def split: if_splits)

lemma backfill_keeps_stamped: "truthy (dget line ''barcode'') \<Longrightarrow> identifier_backfill line item = line"
  by (simp add: identifier_backfill_def)

end
