(* ===== verification/ModuleSet.thy ===== *)
theory ModuleSet
  imports Moving
begin

text \<open>
  The modules a company uses: \<open>celerp/modules/registry.py\<close> (a company's own set, turning a module on with
  what it depends on, refusing to turn off one that is needed) and \<open>resolve_install_order\<close> of
  \<open>celerp/config.py\<close>, the depth-first walk that orders modules behind their dependencies.  What the
  packages on disk declare (\<open>_get_deps\<close>) is an argument: the table of the modules found, each with its
  \<open>depends_on\<close>; a module not found depends on nothing.
\<close>

section \<open>The install order\<close>

type_synonym manifests = "(string \<times> string list) list"

definition deps_of :: "manifests \<Rightarrow> string \<Rightarrow> string list" where
  "deps_of ms name = (case map_of ms name of Some ds \<Rightarrow> ds | None \<Rightarrow> [])"

text \<open>\<open>_visit\<close> over a list of names: the visited names and the order so far.\<close>

function visit_all :: "manifests \<Rightarrow> string list \<Rightarrow> string list \<times> string list \<Rightarrow> string list \<times> string list" where
  "visit_all ms [] st = st"
| "visit_all ms (name # names) (visited, ordered) =
     (if List.member visited name then visit_all ms names (visited, ordered)
      else let (visited', ordered') = visit_all ms (deps_of ms name) (name # visited, ordered)
           in visit_all ms names (visited', ordered' @ [name]))"
  by pat_completeness auto

lemma visit_all_grows:
  "visit_all_dom (ms, names, st) \<Longrightarrow> set (fst st) \<subseteq> set (fst (visit_all ms names st))"
proof (induction rule: visit_all.pinduct)
  case (2 ms name names visited ordered)
  show ?case
  proof (cases "name \<in> set visited")
    case True
    then show ?thesis using 2 by (simp add: visit_all.psimps)
  next
    case False
    obtain v' o' where call: "visit_all ms (deps_of ms name) (name # visited, ordered) = (v', o')" by (metis surj_pair)
    have "set visited \<subseteq> set v'" using 2(3) False call by auto
    moreover have "set v' \<subseteq> set (fst (visit_all ms names (v', o' @ [name])))" using 2(4) False call by auto
    ultimately show ?thesis using 2(1) False call by (auto simp: visit_all.psimps)
  qed
qed (simp add: visit_all.psimps)

text \<open>Every step leaves fewer modules of the table unvisited, or goes on with fewer names.\<close>

definition unvisited :: "manifests \<Rightarrow> string list \<Rightarrow> nat" where
  "unvisited ms visited = card (set (map fst ms) - set visited)"

lemma unvisited_mono: "set a \<subseteq> set b \<Longrightarrow> unvisited ms b \<le> unvisited ms a"
  unfolding unvisited_def by (intro card_mono) auto

lemma unvisited_less: "name \<in> fst ` set ms \<Longrightarrow> name \<notin> set visited \<Longrightarrow> unvisited ms (name # visited) < unvisited ms visited"
  unfolding unvisited_def by (intro psubset_card_mono) auto

termination visit_all
proof (relation "measures [\<lambda>(ms, names, st). unvisited ms (fst st), \<lambda>(ms, names, st). length names]")
  fix ms :: manifests and name :: string and names visited ordered :: "string list"
  assume new: "\<not> List.member visited name"
  show "((ms, deps_of ms name, name # visited, ordered), ms, name # names, visited, ordered)
    \<in> measures [\<lambda>(ms, names, st). unvisited ms (fst st), \<lambda>(ms, names, st). length names]"
  proof (cases "map_of ms name")
    case None
    moreover have "unvisited ms (name # visited) \<le> unvisited ms visited" by (rule unvisited_mono) auto
    ultimately show ?thesis by (auto simp: deps_of_def)
  next
    case (Some ds)
    then have "name \<in> fst ` set ms" by (force dest: map_of_SomeD)
    then show ?thesis using unvisited_less [of name ms visited] new by simp
  qed
  fix x and v' o' :: "string list" assume call: "x = visit_all ms (deps_of ms name) (name # visited, ordered)" "(v', o') = x"
    and dom: "visit_all_dom (ms, deps_of ms name, name # visited, ordered)"
  have "set visited \<subseteq> set v'" using visit_all_grows [OF dom] call by (metis fst_conv set_subset_Cons subset_trans)
  then show "((ms, names, v', o' @ [name]), ms, name # names, visited, ordered)
    \<in> measures [\<lambda>(ms, names, st). unvisited ms (fst st), \<lambda>(ms, names, st). length names]"
    using unvisited_mono [of visited v' ms] by auto
qed auto

definition resolve_install_order :: "manifests \<Rightarrow> string list \<Rightarrow> string list" where
  "resolve_install_order ms names = snd (visit_all ms names ([], []))"

section \<open>The set of a company\<close>

definition SETTINGS_KEY :: string where "SETTINGS_KEY = ''enabled_modules''"

definition CORE_FOLDED :: "string list" where "CORE_FOLDED = [''celerp-ai'', ''celerp-backup'', ''celerp-connectors'']"

text \<open>A set of names is a list here; a name that is no string is the name of no module.\<close>

definition name_of :: "pyval \<Rightarrow> string list res" where
  "name_of v = (case v of PStr s \<Rightarrow> Inr [s] | _ \<Rightarrow> if hashable v then Inr [] else Inl TypeError)"

definition get_enabled :: "dict \<Rightarrow> string list res" where
  "get_enabled settings =
     (case dget settings SETTINGS_KEY of PList vs \<Rightarrow> rmap concat (mapR name_of vs) | _ \<Rightarrow> Inr [])"

definition set_enabled :: "dict \<Rightarrow> string list \<Rightarrow> dict" where
  "set_enabled settings enabled = dput SETTINGS_KEY (PList (map PStr (sort (remdups enabled)))) settings"

definition uses_own_list :: "dict \<Rightarrow> bool" where
  "uses_own_list settings = dhas settings SETTINGS_KEY"

definition uses_module :: "dict \<Rightarrow> string \<Rightarrow> bool res" where
  "uses_module settings name =
     (if name = [] \<or> List.member CORE_FOLDED name \<or> \<not> uses_own_list settings then Inr True
      else rmap (\<lambda>on. List.member on name) (get_enabled settings))"

fun require_company_uses :: "dict \<Rightarrow> string list \<Rightarrow> unit res" where
  "require_company_uses settings [] = Inr ()"
| "require_company_uses settings (name # names) =
     rbind (uses_module settings name) (\<lambda>on.
     if on then require_company_uses settings names else Inl (HTTPError 403 ''modules.off_for_company''))"

definition company_modules :: "string list \<Rightarrow> dict \<Rightarrow> string list res" where
  "company_modules load_list settings = (if uses_own_list settings then get_enabled settings else Inr load_list)"

definition dependency_closure :: "manifests \<Rightarrow> string list \<Rightarrow> string list" where
  "dependency_closure ms names = resolve_install_order ms (sort (remdups names))"

definition enable_for_company :: "manifests \<Rightarrow> string list \<Rightarrow> dict \<Rightarrow> string \<Rightarrow> (dict \<times> string list) res" where
  "enable_for_company ms load_list settings name =
     rbind (company_modules load_list settings) (\<lambda>current.
     let closure = dependency_closure ms [name] @ [name];
         added = sort (remdups (filter (\<lambda>n. \<not> List.member current n \<and> n \<noteq> name) closure))
     in Inr (set_enabled settings (current @ closure), added))"

text \<open>For each module, the modules of the company that need it, in the order of their names.\<close>

definition users_of :: "(string \<times> string list) list \<Rightarrow> string \<Rightarrow> string list" where
  "users_of out name = (case map_of out name of Some us \<Rightarrow> us | None \<Rightarrow> [])"

definition add_needed :: "manifests \<Rightarrow> (string \<times> string list) list \<Rightarrow> string \<Rightarrow> (string \<times> string list) list" where
  "add_needed ms out user =
     (if List.member CORE_FOLDED user then out
      else foldl (\<lambda>out needed. if needed = user then out
                   else AList.update needed (users_of out needed @ [user]) out)
             out (dependency_closure ms [user]))"

definition dependents :: "manifests \<Rightarrow> string list \<Rightarrow> dict \<Rightarrow> (string \<times> string list) list res" where
  "dependents ms load_list settings =
     rmap (\<lambda>current. foldl (add_needed ms) [] (sort (remdups current))) (company_modules load_list settings)"

definition disable_for_company :: "manifests \<Rightarrow> string list \<Rightarrow> dict \<Rightarrow> string \<Rightarrow> dict res" where
  "disable_for_company ms load_list settings name =
     rbind (company_modules load_list settings) (\<lambda>current.
     rbind (dependents ms load_list settings) (\<lambda>needed.
     if users_of needed name \<noteq> [] then Inl (RefusedError ''module still needed'')
     else Inr (set_enabled settings (filter (\<lambda>n. n \<noteq> name) current))))"

end
