(* ===== verification/ModuleFacts.thy ===== *)
theory ModuleFacts
  imports ModuleSet
begin

text \<open>
  The install order lists exactly the modules asked for and what they depend on, each once and behind
  its dependencies when none depends on itself; and a company's set stays closed under dependencies,
  whatever is turned on and off.
\<close>

section \<open>The walk\<close>

definition depends :: "manifests \<Rightarrow> (string \<times> string) set" where
  "depends ms = {(a, b). b \<in> set (deps_of ms a)}"

lemma dependsI: "b \<in> set (deps_of ms a) \<Longrightarrow> (a, b) \<in> depends ms"
  by (simp add: depends_def)

text \<open>What a walk adds: every name asked for, only what they lead to, closed under dependencies; the
  order gains exactly the names newly visited.\<close>

definition walked :: "manifests \<Rightarrow> string list \<Rightarrow> string list \<times> string list \<Rightarrow> string list \<times> string list \<Rightarrow> bool" where
  "walked ms names st st' \<longleftrightarrow>
     set names \<subseteq> set (fst st') \<and> set (fst st) \<subseteq> set (fst st')
     \<and> set (fst st') \<subseteq> set (fst st) \<union> (depends ms)\<^sup>* `` set names
     \<and> (\<forall>x\<in>set (fst st') - set (fst st). set (deps_of ms x) \<subseteq> set (fst st'))
     \<and> set (snd st') = set (snd st) \<union> (set (fst st') - set (fst st))
     \<and> (distinct (snd st) \<and> set (snd st) \<subseteq> set (fst st) \<longrightarrow> distinct (snd st') \<and> set (snd st') \<subseteq> set (fst st'))"

lemma walked_step:
  assumes new: "name \<notin> set visited"
    and call: "walked ms (deps_of ms name) (name # visited, ordered) (v', o')" and rest: "walked ms names (v', o' @ [name]) st'"
  shows "walked ms (name # names) (visited, ordered) st'"
proof -
  have "(depends ms)\<^sup>* `` set (deps_of ms name) \<subseteq> (depends ms)\<^sup>* `` {name}"
    by (auto intro: converse_rtrancl_into_rtrancl dependsI)
  moreover have "set v' \<subseteq> insert name (set visited) \<union> (depends ms)\<^sup>* `` set (deps_of ms name)" using call by (simp add: walked_def)
  ultimately have reach: "set v' \<subseteq> set visited \<union> (depends ms)\<^sup>* `` {name}" by blast
  have deps: "set (deps_of ms name) \<subseteq> set v'" "name \<in> set v'" "set visited \<subseteq> set v'" using call by (auto simp: walked_def)
  have sub: "set v' \<subseteq> set (fst st')" using rest by (simp add: walked_def)
  have "\<forall>x\<in>set v' - set visited. set (deps_of ms x) \<subseteq> set v'" using call deps by (auto simp: walked_def)
  then have closed: "\<forall>x\<in>set (fst st') - set visited. set (deps_of ms x) \<subseteq> set (fst st')"
    using rest sub unfolding walked_def fst_conv by blast
  have ord': "set o' = set ordered \<union> (set v' - insert name (set visited))" using call by (simp add: walked_def)
  have ord: "set (snd st') = set ordered \<union> (set (fst st') - set visited)"
    using rest sub deps new ord' unfolding walked_def fst_conv snd_conv by auto
  have "distinct (snd st') \<and> set (snd st') \<subseteq> set (fst st')" if "distinct ordered" "set ordered \<subseteq> set visited"
  proof -
    have "distinct o' \<and> set o' \<subseteq> set v'" using call that unfolding walked_def fst_conv snd_conv by auto
    moreover have "name \<notin> set o'" using ord' new that by auto
    ultimately show ?thesis using rest deps unfolding walked_def fst_conv snd_conv by auto
  qed
  moreover have "set (fst st') \<subseteq> set visited \<union> (depends ms)\<^sup>* `` set (name # names)"
  proof -
    have "set (fst st') \<subseteq> set v' \<union> (depends ms)\<^sup>* `` set names" using rest by (simp add: walked_def)
    moreover have "(depends ms)\<^sup>* `` {name} \<union> (depends ms)\<^sup>* `` set names = (depends ms)\<^sup>* `` set (name # names)" by auto
    ultimately show ?thesis using reach by blast
  qed
  moreover have "set (name # names) \<subseteq> set (fst st')" using rest sub deps by (auto simp: walked_def)
  ultimately show ?thesis using closed ord deps sub unfolding walked_def fst_conv snd_conv by blast
qed

lemma visit_all_walked: "walked ms names st (visit_all ms names st)"
proof (induction ms names st rule: visit_all.induct)
  case (2 ms name names visited ordered)
  show ?case
  proof (cases "name \<in> set visited")
    case True
    then have "walked ms names (visited, ordered) (visit_all ms names (visited, ordered))" using 2 by simp
    then show ?thesis using True by (auto simp: walked_def)
  next
    case False
    obtain v' o' where call: "visit_all ms (deps_of ms name) (name # visited, ordered) = (v', o')" by (metis surj_pair)
    have "walked ms (deps_of ms name) (name # visited, ordered) (v', o')" "walked ms names (v', o' @ [name]) (visit_all ms names (v', o' @ [name]))"
      using 2(2,3) False call by auto
    then show ?thesis using walked_step [OF False] False call by simp
  qed
qed (simp add: walked_def)

lemma install_order_set: "set (resolve_install_order ms names) = (depends ms)\<^sup>* `` set names"
proof -
  obtain v o' where v: "visit_all ms names ([], []) = (v, o')" by (metis surj_pair)
  note w = visit_all_walked [of ms names "([], [])", unfolded v walked_def fst_conv snd_conv]
  have closed: "(depends ms) `` set v \<subseteq> set v" using w by (auto simp: depends_def)
  then have "(depends ms)\<^sup>* `` set v \<subseteq> set v" using Image_closed_trancl by blast
  moreover have "(depends ms)\<^sup>* `` set names \<subseteq> (depends ms)\<^sup>* `` set v" using w by blast
  ultimately show ?thesis using w by (auto simp: resolve_install_order_def v)
qed

lemma install_order_distinct: "distinct (resolve_install_order ms names)"
  using visit_all_walked [of ms names "([], [])"] by (simp add: resolve_install_order_def walked_def)

section \<open>Dependencies first\<close>

text \<open>What a module depends on stands before it, unless that depends on the module in turn.\<close>

definition behind :: "manifests \<Rightarrow> string list \<Rightarrow> bool" where
  "behind ms order \<longleftrightarrow> (\<forall>k<length order. \<forall>d\<in>set (deps_of ms (order ! k)). d \<in> set (take k order) \<or> (d, order ! k) \<in> (depends ms)\<^sup>*)"

lemma behind_snoc:
  "behind ms order \<Longrightarrow> \<forall>d\<in>set (deps_of ms name). d \<in> set order \<or> (d, name) \<in> (depends ms)\<^sup>* \<Longrightarrow> behind ms (order @ [name])"
  by (auto simp: behind_def nth_append less_Suc_eq)

text \<open>The modules under way (visited, not yet placed) all lead to the names still to visit.\<close>

definition under_way :: "manifests \<Rightarrow> string list \<Rightarrow> string list \<times> string list \<Rightarrow> bool" where
  "under_way ms names st \<longleftrightarrow> (\<forall>g\<in>set (fst st) - set (snd st). \<forall>n\<in>set names. (g, n) \<in> (depends ms)\<^sup>+)"

lemma visit_all_behind:
  "behind ms (snd st) \<Longrightarrow> under_way ms names st \<Longrightarrow> behind ms (snd (visit_all ms names st))"
proof (induction ms names st rule: visit_all.induct)
  case (2 ms name names visited ordered)
  show ?case
  proof (cases "name \<in> set visited")
    case True
    then show ?thesis using 2 by (auto simp: under_way_def)
  next
    case False
    obtain v' o' where call: "visit_all ms (deps_of ms name) (name # visited, ordered) = (v', o')" by (metis surj_pair)
    have w: "walked ms (deps_of ms name) (name # visited, ordered) (v', o')" using visit_all_walked call by metis
    have to_name: "(g, name) \<in> (depends ms)\<^sup>*" if "g \<in> set (name # visited) - set ordered" for g
      using that 2(5) by (auto simp: under_way_def dest: trancl_into_rtrancl)
    have "(g, n) \<in> (depends ms)\<^sup>+" if "g \<in> set (name # visited) - set ordered" "n \<in> set (deps_of ms name)" for g n
      using to_name [OF that(1)] dependsI [OF that(2)] by (rule rtrancl_into_trancl1)
    then have uw: "under_way ms (deps_of ms name) (name # visited, ordered)" unfolding under_way_def fst_conv snd_conv by blast
    have "behind ms (snd (visit_all ms (deps_of ms name) (name # visited, ordered)))"
      by (rule 2(2) [OF _ _ uw]) (use False 2(4) in auto)
    then have inner: "behind ms o'" by (simp add: call)
    have "n \<in> set o' \<or> (n, name) \<in> (depends ms)\<^sup>*" if n: "n \<in> set (deps_of ms name)" for n
    proof (cases "n \<in> set (name # visited) - set ordered")
      case True
      then show ?thesis using to_name by blast
    next
      case out: False
      then show ?thesis using w n unfolding walked_def fst_conv snd_conv by auto
    qed
    then have "behind ms (o' @ [name])" using behind_snoc [OF inner] by blast
    moreover have "under_way ms names (v', o' @ [name])"
      using 2(5) w False unfolding under_way_def walked_def fst_conv snd_conv by auto
    ultimately have "behind ms (snd (visit_all ms names (v', o' @ [name])))"
      using 2(3) [OF _ refl call [symmetric]] False unfolding fst_conv snd_conv by simp
    then show ?thesis using False call by simp
  qed
qed simp

text \<open>C8: The install order of modules is right, whatever the modules declare: it lists exactly the modules
  asked for and all they depend on, directly or not, each once, and each module stands behind
  everything it depends on that does not depend on it in turn.\<close>

theorem install_order_right:
  "set (resolve_install_order ms names) = (depends ms)\<^sup>* `` set names \<and> distinct (resolve_install_order ms names)
    \<and> behind ms (resolve_install_order ms names)"
  using install_order_set install_order_distinct visit_all_behind [of ms "([], [])" names]
  by (auto simp: resolve_install_order_def behind_def under_way_def)

section \<open>A company's set\<close>

text \<open>Whatever a company uses, it uses what that depends on.  A module built into Celerp is always on and
  refuses its own work while a module it needs is off, so it holds none on.\<close>

definition set_closed :: "manifests \<Rightarrow> string list \<Rightarrow> bool" where
  "set_closed ms names \<longleftrightarrow> list_all (\<lambda>n. List.member CORE_FOLDED n \<or> list_all (List.member names) (resolve_install_order ms [n])) names"

lemma set_closed_iff:
  "set_closed ms names \<longleftrightarrow> (\<forall>n\<in>set names. n \<in> set CORE_FOLDED \<or> (depends ms)\<^sup>* `` {n} \<subseteq> set names)"
  using install_order_set [of ms] by (auto simp: set_closed_def list_all_iff)

lemma closure_set: "set (dependency_closure ms names) = (depends ms)\<^sup>* `` set names"
  by (simp add: dependency_closure_def install_order_set)

lemma get_set_enabled: "get_enabled (set_enabled settings names) = Inr (sort (remdups names))"
proof -
  have "mapR name_of (map PStr xs) = Inr (map (\<lambda>x. [x]) xs)" for xs by (induction xs) (auto simp: name_of_def)
  then show ?thesis by (simp add: get_enabled_def set_enabled_def SETTINGS_KEY_def)
qed

lemma company_set_enabled: "company_modules load_list (set_enabled settings names) = Inr (sort (remdups names))"
  using get_set_enabled by (simp add: company_modules_def uses_own_list_def set_enabled_def)

lemma users_of_update [simp]: "users_of (AList.update n us out) m = (if m = n then us else users_of out m)"
  by (simp add: users_of_def)

lemma foldl_needed:
  "u \<in> set (users_of (foldl (\<lambda>out needed. if needed = user then out
       else AList.update needed (users_of out needed @ [user]) out) out ns) m)
   \<longleftrightarrow> u \<in> set (users_of out m) \<or> (u = user \<and> m \<noteq> user \<and> m \<in> set ns)"
  by (induction ns arbitrary: out) auto

lemma needed_by:
  "u \<in> set (users_of (foldl (add_needed ms) out users) m)
   \<longleftrightarrow> u \<in> set (users_of out m) \<or> (u \<in> set users \<and> u \<notin> set CORE_FOLDED \<and> m \<noteq> u \<and> (u, m) \<in> (depends ms)\<^sup>*)"
proof (induction users arbitrary: out)
  case (Cons user users)
  have "u \<in> set (users_of (add_needed ms out user) m)
     \<longleftrightarrow> u \<in> set (users_of out m) \<or> (u = user \<and> u \<notin> set CORE_FOLDED \<and> m \<noteq> u \<and> (u, m) \<in> (depends ms)\<^sup>*)"
    by (auto simp: add_needed_def foldl_needed closure_set)
  then show ?case using Cons.IH [of "add_needed ms out user"] by auto
qed simp

datatype module_change = TurnOn string | TurnOff string

definition change_modules :: "manifests \<Rightarrow> string list \<Rightarrow> dict \<Rightarrow> module_change \<Rightarrow> dict res" where
  "change_modules ms load_list settings c =
     (case c of TurnOn n \<Rightarrow> rmap fst (enable_for_company ms load_list settings n)
      | TurnOff n \<Rightarrow> disable_for_company ms load_list settings n)"

lemma change_keeps_closed:
  assumes "change_modules ms load_list settings c = Inr settings'" "company_modules load_list settings = Inr names" "set_closed ms names"
  shows "\<exists>names'. company_modules load_list settings' = Inr names' \<and> set_closed ms names'"
proof (cases c)
  case (TurnOn n)
  then have s': "settings' = set_enabled settings (names @ dependency_closure ms [n] @ [n])"
    using assms by (auto simp: change_modules_def enable_for_company_def Let_def rmap_eq_Inr)
  have "set_closed ms (sort (remdups (names @ dependency_closure ms [n] @ [n])))"
    using assms(3) unfolding set_closed_iff by (auto simp: closure_set intro: rtrancl_trans)
  then show ?thesis using s' company_set_enabled by blast
next
  case (TurnOff n)
  have free: "users_of (foldl (add_needed ms) [] (sort (remdups names))) n = []"
    and s': "settings' = set_enabled settings (filter (\<lambda>m. m \<noteq> n) names)"
    using assms TurnOff by (auto simp: change_modules_def disable_for_company_def dependents_def split: if_splits)
  have "(u, n) \<notin> (depends ms)\<^sup>*" if "u \<in> set names" "u \<noteq> n" "u \<notin> set CORE_FOLDED" for u
    using needed_by [of u ms "[]" "sort (remdups names)" n] that unfolding free by auto
  then have "set_closed ms (sort (remdups (filter (\<lambda>m. m \<noteq> n) names)))"
    using assms(3) unfolding set_closed_iff by fastforce
  then show ?thesis using s' company_set_enabled by blast
qed

text \<open>C19: A company's modules stay closed under dependencies: after any sequence of modules turned on and
  off that was not refused, every module the company uses (but one built into Celerp) has all it
  depends on, directly or not, among those the company uses.\<close>

theorem company_set_stays_closed:
  assumes "foldR (change_modules ms load_list) settings changes = Inr settings'"
    and "company_modules load_list settings = Inr names" "set_closed ms names"
  shows "\<exists>names'. company_modules load_list settings' = Inr names' \<and> set_closed ms names'"
proof (rule foldR_invariant [OF assms(1)])
  show "\<exists>names'. company_modules load_list settings = Inr names' \<and> set_closed ms names'" using assms(2,3) by blast
qed (use change_keeps_closed in blast)

section \<open>Examples\<close>

definition demo_manifests :: manifests where
  "demo_manifests = [(''docs'', [''inventory'', ''contacts'']), (''subscriptions'', [''docs'']), (''inventory'', [])]"

lemma demo_order: "resolve_install_order demo_manifests [''subscriptions''] = [''inventory'', ''contacts'', ''docs'', ''subscriptions'']"
  by code_simp

lemma demo_changes:
  "is_ok (foldR (change_modules demo_manifests [''inventory'']) [] [TurnOn ''subscriptions'', TurnOff ''subscriptions'', TurnOff ''docs''])"
  "\<not> is_ok (foldR (change_modules demo_manifests [''inventory'']) [] [TurnOn ''subscriptions'', TurnOff ''contacts''])"
  by code_simp+

theorem company_set_stays_closed_witness:
  "\<exists>settings' names. foldR (change_modules demo_manifests [''inventory'']) [] [TurnOn ''subscriptions'', TurnOff ''subscriptions'', TurnOff ''docs''] = Inr settings'
     \<and> company_modules [''inventory''] settings' = Inr names \<and> set_closed demo_manifests names"
proof -
  obtain settings' where s': "foldR (change_modules demo_manifests [''inventory'']) [] [TurnOn ''subscriptions'', TurnOff ''subscriptions'', TurnOff ''docs''] = Inr settings'"
    using demo_changes(1) by (auto simp: is_ok_def split: sum.splits)
  have "company_modules [''inventory''] [] = Inr [''inventory'']" "set_closed demo_manifests [''inventory'']" by code_simp+
  from company_set_stays_closed [OF s' this] s' show ?thesis by blast
qed

end
