(* ===== verification/Permissions.thy ===== *)
theory Permissions
  imports ModuleSet
begin

text \<open>
  \<open>celerp/services/permissions.py\<close>, the registry: the roles, the permissions with their defaults and
  floors, what a company's stored grants resolve to, and the one endpoint that changes them
  (\<open>patch_role_permissions\<close> of \<open>celerp/routers/companies.py\<close>: its checks on the role and the permission
  and the grants it stores; the permission it asks of its caller, the company that is not found and
  the lock are outside it, and stored grants that are a list of pairs are refused where \<open>dict()\<close> takes
  them); with \<open>normalize_role\<close> of
  \<open>services/auth.py\<close> and the cost visibility of items (\<open>services/cost_visibility.py\<close>).  A set of roles
  or of field names is a list here.
\<close>

section \<open>Roles and permissions\<close>

definition ROLE_LEVELS :: "(string \<times> nat) list" where
  "ROLE_LEVELS = [(''viewer'', 1), (''operator'', 2), (''manager'', 3), (''admin'', 4), (''owner'', 5)]"

definition ROLE_MIGRATION :: "(string \<times> string) list" where "ROLE_MIGRATION = [(''salesperson'', ''operator'')]"

definition normalize_role :: "string \<Rightarrow> string" where
  "normalize_role role = (case map_of ROLE_MIGRATION role of Some r \<Rightarrow> r | None \<Rightarrow> role)"

record permission =
  p_key :: string
  p_default :: string
  p_grantable :: bool
  p_floor :: string

definition PERMISSIONS :: "permission list" where
  "PERMISSIONS =
     map (\<lambda>(k, d). \<lparr>p_key = k, p_default = d, p_grantable = True, p_floor = ''viewer''\<rparr>)
       [(''view_dashboards'', ''viewer''), (''view_documents'', ''viewer''), (''view_contacts'', ''viewer''), (''view_inventory'', ''viewer''),
        (''edit_documents'', ''operator''), (''edit_contacts'', ''operator''), (''edit_inventory'', ''operator''),
        (''edit_inventory_amounts'', ''operator''), (''finalize_documents'', ''operator''), (''fulfill_documents'', ''operator''),
        (''record_payments'', ''operator''), (''manage_labels'', ''operator''), (''manage_manufacturing'', ''operator''),
        (''view_fixed_assets'', ''operator''), (''manage_fixed_assets'', ''operator''), (''check_fixed_assets'', ''operator''),
        (''use_ai_assistant'', ''operator''), (''run_backups'', ''operator''), (''view_subscriptions'', ''operator''),
        (''view_inventory_costs'', ''manager''), (''set_inventory_prices'', ''manager''), (''set_sales_doc_prices'', ''operator''),
        (''delete_documents'', ''manager''), (''adjust_inventory'', ''manager''), (''revert_items_to_draft'', ''manager''),
        (''import_export_data'', ''manager''), (''view_payments'', ''manager''), (''view_financial_reports'', ''manager''),
        (''manage_accounting'', ''manager''), (''manage_module_settings'', ''manager''), (''manage_users'', ''admin'')]
     @ [\<lparr>p_key = ''manage_company_settings'', p_default = ''admin'', p_grantable = True, p_floor = ''admin''\<rparr>,
        \<lparr>p_key = ''manage_integrations'', p_default = ''admin'', p_grantable = True, p_floor = ''viewer''\<rparr>]
     @ map (\<lambda>k. \<lparr>p_key = k, p_default = ''owner'', p_grantable = False, p_floor = ''owner''\<rparr>)
       [''manage_permissions'', ''manage_company_lifecycle'', ''manage_billing'']"

definition permission_of :: "string \<Rightarrow> permission option" where
  "permission_of key = find (\<lambda>p. p_key p = key) PERMISSIONS"

definition level_of :: "string \<Rightarrow> nat" where
  "level_of role = (case map_of ROLE_LEVELS role of Some n \<Rightarrow> n | None \<Rightarrow> 0)"

definition roles_from :: "string \<Rightarrow> string list" where
  "roles_from role = filter (\<lambda>r. level_of role \<le> level_of r) (map fst ROLE_LEVELS)"

definition is_permission_key :: "pyval \<Rightarrow> bool" where
  "is_permission_key key = (case key of PStr k \<Rightarrow> permission_of k \<noteq> None | _ \<Rightarrow> False)"

text \<open>A stored role that is unknown or below the floor is left out.\<close>

definition stored_role :: "string \<Rightarrow> pyval \<Rightarrow> string list res" where
  "stored_role lowest v =
     (case v of
        PStr r \<Rightarrow> Inr (if List.member (map fst ROLE_LEVELS) r \<and> level_of lowest \<le> level_of r then [r] else [])
      | _ \<Rightarrow> if hashable v then Inr [] else Inl TypeError)"

definition resolved_grant_roles :: "dict \<Rightarrow> string \<Rightarrow> string list res" where
  "resolved_grant_roles settings key =
     (case permission_of key of None \<Rightarrow> Inl KeyError
      | Some p \<Rightarrow>
          if \<not> p_grantable p then Inr (roles_from (p_default p))
          else let grants = py_or (dget settings ''role_grants'') (PDict []) in
               rbind (str_within key grants) (\<lambda>stored.
               if \<not> stored then Inr (roles_from (p_default p))
               else rbind (as_dict grants) (\<lambda>g.
                    rbind (py_iter (py_or (dget g key) (PList []))) (\<lambda>vs.
                    rmap concat (mapR (stored_role (p_floor p)) vs)))))"

definition role_has_permission :: "dict \<Rightarrow> string \<Rightarrow> string \<Rightarrow> bool res" where
  "role_has_permission settings role key = rmap (\<lambda>rs. List.member rs role) (resolved_grant_roles settings key)"

definition assert_role_permission :: "dict \<Rightarrow> string \<Rightarrow> string \<Rightarrow> unit res" where
  "assert_role_permission settings role key =
     rbind (role_has_permission settings role key) (\<lambda>granted.
     if granted then Inr () else Inl (HTTPError 403 ''error.permission_missing''))"

definition reject_price_change :: "string list \<Rightarrow> string \<Rightarrow> dict \<Rightarrow> unit res" where
  "reject_price_change price_keys role settings =
     (if price_keys = [] then Inr () else assert_role_permission settings role ''set_inventory_prices'')"

section \<open>Changing a grant\<close>

definition stored_grants :: "dict \<Rightarrow> dict res" where
  "stored_grants settings =
     (case py_or (dget settings ''role_grants'') (PDict []) of
        PDict g \<Rightarrow> Inr g | PList _ \<Rightarrow> Inl ValueError | PStr _ \<Rightarrow> Inl ValueError | _ \<Rightarrow> Inl TypeError)"

definition patch_role_permissions :: "dict \<Rightarrow> string \<Rightarrow> string \<Rightarrow> bool \<Rightarrow> dict res" where
  "patch_role_permissions settings perm_key role_key granted =
     (case permission_of perm_key of None \<Rightarrow> Inl (HTTPError 422 ''unknown permission'')
      | Some p \<Rightarrow>
          if \<not> List.member (map fst ROLE_LEVELS) role_key then Inl (HTTPError 422 ''unknown role'')
          else if \<not> p_grantable p then Inl (HTTPError 403 ''company.err_permission_fixed'')
          else rbind (stored_grants settings) (\<lambda>grants.
               rbind (resolved_grant_roles settings perm_key) (\<lambda>roles.
               if granted \<and> level_of role_key < level_of (p_floor p) then Inl (HTTPError 422 ''company.err_permission_floor'')
               else let roles' = (if granted then role_key # roles else filter (\<lambda>r. r \<noteq> role_key) roles);
                        kept = sort_key level_of (remdups roles')
                    in Inr (dput ''role_grants'' (PDict (dput perm_key (PList (map PStr kept)) grants)) settings))))"

section \<open>Fields a role sees\<close>

definition COST_ITEM_KEYS :: "string list" where "COST_ITEM_KEYS = [''cost_price'', ''cost_total'']"

definition COST_DERIVED_ITEM_KEYS :: "string list" where
  "COST_DERIVED_ITEM_KEYS = [''cost_base'', ''cost_landed'', ''landed_costs'', ''goods_cost_unknown'']"

text \<open>A field of the schema is restricted when the lowest role it is shown to stands above the caller's;
  a name that is no role counts as no level.\<close>

definition level_of_value :: "pyval \<Rightarrow> nat res" where
  "level_of_value v = (case v of PStr r \<Rightarrow> Inr (level_of r) | _ \<Rightarrow> if hashable v then Inr 0 else Inl TypeError)"

definition restricted_field :: "string \<Rightarrow> dict \<Rightarrow> pyval list res" where
  "restricted_field role f =
     (let shown = dget f ''visible_to_roles'' in
      if \<not> truthy shown then Inr []
      else rbind (py_iter shown) (\<lambda>vs. rbind (mapR level_of_value vs) (\<lambda>levels.
           if level_of role < Min (set levels) then rmap (\<lambda>k. [k]) (dkey f ''key'') else Inr [])))"

definition restricted_field_keys :: "string \<Rightarrow> dict list \<Rightarrow> string list res" where
  "restricted_field_keys role field_schema =
     rbind (rmap concat (mapR (restricted_field role) field_schema)) (\<lambda>keys. rmap concat (mapR name_of keys))"

definition drop_of :: "string list \<Rightarrow> bool \<Rightarrow> bool \<Rightarrow> (string \<times> string list) list \<Rightarrow> dict \<Rightarrow> string list" where
  "drop_of restricted cost_hidden can_author_drafts derived item =
     (let own_draft = (can_author_drafts \<and> py_lower (py_str (py_or (dget item ''status'') (PStr []))) = ''draft'');
          drop0 = restricted @ (if cost_hidden \<and> \<not> own_draft then COST_ITEM_KEYS @ COST_DERIVED_ITEM_KEYS else [])
      in foldl (\<lambda>gone (d, sources). if list_ex (List.member gone) sources then gone @ [d] else gone) drop0 derived)"

definition apply_field_visibility ::
    "dict list \<Rightarrow> string \<Rightarrow> dict list \<Rightarrow> bool \<Rightarrow> bool \<Rightarrow> (string \<times> string list) list \<Rightarrow> dict list res" where
  "apply_field_visibility items role field_schema can_see_costs can_author_drafts derived =
     rmap (\<lambda>keys.
       let restricted = filter (\<lambda>k. \<not> List.member COST_ITEM_KEYS k) keys in
       if restricted = [] \<and> can_see_costs then items
       else map (\<lambda>item. filter (\<lambda>(k, _). \<not> List.member (drop_of restricted (\<not> can_see_costs) can_author_drafts derived item) k) item) items)
       (restricted_field_keys role field_schema)"

end
