(* ===== verification/Authority.thy ===== *)
theory Authority
  imports Permissions
begin

text \<open>
  What a request is authorized as, and how the company's lock judges it again: \<open>RequestAuthority\<close> and
  \<open>role_has_permission\<close>'s record of \<open>services/permissions.py\<close>, and the lock, its proofs and their
  savepoints of \<open>services/company_lock.py\<close>, for one request and its company.

  The state is what the database has committed (the company's settings, the caller's role, empty when
  the membership is gone), the request's authority, and what the session's transaction holds: the
  proofs noted, each with the savepoint it was taken in, and a refusal kept until the transaction ends.
  Other writers change what is committed only under the company's lock, so not while this session
  holds it.  Settings are handed to the request and permissions admitted by FastAPI dependencies,
  which run before the handler takes a lock; what they read then may be out of date.
  \<open>judge_without_company_lock\<close>, which one operation calls that takes no company lock after it, is left out.
\<close>

record access =
  committed :: dict
  member_role :: string
  au_role :: string
  au_module :: "string option"
  au_keys :: "string list"
  au_views :: "dict list"
  proofs :: "(string \<times> nat) list"
  depth :: nat
  refused :: bool

section \<open>The lock\<close>

definition note_proof :: "string \<Rightarrow> access \<Rightarrow> access" where
  "note_proof what s = s\<lparr>proofs := proofs s @ [(what, depth s)]\<rparr>"

definition noted :: "access \<Rightarrow> string \<Rightarrow> bool" where
  "noted s what = list_ex (\<lambda>p. fst p = what) (proofs s)"

fun assert_all :: "dict \<Rightarrow> string \<Rightarrow> string list \<Rightarrow> unit res" where
  "assert_all settings role [] = Inr ()"
| "assert_all settings role (k # ks) = rbind (assert_role_permission settings role k) (\<lambda>_. assert_all settings role ks)"

definition judge_again :: "access \<Rightarrow> access res" where
  "judge_again s =
     (if member_role s \<noteq> au_role s then Inl (HTTPError 403 ''error.access_changed'')
      else rbind (assert_all (committed s) (member_role s) (sort (remdups (au_keys s)))) (\<lambda>_.
           rbind (case au_module s of Some (c # cs) \<Rightarrow> require_company_uses (committed s) [c # cs] | _ \<Rightarrow> Inr ()) (\<lambda>_.
           Inr (s\<lparr>au_views := map (\<lambda>_. committed s) (au_views s)\<rparr>))))"

definition judge_authority_again :: "access \<Rightarrow> access" where
  "judge_authority_again s =
     (if noted s ''judged'' then s
      else let s1 = note_proof ''judged'' s in case judge_again s1 of Inr s2 \<Rightarrow> s2 | Inl _ \<Rightarrow> s1\<lparr>refused := True\<rparr>)"

definition lock_company :: "access \<Rightarrow> access" where
  "lock_company s = judge_authority_again (if noted s ''locked'' then s else note_proof ''locked'' s)"

definition holds_company_lock :: "access \<Rightarrow> bool" where "holds_company_lock s = noted s ''locked''"

section \<open>Gates\<close>

definition rely_on :: "string \<Rightarrow> string \<Rightarrow> access \<Rightarrow> access" where
  "rely_on role key s = (if role = au_role s then s\<lparr>au_keys := key # au_keys s\<rparr> else s)"

text \<open>A gate on settings the request was handed, and one that reads the company's settings itself.\<close>

definition gate_on_view :: "nat \<Rightarrow> string \<Rightarrow> string \<Rightarrow> access \<Rightarrow> (bool \<times> access) res" where
  "gate_on_view i role key s =
     rmap (\<lambda>granted. (granted, if granted then rely_on role key s else s)) (role_has_permission (au_views s ! i) role key)"

definition admit_permission :: "dict \<Rightarrow> string \<Rightarrow> string \<Rightarrow> access \<Rightarrow> access res" where
  "admit_permission settings role key s = rmap (\<lambda>_. rely_on role key s) (assert_role_permission settings role key)"

section \<open>Savepoints and the end of a transaction\<close>

definition release_savepoint :: "access \<Rightarrow> access" where
  "release_savepoint s = s\<lparr>proofs := map (\<lambda>(k, d). (k, if d = depth s then d - 1 else d)) (proofs s), depth := depth s - 1\<rparr>"

definition rollback_savepoint :: "access \<Rightarrow> access" where
  "rollback_savepoint s = s\<lparr>proofs := filter (\<lambda>(_, d). d \<noteq> depth s) (proofs s), depth := depth s - 1\<rparr>"

definition end_transaction :: "access \<Rightarrow> access" where
  "end_transaction s = s\<lparr>proofs := [], refused := False, depth := 0\<rparr>"

definition may_commit :: "access \<Rightarrow> bool" where "may_commit s = (\<not> refused s)"

section \<open>Runs\<close>

datatype act =
    Others dict string
  | HandSettings dict
  | Gate nat string string
  | Admit dict string string
  | TakeLock
  | Savepoint
  | Release
  | RollBack
  | EndTransaction

definition perform :: "act \<Rightarrow> access \<Rightarrow> access option" where
  "perform a s =
     (case a of
        Others settings role \<Rightarrow> if holds_company_lock s then None else Some (s\<lparr>committed := settings, member_role := role\<rparr>)
      | HandSettings settings \<Rightarrow> if holds_company_lock s then None else Some (s\<lparr>au_views := au_views s @ [settings]\<rparr>)
      | Gate i role key \<Rightarrow> if i < length (au_views s)
                         then (case gate_on_view i role key s of Inr (_, s') \<Rightarrow> Some s' | Inl _ \<Rightarrow> None) else None
      | Admit settings role key \<Rightarrow> if holds_company_lock s then None
                         else (case admit_permission settings role key s of Inr s' \<Rightarrow> Some s' | Inl _ \<Rightarrow> None)
      | TakeLock \<Rightarrow> Some (lock_company s)
      | Savepoint \<Rightarrow> Some (s\<lparr>depth := Suc (depth s)\<rparr>)
      | Release \<Rightarrow> if 0 < depth s then Some (release_savepoint s) else None
      | RollBack \<Rightarrow> if 0 < depth s then Some (rollback_savepoint s) else None
      | EndTransaction \<Rightarrow> Some (end_transaction s))"

text \<open>The permissions of its own role the request has relied on, the newest first.\<close>

definition granted_by :: "act \<Rightarrow> access \<Rightarrow> string list" where
  "granted_by a s =
     (case a of
        Gate i role key \<Rightarrow> if role = au_role s \<and> role_has_permission (au_views s ! i) role key = Inr True then [key] else []
      | Admit settings role key \<Rightarrow> if role = au_role s then [key] else []
      | _ \<Rightarrow> [])"

fun run :: "act list \<Rightarrow> access \<times> string list \<Rightarrow> (access \<times> string list) option" where
  "run [] st = Some st"
| "run (a # acts) (s, relied) = (case perform a s of None \<Rightarrow> None | Some s' \<Rightarrow> run acts (s', granted_by a s @ relied))"

definition fresh_request :: "access \<Rightarrow> bool" where
  "fresh_request s = (au_keys s = [] \<and> au_views s = [] \<and> proofs s = [] \<and> depth s = 0 \<and> \<not> refused s)"

end
