(* ===== verification/AccessFacts.thy ===== *)
theory AccessFacts
  imports Authority
begin

text \<open>
  What the permissions of a company guarantee: no stored grant widens a fixed permission or reaches
  below a floor, a change of the matrix touches one cell, and a request that holds the company's lock
  and is not refused acts on what the company grants now.
\<close>

section \<open>The registry\<close>

lemma permission_of_Some: "permission_of key = Some p \<Longrightarrow> p \<in> set PERMISSIONS \<and> p_key p = key"
  unfolding permission_of_def by (auto simp: find_Some_iff)

lemma roles_from_iff: "r \<in> set (roles_from role) \<longleftrightarrow> r \<in> fst ` set ROLE_LEVELS \<and> level_of role \<le> level_of r"
  by (auto simp: roles_from_def)

lemma stored_roles:
  "mapR (stored_role lowest) vs = Inr rss \<Longrightarrow> r \<in> set (concat rss) \<Longrightarrow> r \<in> fst ` set ROLE_LEVELS \<and> level_of lowest \<le> level_of r"
proof (induction vs arbitrary: rss)
  case (Cons v vs)
  then obtain rs rss' where rs: "stored_role lowest v = Inr rs" "mapR (stored_role lowest) vs = Inr rss'" "rss = rs # rss'"
    by (auto simp: rbind_eq_Inr)
  have "r \<in> set rs \<Longrightarrow> r \<in> fst ` set ROLE_LEVELS \<and> level_of lowest \<le> level_of r"
    using rs(1) by (cases v) (force simp: stored_role_def split: if_splits)+
  then show ?case using Cons rs by auto
qed simp

lemma default_above_floor: "p \<in> set PERMISSIONS \<Longrightarrow> level_of (p_floor p) \<le> level_of (p_default p)"
proof -
  have "list_all (\<lambda>p. level_of (p_floor p) \<le> level_of (p_default p)) PERMISSIONS" by code_simp
  then show "p \<in> set PERMISSIONS \<Longrightarrow> level_of (p_floor p) \<le> level_of (p_default p)" by (simp add: list_all_iff)
qed

lemma resolved_roles:
  assumes "resolved_grant_roles settings key = Inr roles" "permission_of key = Some p"
  shows "r \<in> set roles \<Longrightarrow> r \<in> fst ` set ROLE_LEVELS \<and> level_of (p_floor p) \<le> level_of r"
    "\<not> p_grantable p \<Longrightarrow> roles = roles_from (p_default p)"
proof -
  have default: "r \<in> set (roles_from (p_default p)) \<Longrightarrow> r \<in> fst ` set ROLE_LEVELS \<and> level_of (p_floor p) \<le> level_of r"
    using default_above_floor permission_of_Some [OF assms(2)] order_trans unfolding roles_from_iff by blast
  show "\<not> p_grantable p \<Longrightarrow> roles = roles_from (p_default p)" using assms by (simp add: resolved_grant_roles_def)
  show "r \<in> set roles \<Longrightarrow> r \<in> fst ` set ROLE_LEVELS \<and> level_of (p_floor p) \<le> level_of r"
  proof (cases "p_grantable p \<and> roles \<noteq> roles_from (p_default p)")
    case True
    then obtain vs rss where "mapR (stored_role (p_floor p)) vs = Inr rss" "roles = concat rss"
      using assms by (auto simp: resolved_grant_roles_def Let_def rbind_eq_Inr rmap_eq_Inr split: if_splits)
    then show "r \<in> set roles \<Longrightarrow> ?thesis" using stored_roles by blast
  next
    case False
    then have "roles = roles_from (p_default p)" using assms by (auto simp: resolved_grant_roles_def)
    then show "r \<in> set roles \<Longrightarrow> ?thesis" using default by blast
  qed
qed

text \<open>Whatever a company's settings hold, a permission goes only to known roles at or above its floor, and a
  fixed permission to exactly the roles from its default up, so that no stored grant widens it or takes
  it from the owner.\<close>

theorem grants_within_bounds:
  assumes "resolved_grant_roles settings key = Inr roles" "permission_of key = Some p"
  shows "list_all (\<lambda>r. List.member (map fst ROLE_LEVELS) r \<and> level_of (p_floor p) \<le> level_of r) roles
    \<and> (p_grantable p \<or> roles = roles_from (p_default p))"
  using resolved_roles [OF assms] by (auto simp: list_all_iff)

section \<open>One cell of the matrix\<close>

lemma str_within_dict: "str_within k (PDict g) = Inr (k \<in> fst ` set g)"
  by (cases "g = []") (auto simp: str_within_def list_ex_iff py_or_def)

lemma resolved_from_dict:
  assumes "py_or (dget settings ''role_grants'') (PDict []) = PDict g" "permission_of key = Some p" "p_grantable p"
  shows "resolved_grant_roles settings key =
     (if key \<in> fst ` set g then rbind (py_iter (py_or (dget g key) (PList []))) (\<lambda>vs. rmap concat (mapR (stored_role (p_floor p)) vs))
      else Inr (roles_from (p_default p)))"
  by (simp add: resolved_grant_roles_def assms Let_def str_within_dict as_dict_def)

lemma kept_roles:
  "\<forall>r\<in>set kept. r \<in> fst ` set ROLE_LEVELS \<and> level_of lowest \<le> level_of r
    \<Longrightarrow> mapR (stored_role lowest) (map PStr kept) = Inr (map (\<lambda>r. [r]) kept)"
  by (induction kept) (auto simp: stored_role_def)

lemma update_keys_set: "fst ` set (AList.update k v d) = insert k (fst ` set d)"
  by (induction d) auto

lemma update_not_Nil: "AList.update k v d \<noteq> []"
  by (cases d) auto

text \<open>C20: A change of the matrix is one cell of it: after a role is granted a permission or loses it, it holds
  it or not accordingly, and every other role, and every other permission, is as before.\<close>

theorem patch_changes_one_cell:
  assumes "patch_role_permissions settings perm_key role_key granted = Inr settings'"
    and "role_has_permission settings role key = Inr held"
  shows "role_has_permission settings' role key = Inr (if key = perm_key \<and> role = role_key then granted else held)"
proof -
  obtain p where p: "permission_of perm_key = Some p" using assms(1) by (auto simp: patch_role_permissions_def split: option.splits)
  then obtain g roles where known: "role_key \<in> fst ` set ROLE_LEVELS" "p_grantable p"
    and g: "stored_grants settings = Inr g" and roles: "resolved_grant_roles settings perm_key = Inr roles"
    and ok: "\<not> (granted \<and> level_of role_key < level_of (p_floor p))"
    using assms(1) by (auto simp: patch_role_permissions_def rbind_eq_Inr split: if_splits)
  define kept where "kept = sort_key level_of (remdups (if granted then role_key # roles else filter (\<lambda>r. r \<noteq> role_key) roles))"
  have s': "settings' = dput ''role_grants'' (PDict (dput perm_key (PList (map PStr kept)) g)) settings"
    using assms(1) p known g roles ok by (simp add: patch_role_permissions_def kept_def Let_def)
  have held_in: "py_or (dget settings ''role_grants'') (PDict []) = PDict g"
    using g by (auto simp: stored_grants_def split: pyval.splits)
  have new_in: "py_or (dget settings' ''role_grants'') (PDict []) = PDict (dput perm_key (PList (map PStr kept)) g)"
    by (simp add: s' py_or_def update_not_Nil)
  obtain q where q: "permission_of key = Some q" using assms(2) by (auto simp: role_has_permission_def resolved_grant_roles_def split: option.splits)
  show ?thesis
  proof (cases "key = perm_key")
    case False
    have "resolved_grant_roles settings' key = resolved_grant_roles settings key"
    proof (cases "p_grantable q")
      case True
      show ?thesis unfolding resolved_from_dict [OF held_in q True] resolved_from_dict [OF new_in q True]
        using False by (simp add: update_keys_set)
    qed (simp add: resolved_grant_roles_def q)
    then show ?thesis using assms(2) False by (simp add: role_has_permission_def)
  next
    case True
    have "\<forall>r\<in>set kept. r \<in> fst ` set ROLE_LEVELS \<and> level_of (p_floor p) \<le> level_of r"
      using resolved_roles(1) [OF roles p] known ok by (auto simp: kept_def)
    from kept_roles [OF this] have "resolved_grant_roles settings' key = Inr kept"
      unfolding True resolved_from_dict [OF new_in p known(2)] by (cases kept) (simp_all add: update_keys_set py_or_def)
    moreover have "held \<longleftrightarrow> role \<in> set roles" using assms(2) roles True by (auto simp: role_has_permission_def)
    ultimately show ?thesis using True by (auto simp: role_has_permission_def kept_def)
  qed
qed

section \<open>A request under the company's lock\<close>

definition granted_now :: "access \<Rightarrow> bool" where
  "granted_now s \<longleftrightarrow> member_role s = au_role s \<and> (\<forall>v\<in>set (au_views s). v = committed s)
     \<and> (\<forall>k\<in>set (au_keys s). role_has_permission (committed s) (au_role s) k = Inr True)"

text \<open>The lock and the judgement are proved together and released together; what the request relied on is
  on its authority; and under the lock, unless it was refused, all of that is granted now.\<close>

definition lock_invariant :: "access \<Rightarrow> string list \<Rightarrow> bool" where
  "lock_invariant s relied \<longleftrightarrow> (\<forall>l. (''locked'', l) \<in> set (proofs s) \<longleftrightarrow> (''judged'', l) \<in> set (proofs s))
     \<and> set relied \<subseteq> set (au_keys s) \<and> (noted s ''locked'' \<and> \<not> refused s \<longrightarrow> granted_now s)"

lemma noted_iff: "noted s what \<longleftrightarrow> (\<exists>l. (what, l) \<in> set (proofs s))"
  by (force simp: noted_def list_ex_iff)

lemma assert_all_granted: "assert_all settings role ks = Inr () \<Longrightarrow> k \<in> set ks \<Longrightarrow> role_has_permission settings role k = Inr True"
  by (induction ks) (auto simp: rbind_eq_Inr assert_role_permission_def split: if_splits)

lemma judge_again_granted:
  assumes "judge_again s = Inr s'"
  shows "granted_now s' \<and> (\<exists>vs. s' = s\<lparr>au_views := vs\<rparr>)"
proof -
  have "member_role s = au_role s" "assert_all (committed s) (member_role s) (sort (remdups (au_keys s))) = Inr ()"
    and s': "s' = s\<lparr>au_views := map (\<lambda>_. committed s) (au_views s)\<rparr>"
    using assms by (auto simp: judge_again_def rbind_eq_Inr split: if_splits)
  then show ?thesis using assert_all_granted by (auto simp: granted_now_def)
qed

lemma lock_company_invariant: "lock_invariant s relied \<Longrightarrow> lock_invariant (lock_company s) relied"
proof -
  assume inv: "lock_invariant s relied"
  show ?thesis
  proof (cases "noted s ''locked''")
    case True
    then have "noted s ''judged''" using inv by (auto simp: lock_invariant_def noted_iff)
    then show ?thesis using True inv by (simp add: lock_company_def judge_authority_again_def)
  next
    case False
    define s1 where "s1 = note_proof ''judged'' (note_proof ''locked'' s)"
    have "\<not> noted (note_proof ''locked'' s) ''judged''" using False inv by (auto simp: lock_invariant_def noted_iff note_proof_def)
    then have lc: "lock_company s = (case judge_again s1 of Inr s2 \<Rightarrow> s2 | Inl _ \<Rightarrow> s1\<lparr>refused := True\<rparr>)"
      unfolding lock_company_def judge_authority_again_def Let_def s1_def using False by (simp only: if_False)
    show ?thesis
    proof (cases "judge_again s1")
      case (Inl e)
      then show ?thesis using inv by (auto simp: lc lock_invariant_def s1_def note_proof_def)
    next
      case (Inr s2)
      then show ?thesis using judge_again_granted [OF Inr] inv by (auto simp: lc lock_invariant_def s1_def note_proof_def)
    qed
  qed
qed

lemma gate_invariant:
  assumes "lock_invariant s relied" "gate_on_view i role key s = Inr (b, s')" "i < length (au_views s)"
  shows "lock_invariant s' (granted_by (Gate i role key) s @ relied)"
proof -
  from assms(2) have g: "role_has_permission (au_views s ! i) role key = Inr b" "s' = (if b then rely_on role key s else s)"
    by (auto simp: gate_on_view_def rmap_eq_Inr)
  show ?thesis
  proof (cases "b \<and> role = au_role s")
    case True
    then have s': "s' = s\<lparr>au_keys := key # au_keys s\<rparr>" using g(2) by (simp add: rely_on_def)
    have "role_has_permission (committed s) (au_role s) key = Inr True" if "granted_now s"
    proof -
      have "au_views s ! i = committed s" using that assms(3) by (simp add: granted_now_def)
      then show ?thesis using g(1) True by simp
    qed
    then show ?thesis using assms(1) True g(1) by (auto simp: s' lock_invariant_def granted_now_def granted_by_def noted_def)
  next
    case False
    then have "s' = s" using g(2) by (auto simp: rely_on_def)
    then show ?thesis using assms(1) False g(1) by (auto simp: granted_by_def lock_invariant_def)
  qed
qed

lemma perform_invariant:
  assumes "perform a s = Some s'" "lock_invariant s relied"
  shows "lock_invariant s' (granted_by a s @ relied)"
proof (cases a)
  case (Gate i role key)
  then obtain b where "gate_on_view i role key s = Inr (b, s')" "i < length (au_views s)"
    using assms(1) by (auto simp: perform_def split: if_splits sum.splits)
  then show ?thesis using gate_invariant assms(2) Gate by simp
next
  case TakeLock
  then show ?thesis using assms lock_company_invariant by (auto simp: perform_def granted_by_def)
next
  case (Admit settings role key)
  then have "s' = rely_on role key s" "\<not> noted s ''locked''"
    using assms(1) by (auto simp: perform_def admit_permission_def holds_company_lock_def rmap_eq_Inr split: if_splits sum.splits)
  then show ?thesis using assms(2) Admit by (auto simp: lock_invariant_def rely_on_def granted_by_def noted_def)
next
  case Release
  then have s': "s' = release_savepoint s" using assms(1) by (auto simp: perform_def split: if_splits)
  have "(k, l) \<in> set (proofs s') \<longleftrightarrow> (\<exists>d. (k, d) \<in> set (proofs s) \<and> l = (if d = depth s then d - 1 else d))" for k l
    by (force simp: s' release_savepoint_def)
  then show ?thesis using assms(2) Release
    by (auto simp: lock_invariant_def granted_now_def granted_by_def noted_iff s' release_savepoint_def)
next
  case RollBack
  then have s': "s' = rollback_savepoint s" using assms(1) by (auto simp: perform_def split: if_splits)
  then show ?thesis using assms(2) RollBack
    by (auto simp: lock_invariant_def granted_now_def granted_by_def noted_iff rollback_savepoint_def)
qed (use assms in \<open>auto simp: perform_def lock_invariant_def granted_now_def granted_by_def noted_iff holds_company_lock_def end_transaction_def split: if_splits\<close>)

text \<open>C7: A write under the company's lock rests on what the company grants now.  However the requests of
  others, the savepoints and the transactions of a request interleave, while it holds the lock and may
  commit, its caller has the role it was authorized with, every permission of that role any gate let it
  pass on is granted under the settings as committed, and so are read the settings it was handed.\<close>

theorem locked_request_is_granted_now:
  assumes "run acts (s0, []) = Some (s, relied)" "fresh_request s0" "holds_company_lock s" "may_commit s"
  shows "member_role s = au_role s \<and> list_all (\<lambda>k. role_has_permission (committed s) (au_role s) k = Inr True) relied
    \<and> list_all (\<lambda>v. v = committed s) (au_views s)"
proof -
  have "run acts (s1, r1) = Some (s, relied) \<Longrightarrow> lock_invariant s1 r1 \<Longrightarrow> lock_invariant s relied" for s1 r1
  proof (induction acts arbitrary: s1 r1)
    case (Cons a acts)
    then obtain s2 where s2: "perform a s1 = Some s2" "run acts (s2, granted_by a s1 @ r1) = Some (s, relied)"
      by (auto split: option.splits)
    show ?case using Cons.IH [OF s2(2) perform_invariant [OF s2(1) Cons.prems(2)]] .
  qed simp
  moreover have "lock_invariant s0 []" using assms(2) by (simp add: fresh_request_def lock_invariant_def noted_iff)
  ultimately have "lock_invariant s relied" using assms(1) by blast
  then show ?thesis using assms(3,4) unfolding lock_invariant_def granted_now_def holds_company_lock_def may_commit_def list_all_iff by blast
qed

section \<open>Examples\<close>

lemma grants_within_bounds_witness:
  "\<exists>roles. resolved_grant_roles [(''role_grants'', PDict [(''manage_permissions'', PList [PStr ''viewer''])])] ''manage_permissions'' = Inr roles
     \<and> roles = [''owner'']"
proof -
  obtain p where p: "permission_of ''manage_permissions'' = Some p" "p_grantable p = False" "roles_from (p_default p) = [''owner'']"
  proof -
    have "permission_of ''manage_permissions'' = Some \<lparr>p_key = ''manage_permissions'', p_default = ''owner'', p_grantable = False, p_floor = ''owner''\<rparr>"
      by code_simp
    moreover have "roles_from ''owner'' = [''owner'']" by code_simp
    ultimately show thesis using that by simp
  qed
  have "resolved_grant_roles [(''role_grants'', PDict [(''manage_permissions'', PList [PStr ''viewer''])])] ''manage_permissions'' = Inr [''owner'']"
    by code_simp
  from grants_within_bounds [OF this p(1)] this show ?thesis by blast
qed

lemma patch_changes_one_cell_witness:
  "\<exists>settings'. patch_role_permissions [] ''edit_documents'' ''viewer'' True = Inr settings'
     \<and> role_has_permission settings' ''viewer'' ''edit_documents'' = Inr True"
proof -
  have "is_ok (patch_role_permissions [] ''edit_documents'' ''viewer'' True)" by code_simp
  then obtain settings' where s': "patch_role_permissions [] ''edit_documents'' ''viewer'' True = Inr settings'"
    by (auto simp: is_ok_def split: sum.splits)
  have "role_has_permission [] ''viewer'' ''edit_documents'' = Inr False" by code_simp
  from patch_changes_one_cell [OF s' this] s' show ?thesis by simp
qed

definition demo_request :: access where
  "demo_request = \<lparr>committed = [], member_role = ''manager'', au_role = ''manager'', au_module = None, au_keys = [], au_views = [],
     proofs = [], depth = 0, refused = False\<rparr>"

definition demo_acts :: "act list" where
  "demo_acts = [HandSettings [], Gate 0 ''manager'' ''adjust_inventory'', Savepoint, TakeLock, RollBack,
     Others [(''role_grants'', PDict [(''view_payments'', PList [PStr ''owner''])])] ''manager'', Savepoint, TakeLock, Release]"

lemma locked_request_is_granted_now_witness:
  "\<exists>s relied. run demo_acts (demo_request, []) = Some (s, relied) \<and> role_has_permission (committed s) ''manager'' ''adjust_inventory'' = Inr True"
proof -
  have "case run demo_acts (demo_request, []) of Some (s, relied) \<Rightarrow> holds_company_lock s \<and> may_commit s \<and> au_role s = ''manager''
      \<and> relied = [''adjust_inventory''] | None \<Rightarrow> False"
    by code_simp
  then obtain s where s: "run demo_acts (demo_request, []) = Some (s, [''adjust_inventory''])" "holds_company_lock s" "may_commit s" "au_role s = ''manager''"
    by (auto split: option.splits)
  have "fresh_request demo_request" by code_simp
  from locked_request_is_granted_now [OF s(1) this s(2,3)] s show ?thesis by auto
qed

end
