(* ===== verification/DocFacts.thy ===== *)
theory DocFacts
  imports DocLists MoneyFacts
begin

text \<open>
  What the document projection guarantees: the balances every payment event leaves, payments
  whose index is their identity, documents that were never issued, voids, receipts, and the
  fields an edit cannot reach.
\<close>

section \<open>Balances\<close>

lemma round_nonneg:
  assumes "dmax (Fin 0 0) x = Inr y" "round_money y cur = Inr r"
  obtains n dp where "currency_dp cur = Inr dp" "r = Fin n (- int dp)" "0 \<le> n"
proof -
  obtain dp where dp: "currency_dp cur = Inr dp" using assms(2) by (auto simp: round_money_def rbind_eq_Inr)
  have q: "dquantize y (- int dp) = Inr r" using assms(2) dp by (simp add: round_money_def)
  obtain l where l: "dless (Fin 0 0) x = Inr l" "y = (if l then x else Fin 0 0)"
    using assms(1) by (auto simp: dmax_def rbind_eq_Inr)
  have "\<not> is_nan x" using l(1) by (auto simp: dless_def split: if_splits)
  moreover have "x \<noteq> Inf s" if l for s using l that q by (cases s) (auto simp: dless_def is_nan_def)
  ultimately have y: "is_fin y" "0 \<le> dval y" using l by (cases x; auto simp: is_nan_def split: if_splits)+
  have "r = Fin (rhu (dval y * 10 powi int dp)) (- int dp)" using dquantize_Inr(1) [OF y(1) q] .
  moreover have "0 \<le> rhu (dval y * 10 powi int dp)" using y(2) by (intro rhu_nonneg) simp
  ultimately show thesis using dp by (intro that)
qed

lemma payment_balances_Inr:
  assumes "payment_balances d p = Inr (a, b)"
  obtains m n dp where "a = Fin m (- int dp)" "0 \<le> m" "b = Fin n (- int dp)" "0 \<le> n"
proof -
  let ?cur = "doc_currency d"
  from assms obtain p1 left x where "dmax (Fin 0 0) p = Inr p1" "round_money p1 ?cur = Inr a"
    "dmax (Fin 0 0) left = Inr x" "round_money x ?cur = Inr b"
    by (auto simp: payment_balances_def Let_def rbind_eq_Inr)
  then show thesis by (elim round_nonneg) (auto intro: that)
qed

lemma put_outstanding_Inr: "put_outstanding b d = Inr d' \<Longrightarrow> is_fin b \<Longrightarrow> d' = dput ''amount_outstanding'' (PFloat (fl (dval b))) d"
  by (simp add: put_outstanding_def to_stored_float_def)

lemma settle_Inr:
  assumes "settle d p = Inr d'"
  obtains a b s where "payment_balances d p = Inr (a, b)" "is_fin a" "is_fin b" "0 \<le> dval a" "0 \<le> dval b"
    "payment_status (dput ''amount_outstanding'' (PFloat (fl (dval b))) (dput ''amount_paid'' (PFloat (fl (dval a))) d)) a b = Inr s"
    "d' = dput ''status'' (PStr s) (dput ''amount_outstanding'' (PFloat (fl (dval b))) (dput ''amount_paid'' (PFloat (fl (dval a))) d))"
proof -
  from assms obtain a b v d1 s where *: "payment_balances d p = Inr (a, b)" "to_stored_float a = Inr v"
    "put_outstanding b (dput ''amount_paid'' v d) = Inr d1" "payment_status d1 a b = Inr s" "d' = dput ''status'' (PStr s) d1"
    by (auto simp: settle_def rbind_eq_Inr)
  obtain m n dp where f: "a = Fin m (- int dp)" "0 \<le> m" "b = Fin n (- int dp)" "0 \<le> n"
    using *(1) by (rule payment_balances_Inr)
  then have ab: "is_fin a" "is_fin b" "0 \<le> dval a" "0 \<le> dval b" by simp_all
  have v: "v = PFloat (fl (dval a))" using *(2) ab by (simp add: to_stored_float_def)
  have d1: "d1 = dput ''amount_outstanding'' (PFloat (fl (dval b))) (dput ''amount_paid'' (PFloat (fl (dval a))) d)"
    using put_outstanding_Inr [OF *(3) ab(2)] by (simp add: v)
  show thesis using *(4,5) unfolding d1 by (rule that [OF *(1) ab])
qed

definition issued :: "dict \<Rightarrow> bool" where
  "issued d \<longleftrightarrow> in_set (dget_or d ''status'' (PStr ''draft'')) UNISSUED_STATUSES = Inr False"

text \<open>What receiving a payment writes on an issued document, before the payment is recorded.\<close>

lemma payment_received_Inr:
  assumes "payment_received d data = Inr d'"
  obtains before raw amount paid0 a b c x ps where
    "amount_paid_of d = Inr before" "dkey data ''amount'' = Inr raw" "to_decimal raw = Inr amount"
    "dadd before amount = Inr paid0" "payment_balances d paid0 = Inr (a, b)"
    "issued d \<Longrightarrow> settle d paid0 = Inr c"
    "\<not> issued d \<Longrightarrow> c = (if str_is (dget d ''status'') ''draft'' then dput ''amount_outstanding'' (PFloat (fl (dval b))) (dput ''amount_paid'' (PFloat (fl (dval a))) d)
                      else dput ''amount_paid'' (PFloat (fl (dval a))) d)"
    "dget (dsetdefault ''payments'' (PList []) c) ''payments'' = PList ps" "py_float raw = Inr x"
    "d' = dput ''payments'' (PList (ps @ [PDict (payment_record (length ps) data x)])) (dsetdefault ''payments'' (PList []) c)"
proof -
  from assms obtain before raw amount paid0 a b v un c where *:
    "amount_paid_of d = Inr before" "dkey data ''amount'' = Inr raw" "to_decimal raw = Inr amount"
    "dadd before amount = Inr paid0" "payment_balances d paid0 = Inr (a, b)" "to_stored_float a = Inr v"
    "in_set (dget_or (dput ''amount_paid'' v d) ''status'' (PStr ''draft'')) UNISSUED_STATUSES = Inr un"
    "(if \<not> un
            then rbind (put_outstanding b (dput ''amount_paid'' v d)) (\<lambda>c2.
                 rmap (\<lambda>s. dput ''status'' (PStr s) c2) (payment_status c2 a b))
            else if str_is (dget (dput ''amount_paid'' v d) ''status'') ''draft'' then put_outstanding b (dput ''amount_paid'' v d)
            else Inr (dput ''amount_paid'' v d)) = Inr c"
    and rest: "(case dget (dsetdefault ''payments'' (PList []) c) ''payments'' of
       PList ps \<Rightarrow> rbind (py_float raw) (\<lambda>x. dappend ''payments'' (PDict (payment_record (length ps) data x)) (dsetdefault ''payments'' (PList []) c))
     | _ \<Rightarrow> Inl AttributeError) = Inr d'"
    unfolding payment_received_def Let_def by (elim rbindE) (auto elim!: rbindE split: prod.splits)
  obtain m n dp where f: "a = Fin m (- int dp)" "0 \<le> m" "b = Fin n (- int dp)" "0 \<le> n"
    using *(5) by (rule payment_balances_Inr)
  then have ab: "is_fin a" "is_fin b" by simp_all
  have v: "v = PFloat (fl (dval a))" using *(6) ab by (simp add: to_stored_float_def)
  from rest obtain ps x where ps: "dget (dsetdefault ''payments'' (PList []) c) ''payments'' = PList ps" "py_float raw = Inr x"
     and app: "dappend ''payments'' (PDict (payment_record (length ps) data x)) (dsetdefault ''payments'' (PList []) c) = Inr d'"
    by (auto simp: rbind_eq_Inr split: pyval.splits)
  from app ps(1) have d': "d' = dput ''payments'' (PList (ps @ [PDict (payment_record (length ps) data x)])) (dsetdefault ''payments'' (PList []) c)"
    unfolding dappend_Inr by (metis dget_Some pyval.inject(5))
  have un: "un \<longleftrightarrow> \<not> issued d" using *(7) by (cases un) (auto simp: issued_def)
  show thesis
  proof (rule that [OF *(1-5) _ _ ps d'])
    show "settle d paid0 = Inr c" if "issued d"
      using *(8) that un *(5,6) by (auto simp: settle_def rmap_eq_Inr rbind_eq_Inr)
    show "c = (if str_is (dget d ''status'') ''draft'' then dput ''amount_outstanding'' (PFloat (fl (dval b))) (dput ''amount_paid'' (PFloat (fl (dval a))) d)
                      else dput ''amount_paid'' (PFloat (fl (dval a))) d)" if "\<not> issued d"
      using *(8) that un ab v by (auto dest: put_outstanding_Inr split: if_splits)
  qed
qed


lemma dget_setdefault_other: "k' \<noteq> k \<Longrightarrow> dget (dsetdefault k v d) k' = dget d k'"
  by simp

text \<open>What a document owes and what it is credited with, from its own fields.\<close>

definition money_in :: "dict \<Rightarrow> string \<Rightarrow> rat" where
  "money_in d k = (case dec_field d k of Inr x \<Rightarrow> dval x | Inl _ \<Rightarrow> 0)"

definition owed_by :: "nat \<Rightarrow> dict \<Rightarrow> rat" where
  "owed_by dp d = round_places (int dp)
     (rnd28 (rnd28 (money_in d ''total'' - money_in d ''returned_credit'') + money_in d ''supplier_credit''))"

definition credit_on :: "dict \<Rightarrow> rat" where
  "credit_on d = (if str_in (dget d ''doc_type'') CREDITED_DOC_TYPES then money_in d ''credited'' else 0)"

text \<open>What has been paid on a document once \<open>x\<close> more is: never less than nothing, and what is
  then left to pay, both rounded to the currency.\<close>

definition paid_with :: "nat \<Rightarrow> dict \<Rightarrow> dec \<Rightarrow> rat" where
  "paid_with dp d x = round_places (int dp)
     (case rbind (amount_paid_of d) (\<lambda>b. dadd b x) of Inr p \<Rightarrow> max 0 (dval p) | Inl _ \<Rightarrow> 0)"

definition left_with :: "nat \<Rightarrow> dict \<Rightarrow> dec \<Rightarrow> rat" where
  "left_with dp d x = round_places (int dp)
     (max 0 (rnd28 (rnd28 (owed_by dp d - paid_with dp d x) - round_places (int dp) (credit_on d))))"

definition settled_with :: "dict \<Rightarrow> dec \<Rightarrow> dict \<Rightarrow> bool" where
  "settled_with d x d' \<longleftrightarrow>
     (\<exists>dp. currency_dp (doc_currency d) = Inr dp
       \<and> dget d' ''amount_paid'' = PFloat (fl (paid_with dp d x))
       \<and> dget d' ''amount_outstanding'' = PFloat (fl (left_with dp d x))
       \<and> dget d' ''status'' = PStr (if left_with dp d x = 0 then ''paid''
            else if 0 < paid_with dp d x \<or> 0 < credit_on d then ''partial'' else ''final''))"

lemma paid_with_add:
  "amount_paid_of d = Inr b \<Longrightarrow> is_fin b \<Longrightarrow> is_fin x
     \<Longrightarrow> paid_with dp d x = round_places (int dp) (max 0 (rnd28 (dval b + dval x)))"
  using dadd_val [of b x] by (auto simp: paid_with_def elim: dec_isE)

lemma round_money_cases:
  assumes "round_money x cur = Inr r"
  obtains dp where "currency_dp cur = Inr dp" "is_fin x" "is_fin r" "dval r = round_places (int dp) (dval x)"
  | "r = NaN"
proof -
  obtain dp where dp: "currency_dp cur = Inr dp" "dquantize x (- int dp) = Inr r"
    using assms by (auto simp: round_money_def rbind_eq_Inr)
  show thesis
  proof (cases x)
    case (Fin c e)
    then have "is_fin x" by simp
    with dquantize_Inr [OF this dp(2)] dp(1) show ?thesis by (intro that(1)) simp_all
  qed (use dp(2) that(2) in auto)
qed

lemma dadd_fin_args: "dadd a b = Inr c \<Longrightarrow> is_fin c \<Longrightarrow> is_fin a \<and> is_fin b \<and> dval c = rnd28 (dval a + dval b)"
proof -
  assume c: "dadd a b = Inr c" "is_fin c"
  then have f: "is_fin a" "is_fin b"
    by (cases a; cases b; auto simp: dadd_def dec_binop_def split: if_splits)+
  with dadd_val [of a b] c show ?thesis by simp
qed

lemma dsub_fin_args: "dsub a b = Inr c \<Longrightarrow> is_fin c \<Longrightarrow> is_fin a \<and> is_fin b \<and> dval c = rnd28 (dval a - dval b)"
  using dadd_fin_args [of a "dcopy_neg b" c] by (simp add: dsub_def)

lemma dsub_nan: "dsub a b = Inr c \<Longrightarrow> a = NaN \<or> b = NaN \<Longrightarrow> c = NaN"
  by (auto simp: dsub_def dadd_def dec_binop_def split: if_splits)

lemma dmax_left: "dmax (Fin 0 0) x = Inr y \<Longrightarrow> \<not> is_nan x"
  by (auto simp: dmax_def dless_def rbind_eq_Inr split: if_splits)

lemma dmax_fin: "dmax (Fin 0 0) x = Inr y \<Longrightarrow> is_fin y \<Longrightarrow> dval y = max 0 (dval x)"
  by (cases x) (auto simp: dmax_def dless_def is_nan_def rbind_eq_Inr split: if_splits)

lemma dec_field_in: "dec_field d k = Inr x \<Longrightarrow> money_in d k = dval x"
  by (simp add: money_in_def)

lemma credited_value: "credited_of d = Inr c \<Longrightarrow> dval c = credit_on d"
  by (auto simp: credited_of_def credit_on_def str_in_def in_set_def rbind_eq_Inr dec_field_in split: pyval.splits if_splits)

lemma payment_balances_values:
  assumes "payment_balances d p = Inr (a, b)" "rbind (amount_paid_of d) (\<lambda>b. dadd b x) = Inr p"
  obtains dp where "currency_dp (doc_currency d) = Inr dp" "is_fin a" "is_fin b"
    "dval a = paid_with dp d x" "dval b = left_with dp d x"
    "\<exists>c. credited_of d = Inr c \<and> is_fin c"
proof -
  let ?cur = "doc_currency d"
  from assms obtain t r s1 su s2 o1 p1 c0 c1 l1 l2 l3 where
    f: "dec_field d ''total'' = Inr t" "dec_field d ''returned_credit'' = Inr r" "dsub t r = Inr s1"
      "dec_field d ''supplier_credit'' = Inr su" "dadd s1 su = Inr s2" "round_money s2 ?cur = Inr o1"
    and a: "dmax (Fin 0 0) p = Inr p1" "round_money p1 ?cur = Inr a"
    and c: "credited_of d = Inr c0" "round_money c0 ?cur = Inr c1"
    and l: "dsub o1 a = Inr l1" "dsub l1 c1 = Inr l2" "dmax (Fin 0 0) l2 = Inr l3" "round_money l3 ?cur = Inr b"
    by (auto simp: payment_balances_def Let_def rbind_eq_Inr)
  have nan: "l2 \<noteq> NaN" using dmax_left [OF l(3)] by (auto simp: is_nan_def)
  then have l1: "l1 \<noteq> NaN" "c1 \<noteq> NaN" using dsub_nan [OF l(2)] by auto
  then have o1: "o1 \<noteq> NaN" "a \<noteq> NaN" using dsub_nan [OF l(1)] by auto
  have "b \<noteq> NaN"
  proof -
    have "\<not> is_nan l3" using l(3) dmax_left [OF l(3)] by (auto simp: dmax_def rbind_eq_Inr is_nan_def split: if_splits)
    with l(4) show ?thesis by (cases l3) (auto simp: round_money_def rbind_eq_Inr is_nan_def Let_def split: if_splits)
  qed
  obtain dp where dp: "currency_dp ?cur = Inr dp" using a(2) by (auto simp: round_money_def rbind_eq_Inr)
  have o2: "is_fin s2" "is_fin o1" "dval o1 = round_places (int dp) (dval s2)" using f(6) o1(1) dp by (auto elim: round_money_cases)
  have a2: "is_fin p1" "is_fin a" "dval a = round_places (int dp) (dval p1)" using a(2) o1(2) dp by (auto elim: round_money_cases)
  have c2: "is_fin c0" "is_fin c1" "dval c1 = round_places (int dp) (dval c0)" using c(2) l1(2) dp by (auto elim: round_money_cases)
  have b2: "is_fin l3" "is_fin b" "dval b = round_places (int dp) (dval l3)" using l(4) \<open>b \<noteq> NaN\<close> dp by (auto elim: round_money_cases)
  have s2: "is_fin s1" "dval s2 = rnd28 (dval s1 + dval su)" using dadd_fin_args [OF f(5) o2(1)] by auto
  have s1: "dval s1 = rnd28 (dval t - dval r)" using dsub_fin_args [OF f(3) s2(1)] by auto
  have owed: "dval o1 = owed_by dp d" using f s1 s2 o2 by (simp add: owed_by_def dec_field_in)
  have paid: "dval a = paid_with dp d x" using a2 dmax_fin [OF a(1) a2(1)] assms(2) by (simp add: paid_with_def)
  obtain m1 where m1: "dsub o1 a = Inr m1" "is_fin m1" "dval m1 = rnd28 (dval o1 - dval a)"
    using dsub_val [OF o2(2) a2(2)] by (rule dec_isE)
  obtain m2 where m2: "dsub m1 c1 = Inr m2" "is_fin m2" "dval m2 = rnd28 (dval m1 - dval c1)"
    using dsub_val [OF m1(2) c2(2)] by (rule dec_isE)
  have "dval b = left_with dp d x"
    using b2 dmax_fin [OF l(3) b2(1)] m1 m2 l(1,2) owed paid c2(3) credited_value [OF c(1)] by (simp add: left_with_def)
  then show thesis using that dp a2(2) b2(2) paid c(1) c2(1) by blast
qed

lemma payment_status_value:
  assumes "payment_status d a b = Inr s" "is_fin a" "is_fin b" "credited_of d = Inr c" "is_fin c"
  shows "s = (if dval b = 0 then ''paid'' else if 0 < dval a \<or> 0 < credit_on d then ''partial'' else ''final'')"
  using assms credited_value [OF assms(4)] by (auto simp: payment_status_def split: if_splits)

lemma settled_with_cong:
  assumes "\<And>k. k \<noteq> ''payments'' \<Longrightarrow> map_of c k = map_of d k"
  shows "settled_with c x = settled_with d x"
proof -
  have g: "dget c k = dget d k" "dget_or c k v = dget_or d k v" if "k \<noteq> ''payments''" for k v
    using assms [OF that] by (simp_all add: dget_def dget_or_def)
  then have "money_in c k = money_in d k" if "k \<noteq> ''payments''" for k
    using that by (simp add: money_in_def dec_field_def)
  with g show ?thesis
    by (simp add: settled_with_def fun_eq_iff doc_currency_def owed_by_def left_with_def paid_with_def credit_on_def amount_paid_of_def)
qed

lemma settle_settled_with:
  assumes "settle d p = Inr d'" "rbind (amount_paid_of d) (\<lambda>b. dadd b x) = Inr p"
  shows "settled_with d x d'"
  using assms(1)
proof (rule settle_Inr)
  fix a b s
  let ?d = "dput ''amount_outstanding'' (PFloat (fl (dval b))) (dput ''amount_paid'' (PFloat (fl (dval a))) d)"
  assume p: "payment_balances d p = Inr (a, b)" and f: "is_fin a" "is_fin b" and s: "payment_status ?d a b = Inr s"
    and d': "d' = dput ''status'' (PStr s) ?d"
  obtain dp c where v: "currency_dp (doc_currency d) = Inr dp" "dval a = paid_with dp d x" "dval b = left_with dp d x"
    and c: "credited_of d = Inr c" "is_fin c"
    using payment_balances_values [OF p assms(2)] by metis
  have "dec_field ?d ''credited'' = dec_field d ''credited''" by (simp add: dec_field_def dget_or_def)
  then have "credited_of ?d = Inr c" using c(1) by (simp add: credited_of_def cong: if_cong)
  moreover have "credit_on ?d = credit_on d" by (simp add: credit_on_def money_in_def dec_field_def dget_or_def)
  ultimately show ?thesis
    using payment_status_value [OF s f _ c(2)] v by (auto simp: settled_with_def d')
qed

section \<open>What each payment event moves\<close>

definition event_amount :: "dict \<Rightarrow> dec" where
  "event_amount data = (case rbind (dkey data ''amount'') to_decimal of Inr x \<Rightarrow> x | Inl _ \<Rightarrow> Fin 0 0)"

text \<open>What a payment still counts for: its amount less what was refunded of it.\<close>

definition counts_for :: "dict \<Rightarrow> dec" where
  "counts_for p = (case left_of p of Inr x \<Rightarrow> x | Inl _ \<Rightarrow> Fin 0 0)"

definition named_payment :: "dict \<Rightarrow> dict \<Rightarrow> dict option" where
  "named_payment d data =
     (case find_payment d (dget data ''payment_index'') of Inr (Some (i, p)) \<Rightarrow> Some p | _ \<Rightarrow> None)"

text \<open>The payment a deletion without a tombstone takes out: the one at the position given.\<close>

definition payment_placed :: "dict \<Rightarrow> dict \<Rightarrow> dict option" where
  "payment_placed d data =
     (case rows d ''payments'' of Inl _ \<Rightarrow> None
      | Inr ps \<Rightarrow> (case list_position (dget data ''payment_index'') (length ps) of
          Inr (Some i) \<Rightarrow> (case ps ! i of PDict p \<Rightarrow> Some p | _ \<Rightarrow> None) | _ \<Rightarrow> None))"

text \<open>The amount a payment event adds to what is paid on a document, \<open>None\<close> when it changes nothing.\<close>

definition payment_moves :: "string \<Rightarrow> dict \<Rightarrow> dict \<Rightarrow> dec option" where
  "payment_moves et d data =
     (if et = ''doc.payment.received'' \<or> et = ''doc.payment.refund_reversed'' then Some (event_amount data)
      else if et = ''doc.payment.refunded'' then Some (dcopy_neg (event_amount data))
      else if et = ''doc.payment.voided'' then map_option (\<lambda>p. dcopy_neg (counts_for p)) (named_payment d data)
      else if truthy (dget data ''tombstone'')
      then (case named_payment d data of
              Some p \<Rightarrow> if str_is (dget p ''status'') ''active'' then Some (dcopy_neg (counts_for p)) else None
            | None \<Rightarrow> None)
      else map_option (\<lambda>p. dcopy_neg (if str_is (dget p ''status'') ''active'' then counts_for p else Fin 0 0)) (payment_placed d data))"

lemma moved_from: "amount_paid_of d = Inr b \<Longrightarrow> dsub b x = Inr p \<Longrightarrow> rbind (amount_paid_of d) (\<lambda>b. dadd b (dcopy_neg x)) = Inr p"
  by (simp add: dsub_def)

lemma event_amount_Inr: "rbind (dkey data ''amount'') to_decimal = Inr x \<Longrightarrow> event_amount data = x"
  by (simp add: event_amount_def)

lemma counts_for_Inr: "left_of p = Inr x \<Longrightarrow> counts_for p = x"
  by (simp add: counts_for_def)

lemma amount_paid_rows [simp]:
  "amount_paid_of (put_row ''payments'' i r d) = amount_paid_of d" "amount_paid_of (put_rows ''payments'' ps d) = amount_paid_of d"
  by (simp_all add: amount_paid_of_def dget_or_def)

lemma settled_with_rows [simp]:
  "settled_with (put_row ''payments'' i r d) = settled_with d" "settled_with (put_rows ''payments'' ps d) = settled_with d"
  by (auto intro!: ext simp: settled_with_cong [of "put_row ''payments'' i r d" d] settled_with_cong [of "put_rows ''payments'' ps d" d])

lemma left_of_put [simp]: "k \<notin> {''amount'', ''refunded''} \<Longrightarrow> left_of (dput k v p) = left_of p"
  by (auto simp: left_of_def)

lemma moved_settled: "settle c p = Inr d' \<Longrightarrow> settled_with c = settled_with d \<Longrightarrow> rbind (amount_paid_of c) (\<lambda>b. dadd b x) = Inr p \<Longrightarrow> settled_with d x d'"
  using settle_settled_with by metis

lemma settled_with_same:
  "(\<And>k. k \<in> {''amount_paid'', ''amount_outstanding'', ''status''} \<Longrightarrow> dget c k = dget d' k) \<Longrightarrow> settled_with d x c = settled_with d x d'"
  by (simp add: settled_with_def)

definition moved_or_not :: "dict \<Rightarrow> dec option \<Rightarrow> dict \<Rightarrow> bool" where
  "moved_or_not d m d' = (case m of None \<Rightarrow> d' = d | Some x \<Rightarrow> settled_with d x d')"

definition PAYMENT_EVENTS :: "string list" where
  "PAYMENT_EVENTS = [''doc.payment.received'', ''doc.payment.voided'', ''doc.payment.deleted'',
     ''doc.payment.refunded'', ''doc.payment.refund_reversed'']"

lemma received_moves:
  assumes "payment_received d data = Inr d'" "issued d"
  shows "settled_with d (event_amount data) d'"
  using assms(1)
proof (rule payment_received_Inr)
  fix before raw amount paid0 a b c x ps
  assume b: "amount_paid_of d = Inr before" "dkey data ''amount'' = Inr raw" "to_decimal raw = Inr amount" "dadd before amount = Inr paid0"
    and s: "issued d \<Longrightarrow> settle d paid0 = Inr c"
    and d': "d' = dput ''payments'' (PList (ps @ [PDict (payment_record (length ps) data x)])) (dsetdefault ''payments'' (PList []) c)"
  have "settled_with d amount c" using settle_settled_with [OF s [OF assms(2)]] b by simp
  then have "settled_with d amount d'" by (subst settled_with_same [of d' c]) (auto simp: d')
  then show ?thesis using event_amount_Inr [of data amount] b by simp
qed

text \<open>Taking out what a payment still counts for, from a document that differs in its payments only.\<close>

lemma take_out:
  assumes "rbind (amount_paid_of c) (\<lambda>paid. rbind (left_of p) (\<lambda>left. rbind (dsub paid left) (settle c))) = Inr d'"
    and "settled_with c = settled_with d"
  shows "settled_with d (dcopy_neg (counts_for p)) d'"
proof -
  from assms(1) obtain paid left p1 where m: "amount_paid_of c = Inr paid" "left_of p = Inr left" "dsub paid left = Inr p1" "settle c p1 = Inr d'"
    by (elim rbindE)
  show ?thesis using moved_settled [OF m(4) assms(2) moved_from [OF m(1,3)]] counts_for_Inr [OF m(2)] by simp
qed

lemma voided_moves:
  assumes "payment_voided d data = Inr d'"
  shows "moved_or_not d (map_option (\<lambda>p. dcopy_neg (counts_for p)) (named_payment d data)) d'"
proof -
  obtain idx target where i: "dkey data ''payment_index'' = Inr idx" and t: "find_payment d idx = Inr target"
    and r: "(case target of None \<Rightarrow> Inr d
       | Some (i, p) \<Rightarrow>
         let p' = dput ''refund_date'' (dget data ''refund_date'') (dput ''void_reason'' (dget data ''void_reason'')
                    (dput ''status'' (PStr ''voided'') p));
             c1 = put_row ''payments'' i p' d
         in rbind (amount_paid_of c1) (\<lambda>paid. rbind (left_of p') (\<lambda>left. rbind (dsub paid left) (settle c1)))) = Inr d'"
    using assms unfolding payment_voided_def by (elim rbindE)
  have idx: "dget data ''payment_index'' = idx" using i by (simp add: dkey_Inr dget_Some)
  show ?thesis
  proof (cases target)
    case (Some ip)
    obtain i p where ip: "ip = (i, p)" by (cases ip)
    have "settled_with d (dcopy_neg (counts_for (dput ''refund_date'' (dget data ''refund_date'') (dput ''void_reason'' (dget data ''void_reason'')
                    (dput ''status'' (PStr ''voided'') p))))) d'"
      using r unfolding Some ip option.case prod.case Let_def by (rule take_out) (rule settled_with_rows)
    then show ?thesis using t idx by (simp add: Some ip moved_or_not_def named_payment_def counts_for_def)
  qed (use t r idx in \<open>simp add: moved_or_not_def named_payment_def\<close>)
qed

lemma deleted_moves:
  assumes "payment_deleted d data = Inr d'"
  shows "moved_or_not d (payment_moves ''doc.payment.deleted'' d data) d'"
proof -
  obtain idx ps where i: "dkey data ''payment_index'' = Inr idx" and ps: "rows d ''payments'' = Inr ps"
    and body: "(if truthy (dget data ''tombstone'')
     then rbind (find_payment d idx) (\<lambda>target.
          case target of None \<Rightarrow> Inr d
          | Some (i, p) \<Rightarrow>
            if str_is (dget p ''status'') ''active''
            then let p' = dput ''status'' (PStr ''deleted'') p; c1 = put_row ''payments'' i p' d
                 in rbind (amount_paid_of c1) (\<lambda>paid. rbind (left_of p') (\<lambda>left. rbind (dsub paid left) (settle c1)))
            else Inr d)
     else rbind (list_position idx (length ps)) (\<lambda>pos.
          case pos of None \<Rightarrow> Inr d
          | Some i \<Rightarrow>
            rbind (as_dict (ps ! i)) (\<lambda>p.
            rbind (reindex (take i ps @ drop (Suc i) ps)) (\<lambda>qs.
            let c1 = put_rows ''payments'' qs d in
            rbind (amount_paid_of c1) (\<lambda>paid.
            rbind (if str_is (dget p ''status'') ''active'' then left_of p else Inr (Fin 0 0)) (\<lambda>left.
            rbind (dsub paid left) (settle c1))))))) = Inr d'"
    using assms unfolding payment_deleted_def by (elim rbindE)
  have idx: "dget data ''payment_index'' = idx" using i by (simp add: dkey_Inr dget_Some)
  show ?thesis
  proof (cases "truthy (dget data ''tombstone'')")
    case True
    obtain target where t: "find_payment d idx = Inr target"
      and r: "(case target of None \<Rightarrow> Inr d
          | Some (i, p) \<Rightarrow>
            if str_is (dget p ''status'') ''active''
            then let p' = dput ''status'' (PStr ''deleted'') p; c1 = put_row ''payments'' i p' d
                 in rbind (amount_paid_of c1) (\<lambda>paid. rbind (left_of p') (\<lambda>left. rbind (dsub paid left) (settle c1)))
            else Inr d) = Inr d'"
      using body unfolding if_P [OF True] by (elim rbindE)
    show ?thesis
    proof (cases target)
      case (Some ip)
      obtain i p where ip: "ip = (i, p)" by (cases ip)
      show ?thesis
      proof (cases "str_is (dget p ''status'') ''active''")
        case active: True
        have "settled_with d (dcopy_neg (counts_for (dput ''status'' (PStr ''deleted'') p))) d'"
          using r unfolding Some ip option.case prod.case if_P [OF active] Let_def by (rule take_out) (rule settled_with_rows)
        then show ?thesis using t True active idx
          by (simp add: Some ip moved_or_not_def payment_moves_def named_payment_def counts_for_def)
      qed (use t r True idx Some ip in \<open>simp add: moved_or_not_def payment_moves_def named_payment_def\<close>)
    qed (use t r True idx in \<open>simp add: moved_or_not_def payment_moves_def named_payment_def\<close>)
  next
    case False
    obtain pos where t: "list_position idx (length ps) = Inr pos"
      and r: "(case pos of None \<Rightarrow> Inr d
          | Some i \<Rightarrow>
            rbind (as_dict (ps ! i)) (\<lambda>p.
            rbind (reindex (take i ps @ drop (Suc i) ps)) (\<lambda>qs.
            let c1 = put_rows ''payments'' qs d in
            rbind (amount_paid_of c1) (\<lambda>paid.
            rbind (if str_is (dget p ''status'') ''active'' then left_of p else Inr (Fin 0 0)) (\<lambda>left.
            rbind (dsub paid left) (settle c1)))))) = Inr d'"
      using body unfolding if_not_P [OF False] by (elim rbindE)
    show ?thesis
    proof (cases pos)
      case None
      then show ?thesis using t r False ps idx by (simp add: moved_or_not_def payment_moves_def payment_placed_def)
    next
      case (Some i)
      obtain p qs paid left p1 where p: "as_dict (ps ! i) = Inr p" and m: "amount_paid_of (put_rows ''payments'' qs d) = Inr paid"
          "(if str_is (dget p ''status'') ''active'' then left_of p else Inr (Fin 0 0)) = Inr left" "dsub paid left = Inr p1"
        and s: "settle (put_rows ''payments'' qs d) p1 = Inr d'"
        using r unfolding Some option.case Let_def by (elim rbindE)
      have "settled_with d (dcopy_neg left) d'" using moved_settled [OF s settled_with_rows(2) moved_from [OF m(1,3)]] .
      moreover have "left = (if str_is (dget p ''status'') ''active'' then counts_for p else Fin 0 0)"
        using m(2) by (auto simp: counts_for_def split: if_splits)
      moreover have "ps ! i = PDict p" using p by (simp add: as_dict_Inr)
      ultimately show ?thesis using t False ps idx Some by (simp add: moved_or_not_def payment_moves_def payment_placed_def)
    qed
  qed
qed

lemma refunded_moves:
  assumes "payment_refunded d data = Inr d'"
  shows "settled_with d (dcopy_neg (event_amount data)) d'"
proof -
  obtain x target c1 paid p where x: "rbind (dkey data ''amount'') to_decimal = Inr x"
    and c: "(case target of None \<Rightarrow> Inr d
            | Some (i, p) \<Rightarrow>
              rbind (to_decimal (dget_or p ''refunded'' (PInt 0))) (\<lambda>r.
              rbind (rbind (dadd r x) to_stored_float) (\<lambda>v.
              rbind (iget p ''refund_count'') (\<lambda>n.
              Inr (put_row ''payments'' i (dput ''refund_count'' (PInt (n + 1)) (dput ''refunded'' v p)) d))))) = Inr c1"
    and p: "amount_paid_of c1 = Inr paid" "dsub paid x = Inr p" "settle c1 p = Inr d'"
    using assms unfolding payment_refunded_def Let_def
    by (rule rbindE) (erule rbindE, erule rbindE, erule rbindE, erule rbindE, rule that)
  have "settled_with c1 = settled_with d" using c by (auto elim!: rbindE split: option.splits prod.splits)
  with moved_settled [OF p(3) _ moved_from [OF p(1,2)]] event_amount_Inr [OF x] show ?thesis by simp
qed

lemma reversed_moves:
  assumes "payment_refund_reversed d data = Inr d'"
  shows "settled_with d (event_amount data) d'"
proof -
  obtain x target c1 paid p where x: "rbind (dkey data ''amount'') to_decimal = Inr x"
    and c: "(case target of None \<Rightarrow> Inr d
            | Some (i, p) \<Rightarrow>
              rbind (to_decimal (dget_or p ''refunded'' (PInt 0))) (\<lambda>r.
              rbind (dsub r x) (\<lambda>x. rbind (dmax (Fin 0 0) x) (\<lambda>y. rbind (to_stored_float y) (\<lambda>v.
              Inr (put_row ''payments'' i (dput ''refunded'' v p) d)))))) = Inr c1"
    and p: "amount_paid_of c1 = Inr paid" "dadd paid x = Inr p" "settle c1 p = Inr d'"
    using assms unfolding payment_refund_reversed_def Let_def
    by (rule rbindE) (erule rbindE, erule rbindE, erule rbindE, erule rbindE, rule that)
  have "settled_with c1 = settled_with d" using c by (auto elim!: rbindE split: option.splits prod.splits)
  moreover have "rbind (amount_paid_of c1) (\<lambda>b. dadd b x) = Inr p" using p by simp
  ultimately show ?thesis using moved_settled [OF p(3)] event_amount_Inr [OF x] by simp
qed

text \<open>C32: a payment event on an issued document moves what is paid by the event's amount and leaves the
  balances that makes: the amount paid is what was paid before and the amount received (or given
  back by a refund taken back), less what was refunded, or less what the voided or deleted payment
  still counted for, never below zero and rounded to the currency; the amount outstanding is what
  the document owes less that and less its credit, never below zero and rounded; and the status is
  the one they make: paid exactly when nothing is left, else partial when something is paid or
  credited.  An event that finds no such payment changes nothing.\<close>

theorem payment_events_settle:
  assumes "apply_documents_event d et data = Inr d'" "et \<in> set PAYMENT_EVENTS" "issued d"
  shows "case payment_moves et d data of None \<Rightarrow> d' = d | Some x \<Rightarrow> settled_with d x d'"
proof -
  consider "et = ''doc.payment.received''" "payment_received d data = Inr d'"
    | "et = ''doc.payment.voided''" "payment_voided d data = Inr d'"
    | "et = ''doc.payment.deleted''" "payment_deleted d data = Inr d'"
    | "et = ''doc.payment.refunded''" "payment_refunded d data = Inr d'"
    | "et = ''doc.payment.refund_reversed''" "payment_refund_reversed d data = Inr d'"
    using assms(1,2) by (auto simp: PAYMENT_EVENTS_def apply_documents_event_def document_handlers_def)
  then have "moved_or_not d (payment_moves et d data) d'"
  proof cases
    case 1
    then show ?thesis using received_moves [OF _ assms(3)] by (simp add: payment_moves_def moved_or_not_def)
  next
    case 2
    then show ?thesis using voided_moves by (simp add: payment_moves_def)
  next
    case 3
    then show ?thesis using deleted_moves by simp
  next
    case 4
    then show ?thesis using refunded_moves by (simp add: payment_moves_def moved_or_not_def)
  next
    case 5
    then show ?thesis using reversed_moves by (simp add: payment_moves_def moved_or_not_def)
  qed
  then show ?thesis by (simp add: moved_or_not_def)
qed

definition demo_invoice :: dict where
  "demo_invoice = [(''status'', PStr ''final''), (''total'', PInt 100), (''amount_paid'', PInt 25)]"

lemma demo_invoice_paid:
  "is_ok (apply_documents_event demo_invoice ''doc.payment.received'' [(''amount'', PInt 40)])"
  "payment_moves ''doc.payment.received'' demo_invoice [(''amount'', PInt 40)] = Some (Fin 40 0)"
  "currency_dp (doc_currency demo_invoice) = Inr 2"
  "paid_with 2 demo_invoice (Fin 40 0) = 65" "left_with 2 demo_invoice (Fin 40 0) = 35"
  by code_simp+

lemma payment_events_settle_witness:
  "\<exists>d'. apply_documents_event demo_invoice ''doc.payment.received'' [(''amount'', PInt 40)] = Inr d'
     \<and> dget d' ''amount_paid'' = PFloat (fl 65) \<and> dget d' ''amount_outstanding'' = PFloat (fl 35) \<and> dget d' ''status'' = PStr ''partial''"
proof -
  obtain d' where d': "apply_documents_event demo_invoice ''doc.payment.received'' [(''amount'', PInt 40)] = Inr d'"
    using demo_invoice_paid(1) by (auto simp: is_ok_def split: sum.splits)
  have "issued demo_invoice" by (simp add: issued_def demo_invoice_def dget_or_def UNISSUED_STATUSES_def)
  with payment_events_settle [OF d'] have "settled_with demo_invoice (Fin 40 0) d'"
    by (simp add: demo_invoice_paid(2) PAYMENT_EVENTS_def)
  then show ?thesis using d' demo_invoice_paid(3-) by (auto simp: settled_with_def)
qed

text \<open>A payment received on a draft or void document stays on its record but never makes it
  read as paid: the status is untouched, and a void document goes on owing nothing.\<close>

theorem unissued_never_reads_paid:
  assumes "apply_documents_event d ''doc.payment.received'' data = Inr d'"
    and "dget d ''status'' = PStr s" "s \<in> set UNISSUED_STATUSES"
  shows "dget d' ''status'' = PStr s \<and> (\<exists>ps r. dget d' ''payments'' = PList (ps @ [PDict r]) \<and> dget r ''status'' = PStr ''active'')
    \<and> (s = ''void'' \<longrightarrow> dget d' ''amount_outstanding'' = dget d ''amount_outstanding'')"
proof -
  have "map_of d ''status'' = Some (PStr s)" using assms(2) by (auto simp: dget_def dget_or_def split: option.splits)
  then have un: "\<not> issued d" using assms(3) by (simp add: issued_def dget_or_def)
  have "payment_received d data = Inr d'" using assms(1) by (simp add: apply_documents_event_def document_handlers_def)
  then show ?thesis
    by (rule payment_received_Inr) (use assms(2) un in \<open>auto simp: str_is_def payment_record_def dget_def dget_or_def split: if_splits\<close>)
qed

lemma unissued_never_reads_paid_witness:
  "\<exists>d'. apply_documents_event [(''status'', PStr ''void''), (''total'', PInt 100)] ''doc.payment.received'' [(''amount'', PInt 100)] = Inr d'
     \<and> dget d' ''status'' = PStr ''void''"
proof -
  define d where "d = [(''status'', PStr ''void''), (''total'', PInt 100)]"
  have "is_ok (apply_documents_event d ''doc.payment.received'' [(''amount'', PInt 100)])"
    unfolding d_def by code_simp
  then obtain d' where d': "apply_documents_event d ''doc.payment.received'' [(''amount'', PInt 100)] = Inr d'"
    by (cases "apply_documents_event d ''doc.payment.received'' [(''amount'', PInt 100)]") auto
  from unissued_never_reads_paid [OF this, of "''void''"] show ?thesis
    using d' by (auto simp: d_def UNISSUED_STATUSES_def dget_def dget_or_def)
qed

section \<open>Payments keep their index\<close>

definition payment_indices :: "dict \<Rightarrow> pyval list" where
  "payment_indices d = (case dget d ''payments'' of PList ps \<Rightarrow> map (\<lambda>v. case v of PDict p \<Rightarrow> dget p ''index'' | _ \<Rightarrow> PNone) ps | _ \<Rightarrow> [])"

lemma put_row_indices:
  assumes "map_of d ''payments'' = Some (PList ps)" "i < length ps" "ps ! i = PDict p" "dget p' ''index'' = dget p ''index''"
  shows "payment_indices (put_row ''payments'' i p' d) = payment_indices d"
proof -
  let ?f = "\<lambda>v. case v of PDict p \<Rightarrow> dget p ''index'' | _ \<Rightarrow> PNone"
  have "map ?f (ps[i := PDict p']) = (map ?f ps)[i := ?f (PDict p')]" by (rule map_update)
  also have "\<dots> = map ?f ps" using assms(2-4) by (intro list_update_same_conv [THEN iffD2]) auto
  finally show ?thesis using assms(1) by (simp add: payment_indices_def put_row_PList dget_Some)
qed

lemma find_payment_indices:
  "find_payment d idx = Inr (Some (i, p)) \<Longrightarrow>
     \<forall>p'. dget p' ''index'' = dget p ''index'' \<longrightarrow> payment_indices (put_row ''payments'' i p' d) = payment_indices d"
  using put_row_indices by (auto simp: find_payment_def elim!: rows_find)

lemma find_named_payment_indices:
  "find_named_payment d data = Inr (Some (i, p)) \<Longrightarrow>
     \<forall>p'. dget p' ''index'' = dget p ''index'' \<longrightarrow> payment_indices (put_row ''payments'' i p' d) = payment_indices d"
  using put_row_indices by (auto simp: find_named_payment_def elim!: rows_find)

lemma settle_other: "settle d p = Inr d' \<Longrightarrow> k \<notin> {''amount_paid'', ''amount_outstanding'', ''status''} \<Longrightarrow> dget d' k = dget d k"
  by (erule settle_Inr) simp

lemma settle_indices: "settle d p = Inr d' \<Longrightarrow> payment_indices d' = payment_indices d"
  by (simp add: payment_indices_def settle_other)

lemma payment_voided_indices: "payment_voided d data = Inr d' \<Longrightarrow> payment_indices d' = payment_indices d"
  by (auto simp: payment_voided_def rbind_eq_Inr Let_def split: option.splits prod.splits
      dest!: settle_indices find_payment_indices)

lemma payment_deleted_indices: "payment_deleted d data = Inr d' \<Longrightarrow> truthy (dget data ''tombstone'') \<Longrightarrow> payment_indices d' = payment_indices d"
proof -
  assume del: "payment_deleted d data = Inr d'" and "truthy (dget data ''tombstone'')"
  then obtain idx target where t: "find_payment d idx = Inr target"
    and r: "(case target of None \<Rightarrow> Inr d
          | Some (i, p) \<Rightarrow>
            if str_is (dget p ''status'') ''active''
            then let p' = dput ''status'' (PStr ''deleted'') p; c1 = put_row ''payments'' i p' d
                 in rbind (amount_paid_of c1) (\<lambda>paid. rbind (left_of p') (\<lambda>left. rbind (dsub paid left) (settle c1)))
            else Inr d) = Inr d'"
    by (auto simp: payment_deleted_def elim!: rbindE)
  show "payment_indices d' = payment_indices d"
  proof (cases target)
    case (Some ip)
    obtain i p where ip: "ip = (i, p)" by (cases ip)
    show ?thesis using r t unfolding Some ip
      by (auto simp: Let_def split: if_splits elim!: rbindE dest!: settle_indices find_payment_indices)
  qed (use r in simp)
qed

lemma payment_refunded_indices: "payment_refunded d data = Inr d' \<Longrightarrow> payment_indices d' = payment_indices d"
  by (auto simp: payment_refunded_def rbind_eq_Inr Let_def split: option.splits prod.splits if_splits
      dest!: settle_indices find_payment_indices)

lemma payment_refund_reversed_indices: "payment_refund_reversed d data = Inr d' \<Longrightarrow> payment_indices d' = payment_indices d"
  by (auto simp: payment_refund_reversed_def rbind_eq_Inr Let_def split: option.splits prod.splits if_splits
      dest!: settle_indices find_named_payment_indices)

text \<open>C33: deleting a payment by tombstone leaves every payment in its place under the index it
  had, so an index that a journal entry was named by is never used again; and voiding, refunding
  or taking a refund back never moves one either.\<close>

theorem payment_indices_kept:
  assumes "apply_documents_event d et data = Inr d'"
    and "et \<in> {''doc.payment.voided'', ''doc.payment.refunded'', ''doc.payment.refund_reversed''}
      \<or> et = ''doc.payment.deleted'' \<and> truthy (dget data ''tombstone'')"
  shows "payment_indices d' = payment_indices d"
  using assms
  by (auto simp: apply_documents_event_def document_handlers_def dest: payment_voided_indices payment_deleted_indices
      payment_refunded_indices payment_refund_reversed_indices)

lemma payment_indices_kept_witness:
  "\<exists>d'. apply_documents_event
       [(''status'', PStr ''paid''), (''total'', PInt 5), (''amount_paid'', PInt 5),
        (''payments'', PList [PDict [(''index'', PInt 0), (''amount'', PInt 5), (''status'', PStr ''active'')]])]
       ''doc.payment.deleted'' [(''payment_index'', PInt 0), (''tombstone'', PBool True)] = Inr d' \<and> payment_indices d' = [PInt 0]"
proof -
  define d where "d = [(''status'', PStr ''paid''), (''total'', PInt 5), (''amount_paid'', PInt 5),
        (''payments'', PList [PDict [(''index'', PInt 0), (''amount'', PInt 5), (''status'', PStr ''active'')]])]"
  define data where "data = [(''payment_index'', PInt 0), (''tombstone'', PBool True)]"
  have "is_ok (apply_documents_event d ''doc.payment.deleted'' data)"
    unfolding d_def data_def by code_simp
  then obtain d' where d': "apply_documents_event d ''doc.payment.deleted'' data = Inr d'"
    by (cases "apply_documents_event d ''doc.payment.deleted'' data") auto
  have "truthy (dget data ''tombstone'')" by (simp add: data_def dget_def dget_or_def)
  with d' have "payment_indices d' = payment_indices d" by (intro payment_indices_kept) auto
  moreover have "payment_indices d = [PInt 0]" by (simp add: payment_indices_def d_def dget_def dget_or_def)
  ultimately show ?thesis using d' unfolding d_def data_def by auto
qed

section \<open>Voids\<close>

text \<open>Voiding a document already void changes nothing, so the status to restore stays the one
  before the first void; and unvoiding with that status brings the document back to it, owing
  again what its payments leave.\<close>

theorem void_once:
  assumes "apply_documents_event d ''doc.voided'' data = Inr d1"
  shows "apply_documents_event d1 ''doc.voided'' data2 = Inr d1
    \<and> dget d1 ''status'' = PStr ''void''
    \<and> (dget d ''status'' \<noteq> PStr ''void'' \<longrightarrow> dget d1 ''amount_outstanding'' = PFloat 0)
    \<and> (\<forall>r d2. apply_documents_event d1 ''doc.unvoided'' [(''restored_status'', r)] = Inr d2 \<longrightarrow>
         dget d2 ''status'' = r \<and> map_of d2 ''void_reason'' = None \<and> map_of d2 ''pre_void_status'' = None
         \<and> (\<exists>a b. balances_now (dput ''status'' r d1) = Inr (a, b) \<and> dget d2 ''amount_outstanding'' = PFloat (fl (dval b))))"
proof -
  have d1: "d1 = d \<and> dget d ''status'' = PStr ''void'' \<or> dget d ''status'' \<noteq> PStr ''void'' \<and> dget d1 ''status'' = PStr ''void'' \<and> dget d1 ''amount_outstanding'' = PFloat 0"
    using assms by (auto simp: apply_documents_event_def document_handlers_def doc_voided_def Let_def copy_if_def)
  moreover have "dget d2 ''status'' = r \<and> map_of d2 ''void_reason'' = None \<and> map_of d2 ''pre_void_status'' = None
         \<and> (\<exists>a b. balances_now (dput ''status'' r d1) = Inr (a, b) \<and> dget d2 ''amount_outstanding'' = PFloat (fl (dval b)))"
    if "apply_documents_event d1 ''doc.unvoided'' [(''restored_status'', r)] = Inr d2" for r d2
  proof -
    from that obtain a b d3 where b: "balances_now (dput ''status'' r d1) = Inr (a, b)"
      and d3: "put_outstanding b (dput ''status'' r d1) = Inr d3" "d2 = ddels [''void_reason'', ''pre_void_status''] d3"
      by (auto simp: apply_documents_event_def document_handlers_def doc_unvoided_def refresh_outstanding_def
          rmap_eq_Inr rbind_eq_Inr dget_or_def)
    from b obtain p where "payment_balances (dput ''status'' r d1) p = Inr (a, b)" by (auto simp: balances_now_def rbind_eq_Inr)
    then have "is_fin b" by (rule payment_balances_Inr) simp
    from put_outstanding_Inr [OF d3(1) this] b d3(2) show ?thesis by auto
  qed
  ultimately show ?thesis
    by (auto simp: apply_documents_event_def document_handlers_def doc_voided_def)
qed

lemma void_once_witness:
  "\<exists>d1. apply_documents_event [(''status'', PStr ''final''), (''total'', PInt 5)] ''doc.voided'' [(''pre_void_status'', PStr ''final'')] = Inr d1
     \<and> apply_documents_event d1 ''doc.voided'' [(''pre_void_status'', PStr ''void'')] = Inr d1"
proof -
  define d where "d = [(''status'', PStr ''final''), (''total'', PInt 5)]"
  obtain d1 where d1: "apply_documents_event d ''doc.voided'' [(''pre_void_status'', PStr ''final'')] = Inr d1"
    by (simp add: apply_documents_event_def document_handlers_def doc_voided_def)
  from void_once [OF this] d1 show ?thesis unfolding d_def by blast
qed

section \<open>What an edit cannot reach\<close>

lemma update_fields_keep:
  assumes "foldR (doc_update_field protected fixed) d changes = Inr d'"
    and "List.member protected k \<or> (k = ''conversion_rate'' \<and> fixed)"
  shows "map_of d' k = map_of d k"
  by (rule foldR_invariant [OF assms(1), of "\<lambda>t. map_of t k = map_of d k"])
    (use assms(2) in \<open>auto simp: doc_update_field_def rmap_eq_Inr split: if_splits\<close>)

lemma doc_updated_cases:
  assumes "doc_updated d data = Inr d'" "map_of data ''fields_changed'' = Some (PDict changed)"
  obtains tmpl d1 where "in_set (dget d ''doc_type'') [''subscription_invoice'', ''subscription_po''] = Inr tmpl"
    "foldR (doc_update_field (if tmpl \<or> dhas changed ''credited'' then [''entity_type'', ''company_id'']
        else [''status'', ''entity_type'', ''company_id''])
      (dget_or d ''status'' (PStr ''draft'') \<noteq> PStr ''draft'' \<and> \<not> truthy (dget data ''takes_invoice_rate''))) d changed = Inr d1"
    "\<And>k. k \<noteq> ''amount_outstanding'' \<Longrightarrow> k \<noteq> ''status'' \<or> \<not> dhas changed ''credited'' \<Longrightarrow> map_of d' k = map_of d1 k"
proof -
  from assms obtain tmpl d1 where t: "in_set (dget d ''doc_type'') [''subscription_invoice'', ''subscription_po''] = Inr tmpl"
    and f: "foldR (doc_update_field (if tmpl \<or> dhas changed ''credited'' then [''entity_type'', ''company_id'']
        else [''status'', ''entity_type'', ''company_id''])
      (dget_or d ''status'' (PStr ''draft'') \<noteq> PStr ''draft'' \<and> \<not> truthy (dget data ''takes_invoice_rate''))) d changed = Inr d1"
    and r: "(if dhas changed ''total'' \<or> dhas changed ''line_items'' then refresh_outstanding d1
        else if dhas changed ''credited''
        then rbind (in_set (dget d1 ''doc_type'') CREDITED_DOC_TYPES) (\<lambda>credits.
             if credits then Inr d1
             else rbind (balances_now d1) (\<lambda>(paid, outstanding).
                  rbind (put_outstanding outstanding d1) (\<lambda>current'.
                  if str_in (dget current' ''status'') [''final'', ''partial'', ''paid'']
                  then rmap (\<lambda>s. dput ''status'' (PStr s) current') (payment_status current' paid outstanding)
                  else Inr current')))
        else Inr d1) = Inr d'"
    unfolding doc_updated_def Let_def by (auto simp: dkey_def elim!: rbindE)
  have "map_of d' k = map_of d1 k" if "k \<noteq> ''amount_outstanding''" "k \<noteq> ''status'' \<or> \<not> dhas changed ''credited''" for k
    using r that
    by (auto simp: refresh_outstanding_def put_outstanding_def rmap_eq_Inr split: if_splits prod.splits elim!: rbindE)
  with t f show thesis by (rule that)
qed

text \<open>An edit never changes what record a document is, nor, unless it settles a credit note or
  the document is a subscription template, its status; and the exchange rate of a document past
  draft stays the one it was issued at.\<close>

theorem edit_cannot_reach:
  assumes "apply_documents_event d ''doc.updated'' data = Inr d'" "map_of data ''fields_changed'' = Some (PDict changed)"
  shows "map_of d' ''entity_type'' = map_of d ''entity_type'' \<and> map_of d' ''company_id'' = map_of d ''company_id''
    \<and> (\<not> dhas changed ''credited'' \<and> \<not> str_in (dget d ''doc_type'') [''subscription_invoice'', ''subscription_po'']
        \<longrightarrow> map_of d' ''status'' = map_of d ''status'')
    \<and> (dget_or d ''status'' (PStr ''draft'') \<noteq> PStr ''draft'' \<and> \<not> truthy (dget data ''takes_invoice_rate'')
        \<longrightarrow> map_of d' ''conversion_rate'' = map_of d ''conversion_rate'')"
proof -
  have "doc_updated d data = Inr d'" using assms(1) by (simp add: apply_documents_event_def document_handlers_def)
  from this assms(2) obtain tmpl d1 where t: "in_set (dget d ''doc_type'') [''subscription_invoice'', ''subscription_po''] = Inr tmpl"
    and f: "foldR (doc_update_field (if tmpl \<or> dhas changed ''credited'' then [''entity_type'', ''company_id'']
        else [''status'', ''entity_type'', ''company_id''])
      (dget_or d ''status'' (PStr ''draft'') \<noteq> PStr ''draft'' \<and> \<not> truthy (dget data ''takes_invoice_rate''))) d changed = Inr d1"
    and k: "\<And>k. k \<noteq> ''amount_outstanding'' \<Longrightarrow> k \<noteq> ''status'' \<or> \<not> dhas changed ''credited'' \<Longrightarrow> map_of d' k = map_of d1 k"
    by (rule doc_updated_cases) blast
  have "tmpl = str_in (dget d ''doc_type'') [''subscription_invoice'', ''subscription_po'']"
    using t by (auto simp: in_set_def split: pyval.splits)
  then show ?thesis
    using update_fields_keep [OF f, of "''entity_type''"] update_fields_keep [OF f, of "''company_id''"]
      update_fields_keep [OF f, of "''status''"] update_fields_keep [OF f, of "''conversion_rate''"]
      k [of "''entity_type''"] k [of "''company_id''"] k [of "''status''"] k [of "''conversion_rate''"]
    by auto
qed

lemma edit_cannot_reach_witness:
  "\<exists>d'. apply_documents_event [(''status'', PStr ''final''), (''entity_type'', PStr ''doc''), (''conversion_rate'', PInt 2)]
       ''doc.updated'' [(''fields_changed'', PDict [(''status'', PDict [(''new'', PStr ''paid'')]), (''conversion_rate'', PDict [(''new'', PInt 3)]), (''notes'', PDict [(''new'', PStr ''x'')])])] = Inr d'
     \<and> map_of d' ''conversion_rate'' = Some (PInt 2) \<and> map_of d' ''status'' = Some (PStr ''final'')"
proof -
  define d where "d = [(''status'', PStr ''final''), (''entity_type'', PStr ''doc''), (''conversion_rate'', PInt 2)]"
  define changed where "changed = [(''status'', PDict [(''new'', PStr ''paid'')]), (''conversion_rate'', PDict [(''new'', PInt 3)]), (''notes'', PDict [(''new'', PStr ''x'')])]"
  have "is_ok (apply_documents_event d ''doc.updated'' [(''fields_changed'', PDict changed)])"
    unfolding d_def changed_def by code_simp
  then obtain d' where d': "apply_documents_event d ''doc.updated'' [(''fields_changed'', PDict changed)] = Inr d'"
    by (cases "apply_documents_event d ''doc.updated'' [(''fields_changed'', PDict changed)]") auto
  from edit_cannot_reach [OF this, of changed]
  have "map_of d' ''conversion_rate'' = map_of d ''conversion_rate''" "map_of d' ''status'' = map_of d ''status''"
    by (auto simp: d_def changed_def str_in_def dget_def dget_or_def)
  then show ?thesis using d' unfolding d_def changed_def by auto
qed

section \<open>Receipts\<close>

text \<open>Undoing a receipt leaves nothing of it: no received goods, no returns of them, no parcel
  of its on any line and no received quantity, while everything else a line holds stays.\<close>

theorem receive_undone_clears:
  assumes "apply_documents_event d ''doc.receive_undone'' data = Inr d'"
    and "map_of d ''line_items'' = Some (PList ls)" "map_of d ''received_item_ids'' = Some (PList created)"
  shows "map_of d' ''received_items'' = Some (PList []) \<and> map_of d' ''received_item_ids'' = Some (PList [])
    \<and> map_of d' ''returned_items'' = Some (PList []) \<and> map_of d' ''pre_receipt_status'' = None
    \<and> (\<exists>ls'. map_of d' ''line_items'' = Some (PList ls') \<and> length ls' = length ls
         \<and> (\<forall>i<length ls. \<exists>l l'. ls ! i = PDict l \<and> ls' ! i = PDict l'
              \<and> \<not> list_ex (py_eq (dget l' ''entity_id'')) (filter (\<lambda>c. c \<noteq> PNone) created)
              \<and> dget l' ''quantity_received'' \<in> {PNone, PInt 0}
              \<and> (\<forall>k. k \<noteq> ''entity_id'' \<and> k \<noteq> ''quantity_received'' \<longrightarrow> map_of l' k = map_of l k)))"
proof -
  from assms obtain created' s ls' where cr: "rbind (rows_or d ''received_item_ids'') (mapR hashed) = Inr created'"
    and lsm: "map_rows (forget_receipt created') ls = Inr ls'"
    and d': "d' = put_rows ''line_items'' ls' (ddel ''pre_receipt_status'' (dput ''status'' (PStr s)
       (dput ''returned_items'' (PList []) (dput ''received_item_ids'' (PList []) (dput ''received_items'' (PList []) d)))))"
    unfolding apply_documents_event_def document_handlers_def doc_receive_undone_def Let_def
    by (auto simp: rbind_eq_Inr rows_def dget_or_def)
  have "mapR hashed created = Inr created'"
    using cr assms(3) by (cases "created = []") (auto simp: rows_or_def dget_def dget_or_def py_or_def)
  moreover have "hashed v = Inr w \<Longrightarrow> w = v" for v w by (auto simp: hashed_def split: pyval.splits)
  ultimately have created': "created' = created"
  proof -
    assume m: "mapR hashed created = Inr created'" and h: "\<And>v w. hashed v = Inr w \<Longrightarrow> w = v"
    show "created' = created"
      by (rule nth_equalityI) (use mapR_length [OF m] mapR_nth [OF m] h in auto)
  qed
  have rows: "\<exists>l l'. ls ! i = PDict l \<and> ls' ! i = PDict l' \<and> forget_receipt created l = Inr l'" if "i < length ls" for i
    using mapR_nth [OF lsm [unfolded map_rows_def] that] by (auto simp: rbind_eq_Inr rmap_eq_Inr as_dict_Inr created')
  have one: "\<not> list_ex (py_eq (dget l' ''entity_id'')) (filter (\<lambda>c. c \<noteq> PNone) created)
              \<and> dget l' ''quantity_received'' \<in> {PNone, PInt 0}
              \<and> (\<forall>k. k \<noteq> ''entity_id'' \<and> k \<noteq> ''quantity_received'' \<longrightarrow> map_of l' k = map_of l k)"
    if "forget_receipt created l = Inr l'" for l l'
  proof -
    from that obtain e where e: "hashed (dget l ''entity_id'') = Inr e" by (auto simp: forget_receipt_def rbind_eq_Inr)
    then have ee: "e = dget l ''entity_id''" by (auto simp: hashed_def split: pyval.splits)
    define l1 where "l1 = (if list_ex (py_eq e) created then ddel ''entity_id'' l else l)"
    have l': "l' = (if dhas l1 ''quantity_received'' then dput ''quantity_received'' (PInt 0) l1 else l1)"
      using that unfolding forget_receipt_def Let_def e rbind_Inr l1_def [symmetric] by (rule Inr_inject [symmetric])
    have "\<not> list_ex (py_eq (dget l1 ''entity_id'')) (filter (\<lambda>c. c \<noteq> PNone) created)"
      by (auto simp: l1_def ee list_ex_iff)
    moreover have "dget l' ''entity_id'' = dget l1 ''entity_id''" by (simp add: l')
    moreover have "dget l' ''quantity_received'' \<in> {PNone, PInt 0}" by (auto simp: l' dget_None)
    ultimately show ?thesis by (simp add: l' l1_def)
  qed
  have "map_of d' ''line_items'' = Some (PList ls')" using assms(2) by (simp add: d' put_rows_def)
  moreover have "length ls' = length ls" using mapR_length [OF lsm [unfolded map_rows_def]] .
  moreover have "\<forall>i<length ls. \<exists>l l'. ls ! i = PDict l \<and> ls' ! i = PDict l'
              \<and> \<not> list_ex (py_eq (dget l' ''entity_id'')) (filter (\<lambda>c. c \<noteq> PNone) created)
              \<and> dget l' ''quantity_received'' \<in> {PNone, PInt 0}
              \<and> (\<forall>k. k \<noteq> ''entity_id'' \<and> k \<noteq> ''quantity_received'' \<longrightarrow> map_of l' k = map_of l k)"
  proof (intro allI impI)
    fix i assume "i < length ls"
    from rows [OF this] obtain l l' where l: "ls ! i = PDict l" "ls' ! i = PDict l'" and f: "forget_receipt created l = Inr l'" by blast
    show "\<exists>l l'. ls ! i = PDict l \<and> ls' ! i = PDict l'
              \<and> \<not> list_ex (py_eq (dget l' ''entity_id'')) (filter (\<lambda>c. c \<noteq> PNone) created)
              \<and> dget l' ''quantity_received'' \<in> {PNone, PInt 0}
              \<and> (\<forall>k. k \<noteq> ''entity_id'' \<and> k \<noteq> ''quantity_received'' \<longrightarrow> map_of l' k = map_of l k)"
      by (rule exI [of _ l], rule exI [of _ l'], rule conjI [OF l(1)], rule conjI [OF l(2)], rule one [OF f])
  qed
  moreover have "map_of d' ''received_items'' = Some (PList [])" "map_of d' ''received_item_ids'' = Some (PList [])"
    "map_of d' ''returned_items'' = Some (PList [])" "map_of d' ''pre_receipt_status'' = None"
    by (simp_all add: d')
  ultimately show ?thesis by (intro conjI exI [of _ ls'])
qed


lemma receive_undone_clears_witness:
  "\<exists>d'. apply_documents_event
      [(''status'', PStr ''received''), (''line_items'', PList [PDict [(''sku'', PStr ''A''), (''entity_id'', PStr ''p1''), (''quantity_received'', PInt 3)]]),
       (''received_item_ids'', PList [PStr ''p1''])] ''doc.receive_undone'' [] = Inr d' \<and> map_of d' ''received_items'' = Some (PList [])"
proof -
  define d where "d = [(''status'', PStr ''received''), (''line_items'', PList [PDict [(''sku'', PStr ''A''), (''entity_id'', PStr ''p1''), (''quantity_received'', PInt 3)]]),
       (''received_item_ids'', PList [PStr ''p1''])]"
  have "is_ok (apply_documents_event d ''doc.receive_undone'' [])" unfolding d_def by code_simp
  then obtain d' where d': "apply_documents_event d ''doc.receive_undone'' [] = Inr d'"
    by (cases "apply_documents_event d ''doc.receive_undone'' []") auto
  from receive_undone_clears [OF this, of "[PDict [(''sku'', PStr ''A''), (''entity_id'', PStr ''p1''), (''quantity_received'', PInt 3)]]" "[PStr ''p1'']"]
  show ?thesis using d' by (auto simp: d_def)
qed

section \<open>Creation\<close>

text \<open>A document created as a draft or as void holds no payment, whatever the event says was
  paid, and a void one owes nothing if anything was said to be paid.\<close>

theorem unissued_created_unpaid:
  assumes "apply_documents_event d ''doc.created'' data = Inr d'"
    and "dget d' ''status'' = PStr s" "s \<in> set UNISSUED_STATUSES"
  shows "\<not> truthy (dget d' ''amount_paid'') \<and> \<not> truthy (dget d' ''payments'')"
proof -
  from assms(1) obtain tot un where
    u: "in_set (dget (dsetdefault ''files'' (PList []) (dsetdefault ''amount_outstanding'' (PFloat tot) (dsetdefault ''amount_paid'' (PFloat 0) (dsetdefault ''linked'' (PList []) (dsetdefault ''status'' (PStr ''draft'') (dmerge (dput ''entity_type'' (PStr ''doc'') d) data)))))) ''status'') UNISSUED_STATUSES = Inr un"
    and r: "(let c3 = dsetdefault ''files'' (PList []) (dsetdefault ''amount_outstanding'' (PFloat tot) (dsetdefault ''amount_paid'' (PFloat 0) (dsetdefault ''linked'' (PList []) (dsetdefault ''status'' (PStr ''draft'') (dmerge (dput ''entity_type'' (PStr ''doc'') d) data)))))
      in if un \<and> (truthy (dget c3 ''amount_paid'') \<or> truthy (dget c3 ''payments''))
         then let c4 = ddel ''payments'' (dput ''amount_paid'' (PFloat 0) c3) in
              rbind (payment_balances c4 (Fin 0 0)) (\<lambda>(_, outstanding).
                if str_is (dget c4 ''status'') ''void'' then Inr (dput ''amount_outstanding'' (PFloat 0) c4)
                else put_outstanding outstanding c4)
         else Inr c3) = Inr d'"
    unfolding apply_documents_event_def document_handlers_def doc_created_def Let_def by (auto elim!: rbindE)
  define c3 where "c3 = dsetdefault ''files'' (PList []) (dsetdefault ''amount_outstanding'' (PFloat tot) (dsetdefault ''amount_paid'' (PFloat 0) (dsetdefault ''linked'' (PList []) (dsetdefault ''status'' (PStr ''draft'') (dmerge (dput ''entity_type'' (PStr ''doc'') d) data)))))"
  note r = r [folded c3_def, unfolded Let_def] and u = u [folded c3_def]
  have st: "dget d' ''status'' = dget c3 ''status''"
    using r by (auto simp: put_outstanding_def rmap_eq_Inr split: if_splits prod.splits elim!: rbindE)
  with u assms(2,3) have un by simp
  show ?thesis
  proof (cases "truthy (dget c3 ''amount_paid'') \<or> truthy (dget c3 ''payments'')")
    case True
    with r \<open>un\<close> show ?thesis
      by (auto simp: put_outstanding_def rmap_eq_Inr split: if_splits prod.splits elim!: rbindE)
  next
    case False
    with r show ?thesis by auto
  qed
qed

lemma unissued_created_unpaid_witness:
  "\<exists>d'. apply_documents_event [] ''doc.created'' [(''status'', PStr ''void''), (''amount_paid'', PInt 9), (''payments'', PList [PInt 1])] = Inr d' \<and> \<not> truthy (dget d' ''amount_paid'')"
proof -
  have ok: "case apply_documents_event [] ''doc.created'' [(''status'', PStr ''void''), (''amount_paid'', PInt 9), (''payments'', PList [PInt 1])] of Inr d' \<Rightarrow> dget d' ''status'' = PStr ''void'' | _ \<Rightarrow> False"
    by code_simp
  then obtain d' where d': "apply_documents_event [] ''doc.created'' [(''status'', PStr ''void''), (''amount_paid'', PInt 9), (''payments'', PList [PInt 1])] = Inr d'" "dget d' ''status'' = PStr ''void''"
    by (auto split: sum.splits)
  from unissued_created_unpaid [OF this] d'(1) show ?thesis by (auto simp: UNISSUED_STATUSES_def)
qed

end
