(* ===== verification/ItemProj.thy ===== *)
theory ItemProj
  imports ItemCost
begin

text \<open>
  \<open>celerp_inventory/projections.py\<close>: the state of a lot as the fold of its events.  Every branch of
  \<open>_apply_item_event\<close> is a function from the state and the event's data to the new state,
  \<open>item_handlers\<close> is the dispatch, and \<open>apply_item_event\<close> adds what every event goes through
  before (\<open>landed_pools_from_units\<close>) and after (\<open>keep_on_books\<close>).
\<close>

section \<open>Creation and edits\<close>

text \<open>What a write of whole fields ends with.\<close>

definition settle_item :: "dict \<Rightarrow> dict res" where
  "settle_item current = rbind (rbind (migrate_sell_by current) sync_expiry) recompute_cost"

definition item_created :: "dict \<Rightarrow> dict \<Rightarrow> dict res" where
  "item_created state data =
     rbind (landed_pools_from_units (dmerge state data)) (\<lambda>c1.
     rbind (normalize_attributes c1) (\<lambda>c2.
     let c3 = dsetdefault ''inventory_type'' (PStr ''stocked'') (dsetdefault ''status'' (PStr DEFAULT_ITEM_STATUS) c2);
         c4 = (if \<not> truthy (dget c3 ''purchase_unit'') \<and> truthy (dget c3 ''sell_by'')
               then dsetdefault ''purchase_unit'' (dget c3 ''sell_by'') c3 else c3)
     in settle_item (dsetdefault ''purchase_conversion_factor'' (PInt 1) c4)))"

text \<open>\<open>(value or "")\<close> as stripped, case-folded text.\<close>

definition folded :: "pyval \<Rightarrow> string" where
  "folded v = py_lower (py_strip (py_str v))"

text \<open>A renamed stock keeping unit of an original lot stays findable under its old name.\<close>

definition keep_sku_alias :: "dict \<Rightarrow> pyval \<Rightarrow> dict res" where
  "keep_sku_alias current sku_change =
     (if truthy sku_change \<and> status_lower current \<noteq> ''merged''
         \<and> \<not> list_ex (\<lambda>k. truthy (dget current k)) [''catalog_item_id'', ''lot'', ''parent_item_id'', ''split_from'', ''transformed_from'']
      then let old_sku = stripped current ''sku'' in
           rbind (vget sku_change ''new'') (\<lambda>new.
           let new_sku = py_strip (py_str (py_or new (PStr []))) in
           if old_sku \<noteq> [] \<and> py_lower old_sku \<noteq> py_lower new_sku
           then rbind (rows_or current ''_catalog_sku_aliases'') (\<lambda>aliases.
                Inr (if List.member (map folded aliases) (py_lower old_sku) then current
                     else dput ''_catalog_sku_aliases'' (PList (aliases @ [PStr old_sku])) current))
           else Inr current)
      else Inr current)"

definition update_item_field :: "dict \<times> (string \<times> pyval) list \<Rightarrow> string \<times> pyval \<Rightarrow> (dict \<times> (string \<times> pyval) list) res" where
  "update_item_field st change =
     (let (current, costs) = st; field = fst change in
      rbind (vget (snd change) ''new'') (\<lambda>new_val.
      if field = ''pieces'' then rmap (\<lambda>c. (c, costs)) (set_attribute (\<lambda>v. v = PNone) ''pieces'' new_val current)
      else if field = ''cost_price'' \<or> field = ''cost_total'' then Inr (current, costs @ [(field, new_val)])
      else if is_core_item_key field
      then let c1 = (if blank new_val then ddel field current else dput field new_val current)
           in Inr (if field = ''status'' then stamp_status_doc c1 [] else c1, costs)
      else rmap (\<lambda>c. (c, costs)) (set_attribute blank field new_val current)))"

definition item_updated :: "dict \<Rightarrow> dict \<Rightarrow> dict res" where
  "item_updated state data =
     rbind (rbind (dkey data ''fields_changed'') as_dict) (\<lambda>changed.
     rbind (keep_sku_alias state (dget changed ''sku'')) (\<lambda>c1.
     rbind (foldR update_item_field (c1, []) changed) (\<lambda>(c2, costs).
     rbind (foldR (\<lambda>c (f, v). apply_goods_cost c f v (dget data GOODS_COST_UNKNOWN)) c2 costs) (\<lambda>c3.
     rbind (sync_expiry c3) recompute_cost))))"

text \<open>The price type is a name; a value of another kind names no field.\<close>

definition item_pricing_set :: "dict \<Rightarrow> dict \<Rightarrow> dict res" where
  "item_pricing_set state data =
     rbind (dkey data ''price_type'') (\<lambda>pt. rbind (dkey data ''new_price'') (\<lambda>price.
       case pt of
         PStr f \<Rightarrow> if f = ''cost_price'' \<or> f = ''cost_total'' then apply_goods_cost state f price (dget data GOODS_COST_UNKNOWN)
                   else Inr (dput f price state)
       | _ \<Rightarrow> Inl TypeError))"

definition item_patched :: "dict \<Rightarrow> dict \<Rightarrow> dict res" where
  "item_patched state data =
     (let c1 = dmerge state data;
          has_number = truthy (dget data ''status_doc_number''); has_id = truthy (dget data ''status_doc_id'');
          c2 = (if has_number \<noteq> has_id \<or> (dhas data ''status'' \<and> \<not> has_id) then stamp_status_doc c1 [] else c1)
      in rbind (normalize_attributes c2) settle_item)"

section \<open>Status and location\<close>

definition put_status :: "string \<Rightarrow> dict \<Rightarrow> dict" where
  "put_status s current = dput ''status'' (PStr s) current"

definition item_status_set :: "dict \<Rightarrow> dict \<Rightarrow> dict res" where
  "item_status_set state data = rmap (\<lambda>s. stamp_status_doc (dput ''status'' s state) data) (dkey data ''new_status'')"

definition item_transferred :: "dict \<Rightarrow> dict \<Rightarrow> dict res" where
  "item_transferred state data =
     rbind (dkey data ''to_location_id'') (\<lambda>l.
     let c1 = dput ''location_id'' l state in
     Inr (if dhas data ''updated_at'' then dput ''updated_at'' (dget data ''updated_at'') c1 else c1))"

definition item_retired :: "string \<Rightarrow> dict \<Rightarrow> dict \<Rightarrow> dict res" where
  "item_retired event_type state data =
     (let expired = (event_type = ''item.expired'')
      in Inr (stamp_status_doc (put_status (if expired then ''expired'' else ''archived'') (dput ''is_expired'' (PBool expired) state)) []))"

definition item_written_off :: "dict \<Rightarrow> dict \<Rightarrow> dict res" where
  "item_written_off state data =
     Inr (stamp_status_doc (put_status ''disposed'' state)
            [(''source_doc_id'', dget data ''source_list_id''), (''doc_number'', dget data ''doc_number'')])"

text \<open>\<open>if "consignment_flag" in data\<close>.\<close>

definition copy_consignment_flag :: "dict \<Rightarrow> dict \<Rightarrow> dict" where
  "copy_consignment_flag data current =
     (case map_of data ''consignment_flag'' of Some v \<Rightarrow> dput ''consignment_flag'' v current | None \<Rightarrow> current)"

definition item_returned_to_supplier :: "dict \<Rightarrow> dict \<Rightarrow> dict res" where
  "item_returned_to_supplier state data =
     Inr (copy_consignment_flag data
       (stamp_status_doc (put_status ''disposed'' state) [(''source_doc_id'', dget data ''source_doc_id'')]))"

definition item_supplier_return_undone :: "dict \<Rightarrow> dict \<Rightarrow> dict res" where
  "item_supplier_return_undone state data =
     rmap (\<lambda>s. stamp_status_doc (dput ''status'' s state) []) (dkey data ''restored_status'')"

section \<open>Quantity and cost\<close>

definition item_quantity_adjusted :: "dict \<Rightarrow> dict \<Rightarrow> dict res" where
  "item_quantity_adjusted state data =
     rbind (dkey data ''new_qty'') (\<lambda>q.
     rbind (set_quantity (copy_consignment_flag data state) q (dget data ''cost_base'') (dget data ''landed_costs'')) (\<lambda>c.
     Inr (set_unknown c data)))"

definition item_cost_adjusted :: "dict \<Rightarrow> dict \<Rightarrow> dict res" where
  "item_cost_adjusted state data =
     rbind (rbind (dkey data ''cost_total'') py_float) (\<lambda>x.
     rbind (recompute_cost (dput ''cost_base'' (PFloat x) state)) (\<lambda>c. Inr (set_unknown c data)))"

definition item_account_recorded :: "dict \<Rightarrow> dict \<Rightarrow> dict res" where
  "item_account_recorded state data = rmap (\<lambda>v. dput LOT_ACCOUNT_FIELD v state) (dkey data LOT_ACCOUNT_FIELD)"

definition item_consignor_recorded :: "dict \<Rightarrow> dict \<Rightarrow> dict res" where
  "item_consignor_recorded state data =
     rbind (dkey data CONSIGNOR_PAYABLE_FIELD) (\<lambda>a. rbind (dkey data CONSIGNOR_FIELD) (\<lambda>b.
       Inr (dput CONSIGNOR_FIELD b (dput CONSIGNOR_PAYABLE_FIELD a state))))"

definition item_consignment_bought :: "dict \<Rightarrow> dict \<Rightarrow> dict res" where
  "item_consignment_bought state data =
     (let c1 = dput ''consignment_flag'' PNone state in
      rbind (dkey data ''consignment_doc_id'') (\<lambda>doc.
      let c2 = (if py_eq (dget c1 ''status_doc_id'') doc then ddels [''status_doc_id'', ''status_doc_number''] c1 else c1) in
      rbind (dkey data LOT_ACCOUNT_FIELD) (\<lambda>acc.
      rbind (rbind (dkey data ''cost_total'') py_float) (\<lambda>x.
      recompute_cost (ddel GOODS_COST_UNKNOWN (dput ''cost_base'' (PFloat x) (dput LOT_ACCOUNT_FIELD acc c2)))))))"

definition item_unchanged :: "dict \<Rightarrow> dict \<Rightarrow> dict res" where
  "item_unchanged state data = Inr state"

text \<open>The pool of one bill and kind: \<open>f"{source_bill_id}::{kind}"\<close>.\<close>

definition put_landed :: "(dict \<Rightarrow> rat res) \<Rightarrow> dict \<Rightarrow> dict \<Rightarrow> dict res" where
  "put_landed amount state data =
     rbind (dict_or state ''landed_costs'') (\<lambda>pools.
     rbind (amount data) (\<lambda>x.
     rbind (dkey data ''source_bill_id'') (\<lambda>b. rbind (dkey data ''kind'') (\<lambda>k.
     rbind (set_landed_pools state (dput (py_str b @ ''::'' @ py_str k) (PFloat x) pools)) recompute_cost))))"

definition item_landed_allocated :: "dict \<Rightarrow> dict \<Rightarrow> dict res" where
  "item_landed_allocated state data = put_landed (\<lambda>d. fget d ''amount'') state data"

definition item_landed_applied :: "dict \<Rightarrow> dict \<Rightarrow> dict res" where
  "item_landed_applied state data =
     put_landed (\<lambda>d. rbind (fget d ''unit_amount'') (\<lambda>u. rmap (fmul u) (fget state ''quantity''))) state data"

definition item_consumed :: "dict \<Rightarrow> dict \<Rightarrow> dict res" where
  "item_consumed state data =
     rbind (fget state ''quantity'') (\<lambda>qty.
     rbind (rbind (dkey data ''quantity_consumed'') py_float) (\<lambda>used.
     set_quantity state (PFloat (max 0 (fsub qty used))) (dget data ''cost_base'') (dget data ''landed_costs'')))"

text \<open>\<open>float(current.get(k, 0))\<close>.\<close>

definition float_field :: "dict \<Rightarrow> string \<Rightarrow> rat res" where
  "float_field d k = py_float (dget_or d k (PInt 0))"

definition add_float :: "string \<Rightarrow> string \<Rightarrow> dict \<Rightarrow> dict \<Rightarrow> dict res" where
  "add_float k dk state data =
     rbind (float_field state k) (\<lambda>a. rbind (rbind (dkey data dk) py_float) (\<lambda>b. Inr (dput k (PFloat (fadd a b)) state)))"

definition item_produced :: "dict \<Rightarrow> dict \<Rightarrow> dict res" where
  "item_produced state data = add_float ''quantity'' ''quantity_produced'' state data"

definition item_reserved :: "dict \<Rightarrow> dict \<Rightarrow> dict res" where
  "item_reserved state data = add_float ''reserved_quantity'' ''quantity'' state data"

definition item_unreserved :: "dict \<Rightarrow> dict \<Rightarrow> dict res" where
  "item_unreserved state data =
     rbind (float_field state ''reserved_quantity'') (\<lambda>a. rbind (rbind (dkey data ''quantity'') py_float) (\<lambda>b.
       Inr (dput ''reserved_quantity'' (PFloat (max 0 (fsub a b))) state)))"

section \<open>Splits, merges, fulfilment\<close>

definition item_split :: "dict \<Rightarrow> dict \<Rightarrow> dict res" where
  "item_split state data =
     Inr (dput ''child_skus'' (dget_or data ''child_skus'' (PList [])) (dput ''children'' (dget_or data ''child_ids'' (PList [])) state))"

definition item_link :: "string \<Rightarrow> string \<Rightarrow> dict \<Rightarrow> dict \<Rightarrow> dict res" where
  "item_link k dk state data = Inr (dput k (dget data dk) state)"

definition item_source_deactivated :: "dict \<Rightarrow> dict \<Rightarrow> dict res" where
  "item_source_deactivated state data =
     rmap (\<lambda>q. dput ''merged_into'' (dget data ''merged_into'')
                 (stamp_status_doc (put_status ''merged'' (dput ''quantity'' (PFloat q) state)) []))
       (py_float (py_or (py_or (dget data ''original_qty'') (dget state ''quantity'')) (PInt 0)))"

definition item_unmerged :: "dict \<Rightarrow> dict \<Rightarrow> dict res" where
  "item_unmerged state data =
     rmap (\<lambda>s. ddel ''merged_into'' (stamp_status_doc (dput ''status'' s state) data)) (dkey data ''restored_status'')"

definition item_merge_undone :: "dict \<Rightarrow> dict \<Rightarrow> dict res" where
  "item_merge_undone state data =
     rmap (\<lambda>c. stamp_status_doc (put_status ''archived'' c) []) (set_quantity state (PFloat 0) PNone PNone)"

text \<open>A field replaced whole: a recipe, a workflow.\<close>

definition item_replace :: "string \<Rightarrow> dict \<Rightarrow> dict \<Rightarrow> dict res" where
  "item_replace k state data = rmap (\<lambda>v. dput k v state) (dkey data k)"

definition item_fulfilled :: "dict \<Rightarrow> dict \<Rightarrow> dict res" where
  "item_fulfilled state data =
     rbind (float_field data ''quantity_fulfilled'') (\<lambda>q.
     let c1 = put_status (if str_is (dget data ''doc_type'') ''memo'' then ''memo_out'' else ''sold'')
                (dput ''quantity_fulfilled'' (PFloat q) (dput ''quantity'' (PFloat q) state));
         c2 = dsetdefault ''fulfilled_for_docs'' (PList []) (stamp_status_doc c1 data)
     in rbind (dkey data ''source_doc_id'') (\<lambda>i. dappend ''fulfilled_for_docs'' i c2))"

text \<open>\<open>v in xs\<close> and \<open>xs.remove(v)\<close> on a stored list.\<close>

fun remove_first :: "pyval \<Rightarrow> pyval list \<Rightarrow> pyval list" where
  "remove_first v [] = []"
| "remove_first v (x # xs) = (if py_eq x v then xs else x # remove_first v xs)"

definition item_fulfillment_reversed :: "dict \<Rightarrow> dict \<Rightarrow> dict res" where
  "item_fulfillment_reversed state data =
     rbind (rbind (dkey data ''quantity_restored'') py_float) (\<lambda>q.
     let c1 = stamp_status_doc (put_status ''available'' (dput ''quantity'' (PFloat q) state)) [];
         doc_id = dget data ''source_doc_id''
     in if \<not> truthy doc_id then Inr c1
        else case dget_or c1 ''fulfilled_for_docs'' (PList []) of
               PList ds \<Rightarrow> Inr (if list_ex (py_eq doc_id) ds then dput ''fulfilled_for_docs'' (PList (remove_first doc_id ds)) c1 else c1)
             | _ \<Rightarrow> Inl TypeError)"

section \<open>Files\<close>

definition is_image_mime :: "pyval \<Rightarrow> bool res" where
  "is_image_mime m = (case m of PStr s \<Rightarrow> Inr (starts_with ''image/'' s) | _ \<Rightarrow> Inl AttributeError)"

text \<open>\<open>(state.get("files") or []) + (state.get("attachments") or [])\<close>.\<close>

definition list_or :: "dict \<Rightarrow> string \<Rightarrow> pyval list res" where
  "list_or d k = (case py_or (dget d k) (PList []) of PList xs \<Rightarrow> Inr xs | _ \<Rightarrow> Inl TypeError)"

definition thumbnail_file_id :: "dict \<Rightarrow> pyval res" where
  "thumbnail_file_id state =
     rbind (list_or state ''files'') (\<lambda>fs. rbind (list_or state ''attachments'') (\<lambda>as.
     rbind (filter_rows (\<lambda>f. Inr (starts_with ''image/'' (py_str (py_or (dget f ''mime'') (PStr []))))) (fs @ as)) (\<lambda>images.
     let preview = dget state ''preview_image_id''; ids = map (\<lambda>v. case v of PDict f \<Rightarrow> dget f ''id'' | _ \<Rightarrow> PNone) images in
     Inr (if truthy preview \<and> list_ex (py_eq preview) ids then preview
          else case ids of [] \<Rightarrow> PNone | i # _ \<Rightarrow> i))))"

definition ATTACHMENT_TYPE_TO_TAG :: "(string \<times> string) list" where
  "ATTACHMENT_TYPE_TO_TAG = [(''image'', ''product_images''), (''video'', ''product_images''),
     (''certificate'', ''certificates''), (''view_360'', ''view_360'')]"

text \<open>One attachment of the old format: the file it becomes, and whether the first image is found.\<close>

definition migrate_attachment :: "pyval \<Rightarrow> pyval list \<times> bool \<Rightarrow> pyval \<Rightarrow> (pyval list \<times> bool) res" where
  "migrate_attachment preview st v =
     (let (files, first_done) = st in
      rbind (as_dict v) (\<lambda>att.
      rbind (table_get ATTACHMENT_TYPE_TO_TAG (dget_or att ''type'' (PStr ''image''))) (\<lambda>t.
      let tag = (case t of Some x \<Rightarrow> x | None \<Rightarrow> ''product_images''); att_id = dget_or att ''id'' (PStr []) in
      rbind (if tag = ''product_images'' then is_image_mime (dget_or att ''mime'' (PStr [])) else Inr False) (\<lambda>image.
      let hero = image \<and> (if truthy preview then py_eq att_id preview else \<not> first_done);
          done = first_done \<or> (image \<and> \<not> truthy preview)
      in Inr (files @ [PDict [(''id'', att_id), (''filename'', dget_or att ''filename'' (PStr [])),
                (''mime'', dget_or att ''mime'' (PStr [])), (''size'', dget_or att ''size'' (PInt 0)),
                (''url'', dget_or att ''url'' (PStr [])), (''document_tag'', PStr tag),
                (''description'', py_or (dget att ''label'') PNone), (''uploaded_at'', PNone), (''is_hero'', PBool hero)]], done)))))"

definition maybe_migrate_attachments :: "dict \<Rightarrow> dict res" where
  "maybe_migrate_attachments current =
     (let old = py_or (dget current ''attachments'') (PList []) in
      if \<not> truthy old \<or> truthy (dget current ''files'') then Inr current
      else rbind (py_iter old) (\<lambda>atts.
           rbind (foldR (migrate_attachment (dget current ''preview_image_id'')) ([], False) atts) (\<lambda>(files, _).
           Inr (dput ''attachments'' (PList []) (dput ''files'' (PList files) current)))))"

text \<open>\<open>f[k] = v\<close> on a value that must be a dictionary.\<close>

definition put_in :: "string \<Rightarrow> pyval \<Rightarrow> pyval \<Rightarrow> pyval res" where
  "put_in k x v = (case v of PDict f \<Rightarrow> Inr (PDict (dput k x f)) | _ \<Rightarrow> Inl TypeError)"

definition file_entry :: "dict \<Rightarrow> dict res" where
  "file_entry data =
     rbind (dkey data ''file_id'') (\<lambda>i. rbind (dkey data ''filename'') (\<lambda>n. rbind (dkey data ''mime'') (\<lambda>m. rbind (dkey data ''size'') (\<lambda>s.
     let e = [(''id'', i), (''filename'', n), (''mime'', m), (''size'', s), (''url'', dget_or data ''url'' (PStr [])),
              (''document_tag'', dget data ''document_tag''), (''description'', dget data ''description''),
              (''uploaded_at'', dget data ''uploaded_at''),
              (''is_hero'', PBool (truthy (dget_or data ''is_hero'' (PBool False))))]
     in Inr (copy_if ''remote'' data e)))))"

definition item_file_attached :: "dict \<Rightarrow> dict \<Rightarrow> dict res" where
  "item_file_attached state data =
     rbind (maybe_migrate_attachments state) (\<lambda>c0.
     let c1 = dsetdefault ''files'' (PList []) c0 in
     rbind (file_entry data) (\<lambda>entry.
     rbind (if truthy (dget entry ''is_hero'')
            then rbind (rbind (rows c1 ''files'') (mapR (put_in ''is_hero'' (PBool False)))) (\<lambda>fs.
                 Inr (dput ''preview_image_id'' (dget entry ''id'') (put_rows ''files'' fs c1)))
            else Inr c1) (\<lambda>c2.
     rbind (rbind (rows c2 ''files'') (find_row (\<lambda>f. Inr (py_eq (dget f ''id'') (dget entry ''id''))) 0)) (\<lambda>hit.
       case hit of Some (i, f) \<Rightarrow> Inr (put_row ''files'' i (dmerge f entry) c2)
       | None \<Rightarrow> dappend ''files'' (PDict entry) c2))))"

text \<open>Every file of the event's id gets a field of the event.\<close>

definition set_files_field :: "string \<Rightarrow> dict \<Rightarrow> dict \<Rightarrow> dict res" where
  "set_files_field k state data =
     rbind (rbind (rows state ''files'') (map_rows (\<lambda>f.
       rbind (dkey data ''file_id'') (\<lambda>i.
       if py_eq (dget f ''id'') i then rmap (\<lambda>x. dput k x f) (dkey data k) else Inr f)))) (\<lambda>fs.
     Inr (put_rows ''files'' fs state))"

definition item_file_deleted :: "dict \<Rightarrow> dict \<Rightarrow> dict res" where
  "item_file_deleted state data =
     rbind (dkey data ''file_id'') (\<lambda>fid.
     rbind (rows state ''files'') (\<lambda>fs.
     rbind (find_row (\<lambda>f. Inr (truthy (dget f ''is_hero'') \<and> py_eq (dget f ''id'') fid)) 0 fs) (\<lambda>was_hero.
     rbind (filter_rows (\<lambda>f. Inr (\<not> py_eq (dget f ''id'') fid)) fs) (\<lambda>kept.
     let c1 = dput ''files'' (PList kept) state in
     if was_hero = None then Inr c1
     else rbind (filter_rows (\<lambda>f. is_image_mime (dget_or f ''mime'' (PStr []))) kept) (\<lambda>_.
          rbind (find_row (\<lambda>f. is_image_mime (dget_or f ''mime'' (PStr []))) 0 kept) (\<lambda>img.
            case img of None \<Rightarrow> Inr (dput ''preview_image_id'' PNone c1)
            | Some (i, f) \<Rightarrow> rmap (\<lambda>x. dput ''preview_image_id'' x (put_row ''files'' i (dput ''is_hero'' (PBool True) f) c1)) (dkey f ''id'')))))))"

definition item_file_hero_set :: "dict \<Rightarrow> dict \<Rightarrow> dict res" where
  "item_file_hero_set state data =
     rbind (dkey data ''file_id'') (\<lambda>fid.
     rbind (rbind (rows state ''files'') (map_rows (\<lambda>f. Inr (dput ''is_hero'' (PBool (py_eq (dget f ''id'') fid)) f)))) (\<lambda>fs.
     let c1 = put_rows ''files'' fs state in
     rbind (find_row (\<lambda>f. Inr (truthy (dget f ''is_hero''))) 0 fs) (\<lambda>hero.
       case hero of None \<Rightarrow> Inr (dput ''preview_image_id'' PNone c1)
       | Some (_, f) \<Rightarrow> rmap (\<lambda>x. dput ''preview_image_id'' x c1) (dkey f ''id''))))"

section \<open>Dispatch\<close>

definition item_handlers :: "(string \<times> (dict \<Rightarrow> dict \<Rightarrow> dict res)) list" where
  "item_handlers =
    [(''item.created'', item_created), (''item.snapshot'', item_created), (''item.updated'', item_updated),
     (''item.pricing.set'', item_pricing_set), (''item.status.set'', item_status_set), (''item.transferred'', item_transferred),
     (''item.quantity.adjusted'', item_quantity_adjusted), (''item.cost_adjusted'', item_cost_adjusted),
     (''item.inventory_account.recorded'', item_account_recorded), (''item.inventory_account.moved'', item_account_recorded),
     (''item.consignor_payable.recorded'', item_consignor_recorded), (''item.consignment.bought'', item_consignment_bought),
     (''item.inventory_on_books.recorded'', item_unchanged), (''item.landed_cost.allocated'', item_landed_allocated),
     (''item.landed_cost.applied'', item_landed_applied), (''item.expired'', item_retired ''item.expired''),
     (''item.disposed'', item_retired ''item.disposed''), (''item.written_off'', item_written_off),
     (''item.returned_to_supplier'', item_returned_to_supplier), (''item.supplier_return_undone'', item_supplier_return_undone),
     (''item.split'', item_split), (''item.split_from'', item_link ''split_from'' ''parent_id''),
     (''item.transform'', item_link ''transformed_into'' ''child_id''),
     (''item.transformed_from'', item_link ''transformed_from'' ''parent_id''), (''item.merged'', item_unchanged),
     (''item.source_deactivated'', item_source_deactivated), (''item.unmerged'', item_unmerged),
     (''item.merge_undone'', item_merge_undone), (''item.consumed'', item_consumed), (''item.produced'', item_produced),
     (''item.recipe.set'', item_replace ''recipe''), (''item.workflow.set'', item_replace ''workflow''),
     (''item.reserved'', item_reserved), (''item.unreserved'', item_unreserved), (''item.fulfilled'', item_fulfilled),
     (''item.fulfillment_reversed'', item_fulfillment_reversed), (''item.patched'', item_patched),
     (''item.file.attached'', item_file_attached), (''item.file.tagged'', set_files_field ''document_tag''),
     (''item.file.description_updated'', set_files_field ''description''), (''item.file.deleted'', item_file_deleted),
     (''item.file.hero_set'', item_file_hero_set)]"

definition apply_item_event0 :: "dict \<Rightarrow> string \<Rightarrow> dict \<Rightarrow> dict res" where
  "apply_item_event0 state event_type data =
     rbind (landed_pools_from_units state) (\<lambda>current.
       case map_of item_handlers event_type of None \<Rightarrow> Inl ValueError | Some h \<Rightarrow> h current data)"

definition apply_item_event :: "dict \<Rightarrow> string \<Rightarrow> dict \<Rightarrow> dict res" where
  "apply_item_event state event_type data =
     rmap (\<lambda>current. keep_on_books state current event_type data) (apply_item_event0 state event_type data)"

end
