(* ===== verification/Contracts.thy ===== *)
theory Contracts
  imports Prelude
begin

text \<open>
  The interfaces the components rely on, each with the facts a client proves from its laws.
  \<open>event_fold\<close> is a handler whose every event keeps an invariant: then so does every ledger.
  \<open>row_store\<close> is a table of rows that returns what was put last: then replaying a ledger into it
  is, row by row, folding each row's own events.  \<open>guarded_store\<close> adds the refusal of an event of
  another kind than the row's.
\<close>

section \<open>Handlers that keep an invariant\<close>

locale event_fold =
  fixes apply_event :: "'s \<Rightarrow> 'e \<Rightarrow> 'x + 's" and start :: 's and inv :: "'s \<Rightarrow> bool"
  assumes inv_start: "inv start"
    and inv_step: "inv s \<Longrightarrow> apply_event s e = Inr s' \<Longrightarrow> inv s'"
begin

lemma inv_run: "inv s \<Longrightarrow> foldR apply_event s es = Inr s' \<Longrightarrow> inv s'"
  by (erule foldR_invariant [rotated]) (auto intro: inv_step)

lemma inv_ledger: "foldR apply_event start es = Inr s \<Longrightarrow> inv s"
  by (rule inv_run [OF inv_start])

end

section \<open>Tables of rows\<close>

locale row_store =
  fixes get :: "'d \<Rightarrow> 'k \<Rightarrow> 'r option" and put :: "'k \<Rightarrow> 'r \<Rightarrow> 'd \<Rightarrow> 'd"
  assumes get_put: "get (put k r d) k' = (if k' = k then Some r else get d k')"
begin

lemma run_key:
  assumes "foldR (\<lambda>d e. rbind (row (get d (key e)) e) (\<lambda>r. Inr (put (key e) r d))) d es = Inr d'"
  shows "foldR (\<lambda>r e. rmap Some (row r e)) (get d k) (filter (\<lambda>e. key e = k) es) = Inr (get d' k)"
  using assms
proof (induction es arbitrary: d)
  case (Cons e es)
  from Cons.prems obtain r where r: "row (get d (key e)) e = Inr r"
    and rest: "foldR (\<lambda>d e. rbind (row (get d (key e)) e) (\<lambda>r. Inr (put (key e) r d))) (put (key e) r d) es = Inr d'"
    by (auto simp: rbind_eq_Inr)
  from Cons.IH [OF rest] r show ?case by (auto simp: get_put)
qed simp

lemma run_total:
  assumes "\<And>k. is_ok (foldR (\<lambda>r e. rmap Some (row r e)) (get d k) (filter (\<lambda>e. key e = k) es))"
  shows "\<exists>d'. foldR (\<lambda>d e. rbind (row (get d (key e)) e) (\<lambda>r. Inr (put (key e) r d))) d es = Inr d'"
  using assms
proof (induction es arbitrary: d)
  case (Cons e es)
  have "is_ok (row (get d (key e)) e)" using Cons.prems [of "key e"] by (cases "row (get d (key e)) e") auto
  then obtain r where r: "row (get d (key e)) e = Inr r" by (cases "row (get d (key e)) e") auto
  have "is_ok (foldR (\<lambda>r e. rmap Some (row r e)) (get (put (key e) r d) k) (filter (\<lambda>e. key e = k) es))" for k
    using Cons.prems [of k] r by (auto simp: get_put split: if_splits)
  from Cons.IH [OF this] r show ?case by simp
qed simp

lemma run_rows_equal:
  assumes "foldR (\<lambda>d e. rbind (row (get d (key e)) e) (\<lambda>r. Inr (put (key e) r d))) d es = Inr d'"
    and "\<And>k. get d0 k = get d k"
  shows "\<exists>d0'. foldR (\<lambda>d e. rbind (row (get d (key e)) e) (\<lambda>r. Inr (put (key e) r d))) d0 es = Inr d0' \<and> (\<forall>k. get d0' k = get d' k)"
proof -
  have "is_ok (foldR (\<lambda>r e. rmap Some (row r e)) (get d0 k) (filter (\<lambda>e. key e = k) es))" for k
    using run_key [OF assms(1), of k] assms(2) [of k] by simp
  from run_total [OF this] obtain d0' where d0': "foldR (\<lambda>d e. rbind (row (get d (key e)) e) (\<lambda>r. Inr (put (key e) r d))) d0 es = Inr d0'" by blast
  have "get d0' k = get d' k" for k
    using run_key [OF d0', of k] run_key [OF assms(1), of k] assms(2) [of k] by simp
  with d0' show ?thesis by blast
qed

end

text \<open>A store whose rows have a kind fixed by the event that made them.\<close>

locale guarded_store = row_store get put
  for get :: "'d \<Rightarrow> 'k \<Rightarrow> 'r option" and put :: "'k \<Rightarrow> 'r \<Rightarrow> 'd \<Rightarrow> 'd" +
  fixes kind :: "'r \<Rightarrow> 'c" and ekind :: "'e \<Rightarrow> 'c" and row :: "'r option \<Rightarrow> 'e \<Rightarrow> 'x + 'r"
  assumes kind_made: "row None e = Inr r \<Longrightarrow> kind r = ekind e"
    and kind_kept: "row (Some r0) e = Inr r \<Longrightarrow> kind r = kind r0"
begin

lemma kind_first:
  "foldR (\<lambda>r e. rmap Some (row r e)) None (e # es) = Inr (Some r) \<Longrightarrow> kind r = ekind e"
proof -
  assume "foldR (\<lambda>r e. rmap Some (row r e)) None (e # es) = Inr (Some r)"
  then obtain r0 where r0: "row None e = Inr r0" and rest: "foldR (\<lambda>r e. rmap Some (row r e)) (Some r0) es = Inr (Some r)"
    by (auto simp: rbind_eq_Inr rmap_eq_Inr)
  from rest have "\<exists>r'. Some r = Some r' \<and> kind r' = ekind e"
    by (rule foldR_invariant) (use kind_made [OF r0] kind_kept in \<open>auto simp: rmap_eq_Inr\<close>)
  then show ?thesis by simp
qed

end

end
