(* ===== verification/ItemFacts.thy ===== *)
theory ItemFacts
  imports ItemProj Contracts
begin

text \<open>
  What the item projection guarantees: a lot on the books is one that archive or expire
  retired, attributes live in one place, the cost of a lot is its goods cost plus its landed
  cost, files have unique ids, and a refused cost is a negative one.
\<close>

section \<open>Lots on the books\<close>

definition on_books_ok :: "dict \<Rightarrow> bool" where
  "on_books_ok s \<longleftrightarrow> (case map_of s ON_BOOKS_FIELD of None \<Rightarrow> True | Some v \<Rightarrow> v = PBool True \<and> List.member RETIRED (status_lower s))"

lemma ON_BOOKS_not_status: "ON_BOOKS_FIELD \<noteq> ''status''"
  by (simp add: ON_BOOKS_FIELD_def)

lemma status_keep [simp]: "status_or x (dput ON_BOOKS_FIELD v s) = status_or x s" "status_or x (ddel ON_BOOKS_FIELD s) = status_or x s"
  using ON_BOOKS_not_status by (auto simp: status_or_def)

lemma keep_on_books_ok: "on_books_ok before \<Longrightarrow> on_books_ok (keep_on_books before after et data)"
  by (auto simp: on_books_ok_def keep_on_books_def Let_def dget_def dget_or_def split: option.splits)

interpretation lots: event_fold "\<lambda>s (et, data). apply_item_event s et data" "[]" on_books_ok
  by unfold_locales (auto simp: on_books_ok_def [of "[]"] apply_item_event_def rmap_eq_Inr intro: keep_on_books_ok split: prod.splits)

definition item_ledger :: "(string \<times> dict) list \<Rightarrow> dict res" where
  "item_ledger events = foldR (\<lambda>s (et, data). apply_item_event s et data) [] events"

text \<open>C35: in every state the events of a lot can lead to, the on-books flag is there only as true
  and only on a lot that archive or expire retired: a lot that gave its stock up in another way
  never keeps holding value.\<close>

theorem on_books_only_retired:
  assumes "item_ledger events = Inr s"
  shows "(map_of s ON_BOOKS_FIELD = None \<or> map_of s ON_BOOKS_FIELD = Some (PBool True) \<and> List.member RETIRED (status_lower s))
    \<and> (in_stock s \<longrightarrow> \<not> List.member OFF_BOOKS (status_lower s)
         \<and> (List.member RETIRED (status_lower s) \<longrightarrow> map_of s ON_BOOKS_FIELD = Some (PBool True)))"
proof -
  have "on_books_ok s" using assms unfolding item_ledger_def by (rule lots.inv_ledger)
  then show ?thesis
    by (auto simp: on_books_ok_def in_stock_def dget_def dget_or_def split: option.splits)
qed

lemma on_books_only_retired_witness:
  "\<exists>s. item_ledger [(''item.created'', [(''sku'', PStr ''A''), (''quantity'', PInt 2)]),
      (''item.status.set'', [(''new_status'', PStr ''archived''), (ON_BOOKS_FIELD, PBool True)])] = Inr s
    \<and> (in_stock s \<longrightarrow> \<not> List.member OFF_BOOKS (status_lower s))"
proof -
  define es where "es = [(''item.created'', [(''sku'', PStr ''A''), (''quantity'', PInt 2)]),
      (''item.status.set'', [(''new_status'', PStr ''archived''), (ON_BOOKS_FIELD, PBool True)])]"
  have "is_ok (item_ledger es)" unfolding es_def by code_simp
  then obtain s where s: "item_ledger es = Inr s" by (cases "item_ledger es") auto
  from on_books_only_retired [OF this] show ?thesis using s unfolding es_def by blast
qed

section \<open>Attributes\<close>

lemma move_attributes:
  assumes "distinct ks"
  shows "map_of (fst (foldl move_attribute (c, a) ks)) k = (if k \<in> set ks then None else map_of c k)"
    "map_of (snd (foldl move_attribute (c, a) ks)) k =
       (if k \<in> set ks then (if dget c k = PNone then None else Some (dget c k)) else map_of a k)"
    "set (map fst (fst (foldl move_attribute (c, a) ks))) \<subseteq> set (map fst c) - set ks"
proof -
  have "map_of (fst (foldl move_attribute (c, a) ks)) k = (if k \<in> set ks then None else map_of c k)
    \<and> map_of (snd (foldl move_attribute (c, a) ks)) k =
       (if k \<in> set ks then (if dget c k = PNone then None else Some (dget c k)) else map_of a k)
    \<and> set (map fst (fst (foldl move_attribute (c, a) ks))) \<subseteq> set (map fst c) - set ks"
    using assms
  proof (induction ks arbitrary: c a)
    case (Cons x ks)
    define a' where "a' = (if dget c x = PNone then ddel x a else dput x (dget c x) a)"
    have m: "move_attribute (c, a) x = (ddel x c, a')" by (simp add: move_attribute_def Let_def a'_def)
    have "set (map fst (ddel x c)) = set (map fst c) - {x}" by (simp add: delete_keys)
    moreover have "map_of a' k = (if k = x then (if dget c k = PNone then None else Some (dget c k)) else map_of a k)"
      by (simp add: a'_def)
    moreover have "distinct ks" "x \<notin> set ks" using Cons.prems by auto
    ultimately show ?case using Cons.IH [of "ddel x c" a'] by (auto simp: m split: if_splits)
  qed simp
  then show "map_of (fst (foldl move_attribute (c, a) ks)) k = (if k \<in> set ks then None else map_of c k)"
    "map_of (snd (foldl move_attribute (c, a) ks)) k =
       (if k \<in> set ks then (if dget c k = PNone then None else Some (dget c k)) else map_of a k)"
    "set (map fst (fst (foldl move_attribute (c, a) ks))) \<subseteq> set (map fst c) - set ks"
    by blast+
qed

lemma movable_not_in: "k \<in> set (movable_keys c) \<longleftrightarrow> map_of c k \<noteq> None \<and> k \<noteq> ''attributes'' \<and> \<not> is_core_item_key k"
  by (auto simp: movable_keys_def map_of_eq_None_iff)

text \<open>Normalising leaves the top level of an item with core keys only, moves every other
  value under the attributes (a value of None clears its attribute, any other wins over the one
  there), keeps the core keys, and changes nothing the second time.\<close>

theorem normalize_attributes_canonical:
  assumes "normalize_attributes c = Inr c'" "distinct (map fst c)"
  shows "normalize_attributes c' = Inr c'
    \<and> (\<forall>k. k \<noteq> ''attributes'' \<longrightarrow> map_of c' k = (if is_core_item_key k then map_of c k else None))
    \<and> (movable_keys c \<noteq> [] \<longrightarrow> (\<exists>a. map_of c' ''attributes'' = Some (PDict a)
         \<and> (\<forall>k. map_of a k =
              (if map_of c k \<noteq> None \<and> k \<noteq> ''attributes'' \<and> \<not> is_core_item_key k
               then (if dget c k = PNone then None else Some (dget c k))
               else (case py_or (dget c ''attributes'') (PDict []) of PDict e \<Rightarrow> map_of e k | _ \<Rightarrow> None)))))"
proof (cases "movable_keys c = []")
  case True
  then have "c' = c" using assms(1) by (simp add: normalize_attributes_def)
  moreover have "map_of c k = None" if "k \<noteq> ''attributes''" "\<not> is_core_item_key k" for k
    using movable_not_in [of k c] True that by auto
  ultimately show ?thesis using True by (auto simp: normalize_attributes_def)
next
  case False
  then obtain e where e: "py_or (dget c ''attributes'') (PDict []) = PDict e"
    and c': "c' = dput ''attributes'' (PDict (snd (foldl move_attribute (c, e) (movable_keys c)))) (fst (foldl move_attribute (c, e) (movable_keys c)))"
    using assms(1) by (auto simp: normalize_attributes_def Let_def rbind_eq_Inr dict_or_def split: pyval.splits prod.splits)
  have dm: "distinct (movable_keys c)" using assms(2) by (simp add: movable_keys_def)
  note mv = move_attributes [OF dm, of c e]
  have top: "map_of c' k = (if is_core_item_key k then map_of c k else None)" if "k \<noteq> ''attributes''" for k
    using that mv(1) [of k] movable_not_in [of k c] by (auto simp: c')
  have "movable_keys c' = []"
  proof (rule ccontr)
    assume "movable_keys c' \<noteq> []"
    then obtain k where "k \<in> set (movable_keys c')" by (cases "movable_keys c'") auto
    then show False using movable_not_in [of k c'] top [of k] by auto
  qed
  then have "normalize_attributes c' = Inr c'" by (simp add: normalize_attributes_def)
  moreover have "map_of c' ''attributes'' = Some (PDict (snd (foldl move_attribute (c, e) (movable_keys c))))" by (simp add: c')
  moreover have "map_of (snd (foldl move_attribute (c, e) (movable_keys c))) k =
              (if map_of c k \<noteq> None \<and> k \<noteq> ''attributes'' \<and> \<not> is_core_item_key k
               then (if dget c k = PNone then None else Some (dget c k))
               else (case py_or (dget c ''attributes'') (PDict []) of PDict e \<Rightarrow> map_of e k | _ \<Rightarrow> None))" for k
    using mv(2) [of k] movable_not_in [of k c] by (simp add: e)
  ultimately show ?thesis using top by blast
qed

lemma normalize_attributes_canonical_witness:
  "\<exists>c'. normalize_attributes [(''sku'', PStr ''A''), (''color'', PStr ''red''), (''pieces'', PInt 3)] = Inr c' \<and> map_of c' ''color'' = None"
proof -
  define c where "c = [(''sku'', PStr ''A''), (''color'', PStr ''red''), (''pieces'', PInt 3)]"
  have "is_ok (normalize_attributes c)" unfolding c_def by code_simp
  then obtain c' where c': "normalize_attributes c = Inr c'" by (cases "normalize_attributes c") auto
  have "\<not> is_core_item_key ''color''" by code_simp
  with normalize_attributes_canonical [OF c'] c' show ?thesis unfolding c_def by auto
qed

section \<open>Cost\<close>

lemma round_basis_PFloat: "round_basis (PFloat x) = Inr (round_float x 10)"
  by (cases "x = 0") (simp_all add: round_basis_def py_or_def BASIS_DP_def)

lemma derive_cost_Inr:
  assumes "derive_cost c = Inr c'" "dget c ''cost_base'' \<noteq> PNone"
  shows "derive_cost c' = Inr c' \<and> dget c' ''cost_base'' = dget c ''cost_base'' \<and> map_of c' ''cost_price'' = None
    \<and> (\<exists>base vs. fget c' ''cost_base'' = Inr base \<and> pool_values (py_or (dget c' ''landed_costs'') (PDict [])) = Inr vs
         \<and> dget c' ''cost_landed'' = PFloat (round_float (fsum vs) 10)
         \<and> dget c' ''cost_total'' = PFloat (round_float (fadd base (round_float (fsum vs) 10)) 10))"
proof -
  from assms(1) obtain base vs where b: "fget c ''cost_base'' = Inr base" and vs: "pool_values (py_or (dget c ''landed_costs'') (PDict [])) = Inr vs"
    and c': "c' = ddel ''cost_price'' (dput ''cost_total'' (PFloat (round_float (fadd base (round_float (fsum vs) 10)) 10))
                    (dput ''cost_landed'' (PFloat (round_float (fsum vs) 10)) c))"
    by (auto simp: derive_cost_def rbind_eq_Inr round_basis_PFloat)
  have f: "fget c' ''cost_base'' = Inr base" using b by (simp add: c' fget_def)
  have p: "pool_values (py_or (dget c' ''landed_costs'') (PDict [])) = Inr vs" using vs by (simp add: c')
  have "derive_cost c' = Inr (ddel ''cost_price'' (dput ''cost_total'' (PFloat (round_float (fadd base (round_float (fsum vs) 10)) 10))
                    (dput ''cost_landed'' (PFloat (round_float (fsum vs) 10)) c')))"
    by (simp add: derive_cost_def f p round_basis_PFloat)
  also have "dput ''cost_landed'' (PFloat (round_float (fsum vs) 10)) c' = c'" by (rule update_triv) (simp add: c')
  also have "dput ''cost_total'' (PFloat (round_float (fadd base (round_float (fsum vs) 10)) 10)) c' = c'"
    by (rule update_triv) (simp add: c')
  also have "ddel ''cost_price'' c' = c'" by (simp add: c' delete_idem)
  finally have "derive_cost c' = Inr c'" .
  then show ?thesis using f p by (auto simp: c')
qed

text \<open>After \<open>_recompute_cost\<close> a lot with a goods basis costs its basis plus its landed pools,
  rounded to the precision of a basis, and holds no unit cost of its own; and recomputing again
  changes nothing.\<close>

theorem recompute_cost_total:
  assumes "recompute_cost c = Inr c'"
  shows "recompute_cost c' = Inr c'
    \<and> (c' = c \<and> dget c ''cost_base'' = PNone
       \<or> map_of c' ''cost_price'' = None
         \<and> (\<exists>base vs. fget c' ''cost_base'' = Inr base \<and> pool_values (py_or (dget c' ''landed_costs'') (PDict [])) = Inr vs
              \<and> dget c' ''cost_landed'' = PFloat (round_float (fsum vs) 10)
              \<and> dget c' ''cost_total'' = PFloat (round_float (fadd base (round_float (fsum vs) 10)) 10)))"
proof -
  obtain qty where qty: "fget c ''quantity'' = Inr qty" using assms by (auto simp: recompute_cost_def rbind_eq_Inr)
  define d0 where "d0 v = dput ''cost_base'' (PFloat v) c" for v
  have d0: "dget (d0 v) ''cost_base'' \<noteq> PNone" "fget (d0 v) ''quantity'' = Inr qty" for v
    using qty by (simp_all add: d0_def fget_def)
  note r = assms [unfolded recompute_cost_def Let_def qty rbind_Inr, folded d0_def]
  consider "c' = c" "dget c ''cost_base'' = PNone"
    | d where "derive_cost d = Inr c'" "dget d ''cost_base'' \<noteq> PNone" "fget d ''quantity'' = Inr qty"
  proof (cases "dget c ''cost_base'' = PNone")
    case False
    then show thesis using r qty that(2) by simp
  next
    case base: True
    show thesis
    proof (cases "dget c ''cost_total'' = PNone")
      case False
      with r base obtain b where "derive_cost (d0 b) = Inr c'" by (auto elim!: rbindE)
      then show thesis by (rule that(2) [OF _ d0])
    next
      case tot: True
      show thesis
      proof (cases "dget c ''cost_price'' = PNone")
        case False
        show thesis
        proof (cases "qty \<le> 0")
          case True
          then show thesis using r base tot False that(1) by simp
        next
          case pos: False
          with r base tot False obtain b where "derive_cost (d0 b) = Inr c'" by (auto elim!: rbindE)
          then show thesis by (rule that(2) [OF _ d0])
        qed
      next
        case price: True
        show thesis
        proof (cases "truthy (py_or (dget c ''landed_costs'') (PDict []))")
          case True
          then have "derive_cost (d0 0) = Inr c'" using r base tot price by simp
          then show thesis by (rule that(2) [OF _ d0])
        next
          case False
          then show thesis using r base tot price that(1) by simp
        qed
      qed
    qed
  qed
  then show ?thesis
  proof cases
    case 1
    then show ?thesis using assms by auto
  next
    case 2
    note d = derive_cost_Inr [OF 2(1,2)]
    have "fget c' ''quantity'' = Inr qty"
      using 2(1,3) by (auto simp: derive_cost_def rbind_eq_Inr fget_def)
    then have "recompute_cost c' = Inr c'" using d 2(2) by (simp add: recompute_cost_def Let_def)
    then show ?thesis using d by blast
  qed
qed

lemma recompute_cost_total_witness:
  "\<exists>c'. recompute_cost [(''quantity'', PInt 4), (''cost_base'', PInt 12)] = Inr c' \<and> recompute_cost c' = Inr c'"
proof -
  have f: "fl 4 = 4" "fl 12 = 12" "round_float 12 10 = 12" by code_simp+
  have "is_ok (recompute_cost [(''quantity'', PInt 4), (''cost_base'', PInt 12)])"
    by (simp add: recompute_cost_def derive_cost_def fget_def dget_def dget_or_def py_or_def pool_values_def round_basis_PFloat f)
  then obtain c' where c': "recompute_cost [(''quantity'', PInt 4), (''cost_base'', PInt 12)] = Inr c'"
    by (cases "recompute_cost [(''quantity'', PInt 4), (''cost_base'', PInt 12)]") auto
  from recompute_cost_total [OF c'] c' show ?thesis by blast
qed

section \<open>Status and document\<close>

definition paired :: "dict \<Rightarrow> bool" where
  "paired s \<longleftrightarrow> (map_of s ''status_doc_id'' = None \<longleftrightarrow> map_of s ''status_doc_number'' = None)
     \<and> (map_of s ''status_line_entity_id'' \<noteq> None \<longrightarrow> dget s ''status'' = PStr ''reserved'' \<and> map_of s ''status_doc_id'' \<noteq> None)"

lemma stamp_paired: "paired (stamp_status_doc c data)"
  by (auto simp: paired_def stamp_status_doc_def Let_def str_is_def)

lemma paired_put: "k \<notin> {''status'', ''status_doc_id'', ''status_doc_number'', ''status_line_entity_id''} \<Longrightarrow>
    paired (dput k v s) = paired s \<and> paired (ddel k s) = paired s \<and> paired (dsetdefault k v s) = paired s"
  by (auto simp: paired_def)

lemma keep_on_books_paired: "paired (keep_on_books b a et data) = paired a"
  by (simp add: keep_on_books_def Let_def paired_put ON_BOOKS_FIELD_def)

definition STATUS_EVENTS :: "string list" where
  "STATUS_EVENTS = [''item.status.set'', ''item.expired'', ''item.disposed'', ''item.written_off'', ''item.returned_to_supplier'',
     ''item.supplier_return_undone'', ''item.source_deactivated'', ''item.unmerged'', ''item.merge_undone'', ''item.fulfilled'',
     ''item.fulfillment_reversed'']"

lemma paired_handlers:
  "item_status_set s data = Inr c \<Longrightarrow> paired c" "item_retired et s data = Inr c \<Longrightarrow> paired c"
  "item_written_off s data = Inr c \<Longrightarrow> paired c" "item_returned_to_supplier s data = Inr c \<Longrightarrow> paired c"
  "item_supplier_return_undone s data = Inr c \<Longrightarrow> paired c" "item_source_deactivated s data = Inr c \<Longrightarrow> paired c"
  "item_unmerged s data = Inr c \<Longrightarrow> paired c" "item_merge_undone s data = Inr c \<Longrightarrow> paired c"
  by (auto simp: item_status_set_def item_retired_def item_written_off_def item_returned_to_supplier_def
        copy_consignment_flag_def item_supplier_return_undone_def item_source_deactivated_def item_unmerged_def
        item_merge_undone_def rmap_eq_Inr Let_def paired_put stamp_paired split: option.splits)

lemma paired_fulfilled: "item_fulfilled s data = Inr c \<Longrightarrow> paired c"
  by (auto simp: item_fulfilled_def rbind_eq_Inr Let_def dappend_Inr paired_put stamp_paired)

lemma case_PList_Inr:
  "(case v of PList ds \<Rightarrow> f ds | _ \<Rightarrow> Inl e) = Inr c \<longleftrightarrow> (\<exists>ds. v = PList ds \<and> f ds = Inr c)"
  by (cases v) auto

lemma paired_reversed: "item_fulfillment_reversed s data = Inr c \<Longrightarrow> paired c"
proof -
  assume "item_fulfillment_reversed s data = Inr c"
  then obtain c1 where c1: "paired c1" and r: "(if \<not> truthy (dget data ''source_doc_id'') then Inr c1
        else case dget_or c1 ''fulfilled_for_docs'' (PList []) of
               PList ds \<Rightarrow> Inr (if list_ex (py_eq (dget data ''source_doc_id'')) ds
                 then dput ''fulfilled_for_docs'' (PList (remove_first (dget data ''source_doc_id'') ds)) c1 else c1)
             | _ \<Rightarrow> Inl TypeError) = Inr c"
    unfolding item_fulfillment_reversed_def Let_def by (elim rbindE) (use stamp_paired in blast)
  show "paired c"
    using r c1 by (auto simp: case_PList_Inr paired_put split: if_splits)
qed

lemma status_handlers:
  "map_of item_handlers ''item.status.set'' = Some item_status_set"
  "map_of item_handlers ''item.expired'' = Some (item_retired ''item.expired'')"
  "map_of item_handlers ''item.disposed'' = Some (item_retired ''item.disposed'')"
  "map_of item_handlers ''item.written_off'' = Some item_written_off"
  "map_of item_handlers ''item.returned_to_supplier'' = Some item_returned_to_supplier"
  "map_of item_handlers ''item.supplier_return_undone'' = Some item_supplier_return_undone"
  "map_of item_handlers ''item.source_deactivated'' = Some item_source_deactivated"
  "map_of item_handlers ''item.unmerged'' = Some item_unmerged"
  "map_of item_handlers ''item.merge_undone'' = Some item_merge_undone"
  "map_of item_handlers ''item.fulfilled'' = Some item_fulfilled"
  "map_of item_handlers ''item.fulfillment_reversed'' = Some item_fulfillment_reversed"
  by (simp_all add: item_handlers_def)

text \<open>After every event that moves a lot's status, the document it is paired with is named by
  id and number together or not at all, and a line holds the lot only while it is reserved to
  that document.\<close>

theorem status_events_pair:
  assumes "apply_item_event s et data = Inr s'" "et \<in> set STATUS_EVENTS"
  shows "paired s'"
proof -
  from assms(1) obtain s1 c where c: "(case map_of item_handlers et of None \<Rightarrow> Inl ValueError | Some h \<Rightarrow> h s1 data) = Inr c"
    and s': "s' = keep_on_books s c et data"
    by (auto simp: apply_item_event_def apply_item_event0_def rmap_eq_Inr rbind_eq_Inr)
  have "paired c"
    using assms(2) c unfolding STATUS_EVENTS_def list.set
    by (elim insertE emptyE; auto simp: status_handlers dest: paired_handlers paired_fulfilled paired_reversed)
  then show ?thesis by (simp add: s' keep_on_books_paired)
qed

lemma status_events_pair_witness:
  "\<exists>s'. apply_item_event [(''status'', PStr ''available'')] ''item.status.set''
     [(''new_status'', PStr ''reserved''), (''source_doc_id'', PStr ''d1''), (''doc_number'', PStr ''INV-1''), (''source_line_entity_id'', PStr ''l1'')] = Inr s' \<and> paired s'"
proof -
  define data where "data = [(''new_status'', PStr ''reserved''), (''source_doc_id'', PStr ''d1''), (''doc_number'', PStr ''INV-1''), (''source_line_entity_id'', PStr ''l1'')]"
  have "is_ok (apply_item_event [(''status'', PStr ''available'')] ''item.status.set'' data)" unfolding data_def by code_simp
  then obtain s' where s': "apply_item_event [(''status'', PStr ''available'')] ''item.status.set'' data = Inr s'"
    by (cases "apply_item_event [(''status'', PStr ''available'')] ''item.status.set'' data") auto
  then have "paired s'" by (rule status_events_pair) (simp add: STATUS_EVENTS_def)
  with s' show ?thesis unfolding data_def by blast
qed

section \<open>Files\<close>

definition file_ids :: "dict \<Rightarrow> pyval list" where
  "file_ids c = (case dget c ''files'' of PList fs \<Rightarrow> map (\<lambda>v. case v of PDict f \<Rightarrow> canon (dget f ''id'') | _ \<Rightarrow> PNone) fs | _ \<Rightarrow> [])"

lemma find_row_None:
  "find_row p k vs = Inr None \<Longrightarrow> v \<in> set vs \<Longrightarrow> \<exists>r. v = PDict r \<and> p r = Inr False"
proof (induction vs arbitrary: k)
  case (Cons w vs)
  from Cons.prems(1) obtain r0 b where w: "w = PDict r0" "p r0 = Inr b" "\<not> b" "find_row p (Suc k) vs = Inr None"
    by (auto simp: rbind_eq_Inr as_dict_Inr split: if_splits)
  then show ?case using Cons.IH [of "Suc k"] Cons.prems(2) by auto
qed simp

lemma dget_dmerge_first: "distinct (map fst e) \<Longrightarrow> map_of e k = Some v \<Longrightarrow> dget (dmerge d e) k = v"
  by (simp add: dget_def dget_or_def map_of_dmerge_distinct)

lemma file_entry_Inr:
  assumes "file_entry data = Inr e"
  shows "distinct (map fst e)" "map_of e ''id'' = Some (dget data ''file_id'')"
proof -
  from assms obtain i n m s where e: "dkey data ''file_id'' = Inr i"
    "e = copy_if ''remote'' data [(''id'', i), (''filename'', n), (''mime'', m), (''size'', s), (''url'', dget_or data ''url'' (PStr [])),
              (''document_tag'', dget data ''document_tag''), (''description'', dget data ''description''),
              (''uploaded_at'', dget data ''uploaded_at''),
              (''is_hero'', PBool (truthy (dget_or data ''is_hero'' (PBool False))))]"
    by (auto simp: file_entry_def rbind_eq_Inr)
  then show "distinct (map fst e)" "map_of e ''id'' = Some (dget data ''file_id'')"
    by (auto simp: copy_if_def dkey_Inr dget_Some)
qed

text \<open>The list of files after attaching, whatever was done to the heroes before.\<close>

lemma put_file_unique:
  assumes "distinct (map (\<lambda>v. case v of PDict f \<Rightarrow> canon (dget f ''id'') | _ \<Rightarrow> PNone) fs)"
    and "find_row (\<lambda>f. Inr (py_eq (dget f ''id'') (dget entry ''id''))) 0 fs = Inr hit"
    and "distinct (map fst entry)" "map_of entry ''id'' = Some x"
  shows "distinct (map (\<lambda>v. case v of PDict f \<Rightarrow> canon (dget f ''id'') | _ \<Rightarrow> PNone)
    (case hit of Some (i, f) \<Rightarrow> fs[i := PDict (dmerge f entry)] | None \<Rightarrow> fs @ [PDict entry]))"
proof (cases hit)
  case None
  have "canon x \<notin> set (map (\<lambda>v. case v of PDict f \<Rightarrow> canon (dget f ''id'') | _ \<Rightarrow> PNone) fs)"
    using find_row_None [OF assms(2) [unfolded None]] assms(4) by (fastforce simp: py_eq_def dget_Some)
  then show ?thesis using assms(1,4) None by (simp add: dget_Some)
next
  case (Some p)
  obtain i f where p: "p = (i, f)" by (cases p)
  let ?g = "\<lambda>v. case v of PDict f \<Rightarrow> canon (dget f ''id'') | _ \<Rightarrow> PNone"
  have at: "i < length fs" "fs ! i = PDict f" "canon (dget f ''id'') = canon x"
    using find_row_0 [OF assms(2) [unfolded Some p]] assms(4) by (auto simp: py_eq_def dget_Some)
  have "map ?g (fs[i := PDict (dmerge f entry)]) = (map ?g fs)[i := canon x]"
    by (simp add: map_update dget_dmerge_first [OF assms(3,4)])
  also have "\<dots> = map ?g fs" using at by (intro list_update_same_conv [THEN iffD2]) auto
  finally show ?thesis using assms(1) by (simp add: Some p)
qed

lemma landed_pools_other:
  "landed_pools_from_units s = Inr s1 \<Longrightarrow> k \<notin> {''landed_contributions'', ''landed_costs''} \<Longrightarrow> map_of s1 k = map_of s k"
  by (auto simp: landed_pools_from_units_def Let_def put_pools_def rbind_eq_Inr split: if_splits)

lemma put_in_ids:
  assumes "mapR (put_in ''is_hero'' b) fs = Inr fs'"
  shows "map (\<lambda>v. case v of PDict f \<Rightarrow> canon (dget f ''id'') | _ \<Rightarrow> PNone) fs' = map (\<lambda>v. case v of PDict f \<Rightarrow> canon (dget f ''id'') | _ \<Rightarrow> PNone) fs"
proof (rule nth_equalityI)
  show "length (map (\<lambda>v. case v of PDict f \<Rightarrow> canon (dget f ''id'') | _ \<Rightarrow> PNone) fs') = length (map (\<lambda>v. case v of PDict f \<Rightarrow> canon (dget f ''id'') | _ \<Rightarrow> PNone) fs)"
    using mapR_length [OF assms] by simp
  fix i assume "i < length (map (\<lambda>v. case v of PDict f \<Rightarrow> canon (dget f ''id'') | _ \<Rightarrow> PNone) fs')"
  then have i: "i < length fs" "i < length fs'" using mapR_length [OF assms] by simp_all
  from mapR_nth [OF assms i(1)] show "map (\<lambda>v. case v of PDict f \<Rightarrow> canon (dget f ''id'') | _ \<Rightarrow> PNone) fs' ! i = map (\<lambda>v. case v of PDict f \<Rightarrow> canon (dget f ''id'') | _ \<Rightarrow> PNone) fs ! i"
    using i by (cases "fs ! i") (auto simp: put_in_def dest!: sym [of _ "fs' ! _"])
qed

lemma attach_unique:
  assumes "item_file_attached s data = Inr c" "distinct (file_ids s)" "\<not> truthy (dget s ''attachments'')"
  shows "distinct (file_ids c) \<and> canon (dget data ''file_id'') \<in> set (file_ids c)"
proof -
  let ?g = "\<lambda>v. case v of PDict f \<Rightarrow> canon (dget f ''id'') | _ \<Rightarrow> PNone"
  define c1 where "c1 = dsetdefault ''files'' (PList []) s"
  have "maybe_migrate_attachments s = Inr s"
    using assms(3) by (simp add: maybe_migrate_attachments_def py_or_def)
  with assms(1) obtain entry c2 hit where e: "file_entry data = Inr entry"
    and c2: "(if truthy (dget entry ''is_hero'')
            then rbind (rbind (rows c1 ''files'') (mapR (put_in ''is_hero'' (PBool False)))) (\<lambda>fs.
                 Inr (dput ''preview_image_id'' (dget entry ''id'') (put_rows ''files'' fs c1)))
            else Inr c1) = Inr c2"
    and hit: "rbind (rows c2 ''files'') (find_row (\<lambda>f. Inr (py_eq (dget f ''id'') (dget entry ''id''))) 0) = Inr hit"
    and c: "(case hit of Some (i, f) \<Rightarrow> Inr (put_row ''files'' i (dmerge f entry) c2) | None \<Rightarrow> dappend ''files'' (PDict entry) c2) = Inr c"
    unfolding item_file_attached_def Let_def c1_def by (auto elim!: rbindE)
  note fe = file_entry_Inr [OF e]
  have "\<exists>fs. map_of c2 ''files'' = Some (PList fs)"
  proof (cases hit)
    case None
    then show ?thesis using c by (auto simp: dappend_Inr)
  next
    case (Some p)
    then show ?thesis using hit by (cases p) (auto elim: rows_find)
  qed
  then obtain fs where fs: "map_of c2 ''files'' = Some (PList fs)" by blast
  have hit': "find_row (\<lambda>f. Inr (py_eq (dget f ''id'') (dget entry ''id''))) 0 fs = Inr hit"
    using hit fs by (simp add: rows_def dget_or_def)
  have "\<exists>fs1. map_of c1 ''files'' = Some (PList fs1) \<and> map ?g fs = map ?g fs1"
  proof (cases "truthy (dget entry ''is_hero'')")
    case True
    from c2 [unfolded if_P [OF True] rbind_assoc] obtain vs gs where vs: "rows c1 ''files'' = Inr vs" and gs: "mapR (put_in ''is_hero'' (PBool False)) vs = Inr gs"
      and c2': "c2 = dput ''preview_image_id'' (dget entry ''id'') (put_rows ''files'' gs c1)"
      by (auto elim!: rbindE)
    have p: "map_of (put_rows ''files'' gs c1) ''files'' = Some (PList fs)" using fs c2' by simp
    have "map_of c1 ''files'' = Some (PList vs) \<and> fs = gs"
    proof (cases "map_of c1 ''files''")
      case None
      then show ?thesis using p by (simp add: put_rows_def)
    next
      case (Some v)
      then show ?thesis using p vs by (cases v) (auto simp: put_rows_def rows_def dget_or_def)
    qed
    then show ?thesis using put_in_ids [OF gs] by auto
  next
    case False
    then show ?thesis using c2 fs by simp
  qed
  then have "distinct (map ?g fs)"
    using assms(2) by (auto simp: c1_def file_ids_def dget_None dget_Some split: if_splits)
  from put_file_unique [OF this hit' fe] have u: "distinct (map ?g (case hit of Some (i, f) \<Rightarrow> fs[i := PDict (dmerge f entry)] | None \<Rightarrow> fs @ [PDict entry]))" .
  have m: "map_of c ''files'' = Some (PList (case hit of Some (i, f) \<Rightarrow> fs[i := PDict (dmerge f entry)] | None \<Rightarrow> fs @ [PDict entry]))"
    using c fs by (auto simp: dappend_Inr put_row_PList split: option.splits prod.splits)
  have "canon (dget data ''file_id'') \<in> set (map ?g (case hit of Some (i, f) \<Rightarrow> fs[i := PDict (dmerge f entry)] | None \<Rightarrow> fs @ [PDict entry]))"
  proof (cases hit)
    case None
    then show ?thesis using fe(2) by (simp add: dget_Some)
  next
    case (Some p)
    obtain i f where p: "p = (i, f)" by (cases p)
    have "i < length fs" using find_row_0 [OF hit' [unfolded Some p]] by simp
    then have "PDict (dmerge f entry) \<in> set (fs[i := PDict (dmerge f entry)])" by (rule set_update_memI)
    then have "?g (PDict (dmerge f entry)) \<in> ?g ` set (fs[i := PDict (dmerge f entry)])" by (rule imageI)
    then show ?thesis by (simp only: Some p option.case prod.case set_map pyval.case dget_dmerge_first [OF fe])
  qed
  then show ?thesis using u m by (simp add: file_ids_def dget_Some)
qed

text \<open>Attaching a file never lists an id twice: attached again, the file is updated where it
  stands.\<close>

theorem file_ids_stay_unique:
  assumes "apply_item_event s ''item.file.attached'' data = Inr s'"
    and "distinct (file_ids s)" "\<not> truthy (dget s ''attachments'')"
  shows "distinct (file_ids s') \<and> canon (dget data ''file_id'') \<in> set (file_ids s')"
proof -
  from assms(1) obtain s1 c where s1: "landed_pools_from_units s = Inr s1" and c: "item_file_attached s1 data = Inr c"
    and s': "s' = keep_on_books s c ''item.file.attached'' data"
    by (auto simp: apply_item_event_def apply_item_event0_def rmap_eq_Inr rbind_eq_Inr item_handlers_def)
  have same: "dget s1 ''files'' = dget s ''files''" "dget s1 ''attachments'' = dget s ''attachments''"
    using landed_pools_other [OF s1] by (simp_all add: dget_def dget_or_def)
  then have "file_ids s1 = file_ids s" by (simp add: file_ids_def)
  moreover have "file_ids s' = file_ids c" by (simp add: s' file_ids_def keep_on_books_def Let_def ON_BOOKS_FIELD_def)
  ultimately show ?thesis using attach_unique [OF c] assms(2,3) same by simp
qed

lemma file_ids_stay_unique_witness:
  "\<exists>s'. apply_item_event [(''files'', PList [PDict [(''id'', PStr ''f'')]])] ''item.file.attached''
      [(''file_id'', PStr ''f''), (''filename'', PStr ''a.png''), (''mime'', PStr ''image/png''), (''size'', PInt 1)] = Inr s' \<and> distinct (file_ids s')"
proof -
  define s where "s = [(''files'', PList [PDict [(''id'', PStr ''f'')]])]"
  define data where "data = [(''file_id'', PStr ''f''), (''filename'', PStr ''a.png''), (''mime'', PStr ''image/png''), (''size'', PInt 1)]"
  have "is_ok (apply_item_event s ''item.file.attached'' data)" unfolding s_def data_def by code_simp
  then obtain s' where s': "apply_item_event s ''item.file.attached'' data = Inr s'"
    by (cases "apply_item_event s ''item.file.attached'' data") auto
  from file_ids_stay_unique [OF this] s' show ?thesis
    unfolding s_def data_def by (auto simp: file_ids_def dget_def dget_or_def)
qed

section \<open>Refused costs\<close>

text \<open>A cost is refused exactly when one of the values given reads as a number below zero; a
  blank or a value that is no number never hides a negative one after it.\<close>

theorem negative_cost_refused:
  assumes "\<forall>v\<in>set costs. \<forall>e. py_float v = Inl e \<longrightarrow> type_or_value e"
  shows "\<exists>r. negative_cost_error label costs = Inr r
    \<and> (r \<noteq> None \<longleftrightarrow> (\<exists>v\<in>set costs. \<not> blank v \<and> (\<exists>x. py_float v = Inr x \<and> x < 0)))"
  using assms
proof (induction costs)
  case (Cons v vs)
  then obtain r where r: "negative_cost_error label vs = Inr r"
    "r \<noteq> None \<longleftrightarrow> (\<exists>v\<in>set vs. \<not> blank v \<and> (\<exists>x. py_float v = Inr x \<and> x < 0))" by auto
  show ?case
  proof (cases "py_float v")
    case (Inl e)
    then show ?thesis using r Cons.prems by auto
  next
    case (Inr x)
    then show ?thesis using r by auto
  qed
qed simp

lemma negative_cost_refused_witness:
  "\<exists>r. negative_cost_error ''A'' [PNone, PStr ''abc'', PInt (- 5)] = Inr r \<and> r \<noteq> None"
proof -
  have e: "\<forall>v\<in>set [PNone, PStr ''abc'', PInt (- 5)]. \<forall>e. py_float v = Inl e \<longrightarrow> type_or_value e"
  proof -
    have "py_float (PStr ''abc'') = Inl ValueError" by code_simp
    then show ?thesis by (auto simp: type_or_value_def is_value_error_def)
  qed
  have "fl (- 5) < 0" by code_simp
  with negative_cost_refused [OF e, of "''A''"] show ?thesis by (auto simp: blank_def)
qed

end
