(* ===== verification/ContactFacts.thy ===== *)
theory ContactFacts
  imports ContactProj
begin

text \<open>
  Facts about contacts: after any address event every type that has addresses has a primary
  one, mirrored on the contact's own field, and no event but one that moves a primary address
  to another type without saying so makes a second primary.
\<close>

section \<open>Rows answering a test\<close>

definition dicts :: "pyval list \<Rightarrow> bool" where
  "dicts vs \<longleftrightarrow> (\<forall>v\<in>set vs. \<exists>a. v = PDict a)"

lemma dicts_simps [simp]: "dicts []" "dicts (v # vs) \<longleftrightarrow> (\<exists>a. v = PDict a) \<and> dicts vs"
  "dicts (vs @ ws) \<longleftrightarrow> dicts vs \<and> dicts ws"
  by (auto simp: dicts_def)

lemma dicts_update: "dicts vs \<Longrightarrow> dicts (vs[i := PDict a])"
  using set_update_subset_insert [of vs i "PDict a"] unfolding dicts_def by blast

lemma filter_rows_dicts: "filter_rows (\<lambda>a. Inr (q a)) vs = Inr ws \<Longrightarrow> dicts vs"
  by (induction vs arbitrary: ws) (auto simp: filter_rows_def rbind_eq_Inr as_dict_Inr)

lemma filter_rows_filter:
  "filter_rows (\<lambda>a. Inr (q a)) vs = Inr ws \<Longrightarrow> ws = filter (\<lambda>v. case v of PDict a \<Rightarrow> q a | _ \<Rightarrow> False) vs"
  by (induction vs arbitrary: ws) (auto simp: filter_rows_def rbind_eq_Inr as_dict_Inr split: if_splits)

lemma map_rows_map:
  "map_rows (\<lambda>a. Inr (f a)) vs = Inr ws \<Longrightarrow> ws = map (\<lambda>v. case v of PDict a \<Rightarrow> PDict (f a) | _ \<Rightarrow> v) vs \<and> dicts vs"
  by (induction vs arbitrary: ws) (auto simp: map_rows_def rbind_eq_Inr rmap_eq_Inr as_dict_Inr)

lemma find_row_total:
  "dicts vs \<Longrightarrow> \<exists>r. find_row (\<lambda>a. Inr (q a)) k vs = Inr r \<and> (r = None \<longleftrightarrow> (\<forall>a. PDict a \<in> set vs \<longrightarrow> \<not> q a))"
proof (induction vs arbitrary: k)
  case (Cons v vs)
  then obtain a where a: "v = PDict a" and d: "dicts vs" by auto
  from Cons.IH [OF d, of "Suc k"] a show ?case by (cases "q a") auto
qed simp

lemma find_row_same:
  "i < length vs \<Longrightarrow> vs ! i = PDict a \<Longrightarrow> \<not> q a \<Longrightarrow> \<not> q a'
   \<Longrightarrow> find_row (\<lambda>a. Inr (q a)) k (vs[i := PDict a']) = find_row (\<lambda>a. Inr (q a)) k vs"
proof (induction vs arbitrary: i k)
  case (Cons v vs)
  show ?case
  proof (cases i)
    case 0
    then show ?thesis using Cons.prems by simp
  next
    case (Suc j)
    have "find_row (\<lambda>a. Inr (q a)) (Suc k) (vs[j := PDict a']) = find_row (\<lambda>a. Inr (q a)) (Suc k) vs"
      by (rule Cons.IH) (use Cons.prems Suc in auto)
    then show ?thesis using Suc by (cases v) (auto simp: as_dict_def)
  qed
qed simp

lemma rows_or_Inr: "rows_or s k = Inr vs \<Longrightarrow> dicts vs \<Longrightarrow> vs \<noteq> [] \<Longrightarrow> map_of s k = Some (PList vs)"
  by (cases "map_of s k"; cases "dget s k"; cases vs) (auto simp: rows_or_def dget_def dget_or_def py_or_def split: if_splits)

section \<open>The primary address\<close>

definition address_rows :: "dict \<Rightarrow> pyval list" where
  "address_rows s = (case dget s ''addresses'' of PList ads \<Rightarrow> ads | _ \<Rightarrow> [])"

lemma address_rows_PList: "map_of s ''addresses'' = Some (PList ads) \<Longrightarrow> address_rows s = ads"
  by (simp add: address_rows_def dget_Some)

text \<open>The first primary address of a type, and its text on the contact's field.\<close>

definition mirrored :: "string \<Rightarrow> string \<Rightarrow> dict \<Rightarrow> bool" where
  "mirrored t f s \<longleftrightarrow> ((\<exists>a. PDict a \<in> set (address_rows s) \<and> of_type t a)
     \<longrightarrow> (\<exists>i a tx. find_row (\<lambda>a. Inr (primary_of t a)) 0 (address_rows s) = Inr (Some (i, a))
           \<and> compose_address a = Inr tx \<and> dget s f = PStr tx))"

definition marks :: "string \<Rightarrow> pyval list \<Rightarrow> bool list" where
  "marks t ads = map (\<lambda>v. case v of PDict a \<Rightarrow> primary_of t a | _ \<Rightarrow> False) ads"

definition primaries :: "string \<Rightarrow> pyval list \<Rightarrow> nat" where
  "primaries t ads = length (filter id (marks t ads))"

definition at_most_one :: "dict \<Rightarrow> bool" where
  "at_most_one s \<longleftrightarrow> (\<forall>t\<in>{''billing'', ''shipping''}. primaries t (address_rows s) \<le> 1)"

text \<open>What \<open>sync_primary\<close> leaves: nothing changed but the field and one promoted address.\<close>

lemma sync_primary_cases:
  assumes "sync_primary s (t, f) = Inr s'" "f \<noteq> ''addresses''"
  obtains (kept) i a tx where "find_row (\<lambda>a. Inr (primary_of t a)) 0 (address_rows s) = Inr (Some (i, a))"
      "compose_address a = Inr tx" "s' = dput f (PStr tx) s"
    | (promoted) i a tx where "i < length (address_rows s)" "address_rows s ! i = PDict a" "of_type t a" "dicts (address_rows s)"
      "\<forall>b. PDict b \<in> set (address_rows s) \<longrightarrow> \<not> primary_of t b"
      "compose_address (dput ''is_default'' (PBool True) a) = Inr tx"
      "address_rows s' = (address_rows s)[i := PDict (dput ''is_default'' (PBool True) a)]" "dget s' f = PStr tx"
      "\<forall>k. k \<noteq> f \<and> k \<noteq> ''addresses'' \<longrightarrow> dget s' k = dget s k"
    | (none) "\<forall>a. PDict a \<in> set (address_rows s) \<longrightarrow> \<not> of_type t a" "s' = s"
proof -
  from assms(1) obtain ads d ws where ads: "rows_or s ''addresses'' = Inr ads"
    and ws: "filter_rows (\<lambda>a. Inr (of_type t a)) ads = Inr ws"
    and d: "find_row (\<lambda>a. Inr (primary_of t a)) 0 ads = Inr d"
    and s': "(case d of Some (_, a) \<Rightarrow> rmap (\<lambda>s1. dput f (PStr s1) s) (compose_address a)
        | None \<Rightarrow> rbind (find_row (\<lambda>a. Inr (of_type t a)) 0 ads) (\<lambda>ff.
            case ff of None \<Rightarrow> Inr s
            | Some (i, a) \<Rightarrow> rmap (\<lambda>s1. dput f (PStr s1) (put_row ''addresses'' i (dput ''is_default'' (PBool True) a) s)) (compose_address (dput ''is_default'' (PBool True) a)))) = Inr s'"
    by (auto simp: sync_primary_def Let_def rbind_eq_Inr)
  have dicts: "dicts ads" using ws by (rule filter_rows_dicts)
  have rows: "address_rows s = ads"
  proof (cases "ads = []")
    case True
    then show ?thesis using ads by (cases "dget s ''addresses''") (auto simp: address_rows_def rows_or_def py_or_def split: if_splits)
  next
    case False
    show ?thesis by (rule address_rows_PList) (rule rows_or_Inr [OF ads dicts False])
  qed
  show thesis
  proof (cases d)
    case (Some p)
    obtain i a where p: "p = (i, a)" by (cases p)
    from s' Some p obtain tx where "compose_address a = Inr tx" "s' = dput f (PStr tx) s" by (auto simp: rmap_eq_Inr)
    then show thesis using d rows Some p by (auto intro: kept)
  next
    case None
    from s' [unfolded None] obtain ff where ff: "find_row (\<lambda>a. Inr (of_type t a)) 0 ads = Inr ff"
      and s'': "(case ff of None \<Rightarrow> Inr s
        | Some (i, a) \<Rightarrow> rmap (\<lambda>s1. dput f (PStr s1) (put_row ''addresses'' i (dput ''is_default'' (PBool True) a) s)) (compose_address (dput ''is_default'' (PBool True) a))) = Inr s'"
      by (auto simp: rbind_eq_Inr)
    have no: "\<forall>b. PDict b \<in> set ads \<longrightarrow> \<not> primary_of t b"
      using find_row_total [OF dicts, of "primary_of t" 0] d None by auto
    show thesis
    proof (cases ff)
      case None
      then show thesis using find_row_total [OF dicts, of "of_type t" 0] ff s'' rows by (auto intro: none)
    next
      case (Some p)
      obtain i a where p: "p = (i, a)" by (cases p)
      let ?a = "dput ''is_default'' (PBool True) a"
      from s'' Some p obtain tx where tx: "compose_address ?a = Inr tx" "s' = dput f (PStr tx) (put_row ''addresses'' i ?a s)"
        by (auto simp: rmap_eq_Inr)
      have at: "i < length ads" "ads ! i = PDict a" "of_type t a" using find_row_0 [OF ff [unfolded Some p]] by auto
      then have m: "map_of s ''addresses'' = Some (PList ads)" by (auto intro: rows_or_Inr [OF ads dicts])
      show thesis
        by (rule promoted [of i a tx]) (use at no tx m rows dicts assms(2) in \<open>auto simp: put_row_PList address_rows_def\<close>)
    qed
  qed
qed

lemma find_row_promoted:
  assumes "i < length vs" "vs ! i = PDict a" "of_type t a" "dicts vs" "\<forall>b. PDict b \<in> set vs \<longrightarrow> \<not> primary_of t b"
  shows "find_row (\<lambda>a. Inr (primary_of t a)) k (vs[i := PDict (dput ''is_default'' (PBool True) a)])
    = Inr (Some (i + k, dput ''is_default'' (PBool True) a))"
  using assms
proof (induction vs arbitrary: i k)
  case (Cons v vs)
  show ?case
  proof (cases i)
    case 0
    then show ?thesis using Cons.prems by (simp add: primary_of_def of_type_def)
  next
    case (Suc j)
    have "find_row (\<lambda>a. Inr (primary_of t a)) (Suc k) (vs[j := PDict (dput ''is_default'' (PBool True) a)])
        = Inr (Some (j + Suc k, dput ''is_default'' (PBool True) a))"
      by (rule Cons.IH) (use Cons.prems Suc in auto)
    then show ?thesis using Cons.prems Suc by auto
  qed
qed simp

lemma sync_primary_mirrors:
  assumes "sync_primary s (t, f) = Inr s'" "f \<noteq> ''addresses''"
  shows "mirrored t f s'"
  using assms
proof (cases rule: sync_primary_cases)
  case (kept i a tx)
  then show ?thesis using assms(2) by (auto simp: mirrored_def address_rows_def)
next
  case (promoted i a tx)
  from find_row_promoted [OF promoted(1,2,3,4,5), of 0] show ?thesis
    using promoted(6,7,8) unfolding mirrored_def by auto
next
  case none
  then show ?thesis by (auto simp: mirrored_def)
qed

text \<open>Another type keeps what it has.\<close>

lemma marks_update:
  "i < length vs \<Longrightarrow> vs ! i = PDict a \<Longrightarrow> primary_of t b = primary_of t a \<Longrightarrow> marks t (vs[i := PDict b]) = marks t vs"
  by (simp add: marks_def map_update list_update_same_conv)

lemma sync_primary_other:
  assumes "sync_primary s (t, f) = Inr s'" "f \<noteq> ''addresses''" "t' \<noteq> t"
  shows "primaries t' (address_rows s') = primaries t' (address_rows s)"
    and "f' \<noteq> f \<Longrightarrow> f' \<noteq> ''addresses'' \<Longrightarrow> mirrored t' f' s \<Longrightarrow> mirrored t' f' s'"
proof -
  have no: "of_type t a \<Longrightarrow> \<not> of_type t' a" for a using assms(3) by (auto simp: of_type_def str_is_def)
  show "primaries t' (address_rows s') = primaries t' (address_rows s)"
    using assms(1,2)
  proof (cases rule: sync_primary_cases)
    case (kept i a tx)
    then show ?thesis using assms(2) by (simp add: address_rows_def)
  next
    case (promoted i a tx)
    have "primary_of t' (dput ''is_default'' (PBool True) a) = primary_of t' a"
      using no [OF promoted(3)] by (simp add: primary_of_def of_type_def)
    with promoted(1,2) show ?thesis unfolding primaries_def promoted(7) by (simp add: marks_update)
  qed simp
  assume f': "f' \<noteq> f" "f' \<noteq> ''addresses''" "mirrored t' f' s"
  show "mirrored t' f' s'"
    using assms(1,2)
  proof (cases rule: sync_primary_cases)
    case (kept i a tx)
    then show ?thesis using assms(2) f' by (simp add: mirrored_def address_rows_def)
  next
    case (promoted i a tx)
    let ?b = "dput ''is_default'' (PBool True) a"
    have n: "\<not> primary_of t' a" "\<not> primary_of t' ?b" "\<not> of_type t' ?b"
      using no [OF promoted(3)] by (simp_all add: primary_of_def of_type_def)
    have r: "find_row (\<lambda>a. Inr (primary_of t' a)) 0 (address_rows s') = find_row (\<lambda>a. Inr (primary_of t' a)) 0 (address_rows s)"
      unfolding promoted(7) by (rule find_row_same [OF promoted(1,2) n(1,2)])
    have "\<exists>c. PDict c \<in> set (address_rows s) \<and> of_type t' c" if "\<exists>c. PDict c \<in> set (address_rows s') \<and> of_type t' c"
      using that n(3) set_update_subset_insert [of "address_rows s" i "PDict ?b"] unfolding promoted(7) by blast
    moreover have "dget s' f' = dget s f'" using promoted(9) f' by blast
    ultimately show ?thesis using f'(3) r unfolding mirrored_def by auto
  qed (use f' in simp)
qed

lemma sync_primary_one:
  assumes "sync_primary s (t, f) = Inr s'" "f \<noteq> ''addresses''" "primaries t (address_rows s) \<le> 1"
  shows "primaries t (address_rows s') \<le> 1"
  using assms(1,2)
proof (cases rule: sync_primary_cases)
  case (kept i a tx)
  then show ?thesis using assms by (simp add: address_rows_def)
next
  case (promoted i a tx)
  have none: "marks t (address_rows s) = replicate (length (address_rows s)) False"
    using promoted(4,5) by (auto simp: marks_def dicts_def list_eq_iff_nth_eq split: pyval.splits) (metis nth_mem)
  have "length (filter id (bs[i := b])) \<le> 1" if "filter id bs = []" for bs :: "bool list" and b
    using that by (induction bs arbitrary: i) (auto split: nat.splits if_splits)
  then have "length (filter id ((marks t (address_rows s))[i := True])) \<le> 1" unfolding none by simp
  then show ?thesis unfolding primaries_def promoted(7) marks_def map_update using promoted(3)
    by (simp add: primary_of_def of_type_def)
qed (use assms in simp)

lemma sync_all:
  assumes "sync_primary_address_fields s = Inr s'"
  shows "mirrored ''billing'' ''billing_address'' s' \<and> mirrored ''shipping'' ''shipping_address'' s'"
    and "at_most_one s \<Longrightarrow> at_most_one s'"
proof -
  from assms obtain s1 where s1: "sync_primary s (''billing'', ''billing_address'') = Inr s1"
    and s': "sync_primary s1 (''shipping'', ''shipping_address'') = Inr s'"
    by (auto simp: sync_primary_address_fields_def ADDRESS_TYPES_def rbind_eq_Inr)
  note o1 = sync_primary_other [OF s1, of "''shipping''"] and o2 = sync_primary_other [OF s', of "''billing''"]
  show "mirrored ''billing'' ''billing_address'' s' \<and> mirrored ''shipping'' ''shipping_address'' s'"
    using sync_primary_mirrors [OF s1] sync_primary_mirrors [OF s'] o2(2) by simp
  assume "at_most_one s"
  then show "at_most_one s'"
    using o1(1) o2(1) sync_primary_one [OF s1] sync_primary_one [OF s'] by (simp add: at_most_one_def)
qed

section \<open>Address events\<close>

definition ADDRESS_EVENTS :: "string list" where
  "ADDRESS_EVENTS = [''crm.contact.address_added'', ''crm.contact.address_updated'', ''crm.contact.address_removed'']"

lemma primaries_simps [simp]:
  "primaries t [] = 0" "primaries t (v # vs) = of_bool (case v of PDict a \<Rightarrow> primary_of t a | _ \<Rightarrow> False) + primaries t vs"
  "primaries t (vs @ ws) = primaries t vs + primaries t ws"
  by (simp_all add: primaries_def marks_def)

lemma primaries_filter: "primaries t (filter p vs) \<le> primaries t vs"
  by (induction vs) auto

lemma primaries_mono:
  assumes "length vs = length ws"
    and "\<And>i a. i < length ws \<Longrightarrow> ws ! i = PDict a \<Longrightarrow> primary_of t a \<Longrightarrow> \<exists>b. vs ! i = PDict b \<and> primary_of t b"
  shows "primaries t ws \<le> primaries t vs"
  using assms
proof (induction vs ws rule: list_induct2)
  case (Cons v vs w ws)
  have "primaries t ws \<le> primaries t vs"
    by (rule Cons.IH) (use Cons.prems [of "Suc _"] in auto)
  moreover have "(case w of PDict a \<Rightarrow> primary_of t a | _ \<Rightarrow> False) \<Longrightarrow> (case v of PDict a \<Rightarrow> primary_of t a | _ \<Rightarrow> False)"
    using Cons.prems [of 0] by (auto split: pyval.splits)
  ultimately show ?case by (auto simp: of_bool_def)
qed simp

lemma unmark_primary:
  "primary_of t (unmark ty a) \<Longrightarrow> primary_of t a \<and> ty \<noteq> PStr t"
  by (auto simp: unmark_def primary_of_def of_type_def str_is_def split: if_splits)

lemma primaries_unmark:
  assumes "ws = map (\<lambda>v. case v of PDict a \<Rightarrow> PDict (unmark ty a) | _ \<Rightarrow> v) vs"
  shows "primaries t ws \<le> primaries t vs" "ty = PStr t \<Longrightarrow> primaries t ws = 0"
proof -
  show "primaries t ws \<le> primaries t vs"
    by (rule primaries_mono) (use assms unmark_primary in \<open>fastforce split: pyval.splits\<close>)+
  show "primaries t ws = 0" if "ty = PStr t"
    unfolding assms using that by (induction vs) (auto split: pyval.splits dest: unmark_primary)
qed

lemma rows_PList: "map_of d k = Some (PList vs) \<Longrightarrow> rows d k = Inr vs"
  by (simp add: rows_def dget_or_def)

lemma address_added_one:
  assumes "address_added s data = Inr s'" "at_most_one s"
  shows "at_most_one s'"
proof -
  define c1 where "c1 = dsetdefault ''addresses'' (PList []) s"
  from assms(1) obtain c2 c3 where
    c2: "(if truthy (dget data ''is_default'')
             then rbind (rbind (rows c1 ''addresses'') (map_rows (\<lambda>a. Inr (unmark (dget_or data ''address_type'' (PStr ''billing'')) a)))) (\<lambda>xs.
                  Inr (put_rows ''addresses'' xs c1))
             else Inr c1) = Inr c2"
    and c3: "dappend ''addresses'' (PDict data) c2 = Inr c3" and s': "sync_primary_address_fields c3 = Inr s'"
    unfolding address_added_def Let_def c1_def [symmetric] by (auto elim!: rbindE)
  from c3 obtain xs where xs: "map_of c2 ''addresses'' = Some (PList xs)" "c3 = dput ''addresses'' (PList (xs @ [PDict data])) c2"
    by (auto simp: dappend_Inr)
  have one: "at_most_one c1" using assms(2)
    by (simp add: c1_def at_most_one_def address_rows_def dget_def dget_or_def)
  have "primaries t xs + of_bool (primary_of t data) \<le> 1" if t: "t \<in> {''billing'', ''shipping''}" for t
  proof (cases "truthy (dget data ''is_default'')")
    case False
    then have "map_of c1 ''addresses'' = Some (PList xs)" using c2 xs by simp
    then have "primaries t xs \<le> 1" using one t by (auto simp: at_most_one_def address_rows_PList)
    then show ?thesis using False by (simp add: primary_of_def)
  next
    case True
    let ?ty = "dget_or data ''address_type'' (PStr ''billing'')"
    from c2 True obtain vs ws where vs: "rows c1 ''addresses'' = Inr vs" and ws: "map_rows (\<lambda>a. Inr (unmark ?ty a)) vs = Inr ws"
      and c2': "c2 = put_rows ''addresses'' ws c1" by (auto simp: rbind_eq_Inr)
    have m: "map_of c1 ''addresses'' = Some (PList vs) \<and> xs = ws"
    proof (cases "map_of c1 ''addresses''")
      case (Some v)
      then show ?thesis using vs xs(1) c2' by (cases v) (auto simp: put_rows_def rows_def dget_or_def)
    qed (use xs(1) c2' in \<open>simp add: put_rows_def\<close>)
    have ws': "ws = map (\<lambda>v. case v of PDict a \<Rightarrow> PDict (unmark ?ty a) | _ \<Rightarrow> v) vs" using map_rows_map [OF ws] by simp
    have "primaries t vs \<le> 1" using one t m by (auto simp: at_most_one_def address_rows_PList)
    moreover have "?ty = PStr t" if "primary_of t data"
      using that by (auto simp: primary_of_def of_type_def str_is_def dget_def dget_or_def split: option.splits)
    ultimately show ?thesis using primaries_unmark [OF ws', of t] m by (auto simp: of_bool_def)
  qed
  then have "at_most_one c3" unfolding at_most_one_def xs(2) by (simp add: address_rows_def)
  then show ?thesis by (rule sync_all(2) [OF s'])
qed

lemma address_removed_one:
  assumes "address_removed s data = Inr s'" "at_most_one s"
  shows "at_most_one s'"
proof -
  from assms(1) obtain vs ws where vs: "rows s ''addresses'' = Inr vs"
    and ws: "filter_rows (\<lambda>x. Inr (\<not> py_eq (dget x ''address_id'') (dget data ''address_id''))) vs = Inr ws"
    and s': "sync_primary_address_fields (dput ''addresses'' (PList ws) s) = Inr s'"
    by (auto simp: address_removed_def remove_rows_def rbind_eq_Inr)
  have "primaries t vs \<le> 1" if "t \<in> {''billing'', ''shipping''}" for t
  proof (cases "vs = []")
    case False
    have "rows_or s ''addresses'' = Inr vs"
      using vs False by (cases "dget_or s ''addresses'' (PList [])"; cases "map_of s ''addresses''")
        (auto simp: rows_def rows_or_def dget_def dget_or_def py_or_def)
    then have "map_of s ''addresses'' = Some (PList vs)" using False filter_rows_dicts [OF ws] by (auto intro: rows_or_Inr)
    then show ?thesis using assms(2) that by (auto simp: at_most_one_def address_rows_PList)
  qed simp
  then have "at_most_one (dput ''addresses'' (PList ws) s)"
    using primaries_filter [of _ _ vs] unfolding filter_rows_filter [OF ws] at_most_one_def
    by (auto simp: address_rows_def intro: order_trans)
  then show ?thesis by (rule sync_all(2) [OF s'])
qed

lemma map_others_nth:
  assumes "map_others i f vs = Inr ws" "j < length vs" "j \<noteq> i"
  shows "\<exists>a. vs ! j = PDict a \<and> ws ! j = PDict (f a)"
proof -
  have "length (enumerate 0 vs) = length vs" "enumerate 0 vs ! j = (j, vs ! j)"
    using assms(2) by (simp_all add: nth_enumerate_eq)
  with mapR_nth [OF assms(1) [unfolded map_others_def], of j] assms(2,3) show ?thesis
    by (auto simp: rmap_eq_Inr as_dict_Inr)
qed

text \<open>A primary row of the merged type can only be the merged row when the event marks it.\<close>

lemma merge_address_get:
  "distinct (map fst data) \<Longrightarrow> dget (merge_address a data) k = (if dget data k = PNone then dget a k else dget data k)"
proof -
  assume d: "distinct (map fst data)"
  have "map_of (filter (\<lambda>(k, v). v \<noteq> PNone) data) k = (case map_of data k of Some v \<Rightarrow> if v = PNone then None else Some v | None \<Rightarrow> None)"
    using d by (induction data) (auto simp: map_of_eq_None_iff split: option.splits)
  moreover have "distinct (map fst (filter (\<lambda>(k, v). v \<noteq> PNone) data))" using d by (rule distinct_map_filter)
  ultimately show ?thesis
    by (auto simp: merge_address_def dget_def dget_or_def map_of_dmerge_distinct split: option.splits)
qed

lemma address_updated_one:
  assumes "address_updated s data = Inr s'" "at_most_one s" "distinct (map fst data)"
    and stated: "dget data ''is_default'' \<noteq> PNone \<or> dget data ''address_type'' = PNone"
  shows "at_most_one s'"
proof -
  from assms(1) obtain vs hit c2 where vs: "rows s ''addresses'' = Inr vs"
    and hit: "find_row (\<lambda>a. Inr (py_eq (dget a ''address_id'') (dget data ''address_id''))) 0 vs = Inr hit"
    and c2: "(case hit of None \<Rightarrow> Inr (dsetdefault ''addresses'' (PList []) s)
            | Some (i, a) \<Rightarrow> rbind (if truthy (dget data ''is_default'')
                        then map_others i (unmark (dget_or (merge_address a data) ''address_type'' (PStr ''billing''))) vs
                        else Inr vs) (\<lambda>xs.
                 Inr (put_rows ''addresses'' (xs[i := PDict (merge_address a data)]) (dsetdefault ''addresses'' (PList []) s)))) = Inr c2"
    and s': "sync_primary_address_fields c2 = Inr s'"
    unfolding address_updated_def Let_def by (auto elim!: rbindE)
  have "at_most_one c2"
  proof (cases hit)
    case None
    then show ?thesis using c2 assms(2) by (auto simp: at_most_one_def address_rows_def dget_def dget_or_def)
  next
    case (Some p)
    obtain i a where p: "p = (i, a)" by (cases p)
    let ?m = "merge_address a data"
    let ?ty = "dget_or ?m ''address_type'' (PStr ''billing'')"
    have at: "i < length vs" "vs ! i = PDict a" using find_row_0 [OF hit [unfolded Some p]] by auto
    have "rbind (rows s ''addresses'') (find_row (\<lambda>a. Inr (py_eq (dget a ''address_id'') (dget data ''address_id''))) 0) = Inr (Some (i, a))"
      using vs hit Some p by simp
    then obtain ps where "map_of s ''addresses'' = Some (PList ps)" by (rule rows_find)
    then have m: "map_of s ''addresses'' = Some (PList vs)" using vs by (simp add: rows_PList)
    from c2 Some p m obtain xs where xs: "(if truthy (dget data ''is_default'') then map_others i (unmark ?ty) vs else Inr vs) = Inr xs"
      and c2': "map_of c2 ''addresses'' = Some (PList (xs[i := PDict ?m]))"
      by (auto simp: rbind_eq_Inr put_rows_def)
    have g: "dget ?m k = (if dget data k = PNone then dget a k else dget data k)" for k
      by (rule merge_address_get [OF assms(3)])
    have len: "length xs = length vs"
      using xs by (auto simp: map_others_def dest: mapR_length split: if_splits)
    have "primaries t (xs[i := PDict ?m]) \<le> 1" if t: "t \<in> {''billing'', ''shipping''}" for t
    proof -
      have one: "primaries t vs \<le> 1" using assms(2) m t by (auto simp: at_most_one_def address_rows_PList)
      show ?thesis
      proof (cases "truthy (dget data ''is_default'') \<and> ?ty = PStr t")
        case True
        have others: "map_others i (unmark ?ty) vs = Inr xs" using xs True by simp
        have row: "j = i" if h: "j < length vs" "xs[i := PDict ?m] ! j = PDict b" "primary_of t b" for j b
        proof (rule ccontr)
          assume "j \<noteq> i"
          then obtain a0 where "xs ! j = PDict (unmark ?ty a0)" using map_others_nth [OF others h(1)] by blast
          then have "b = unmark ?ty a0" using h(2) \<open>j \<noteq> i\<close> by simp
          then show False using unmark_primary [of t ?ty a0] h(3) True by simp
        qed
        have "primaries t (xs[i := PDict ?m]) \<le> primaries t ((replicate (length vs) PNone)[i := PDict ?m])"
        proof (rule primaries_mono)
          fix j b assume h: "j < length (xs[i := PDict ?m])" "(xs[i := PDict ?m]) ! j = PDict b" "primary_of t b"
          then have "j = i" using row len by simp
          then show "\<exists>b. (replicate (length vs) PNone)[i := PDict ?m] ! j = PDict b \<and> primary_of t b" using h len at by auto
        qed (simp add: len)
        also have "\<dots> \<le> 1"
        proof -
          have "primaries t ((replicate n PNone)[j := PDict b]) \<le> 1" for n j b
          proof (induction n arbitrary: j)
            case (Suc n)
            have "primaries t (replicate n PNone) = 0" by (induction n) auto
            then show ?case using Suc by (cases j) auto
          qed simp
          then show ?thesis .
        qed
        finally show ?thesis .
      next
        case False
        have "primary_of t ?m \<Longrightarrow> primary_of t a"
          using False stated g [of "''is_default''"] g [of "''address_type''"]
          by (auto simp: primary_of_def of_type_def str_is_def dget_def dget_or_def split: if_splits option.splits)
        then have keep: "primary_of t ?m \<Longrightarrow> primary_of t a" .
        have "\<exists>b. vs ! j = PDict b \<and> primary_of t b"
          if h: "j < length (xs[i := PDict ?m])" "(xs[i := PDict ?m]) ! j = PDict c" "primary_of t c" for j c
        proof (cases "j = i")
          case True
          then show ?thesis using h at len keep by simp
        next
          case j: False
          then have xj: "xs ! j = PDict c" "j < length vs" using h len by simp_all
          show ?thesis
          proof (cases "truthy (dget data ''is_default'')")
            case True
            then obtain a0 where "vs ! j = PDict a0" "xs ! j = PDict (unmark ?ty a0)"
              using map_others_nth [of i "unmark ?ty" vs xs j] xs j xj(2) by auto
            then show ?thesis using unmark_primary [of t ?ty a0] xj(1) h(3) by simp
          next
            case False
            then show ?thesis using xs xj h(3) by simp
          qed
        qed
        then have "primaries t (xs[i := PDict ?m]) \<le> primaries t vs" using len by (intro primaries_mono) auto
        then show ?thesis using one by simp
      qed
    qed
    then show ?thesis unfolding at_most_one_def using c2' by (auto simp: address_rows_PList)
  qed
  then show ?thesis by (rule sync_all(2) [OF s'])
qed

lemma synced:
  "address_added s data = Inr s' \<Longrightarrow> \<exists>c. sync_primary_address_fields c = Inr s'"
  "address_updated s data = Inr s' \<Longrightarrow> \<exists>c. sync_primary_address_fields c = Inr s'"
  "address_removed s data = Inr s' \<Longrightarrow> \<exists>c. sync_primary_address_fields c = Inr s'"
  unfolding address_added_def address_updated_def address_removed_def Let_def rbind_eq_Inr by (elim exE conjE, rule exI, assumption)+

lemma address_handlers:
  "map_of contact_handlers ''crm.contact.address_added'' = Some address_added"
  "map_of contact_handlers ''crm.contact.address_updated'' = Some address_updated"
  "map_of contact_handlers ''crm.contact.address_removed'' = Some address_removed"
  by (simp_all add: contact_handlers_def)

text \<open>After an address event every type that has addresses has a primary one, mirrored on the
  contact's own field; and no type gets a second primary, unless the event moves an address to
  another type without saying whether it is the primary there.\<close>

theorem primary_address_kept:
  assumes "apply_contact_event s et data = Inr s'" "et \<in> set ADDRESS_EVENTS" "distinct (map fst data)"
  shows "mirrored ''billing'' ''billing_address'' s' \<and> mirrored ''shipping'' ''shipping_address'' s'
    \<and> (at_most_one s \<and> (et = ''crm.contact.address_updated'' \<longrightarrow>
          dget data ''is_default'' \<noteq> PNone \<or> dget data ''address_type'' = PNone) \<longrightarrow> at_most_one s')"
proof -
  from assms(1,2) have event: "et = ''crm.contact.address_added'' \<and> address_added s data = Inr s'
    \<or> et = ''crm.contact.address_updated'' \<and> address_updated s data = Inr s'
    \<or> et = ''crm.contact.address_removed'' \<and> address_removed s data = Inr s'"
    by (auto simp: ADDRESS_EVENTS_def apply_contact_event_def address_handlers)
  then have "\<exists>c. sync_primary_address_fields c = Inr s'"
    using synced by blast
  then have "mirrored ''billing'' ''billing_address'' s' \<and> mirrored ''shipping'' ''shipping_address'' s'"
    using sync_all(1) by blast
  moreover have "at_most_one s'" if "at_most_one s"
    "et = ''crm.contact.address_updated'' \<longrightarrow> dget data ''is_default'' \<noteq> PNone \<or> dget data ''address_type'' = PNone"
    using event that address_added_one address_updated_one address_removed_one assms(3) by blast
  ultimately show ?thesis by blast
qed

lemma primary_address_kept_witness:
  "\<exists>s'. apply_contact_event [(''addresses'', PList [PDict [(''address_id'', PStr ''a''), (''address_type'', PStr ''billing''), (''is_default'', PBool True)]])]
       ''crm.contact.address_added'' [(''address_id'', PStr ''b''), (''address_type'', PStr ''billing''), (''city'', PStr ''Oslo''), (''is_default'', PBool True)] = Inr s'
     \<and> mirrored ''billing'' ''billing_address'' s' \<and> at_most_one s'"
proof -
  define s where "s = [(''addresses'', PList [PDict [(''address_id'', PStr ''a''), (''address_type'', PStr ''billing''), (''is_default'', PBool True)]])]"
  define data where "data = [(''address_id'', PStr ''b''), (''address_type'', PStr ''billing''), (''city'', PStr ''Oslo''), (''is_default'', PBool True)]"
  have "is_ok (apply_contact_event s ''crm.contact.address_added'' data)" unfolding s_def data_def by code_simp
  then obtain s' where s': "apply_contact_event s ''crm.contact.address_added'' data = Inr s'"
    by (cases "apply_contact_event s ''crm.contact.address_added'' data") auto
  have "distinct (map fst data)" by (simp add: data_def)
  moreover have "at_most_one s" unfolding at_most_one_def s_def by (simp add: address_rows_def dget_def dget_or_def primary_of_def of_type_def str_is_def)
  ultimately show ?thesis
    using primary_address_kept [OF s'] s' unfolding s_def data_def by (auto simp: ADDRESS_EVENTS_def)
qed

text \<open>An address that is the primary of its type and is moved to another type, the event naming
  the type alone, stays marked: the other type then has two primaries, although one is
  promised.\<close>

lemma moved_primary_makes_two:
  "\<exists>s'. apply_contact_event
       [(''addresses'', PList [PDict [(''address_id'', PStr ''a''), (''address_type'', PStr ''billing''), (''is_default'', PBool True)],
                               PDict [(''address_id'', PStr ''b''), (''address_type'', PStr ''shipping''), (''is_default'', PBool True)]])]
       ''crm.contact.address_updated'' [(''address_id'', PStr ''a''), (''address_type'', PStr ''shipping'')] = Inr s'
     \<and> primaries ''shipping'' (address_rows s') = 2"
proof -
  define r where "r = apply_contact_event
       [(''addresses'', PList [PDict [(''address_id'', PStr ''a''), (''address_type'', PStr ''billing''), (''is_default'', PBool True)],
                               PDict [(''address_id'', PStr ''b''), (''address_type'', PStr ''shipping''), (''is_default'', PBool True)]])]
       ''crm.contact.address_updated'' [(''address_id'', PStr ''a''), (''address_type'', PStr ''shipping'')]"
  have "(case r of Inr s' \<Rightarrow> primaries ''shipping'' (address_rows s') = 2 | Inl _ \<Rightarrow> False)"
    unfolding r_def by code_simp
  then show ?thesis unfolding r_def [symmetric] by (auto split: sum.splits)
qed

end
