(* ===== verification/MfgFacts.thy ===== *)
theory MfgFacts
  imports MfgProj
begin

text \<open>
  Facts about manufacturing runs: reopening a completed run restores what it held before, and a
  new run starts with one line per component, nothing issued, and no accounting fact of its own.
\<close>

section \<open>Parts of a dictionary\<close>

lemma map_of_merge_part [simp]: "map_of (merge_part d keep) k = (if keep k then map_of d k else None)"
  by (induction d) (auto simp: merge_part_def)

lemma dget_merge_part [simp]: "dget (merge_part d keep) k = (if keep k then dget d k else PNone)"
  by (simp add: dget_def dget_or_def)

lemma picked_dict:
  "\<exists>p. picked (PDict b) = Inr p \<and> distinct (map fst p) \<and> (\<forall>k. map_of p k = (if k \<in> set CLOSED_FIELDS then map_of b k else None))"
proof -
  have "distinct (map fst (concat (map (\<lambda>k. case map_of b k of Some v \<Rightarrow> [(k, v)] | None \<Rightarrow> []) ks)))
      \<and> set (map fst (concat (map (\<lambda>k. case map_of b k of Some v \<Rightarrow> [(k, v)] | None \<Rightarrow> []) ks))) \<subseteq> set ks
      \<and> map_of (concat (map (\<lambda>k. case map_of b k of Some v \<Rightarrow> [(k, v)] | None \<Rightarrow> []) ks)) j = (if j \<in> set ks then map_of b j else None)"
    if "distinct ks" for ks j
    using that by (induction ks) (auto split: option.splits)
  from this [of CLOSED_FIELDS] show ?thesis unfolding picked_def by (simp add: CLOSED_FIELDS_def)
qed

lemma map_of_copy_not_none [simp]:
  "map_of (copy_not_none k dk data d) k' = (if k' = k \<and> dget data dk \<noteq> PNone then Some (dget data dk) else map_of d k')"
  by (auto simp: copy_not_none_def)

lemma map_of_set_production [simp]:
  "map_of (set_production st b d) k = (if k = ''status'' then Some (PStr st) else if k = ''is_in_production'' then Some (PBool b) else map_of d k)"
  by (simp add: set_production_def)

text \<open>Completion writes its closing and the fields it keeps there, nothing else.\<close>

lemma run_completed_Inr:
  assumes "run_completed s data = Inr s1" "dget data ''closing'' \<noteq> PNone"
  obtains cl b where "map_of s1 ''closing'' = Some (PDict (dput ''before'' (PDict b) cl))"
    "picked (PDict s) = Inr b" "\<And>k. k \<noteq> ''closing'' \<Longrightarrow> k \<notin> set CLOSED_FIELDS \<Longrightarrow> map_of s1 k = map_of s k"
proof -
  from assms obtain cl b c1 where b: "picked (PDict s) = Inr b"
    and c1: "c1 = dput ''closing'' (PDict (dput ''before'' (PDict b) cl)) s"
    and s1: "(case map_of data ''transferred'' of
       Some v \<Rightarrow> rbind (money_text v) (\<lambda>t. rbind (money_text (dget data ''wasted'')) (\<lambda>w.
                 Inr (dput ''wip_wasted'' w (dput ''wip_transferred'' t (copy_not_none ''labor_hours'' ''labor_hours'' data (copy_not_none ''waste'' ''waste'' data
                (copy_not_none ''actual_outputs'' ''actual_outputs'' data (set_production ''completed'' False c1))))))))
     | None \<Rightarrow> Inr (copy_not_none ''labor_hours'' ''labor_hours'' data (copy_not_none ''waste'' ''waste'' data
                (copy_not_none ''actual_outputs'' ''actual_outputs'' data (set_production ''completed'' False c1))))) = Inr s1"
    unfolding run_completed_def Let_def by (auto simp: rbind_eq_Inr rmap_eq_Inr)
  show thesis
    by (rule that [of b cl]) (use b c1 s1 in \<open>auto simp: rbind_eq_Inr CLOSED_FIELDS_def split: option.splits\<close>)
qed

text \<open>C36: reopening a run that was completed with its closing puts back every field as it was
  before the completion; only a closing the run held before is gone.\<close>

theorem reopen_restores:
  assumes "apply_manufacturing_event s ''mfg.order.completed'' data = Inr s1" "dget data ''closing'' \<noteq> PNone"
  shows "\<exists>s2. apply_manufacturing_event s1 ''mfg.order.reopened'' rdata = Inr s2
    \<and> (\<forall>k. map_of s2 k = (if k = ''closing'' then None else map_of s k))"
proof -
  have "run_completed s data = Inr s1" using assms(1) by (simp add: apply_manufacturing_event_def mfg_handlers_def)
  then obtain cl b where m: "map_of s1 ''closing'' = Some (PDict (dput ''before'' (PDict b) cl))"
    and b: "picked (PDict s) = Inr b" and other: "\<And>k. k \<noteq> ''closing'' \<Longrightarrow> k \<notin> set CLOSED_FIELDS \<Longrightarrow> map_of s1 k = map_of s k"
    using assms(2) by (rule run_completed_Inr) blast
  from picked_dict [of s] b have bk: "distinct (map fst b)" "\<And>k. map_of b k = (if k \<in> set CLOSED_FIELDS then map_of s k else None)"
    by auto
  have "py_or (PDict b) (PDict []) = PDict b" by (cases b) (simp_all add: py_or_def)
  moreover obtain p where p: "picked (PDict b) = Inr p" "distinct (map fst p)"
    "\<And>k. map_of p k = (if k \<in> set CLOSED_FIELDS then map_of b k else None)" using picked_dict [of b] by auto
  moreover have "truthy (PDict (dput ''before'' (PDict b) cl))" by (cases cl) auto
  ultimately have "reopened s1 = Inr (dmerge (merge_part s1 (\<lambda>k. k \<noteq> ''closing'' \<and> \<not> List.member CLOSED_FIELDS k)) p)"
    using m by (simp add: reopened_def dget_Some py_or_def)
  moreover have "map_of (dmerge (merge_part s1 (\<lambda>k. k \<noteq> ''closing'' \<and> \<not> List.member CLOSED_FIELDS k)) p) k
      = (if k = ''closing'' then None else map_of s k)" for k
    using p bk(2) other [of k] by (auto simp: map_of_dmerge_distinct CLOSED_FIELDS_def split: option.splits)
  ultimately show ?thesis by (simp add: apply_manufacturing_event_def mfg_handlers_def run_reopened_def)
qed

lemma reopen_restores_witness:
  "\<exists>s1 s2. apply_manufacturing_event [(''status'', PStr ''in_progress''), (''wip_issued'', PStr ''12.50'')] ''mfg.order.completed''
       [(''closing'', PDict []), (''waste'', PInt 2), (''transferred'', PStr ''12.50'')] = Inr s1
     \<and> map_of s1 ''status'' = Some (PStr ''completed'')
     \<and> apply_manufacturing_event s1 ''mfg.order.reopened'' [] = Inr s2 \<and> map_of s2 ''status'' = Some (PStr ''in_progress'') \<and> map_of s2 ''waste'' = None"
proof -
  define s where "s = [(''status'', PStr ''in_progress''), (''wip_issued'', PStr ''12.50'')]"
  define data where "data = [(''closing'', PDict []), (''waste'', PInt 2), (''transferred'', PStr ''12.50'')]"
  have "case apply_manufacturing_event s ''mfg.order.completed'' data of Inr s1 \<Rightarrow> dget s1 ''status'' = PStr ''completed'' | Inl _ \<Rightarrow> False"
    unfolding s_def data_def by code_simp
  then obtain s1 where s1: "apply_manufacturing_event s ''mfg.order.completed'' data = Inr s1" "dget s1 ''status'' = PStr ''completed''"
    by (auto split: sum.splits)
  have "dget data ''closing'' \<noteq> PNone" by (simp add: data_def dget_def dget_or_def)
  from reopen_restores [OF s1(1) this, of "[]"] s1 show ?thesis
    unfolding s_def data_def by (auto simp: dget_def dget_or_def split: option.splits)
qed

section \<open>A new run\<close>

lemma filterR_set: "filterR p xs = Inr ys \<Longrightarrow> set ys \<subseteq> set xs \<and> (\<forall>y\<in>set ys. p y = Inr True)"
  by (induction xs arbitrary: ys) (auto simp: rbind_eq_Inr split: if_splits)

definition merged_ok :: "dict vmap \<Rightarrow> bool" where
  "merged_ok m \<longleftrightarrow> distinct (map fst m) \<and> (\<forall>(k, d)\<in>set m. canon (dget d ''item_id'') = k)"

lemma set_update_alist: "set (AList.update k v m) \<subseteq> insert (k, v) (set m)"
  by (induction m) auto

lemma merged_ok_update:
  "merged_ok m \<Longrightarrow> canon (dget d ''item_id'') = k \<Longrightarrow> merged_ok (AList.update k d m)"
  using set_update_alist [of k d m] by (fastforce simp: merged_ok_def)

lemma merge_inputs_ok:
  assumes "foldR merge_input [] lines = Inr m"
  shows "merged_ok m"
  using assms
proof (rule foldR_invariant)
  show "merged_ok []" by (simp add: merged_ok_def)
  fix m line m' assume m: "merged_ok m" and step: "merge_input m line = Inr m'"
  then obtain i k where i: "dkey line ''item_id'' = Inr i" and k: "hkey i = Inr k" by (auto simp: merge_input_def rbind_eq_Inr)
  have ki: "canon (dget line ''item_id'') = k" using i k by (auto simp: hkey_def dkey_Inr dget_Some split: if_splits)
  show "merged_ok m'"
  proof (cases "map_of m k")
    case None
    then show ?thesis using step i k ki m by (auto simp: merge_input_def rmap_eq_Inr intro!: merged_ok_update)
  next
    case (Some d)
    then have "canon (dget d ''item_id'') = k" using m by (auto simp: merged_ok_def dest!: map_of_SomeD)
    then show ?thesis using Some step i k m by (auto simp: merge_input_def rbind_eq_Inr rmap_eq_Inr intro!: merged_ok_update)
  qed
qed

text \<open>No accounting fact of its own on a line.\<close>

definition unissued_line :: "dict \<Rightarrow> bool" where
  "unissued_line d \<longleftrightarrow> dget d ''issued_qty'' = PFloat 0 \<and> map_of d ''issued_value'' = None \<and> map_of d GOODS_COST_UNKNOWN = None"

lemma merge_input_shape:
  assumes "merge_input m line = Inr m'"
  shows "\<exists>j q d0. m' = AList.update j (dput ''quantity'' q d0) m \<and> (d0 = line \<or> d0 \<in> set (map snd m))"
proof -
  from assms obtain k where k: "rbind (dkey line ''item_id'') hkey = Inr k" by (auto simp: merge_input_def rbind_eq_Inr)
  show ?thesis
  proof (cases "map_of m k")
    case None
    then show ?thesis using assms k by (auto simp: merge_input_def rmap_eq_Inr)
  next
    case (Some d)
    then have "d \<in> set (map snd m)" by (force dest: map_of_SomeD)
    then show ?thesis using assms k Some by (auto simp: merge_input_def rbind_eq_Inr rmap_eq_Inr)
  qed
qed

lemma keys_dmerge: "set (map fst (dmerge d e)) = set (map fst d) \<union> set (map fst e)"
  by (induction e arbitrary: d) (auto simp: dmerge_def dom_map_of_conv_image_fst [symmetric] dom_update split: prod.splits)

lemma merge_input_keeps:
  assumes "foldR merge_input [] lines = Inr m" "\<forall>d\<in>set lines. map_of d k = None" "k \<noteq> ''quantity''"
  shows "\<forall>d\<in>set (map snd m). map_of d k = None"
  using assms(1)
proof (rule foldR_invariant [where P = "\<lambda>m. \<forall>d\<in>set (map snd m). map_of d k = None"])
  fix m line m' assume line: "line \<in> set lines" and m: "\<forall>d\<in>set (map snd m). map_of d k = None" and step: "merge_input m line = Inr m'"
  from merge_input_shape [OF step] obtain j q d0 where m': "m' = AList.update j (dput ''quantity'' q d0) m"
    and d0: "d0 = line \<or> d0 \<in> set (map snd m)" by blast
  have "map_of (dput ''quantity'' q d0) k = None" using d0 m line assms(2,3) by auto
  then show "\<forall>d\<in>set (map snd m'). map_of d k = None"
    using m set_update_alist [of j "dput ''quantity'' q d0" m] unfolding m' by fastforce
qed simp

text \<open>Whatever the data of its creation carries, a new run holds none of the accounting facts
  its movements record, every input line starts unissued, and the components that are used have
  one line each.\<close>

theorem new_run_unissued:
  assumes "apply_manufacturing_event [] ''mfg.order.created'' data = Inr s"
  shows "(\<forall>k\<in>set WIP_FACTS. map_of s k = None)
    \<and> (\<exists>merged odd. map_of s ''inputs'' = Some (PList (map PDict (merged @ odd)))
         \<and> (\<forall>d\<in>set (merged @ odd). unissued_line d)
         \<and> distinct (map (\<lambda>d. canon (dget d ''item_id'')) merged)
         \<and> (\<forall>d\<in>set odd. positive_line d = Inr False))"
proof -
  define c0 where "c0 = dmerge [] (dmerge (of_kind ''mfg_order'') (merge_part data (\<lambda>k. \<not> List.member WIP_FACTS k)))"
  define c1 where "c1 = dsetdefault ''received_lots'' (PList []) (dsetdefault ''received_qty'' (PFloat 0)
                 (dsetdefault ''actual_outputs'' (PList []) (dsetdefault ''is_in_production'' (PBool False)
                   (dsetdefault ''status'' (PStr ''planned'') c0))))"
  define strip where "strip = (\<lambda>i. merge_part i (\<lambda>k. \<not> List.member [''issued_qty'', ''issued_value'', GOODS_COST_UNKNOWN] k))"
  have "run_created [] data = Inr s" using assms by (simp add: apply_manufacturing_event_def mfg_handlers_def)
  then obtain inputs valid m odd where valid: "filterR positive_line (map strip inputs) = Inr valid"
    and m: "foldR merge_input [] valid = Inr m"
    and odd: "filterR (\<lambda>i. rmap Not (positive_line i)) (map strip inputs) = Inr odd"
    and s: "s = dput ''inputs'' (PList (map (\<lambda>i. PDict (dput ''issued_qty'' (PFloat 0) i)) (map snd m @ odd))) c1"
    unfolding run_created_def Let_def c0_def [symmetric] c1_def [symmetric] strip_def [symmetric]
    by (auto simp: rbind_eq_Inr merge_inputs_def rmap_eq_Inr)
  have "set (map fst c0) \<inter> set WIP_FACTS = {}"
    unfolding c0_def keys_dmerge by (auto simp: merge_part_def of_kind_def) (simp add: WIP_FACTS_def)
  then have "map_of c0 k = None" if "k \<in> set WIP_FACTS" for k
    using that unfolding map_of_eq_None_iff by auto
  then have "\<forall>k\<in>set WIP_FACTS. map_of s k = None"
    by (auto simp: s c1_def WIP_FACTS_def)
  moreover have unissued: "unissued_line (dput ''issued_qty'' (PFloat 0) d)" if "d \<in> set (map snd m @ odd)" for d
  proof -
    have st: "\<forall>d\<in>set (map strip inputs). map_of d k = None" if "k \<in> {''issued_value'', GOODS_COST_UNKNOWN}" for k
      using that by (auto simp: strip_def)
    have v: "set valid \<subseteq> set (map strip inputs)" "set odd \<subseteq> set (map strip inputs)" using filterR_set [OF valid] filterR_set [OF odd] by blast+
    have "map_of d k = None" if k: "k \<in> {''issued_value'', GOODS_COST_UNKNOWN}" for k
      using merge_input_keeps [OF m, of k] st [OF k] v k \<open>d \<in> _\<close> by (fastforce simp: GOODS_COST_UNKNOWN_def)
    then show ?thesis by (auto simp: unissued_line_def GOODS_COST_UNKNOWN_def)
  qed
  moreover have "distinct (map (\<lambda>d. canon (dget d ''item_id'')) (map snd m))"
  proof -
    have eq: "map (\<lambda>d. canon (dget d ''item_id'')) (map snd m) = map fst m" using merge_inputs_ok [OF m] by (auto simp: merged_ok_def)
    show ?thesis unfolding eq using merge_inputs_ok [OF m] by (simp add: merged_ok_def)
  qed
  moreover have "positive_line d = Inr False" if "d \<in> set odd" for d
    using filterR_set [OF odd] that by (auto simp: rmap_eq_Inr)
  ultimately show ?thesis
    by (intro conjI exI [of _ "map (dput ''issued_qty'' (PFloat 0)) (map snd m)"] exI [of _ "map (dput ''issued_qty'' (PFloat 0)) odd"])
      (auto simp: s comp_def positive_line_def)
qed

lemma new_run_unissued_witness:
  "\<exists>s. apply_manufacturing_event [] ''mfg.order.created''
      [(''wip_issued'', PStr ''99''), (''inputs'', PList [PDict [(''item_id'', PStr ''a''), (''quantity'', PFloat 2), (''issued_qty'', PInt 1)],
         PDict [(''item_id'', PStr ''a''), (''quantity'', PFloat 0)]])] = Inr s \<and> map_of s ''wip_issued'' = None"
proof -
  define data where "data = [(''wip_issued'', PStr ''99''), (''inputs'', PList [PDict [(''item_id'', PStr ''a''), (''quantity'', PFloat 2), (''issued_qty'', PInt 1)],
         PDict [(''item_id'', PStr ''a''), (''quantity'', PFloat 0)]])]"
  have "is_ok (apply_manufacturing_event [] ''mfg.order.created'' data)" unfolding data_def by code_simp
  then obtain s where s: "apply_manufacturing_event [] ''mfg.order.created'' data = Inr s"
    by (cases "apply_manufacturing_event [] ''mfg.order.created'' data") auto
  have "map_of s ''wip_issued'' = None"
    using conjunct1 [OF new_run_unissued [OF s]] by (simp add: WIP_FACTS_def)
  with s show ?thesis unfolding data_def by blast
qed

end
