(* ===== verification/AssetProj.thy ===== *)
theory AssetProj
  imports MfgProj
begin

text \<open>
  \<open>celerp_fixed_assets/projections.py\<close>: fixed assets, their classes, runs, corrections, reminders
  and maintenance.  An asset's figures are decimals kept as text, moved only by the movements
  mirrored onto it; \<open>fold_movements\<close> is the figures a list of movements adds up to.
\<close>

section \<open>Figures\<close>

definition BUCKETS :: "string list" where
  "BUCKETS = [''cost'', ''accumulated_depreciation'', ''accumulated_impairment'', ''revaluation_surplus'']"

text \<open>\<open>money(value, currency)\<close>.\<close>

definition asset_money :: "pyval \<Rightarrow> pyval \<Rightarrow> string res" where
  "asset_money value currency = rbind (to_decimal0 value) (\<lambda>d. rmap dec_str (round_money d currency))"

text \<open>The movements that still count.\<close>

definition live_movements :: "dict list \<Rightarrow> dict list res" where
  "live_movements movements =
     rbind (mapR (\<lambda>m. hkey (dget m ''reverses'')) (filter (\<lambda>m. truthy (dget m ''reverses'')) movements)) (\<lambda>reversed_ids.
     filterR (\<lambda>m. rmap (\<lambda>k. \<not> List.member reversed_ids k \<and> \<not> truthy (dget m ''reverses'')) (rbind (dkey m ''id'') hkey)) movements)"

text \<open>\<open>_whole(value)\<close>.\<close>

definition whole :: "dec \<Rightarrow> pyval res" where
  "whole d =
     (case d of
        Fin c e \<Rightarrow> Inr (if dval d \<in> \<int> then PInt (rtrunc (dval d)) else PStr (dec_str d))
      | NaN \<Rightarrow> Inr (PStr (dec_str d))
      | _ \<Rightarrow> Inl ArithmeticError)"

lemma whole_code [code]:
  "whole d =
     (case d of
        Fin c e \<Rightarrow> Inr (if of_int \<lfloor>dval d\<rfloor> = dval d then PInt (rtrunc (dval d)) else PStr (dec_str d))
      | NaN \<Rightarrow> Inr (PStr (dec_str d))
      | _ \<Rightarrow> Inl ArithmeticError)"
  by (auto simp: whole_def of_int_floor_cancel Ints_def split: dec.splits)

text \<open>\<open>_dec((data.get("amounts") or {}).get(k))\<close>.\<close>

definition amount_of :: "dict \<Rightarrow> string \<Rightarrow> dec res" where
  "amount_of mv k = rbind (vget (py_or (dget mv ''amounts'') (PDict [])) k) to_decimal0"

text \<open>One movement added to the figures.\<close>

definition fold_movement :: "(string \<times> dec) list \<times> dec \<Rightarrow> dict \<Rightarrow> ((string \<times> dec) list \<times> dec) res" where
  "fold_movement st mv =
     (let (out, quantity) = st in
      rbind (mapR (\<lambda>(k, d). rbind (amount_of mv k) (\<lambda>a. rmap (\<lambda>x. (k, x)) (dadd d a))) out) (\<lambda>out'.
      rbind (to_decimal0 (dget mv ''quantity'')) (\<lambda>q.
      rmap (\<lambda>x. (out', x)) (dadd quantity q))))"

definition fold_movements :: "dict list \<Rightarrow> dict res" where
  "fold_movements movements =
     rbind (foldR fold_movement (map (\<lambda>k. (k, Fin 0 0)) BUCKETS, Fin 0 0) movements) (\<lambda>(out, quantity).
     rmap (\<lambda>q. map (\<lambda>(k, d). (k, PStr (dec_str d))) out @ [(''quantity'', q)]) (whole quantity))"

definition move_bucket :: "dict \<Rightarrow> dict \<Rightarrow> string \<Rightarrow> dict res" where
  "move_bucket data state k =
     rbind (to_decimal0 (dget state k)) (\<lambda>a. rbind (amount_of data k) (\<lambda>b.
     rmap (\<lambda>d. dput k (PStr (dec_str d)) state) (dadd a b)))"

text \<open>\<open>int(d.get(k) or 0)\<close>.\<close>

definition int_or0 :: "dict \<Rightarrow> string \<Rightarrow> int res" where
  "int_or0 d k = py_int (py_or (dget d k) (PInt 0))"

definition asset_moved :: "dict \<Rightarrow> dict \<Rightarrow> dict res" where
  "asset_moved state data =
     rbind (foldR (move_bucket data) state BUCKETS) (\<lambda>s1.
     rbind (to_decimal0 (dget s1 ''quantity'')) (\<lambda>a. rbind (to_decimal0 (dget data ''quantity'')) (\<lambda>b.
     rbind (dadd a b) (\<lambda>d. rbind (whole d) (\<lambda>q.
     let s2 = dput ''quantity'' q s1 in
     rbind (int_or0 s2 ''movement_count'') (\<lambda>n.
     Inr (copy_if ''surplus_account'' data (dput ''movement_count'' (PInt (n + 1)) s2))))))))"

section \<open>Events\<close>

text \<open>\<open>d.update(v)\<close> of a value of any shape: pairs are read from a list.\<close>

definition pair_of :: "pyval \<Rightarrow> (string \<times> pyval) res" where
  "pair_of v = rbind (py_iter v) (\<lambda>xs.
     case xs of [PStr k, x] \<Rightarrow> Inr (k, x) | [_, _] \<Rightarrow> Inl TypeError | _ \<Rightarrow> Inl ValueError)"

definition update_with :: "dict \<Rightarrow> pyval \<Rightarrow> dict res" where
  "update_with d v =
     (case v of PDict e \<Rightarrow> Inr (dmerge d e)
      | _ \<Rightarrow> rbind (rbind (py_iter v) (mapR pair_of)) (\<lambda>e. Inr (dmerge d e)))"

text \<open>The data is the record: what a recorded fact is.\<close>

definition fa_recorded :: "dict \<Rightarrow> dict \<Rightarrow> dict res" where
  "fa_recorded state data = Inr data"

definition correction_requested :: "dict \<Rightarrow> dict \<Rightarrow> dict res" where
  "correction_requested state data = Inr (dput ''state'' (PStr ''requested'') data)"

definition correction_applied :: "dict \<Rightarrow> dict \<Rightarrow> dict res" where
  "correction_applied state data = Inr (dput ''state'' (PStr ''applied'') (dmerge state data))"

definition correction_closed :: "string \<Rightarrow> dict \<Rightarrow> dict \<Rightarrow> dict res" where
  "correction_closed how state data = Inr (dput ''closed_by_op'' (dget data ''op_key'') (dput ''state'' (PStr how) state))"

definition fa_run_reversed :: "dict \<Rightarrow> dict \<Rightarrow> dict res" where
  "fa_run_reversed state data =
     rmap (\<lambda>op. dput ''reversed_by_op'' op (dput ''status'' (PStr ''reversed'') state)) (dkey data ''op_key'')"

text \<open>\<open>current.setdefault(k, {})[data[kk]] = data[vk]\<close>; a name is text.\<close>

definition put_named :: "string \<Rightarrow> string \<Rightarrow> string \<Rightarrow> dict \<Rightarrow> dict \<Rightarrow> dict res" where
  "put_named k kk vk state data =
     rbind (dkey data vk) (\<lambda>v.
     let current = dsetdefault k (PDict []) state in
     rbind (dkey data kk) (\<lambda>name.
       case (map_of current k, name) of
         (Some (PDict t), PStr n) \<Rightarrow> Inr (dput k (PDict (dput n v t)) current)
       | _ \<Rightarrow> Inl TypeError))"

definition skip_withdrawn :: "dict \<Rightarrow> dict \<Rightarrow> dict res" where
  "skip_withdrawn state data =
     (let current = dsetdefault ''skips'' (PDict []) state in
      case map_of current ''skips'' of
        Some (PDict t) \<Rightarrow> rbind (dkey data ''month'') (\<lambda>m.
           case m of PStr n \<Rightarrow> Inr (dput ''skips'' (PDict (ddel n t)) current)
           | _ \<Rightarrow> if hashable m then Inr current else Inl TypeError)
      | Some (PList _) \<Rightarrow> rbind (dkey data ''month'') (\<lambda>_. Inl TypeError)
      | _ \<Rightarrow> Inl AttributeError)"

definition asset_file_attached :: "dict \<Rightarrow> dict \<Rightarrow> dict res" where
  "asset_file_attached state data =
     append_row ''files'' (rbind (dkey data ''file_id'') (\<lambda>i. rbind (dkey data ''filename'') (\<lambda>n.
       Inr (PDict [(''id'', i), (''filename'', n), (''mime'', dget data ''mime''), (''size'', dget data ''size''),
         (''url'', dget_or data ''url'' (PStr [])), (''description'', py_or (dget data ''description'') (PStr [])),
         (''document_tag'', py_or (dget data ''document_tag'') (PStr [])),
         (''uploaded_at'', py_or (dget data ''uploaded_at'') (PStr []))]))))
       (dsetdefault ''files'' (PList []) state)"

text \<open>Every row of a stored list, rewritten where it stands; an absent or empty value has none.\<close>

definition rewrite_rows :: "string \<Rightarrow> (dict \<Rightarrow> dict res) \<Rightarrow> dict \<Rightarrow> dict res" where
  "rewrite_rows k f state = rbind (rbind (rows_or state k) (map_rows f)) (\<lambda>vs. Inr (put_rows k vs state))"

definition asset_file_field :: "string \<Rightarrow> dict \<Rightarrow> dict \<Rightarrow> dict res" where
  "asset_file_field field state data =
     rewrite_rows ''files'' (\<lambda>f. rmap (\<lambda>i. if py_eq (dget f ''id'') i then dput field (py_or (dget data field) (PStr [])) f else f)
       (dkey data ''file_id'')) state"

definition asset_file_deleted :: "dict \<Rightarrow> dict \<Rightarrow> dict res" where
  "asset_file_deleted state data =
     rmap (\<lambda>kept. dput ''files'' (PList kept) state)
       (rbind (rows_or state ''files'') (filter_rows (\<lambda>f. rmap (\<lambda>i. \<not> py_eq (dget f ''id'') i) (dkey data ''file_id''))))"

text \<open>\<open>current[k] = data[k]\<close>; \<open>current.setdefault(ks, []).append(data[k])\<close>.\<close>

definition fa_replace :: "string \<Rightarrow> dict \<Rightarrow> dict \<Rightarrow> dict res" where
  "fa_replace k state data = rmap (\<lambda>v. dput k v state) (dkey data k)"

definition fa_append :: "string \<Rightarrow> string \<Rightarrow> dict \<Rightarrow> dict \<Rightarrow> dict res" where
  "fa_append ks k state data = append_row ks (dkey data k) (dsetdefault ks (PList []) state)"

definition check_removed :: "dict \<Rightarrow> dict \<Rightarrow> dict res" where
  "check_removed state data = rmap (\<lambda>u. dput ''removed_by'' u (dput ''removed'' (PBool True) state)) (dkey data ''user_id'')"

text \<open>\<open>{k: d.get(k) or "0" for k in BUCKETS}\<close>.\<close>

definition fill_buckets :: "dict \<Rightarrow> dict" where
  "fill_buckets d = dmerge d (map (\<lambda>k. (k, py_or (dget d k) (PStr ''0''))) BUCKETS)"

definition asset_created :: "dict \<Rightarrow> dict \<Rightarrow> dict res" where
  "asset_created state data =
     (let new = dsetdefault ''quantity'' (PInt 0) data;
          new1 = (if str_is (dget new ''status'') ''physical'' then new else fill_buckets new)
      in Inr (dput ''version'' (PInt 1) (dput ''movement_count'' (PInt 0) new1)))"

definition reminder_changed :: "dict \<Rightarrow> dict \<Rightarrow> dict res" where
  "reminder_changed state data =
     rbind (rbind (dkey data ''changes'') (update_with state)) (\<lambda>c1.
     rbind (rewrite_rows ''history'' (\<lambda>r. Inr (if py_eq (dget r ''id'') (dget data ''undid'') then dput ''undone'' (PBool True) r else r)) c1) (\<lambda>c2.
     rbind (dkey data ''history'') (\<lambda>h. rbind (rows_or c2 ''history'') (\<lambda>hs.
     Inr (dput ''history'' (PList (h # hs)) c2)))))"

definition next_version :: "dict \<Rightarrow> dict res" where
  "next_version current = rmap (\<lambda>n. dput ''version'' (PInt (n + 1)) current) (int_or0 current ''version'')"

definition fa_updated :: "dict \<Rightarrow> dict \<Rightarrow> dict res" where
  "fa_updated state data = rbind (rbind (dkey data ''changes'') (update_with state)) next_version"

definition fa_status :: "dict \<Rightarrow> dict \<Rightarrow> dict res" where
  "fa_status state data =
     rmap (\<lambda>st. foldl (\<lambda>c k. case map_of data k of Some v \<Rightarrow> dput k v c | None \<Rightarrow> c) (dput ''status'' st state)
             [''disposal'', ''exception'', ''sale'']) (dkey data ''status'')"

definition asset_financials :: "dict \<Rightarrow> dict \<Rightarrow> dict res" where
  "asset_financials state data = next_version (fill_buckets (dmerge state data))"

definition op_undone :: "dict \<Rightarrow> dict \<Rightarrow> dict res" where
  "op_undone state data = rmap (\<lambda>k. dput ''undone_by'' k state) (dkey data ''undo_key'')"

definition src_claimed :: "dict \<Rightarrow> dict \<Rightarrow> dict res" where
  "src_claimed state data =
     rmap (\<lambda>g. dput ''generation'' (PInt g) (dput ''status'' (PStr ''claimed'') data)) (int_or0 state ''generation'')"

definition src_released :: "dict \<Rightarrow> dict \<Rightarrow> dict res" where
  "src_released state data =
     rbind (dkey data ''op_key'') (\<lambda>op. rmap (\<lambda>g. dput ''generation'' (PInt (g + 1)) (dput ''released_by_op'' op
       (dput ''status'' (PStr ''released'') state))) (int_or0 state ''generation''))"

definition asset_handlers :: "(string \<times> (dict \<Rightarrow> dict \<Rightarrow> dict res)) list" where
  "asset_handlers =
     map (\<lambda>e. (e, fa_recorded))
      [''fa.class.created'', ''fa.movement.recorded'', ''fa.maint.recorded'', ''fa.op.recorded'', ''fa.review.recorded'',
       ''fa.run.prepared'', ''fa.run.posted'', ''fa.recon.recorded'', ''fa.taxbook.recorded'', ''fa.taxyear.recorded'',
       ''fa.yearend.recorded'', ''fa.import.recorded'', ''fa.import.row'', ''fa.reminder.created'', ''fa.check.recorded'']
     @ [(''fa.correction.requested'', correction_requested), (''fa.correction.applied'', correction_applied),
        (''fa.correction.withdrawn'', correction_closed ''withdrawn''), (''fa.correction.undone'', correction_closed ''undone''),
        (''fa.run.reversed'', fa_run_reversed), (''fa.reading.recorded'', put_named ''readings'' ''period'' ''units''),
        (''fa.skip.recorded'', put_named ''skips'' ''month'' ''reason''), (''fa.skip.withdrawn'', skip_withdrawn),
        (''fa.asset.file_attached'', asset_file_attached), (''fa.asset.file_tagged'', asset_file_field ''document_tag''),
        (''fa.asset.file_described'', asset_file_field ''description''), (''fa.asset.file_deleted'', asset_file_deleted),
        (''fa.asset.confirmed'', fa_replace ''confirmed''), (''fa.asset.problem'', fa_append ''problems'' ''problem''),
        (''fa.check.removed'', check_removed), (''fa.asset.exception'', fa_replace ''exception''),
        (''fa.asset.created'', asset_created), (''fa.reminder.changed'', reminder_changed),
        (''fa.reminder.told'', fa_append ''told'' ''stage''), (''fa.class.updated'', fa_updated), (''fa.asset.updated'', fa_updated),
        (''fa.maint.updated'', fa_updated), (''fa.asset.status'', fa_status), (''fa.maint.status'', fa_status),
        (''fa.review.status'', fa_status), (''fa.asset.financials'', asset_financials), (''fa.asset.moved'', asset_moved),
        (''fa.op.undone'', op_undone), (''fa.src.claimed'', src_claimed), (''fa.src.released'', src_released)]"

text \<open>An event the handler does not know leaves the record as it is.\<close>

definition apply_fixed_asset_event :: "dict \<Rightarrow> string \<Rightarrow> dict \<Rightarrow> dict res" where
  "apply_fixed_asset_event state event_type data =
     (case map_of asset_handlers event_type of None \<Rightarrow> Inr state | Some h \<Rightarrow> h state data)"

end
