(* ===== verification/AssetFacts.thy ===== *)
theory AssetFacts
  imports AssetProj
begin

text \<open>
  The figures of a fixed asset are the fold of its movements: moving an asset step by step, its
  figures kept as text after each, ends where adding all the movements up ends.
\<close>

declare dec_str.simps [simp del]

section \<open>Amounts read back from their text\<close>

lemma dec_str_nonempty: "is_fin d \<Longrightarrow> dec_str d \<noteq> []"
proof
  assume "dec_str d = []" "is_fin d"
  moreover have "parse_dec [] = None" by code_simp
  ultimately show False using parse_dec_str [of d] by simp
qed

lemma read_back [simp]: "is_fin d \<Longrightarrow> to_decimal0 (PStr (dec_str d)) = Inr d"
  by (simp add: to_decimal0_def parse_dec_str dec_str_nonempty)

lemma dadd_fin: "is_fin a \<Longrightarrow> is_fin b \<Longrightarrow> \<exists>d. dadd a b = Inr d \<and> is_fin d"
  using dadd_val [of a b] by (auto simp: dec_is_def)

lemma dadd_cong:
  assumes "dadd a b = Inr x" "dadd a' b' = Inr x'" "is_fin a" "is_fin b" "is_fin a'" "is_fin b'" "dval a = dval a'" "dval b = dval b'"
  shows "dval x = dval x'"
  using dadd_val [of a b] dadd_val [of a' b'] assms by (simp add: dec_is_def)

lemma whole_fin:
  assumes "is_fin d"
  shows "\<exists>v x. whole d = Inr v \<and> to_decimal0 v = Inr x \<and> is_fin x \<and> dval x = dval d"
proof (cases "dval d \<in> \<int>")
  case True
  then obtain i where i: "dval d = of_int i" by (auto elim: Ints_cases)
  then have "whole d = Inr (PInt i)" using assms by (cases d) (auto simp: whole_def)
  moreover have "to_decimal0 (PInt i) = Inr (Fin i 0)" by (simp add: to_decimal0_def py_or_def dec_of_int_def)
  ultimately show ?thesis using i by simp
next
  case False
  then have "whole d = Inr (PStr (dec_str d))" using assms by (cases d) (auto simp: whole_def simp del: dec_str.simps)
  then show ?thesis using assms by simp
qed

section \<open>One movement\<close>

definition finite_movement :: "dict \<Rightarrow> bool" where
  "finite_movement mv \<longleftrightarrow> (\<forall>k\<in>set BUCKETS. \<exists>d. amount_of mv k = Inr d \<and> is_fin d)
     \<and> (\<exists>d. to_decimal0 (dget mv ''quantity'') = Inr d \<and> is_fin d)"

text \<open>The asset shows the figures folded so far, its quantity by value.\<close>

definition shows_figures :: "dict \<Rightarrow> (string \<times> dec) list \<times> dec \<Rightarrow> nat \<Rightarrow> bool" where
  "shows_figures s st n \<longleftrightarrow> map fst (fst st) = BUCKETS
     \<and> (\<forall>(k, d)\<in>set (fst st). is_fin d \<and> dget s k = PStr (dec_str d))
     \<and> is_fin (snd st) \<and> (\<exists>x. to_decimal0 (dget s ''quantity'') = Inr x \<and> is_fin x \<and> dval x = dval (snd st))
     \<and> int_or0 s ''movement_count'' = Inr (int n)"

lemma move_step:
  assumes "shows_figures s st n" "finite_movement mv"
  shows "\<exists>s' st'. asset_moved s mv = Inr s' \<and> fold_movement st mv = Inr st' \<and> shows_figures s' st' (Suc n)
    \<and> dget s' ''movement_count'' = PInt (int (Suc n))"
proof -
  obtain out q where st: "st = (out, q)" by (cases st)
  from assms(1) have "map fst out = BUCKETS" by (simp add: shows_figures_def st)
  then obtain c a i r where out: "out = [(''cost'', c), (''accumulated_depreciation'', a), (''accumulated_impairment'', i), (''revaluation_surplus'', r)]"
    by (auto simp: BUCKETS_def map_eq_Cons_conv)
  have g: "is_fin c \<and> dget s ''cost'' = PStr (dec_str c)" "is_fin a \<and> dget s ''accumulated_depreciation'' = PStr (dec_str a)"
    "is_fin i \<and> dget s ''accumulated_impairment'' = PStr (dec_str i)" "is_fin r \<and> dget s ''revaluation_surplus'' = PStr (dec_str r)"
    using assms(1) by (simp_all add: shows_figures_def st out)
  from assms(1) obtain x where x: "to_decimal0 (dget s ''quantity'') = Inr x" "is_fin x" "dval x = dval q" "is_fin q"
    by (auto simp: shows_figures_def st)
  from assms(2) obtain c1 a1 i1 r1 q1 where m: "amount_of mv ''cost'' = Inr c1" "amount_of mv ''accumulated_depreciation'' = Inr a1"
    "amount_of mv ''accumulated_impairment'' = Inr i1" "amount_of mv ''revaluation_surplus'' = Inr r1" "to_decimal0 (dget mv ''quantity'') = Inr q1"
    and fin: "is_fin c1" "is_fin a1" "is_fin i1" "is_fin r1" "is_fin q1"
    by (auto simp: finite_movement_def BUCKETS_def)
  obtain c2 a2 i2 r2 where d: "dadd c c1 = Inr c2" "is_fin c2" "dadd a a1 = Inr a2" "is_fin a2" "dadd i i1 = Inr i2" "is_fin i2" "dadd r r1 = Inr r2" "is_fin r2"
    using dadd_fin g fin by meson
  obtain x2 q2 where xq: "dadd x q1 = Inr x2" "is_fin x2" "dadd q q1 = Inr q2" "is_fin q2" using dadd_fin x fin by meson
  have same: "dval x2 = dval q2" by (rule dadd_cong [OF xq(1,3) x(2) fin(5) x(4) fin(5) x(3) refl])
  from whole_fin [OF xq(2)] obtain v y where v: "whole x2 = Inr v" "to_decimal0 v = Inr y" "is_fin y" "dval y = dval x2" by blast
  define s1 where "s1 = dput ''revaluation_surplus'' (PStr (dec_str r2)) (dput ''accumulated_impairment'' (PStr (dec_str i2))
     (dput ''accumulated_depreciation'' (PStr (dec_str a2)) (dput ''cost'' (PStr (dec_str c2)) s)))"
  have buckets: "foldR (move_bucket mv) s BUCKETS = Inr s1"
    using g m d by (simp add: BUCKETS_def move_bucket_def s1_def)
  have cnt: "int_or0 (dput ''quantity'' v s1) ''movement_count'' = Inr (int n)"
    using assms(1) by (simp add: shows_figures_def int_or0_def s1_def)
  define s' where "s' = copy_if ''surplus_account'' mv (dput ''movement_count'' (PInt (int n + 1)) (dput ''quantity'' v s1))"
  have "asset_moved s mv = Inr s'"
    using buckets x(1) m(5) xq(1) v(1) cnt by (simp add: asset_moved_def s'_def s1_def)
  moreover have "fold_movement st mv = Inr ([(''cost'', c2), (''accumulated_depreciation'', a2), (''accumulated_impairment'', i2), (''revaluation_surplus'', r2)], q2)"
    using m d xq by (simp add: fold_movement_def st out)
  moreover have "shows_figures s' ([(''cost'', c2), (''accumulated_depreciation'', a2), (''accumulated_impairment'', i2), (''revaluation_surplus'', r2)], q2) (Suc n)"
    using d xq v same by (simp add: shows_figures_def s'_def s1_def BUCKETS_def int_or0_def py_or_def)
  ultimately show ?thesis by (auto simp: s'_def)
qed

lemma moves_fold:
  assumes "\<forall>mv\<in>set mvs. finite_movement mv" "shows_figures s st n"
  shows "\<exists>s' st'. foldR asset_moved s mvs = Inr s' \<and> foldR fold_movement st mvs = Inr st' \<and> shows_figures s' st' (n + length mvs)"
  using assms
proof (induction mvs arbitrary: s st n)
  case (Cons mv mvs)
  have "finite_movement mv" using Cons.prems(1) by simp
  from move_step [OF Cons.prems(2) this] obtain s1 st1 where
    step: "asset_moved s mv = Inr s1" "fold_movement st mv = Inr st1" "shows_figures s1 st1 (Suc n)" by blast
  have "\<forall>mv\<in>set mvs. finite_movement mv" using Cons.prems(1) by simp
  from Cons.IH [OF this step(3)] step(1,2) show ?case by simp
qed auto

lemma dget_fill_buckets [simp]:
  "dget (fill_buckets d) k = (if k \<in> set BUCKETS then py_or (dget d k) (PStr ''0'') else dget d k)"
proof -
  have m: "map_of (map (\<lambda>k. (k, f k)) ks) k = (if k \<in> set ks then Some (f k) else None)" for f :: "string \<Rightarrow> pyval" and ks
    by (induction ks) auto
  have "distinct (map fst (map (\<lambda>k. (k, py_or (dget d k) (PStr ''0''))) BUCKETS))" by (simp add: BUCKETS_def)
  then show ?thesis by (simp add: fill_buckets_def dget_def [of "dmerge _ _"] dget_or_def map_of_dmerge_distinct m)
    (simp add: dget_def dget_or_def)
qed

lemma BUCKETS_other: "''quantity'' \<notin> set BUCKETS" "''version'' \<notin> set BUCKETS" "''movement_count'' \<notin> set BUCKETS"
  by (simp_all add: BUCKETS_def)

text \<open>C37: an asset created with no figures and then moved by any list of finite movements shows, in
  every bucket, the very text the fold of the movements gives, a quantity of the fold's value,
  and the count of its movements.\<close>

theorem asset_figures_are_fold:
  assumes "apply_fixed_asset_event [] ''fa.asset.created'' data = Inr s0" "dget data ''status'' \<noteq> PStr ''physical''"
    and "\<forall>k\<in>set (''quantity'' # BUCKETS). \<not> truthy (dget data k)" "\<forall>mv\<in>set mvs. finite_movement mv"
  shows "\<exists>s out. foldR (\<lambda>s mv. apply_fixed_asset_event s ''fa.asset.moved'' mv) s0 mvs = Inr s \<and> fold_movements mvs = Inr out
    \<and> (\<forall>k\<in>set BUCKETS. dget s k = dget out k)
    \<and> (\<exists>a b. to_decimal0 (dget s ''quantity'') = Inr a \<and> to_decimal0 (dget out ''quantity'') = Inr b \<and> dval a = dval b)
    \<and> int_or0 s ''movement_count'' = Inr (int (length mvs))"
proof -
  have h: "map_of asset_handlers ''fa.asset.created'' = Some asset_created" "map_of asset_handlers ''fa.asset.moved'' = Some asset_moved"
    by (simp_all add: asset_handlers_def)
  let ?new = "dsetdefault ''quantity'' (PInt 0) data"
  have s0: "s0 = dput ''version'' (PInt 1) (dput ''movement_count'' (PInt 0) (fill_buckets ?new))"
    using assms(1,2) by (simp add: apply_fixed_asset_event_def h asset_created_def str_is_def)
  have zero: "dec_str (Fin 0 0) = ''0''" by code_simp
  have b: "dget s0 k = PStr ''0''" if k: "k \<in> set BUCKETS" for k
  proof -
    have "k \<noteq> ''quantity''" "k \<noteq> ''version''" "k \<noteq> ''movement_count''" "\<not> truthy (dget data k)"
      using k assms(3) BUCKETS_other by auto
    then show ?thesis using k by (simp add: s0 py_or_def)
  qed
  have "\<not> truthy (dget s0 ''quantity'')" using assms(3) by (simp add: s0 BUCKETS_other)
  then have q: "to_decimal0 (dget s0 ''quantity'') = Inr (Fin 0 0)" by (simp add: to_decimal0_def py_or_def dec_of_int_def)
  have "shows_figures s0 (map (\<lambda>k. (k, Fin 0 0)) BUCKETS, Fin 0 0) 0"
    using b q by (simp add: shows_figures_def zero comp_def) (simp add: s0 int_or0_def py_or_def)
  from moves_fold [OF assms(4) this] obtain s st where run: "foldR asset_moved s0 mvs = Inr s"
    and st: "foldR fold_movement (map (\<lambda>k. (k, Fin 0 0)) BUCKETS, Fin 0 0) mvs = Inr st" and fig: "shows_figures s st (length mvs)" by auto
  obtain out q where sq: "st = (out, q)" by (cases st)
  from fig obtain x where x: "to_decimal0 (dget s ''quantity'') = Inr x" "dval x = dval q" "is_fin q" by (auto simp: shows_figures_def sq)
  from whole_fin [OF x(3)] obtain v y where v: "whole q = Inr v" "to_decimal0 v = Inr y" "dval y = dval q" by blast
  let ?out = "map (\<lambda>(k, d). (k, PStr (dec_str d))) out @ [(''quantity'', v)]"
  have fold: "fold_movements mvs = Inr ?out" using st sq v by (simp add: fold_movements_def)
  have keys: "map fst out = BUCKETS" using fig by (simp add: shows_figures_def sq)
  then obtain c a i r where o: "out = [(''cost'', c), (''accumulated_depreciation'', a), (''accumulated_impairment'', i), (''revaluation_surplus'', r)]"
    by (auto simp: BUCKETS_def map_eq_Cons_conv)
  have "\<forall>k\<in>set BUCKETS. dget s k = dget ?out k"
    using fig by (simp add: shows_figures_def sq o BUCKETS_def dget_def dget_or_def)
  moreover have "dget ?out ''quantity'' = v" by (simp add: o dget_def dget_or_def)
  moreover have "foldR (\<lambda>s mv. apply_fixed_asset_event s ''fa.asset.moved'' mv) s0 mvs = Inr s"
    using run by (simp add: apply_fixed_asset_event_def h)
  ultimately show ?thesis using fold x v fig by (auto simp: shows_figures_def)
qed

lemma asset_figures_are_fold_witness:
  "\<exists>s0 s out. apply_fixed_asset_event [] ''fa.asset.created'' [(''name'', PStr ''Lathe'')] = Inr s0
     \<and> foldR (\<lambda>s mv. apply_fixed_asset_event s ''fa.asset.moved'' mv) s0
         [[(''amounts'', PDict [(''cost'', PStr ''1200.50'')]), (''quantity'', PInt 1)], [(''amounts'', PDict [(''accumulated_depreciation'', PStr ''100'')])]] = Inr s
     \<and> fold_movements [[(''amounts'', PDict [(''cost'', PStr ''1200.50'')]), (''quantity'', PInt 1)], [(''amounts'', PDict [(''accumulated_depreciation'', PStr ''100'')])]] = Inr out
     \<and> dget s ''cost'' = dget out ''cost''"
proof -
  define data where "data = [(''name'', PStr ''Lathe'')]"
  define mvs where "mvs = [[(''amounts'', PDict [(''cost'', PStr ''1200.50'')]), (''quantity'', PInt 1)], [(''amounts'', PDict [(''accumulated_depreciation'', PStr ''100'')])]]"
  have "is_ok (apply_fixed_asset_event [] ''fa.asset.created'' data)" unfolding data_def by code_simp
  then obtain s0 where s0: "apply_fixed_asset_event [] ''fa.asset.created'' data = Inr s0"
    by (cases "apply_fixed_asset_event [] ''fa.asset.created'' data") auto
  have "to_decimal0 (PStr ''1200.50'') = Inr (Fin 120050 (- 2))" "to_decimal0 (PStr ''100'') = Inr (Fin 100 0)"
    "to_decimal0 PNone = Inr (Fin 0 0)" "to_decimal0 (PInt 1) = Inr (Fin 1 0)" by code_simp+
  then have fin: "\<forall>mv\<in>set mvs. finite_movement mv"
    by (simp add: mvs_def finite_movement_def amount_of_def BUCKETS_def dget_def dget_or_def py_or_def)
  have "dget data ''status'' \<noteq> PStr ''physical''" "\<forall>k\<in>set (''quantity'' # BUCKETS). \<not> truthy (dget data k)"
    by (simp_all add: data_def dget_def dget_or_def BUCKETS_def)
  from asset_figures_are_fold [OF s0 this fin] obtain s out where r: "foldR (\<lambda>s mv. apply_fixed_asset_event s ''fa.asset.moved'' mv) s0 mvs = Inr s"
    "fold_movements mvs = Inr out" "\<forall>k\<in>set BUCKETS. dget s k = dget out k" by blast
  have "dget s ''cost'' = dget out ''cost''" using r(3) by (simp add: BUCKETS_def)
  then show ?thesis using s0 r(1,2) unfolding data_def mvs_def by blast
qed

end
