(* ===== verification/ReceivedProj.thy ===== *)
theory ReceivedProj
  imports ItemCost
begin

text \<open>
  \<open>celerp_docs/received.py\<close>: a document another business sent, as the fold of its arrivals.  The
  sender's revision number orders the revisions whatever order they arrive in; a repeat adds
  nothing to the history.
\<close>

section \<open>Revisions\<close>

definition sender_number :: "dict \<Rightarrow> pyval" where
  "sender_number document = py_or (dget document ''ref_id'') (dget document ''doc_number'')"

definition supersedes :: "pyval \<Rightarrow> pyval \<Rightarrow> bool res" where
  "supersedes new current =
     (if current = PNone \<or> new = PNone then Inr True
      else rtry is_value_error (rbind (py_int new) (\<lambda>a. rbind (py_int current) (\<lambda>b. Inr (b < a)))) (Inr True))"

definition is_repeat :: "dict \<Rightarrow> pyval \<Rightarrow> pyval \<Rightarrow> bool res" where
  "is_repeat state revision digest =
     (if revision \<noteq> PNone
      then rbind (rows_or state ''revisions'') (anyR (\<lambda>v. rmap (\<lambda>x. py_eq x revision) (vget v ''sender_revision'')))
      else Inr (py_eq digest (dget state ''current_digest'')))"

section \<open>Events\<close>

definition SENDER_FIELDS :: "(string \<times> string) list" where
  "SENDER_FIELDS = [(''sender_name'', ''company_name''), (''doc_type'', ''doc_type''), (''issue_date'', ''issue_date''),
     (''due_date'', ''due_date''), (''total'', ''total''), (''currency'', ''currency'')]"

definition make_current :: "dict \<Rightarrow> dict \<Rightarrow> int \<Rightarrow> dict \<Rightarrow> dict" where
  "make_current data document seq s =
     dmerge s ([(''document'', PDict document), (''current_seq'', PInt seq), (''current_digest'', dget data ''digest''),
        (''current_revision'', dget data ''source_revision''), (''last_received_at'', dget data ''received_at''),
        (''sender_doc_number'', sender_number document)]
        @ map (\<lambda>(k, f). (k, dget document f)) SENDER_FIELDS)"

definition received_arrived :: "dict \<Rightarrow> dict \<Rightarrow> dict res" where
  "received_arrived state data =
     (let s0 = copy_if ''source_link'' data state; revision = dget data ''source_revision'' in
      rbind (dkey data ''digest'') (\<lambda>digest.
      rbind (is_repeat s0 revision digest) (\<lambda>rep.
      if rep then Inr s0
      else rbind (rows_or s0 ''revisions'') (\<lambda>revisions.
           rbind (as_dict (py_or (dget data ''document'') (PDict []))) (\<lambda>document.
           let seq = int (length revisions) + 1;
               row = [(''seq'', PInt seq), (''digest'', digest), (''sender_revision'', revision),
                      (''received_at'', dget data ''received_at''), (''total'', dget document ''total''),
                      (''doc_number'', sender_number document)];
               s1 = dsetdefault ''first_received_at'' (dget data ''received_at'')
                      (dsetdefault ''source_document'' (dget data ''source_document'')
                      (dsetdefault ''source_company'' (dget data ''source_company'')
                      (dsetdefault ''source_installation'' (dget data ''source_installation'')
                      (dput ''revisions'' (PList (revisions @ [PDict row])) s0))))
           in rbind (if \<not> truthy (dget s1 ''current_digest'') then Inr True
                     else supersedes revision (dget s1 ''current_revision'')) (\<lambda>newer.
              Inr (if newer then make_current data document seq s1 else s1)))))))"

definition received_booked :: "dict \<Rightarrow> dict \<Rightarrow> dict res" where
  "received_booked state data =
     rmap (\<lambda>b. dput ''booked'' (PDict b) state)
       (mapR (\<lambda>k. rmap (\<lambda>v. (k, v)) (dkey data k))
         [''target_id'', ''target_kind'', ''target_type'', ''revision_seq'', ''revision_digest'', ''target_version''])"

definition received_followed :: "dict \<Rightarrow> dict \<Rightarrow> dict res" where
  "received_followed state data =
     rbind (dict_or state ''booked'') (\<lambda>booked.
     rmap (\<lambda>b. dput ''booked'' (PDict (dmerge booked b)) state)
       (mapR (\<lambda>k. rmap (\<lambda>v. (k, v)) (dkey data k)) [''revision_seq'', ''revision_digest'', ''target_version'']))"

text \<open>An event the handler does not know leaves the record as it is.\<close>

definition received_handlers :: "(string \<times> (dict \<Rightarrow> dict \<Rightarrow> dict res)) list" where
  "received_handlers =
    [(''received_doc.imported'', received_arrived), (''received_doc.revised'', received_arrived),
     (''received_doc.booked'', received_booked), (''received_doc.draft_updated'', received_followed),
     (''received_doc.reconciled'', received_followed)]"

definition apply_received_event :: "dict \<Rightarrow> string \<Rightarrow> dict \<Rightarrow> dict res" where
  "apply_received_event state event_type data =
     (case map_of received_handlers event_type of None \<Rightarrow> Inr state | Some h \<Rightarrow> h state data)"

section \<open>Identity of a bundle\<close>

record source_id =
  src_installation :: string
  src_company :: string
  src_document :: string
  src_revision :: "string option"

definition MAX_SOURCE_ID :: nat where "MAX_SOURCE_ID = 256"

definition source_str :: "pyval \<Rightarrow> string option" where
  "source_str v = (case v of PStr s \<Rightarrow> if py_strip s \<noteq> [] then Some (take MAX_SOURCE_ID (py_strip s)) else None | _ \<Rightarrow> None)"

definition source_revision :: "pyval \<Rightarrow> string option" where
  "source_revision v = (case v of PStr s \<Rightarrow> Some (take 64 s) | PInt i \<Rightarrow> Some (take 64 (int_str i)) | _ \<Rightarrow> None)"

definition fallback_identity :: "string option \<Rightarrow> string \<Rightarrow> source_id" where
  "fallback_identity link digest =
     (case link of
        Some l \<Rightarrow> if l \<noteq> [] then \<lparr>src_installation = ''link'', src_company = [], src_document = take (MAX_SOURCE_ID * 8) l, src_revision = None\<rparr>
                  else \<lparr>src_installation = ''file'', src_company = [], src_document = digest, src_revision = None\<rparr>
      | None \<Rightarrow> \<lparr>src_installation = ''file'', src_company = [], src_document = digest, src_revision = None\<rparr>)"

definition source_identity :: "dict \<Rightarrow> string option \<Rightarrow> string \<Rightarrow> source_id" where
  "source_identity bundle link digest =
     (case dget bundle ''source'' of
        PDict src \<Rightarrow>
          (case (source_str (dget src ''installation''), source_str (dget src ''document'')) of
             (Some i, Some d) \<Rightarrow>
               \<lparr>src_installation = i, src_company = (case source_str (dget src ''company'') of Some c \<Rightarrow> c | None \<Rightarrow> []),
                src_document = d, src_revision = source_revision (dget src ''revision'')\<rparr>
           | _ \<Rightarrow> fallback_identity link digest)
      | _ \<Rightarrow> fallback_identity link digest)"

end
