(* ===== verification/ReceivedFacts.thy ===== *)
theory ReceivedFacts
  imports ReceivedProj
begin

text \<open>
  Whatever order the numbered revisions of a received document arrive in, and however often
  each arrives, the newest of them is current and the history lists each once.
\<close>

section \<open>What the arrivals so far determine\<close>

definition revision_no :: "dict \<Rightarrow> int option" where
  "revision_no data = (case dget data ''source_revision'' of PStr s \<Rightarrow> parse_int s | _ \<Rightarrow> None)"

definition numbered :: "dict \<Rightarrow> bool" where
  "numbered data \<longleftrightarrow> revision_no data \<noteq> None \<and> map_of data ''digest'' \<noteq> None \<and> truthy (dget data ''digest'')
     \<and> (\<exists>d. py_or (dget data ''document'') (PDict []) = PDict d)"

definition revision_of :: "pyval \<Rightarrow> pyval" where
  "revision_of v = (case v of PDict r \<Rightarrow> dget r ''sender_revision'' | _ \<Rightarrow> PNone)"

definition history_of :: "dict \<Rightarrow> dict set \<Rightarrow> pyval list \<Rightarrow> bool" where
  "history_of s seen vs \<longleftrightarrow> rows_or s ''revisions'' = Inr vs \<and> (\<forall>v\<in>set vs. \<exists>r. v = PDict r)
     \<and> distinct (map revision_of vs) \<and> revision_of ` set vs = (\<lambda>d. dget d ''source_revision'') ` seen"

definition current_of :: "dict \<Rightarrow> dict set \<Rightarrow> bool" where
  "current_of s seen \<longleftrightarrow>
     (if seen = {} then \<not> truthy (dget s ''current_digest'')
      else \<exists>d\<in>seen. dget s ''current_revision'' = dget d ''source_revision'' \<and> dget s ''current_digest'' = dget d ''digest''
             \<and> (\<forall>e\<in>seen. the (revision_no e) \<le> the (revision_no d)))"

lemma numbered_revision:
  assumes "numbered d"
  obtains r n where "dget d ''source_revision'' = PStr r" "parse_int r = Some n" "revision_no d = Some n"
  using assms by (cases "dget d ''source_revision''") (auto simp: numbered_def revision_no_def)

lemma is_repeat_numbered:
  assumes "history_of s seen vs" "numbered d"
  shows "is_repeat s (dget d ''source_revision'') dig = Inr (dget d ''source_revision'' \<in> (\<lambda>d. dget d ''source_revision'') ` seen)"
proof -
  obtain r where r: "dget d ''source_revision'' = PStr r" using assms(2) by (rule numbered_revision)
  have "anyR (\<lambda>v. rmap (\<lambda>x. py_eq x (PStr r)) (vget v ''sender_revision'')) vs = Inr (list_ex (\<lambda>v. revision_of v = PStr r) vs)"
    by (rule anyR_Inr) (use assms(1) in \<open>auto simp: history_of_def revision_of_def\<close>)
  moreover have "list_ex (\<lambda>v. revision_of v = PStr r) vs \<longleftrightarrow> PStr r \<in> revision_of ` set vs"
    by (force simp: list_ex_iff)
  ultimately show ?thesis using assms(1) r by (simp add: is_repeat_def history_of_def)
qed

lemma rows_or_other: "map_of s k = map_of s' k \<Longrightarrow> rows_or s k = rows_or s' k"
  by (simp add: rows_or_def dget_def dget_or_def)

lemma make_current_gets:
  "dget (make_current data document seq s) ''current_revision'' = dget data ''source_revision''"
  "dget (make_current data document seq s) ''current_digest'' = dget data ''digest''"
  "map_of (make_current data document seq s) ''revisions'' = map_of s ''revisions''"
  by (simp_all add: make_current_def SENDER_FIELDS_def dmerge_def)

section \<open>One arrival\<close>

lemma arrival_step:
  assumes hist: "history_of s seen vs" and cur: "current_of s seen" and seen: "\<forall>d\<in>seen. numbered d" and data: "numbered data"
  shows "\<exists>s' vs'. received_arrived s data = Inr s' \<and> history_of s' (insert data seen) vs' \<and> current_of s' (insert data seen)"
proof -
  obtain r n where r: "dget data ''source_revision'' = PStr r" "parse_int r = Some n" "revision_no data = Some n"
    using data by (rule numbered_revision)
  obtain dig where dig: "map_of data ''digest'' = Some dig" using data by (auto simp: numbered_def)
  define s0 where "s0 = copy_if ''source_link'' data s"
  have hist0: "history_of s0 seen vs" using hist rows_or_other [of s0 "''revisions''" s] by (simp add: history_of_def s0_def)
  have cur0: "current_of s0 seen" using cur by (simp add: current_of_def s0_def)
  have rep: "is_repeat s0 (PStr r) dig = Inr (PStr r \<in> (\<lambda>d. dget d ''source_revision'') ` seen)"
    using is_repeat_numbered [OF hist0 data] r by simp
  show ?thesis
  proof (cases "PStr r \<in> (\<lambda>d. dget d ''source_revision'') ` seen")
    case True
    then obtain e where e: "e \<in> seen" "dget e ''source_revision'' = PStr r" by auto
    have "received_arrived s data = Inr s0"
      using rep True r dig by (simp add: received_arrived_def s0_def [symmetric] dkey_def)
    moreover have "history_of s0 (insert data seen) vs" using hist0 True r by (simp add: history_of_def insert_absorb)
    moreover have "current_of s0 (insert data seen)"
    proof -
      have ne: "seen \<noteq> {}" using e by auto
      with cur0 obtain d where d: "d \<in> seen" "dget s0 ''current_revision'' = dget d ''source_revision''"
        "dget s0 ''current_digest'' = dget d ''digest''" "\<forall>e\<in>seen. the (revision_no e) \<le> the (revision_no d)"
        by (auto simp: current_of_def)
      have "revision_no data = revision_no e" using e(2) r by (simp add: revision_no_def)
      then show ?thesis using d e(1) by (auto simp: current_of_def)
    qed
    ultimately show ?thesis by blast
  next
    case False
    obtain document where doc: "py_or (dget data ''document'') (PDict []) = PDict document" using data by (auto simp: numbered_def)
    define row where "row = [(''seq'', PInt (int (length vs) + 1)), (''digest'', dig), (''sender_revision'', PStr r),
                      (''received_at'', dget data ''received_at''), (''total'', dget document ''total''),
                      (''doc_number'', sender_number document)]"
    define s1 where "s1 = dsetdefault ''first_received_at'' (dget data ''received_at'')
                      (dsetdefault ''source_document'' (dget data ''source_document'')
                      (dsetdefault ''source_company'' (dget data ''source_company'')
                      (dsetdefault ''source_installation'' (dget data ''source_installation'')
                      (dput ''revisions'' (PList (vs @ [PDict row])) s0))))"
    define newer where "newer \<longleftrightarrow> (\<forall>e\<in>seen. the (revision_no e) < n)"
    have g1: "dget s1 ''current_digest'' = dget s0 ''current_digest''" "dget s1 ''current_revision'' = dget s0 ''current_revision''"
      "map_of s1 ''revisions'' = Some (PList (vs @ [PDict row]))"
      by (simp_all add: s1_def)
    have newer: "(if \<not> truthy (dget s1 ''current_digest'') then Inr True else supersedes (PStr r) (dget s1 ''current_revision'')) = Inr newer"
    proof (cases "seen = {}")
      case True
      then show ?thesis using cur0 by (simp add: current_of_def g1 newer_def)
    next
      case ne: False
      with cur0 obtain d where d: "d \<in> seen" "dget s0 ''current_revision'' = dget d ''source_revision''"
        "dget s0 ''current_digest'' = dget d ''digest''" "\<forall>e\<in>seen. the (revision_no e) \<le> the (revision_no d)"
        by (auto simp: current_of_def)
      have num: "numbered d" using seen d(1) by blast
      then obtain r0 n0 where r0: "dget d ''source_revision'' = PStr r0" "parse_int r0 = Some n0" "revision_no d = Some n0"
        by (rule numbered_revision)
      have "newer \<longleftrightarrow> n0 < n" using d(1,4) r0(3) by (fastforce simp: newer_def)
      then show ?thesis using num d r0 r by (simp add: g1 supersedes_def numbered_def)
    qed
    define s' where "s' = (if newer then make_current data document (int (length vs) + 1) s1 else s1)"
    have rows: "rows_or s0 ''revisions'' = Inr vs" using hist0 by (simp add: history_of_def)
    have "received_arrived s data = rbind (if \<not> truthy (dget s1 ''current_digest'') then Inr True else supersedes (PStr r) (dget s1 ''current_revision''))
        (\<lambda>newer. Inr (if newer then make_current data document (int (length vs) + 1) s1 else s1))"
      unfolding received_arrived_def Let_def s0_def [symmetric] r(1) using rep False rows dig doc
      by (simp only: dkey_def option.case rbind_Inr as_dict_PDict s1_def row_def if_False HOL.simp_thms)
    then have run: "received_arrived s data = Inr s'" unfolding newer by (simp add: s'_def)
    have m: "map_of s' ''revisions'' = Some (PList (vs @ [PDict row]))" by (simp add: s'_def make_current_gets g1)
    have "history_of s' (insert data seen) (vs @ [PDict row])"
      using hist0 m False r by (auto simp: history_of_def rows_or_def dget_Some py_or_def revision_of_def row_def dget_or_def dget_def)
    moreover have "current_of s' (insert data seen)"
    proof (cases newer)
      case True
      then have "\<forall>e\<in>insert data seen. the (revision_no e) \<le> the (revision_no data)" using r(3) by (auto simp: newer_def)
      then show ?thesis using True r by (auto simp: current_of_def s'_def make_current_gets)
    next
      case old: False
      then have ne: "seen \<noteq> {}" by (auto simp: newer_def)
      with cur0 obtain d where d: "d \<in> seen" "dget s0 ''current_revision'' = dget d ''source_revision''"
        "dget s0 ''current_digest'' = dget d ''digest''" "\<forall>e\<in>seen. the (revision_no e) \<le> the (revision_no d)"
        by (auto simp: current_of_def)
      have "n \<le> the (revision_no d)" using old d(4) by (force simp: newer_def)
      then show ?thesis using d r(3) old by (auto simp: current_of_def s'_def g1)
    qed
    ultimately show ?thesis using run by blast
  qed
qed

lemma arrivals:
  assumes "history_of s seen vs" "current_of s seen" "\<forall>d\<in>seen \<union> set ds. numbered d"
  shows "\<exists>s' vs'. foldR received_arrived s ds = Inr s' \<and> history_of s' (seen \<union> set ds) vs' \<and> current_of s' (seen \<union> set ds)"
  using assms
proof (induction ds arbitrary: s seen vs)
  case (Cons d ds)
  have "\<forall>e\<in>seen. numbered e" "numbered d" using Cons.prems(3) by auto
  from arrival_step [OF Cons.prems(1,2) this] obtain s1 vs1 where s1: "received_arrived s d = Inr s1"
    "history_of s1 (insert d seen) vs1" "current_of s1 (insert d seen)" by blast
  have "\<forall>e\<in>insert d seen \<union> set ds. numbered e" using Cons.prems(3) by auto
  from Cons.IH [OF s1(2,3) this] s1(1) show ?case by simp
qed auto

text \<open>C38: after any numbered revisions, in any order and each any number of times, the record's
  current revision and content are those of an arrival no other arrival exceeds, and its
  history lists the revision of every arrival exactly once.\<close>

theorem newest_revision_wins:
  assumes "ds \<noteq> []" "\<forall>d\<in>set ds. numbered d"
  shows "\<exists>s vs. foldR (\<lambda>s d. apply_received_event s ''received_doc.revised'' d) [] ds = Inr s
    \<and> (\<exists>d\<in>set ds. dget s ''current_revision'' = dget d ''source_revision'' \<and> dget s ''current_digest'' = dget d ''digest''
         \<and> (\<forall>e\<in>set ds. the (revision_no e) \<le> the (revision_no d)))
    \<and> rows_or s ''revisions'' = Inr vs \<and> distinct (map revision_of vs)
    \<and> revision_of ` set vs = (\<lambda>d. dget d ''source_revision'') ` set ds"
proof -
  have h: "map_of received_handlers ''received_doc.revised'' = Some received_arrived" by (simp add: received_handlers_def)
  have "history_of [] {} []" by (simp add: history_of_def rows_or_def py_or_def)
  moreover have "current_of [] {}" by (simp add: current_of_def)
  ultimately obtain s vs where "foldR received_arrived [] ds = Inr s" "history_of s (set ds) vs" "current_of s (set ds)"
    using arrivals [of "[]" "{}" "[]" ds] assms(2) by auto
  then show ?thesis using assms(1) by (auto simp: apply_received_event_def h history_of_def current_of_def)
qed

lemma newest_revision_wins_witness:
  "\<exists>s. foldR (\<lambda>s d. apply_received_event s ''received_doc.revised'' d) []
     [[(''source_revision'', PStr ''3''), (''digest'', PStr ''c'')], [(''source_revision'', PStr ''2''), (''digest'', PStr ''b'')]] = Inr s
     \<and> dget s ''current_revision'' \<in> {PStr ''3'', PStr ''2''}"
proof -
  have "parse_int ''3'' = Some 3" "parse_int ''2'' = Some 2" by code_simp+
  then have "\<forall>d\<in>set [[(''source_revision'', PStr ''3''), (''digest'', PStr ''c'')], [(''source_revision'', PStr ''2''), (''digest'', PStr ''b'')]]. numbered d"
    by (simp add: numbered_def revision_no_def dget_def dget_or_def py_or_def)
  from newest_revision_wins [OF _ this] show ?thesis by (auto simp: dget_def dget_or_def)
qed

end
