(* ===== verification/Depreciation.thy ===== *)
theory Depreciation
  imports Money
begin

text \<open>
  The depreciation calculation of the fixed asset register, \<open>celerp_fixed_assets/calc\<close>:
  \<open>periods.py\<close> (months as integers), \<open>conventions.py\<close> (how much of a month a layer consumes when it
  starts and when it is disposed of), \<open>methods.py\<close> (the charges of one layer) and \<open>engine.py\<close>
  (the schedule of an asset over its dated movements).  A \<open>Decimal\<close> is here the rational it
  denotes, every operation rounded to the 40 significant digits of the engine's context
  (\<open>d40\<close>): its result leaves only through \<open>round_money\<close> and comparisons, which read the value.
  Amounts are finite.  The methods and conventions that other modules register are the
  environment \<open>rules\<close>.
\<close>

section \<open>Decimals of the context\<close>

definition d40 :: "rat \<Rightarrow> rat" where
  "d40 x = round_sig 10 40 x"

definition cadd :: "rat \<Rightarrow> rat \<Rightarrow> rat" where "cadd x y = d40 (x + y)"
definition csub :: "rat \<Rightarrow> rat \<Rightarrow> rat" where "csub x y = d40 (x - y)"
definition cmul :: "rat \<Rightarrow> rat \<Rightarrow> rat" where "cmul x y = d40 (x * y)"
definition cdiv :: "rat \<Rightarrow> rat \<Rightarrow> rat res" where
  "cdiv x y = (if y = 0 then Inl ArithmeticError else Inr (d40 (x / y)))"

text \<open>\<open>sum(xs, Decimal(0))\<close>.\<close>

definition csum :: "rat list \<Rightarrow> rat" where
  "csum xs = foldl cadd 0 xs"

text \<open>\<open>Decimal(str(v))\<close> of a parameter.\<close>

definition decimal_param :: "pyval \<Rightarrow> rat res" where
  "decimal_param v =
     rbind (if v = PNone then Inl ArithmeticError else to_decimal v) (\<lambda>d.
       case d of Fin c e \<Rightarrow> Inr (dval d) | _ \<Rightarrow> Inl NonFiniteFloat)"

text \<open>\<open>round_money\<close> inside the context: a result of more than 40 digits is refused.\<close>

definition round_money40 :: "rat \<Rightarrow> pyval \<Rightarrow> rat res" where
  "round_money40 x currency =
     rbind (currency_dp currency) (\<lambda>dp.
       let n = rhu (x * 10 ^ dp)
       in if 10 ^ 40 \<le> \<bar>n\<bar> then Inl ArithmeticError else Inr (of_int n / 10 ^ dp))"

section \<open>Dates and months\<close>

datatype date = Date (d_year: int) (d_month: int) (d_day: int)

instantiation date :: linorder
begin

definition less_eq_date :: "date \<Rightarrow> date \<Rightarrow> bool" where
  "less_eq_date a b = ((d_year a, d_month a, d_day a) \<le> (d_year b, d_month b, d_day b))"

definition less_date :: "date \<Rightarrow> date \<Rightarrow> bool" where
  "less_date a b = ((d_year a, d_month a, d_day a) < (d_year b, d_month b, d_day b))"

instance
  by standard (auto simp: less_eq_date_def less_date_def less_prod_def less_eq_prod_def intro: date.expand)

end

definition leap_year :: "int \<Rightarrow> bool" where
  "leap_year y = (y mod 4 = 0 \<and> (y mod 100 \<noteq> 0 \<or> y mod 400 = 0))"

definition days_in_month :: "date \<Rightarrow> int" where
  "days_in_month day =
     (if d_month day = 2 then (if leap_year (d_year day) then 29 else 28)
      else if d_month day = 4 \<or> d_month day = 6 \<or> d_month day = 9 \<or> d_month day = 11 then 30 else 31)"

definition month_index :: "date \<Rightarrow> int" where
  "month_index day = d_year day * 12 + d_month day - 1"

text \<open>\<open>period.split("-")\<close> into exactly two parts.\<close>

definition parse_period :: "string \<Rightarrow> int res" where
  "parse_period period =
     (let y = takeWhile (\<lambda>c. c \<noteq> CHR ''-'') period; r = drop (length y) period in
      if r = [] \<or> List.member (drop 1 r) (CHR ''-'') then Inl ValueError
      else case (parse_int y, parse_int (drop 1 r)) of
             (Some year, Some month) \<Rightarrow> Inr (year * 12 + month - 1) | _ \<Rightarrow> Inl ValueError)"

text \<open>\<open>f"{n:0wd}"\<close>: the sign counts in the width.\<close>

definition padded :: "nat \<Rightarrow> int \<Rightarrow> string" where
  "padded w n = (let s = nat_str \<bar>n\<bar>; sign = (if n < 0 then ''-'' else [])
                 in sign @ replicate (w - length sign - length s) (CHR ''0'') @ s)"

definition period_label :: "int \<Rightarrow> string" where
  "period_label i = padded 4 (i div 12) @ ''-'' @ padded 2 (i mod 12 + 1)"

definition months_to_fiscal_year_end :: "int \<Rightarrow> int \<Rightarrow> int" where
  "months_to_fiscal_year_end i fiscal_year_start = (fiscal_year_start - (i mod 12 + 1) - 1) mod 12 + 1"

definition fiscal_year_start_index :: "int \<Rightarrow> int \<Rightarrow> int" where
  "fiscal_year_start_index i fiscal_year_start = i - (i mod 12 + 1 - fiscal_year_start) mod 12"

section \<open>Conventions\<close>

record convention =
  cv_start_weights :: "date \<Rightarrow> int \<Rightarrow> rat list"
  cv_disposal :: "rat \<Rightarrow> date \<Rightarrow> rat \<Rightarrow> rat \<Rightarrow> rat"

definition full_month :: convention where
  "full_month = \<lparr>cv_start_weights = \<lambda>day fy. [1], cv_disposal = \<lambda>normal day fy_consumed remaining. 0\<rparr>"

definition mid_month :: convention where
  "mid_month = \<lparr>cv_start_weights = \<lambda>day fy. [1/2],
     cv_disposal = \<lambda>normal day fy_consumed remaining. min (max (csub normal (1/2)) 0) remaining\<rparr>"

definition daily :: convention where
  "daily = \<lparr>cv_start_weights = \<lambda>day fy. [d40 (of_int (days_in_month day - d_day day + 1) / of_int (days_in_month day))],
     cv_disposal = \<lambda>normal day fy_consumed remaining.
       let unused = d40 (of_int (days_in_month day - d_day day) / of_int (days_in_month day))
       in min (max (csub normal unused) 0) remaining\<rparr>"

definition half_year :: convention where
  "half_year = \<lparr>cv_start_weights = \<lambda>day fy.
       let months = months_to_fiscal_year_end (month_index day) fy in replicate (nat months) (d40 (6 / of_int months)),
     cv_disposal = \<lambda>normal day fy_consumed remaining. csub (min 6 (cadd fy_consumed remaining)) fy_consumed\<rparr>"

definition CORE_CONVENTIONS :: "(string \<times> convention) list" where
  "CORE_CONVENTIONS = [(''full_month'', full_month), (''mid_month'', mid_month), (''daily'', daily), (''half_year'', half_year)]"

section \<open>Methods\<close>

record method_inputs =
  mi_basis :: rat
  mi_residual :: rat
  mi_life :: rat
  mi_fractions :: "rat list"
  mi_params :: dict

record dep_method =
  dm_uses_readings :: bool
  dm_amounts :: "method_inputs \<Rightarrow> rat list res"

text \<open>\<open>_by_curve\<close>: charges as differences of the depreciated share at each position.\<close>

fun by_curve :: "rat \<Rightarrow> (rat \<Rightarrow> rat res) \<Rightarrow> rat \<Rightarrow> rat \<Rightarrow> rat list \<Rightarrow> rat list res" where
  "by_curve basis curve position done [] = Inr []"
| "by_curve basis curve position done (f # fs) =
     (let p = cadd position f in
      rbind (curve p) (\<lambda>c. let reached = cmul basis c in
      rmap (\<lambda>out. csub reached done # out) (by_curve basis curve p reached fs)))"

definition no_charges :: "method_inputs \<Rightarrow> rat list" where
  "no_charges inputs = replicate (length (mi_fractions inputs)) 0"

definition straight_share :: "rat \<Rightarrow> rat \<Rightarrow> rat res" where
  "straight_share life t = cdiv (min (max t 0) life) life"

definition straight_amounts :: "method_inputs \<Rightarrow> rat list res" where
  "straight_amounts inputs =
     (if mi_life inputs \<le> 0 then Inr (no_charges inputs)
      else by_curve (mi_basis inputs) (straight_share (mi_life inputs)) 0 0 (mi_fractions inputs))"

definition straight_line :: dep_method where
  "straight_line = \<lparr>dm_uses_readings = False, dm_amounts = straight_amounts\<rparr>"

definition units_of_use :: dep_method where
  "units_of_use = \<lparr>dm_uses_readings = True, dm_amounts = straight_amounts\<rparr>"

fun soy_walk :: "rat \<Rightarrow> rat \<Rightarrow> rat \<Rightarrow> rat \<Rightarrow> rat \<Rightarrow> rat list \<Rightarrow> rat res" where
  "soy_walk digit_total life t share start [] = Inr share"
| "soy_walk digit_total life t share start (digit # digits) =
     (let len = min 12 (csub life start) in
      rbind (cdiv digit digit_total) (\<lambda>part.
      if t \<le> cadd start len
      then rmap (cadd share) (cdiv (cmul part (csub t start)) len)
      else soy_walk digit_total life t (cadd share part) (cadd start len) digits))"

definition soy_amounts :: "method_inputs \<Rightarrow> rat list res" where
  "soy_amounts inputs =
     (let life = mi_life inputs in
      if life \<le> 0 then Inr (no_charges inputs)
      else let years = d40 (life / 12);
               digits = map (\<lambda>k. csub years (of_int k)) [0..\<lceil>years\<rceil> - 1]
           in by_curve (mi_basis inputs) (\<lambda>t. soy_walk (csum digits) life (min (max t 0) life) 0 0 digits) 0 0 (mi_fractions inputs))"

definition sum_of_years_digits :: dep_method where
  "sum_of_years_digits = \<lparr>dm_uses_readings = False, dm_amounts = soy_amounts\<rparr>"

fun declining_charges :: "rat \<Rightarrow> rat \<Rightarrow> rat \<Rightarrow> bool \<Rightarrow> rat \<Rightarrow> rat \<Rightarrow> rat list \<Rightarrow> rat list" where
  "declining_charges residual life monthly switch carrying position [] = []"
| "declining_charges residual life monthly switch carrying position (f # fs) =
     (let left = csub carrying residual;
          remaining = csub life position;
          usual = cmul (cmul carrying monthly) f;
          charge = (if f \<noteq> 0 \<and> life \<le> cadd position f then left
                    else if f \<noteq> 0 then min (if switch \<and> 0 < remaining then max usual (d40 (cmul left f / remaining)) else usual) left
                    else 0)
      in charge # declining_charges residual life monthly switch (csub carrying charge) (cadd position f) fs)"

definition declining_amounts :: "method_inputs \<Rightarrow> rat list res" where
  "declining_amounts inputs =
     (let life = mi_life inputs; params = mi_params inputs in
      if life \<le> 0 then Inr (no_charges inputs)
      else rbind (if \<not> blank (dget params ''rate'')
                  then rmap (\<lambda>r. d40 (r / 12)) (decimal_param (dget params ''rate''))
                  else rmap (\<lambda>k. d40 (k / life)) (decimal_param (dget_or params ''factor'' (PInt 2)))) (\<lambda>monthly.
           Inr (declining_charges (mi_residual inputs) life monthly
                  (truthy (dget_or params ''switch_to_straight_line'' (PBool True)))
                  (cadd (mi_basis inputs) (mi_residual inputs)) 0 (mi_fractions inputs))))"

definition declining_balance :: dep_method where
  "declining_balance = \<lparr>dm_uses_readings = False, dm_amounts = declining_amounts\<rparr>"

definition no_depreciation :: dep_method where
  "no_depreciation = \<lparr>dm_uses_readings = False, dm_amounts = Inr \<circ> no_charges\<rparr>"

definition CORE_METHODS :: "(string \<times> dep_method) list" where
  "CORE_METHODS = [(''straight_line'', straight_line), (''declining_balance'', declining_balance),
     (''sum_of_years_digits'', sum_of_years_digits), (''units_of_use'', units_of_use), (''none'', no_depreciation)]"

end
