(* ===== verification/AssetSchedule.thy ===== *)
theory AssetSchedule
  imports Depreciation
begin

text \<open>
  \<open>calc/engine.py\<close>: the monthly schedule of an asset.  An asset is a set of layers, each consuming
  its life month by month; movements add, merge, restate or split layers; the charges of every
  layer are added up per month and rounded cumulatively.
\<close>

section \<open>Movements, policy and layers\<close>

datatype movement =
    Acquire date rat
  | Improve date rat "int option"
  | EstimateChange date rat rat "string option" "dict option" "string option"
  | Dispose date rat
  | Opening date rat rat int
  | Revalue date rat
  | Impair date rat

fun m_on :: "movement \<Rightarrow> date" where
  "m_on (Acquire on _) = on"
| "m_on (Improve on _ _) = on"
| "m_on (EstimateChange on _ _ _ _ _) = on"
| "m_on (Dispose on _) = on"
| "m_on (Opening on _ _ _) = on"
| "m_on (Revalue on _) = on"
| "m_on (Impair on _) = on"

fun is_dispose :: "movement \<Rightarrow> bool" where
  "is_dispose (Dispose _ _) = True"
| "is_dispose _ = False"

text \<open>The movements that take effect at the end of their month.\<close>

fun month_end :: "movement \<Rightarrow> bool" where
  "month_end (Opening _ _ _ _) = True"
| "month_end (Revalue _ _) = True"
| "month_end (Impair _ _) = True"
| "month_end _ = False"

definition first_month :: "movement \<Rightarrow> int" where
  "first_month m = month_index (m_on m) + (if month_end m then 1 else 0)"

record policy =
  po_method :: string
  po_life_months :: int
  po_residual :: rat
  po_convention :: string
  po_fiscal_year_start :: int
  po_params :: dict

record rules =
  rl_method :: "string \<Rightarrow> dep_method option"
  rl_convention :: "string \<Rightarrow> convention option"

definition rule_method :: "rules \<Rightarrow> string \<Rightarrow> dep_method res" where
  "rule_method rl key = (case rl_method rl key of None \<Rightarrow> Inl LookupError | Some m \<Rightarrow> Inr m)"

definition rule_convention :: "rules \<Rightarrow> string \<Rightarrow> convention res" where
  "rule_convention rl key = (case rl_convention rl key of None \<Rightarrow> Inl LookupError | Some c \<Rightarrow> Inr c)"

definition core_rules :: rules where
  "core_rules = \<lparr>rl_method = map_of CORE_METHODS, rl_convention = map_of CORE_CONVENTIONS\<rparr>"

record layer =
  ly_basis :: rat
  ly_residual :: rat
  ly_life :: rat
  ly_start :: int
  ly_weights :: "rat list"
  ly_method :: dep_method
  ly_params :: dict
  ly_fractions :: "rat list"

definition ly_position :: "layer \<Rightarrow> rat" where
  "ly_position ly = csum (ly_fractions ly)"

text \<open>A layer is asked about the months from its start on.\<close>

definition normal_fraction :: "layer \<Rightarrow> int \<Rightarrow> rat" where
  "normal_fraction ly i =
     (let offset = i - ly_start ly; n = int (length (ly_weights ly))
      in if offset < n then ly_weights ly ! nat (offset mod n) else 1)"

text \<open>\<open>Layer.end\<close>: the month a life runs out.  \<open>None\<close> is a loop that does not return.\<close>

partial_function (option) end_from :: "layer \<Rightarrow> rat \<Rightarrow> int \<Rightarrow> (int \<times> rat) option" where
  "end_from ly left i =
     (let fraction = min (normal_fraction ly i) left; left' = csub left fraction
      in if left' \<le> 0 then Some (i, fraction) else end_from ly left' (i + 1))"

declare end_from.simps [code]

definition ly_end :: "layer \<Rightarrow> int \<Rightarrow> (int \<times> rat) option" where
  "ly_end ly i = end_from ly (csub (ly_life ly) (ly_position ly)) i"

definition split_gone :: "rat \<Rightarrow> layer \<Rightarrow> layer" where
  "split_gone share ly = ly\<lparr>ly_basis := cmul (ly_basis ly) share, ly_residual := cmul (ly_residual ly) share\<rparr>"

definition split_kept :: "rat \<Rightarrow> layer \<Rightarrow> layer" where
  "split_kept share ly = ly\<lparr>ly_basis := csub (ly_basis ly) (ly_basis (split_gone share ly)),
     ly_residual := csub (ly_residual ly) (ly_residual (split_gone share ly))\<rparr>"

definition ly_charges :: "layer \<Rightarrow> rat list res" where
  "ly_charges ly = dm_amounts (ly_method ly) \<lparr>mi_basis = ly_basis ly, mi_residual = ly_residual ly,
     mi_life = ly_life ly, mi_fractions = ly_fractions ly, mi_params = ly_params ly\<rparr>"

definition carrying_of :: "layer \<Rightarrow> rat res" where
  "carrying_of ly = rmap (\<lambda>cs. csub (cadd (ly_basis ly) (ly_residual ly)) (csum cs)) (ly_charges ly)"

definition carrying_all :: "layer list \<Rightarrow> rat res" where
  "carrying_all layers = rmap csum (mapR carrying_of layers)"

definition method_life :: "dep_method \<Rightarrow> int \<Rightarrow> dict \<Rightarrow> rat res" where
  "method_life m policy_life params =
     (if dm_uses_readings m then decimal_param (dget_or params ''total_units'' (PInt 0)) else Inr (of_int policy_life))"

definition left_of_layer :: "layer \<Rightarrow> rat" where
  "left_of_layer ly = max (csub (ly_life ly) (ly_position ly)) 0"

text \<open>\<open>_keep_end_life\<close>: the life an improvement needs to end with the asset.\<close>

definition keep_end_life :: "layer list \<Rightarrow> int \<Rightarrow> rat list \<Rightarrow> rat res" where
  "keep_end_life layers i weights =
     rbind (mapR (\<lambda>ly. case ly_end ly i of None \<Rightarrow> Inl Diverges | Some e \<Rightarrow> Inr e)
              (filter (\<lambda>ly. ly_position ly < ly_life ly) layers)) (\<lambda>ends.
     if ends = [] then Inr 0
     else let (last_month, last_part) = foldl max (hd ends) (tl ends);
              weight = (\<lambda>j. let offset = nat (j - i) in if offset < length weights then weights ! offset else 1)
          in Inr (csum (map (\<lambda>j. if j = last_month then min (weight j) last_part else weight j) [i..last_month])))"

definition new_layer :: "rat \<Rightarrow> rat \<Rightarrow> rat \<Rightarrow> int \<Rightarrow> rat list \<Rightarrow> dep_method \<Rightarrow> dict \<Rightarrow> layer" where
  "new_layer basis residual life start weights m params = \<lparr>ly_basis = basis, ly_residual = residual, ly_life = life,
     ly_start = start, ly_weights = weights, ly_method = m, ly_params = params, ly_fractions = []\<rparr>"

definition merged :: "layer list \<Rightarrow> rat \<Rightarrow> int \<Rightarrow> dep_method \<Rightarrow> dict \<Rightarrow> layer" where
  "merged layers value i m params =
     (let residual = min (csum (map ly_residual layers)) value;
          lefts = map left_of_layer layers;
          life = (if lefts = [] then 0 else foldl max (hd lefts) (tl lefts))
      in new_layer (csub value residual) residual life i [1] m params)"

definition restated_layer :: "rat \<Rightarrow> rat \<Rightarrow> int \<Rightarrow> layer \<times> rat \<Rightarrow> layer" where
  "restated_layer carrying tot i lv =
     (let (ly, now) = lv; value = d40 (cmul carrying now / tot); residual = min (ly_residual ly) value
      in new_layer (csub value residual) residual (left_of_layer ly) i [1] (ly_method ly) (ly_params ly))"

definition restated :: "layer list \<Rightarrow> rat \<Rightarrow> int \<Rightarrow> dep_method \<Rightarrow> dict \<Rightarrow> layer list res" where
  "restated layers carrying i m params =
     rmap (\<lambda>now. let tot = csum now in
        if tot \<le> 0 then [merged layers carrying i m params]
        else map (restated_layer carrying tot i) (zip layers now)) (mapR carrying_of layers)"

section \<open>A month\<close>

text \<open>\<open>_consume\<close>: the life a layer consumes in a month, the convention's part of it in the month it leaves.\<close>

definition consumed :: "layer \<Rightarrow> int \<Rightarrow> rat option \<Rightarrow> convention \<Rightarrow> int \<Rightarrow> date option \<Rightarrow> rat" where
  "consumed ly i reading conv fy_start disposal =
     (let remaining = csub (ly_life ly) (ly_position ly) in
      if dm_uses_readings (ly_method ly) then min (case reading of Some r \<Rightarrow> r | None \<Rightarrow> 0) remaining
      else let fraction = min (normal_fraction ly i) remaining
           in case disposal of None \<Rightarrow> fraction
              | Some day \<Rightarrow> cv_disposal conv fraction day (csum (drop (nat (max (fy_start - ly_start ly) 0)) (ly_fractions ly))) remaining)"

definition consume :: "int \<Rightarrow> rat option \<Rightarrow> convention \<Rightarrow> int \<Rightarrow> date option \<Rightarrow> layer \<Rightarrow> layer" where
  "consume i reading conv fy_start disposal ly =
     ly\<lparr>ly_fractions := ly_fractions ly @ [max (consumed ly i reading conv fy_start disposal) (- ly_position ly)]\<rparr>"

text \<open>The variables of \<open>schedule\<close>; \<open>fa_leaving\<close> and \<open>fa_disposal\<close> are those of one month.\<close>

record asset =
  fa_layers :: "layer list"
  fa_retired :: "layer list"
  fa_shares :: "(int \<times> layer list) list"
  fa_months :: "(int \<times> string option) list"
  fa_pending :: "movement list"
  fa_method :: dep_method
  fa_convention :: convention
  fa_params :: dict
  fa_life :: rat
  fa_leaving :: "(layer list \<times> date) list"
  fa_disposal :: "date option"

definition add_layer :: "layer \<Rightarrow> asset \<Rightarrow> asset" where
  "add_layer ly st = st\<lparr>fa_layers := fa_layers st @ [ly]\<rparr>"

definition replace_layers :: "layer list \<Rightarrow> asset \<Rightarrow> asset" where
  "replace_layers new st = st\<lparr>fa_retired := fa_retired st @ fa_layers st, fa_layers := new\<rparr>"

definition estimate_change :: "rules \<Rightarrow> policy \<Rightarrow> int \<Rightarrow> asset \<Rightarrow> rat \<Rightarrow> rat \<Rightarrow> string option \<Rightarrow> dict option \<Rightarrow> string option \<Rightarrow> asset res" where
  "estimate_change rl po i st life_months residual m p c =
     rbind (carrying_all (fa_layers st)) (\<lambda>carrying.
     rbind (case m of None \<Rightarrow> Inr (fa_method st) | Some k \<Rightarrow> rule_method rl k) (\<lambda>meth.
     let params = (case p of None \<Rightarrow> fa_params st | Some d \<Rightarrow> d) in
     rbind (case c of None \<Rightarrow> Inr (fa_convention st) | Some k \<Rightarrow> rule_convention rl k) (\<lambda>conv.
     rbind (method_life meth (po_life_months po) params) (\<lambda>life.
     Inr ((replace_layers [new_layer (csub carrying residual) residual life_months i [1] meth params] st)
            \<lparr>fa_method := meth, fa_params := params, fa_convention := conv, fa_life := life\<rparr>)))))"

fun apply_movement :: "rules \<Rightarrow> policy \<Rightarrow> int \<Rightarrow> asset \<Rightarrow> movement \<Rightarrow> asset res" where
  "apply_movement rl po i st (Acquire on amount) =
     Inr (add_layer (new_layer (csub amount (po_residual po)) (po_residual po) (fa_life st) i
            (cv_start_weights (fa_convention st) on (po_fiscal_year_start po)) (fa_method st) (fa_params st)) st)"
| "apply_movement rl po i st (Opening on cost accumulated life_months) =
     Inr (add_layer (new_layer (csub (csub cost accumulated) (po_residual po)) (po_residual po) (of_int life_months) i
            [1] (fa_method st) (fa_params st)) st)"
| "apply_movement rl po i st (Improve on amount life_months) =
     (let weights = cv_start_weights (fa_convention st) on (po_fiscal_year_start po) in
      rbind (case life_months of Some n \<Rightarrow> Inr (of_int n) | None \<Rightarrow> keep_end_life (fa_layers st) i weights) (\<lambda>life.
      Inr (add_layer (new_layer amount 0 life i weights (fa_method st) (fa_params st)) st)))"
| "apply_movement rl po i st (EstimateChange on life_months residual m p c) = estimate_change rl po i st life_months residual m p c"
| "apply_movement rl po i st (Revalue on fair_value) =
     Inr (replace_layers [merged (fa_layers st) fair_value i (fa_method st) (fa_params st)] st)"
| "apply_movement rl po i st (Impair on carrying) =
     rmap (\<lambda>new. replace_layers new st) (restated (fa_layers st) carrying i (fa_method st) (fa_params st))"
| "apply_movement rl po i st (Dispose on share) =
     Inr (if share < 1
          then st\<lparr>fa_layers := map (split_kept share) (fa_layers st),
                  fa_leaving := fa_leaving st @ [(map (split_gone share) (fa_layers st), on)]\<rparr>
          else st\<lparr>fa_disposal := Some on\<rparr>)"

definition month_reading :: "(string \<times> rat) list \<Rightarrow> int \<Rightarrow> asset \<Rightarrow> rat option \<times> string option" where
  "month_reading readings i st =
     (if list_ex (\<lambda>ly. dm_uses_readings (ly_method ly)) (fa_layers st @ concat (map fst (fa_leaving st)))
      then case map_of readings (period_label i) of Some r \<Rightarrow> (Some r, None) | None \<Rightarrow> (None, Some (period_label i))
      else (None, None))"

text \<open>Every layer consumes the month; what leaves the asset in it consumes its part and is retired.\<close>

definition consume_month :: "policy \<Rightarrow> (string \<times> rat) list \<Rightarrow> int \<Rightarrow> asset \<Rightarrow> asset" where
  "consume_month po readings i st =
     (let (reading, missing) = month_reading readings i st;
          fy_start = fiscal_year_start_index i (po_fiscal_year_start po);
          conv = fa_convention st;
          gone = map (\<lambda>(lys, on). map (consume i reading conv fy_start (Some on)) lys) (fa_leaving st)
      in st\<lparr>fa_layers := map (consume i reading conv fy_start (fa_disposal st)) (fa_layers st),
            fa_retired := fa_retired st @ concat gone,
            fa_shares := fa_shares st @ map (\<lambda>lys. (i, lys)) gone,
            fa_months := fa_months st @ [(i, missing)]\<rparr>)"

definition month_step :: "rules \<Rightarrow> policy \<Rightarrow> (string \<times> rat) list \<Rightarrow> int \<Rightarrow> asset \<Rightarrow> asset res" where
  "month_step rl po readings i st =
     rmap (consume_month po readings i)
       (foldR (apply_movement rl po i)
          (st\<lparr>fa_disposal := None, fa_leaving := [], fa_pending := dropWhile (\<lambda>m. first_month m \<le> i) (fa_pending st)\<rparr>)
          (takeWhile (\<lambda>m. first_month m \<le> i) (fa_pending st)))"

function run_months :: "rules \<Rightarrow> policy \<Rightarrow> (string \<times> rat) list \<Rightarrow> int \<Rightarrow> int \<Rightarrow> asset \<Rightarrow> asset res" where
  "run_months rl po readings last_month i st =
     (if i \<le> last_month
      then rbind (month_step rl po readings i st) (\<lambda>st'.
             if fa_disposal st' \<noteq> None then Inr st' else run_months rl po readings last_month (i + 1) st')
      else Inr st)"
  by pat_completeness auto
termination
  by (relation "measure (\<lambda>(rl, po, readings, last_month, i, st). nat (last_month + 1 - i))") auto

declare run_months.simps [simp del]

text \<open>The loop counted down, for evaluation.\<close>

primrec run_for :: "nat \<Rightarrow> rules \<Rightarrow> policy \<Rightarrow> (string \<times> rat) list \<Rightarrow> int \<Rightarrow> asset \<Rightarrow> asset res" where
  "run_for 0 rl po readings i st = Inr st"
| "run_for (Suc n) rl po readings i st =
     rbind (month_step rl po readings i st) (\<lambda>st'.
       if fa_disposal st' \<noteq> None then Inr st' else run_for n rl po readings (i + 1) st')"

lemma run_months_code [code]: "run_months rl po readings last_month i st = run_for (nat (last_month + 1 - i)) rl po readings i st"
proof (induction "nat (last_month + 1 - i)" arbitrary: i st)
  case 0
  then show ?case by (subst run_months.simps) simp
next
  case (Suc n)
  have "n = nat (last_month + 1 - (i + 1))" "i \<le> last_month" using Suc.hyps(2) by linarith+
  then show ?case
    using Suc.hyps(1) by (subst run_months.simps) (auto simp: Suc.hyps(2) [symmetric] intro!: rbind_cong)
qed

section \<open>The schedule\<close>

definition add_charge :: "(int \<times> rat) list \<Rightarrow> int \<times> rat \<Rightarrow> (int \<times> rat) list" where
  "add_charge by_month c =
     AList.update (fst c) (cadd (case map_of by_month (fst c) of Some x \<Rightarrow> x | None \<Rightarrow> 0) (snd c)) by_month"

definition layer_charges :: "(int \<times> rat) list \<Rightarrow> layer \<Rightarrow> (int \<times> rat) list res" where
  "layer_charges by_month ly =
     rmap (\<lambda>cs. foldl add_charge by_month (zip (map (\<lambda>k. ly_start ly + int k) [0..<length cs]) cs)) (ly_charges ly)"

record period_amount =
  pa_period :: string
  pa_amount :: rat
  pa_cumulative :: rat
  pa_missing :: "string option"

record dep_schedule =
  sd_periods :: "period_amount list"
  sd_layers :: "layer list"
  sd_parted :: "rat list"

fun posted_periods :: "(int \<times> rat) list \<Rightarrow> pyval \<Rightarrow> rat \<Rightarrow> rat \<Rightarrow> (int \<times> string option) list \<Rightarrow> period_amount list res" where
  "posted_periods by_month currency cumulative posted [] = Inr []"
| "posted_periods by_month currency cumulative posted ((i, missing) # months) =
     (let cum = cadd cumulative (case map_of by_month i of Some x \<Rightarrow> x | None \<Rightarrow> 0) in
      rbind (round_money40 cum currency) (\<lambda>rounded.
      rmap (\<lambda>ps. \<lparr>pa_period = period_label i, pa_amount = csub rounded posted, pa_cumulative = cum, pa_missing = missing\<rparr> # ps)
        (posted_periods by_month currency cum rounded months)))"

text \<open>\<open>layer.charges[at - start:]\<close>.\<close>

definition charges_from :: "int \<Rightarrow> layer \<Rightarrow> rat list res" where
  "charges_from left_at ly =
     rmap (\<lambda>cs. let k = left_at - ly_start ly in drop (nat (if k < 0 then max (int (length cs) + k) 0 else k)) cs) (ly_charges ly)"

definition parted_charge :: "int \<times> layer list \<Rightarrow> rat res" where
  "parted_charge share = rmap (csum \<circ> map csum) (mapR (charges_from (fst share)) (snd share))"

definition sort_movements :: "movement list \<Rightarrow> movement list" where
  "sort_movements movements = sort_key (\<lambda>m. (first_month m, m_on m, is_dispose m)) movements"

definition schedule_months :: "rules \<Rightarrow> policy \<Rightarrow> (string \<times> rat) list \<Rightarrow> int \<Rightarrow> dep_method \<Rightarrow> convention \<Rightarrow> rat \<Rightarrow> movement list \<Rightarrow> int list \<Rightarrow> asset res" where
  "schedule_months rl po readings last_month m c life pending starts =
     run_months rl po readings last_month (foldl min (hd starts) (tl starts))
       \<lparr>fa_layers = [], fa_retired = [], fa_shares = [], fa_months = [], fa_pending = pending, fa_method = m,
        fa_convention = c, fa_params = po_params po, fa_life = life, fa_leaving = [], fa_disposal = None\<rparr>"

definition schedule :: "rules \<Rightarrow> movement list \<Rightarrow> policy \<Rightarrow> string \<Rightarrow> pyval \<Rightarrow> (string \<times> rat) list \<Rightarrow> dep_schedule res" where
  "schedule rl movements po through currency readings =
     rbind (rule_method rl (po_method po)) (\<lambda>m.
     rbind (rule_convention rl (po_convention po)) (\<lambda>c.
     rbind (method_life m (po_life_months po) (po_params po)) (\<lambda>life.
     rbind (parse_period through) (\<lambda>last_month.
     let pending = sort_movements movements;
         starts = map first_month (filter (\<lambda>x. \<not> is_dispose x) pending) in
     if starts = [] then Inr \<lparr>sd_periods = [], sd_layers = [], sd_parted = []\<rparr>
     else rbind (schedule_months rl po readings last_month m c life pending starts) (\<lambda>st.
          rbind (foldR layer_charges [] (fa_retired st @ fa_layers st)) (\<lambda>by_month.
          rbind (round_money40 0 currency) (\<lambda>posted.
          rbind (posted_periods by_month currency 0 posted (fa_months st)) (\<lambda>periods.
          rmap (\<lambda>parted. \<lparr>sd_periods = periods, sd_layers = fa_layers st, sd_parted = parted\<rparr>)
            (mapR parted_charge (fa_shares st))))))))))"

end
