(* ===== verification/DepreciationFacts.thy ===== *)
theory DepreciationFacts
  imports AssetSchedule MoneyFacts
begin

text \<open>
  Facts of the depreciation calculation: the rounding of its context, the end of a layer's life,
  the amounts a schedule posts against its cumulative charge, and the total of a straight-line
  life under every convention of the module.
\<close>

section \<open>The context's rounding\<close>

lemma d40_exact: "sig_digits 40 x \<Longrightarrow> d40 x = x"
  by (simp add: d40_def round_sig_sig_digits)

lemma d40_idem [simp]: "d40 (d40 x) = d40 x"
  by (rule d40_exact) (simp add: d40_def sig_digits_round_sig)

lemma d40_0 [simp]: "d40 0 = 0"
  by (simp add: d40_def)

lemma d40_1 [simp]: "d40 1 = 1"
  by (rule d40_exact, rule sig_digits_of_scaled [of _ 1 0]) simp_all

lemma d40_scaled: "\<bar>n\<bar> \<le> 10 ^ 40 \<Longrightarrow> d40 (of_int n / 10 ^ k) = of_int n / 10 ^ k"
  by (rule d40_exact, rule sig_digits_of_scaled [OF refl])

lemma d40_int: "\<bar>n\<bar> \<le> 10 ^ 40 \<Longrightarrow> d40 (of_int n) = of_int n"
  using d40_scaled [of n 0] by simp

lemma d40_minus: "d40 (- x) = - d40 x"
  by (simp add: d40_def round_sig_minus)

lemma d40_nonneg: "0 \<le> x \<Longrightarrow> 0 \<le> d40 x"
  by (simp add: d40_def round_sig_nonneg)

lemma d40_nonpos: "x \<le> 0 \<Longrightarrow> d40 x \<le> 0"
  using d40_nonneg [of "- x"] by (simp add: d40_minus)

text \<open>The relative error of one operation.\<close>

definition eps :: rat where "eps = 1 / 10 ^ 39"

lemma d40_error: "\<bar>d40 x - x\<bar> \<le> \<bar>x\<bar> * eps"
proof (cases "x = 0")
  case False
  have "\<bar>d40 x - x\<bar> \<le> 10 powi (mag 10 \<bar>x\<bar> - 40 + 1) / 2"
    using round_sig_error [of 10 x 40] False by (simp add: d40_def)
  also have "(10::rat) powi (mag 10 \<bar>x\<bar> - 40 + 1) = 10 powi (mag 10 \<bar>x\<bar>) * 10 powi (- 39)"
    using p10_add [of "mag 10 \<bar>x\<bar>" "- 39"] by simp
  also have "10 powi (mag 10 \<bar>x\<bar>) * 10 powi (- 39) / 2 \<le> \<bar>x\<bar> * 10 powi (- 39)"
  proof -
    have "10 powi (mag 10 \<bar>x\<bar>) * 10 powi (- 39) \<le> \<bar>x\<bar> * (10::rat) powi (- 39)"
      using mag_bounds(1) [of 10 "\<bar>x\<bar>"] False by (intro mult_right_mono) auto
    moreover have "0 \<le> 10 powi (mag 10 \<bar>x\<bar>) * (10::rat) powi (- 39)" by simp
    ultimately show ?thesis by linarith
  qed
  also have "(10::rat) powi (- 39) = eps" by (simp add: eps_def power_int_minus field_simps)
  finally show ?thesis .
qed simp

lemma eps_pos [simp]: "0 < eps" "0 \<le> eps"
  by (simp_all add: eps_def)

lemma d40_within: "\<bar>x\<bar> \<le> m \<Longrightarrow> \<bar>d40 x - x\<bar> \<le> m * eps"
  by (rule order_trans [OF d40_error]) (intro mult_right_mono, simp_all)

lemma round_sig_mono_pos:
  assumes "0 < x" "x \<le> y" "0 < p"
  shows "round_sig 10 p x \<le> round_sig 10 p y"
proof -
  have y: "0 < y" using assms by linarith
  define mx where "mx = mag 10 x"
  define my where "my = mag 10 y"
  define ux :: rat where "ux = 10 powi (mx - int p + 1)"
  define uy :: rat where "uy = 10 powi (my - int p + 1)"
  have u: "0 < ux" "0 < uy" by (simp_all add: ux_def uy_def)
  have rx: "round_sig 10 p x = of_int (rhe (x / ux)) * ux" and ry: "round_sig 10 p y = of_int (rhe (y / uy)) * uy"
    using assms y by (simp_all add: round_sig_def Let_def ux_def uy_def mx_def my_def)
  have bx: "10 powi mx \<le> x" "x < 10 powi (mx + 1)" and by': "10 powi my \<le> y" "y < 10 powi (my + 1)"
    using mag_bounds [of 10 x] mag_bounds [of 10 y] assms y by (simp_all add: mx_def my_def)
  have "(10::rat) powi mx < 10 powi (my + 1)" using bx(1) by'(2) assms(2) by linarith
  then have m: "mx \<le> my" by (simp add: p10_less_iff)
  show ?thesis
  proof (cases "mx = my")
    case True
    then have "rhe (x / ux) \<le> rhe (y / uy)"
      using assms(2) u by (intro rhe_mono) (simp add: ux_def uy_def divide_right_mono)
    then show ?thesis using True u by (simp add: rx ry ux_def uy_def)
  next
    case False
    have "(10::rat) powi (mx + 1) = of_int (10 ^ p) * ux" "(10::rat) powi my = of_int (10 ^ (p - 1)) * uy"
      using assms(3) by (simp_all add: ux_def uy_def of_nat_diff flip: power_int_of_nat p10_add)
    then have "x / ux \<le> of_int (10 ^ p)" "of_int (10 ^ (p - 1)) \<le> y / uy"
      using bx by' u by (simp_all add: field_simps)
    then have "rhe (x / ux) \<le> rhe (of_int (10 ^ p))" "rhe (of_int (10 ^ (p - 1))) \<le> rhe (y / uy)" by (auto intro!: rhe_mono)
    then have r: "rhe (x / ux) \<le> 10 ^ p" "10 ^ (p - 1) \<le> rhe (y / uy)" by (simp_all only: rhe_of_int)
    have "of_int (rhe (x / ux)) * ux \<le> of_int (10 ^ p) * ux" using r(1) u by (intro mult_right_mono) (simp_all only: of_int_le_iff less_imp_le)
    also have "\<dots> = 10 powi (mx + 1)" using \<open>(10::rat) powi (mx + 1) = _\<close> by simp
    also have "\<dots> \<le> 10 powi my" using m False by (simp add: p10_le_iff)
    also have "\<dots> = of_int (10 ^ (p - 1)) * uy" by (rule \<open>(10::rat) powi my = _\<close>)
    also have "\<dots> \<le> of_int (rhe (y / uy)) * uy" using r(2) u by (intro mult_right_mono) (simp_all only: of_int_le_iff less_imp_le)
    finally show ?thesis by (simp only: rx ry)
  qed
qed

lemma d40_mono: "x \<le> y \<Longrightarrow> d40 x \<le> d40 y"
proof -
  assume xy: "x \<le> y"
  consider "0 < x" | "x \<le> 0" "0 \<le> y" | "y < 0" by linarith
  then show ?thesis
  proof cases
    case 2
    then show ?thesis using d40_nonneg [of y] d40_nonpos [of x] by linarith
  next
    case 3
    then show ?thesis using round_sig_mono_pos [of "- y" "- x" 40] xy by (simp add: d40_def round_sig_minus)
  qed (simp add: d40_def round_sig_mono_pos xy)
qed

lemma rhu_unique: "\<bar>of_int n - x\<bar> < 1/2 \<Longrightarrow> rhu x = n"
proof -
  assume "\<bar>of_int n - x\<bar> < 1/2"
  with rhu_error [of x] have "\<bar>of_int (rhu x) - (of_int n :: rat)\<bar> < 1" by linarith
  then have "\<bar>rhu x - n\<bar> < 1" by (metis of_int_abs of_int_diff of_int_less_1_iff)
  then show ?thesis by simp
qed

section \<open>The end of a life\<close>

text \<open>A whole month consumes at least half of one, whatever the rounding.\<close>

lemma whole_month:
  assumes "left \<le> 10 ^ 38"
  shows "csub left (min 1 left) \<le> max 0 (left - 1 / 2)"
proof (cases "1 < left")
  case True
  have "csub left 1 \<le> (left - 1) + 10 ^ 38 * eps"
    using d40_within [of "left - 1" "10 ^ 38"] assms True by (simp add: csub_def)
  also have "10 ^ 38 * eps \<le> 1 / 2" by (simp add: eps_def)
  finally show ?thesis using True by (simp add: min_def)
qed (simp add: csub_def min_def)

lemma end_from_whole:
  assumes "ly_start ly + int (length (ly_weights ly)) \<le> i" "left \<le> of_nat k / 2" "left \<le> 10 ^ 38"
  shows "\<exists>e f. end_from ly left i = Some (e, f) \<and> i \<le> e \<and> e \<le> i + int k \<and> f \<le> normal_fraction ly e"
  using assms
proof (induction k arbitrary: left i)
  case 0
  then show ?case by (subst end_from.simps) (auto simp: csub_def normal_fraction_def Let_def min_def)
next
  case (Suc k)
  have n: "normal_fraction ly i = 1" using Suc.prems(1) by (simp add: normal_fraction_def Let_def)
  let ?left = "csub left (min 1 left)"
  note w = whole_month [OF Suc.prems(3)]
  show ?case
  proof (cases "?left \<le> 0")
    case False
    then have l: "?left \<le> left - 1 / 2" using w by linarith
    then have "?left \<le> of_nat k / 2" using Suc.prems(2) by simp
    moreover have "?left \<le> 10 ^ 38" using l Suc.prems(3) by linarith
    ultimately obtain e f where "end_from ly ?left (i + 1) = Some (e, f)" "i + 1 \<le> e" "e \<le> i + 1 + int k" "f \<le> normal_fraction ly e"
      using Suc.IH [of "i + 1" ?left] Suc.prems(1) by auto
    then show ?thesis using False n by (subst end_from.simps) (auto simp: Let_def)
  qed (subst end_from.simps, use n in \<open>auto simp: Let_def\<close>)
qed

lemma end_from_returns:
  assumes "\<forall>w\<in>set (ly_weights ly). 0 \<le> w" "ly_start ly \<le> i" "left \<le> 10 ^ 38" "d40 left = left" "left \<le> of_nat k / 2"
  shows "\<exists>e f. end_from ly left i = Some (e, f) \<and> i \<le> e
    \<and> e \<le> max i (ly_start ly + int (length (ly_weights ly))) + int k \<and> f \<le> normal_fraction ly e"
  using assms
proof (induction "nat (ly_start ly + int (length (ly_weights ly)) - i)" arbitrary: left i)
  case 0
  then show ?case using end_from_whole [of ly i left k] by auto
next
  case (Suc m)
  have off: "i - ly_start ly < int (length (ly_weights ly))" using Suc.hyps(2) by linarith
  let ?w = "normal_fraction ly i"
  have "?w \<in> set (ly_weights ly)"
    using off Suc.prems(2) by (auto simp: normal_fraction_def Let_def mod_pos_pos_trivial intro!: nth_mem)
  then have w: "0 \<le> ?w" using Suc.prems(1) by blast
  let ?left = "csub left (min ?w left)"
  show ?case
  proof (cases "?left \<le> 0")
    case False
    have "?left \<le> d40 left"
      using False w by (auto simp: csub_def min_def intro!: d40_mono split: if_splits)
    then have l: "?left \<le> left" using Suc.prems(4) by simp
    obtain e f where "end_from ly ?left (i + 1) = Some (e, f)" "i + 1 \<le> e"
        "e \<le> max (i + 1) (ly_start ly + int (length (ly_weights ly))) + int k" "f \<le> normal_fraction ly e"
    proof -
      have "m = nat (ly_start ly + int (length (ly_weights ly)) - (i + 1))" using Suc.hyps(2) by linarith
      moreover have "ly_start ly \<le> i + 1" "?left \<le> 10 ^ 38" "d40 ?left = ?left" "?left \<le> of_nat k / 2"
        using Suc.prems l by (simp_all add: csub_def)
      ultimately show ?thesis using Suc.hyps(1) [of "i + 1" ?left] Suc.prems(1) that by blast
    qed
    moreover have "end_from ly left i = end_from ly ?left (i + 1)"
      using False by (subst end_from.simps) (simp add: Let_def)
    ultimately show ?thesis using Suc.hyps(2) by auto
  qed (subst end_from.simps, auto simp: Let_def)
qed

text \<open>C26: The search for the month a layer's life runs out always returns, within twice its
  remaining life of months after the weights of its convention, so an improvement without a
  life of its own always gets one.\<close>

theorem life_runs_out:
  assumes "\<forall>ly\<in>set layers. ly_start ly \<le> i \<and> (\<forall>w\<in>set (ly_weights ly). 0 \<le> w)
             \<and> csub (ly_life ly) (ly_position ly) \<le> min (of_nat k / 2) (10 ^ 38)"
  shows "(\<forall>ly\<in>set layers. \<exists>e f. ly_end ly i = Some (e, f) \<and> i \<le> e
            \<and> e \<le> max i (ly_start ly + int (length (ly_weights ly))) + int k \<and> f \<le> normal_fraction ly e)
    \<and> (\<exists>life. keep_end_life layers i weights = Inr life)"
proof -
  have e: "\<exists>e f. ly_end ly i = Some (e, f) \<and> i \<le> e
            \<and> e \<le> max i (ly_start ly + int (length (ly_weights ly))) + int k \<and> f \<le> normal_fraction ly e"
    if "ly \<in> set layers" for ly
    unfolding ly_end_def using assms that by (intro end_from_returns) (auto simp: csub_def)
  then have "mapR (\<lambda>ly. case ly_end ly i of None \<Rightarrow> Inl Diverges | Some e \<Rightarrow> Inr e) (filter (\<lambda>ly. ly_position ly < ly_life ly) layers)
      = Inr (map (\<lambda>ly. the (ly_end ly i)) (filter (\<lambda>ly. ly_position ly < ly_life ly) layers))"
    by (intro mapR_Inr_map) (auto split: option.split, metis option.distinct(1))
  then show ?thesis using e by (auto simp: keep_end_life_def Let_def split: prod.split)
qed

lemma life_runs_out_witness:
  "\<exists>life. keep_end_life [new_layer 100 0 12 24314 [1 / 2] straight_line []] 24314 [1 / 2] = Inr life"
  using life_runs_out [of "[new_layer 100 0 12 24314 [1 / 2] straight_line []]" 24314 24 "[1 / 2]"] d40_int [of 12]
  by (simp add: new_layer_def ly_position_def csum_def csub_def)

section \<open>Amounts posted\<close>

lemma round_money40_Inr:
  assumes "round_money40 x cur = Inr y"
  obtains dp n where "currency_dp cur = Inr dp" "y = of_int n / 10 ^ dp" "n = rhu (x * 10 ^ dp)" "\<bar>n\<bar> < 10 ^ 40" "\<bar>y - x\<bar> \<le> 1 / 2"
proof -
  obtain dp where dp: "currency_dp cur = Inr dp" and y: "y = of_int (rhu (x * 10 ^ dp)) / 10 ^ dp" "\<bar>rhu (x * 10 ^ dp)\<bar> < 10 ^ 40"
    using assms by (auto simp: round_money40_def rbind_eq_Inr Let_def split: if_splits)
  have "\<bar>of_int (rhu (x * 10 ^ dp)) - x * 10 ^ dp\<bar> \<le> (1/2 :: rat)" by (rule rhu_error)
  then have "\<bar>y * 10 ^ dp - x * 10 ^ dp\<bar> \<le> 1/2" by (simp add: y)
  then have "\<bar>y - x\<bar> * 10 ^ dp \<le> 1/2" by (simp add: abs_mult flip: left_diff_distrib)
  moreover have "\<bar>y - x\<bar> * 1 \<le> \<bar>y - x\<bar> * 10 ^ dp" by (intro mult_left_mono) simp_all
  ultimately have "\<bar>y - x\<bar> \<le> 1/2" by (metis mult.right_neutral order_trans)
  with that dp y show ?thesis by blast
qed

lemma near_le: "\<bar>c\<bar> \<le> m \<Longrightarrow> \<bar>r - c\<bar> \<le> d \<Longrightarrow> d + m \<le> n \<Longrightarrow> \<bar>r\<bar> \<le> (n::rat)"
  by linarith

lemma near_diff: "\<bar>a\<bar> \<le> m \<Longrightarrow> \<bar>b\<bar> \<le> m \<Longrightarrow> \<bar>a - b\<bar> \<le> m + (m::rat)"
  by linarith

text \<open>An amount in whole minor units of the currency.\<close>

definition on_grid :: "pyval \<Rightarrow> rat \<Rightarrow> bool" where
  "on_grid cur y \<longleftrightarrow> (\<exists>dp n. currency_dp cur = Inr dp \<and> y = of_int n / 10 ^ dp)"

lemma csub_on_grid:
  assumes "on_grid cur a" "on_grid cur b" "\<bar>a\<bar> \<le> 10 ^ 31" "\<bar>b\<bar> \<le> 10 ^ 31"
  shows "csub a b = a - b"
proof -
  obtain dp m n where dp: "currency_dp cur = Inr dp" and ab: "a = of_int m / 10 ^ dp" "b = of_int n / 10 ^ dp"
    using assms(1,2) by (auto simp: on_grid_def)
  have "\<bar>a - b\<bar> * 10 ^ dp \<le> (10 ^ 32) * 10 ^ 4"
  proof (rule mult_mono)
    show "\<bar>a - b\<bar> \<le> 10 ^ 32" using near_diff [OF assms(3,4)] by simp
    show "(10::rat) ^ dp \<le> 10 ^ 4" using currency_dp_le [OF dp] by (intro power_increasing) simp_all
  qed simp_all
  moreover have "\<bar>a - b\<bar> * 10 ^ dp = \<bar>(a - b) * 10 ^ dp\<bar>" by (simp add: abs_mult)
  moreover have "(a - b) * 10 ^ dp = of_int (m - n)" by (simp add: ab left_diff_distrib)
  moreover have "(10::rat) ^ 32 * 10 ^ 4 \<le> of_int (10 ^ 40)" by simp
  ultimately have "\<bar>of_int (m - n) :: rat\<bar> \<le> of_int (10 ^ 40)" by (metis order_trans)
  then have "\<bar>m - n\<bar> \<le> 10 ^ 40" by (simp only: of_int_abs [symmetric] of_int_le_iff)
  then have "d40 (of_int (m - n) / 10 ^ dp) = of_int (m - n) / 10 ^ dp" by (rule d40_scaled)
  then show ?thesis by (simp add: csub_def ab diff_divide_distrib)
qed

lemma posted_accumulate:
  assumes "posted_periods by_month cur cum posted months = Inr ps" "on_grid cur posted" "\<bar>posted\<bar> \<le> 10 ^ 31"
    and "\<forall>p\<in>set ps. \<bar>pa_cumulative p\<bar> \<le> 10 ^ 30" "k < length ps"
  shows "round_money40 (pa_cumulative (ps ! k)) cur = Inr (posted + sum_list (map pa_amount (take (Suc k) ps)))"
  using assms
proof (induction months arbitrary: cum posted ps k)
  case (Cons c months)
  obtain i missing where c: "c = (i, missing)" by (cases c)
  define cum' where "cum' = cadd cum (case map_of by_month i of Some x \<Rightarrow> x | None \<Rightarrow> 0)"
  obtain r qs where r: "round_money40 cum' cur = Inr r" and qs: "posted_periods by_month cur cum' r months = Inr qs"
    and ps: "ps = \<lparr>pa_period = period_label i, pa_amount = csub r posted, pa_cumulative = cum', pa_missing = missing\<rparr> # qs"
    using Cons.prems(1) by (auto simp: c cum'_def rbind_eq_Inr rmap_eq_Inr Let_def)
  have g: "on_grid cur r" "\<bar>r\<bar> \<le> 10 ^ 31"
  proof -
    obtain dp n where "currency_dp cur = Inr dp" "r = of_int n / 10 ^ dp" and d: "\<bar>r - cum'\<bar> \<le> 1 / 2"
      using round_money40_Inr [OF r] by metis
    then show "on_grid cur r" by (auto simp: on_grid_def)
    have "\<bar>cum'\<bar> \<le> 10 ^ 30" using Cons.prems(4) by (simp add: ps)
    then show "\<bar>r\<bar> \<le> 10 ^ 31" using d by (rule near_le) simp
  qed
  have sub: "csub r posted = r - posted" using csub_on_grid g Cons.prems(2,3) by blast
  show ?case
  proof (cases k)
    case 0
    then show ?thesis using r by (simp add: ps sub)
  next
    case (Suc j)
    then have "round_money40 (pa_cumulative (qs ! j)) cur = Inr (r + sum_list (map pa_amount (take (Suc j) qs)))"
      using Cons.IH [OF qs g] Cons.prems(4,5) by (simp add: ps)
    then show ?thesis using Suc by (simp add: ps sub)
  qed
qed simp

lemma scheduleE:
  assumes "schedule rl movements po through cur readings = Inr s" "\<exists>m\<in>set movements. \<not> is_dispose m"
  obtains m c life last_month st by_month where "rule_method rl (po_method po) = Inr m" "rule_convention rl (po_convention po) = Inr c"
    "method_life m (po_life_months po) (po_params po) = Inr life" "parse_period through = Inr last_month"
    "schedule_months rl po readings last_month m c life (sort_movements movements)
       (map first_month (filter (\<lambda>x. \<not> is_dispose x) (sort_movements movements))) = Inr st"
    "foldR layer_charges [] (fa_retired st @ fa_layers st) = Inr by_month"
    "posted_periods by_month cur 0 0 (fa_months st) = Inr (sd_periods s)"
proof -
  have ne: "filter (\<lambda>x. \<not> is_dispose x) (sort_movements movements) \<noteq> []"
    using assms(2) by (auto simp: filter_empty_conv sort_movements_def)
  have z: "posted = 0" if "round_money40 0 cur = Inr posted" for posted
    using that by (auto simp: round_money40_def rbind_eq_Inr Let_def)
  show ?thesis
    using assms(1) ne unfolding schedule_def Let_def
    by (auto elim!: rbindE simp: rmap_eq_Inr dest!: z) (rule that, assumption+, simp)
qed

lemma posted_labels: "posted_periods by_month cur cum posted months = Inr ps \<Longrightarrow> map pa_period ps = map (period_label \<circ> fst) months"
  by (induction months arbitrary: cum posted ps) (auto simp: rbind_eq_Inr rmap_eq_Inr Let_def)

text \<open>C18: The amounts of every schedule add up, month by month, to the charge accumulated so far
  rounded once to the currency: whatever the movements, the methods and the conventions, no
  rounding difference is ever lost or made.\<close>

theorem schedule_accumulates:
  assumes "schedule rl movements po through cur readings = Inr s"
    and "\<forall>p\<in>set (sd_periods s). \<bar>pa_cumulative p\<bar> \<le> 10 ^ 30" "k < length (sd_periods s)"
  shows "round_money40 (pa_cumulative (sd_periods s ! k)) cur = Inr (sum_list (map pa_amount (take (Suc k) (sd_periods s))))"
proof -
  have nd: "\<exists>m\<in>set movements. \<not> is_dispose m"
  proof (rule ccontr)
    assume "\<not> ?thesis"
    then have f: "filter (\<lambda>x. \<not> is_dispose x) (sort_movements movements) = []"
      by (auto simp: filter_empty_conv sort_movements_def)
    have "sd_periods s = []" using assms(1) unfolding schedule_def Let_def f by (auto elim!: rbindE)
    then show False using assms(3) by simp
  qed
  obtain by_month and st :: asset where p: "posted_periods by_month cur 0 0 (fa_months st) = Inr (sd_periods s)"
    by (rule scheduleE [OF assms(1) nd]) blast
  have "on_grid cur 0"
  proof -
    obtain r where "round_money40 (pa_cumulative (sd_periods s ! 0)) cur = Inr r"
      using p assms(3) by (cases "fa_months st") (auto simp: rbind_eq_Inr rmap_eq_Inr Let_def)
    then obtain dp where "currency_dp cur = Inr dp" using round_money40_Inr by metis
    then show ?thesis by (auto simp: on_grid_def intro!: exI [of _ 0])
  qed
  with posted_accumulate [OF p _ _ assms(2,3)] show ?thesis by simp
qed

section \<open>The months of a schedule\<close>

fun leaves_wholly :: "movement \<Rightarrow> bool" where
  "leaves_wholly (Dispose _ share) = (\<not> share < 1)"
| "leaves_wholly _ = False"

lemma apply_movement_frame:
  assumes "apply_movement rl po i st m = Inr st'"
  shows "fa_months st' = fa_months st" "fa_pending st' = fa_pending st"
    "fa_disposal st' \<noteq> None \<longleftrightarrow> fa_disposal st \<noteq> None \<or> leaves_wholly m"
  using assms by (cases m; force simp: add_layer_def replace_layers_def estimate_change_def rbind_eq_Inr rmap_eq_Inr Let_def)+

lemma apply_movements_frame:
  assumes "foldR (apply_movement rl po i) st ms = Inr st'"
  shows "fa_months st' = fa_months st \<and> fa_pending st' = fa_pending st
    \<and> (fa_disposal st' \<noteq> None \<longleftrightarrow> fa_disposal st \<noteq> None \<or> (\<exists>m\<in>set ms. leaves_wholly m))"
  using assms
proof (induction ms arbitrary: st)
  case (Cons m ms)
  then obtain st1 where s: "apply_movement rl po i st m = Inr st1" "foldR (apply_movement rl po i) st1 ms = Inr st'"
    by (auto simp: rbind_eq_Inr)
  show ?case using Cons.IH [OF s(2)] apply_movement_frame [OF s(1)] by auto
qed simp

lemma month_step_frame:
  assumes "month_step rl po readings i st = Inr st'"
  shows "map fst (fa_months st') = map fst (fa_months st) @ [i]"
    "fa_pending st' = dropWhile (\<lambda>m. first_month m \<le> i) (fa_pending st)"
    "fa_disposal st' \<noteq> None \<longleftrightarrow> (\<exists>m\<in>set (takeWhile (\<lambda>m. first_month m \<le> i) (fa_pending st)). leaves_wholly m)"
proof -
  obtain st1 where st1: "foldR (apply_movement rl po i) (st\<lparr>fa_disposal := None, fa_leaving := [],
      fa_pending := dropWhile (\<lambda>m. first_month m \<le> i) (fa_pending st)\<rparr>) (takeWhile (\<lambda>m. first_month m \<le> i) (fa_pending st)) = Inr st1"
    and st': "st' = consume_month po readings i st1"
    using assms by (auto simp: month_step_def rmap_eq_Inr)
  note f = apply_movements_frame [OF st1]
  have c: "map fst (fa_months st') = map fst (fa_months st1) @ [i]" "fa_pending st' = fa_pending st1" "fa_disposal st' = fa_disposal st1"
    by (simp_all add: st' consume_month_def Let_def split: prod.split)
  show "map fst (fa_months st') = map fst (fa_months st) @ [i]"
    "fa_pending st' = dropWhile (\<lambda>m. first_month m \<le> i) (fa_pending st)"
    "fa_disposal st' \<noteq> None \<longleftrightarrow> (\<exists>m\<in>set (takeWhile (\<lambda>m. first_month m \<le> i) (fa_pending st)). leaves_wholly m)"
    using f c by simp_all
qed

text \<open>The month a schedule ends: the one asked for, or that of the disposal of the whole asset.\<close>

definition ends_at :: "movement list \<Rightarrow> int \<Rightarrow> int \<Rightarrow> int" where
  "ends_at pending i last_month =
     (case find leaves_wholly pending of None \<Rightarrow> last_month | Some m \<Rightarrow> min last_month (max i (first_month m)))"

lemma find_take_drop:
  "find P xs = (case find P (takeWhile Q xs) of Some x \<Rightarrow> Some x | None \<Rightarrow> find P (dropWhile Q xs))"
  by (metis find_append_split takeWhile_dropWhile_id)

lemma take_while_found: "find P (takeWhile Q xs) = Some x \<Longrightarrow> Q x \<and> x \<in> set xs"
  by (metis find_Some_iff nth_mem set_takeWhileD)

lemma run_months_range:
  assumes "run_months rl po readings last_month i st = Inr st'" "sorted (map first_month (fa_pending st))" "i \<le> last_month + 1"
  shows "map fst (fa_months st') = map fst (fa_months st) @ [i..ends_at (fa_pending st) i last_month]"
  using assms
proof (induction rl po readings last_month i st rule: run_months.induct)
  case (1 rl po readings last_month i st)
  let ?Q = "\<lambda>m. first_month m \<le> i"
  show ?case
  proof (cases "i \<le> last_month")
    case False
    then show ?thesis using "1.prems" by (auto simp: run_months.simps [of rl po readings last_month i st] ends_at_def split: option.split)
  next
    case True
    obtain st1 where st1: "month_step rl po readings i st = Inr st1"
      and rest: "(if fa_disposal st1 \<noteq> None then Inr st1 else run_months rl po readings last_month (i + 1) st1) = Inr st'"
      using "1.prems"(1) True by (auto simp: run_months.simps [of rl po readings last_month i st] rbind_eq_Inr)
    note f = month_step_frame [OF st1]
    show ?thesis
    proof (cases "fa_disposal st1 = None")
      case False
      then obtain m where m: "find leaves_wholly (takeWhile ?Q (fa_pending st)) = Some m"
        using f(3) by (cases "find leaves_wholly (takeWhile ?Q (fa_pending st))") (auto simp: find_None_iff)
      then have "find leaves_wholly (fa_pending st) = Some m" "first_month m \<le> i"
        using find_take_drop [of leaves_wholly "fa_pending st" ?Q] take_while_found [OF m] by simp_all
      then have "ends_at (fa_pending st) i last_month = i" using True by (simp add: ends_at_def max_def)
      then show ?thesis using False rest f(1) by simp
    next
      case none: True
      have p: "find leaves_wholly (takeWhile ?Q (fa_pending st)) = None"
        using none f(3) by (auto simp: find_None_iff)
      then have same: "find leaves_wholly (fa_pending st1) = find leaves_wholly (fa_pending st)"
        using find_take_drop [of leaves_wholly "fa_pending st" ?Q] f(2) by simp
      have srt: "sorted (map first_month (fa_pending st1))"
        using "1.prems"(2) f(2) by (metis dropWhile_eq_drop drop_map sorted_wrt_drop)
      have late: "i < first_month m" if "m \<in> set (fa_pending st1)" for m
      proof (cases "fa_pending st1")
        case (Cons x xs)
        then have "\<not> first_month x \<le> i" using f(2) by (metis hd_dropWhile list.sel(1) list.distinct(1))
        then show ?thesis using srt that Cons by auto
      qed (use that in simp)
      have "ends_at (fa_pending st1) (i + 1) last_month = ends_at (fa_pending st) i last_month"
      proof (cases "find leaves_wholly (fa_pending st1)")
        case (Some m)
        then have "i < first_month m" using late by (metis find_Some_iff nth_mem)
        then show ?thesis unfolding ends_at_def same [symmetric] by (simp add: Some max_def)
      qed (use same in \<open>simp add: ends_at_def\<close>)
      moreover have "i \<le> ends_at (fa_pending st) i last_month" using True by (auto simp: ends_at_def split: option.split)
      moreover have "map fst (fa_months st') = map fst (fa_months st1) @ [i + 1..ends_at (fa_pending st1) (i + 1) last_month]"
        using "1.IH" [OF True st1] none rest srt True by simp
      ultimately show ?thesis using f(1) by (simp add: upto_rec1)
    qed
  qed
qed

lemma sorted_sort_movements: "sorted (map first_month (sort_movements movements))"
proof -
  have "sorted (map (\<lambda>m. (first_month m, m_on m, is_dispose m)) (sort_movements movements))"
    unfolding sort_movements_def by (rule sorted_sort_key)
  then show ?thesis by (auto simp: sorted_wrt_map less_eq_prod_def elim!: sorted_wrt_mono_rel [rotated])
qed

lemma foldl_min: "foldl min (x::int) xs = Min (set (x # xs))"
proof (induction xs arbitrary: x)
  case (Cons a xs)
  have "Min (set (min x a # xs)) = Min (set (x # a # xs))" by (cases xs) (simp_all add: min.assoc)
  then show ?case using Cons.IH [of "min x a"] by simp
qed simp

lemma find_sorted_min:
  assumes "find P xs = Some m" "sorted (map f xs)"
  shows "f m = Min (f ` {x \<in> set xs. P x})"
proof -
  obtain i where i: "i < length xs" "P (xs ! i)" "m = xs ! i" "\<forall>j<i. \<not> P (xs ! j)"
    using assms(1) by (auto simp: find_Some_iff)
  show ?thesis
  proof (rule Min_eqI [symmetric])
    fix y assume "y \<in> f ` {x \<in> set xs. P x}"
    then obtain j where j: "j < length xs" "P (xs ! j)" "y = f (xs ! j)" by (auto simp: in_set_conv_nth)
    then have "i \<le> j" using i(4) by (meson not_less)
    then show "f m \<le> y" using assms(2) j i by (simp add: sorted_iff_nth_mono)
  qed (use i in auto)
qed

text \<open>C23: A schedule holds every month from the first in service, without a gap, to the month asked
  for or, before it, the month the whole asset is disposed of: nothing is charged before the asset
  is in service or after it has left.\<close>

theorem schedule_periods:
  assumes "schedule rl movements po through cur readings = Inr s" "parse_period through = Inr last_month"
    and "\<exists>m\<in>set movements. \<not> is_dispose m"
    and "first = Min (first_month ` {m \<in> set movements. \<not> is_dispose m})" "first \<le> last_month + 1"
  shows "map pa_period (sd_periods s) = map period_label
    [first..if (\<exists>m\<in>set movements. leaves_wholly m)
            then min last_month (max first (Min (first_month ` {m \<in> set movements. leaves_wholly m}))) else last_month]"
proof -
  let ?ms = "sort_movements movements"
  have set_ms: "set ?ms = set movements" by (simp add: sort_movements_def)
  obtain m c life st by_month where sch: "schedule_months rl po readings last_month m c life ?ms
       (map first_month (filter (\<lambda>x. \<not> is_dispose x) ?ms)) = Inr st"
    and post: "posted_periods by_month cur 0 0 (fa_months st) = Inr (sd_periods s)"
    by (rule scheduleE [OF assms(1,3)]) (simp add: assms(2))
  let ?starts = "map first_month (filter (\<lambda>x. \<not> is_dispose x) ?ms)"
  have "?starts \<noteq> []" using assms(3) set_ms by (auto simp: filter_empty_conv)
  then have "foldl min (hd ?starts) (tl ?starts) = Min (set ?starts)" by (cases ?starts) (simp_all add: foldl_min)
  also have "set ?starts = first_month ` {m \<in> set movements. \<not> is_dispose m}" by (auto simp: set_ms)
  finally have first: "foldl min (hd ?starts) (tl ?starts) = first" by (simp add: assms(4))
  have "map fst (fa_months st) = [first..ends_at ?ms first last_month]"
    using run_months_range [OF sch [unfolded schedule_months_def first]] sorted_sort_movements assms(5) by simp
  moreover have "ends_at ?ms first last_month = (if (\<exists>m\<in>set movements. leaves_wholly m)
            then min last_month (max first (Min (first_month ` {m \<in> set movements. leaves_wholly m}))) else last_month)"
  proof (cases "find leaves_wholly ?ms")
    case None
    then have "\<not> (\<exists>m\<in>set movements. leaves_wholly m)" by (simp add: find_None_iff set_ms)
    then show ?thesis using None by (simp add: ends_at_def)
  next
    case (Some m)
    then have "m \<in> set movements" "leaves_wholly m" by (auto simp: find_Some_iff simp flip: set_ms)
    then show ?thesis using find_sorted_min [OF Some sorted_sort_movements] Some by (auto simp: ends_at_def set_ms)
  qed
  moreover have "map pa_period (sd_periods s) = map period_label (map fst (fa_months st))"
    using posted_labels [OF post] by simp
  ultimately show ?thesis by simp
qed

section \<open>A life consumed\<close>

text \<open>The weight of the \<open>j\<close>-th month, the life consumed before it and in it.\<close>

definition weight_at :: "rat list \<Rightarrow> nat \<Rightarrow> rat" where
  "weight_at ws j = (if j < length ws then ws ! j else 1)"

definition part_at :: "rat list \<Rightarrow> rat \<Rightarrow> nat \<Rightarrow> rat \<Rightarrow> rat" where
  "part_at ws n j p = max (min (weight_at ws j) (csub n p)) (- p)"

primrec pos_at :: "rat list \<Rightarrow> rat \<Rightarrow> nat \<Rightarrow> rat" where
  "pos_at ws n 0 = 0"
| "pos_at ws n (Suc j) = cadd (pos_at ws n j) (part_at ws n j (pos_at ws n j))"

definition usual_weights :: "rat list \<Rightarrow> bool" where
  "usual_weights ws \<longleftrightarrow> length ws \<le> 12 \<and> (\<forall>w\<in>set ws. 1 / 100 \<le> w \<and> w \<le> 6)"

lemma weight_at_bounds: "usual_weights ws \<Longrightarrow> 1 / 100 \<le> weight_at ws j \<and> weight_at ws j \<le> 6"
  by (auto simp: usual_weights_def weight_at_def)

definition slip :: rat where "slip = 10 ^ 7 * eps"

lemma slip_bounds: "0 < slip" "slip \<le> 1 / 1000" "eps \<le> slip" "10 ^ 7 * slip \<le> 1"
  by (simp_all add: slip_def eps_def)

lemma near_d40: "\<bar>x\<bar> \<le> 10 ^ 7 \<Longrightarrow> \<bar>d40 x - x\<bar> \<le> slip"
  using d40_within [of x "10 ^ 7"] by (simp add: slip_def)

lemma pos_step:
  assumes p: "0 \<le> p" "p \<le> n + 2 * slip" and n: "1 \<le> n" "n \<le> 10 ^ 6" and w: "1 / 100 \<le> weight_at ws j" "weight_at ws j \<le> 6"
  defines "q \<equiv> cadd p (part_at ws n j p)"
  shows "0 \<le> q" "q \<le> n + 2 * slip" "min (n - 2 * slip) (p + weight_at ws j - slip) \<le> q"
proof -
  let ?w = "weight_at ws j" and ?r = "csub n p"
  have s: "0 < slip" "slip \<le> 1 / 1000" by (rule slip_bounds)+
  have b: "p \<le> 10 ^ 6 + 1" using p n s by linarith
  have "\<bar>n - p\<bar> \<le> 10 ^ 7" using p n b by (simp add: abs_le_iff)
  then have r: "\<bar>?r - (n - p)\<bar> \<le> slip" unfolding csub_def by (rule near_d40)
  define f where "f = part_at ws n j p"
  have f: "f = - p \<or> (f \<le> ?w \<and> f \<le> ?r)" "min ?w ?r \<le> f" "- p \<le> f" by (auto simp: f_def part_at_def max_def min_def)
  have fl: "f \<le> max ?w 0" using f(1) p(1) w by (auto simp: max_def)
  have pf: "0 \<le> p + f" "p + f \<le> 10 ^ 7" using f(3) fl b w by (simp_all add: max_def)
  then have "\<bar>p + f\<bar> \<le> 10 ^ 7" by simp
  then have q: "\<bar>q - (p + f)\<bar> \<le> slip" unfolding q_def f_def [symmetric] cadd_def by (rule near_d40)
  show "0 \<le> q" using pf(1) by (simp add: q_def f_def [symmetric] cadd_def d40_nonneg)
  show "q \<le> n + 2 * slip"
  proof (cases "f = - p")
    case True
    then have "q = 0" by (simp add: q_def f_def [symmetric] cadd_def)
    then show ?thesis using n s by linarith
  next
    case False
    then have "f \<le> ?r" using f(1) by blast
    then show ?thesis using q r by (simp add: abs_le_iff)
  qed
  show "min (n - 2 * slip) (p + ?w - slip) \<le> q"
  proof (cases "?w \<le> ?r")
    case True
    then have "?w \<le> f" using f(2) by simp
    then show ?thesis using q by (auto simp: abs_le_iff min_def)
  next
    case False
    then have "?r \<le> f" using f(2) by simp
    then have "n - 2 * slip \<le> q" using q r by (simp add: abs_le_iff)
    then show ?thesis by simp
  qed
qed

lemma pos_at_bounds:
  assumes "usual_weights ws" "1 \<le> n" "n \<le> 10 ^ 6"
  shows "0 \<le> pos_at ws n j \<and> pos_at ws n j \<le> n + 2 * slip
    \<and> min (n - 2 * slip) ((\<Sum>i<j. weight_at ws i) - of_nat j * slip) \<le> pos_at ws n j"
proof (induction j)
  case 0
  then show ?case using assms(2) slip_bounds(1) by simp
next
  case (Suc j)
  note w = weight_at_bounds [OF assms(1), of j]
  note st = pos_step [OF _ _ assms(2,3), of "pos_at ws n j" ws j]
  have "min (n - 2 * slip) (pos_at ws n j + weight_at ws j - slip) \<le> pos_at ws n (Suc j)" using st(3) Suc w by simp
  moreover have "slip \<le> weight_at ws j" using w slip_bounds(2) by linarith
  ultimately have "min (n - 2 * slip) ((\<Sum>i<Suc j. weight_at ws i) - of_nat (Suc j) * slip) \<le> pos_at ws n (Suc j)"
    using Suc by (auto simp: min_def algebra_simps split: if_splits)
  then show ?case using st(1,2) Suc w by simp
qed

lemma weights_sum: "usual_weights ws \<Longrightarrow> of_nat k \<le> (\<Sum>i<length ws + k. weight_at ws i)"
proof (induction k)
  case 0
  then show ?case by (auto intro!: sum_nonneg dest: weight_at_bounds [of ws]) (meson order_trans weight_at_bounds zero_le_divide_1_iff zero_le_numeral)
next
  case (Suc k)
  then show ?case by (simp add: weight_at_def)
qed

lemma life_used_up:
  assumes "usual_weights ws" "1 \<le> n" "n \<le> 10 ^ 6" "n + 13 \<le> of_nat k" "of_nat k \<le> (10::rat) ^ 7"
  shows "n - 2 * slip \<le> pos_at ws n k"
proof -
  have l: "length ws \<le> 12" using assms(1) by (simp add: usual_weights_def)
  have "of_nat 13 \<le> (of_nat k :: rat)" using assms(2,4) by simp
  then have "13 \<le> k" by (simp only: of_nat_le_iff)
  then have k: "k = length ws + (k - length ws)" using l by simp
  have "of_nat (k - length ws) \<le> (\<Sum>i<k. weight_at ws i)"
    using weights_sum [OF assms(1), of "k - length ws"] k by simp
  moreover have "(of_nat (k - length ws) :: rat) = of_nat k - of_nat (length ws)" using k by (simp add: of_nat_diff)
  moreover have "(of_nat (length ws) :: rat) \<le> 12" using l by simp
  moreover have "of_nat k * slip \<le> 10 ^ 7 * slip" using assms(5) slip_bounds(1) by (intro mult_right_mono) simp_all
  ultimately have "n \<le> (\<Sum>i<k. weight_at ws i) - of_nat k * slip" using assms(4) slip_bounds(4) by linarith
  then show ?thesis using pos_at_bounds [OF assms(1-3), of k] slip_bounds(1) by (auto simp: min_def split: if_splits)
qed

section \<open>Straight-line charges\<close>

definition share_at :: "rat list \<Rightarrow> rat \<Rightarrow> nat \<Rightarrow> rat" where
  "share_at ws n j = d40 (min (max (pos_at ws n j) 0) n / n)"

definition reached_at :: "rat \<Rightarrow> rat list \<Rightarrow> rat \<Rightarrow> nat \<Rightarrow> rat" where
  "reached_at b ws n j = cmul b (share_at ws n j)"

definition charge_at :: "rat \<Rightarrow> rat list \<Rightarrow> rat \<Rightarrow> nat \<Rightarrow> rat" where
  "charge_at b ws n j = csub (reached_at b ws n (Suc j)) (reached_at b ws n j)"

primrec cumulative_at :: "rat \<Rightarrow> rat list \<Rightarrow> rat \<Rightarrow> nat \<Rightarrow> rat" where
  "cumulative_at b ws n 0 = 0"
| "cumulative_at b ws n (Suc j) = cadd (cumulative_at b ws n j) (charge_at b ws n j)"

lemma share_bounds: "1 \<le> n \<Longrightarrow> 0 \<le> share_at ws n j \<and> share_at ws n j \<le> 1"
proof -
  assume n: "1 \<le> n"
  have "0 \<le> min (max (pos_at ws n j) 0) n / n" "min (max (pos_at ws n j) 0) n / n \<le> 1"
    using n by (simp_all add: divide_le_eq)
  then show ?thesis using d40_mono [of 0] d40_mono [of _ 1] by (simp add: share_at_def)
qed

lemma share_used_up:
  assumes "1 \<le> n" "n - 2 * slip \<le> pos_at ws n k"
  shows "1 - 3 * slip \<le> share_at ws n k"
proof -
  let ?x = "min (max (pos_at ws n k) 0) n / n"
  have "n - 2 * slip \<le> min (max (pos_at ws n k) 0) n" using assms slip_bounds(1) by (auto simp: min_def max_def)
  then have "(n - 2 * slip) / n \<le> ?x" using assms(1) by (intro divide_right_mono) simp_all
  moreover have "2 * slip / n \<le> 2 * slip" using assms(1) slip_bounds(1) by (simp add: divide_le_eq)
  ultimately have x: "1 - 2 * slip \<le> ?x" using assms(1) by (simp add: diff_divide_distrib)
  have "\<bar>?x\<bar> \<le> 1" using assms(1) by (simp add: divide_le_eq)
  then have "\<bar>d40 ?x - ?x\<bar> \<le> 1 * eps" by (rule d40_within)
  then show ?thesis using x slip_bounds(3) by (simp add: share_at_def abs_le_iff)
qed

lemma reached_near:
  assumes "1 \<le> n"
  shows "\<bar>reached_at b ws n j - b * share_at ws n j\<bar> \<le> \<bar>b\<bar> * eps" "\<bar>reached_at b ws n j\<bar> \<le> 2 * \<bar>b\<bar>"
proof -
  have s: "\<bar>b * share_at ws n j\<bar> \<le> \<bar>b\<bar>"
    using share_bounds [OF assms, of ws j] by (simp add: abs_mult mult_left_le)
  then show e: "\<bar>reached_at b ws n j - b * share_at ws n j\<bar> \<le> \<bar>b\<bar> * eps"
    unfolding reached_at_def cmul_def by (rule d40_within)
  have "\<bar>b\<bar> * eps \<le> \<bar>b\<bar> * 1" by (intro mult_left_mono) (simp_all add: eps_def)
  with e s show "\<bar>reached_at b ws n j\<bar> \<le> 2 * \<bar>b\<bar>" by linarith
qed

lemma cumulative_near:
  assumes n: "1 \<le> n" and j: "of_nat j \<le> (10::rat) ^ 7"
  shows "\<bar>cumulative_at b ws n j - (reached_at b ws n j - reached_at b ws n 0)\<bar> \<le> of_nat j * (16 * (\<bar>b\<bar> * eps))"
    and "\<bar>cumulative_at b ws n j\<bar> \<le> 5 * \<bar>b\<bar>"
proof -
  have "\<bar>cumulative_at b ws n j - (reached_at b ws n j - reached_at b ws n 0)\<bar> \<le> of_nat j * (16 * (\<bar>b\<bar> * eps))
      \<and> \<bar>cumulative_at b ws n j\<bar> \<le> 5 * \<bar>b\<bar>"
    using j
  proof (induction j)
    case (Suc j)
    define E where "E = \<bar>b\<bar> * eps"
    have E: "0 \<le> E" "(10::rat) ^ 7 * (16 * E) \<le> \<bar>b\<bar>" by (simp_all add: E_def eps_def)
    let ?R = "reached_at b ws n" and ?C = "cumulative_at b ws n" and ?c = "charge_at b ws n j"
    have IH: "\<bar>?C j - (?R j - ?R 0)\<bar> \<le> of_nat j * (16 * E)" "\<bar>?C j\<bar> \<le> 5 * \<bar>b\<bar>" using Suc by (simp_all add: E_def)
    note R = reached_near(2) [OF n, of b ws]
    have "\<bar>?R (Suc j) - ?R j\<bar> \<le> 4 * \<bar>b\<bar>" using R [of j] R [of "Suc j"] by linarith
    then have "\<bar>?c - (?R (Suc j) - ?R j)\<bar> \<le> 4 * \<bar>b\<bar> * eps" unfolding charge_at_def csub_def by (rule d40_within)
    then have c: "\<bar>?c - (?R (Suc j) - ?R j)\<bar> \<le> 4 * E" by (simp add: E_def)
    have "E \<le> \<bar>b\<bar> * 1" unfolding E_def by (intro mult_left_mono) (simp_all add: eps_def)
    moreover have "4 * E \<le> \<bar>b\<bar>" using E by simp
    ultimately have "\<bar>?c\<bar> \<le> 5 * \<bar>b\<bar>" using c R [of j] R [of "Suc j"] by linarith
    then have "\<bar>?C j + ?c\<bar> \<le> 10 * \<bar>b\<bar>" using IH(2) by linarith
    then have "\<bar>?C (Suc j) - (?C j + ?c)\<bar> \<le> 10 * \<bar>b\<bar> * eps" by (simp add: cadd_def d40_within)
    then have "\<bar>?C (Suc j) - (?C j + ?c)\<bar> \<le> 10 * E" by (simp add: E_def)
    then have d: "\<bar>?C (Suc j) - (?R (Suc j) - ?R 0)\<bar> \<le> of_nat (Suc j) * (16 * E)"
      using IH(1) c E(1) by (simp add: algebra_simps)
    moreover have "of_nat (Suc j) * (16 * E) \<le> 10 ^ 7 * (16 * E)" using Suc.prems E(1) by (intro mult_right_mono) simp_all
    ultimately have "\<bar>?C (Suc j)\<bar> \<le> 5 * \<bar>b\<bar>" using E(2) R [of 0] R [of "Suc j"] by linarith
    with d show ?case by (simp add: E_def)
  qed simp
  then show "\<bar>cumulative_at b ws n j - (reached_at b ws n j - reached_at b ws n 0)\<bar> \<le> of_nat j * (16 * (\<bar>b\<bar> * eps))"
    "\<bar>cumulative_at b ws n j\<bar> \<le> 5 * \<bar>b\<bar>" by simp_all
qed

lemma reached_start [simp]: "0 < n \<Longrightarrow> reached_at b ws n 0 = 0"
  by (simp add: reached_at_def share_at_def cmul_def)

lemma cumulative_lands:
  assumes w: "usual_weights ws" and n: "1 \<le> n" "n \<le> 10 ^ 6" and k: "n + 13 \<le> of_nat k" "of_nat k \<le> (10::rat) ^ 7"
    and b: "\<bar>b\<bar> \<le> 10 ^ 21"
  shows "\<bar>cumulative_at b ws n k - b\<bar> \<le> 1 / 10 ^ 9"
proof -
  have s: "1 - 3 * slip \<le> share_at ws n k" "share_at ws n k \<le> 1"
    using share_used_up [OF n(1) life_used_up [OF w n k]] share_bounds [OF n(1)] by auto
  then have "\<bar>share_at ws n k - 1\<bar> \<le> 3 * slip" by simp
  then have "\<bar>b\<bar> * \<bar>share_at ws n k - 1\<bar> \<le> \<bar>b\<bar> * (3 * slip)" by (intro mult_left_mono) simp_all
  then have "\<bar>b * share_at ws n k - b\<bar> \<le> \<bar>b\<bar> * (3 * slip)" by (simp add: right_diff_distrib flip: abs_mult)
  moreover note reached_near(1) [OF n(1), of b ws k]
  moreover have "\<bar>b\<bar> * eps \<le> \<bar>b\<bar> * slip" using slip_bounds(3) by (intro mult_left_mono) simp_all
  ultimately have r: "\<bar>reached_at b ws n k - b\<bar> \<le> \<bar>b\<bar> * (4 * slip)" by linarith
  have "of_nat k * (16 * (\<bar>b\<bar> * eps)) \<le> 10 ^ 7 * (16 * (\<bar>b\<bar> * eps))" using k(2) by (intro mult_right_mono) simp_all
  also have "10 ^ 7 * (16 * (\<bar>b\<bar> * eps)) = \<bar>b\<bar> * (16 * slip)" by (simp add: slip_def)
  finally have c: "\<bar>cumulative_at b ws n k - (reached_at b ws n k - reached_at b ws n 0)\<bar> \<le> \<bar>b\<bar> * (16 * slip)"
    by (rule order_trans [OF cumulative_near(1) [OF n(1) k(2)]])
  have z: "reached_at b ws n 0 = 0" using n(1) by simp
  have "\<bar>b\<bar> * (20 * slip) \<le> 10 ^ 21 * (20 * slip)" using b slip_bounds(1) by (intro mult_right_mono) simp_all
  also have "\<dots> \<le> 1 / 10 ^ 9" by (simp add: slip_def eps_def)
  finally show ?thesis using r c z by linarith
qed

text \<open>The parts a layer consumes month by month, and what its method charges for them.\<close>

lemma by_curve_from:
  assumes "\<And>t. curve t = Inr (g t)" "\<And>j. p (Suc j) = cadd (p j) (f j)"
  shows "by_curve b curve (p 0) (cmul b (g (p 0))) (map (\<lambda>j. f j) [0..<k])
    = Inr (map (\<lambda>j. csub (cmul b (g (p (Suc j)))) (cmul b (g (p j)))) [0..<k])"
  using assms(2)
proof (induction k arbitrary: p f)
  case (Suc k)
  have "by_curve b curve (p (Suc 0)) (cmul b (g (p (Suc 0)))) (map (\<lambda>j. f (Suc j)) [0..<k])
      = Inr (map (\<lambda>j. csub (cmul b (g (p (Suc (Suc j))))) (cmul b (g (p (Suc j))))) [0..<k])"
    using Suc.IH [of "\<lambda>j. p (Suc j)" "\<lambda>j. f (Suc j)"] Suc.prems by simp
  then show ?case
    unfolding map_upt_Suc by_curve.simps Let_def assms(1) rbind_Inr Suc.prems [symmetric] by simp
qed simp

lemma straight_charges:
  assumes "1 \<le> n" "ly_method ly = straight_line" "ly_life ly = n"
    and "ly_fractions ly = map (\<lambda>j. part_at ws n j (pos_at ws n j)) [0..<k]"
  shows "ly_charges ly = Inr (map (charge_at (ly_basis ly) ws n) [0..<k])"
proof -
  have c: "straight_share n t = Inr (d40 (min (max t 0) n / n))" for t
    using assms(1) by (simp add: straight_share_def cdiv_def)
  have "by_curve (ly_basis ly) (straight_share n) 0 0 (map (\<lambda>j. part_at ws n j (pos_at ws n j)) [0..<k])
      = Inr (map (charge_at (ly_basis ly) ws n) [0..<k])"
    using by_curve_from [of "straight_share n" "\<lambda>t. d40 (min (max t 0) n / n)" "pos_at ws n" "\<lambda>j. part_at ws n j (pos_at ws n j)" "ly_basis ly" k] c assms(1)
    by (simp add: charge_at_def reached_at_def share_at_def cmul_def fun_eq_iff)
  then show ?thesis using assms by (simp add: ly_charges_def straight_line_def straight_amounts_def)
qed

lemma add_charges:
  assumes "\<And>j. j < length cs \<Longrightarrow> map_of d (s + int j) = None"
  shows "map_of (foldl add_charge d (zip (map (\<lambda>k. s + int k) [0..<length cs]) cs)) i
    = (if s \<le> i \<and> i < s + int (length cs) then Some (cadd 0 (cs ! nat (i - s))) else map_of d i)"
  using assms
proof (induction cs arbitrary: i rule: rev_induct)
  case (snoc c cs)
  have z: "zip (map (\<lambda>k. s + int k) [0..<length (cs @ [c])]) (cs @ [c])
      = zip (map (\<lambda>k. s + int k) [0..<length cs]) cs @ [(s + int (length cs), c)]" by simp
  define D where "D = foldl add_charge d (zip (map (\<lambda>k. s + int k) [0..<length cs]) cs)"
  have IH: "map_of D i = (if s \<le> i \<and> i < s + int (length cs) then Some (cadd 0 (cs ! nat (i - s))) else map_of d i)" for i
    unfolding D_def by (rule snoc.IH) (use snoc.prems in simp)
  have fe: "foldl add_charge d (zip (map (\<lambda>k. s + int k) [0..<length (cs @ [c])]) (cs @ [c])) = add_charge D (s + int (length cs), c)"
    by (simp only: z foldl_append D_def [symmetric]) simp
  show ?case unfolding fe using snoc.prems [of "length cs"] by (auto simp: add_charge_def IH nth_append)
qed auto

text \<open>An asset with one layer and nothing left to come.\<close>

definition grow :: "layer \<Rightarrow> int \<Rightarrow> layer" where
  "grow ly i = ly\<lparr>ly_fractions := ly_fractions ly
     @ [max (min (normal_fraction ly i) (csub (ly_life ly) (ly_position ly))) (- ly_position ly)]\<rparr>"

lemma consume_grow: "\<not> dm_uses_readings (ly_method ly) \<Longrightarrow> consume i r conv fy None ly = grow ly i"
  by (simp add: consume_def consumed_def grow_def Let_def)

lemma grow_method [simp]: "ly_method (grow ly i) = ly_method ly"
  by (simp add: grow_def)

definition one_layer :: "layer \<Rightarrow> asset \<Rightarrow> bool" where
  "one_layer ly st \<longleftrightarrow> fa_layers st = [ly] \<and> fa_retired st = [] \<and> fa_shares st = []"

lemma month_one_layer:
  assumes "foldR (apply_movement rl po i) (st\<lparr>fa_disposal := None, fa_leaving := [], fa_pending := []\<rparr>) (fa_pending st) = Inr st1"
    and "\<forall>m\<in>set (fa_pending st). first_month m \<le> i" "one_layer ly st1" "fa_leaving st1 = []" "fa_disposal st1 = None"
    and "\<not> dm_uses_readings (ly_method ly)"
  shows "\<exists>st'. month_step rl po readings i st = Inr st' \<and> one_layer (grow ly i) st' \<and> fa_pending st' = [] \<and> fa_disposal st' = None"
proof -
  have tw: "takeWhile (\<lambda>m. first_month m \<le> i) (fa_pending st) = fa_pending st" and dw: "dropWhile (\<lambda>m. first_month m \<le> i) (fa_pending st) = []"
    using assms(2) by (simp_all add: takeWhile_eq_all_conv dropWhile_eq_Nil_conv)
  have "month_step rl po readings i st = Inr (consume_month po readings i st1)"
    unfolding month_step_def tw dw assms(1) by simp
  moreover have "fa_pending st1 = []" using apply_movements_frame [OF assms(1)] by simp
  ultimately show ?thesis
    using assms(3-6) by (auto simp: one_layer_def consume_month_def Let_def consume_grow split: prod.split)
qed

lemma run_one_layer:
  assumes "one_layer ly st" "fa_pending st = []" "\<not> dm_uses_readings (ly_method ly)"
  shows "\<exists>st'. run_months rl po readings last_month i st = Inr st' \<and> one_layer (foldl grow ly [i..last_month]) st'"
  using assms
proof (induction "nat (last_month + 1 - i)" arbitrary: ly st i)
  case 0
  then show ?case by (subst run_months.simps) auto
next
  case (Suc k)
  have i: "i \<le> last_month" using Suc.hyps(2) by linarith
  obtain st1 where st1: "month_step rl po readings i st = Inr st1" "one_layer (grow ly i) st1" "fa_pending st1 = []" "fa_disposal st1 = None"
    using month_one_layer [of rl po i st "st\<lparr>fa_disposal := None, fa_leaving := [], fa_pending := []\<rparr>" ly readings] Suc.prems
    by (auto simp: one_layer_def)
  have "k = nat (last_month + 1 - (i + 1))" using Suc.hyps(2) by linarith
  then obtain st' where "run_months rl po readings last_month (i + 1) st1 = Inr st'" "one_layer (foldl grow (grow ly i) [i + 1..last_month]) st'"
    using Suc.hyps(1) [of "i + 1" "grow ly i" st1] st1(2,3) Suc.prems(3) by auto
  then show ?case using st1(1,4) i by (subst run_months.simps) (simp add: upto_rec1)
qed

lemma csum_snoc: "csum (xs @ [x]) = cadd (csum xs) x"
  by (simp add: csum_def)

lemma grow_upto:
  assumes "ly_fractions ly = []" "ly_weights ly = ws" "ly_life ly = n" "ly_start ly = i"
  shows "foldl grow ly [i..i + int k - 1] = ly\<lparr>ly_fractions := map (\<lambda>j. part_at ws n j (pos_at ws n j)) [0..<k]\<rparr>
    \<and> csum (map (\<lambda>j. part_at ws n j (pos_at ws n j)) [0..<k]) = pos_at ws n k"
proof (induction k)
  case (Suc k)
  have u: "[i..i + int (Suc k) - 1] = [i..i + int k - 1] @ [i + int k]" by (simp add: upto_rec2)
  have w: "normal_fraction (ly\<lparr>ly_fractions := fs\<rparr>) (i + int k) = weight_at ws k" for fs
    using assms by (simp add: normal_fraction_def weight_at_def Let_def)
  have "foldl grow ly [i..i + int (Suc k) - 1] = grow (foldl grow ly [i..i + int k - 1]) (i + int k)" by (simp only: u foldl_append) simp
  also have "\<dots> = grow (ly\<lparr>ly_fractions := map (\<lambda>j. part_at ws n j (pos_at ws n j)) [0..<k]\<rparr>) (i + int k)"
    by (simp only: Suc.IH [THEN conjunct1])
  also have "\<dots> = ly\<lparr>ly_fractions := map (\<lambda>j. part_at ws n j (pos_at ws n j)) [0..<Suc k]\<rparr>"
    using Suc.IH [THEN conjunct2] by (simp add: grow_def w assms(3) ly_position_def part_at_def)
  finally show ?case using Suc.IH [THEN conjunct2] by (simp add: csum_snoc)
qed (use assms in \<open>simp add: csum_def\<close>)

section \<open>The whole life\<close>

lemma d40_between: "1 / 100 \<le> x \<Longrightarrow> x \<le> 6 \<Longrightarrow> 1 / 100 \<le> d40 x \<and> d40 x \<le> 6"
  using d40_mono [of "1 / 100" x] d40_mono [of x 6] d40_scaled [of 1 2] d40_scaled [of 6 0] by simp

lemma days_in_month_range: "28 \<le> days_in_month day \<and> days_in_month day \<le> 31"
  by (simp add: days_in_month_def)

lemma core_weights_usual:
  assumes "map_of CORE_CONVENTIONS key = Some c" "1 \<le> d_day on" "d_day on \<le> days_in_month on"
  shows "usual_weights (cv_start_weights c on fy)"
proof -
  have daily: "usual_weights (cv_start_weights daily on fy)"
  proof -
    let ?d = "days_in_month on" and ?k = "days_in_month on - d_day on + 1"
    have r: "28 \<le> ?d" "?d \<le> 31" using days_in_month_range by auto
    have "(of_int ?k :: rat) / of_int ?d \<le> 6" using r assms(2) by (simp add: divide_le_eq)
    moreover have "1 / 100 \<le> (of_int ?k :: rat) / of_int ?d" using r assms(3) by (simp add: le_divide_eq)
    ultimately show ?thesis using d40_between by (simp add: daily_def usual_weights_def)
  qed
  have half: "usual_weights (cv_start_weights half_year on fy)"
  proof -
    let ?m = "months_to_fiscal_year_end (month_index on) fy"
    have r: "1 \<le> ?m" "?m \<le> 12" by (simp_all add: months_to_fiscal_year_end_def)
    have "(6::rat) / of_int ?m \<le> 6" "1 / 100 \<le> (6::rat) / of_int ?m" using r by (simp_all add: divide_le_eq le_divide_eq)
    then show ?thesis using d40_between [of "6 / of_int ?m"] r by (auto simp: half_year_def usual_weights_def Let_def)
  qed
  show ?thesis using assms(1) daily half
    by (auto simp: CORE_CONVENTIONS_def full_month_def mid_month_def usual_weights_def split: if_splits)
qed

lemma round_money40_ok:
  assumes "currency_dp cur = Inr dp" "\<bar>x\<bar> \<le> 10 ^ 30"
  shows "round_money40 x cur = Inr (of_int (rhu (x * 10 ^ dp)) / 10 ^ dp)"
proof -
  have "\<bar>x * 10 ^ dp\<bar> \<le> 10 ^ 30 * 10 ^ 4"
    unfolding abs_mult using assms(2) currency_dp_le [OF assms(1)] by (intro mult_mono) (simp_all add: power_increasing [of dp 4 "10::rat", simplified])
  then have "\<bar>of_int (rhu (x * 10 ^ dp)) :: rat\<bar> \<le> 10 ^ 30 * 10 ^ 4 + 1 / 2" by (rule near_le) (use rhu_error [of "x * 10 ^ dp"] in simp_all)
  then have "of_int \<bar>rhu (x * 10 ^ dp)\<bar> < (of_int (10 ^ 40) :: rat)" by simp
  then have "\<bar>rhu (x * 10 ^ dp)\<bar> < 10 ^ 40" by (simp only: of_int_less_iff)
  then show ?thesis using assms(1) by (simp add: round_money40_def Let_def)
qed

lemma posted_all:
  assumes "currency_dp cur = Inr dp" "\<And>j. j \<le> length months \<Longrightarrow> \<bar>c j\<bar> \<le> 10 ^ 30"
    and "\<And>j. j < length months \<Longrightarrow> c (Suc j) = cadd (c j) (case map_of by_month (fst (months ! j)) of Some x \<Rightarrow> x | None \<Rightarrow> 0)"
  shows "\<exists>ps. posted_periods by_month cur (c 0) posted months = Inr ps \<and> length ps = length months
    \<and> (\<forall>j<length months. pa_cumulative (ps ! j) = c (Suc j))"
  using assms(2,3)
proof (induction months arbitrary: c posted)
  case (Cons m months)
  obtain i missing where m: "m = (i, missing)" by (cases m)
  have c1: "cadd (c 0) (case map_of by_month i of Some x \<Rightarrow> x | None \<Rightarrow> 0) = c (Suc 0)" using Cons.prems(2) [of 0] by (simp add: m)
  obtain r where r: "round_money40 (c (Suc 0)) cur = Inr r" using round_money40_ok [OF assms(1)] Cons.prems(1) [of "Suc 0"] by simp
  have "\<exists>ps. posted_periods by_month cur (c (Suc 0)) r months = Inr ps \<and> length ps = length months
    \<and> (\<forall>j<length months. pa_cumulative (ps ! j) = c (Suc (Suc j)))"
    using Cons.IH [of "\<lambda>j. c (Suc j)" r] Cons.prems(1) [of "Suc _"] Cons.prems(2) [of "Suc _"] by simp
  then obtain ps where ps: "posted_periods by_month cur (c (Suc 0)) r months = Inr ps" "length ps = length months"
    "\<forall>j<length months. pa_cumulative (ps ! j) = c (Suc (Suc j))" by blast
  show ?case
    by (rule exI [of _ "\<lparr>pa_period = period_label i, pa_amount = csub r posted, pa_cumulative = c (Suc 0), pa_missing = missing\<rparr> # ps"])
      (use ps in \<open>auto simp: m c1 r nth_Cons less_Suc_eq_0_disj split: nat.split\<close>)
qed simp

lemma charges_by_month:
  assumes "foldR layer_charges [] [ly] = Inr by_month" "ly_charges ly = Inr cs" "j < length cs"
  shows "map_of by_month (ly_start ly + int j) = Some (cadd 0 (cs ! j))"
  using assms add_charges [of cs "[]" "ly_start ly" "ly_start ly + int j"] by (auto simp: layer_charges_def)

lemma schedule_one_layer:
  fixes amount :: rat and on :: date and po :: policy
  assumes "map_of CORE_CONVENTIONS (po_convention po) = Some c" "po_method po = ''straight_line''" "parse_period through = Inr last_month"
    and "1 \<le> po_life_months po" "last_month = month_index on + int k - 1" "0 < k"
  defines "ws \<equiv> cv_start_weights c on (po_fiscal_year_start po)" and "n \<equiv> of_int (po_life_months po)" and "b \<equiv> csub amount (po_residual po)"
  shows "\<exists>(st :: asset) by_month. schedule core_rules [Acquire on amount] po through cur readings
      = rbind (round_money40 0 cur) (\<lambda>posted. rmap (\<lambda>periods. \<lparr>sd_periods = periods, sd_layers = fa_layers st, sd_parted = []\<rparr>)
          (posted_periods by_month cur 0 posted (fa_months st)))
    \<and> map fst (fa_months st) = [month_index on..last_month]
    \<and> (\<forall>j<k. map_of by_month (month_index on + int j) = Some (cadd 0 (charge_at b ws n j)))"
proof -
  define i where "i = month_index on"
  let ?m = "Acquire on amount"
  define st0 :: asset where "st0 = \<lparr>fa_layers = [], fa_retired = [], fa_shares = [], fa_months = [], fa_pending = [?m], fa_method = straight_line,
        fa_convention = c, fa_params = po_params po, fa_life = n, fa_leaving = [], fa_disposal = None\<rparr>"
  define ly where "ly = new_layer b (po_residual po) n i ws straight_line (po_params po)"
  have first: "first_month ?m = i" by (simp add: first_month_def i_def)
  have reads: "\<not> dm_uses_readings (ly_method ly)" by (simp add: ly_def new_layer_def straight_line_def)
  have il: "i \<le> last_month" using assms(5,6) by (simp add: i_def)
  obtain st1 where st1: "month_step core_rules po readings i st0 = Inr st1" "one_layer (grow ly i) st1" "fa_pending st1 = []" "fa_disposal st1 = None"
    using month_one_layer [of core_rules po i st0 _ ly readings] first reads
    by (auto simp: st0_def one_layer_def add_layer_def ly_def ws_def b_def)
  obtain st :: asset where "run_months core_rules po readings last_month (i + 1) st1 = Inr st" and one: "one_layer (foldl grow (grow ly i) [i + 1..last_month]) st"
    using run_one_layer [of "grow ly i" st1 core_rules po readings last_month "i + 1"] st1(2,3) reads by auto
  then have run: "run_months core_rules po readings last_month i st0 = Inr st"
    using st1(1,4) il by (subst run_months.simps) simp
  define grown where "grown = ly\<lparr>ly_fractions := map (\<lambda>j. part_at ws n j (pos_at ws n j)) [0..<k]\<rparr>"
  have "foldl grow (grow ly i) [i + 1..last_month] = foldl grow ly [i..i + int k - 1]" using il assms(5) by (simp add: upto_rec1 i_def)
  also have "\<dots> = grown" using grow_upto [of ly ws n i k] by (simp add: ly_def new_layer_def grown_def)
  finally have one: "one_layer grown st" using one by simp
  have ch: "ly_charges grown = Inr (map (charge_at b ws n) [0..<k])"
    using straight_charges [of n grown ws k] assms(4) by (simp add: grown_def ly_def new_layer_def n_def)
  then obtain by_month where bm: "foldR layer_charges [] [grown] = Inr by_month" by (simp add: layer_charges_def)
  have months: "map_of by_month (i + int j) = Some (cadd 0 (charge_at b ws n j))" if "j < k" for j
    using charges_by_month [OF bm ch, of j] that by (simp add: grown_def ly_def new_layer_def)
  have srt: "sort_movements [?m] = [?m]" by (simp add: sort_movements_def)
  have "rule_method core_rules (po_method po) = Inr straight_line" "rule_convention core_rules (po_convention po) = Inr c"
    "method_life straight_line (po_life_months po) (po_params po) = Inr n"
    using assms(1,2) by (simp_all add: rule_method_def rule_convention_def core_rules_def CORE_METHODS_def method_life_def straight_line_def n_def)
  moreover have "schedule_months core_rules po readings last_month straight_line c n [?m] [i] = Inr st"
    using run by (simp add: schedule_months_def st0_def)
  ultimately have sch: "schedule core_rules [?m] po through cur readings
      = rbind (round_money40 0 cur) (\<lambda>posted. rmap (\<lambda>periods. \<lparr>sd_periods = periods, sd_layers = fa_layers st, sd_parted = []\<rparr>)
          (posted_periods by_month cur 0 posted (fa_months st)))"
    unfolding schedule_def srt using assms(3) one bm
    by (simp add: first one_layer_def) (simp add: rmap_def rbind_def split: sum.split)
  have "map fst (fa_months st) = [i..last_month]"
    using run_months_range [OF run] il by (simp add: st0_def ends_at_def)
  then show ?thesis using sch months unfolding i_def by blast
qed

lemma straight_line_schedule:
  assumes "po_method po = ''straight_line''" "po_convention po \<in> set (map fst CORE_CONVENTIONS)"
    and "1 \<le> po_life_months po" "po_life_months po \<le> 10 ^ 6" "1 \<le> d_day on" "d_day on \<le> days_in_month on"
    and "currency_dp cur = Inr dp" "amount - po_residual po = of_int a / 10 ^ dp" "\<bar>a\<bar> \<le> 10 ^ 21"
    and "parse_period through = Inr last_month" "month_index on + po_life_months po + 12 \<le> last_month" "last_month < month_index on + 10 ^ 7"
  shows "\<exists>s. schedule core_rules [Acquire on amount] po through cur readings = Inr s
    \<and> sum_list (map pa_amount (sd_periods s)) = amount - po_residual po
    \<and> length (sd_periods s) = nat (last_month + 1 - month_index on) \<and> (\<forall>p\<in>set (sd_periods s). \<bar>pa_cumulative p\<bar> \<le> 10 ^ 30)"
proof -
  obtain c where c: "map_of CORE_CONVENTIONS (po_convention po) = Some c"
    using assms(2) by (metis domIff dom_map_of_conv_image_fst list.set_map option.exhaust)
  define ws where "ws = cv_start_weights c on (po_fiscal_year_start po)"
  define n :: rat where "n = of_int (po_life_months po)"
  define k where "k = nat (last_month + 1 - month_index on)"
  define b where "b = csub amount (po_residual po)"
  have w: "usual_weights ws" unfolding ws_def by (rule core_weights_usual [OF c assms(5,6)])
  have b: "b = of_int a / 10 ^ dp" unfolding b_def csub_def assms(8) using assms(9) by (intro d40_scaled) simp
  have kk: "last_month = month_index on + int k - 1" "0 < k" using assms(3,11) by (simp_all add: k_def)
  have "(of_int (po_life_months po + 13) :: rat) \<le> of_int (int k)" "(of_int (int k) :: rat) \<le> of_int (10 ^ 7)"
    using assms(3,11,12) by (simp_all only: of_int_le_iff) (simp_all add: k_def)
  then have k: "n + 13 \<le> of_nat k" "of_nat k \<le> (10::rat) ^ 7" by (simp_all add: n_def)
  have n: "1 \<le> n" "n \<le> 10 ^ 6" using assms(3,4) by (simp_all add: n_def)
  obtain st :: asset and by_month where sch: "schedule core_rules [Acquire on amount] po through cur readings
      = rbind (round_money40 0 cur) (\<lambda>posted. rmap (\<lambda>periods. \<lparr>sd_periods = periods, sd_layers = fa_layers st, sd_parted = []\<rparr>)
          (posted_periods by_month cur 0 posted (fa_months st)))"
    and months: "map fst (fa_months st) = [month_index on..last_month]"
    and by_month: "\<forall>j<k. map_of by_month (month_index on + int j) = Some (cadd 0 (charge_at b ws n j))"
    using schedule_one_layer [OF c assms(1,10,3) kk, of amount cur readings] unfolding ws_def [symmetric] n_def [symmetric] b_def [symmetric] by blast
  let ?C = "cumulative_at b ws n"
  have len: "length (fa_months st) = k" using arg_cong [OF months, of length] kk by simp
  have bb: "\<bar>b\<bar> \<le> 10 ^ 21"
  proof -
    have "\<bar>b\<bar> = of_int \<bar>a\<bar> / 10 ^ dp" by (simp add: b abs_divide)
    also have "\<dots> \<le> of_int \<bar>a\<bar> / 1" by (intro divide_left_mono) simp_all
    also have "\<dots> \<le> of_int (10 ^ 21)" unfolding div_by_1 of_int_le_iff by (rule assms(9))
    finally show ?thesis by simp
  qed
  have small: "\<bar>?C j\<bar> \<le> 10 ^ 30" if "j \<le> k" for j
  proof -
    have "(of_nat j :: rat) \<le> of_nat k" using that by simp
    then have "\<bar>?C j\<bar> \<le> 5 * \<bar>b\<bar>" using cumulative_near(2) [OF n(1)] k(2) by (meson order_trans)
    also have "\<dots> \<le> 5 * 10 ^ 21" using bb by simp
    finally show ?thesis by simp
  qed
  have "\<exists>ps. posted_periods by_month cur (?C 0) 0 (fa_months st) = Inr ps \<and> length ps = length (fa_months st)
    \<and> (\<forall>j<length (fa_months st). pa_cumulative (ps ! j) = ?C (Suc j))"
  proof (rule posted_all [OF assms(7)])
    fix j assume j: "j < length (fa_months st)"
    then have "fst (fa_months st ! j) = map fst (fa_months st) ! j" by simp
    also have "\<dots> = month_index on + int j" unfolding months using j len kk by simp
    finally show "?C (Suc j) = cadd (?C j) (case map_of by_month (fst (fa_months st ! j)) of Some x \<Rightarrow> x | None \<Rightarrow> 0)"
      using by_month j len by (simp add: cadd_def charge_at_def csub_def)
  qed (use small len in auto)
  then obtain ps where ps: "posted_periods by_month cur 0 0 (fa_months st) = Inr ps" "length ps = k" "\<forall>j<k. pa_cumulative (ps ! j) = ?C (Suc j)"
    using len by auto
  have z: "round_money40 0 cur = Inr 0" using round_money40_ok [OF assms(7), of 0] by simp
  have "on_grid cur 0" using assms(7) by (auto simp: on_grid_def intro!: exI [of _ 0])
  moreover have "\<bar>pa_cumulative (ps ! j)\<bar> \<le> 10 ^ 30" if "j < k" for j
    unfolding ps(3) [rule_format, OF that] by (rule small) (use that in simp)
  then have bounded: "\<forall>p\<in>set ps. \<bar>pa_cumulative p\<bar> \<le> 10 ^ 30" by (auto simp: in_set_conv_nth ps(2))
  ultimately have "round_money40 (pa_cumulative (ps ! (k - 1))) cur = Inr (0 + sum_list (map pa_amount (take (Suc (k - 1)) ps)))"
    using posted_accumulate [OF ps(1)] kk(2) ps(2) bounded by simp
  then have tot: "round_money40 (?C k) cur = Inr (sum_list (map pa_amount ps))" using kk(2) ps(2,3) by simp
  have "\<bar>?C k - b\<bar> \<le> 1 / 10 ^ 9" by (rule cumulative_lands [OF w n k bb])
  then have "\<bar>?C k - b\<bar> * 10 ^ dp \<le> 1 / 10 ^ 9 * 10 ^ 4"
    using currency_dp_le [OF assms(7)] by (intro mult_mono) (simp_all add: power_increasing [of dp 4 "10::rat", simplified])
  also have "\<dots> < (1 / 2 :: rat)" by simp
  finally have "\<bar>?C k - b\<bar> * 10 ^ dp < 1 / 2" .
  moreover have "of_int a - ?C k * 10 ^ dp = - ((?C k - b) * 10 ^ dp)" by (simp add: b left_diff_distrib)
  then have "\<bar>of_int a - ?C k * 10 ^ dp\<bar> = \<bar>?C k - b\<bar> * 10 ^ dp" by (simp only: abs_minus_cancel abs_mult) simp
  ultimately have "\<bar>of_int a - ?C k * 10 ^ dp\<bar> < 1 / 2" by (simp only:)
  then have "rhu (?C k * 10 ^ dp) = a" by (rule rhu_unique)
  then have "sum_list (map pa_amount ps) = amount - po_residual po"
    using tot round_money40_ok [OF assms(7) small [OF order_refl]] assms(8) by simp
  then show ?thesis using sch z ps(1,2) bounded by (simp add: k_def)
qed

text \<open>C2: An asset depreciated straight line over its whole life posts exactly its depreciable amount,
  under every convention of the module and at every currency's precision, whatever the rounding of
  the months in between.\<close>

theorem straight_line_lands:
  assumes "po_method po = ''straight_line''" "po_convention po \<in> set (map fst CORE_CONVENTIONS)"
    and "1 \<le> po_life_months po" "po_life_months po \<le> 10 ^ 6" "1 \<le> d_day on" "d_day on \<le> days_in_month on"
    and "currency_dp cur = Inr dp" "amount - po_residual po = of_int a / 10 ^ dp" "\<bar>a\<bar> \<le> 10 ^ 21"
    and "parse_period through = Inr last_month" "month_index on + po_life_months po + 12 \<le> last_month" "last_month < month_index on + 10 ^ 7"
  shows "\<exists>s. schedule core_rules [Acquire on amount] po through cur readings = Inr s
    \<and> sum_list (map pa_amount (sd_periods s)) = amount - po_residual po"
  using straight_line_schedule [OF assms] by blast

definition demo_policy :: "string \<Rightarrow> policy" where
  "demo_policy conv = \<lparr>po_method = ''straight_line'', po_life_months = 37, po_residual = 1, po_convention = conv,
     po_fiscal_year_start = 1, po_params = []\<rparr>"

lemma demo_facts: "parse_period ''2030-12'' = Inr 24371" "currency_dp (PStr ''USD'') = Inr 2" "month_index (Date 2026 2 13) = 24313"
  by code_simp+

lemma demo_schedule:
  "\<exists>s. schedule core_rules [Acquire (Date 2026 2 13) (1234567 / 100)] (demo_policy ''daily'') ''2030-12'' (PStr ''USD'') [] = Inr s
    \<and> length (sd_periods s) = 59 \<and> (\<forall>p\<in>set (sd_periods s). \<bar>pa_cumulative p\<bar> \<le> 10 ^ 30)"
  using straight_line_schedule [of "demo_policy ''daily''" "Date 2026 2 13" "PStr ''USD''" 2 "1234567 / 100" 1234467 "''2030-12''" 24371 "[]"] demo_facts
  by (simp add: demo_policy_def CORE_CONVENTIONS_def days_in_month_def leap_year_def) blast

lemma straight_line_lands_witness:
  "\<exists>s. schedule core_rules [Acquire (Date 2026 2 13) (1234567 / 100)] (demo_policy ''daily'') ''2030-12'' (PStr ''USD'') [] = Inr s
    \<and> sum_list (map pa_amount (sd_periods s)) = 1234467 / 100"
  using straight_line_lands [of "demo_policy ''daily''" "Date 2026 2 13" "PStr ''USD''" 2 "1234567 / 100" 1234467 "''2030-12''" 24371 "[]"] demo_facts
  by (simp add: demo_policy_def CORE_CONVENTIONS_def days_in_month_def leap_year_def)

lemma schedule_accumulates_witness:
  "\<exists>s. schedule core_rules [Acquire (Date 2026 2 13) (1234567 / 100)] (demo_policy ''daily'') ''2030-12'' (PStr ''USD'') [] = Inr s
    \<and> round_money40 (pa_cumulative (sd_periods s ! 11)) (PStr ''USD'') = Inr (sum_list (map pa_amount (take 12 (sd_periods s))))"
proof -
  obtain s where "schedule core_rules [Acquire (Date 2026 2 13) (1234567 / 100)] (demo_policy ''daily'') ''2030-12'' (PStr ''USD'') [] = Inr s"
    "length (sd_periods s) = 59" "\<forall>p\<in>set (sd_periods s). \<bar>pa_cumulative p\<bar> \<le> 10 ^ 30" using demo_schedule by blast
  then show ?thesis using schedule_accumulates [of core_rules _ _ _ _ _ s 11] by simp
qed

lemma schedule_periods_witness:
  "\<exists>s. schedule core_rules [Acquire (Date 2026 2 13) (1234567 / 100)] (demo_policy ''daily'') ''2030-12'' (PStr ''USD'') [] = Inr s
    \<and> map pa_period (sd_periods s) = map period_label [24313..24371]"
proof -
  obtain s where s: "schedule core_rules [Acquire (Date 2026 2 13) (1234567 / 100)] (demo_policy ''daily'') ''2030-12'' (PStr ''USD'') [] = Inr s"
    using demo_schedule by blast
  then show ?thesis using schedule_periods [OF s demo_facts(1), of 24313] by (simp add: first_month_def demo_facts)
qed

end
