(* ===== verification/Costing.thy ===== *)
theory Costing
  imports MfgProj
begin

text \<open>
  Recipes: \<open>celerp_manufacturing/costing.py\<close> rolls the cost of a product up from its components,
  labor and overhead, and finds the products a cost change reaches; \<open>expansion.py\<close> turns demand
  into the inputs of a run and into the raw materials of a whole order.  The resolver the caller
  injects, from an item's id to its state, is the parameter \<open>lookup\<close>.  A \<open>RecipeError\<close> carries its
  catalogue key.  The nesting still allowed is counted down (\<open>levels\<close>): depth \<open>d\<close> of the source is
  \<open>MAX_RECIPE_DEPTH + 1 - levels\<close>, so too deep is no level left.  \<open>roll_up_cost\<close> notes a unit and a line
  cost on each component in place; the recipe's own components are returned with them, those of
  a sub-assembly belong to the states \<open>lookup\<close> returns and nothing reads them.
\<close>

type_synonym lookup = "pyval \<Rightarrow> dict option"

definition MAX_RECIPE_DEPTH :: nat where "MAX_RECIPE_DEPTH = 32"

definition too_deep :: py_exc where "too_deep = RecipeError ''recipe_too_deep''"

definition used_in_itself :: py_exc where "used_in_itself = RecipeError ''recipe_cycle''"

section \<open>Quantities and costs of a line\<close>

definition output_quantity :: "dict \<Rightarrow> rat res" where
  "output_quantity recipe =
     (let stated = dget recipe ''output_qty'' in
      rbind (if stated = PNone then Inr 1 else py_float stated) (\<lambda>qty.
      if \<not> 0 < qty then Inl (RecipeError ''output_quantity'') else Inr qty))"

definition state_or_empty :: "dict option \<Rightarrow> dict" where
  "state_or_empty state = (case state of None \<Rightarrow> [] | Some d \<Rightarrow> d)"

definition component_quantity :: "lookup \<Rightarrow> dict \<Rightarrow> rat res" where
  "component_quantity lookup part =
     rbind (float_or0 (dget part ''quantity'')) (\<lambda>qty.
     if \<not> 0 < qty
     then Inl (RecipeError (if truthy (py_or (dget part ''sku'') (dget (state_or_empty (lookup (dget part ''item_id''))) ''sku''))
                            then ''component_quantity'' else ''component_quantity_unnamed''))
     else Inr qty)"

definition labor_kind :: "dict \<Rightarrow> pyval" where
  "labor_kind line = py_or (dget line ''kind'') (PStr ''hourly'')"

definition labor_line_cost :: "dict \<Rightarrow> rat res" where
  "labor_line_cost line =
     (if str_is (labor_kind line) ''fixed'' then float_or0 (dget line ''amount'')
      else rbind (float_or0 (dget line ''hours'')) (\<lambda>h. rmap (fmul h) (float_or0 (dget line ''rate''))))"

text \<open>\<open>celerp_inventory/services.goods_basis\<close> and \<open>goods_cost_known\<close>.\<close>

definition goods_basis :: "dict \<Rightarrow> rat option res" where
  "goods_basis state =
     (let basis = (if dget state ''cost_base'' = PNone then dget state ''cost_total'' else dget state ''cost_base'')
      in if basis = PNone then Inr None else rmap Some (round_basis basis))"

definition goods_cost_known :: "dict \<Rightarrow> bool res" where
  "goods_cost_known state =
     (if truthy (dget state GOODS_COST_UNKNOWN) then Inr False
      else rbind (goods_basis state) (\<lambda>basis.
           if basis \<noteq> None then Inr True
           else if dget state ''cost_price'' = PNone then Inr False
           else rmap (\<lambda>q. q \<le> 0) (float_or0 (dget state ''quantity''))))"

definition leaf_unit_cost :: "dict \<Rightarrow> rat option res" where
  "leaf_unit_cost item_state =
     rbind (goods_cost_known item_state) (\<lambda>known.
     if \<not> known then Inr None
     else let cost_total = dget item_state ''cost_total'' in
          rbind (float_or0 (dget item_state ''quantity'')) (\<lambda>qty.
          if cost_total \<noteq> PNone \<and> qty \<noteq> 0 then rbind (py_float cost_total) (\<lambda>c. rmap Some (fdiv c qty))
          else let cost_price = dget item_state ''cost_price''
               in if cost_price = PNone then Inr None else rmap Some (py_float cost_price)))"

section \<open>The roll-up\<close>

record breakdown =
  cb_materials :: "rat option"
  cb_labor :: rat
  cb_overhead :: rat
  cb_unit :: "rat option"
  cb_components :: "pyval list"

definition rate_float :: "rat \<Rightarrow> pyval \<Rightarrow> rat res" where
  "rate_float x currency = rbind (to_decimal (PFloat x)) (\<lambda>d. rbind (round_rate d currency) dec_float)"

definition money_float :: "rat \<Rightarrow> pyval \<Rightarrow> rat res" where
  "money_float x currency = rbind (to_decimal (PFloat x)) (\<lambda>d. rbind (round_money d currency) dec_float)"

text \<open>An optional value through a conversion.\<close>

definition opt_res :: "('a \<Rightarrow> 'b res) \<Rightarrow> 'a option \<Rightarrow> 'b option res" where
  "opt_res f v = (case v of None \<Rightarrow> Inr None | Some x \<Rightarrow> rmap Some (f x))"

text \<open>One component: its unit cost by \<open>child\<close>, which knows the path so far.\<close>

definition roll_component :: "(pyval list \<Rightarrow> dict option \<Rightarrow> rat option res) \<Rightarrow> lookup \<Rightarrow> pyval \<Rightarrow> pyval list
    \<Rightarrow> rat option \<times> pyval list \<Rightarrow> pyval \<Rightarrow> (rat option \<times> pyval list) res" where
  "roll_component child lookup currency path st v =
     (let (materials, out) = st in
      rbind (vsub v ''item_id'') (\<lambda>cid.
      rbind (hkey cid) (\<lambda>key.
      if List.member path key then Inl used_in_itself
      else rbind (child (key # path) (lookup cid)) (\<lambda>child_cost.
           rbind (as_dict v) (\<lambda>part.
           rbind (component_quantity lookup part) (\<lambda>qty.
           case child_cost of
             None \<Rightarrow> Inr (None, out @ [PDict (dput ''line_cost'' PNone (dput ''unit_cost'' PNone part))])
           | Some cost \<Rightarrow>
               let line = fmul qty cost in
               rbind (rate_float cost currency) (\<lambda>u.
               rbind (money_float line currency) (\<lambda>l.
               Inr (map_option (\<lambda>m. fadd m line) materials,
                    out @ [PDict (dput ''line_cost'' (PFloat l) (dput ''unit_cost'' (PFloat u) part))])))))))))"

definition roll_up_with :: "(pyval list \<Rightarrow> dict option \<Rightarrow> rat option res) \<Rightarrow> lookup \<Rightarrow> pyval \<Rightarrow> pyval list \<Rightarrow> dict \<Rightarrow> breakdown res" where
  "roll_up_with child lookup currency path recipe =
     rbind (rows recipe ''components'') (\<lambda>comps.
     rbind (foldR (roll_component child lookup currency path) (Some 0, []) comps) (\<lambda>(materials, out).
     rbind (rbind (rows recipe ''labor'') (mapR (\<lambda>l. rbind (as_dict l) labor_line_cost))) (\<lambda>labors.
     rbind (rbind (rows recipe ''overhead'') (mapR (\<lambda>o'. rbind (vget o' ''amount'') float_or0))) (\<lambda>overheads.
     rbind (output_quantity recipe) (\<lambda>output_qty.
     let labor = fsum labors; overhead = fsum overheads;
         total_cost = map_option (\<lambda>m. fadd (fadd m labor) overhead) materials in
     rbind (opt_res (\<lambda>m. money_float m currency) materials) (\<lambda>mc.
     rbind (money_float labor currency) (\<lambda>lc.
     rbind (money_float overhead currency) (\<lambda>oc.
     rbind (opt_res (\<lambda>t. rbind (ddiv (dec_of_float t) (dec_of_float output_qty)) (\<lambda>d. rbind (round_rate d currency) dec_float)) total_cost) (\<lambda>uc.
     Inr \<lparr>cb_materials = mc, cb_labor = lc, cb_overhead = oc, cb_unit = uc, cb_components = out\<rparr>)))))))))"

text \<open>\<open>recipe and recipe.get("components")\<close>: the recipe of an item made from one, or None.\<close>

definition recipe_of :: "dict \<Rightarrow> dict option res" where
  "recipe_of state =
     (let recipe = dget state ''recipe'' in
      if \<not> truthy recipe then Inr None
      else rbind (as_dict recipe) (\<lambda>r. Inr (if truthy (dget r ''components'') then Some r else None)))"

primrec unit_cost :: "nat \<Rightarrow> lookup \<Rightarrow> pyval \<Rightarrow> pyval list \<Rightarrow> dict option \<Rightarrow> rat option res" where
  "unit_cost 0 lookup currency path item_state =
     rbind (recipe_of (state_or_empty item_state)) (\<lambda>r.
       case r of None \<Rightarrow> leaf_unit_cost (state_or_empty item_state) | Some recipe \<Rightarrow> Inl too_deep)"
| "unit_cost (Suc levels) lookup currency path item_state =
     rbind (recipe_of (state_or_empty item_state)) (\<lambda>r.
       case r of None \<Rightarrow> leaf_unit_cost (state_or_empty item_state)
       | Some recipe \<Rightarrow> rmap cb_unit (roll_up_with (unit_cost levels lookup currency) lookup currency path recipe))"

definition roll_up_cost :: "nat \<Rightarrow> lookup \<Rightarrow> pyval \<Rightarrow> pyval list \<Rightarrow> dict \<Rightarrow> breakdown res" where
  "roll_up_cost levels lookup currency path recipe =
     (case levels of 0 \<Rightarrow> Inl too_deep | Suc n \<Rightarrow> roll_up_with (unit_cost n lookup currency) lookup currency path recipe)"

definition labor_line_hours :: "pyval \<Rightarrow> rat \<Rightarrow> pyval \<Rightarrow> rat res" where
  "labor_line_hours hours_per_day acc v =
     rbind (as_dict v) (\<lambda>line.
     if str_is (labor_kind line) ''fixed'' then Inr acc
     else rbind (float_or0 (dget line ''hours'')) (\<lambda>h.
          rbind (if str_is (labor_kind line) ''daily'' then rmap (fmul h) (float_or0 hours_per_day) else Inr h) (\<lambda>h'.
          Inr (fadd acc h'))))"

definition labor_hours :: "dict \<Rightarrow> pyval \<Rightarrow> rat res" where
  "labor_hours recipe hours_per_day =
     rbind (rows_or recipe ''labor'') (foldR (labor_line_hours hours_per_day) 0)"

section \<open>Where a product is used\<close>

text \<open>The reverse of the table of components, and the search from the top of a stack.  The parents of
  an item are visited in the table's order, one of the orders a set may be read in.\<close>

definition parents_of :: "(string \<times> string list) list \<Rightarrow> string \<Rightarrow> string list" where
  "parents_of deps cur = map fst (filter (\<lambda>(p, comps). List.member comps cur) deps)"

definition push_parent :: "string list \<times> string list \<Rightarrow> string \<Rightarrow> string list \<times> string list" where
  "push_parent st parent =
     (let (ancestors, stack) = st in if List.member ancestors parent then st else (parent # ancestors, parent # stack))"

lemma push_parents_fresh:
  "foldl push_parent (anc, stk) ps = (anc', stk') \<Longrightarrow> set anc' = set anc \<union> set ps \<and>
     (anc' = anc \<and> stk' = stk \<or> set anc \<subset> set anc')"
  by (induction ps arbitrary: anc stk) (auto simp: push_parent_def split: if_splits, blast+)

function where_loop :: "(string \<times> string list) list \<Rightarrow> string list \<Rightarrow> string list \<Rightarrow> string list" where
  "where_loop deps ancestors [] = ancestors"
| "where_loop deps ancestors (cur # stack) =
     (let (anc, stk) = foldl push_parent (ancestors, stack) (parents_of deps cur) in where_loop deps anc stk)"
  by pat_completeness auto
termination
proof (relation "measures [\<lambda>(deps, anc, stk). card (set (map fst deps) - set anc), \<lambda>(deps, anc, stk). length stk]", goal_cases)
  case (2 deps ancestors cur stack x anc stk)
  then have f: "foldl push_parent (ancestors, stack) (parents_of deps cur) = (anc, stk)" by simp
  note p = push_parents_fresh [OF f]
  have ps: "set (parents_of deps cur) \<subseteq> set (map fst deps)" by (auto simp: parents_of_def)
  show ?case
  proof (cases "anc = ancestors \<and> stk = stack")
    case False
    then have "set ancestors \<subset> set anc" "set anc = set ancestors \<union> set (parents_of deps cur)" using p by auto
    then have "set (map fst deps) - set anc \<subset> set (map fst deps) - set ancestors" using ps by blast
    then have "card (set (map fst deps) - set anc) < card (set (map fst deps) - set ancestors)" by (intro psubset_card_mono) simp_all
    then show ?thesis by simp
  qed auto
qed simp

definition where_used :: "string \<Rightarrow> (string \<times> string list) list \<Rightarrow> string set" where
  "where_used target_id deps = set (where_loop deps [] [target_id])"

section \<open>Expansion\<close>

definition expand_input :: "lookup \<Rightarrow> rat \<Rightarrow> pyval \<Rightarrow> dict list res" where
  "expand_input lookup factor v =
     rbind (as_dict v) (\<lambda>c.
     if \<not> truthy (dget c ''item_id'') then Inr []
     else rmap (\<lambda>q. [[(''item_id'', dget c ''item_id''), (''quantity'', PFloat (round_float (fmul q factor) 6))]]) (component_quantity lookup c))"

definition made_from :: "dict option \<Rightarrow> (dict \<times> pyval) res" where
  "made_from item_state =
     rbind (as_dict (py_or (dget (state_or_empty item_state) ''recipe'') (PDict []))) (\<lambda>recipe.
     Inr (recipe, py_or (dget recipe ''components'') (PList [])))"

definition expand_recipe :: "lookup \<Rightarrow> dict option \<Rightarrow> pyval \<Rightarrow> dict list res" where
  "expand_recipe lookup item_state build_qty =
     rbind (made_from item_state) (\<lambda>(recipe, components).
     if \<not> truthy components then Inl (RecipeError ''no_recipe'')
     else rbind (py_float build_qty) (\<lambda>b.
          rbind (output_quantity recipe) (\<lambda>o'.
          rbind (fdiv b o') (\<lambda>factor.
          rbind (rbind (py_iter components) (mapR (expand_input lookup factor))) (\<lambda>inputs.
          merge_inputs (concat inputs))))))"

definition output_line :: "dict \<Rightarrow> pyval \<Rightarrow> dict res" where
  "output_line item_state quantity =
     rmap (\<lambda>q. [(''sku'', dget_or item_state ''sku'' (PStr [])), (''name'', dget_or item_state ''name'' (PStr [])),
                (''quantity'', PFloat q), (''category'', dget item_state ''category'')]) (py_float quantity)"

definition mfg_idem_key :: "string \<Rightarrow> string \<Rightarrow> string \<Rightarrow> string" where
  "mfg_idem_key source_doc_id item_id operation = ''mfg-from-doc:'' @ source_doc_id @ '':'' @ item_id @ '':'' @ operation"

text \<open>\<open>table[v] = table.get(v, 0.0) + qty\<close>.\<close>

definition add_demand :: "pyval \<Rightarrow> rat \<Rightarrow> rat vmap \<Rightarrow> rat vmap res" where
  "add_demand v qty m = rmap (\<lambda>k. AList.update k (fadd (case map_of m k of Some x \<Rightarrow> x | None \<Rightarrow> 0) qty) m) (hkey v)"

type_synonym demand = "rat vmap \<times> rat vmap"

definition walk_component :: "(pyval list \<Rightarrow> pyval \<Rightarrow> rat \<Rightarrow> demand \<Rightarrow> demand res) \<Rightarrow> lookup \<Rightarrow> pyval list \<Rightarrow> rat \<Rightarrow> demand \<Rightarrow> pyval \<Rightarrow> demand res" where
  "walk_component child lookup path factor st v =
     rbind (as_dict v) (\<lambda>c.
     let cid = dget c ''item_id'' in
     if \<not> truthy cid then Inr st
     else rbind (hkey cid) (\<lambda>key.
          if List.member path key then Inl used_in_itself
          else rbind (component_quantity lookup c) (\<lambda>q. child (key # path) cid (fmul q factor) st)))"

primrec walk :: "nat \<Rightarrow> lookup \<Rightarrow> pyval list \<Rightarrow> pyval \<Rightarrow> rat \<Rightarrow> demand \<Rightarrow> demand res" where
  "walk 0 lookup path item_id qty st = Inl too_deep"
| "walk (Suc levels) lookup path item_id qty st =
     rbind (made_from (lookup item_id)) (\<lambda>(recipe, components).
     if \<not> truthy components then rmap (Pair (fst st)) (add_demand item_id qty (snd st))
     else rbind (add_demand item_id qty (fst st)) (\<lambda>sub.
          rbind (output_quantity recipe) (\<lambda>o'.
          rbind (fdiv qty o') (\<lambda>factor.
          rbind (py_iter components) (foldR (walk_component (walk levels lookup) lookup path factor) (sub, snd st))))))"

text \<open>\<open>for_product\<close>: a refusal names the product whose recipe it is.\<close>

definition for_product :: "demand res \<Rightarrow> demand res" where
  "for_product r = (case r of Inl (RecipeError _) \<Rightarrow> Inl (RecipeError ''product_recipe'') | _ \<Rightarrow> r)"

definition explode_line :: "lookup \<Rightarrow> demand \<Rightarrow> pyval \<times> pyval \<Rightarrow> demand res" where
  "explode_line lookup st line =
     rbind (is_manufacturable (state_or_empty (lookup (fst line)))) (\<lambda>made.
     if made then for_product (rbind (py_float (snd line)) (\<lambda>q. rbind (hkey (fst line)) (\<lambda>key.
                    walk (MAX_RECIPE_DEPTH + 1) lookup [key] (fst line) q st)))
     else Inr st)"

definition explode_demand :: "(pyval \<times> pyval) list \<Rightarrow> lookup \<Rightarrow> demand res" where
  "explode_demand lines lookup =
     rmap (\<lambda>(sub, raw). (map (\<lambda>(k, v). (k, round_float v 6)) sub, map (\<lambda>(k, v). (k, round_float v 6)) raw))
       (foldR (explode_line lookup) ([], []) lines)"

end
