(* ===== verification/CostingFacts.thy ===== *)
theory CostingFacts
  imports Costing
begin

text \<open>
  Facts of recipes: the search for the products a cost change reaches is the transitive closure of
  the table of components, and the expansion of demand returns exactly when no chain of
  components is longer than the nesting allowed, so a recipe used in itself is always refused.
\<close>

section \<open>Where a product is used\<close>

definition uses :: "(string \<times> string list) list \<Rightarrow> (string \<times> string) set" where
  "uses deps = {(p, c). \<exists>cs. (p, cs) \<in> set deps \<and> c \<in> set cs}"

lemma parents_of_uses: "p \<in> set (parents_of deps c) \<longleftrightarrow> (p, c) \<in> uses deps"
  by (force simp: parents_of_def uses_def)

lemma push_parent_simp: "push_parent (anc, stk) p = (if p \<in> set anc then (anc, stk) else (p # anc, p # stk))"
  by (simp add: push_parent_def)

lemma push_parents_stack:
  "foldl push_parent (anc, stk) ps = (anc', stk') \<Longrightarrow>
     set stk \<subseteq> set stk' \<and> set stk' \<subseteq> set stk \<union> set ps \<and> set anc' - set anc \<subseteq> set stk'"
proof (induction ps arbitrary: anc stk)
  case (Cons p ps)
  show ?case
  proof (cases "p \<in> set anc")
    case True
    then show ?thesis using Cons.IH [of anc stk] Cons.prems by (auto simp: push_parent_simp)
  next
    case False
    then have "foldl push_parent (p # anc, p # stk) ps = (anc', stk')" using Cons.prems by (simp add: push_parent_simp)
    from Cons.IH [OF this] show ?thesis by auto
  qed
qed simp

lemma where_loop_closed:
  assumes "\<forall>x\<in>set anc. x \<in> set stk \<or> set (parents_of deps x) \<subseteq> set anc"
  defines "found \<equiv> set (where_loop deps anc stk)"
  shows "set anc \<subseteq> found \<and> (\<forall>x\<in>set stk \<union> found. set (parents_of deps x) \<subseteq> found)
    \<and> found \<subseteq> set anc \<union> {a. \<exists>s\<in>set stk. (a, s) \<in> (uses deps)\<^sup>+}"
  using assms(1) unfolding found_def
proof (induction deps anc stk rule: where_loop.induct)
  case (2 deps anc cur stack)
  obtain anc' stk' where p: "foldl push_parent (anc, stack) (parents_of deps cur) = (anc', stk')" by fastforce
  note fresh = push_parents_fresh [OF p] and stk = push_parents_stack [OF p]
  have inv: "\<forall>x\<in>set anc'. x \<in> set stk' \<or> set (parents_of deps x) \<subseteq> set anc'"
  proof
    fix x assume x: "x \<in> set anc'"
    show "x \<in> set stk' \<or> set (parents_of deps x) \<subseteq> set anc'"
    proof (cases "x \<in> set anc")
      case True
      then consider "x \<in> set stack" | "x = cur" | "set (parents_of deps x) \<subseteq> set anc" using "2.prems" by auto
      then show ?thesis using fresh stk by cases auto
    qed (use x stk in auto)
  qed
  note IH = "2.IH" [OF p [symmetric] refl inv]
  have w: "where_loop deps anc (cur # stack) = where_loop deps anc' stk'" by (simp add: p)
  have up: "(a, cur) \<in> (uses deps)\<^sup>+" if "(a, s) \<in> (uses deps)\<^sup>+" "s \<in> set (parents_of deps cur)" for a s
    using that by (meson parents_of_uses r_into_trancl trancl_trans)
  have up2: "set anc' \<union> {a. \<exists>s\<in>set stk'. (a, s) \<in> (uses deps)\<^sup>+} \<subseteq> set anc \<union> {a. \<exists>s\<in>set (cur # stack). (a, s) \<in> (uses deps)\<^sup>+}"
    using fresh stk up parents_of_uses by (auto 0 4)
  have "set anc' = set anc \<union> set (parents_of deps cur)" "set stack \<subseteq> set stk'" using fresh stk by auto
  then have "set anc \<subseteq> set (where_loop deps anc' stk')" "set (parents_of deps cur) \<subseteq> set (where_loop deps anc' stk')"
      "\<forall>x\<in>set stack. set (parents_of deps x) \<subseteq> set (where_loop deps anc' stk')" using IH by blast+
  then show ?case using IH up2 unfolding w by (simp only: list.set) blast
qed simp

text \<open>C16: The search for the products to cost again finds exactly those whose recipe uses the product,
  directly or through a sub-assembly, and it ends whatever the table holds, cycles included.\<close>

theorem where_used_ancestors: "where_used target_id deps = {a. (a, target_id) \<in> (uses deps)\<^sup>+}"
proof -
  let ?R = "where_used target_id deps"
  have c: "set (parents_of deps target_id) \<subseteq> ?R" "\<forall>x\<in>?R. set (parents_of deps x) \<subseteq> ?R"
      "?R \<subseteq> {a. (a, target_id) \<in> (uses deps)\<^sup>+}"
    using where_loop_closed [of "[]" "[target_id]" deps] by (auto simp: where_used_def)
  have "a \<in> ?R" if "(a, target_id) \<in> (uses deps)\<^sup>+" for a
    using that
  proof (induction rule: converse_trancl_induct)
    case (base y)
    then show ?case using c(1) parents_of_uses by blast
  next
    case (step y z)
    then show ?case using c(2) parents_of_uses by blast
  qed
  with c(3) show ?thesis by blast
qed

section \<open>Expansion of demand\<close>

text \<open>What saving a recipe checks: every component names an item and a positive quantity, and the
  output is positive.\<close>

definition sound_part :: "pyval \<Rightarrow> bool" where
  "sound_part v \<longleftrightarrow> (\<exists>c s q. v = PDict c \<and> dget c ''item_id'' = PStr s \<and> s \<noteq> [] \<and> float_or0 (dget c ''quantity'') = Inr q \<and> 0 < q)"

definition sound_state :: "dict \<Rightarrow> bool" where
  "sound_state d \<longleftrightarrow> (dget d ''recipe'' = PNone \<or> (\<exists>r cs o'. dget d ''recipe'' = PDict r \<and> dget r ''components'' = PList cs
      \<and> list_all sound_part cs \<and> output_quantity r = Inr o' \<and> 0 < o'))"

definition sound_recipes :: "lookup \<Rightarrow> bool" where
  "sound_recipes lookup \<longleftrightarrow> (\<forall>i d. lookup i = Some d \<longrightarrow> sound_state d)"

definition parts_of :: "dict option \<Rightarrow> pyval list" where
  "parts_of state = (case dget (state_or_empty state) ''recipe'' of PDict r \<Rightarrow> (case dget r ''components'' of PList cs \<Rightarrow> cs | _ \<Rightarrow> []) | _ \<Rightarrow> [])"

definition made_of :: "lookup \<Rightarrow> (string \<times> string) set" where
  "made_of lookup = {(s, t). \<exists>c. PDict c \<in> set (parts_of (lookup (PStr s))) \<and> dget c ''item_id'' = PStr t}"

text \<open>A chain of \<open>n\<close> components below an item.\<close>

definition chain_below :: "lookup \<Rightarrow> nat \<Rightarrow> string \<Rightarrow> bool" where
  "chain_below lookup n s \<longleftrightarrow> (\<exists>t. (s, t) \<in> made_of lookup ^^ n)"

lemma chain_below_0 [simp]: "chain_below lookup 0 s"
  by (simp add: chain_below_def)

lemma chain_below_Suc: "chain_below lookup (Suc n) s \<longleftrightarrow> (\<exists>t. (s, t) \<in> made_of lookup \<and> chain_below lookup n t)"
  unfolding chain_below_def by (meson relpow_Suc_D2 relpow_Suc_I2)

lemma sound_made_from:
  assumes "sound_recipes lookup"
  shows "\<exists>r cs. made_from (lookup i) = Inr (r, PList cs) \<and> parts_of (lookup i) = cs \<and> list_all sound_part cs
    \<and> (cs \<noteq> [] \<longrightarrow> (\<exists>o'. output_quantity r = Inr o' \<and> 0 < o'))"
proof (cases "lookup i")
  case None
  then show ?thesis by (simp add: made_from_def state_or_empty_def parts_of_def py_or_def)
next
  case (Some d)
  then have "sound_state d" using assms by (auto simp: sound_recipes_def)
  then consider "dget d ''recipe'' = PNone"
    | r cs o' where "dget d ''recipe'' = PDict r" "dget r ''components'' = PList cs" "list_all sound_part cs" "output_quantity r = Inr o'" "0 < o'"
    by (auto simp: sound_state_def)
  then show ?thesis
  proof cases
    case 2
    then show ?thesis using Some by (cases "r = []"; cases "cs = []") (auto simp: made_from_def state_or_empty_def parts_of_def py_or_def)
  qed (simp add: Some made_from_def state_or_empty_def parts_of_def py_or_def)
qed

lemma hkey_str [simp]: "hkey (PStr s) = Inr (PStr s)"
  by (simp add: hkey_def hashable_def)

lemma add_demand_str: "\<exists>m'. add_demand (PStr s) q m = Inr m'"
  by (simp add: add_demand_def)

lemma foldR_total: "(\<And>v st. v \<in> set vs \<Longrightarrow> \<exists>st'. f st v = Inr st') \<Longrightarrow> \<exists>st'. foldR f st vs = Inr st'"
proof (induction vs arbitrary: st)
  case (Cons v vs)
  obtain st1 where "f st v = Inr st1" using Cons.prems [of v st] by auto
  then show ?case using Cons.IH [of st1] Cons.prems by auto
qed simp

lemma foldR_fails:
  assumes "\<And>v st. v \<in> set vs \<Longrightarrow> (\<exists>st'. f st v = Inr st') \<or> (\<exists>k. f st v = Inl (RecipeError k))"
    and "w \<in> set vs" "\<And>st. \<exists>k. f st w = Inl (RecipeError k)"
  shows "\<exists>k. foldR f st vs = Inl (RecipeError k)"
  using assms(1,2)
proof (induction vs arbitrary: st)
  case (Cons v vs)
  show ?case
  proof (cases "\<exists>k. f st v = Inl (RecipeError k)")
    case False
    then obtain st1 where "f st v = Inr st1" using Cons.prems(1) [of v st] by auto
    moreover have "w \<in> set vs" using False assms(3) [of st] Cons.prems(2) by auto
    ultimately show ?thesis using Cons.IH [of st1] Cons.prems(1) by auto
  qed auto
qed simp

lemma cycle_chain_below:
  assumes "(s, u) \<in> (made_of lookup)\<^sup>*" "(u, u) \<in> (made_of lookup)\<^sup>+"
  shows "chain_below lookup n s"
proof -
  let ?R = "made_of lookup"
  have step: "\<exists>t. (v, t) \<in> ?R \<and> (t, u) \<in> ?R\<^sup>*" if "(v, u) \<in> ?R\<^sup>*" for v
    using that assms(2) by (metis converse_rtranclE tranclD)
  show ?thesis using assms(1)
  proof (induction n arbitrary: s)
    case (Suc n)
    then show ?case using step [OF Suc.prems] by (auto simp: chain_below_Suc)
  qed simp
qed

lemma no_parts_chain: "parts_of (lookup (PStr s)) = [] \<Longrightarrow> \<not> chain_below lookup (Suc n) s"
  by (auto simp: chain_below_Suc made_of_def)

lemma walk_outcome:
  assumes "sound_recipes lookup" and "\<forall>p\<in>set path. \<exists>x. p = PStr x \<and> (x, s) \<in> (made_of lookup)\<^sup>*"
  shows "if chain_below lookup n s then \<exists>k. walk n lookup path (PStr s) q st = Inl (RecipeError k)
    else \<exists>st'. walk n lookup path (PStr s) q st = Inr st'"
  using assms(2)
proof (induction n arbitrary: path s q st)
  case 0
  then show ?case by (auto simp: too_deep_def)
next
  case (Suc n)
  let ?R = "made_of lookup"
  obtain r cs where mf: "made_from (lookup (PStr s)) = Inr (r, PList cs)" and cs: "parts_of (lookup (PStr s)) = cs" "list_all sound_part cs"
    and out: "cs \<noteq> [] \<longrightarrow> (\<exists>o'. output_quantity r = Inr o' \<and> 0 < o')"
    using sound_made_from [OF assms(1), of "PStr s"] by blast
  have nochain: "\<not> chain_below lookup (Suc n) s" if "cs = []"
    using that cs(1) no_parts_chain by blast
  show ?case
  proof (cases "cs = []")
    case True
    then show ?thesis using nochain mf add_demand_str [of s q "snd st"] by auto
  next
    case False
    then obtain o' where o': "output_quantity r = Inr o'" "0 < o'" using out by blast
    obtain sub where sub: "add_demand (PStr s) q (fst st) = Inr sub" using add_demand_str by blast
    define factor where "factor = fl (q / o')"
    have w: "walk (Suc n) lookup path (PStr s) q st = foldR (walk_component (walk n lookup) lookup path factor) (sub, snd st) cs"
      using mf False o' sub by (simp add: fdiv_def factor_def)
    have step: "if chain_below lookup n t then \<exists>k. walk_component (walk n lookup) lookup path factor st v = Inl (RecipeError k)
        else \<exists>st'. walk_component (walk n lookup) lookup path factor st v = Inr st'"
      if v: "v \<in> set cs" "v = PDict c" "dget c ''item_id'' = PStr t" for v c t st
    proof -
      obtain x where x: "float_or0 (dget c ''quantity'') = Inr x" "0 < x" "t \<noteq> []"
        using cs(2) v by (auto simp: list_all_iff sound_part_def)
      have e: "(s, t) \<in> ?R" using v cs(1) by (auto simp: made_of_def)
      show ?thesis
      proof (cases "PStr t \<in> set path")
        case True
        then have "(t, s) \<in> ?R\<^sup>*" using Suc.prems by auto
        then have "(t, t) \<in> ?R\<^sup>+" using e by (meson rtrancl_into_trancl1)
        then have "chain_below lookup n t" by (rule cycle_chain_below [OF rtrancl.rtrancl_refl])
        then show ?thesis using True v(2,3) x by (auto simp: walk_component_def Let_def used_in_itself_def)
      next
        case False
        have "\<forall>p\<in>set (PStr t # path). \<exists>x. p = PStr x \<and> (x, t) \<in> ?R\<^sup>*"
          using Suc.prems e by (auto intro: rtrancl_into_rtrancl)
        from Suc.IH [OF this, of "fmul x factor" st] show ?thesis
          using False v(2,3) x by (auto simp: walk_component_def Let_def component_quantity_def split: if_splits)
      qed
    qed
    have parts: "\<exists>c t. v = PDict c \<and> dget c ''item_id'' = PStr t" if "v \<in> set cs" for v
      using cs(2) that by (auto simp: list_all_iff sound_part_def)
    show ?thesis
    proof (cases "chain_below lookup (Suc n) s")
      case True
      then obtain t where t: "(s, t) \<in> ?R" "chain_below lookup n t" by (auto simp: chain_below_Suc)
      then obtain c where c: "PDict c \<in> set cs" "dget c ''item_id'' = PStr t" using cs(1) by (auto simp: made_of_def)
      have "\<exists>k. foldR (walk_component (walk n lookup) lookup path factor) (sub, snd st) cs = Inl (RecipeError k)"
      proof (rule foldR_fails)
        show "(\<exists>st'. walk_component (walk n lookup) lookup path factor st v = Inr st') \<or>
            (\<exists>k. walk_component (walk n lookup) lookup path factor st v = Inl (RecipeError k))" if "v \<in> set cs" for v st
          using parts [OF that] step [OF that] by (metis (full_types))
        show "PDict c \<in> set cs" by (rule c)
        show "\<exists>k. walk_component (walk n lookup) lookup path factor st (PDict c) = Inl (RecipeError k)" for st
          using step [OF c(1) refl c(2), of st] t(2) by auto
      qed
      then show ?thesis using True w by simp
    next
      case False
      have "\<exists>st'. foldR (walk_component (walk n lookup) lookup path factor) (sub, snd st) cs = Inr st'"
      proof (rule foldR_total)
        fix v st assume v: "v \<in> set cs"
        then obtain c t where c: "v = PDict c" "dget c ''item_id'' = PStr t" using parts by blast
        then have "(s, t) \<in> ?R" using v cs(1) by (auto simp: made_of_def)
        then have "\<not> chain_below lookup n t" using False by (auto simp: chain_below_Suc)
        then show "\<exists>st'. walk_component (walk n lookup) lookup path factor st v = Inr st'" using step [OF v c, of st] by simp
      qed
      then show ?thesis using False w by simp
    qed
  qed
qed

lemma explode_line_outcome:
  assumes "sound_recipes lookup" "i = PStr s" "py_float q = Inr x"
  shows "if chain_below lookup (MAX_RECIPE_DEPTH + 1) s then explode_line lookup st (i, q) = Inl (RecipeError ''product_recipe'')
    else \<exists>st'. explode_line lookup st (i, q) = Inr st'"
proof -
  obtain r cs where mf: "made_from (lookup i) = Inr (r, PList cs)" and cs: "parts_of (lookup i) = cs"
    using sound_made_from [OF assms(1), of i] by blast
  have made: "is_manufacturable (state_or_empty (lookup i)) = Inr (cs \<noteq> [])"
    using mf by (auto simp: made_from_def is_manufacturable_def rbind_eq_Inr as_dict_Inr vget_def py_or_def rmap_def split: if_splits pyval.splits)
  show ?thesis
  proof (cases "cs = []")
    case True
    then have "\<not> chain_below lookup (Suc n) s" for n
      using cs assms(2) no_parts_chain by blast
    then show ?thesis using made True by (simp add: explode_line_def)
  next
    case False
    have "\<forall>p\<in>set [PStr s]. \<exists>x. p = PStr x \<and> (x, s) \<in> (made_of lookup)\<^sup>*" by simp
    from walk_outcome [OF assms(1) this, of "MAX_RECIPE_DEPTH + 1" x st] show ?thesis
      using made False assms(2,3) by (auto simp: explode_line_def for_product_def split: if_splits)
  qed
qed

lemma explode_lines_outcome:
  assumes "sound_recipes lookup" "\<forall>line\<in>set lines. \<exists>s x. fst line = PStr s \<and> py_float (snd line) = Inr x"
  shows "if \<exists>s. PStr s \<in> fst ` set lines \<and> chain_below lookup (MAX_RECIPE_DEPTH + 1) s
    then foldR (explode_line lookup) st lines = Inl (RecipeError ''product_recipe'')
    else \<exists>st'. foldR (explode_line lookup) st lines = Inr st'"
  using assms(2)
proof (induction lines arbitrary: st)
  case (Cons line lines)
  obtain i q where l: "line = (i, q)" by (cases line)
  with Cons.prems obtain s x where i: "i = PStr s" "py_float q = Inr x" by auto
  note out = explode_line_outcome [OF assms(1) i, of st]
  show ?case
  proof (cases "chain_below lookup (MAX_RECIPE_DEPTH + 1) s")
    case True
    then show ?thesis using out by (auto simp: l i)
  next
    case False
    then obtain st1 where "explode_line lookup st line = Inr st1" using out by (auto simp: l)
    then show ?thesis using Cons.IH [of st1] Cons.prems False by (auto simp: l i split: if_splits)
  qed
qed simp

lemma explode_outcomes:
  assumes "sound_recipes lookup" "\<forall>line\<in>set lines. \<exists>s x. fst line = PStr s \<and> py_float (snd line) = Inr x"
  shows "(\<exists>r. explode_demand lines lookup = Inr r) = (\<forall>s. PStr s \<in> fst ` set lines \<longrightarrow> \<not> chain_below lookup (MAX_RECIPE_DEPTH + 1) s)"
    and "explode_demand lines lookup = Inl e \<Longrightarrow> e = RecipeError ''product_recipe''"
    and "PStr s \<in> fst ` set lines \<Longrightarrow> (s, u) \<in> (made_of lookup)\<^sup>* \<Longrightarrow> (u, u) \<in> (made_of lookup)\<^sup>+
         \<Longrightarrow> explode_demand lines lookup = Inl (RecipeError ''product_recipe'')"
proof -
  note out = explode_lines_outcome [OF assms, of "([], [])"]
  show "(\<exists>r. explode_demand lines lookup = Inr r) = (\<forall>s. PStr s \<in> fst ` set lines \<longrightarrow> \<not> chain_below lookup (MAX_RECIPE_DEPTH + 1) s)"
    using out by (auto simp: explode_demand_def rmap_eq_Inr split: if_splits)
  show "e = RecipeError ''product_recipe''" if "explode_demand lines lookup = Inl e"
    using out that by (auto simp: explode_demand_def split: if_splits)
  show "explode_demand lines lookup = Inl (RecipeError ''product_recipe'')"
    if "PStr s \<in> fst ` set lines" "(s, u) \<in> (made_of lookup)\<^sup>*" "(u, u) \<in> (made_of lookup)\<^sup>+"
    using out cycle_chain_below [OF that(2,3), of "MAX_RECIPE_DEPTH + 1"] that(1) by (auto simp: explode_demand_def split: if_splits)
qed

text \<open>C4: Demand for products whose recipes are sound is always expanded to its components, or refused
  naming the product: it is refused exactly when some chain of components below a product asked
  for is longer than the nesting allowed, which is the case of every recipe used in itself.\<close>

theorem explode_returns:
  assumes "sound_recipes lookup" "\<forall>line\<in>set lines. \<exists>s x. fst line = PStr s \<and> py_float (snd line) = Inr x"
  shows "(\<exists>r. explode_demand lines lookup = Inr r) = (\<forall>s. PStr s \<in> fst ` set lines \<longrightarrow> \<not> chain_below lookup (MAX_RECIPE_DEPTH + 1) s)
    \<and> (\<forall>e. explode_demand lines lookup = Inl e \<longrightarrow> e = RecipeError ''product_recipe'')
    \<and> (\<forall>s u. PStr s \<in> fst ` set lines \<longrightarrow> (s, u) \<in> (made_of lookup)\<^sup>* \<longrightarrow> (u, u) \<in> (made_of lookup)\<^sup>+
         \<longrightarrow> explode_demand lines lookup = Inl (RecipeError ''product_recipe''))"
  using explode_outcomes [OF assms] by blast

text \<open>A bench made of two planks, each cut from a board; and a product used in itself.\<close>

definition demo_recipe :: "string \<Rightarrow> int \<Rightarrow> dict" where
  "demo_recipe part q = [(''recipe'', PDict [(''components'', PList [PDict [(''item_id'', PStr part), (''quantity'', PInt q)]]), (''output_qty'', PInt 1)])]"

definition demo_lookup :: lookup where
  "demo_lookup i = (if i = PStr ''bench'' then Some (demo_recipe ''plank'' 2) else if i = PStr ''plank'' then Some (demo_recipe ''board'' 1)
     else if i = PStr ''loop'' then Some (demo_recipe ''loop'' 1) else None)"

lemma explode_returns_witness:
  "explode_demand [(PStr ''loop'', PInt 3)] demo_lookup = Inl (RecipeError ''product_recipe'')
    \<and> is_ok (explode_demand [(PStr ''bench'', PInt 3)] demo_lookup)"
proof
  have q: "float_or0 (PInt 2) = Inr 2" "float_or0 (PInt 1) = Inr 1" "py_float (PInt 1) = Inr 1" by code_simp+
  have s: "sound_recipes demo_lookup"
    by (auto simp: sound_recipes_def demo_lookup_def demo_recipe_def sound_state_def sound_part_def output_quantity_def
        q dget_def dget_or_def simp del: py_float.simps split: if_splits)
  let ?R = "made_of demo_lookup"
  have "(''loop'', ''loop'') \<in> ?R"
    by (simp add: made_of_def parts_of_def state_or_empty_def demo_lookup_def demo_recipe_def dget_def dget_or_def)
  then show "explode_demand [(PStr ''loop'', PInt 3)] demo_lookup = Inl (RecipeError ''product_recipe'')"
    using explode_returns [OF s, of "[(PStr ''loop'', PInt 3)]"] by auto
  have R: "?R \<subseteq> {(''bench'', ''plank''), (''plank'', ''board''), (''loop'', ''loop'')}"
    by (auto simp: made_of_def parts_of_def state_or_empty_def demo_lookup_def demo_recipe_def dget_def dget_or_def split: if_splits)
  then have R': "(s, t) \<in> ?R \<Longrightarrow> (s = ''bench'' \<longrightarrow> t = ''plank'') \<and> (s = ''plank'' \<longrightarrow> t = ''board'') \<and> s \<noteq> ''board''" for s t
    by auto
  have "\<not> chain_below demo_lookup (Suc n) ''board''" for n
    unfolding chain_below_Suc using R' by blast
  then have "\<not> chain_below demo_lookup (Suc (Suc n)) ''plank''" for n
    unfolding chain_below_Suc [of _ "Suc n"] using R' by blast
  then have "\<not> chain_below demo_lookup (Suc (Suc (Suc n))) ''bench''" for n
    unfolding chain_below_Suc [of _ "Suc (Suc n)"] using R' by blast
  from this [of 30] have "\<not> chain_below demo_lookup (MAX_RECIPE_DEPTH + 1) ''bench''"
    by (simp add: MAX_RECIPE_DEPTH_def numeral_eq_Suc)
  then have "\<exists>r. explode_demand [(PStr ''bench'', PInt 3)] demo_lookup = Inr r"
    using explode_returns [OF s, of "[(PStr ''bench'', PInt 3)]"] by auto
  then show "is_ok (explode_demand [(PStr ''bench'', PInt 3)] demo_lookup)" by (auto simp: is_ok_def)
qed

end
