(* ===== verification/Slots.thy ===== *)
theory Slots
  imports DocLists ItemProj KernelProj ContactProj MfgProj AssetProj ReceivedProj
begin

text \<open>
  \<open>celerp/modules/slots.py\<close>: the registry in which modules contribute to named slots, and the
  projection handlers contributed there.  A handler is named by "module:function"; importing it
  is \<open>resolve\<close>, an argument, with \<open>SHIPPED_HANDLERS\<close> for the modules of this repository.
\<close>

type_synonym handler = "dict \<Rightarrow> string \<Rightarrow> dict \<Rightarrow> dict res"
type_synonym registry = "(string \<times> dict list) list"

section \<open>The registry\<close>

definition FIRST_PARTY_SLOTS :: "string list" where
  "FIRST_PARTY_SLOTS = [''inventory_in_production'', ''demo_records'', ''background_loop'', ''doc_asset_lines'',
     ''turn_off_preflight'', ''on_books_currency_set'']"

definition HANDLER_SLOTS :: "string list" where
  "HANDLER_SLOTS = [''inventory_in_production'', ''item_lineage_guard'', ''demo_records'', ''doc_asset_lines'',
     ''label_source'', ''import_target'', ''turn_off_preflight'']"

definition check_slot :: "string \<Rightarrow> dict \<Rightarrow> unit res" where
  "check_slot slot contribution =
     (if List.member HANDLER_SLOTS slot
         \<and> (case dget contribution ''handler'' of PStr h \<Rightarrow> \<not> List.member h (CHR '':'') | _ \<Rightarrow> True)
      then Inl ValueError
      else if List.member FIRST_PARTY_SLOTS slot \<and> dget contribution ''_first_party'' \<noteq> PBool True then Inl ValueError
      else Inr ())"

definition get_slot :: "registry \<Rightarrow> string \<Rightarrow> dict list" where
  "get_slot reg slot = (case map_of reg slot of Some cs \<Rightarrow> cs | None \<Rightarrow> [])"

definition register :: "string \<Rightarrow> dict \<Rightarrow> registry \<Rightarrow> registry res" where
  "register slot contribution reg =
     rmap (\<lambda>_. AList.update slot (get_slot reg slot @ [contribution]) reg) (check_slot slot contribution)"

definition unregister_module :: "string \<Rightarrow> registry \<Rightarrow> registry" where
  "unregister_module name reg = map (\<lambda>(slot, cs). (slot, filter (\<lambda>c. \<not> py_eq (dget c ''_module'') (PStr name)) cs)) reg"

definition KERNEL_PROJECTION_PREFIXES :: "string list" where
  "KERNEL_PROJECTION_PREFIXES = [''sys.'', ''mp.'', ''shop.sync.'']"

definition projection_prefixes_overlap :: "string \<Rightarrow> string \<Rightarrow> bool" where
  "projection_prefixes_overlap a b = (starts_with b a \<or> starts_with a b)"

section \<open>Projection handlers\<close>

definition SHIPPED_HANDLERS :: "(string \<times> handler) list" where
  "SHIPPED_HANDLERS =
    [(''celerp_contacts.projections:apply_contact_event'', apply_contact_event),
     (''celerp_docs.doc_projections:apply_documents_event'', apply_documents_event),
     (''celerp_docs.received:apply_received_event'', apply_received_event),
     (''celerp_fixed_assets.projections:apply_fixed_asset_event'', apply_fixed_asset_event),
     (''celerp_accounting.projections:apply_accounting_event'', apply_accounting_event),
     (''celerp_manufacturing.projection_handler:apply_manufacturing_event'', apply_manufacturing_event),
     (''celerp_inventory.projections:apply_item_event'', apply_item_event),
     (''celerp.projections.handlers.marketplace:apply_marketplace_event'', apply_marketplace_event),
     (''celerp.projections.handlers.shopify:apply_shop_sync_event'', apply_shop_sync_event)]"

text \<open>The contributions to the projection_handler slot: a prefix and the name of its handler.  The
  loader admits text only; a handler that cannot be imported is left out.\<close>

definition add_handler :: "(string \<Rightarrow> handler option) \<Rightarrow> (string \<times> handler) list \<Rightarrow> dict \<Rightarrow> (string \<times> handler) list" where
  "add_handler resolve handlers contrib =
     (case (dget contrib ''prefix'', dget contrib ''handler'') of
        (PStr p, PStr path) \<Rightarrow>
          if p = [] \<or> path = [] then handlers
          else (case resolve path of Some fn \<Rightarrow> AList.update p fn handlers | None \<Rightarrow> handlers)
      | _ \<Rightarrow> handlers)"

definition get_module_handlers :: "(string \<Rightarrow> handler option) \<Rightarrow> registry \<Rightarrow> (string \<times> handler) list" where
  "get_module_handlers resolve reg = foldl (add_handler resolve) [] (get_slot reg ''projection_handler'')"

text \<open>The prefixes the modules of the repository declare.\<close>

definition SHIPPED_PREFIXES :: "(string \<times> string) list" where
  "SHIPPED_PREFIXES =
    [(''crm.contact.'', ''celerp_contacts.projections:apply_contact_event''),
     (''doc.'', ''celerp_docs.doc_projections:apply_documents_event''),
     (''list.'', ''celerp_docs.doc_projections:apply_documents_event''),
     (''received_doc.'', ''celerp_docs.received:apply_received_event''),
     (''fa.'', ''celerp_fixed_assets.projections:apply_fixed_asset_event''),
     (''account.'', ''celerp_accounting.projections:apply_accounting_event''),
     (''je.'', ''celerp_accounting.projections:apply_accounting_event''),
     (''acc.'', ''celerp_accounting.projections:apply_accounting_event''),
     (''mfg.'', ''celerp_manufacturing.projection_handler:apply_manufacturing_event''),
     (''item.'', ''celerp_inventory.projections:apply_item_event''),
     (''mp.'', ''celerp.projections.handlers.marketplace:apply_marketplace_event''),
     (''shop.sync.'', ''celerp.projections.handlers.shopify:apply_shop_sync_event'')]"

definition shipped_registry :: registry where
  "shipped_registry =
     [(''projection_handler'', map (\<lambda>(p, h). [(''prefix'', PStr p), (''handler'', PStr h)]) SHIPPED_PREFIXES)]"

definition shipped_handlers :: "(string \<times> handler) list" where
  "shipped_handlers = get_module_handlers (map_of SHIPPED_HANDLERS) shipped_registry"

section \<open>Facts\<close>

lemma starts_with_total: "starts_with p s \<Longrightarrow> starts_with q s \<Longrightarrow> starts_with p q \<or> starts_with q p"
  unfolding starts_with_def by (metis append_eq_append_conv_if append_take_drop_id take_eq_Nil2)

lemma register_then_get:
  "register slot c reg = Inr reg' \<Longrightarrow> get_slot reg' s = (if s = slot then get_slot reg slot @ [c] else get_slot reg s)"
  by (auto simp: register_def rmap_eq_Inr get_slot_def)

end
