(* ===== verification/Engine.thy ===== *)
theory Engine
  imports Slots Contracts
begin

text \<open>
  \<open>celerp/projections/engine.py\<close>: which handler replays an event, the row a record's events give,
  a live event applied under the row's lock, and the rebuild of every row from the ledger.  What
  the engine takes from its surroundings is the environment: the handlers the enabled modules
  registered, and the reading of an ISO time (\<open>datetime.fromisoformat\<close>, a naive time being UTC)
  as an instant.  The wall-clock columns of a row are not kept.
\<close>

section \<open>Which handler\<close>

record env =
  en_handlers :: "(string \<times> handler) list"
  en_instant :: "string \<Rightarrow> int option"

definition ITEM_BIRTHS :: "string list" where
  "ITEM_BIRTHS = [''item.created'', ''item.snapshot'']"

definition MERGE_EVENTS :: "string list" where
  "MERGE_EVENTS = [''payment_batch.recorded'', ''line_action.recorded'', ''sub.created'', ''sub.updated'', ''sub.paused'',
     ''sub.cancelled'', ''sub.resumed'', ''sub.generated'', ''sub.expired'']"

definition merge_event :: handler where
  "merge_event state event_type data = Inr (dmerge state data)"

definition core_event :: "string \<Rightarrow> bool" where
  "core_event event_type =
     (dhas (map (\<lambda>(k, _). (k, PNone)) RETIRED_EVENTS) event_type \<or> List.member MERGE_EVENTS event_type
      \<or> list_ex (\<lambda>p. starts_with p event_type) KERNEL_PROJECTION_PREFIXES)"

definition module_handler :: "(string \<times> handler) list \<Rightarrow> string \<Rightarrow> handler option" where
  "module_handler table event_type = map_option snd (find (\<lambda>(p, _). starts_with p event_type) table)"

definition replay_handler :: "env \<Rightarrow> string \<Rightarrow> handler option" where
  "replay_handler en event_type =
     (case map_of RETIRED_EVENTS event_type of
        Some retired \<Rightarrow> Some (\<lambda>state _ data. retired state data)
      | None \<Rightarrow>
          if starts_with ''sys.'' event_type then Some apply_system_event
          else (case module_handler (en_handlers en) event_type of
                  Some fn \<Rightarrow> Some fn
                | None \<Rightarrow> if List.member MERGE_EVENTS event_type then Some merge_event else None))"

definition replayable :: "env \<Rightarrow> string \<Rightarrow> bool" where
  "replayable en event_type = (replay_handler en event_type \<noteq> None)"

definition engine_apply :: "env \<Rightarrow> handler" where
  "engine_apply en state event_type data =
     (case replay_handler en event_type of None \<Rightarrow> Inl ValueError | Some h \<Rightarrow> h state event_type data)"

section \<open>Rows\<close>

record entry =
  e_id :: int
  e_company :: string
  e_entity :: string
  e_kind :: string
  e_type :: string
  e_data :: dict

datatype column = Raw pyval | Uuid int | Instant int

record projection =
  p_kind :: string
  p_state :: dict
  p_version :: int
  p_location :: column
  p_expires :: column
  p_flags :: "(string \<times> pyval) list"

text \<open>\<open>uuid.UUID(text)\<close>: 32 hexadecimal digits, hyphens, braces and the urn prefix aside.\<close>

fun drop_text :: "nat \<Rightarrow> string \<Rightarrow> string \<Rightarrow> string" where
  "drop_text k w [] = []"
| "drop_text 0 w (c # cs) = (if starts_with w (c # cs) then drop_text (length w - 1) w cs else c # drop_text 0 w cs)"
| "drop_text (Suc k) w (c # cs) = drop_text k w cs"

definition hex_code :: "int \<Rightarrow> int option" where
  "hex_code n = (if 48 \<le> n \<and> n \<le> 57 then Some (n - 48) else if 97 \<le> n \<and> n \<le> 102 then Some (n - 87) else None)"

definition hex_val :: "char \<Rightarrow> int option" where
  "hex_val c = hex_code (int (char_code (to_lower c)))"

fun hex_ok :: "bool \<Rightarrow> string \<Rightarrow> bool" where
  "hex_ok p [] = True"
| "hex_ok p (c # cs) =
     (if c = CHR ''_'' then p \<and> (case cs of [] \<Rightarrow> False | d # _ \<Rightarrow> hex_val d \<noteq> None) \<and> hex_ok False cs
      else hex_val c \<noteq> None \<and> hex_ok True cs)"

fun hex_number :: "int \<Rightarrow> string \<Rightarrow> int" where
  "hex_number a [] = a"
| "hex_number a (c # cs) = (case hex_val c of Some v \<Rightarrow> hex_number (16 * a + v) cs | None \<Rightarrow> hex_number a cs)"

definition parse_digits :: "bool \<Rightarrow> string \<Rightarrow> int option" where
  "parse_digits pre ds = (if ds \<noteq> [] \<and> hex_ok pre ds then Some (hex_number 0 ds) else None)"

definition parse_unsigned :: "string \<Rightarrow> int option" where
  "parse_unsigned r = (if py_lower (take 2 r) = ''0x'' then parse_digits True (drop 2 r) else parse_digits False r)"

definition parse_hex_text :: "string \<Rightarrow> int option" where
  "parse_hex_text t = (if t \<noteq> [] \<and> hd t = CHR ''+'' then parse_unsigned (tl t) else parse_unsigned t)"

definition parse_hex :: "string \<Rightarrow> int option" where
  "parse_hex s = parse_hex_text (py_strip s)"

definition strip_braces :: "string \<Rightarrow> string" where
  "strip_braces s = (let b = (\<lambda>c. c = CHR ''{'' \<or> c = CHR ''}'') in rev (dropWhile b (rev (dropWhile b s))))"

definition parse_32 :: "string \<Rightarrow> int option" where
  "parse_32 h = (if length h = 32 then parse_hex h else None)"

definition parse_uuid :: "string \<Rightarrow> int option" where
  "parse_uuid s =
     parse_32 (filter (\<lambda>c. c \<noteq> CHR ''-'') (strip_braces (drop_text 0 ''uuid:'' (drop_text 0 ''urn:'' s))))"

definition FLAG_COLUMNS :: "string list" where
  "FLAG_COLUMNS = [''is_on_memo'', ''is_on_marketplace'', ''is_sync_to_shopify'', ''is_in_production'', ''is_expired'', ''consignment_flag'']"

definition column_of :: "(string \<Rightarrow> int option) \<Rightarrow> (int \<Rightarrow> column) \<Rightarrow> pyval \<Rightarrow> column" where
  "column_of read con v = (case v of PStr t \<Rightarrow> (case read t of Some x \<Rightarrow> con x | None \<Rightarrow> Raw PNone) | _ \<Rightarrow> Raw v)"

text \<open>The columns a new state gives a row of a kind; the version is the entry's id.\<close>

definition next_fields :: "env \<Rightarrow> string \<Rightarrow> dict \<Rightarrow> entry \<Rightarrow> int \<Rightarrow> projection res" where
  "next_fields en kind state e fallback =
     rmap (\<lambda>s. \<lparr>p_kind = kind, p_state = s,
          p_version = (if e_id e \<noteq> 0 then e_id e else fallback),
          p_location = column_of parse_uuid Uuid (dget s ''location_id''),
          p_expires = column_of (en_instant en) Instant (dget s ''expires_at''),
          p_flags = map (\<lambda>k. (k, dget s k)) FLAG_COLUMNS\<rparr>)
       (engine_apply en state (e_type e) (e_data e))"

type_synonym table = "((string \<times> string) \<times> projection) list"

definition entry_key :: "entry \<Rightarrow> string \<times> string" where
  "entry_key e = (e_company e, e_entity e)"

text \<open>What one entry makes of its row, new or there already (\<open>_write\<close>, the row locked).\<close>

definition entry_row :: "env \<Rightarrow> projection option \<Rightarrow> entry \<Rightarrow> projection res" where
  "entry_row en row e =
     (case row of None \<Rightarrow> next_fields en (e_kind e) [] e 0
      | Some p \<Rightarrow> next_fields en (p_kind p) (p_state p) e (p_version p))"

record transition =
  t_before :: "dict option"
  t_after :: dict

definition write_row :: "env \<Rightarrow> table \<Rightarrow> entry \<Rightarrow> projection option \<Rightarrow> (transition \<times> table) res" where
  "write_row en db e row =
     rmap (\<lambda>p. (\<lparr>t_before = map_option p_state row, t_after = p_state p\<rparr>, AList.update (entry_key e) p db)) (entry_row en row e)"

definition not_found :: "string \<Rightarrow> py_exc" where
  "not_found kind = HTTPError 404 (if kind = ''item'' then ''inventory.err_item_not_found'' else ''error.record_not_found'')"

definition refuse_other_kind :: "entry \<Rightarrow> projection option \<Rightarrow> unit res" where
  "refuse_other_kind e row =
     (case row of Some p \<Rightarrow> if p_kind p \<noteq> e_kind e then Inl (not_found (e_kind e)) else Inr () | None \<Rightarrow> Inr ())"

text \<open>\<open>ProjectionEngine.apply_event\<close>: the row is locked, judged and written.\<close>

definition apply_entry :: "env \<Rightarrow> table \<Rightarrow> entry \<Rightarrow> (transition \<times> table) res" where
  "apply_entry en db e =
     (let row = map_of db (entry_key e) in rbind (refuse_other_kind e row) (\<lambda>_. write_row en db e row))"

section \<open>Rebuild\<close>

definition changes_missing_item :: "entry \<Rightarrow> projection option \<Rightarrow> bool" where
  "changes_missing_item e row = (row = None \<and> e_kind e = ''item'' \<and> \<not> List.member ITEM_BIRTHS (e_type e))"

definition replay_entry :: "env \<Rightarrow> table \<Rightarrow> entry \<Rightarrow> table res" where
  "replay_entry en db e =
     (let row = map_of db (entry_key e)
      in if changes_missing_item e row then Inr db else rmap snd (write_row en db e row))"

definition unreplayable :: "env \<Rightarrow> entry list \<Rightarrow> string list" where
  "unreplayable en ledger = remdups (map e_type (filter (\<lambda>e. \<not> replayable en (e_type e)) ledger))"

text \<open>\<open>rebuild\<close> of the companies given, their locks held or not: nothing is deleted before the
  checks pass.\<close>

definition rebuild :: "env \<Rightarrow> (string \<Rightarrow> bool) \<Rightarrow> string list \<Rightarrow> entry list \<Rightarrow> table \<Rightarrow> table res" where
  "rebuild en holds_lock companies ledger db =
     (let entries = filter (\<lambda>e. List.member companies (e_company e)) ledger in
      if \<not> list_all holds_lock companies then Inl RuntimeError
      else if unreplayable en entries \<noteq> [] then Inl (RefusedError ''error.unhandled_events'')
      else foldR (replay_entry en) (filter (\<lambda>((c, _), _). \<not> List.member companies c) db) (sort_key e_id entries))"

section \<open>Facts\<close>

interpretation rows_table: row_store map_of AList.update
  by unfold_locales simp

interpretation projections_table: guarded_store map_of AList.update p_kind e_kind "entry_row en" for en
  by unfold_locales (auto simp: entry_row_def next_fields_def rmap_eq_Inr)

lemma entry_row_kind: "entry_row en row e = Inr p \<Longrightarrow> p_kind p = (case row of None \<Rightarrow> e_kind e | Some q \<Rightarrow> p_kind q)"
  by (auto simp: entry_row_def next_fields_def rmap_eq_Inr split: option.splits)

lemma apply_entry_Inr:
  "apply_entry en db e = Inr (t, db') \<longleftrightarrow>
     refuse_other_kind e (map_of db (entry_key e)) = Inr ()
     \<and> (\<exists>p. entry_row en (map_of db (entry_key e)) e = Inr p \<and> db' = AList.update (entry_key e) p db
          \<and> t = \<lparr>t_before = map_option p_state (map_of db (entry_key e)), t_after = p_state p\<rparr>)"
  by (auto simp: apply_entry_def write_row_def rbind_eq_Inr rmap_eq_Inr Let_def)

end
