(* ===== verification/EngineFacts.thy ===== *)
theory EngineFacts
  imports Engine
begin

text \<open>
  The ledger determines the records: a rebuild gives back every row the live writes left; two
  writers racing to make a record lose no event of either; and no event type has two handlers.
\<close>

section \<open>One handler per event\<close>

definition overlap_free :: "string list \<Rightarrow> bool" where
  "overlap_free ps \<longleftrightarrow> distinct ps \<and> (\<forall>p\<in>set ps. \<forall>q\<in>set ps. p \<noteq> q \<longrightarrow> \<not> projection_prefixes_overlap p q)"

lemma module_handler_unique:
  assumes "overlap_free (map fst table)" "(p, h) \<in> set table" "starts_with p et"
  shows "module_handler table et = Some h"
proof -
  from assms(2,3) have "find (\<lambda>(q, _). starts_with q et) table \<noteq> None" by (auto simp: find_None_iff)
  then obtain q g where f: "find (\<lambda>(q, _). starts_with q et) table = Some (q, g)" by auto
  then have q: "(q, g) \<in> set table" "starts_with q et" by (auto simp: find_Some_iff) (metis nth_mem)
  have "p = q" using assms q starts_with_total [OF assms(3) q(2)]
    by (force simp: overlap_free_def projection_prefixes_overlap_def)
  moreover have "distinct (map fst table)" using assms(1) by (simp add: overlap_free_def)
  ultimately have "h = g" using assms(2) q(1) by (metis eq_key_imp_eq_value)
  then show ?thesis using f by (simp add: module_handler_def)
qed

lemma module_handler_Some: "module_handler table et = Some h \<Longrightarrow> \<exists>p. (p, h) \<in> set table \<and> starts_with p et"
  by (auto simp: module_handler_def find_Some_iff) (metis nth_mem prod.collapse)

text \<open>Among handlers whose prefixes do not overlap, the order the modules were loaded in does not
  decide which handler replays an event.\<close>

theorem load_order_irrelevant:
  assumes "overlap_free (map fst (en_handlers en))" "set (en_handlers en') = set (en_handlers en)"
    and "overlap_free (map fst (en_handlers en'))"
  shows "replay_handler en' et = replay_handler en et \<and> engine_apply en' s et d = engine_apply en s et d"
proof -
  have "module_handler (en_handlers en') et = module_handler (en_handlers en) et"
  proof (cases "module_handler (en_handlers en) et")
    case None
    have "module_handler (en_handlers en') et \<noteq> Some h" for h
      using module_handler_Some [of "en_handlers en'" et h] module_handler_unique [OF assms(1)] assms(2) None by fastforce
    then show ?thesis using None by (cases "module_handler (en_handlers en') et") auto
  next
    case (Some h)
    then obtain p where "(p, h) \<in> set (en_handlers en)" "starts_with p et" using module_handler_Some by blast
    then show ?thesis using module_handler_unique [OF assms(3)] assms(2) Some by simp
  qed
  then have "replay_handler en' et = replay_handler en et" by (simp add: replay_handler_def split: option.split)
  then show ?thesis by (simp add: engine_apply_def)
qed

lemma shipped_overlap_free: "overlap_free (map fst shipped_handlers)"
  unfolding overlap_free_def by code_simp

lemma load_order_irrelevant_witness:
  "\<forall>et. replay_handler \<lparr>en_handlers = rev shipped_handlers, en_instant = \<lambda>_. None\<rparr> et
    = replay_handler \<lparr>en_handlers = shipped_handlers, en_instant = \<lambda>_. None\<rparr> et"
proof -
  have "overlap_free (map fst (rev shipped_handlers))"
    using shipped_overlap_free by (simp add: overlap_free_def rev_map [symmetric])
  then show ?thesis
    using load_order_irrelevant [of "\<lparr>en_handlers = shipped_handlers, en_instant = \<lambda>_. None\<rparr>" "\<lparr>en_handlers = rev shipped_handlers, en_instant = \<lambda>_. None\<rparr>"]
      shipped_overlap_free by simp
qed

section \<open>Live writes and the rebuild\<close>

text \<open>A live write of an item is a birth of an item that is not there, or a change of one that is
  (\<open>events/engine._item_applied\<close>).\<close>

definition item_rule :: "entry \<Rightarrow> projection option \<Rightarrow> bool" where
  "item_rule e row \<longleftrightarrow> (e_kind e = ''item'' \<longrightarrow> (row = None \<longleftrightarrow> List.member ITEM_BIRTHS (e_type e)))"

record world =
  w_db :: table
  w_ledger :: "entry list"

text \<open>What a company's writers, one at a time under its lock, can lead to.\<close>

inductive live :: "env \<Rightarrow> world \<Rightarrow> bool" for en where
  start: "live en \<lparr>w_db = [], w_ledger = []\<rparr>"
| emit: "live en w \<Longrightarrow> \<forall>x\<in>set (w_ledger w). e_id x < e_id e \<Longrightarrow> item_rule e (map_of (w_db w) (entry_key e))
    \<Longrightarrow> apply_entry en (w_db w) e = Inr (t, db') \<Longrightarrow> live en \<lparr>w_db = db', w_ledger = w_ledger w @ [e]\<rparr>"

inductive_cases live_snocE: "live en \<lparr>w_db = db, w_ledger = l @ [e]\<rparr>"

lemma live_ids: "live en w \<Longrightarrow> sorted_wrt (\<lambda>a b. e_id a < e_id b) (w_ledger w)"
  by (induction rule: live.induct) (auto simp: sorted_wrt_append)

lemma live_replayable: "live en w \<Longrightarrow> e \<in> set (w_ledger w) \<Longrightarrow> replayable en (e_type e)"
proof (induction rule: live.induct)
  case (emit w x t db')
  then show ?case
    by (auto simp: apply_entry_Inr entry_row_def next_fields_def rmap_eq_Inr engine_apply_def replayable_def split: option.splits)
qed simp

lemma live_replay:
  assumes "live en w" "\<And>k. fst k \<in> set cs \<Longrightarrow> map_of d0 k = None"
  shows "\<exists>db'. foldR (replay_entry en) d0 (filter (\<lambda>e. List.member cs (e_company e)) (w_ledger w)) = Inr db'
    \<and> (\<forall>k. map_of db' k = (if fst k \<in> set cs then map_of (w_db w) k else map_of d0 k))"
  using assms
proof (induction rule: live.induct)
  case (emit w e t db1)
  from emit.IH [OF emit.prems] obtain db' where db': "foldR (replay_entry en) d0 (filter (\<lambda>e. List.member cs (e_company e)) (w_ledger w)) = Inr db'"
    and rows: "\<And>k. map_of db' k = (if fst k \<in> set cs then map_of (w_db w) k else map_of d0 k)" by blast
  from emit.hyps(4) obtain p where p: "entry_row en (map_of (w_db w) (entry_key e)) e = Inr p" and db1: "db1 = AList.update (entry_key e) p (w_db w)"
    by (auto simp: apply_entry_Inr)
  show ?case
  proof (cases "e_company e \<in> set cs")
    case True
    then have row: "map_of db' (entry_key e) = map_of (w_db w) (entry_key e)" by (simp add: rows entry_key_def)
    have "replay_entry en db' e = Inr (AList.update (entry_key e) p db')"
      using emit.hyps(3) p row by (auto simp: replay_entry_def Let_def write_row_def changes_missing_item_def item_rule_def)
    then show ?thesis using db' True rows by (simp add: foldR_append db1 entry_key_def)
  next
    case False
    then show ?thesis using db' rows by (auto simp: db1 entry_key_def)
  qed
qed simp

lemma map_of_other_rows:
  "map_of (filter (\<lambda>((c, _), _). c \<notin> set cs) db) k = (if fst k \<in> set cs then None else map_of db k)"
  by (induction db) auto

text \<open>Rebuilding any companies from the ledger their live writes made gives back every row as it
  was, theirs and the others', and is never refused for an event it cannot replay.\<close>

theorem rebuild_reproduces:
  assumes "live en w" "list_all holds_lock cs"
  shows "\<exists>db'. rebuild en holds_lock cs (w_ledger w) (w_db w) = Inr db' \<and> (\<forall>k. map_of db' k = map_of (w_db w) k)"
proof -
  let ?es = "filter (\<lambda>e. List.member cs (e_company e)) (w_ledger w)"
  let ?d0 = "filter (\<lambda>((c, _), _). c \<notin> set cs) (w_db w)"
  have "sorted_wrt (\<lambda>a b. e_id a < e_id b) ?es" using live_ids [OF assms(1)] by (simp add: sorted_wrt_filter)
  then have "sorted (map e_id ?es)" by (simp add: sorted_map sorted_wrt_mono_rel [of _ "\<lambda>a b. e_id a < e_id b" "\<lambda>a b. e_id a \<le> e_id b"])
  then have sort: "sort_key e_id ?es = ?es" by (rule sort_key_id_if_sorted)
  have known: "unreplayable en ?es = []"
    using live_replayable [OF assms(1)] by (auto simp: unreplayable_def filter_empty_conv)
  have "\<exists>db'. foldR (replay_entry en) ?d0 ?es = Inr db' \<and> (\<forall>k. map_of db' k = (if fst k \<in> set cs then map_of (w_db w) k else map_of ?d0 k))"
    by (rule live_replay [OF assms(1)]) (simp add: map_of_other_rows)
  then show ?thesis using assms(2) sort known by (auto simp: rebuild_def Let_def map_of_other_rows)
qed

text \<open>A first event and a change, rebuilt.\<close>

definition demo_env :: env where
  "demo_env = \<lparr>en_handlers = [], en_instant = \<lambda>_. None\<rparr>"

definition demo_entry :: "int \<Rightarrow> string \<Rightarrow> dict \<Rightarrow> entry" where
  "demo_entry n et d = \<lparr>e_id = n, e_company = ''c'', e_entity = ''u'', e_kind = ''user'', e_type = et, e_data = d\<rparr>"

lemma rebuild_reproduces_witness:
  "\<exists>w. live demo_env w \<and> length (w_ledger w) = 2 \<and> (\<exists>db'. rebuild demo_env (\<lambda>_. True) [''c''] (w_ledger w) (w_db w) = Inr db'
     \<and> (\<forall>k. map_of db' k = map_of (w_db w) k))"
proof -
  let ?e1 = "demo_entry 1 ''sys.user.created'' [(''name'', PStr ''Ann'')]"
  let ?e2 = "demo_entry 2 ''sys.user.deactivated'' []"
  have "is_ok (apply_entry demo_env [] ?e1)" by code_simp
  then obtain t1 db1 where s1: "apply_entry demo_env [] ?e1 = Inr (t1, db1)" by (cases "apply_entry demo_env [] ?e1") auto
  have "is_ok (rbind (apply_entry demo_env [] ?e1) (\<lambda>(t, db). apply_entry demo_env db ?e2))" by code_simp
  then obtain t2 db2 where s2: "apply_entry demo_env db1 ?e2 = Inr (t2, db2)"
    using s1 by (cases "apply_entry demo_env db1 ?e2") auto
  have l1: "live demo_env \<lparr>w_db = db1, w_ledger = [] @ [?e1]\<rparr>"
    using live.emit [OF live.start, of ?e1 demo_env t1 db1] s1 by (simp add: item_rule_def demo_entry_def)
  have l2: "live demo_env \<lparr>w_db = db2, w_ledger = [?e1] @ [?e2]\<rparr>"
    using live.emit [OF l1, of ?e2 t2 db2] s2 by (simp add: item_rule_def demo_entry_def)
  show ?thesis
    by (rule exI [of _ "\<lparr>w_db = db2, w_ledger = [?e1] @ [?e2]\<rparr>"])
      (use rebuild_reproduces [OF l2, of "\<lambda>_. True" "[''c'']"] l2 in simp)
qed

section \<open>Two writers making one record\<close>

text \<open>Without the company lock: a writer that finds no row inserts one later, unless another has by
  then; the loser takes the winner's row under its lock and changes that.\<close>

record race =
  r_db :: table
  r_waiting :: "entry list"
  r_applied :: "entry list"

inductive races :: "env \<Rightarrow> race \<Rightarrow> bool" for en where
  idle: "races en \<lparr>r_db = [], r_waiting = [], r_applied = []\<rparr>"
| change: "races en r \<Longrightarrow> map_of (r_db r) (entry_key e) = Some p \<Longrightarrow> apply_entry en (r_db r) e = Inr (t, db')
    \<Longrightarrow> races en (r\<lparr>r_db := db', r_applied := r_applied r @ [e]\<rparr>)"
| find_none: "races en r \<Longrightarrow> map_of (r_db r) (entry_key e) = None \<Longrightarrow> races en (r\<lparr>r_waiting := e # r_waiting r\<rparr>)"
| insert: "races en r \<Longrightarrow> e \<in> set (r_waiting r) \<Longrightarrow> map_of (r_db r) (entry_key e) = None
    \<Longrightarrow> write_row en (r_db r) e None = Inr (t, db')
    \<Longrightarrow> races en (r\<lparr>r_db := db', r_waiting := remove1 e (r_waiting r), r_applied := r_applied r @ [e]\<rparr>)"
| lose: "races en r \<Longrightarrow> e \<in> set (r_waiting r) \<Longrightarrow> map_of (r_db r) (entry_key e) = Some p
    \<Longrightarrow> refuse_other_kind e (Some p) = Inr () \<Longrightarrow> write_row en (r_db r) e (Some p) = Inr (t, db')
    \<Longrightarrow> races en (r\<lparr>r_db := db', r_waiting := remove1 e (r_waiting r), r_applied := r_applied r @ [e]\<rparr>)"
| give_up: "races en r \<Longrightarrow> e \<in> set (r_waiting r) \<Longrightarrow> races en (r\<lparr>r_waiting := remove1 e (r_waiting r)\<rparr>)"

abbreviation plain_step :: "env \<Rightarrow> table \<Rightarrow> entry \<Rightarrow> table res" where
  "plain_step en db e \<equiv> rbind (entry_row en (map_of db (entry_key e)) e) (\<lambda>p. Inr (AList.update (entry_key e) p db))"

definition race_inv :: "env \<Rightarrow> table \<Rightarrow> entry list \<Rightarrow> bool" where
  "race_inv en db applied \<longleftrightarrow> foldR (plain_step en) [] applied = Inr db
    \<and> (\<forall>e\<in>set applied. \<exists>p. map_of db (entry_key e) = Some p \<and> p_kind p = e_kind e)"

lemma race_step:
  assumes "race_inv en db applied" "entry_row en (map_of db (entry_key e)) e = Inr p"
    and "\<forall>q. map_of db (entry_key e) = Some q \<longrightarrow> p_kind q = e_kind e"
  shows "race_inv en (AList.update (entry_key e) p db) (applied @ [e])"
proof -
  have k: "p_kind p = e_kind e" using entry_row_kind [OF assms(2)] assms(3) by (auto split: option.splits)
  have "\<exists>q. map_of (AList.update (entry_key e) p db) (entry_key x) = Some q \<and> p_kind q = e_kind x" if x: "x \<in> set applied" for x
  proof (cases "entry_key x = entry_key e")
    case True
    then obtain q where "map_of db (entry_key e) = Some q" "p_kind q = e_kind x" using assms(1) x by (fastforce simp: race_inv_def)
    then show ?thesis using True k assms(3) by auto
  next
    case False
    then show ?thesis using assms(1) x by (auto simp: race_inv_def)
  qed
  then show ?thesis using assms(1,2) k by (auto simp: race_inv_def foldR_append)
qed

lemma races_run: "races en r \<Longrightarrow> race_inv en (r_db r) (r_applied r)"
proof (induction rule: races.induct)
  case idle
  then show ?case by (simp add: race_inv_def)
next
  case (change r e p t db')
  then obtain q where "entry_row en (map_of (r_db r) (entry_key e)) e = Inr q" "db' = AList.update (entry_key e) q (r_db r)"
    "\<forall>q. map_of (r_db r) (entry_key e) = Some q \<longrightarrow> p_kind q = e_kind e"
    by (auto simp: apply_entry_Inr refuse_other_kind_def split: if_splits)
  then show ?case using race_step [OF change.IH] by simp
next
  case (insert r e t db')
  then obtain q where "entry_row en (map_of (r_db r) (entry_key e)) e = Inr q" "db' = AList.update (entry_key e) q (r_db r)"
    by (auto simp: write_row_def rmap_eq_Inr)
  then show ?case using race_step [OF insert.IH] insert.hyps(3) by simp
next
  case (lose r e p t db')
  then obtain q where "entry_row en (map_of (r_db r) (entry_key e)) e = Inr q" "db' = AList.update (entry_key e) q (r_db r)"
    by (auto simp: write_row_def rmap_eq_Inr)
  moreover have "p_kind p = e_kind e" using lose.hyps(4) by (auto simp: refuse_other_kind_def split: if_splits)
  ultimately show ?case using race_step [OF lose.IH] lose.hyps(3) by simp
qed simp_all

text \<open>C39: however writers interleave, each record is the fold of every event applied to it, in the
  order they were applied, and they are all of the record's kind: none is lost.\<close>

theorem no_event_lost:
  assumes "races en r"
  shows "foldR (\<lambda>row e. rmap Some (entry_row en row e)) None (filter (\<lambda>e. entry_key e = k) (r_applied r)) = Inr (map_of (r_db r) k)
    \<and> (\<forall>e\<in>set (r_applied r). entry_key e = k \<longrightarrow> (\<exists>p. map_of (r_db r) k = Some p \<and> p_kind p = e_kind e))"
proof -
  have "foldR (\<lambda>d e. rbind (entry_row en (map_of d (entry_key e)) e) (\<lambda>p. Inr (AList.update (entry_key e) p d))) [] (r_applied r) = Inr (r_db r)"
    using races_run [OF assms] by (simp add: race_inv_def)
  from rows_table.run_key [OF this, of k] races_run [OF assms] show ?thesis by (auto simp: race_inv_def)
qed

lemma no_event_lost_witness:
  "\<exists>r. races demo_env r \<and> length (r_applied r) = 2 \<and> (\<exists>p. map_of (r_db r) (''c'', ''u'') = Some p)"
proof -
  let ?e1 = "demo_entry 1 ''sys.user.created'' [(''name'', PStr ''Ann'')]"
  let ?e2 = "demo_entry 2 ''sys.user.created'' [(''name'', PStr ''Bo'')]"
  have "is_ok (write_row demo_env [] ?e1 None)" by code_simp
  then obtain t1 db1 where w1: "write_row demo_env [] ?e1 None = Inr (t1, db1)" by (cases "write_row demo_env [] ?e1 None") auto
  then obtain p1 where p1: "map_of db1 (''c'', ''u'') = Some p1" "p_kind p1 = ''user''"
    by (auto simp: write_row_def rmap_eq_Inr demo_entry_def entry_key_def dest!: entry_row_kind)
  have "is_ok (engine_apply demo_env (p_state p1) (e_type ?e2) (e_data ?e2))"
    by (simp add: engine_apply_def replay_handler_def demo_entry_def RETIRED_EVENTS_def starts_with_def apply_system_event_def
        system_handlers_def write_over_def)
  then obtain t2 db2 where w2: "write_row demo_env db1 ?e2 (Some p1) = Inr (t2, db2)"
    by (cases "engine_apply demo_env (p_state p1) (e_type ?e2) (e_data ?e2)")
      (auto simp: write_row_def entry_row_def next_fields_def)
  have a: "races demo_env \<lparr>r_db = [], r_waiting = [?e2, ?e1], r_applied = []\<rparr>"
    using races.find_none [OF races.find_none [OF races.idle, of ?e1], of ?e2] by simp
  have b: "races demo_env \<lparr>r_db = db1, r_waiting = [?e2], r_applied = [?e1]\<rparr>"
    using races.insert [OF a, of ?e1 t1 db1] w1 by (simp add: demo_entry_def)
  have c: "races demo_env \<lparr>r_db = db2, r_waiting = [], r_applied = [?e1, ?e2]\<rparr>"
    using races.lose [OF b, of ?e2 p1 t2 db2] w2 p1 by (simp add: demo_entry_def entry_key_def refuse_other_kind_def)
  have "\<exists>p. map_of db2 (''c'', ''u'') = Some p"
    using conjunct2 [OF no_event_lost [OF c, of "(''c'', ''u'')"]] by (auto simp: demo_entry_def entry_key_def)
  then show ?thesis by (intro exI [of _ "\<lparr>r_db = db2, r_waiting = [], r_applied = [?e1, ?e2]\<rparr>"]) (simp add: c)
qed

end
