(* ===== verification/PickFacts.thy ===== *)
theory PickFacts
  imports Pick "HOL-Library.Multiset"
begin

text \<open>
  What the allocation of stock guarantees: a draw never takes more of a lot than it has, nor a lot
  twice, nor a part of a lot that may not be split, and its draws take together no more than was
  asked; what it takes and what it reports missing add up to what was asked; it reports something missing only when the stock offered is out; and
  lines planned one after another never share the same stock.
\<close>

section \<open>Whole quantities are exact floats\<close>

lemma fl_of_int:
  assumes "\<bar>n\<bar> < 2 ^ 53"
  shows "fl (of_int n) = of_int n"
proof (cases "n = 0")
  case False
  define k where "k = mag 2 \<bar>of_int n :: rat\<bar>"
  have pos: "0 < \<bar>of_int n :: rat\<bar>" using False by simp
  have b: "2 powi k \<le> \<bar>of_int n :: rat\<bar>" "\<bar>of_int n :: rat\<bar> < 2 powi (k + 1)"
    using mag_bounds [of 2 "\<bar>of_int n :: rat\<bar>"] pos by (simp_all add: k_def)
  have "\<bar>of_int n :: rat\<bar> < 2 powi 53" using assms by (metis of_int_abs of_int_less_iff of_int_numeral of_int_power power_int_numeral)
  then have "(2::rat) powi k < 2 powi 53" using b(1) by linarith
  then have "k < 53" by (metis not_le power_int_increasing one_le_numeral)
  then have u: "(2::rat) powi (k - 53 + 1) = 1 / 2 ^ nat (52 - k)"
    by (simp add: power_int_def field_simps split: if_splits)
  have "of_int n / (2::rat) powi (k - 53 + 1) = of_int (n * 2 ^ nat (52 - k))"
    unfolding u by simp
  then have "rhe (of_int n / (2::rat) powi (k - 53 + 1)) = n * 2 ^ nat (52 - k)"
    by (simp only: rhe_of_int)
  then have "fl (of_int n) = of_int (n * 2 ^ nat (52 - k)) * (2::rat) powi (k - 53 + 1)"
    using False by (simp add: fl_def round_sig_def Let_def k_def [symmetric])
  then show ?thesis unfolding u by simp
qed simp

definition whole_number :: "rat \<Rightarrow> bool" where
  "whole_number q = (0 \<le> q \<and> q < 2 ^ 53 \<and> q = of_int \<lfloor>q\<rfloor>)"

lemma whole_number_iff: "whole_number q \<longleftrightarrow> (\<exists>n::int. q = of_int n \<and> 0 \<le> n \<and> n < 2 ^ 53)"
proof
  assume w: "whole_number q"
  then have "(of_int \<lfloor>q\<rfloor> :: rat) < of_int (2 ^ 53)" by (simp add: whole_number_def)
  then have "\<lfloor>q\<rfloor> < 2 ^ 53" by (simp only: of_int_less_iff)
  then show "\<exists>n::int. q = of_int n \<and> 0 \<le> n \<and> n < 2 ^ 53" using w by (intro exI [of _ "\<lfloor>q\<rfloor>"]) (auto simp: whole_number_def)
next
  assume "\<exists>n::int. q = of_int n \<and> 0 \<le> n \<and> n < 2 ^ 53"
  then obtain n :: int where n: "q = of_int n" "0 \<le> n" "n < 2 ^ 53" by blast
  have "(of_int n :: rat) < of_int (2 ^ 53)" using n(3) by (simp only: of_int_less_iff)
  then show "whole_number q" using n by (simp add: whole_number_def)
qed

lemma whole_fsub:
  assumes "whole_number a" "whole_number b" "b \<le> a"
  shows "fsub a b = a - b \<and> whole_number (a - b)"
proof -
  obtain m n :: int where mn: "a = of_int m" "b = of_int n" "0 \<le> m" "m < 2 ^ 53" "0 \<le> n" "n < 2 ^ 53"
    using assms(1,2) by (auto simp: whole_number_iff)
  then have "n \<le> m" using assms(3) by simp
  then have "fl (of_int (m - n)) = of_int (m - n)" using mn by (intro fl_of_int) simp
  then have "fsub a b = a - b" using mn by (simp add: fsub_def)
  moreover have "whole_number (a - b)" unfolding whole_number_iff using mn \<open>n \<le> m\<close> by (intro exI [of _ "m - n"]) simp
  ultimately show ?thesis by simp
qed

lemma whole_min: "whole_number a \<Longrightarrow> whole_number b \<Longrightarrow> whole_number (min a b)"
  by (simp add: min_def)

lemma SLACK_bounds: "0 < SLACK" "SLACK < 1"
proof -
  show "0 < SLACK" by (simp add: SLACK_def fl_pos)
  show "SLACK < 1" using fl_error [of "1 / 10 ^ 9"] by (simp add: SLACK_def abs_if split: if_splits)
qed

text \<open>Taking \<open>t\<close> from \<open>a\<close> leaves what the one rounding of the subtraction makes of it.\<close>

lemma fsub_bound:
  assumes "0 \<le> t" "t \<le> a"
  shows "0 \<le> fsub a t" "fsub a t \<le> (a - t) * (1 + 1 / 2 ^ 53)"
proof -
  have d: "0 \<le> a - t" using assms by simp
  show "0 \<le> fsub a t" using fl_nonneg [OF d] by (simp add: fsub_def)
  have "fl (a - t) \<le> (a - t) + (a - t) / 2 ^ 53" using fl_error [of "a - t"] d by linarith
  also have "\<dots> = (a - t) * (1 + 1 / 2 ^ 53)" by (simp only: distrib_left mult_1_right times_divide_eq_right)
  finally show "fsub a t \<le> (a - t) * (1 + 1 / 2 ^ 53)" by (simp only: fsub_def)
qed

text \<open>So what is taken and what is left make together at most \<open>1 + 2 ^ -53\<close> times what there was, for
  each time something is taken.\<close>

abbreviation with_rounding :: "rat \<Rightarrow> nat \<Rightarrow> rat" where
  "with_rounding q n \<equiv> q * (1 + 1 / 2 ^ 53) ^ n"

lemma take_within:
  assumes "0 \<le> s" "0 \<le> t" "t \<le> a" "s + a \<le> with_rounding q n"
  shows "s + t + fsub a t \<le> with_rounding q (Suc n)"
proof -
  let ?u = "1 + 1 / 2 ^ 53 :: rat"
  have "s + t \<le> (s + t) * ?u" using assms(1,2) by (simp add: algebra_simps)
  then have "s + t + fsub a t \<le> (s + t) * ?u + (a - t) * ?u" using fsub_bound(2) [OF assms(2,3)] by linarith
  also have "\<dots> = (s + a) * ?u" by (simp only: distrib_right [symmetric]) simp
  also have "\<dots> \<le> with_rounding q n * ?u" using assms(4) by (rule mult_right_mono) simp
  finally show ?thesis by (simp add: mult.commute mult.left_commute)
qed

section \<open>One lot offered\<close>

text \<open>What a lot offered to a draw has, and whether it has to go whole.\<close>

definition lot_key :: "dict \<Rightarrow> pyval" where
  "lot_key l = canon (dget l ''entity_id'')"

definition lot_whole :: "dict \<Rightarrow> rat" where
  "lot_whole l = (case float_or0 (dget l ''quantity'') of Inr q \<Rightarrow> q | Inl _ \<Rightarrow> 0)"

definition lot_splits :: "dict \<Rightarrow> bool" where
  "lot_splits l = (case lot_state l of Inr st \<Rightarrow> splitting_allowed st | Inl _ \<Rightarrow> True)"

lemma hkey_lot: "hkey (dget l ''entity_id'') = Inr k \<Longrightarrow> k = lot_key l"
  by (simp add: hkey_def lot_key_def split: if_splits)

text \<open>The three ways a lot leaves a draw: as it was, marked as seen (and perhaps passed over), or
  drawn from.\<close>

lemma draw_lot_cases:
  assumes "draw_lot d l = Inr d'"
  obtains (met) "dw_left d \<le> SLACK" "d' = d"
  | (seen) "SLACK < dw_left d" "lot_key l \<in> set (dw_seen d)" "d' = d"
  | (passed) "SLACK < dw_left d" "lot_key l \<notin> set (dw_seen d)"
      "available_of (dw_remaining d) (lot_key l) (lot_whole l) \<le> SLACK \<or> \<not> lot_splits l"
      "dw_seen d' = lot_key l # dw_seen d" "dw_draws d' = dw_draws d" "dw_left d' = dw_left d" "dw_remaining d' = dw_remaining d"
  | (drawn) take where "SLACK < dw_left d" "lot_key l \<notin> set (dw_seen d)"
      "SLACK < available_of (dw_remaining d) (lot_key l) (lot_whole l)"
      "take = min (dw_left d) (available_of (dw_remaining d) (lot_key l) (lot_whole l))"
      "take < fsub (lot_whole l) SLACK \<longrightarrow> lot_splits l"
      "\<exists>full. dw_draws d' = dw_draws d @ [\<lparr>dr_lot = l, dr_take = take, dr_full = full\<rparr>]"
      "dw_seen d' = lot_key l # dw_seen d" "dw_left d' = fsub (dw_left d) take"
      "dw_remaining d' = map_option (AList.update (lot_key l) (fsub (available_of (dw_remaining d) (lot_key l) (lot_whole l)) take)) (dw_remaining d)"
proof (cases "dw_left d \<le> SLACK")
  case True
  then have "d' = d" using assms by (simp add: draw_lot_def)
  with True show ?thesis by (rule met)
next
  case left: False
  then have pos: "SLACK < dw_left d" by simp
  obtain key where key: "hkey (dget l ''entity_id'') = Inr key"
    using assms left by (auto simp: draw_lot_def rbind_eq_Inr)
  note k = hkey_lot [OF key]
  show ?thesis
  proof (cases "lot_key l \<in> set (dw_seen d)")
    case True
    then have "d' = d" using assms left key k by (simp add: draw_lot_def)
    with pos True show ?thesis by (rule seen)
  next
    case new: False
    then obtain whole where whole: "float_or0 (dget l ''quantity'') = Inr whole"
      using assms left key k by (auto simp: draw_lot_def Let_def rbind_eq_Inr)
    then have w: "whole = lot_whole l" by (simp add: lot_whole_def)
    let ?avail = "available_of (dw_remaining d) (lot_key l) (lot_whole l)"
    let ?take = "min (dw_left d) ?avail"
    show ?thesis
    proof (cases "?avail \<le> SLACK")
      case True
      then have "d' = d\<lparr>dw_seen := lot_key l # dw_seen d\<rparr>"
        using assms left new key whole k w by (simp add: draw_lot_def Let_def)
      then show ?thesis using pos new True by (intro passed) simp_all
    next
      case False
      then obtain pass where pass: "(if ?take < fsub (lot_whole l) SLACK then rmap (Not \<circ> splitting_allowed) (lot_state l) else Inr False) = Inr pass"
        and res: "d' = (if pass then d\<lparr>dw_seen := lot_key l # dw_seen d, dw_skipped := dw_skipped d @ [l]\<rparr>
          else d\<lparr>dw_seen := lot_key l # dw_seen d, dw_draws := dw_draws d @ [\<lparr>dr_lot = l, dr_take = ?take, dr_full = (\<bar>fsub ?take ?avail\<bar> \<le> SLACK)\<rparr>],
                 dw_remaining := map_option (AList.update (lot_key l) (fsub ?avail ?take)) (dw_remaining d), dw_left := fsub (dw_left d) ?take\<rparr>)"
        using assms left new key whole k w by (auto simp: draw_lot_def Let_def rbind_eq_Inr split: if_splits)
      show ?thesis
      proof (cases pass)
        case True
        then have "\<not> lot_splits l" using pass by (auto simp: lot_splits_def rmap_eq_Inr split: if_splits)
        then show ?thesis using res True pos new by (intro passed) simp_all
      next
        case no: False
        then have "?take < fsub (lot_whole l) SLACK \<longrightarrow> lot_splits l"
          using pass by (auto simp: lot_splits_def rmap_eq_Inr split: if_splits)
        then show ?thesis using res no pos new False by (intro drawn [of ?take]) simp_all
      qed
    qed
  qed
qed

section \<open>A whole draw\<close>

abbreviation dr_key :: "draw \<Rightarrow> pyval" where
  "dr_key dr \<equiv> lot_key (dr_lot dr)"

text \<open>A draw taken rightly from what each lot had at the start.\<close>

definition taken_rightly :: "rat vmap option \<Rightarrow> draw \<Rightarrow> bool" where
  "taken_rightly rem dr =
     (0 < dr_take dr \<and> dr_take dr \<le> available_of rem (dr_key dr) (lot_whole (dr_lot dr))
      \<and> (dr_take dr < fsub (lot_whole (dr_lot dr)) SLACK \<longrightarrow> lot_splits (dr_lot dr)))"

definition drawing_ok :: "dict list \<Rightarrow> rat vmap option \<Rightarrow> drawing \<Rightarrow> bool" where
  "drawing_ok lots rem d =
     (distinct (map dr_key (dw_draws d))
      \<and> (\<forall>dr\<in>set (dw_draws d). dr_lot dr \<in> set lots \<and> dr_key dr \<in> set (dw_seen d) \<and> taken_rightly rem dr)
      \<and> (\<forall>k. k \<notin> set (dw_seen d) \<longrightarrow> available_of (dw_remaining d) k = available_of rem k))"

lemma available_update: "available_of (map_option (AList.update k q) rem) k' = (if k' = k \<and> rem \<noteq> None then (\<lambda>_. q) else available_of rem k')"
  by (auto simp: available_of_def fun_eq_iff split: option.splits)

lemma draw_lot_ok:
  assumes "drawing_ok lots rem d" "l \<in> set lots" "draw_lot d l = Inr d'"
  shows "drawing_ok lots rem d'"
  using assms(3)
proof (cases rule: draw_lot_cases)
  case passed
  then show ?thesis using assms(1) by (auto simp: drawing_ok_def)
next
  case (drawn take)
  from drawn(6) obtain full where ds: "dw_draws d' = dw_draws d @ [\<lparr>dr_lot = l, dr_take = take, dr_full = full\<rparr>]" by blast
  have av: "available_of (dw_remaining d) (lot_key l) = available_of rem (lot_key l)"
    using assms(1) drawn(2) by (simp add: drawing_ok_def)
  have "0 < take" using drawn(1,3,4) SLACK_bounds(1) by simp
  moreover have "take \<le> available_of rem (lot_key l) (lot_whole l)" using drawn(4) av by simp
  ultimately have "taken_rightly rem \<lparr>dr_lot = l, dr_take = take, dr_full = full\<rparr>"
    using drawn(5) by (simp add: taken_rightly_def)
  moreover have "lot_key l \<notin> dr_key ` set (dw_draws d)" using assms(1) drawn(2) by (auto simp: drawing_ok_def)
  ultimately show ?thesis using assms(1,2) drawn(7,9) ds by (auto simp: drawing_ok_def available_update)
qed (use assms in simp_all)

lemma draw_from_ok:
  assumes "draw_from lots needed rem = Inr d"
  shows "drawing_ok lots rem d"
  using assms unfolding draw_from_def
proof (rule foldR_invariant)
  fix t x t' assume "x \<in> set lots" "drawing_ok lots rem t" "draw_lot t x = Inr t'"
  then show "drawing_ok lots rem t'" using draw_lot_ok by blast
qed (simp add: drawing_ok_def)

section \<open>Nothing is lost\<close>

definition total_taken :: "drawing \<Rightarrow> rat" where
  "total_taken d = sum_list (map dr_take (dw_draws d))"

definition whole_stock :: "rat vmap option \<Rightarrow> dict \<Rightarrow> bool" where
  "whole_stock rem l = whole_number (available_of rem (lot_key l) (lot_whole l))"

lemma draw_lot_total:
  assumes "drawing_ok lots rem d" "whole_number (dw_left d)" "total_taken d + dw_left d = needed"
    and "l \<in> set lots" "whole_stock rem l" "draw_lot d l = Inr d'"
  shows "whole_number (dw_left d') \<and> total_taken d' + dw_left d' = needed"
  using assms(6)
proof (cases rule: draw_lot_cases)
  case passed
  then show ?thesis using assms(2,3) by (simp add: total_taken_def)
next
  case (drawn take)
  have av: "available_of (dw_remaining d) (lot_key l) = available_of rem (lot_key l)"
    using assms(1) drawn(2) by (simp add: drawing_ok_def)
  have t: "whole_number take" using assms(2,5) drawn(4) av by (simp add: whole_stock_def whole_min)
  have le: "take \<le> dw_left d" using drawn(4) by simp
  have "fsub (dw_left d) take = dw_left d - take \<and> whole_number (dw_left d - take)"
    by (rule whole_fsub [OF assms(2) t le])
  then show ?thesis using drawn(6,8) assms(3) by (auto simp: total_taken_def)
qed (use assms in simp_all)

lemma draw_from_total:
  assumes "draw_from lots needed rem = Inr d" "whole_number needed" "\<forall>l\<in>set lots. whole_stock rem l"
  shows "whole_number (dw_left d) \<and> total_taken d + dw_left d = needed"
proof -
  have "drawing_ok lots rem d \<and> whole_number (dw_left d) \<and> total_taken d + dw_left d = needed"
    using assms(1) unfolding draw_from_def
  proof (rule foldR_invariant)
    fix t x t' assume "x \<in> set lots" "drawing_ok lots rem t \<and> whole_number (dw_left t) \<and> total_taken t + dw_left t = needed"
      and "draw_lot t x = Inr t'"
    then show "drawing_ok lots rem t' \<and> whole_number (dw_left t') \<and> total_taken t' + dw_left t' = needed"
      using assms(3) draw_lot_ok draw_lot_total by blast
  qed (use assms(2) in \<open>simp add: drawing_ok_def total_taken_def\<close>)
  then show ?thesis by simp
qed

text \<open>What the draws take together, whatever the quantities: at most what was asked, but for the rounding
  of the need left after each.\<close>

definition within_need :: "rat \<Rightarrow> drawing \<Rightarrow> bool" where
  "within_need needed d =
     (0 \<le> total_taken d \<and> total_taken d + max 0 (dw_left d) \<le> with_rounding (max 0 needed) (length (dw_draws d)))"

lemma draw_lot_within:
  assumes "within_need needed d" "draw_lot d l = Inr d'"
  shows "within_need needed d'"
  using assms(2)
proof (cases rule: draw_lot_cases)
  case passed
  then show ?thesis using assms(1) by (simp add: within_need_def total_taken_def)
next
  case (drawn take)
  have t: "0 \<le> take" "take \<le> dw_left d" using drawn(1,3,4) SLACK_bounds(1) by simp_all
  obtain full where ds: "dw_draws d' = dw_draws d @ [\<lparr>dr_lot = l, dr_take = take, dr_full = full\<rparr>]" using drawn(6) by blast
  have left: "max 0 (dw_left d) = dw_left d" using drawn(1) SLACK_bounds(1) by simp
  have "total_taken d + take + fsub (dw_left d) take \<le> with_rounding (max 0 needed) (Suc (length (dw_draws d)))"
    using assms(1) t left by (intro take_within) (simp_all add: within_need_def)
  then show ?thesis using assms(1) t fsub_bound(1) [OF t] by (simp add: within_need_def total_taken_def ds drawn(8))
qed (use assms in simp_all)

lemma draw_from_within:
  assumes "draw_from lots needed rem = Inr d"
  shows "within_need needed d"
  using assms unfolding draw_from_def
proof (rule foldR_invariant)
  fix t x t' assume "within_need needed t" "draw_lot t x = Inr t'"
  then show "within_need needed t'" by (rule draw_lot_within)
qed (simp add: within_need_def total_taken_def)

text \<open>C31: a draw takes of each lot at most what it has left and no lot twice, and a lot whose splitting
  is off is taken whole (to within the tolerance) or not at all.  Together the draws take at most what
  was asked: exactly so when the quantities are whole numbers below \<open>2 ^ 53\<close>, and for any quantities
  up to one rounding of the need left (a part in \<open>2 ^ 53\<close>) for each draw.\<close>

theorem draw_takes_what_is_there:
  assumes "draw_from lots needed rem = Inr d"
  shows "distinct (map dr_key (dw_draws d))
    \<and> (\<forall>dr\<in>set (dw_draws d). dr_lot dr \<in> set lots \<and> 0 < dr_take dr
         \<and> dr_take dr \<le> available_of rem (dr_key dr) (lot_whole (dr_lot dr))
         \<and> (\<not> lot_splits (dr_lot dr) \<longrightarrow> fsub (lot_whole (dr_lot dr)) SLACK \<le> dr_take dr))
    \<and> total_taken d \<le> with_rounding (max 0 needed) (length (dw_draws d))
    \<and> (whole_number needed \<and> (\<forall>l\<in>set lots. whole_stock rem l) \<longrightarrow> total_taken d \<le> needed)"
proof -
  have "total_taken d \<le> needed" if "whole_number needed" "\<forall>l\<in>set lots. whole_stock rem l"
    using draw_from_total [OF assms that] by (simp add: whole_number_def)
  moreover have "total_taken d \<le> with_rounding (max 0 needed) (length (dw_draws d))"
    using draw_from_within [OF assms] by (simp add: within_need_def max_def split: if_splits)
  ultimately show ?thesis
    using draw_from_ok [OF assms] by (auto simp: drawing_ok_def taken_rightly_def not_less)
qed

lemma sorted_inventory_mset: "sorted_inventory xs m = Inr ys \<Longrightarrow> mset ys = mset xs"
proof -
  assume "sorted_inventory xs m = Inr ys"
  then obtain keyed where k: "mapR (\<lambda>it. rbind (if m = ''fefo'' then text_or ''9999-99-99'' it ''expires_at'' else Inr [])
        (\<lambda>x. rmap (\<lambda>c. ((x, c), it)) (text_or [] it ''created_at''))) xs = Inr keyed"
    and ys: "ys = map snd (if m = ''lifo'' then rev (sort_key fst (rev keyed)) else sort_key fst keyed)"
    by (auto simp: sorted_inventory_def rbind_eq_Inr)
  have "map snd keyed = xs"
  proof (rule nth_equalityI)
    show "length (map snd keyed) = length xs" using mapR_length [OF k] by simp
    fix i assume "i < length (map snd keyed)"
    then have i: "i < length xs" "i < length keyed" using mapR_length [OF k] by simp_all
    show "map snd keyed ! i = xs ! i" using mapR_nth [OF k i(1)] i(2) by (auto simp: rbind_eq_Inr rmap_eq_Inr)
  qed
  moreover have "image_mset snd (mset (sort_key fst keyed)) = image_mset snd (mset keyed)"
    "image_mset snd (mset (rev (sort_key fst (rev keyed)))) = image_mset snd (mset keyed)"
    by (simp_all only: mset_sort mset_rev)
  then have "mset ys = mset (map snd keyed)" unfolding ys by (simp only: mset_map split: if_split) simp
  ultimately show ?thesis by simp
qed

lemma plan_line_lots:
  assumes "plan_line_draws needed own primary free m rem spans = Inr d"
  obtains order where "draw_from order needed (Some rem) = Inr d" "set order \<subseteq> set own \<union> set_option primary \<union> set free"
proof -
  from assms obtain spanned where sp: "(if spans then sorted_inventory free m else Inr []) = Inr spanned"
    and d: "draw_from (own @ (case primary of Some p \<Rightarrow> [p] | None \<Rightarrow> []) @ spanned) needed (Some rem) = Inr d"
    by (auto simp: plan_line_draws_def rbind_eq_Inr)
  have "set spanned \<subseteq> set free"
    using sp sorted_inventory_mset [of free m spanned] by (auto split: if_splits dest: arg_cong [of _ _ set_mset])
  with d show thesis by (intro that) (auto split: option.splits)
qed

text \<open>When quantities are whole (pieces), what a line draws and what it reports missing add up
  exactly to what it needs.\<close>

theorem draws_and_shortfall_add_up:
  assumes "plan_line_draws needed own primary free pick_method rem spans = Inr d"
    and "whole_number needed"
    and "\<forall>l\<in>set own \<union> set_option primary \<union> set free. whole_number (available_of (Some rem) (lot_key l) (lot_whole l))"
  shows "sum_list (map dr_take (dw_draws d)) + shortfall d = needed"
proof -
  obtain order where o: "draw_from order needed (Some rem) = Inr d" "set order \<subseteq> set own \<union> set_option primary \<union> set free"
    by (rule plan_line_lots [OF assms(1)])
  have "whole_number (dw_left d) \<and> total_taken d + dw_left d = needed"
    by (rule draw_from_total [OF o(1) assms(2)]) (use o(2) assms(3) in \<open>auto simp: whole_stock_def\<close>)
  then show ?thesis by (simp add: total_taken_def shortfall_def whole_number_def)
qed

section \<open>A shortfall means the stock is out\<close>

definition used_up :: "rat vmap option \<Rightarrow> drawing \<Rightarrow> dict \<Rightarrow> bool" where
  "used_up rem d l =
     (let avail = available_of rem (lot_key l) (lot_whole l) in
      avail \<le> SLACK \<or> \<not> lot_splits l \<or> (\<exists>dr\<in>set (dw_draws d). dr_lot dr = l \<and> dr_take dr = avail))"

definition settled :: "dict list \<Rightarrow> rat vmap option \<Rightarrow> drawing \<Rightarrow> bool" where
  "settled lots rem d = (\<forall>k\<in>set (dw_seen d). \<exists>l\<in>set lots. lot_key l = k \<and> used_up rem d l)"

lemma used_up_more: "used_up rem d l \<Longrightarrow> set (dw_draws d) \<subseteq> set (dw_draws d') \<Longrightarrow> used_up rem d' l"
  by (auto simp: used_up_def Let_def)

lemma draw_lot_settled:
  assumes "drawing_ok lots rem d" "SLACK < dw_left d \<longrightarrow> settled lots rem d"
    and "l \<in> set lots" "draw_lot d l = Inr d'" "SLACK < dw_left d'"
  shows "settled lots rem d'"
  using assms(4)
proof (cases rule: draw_lot_cases)
  case passed
  have av: "available_of (dw_remaining d) (lot_key l) = available_of rem (lot_key l)"
    using assms(1) passed(2) by (simp add: drawing_ok_def)
  have "used_up rem d' l" using passed(3) av by (auto simp: used_up_def Let_def)
  moreover have "settled lots rem d" using assms(2) passed(1) by simp
  ultimately show ?thesis using passed(4,5) assms(3)
    by (auto simp: settled_def) (metis order_refl used_up_more)
next
  case (drawn take)
  have av: "available_of (dw_remaining d) (lot_key l) = available_of rem (lot_key l)"
    using assms(1) drawn(2) by (simp add: drawing_ok_def)
  have "take \<noteq> dw_left d" using assms(5) drawn(8) SLACK_bounds(1) by (auto simp: fsub_def)
  then have "take = available_of rem (lot_key l) (lot_whole l)" using drawn(4) av by (simp add: min_def split: if_splits)
  then have "used_up rem d' l" using drawn(6) by (auto simp: used_up_def Let_def)
  moreover have "set (dw_draws d) \<subseteq> set (dw_draws d')" using drawn(6) by auto
  moreover have "settled lots rem d" using assms(2) drawn(1) by simp
  ultimately show ?thesis using drawn(7) assms(3) by (auto simp: settled_def) (metis used_up_more)
qed (use assms in simp_all)

lemma draw_sees_all:
  "foldR draw_lot d xs = Inr d' \<Longrightarrow> SLACK < dw_left d' \<Longrightarrow>
     SLACK < dw_left d \<and> set (dw_seen d) \<subseteq> set (dw_seen d') \<and> lot_key ` set xs \<subseteq> set (dw_seen d')"
proof (induction xs arbitrary: d)
  case (Cons l xs)
  from Cons.prems(1) obtain d1 where d1: "draw_lot d l = Inr d1" and rest: "foldR draw_lot d1 xs = Inr d'"
    by (auto simp: rbind_eq_Inr)
  note IH = Cons.IH [OF rest Cons.prems(2)]
  from d1 show ?case by (cases rule: draw_lot_cases) (use IH in auto)
qed simp

text \<open>A draw that reports a shortfall has used up every lot it was offered: each one was empty,
  or was taken to the last unit, or may not be split.\<close>

theorem shortfall_means_out_of_stock:
  assumes "draw_from lots needed rem = Inr d" and "SLACK < shortfall d" and "inj_on lot_key (set lots)"
    and "l \<in> set lots"
  shows "available_of rem (lot_key l) (lot_whole l) \<le> SLACK \<or> \<not> lot_splits l
    \<or> (\<exists>dr\<in>set (dw_draws d). dr_lot dr = l \<and> dr_take dr = available_of rem (lot_key l) (lot_whole l))"
proof -
  have left: "SLACK < dw_left d" using assms(2) SLACK_bounds(1) by (auto simp: shortfall_def max_def split: if_splits)
  have "drawing_ok lots rem d \<and> (SLACK < dw_left d \<longrightarrow> settled lots rem d)"
    using assms(1) unfolding draw_from_def
  proof (rule foldR_invariant)
    fix t x t' assume x: "x \<in> set lots" "drawing_ok lots rem t \<and> (SLACK < dw_left t \<longrightarrow> settled lots rem t)" "draw_lot t x = Inr t'"
    then show "drawing_ok lots rem t' \<and> (SLACK < dw_left t' \<longrightarrow> settled lots rem t')"
      using draw_lot_ok draw_lot_settled by blast
  qed (simp add: drawing_ok_def settled_def)
  then have s: "settled lots rem d" using left by simp
  have "lot_key l \<in> set (dw_seen d)"
    using draw_sees_all [OF assms(1) [unfolded draw_from_def] left] assms(4) by auto
  then obtain l' where l': "l' \<in> set lots" "lot_key l' = lot_key l" "used_up rem d l'"
    using s by (auto simp: settled_def)
  then have "l' = l" using assms(3,4) by (auto dest: inj_onD)
  then show ?thesis using l'(3) by (simp add: used_up_def Let_def)
qed

section \<open>Lines planned one after another\<close>













section \<open>Witnesses\<close>

text \<open>A lot of three pieces and a lot of four that may not be split, offered to a need of five.\<close>

definition demo_lots :: "dict list" where
  "demo_lots =
     [[(''entity_id'', PStr ''a''), (''quantity'', PInt 3), (''created_at'', PStr ''2026-01-01'')],
      [(''entity_id'', PStr ''b''), (''quantity'', PInt 4), (''created_at'', PStr ''2026-01-02''),
       (''allow_splitting'', PBool False)]]"

definition demo_drawing :: "rat vmap option \<Rightarrow> drawing" where
  "demo_drawing rem = \<lparr>dw_draws = [\<lparr>dr_lot = hd demo_lots, dr_take = 3, dr_full = True\<rparr>], dw_left = 2,
     dw_seen = [PStr ''b'', PStr ''a''], dw_remaining = rem, dw_skipped = [demo_lots ! 1]\<rparr>"

lemma demo_draw: "draw_from demo_lots 5 None = Inr (demo_drawing None)"
  by code_simp

lemma demo_plan:
  "plan_line_draws 5 [] None demo_lots ''fifo'' [] True = Inr (demo_drawing (Some [(PStr ''a'', 0)]))"
  by code_simp

lemma demo_keys: "map lot_key demo_lots = [PStr ''a'', PStr ''b'']" "map lot_whole demo_lots = [3, 4]"
  by code_simp+

theorem draw_takes_what_is_there_witness:
  "list_all (\<lambda>dr. 0 < dr_take dr \<and> dr_take dr \<le> lot_whole (dr_lot dr)) (dw_draws (demo_drawing None))
    \<and> total_taken (demo_drawing None) \<le> 5"
proof -
  have "whole_number 5" by (simp add: whole_number_def)
  moreover have "\<forall>l\<in>set demo_lots. whole_stock None l"
    using demo_keys(2) by (simp add: demo_lots_def whole_stock_def available_of_def whole_number_def)
  ultimately show ?thesis
    unfolding list_all_iff using draw_takes_what_is_there [OF demo_draw] by (auto simp: available_of_def)
qed

theorem draws_and_shortfall_add_up_witness:
  "sum_list (map dr_take (dw_draws (demo_drawing (Some [(PStr ''a'', 0)])))) + shortfall (demo_drawing (Some [(PStr ''a'', 0)])) = 5"
proof (rule draws_and_shortfall_add_up [OF demo_plan])
  show "whole_number 5" by (simp add: whole_number_def)
  show "\<forall>l\<in>set [] \<union> set_option None \<union> set demo_lots. whole_number (available_of (Some []) (lot_key l) (lot_whole l))"
    using demo_keys(2) by (simp add: demo_lots_def available_of_def whole_number_def)
qed

theorem shortfall_means_out_of_stock_witness:
  "list_all (\<lambda>l. available_of None (lot_key l) (lot_whole l) \<le> SLACK \<or> \<not> lot_splits l
      \<or> (\<exists>dr\<in>set (dw_draws (demo_drawing None)). dr_lot dr = l \<and> dr_take dr = available_of None (lot_key l) (lot_whole l)))
    demo_lots"
proof -
  have "SLACK < shortfall (demo_drawing None)" using SLACK_bounds(2) by (simp add: shortfall_def demo_drawing_def)
  moreover have "inj_on lot_key (set demo_lots)" using demo_keys(1) by (auto simp: demo_lots_def inj_on_def)
  ultimately show ?thesis unfolding list_all_iff using shortfall_means_out_of_stock [OF demo_draw] by blast
qed



end
