(* ===== verification/Ledger.thy ===== *)
theory Ledger
  imports Engine
begin

text \<open>
  The ledger as the code that writes to it reads it back: the rows of \<open>celerp/models/ledger.py\<close>
  with the writer that produced them, their idempotency key and their metadata, and the queries
  the guards of a write make on the ledger and on the projections.
\<close>

record ledger_row = entry +
  l_source :: "string option"
  l_idem :: "string option"
  l_meta :: dict

definition plain_entry :: "ledger_row \<Rightarrow> entry" where
  "plain_entry r = \<lparr>e_id = e_id r, e_company = e_company r, e_entity = e_entity r, e_kind = e_kind r,
     e_type = e_type r, e_data = e_data r\<rparr>"

text \<open>The rows of one record and event type, and the latest of them.\<close>

definition rows_of :: "ledger_row list \<Rightarrow> string \<Rightarrow> string \<Rightarrow> string \<Rightarrow> ledger_row list" where
  "rows_of ledger company entity event_type =
     filter (\<lambda>r. e_company r = company \<and> e_entity r = entity \<and> e_type r = event_type) ledger"

fun newest :: "ledger_row list \<Rightarrow> ledger_row option" where
  "newest [] = None"
| "newest (r # rs) = (case newest rs of None \<Rightarrow> Some r | Some s \<Rightarrow> Some (if e_id r < e_id s then s else r))"

text \<open>The state of a row of the company by its id, of whatever kind or of one kind.  An id that is
  not text is no row's.\<close>

definition row_state :: "table \<Rightarrow> string \<Rightarrow> pyval \<Rightarrow> dict option" where
  "row_state db company ident =
     (case ident of PStr s \<Rightarrow> map_option p_state (map_of db (company, s)) | _ \<Rightarrow> None)"

definition state_of_kind :: "table \<Rightarrow> string \<Rightarrow> string \<Rightarrow> pyval \<Rightarrow> dict option" where
  "state_of_kind db company kind' ident =
     (case ident of
        PStr s \<Rightarrow> (case map_of db (company, s) of Some p \<Rightarrow> if p_kind p = kind' then Some (p_state p) else None | None \<Rightarrow> None)
      | _ \<Rightarrow> None)"

abbreviation item_state :: "table \<Rightarrow> string \<Rightarrow> pyval \<Rightarrow> dict option" where
  "item_state db company \<equiv> state_of_kind db company ''item''"

lemma newest_in: "newest rs = Some r \<Longrightarrow> r \<in> set rs"
  by (induction rs arbitrary: r) (auto split: option.splits if_splits)

lemma newest_greatest: "newest rs = Some r \<Longrightarrow> s \<in> set rs \<Longrightarrow> e_id s \<le> e_id r"
proof (induction rs arbitrary: r)
  case (Cons a rs)
  show ?case
  proof (cases "newest rs")
    case None
    then have "rs = []" by (cases rs) (auto split: option.splits)
    then show ?thesis using Cons.prems by simp
  next
    case (Some b)
    then show ?thesis using Cons.prems Cons.IH [OF Some] by (auto split: if_splits)
  qed
qed simp

end
