(* ===== verification/LineRules.thy ===== *)
theory LineRules
  imports Ledger DocLines
begin

text \<open>
  \<open>celerp/services/document_lines.py\<close>: the rules every write of a document's or list's lines is held
  to.  A line keeps its identity (\<open>normalize_line_ids\<close>); a line drawn from a memo is added by the
  draw, taken off by Back to memo and keeps what it is meanwhile; a memo keeps what was invoiced
  of it; a line that holds or moved stock keeps its place; a line links to an item of the company,
  newly only to one the record may take, and an outbound document never repeats a lot that may
  not be split.  The line set is a value, so what the source rewrites in place is the set each
  rule returns.  New identifiers come from a stream (\<open>uuid.uuid4\<close>), of which a write takes the next ones.
\<close>

section \<open>Line identity\<close>

definition line_uuid :: "pyval \<Rightarrow> int option" where
  "line_uuid v = (case v of PStr s \<Rightarrow> if length s = 32 \<or> length s = 36 then parse_uuid s else None | _ \<Rightarrow> None)"

definition is_line_id :: "pyval \<Rightarrow> bool" where
  "is_line_id v = (line_uuid v \<noteq> None)"

datatype line_key = ItemKey pyval | TextKey string

definition line_key :: "dict \<Rightarrow> line_key res" where
  "line_key line =
     (let i = line_item_id line in
      if truthy i then rmap ItemKey (hkey i)
      else Inr (TextKey (py_str (py_or (dget line ''description'') (PStr [])))))"

definition dict_lines :: "pyval list \<Rightarrow> dict list" where
  "dict_lines vs = concat (map (\<lambda>v. case v of PDict d \<Rightarrow> [d] | _ \<Rightarrow> []) vs)"

definition check_line_id :: "int list \<Rightarrow> pyval \<Rightarrow> int list res" where
  "check_line_id seen v =
     (case v of
        PDict line \<Rightarrow>
          (let lid = dget line ''line_id'' in
           if blank lid then Inr seen
           else case line_uuid lid of
                  None \<Rightarrow> Inl (HTTPError 422 ''line.invalid_line_id'')
                | Some u \<Rightarrow> if List.member seen u then Inl (HTTPError 422 ''line.duplicate_line_id'') else Inr (u # seen))
      | _ \<Rightarrow> Inr seen)"

definition lacks_line_id :: "pyval \<Rightarrow> bool" where
  "lacks_line_id v = (case v of PDict line \<Rightarrow> \<not> truthy (dget line ''line_id'') | _ \<Rightarrow> False)"

definition free_lines :: "int list \<Rightarrow> dict list \<Rightarrow> (nat \<times> dict) list" where
  "free_lines seen stored =
     filter (\<lambda>(_, line). case line_uuid (dget line ''line_id'') of None \<Rightarrow> False | Some u \<Rightarrow> \<not> List.member seen u)
       (enumerate 0 stored)"

text \<open>The stored line an incoming line without an id stands for: the free one at its position when
  it is about the same thing, or the only free one about its item when it is the only one
  incoming.\<close>

definition pick_stored :: "(line_key \<Rightarrow> nat) \<Rightarrow> (nat \<times> dict) list \<Rightarrow> (line_key \<Rightarrow> int) \<Rightarrow> nat \<Rightarrow> dict \<Rightarrow> line_key \<Rightarrow> nat option res" where
  "pick_stored incoming free stored_keys i line key =
     rbind (case map_of free i of Some s \<Rightarrow> rmap (\<lambda>k. k = key) (line_key s) | None \<Rightarrow> Inr False) (\<lambda>here.
     if here then Inr (Some i)
     else if truthy (line_item_id line) \<and> incoming key = 1 \<and> stored_keys key = 1
     then rbind (findR (\<lambda>(_, s). rmap (\<lambda>k. k = key) (line_key s)) free) (\<lambda>hit.
            case hit of Some (j, _) \<Rightarrow> Inr (Some j) | None \<Rightarrow> Inl RuntimeError)
     else Inr None)"

type_synonym naming = "pyval list \<times> (nat \<times> dict) list \<times> (line_key \<Rightarrow> int) \<times> nat"

definition give_line_id :: "(nat \<Rightarrow> string) \<Rightarrow> (line_key \<Rightarrow> nat) \<Rightarrow> naming \<Rightarrow> nat \<Rightarrow> naming res" where
  "give_line_id fresh incoming st i =
     (case st of (lines, free, stored_keys, n) \<Rightarrow>
      rbind (as_dict (lines ! i)) (\<lambda>line.
      rbind (line_key line) (\<lambda>key.
      rbind (pick_stored incoming free stored_keys i line key) (\<lambda>pick.
      case pick of
        Some j \<Rightarrow>
          rbind (case map_of free j of None \<Rightarrow> Inl KeyError | Some s \<Rightarrow> dkey s ''line_id'') (\<lambda>lid.
          Inr (lines[i := PDict (dput ''line_id'' lid line)], AList.delete j free, stored_keys(key := stored_keys key - 1), n))
      | None \<Rightarrow> Inr (lines[i := PDict (dput ''line_id'' (PStr (fresh n)) line)], free, stored_keys, Suc n)))))"

definition normalize_line_ids :: "(nat \<Rightarrow> string) \<Rightarrow> nat \<Rightarrow> pyval list \<Rightarrow> pyval list \<Rightarrow> (pyval list \<times> nat) res" where
  "normalize_line_ids fresh n line_set stored_lines =
     rbind (foldR check_line_id [] line_set) (\<lambda>seen.
     let missing = filter (\<lambda>i. lacks_line_id (line_set ! i)) [0..<length line_set];
         free = free_lines seen (dict_lines stored_lines)
     in if missing = [] then Inr (line_set, n)
        else rbind (mapR (\<lambda>i. rbind (as_dict (line_set ! i)) line_key) missing) (\<lambda>incoming.
             rbind (mapR (line_key \<circ> snd) free) (\<lambda>stored.
             rmap (\<lambda>(lines, _, _, n'). (lines, n'))
               (foldR (give_line_id fresh (count_list incoming)) (line_set, free, int \<circ> count_list stored, n) missing))))"

definition NEUTRAL_LINE_VALUES :: "(string \<times> pyval) list" where
  "NEUTRAL_LINE_VALUES = [(''sku'', PStr []), (''unit'', PStr []), (''discount_pct'', PInt 0), (''tax_rate'', PInt 0),
     (''allow_splitting'', PBool True)]"

fun is_bool :: "pyval \<Rightarrow> bool" where
  "is_bool (PBool _) = True"
| "is_bool _ = False"

definition drop_neutral :: "dict \<Rightarrow> dict \<Rightarrow> dict" where
  "drop_neutral before line =
     fold (\<lambda>(k, neutral) line. if dhas line k \<and> \<not> dhas before k \<and> py_eq (dget line k) neutral
                                  \<and> is_bool (dget line k) = is_bool neutral then ddel k line else line)
       NEUTRAL_LINE_VALUES line"

definition lines_by_id :: "dict list \<Rightarrow> dict vmap res" where
  "lines_by_id lines = foldR (\<lambda>m line. rmap (\<lambda>k. AList.update k line m) (hkey (dget line ''line_id''))) [] lines"

definition drop_neutral_line_values :: "pyval list \<Rightarrow> pyval list \<Rightarrow> pyval list res" where
  "drop_neutral_line_values line_set stored_lines =
     rmap (\<lambda>stored. map (\<lambda>v. case v of
         PDict line \<Rightarrow> (case dget line ''line_id'' of
             PStr lid \<Rightarrow> (case map_of stored (PStr lid) of Some before \<Rightarrow> PDict (drop_neutral before line) | None \<Rightarrow> v)
           | _ \<Rightarrow> v)
       | _ \<Rightarrow> v) line_set)
     (lines_by_id (filter (\<lambda>l. truthy (dget l ''line_id'')) (dict_lines stored_lines)))"

definition strip_line_ids :: "pyval list \<Rightarrow> pyval list" where
  "strip_line_ids lines = map (\<lambda>v. case v of PDict line \<Rightarrow> PDict (ddel ''line_id'' line) | _ \<Rightarrow> v) lines"

section \<open>Lines drawn from a memo\<close>

record drawn_line =
  dl_memo_line :: dict
  dl_drawn_from :: dict

datatype grant =
    MemoDraw (memo_id: string) (draw_id: string) (draw_lines: "(string \<times> drawn_line) list")
  | MemoReturn (returned_lines: "string list")

definition DRAWN_LINE_OWNED :: "string list" where
  "DRAWN_LINE_OWNED = [''item_id'', ''entity_id'', ''weight'', ''pieces'']"

definition DRAWN_HEADER_FIELDS :: "string list" where
  "DRAWN_HEADER_FIELDS = [''contact_id'', ''currency'']"

definition drawn_refusal :: "string \<Rightarrow> dict \<Rightarrow> py_exc" where
  "drawn_refusal key line =
     (case py_or (dget line ''drawn_from'') (PDict []) of PDict _ \<Rightarrow> HTTPError 409 key | _ \<Rightarrow> AttributeError)"

definition measure_of :: "dict \<Rightarrow> string \<Rightarrow> rat option res" where
  "measure_of line k = (if dget line k = PNone then Inr None else rmap Some (py_float (dget line k)))"

definition stored_drawn_lines :: "dict \<Rightarrow> dict vmap res" where
  "stored_drawn_lines stored =
     rbind (rows_or stored ''line_items'') (\<lambda>lines.
     lines_by_id (filter (\<lambda>l. truthy (dget l ''drawn_from'') \<and> truthy (dget l ''line_id'')) (dict_lines lines)))"

definition stamped_by_draw :: "ledger_row list \<Rightarrow> string \<Rightarrow> string \<Rightarrow> dict \<Rightarrow> string \<Rightarrow> string \<Rightarrow> bool res" where
  "stamped_by_draw ledger company entity line memo draw =
     rbind (dkey line ''drawn_from'') (\<lambda>v. rbind (as_dict v) (\<lambda>source.
     if \<not> (str_is (dget source ''memo_id'') memo \<and> str_is (dget source ''draw_id'') draw) then Inr False
     else case line_item_id line of
       PStr lot \<Rightarrow> (case newest (rows_of ledger company lot ''item.status.set'') of
           None \<Rightarrow> Inr False
         | Some e \<Rightarrow> Inr (str_is (dget (e_data e) ''source_doc_id'') entity
               \<and> py_eq (dget (l_meta e) ''doc_id'') (dget source ''memo_id'')
               \<and> py_eq (dget (l_meta e) ''source_line_id'') (dget source ''memo_line_id'')
               \<and> py_eq (dget (l_meta e) ''draw_id'') (dget source ''draw_id'')))
     | _ \<Rightarrow> Inr False))"

definition keep_owned :: "dict \<Rightarrow> dict \<Rightarrow> dict" where
  "keep_owned old line =
     fold (\<lambda>k line. case map_of old k of Some v \<Rightarrow> dput k v line | None \<Rightarrow> ddel k line) DRAWN_LINE_OWNED line"

text \<open>A stored drawn line as the write names it.\<close>

definition kept_drawn_line :: "bool \<Rightarrow> dict \<Rightarrow> dict \<Rightarrow> dict res" where
  "kept_drawn_line returning old line =
     (let line1 = dsetdefault ''drawn_from'' (dget old ''drawn_from'') line in
      if \<not> py_eq (dget line1 ''drawn_from'') (dget old ''drawn_from'') \<or> (returning \<and> \<not> py_eq (PDict line1) (PDict old))
      then Inl (drawn_refusal ''docs.memo_provenance_forged'' old)
      else let line2 = dsetdefault ''quantity'' (dget old ''quantity'') line1 in
        rbind (if (dhas line2 ''item_id'' \<or> dhas line2 ''entity_id'') \<and> \<not> py_eq (line_item_id line2) (line_item_id old) then Inr True
               else rbind (measure_of line2 ''quantity'') (\<lambda>a. rbind (measure_of old ''quantity'') (\<lambda>b. Inr (a \<noteq> b)))) (\<lambda>changed.
        if changed then Inl (drawn_refusal ''docs.drawn_line_locked'' old) else Inr (keep_owned old line2)))"

definition granted_line :: "grant option \<Rightarrow> pyval \<Rightarrow> drawn_line option" where
  "granted_line g lid = (case (g, lid) of (Some (MemoDraw _ _ lines), PStr s) \<Rightarrow> map_of lines s | _ \<Rightarrow> None)"

definition is_return :: "grant option \<Rightarrow> bool" where
  "is_return g = (case g of Some (MemoReturn _) \<Rightarrow> True | _ \<Rightarrow> False)"

definition removed_lines :: "grant option \<Rightarrow> pyval list" where
  "removed_lines g = (case g of Some (MemoReturn removed) \<Rightarrow> map PStr removed | _ \<Rightarrow> [])"

text \<open>A line the record does not hold as drawn: it may name a memo only under the draw's grant.\<close>

definition other_line :: "ledger_row list \<Rightarrow> string \<Rightarrow> string \<Rightarrow> grant option \<Rightarrow> pyval list \<Rightarrow> pyval \<Rightarrow> dict \<Rightarrow> dict res" where
  "other_line ledger company entity g stored_ids lid line =
     rbind (if truthy (dget line ''drawn_from'')
            then (case (g, granted_line g lid) of
                (Some (MemoDraw memo draw _), Some source) \<Rightarrow>
                  if \<not> py_eq (dget line ''drawn_from'') (PDict (dl_drawn_from source)) then Inr True
                  else rmap Not (stamped_by_draw ledger company entity line memo draw)
              | _ \<Rightarrow> Inr True)
            else Inr False) (\<lambda>forged.
     if forged then Inl (drawn_refusal ''docs.memo_provenance_forged'' line)
     else if is_return g \<and> \<not> List.member stored_ids lid then Inl AssertionError else Inr line)"

definition judge_drawn :: "ledger_row list \<Rightarrow> string \<Rightarrow> string \<Rightarrow> grant option \<Rightarrow> pyval list \<Rightarrow> dict vmap \<Rightarrow> pyval \<Rightarrow> pyval res" where
  "judge_drawn ledger company entity g stored_ids drawn v =
     (case v of
        PDict line \<Rightarrow>
          rbind (hkey (dget line ''line_id'')) (\<lambda>lid.
          rmap PDict (case map_of drawn lid of
              None \<Rightarrow> other_line ledger company entity g stored_ids lid line
            | Some old \<Rightarrow> kept_drawn_line (is_return g) old line))
      | _ \<Rightarrow> Inr v)"

definition check_drawn_header :: "dict vmap \<Rightarrow> dict \<Rightarrow> dict \<Rightarrow> unit res" where
  "check_drawn_header drawn stored incoming =
     (if drawn \<noteq> [] \<and> list_ex (\<lambda>k. dhas incoming k \<and> \<not> py_eq (dget incoming k) (dget stored k)) DRAWN_HEADER_FIELDS
      then Inl (drawn_refusal ''docs.drawn_header_locked'' (snd (hd drawn))) else Inr ())"

definition line_ids :: "dict list \<Rightarrow> pyval list res" where
  "line_ids lines = mapR (\<lambda>l. hkey (dget l ''line_id'')) lines"

text \<open>The rule for drawn lines, with the header fields and the line set the write sets; the line set
  comes back with the stored values a kept drawn line takes.\<close>

definition assert_drawn_lines_authorized ::
  "ledger_row list \<Rightarrow> string \<Rightarrow> string \<Rightarrow> dict \<Rightarrow> dict \<Rightarrow> pyval list option \<Rightarrow> grant option \<Rightarrow> pyval list option res" where
  "assert_drawn_lines_authorized ledger company entity stored incoming line_set g =
     rbind (stored_drawn_lines stored) (\<lambda>drawn.
     rbind (check_drawn_header drawn stored incoming) (\<lambda>_.
     case line_set of
       None \<Rightarrow> Inr None
     | Some vs \<Rightarrow>
         rbind (line_ids (dict_lines vs)) (\<lambda>ids.
         let removed = removed_lines g in
         if \<not> (list_all (\<lambda>r. map_of drawn r \<noteq> None) removed \<and> \<not> list_ex (List.member ids) removed) then Inl AssertionError
         else case find (\<lambda>(lid, _). \<not> List.member ids lid \<and> \<not> List.member removed lid) drawn of
           Some (_, old) \<Rightarrow> Inl (drawn_refusal ''docs.drawn_line_back_to_memo'' old)
         | None \<Rightarrow>
             rbind (rbind (rows_or stored ''line_items'') (\<lambda>ls. line_ids (dict_lines ls))) (\<lambda>stored_ids.
             rmap Some (mapR (judge_drawn ledger company entity g stored_ids drawn) vs)))))"
end
