(* ===== verification/LineRefs.thy ===== *)
theory LineRefs
  imports LineRules Pick
begin

text \<open>
  The references of a document's lines (\<open>celerp/services/document_lines.py\<close>): what a memo keeps of the
  lines an invoice holds goods of, the items a line may link to, the items a line may newly take,
  the lots a record holds for its own lines, and the lots no document may name twice.
\<close>

section \<open>Memo lines on invoices\<close>

text \<open>The takes of a memo that count (\<open>doc_money.memo_draws\<close>), each with its lines not yet back.  A
  memo converted before draws existed is one take without lines.\<close>

definition unreturned :: "dict \<Rightarrow> (dict \<times> dict list) res" where
  "unreturned t =
     rbind (rbind (dkey t ''lines'') py_iter) (\<lambda>lines. rbind (mapR as_dict lines) (\<lambda>ls.
     Inr (t, filter (\<lambda>ln. \<not> truthy (dget ln ''returned'')) ls)))"

definition memo_takes :: "dict \<Rightarrow> (dict \<times> dict list) list res" where
  "memo_takes state =
     (if str_is (dget state ''status'') ''converted'' \<and> truthy (dget state ''converted_to'') then Inr []
      else rbind (rows_or state ''invoiced_on'') (\<lambda>vs. rbind (mapR as_dict vs) (\<lambda>takes.
           mapR unreturned (filter (\<lambda>t. \<not> truthy (dget t ''released'')) takes))))"

type_synonym held_takes = "(dict \<times> dict) list vmap"

definition add_take :: "held_takes \<Rightarrow> dict \<times> dict \<Rightarrow> held_takes res" where
  "add_take held p =
     rbind (rbind (dkey (snd p) ''memo_line_id'') hkey) (\<lambda>k.
     Inr (AList.update k ((case map_of held k of Some ps \<Rightarrow> ps | None \<Rightarrow> []) @ [p]) held))"

definition memo_takes_by_line :: "dict \<Rightarrow> held_takes res" where
  "memo_takes_by_line state =
     (if \<not> str_is (dget state ''doc_type'') ''memo'' then Inr []
      else rbind (memo_takes state) (\<lambda>takes. foldR add_take [] (concat (map (\<lambda>(t, ls). map (Pair t) ls) takes))))"

text \<open>The refusal of a change to a drawn line adds up what the first take's invoice holds of it.\<close>

definition memo_line_drawn :: "(dict \<times> dict) list \<Rightarrow> py_exc" where
  "memo_line_drawn takes =
     (case rbind (mapR (\<lambda>(t, ln). rmap (\<lambda>i. (i, ln)) (dkey t ''invoice_id'')) takes) (\<lambda>ps.
           mapR (\<lambda>(_, ln). rbind (dkey ln ''quantity'') py_float) (filter (\<lambda>(i, _). py_eq i (fst (hd ps))) ps)) of
        Inl e \<Rightarrow> e | Inr _ \<Rightarrow> HTTPError 409 ''docs.memo_line_drawn'')"

definition MEMO_DRAWN_MEASURES :: "string list" where
  "MEMO_DRAWN_MEASURES = [''quantity'', ''weight'', ''pieces'', ''unit_price'', ''discount_pct'', ''tax_rate'']"

text \<open>\<open>all(...)\<close> over the measures stops at the first that differs.\<close>

fun same_measures :: "dict \<Rightarrow> dict \<Rightarrow> string list \<Rightarrow> bool res" where
  "same_measures line old [] = Inr True"
| "same_measures line old (k # ks) =
     rbind (measure_of line k) (\<lambda>a. rbind (measure_of old k) (\<lambda>b. if a = b then same_measures line old ks else Inr False))"

definition memo_line_kept :: "table \<Rightarrow> string \<Rightarrow> (nat \<times> dict) option \<Rightarrow> nat \<Rightarrow> dict \<Rightarrow> bool res" where
  "memo_line_kept db company found index old =
     (case found of
        None \<Rightarrow> Inr False
      | Some (n, line) \<Rightarrow>
          rbind (if n = index \<and> py_eq (dget line ''taxes'') (dget old ''taxes'') then same_measures line old MEMO_DRAWN_MEASURES
                 else Inr False) (\<lambda>kept.
          if kept \<and> \<not> py_eq (line_item_id line) (line_item_id old)
          then Inr (case row_state db company (line_item_id line) of
                      Some part \<Rightarrow> py_eq (dget part ''split_from'') (line_item_id old) | None \<Rightarrow> False)
          else Inr kept))"

definition numbered_lines :: "pyval list \<Rightarrow> (nat \<times> dict) vmap res" where
  "numbered_lines vs =
     foldR (\<lambda>m (n, v). case v of PDict line \<Rightarrow> rmap (\<lambda>k. AList.update k (n, line) m) (hkey (dget line ''line_id'')) | _ \<Rightarrow> Inr m)
       [] (enumerate 0 vs)"

definition check_memo_line :: "table \<Rightarrow> string \<Rightarrow> held_takes \<Rightarrow> (nat \<times> dict) vmap \<Rightarrow> nat \<times> pyval \<Rightarrow> unit res" where
  "check_memo_line db company held new p =
     (case p of (index, PDict old) \<Rightarrow>
         rbind (hkey (dget old ''line_id'')) (\<lambda>k.
         case map_of held k of
           None \<Rightarrow> Inr ()
         | Some takes \<Rightarrow> rbind (memo_line_kept db company (map_of new k) index old) (\<lambda>kept.
             if kept then Inr () else Inl (memo_line_drawn takes)))
      | _ \<Rightarrow> Inr ())"

definition assert_memo_draws_kept :: "table \<Rightarrow> string \<Rightarrow> dict \<Rightarrow> dict \<Rightarrow> pyval list option \<Rightarrow> unit res" where
  "assert_memo_draws_kept db company stored incoming line_set =
     rbind (memo_takes_by_line stored) (\<lambda>held.
     if held = [] then Inr ()
     else if dhas incoming ''contact_id'' \<and> \<not> py_eq (dget incoming ''contact_id'') (dget stored ''contact_id'')
     then Inl (HTTPError 409 ''docs.memo_contact_drawn'')
     else case line_set of
       None \<Rightarrow> Inr ()
     | Some vs \<Rightarrow> rbind (numbered_lines vs) (\<lambda>new. rbind (rows_or stored ''line_items'') (\<lambda>lines.
         rmap (\<lambda>_. ()) (mapR (check_memo_line db company held new) (enumerate 0 lines)))))"

text \<open>Line actions: not on a drawn line of a draft invoice, nor on a memo line all of which is on
  invoices.\<close>

definition refuse_drawn_line_action :: "dict \<Rightarrow> int list \<Rightarrow> unit res" where
  "refuse_drawn_line_action state indices =
     (if \<not> str_is (dget state ''doc_type'') ''invoice'' \<or> \<not> str_is (dget state ''status'') ''draft'' then Inr ()
      else rbind (rows_or state ''line_items'') (\<lambda>lines.
        rmap (\<lambda>_. ()) (mapR (\<lambda>i.
          if 0 \<le> i \<and> i < int (length lines)
          then (case lines ! nat i of
                  PDict line \<Rightarrow> if truthy (dget line ''drawn_from'')
                    then Inl (drawn_refusal ''docs.drawn_line_back_to_memo'' line) else Inr ()
                | _ \<Rightarrow> Inr ())
          else Inr ()) indices)))"

definition all_on_invoices :: "(dict \<times> dict) list \<Rightarrow> dict \<Rightarrow> bool res" where
  "all_on_invoices takes line =
     (if takes = [] then Inr False
      else rbind (mapR (\<lambda>(_, ln). rbind (dkey ln ''quantity'') py_float) takes) (\<lambda>qs.
           rmap (\<lambda>q. q \<le> fsum qs) (float_or0 (dget line ''quantity''))))"

definition refuse_drawn_memo_line_action :: "dict \<Rightarrow> int list \<Rightarrow> unit res" where
  "refuse_drawn_memo_line_action state indices =
     rbind (memo_takes_by_line state) (\<lambda>held. rbind (rows_or state ''line_items'') (\<lambda>lines.
     rmap (\<lambda>_. ()) (mapR (\<lambda>i.
       if 0 \<le> i \<and> i < int (length lines)
       then (case lines ! nat i of
               PDict line \<Rightarrow> if line = [] then Inr () else rbind (hkey (dget line ''line_id'')) (\<lambda>k.
                 let takes = (case map_of held k of Some ps \<Rightarrow> ps | None \<Rightarrow> []) in
                 rbind (all_on_invoices takes line) (\<lambda>b. if b then Inl (memo_line_drawn takes) else Inr ()))
             | _ \<Rightarrow> Inr ())
       else Inr ()) indices)))"

section \<open>References\<close>

definition line_id_counts :: "pyval list \<Rightarrow> pyval list res" where
  "line_id_counts lines = mapR hkey (filter truthy (map line_item_id (dict_lines lines)))"

definition names_two_items :: "dict \<Rightarrow> bool" where
  "names_two_items line =
     (truthy (dget line ''item_id'') \<and> truthy (dget line ''entity_id'') \<and> \<not> py_eq (dget line ''item_id'') (dget line ''entity_id''))"

text \<open>Counts are lists of ids: a line whose item is gone is carried forward up to the number of lines
  the stored record had for that id.\<close>

definition carry_line :: "(pyval \<Rightarrow> dict option) \<Rightarrow> pyval list \<Rightarrow> pyval list \<Rightarrow> pyval \<Rightarrow> pyval list res" where
  "carry_line items known carried k =
     (if items k \<noteq> None then Inr carried
      else if count_list known k < count_list (k # carried) k then Inl (HTTPError 422 ''documents.err_item_missing'')
      else Inr (k # carried))"

definition linked_items :: "(pyval \<Rightarrow> dict option) \<Rightarrow> pyval list \<Rightarrow> pyval list \<Rightarrow> unit res" where
  "linked_items items known lines =
     (if list_ex names_two_items (dict_lines lines) then Inl (HTTPError 422 ''documents.err_line_two_items'')
      else rbind (line_id_counts lines) (\<lambda>ids. rmap (\<lambda>_. ()) (foldR (carry_line items known) [] ids)))"

definition converted_from_memo :: "ledger_row list \<Rightarrow> string \<Rightarrow> string \<Rightarrow> pyval \<Rightarrow> pyval \<Rightarrow> pyval" where
  "converted_from_memo ledger company invoice doc_type source_memo =
     (case source_memo of
        PStr memo \<Rightarrow>
          if memo = [] \<or> invoice = [] \<or> \<not> str_is doc_type ''invoice'' then PNone
          else if list_ex (\<lambda>e. str_is (dget (e_data e) ''target_doc_id'') invoice) (rows_of ledger company memo ''doc.converted'')
          then source_memo else PNone
      | _ \<Rightarrow> PNone)"

definition memo_of_line :: "dict \<Rightarrow> pyval \<Rightarrow> pyval res" where
  "memo_of_line line legacy_memo =
     rmap (\<lambda>v. py_or v legacy_memo) (vget (py_or (dget line ''drawn_from'') (PDict [])) ''memo_id'')"

definition DELETED :: string where "DELETED = ''deleted''"

definition DOCUMENT_ITEM_UNIQUE_DOC_TYPES :: "string list" where
  "DOCUMENT_ITEM_UNIQUE_DOC_TYPES = [''memo'', ''invoice'']"

text \<open>Why a record may not newly take an item.\<close>

definition not_eligible :: "dict \<Rightarrow> bool \<Rightarrow> string \<Rightarrow> pyval \<Rightarrow> string option" where
  "not_eligible state claims_stock entity source_memo =
     (if str_is (dget state ''status'') DELETED then Some ''lines.item_deleted''
      else if status_lower state = ''draft'' then Some ''item.draft''
      else if claims_stock \<and> str_is (dget state ''status'') ''reserved'' \<and> \<not> str_is (dget state ''status_doc_id'') entity
      then Some ''documents.lot_reserved_by''
      else if claims_stock \<and> out_on_another_memo state (PStr entity) source_memo
      then Some (if truthy (dget state ''status_doc_number'') then ''documents.lot_on_memo_by'' else ''documents.lot_on_memo_elsewhere'')
      else None)"

definition more_than :: "pyval list \<Rightarrow> pyval list \<Rightarrow> pyval list" where
  "more_than ids known = remdups (filter (\<lambda>k. count_list known k < count_list ids k) ids)"

fun is_text :: "pyval \<Rightarrow> bool" where
  "is_text (PStr _) = True"
| "is_text _ = False"

text \<open>\<open>sorted\<close> of ids: texts, or numbers (no item's id); the two together do not compare.\<close>

definition sorted_ids :: "pyval list \<Rightarrow> pyval list res" where
  "sorted_ids ids =
     (if list_all is_text ids then Inr (map PStr (sort (map py_str ids)))
      else if list_ex is_text ids then Inl TypeError else Inr ids)"

definition assert_new_references_eligible ::
  "(pyval \<Rightarrow> dict option) \<Rightarrow> pyval list \<Rightarrow> pyval list \<Rightarrow> pyval \<Rightarrow> string \<Rightarrow> pyval \<Rightarrow> unit res" where
  "assert_new_references_eligible items ids known doc_type entity source_memo =
     rbind (sorted_ids (more_than ids known)) (\<lambda>new.
     let here = filter (\<lambda>k. items k \<noteq> None) new in
     rbind (if here = [] then Inr False else in_set doc_type DOCUMENT_ITEM_UNIQUE_DOC_TYPES) (\<lambda>claims_stock.
     let errors = List.map_filter (\<lambda>k. case items k of Some st \<Rightarrow> not_eligible st claims_stock entity source_memo | None \<Rightarrow> None) here
     in if errors \<noteq> [] then Inl (HTTPError 422 (join ''; '' errors)) else Inr ()))"

text \<open>A lot this record holds for one of its lines.\<close>

definition line_item_pairs :: "pyval list \<Rightarrow> (pyval \<times> pyval) list res" where
  "line_item_pairs lines =
     mapR (\<lambda>l. rbind (hkey (dget l ''line_id'')) (\<lambda>a. rmap (Pair a) (hkey (line_item_id l))))
       (filter (\<lambda>l. truthy (line_item_id l)) (dict_lines lines))"

definition held_for_other :: "(pyval \<Rightarrow> dict option) \<Rightarrow> string \<Rightarrow> pyval \<times> pyval \<Rightarrow> bool" where
  "held_for_other items entity p =
     (let state = (case items (snd p) of Some st \<Rightarrow> st | None \<Rightarrow> []); holder = dget state ''status_line_entity_id'' in
      str_is (dget state ''status'') ''reserved'' \<and> entity \<noteq> [] \<and> str_is (dget state ''status_doc_id'') entity
      \<and> truthy holder \<and> \<not> py_eq holder (fst p))"

definition assert_line_holds_respected :: "(pyval \<Rightarrow> dict option) \<Rightarrow> pyval list \<Rightarrow> pyval list \<Rightarrow> string \<Rightarrow> unit res" where
  "assert_line_holds_respected items lines stored_lines entity =
     rbind (line_item_pairs lines) (\<lambda>new. rbind (line_item_pairs stored_lines) (\<lambda>old.
     if list_ex (\<lambda>p. count_list old p < count_list new p \<and> held_for_other items entity p) new
     then Inl (HTTPError 422 ''item.held_for_other_line'') else Inr ()))"

definition assert_document_item_uniqueness :: "(pyval \<Rightarrow> dict option) \<Rightarrow> pyval \<Rightarrow> pyval list \<Rightarrow> unit res" where
  "assert_document_item_uniqueness items doc_type lines =
     rbind (in_set doc_type DOCUMENT_ITEM_UNIQUE_DOC_TYPES) (\<lambda>governed.
     if \<not> governed \<or> lines = [] then Inr ()
     else rbind (line_id_counts lines) (\<lambda>ids.
       if list_ex (\<lambda>k. 1 < count_list ids k \<and> (case items k of Some st \<Rightarrow> \<not> splitting_allowed st | None \<Rightarrow> False)) ids
       then Inl (HTTPError 409 ''documents.duplicate_item_on_document'') else Inr ()))"

end
