(* ===== verification/LineWrite.thy ===== *)
theory LineWrite
  imports LineRefs
begin

text \<open>
  The lines of a record that stock points at, and a write of lines as a whole: which line a lot went
  out on (\<open>auto_je.line_of_lot\<close>, \<open>doc_line_of_lot\<close>), which stored lines are protected and how a write
  has to keep them (\<open>document_lines._protected_lines\<close>, \<open>assert_protected_lines_kept\<close>), and the
  order in which \<open>events/engine.py\<close> applies the rules to a document's or list's write.
\<close>

section \<open>The line a lot went out on\<close>

definition text_or_none :: "pyval \<Rightarrow> pyval" where
  "text_or_none v = (case v of PStr s \<Rightarrow> if s \<noteq> [] then v else PNone | _ \<Rightarrow> PNone)"

definition recorded_line_index :: "ledger_row \<Rightarrow> int option" where
  "recorded_line_index e = (case dget (l_meta e) ''line_index'' of PInt i \<Rightarrow> Some i | _ \<Rightarrow> None)"

definition recorded_line :: "ledger_row \<Rightarrow> pyval \<times> int option" where
  "recorded_line e = (text_or_none (dget (l_meta e) ''source_line_id''), recorded_line_index e)"

definition stamped_line :: "ledger_row \<Rightarrow> pyval" where
  "stamped_line e = text_or_none (py_or (dget (l_meta e) ''invoice_line_id'') (dget (l_meta e) ''source_line_id''))"

definition binds_lot :: "string \<Rightarrow> dict \<Rightarrow> bool" where
  "binds_lot lot_id line = str_is (py_or (dget line ''entity_id'') (dget line ''item_id'')) lot_id"

definition same_sku :: "string \<Rightarrow> dict \<Rightarrow> bool" where
  "same_sku sku line = (sku \<noteq> [] \<and> stripped line ''sku'' = sku)"

definition positions :: "(dict \<Rightarrow> bool) \<Rightarrow> dict list \<Rightarrow> nat list" where
  "positions p lines = filter (\<lambda>i. p (lines ! i)) [0..<length lines]"

definition line_of_lot :: "dict list \<Rightarrow> string \<Rightarrow> dict \<Rightarrow> int option \<Rightarrow> pyval \<Rightarrow> nat option" where
  "line_of_lot lines lot_id lot recorded source_line_id =
     (let named = (if truthy source_line_id then positions (\<lambda>l. py_eq (dget l ''line_id'') source_line_id) lines else []);
          sku = stripped lot ''sku'';
          there = (case recorded of
              Some r \<Rightarrow> if 0 \<le> r \<and> r < int (length lines) \<and> (binds_lot lot_id (lines ! nat r) \<or> same_sku sku (lines ! nat r))
                        then Some (nat r) else None
            | None \<Rightarrow> None);
          binders = positions (binds_lot lot_id) lines in
      case named of i # _ \<Rightarrow> Some i
      | [] \<Rightarrow> (case there of Some r \<Rightarrow> Some r
              | None \<Rightarrow> if binders \<noteq> [] then the_only binders else the_only (positions (same_sku sku) lines)))"

text \<open>The latest shipment of a lot for a record, and its latest stamp onto it that names a line.\<close>

definition latest_for :: "ledger_row list \<Rightarrow> string \<Rightarrow> string \<Rightarrow> string \<Rightarrow> string \<Rightarrow> ledger_row option" where
  "latest_for ledger company lot_id event_type doc =
     newest (filter (\<lambda>e. str_is (dget (e_data e) ''source_doc_id'') doc \<and> (event_type = ''item.fulfilled'' \<or> truthy (stamped_line e)))
       (rows_of ledger company lot_id event_type))"

definition doc_line_of_lot :: "ledger_row list \<Rightarrow> string \<Rightarrow> string \<Rightarrow> dict \<Rightarrow> dict list \<Rightarrow> string \<Rightarrow> dict \<Rightarrow> nat option" where
  "doc_line_of_lot ledger company doc doc_state lines lot_id lot =
     (case latest_for ledger company lot_id ''item.fulfilled'' doc of
        Some shipped \<Rightarrow> line_of_lot lines lot_id lot (snd (recorded_line shipped)) (fst (recorded_line shipped))
      | None \<Rightarrow> line_of_lot lines lot_id lot None
          (case latest_for ledger company lot_id ''item.status.set'' doc of
             Some stamp \<Rightarrow> stamped_line stamp
           | None \<Rightarrow> (case converted_from_memo ledger company doc (dget doc_state ''doc_type'') (dget doc_state ''source_memo_id'') of
               PStr memo \<Rightarrow> (case latest_for ledger company lot_id ''item.fulfilled'' memo of
                   Some sent \<Rightarrow> fst (recorded_line sent) | None \<Rightarrow> PNone)
             | _ \<Rightarrow> PNone)))"

section \<open>Protected lines\<close>

datatype why = Held | Shipped | Received

type_synonym marks = "(nat \<times> why \<times> string list) list"

definition mark :: "nat \<Rightarrow> int \<Rightarrow> why \<Rightarrow> string list \<Rightarrow> marks \<Rightarrow> marks" where
  "mark n index w lots out =
     (if 0 \<le> index \<and> index < int n
      then let (before, own) = (case map_of out (nat index) of Some m \<Rightarrow> m | None \<Rightarrow> (w, []))
           in AList.update (nat index) (if before \<noteq> Held then before else w, own @ lots) out
      else out)"

definition lots_of_record :: "table \<Rightarrow> string \<Rightarrow> string \<Rightarrow> (string \<times> dict) list" where
  "lots_of_record db company owner =
     List.map_filter (\<lambda>((c, eid), p). if c = company \<and> p_kind p = ''item'' \<and> str_is (dget (p_state p) ''status_doc_id'') owner
                                 then Some (eid, p_state p) else None) db"

definition mark_shipped :: "ledger_row list \<Rightarrow> string \<Rightarrow> string \<Rightarrow> dict \<Rightarrow> dict list \<Rightarrow> marks \<Rightarrow> string \<times> dict \<Rightarrow> marks" where
  "mark_shipped ledger company owner stored lines out r =
     (let (eid, st) = r; n = length lines; sku = stripped st ''sku'' in
      if \<not> str_in (dget st ''status'') [''sold'', ''memo_out''] then out
      else case doc_line_of_lot ledger company owner stored lines eid st of
        Some i \<Rightarrow> if truthy (dget (lines ! i) ''drawn_from'') then out else mark n (int i) Shipped [eid] out
      | None \<Rightarrow> foldl (\<lambda>out i. mark n (int i) Shipped [eid] out) out
          (positions (\<lambda>l. str_is (line_item_id l) eid \<or> same_sku sku l) lines))"

definition receipt_index :: "nat vmap \<Rightarrow> dict \<Rightarrow> int option res" where
  "receipt_index index_of entry =
     (let source = dget entry ''source_line_id'' in
      if truthy source then rmap (\<lambda>k. map_option int (map_of index_of k)) (hkey source)
      else rtry (\<lambda>e. e = TypeError \<or> e = ValueError) (rmap Some (py_int (dget entry ''po_line_index''))) (Inr None))"

definition mark_lots :: "nat \<Rightarrow> (nat \<times> string) list \<Rightarrow> marks \<Rightarrow> marks" where
  "mark_lots n ps out = foldl (\<lambda>out p. mark n (int (fst p)) Held [snd p] out) out ps"

definition mark_holds :: "nat \<Rightarrow> holdings \<Rightarrow> marks" where
  "mark_holds n h =
     mark_lots n (concat (map (\<lambda>(eid, is). map (\<lambda>i. (i, eid)) is) (ambiguous h))) (mark_lots n (by_line h) [])"

definition mark_receipt :: "nat \<Rightarrow> nat vmap \<Rightarrow> marks \<Rightarrow> dict \<Rightarrow> marks res" where
  "mark_receipt n index_of out entry =
     rmap (\<lambda>i. case i of Some i \<Rightarrow> mark n i Received [] out | None \<Rightarrow> out) (receipt_index index_of entry)"

definition protected_lines :: "ledger_row list \<Rightarrow> table \<Rightarrow> string \<Rightarrow> string \<Rightarrow> dict \<Rightarrow> dict list \<Rightarrow> marks res" where
  "protected_lines ledger db company owner stored lines =
     (let rows = lots_of_record db company owner; n = length lines in
      rbind (attribute_holds lines (filter (\<lambda>(_, st). str_is (dget st ''status'') ''reserved'') rows)) (\<lambda>h.
      rbind (index_of_lines lines) (\<lambda>index_of.
      rbind (rows_or stored ''received_items'') (\<lambda>received. rbind (rows_or stored ''returned_items'') (\<lambda>returned.
      foldR (mark_receipt n index_of) (foldl (mark_shipped ledger company owner stored lines) (mark_holds n h) rows)
        (dict_lines (received @ returned)))))))"

definition RECEIVE_KINDS :: "string list" where
  "RECEIVE_KINDS = [''stock'', ''expense'', ''asset'']"

definition line_receive_kind :: "dict \<Rightarrow> string" where
  "line_receive_kind line =
     (let k = py_lower (stripped line ''receive_as'') in
      if List.member RECEIVE_KINDS k then k
      else if truthy (dget line ''sku'') \<or> truthy (dget line ''item_id'') then ''stock'' else ''expense'')"

definition bill_line_kind :: "dict \<Rightarrow> string" where
  "bill_line_kind line = line_receive_kind line"

definition untouched :: "dict list \<Rightarrow> pyval list \<Rightarrow> bool" where
  "untouched stored_lines line_set =
     (length stored_lines \<le> length line_set
      \<and> list_all (\<lambda>(old, v). case v of
            PDict new \<Rightarrow> py_eq (dget old ''line_id'') (dget new ''line_id'') \<and> py_eq (line_item_id old) (line_item_id new)
                         \<and> bill_line_kind old = bill_line_kind new
          | _ \<Rightarrow> False) (zip stored_lines line_set))"

text \<open>The line of the write that stands for the stored line at a position.\<close>

definition counterpart :: "dict \<Rightarrow> nat \<Rightarrow> pyval list \<Rightarrow> pyval list \<Rightarrow> nat option res" where
  "counterpart old index line_set stored_ids =
     (let lid = dget old ''line_id'';
          named = (if truthy lid then filter (\<lambda>i. case line_set ! i of PDict l \<Rightarrow> py_eq (dget l ''line_id'') lid | _ \<Rightarrow> False)
                     [0..<length line_set] else []) in
      case named of i # _ \<Rightarrow> Inr (Some i)
      | [] \<Rightarrow> if truthy lid \<or> length line_set \<le> index then Inr None
              else (case line_set ! index of
                  PDict l \<Rightarrow> rmap (\<lambda>k. if List.member stored_ids k then None else Some index) (hkey (dget l ''line_id''))
                | _ \<Rightarrow> Inr None))"

definition kept_protected :: "(pyval \<Rightarrow> dict option) \<Rightarrow> why \<Rightarrow> string list \<Rightarrow> nat \<Rightarrow> dict \<Rightarrow> nat \<Rightarrow> dict \<Rightarrow> bool res" where
  "kept_protected items w lots index old n new =
     (let was = line_item_id old; now = line_item_id new in
      rbind (if py_eq now was then Inr True
             else if list_ex (str_is now) lots then Inr True
             else if truthy now then rmap (\<lambda>k. truthy was \<and> (case items k of
                    Some part \<Rightarrow> py_eq (dget part ''split_from'') was | None \<Rightarrow> False)) (hkey now)
             else Inr False) (\<lambda>same_goods.
      Inr (same_goods \<and> (w \<noteq> Held \<longrightarrow> n = index) \<and> (w = Received \<longrightarrow> bill_line_kind old = bill_line_kind new))))"

definition check_protected :: "(pyval \<Rightarrow> dict option) \<Rightarrow> dict list \<Rightarrow> pyval list \<Rightarrow> pyval list \<Rightarrow> nat \<times> why \<times> string list \<Rightarrow> bool res" where
  "check_protected items stored_lines line_set stored_ids m =
     (let (index, w, lots) = m; old = stored_lines ! index in
      rbind (counterpart old index line_set stored_ids) (\<lambda>n.
      case n of None \<Rightarrow> Inr False
      | Some n \<Rightarrow> rbind (as_dict (line_set ! n)) (kept_protected items w lots index old n)))"

definition protected_refusal :: "why \<Rightarrow> py_exc" where
  "protected_refusal w =
     HTTPError 409 (case w of Held \<Rightarrow> ''line.protected_held'' | Received \<Rightarrow> ''line.protected_received'' | Shipped \<Rightarrow> ''lines.shipped_elsewhere'')"

text \<open>In the order of the lines, the first line lost that holds stock or received goods is refused;
  the shipped ones are gathered and refused together at the end.\<close>

definition judge_protected :: "(pyval \<Rightarrow> dict option) \<Rightarrow> dict list \<Rightarrow> pyval list \<Rightarrow> pyval list \<Rightarrow> bool \<Rightarrow> nat \<times> why \<times> string list \<Rightarrow> bool res" where
  "judge_protected items stored_lines line_set stored_ids shipped m =
     rbind (check_protected items stored_lines line_set stored_ids m) (\<lambda>ok.
     if ok then Inr shipped
     else if fst (snd m) = Shipped then Inr True else Inl (protected_refusal (fst (snd m))))"

definition assert_protected_lines_kept ::
  "ledger_row list \<Rightarrow> table \<Rightarrow> string \<Rightarrow> string \<Rightarrow> dict \<Rightarrow> pyval list \<Rightarrow> unit res" where
  "assert_protected_lines_kept ledger db company owner stored line_set =
     rbind (rows_or stored ''line_items'') (\<lambda>vs.
     let stored_lines = dict_lines vs in
     if stored_lines = [] \<or> untouched stored_lines line_set then Inr ()
     else rbind (protected_lines ledger db company owner stored stored_lines) (\<lambda>marks.
     if marks = [] then Inr ()
     else rbind (line_ids (filter (\<lambda>l. truthy (dget l ''line_id'')) stored_lines)) (\<lambda>stored_ids.
     rbind (foldR (judge_protected (item_state db company) stored_lines line_set stored_ids) False (sort_key fst marks)) (\<lambda>shipped.
     if shipped then Inl (protected_refusal Shipped) else Inr ()))))"

section \<open>A write of lines\<close>

definition changed_fields :: "dict \<Rightarrow> dict" where
  "changed_fields data = (case dget data ''fields_changed'' of PDict d \<Rightarrow> d | _ \<Rightarrow> [])"

definition LINE_FIELDS :: "string list" where
  "LINE_FIELDS = [''line_items'', ''contact_id'', ''currency'']"

text \<open>The fields a write sets, whole or as changes, and its line set when that is a list.\<close>

definition sets_of :: "dict \<Rightarrow> dict" where
  "sets_of data =
     fold (\<lambda>k d. case map_of (changed_fields data) k of
             Some (PDict c) \<Rightarrow> (case map_of c ''new'' of Some v \<Rightarrow> dput k v d | None \<Rightarrow> d) | _ \<Rightarrow> d) LINE_FIELDS
       (fold (\<lambda>k d. case map_of data k of Some v \<Rightarrow> dput k v d | None \<Rightarrow> d) LINE_FIELDS [])"

definition line_set_of :: "dict \<Rightarrow> pyval list option" where
  "line_set_of sets = (case map_of sets ''line_items'' of Some (PList vs) \<Rightarrow> Some vs | _ \<Rightarrow> None)"

record line_write =
  lw_company :: string
  lw_entity :: string
  lw_kind :: string
  lw_data :: dict
  lw_grant :: "grant option"

definition judge_line_set :: "ledger_row list \<Rightarrow> table \<Rightarrow> line_write \<Rightarrow> dict \<Rightarrow> pyval list \<Rightarrow> unit res" where
  "judge_line_set ledger db w stored lines =
     (let items = item_state db (lw_company w) in
      rbind (assert_protected_lines_kept ledger db (lw_company w) (lw_entity w) stored lines) (\<lambda>_.
      rbind (rows_or stored ''line_items'') (\<lambda>before.
      rbind (line_id_counts before) (\<lambda>known.
      rbind (linked_items items known lines) (\<lambda>_.
      let doc_type = py_or (dget (lw_data w) ''doc_type'') (dget stored ''doc_type'');
          memo = converted_from_memo ledger (lw_company w) (lw_entity w) doc_type
                   (py_or (dget (lw_data w) ''source_memo_id'') (dget stored ''source_memo_id'')) in
      rbind (line_id_counts lines) (\<lambda>ids.
      rbind (assert_new_references_eligible items ids known doc_type (lw_entity w) memo) (\<lambda>_.
      rbind (assert_line_holds_respected items lines before (lw_entity w)) (\<lambda>_.
      assert_document_item_uniqueness items doc_type lines))))))))"

definition write_lines :: "(nat \<Rightarrow> string) \<Rightarrow> nat \<Rightarrow> ledger_row list \<Rightarrow> table \<Rightarrow> line_write \<Rightarrow> (pyval list option \<times> nat) res" where
  "write_lines fresh n ledger db w =
     (let sets = sets_of (lw_data w); line_set = line_set_of sets in
      if line_set = None \<and> \<not> dhas sets ''contact_id'' \<and> \<not> dhas sets ''currency'' then Inr (None, n)
      else let stored = (case state_of_kind db (lw_company w) (lw_kind w) (PStr (lw_entity w)) of Some d \<Rightarrow> d | None \<Rightarrow> []) in
        rbind (case line_set of None \<Rightarrow> Inr (None, n)
               | Some vs \<Rightarrow> rbind (rows_or stored ''line_items'') (\<lambda>before.
                   rmap (\<lambda>(ls, n'). (Some ls, n')) (normalize_line_ids fresh n vs before))) (\<lambda>(named, n').
        rbind (assert_drawn_lines_authorized ledger (lw_company w) (lw_entity w) stored sets named (lw_grant w)) (\<lambda>judged.
        rbind (assert_memo_draws_kept db (lw_company w) stored sets judged) (\<lambda>_.
        case judged of None \<Rightarrow> Inr (None, n')
        | Some lines \<Rightarrow> rmap (\<lambda>_. (judged, n')) (judge_line_set ledger db w stored lines)))))"

end
