(* ===== verification/LineFacts.thy ===== *)
theory LineFacts
  imports LineWrite "HOL-Library.Multiset"
begin

text \<open>
  What the rules for lines guarantee: after a write every line has an id of its own, a save that
  drops the ids gets them back, a drawn line stays what the memo lent, a protected line keeps
  its place and its goods, and an accepted write links only to goods the record may take.
\<close>

section \<open>Evaluation helpers\<close>

lemma in_dict_lines [simp]: "d \<in> set (dict_lines vs) \<longleftrightarrow> PDict d \<in> set vs"
  by (auto simp: dict_lines_def split: pyval.splits)

lemma dict_lines_simps [simp]: "dict_lines [] = []" "dict_lines (PDict d # vs) = d # dict_lines vs"
  "dict_lines (xs @ ys) = dict_lines xs @ dict_lines ys"
  by (simp_all add: dict_lines_def)

lemma foldR_skip: "(\<And>x t. x \<in> set xs \<Longrightarrow> f t x = Inr t) \<Longrightarrow> foldR f s xs = Inr s"
  by (induction xs) auto

section \<open>Every line has its own id\<close>

definition uuid_at :: "pyval \<Rightarrow> int option" where
  "uuid_at v = (case v of PDict line \<Rightarrow> line_uuid (dget line ''line_id'') | _ \<Rightarrow> None)"

definition is_line :: "pyval \<Rightarrow> bool" where
  "is_line v = (case v of PDict _ \<Rightarrow> True | _ \<Rightarrow> False)"

definition apart :: "pyval list \<Rightarrow> bool" where
  "apart vs = (\<forall>i<length vs. \<forall>j<length vs. i \<noteq> j \<longrightarrow> uuid_at (vs ! i) \<noteq> None \<longrightarrow> uuid_at (vs ! i) \<noteq> uuid_at (vs ! j))"

definition fresh_uuid :: "(nat \<Rightarrow> string) \<Rightarrow> nat \<Rightarrow> int option" where
  "fresh_uuid fresh m = line_uuid (PStr (fresh m))"

text \<open>The identifiers a write may take, from \<open>n\<close> to before \<open>N\<close>, made new: each is one, no two are the
  same, and none was used before.\<close>

definition all_new :: "(nat \<Rightarrow> string) \<Rightarrow> nat \<Rightarrow> nat \<Rightarrow> pyval list \<Rightarrow> bool" where
  "all_new fresh n N used =
     ((\<forall>m\<in>{n..<N}. fresh_uuid fresh m \<noteq> None) \<and> inj_on (fresh_uuid fresh) {n..<N}
      \<and> (\<forall>m\<in>{n..<N}. \<forall>v\<in>set used. uuid_at v \<noteq> fresh_uuid fresh m))"

definition naming_ok :: "(nat \<Rightarrow> string) \<Rightarrow> nat \<Rightarrow> naming \<Rightarrow> bool" where
  "naming_ok fresh N st =
     (case st of (lines, free, _, n) \<Rightarrow>
        apart lines
        \<and> (\<forall>j s. map_of free j = Some s \<longrightarrow> uuid_at (PDict s) \<noteq> None
             \<and> (\<forall>v\<in>set lines. uuid_at v \<noteq> uuid_at (PDict s))
             \<and> (\<forall>m\<in>{n..<N}. uuid_at (PDict s) \<noteq> fresh_uuid fresh m)
             \<and> (\<forall>k t. map_of free k = Some t \<longrightarrow> k \<noteq> j \<longrightarrow> uuid_at (PDict t) \<noteq> uuid_at (PDict s)))
        \<and> (\<forall>v\<in>set lines. \<forall>m\<in>{n..<N}. uuid_at v \<noteq> fresh_uuid fresh m))"

lemma apart_update:
  assumes "apart vs" "i < length vs" "\<forall>v\<in>set vs. uuid_at v \<noteq> uuid_at w"
  shows "apart (vs[i := w])"
  unfolding apart_def
proof (intro allI impI)
  fix a b assume a: "a < length (vs[i := w])" "b < length (vs[i := w])" "a \<noteq> b" "uuid_at (vs[i := w] ! a) \<noteq> None"
  then have "vs ! a \<in> set vs" "vs ! b \<in> set vs" by simp_all
  then have w: "uuid_at (vs ! a) \<noteq> uuid_at w" "uuid_at (vs ! b) \<noteq> uuid_at w" using assms(3) by blast+
  have old: "uuid_at (vs ! a) \<noteq> None \<Longrightarrow> uuid_at (vs ! a) \<noteq> uuid_at (vs ! b)"
    using assms(1) a(1-3) unfolding apart_def length_list_update by blast
  show "uuid_at (vs[i := w] ! a) \<noteq> uuid_at (vs[i := w] ! b)"
  proof (cases "a = i \<or> b = i")
    case True
    then show ?thesis using a assms(2) w by (auto simp: nth_list_update)
  next
    case False
    then show ?thesis using a(4) old by (simp add: nth_list_update)
  qed
qed

lemma give_line_id_cases:
  assumes "give_line_id fresh inc (lines, free, counts, n) i = Inr (lines', free', counts', n')"
  obtains (old) line j s where "lines ! i = PDict line" "map_of free j = Some s"
      "lines' = lines[i := PDict (dput ''line_id'' (dget s ''line_id'') line)]" "free' = AList.delete j free" "n' = n"
  | (new) line where "lines ! i = PDict line" "lines' = lines[i := PDict (dput ''line_id'' (PStr (fresh n)) line)]"
      "free' = free" "n' = Suc n"
proof -
  from assms obtain line key pick where line: "lines ! i = PDict line"
    and pick: "(case pick of
        Some j \<Rightarrow> rbind (case map_of free j of None \<Rightarrow> Inl KeyError | Some s \<Rightarrow> dkey s ''line_id'') (\<lambda>lid.
          Inr (lines[i := PDict (dput ''line_id'' lid line)], AList.delete j free, counts(key := counts key - 1), n))
      | None \<Rightarrow> Inr (lines[i := PDict (dput ''line_id'' (PStr (fresh n)) line)], free, counts, Suc n)) = Inr (lines', free', counts', n')"
    by (auto simp: give_line_id_def rbind_eq_Inr as_dict_Inr)
  show thesis
  proof (cases pick)
    case None
    then show thesis using pick by (intro new [OF line]) auto
  next
    case (Some j)
    then obtain s lid where "map_of free j = Some s" "dkey s ''line_id'' = Inr lid"
      "lines' = lines[i := PDict (dput ''line_id'' lid line)]" "free' = AList.delete j free" "n' = n"
      using pick by (auto simp: rbind_eq_Inr split: option.splits)
    then show thesis using line by (intro old) (auto simp: dkey_Inr dget_Some)
  qed
qed

lemma uuid_at_named [simp]: "uuid_at (PDict (dput ''line_id'' v line)) = line_uuid v"
  by (simp add: uuid_at_def)

lemma give_line_id_ok:
  assumes ok: "naming_ok fresh N (lines, free, counts, n)" and i: "i < length lines"
    and new: "\<forall>m\<in>{n..<N}. fresh_uuid fresh m \<noteq> None" "inj_on (fresh_uuid fresh) {n..<N}" and n: "n < N"
    and step: "give_line_id fresh inc (lines, free, counts, n) i = Inr (lines', free', counts', n')"
  shows "naming_ok fresh N (lines', free', counts', n') \<and> n \<le> n' \<and> n' \<le> Suc n \<and> length lines' = length lines \<and> uuid_at (lines' ! i) \<noteq> None
    \<and> (\<forall>k<length lines. (is_line (lines' ! k) \<longleftrightarrow> is_line (lines ! k)) \<and> (k \<noteq> i \<longrightarrow> lines' ! k = lines ! k))"
  using step
proof (cases rule: give_line_id_cases)
  case (old line j s)
  let ?w = "PDict (dput ''line_id'' (dget s ''line_id'') line)"
  have w: "uuid_at ?w = uuid_at (PDict s)" by (simp add: uuid_at_def)
  have s: "uuid_at (PDict s) \<noteq> None" "\<forall>v\<in>set lines. uuid_at v \<noteq> uuid_at (PDict s)" "\<forall>m\<in>{n..<N}. uuid_at (PDict s) \<noteq> fresh_uuid fresh m"
    "\<forall>k t. map_of free k = Some t \<longrightarrow> k \<noteq> j \<longrightarrow> uuid_at (PDict t) \<noteq> uuid_at (PDict s)"
    using ok old(2) unfolding naming_ok_def by blast+
  have ap: "apart (lines[i := ?w])" by (rule apart_update) (use ok i s(2) w in \<open>auto simp: naming_ok_def\<close>)
  have elem: "v = ?w \<or> v \<in> set lines" if "v \<in> set (lines[i := ?w])" for v
    using that set_update_subset_insert [of lines i ?w] by auto
  have "naming_ok fresh N (lines[i := ?w], AList.delete j free, counts', n)"
    unfolding naming_ok_def prod.case
  proof (intro conjI allI impI ballI)
    show "apart (lines[i := ?w])" by (rule ap)
  next
    fix k t assume k: "map_of (AList.delete j free) k = Some t"
    then have k': "map_of free k = Some t" "k \<noteq> j" by (auto split: if_splits)
    show "uuid_at (PDict t) \<noteq> None" using ok k'(1) unfolding naming_ok_def by blast
    show "uuid_at (PDict t) \<noteq> fresh_uuid fresh m" if "m \<in> {n..<N}" for m
      using ok k'(1) that unfolding naming_ok_def by blast
    show "uuid_at v \<noteq> uuid_at (PDict t)" if "v \<in> set (lines[i := ?w])" for v
      using elem [OF that] s(4) k' w ok unfolding naming_ok_def by fastforce
    show "uuid_at (PDict t') \<noteq> uuid_at (PDict t)" if "map_of (AList.delete j free) l = Some t'" "l \<noteq> k" for l t'
      using that k' ok unfolding naming_ok_def by (auto split: if_splits)
  next
    fix v m assume "v \<in> set (lines[i := ?w])" "m \<in> {n..<N}"
    then show "uuid_at v \<noteq> fresh_uuid fresh m" using elem [of v] s(3) w ok unfolding naming_ok_def by fastforce
  qed
  then show ?thesis using old i s(1) w by (auto simp: nth_list_update is_line_def)
next
  case (new line)
  let ?w = "PDict (dput ''line_id'' (PStr (fresh n)) line)"
  have w: "uuid_at ?w = fresh_uuid fresh n" by (simp add: fresh_uuid_def)
  have ap: "apart (lines[i := ?w])" by (rule apart_update) (use ok i w n in \<open>auto simp: naming_ok_def\<close>)
  have elem: "v = ?w \<or> v \<in> set lines" if "v \<in> set (lines[i := ?w])" for v
    using that set_update_subset_insert [of lines i ?w] by auto
  have later: "fresh_uuid fresh n \<noteq> fresh_uuid fresh m" if "m \<in> {Suc n..<N}" for m
    using that assms(4) n by (auto dest: inj_onD)
  have "naming_ok fresh N (lines[i := ?w], free, counts', Suc n)"
    unfolding naming_ok_def prod.case
  proof (intro conjI allI impI ballI)
    show "apart (lines[i := ?w])" by (rule ap)
  next
    fix k t assume k: "map_of free k = Some t"
    show "uuid_at (PDict t) \<noteq> None" using ok k unfolding naming_ok_def by blast
    show "uuid_at (PDict t) \<noteq> fresh_uuid fresh m" if "m \<in> {Suc n..<N}" for m
    proof -
      have "m \<in> {n..<N}" using that by simp
      then show ?thesis using ok k unfolding naming_ok_def by blast
    qed
    show "uuid_at v \<noteq> uuid_at (PDict t)" if "v \<in> set (lines[i := ?w])" for v
    proof -
      have "\<forall>m\<in>{n..<N}. uuid_at (PDict t) \<noteq> fresh_uuid fresh m" "\<forall>v\<in>set lines. uuid_at v \<noteq> uuid_at (PDict t)"
        using ok k unfolding naming_ok_def by blast+
      moreover have "n \<in> {n..<N}" using n by simp
      ultimately show ?thesis using elem [OF that] w by metis
    qed
    show "uuid_at (PDict t') \<noteq> uuid_at (PDict t)" if "map_of free l = Some t'" "l \<noteq> k" for l t'
      using that k ok unfolding naming_ok_def by blast
  next
    fix v m assume v: "v \<in> set (lines[i := ?w])" and m: "m \<in> {Suc n..<N}"
    then have "m \<in> {n..<N}" by simp
    then have "\<forall>v\<in>set lines. uuid_at v \<noteq> fresh_uuid fresh m" using ok unfolding naming_ok_def by blast
    then show "uuid_at v \<noteq> fresh_uuid fresh m" using elem [OF v] later [OF m] w by metis
  qed
  moreover have "fresh_uuid fresh n \<noteq> None" using assms(3) n by simp
  ultimately show ?thesis using new i w by (auto simp: nth_list_update is_line_def)
qed

lemma give_line_ids_ok:
  assumes "foldR (give_line_id fresh inc) st is = Inr st'" "naming_ok fresh N st" "\<forall>i\<in>set is. i < length (fst st)"
    and new: "\<forall>m\<in>{snd (snd (snd st))..<N}. fresh_uuid fresh m \<noteq> None" "inj_on (fresh_uuid fresh) {snd (snd (snd st))..<N}"
    and room: "snd (snd (snd st)) + length is \<le> N"
  shows "apart (fst st') \<and> length (fst st') = length (fst st)
    \<and> (\<forall>k<length (fst st). (is_line (fst st' ! k) \<longleftrightarrow> is_line (fst st ! k))
          \<and> (k \<in> set is \<or> uuid_at (fst st ! k) \<noteq> None \<longrightarrow> uuid_at (fst st' ! k) \<noteq> None))"
  using assms
proof (induction "is" arbitrary: st)
  case Nil
  then show ?case by (auto simp: naming_ok_def split: prod.splits)
next
  case (Cons i "is")
  obtain lines free counts n where st: "st = (lines, free, counts, n)" by (cases st)
  from Cons.prems(1) obtain st1 where st1: "give_line_id fresh inc st i = Inr st1" and rest: "foldR (give_line_id fresh inc) st1 is = Inr st'"
    by (auto simp: rbind_eq_Inr)
  obtain lines1 free1 counts1 n1 where s1: "st1 = (lines1, free1, counts1, n1)" by (cases st1)
  have i: "i < length lines" using Cons.prems(3) st by simp
  have room: "n < N" using Cons.prems(6) st by simp
  have step: "naming_ok fresh N st1" "n \<le> n1" "n1 \<le> Suc n" "length lines1 = length lines" "uuid_at (lines1 ! i) \<noteq> None"
    "\<forall>k<length lines. (is_line (lines1 ! k) \<longleftrightarrow> is_line (lines ! k)) \<and> (k \<noteq> i \<longrightarrow> lines1 ! k = lines ! k)"
    using give_line_id_ok [OF Cons.prems(2) [unfolded st] i _ _ room st1 [unfolded st s1]] Cons.prems(4,5) st s1 by simp_all
  have "\<forall>i\<in>set is. i < length (fst st1)" using Cons.prems(3) step st s1 by simp
  then have IH: "apart (fst st')" "length (fst st') = length lines1"
    "\<forall>k<length lines1. (is_line (fst st' ! k) \<longleftrightarrow> is_line (lines1 ! k)) \<and> (k \<in> set is \<or> uuid_at (lines1 ! k) \<noteq> None \<longrightarrow> uuid_at (fst st' ! k) \<noteq> None)"
    using Cons.IH [OF rest step(1)] Cons.prems(3-6) step s1 st by (auto simp: inj_on_def)
  have len: "length lines1 = length lines" using step by simp
  have "(is_line (fst st' ! k) \<longleftrightarrow> is_line (lines ! k)) \<and> (k \<in> set (i # is) \<or> uuid_at (lines ! k) \<noteq> None \<longrightarrow> uuid_at (fst st' ! k) \<noteq> None)"
    if k: "k < length lines" for k
    using IH(3) step k len by (cases "k = i") auto
  then show ?case using IH(1,2) len st by simp
qed

lemma seen_ids:
  "foldR check_line_id seen vs = Inr seen' \<Longrightarrow> apart vs \<and> set seen' = set seen \<union> {u. \<exists>v\<in>set vs. uuid_at v = Some u}
     \<and> (\<forall>v\<in>set vs. \<forall>u. uuid_at v = Some u \<longrightarrow> u \<notin> set seen) \<and> (\<forall>v\<in>set vs. is_line v \<longrightarrow> uuid_at v \<noteq> None \<or> lacks_line_id v)"
proof (induction vs arbitrary: seen)
  case (Cons v vs)
  from Cons.prems obtain seen1 where v: "check_line_id seen v = Inr seen1" and rest: "foldR check_line_id seen1 vs = Inr seen'"
    by (auto simp: rbind_eq_Inr)
  note IH = Cons.IH [OF rest]
  have s1: "set seen1 = set seen \<union> {u. uuid_at v = Some u} \<and> (\<forall>u. uuid_at v = Some u \<longrightarrow> u \<notin> set seen)
      \<and> (is_line v \<longrightarrow> uuid_at v \<noteq> None \<or> lacks_line_id v)"
  proof (cases v)
    case (PDict line)
    show ?thesis
    proof (cases "blank (dget line ''line_id'')")
      case True
      then have "line_uuid (dget line ''line_id'') = None" by (auto simp: blank_def line_uuid_def)
      then show ?thesis using v PDict True
        by (auto simp: check_line_id_def uuid_at_def lacks_line_id_def blank_def)
    next
      case False
      then show ?thesis using v PDict by (auto simp: check_line_id_def uuid_at_def split: option.splits if_splits)
    qed
  qed (use v in \<open>auto simp: check_line_id_def uuid_at_def is_line_def\<close>)
  have other: "uuid_at v \<noteq> uuid_at w" if "w \<in> set vs" "uuid_at w \<noteq> None" for w
    using IH s1 that by (cases "uuid_at w") auto
  have "apart (v # vs)"
    unfolding apart_def
  proof (intro allI impI)
    fix a b assume ab: "a < length (v # vs)" "b < length (v # vs)" "a \<noteq> b" "uuid_at ((v # vs) ! a) \<noteq> None"
    show "uuid_at ((v # vs) ! a) \<noteq> uuid_at ((v # vs) ! b)"
    proof (cases a)
      case 0
      then obtain c where c: "b = Suc c" using ab(3) by (cases b) auto
      then show ?thesis using 0 ab(2,4) other [of "vs ! c"] by auto
    next
      case (Suc c)
      show ?thesis
      proof (cases b)
        case 0
        then show ?thesis using Suc ab(1,4) other [of "vs ! c"] by auto
      next
        case b: (Suc d)
        then show ?thesis using Suc ab IH unfolding apart_def by auto
      qed
    qed
  qed
  then show ?case using IH s1 by auto
qed (simp add: apart_def)

lemma free_lines_map: "map_of (free_lines seen stored) j = Some s \<Longrightarrow>
    j < length stored \<and> stored ! j = s \<and> (\<exists>u. uuid_at (PDict s) = Some u \<and> u \<notin> set seen)"
proof -
  assume "map_of (free_lines seen stored) j = Some s"
  then have "(j, s) \<in> set (free_lines seen stored)" by (rule map_of_SomeD)
  then show ?thesis by (auto simp: free_lines_def uuid_at_def in_set_enumerate_eq split: option.splits)
qed

text \<open>C22: after a write every line has a line id, and no two lines have the same one, whatever the
  write sent, as long as the stored lines had ids of their own.\<close>

theorem every_line_its_own_id:
  assumes "normalize_line_ids fresh n line_set stored_lines = Inr (lines, n')"
    and "apart (map PDict (dict_lines stored_lines))" and "all_new fresh n (n + length line_set) (line_set @ stored_lines)"
  shows "(\<forall>v\<in>set lines. is_line v \<longrightarrow> uuid_at v \<noteq> None) \<and> apart lines"
proof -
  from assms(1) obtain seen where seen: "foldR check_line_id [] line_set = Inr seen"
    by (auto simp: normalize_line_ids_def rbind_eq_Inr)
  define missing where "missing = filter (\<lambda>i. lacks_line_id (line_set ! i)) [0..<length line_set]"
  define free where "free = free_lines seen (dict_lines stored_lines)"
  note chk = seen_ids [OF seen]
  show ?thesis
  proof (cases "missing = []")
    case True
    then have "lines = line_set" using assms(1) seen by (simp add: normalize_line_ids_def missing_def Let_def)
    moreover have "\<not> lacks_line_id v" if "v \<in> set line_set" for v
      using True that unfolding missing_def filter_empty_conv in_set_conv_nth by auto
    ultimately show ?thesis using chk by blast
  next
    case False
    then obtain inc cs st' where fold: "foldR (give_line_id fresh (count_list inc)) (line_set, free, cs, n) missing = Inr st'" and l: "lines = fst st'"
      using assms(1) seen by (auto simp: normalize_line_ids_def missing_def free_def Let_def rbind_eq_Inr rmap_eq_Inr)
    let ?N = "n + length line_set"
    have fr: "\<forall>m\<in>{n..<?N}. fresh_uuid fresh m \<noteq> None" "inj_on (fresh_uuid fresh) {n..<?N}" using assms(3) by (simp_all add: all_new_def)
    have "naming_ok fresh ?N (line_set, free, cs, n)"
      unfolding naming_ok_def prod.case
    proof (intro conjI allI impI ballI)
      show "apart line_set" using chk by simp
    next
      fix j s assume j: "map_of free j = Some s"
      note f = free_lines_map [OF j [unfolded free_def]]
      have s: "PDict s \<in> set stored_lines" using f nth_mem [of j "dict_lines stored_lines"] by simp
      show "uuid_at (PDict s) \<noteq> None" using f by auto
      show "uuid_at v \<noteq> uuid_at (PDict s)" if "v \<in> set line_set" for v using f chk that by auto
      show "uuid_at (PDict s) \<noteq> fresh_uuid fresh m" if "m \<in> {n..<?N}" for m
        using assms(3) s that by (auto simp: all_new_def)
      show "uuid_at (PDict t) \<noteq> uuid_at (PDict s)" if t: "map_of free k = Some t" "k \<noteq> j" for k t
        using free_lines_map [OF t(1) [unfolded free_def]] f t(2) assms(2) by (auto simp: apart_def)
    next
      fix v m assume "v \<in> set line_set" "m \<in> {n..<?N}"
      then show "uuid_at v \<noteq> fresh_uuid fresh m" using assms(3) by (auto simp: all_new_def)
    qed
    moreover have "length missing \<le> length line_set" unfolding missing_def by (rule order_trans [OF length_filter_le]) simp
    ultimately have "apart (fst st') \<and> length (fst st') = length line_set
      \<and> (\<forall>k<length line_set. (is_line (fst st' ! k) \<longleftrightarrow> is_line (line_set ! k))
          \<and> (k \<in> set missing \<or> uuid_at (line_set ! k) \<noteq> None \<longrightarrow> uuid_at (fst st' ! k) \<noteq> None))"
      using give_line_ids_ok [OF fold, of ?N] fr by (simp add: missing_def)
    then have r: "apart lines" "length lines = length line_set"
      "\<forall>k<length line_set. (is_line (lines ! k) \<longleftrightarrow> is_line (line_set ! k)) \<and> (k \<in> set missing \<or> uuid_at (line_set ! k) \<noteq> None \<longrightarrow> uuid_at (lines ! k) \<noteq> None)"
      using l by simp_all
    have "uuid_at (lines ! k) \<noteq> None" if "k < length lines" "is_line (lines ! k)" for k
    proof -
      have "uuid_at (line_set ! k) \<noteq> None \<or> lacks_line_id (line_set ! k)" using chk r that by auto
      then have "k \<in> set missing \<or> uuid_at (line_set ! k) \<noteq> None" using r(2) that by (auto simp: missing_def)
      then show ?thesis using r that by auto
    qed
    then show ?thesis using r(1) by (auto simp: in_set_conv_nth)
  qed
qed

section \<open>A save without ids gets them back\<close>

lemma line_key_stripped [simp]: "line_key (ddel ''line_id'' d) = line_key d"
  by (auto simp: line_key_def line_item_id_def Let_def)

definition restored :: "dict \<Rightarrow> dict" where
  "restored d = dput ''line_id'' (dget d ''line_id'') (ddel ''line_id'' d)"

lemma update_absent: "k \<notin> fst ` set d \<Longrightarrow> AList.update k v d = d @ [(k, v)]"
  by (induction d) auto

lemma delete_absent: "k \<notin> fst ` set d \<Longrightarrow> AList.delete k d = d"
  by (force simp: AList.delete_eq filter_id_conv)

lemma delete_middle: "k \<notin> fst ` set xs \<Longrightarrow> k \<notin> fst ` set ys \<Longrightarrow> AList.delete k (xs @ (k, v) # ys) = xs @ ys"
  using delete_absent [of k xs] delete_absent [of k ys] by (simp add: AList.delete_eq)

lemma mset_restored: "distinct (map fst d) \<Longrightarrow> map_of d k = Some v \<Longrightarrow> mset (dput k v (ddel k d)) = mset d"
proof -
  assume d: "distinct (map fst d)" and v: "map_of d k = Some v"
  obtain xs ys where xs: "d = xs @ (k, v) # ys" using map_of_SomeD [OF v] by (meson split_list)
  have "k \<notin> fst ` set xs" "k \<notin> fst ` set ys" using d xs by auto
  then have del: "ddel k d = xs @ ys" unfolding xs by (rule delete_middle)
  have "k \<notin> fst ` set (xs @ ys)" using \<open>k \<notin> fst ` set xs\<close> \<open>k \<notin> fst ` set ys\<close> by auto
  then have "dput k v (ddel k d) = (xs @ ys) @ [(k, v)]" unfolding del by (rule update_absent)
  then show ?thesis using xs by simp
qed

lemma py_eq_restored:
  assumes "distinct (map fst d)" "map_of d ''line_id'' = Some v"
  shows "py_eq (PDict (restored d)) (PDict d)"
proof -
  let ?c = "map (\<lambda>p. (fst p, canon (snd p)))"
  have m: "mset (restored d) = mset d"
    using mset_restored [OF assms] assms(2) by (simp add: restored_def dget_Some)
  have k: "map fst (?c (restored d)) = map fst (restored d)" "map fst (?c d) = map fst d" by simp_all
  have "distinct (map fst (restored d))"
    unfolding restored_def by (intro distinct_keys_update distinct_keys_delete assms(1))
  then have inj: "inj_on fst (set (?c (restored d)))" using k(1) by (metis distinct_map)
  have "mset (?c (restored d)) = mset (?c d)" using m by simp
  then have "sort_key fst (?c (restored d)) = sort_key fst (?c d)"
    using inj by (intro sort_key_inj_key_eq) simp_all
  then show ?thesis by (simp add: py_eq_def)
qed

text \<open>Where the naming stands after the first k of the stored lines.\<close>

definition lines_named :: "dict list \<Rightarrow> nat \<Rightarrow> pyval list" where
  "lines_named ds k = map (\<lambda>i. PDict (if i < k then restored (ds ! i) else ddel ''line_id'' (ds ! i))) [0..<length ds]"

definition free_from :: "dict list \<Rightarrow> nat \<Rightarrow> (nat \<times> dict) list" where
  "free_from ds k = filter (\<lambda>(j, _). k \<le> j) (enumerate 0 ds)"

lemma map_of_free_from: "k < length ds \<Longrightarrow> map_of (free_from ds k) k = Some (ds ! k)"
proof -
  assume k: "k < length ds"
  have d: "distinct (map fst (free_from ds k))"
    unfolding free_from_def by (rule distinct_map_filter) (simp add: distinct_enumerate)
  have "(k, ds ! k) \<in> set (free_from ds k)" using k by (auto simp: free_from_def in_set_enumerate_eq)
  then show ?thesis using d by simp
qed

lemma free_from_Suc: "AList.delete k (free_from ds k) = free_from ds (Suc k)"
  by (auto simp: AList.delete_eq free_from_def intro!: filter_cong)

lemma lines_named_Suc: "k < length ds \<Longrightarrow> (lines_named ds k)[k := PDict (restored (ds ! k))] = lines_named ds (Suc k)"
  by (rule nth_equalityI) (auto simp: lines_named_def nth_list_update)

lemma give_back:
  assumes "k < length ds" "line_key (ds ! k) = Inr key" "map_of (ds ! k) ''line_id'' = Some v"
  shows "give_line_id fresh inc (lines_named ds k, free_from ds k, c, n) k
       = Inr (lines_named ds (Suc k), free_from ds (Suc k), c(key := c key - 1), n)"
proof -
  have at: "lines_named ds k ! k = PDict (ddel ''line_id'' (ds ! k))" using assms(1) by (simp add: lines_named_def)
  have "pick_stored inc (free_from ds k) c k (ddel ''line_id'' (ds ! k)) key = Inr (Some k)"
    using assms by (simp add: pick_stored_def map_of_free_from)
  moreover have "dkey (ds ! k) ''line_id'' = Inr (dget (ds ! k) ''line_id'')"
    using assms(3) by (simp add: dkey_def dget_Some)
  ultimately show ?thesis
    using assms by (simp add: give_line_id_def at map_of_free_from free_from_Suc lines_named_Suc [symmetric] restored_def)
qed

lemma give_all_back:
  assumes "\<forall>d\<in>set ds. is_ok (line_key d) \<and> map_of d ''line_id'' \<noteq> None" "k \<le> length ds"
  shows "\<exists>c'. foldR (give_line_id fresh inc) (lines_named ds 0, free_from ds 0, c, n) [0..<k]
            = Inr (lines_named ds k, free_from ds k, c', n)"
  using assms(2)
proof (induction k)
  case (Suc k)
  then obtain c' where IH: "foldR (give_line_id fresh inc) (lines_named ds 0, free_from ds 0, c, n) [0..<k]
            = Inr (lines_named ds k, free_from ds k, c', n)" by auto
  have "ds ! k \<in> set ds" using Suc.prems by simp
  then obtain key v where "line_key (ds ! k) = Inr key" "map_of (ds ! k) ''line_id'' = Some v"
    using assms(1) by (fastforce simp: is_ok_def split: sum.splits)
  then have "give_line_id fresh inc (lines_named ds k, free_from ds k, c', n) k
      = Inr (lines_named ds (Suc k), free_from ds (Suc k), c'(key := c' key - 1), n)"
    using Suc.prems by (intro give_back) simp_all
  then show ?case by (auto simp: foldR_append IH)
qed simp

text \<open>C34: a save that sends the stored lines without their ids gives every line its own id back, and
  takes no new one.\<close>

theorem ids_come_back:
  assumes "\<forall>d\<in>set ds. distinct (map fst d) \<and> is_line_id (dget d ''line_id'') \<and> is_ok (line_key d)"
  shows "\<exists>lines. normalize_line_ids fresh n (strip_line_ids (map PDict ds)) (map PDict ds) = Inr (lines, n)
    \<and> py_eq (PList lines) (PList (map PDict ds))"
proof -
  have id: "map_of d ''line_id'' \<noteq> None" if "d \<in> set ds" for d
  proof
    assume "map_of d ''line_id'' = None"
    then have "dget d ''line_id'' = PNone" by (simp add: dget_None)
    then show False using assms that by (auto simp: is_line_id_def line_uuid_def)
  qed
  let ?ls = "strip_line_ids (map PDict ds)"
  have ls: "?ls = lines_named ds 0"
    by (rule nth_equalityI) (simp_all add: strip_line_ids_def lines_named_def)
  have seen: "foldR check_line_id [] ?ls = Inr []"
    by (rule foldR_skip) (auto simp: strip_line_ids_def check_line_id_def blank_def)
  have missing: "filter (\<lambda>i. lacks_line_id (?ls ! i)) [0..<length ?ls] = [0..<length ds]"
    unfolding ls by (auto simp: lines_named_def lacks_line_id_def intro!: filter_True)
  have stored: "dict_lines (map PDict ds) = ds" by (induction ds) (simp_all add: dict_lines_def)
  have "filter (\<lambda>(_, line). case line_uuid (dget line ''line_id'') of None \<Rightarrow> False | Some u \<Rightarrow> \<not> List.member [] u) (enumerate 0 ds) = enumerate 0 ds"
    using assms by (intro filter_True) (auto simp: is_line_id_def in_set_enumerate_eq split: option.splits)
  then have free: "free_lines [] ds = free_from ds 0" by (simp add: free_lines_def free_from_def filter_True)
  have key: "line_key d = Inr (projr (line_key d))" if "d \<in> set ds" for d
    using assms that by (cases "line_key d") (auto simp: is_ok_def)
  have inc: "mapR (\<lambda>i. rbind (as_dict (?ls ! i)) line_key) [0..<length ds] = Inr (map (\<lambda>i. projr (line_key (ds ! i))) [0..<length ds])"
    unfolding ls using key by (intro mapR_Inr_map) (simp add: lines_named_def)
  have sto: "mapR (line_key \<circ> snd) (free_from ds 0) = Inr (map (\<lambda>p. projr (line_key (snd p))) (free_from ds 0))"
    using key by (intro mapR_Inr_map) (auto simp: free_from_def in_set_enumerate_eq)
  have "\<exists>c. foldR (give_line_id fresh inc) (lines_named ds 0, free_from ds 0, c0, n) [0..<length ds]
      = Inr (lines_named ds (length ds), free_from ds (length ds), c, n)" for inc c0
    by (rule give_all_back) (use assms id in auto)
  note loop = this
  have "normalize_line_ids fresh n ?ls (map PDict ds) = Inr (lines_named ds (length ds), n)"
  proof (cases "ds = []")
    case True
    then show ?thesis by (simp add: normalize_line_ids_def strip_line_ids_def lines_named_def)
  next
    case False
    obtain c where "foldR (give_line_id fresh (count_list (map (\<lambda>i. projr (line_key (ds ! i))) [0..<length ds])))
        (lines_named ds 0, free_from ds 0, int \<circ> count_list (map (\<lambda>p. projr (line_key (snd p))) (free_from ds 0)), n) [0..<length ds]
      = Inr (lines_named ds (length ds), free_from ds (length ds), c, n)" using loop by blast
    then show ?thesis
      unfolding normalize_line_ids_def seen rbind_Inr missing stored free inc sto Let_def unfolding ls
      using False by simp
  qed
  moreover have "py_eq (PList (lines_named ds (length ds))) (PList (map PDict ds))"
  proof -
    have "canon (PDict (restored d)) = canon (PDict d)" if "d \<in> set ds" for d
      using py_eq_restored assms that id [OF that] unfolding py_eq_def by blast
    then have "map canon (lines_named ds (length ds)) = map canon (map PDict ds)"
      by (intro nth_equalityI) (simp_all add: lines_named_def)
    then show ?thesis unfolding py_eq_def canon.simps by simp
  qed
  ultimately show ?thesis by blast
qed

section \<open>Drawn lines\<close>

text \<open>What a drawn line keeps whatever a write sends for it.\<close>

definition keeps_draw :: "dict \<Rightarrow> dict \<Rightarrow> bool" where
  "keeps_draw old new =
     (py_eq (dget new ''drawn_from'') (dget old ''drawn_from'') \<and> (\<forall>k\<in>set DRAWN_LINE_OWNED. map_of new k = map_of old k)
      \<and> (\<exists>q. measure_of old ''quantity'' = Inr q \<and> measure_of new ''quantity'' = Inr q))"

lemma map_of_keep_owned: "map_of (keep_owned old line) k = (if k \<in> set DRAWN_LINE_OWNED then map_of old k else map_of line k)"
proof -
  have "map_of (fold (\<lambda>k line. case map_of old k of Some v \<Rightarrow> dput k v line | None \<Rightarrow> ddel k line) ks line) k
      = (if k \<in> set ks then map_of old k else map_of line k)" for ks
    by (induction ks arbitrary: line) (auto split: option.split)
  then show ?thesis by (simp add: keep_owned_def)
qed

lemma dget_keep_owned: "k \<notin> set DRAWN_LINE_OWNED \<Longrightarrow> dget (keep_owned old line) k = dget line k"
  by (simp add: dget_def dget_or_def map_of_keep_owned)

lemma kept_drawn_line_keeps:
  assumes "kept_drawn_line returning old line = Inr new"
  shows "dget new ''line_id'' = dget line ''line_id'' \<and> keeps_draw old new"
proof -
  define line1 where "line1 = dsetdefault ''drawn_from'' (dget old ''drawn_from'') line"
  define line2 where "line2 = dsetdefault ''quantity'' (dget old ''quantity'') line1"
  from assms obtain changed where df: "py_eq (dget line1 ''drawn_from'') (dget old ''drawn_from'')"
    and ch: "(if (dhas line2 ''item_id'' \<or> dhas line2 ''entity_id'') \<and> \<not> py_eq (line_item_id line2) (line_item_id old) then Inr True
               else rbind (measure_of line2 ''quantity'') (\<lambda>a. rbind (measure_of old ''quantity'') (\<lambda>b. Inr (a \<noteq> b)))) = Inr changed"
    and new: "(if changed then Inl (drawn_refusal ''docs.drawn_line_locked'' old) else Inr (keep_owned old line2)) = Inr new"
    unfolding kept_drawn_line_def Let_def line1_def [symmetric] line2_def [symmetric]
    by (auto simp: rbind_eq_Inr split: if_split_asm)
  have nc: "\<not> changed" and nw: "new = keep_owned old line2" using new by (auto split: if_splits)
  obtain q where q: "measure_of line2 ''quantity'' = Inr q" "measure_of old ''quantity'' = Inr q"
    using ch nc by (auto simp: rbind_eq_Inr split: if_splits)
  have other: "dget new k = dget line2 k" if "k \<in> {''line_id'', ''drawn_from'', ''quantity''}" for k
    using that unfolding nw by (intro dget_keep_owned) (auto simp: DRAWN_LINE_OWNED_def)
  have "dget line2 ''drawn_from'' = dget line1 ''drawn_from''" by (simp add: line2_def)
  then have "py_eq (dget new ''drawn_from'') (dget old ''drawn_from'')" using other df by simp
  moreover have "dget new ''quantity'' = dget line2 ''quantity''" by (rule other) simp
  then have "measure_of new ''quantity'' = Inr q" using q(1) unfolding measure_of_def by (simp only:)
  moreover have "dget new ''line_id'' = dget line ''line_id''" using other by (simp add: line2_def line1_def)
  ultimately show ?thesis using q(2) by (simp add: keeps_draw_def nw map_of_keep_owned)
qed

lemma assert_drawn_Some:
  assumes "assert_drawn_lines_authorized ledger company entity stored incoming (Some vs) g = Inr (Some lines)"
    and "stored_drawn_lines stored = Inr drawn"
  obtains ids stored_ids where "check_drawn_header drawn stored incoming = Inr ()" "line_ids (dict_lines vs) = Inr ids"
    "find (\<lambda>(lid, _). \<not> List.member ids lid \<and> \<not> List.member (removed_lines g) lid) drawn = None"
    "mapR (judge_drawn ledger company entity g stored_ids drawn) vs = Inr lines"
  using assms by (auto simp: assert_drawn_lines_authorized_def Let_def rbind_eq_Inr rmap_eq_Inr split: if_splits option.splits)

lemma judged_line:
  assumes "mapR (judge_drawn ledger company entity g stored_ids drawn) vs = Inr lines" "PDict line' \<in> set lines"
  obtains line lid where "PDict line \<in> set vs" "hkey (dget line ''line_id'') = Inr lid"
    "(case map_of drawn lid of None \<Rightarrow> other_line ledger company entity g stored_ids lid line
      | Some old \<Rightarrow> kept_drawn_line (is_return g) old line) = Inr line'"
proof -
  obtain i where i: "i < length lines" "lines ! i = PDict line'" using assms(2) by (auto simp: in_set_conv_nth)
  have len: "length lines = length vs" by (rule mapR_length [OF assms(1)])
  have "judge_drawn ledger company entity g stored_ids drawn (vs ! i) = Inr (PDict line')"
    using mapR_nth [OF assms(1)] i len by simp
  moreover from this obtain line where "vs ! i = PDict line" by (cases "vs ! i") (auto simp: judge_drawn_def)
  ultimately show thesis using that [of line] i len by (auto simp: judge_drawn_def rbind_eq_Inr rmap_eq_Inr in_set_conv_nth)
qed

text \<open>C17: a write without the draw's grant leaves the lines drawn from memos as they are: each one is
  still there with its memo, its lot, its measures and its quantity, and no other line names a
  memo.\<close>

theorem drawn_lines_kept:
  assumes "assert_drawn_lines_authorized ledger company entity stored incoming (Some vs) None = Inr (Some lines)"
    and "stored_drawn_lines stored = Inr drawn"
  shows "(\<forall>lid old. map_of drawn lid = Some old \<longrightarrow>
           (\<exists>line. PDict line \<in> set lines \<and> hkey (dget line ''line_id'') = Inr lid \<and> keeps_draw old line))
    \<and> (\<forall>line. PDict line \<in> set lines \<longrightarrow> (\<exists>lid. hkey (dget line ''line_id'') = Inr lid
         \<and> (case map_of drawn lid of Some old \<Rightarrow> keeps_draw old line | None \<Rightarrow> \<not> truthy (dget line ''drawn_from''))))"
proof -
  obtain ids stored_ids where ids: "line_ids (dict_lines vs) = Inr ids"
    and here: "find (\<lambda>(lid, _). \<not> List.member ids lid \<and> \<not> List.member (removed_lines None) lid) drawn = None"
    and judged: "mapR (judge_drawn ledger company entity None stored_ids drawn) vs = Inr lines"
    by (rule assert_drawn_Some [OF assms])
  have every: "\<exists>lid. hkey (dget line ''line_id'') = Inr lid
      \<and> (case map_of drawn lid of Some old \<Rightarrow> keeps_draw old line | None \<Rightarrow> \<not> truthy (dget line ''drawn_from''))"
    if line: "PDict line \<in> set lines" for line
  proof -
    obtain line0 lid where "PDict line0 \<in> set vs" and l0: "hkey (dget line0 ''line_id'') = Inr lid"
      "(case map_of drawn lid of None \<Rightarrow> other_line ledger company entity None stored_ids lid line0
      | Some old \<Rightarrow> kept_drawn_line (is_return None) old line0) = Inr line"
      by (rule judged_line [OF judged line])
    show ?thesis
    proof (cases "map_of drawn lid")
      case None
      then show ?thesis using l0
        by (auto simp: other_line_def rbind_eq_Inr is_return_def split: if_splits)
    next
      case (Some old)
      then show ?thesis using l0 kept_drawn_line_keeps [of _ old line0 line] by auto
    qed
  qed
  moreover have "\<exists>line. PDict line \<in> set lines \<and> hkey (dget line ''line_id'') = Inr lid \<and> keeps_draw old line"
    if old: "map_of drawn lid = Some old" for lid old
  proof -
    have "lid \<in> set ids" using here map_of_SomeD [OF old] by (auto simp: find_None_iff removed_lines_def)
    then obtain k where k: "k < length ids" "ids ! k = lid" by (auto simp: in_set_conv_nth)
    have "length ids = length (dict_lines vs)" by (rule mapR_length [OF ids [unfolded line_ids_def]])
    then obtain line0 where l0: "PDict line0 \<in> set vs" "hkey (dget line0 ''line_id'') = Inr lid"
      using mapR_nth [OF ids [unfolded line_ids_def], of k] k nth_mem [of k "dict_lines vs"] by auto
    then obtain i where i: "i < length vs" "vs ! i = PDict line0" by (auto simp: in_set_conv_nth)
    have "judge_drawn ledger company entity None stored_ids drawn (vs ! i) = Inr (lines ! i)"
      by (rule mapR_nth [OF judged i(1)])
    then obtain line where line: "lines ! i = PDict line" "kept_drawn_line (is_return None) old line0 = Inr line"
      using i(2) l0(2) old by (auto simp: judge_drawn_def rmap_eq_Inr)
    have "i < length lines" using i(1) mapR_length [OF judged] by simp
    then have "PDict line \<in> set lines" using line(1) by (metis nth_mem)
    then show ?thesis using kept_drawn_line_keeps [OF line(2)] l0(2) by auto
  qed
  ultimately show ?thesis by blast
qed

section \<open>References\<close>

lemma carry_lines_iff:
  "(\<exists>c. foldR (carry_line items known) carried ids = Inr c) \<longleftrightarrow>
     (\<forall>k\<in>set ids. items k = None \<longrightarrow> count_list carried k + count_list ids k \<le> count_list known k)"
proof (induction ids arbitrary: carried)
  case (Cons x ids)
  show ?case
  proof (cases "items x = None")
    case False
    then show ?thesis using Cons.IH [of carried] by (auto simp: carry_line_def)
  next
    case True
    have count: "x \<notin> set ids \<Longrightarrow> count_list ids x = 0" by (simp add: count_list_0_iff)
    show ?thesis
    proof (cases "count_list known x < count_list (x # carried) x")
      case True
      with \<open>items x = None\<close> show ?thesis by (auto simp: carry_line_def)
    next
      case False
      then show ?thesis using True Cons.IH [of "x # carried"] count by (auto simp: carry_line_def not_less)
    qed
  qed
qed simp

text \<open>C30: a line set is accepted as linking to items exactly when no line names two different items
  and every item that does not exist is named by at most as many lines as the stored record
  already had for it.\<close>

theorem linked_items_iff:
  "linked_items items known lines = Inr () \<longleftrightarrow>
     (\<forall>line\<in>set (dict_lines lines). \<not> names_two_items line)
     \<and> (\<exists>ids. line_id_counts lines = Inr ids
          \<and> (\<forall>k. items k = None \<longrightarrow> count_list ids k \<le> count_list known k))"
proof -
  have "(\<forall>k. items k = None \<longrightarrow> count_list ids k \<le> count_list known k)
      \<longleftrightarrow> (\<exists>c. foldR (carry_line items known) [] ids = Inr c)" for ids
    unfolding carry_lines_iff by (auto simp: count_list_0_iff) (metis count_list_0_iff le0)
  then show ?thesis by (auto simp: linked_items_def rbind_eq_Inr rmap_eq_Inr list_ex_iff)
qed

section \<open>Protected lines\<close>

definition marks_within :: "nat \<Rightarrow> marks \<Rightarrow> bool" where
  "marks_within n out = (\<forall>m\<in>set out. fst m < n)"

lemma in_update: "p \<in> set (AList.update k v d) \<Longrightarrow> p \<in> set d \<or> p = (k, v)"
  by (induction d) (auto split: if_splits)

lemma mark_within:
  assumes "marks_within n out"
  shows "marks_within n (mark n i w lots out)"
proof (cases "0 \<le> i \<and> i < int n")
  case True
  obtain before own where bo: "(case map_of out (nat i) of Some m \<Rightarrow> m | None \<Rightarrow> (w, [])) = (before, own)"
    by (cases "case map_of out (nat i) of Some m \<Rightarrow> m | None \<Rightarrow> (w, [])")
  then have "mark n i w lots out = AList.update (nat i) (if before \<noteq> Held then before else w, own @ lots) out"
    using True by (simp add: mark_def)
  moreover have "nat i < n" using True by (simp add: nat_less_iff)
  ultimately show ?thesis using assms by (auto simp: marks_within_def dest!: in_update)
qed (use assms in \<open>auto simp: mark_def\<close>)

lemma foldl_keeps: "P a \<Longrightarrow> (\<And>a x. P a \<Longrightarrow> P (f a x)) \<Longrightarrow> P (foldl f a xs)"
  by (induction xs arbitrary: a) auto

lemma mark_lots_within: "marks_within n out \<Longrightarrow> marks_within n (mark_lots n ps out)"
  unfolding mark_lots_def by (rule foldl_keeps) (simp_all add: mark_within)

lemma mark_holds_within: "marks_within n (mark_holds n h)"
  unfolding mark_holds_def by (intro mark_lots_within) (simp add: marks_within_def)

lemma mark_shipped_within:
  assumes "marks_within (length lines) out"
  shows "marks_within (length lines) (mark_shipped ledger company owner stored lines out r)"
proof -
  have "marks_within (length lines) (foldl (\<lambda>out i. mark (length lines) (int i) Shipped [eid] out) out is)" for eid "is"
    using assms by (rule foldl_keeps) (rule mark_within)
  then show ?thesis using assms by (simp add: mark_shipped_def Let_def mark_within split: prod.splits option.splits)
qed

lemma protected_within:
  assumes "protected_lines ledger db company owner stored lines = Inr marks"
  shows "marks_within (length lines) marks"
proof -
  let ?n = "length lines"
  from assms obtain h index_of entries where fold: "foldR (mark_receipt ?n index_of)
      (foldl (mark_shipped ledger company owner stored lines) (mark_holds ?n h) (lots_of_record db company owner)) entries = Inr marks"
    unfolding protected_lines_def Let_def by (elim rbindE) blast
  have "marks_within ?n (foldl (mark_shipped ledger company owner stored lines) (mark_holds ?n h) (lots_of_record db company owner))"
    using mark_holds_within by (rule foldl_keeps) (rule mark_shipped_within)
  with fold show ?thesis
    by (rule foldR_invariant) (auto simp: mark_receipt_def rmap_eq_Inr mark_within split: option.splits)
qed

text \<open>How a write keeps a protected line: at which position of the write it is, and whose goods it
  names there.\<close>

definition keeps_protected :: "(pyval \<Rightarrow> dict option) \<Rightarrow> why \<Rightarrow> string list \<Rightarrow> nat \<Rightarrow> dict \<Rightarrow> nat \<Rightarrow> dict \<Rightarrow> bool" where
  "keeps_protected items w lots index old n new =
     ((w \<noteq> Held \<longrightarrow> n = index) \<and> (w = Received \<longrightarrow> bill_line_kind new = bill_line_kind old)
      \<and> (truthy (dget old ''line_id'') \<longrightarrow> py_eq (dget new ''line_id'') (dget old ''line_id''))
      \<and> (py_eq (line_item_id new) (line_item_id old) \<or> (\<exists>l\<in>set lots. line_item_id new = PStr l)
         \<or> (\<exists>k part. hkey (line_item_id new) = Inr k \<and> items k = Some part \<and> py_eq (dget part ''split_from'') (line_item_id old))))"

lemma counterpart_Some:
  assumes "counterpart old index line_set ids = Inr (Some n)"
  shows "n < length line_set \<and> (\<exists>new. line_set ! n = PDict new
    \<and> (truthy (dget old ''line_id'') \<longrightarrow> py_eq (dget new ''line_id'') (dget old ''line_id'')))"
proof (cases "truthy (dget old ''line_id'')")
  case True
  define named where "named = filter (\<lambda>i. case line_set ! i of PDict l \<Rightarrow> py_eq (dget l ''line_id'') (dget old ''line_id'') | _ \<Rightarrow> False) [0..<length line_set]"
  have "(case named of i # _ \<Rightarrow> Inr (Some i) | [] \<Rightarrow> Inr None) = (Inr (Some n) :: nat option res)"
    using assms True by (simp add: counterpart_def Let_def named_def split: list.splits)
  then have "n \<in> set named" by (auto split: list.splits)
  then show ?thesis by (auto simp: named_def split: pyval.splits)
next
  case False
  then show ?thesis using assms by (auto simp: counterpart_def rmap_eq_Inr split: if_splits pyval.splits)
qed

lemma check_protected_keeps:
  assumes "check_protected items stored_lines line_set ids (index, w, lots) = Inr True"
  shows "\<exists>n new. n < length line_set \<and> line_set ! n = PDict new \<and> keeps_protected items w lots index (stored_lines ! index) n new"
proof -
  let ?old = "stored_lines ! index"
  from assms obtain n where n: "counterpart ?old index line_set ids = Inr (Some n)"
    and k: "rbind (as_dict (line_set ! n)) (kept_protected items w lots index ?old n) = Inr True"
    by (auto simp: check_protected_def Let_def rbind_eq_Inr split: option.splits)
  from counterpart_Some [OF n] obtain new where new: "n < length line_set" "line_set ! n = PDict new"
    "truthy (dget ?old ''line_id'') \<longrightarrow> py_eq (dget new ''line_id'') (dget ?old ''line_id'')" by blast
  from k new(2) have kp: "kept_protected items w lots index ?old n new = Inr True" by simp
  have "keeps_protected items w lots index ?old n new"
    using kp new(3) unfolding kept_protected_def keeps_protected_def Let_def
    by (auto simp: rbind_eq_Inr rmap_eq_Inr list_ex_iff str_is_def split: if_splits option.splits)
  then show ?thesis using new by blast
qed

lemma judged_protected:
  "foldR (judge_protected items stored_lines line_set ids) b ms = Inr False \<Longrightarrow>
     \<not> b \<and> (\<forall>m\<in>set ms. check_protected items stored_lines line_set ids m = Inr True)"
proof (induction ms arbitrary: b)
  case (Cons m ms)
  from Cons.prems obtain b1 where b1: "judge_protected items stored_lines line_set ids b m = Inr b1"
    and rest: "foldR (judge_protected items stored_lines line_set ids) b1 ms = Inr False"
    by (auto simp: rbind_eq_Inr)
  show ?case using Cons.IH [OF rest] b1 by (auto simp: judge_protected_def rbind_eq_Inr split: if_splits)
qed simp

text \<open>C12: a write that is accepted keeps every protected line: a line that shipped or received goods
  stays at its position, a received one keeps its kind, and each still names its item, a lot it
  holds or shipped, or a part split off its item.\<close>

theorem protected_lines_stay:
  assumes "assert_protected_lines_kept ledger db company owner stored line_set = Inr ()"
    and "rows_or stored ''line_items'' = Inr vs"
    and "protected_lines ledger db company owner stored (dict_lines vs) = Inr marks"
    and "(index, w, lots) \<in> set marks"
  shows "\<exists>n new. n < length line_set \<and> line_set ! n = PDict new
    \<and> keeps_protected (item_state db company) w lots index (dict_lines vs ! index) n new"
proof -
  let ?old = "dict_lines vs ! index"
  have index: "index < length (dict_lines vs)"
    using protected_within [OF assms(3)] assms(4) by (auto simp: marks_within_def)
  show ?thesis
  proof (cases "untouched (dict_lines vs) line_set")
    case True
    have lt: "index < length line_set" using True index by (simp add: untouched_def)
    then have "(?old, line_set ! index) \<in> set (zip (dict_lines vs) line_set)" using index by (auto simp: set_zip)
    then obtain new where "line_set ! index = PDict new" "py_eq (dget ?old ''line_id'') (dget new ''line_id'')"
      "py_eq (line_item_id ?old) (line_item_id new)" "bill_line_kind ?old = bill_line_kind new"
      using True unfolding untouched_def list_all_iff by (fastforce split: pyval.splits)
    then show ?thesis using lt by (intro exI [of _ index] exI [of _ new]) (auto simp: keeps_protected_def py_eq_sym)
  next
    case False
    have "dict_lines vs \<noteq> []" "marks \<noteq> []" using index assms(4) by auto
    then obtain ids where "foldR (judge_protected (item_state db company) (dict_lines vs) line_set ids) False (sort_key fst marks) = Inr False"
      using assms(1) False assms(2,3) by (auto simp: assert_protected_lines_kept_def Let_def rbind_eq_Inr split: if_splits)
    from judged_protected [OF this] have "check_protected (item_state db company) (dict_lines vs) line_set ids (index, w, lots) = Inr True"
      using assms(4) by simp
    then show ?thesis by (rule check_protected_keeps)
  qed
qed

section \<open>A write as a whole\<close>

definition stored_of :: "table \<Rightarrow> line_write \<Rightarrow> dict" where
  "stored_of db w = (case state_of_kind db (lw_company w) (lw_kind w) (PStr (lw_entity w)) of Some d \<Rightarrow> d | None \<Rightarrow> [])"

lemma write_lines_judged:
  assumes "write_lines fresh n ledger db w = Inr (Some lines, n')"
  shows "judge_line_set ledger db w (stored_of db w) lines = Inr ()"
  using assms unfolding write_lines_def Let_def stored_of_def [symmetric]
  by (auto simp: rbind_eq_Inr rmap_eq_Inr split: if_splits option.splits)

lemma judge_line_setE:
  assumes "judge_line_set ledger db w stored lines = Inr ()"
  obtains before known ids doc_type memo where "rows_or stored ''line_items'' = Inr before" "line_id_counts before = Inr known"
    "line_id_counts lines = Inr ids" "doc_type = py_or (dget (lw_data w) ''doc_type'') (dget stored ''doc_type'')"
    "linked_items (item_state db (lw_company w)) known lines = Inr ()"
    "assert_new_references_eligible (item_state db (lw_company w)) ids known doc_type (lw_entity w) memo = Inr ()"
    "assert_document_item_uniqueness (item_state db (lw_company w)) doc_type lines = Inr ()"
  using assms unfolding judge_line_set_def Let_def by (elim rbindE) (rule that; (assumption | rule refl | simp))

lemma sorted_ids_set: "sorted_ids ids = Inr ys \<Longrightarrow> set ys = set ids"
proof (cases "list_all is_text ids")
  case True
  then have "PStr (py_str k) = k" if "k \<in> set ids" for k
    using that by (cases k) (auto simp: list_all_iff py_str_def)
  moreover assume "sorted_ids ids = Inr ys"
  ultimately show ?thesis using True by (auto simp: sorted_ids_def image_iff)
qed (auto simp: sorted_ids_def split: if_splits)

lemma eligibleD:
  assumes "assert_new_references_eligible items ids known doc_type entity memo = Inr ()"
    and "count_list known k < count_list ids k" "items k = Some st"
  shows "\<exists>claims. not_eligible st claims entity memo = None \<and> in_set doc_type DOCUMENT_ITEM_UNIQUE_DOC_TYPES = Inr claims"
proof -
  have "k \<in> set ids" using assms(2) by (metis count_list_0_iff not_less_zero)
  then have more: "k \<in> set (more_than ids known)" using assms(2) by (simp add: more_than_def)
  define errors where "errors = (\<lambda>claims new. List.map_filter (\<lambda>k. case items k of Some st \<Rightarrow> not_eligible st claims entity memo | None \<Rightarrow> None)
      (filter (\<lambda>k. items k \<noteq> None) new))"
  from assms(1) obtain new where new: "sorted_ids (more_than ids known) = Inr new"
    and rest: "rbind (if filter (\<lambda>k. items k \<noteq> None) new = [] then Inr False else in_set doc_type DOCUMENT_ITEM_UNIQUE_DOC_TYPES)
       (\<lambda>claims. if errors claims new \<noteq> [] then Inl (HTTPError 422 (join ''; '' (errors claims new))) else Inr ()) = Inr ()"
  proof (cases "sorted_ids (more_than ids known)")
    case (Inl e)
    then show thesis using assms(1) by (simp add: assert_new_references_eligible_def)
  next
    case (Inr new)
    show thesis
      by (rule that [OF Inr]) (use assms(1) in \<open>simp only: assert_new_references_eligible_def Let_def errors_def Inr rbind_Inr\<close>)
  qed
  have here: "k \<in> set (filter (\<lambda>k. items k \<noteq> None) new)" using more sorted_ids_set [OF new] assms(3) by simp
  then have "filter (\<lambda>k. items k \<noteq> None) new \<noteq> []" by (metis empty_iff empty_set)
  with rest obtain claims where claims: "in_set doc_type DOCUMENT_ITEM_UNIQUE_DOC_TYPES = Inr claims" "errors claims new = []"
    by (auto simp only: if_False rbind_eq_Inr split: if_splits)
  then have "(case items k of Some st \<Rightarrow> not_eligible st claims entity memo | None \<Rightarrow> None) = None"
    using here by (auto simp: errors_def map_filter_def filter_empty_conv)
  then show ?thesis using assms(3) claims(1) by auto
qed

text \<open>An accepted write of lines newly links only to items of the company that exist and that are
  neither deleted nor drafts, and on an invoice or memo neither reserved by another record nor
  out on another memo.\<close>

theorem accepted_lines_take_what_they_may:
  assumes "write_lines fresh n ledger db w = Inr (Some lines, n')"
    and "rows_or (stored_of db w) ''line_items'' = Inr before" "line_id_counts before = Inr known"
    and "line_id_counts lines = Inr ids" and "count_list known k < count_list ids k"
  shows "\<exists>st memo. item_state db (lw_company w) k = Some st \<and> \<not> str_is (dget st ''status'') ''deleted'' \<and> status_lower st \<noteq> ''draft''
    \<and> (py_or (dget (lw_data w) ''doc_type'') (dget (stored_of db w) ''doc_type'') \<in> {PStr ''invoice'', PStr ''memo''} \<longrightarrow>
         (str_is (dget st ''status'') ''reserved'' \<longrightarrow> str_is (dget st ''status_doc_id'') (lw_entity w))
         \<and> \<not> out_on_another_memo st (PStr (lw_entity w)) memo)"
proof -
  obtain before' known' ids' doc_type memo where j: "rows_or (stored_of db w) ''line_items'' = Inr before'"
    "line_id_counts before' = Inr known'" "line_id_counts lines = Inr ids'"
    "doc_type = py_or (dget (lw_data w) ''doc_type'') (dget (stored_of db w) ''doc_type'')"
    "linked_items (item_state db (lw_company w)) known' lines = Inr ()"
    "assert_new_references_eligible (item_state db (lw_company w)) ids' known' doc_type (lw_entity w) memo = Inr ()"
    by (rule judge_line_setE [OF write_lines_judged [OF assms(1)]])
  have same: "known' = known" "ids' = ids" using j(1-3) assms(2-4) by simp_all
  have "item_state db (lw_company w) k \<noteq> None"
    using j(5) assms(4,5) same by (auto simp: linked_items_iff not_le)
  then obtain st where st: "item_state db (lw_company w) k = Some st" by blast
  obtain claims where c: "not_eligible st claims (lw_entity w) memo = None" "in_set doc_type DOCUMENT_ITEM_UNIQUE_DOC_TYPES = Inr claims"
    using eligibleD [OF j(6) [unfolded same] assms(5) st] by blast
  have "claims" if "doc_type \<in> {PStr ''invoice'', PStr ''memo''}"
    using that c(2) by (auto simp: DOCUMENT_ITEM_UNIQUE_DOC_TYPES_def)
  then show ?thesis using st c(1) j(4)
    by (intro exI [of _ st] exI [of _ memo]) (auto simp: not_eligible_def DELETED_def split: if_splits)
qed

text \<open>An accepted invoice or memo never names a lot that may not be split on two lines.\<close>

theorem unsplittable_lot_once:
  assumes "write_lines fresh n ledger db w = Inr (Some lines, n')"
    and "py_or (dget (lw_data w) ''doc_type'') (dget (stored_of db w) ''doc_type'') \<in> {PStr ''invoice'', PStr ''memo''}"
    and "line_id_counts lines = Inr ids" and "item_state db (lw_company w) k = Some st" "dget st ''allow_splitting'' = PBool False"
  shows "count_list ids k \<le> 1"
proof (rule ccontr)
  assume "\<not> count_list ids k \<le> 1"
  then have many: "1 < count_list ids k" "k \<in> set ids" by (simp_all add: not_le) (metis count_list_0_iff not_less_zero)
  obtain doc_type where d: "doc_type = py_or (dget (lw_data w) ''doc_type'') (dget (stored_of db w) ''doc_type'')"
    and u: "assert_document_item_uniqueness (item_state db (lw_company w)) doc_type lines = Inr ()"
    by (rule judge_line_setE [OF write_lines_judged [OF assms(1)]])
  have "in_set doc_type DOCUMENT_ITEM_UNIQUE_DOC_TYPES = Inr True"
    using assms(2) d by (auto simp: DOCUMENT_ITEM_UNIQUE_DOC_TYPES_def)
  moreover have "lines \<noteq> []" using assms(3) many(2) by (auto simp: line_id_counts_def)
  ultimately show False
    using u assms(3,4,5) many by (auto simp: assert_document_item_uniqueness_def splitting_allowed_def list_ex_iff split: if_splits)
qed

section \<open>Witnesses\<close>

definition id1 :: string where "id1 = ''00000000000000000000000000000001''"
definition id2 :: string where "id2 = ''00000000000000000000000000000002''"

definition demo_line :: dict where
  "demo_line = [(''line_id'', PStr id1), (''item_id'', PStr ''lot''), (''quantity'', PInt 2)]"

definition demo_drawn :: dict where
  "demo_drawn = demo_line @ [(''drawn_from'', PDict [(''memo_id'', PStr ''memo'')])]"

definition demo_item :: "dict \<Rightarrow> projection" where
  "demo_item d = \<lparr>p_kind = ''item'', p_state = [(''sku'', PStr ''S''), (''allow_splitting'', PBool False)] @ d, p_version = 1,
     p_location = Raw PNone, p_expires = Raw PNone, p_flags = []\<rparr>"

lemma demo_uuid: "line_uuid (PStr id1) = Some 1" "line_uuid (PStr id2) = Some 2"
  by code_simp+

lemma demo_normalized:
  "normalize_line_ids (\<lambda>_. id2) 0 [PDict [(''item_id'', PStr ''other'')]] [PDict demo_line]
     = Inr ([PDict [(''item_id'', PStr ''other''), (''line_id'', PStr id2)]], 1)"
  by code_simp

theorem every_line_its_own_id_witness:
  "uuid_at (PDict [(''item_id'', PStr ''other''), (''line_id'', PStr id2)]) \<noteq> None
    \<and> apart [PDict [(''item_id'', PStr ''other''), (''line_id'', PStr id2)]]"
proof -
  have "apart (map PDict (dict_lines [PDict demo_line]))" by (simp add: apart_def)
  moreover have "all_new (\<lambda>_. id2) 0 (0 + length [PDict [(''item_id'', PStr ''other'')]]) ([PDict [(''item_id'', PStr ''other'')]] @ [PDict demo_line])"
    using demo_uuid by (auto simp: all_new_def fresh_uuid_def uuid_at_def demo_line_def dget_def dget_or_def line_uuid_def [of PNone])
  ultimately show ?thesis
    using every_line_its_own_id [OF demo_normalized] by (auto simp: is_line_def)
qed

theorem ids_come_back_witness:
  "\<exists>lines. normalize_line_ids (\<lambda>_. id2) 0 (strip_line_ids [PDict demo_line]) [PDict demo_line] = Inr (lines, 0)
    \<and> py_eq (PList lines) (PList [PDict demo_line])"
proof -
  have "is_ok (line_key demo_line)" by code_simp
  moreover have "is_line_id (dget demo_line ''line_id'')" by code_simp
  moreover have "distinct (map fst demo_line)" by code_simp
  ultimately show ?thesis using ids_come_back [of "[demo_line]"] by simp
qed

lemma demo_judged:
  "assert_drawn_lines_authorized [] ''c'' ''inv'' [(''line_items'', PList [PDict demo_drawn])] [] (Some [PDict [(''line_id'', PStr id1)]]) None
     = Inr (Some [PDict [(''line_id'', PStr id1), (''drawn_from'', PDict [(''memo_id'', PStr ''memo'')]), (''quantity'', PInt 2), (''item_id'', PStr ''lot'')]])"
  by code_simp

theorem drawn_lines_kept_witness:
  "\<exists>lines. assert_drawn_lines_authorized [] ''c'' ''inv'' [(''line_items'', PList [PDict demo_drawn])] [] (Some [PDict [(''line_id'', PStr id1)]]) None
      = Inr (Some lines) \<and> (\<exists>line. PDict line \<in> set lines \<and> keeps_draw demo_drawn line)"
proof -
  have "stored_drawn_lines [(''line_items'', PList [PDict demo_drawn])] = Inr [(PStr id1, demo_drawn)]" by code_simp
  from drawn_lines_kept [OF demo_judged this] show ?thesis using demo_judged by auto
qed

theorem linked_items_iff_witness:
  "linked_items (\<lambda>_. None) [PStr ''lot''] [PDict demo_line] = Inr ()"
proof -
  have "line_id_counts [PDict demo_line] = Inr [PStr ''lot'']" by code_simp
  moreover have "\<not> names_two_items demo_line" by code_simp
  ultimately show ?thesis by (simp add: linked_items_iff)
qed

definition demo_holding :: table where
  "demo_holding = [((''c'', ''lot''), demo_item [(''status'', PStr ''reserved''), (''status_doc_id'', PStr ''inv''),
     (''status_line_entity_id'', PStr id1)])]"

theorem protected_lines_stay_witness:
  "\<exists>n new. n < length [PDict [], PDict demo_line] \<and> [PDict [], PDict demo_line] ! n = PDict new
    \<and> keeps_protected (item_state demo_holding ''c'') Held [''lot''] 0 (dict_lines [PDict demo_line] ! 0) n new"
proof (rule protected_lines_stay)
  show "assert_protected_lines_kept [] demo_holding ''c'' ''inv'' [(''line_items'', PList [PDict demo_line])] [PDict [], PDict demo_line] = Inr ()"
    by code_simp
  show "rows_or [(''line_items'', PList [PDict demo_line])] ''line_items'' = Inr [PDict demo_line]" by code_simp
  show "protected_lines [] demo_holding ''c'' ''inv'' [(''line_items'', PList [PDict demo_line])] (dict_lines [PDict demo_line])
    = Inr [(0, Held, [''lot''])]" by code_simp
qed simp

definition demo_stock :: table where
  "demo_stock = [((''c'', ''lot''), demo_item [(''status'', PStr ''available'')])]"

definition demo_write :: line_write where
  "demo_write = \<lparr>lw_company = ''c'', lw_entity = ''inv'', lw_kind = ''doc'',
     lw_data = [(''doc_type'', PStr ''invoice''), (''line_items'', PList [PDict demo_line])], lw_grant = None\<rparr>"

lemma demo_written: "write_lines (\<lambda>_. id2) 0 [] demo_stock demo_write = Inr (Some [PDict demo_line], 0)"
  by code_simp

lemma demo_counts: "rows_or (stored_of demo_stock demo_write) ''line_items'' = Inr []" "line_id_counts [] = Inr []"
  "line_id_counts [PDict demo_line] = Inr [PStr ''lot'']"
  by code_simp+

theorem accepted_lines_take_what_they_may_witness:
  "\<exists>st. item_state demo_stock ''c'' (PStr ''lot'') = Some st \<and> status_lower st \<noteq> ''draft''"
proof -
  have "lw_company demo_write = ''c''" by (simp add: demo_write_def)
  then show ?thesis
    using accepted_lines_take_what_they_may [OF demo_written demo_counts, of "PStr ''lot''"] by auto
qed

theorem unsplittable_lot_once_witness: "count_list [PStr ''lot''] (PStr ''lot'') \<le> 1"
proof (rule unsplittable_lot_once [OF demo_written _ demo_counts(3)])
  show "py_or (dget (lw_data demo_write) ''doc_type'') (dget (stored_of demo_stock demo_write) ''doc_type'') \<in> {PStr ''invoice'', PStr ''memo''}"
    by (simp add: demo_write_def dget_def dget_or_def)
  show "item_state demo_stock (lw_company demo_write) (PStr ''lot'') = Some (p_state (demo_item [(''status'', PStr ''available'')]))"
    by (simp add: demo_stock_def demo_write_def state_of_kind_def demo_item_def)
  show "dget (p_state (demo_item [(''status'', PStr ''available'')])) ''allow_splitting'' = PBool False"
    by (simp add: demo_item_def dget_def dget_or_def)
qed

end
