(* ===== verification/Emit.thy ===== *)
theory Emit
  imports LineWrite ItemCost
begin

text \<open>
  \<open>celerp/events/engine.py\<close>: the guards around the write of an event (with the status rules of
  \<open>services/lot_origin.py\<close> and the physical codes of \<open>services/physical_codes.py\<close> they use).  A payment
  Stripe holds leaves a document only through Stripe; an event is not dated in a locked period;
  the account a lot is booked on, the account its sale is owed on and whether retired stock stays
  on the books are not for an edit to change; a physical code belongs to one item; a draft is not
  stock; goods out on a memo stay as they are.  \<open>emit_item\<close> is the write of an item event in the order
  the code has it, with the ledger and the projections as its state.  The booking of value changes,
  the invoices' set-aside check and the connector queue that follow the last guard are not modelled.
  A write is one step: the row a guard judges by is read and judged at the same moment, where the code
  reads an item's row before it takes the company's lock.  A write may come without a key here
  (\<open>w_idem\<close>), which the ledger's own column does not allow, so more writes are considered.
\<close>

record event_write =
  w_company :: string
  w_entity :: string
  w_kind :: string
  w_type :: string
  w_data :: dict
  w_source :: "string option"
  w_idem :: "string option"
  w_meta :: dict

section \<open>Payments received through Stripe\<close>

definition PAYMENT_REMOVAL_EVENTS :: "string list" where
  "PAYMENT_REMOVAL_EVENTS = [''doc.payment.voided'', ''doc.payment.deleted'', ''doc.payment.refunded'']"

definition stripe_receipts :: "ledger_row list \<Rightarrow> string \<Rightarrow> string \<Rightarrow> dict list" where
  "stripe_receipts ledger company entity =
     map e_data (filter (\<lambda>r. l_source r = Some ''stripe'') (rows_of ledger company entity ''doc.payment.received''))"

definition stripe_receipt_references :: "ledger_row list \<Rightarrow> string \<Rightarrow> string \<Rightarrow> bool \<Rightarrow> pyval list" where
  "stripe_receipt_references ledger company entity managed =
     map (\<lambda>d. dget d ''reference'')
       (filter (\<lambda>d. truthy (dget d ''reference'') \<and> (\<not> managed \<or> dget d ''stripe_managed'' = PBool True))
          (stripe_receipts ledger company entity))"

definition is_stripe_receipt :: "dict \<Rightarrow> pyval list \<Rightarrow> bool" where
  "is_stripe_receipt payment references =
     (str_is (dget payment ''method'') ''stripe'' \<and> list_ex (py_eq (dget payment ''reference'')) references)"

definition stripe_payment_indexes :: "ledger_row list \<Rightarrow> string \<Rightarrow> string \<Rightarrow> dict list \<Rightarrow> pyval list" where
  "stripe_payment_indexes ledger company entity payments =
     map (\<lambda>p. dget p ''index'')
       (filter (\<lambda>p. is_stripe_receipt p (stripe_receipt_references ledger company entity True) \<and> \<not> truthy (dget p ''stripe_released_at''))
          payments)"

text \<open>The payments taken in with no document, with the document each was recorded on since.\<close>

record unmatched_payment =
  um_reference :: string
  um_company :: "string option"
  um_document :: "string option"

definition recorded_unmatched :: "unmatched_payment list \<Rightarrow> string \<Rightarrow> string \<Rightarrow> string list" where
  "recorded_unmatched unmatched company entity =
     map um_reference (filter (\<lambda>u. um_company u = Some company \<and> um_document u = Some entity) unmatched)"

definition put_back :: "unmatched_payment list \<Rightarrow> string \<Rightarrow> string \<Rightarrow> string \<Rightarrow> dict option \<Rightarrow> bool" where
  "put_back unmatched company entity event_type payment =
     (event_type = ''doc.payment.deleted''
      \<and> (case payment of None \<Rightarrow> False
         | Some p \<Rightarrow> \<not> truthy (dget p ''refunded'') \<and> str_in (dget p ''reference'') (recorded_unmatched unmatched company entity)))"

definition refuse_stripe_payment_removal ::
  "ledger_row list \<Rightarrow> unmatched_payment list \<Rightarrow> string \<Rightarrow> string \<Rightarrow> dict list \<Rightarrow> pyval \<Rightarrow> string \<Rightarrow> unit res" where
  "refuse_stripe_payment_removal ledger unmatched company entity payments index event_type =
     (let payment = find (\<lambda>p. py_eq (dget p ''index'') index) payments in
      if put_back unmatched company entity event_type payment then Inr ()
      else if list_ex (\<lambda>x. py_eq x index) (stripe_payment_indexes ledger company entity payments)
      then Inl (HTTPError 422 ''error.payment_stripe_owned'')
      else if event_type = ''doc.payment.deleted''
        \<and> (case payment of None \<Rightarrow> False | Some p \<Rightarrow> is_stripe_receipt p (stripe_receipt_references ledger company entity False))
      then Inl (HTTPError 422 ''error.stripe_receipt_kept'') else Inr ())"

definition guard_payment_removal :: "ledger_row list \<Rightarrow> unmatched_payment list \<Rightarrow> table \<Rightarrow> event_write \<Rightarrow> unit res" where
  "guard_payment_removal ledger unmatched db w =
     (if w_type w = ''doc.payment.refunded'' \<and> w_source w = Some ''stripe'' then Inr ()
      else case state_of_kind db (w_company w) ''doc'' (PStr (w_entity w)) of
        None \<Rightarrow> Inr ()
      | Some state \<Rightarrow>
          if dget (w_data w) ''payment_index'' = PNone
             \<or> (w_type w = ''doc.payment.deleted'' \<and> dget (w_data w) ''tombstone'' \<noteq> PBool True)
          then Inl (HTTPError 422 ''error.payment_not_named'')
          else rbind (rbind (rows state ''payments'') (mapR as_dict)) (\<lambda>payments.
            refuse_stripe_payment_removal ledger unmatched (w_company w) (w_entity w) payments
              (dget (w_data w) ''payment_index'') (w_type w)))"

text \<open>As \<open>emit_event\<close> calls it: for the events that take a payment off a document.\<close>

definition guard_doc_event :: "ledger_row list \<Rightarrow> unmatched_payment list \<Rightarrow> table \<Rightarrow> event_write \<Rightarrow> unit res" where
  "guard_doc_event ledger unmatched db w =
     (if w_kind w = ''doc'' \<and> List.member PAYMENT_REMOVAL_EVENTS (w_type w) then guard_payment_removal ledger unmatched db w
      else Inr ())"

section \<open>The period lock\<close>

text \<open>What the standard library reads of dates, times and zones.  A day is its ordinal, so writing it
  as text and reading it back is the identity.\<close>

record clock =
  ck_zone :: "string \<Rightarrow> bool"
  ck_today :: "string \<Rightarrow> int"
  ck_date :: "string \<Rightarrow> int option"
  ck_instant :: "string \<Rightarrow> int option option"
  ck_local :: "string \<Rightarrow> int \<Rightarrow> int"

definition business_timezone :: "clock \<Rightarrow> pyval \<Rightarrow> string res" where
  "business_timezone ck v =
     (case v of
        PStr s \<Rightarrow> (let name = (if py_strip s = [] then ''UTC'' else py_strip s) in
                    if ck_zone ck name then Inr name else Inl (RefusedError ''error.invalid_timezone''))
      | PNone \<Rightarrow> Inr ''UTC''
      | _ \<Rightarrow> Inl (RefusedError ''error.timezone_not_text''))"

definition business_date_at :: "clock \<Rightarrow> int \<Rightarrow> pyval \<Rightarrow> int res" where
  "business_date_at ck instant zone = rmap (\<lambda>name. ck_local ck name instant) (business_timezone ck zone)"

definition utc_marked :: "string \<Rightarrow> string" where
  "utc_marked s = concat (map (\<lambda>c. if c = CHR ''Z'' then ''+00:00'' else [c]) s)"

definition business_date_of :: "clock \<Rightarrow> pyval \<Rightarrow> pyval \<Rightarrow> int res" where
  "business_date_of ck recorded zone =
     (if \<not> truthy recorded then rmap (ck_today ck) (business_timezone ck zone)
      else let raw = py_str recorded in
        case (if List.member raw (CHR ''T'') then ck_instant ck (utc_marked raw) else Some None, ck_date ck (take 10 raw)) of
          (Some (Some instant), Some _) \<Rightarrow> business_date_at ck instant zone
        | (Some None, Some day) \<Rightarrow> Inr day
        | _ \<Rightarrow> Inl (RefusedError ''error.business_date_invalid''))"

definition event_date_of :: "dict \<Rightarrow> pyval" where
  "event_date_of data =
     py_or (dget data ''reversed_on'') (py_or (dget data ''ts'') (py_or (dget data ''issue_date'') (dget data ''date'')))"

definition lock_day :: "clock \<Rightarrow> dict \<Rightarrow> int option" where
  "lock_day ck settings = (case dget settings ''lock_date'' of PStr s \<Rightarrow> if s = [] then None else ck_date ck s | _ \<Rightarrow> None)"

definition check_period_lock :: "clock \<Rightarrow> dict option \<Rightarrow> dict \<Rightarrow> unit res" where
  "check_period_lock ck settings data =
     (case settings of None \<Rightarrow> Inr ()
      | Some s \<Rightarrow> (case lock_day ck s of None \<Rightarrow> Inr ()
          | Some lock \<Rightarrow>
              (case business_date_of ck (event_date_of data) (dget s ''timezone'') of
                 Inl (RefusedError k) \<Rightarrow> Inl (HTTPError 422 k)
               | Inl e \<Rightarrow> Inl e
               | Inr day \<Rightarrow> if day \<le> lock then Inl (HTTPError 422 ''error.period_locked'') else Inr ())))"

section \<open>What an edit of an item may not write\<close>

text \<open>The value an event writes to a field, whole or as a change.\<close>

definition written_field :: "string \<Rightarrow> dict \<Rightarrow> pyval option" where
  "written_field k data =
     (case map_of data k of Some v \<Rightarrow> Some v
      | None \<Rightarrow> (case dget data ''fields_changed'' of
          PDict changed \<Rightarrow> map_option (\<lambda>c. case c of PDict d \<Rightarrow> dget d ''new'' | _ \<Rightarrow> c) (map_of changed k)
        | _ \<Rightarrow> None))"

definition refuse_rewrite :: "string \<Rightarrow> string \<Rightarrow> dict \<Rightarrow> pyval \<Rightarrow> unit res" where
  "refuse_rewrite k key data current =
     (case written_field k data of None \<Rightarrow> Inr ()
      | Some v \<Rightarrow> if py_eq v current then Inr () else Inl (HTTPError 422 key))"

definition source_inventory :: "dict \<Rightarrow> pyval option res" where
  "source_inventory settings =
     rbind (as_dict (py_or (dget settings ''posting_source_controls'') (PDict []))) (\<lambda>controls.
     rbind (if truthy (dget controls ''inventory_purchased'') then py_iter (dget controls ''inventory_purchased'') else Inr []) (\<lambda>codes.
     Inr (case codes of [c] \<Rightarrow> Some c | _ \<Rightarrow> None)))"

text \<open>The data of the event with the account a lot brought in by a migration takes.\<close>

definition record_lot_account :: "dict \<Rightarrow> event_write \<Rightarrow> dict option \<Rightarrow> dict res" where
  "record_lot_account settings w previous =
     (let data = w_data w; current = (case previous of Some d \<Rightarrow> dget d LOT_ACCOUNT_FIELD | None \<Rightarrow> PNone) in
      if List.member ITEM_BIRTHS (w_type w) \<and> previous = None
      then (if w_type w = ''item.created'' \<and> w_source w = Some ''migration'' \<and> \<not> dhas data LOT_ACCOUNT_FIELD \<and> status_lower data \<noteq> ''draft''
            then rmap (\<lambda>c. case c of Some c \<Rightarrow> if truthy c then dput LOT_ACCOUNT_FIELD c data else data | None \<Rightarrow> data) (source_inventory settings)
            else Inr data)
      else if List.member [''item.inventory_account.recorded'', ''item.consignment.bought''] (w_type w)
      then (if truthy current then Inl (HTTPError 409 ''inventory.account_already_recorded'') else Inr data)
      else if w_type w = ''item.inventory_account.moved''
      then (if \<not> truthy current \<or> \<not> py_eq current (dget data ''from_account'') then Inl (HTTPError 409 ''inventory.account_moved_since'') else Inr data)
      else rmap (\<lambda>_. data) (refuse_rewrite LOT_ACCOUNT_FIELD ''inventory.account_locked_after_booking'' data current))"

definition record_consignor_payable :: "event_write \<Rightarrow> dict option \<Rightarrow> unit res" where
  "record_consignor_payable w previous =
     (let current = (case previous of Some d \<Rightarrow> dget d CONSIGNOR_PAYABLE_FIELD | None \<Rightarrow> PNone) in
      if List.member ITEM_BIRTHS (w_type w) \<and> previous = None then Inr ()
      else if w_type w = ''item.consignor_payable.recorded''
      then (if truthy current then Inl (HTTPError 409 ''inventory.consignor_payable_already_recorded'') else Inr ())
      else refuse_rewrite CONSIGNOR_PAYABLE_FIELD ''inventory.consignor_payable_locked_after_sale'' (w_data w) current)"

definition ON_BOOKS_WRITERS :: "string list" where
  "ON_BOOKS_WRITERS = [''item.status.set'', ''item.expired'', ''item.updated'', ''item.inventory_on_books.recorded'']"

definition guard_on_books :: "event_write \<Rightarrow> unit res" where
  "guard_on_books w =
     (if (dhas (w_data w) ON_BOOKS_FIELD \<and> \<not> List.member ON_BOOKS_WRITERS (w_type w))
         \<or> (case dget (w_data w) ''fields_changed'' of PDict changed \<Rightarrow> dhas changed ON_BOOKS_FIELD | _ \<Rightarrow> False)
      then Inl (HTTPError 422 ''inventory.on_books_locked'') else Inr ())"

section \<open>Physical codes\<close>

definition PHYSICAL_CODE_RESOLVE_EXCLUDED_STATUSES :: "string list" where
  "PHYSICAL_CODE_RESOLVE_EXCLUDED_STATUSES = [''merged'']"

definition PHYSICAL_CODE_FIELDS :: "string list" where
  "PHYSICAL_CODE_FIELDS = [''barcode'', ''rfid_epc'']"

text \<open>An item in an excluded status resolves by no code.\<close>

definition excluded :: "dict \<Rightarrow> bool" where
  "excluded state = List.member PHYSICAL_CODE_RESOLVE_EXCLUDED_STATUSES (status_lower state)"

definition touches_physical_codes :: "env \<Rightarrow> dict \<Rightarrow> string \<Rightarrow> dict \<Rightarrow> bool" where
  "touches_physical_codes en state event_type data =
     (if list_ex (\<lambda>k. dhas data k \<or> (case dget data ''fields_changed'' of PDict changed \<Rightarrow> dhas changed k | _ \<Rightarrow> False)) PHYSICAL_CODE_FIELDS
      then True
      else if \<not> excluded state then False
      else case engine_apply en state event_type data of Inl _ \<Rightarrow> True | Inr probe \<Rightarrow> \<not> excluded probe)"

definition codes_of :: "dict \<Rightarrow> (string \<times> string) list" where
  "codes_of state =
     (if excluded state then []
      else fold (\<lambda>k held. if blank (dget state k) \<or> map_of held (py_str (dget state k)) \<noteq> None then held
                          else held @ [(py_str (dget state k), k)]) PHYSICAL_CODE_FIELDS [])"

definition code_in_use :: "table \<Rightarrow> string \<Rightarrow> string \<Rightarrow> string \<Rightarrow> bool" where
  "code_in_use db company code exclude =
     (code \<noteq> [] \<and> list_ex (\<lambda>((c, eid), p). c = company \<and> eid \<noteq> exclude \<and> p_kind p = ''item''
        \<and> list_ex (\<lambda>k. dget (p_state p) k \<noteq> PNone \<and> py_str (dget (p_state p) k) = code) PHYSICAL_CODE_FIELDS) db)"

definition assert_new_physical_codes_available :: "table \<Rightarrow> string \<Rightarrow> string \<Rightarrow> dict \<Rightarrow> dict \<Rightarrow> unit res" where
  "assert_new_physical_codes_available db company entity before after =
     (case find (\<lambda>(code, _). map_of (codes_of before) code = None \<and> code_in_use db company code entity) (codes_of after) of
        None \<Rightarrow> Inr ()
      | Some (_, k) \<Rightarrow> Inl (HTTPError 409 (if k = ''rfid_epc'' then ''inventory.err_rfid_epc_in_use'' else ''inventory.err_barcode_in_use'')))"

section \<open>Drafts\<close>

definition is_draft :: "dict \<Rightarrow> bool" where "is_draft state = (status_lower state = ''draft'')"
definition is_deleted :: "dict \<Rightarrow> bool" where "is_deleted state = (status_lower state = ''deleted'')"

definition AUTHORING_EVENT_TYPES :: "string list" where
  "AUTHORING_EVENT_TYPES = [''item.created'', ''item.updated'', ''item.patched'', ''item.pricing.set'',
     ''item.status.set'', ''item.recipe.set'', ''item.workflow.set'', ''item.inventory_account.recorded'', ''item.inventory_account.moved'',
     ''shop.sync.enabled'', ''shop.sync.disabled'']"

definition is_authoring_event :: "string \<Rightarrow> bool" where
  "is_authoring_event event_type = (List.member AUTHORING_EVENT_TYPES event_type \<or> starts_with ''item.file.'' event_type)"

definition became_stock :: "string \<times> dict \<Rightarrow> bool res" where
  "became_stock e =
     (let (event_type, data) = e in
      if event_type = ''item.inventory_account.recorded'' \<or> \<not> is_authoring_event event_type then Inr True
      else rmap (\<lambda>status. truthy status \<and> \<not> List.member [''draft'', ''deleted''] (py_lower (py_str status)))
        (if event_type = ''item.status.set'' then Inr (dget data ''new_status'')
         else rbind (vget (py_or (dget data ''fields_changed'') (PDict [])) ''status'') (\<lambda>change.
           Inr (case change of PDict d \<Rightarrow> dget d ''new'' | _ \<Rightarrow> dget data ''status''))))"

definition ever_became_stock :: "(string \<times> dict) list \<Rightarrow> bool res" where
  "ever_became_stock events = anyR became_stock events"

definition assert_draft_not_circulated :: "string \<Rightarrow> dict option \<Rightarrow> dict \<Rightarrow> unit res" where
  "assert_draft_not_circulated event_type before after =
     (case before of None \<Rightarrow> Inr ()
      | Some b \<Rightarrow>
          if is_deleted b
          then (if event_type = ''item.status.set'' \<and> status_lower after = ''draft'' then Inr () else Inl (HTTPError 409 ''item.deleted''))
          else if \<not> is_draft b then Inr ()
          else if is_authoring_event event_type \<and> List.member [''draft'', ''available'', ''deleted''] (status_lower after) then Inr ()
          else Inl (HTTPError 409 ''item.draft''))"

section \<open>Goods out on a memo\<close>

definition HELD_FIELDS :: "string list" where
  "HELD_FIELDS = [''quantity'', ''sell_by'', ''weight'', ''weight_unit'', ''gross_weight'', ''gross_weight_unit'', ''location_id'', ''pieces'']"

record carve =
  cv_lot :: string
  cv_quantity :: rat
  cv_weight :: "rat option"
  cv_pieces :: "rat option"

definition held_value :: "dict \<Rightarrow> string \<Rightarrow> pyval res" where
  "held_value state k =
     (if k = ''pieces'' \<and> dget state ''pieces'' = PNone
      then vget (py_or (dget state ''attributes'') (PDict [])) ''pieces'' else Inr (dget state k))"

definition carve_part :: "carve \<Rightarrow> string \<Rightarrow> rat option option" where
  "carve_part c k =
     (if k = ''quantity'' then Some (Some (cv_quantity c)) else if k = ''weight'' then Some (cv_weight c)
      else if k = ''pieces'' then Some (cv_pieces c) else None)"

fun carved_by :: "carve \<Rightarrow> (string \<times> pyval \<times> pyval) list \<Rightarrow> bool res" where
  "carved_by c [] = Inr True"
| "carved_by c ((k, before, after) # rest) =
     (case carve_part c k of
        None \<Rightarrow> Inr False
      | Some None \<Rightarrow> if after \<noteq> PNone then Inr False else carved_by c rest
      | Some (Some part) \<Rightarrow>
          if after = PNone then Inr False
          else rbind (float_or0 before) (\<lambda>b. rbind (py_float after) (\<lambda>a.
            if fl (1 / 10 ^ 9) < \<bar>fsub (fsub b part) a\<bar> then Inr False else carved_by c rest)))"

definition held_changes :: "dict \<Rightarrow> dict \<Rightarrow> (string \<times> pyval \<times> pyval) list res" where
  "held_changes before after =
     rmap (filter (\<lambda>(_, b, a). \<not> py_eq b a))
       (mapR (\<lambda>k. rbind (held_value before k) (\<lambda>b. rmap (\<lambda>a. (k, b, a)) (held_value after k))) HELD_FIELDS)"

definition refuse_held_lot_change :: "table \<Rightarrow> string \<Rightarrow> string \<Rightarrow> dict option \<Rightarrow> dict \<Rightarrow> carve option \<Rightarrow> unit res" where
  "refuse_held_lot_change db company entity before after grant =
     (case before of None \<Rightarrow> Inr ()
      | Some b \<Rightarrow>
          let holder_id = dget b ''status_doc_id'' in
          if \<not> str_is (dget b ''status'') ''memo_out'' \<or> \<not> str_is (dget after ''status'') ''memo_out'' then Inr ()
          else if \<not> truthy holder_id \<or> \<not> py_eq (dget after ''status_doc_id'') holder_id then Inr ()
          else rbind (held_changes b after) (\<lambda>changed.
            rbind (case grant of None \<Rightarrow> Inr False
                   | Some c \<Rightarrow> if changed = [] \<or> cv_lot c \<noteq> entity then Inr False else carved_by c changed) (\<lambda>carved.
            if changed = [] \<or> carved then Inr ()
            else case row_state db company holder_id of
              None \<Rightarrow> Inr ()
            | Some holder \<Rightarrow> if str_is (dget holder ''doc_type'') ''memo'' then Inl (HTTPError 409 ''inventory.err_held_by_memo'') else Inr ())))"

section \<open>The write of an item event\<close>

definition find_event_by_idempotency :: "ledger_row list \<Rightarrow> string \<Rightarrow> string option \<Rightarrow> ledger_row option" where
  "find_event_by_idempotency ledger company key =
     (case key of None \<Rightarrow> None | Some k \<Rightarrow> if k = [] then None else find (\<lambda>r. e_company r = company \<and> l_idem r = key) ledger)"

text \<open>The ledger and the projections, the payments taken in unmatched, and how many line ids were
  given out.\<close>

record store =
  st_ledger :: "ledger_row list"
  st_table :: table
  st_unmatched :: "unmatched_payment list"
  st_named :: nat

text \<open>The environment of a write: the projection handlers, the company's settings, the calendar, the
  source of new line ids, and what modules hold an item's lineage to.\<close>

record emit_env =
  ee_env :: env
  ee_settings :: dict
  ee_clock :: clock
  ee_fresh :: "nat \<Rightarrow> string"
  ee_lineage :: "transition \<Rightarrow> unit res"

definition next_id :: "ledger_row list \<Rightarrow> int" where
  "next_id ledger = 1 + foldr (\<lambda>r. max (e_id r)) ledger 0"

definition row_of_write :: "ledger_row list \<Rightarrow> event_write \<Rightarrow> dict \<Rightarrow> ledger_row" where
  "row_of_write ledger w data =
     \<lparr>e_id = next_id ledger, e_company = w_company w, e_entity = w_entity w, e_kind = w_kind w, e_type = w_type w, e_data = data,
      l_source = w_source w, l_idem = w_idem w, l_meta = w_meta w\<rparr>"

definition check_item_cost :: "event_write \<Rightarrow> dict option \<Rightarrow> unit res" where
  "check_item_cost w previous =
     rbind (event_goods_costs (w_type w) (w_data w)) (\<lambda>costs.
     rbind (negative_cost_error (lot_label (dmerge (case previous of Some d \<Rightarrow> d | None \<Rightarrow> []) (w_data w)) (w_entity w)) costs) (\<lambda>negative.
     case negative of Some _ \<Rightarrow> Inl (HTTPError 422 ''inventory.err_cost_negative'')
     | None \<Rightarrow> (case unknown_flag_error (w_type w) (w_data w) of
           Some d \<Rightarrow> Inl (HTTPError 422 (py_str (dget d ''message_key''))) | None \<Rightarrow> Inr ())))"

definition check_codes :: "emit_env \<Rightarrow> bool \<Rightarrow> store \<Rightarrow> event_write \<Rightarrow> dict option \<Rightarrow> unit res" where
  "check_codes ee preserve st w previous =
     (let before = (case previous of Some d \<Rightarrow> d | None \<Rightarrow> []) in
      if touches_physical_codes (ee_env ee) before (w_type w) (w_data w)
         \<and> find_event_by_idempotency (st_ledger st) (w_company w) (w_idem w) = None \<and> \<not> preserve
      then rbind (engine_apply (ee_env ee) before (w_type w) (w_data w)) (\<lambda>after.
           assert_new_physical_codes_available (st_table st) (w_company w) (w_entity w) before after)
      else Inr ())"

text \<open>Births find no item, changes find one; then the rules on the change itself.\<close>

definition item_applied :: "emit_env \<Rightarrow> carve option \<Rightarrow> event_write \<Rightarrow> table \<Rightarrow> transition \<Rightarrow> unit res" where
  "item_applied ee grant w db t =
     (if t_before t = None \<and> \<not> List.member ITEM_BIRTHS (w_type w) then Inl (HTTPError 404 ''inventory.err_item_not_found'')
      else if t_before t \<noteq> None \<and> List.member ITEM_BIRTHS (w_type w) then Inl (HTTPError 409 ''inventory.err_item_exists'')
      else rbind (assert_draft_not_circulated (w_type w) (t_before t) (t_after t)) (\<lambda>_.
           rbind (ee_lineage ee t) (\<lambda>_.
           refuse_held_lot_change db (w_company w) (w_entity w) (t_before t) (t_after t) grant)))"

definition guard_item :: "emit_env \<Rightarrow> bool \<Rightarrow> store \<Rightarrow> event_write \<Rightarrow> dict res" where
  "guard_item ee preserve st w =
     (let previous = item_state (st_table st) (w_company w) (PStr (w_entity w)) in
      rbind (check_item_cost w previous) (\<lambda>_.
      rbind (check_codes ee preserve st w previous) (\<lambda>_.
      rbind (guard_on_books w) (\<lambda>_.
      rbind (record_lot_account (ee_settings ee) w previous) (\<lambda>data.
      rbind (record_consignor_payable (w\<lparr>w_data := data\<rparr>) previous) (\<lambda>_. Inr data))))))"

text \<open>A key the company has already used gives the event recorded under it, and writes nothing;
  otherwise the event, its effect and the checks on its effect are one savepoint.  The flag tells a
  repeat.\<close>

definition used_key :: "ledger_row list \<Rightarrow> event_write \<Rightarrow> ledger_row option" where
  "used_key ledger w = find (\<lambda>r. e_company r = w_company w \<and> l_idem r \<noteq> None \<and> l_idem r = w_idem w) ledger"

definition record_event :: "emit_env \<Rightarrow> (table \<Rightarrow> transition \<Rightarrow> unit res) \<Rightarrow> event_write \<Rightarrow> dict \<Rightarrow> store \<Rightarrow> (ledger_row \<times> bool \<times> store) res" where
  "record_event ee applied w data st =
     (case used_key (st_ledger st) w of
        Some original \<Rightarrow> Inr (original, True, st)
      | None \<Rightarrow>
          rbind (apply_entry (ee_env ee) (st_table st) (plain_entry (row_of_write (st_ledger st) w data))) (\<lambda>(t, db).
          rbind (applied db t) (\<lambda>_.
          Inr (row_of_write (st_ledger st) w data, False,
               st\<lparr>st_ledger := st_ledger st @ [row_of_write (st_ledger st) w data], st_table := db\<rparr>))))"

definition emit_item :: "emit_env \<Rightarrow> bool \<Rightarrow> carve option \<Rightarrow> event_write \<Rightarrow> store \<Rightarrow> (ledger_row \<times> bool \<times> store) res" where
  "emit_item ee preserve grant w st =
     rbind (guard_item ee preserve st w) (\<lambda>data. record_event ee (item_applied ee grant w) w data st)"

section \<open>The write of a document or List event\<close>

text \<open>The lines a write sets, each named, take the place of the lines it came with.\<close>

definition put_lines :: "pyval list option \<Rightarrow> dict \<Rightarrow> dict" where
  "put_lines lines data =
     (case lines of None \<Rightarrow> data
      | Some vs \<Rightarrow> (case map_of (changed_fields data) ''line_items'' of
            Some (PDict c) \<Rightarrow> if dhas c ''new''
              then dput ''fields_changed'' (PDict (dput ''line_items'' (PDict (dput ''new'' (PList vs) c)) (changed_fields data))) data
              else dput ''line_items'' (PList vs) data
          | _ \<Rightarrow> dput ''line_items'' (PList vs) data))"

definition lines_of_write :: "event_write \<Rightarrow> LineRules.grant option \<Rightarrow> line_write" where
  "lines_of_write w draw =
     \<lparr>lw_company = w_company w, lw_entity = w_entity w, lw_kind = w_kind w, lw_data = w_data w, lw_grant = draw\<rparr>"

definition emit_document :: "emit_env \<Rightarrow> LineRules.grant option \<Rightarrow> event_write \<Rightarrow> store \<Rightarrow> (ledger_row \<times> bool \<times> store) res" where
  "emit_document ee draw w st =
     rbind (write_lines (ee_fresh ee) (st_named st) (st_ledger st) (st_table st) (lines_of_write w draw)) (\<lambda>(lines, n).
     let data = put_lines lines (w_data w) in
     rbind (guard_doc_event (st_ledger st) (st_unmatched st) (st_table st) (w\<lparr>w_data := data\<rparr>)) (\<lambda>_.
     record_event ee (\<lambda>_ _. Inr ()) w data (st\<lparr>st_named := n\<rparr>)))"

section \<open>The write of an event\<close>

text \<open>\<open>emit_event\<close>, each kind of record with the guards above, in the code's order.\<close>

definition emit_event :: "emit_env \<Rightarrow> bool \<Rightarrow> LineRules.grant option \<Rightarrow> carve option \<Rightarrow> event_write \<Rightarrow> store
    \<Rightarrow> (ledger_row \<times> bool \<times> store) res" where
  "emit_event ee preserve draw carved w st =
     rbind (check_period_lock (ee_clock ee) (Some (ee_settings ee)) (w_data w)) (\<lambda>_.
     if w_kind w = ''item'' then emit_item ee preserve carved w st
     else if List.member [''doc'', ''list''] (w_kind w) then emit_document ee draw w st
     else record_event ee (\<lambda>_ _. Inr ()) w (w_data w) st)"

end
