(* ===== verification/EmitFacts.thy ===== *)
theory EmitFacts
  imports Emit EngineFacts DocFacts ItemFacts
begin

text \<open>
  What the write of an event guarantees.  Writers one after another are a transition system over
  the ledger and the projections (\<open>emission\<close>, \<open>emitted\<close>): every state they reach is one the engine's
  own account of live writes reaches, so the ledger explains every row; a key names one event for
  good; an item is born once; a draft does not circulate; a payment Stripe holds stays; the account
  a lot is booked on is not for an edit to change, but for the price writer the lock does not cover.
\<close>

section \<open>One write\<close>

lemma record_event_cases:
  assumes "record_event ee applied w data st = Inr (row, repeat, st')"
  obtains (again) "repeat" "st' = st" "used_key (st_ledger st) w = Some row"
  | (fresh) t db where "\<not> repeat" "used_key (st_ledger st) w = None" "row = row_of_write (st_ledger st) w data"
      "apply_entry (ee_env ee) (st_table st) (plain_entry row) = Inr (t, db)" "applied db t = Inr ()"
      "st' = st\<lparr>st_ledger := st_ledger st @ [row], st_table := db\<rparr>"
proof (cases "used_key (st_ledger st) w")
  case None
  from assms obtain t db where "apply_entry (ee_env ee) (st_table st) (plain_entry (row_of_write (st_ledger st) w data)) = Inr (t, db)"
    "applied db t = Inr ()" "row = row_of_write (st_ledger st) w data" "repeat = False"
    "st' = st\<lparr>st_ledger := st_ledger st @ [row_of_write (st_ledger st) w data], st_table := db\<rparr>"
    by (auto simp: record_event_def None rbind_eq_Inr)
  then show thesis using None by (intro fresh) auto
next
  case (Some r)
  then show thesis using assms by (intro again) (auto simp: record_event_def)
qed

text \<open>Every write is the recording of its data, guarded and judged by kind.\<close>

lemma emit_eventE:
  assumes "emit_event ee preserve draw carved w st = Inr (row, repeat, st')"
  obtains applied data n where "record_event ee applied w data (st\<lparr>st_named := n\<rparr>) = Inr (row, repeat, st')"
    and "w_kind w = ''item'' \<Longrightarrow> applied = item_applied ee carved w \<and> guard_item ee preserve st w = Inr data"
    and "w_kind w = ''doc'' \<Longrightarrow> guard_doc_event (st_ledger st) (st_unmatched st) (st_table st) (w\<lparr>w_data := data\<rparr>) = Inr ()"
proof -
  from assms have e: "(if w_kind w = ''item'' then emit_item ee preserve carved w st
     else if List.member [''doc'', ''list''] (w_kind w) then emit_document ee draw w st
     else record_event ee (\<lambda>_ _. Inr ()) w (w_data w) st) = Inr (row, repeat, st')"
    by (auto simp: emit_event_def rbind_eq_Inr)
  have same: "st\<lparr>st_named := st_named st\<rparr> = st" by simp
  consider "w_kind w = ''item''" | "w_kind w \<noteq> ''item''" "List.member [''doc'', ''list''] (w_kind w)"
    | "w_kind w \<noteq> ''item''" "\<not> List.member [''doc'', ''list''] (w_kind w)" by blast
  then show thesis
  proof cases
    case 1
    then obtain data where "guard_item ee preserve st w = Inr data" "record_event ee (item_applied ee carved w) w data st = Inr (row, repeat, st')"
      using e by (auto simp: emit_item_def rbind_eq_Inr)
    then show thesis using that [of "item_applied ee carved w" data "st_named st"] 1 by simp
  next
    case 2
    then obtain lines n where "guard_doc_event (st_ledger st) (st_unmatched st) (st_table st) (w\<lparr>w_data := put_lines lines (w_data w)\<rparr>) = Inr ()"
      "record_event ee (\<lambda>_ _. Inr ()) w (put_lines lines (w_data w)) (st\<lparr>st_named := n\<rparr>) = Inr (row, repeat, st')"
      using e by (auto simp: emit_document_def rbind_eq_Inr Let_def)
    then show thesis using that 2 by blast
  next
    case 3
    then show thesis using e that [of "\<lambda>_ _. Inr ()" "w_data w" "st_named st"] by auto
  qed
qed

section \<open>Writers one after another\<close>

inductive emission :: "emit_env \<Rightarrow> store \<Rightarrow> store \<Rightarrow> bool" for ee where
  wrote: "emit_event ee preserve draw carved w st = Inr (row, repeat, st') \<Longrightarrow> emission ee st st'"
| took_in: "emission ee st (st\<lparr>st_unmatched := um\<rparr>)"

definition empty_store :: store where
  "empty_store = \<lparr>st_ledger = [], st_table = [], st_unmatched = [], st_named = 0\<rparr>"

definition emitted :: "emit_env \<Rightarrow> store \<Rightarrow> bool" where
  "emitted ee = (emission ee)\<^sup>*\<^sup>* empty_store"

lemma emitted_induct [consumes 1, case_names start step]:
  assumes "emitted ee st" "P empty_store" "\<And>a b. emitted ee a \<Longrightarrow> emission ee a b \<Longrightarrow> P a \<Longrightarrow> P b"
  shows "P st"
  using assms(1) unfolding emitted_def by (induction rule: rtranclp_induct) (auto intro: assms(2,3) simp: emitted_def)

lemma emitted_step: "emitted ee a \<Longrightarrow> emission ee a b \<Longrightarrow> emitted ee b"
  by (simp add: emitted_def)

text \<open>A step adds nothing, or one row and its effect.\<close>

lemma emissionE:
  assumes "emission ee st st'"
  obtains (quiet) "st_ledger st' = st_ledger st" "st_table st' = st_table st"
  | (row) w row data t db applied carved preserve where "used_key (st_ledger st) w = None" "row = row_of_write (st_ledger st) w data"
      "apply_entry (ee_env ee) (st_table st) (plain_entry row) = Inr (t, db)" "applied db t = Inr ()"
      "w_kind w = ''item'' \<Longrightarrow> applied = item_applied ee carved w \<and> guard_item ee preserve st w = Inr data"
      "st_ledger st' = st_ledger st @ [row]" "st_table st' = db"
  using assms
proof cases
  case (wrote preserve draw carved w row repeat)
  from wrote show thesis
  proof (rule emit_eventE)
    fix applied data n
    assume r: "record_event ee applied w data (st\<lparr>st_named := n\<rparr>) = Inr (row, repeat, st')"
      and i: "w_kind w = ''item'' \<Longrightarrow> applied = item_applied ee carved w \<and> guard_item ee preserve st w = Inr data"
    from r show thesis
    proof (cases rule: record_event_cases)
      case again
      then show thesis using quiet by simp
    next
      case (fresh t db)
      then show thesis using row [of w row data t db applied carved preserve] i by simp
    qed
  qed
qed (use quiet in auto)

lemma next_id_greater: "r \<in> set l \<Longrightarrow> e_id r < next_id l"
proof -
  assume "r \<in> set l"
  then have "e_id r \<le> foldr (\<lambda>r. max (e_id r)) l 0" by (induction l) auto
  then show ?thesis by (simp add: next_id_def)
qed

lemma plain_entry_simps [simp]:
  "e_id (plain_entry r) = e_id r" "e_company (plain_entry r) = e_company r" "e_entity (plain_entry r) = e_entity r"
  "e_kind (plain_entry r) = e_kind r" "e_type (plain_entry r) = e_type r" "e_data (plain_entry r) = e_data r"
  by (simp_all add: plain_entry_def)

lemma row_of_write_simps [simp]:
  "e_id (row_of_write l w d) = next_id l" "e_company (row_of_write l w d) = w_company w" "e_entity (row_of_write l w d) = w_entity w"
  "e_kind (row_of_write l w d) = w_kind w" "e_type (row_of_write l w d) = w_type w" "e_data (row_of_write l w d) = d"
  "l_idem (row_of_write l w d) = w_idem w"
  by (simp_all add: row_of_write_def)

text \<open>A birth finds no item and a change finds one.\<close>

lemma item_applied_rule:
  assumes "item_applied ee carved w db t = Inr ()"
  shows "t_before t = None \<longleftrightarrow> List.member ITEM_BIRTHS (w_type w)"
  using assms by (auto simp: item_applied_def split: if_splits)

lemma emitted_live: "emitted ee st \<Longrightarrow> live (ee_env ee) \<lparr>w_db = st_table st, w_ledger = map plain_entry (st_ledger st)\<rparr>"
proof (induction rule: emitted_induct)
  case start
  show ?case using live.start by (simp add: empty_store_def)
next
  case (step a b)
  from step(2) show ?case
  proof (cases rule: emissionE)
    case quiet
    then show ?thesis using step(3) by simp
  next
    case (row w row data t db applied carved preserve)
    from row(3) have t: "t_before t = map_option p_state (map_of (st_table a) (entry_key (plain_entry row)))"
      by (auto simp: apply_entry_Inr)
    have rule: "item_rule (plain_entry row) (map_of (st_table a) (entry_key (plain_entry row)))"
    proof (cases "w_kind w = ''item''")
      case True
      then have "item_applied ee carved w db t = Inr ()" using row(4,5) by simp
      from item_applied_rule [OF this] show ?thesis using t by (auto simp: item_rule_def row(2))
    qed (simp add: item_rule_def row(2))
    have "live (ee_env ee) \<lparr>w_db = db, w_ledger = map plain_entry (st_ledger a) @ [plain_entry row]\<rparr>"
      using live.emit [OF step(3), of "plain_entry row" t db] rule row(3) next_id_greater by (auto simp: row(2))
    then show ?thesis by (simp add: row)
  qed
qed

text \<open>C1: whatever documents, lists, items and other records writers go on to write, under whatever
  settings and modules, rebuilding any companies from the ledger gives back every row exactly as
  the writes left it, theirs and the others', and is never refused.\<close>

theorem ledger_explains_rows:
  assumes "emitted ee st" "list_all holds_lock cs"
  shows "\<exists>db. rebuild (ee_env ee) holds_lock cs (map plain_entry (st_ledger st)) (st_table st) = Inr db
    \<and> (\<forall>k. map_of db k = map_of (st_table st) k)"
  using rebuild_reproduces [OF emitted_live [OF assms(1)] assms(2)] by simp

section \<open>What a ledger can hold\<close>

definition row_key :: "ledger_row \<Rightarrow> string \<times> string" where
  "row_key r = (e_company r, e_entity r)"

lemma entry_key_plain [simp]: "entry_key (plain_entry r) = row_key r"
  by (simp add: entry_key_def row_key_def)

definition born_once :: "ledger_row list \<Rightarrow> bool" where
  "born_once rs \<longleftrightarrow> (case rs of [] \<Rightarrow> True | r # rest \<Rightarrow>
     List.member ITEM_BIRTHS (e_type r) \<and> (\<forall>s\<in>set rest. \<not> List.member ITEM_BIRTHS (e_type s)))"

definition keys_given :: "ledger_row list \<Rightarrow> (string \<times> string option) list" where
  "keys_given ledger = map (\<lambda>r. (e_company r, l_idem r)) (filter (\<lambda>r. l_idem r \<noteq> None) ledger)"

definition item_rows :: "ledger_row list \<Rightarrow> string \<times> string \<Rightarrow> ledger_row list" where
  "item_rows ledger k = filter (\<lambda>r. e_kind r = ''item'' \<and> row_key r = k) ledger"

definition sound_ledger :: "ledger_row list \<Rightarrow> bool" where
  "sound_ledger ledger \<longleftrightarrow> sorted_wrt (<) (map e_id ledger) \<and> distinct (keys_given ledger) \<and> (\<forall>k. born_once (item_rows ledger k))"

lemma born_once_snoc: "born_once (rs @ [r]) \<longleftrightarrow> born_once rs \<and> (List.member ITEM_BIRTHS (e_type r) \<longleftrightarrow> rs = [])"
  by (cases rs) (auto simp: born_once_def)

text \<open>Every row of the ledger is of the kind of the projection it made.\<close>

definition kinds_agree :: "store \<Rightarrow> bool" where
  "kinds_agree st \<longleftrightarrow> (\<forall>r\<in>set (st_ledger st). \<exists>p. map_of (st_table st) (row_key r) = Some p \<and> p_kind p = e_kind r)
     \<and> (\<forall>k p. map_of (st_table st) k = Some p \<longrightarrow> (\<exists>r\<in>set (st_ledger st). row_key r = k))"

lemma emitted_kinds: "emitted ee st \<Longrightarrow> kinds_agree st"
proof (induction rule: emitted_induct)
  case (step a b)
  from step(2) show ?case
  proof (cases rule: emissionE)
    case quiet
    then show ?thesis using step(3) by (simp add: kinds_agree_def)
  next
    case (row w r data t db applied carved preserve)
    then obtain p where ok: "refuse_other_kind (plain_entry r) (map_of (st_table a) (row_key r)) = Inr ()"
      and p: "entry_row (ee_env ee) (map_of (st_table a) (row_key r)) (plain_entry r) = Inr p"
      and db: "db = AList.update (row_key r) p (st_table a)"
      by (auto simp: apply_entry_Inr)
    have "p_kind p = e_kind r"
      using entry_row_kind [OF p] ok by (auto simp: refuse_other_kind_def split: option.splits if_splits)
    moreover have "p_kind q = p_kind p" if "map_of (st_table a) (row_key r) = Some q" for q
      using entry_row_kind [OF p] that by simp
    ultimately show ?thesis using step(3) unfolding kinds_agree_def row db
      by (auto simp: map_of_update split: if_splits)
  qed
qed (simp add: kinds_agree_def empty_store_def)

lemma item_rows_None: "kinds_agree st \<Longrightarrow> map_of (st_table st) k = None \<Longrightarrow> item_rows (st_ledger st) k = []"
  by (fastforce simp: kinds_agree_def item_rows_def filter_empty_conv)

lemma item_rows_Some: "kinds_agree st \<Longrightarrow> map_of (st_table st) k = Some p \<Longrightarrow> p_kind p = ''item'' \<Longrightarrow> item_rows (st_ledger st) k \<noteq> []"
proof -
  assume a: "kinds_agree st" "map_of (st_table st) k = Some p" "p_kind p = ''item''"
  from a(1,2) obtain r where r: "r \<in> set (st_ledger st)" "row_key r = k" unfolding kinds_agree_def by blast
  with a have "e_kind r = ''item''" by (auto simp: kinds_agree_def)
  with r show ?thesis by (auto simp: item_rows_def filter_empty_conv)
qed

lemma item_rows_snoc: "item_rows (l @ [r]) k = (if e_kind r = ''item'' \<and> row_key r = k then item_rows l k @ [r] else item_rows l k)"
  by (simp add: item_rows_def)

lemma used_key_None: "used_key ledger w = None \<Longrightarrow> w_idem w \<noteq> None \<Longrightarrow> (w_company w, w_idem w) \<notin> set (keys_given ledger)"
  by (auto simp: used_key_def find_None_iff keys_given_def)

text \<open>C3: in every state writers reach the ledger's ids go up, no company has one key on two events,
  and the events of an item begin with the only birth among them.\<close>

theorem ledger_stays_sound:
  assumes "emitted ee st"
  shows "sound_ledger (st_ledger st)"
  using assms
proof (induction rule: emitted_induct)
  case (step a b)
  note agree = emitted_kinds [OF step(1)]
  from step(2) show ?case
  proof (cases rule: emissionE)
    case quiet
    then show ?thesis using step(3) by simp
  next
    case (row w r data t db applied carved preserve)
    have ids: "sorted_wrt (<) (map e_id (st_ledger a @ [r]))"
      using step(3) next_id_greater row(2) by (auto simp: sound_ledger_def sorted_wrt_append)
    have keys: "distinct (keys_given (st_ledger a @ [r]))"
      using step(3) used_key_None [OF row(1)] row(2) by (auto simp: sound_ledger_def keys_given_def)
    have "born_once (item_rows (st_ledger a @ [r]) k)" for k
    proof (cases "e_kind r = ''item'' \<and> row_key r = k")
      case True
      then have "item_applied ee carved w db t = Inr ()" using row(2,4,5) by simp
      from item_applied_rule [OF this] have birth: "t_before t = None \<longleftrightarrow> List.member ITEM_BIRTHS (e_type r)" using row(2) by simp
      have t: "t_before t = map_option p_state (map_of (st_table a) k)"
        and other: "refuse_other_kind (plain_entry r) (map_of (st_table a) k) = Inr ()"
        using row(3) True by (auto simp: apply_entry_Inr)
      have "item_rows (st_ledger a) k = [] \<longleftrightarrow> map_of (st_table a) k = None"
        using item_rows_None [OF agree] item_rows_Some [OF agree] other True
        by (cases "map_of (st_table a) k") (auto simp: refuse_other_kind_def split: if_splits)
      moreover have "born_once (item_rows (st_ledger a) k)" using step(3) unfolding sound_ledger_def by blast
      ultimately show ?thesis using birth t True by (simp add: item_rows_snoc born_once_snoc)
    next
      case False
      then have "item_rows (st_ledger a @ [r]) k = item_rows (st_ledger a) k" by (simp only: item_rows_snoc if_False)
      moreover have "born_once (item_rows (st_ledger a) k)" using step(3) unfolding sound_ledger_def by blast
      ultimately show ?thesis by simp
    qed
    with ids keys show ?thesis by (simp add: sound_ledger_def row)
  qed
qed (simp add: sound_ledger_def empty_store_def keys_given_def item_rows_def born_once_def)

section \<open>Rows\<close>

text \<open>The columns of a row hold what its state says, read as they are read for every state.\<close>

definition conforms :: "env \<Rightarrow> projection \<Rightarrow> bool" where
  "conforms en p \<longleftrightarrow>
     p_location p = column_of parse_uuid Uuid (dget (p_state p) ''location_id'')
     \<and> p_expires p = column_of (en_instant en) Instant (dget (p_state p) ''expires_at'')
     \<and> p_flags p = map (\<lambda>k. (k, dget (p_state p) k)) FLAG_COLUMNS"

definition newest_of :: "ledger_row list \<Rightarrow> string \<times> string \<Rightarrow> ledger_row \<Rightarrow> bool" where
  "newest_of ledger k r \<longleftrightarrow> r \<in> set ledger \<and> row_key r = k \<and> (\<forall>s\<in>set ledger. row_key s = k \<longrightarrow> e_id s \<le> e_id r)"

lemma entry_row_conforms: "entry_row en row e = Inr p \<Longrightarrow> e_id e \<noteq> 0 \<Longrightarrow> conforms en p \<and> p_version p = e_id e"
  by (auto simp: entry_row_def next_fields_def rmap_eq_Inr conforms_def split: option.splits)

lemma next_id_positive: "0 < next_id l"
  by (induction l) (auto simp: next_id_def)

text \<open>C25: in every state writers reach, each row is well-formed: it has the kind of its latest event,
  that event's id as its version, and columns that say what its state says.\<close>

theorem rows_conform:
  assumes "emitted ee st" "map_of (st_table st) k = Some p"
  shows "conforms (ee_env ee) p \<and> (\<exists>r. newest_of (st_ledger st) k r \<and> p_version p = e_id r \<and> p_kind p = e_kind r)"
  using assms
proof (induction arbitrary: k p rule: emitted_induct)
  case (step a b)
  from step(2) show ?case
  proof (cases rule: emissionE)
    case quiet
    then show ?thesis using step(3,4) by simp
  next
    case (row w r data t db applied carved preserve)
    then obtain q where ok: "refuse_other_kind (plain_entry r) (map_of (st_table a) (row_key r)) = Inr ()"
      and q: "entry_row (ee_env ee) (map_of (st_table a) (row_key r)) (plain_entry r) = Inr q"
      and db: "db = AList.update (row_key r) q (st_table a)"
      by (auto simp: apply_entry_Inr)
    show ?thesis
    proof (cases "k = row_key r")
      case True
      then have p: "p = q" using step(4) by (simp add: row db)
      have "e_id (plain_entry r) \<noteq> 0" using next_id_positive [of "st_ledger a"] by (simp add: row(2))
      from entry_row_conforms [OF q this] have c: "conforms (ee_env ee) p" "p_version p = e_id r" by (simp_all add: p)
      have "p_kind p = e_kind r"
        using entry_row_kind [OF q] ok by (auto simp: p refuse_other_kind_def split: option.splits if_splits)
      moreover have "newest_of (st_ledger b) k r" using next_id_greater [of _ "st_ledger a"] True row(2) by (fastforce simp: row(6) newest_of_def)
      ultimately show ?thesis using c by blast
    next
      case False
      then have "map_of (st_table a) k = Some p" using step(4) by (simp add: row db)
      from step(3) [OF this] obtain s where "conforms (ee_env ee) p" "newest_of (st_ledger a) k s" "p_version p = e_id s" "p_kind p = e_kind s" by blast
      moreover from this(2) have "newest_of (st_ledger b) k s" using False by (auto simp: row(6) newest_of_def)
      ultimately show ?thesis by blast
    qed
  qed
qed (simp add: empty_store_def)

section \<open>A key names one event\<close>

lemma find_app: "find P (xs @ ys) = (case find P xs of None \<Rightarrow> find P ys | Some x \<Rightarrow> Some x)"
  by (induction xs) simp_all

lemma used_key_grows: "used_key l w = Some r \<Longrightarrow> used_key (l @ l') w = Some r"
  by (simp add: used_key_def find_app)

lemma emission_grows: "emission ee a b \<Longrightarrow> \<exists>l. st_ledger b = st_ledger a @ l"
  by (erule emissionE) auto

lemma emissions_grow: "(emission ee)\<^sup>*\<^sup>* a b \<Longrightarrow> \<exists>l. st_ledger b = st_ledger a @ l"
  by (induction rule: rtranclp_induct) (auto dest!: emission_grows)

lemma record_event_used:
  assumes "record_event ee applied w data st = Inr (row, repeat, st')" "w_idem w = Some k"
  shows "used_key (st_ledger st') w = Some row"
  using assms(1)
proof (cases rule: record_event_cases)
  case (fresh t db)
  have "used_key (st_ledger st @ [row]) w = Some row"
    using fresh(2,3) assms(2) by (auto simp: used_key_def find_app)
  then show ?thesis by (simp add: fresh)
qed simp

text \<open>C24: once a write with a key is through, every later write of the company with that key, whatever
  it carries and whatever was written in between, returns that event and changes neither the ledger
  nor a projection.\<close>

theorem key_names_one_event:
  assumes "emit_event ee preserve draw carved w st = Inr (row, repeat, st1)" "w_idem w = Some k"
    and "(emission ee)\<^sup>*\<^sup>* st1 st2"
    and "emit_event ee preserve' draw' carved' w' st2 = Inr (row', repeat', st3)"
    and "w_company w' = w_company w" "w_idem w' = Some k"
  shows "row' = row \<and> repeat' \<and> st_ledger st3 = st_ledger st2 \<and> st_table st3 = st_table st2"
proof -
  from assms(1) obtain applied data n where "record_event ee applied w data (st\<lparr>st_named := n\<rparr>) = Inr (row, repeat, st1)"
    by (rule emit_eventE)
  from record_event_used [OF this assms(2)] have "used_key (st_ledger st1) w = Some row" .
  moreover obtain l where "st_ledger st2 = st_ledger st1 @ l" using emissions_grow [OF assms(3)] by blast
  ultimately have "used_key (st_ledger st2) w = Some row" using used_key_grows by simp
  then have used: "used_key (st_ledger st2) w' = Some row" using assms(2,5,6) by (simp add: used_key_def)
  from assms(4) obtain applied' data' n' where "record_event ee applied' w' data' (st2\<lparr>st_named := n'\<rparr>) = Inr (row', repeat', st3)"
    by (rule emit_eventE)
  then show ?thesis using used by (auto simp: record_event_def)
qed

section \<open>What a recorded write makes of its record\<close>

lemma record_written:
  assumes e: "emit_event ee preserve draw carved w st = Inr (row, False, st')" and k: "w_kind w = k"
    and b: "state_of_kind (st_table st) (w_company w) k (PStr (w_entity w)) = Some b"
  shows "\<exists>data a. (k = ''item'' \<longrightarrow> guard_item ee preserve st w = Inr data
       \<and> item_applied ee carved w (st_table st') \<lparr>t_before = Some b, t_after = a\<rparr> = Inr ())
    \<and> (k = ''doc'' \<longrightarrow> guard_doc_event (st_ledger st) (st_unmatched st) (st_table st) (w\<lparr>w_data := data\<rparr>) = Inr ())
    \<and> engine_apply (ee_env ee) b (w_type w) data = Inr a
    \<and> state_of_kind (st_table st') (w_company w) k (PStr (w_entity w)) = Some a"
  using e
proof (rule emit_eventE)
  fix applied data n
  assume r: "record_event ee applied w data (st\<lparr>st_named := n\<rparr>) = Inr (row, False, st')"
    and gi: "w_kind w = ''item'' \<Longrightarrow> applied = item_applied ee carved w \<and> guard_item ee preserve st w = Inr data"
    and gd: "w_kind w = ''doc'' \<Longrightarrow> guard_doc_event (st_ledger st) (st_unmatched st) (st_table st) (w\<lparr>w_data := data\<rparr>) = Inr ()"
  obtain p where p: "map_of (st_table st) (w_company w, w_entity w) = Some p" "p_kind p = k" "p_state p = b"
    using b by (auto simp: state_of_kind_def split: option.splits if_splits)
  from r show ?thesis
  proof (cases rule: record_event_cases)
    case (fresh t db)
    then obtain q where q: "next_fields (ee_env ee) (p_kind p) b (plain_entry row) (p_version p) = Inr q"
      and st': "db = AList.update (w_company w, w_entity w) q (st_table st)" and t: "t = \<lparr>t_before = Some b, t_after = p_state q\<rparr>"
      using p by (auto simp: apply_entry_Inr entry_row_def row_key_def)
    from q have q': "engine_apply (ee_env ee) b (w_type w) data = Inr (p_state q)" "p_kind q = k"
      using p fresh(3) by (auto simp: next_fields_def rmap_eq_Inr)
    have "state_of_kind db (w_company w) k (PStr (w_entity w)) = Some (p_state q)"
      using q'(2) by (simp add: st' state_of_kind_def map_of_update)
    then show ?thesis using fresh gi gd k t q'(1) by (intro exI [of _ data] exI [of _ "p_state q"]) auto
  qed simp
qed

section \<open>Drafts\<close>

text \<open>C21: an event recorded on a draft is an authoring event and leaves a draft, stock just made
  available, or a deleted item; one recorded on a deleted item restores it to a draft.  Nothing
  else happens to an item that is not stock.\<close>

theorem drafts_do_not_circulate:
  assumes "emit_event ee preserve draw carved w st = Inr (row, False, st')" "w_kind w = ''item''"
    and "item_state (st_table st) (w_company w) (PStr (w_entity w)) = Some b"
  shows "\<exists>a. item_state (st_table st') (w_company w) (PStr (w_entity w)) = Some a
    \<and> (is_deleted b \<longrightarrow> w_type w = ''item.status.set'' \<and> is_draft a)
    \<and> (is_draft b \<longrightarrow> is_authoring_event (w_type w) \<and> (is_draft a \<or> is_deleted a \<or> status_lower a = ''available''))"
proof -
  from record_written [OF assms] obtain data a where "item_applied ee carved w (st_table st') \<lparr>t_before = Some b, t_after = a\<rparr> = Inr ()"
    and a: "item_state (st_table st') (w_company w) (PStr (w_entity w)) = Some a" by blast
  then have "assert_draft_not_circulated (w_type w) (Some b) a = Inr ()"
    by (auto simp: item_applied_def rbind_eq_Inr split: if_splits)
  then show ?thesis using a by (auto simp: assert_draft_not_circulated_def is_draft_def is_deleted_def split: if_splits)
qed

section \<open>Payments Stripe holds\<close>

text \<open>The payment stays in its place, with every field it had.\<close>

definition payment_at :: "dict \<Rightarrow> nat \<Rightarrow> dict \<Rightarrow> bool" where
  "payment_at state i p \<longleftrightarrow> (\<exists>ps. dget state ''payments'' = PList ps \<and> i < length ps \<and> ps ! i = PDict p)"

lemma payment_at_settle: "settle d x = Inr d' \<Longrightarrow> payment_at d' i p = payment_at d i p"
  by (simp add: payment_at_def settle_other)

lemma payment_at_other:
  assumes "payment_at d i p" "j \<noteq> i"
  shows "payment_at (put_row ''payments'' j q d) i p"
proof -
  from assms(1) obtain ps where ps: "dget d ''payments'' = PList ps" "i < length ps" "ps ! i = PDict p" by (auto simp: payment_at_def)
  then have "map_of d ''payments'' = Some (PList ps)" by (auto simp: dget_def dget_or_def split: option.splits)
  then show ?thesis using ps assms(2) by (simp add: payment_at_def put_row_PList)
qed

lemma find_row_find:
  "mapR as_dict vs = Inr ds \<Longrightarrow> find_row (\<lambda>p. Inr (P p)) k vs = Inr (Some (j, q)) \<Longrightarrow> find P ds = Some q"
  by (induction vs arbitrary: ds k) (auto simp: rbind_eq_Inr split: if_splits)

text \<open>Held by Stripe: received through it on a page that carries these books, and linked to it still.\<close>

definition stripe_holds :: "store \<Rightarrow> event_write \<Rightarrow> dict \<Rightarrow> bool" where
  "stripe_holds st w p \<longleftrightarrow>
     is_stripe_receipt p (stripe_receipt_references (st_ledger st) (w_company w) (w_entity w) True)
     \<and> \<not> truthy (dget p ''stripe_released_at'')
     \<and> \<not> put_back (st_unmatched st) (w_company w) (w_entity w) (w_type w) (Some p)"

lemma guard_spares:
  assumes guard: "guard_doc_event (st_ledger st) (st_unmatched st) (st_table st) (w\<lparr>w_data := data\<rparr>) = Inr ()"
    and w: "w_kind w = ''doc''" "List.member PAYMENT_REMOVAL_EVENTS (w_type w)" "\<not> (w_type w = ''doc.payment.refunded'' \<and> w_source w = Some ''stripe'')"
    and b: "state_of_kind (st_table st) (w_company w) ''doc'' (PStr (w_entity w)) = Some b"
    and p: "payment_at b i p" "stripe_holds st w p"
  shows "dget data ''payment_index'' \<noteq> PNone" "w_type w = ''doc.payment.deleted'' \<Longrightarrow> dget data ''tombstone'' = PBool True"
    "find_payment b (dget data ''payment_index'') \<noteq> Inr (Some (i, q))"
proof -
  let ?x = "dget data ''payment_index''"
  have g: "guard_payment_removal (st_ledger st) (st_unmatched st) (st_table st) (w\<lparr>w_data := data\<rparr>) = Inr ()"
    using guard w by (simp add: guard_doc_event_def)
  then show named: "?x \<noteq> PNone" "w_type w = ''doc.payment.deleted'' \<Longrightarrow> dget data ''tombstone'' = PBool True"
    using w b by (auto simp: guard_payment_removal_def split: if_splits)
  obtain ps where ps: "dget b ''payments'' = PList ps" "i < length ps" "ps ! i = PDict p" using p(1) by (auto simp: payment_at_def)
  then have rows: "rows b ''payments'' = Inr ps" by (auto simp: rows_def dget_def dget_or_def split: option.splits)
  obtain ds where ds: "mapR as_dict ps = Inr ds"
    and r: "refuse_stripe_payment_removal (st_ledger st) (st_unmatched st) (w_company w) (w_entity w) ds ?x (w_type w) = Inr ()"
    using g w b rows named by (auto simp: guard_payment_removal_def rbind_eq_Inr split: if_splits)
  have at: "p \<in> set ds" using mapR_nth [OF ds ps(2)] mapR_length [OF ds] ps(2,3) by (auto simp: as_dict_Inr intro: nth_mem)
  show "find_payment b ?x \<noteq> Inr (Some (i, q))"
  proof
    assume f: "find_payment b ?x = Inr (Some (i, q))"
    then have fr: "find_row (\<lambda>p. Inr (py_eq (dget p ''index'') ?x)) 0 ps = Inr (Some (i, q))" by (simp add: find_payment_def rows)
    from find_row_0 [OF fr] have q: "q = p" "py_eq (dget p ''index'') ?x" using ps by auto
    have found: "find (\<lambda>p. py_eq (dget p ''index'') ?x) ds = Some p" using find_row_find [OF ds fr] q by simp
    have "list_ex (\<lambda>x. py_eq x ?x) (stripe_payment_indexes (st_ledger st) (w_company w) (w_entity w) ds)"
      using at p(2) q(2) by (auto simp: stripe_payment_indexes_def list_ex_iff stripe_holds_def)
    then show False using r found p(2) by (simp add: refuse_stripe_payment_removal_def Let_def stripe_holds_def)
  qed
qed

lemma removal_keeps_others:
  assumes "apply_documents_event b et data = Inr a" "List.member PAYMENT_REMOVAL_EVENTS et" "payment_at b i p"
    and "dget data ''payment_index'' \<noteq> PNone" "et = ''doc.payment.deleted'' \<Longrightarrow> dget data ''tombstone'' = PBool True"
    and spared: "\<And>q. find_payment b (dget data ''payment_index'') \<noteq> Inr (Some (i, q))"
  shows "payment_at a i p"
proof -
  have idx: "dkey data ''payment_index'' = Inr (dget data ''payment_index'')"
    using assms(4) by (auto simp: dkey_def dget_def dget_or_def split: option.splits)
  have keep: "payment_at (put_row ''payments'' j q' b) i p" if f: "find_payment b (dget data ''payment_index'') = Inr (Some (j, q))" for j q q'
  proof -
    have "j \<noteq> i" using spared f by auto
    then show ?thesis by (rule payment_at_other [OF assms(3)])
  qed
  consider "et = ''doc.payment.voided''" | "et = ''doc.payment.deleted''" | "et = ''doc.payment.refunded''"
    using assms(2) by (auto simp: PAYMENT_REMOVAL_EVENTS_def)
  then show ?thesis
  proof cases
    case 1
    then have "payment_voided b data = Inr a" using assms(1) by (simp add: apply_documents_event_def document_handlers_def)
    then show ?thesis using assms(3) keep
      by (auto simp: payment_voided_def idx rbind_eq_Inr Let_def payment_at_settle split: option.splits prod.splits)
  next
    case 2
    then have "payment_deleted b data = Inr a" using assms(1) by (simp add: apply_documents_event_def document_handlers_def)
    then obtain target where t: "find_payment b (dget data ''payment_index'') = Inr target"
      and r: "(case target of None \<Rightarrow> Inr b
          | Some (i, p) \<Rightarrow>
            if str_is (dget p ''status'') ''active''
            then let p' = dput ''status'' (PStr ''deleted'') p; c1 = put_row ''payments'' i p' b
                 in rbind (amount_paid_of c1) (\<lambda>paid. rbind (left_of p') (\<lambda>left. rbind (dsub paid left) (settle c1)))
            else Inr b) = Inr a"
      using assms(5) [OF 2] by (auto simp: payment_deleted_def idx elim!: rbindE)
    show ?thesis
    proof (cases target)
      case None
      then show ?thesis using r assms(3) by simp
    next
      case (Some jq)
      obtain j q where jq: "jq = (j, q)" by (cases jq)
      show ?thesis using r assms(3) keep t unfolding Some jq
        by (auto simp: Let_def payment_at_settle split: if_splits elim!: rbindE)
    qed
  next
    case 3
    then have "payment_refunded b data = Inr a" using assms(1) by (simp add: apply_documents_event_def document_handlers_def)
    then show ?thesis using assms(3,4) keep
      by (auto simp: payment_refunded_def rbind_eq_Inr Let_def payment_at_settle split: option.splits prod.splits)
  qed
qed

text \<open>C13: no void, refund or deletion that anyone but Stripe writes touches a payment Stripe holds:
  whenever such an event is recorded, the payment is in its place with every field as it was.  (A
  payment a person recorded from the unmatched ones may be put back with them.)\<close>

theorem stripe_money_stays:
  assumes "emit_event ee preserve draw carved w st = Inr (row, False, st')" "w_kind w = ''doc''"
    and "List.member PAYMENT_REMOVAL_EVENTS (w_type w)" "\<not> (w_type w = ''doc.payment.refunded'' \<and> w_source w = Some ''stripe'')"
    and "replay_handler (ee_env ee) (w_type w) = Some apply_documents_event"
    and "state_of_kind (st_table st) (w_company w) ''doc'' (PStr (w_entity w)) = Some b"
    and "payment_at b i p" "stripe_holds st w p"
  shows "\<exists>a. state_of_kind (st_table st') (w_company w) ''doc'' (PStr (w_entity w)) = Some a \<and> payment_at a i p"
proof -
  from record_written [OF assms(1,2,6)] obtain data a where g: "guard_doc_event (st_ledger st) (st_unmatched st) (st_table st) (w\<lparr>w_data := data\<rparr>) = Inr ()"
    and a: "engine_apply (ee_env ee) b (w_type w) data = Inr a"
    and st': "state_of_kind (st_table st') (w_company w) ''doc'' (PStr (w_entity w)) = Some a" by blast
  note spares = guard_spares [OF g assms(2-4,6-8)]
  have "apply_documents_event b (w_type w) data = Inr a" using a assms(5) by (simp add: engine_apply_def)
  from removal_keeps_others [OF this assms(3,7) spares] st' show ?thesis by blast
qed

section \<open>Witnesses\<close>

text \<open>Writers of one company, with documents and inventory enabled and no period locked.\<close>

definition demo_ee :: emit_env where
  "demo_ee = \<lparr>ee_env = \<lparr>en_handlers = [(''doc.'', apply_documents_event), (''item.'', apply_item_event)], en_instant = \<lambda>_. None\<rparr>, ee_settings = [],
     ee_clock = \<lparr>ck_zone = \<lambda>_. True, ck_today = \<lambda>_. 20000, ck_date = \<lambda>_. None, ck_instant = \<lambda>_. None, ck_local = \<lambda>_ n. n\<rparr>,
     ee_fresh = \<lambda>_. [], ee_lineage = \<lambda>_. Inr ()\<rparr>"

lemma demo_handlers:
  "replay_handler (ee_env demo_ee) ''doc.payment.voided'' = Some apply_documents_event"
  "replay_handler (ee_env demo_ee) ''item.updated'' = Some apply_item_event"
  "replay_handler (ee_env demo_ee) ''item.pricing.set'' = Some apply_item_event"
  by (simp_all add: demo_ee_def replay_handler_def RETIRED_EVENTS_def starts_with_def module_handler_def)

definition demo_event :: "string \<Rightarrow> string \<Rightarrow> dict \<Rightarrow> string \<Rightarrow> event_write" where
  "demo_event k et d key = \<lparr>w_company = ''c'', w_entity = ''e'', w_kind = k, w_type = et, w_data = d,
     w_source = Some ''api'', w_idem = Some key, w_meta = []\<rparr>"

definition demo_run :: "event_write list \<Rightarrow> store res" where
  "demo_run = foldR (\<lambda>st w. rmap (\<lambda>(_, _, st). st) (emit_event demo_ee False None None w st)) empty_store"

lemma demo_run_emitted: "demo_run ws = Inr st \<Longrightarrow> emitted demo_ee st"
  unfolding demo_run_def
proof (induction ws arbitrary: st rule: rev_induct)
  case (snoc w ws)
  then obtain st0 row repeat where "emitted demo_ee st0" "emit_event demo_ee False None None w st0 = Inr (row, repeat, st)"
    by (auto simp: foldR_append rbind_eq_Inr rmap_eq_Inr)
  then show ?case by (blast intro: emitted_step emission.wrote)
qed (simp add: emitted_def)

definition demo_born :: event_write where
  "demo_born = demo_event ''item'' ''item.created'' [(''sku'', PStr ''A''), (''quantity'', PInt 2), (''status'', PStr ''draft''),
     (''inventory_account_code'', PStr ''1300'')] ''k1''"

definition demo_offer :: event_write where
  "demo_offer = demo_event ''item'' ''item.status.set'' [(''new_status'', PStr ''available'')] ''k2''"

text \<open>One more write, with the state before and after it of the record \<open>e\<close>, and whether it repeats one.\<close>

definition demo_write :: "store \<Rightarrow> event_write \<Rightarrow> (bool \<times> dict option \<times> dict option) res" where
  "demo_write st w = rmap (\<lambda>(_, again, st'). (again, state_of_kind (st_table st) ''c'' (w_kind w) (PStr ''e''),
     state_of_kind (st_table st') ''c'' (w_kind w) (PStr ''e''))) (emit_event demo_ee False None None w st)"

lemma demo_writeE:
  assumes "demo_write st w = Inr (again, before, after)"
  obtains row st' where "emit_event demo_ee False None None w st = Inr (row, again, st')"
    "state_of_kind (st_table st) ''c'' (w_kind w) (PStr ''e'') = before" "state_of_kind (st_table st') ''c'' (w_kind w) (PStr ''e'') = after"
  using assms by (auto simp: demo_write_def rmap_eq_Inr)

definition demo_draft :: store where
  "demo_draft = (case demo_run [demo_born] of Inr st \<Rightarrow> st | Inl _ \<Rightarrow> empty_store)"

lemma demo_draft: "demo_run [demo_born] = Inr demo_draft"
proof -
  have "is_ok (demo_run [demo_born])" by code_simp
  then show ?thesis by (auto simp: demo_draft_def split: sum.splits)
qed

lemma demo_offered: "\<exists>row st' b. emit_event demo_ee False None None demo_offer demo_draft = Inr (row, False, st')
    \<and> item_state (st_table demo_draft) ''c'' (PStr ''e'') = Some b \<and> is_draft b"
proof -
  have "case rbind (demo_run [demo_born]) (\<lambda>st. demo_write st demo_offer) of Inr (again, Some b, Some _) \<Rightarrow> \<not> again \<and> is_draft b | _ \<Rightarrow> False"
    by code_simp
  then obtain b a where "demo_write demo_draft demo_offer = Inr (False, Some b, Some a)" "is_draft b"
    by (auto simp: demo_draft split: sum.splits option.splits)
  then obtain row st' where "emit_event demo_ee False None None demo_offer demo_draft = Inr (row, False, st')"
    "item_state (st_table demo_draft) ''c'' (PStr ''e'') = Some b"
    by (elim demo_writeE) (simp add: demo_offer_def demo_event_def)
  then show ?thesis using \<open>is_draft b\<close> by blast
qed

lemma ledger_explains_rows_witness:
  "\<exists>st. emitted demo_ee st \<and> st_table st \<noteq> [] \<and> (\<exists>db. rebuild (ee_env demo_ee) (\<lambda>_. True) [''c''] (map plain_entry (st_ledger st)) (st_table st) = Inr db
     \<and> (\<forall>k. map_of db k = map_of (st_table st) k))"
proof -
  have "emitted demo_ee demo_draft" by (rule demo_run_emitted [OF demo_draft])
  moreover have "st_table demo_draft \<noteq> []" using demo_offered by (auto simp: state_of_kind_def)
  ultimately show ?thesis
    using ledger_explains_rows [of demo_ee demo_draft "\<lambda>_. True" "[''c'']"] by (intro exI [of _ demo_draft]) simp
qed

lemma ledger_stays_sound_witness: "\<exists>st. demo_run [demo_born] = Inr st \<and> sound_ledger (st_ledger st)"
  using ledger_stays_sound [OF demo_run_emitted [OF demo_draft]] demo_draft by blast

lemma rows_conform_witness:
  "\<exists>p r. map_of (st_table demo_draft) (''c'', ''e'') = Some p \<and> conforms (ee_env demo_ee) p
     \<and> newest_of (st_ledger demo_draft) (''c'', ''e'') r \<and> p_version p = e_id r"
proof -
  obtain p where p: "map_of (st_table demo_draft) (''c'', ''e'') = Some p"
    using demo_offered by (auto simp: state_of_kind_def split: option.splits)
  from rows_conform [OF demo_run_emitted [OF demo_draft] p] p show ?thesis by blast
qed

lemma drafts_do_not_circulate_witness:
  "\<exists>row st' a. emit_event demo_ee False None None demo_offer demo_draft = Inr (row, False, st')
     \<and> item_state (st_table st') ''c'' (PStr ''e'') = Some a \<and> (is_draft a \<or> is_deleted a \<or> status_lower a = ''available'')"
proof -
  from demo_offered obtain row st' b where e: "emit_event demo_ee False None None demo_offer demo_draft = Inr (row, False, st')"
    and b: "item_state (st_table demo_draft) ''c'' (PStr ''e'') = Some b" "is_draft b" by blast
  from drafts_do_not_circulate [OF e] b e show ?thesis by (fastforce simp: demo_offer_def demo_event_def)
qed

text \<open>The key of the birth used again for another event.\<close>

definition demo_again :: event_write where
  "demo_again = demo_event ''item'' ''item.status.set'' [(''new_status'', PStr ''available'')] ''k1''"

lemma key_names_one_event_witness:
  "\<exists>row again st'. emit_event demo_ee False None None demo_again demo_draft = Inr (row, again, st')
     \<and> again \<and> st_ledger st' = st_ledger demo_draft \<and> st_table st' = st_table demo_draft"
proof -
  have "is_ok (rbind (demo_run [demo_born]) (\<lambda>st. demo_write st demo_again))" by code_simp
  then obtain row again st' where a: "emit_event demo_ee False None None demo_again demo_draft = Inr (row, again, st')"
    by (cases "emit_event demo_ee False None None demo_again demo_draft") (auto simp: demo_draft demo_write_def)
  from demo_draft obtain row0 again0 where "emit_event demo_ee False None None demo_born empty_store = Inr (row0, again0, demo_draft)"
    by (auto simp: demo_run_def rbind_eq_Inr rmap_eq_Inr)
  from key_names_one_event [OF this _ rtranclp.rtrancl_refl a, of "''k1''"]
  have "again \<and> st_ledger st' = st_ledger demo_draft \<and> st_table st' = st_table demo_draft"
    by (simp add: demo_again_def demo_born_def demo_event_def)
  with a show ?thesis by blast
qed

text \<open>An invoice paid by card through Stripe and in cash.\<close>

definition card_payment :: dict where
  "card_payment = [(''index'', PInt 0), (''amount'', PInt 4), (''status'', PStr ''active''), (''method'', PStr ''stripe''), (''reference'', PStr ''pi'')]"

definition paid_store :: store where
  "paid_store = \<lparr>st_ledger = [\<lparr>e_id = 1, e_company = ''c'', e_entity = ''e'', e_kind = ''doc'', e_type = ''doc.payment.received'',
       e_data = [(''reference'', PStr ''pi''), (''stripe_managed'', PBool True)], l_source = Some ''stripe'', l_idem = None, l_meta = []\<rparr>],
     st_table = [((''c'', ''e''), \<lparr>p_kind = ''doc'', p_state = [(''doc_type'', PStr ''invoice''), (''status'', PStr ''paid''), (''total'', PInt 10),
         (''amount_paid'', PInt 10), (''payments'', PList [PDict card_payment,
            PDict [(''index'', PInt 1), (''amount'', PInt 6), (''status'', PStr ''active''), (''method'', PStr ''cash'')]])],
       p_version = 1, p_location = Raw PNone, p_expires = Raw PNone, p_flags = []\<rparr>)], st_unmatched = [], st_named = 0\<rparr>"

definition void_cash :: event_write where
  "void_cash = demo_event ''doc'' ''doc.payment.voided'' [(''payment_index'', PInt 1)] ''v''"

lemma stripe_money_stays_witness:
  "\<exists>row st' a. emit_event demo_ee False None None void_cash paid_store = Inr (row, False, st')
     \<and> state_of_kind (st_table st') ''c'' ''doc'' (PStr ''e'') = Some a \<and> payment_at a 0 card_payment"
proof -
  have "case demo_write paid_store void_cash of Inr (again, Some _, _) \<Rightarrow> \<not> again | _ \<Rightarrow> False" by code_simp
  then obtain row st' where e: "emit_event demo_ee False None None void_cash paid_store = Inr (row, False, st')"
    by (auto simp: demo_write_def rmap_eq_Inr split: sum.splits option.splits prod.splits)
  define b where "b = [(''doc_type'', PStr ''invoice''), (''status'', PStr ''paid''), (''total'', PInt 10),
         (''amount_paid'', PInt 10), (''payments'', PList [PDict card_payment,
            PDict [(''index'', PInt 1), (''amount'', PInt 6), (''status'', PStr ''active''), (''method'', PStr ''cash'')]])]"
  have "state_of_kind (st_table paid_store) (w_company void_cash) ''doc'' (PStr (w_entity void_cash)) = Some b"
    "w_kind void_cash = ''doc''" "List.member PAYMENT_REMOVAL_EVENTS (w_type void_cash)" "w_type void_cash = ''doc.payment.voided''"
    "payment_at b 0 card_payment"
    by (simp_all add: void_cash_def demo_event_def PAYMENT_REMOVAL_EVENTS_def paid_store_def state_of_kind_def b_def payment_at_def dget_def dget_or_def)
  moreover have "stripe_holds paid_store void_cash card_payment" by code_simp
  ultimately show ?thesis using stripe_money_stays [OF e, of b 0 card_payment] e demo_handlers(1)
    by (auto simp: void_cash_def demo_event_def)
qed

end
