(* ===== verification/LotAccount.thy ===== *)
theory LotAccount
  imports EmitFacts
begin

text \<open>
  The inventory account a lot records when its stock is booked: every step of the item projection
  keeps it but the ones that record it, move it or write the field by name (\<open>account_kept\<close>), so an
  accepted event changes a recorded account only as a move, or in the two ways the lock does not
  look at: a price set under its name, and an edit that carries the field twice, whole with the value
  it has and as a change with another (\<open>written_field\<close> reads the first, \<open>item_updated\<close> the second).
\<close>

named_theorems account_kept "steps of the item projection that keep the inventory account"

abbreviation account :: "dict \<Rightarrow> pyval" where "account d \<equiv> dget d LOT_ACCOUNT_FIELD"

section \<open>Steps that keep the account\<close>

lemma account_simps [simp]:
  "LOT_ACCOUNT_FIELD \<noteq> k \<Longrightarrow> account (dput k v d) = account d"
  "LOT_ACCOUNT_FIELD \<noteq> k \<Longrightarrow> account (ddel k d) = account d"
  "LOT_ACCOUNT_FIELD \<noteq> k \<Longrightarrow> account (dsetdefault k v d) = account d"
  by simp_all

lemma account_field [simp]: "(LOT_ACCOUNT_FIELD = k) = (k = ''inventory_account_code'')"
  "(k = LOT_ACCOUNT_FIELD) = (k = ''inventory_account_code'')"
  by (auto simp: LOT_ACCOUNT_FIELD_def)

lemma account_core: "is_core_item_key LOT_ACCOUNT_FIELD"
  by (simp add: is_core_item_key_def CORE_ITEM_KEYS_def)

lemma account_stamp [simp]: "account (stamp_status_doc d data) = account d"
  by (auto simp: stamp_status_doc_def Let_def)

lemma account_on_books [simp]: "account (keep_on_books b a et data) = account a"
  by (auto simp: keep_on_books_def Let_def ON_BOOKS_FIELD_def)

lemma account_put_pools [simp]: "account (put_pools ps d) = account d"
  by (simp add: put_pools_def)

lemma account_put_status [simp]: "account (put_status s d) = account d"
  by (simp add: put_status_def)

lemma account_set_unknown [simp]: "account (set_unknown d data) = account d"
  by (auto simp: set_unknown_def GOODS_COST_UNKNOWN_def split: option.splits)

lemma account_flag [simp]: "account (copy_consignment_flag data d) = account d"
  by (auto simp: copy_consignment_flag_def split: option.splits)

lemma account_units [account_kept]: "landed_pools_from_units d = Inr d' \<Longrightarrow> account d' = account d"
  by (auto simp: landed_pools_from_units_def Let_def rbind_eq_Inr split: if_splits)

lemma account_pools [account_kept]: "set_landed_pools d ps = Inr d' \<Longrightarrow> account d' = account d"
  by (auto simp: set_landed_pools_def rbind_eq_Inr)

lemma account_derive [account_kept]: "derive_cost d = Inr d' \<Longrightarrow> account d' = account d"
  by (auto simp: derive_cost_def rbind_eq_Inr)

lemma account_recompute [account_kept]: "recompute_cost d = Inr d' \<Longrightarrow> account d' = account d"
  by (auto simp: recompute_cost_def Let_def rbind_eq_Inr dest!: account_derive split: if_splits)

lemma account_goods_cost [account_kept]: "apply_goods_cost d f v u = Inr d' \<Longrightarrow> account d' = account d"
  by (auto simp: apply_goods_cost_def Let_def rbind_eq_Inr rmap_eq_Inr GOODS_COST_UNKNOWN_def dest!: account_recompute split: if_splits)

lemma account_scale [account_kept]: "scale_cost d ps own old q = Inr (d', ps') \<Longrightarrow> account d' = account d"
  by (auto simp: scale_cost_def Let_def rbind_eq_Inr rmap_eq_Inr split: if_splits)

lemma account_quantity [account_kept]: "set_quantity d q b l = Inr d' \<Longrightarrow> account d' = account d"
  by (auto simp: set_quantity_def rbind_eq_Inr rmap_eq_Inr dest!: account_recompute account_pools account_scale split: if_splits)

lemma account_expiry [account_kept]: "sync_expiry d = Inr d' \<Longrightarrow> account d' = account d"
  unfolding sync_expiry_def Let_def by (elim rbindE) (auto split: if_splits pyval.splits)

lemma account_sell_by [account_kept]: "migrate_sell_by d = Inr d' \<Longrightarrow> account d' = account d"
  by (auto simp: migrate_sell_by_def Let_def rbind_eq_Inr rmap_eq_Inr split: if_splits)

lemma account_settle [account_kept]: "settle_item d = Inr d' \<Longrightarrow> account d' = account d"
  by (auto simp: settle_item_def rbind_eq_Inr dest!: account_recompute account_expiry account_sell_by)

lemma account_attribute [account_kept]: "set_attribute c k v d = Inr d' \<Longrightarrow> k \<noteq> LOT_ACCOUNT_FIELD \<Longrightarrow> account d' = account d"
  by (auto simp: set_attribute_def rbind_eq_Inr)

lemma account_moved: "LOT_ACCOUNT_FIELD \<notin> set ks \<Longrightarrow> account (fst (foldl move_attribute st ks)) = account (fst st)"
  by (induction ks arbitrary: st) (auto simp: move_attribute_def Let_def split: prod.splits)

lemma account_normalize [account_kept]: "normalize_attributes d = Inr d' \<Longrightarrow> account d' = account d"
proof -
  have "LOT_ACCOUNT_FIELD \<notin> set (movable_keys d)" using account_core by (simp add: movable_not_in)
  then have moved: "account (fst (foldl move_attribute (d, a) (movable_keys d))) = account d" for a
    by (simp add: account_moved)
  assume n: "normalize_attributes d = Inr d'"
  show "account d' = account d"
  proof (cases "movable_keys d = []")
    case False
    with n obtain a where "d' = dput ''attributes'' (PDict (snd (foldl move_attribute (d, a) (movable_keys d))))
        (fst (foldl move_attribute (d, a) (movable_keys d)))"
      by (auto simp: normalize_attributes_def Let_def rbind_eq_Inr case_prod_beta)
    then show ?thesis using moved by simp
  qed (use n in \<open>simp add: normalize_attributes_def\<close>)
qed

lemma account_alias [account_kept]: "keep_sku_alias d c = Inr d' \<Longrightarrow> account d' = account d"
  by (auto simp: keep_sku_alias_def Let_def rbind_eq_Inr split: if_splits)

lemma account_migrated [account_kept]: "maybe_migrate_attachments d = Inr d' \<Longrightarrow> account d' = account d"
  by (auto simp: maybe_migrate_attachments_def Let_def rbind_eq_Inr split: if_splits)

lemma account_append [account_kept]: "dappend k v d = Inr d' \<Longrightarrow> k \<noteq> LOT_ACCOUNT_FIELD \<Longrightarrow> account d' = account d"
  by (auto simp: dappend_Inr)

section \<open>Handlers that keep the account\<close>

definition ACCOUNT_WRITERS :: "string list" where
  "ACCOUNT_WRITERS = [''item.created'', ''item.snapshot'', ''item.updated'', ''item.patched'', ''item.pricing.set'',
     ''item.inventory_account.recorded'', ''item.inventory_account.moved'', ''item.consignment.bought'']"

lemma account_handlers:
  "item_status_set d x = Inr d' \<Longrightarrow> account d' = account d" "item_transferred d x = Inr d' \<Longrightarrow> account d' = account d"
  "item_quantity_adjusted d x = Inr d' \<Longrightarrow> account d' = account d" "item_cost_adjusted d x = Inr d' \<Longrightarrow> account d' = account d"
  "item_consignor_recorded d x = Inr d' \<Longrightarrow> account d' = account d" "item_unchanged d x = Inr d' \<Longrightarrow> account d' = account d"
  "item_landed_allocated d x = Inr d' \<Longrightarrow> account d' = account d" "item_landed_applied d x = Inr d' \<Longrightarrow> account d' = account d"
  "item_retired et d x = Inr d' \<Longrightarrow> account d' = account d" "item_written_off d x = Inr d' \<Longrightarrow> account d' = account d"
  "item_returned_to_supplier d x = Inr d' \<Longrightarrow> account d' = account d" "item_supplier_return_undone d x = Inr d' \<Longrightarrow> account d' = account d"
  "item_split d x = Inr d' \<Longrightarrow> account d' = account d" "item_source_deactivated d x = Inr d' \<Longrightarrow> account d' = account d"
  "item_unmerged d x = Inr d' \<Longrightarrow> account d' = account d" "item_merge_undone d x = Inr d' \<Longrightarrow> account d' = account d"
  "item_consumed d x = Inr d' \<Longrightarrow> account d' = account d" "item_produced d x = Inr d' \<Longrightarrow> account d' = account d"
  "item_reserved d x = Inr d' \<Longrightarrow> account d' = account d" "item_unreserved d x = Inr d' \<Longrightarrow> account d' = account d"
  by (auto simp: item_status_set_def item_transferred_def item_quantity_adjusted_def item_cost_adjusted_def item_consignor_recorded_def
      item_unchanged_def item_landed_allocated_def item_landed_applied_def put_landed_def item_retired_def item_written_off_def
      item_returned_to_supplier_def item_supplier_return_undone_def item_split_def item_source_deactivated_def item_unmerged_def
      item_merge_undone_def item_consumed_def item_produced_def item_reserved_def item_unreserved_def add_float_def
      CONSIGNOR_FIELD_def CONSIGNOR_PAYABLE_FIELD_def Let_def rbind_eq_Inr rmap_eq_Inr dest!: account_kept split: if_splits)

lemma account_named: "k \<noteq> LOT_ACCOUNT_FIELD \<Longrightarrow> item_link k dk d x = Inr d' \<Longrightarrow> account d' = account d"
  "k \<noteq> LOT_ACCOUNT_FIELD \<Longrightarrow> item_replace k d x = Inr d' \<Longrightarrow> account d' = account d"
  by (auto simp: item_link_def item_replace_def rmap_eq_Inr)

lemma account_fulfilled: "item_fulfilled d x = Inr d' \<Longrightarrow> account d' = account d"
  by (auto simp: item_fulfilled_def rbind_eq_Inr Let_def dappend_Inr)

lemma account_reversed: "item_fulfillment_reversed d x = Inr d' \<Longrightarrow> account d' = account d"
  unfolding item_fulfillment_reversed_def Let_def by (elim rbindE) (auto simp: case_PList_Inr split: if_splits)

lemma account_file_attached: "item_file_attached d x = Inr d' \<Longrightarrow> account d' = account d"
  unfolding item_file_attached_def Let_def
  by (elim rbindE) (auto simp: rbind_eq_Inr dappend_Inr dest!: account_migrated split: if_splits option.splits)

lemma account_file_field: "set_files_field k d x = Inr d' \<Longrightarrow> account d' = account d"
  by (auto simp: set_files_field_def rbind_eq_Inr)

lemma account_file_hero: "item_file_hero_set d x = Inr d' \<Longrightarrow> account d' = account d"
  unfolding item_file_hero_set_def Let_def
  by (elim rbindE) (auto simp: rmap_eq_Inr split: option.splits)

lemma account_file_deleted: "item_file_deleted d x = Inr d' \<Longrightarrow> account d' = account d"
  unfolding item_file_deleted_def Let_def
  by (elim rbindE) (auto simp: rbind_eq_Inr rmap_eq_Inr split: option.splits if_splits)

lemma account_pricing: "item_pricing_set d x = Inr d' \<Longrightarrow> dget x ''price_type'' \<noteq> PStr LOT_ACCOUNT_FIELD \<Longrightarrow> account d' = account d"
  unfolding item_pricing_set_def
  by (elim rbindE) (auto simp: dkey_Inr dget_Some dest!: account_goods_cost split: pyval.splits if_splits)

definition keeps_account :: "(dict \<Rightarrow> dict \<Rightarrow> dict res) \<Rightarrow> bool" where
  "keeps_account h \<longleftrightarrow> (\<forall>d x d'. h d x = Inr d' \<longrightarrow> account d' = account d)"

lemma keeps_account [simp]:
  "keeps_account item_status_set" "keeps_account item_transferred" "keeps_account item_quantity_adjusted"
  "keeps_account item_cost_adjusted" "keeps_account item_consignor_recorded" "keeps_account item_unchanged"
  "keeps_account item_landed_allocated" "keeps_account item_landed_applied" "keeps_account (item_retired et)"
  "keeps_account item_written_off" "keeps_account item_returned_to_supplier" "keeps_account item_supplier_return_undone"
  "keeps_account item_split" "keeps_account item_source_deactivated" "keeps_account item_unmerged"
  "keeps_account item_merge_undone" "keeps_account item_consumed" "keeps_account item_produced"
  "keeps_account item_reserved" "keeps_account item_unreserved" "keeps_account item_fulfilled"
  "keeps_account item_fulfillment_reversed" "keeps_account item_file_attached" "keeps_account (set_files_field k)"
  "keeps_account item_file_hero_set" "keeps_account item_file_deleted"
  by (auto simp: keeps_account_def account_handlers account_fulfilled account_reversed account_file_attached account_file_field
      account_file_hero account_file_deleted)

lemma keeps_account_named [simp]:
  "k \<noteq> LOT_ACCOUNT_FIELD \<Longrightarrow> keeps_account (item_link k dk)" "k \<noteq> LOT_ACCOUNT_FIELD \<Longrightarrow> keeps_account (item_replace k)"
  by (auto simp: keeps_account_def account_named)

lemma handlers_keep_account: "list_all (\<lambda>(et, h). List.member ACCOUNT_WRITERS et \<or> keeps_account h) item_handlers"
  by (simp add: item_handlers_def ACCOUNT_WRITERS_def)

lemma account_other_handlers:
  assumes "map_of item_handlers et = Some h" "et \<notin> set ACCOUNT_WRITERS" "h d x = Inr d'"
  shows "account d' = account d"
proof -
  have "(et, h) \<in> set item_handlers" using assms(1) by (rule map_of_SomeD)
  then have "keeps_account h" using handlers_keep_account assms(2) by (auto simp: list_all_iff)
  then show ?thesis using assms(3) by (simp add: keeps_account_def)
qed

section \<open>Edits that write the account back\<close>

lemma not_blank: "py_eq v cur \<Longrightarrow> truthy cur \<Longrightarrow> \<not> blank v"
  by (auto simp: blank_def)

lemma account_update_field:
  assumes "update_item_field (d, cs) (f, c) = Inr (d', cs')" "py_eq (account d) cur" "truthy cur"
    and "f = LOT_ACCOUNT_FIELD \<Longrightarrow> vget c ''new'' = Inr nv \<Longrightarrow> py_eq nv cur" "vget c ''new'' = Inr nv"
  shows "py_eq (account d') cur"
proof (cases "f = LOT_ACCOUNT_FIELD")
  case True
  then have "d' = dput LOT_ACCOUNT_FIELD nv d"
    using assms not_blank [OF assms(4) [OF True assms(5)] assms(3)] account_core
    by (auto simp: update_item_field_def Let_def LOT_ACCOUNT_FIELD_def)
  then show ?thesis using assms(4) [OF True assms(5)] by (simp add: LOT_ACCOUNT_FIELD_def)
next
  case False
  then have "account d' = account d" using assms(1,5)
    by (auto simp: update_item_field_def Let_def rmap_eq_Inr dest!: account_attribute split: if_splits)
  then show ?thesis using assms(2) by simp
qed

lemma account_updated_fields:
  assumes "foldR update_item_field (d, cs) changed = Inr (d', cs')" "py_eq (account d) cur" "truthy cur"
    and "\<And>c nv. (LOT_ACCOUNT_FIELD, c) \<in> set changed \<Longrightarrow> vget c ''new'' = Inr nv \<Longrightarrow> py_eq nv cur"
  shows "py_eq (account d') cur"
  using assms
proof (induction changed arbitrary: d cs)
  case (Cons x changed)
  obtain f c where x: "x = (f, c)" by (cases x)
  from Cons.prems(1) obtain d1 cs1 where s: "update_item_field (d, cs) (f, c) = Inr (d1, cs1)"
    and rest: "foldR update_item_field (d1, cs1) changed = Inr (d', cs')" by (auto simp: x rbind_eq_Inr)
  from s obtain nv where "vget c ''new'' = Inr nv" by (auto simp: update_item_field_def Let_def rbind_eq_Inr)
  then have "py_eq (account d1) cur" using account_update_field [OF s] Cons.prems by (auto simp: x)
  from Cons.IH [OF rest this] Cons.prems show ?case by auto
qed simp

text \<open>What an edit's change writes: a blank value clears the field.\<close>

definition change_writes :: "pyval \<Rightarrow> pyval" where
  "change_writes c = (case vget c ''new'' of Inr v \<Rightarrow> if blank v then PNone else v | Inl _ \<Rightarrow> PNone)"

lemma account_update_exact:
  assumes "update_item_field (d, cs) (f, c) = Inr (d', cs')"
  shows "account d' = (if f = LOT_ACCOUNT_FIELD then change_writes c else account d)"
proof -
  obtain v where v: "vget c ''new'' = Inr v" using assms by (auto simp: update_item_field_def Let_def rbind_eq_Inr)
  show ?thesis
  proof (cases "f = LOT_ACCOUNT_FIELD")
    case True
    then have "d' = (if blank v then ddel LOT_ACCOUNT_FIELD d else dput LOT_ACCOUNT_FIELD v d)"
      using assms v account_core by (auto simp: update_item_field_def Let_def LOT_ACCOUNT_FIELD_def)
    then show ?thesis using v True by (auto simp: change_writes_def)
  next
    case False
    then show ?thesis using assms v
      by (auto simp: update_item_field_def Let_def rmap_eq_Inr dest!: account_attribute split: if_splits)
  qed
qed

lemma account_updated_exact:
  "foldR update_item_field (d, cs) changed = Inr (d', cs') \<Longrightarrow> distinct (map fst changed)
     \<Longrightarrow> account d' = (case map_of changed LOT_ACCOUNT_FIELD of None \<Rightarrow> account d | Some c \<Rightarrow> change_writes c)"
proof (induction changed arbitrary: d cs)
  case (Cons x changed)
  obtain f c where x: "x = (f, c)" by (cases x)
  from Cons.prems(1) obtain d1 cs1 where s: "update_item_field (d, cs) (f, c) = Inr (d1, cs1)"
    and rest: "foldR update_item_field (d1, cs1) changed = Inr (d', cs')" by (auto simp: x rbind_eq_Inr)
  have "account d' = (case map_of changed LOT_ACCOUNT_FIELD of None \<Rightarrow> account d1 | Some c \<Rightarrow> change_writes c)"
    using Cons.IH [OF rest] Cons.prems(2) by simp
  moreover have "f = LOT_ACCOUNT_FIELD \<Longrightarrow> map_of changed LOT_ACCOUNT_FIELD = None"
    using Cons.prems(2) by (simp add: x map_of_eq_None_iff del: account_field)
  ultimately show ?case using account_update_exact [OF s] by (auto simp: x split: option.splits)
qed simp

lemma account_costs: "foldR (\<lambda>c (f, v). apply_goods_cost c f v u) d cs = Inr d' \<Longrightarrow> account d' = account d"
  by (induction cs arbitrary: d) (auto simp: rbind_eq_Inr dest!: account_goods_cost)

lemma account_updated:
  assumes "item_updated d data = Inr d'" "py_eq (account d) cur" "truthy cur"
    and "\<And>c nv. (LOT_ACCOUNT_FIELD, c) \<in> set (changed_fields data) \<Longrightarrow> vget c ''new'' = Inr nv \<Longrightarrow> py_eq nv cur"
  shows "py_eq (account d') cur"
proof -
  from assms(1) obtain changed c1 c2 costs c3 c4 where ch: "dkey data ''fields_changed'' = Inr (PDict changed)"
    and c1: "keep_sku_alias d (dget changed ''sku'') = Inr c1"
    and c2: "foldR update_item_field (c1, []) changed = Inr (c2, costs)"
    and c3: "foldR (\<lambda>c (f, v). apply_goods_cost c f v (dget data GOODS_COST_UNKNOWN)) c2 costs = Inr c3"
    and c4: "sync_expiry c3 = Inr c4" "recompute_cost c4 = Inr d'"
    unfolding item_updated_def by (auto elim!: rbindE simp: as_dict_Inr)
  have "set (changed_fields data) = set changed" using ch by (simp add: changed_fields_def dkey_Inr dget_Some)
  then have "py_eq (account c2) cur"
    using account_updated_fields [OF c2] account_alias [OF c1] assms(2-4) by auto
  then show ?thesis using account_costs [OF c3] account_expiry [OF c4(1)] account_recompute [OF c4(2)] by simp
qed

lemma account_edited:
  assumes "item_updated d data = Inr d'" "distinct (map fst (changed_fields data))" "map_of (changed_fields data) LOT_ACCOUNT_FIELD = Some c"
  shows "account d' = change_writes c"
proof -
  from assms(1) obtain changed c1 c2 costs c3 c4 where ch: "dkey data ''fields_changed'' = Inr (PDict changed)"
    and c2: "foldR update_item_field (c1, []) changed = Inr (c2, costs)"
    and c3: "foldR (\<lambda>c (f, v). apply_goods_cost c f v (dget data GOODS_COST_UNKNOWN)) c2 costs = Inr c3"
    and c4: "sync_expiry c3 = Inr c4" "recompute_cost c4 = Inr d'"
    unfolding item_updated_def by (auto elim!: rbindE simp: as_dict_Inr)
  have "changed_fields data = changed" using ch by (simp add: changed_fields_def dkey_Inr dget_Some)
  then have "account c2 = change_writes c" using account_updated_exact [OF c2] assms(2,3) by simp
  then show ?thesis using account_costs [OF c3] account_expiry [OF c4(1)] account_recompute [OF c4(2)] by simp
qed

lemma account_patched:
  assumes "item_patched d data = Inr d'" "distinct (map fst data)" "py_eq (account d) cur"
    and "\<And>v. map_of data LOT_ACCOUNT_FIELD = Some v \<Longrightarrow> py_eq v cur"
  shows "py_eq (account d') cur"
proof -
  from assms(1) obtain c2 c3 where c2: "c2 = dmerge d data \<or> c2 = stamp_status_doc (dmerge d data) []"
    and c3: "normalize_attributes c2 = Inr c3" "settle_item c3 = Inr d'"
    unfolding item_patched_def Let_def by (auto elim!: rbindE split: if_splits)
  have "account c2 = account (dmerge d data)" using c2 by auto
  moreover have "py_eq (account (dmerge d data)) cur"
    using assms(3,4) by (auto simp: dget_def dget_or_def map_of_dmerge_distinct [OF assms(2)] split: option.splits)
  ultimately show ?thesis using account_normalize [OF c3(1)] account_settle [OF c3(2)] by simp
qed

section \<open>Accepted events\<close>

lemma guard_item_account:
  "guard_item ee preserve st w = Inr data \<Longrightarrow>
     record_lot_account (ee_settings ee) w (item_state (st_table st) (w_company w) (PStr (w_entity w))) = Inr data"
  by (auto simp: guard_item_def Let_def elim!: rbindE)

lemma written_back:
  assumes "record_lot_account settings w (Some b) = Inr data" "truthy (account b)" "w_type w \<noteq> ''item.inventory_account.moved''"
  shows "data = w_data w" "w_type w \<noteq> ''item.inventory_account.recorded''" "w_type w \<noteq> ''item.consignment.bought''"
    "written_field LOT_ACCOUNT_FIELD (w_data w) = Some v \<Longrightarrow> py_eq v (account b)"
  using assms by (auto simp: record_lot_account_def Let_def rmap_eq_Inr refuse_rewrite_def split: if_splits)

text \<open>The account an edit writes past the lock: the event carries the field whole, which is what the
  lock compares with the account there is, and as a change, which is what the edit writes.\<close>

definition rewritten_account :: "event_write \<Rightarrow> pyval option" where
  "rewritten_account w =
     (if w_type w = ''item.updated'' \<and> dhas (w_data w) LOT_ACCOUNT_FIELD
      then map_option change_writes (map_of (changed_fields (w_data w)) LOT_ACCOUNT_FIELD) else None)"

text \<open>C14: once a lot records the inventory account its value is booked in, no recorded event changes it but
  a move, a price set under the field's own name, or an edit that carries the field twice: whole, with
  the account the lot has, and as a change, whose value is then the account.\<close>

theorem recorded_account_stays:
  assumes "emit_event ee preserve draw carved w st = Inr (row, False, st')" "w_kind w = ''item''"
    and "replay_handler (ee_env ee) (w_type w) = Some apply_item_event"
    and "item_state (st_table st) (w_company w) (PStr (w_entity w)) = Some b" "truthy (account b)"
    and "w_type w \<noteq> ''item.inventory_account.moved''"
    and "w_type w = ''item.pricing.set'' \<longrightarrow> dget (w_data w) ''price_type'' \<noteq> PStr LOT_ACCOUNT_FIELD"
    and "distinct (map fst (w_data w))" "distinct (map fst (changed_fields (w_data w)))"
  shows "\<exists>a. item_state (st_table st') (w_company w) (PStr (w_entity w)) = Some a
    \<and> (case rewritten_account w of None \<Rightarrow> py_eq (account a) (account b) | Some v \<Rightarrow> account a = v)"
proof -
  from record_written [OF assms(1,2,4)] obtain data a where g: "guard_item ee preserve st w = Inr data"
    and i: "item_applied ee carved w (st_table st') \<lparr>t_before = Some b, t_after = a\<rparr> = Inr ()"
    and e: "engine_apply (ee_env ee) b (w_type w) data = Inr a"
    and a: "item_state (st_table st') (w_company w) (PStr (w_entity w)) = Some a" by blast
  have l: "record_lot_account (ee_settings ee) w (Some b) = Inr data" using guard_item_account [OF g] by (simp add: assms(4))
  note again = written_back [OF l assms(5,6)]
  have birth: "w_type w \<notin> set ITEM_BIRTHS" using item_applied_rule [OF i] by simp
  from e assms(3) obtain c h a0 where c: "landed_pools_from_units b = Inr c" and h: "map_of item_handlers (w_type w) = Some h" "h c (w_data w) = Inr a0"
    and a0: "a = keep_on_books b a0 (w_type w) (w_data w)"
    by (auto simp: engine_apply_def apply_item_event_def apply_item_event0_def rbind_eq_Inr rmap_eq_Inr again(1) split: option.splits)
  note cur = account_units [OF c]
  have "case rewritten_account w of None \<Rightarrow> py_eq (account a0) (account b) | Some v \<Rightarrow> account a0 = v"
  proof (cases "w_type w \<in> set ACCOUNT_WRITERS")
    case False
    then have "rewritten_account w = None" by (auto simp: rewritten_account_def ACCOUNT_WRITERS_def)
    then show ?thesis using account_other_handlers [OF h(1) False h(2)] cur by simp
  next
    case True
    then consider "w_type w = ''item.updated''" | "w_type w = ''item.patched''" | "w_type w = ''item.pricing.set''"
      using birth again(2,3) assms(6) by (auto simp: ACCOUNT_WRITERS_def ITEM_BIRTHS_def)
    then show ?thesis
    proof cases
      case 1
      have u: "item_updated c (w_data w) = Inr a0" using h 1 by (simp add: item_handlers_def)
      show ?thesis
      proof (cases "rewritten_account w")
        case (Some v)
        then obtain x where "map_of (changed_fields (w_data w)) LOT_ACCOUNT_FIELD = Some x" "v = change_writes x"
          by (auto simp: rewritten_account_def split: if_splits)
        then show ?thesis using account_edited [OF u assms(9)] Some by simp
      next
        case None
        have "py_eq nv (account b)" if x: "(LOT_ACCOUNT_FIELD, x) \<in> set (changed_fields (w_data w))" and nv: "vget x ''new'' = Inr nv" for x nv
        proof -
          have m: "map_of (changed_fields (w_data w)) LOT_ACCOUNT_FIELD = Some x" using assms(9) x by simp
          then have "map_of (w_data w) LOT_ACCOUNT_FIELD = None" using None 1 m
            by (simp add: rewritten_account_def split: if_splits)
          then have "written_field LOT_ACCOUNT_FIELD (w_data w) = Some nv" using m nv
            by (auto simp: written_field_def changed_fields_def vget_def split: pyval.splits)
          then show ?thesis by (rule again(4))
        qed
        then have "py_eq (account a0) (account b)" using account_updated [OF u] assms(5) cur by (metis py_eq_refl)
        then show ?thesis using None by simp
      qed
    next
      case 2
      then have "item_patched c (w_data w) = Inr a0" using h by (simp add: item_handlers_def)
      then have "py_eq (account a0) (account b)"
        by (rule account_patched [OF _ assms(8)]) (use again(4) cur in \<open>auto simp: written_field_def\<close>)
      then show ?thesis using 2 by (simp add: rewritten_account_def)
    next
      case 3
      then have "item_pricing_set c (w_data w) = Inr a0" using h by (simp add: item_handlers_def)
      then show ?thesis using account_pricing [of c "w_data w" a0] assms(7) 3 cur by (simp add: rewritten_account_def)
    qed
  qed
  then show ?thesis using a a0 by (auto split: option.splits)
qed

text \<open>C40: an accepted price set under the name of the account field replaces the account a lot is booked
  on by the price: the lock on the account does not look at it.\<close>

theorem price_event_moves_account:
  assumes "emit_event ee preserve draw carved w st = Inr (row, False, st')" "w_kind w = ''item''"
    and "replay_handler (ee_env ee) (w_type w) = Some apply_item_event"
    and "item_state (st_table st) (w_company w) (PStr (w_entity w)) = Some b" "truthy (account b)"
    and "w_type w = ''item.pricing.set''" "dget (w_data w) ''price_type'' = PStr LOT_ACCOUNT_FIELD"
  shows "\<exists>a. item_state (st_table st') (w_company w) (PStr (w_entity w)) = Some a \<and> account a = dget (w_data w) ''new_price''"
proof -
  from record_written [OF assms(1,2,4)] obtain data a where g: "guard_item ee preserve st w = Inr data"
    and e: "engine_apply (ee_env ee) b (w_type w) data = Inr a"
    and a: "item_state (st_table st') (w_company w) (PStr (w_entity w)) = Some a" by blast
  have l: "record_lot_account (ee_settings ee) w (Some b) = Inr data" using guard_item_account [OF g] by (simp add: assms(4))
  have "data = w_data w" using written_back(1) [OF l assms(5)] assms(6) by simp
  with e assms(3) obtain c a0 where "item_pricing_set c (w_data w) = Inr a0" and a0: "a = keep_on_books b a0 (w_type w) (w_data w)"
    using assms(6) by (auto simp: engine_apply_def apply_item_event_def apply_item_event0_def item_handlers_def rbind_eq_Inr rmap_eq_Inr)
  then have "account a0 = dget (w_data w) ''new_price''" using assms(7)
    unfolding item_pricing_set_def by (auto elim!: rbindE simp: dkey_Inr dget_Some LOT_ACCOUNT_FIELD_def)
  then show ?thesis using a a0 by auto
qed

section \<open>Witnesses\<close>

definition demo_rename :: event_write where
  "demo_rename = demo_event ''item'' ''item.updated''
     [(''fields_changed'', PDict [(''name'', PDict [(''new'', PStr ''Ring'')]), (''inventory_account_code'', PDict [(''new'', PStr ''1300'')])])] ''k2''"

definition demo_price :: event_write where
  "demo_price = demo_event ''item'' ''item.pricing.set''
     [(''price_type'', PStr ''inventory_account_code''), (''new_price'', PFloat 5)] ''k2''"

definition recorded :: "(bool \<times> dict option \<times> dict option) res \<Rightarrow> bool" where
  "recorded r = (case r of Inr (again, Some b, _) \<Rightarrow> \<not> again \<and> account b = PStr ''1300'' | _ \<Rightarrow> False)"

lemma recordedE:
  assumes "recorded (rbind (demo_run [demo_born]) (\<lambda>st. demo_write st w))" "w_kind w = ''item''"
  obtains row st' b where "emit_event demo_ee False None None w demo_draft = Inr (row, False, st')"
    "item_state (st_table demo_draft) ''c'' (PStr ''e'') = Some b" "account b = PStr ''1300''"
proof -
  from assms obtain b a where "demo_write demo_draft w = Inr (False, Some b, a)" "account b = PStr ''1300''"
    by (auto simp: recorded_def demo_draft split: sum.splits option.splits)
  then show thesis using assms(2) that by (elim demo_writeE) auto
qed

lemma recorded_account_stays_witness:
  "\<exists>row st' a. emit_event demo_ee False None None demo_rename demo_draft = Inr (row, False, st')
     \<and> item_state (st_table st') ''c'' (PStr ''e'') = Some a \<and> account a = PStr ''1300''"
proof -
  have "recorded (rbind (demo_run [demo_born]) (\<lambda>st. demo_write st demo_rename))" by code_simp
  moreover have w: "w_kind demo_rename = ''item''" "w_type demo_rename = ''item.updated''" "w_company demo_rename = ''c''" "w_entity demo_rename = ''e''"
    by (simp_all add: demo_rename_def demo_event_def)
  ultimately obtain row st' b where e: "emit_event demo_ee False None None demo_rename demo_draft = Inr (row, False, st')"
    and b: "item_state (st_table demo_draft) ''c'' (PStr ''e'') = Some b" "account b = PStr ''1300''" by (elim recordedE)
  have d: "distinct (map fst (w_data demo_rename))" "distinct (map fst (changed_fields (w_data demo_rename)))" "rewritten_account demo_rename = None"
    by code_simp+
  show ?thesis using recorded_account_stays [OF e, of b] e b d w demo_handlers(2) by auto
qed

text \<open>An edit that carries the field twice: accepted, and the lot is booked on the account it names second.\<close>

definition demo_restated :: event_write where
  "demo_restated = demo_event ''item'' ''item.updated''
     [(''inventory_account_code'', PStr ''1300''),
      (''fields_changed'', PDict [(''inventory_account_code'', PDict [(''new'', PStr ''1400'')])])] ''k2''"

definition moved_past_lock :: "(bool \<times> dict option \<times> dict option) res \<Rightarrow> bool" where
  "moved_past_lock r = (case r of Inr (again, Some b, Some a) \<Rightarrow> \<not> again \<and> account b = PStr ''1300'' \<and> account a = PStr ''1400'' | _ \<Rightarrow> False)"

lemma restated_edit_moves_account:
  "rewritten_account demo_restated = Some (PStr ''1400'')"
  "moved_past_lock (rbind (demo_run [demo_born]) (\<lambda>st. demo_write st demo_restated))"
  by code_simp+

lemma price_event_moves_account_witness:
  "\<exists>row st' b a. emit_event demo_ee False None None demo_price demo_draft = Inr (row, False, st')
     \<and> item_state (st_table demo_draft) ''c'' (PStr ''e'') = Some b \<and> account b = PStr ''1300''
     \<and> item_state (st_table st') ''c'' (PStr ''e'') = Some a \<and> account a = PFloat 5"
proof -
  have "recorded (rbind (demo_run [demo_born]) (\<lambda>st. demo_write st demo_price))" by code_simp
  moreover have w: "w_kind demo_price = ''item''" "w_type demo_price = ''item.pricing.set''" "w_company demo_price = ''c''" "w_entity demo_price = ''e''"
    by (simp_all add: demo_price_def demo_event_def)
  ultimately obtain row st' b where e: "emit_event demo_ee False None None demo_price demo_draft = Inr (row, False, st')"
    and b: "item_state (st_table demo_draft) ''c'' (PStr ''e'') = Some b" "account b = PStr ''1300''" by (elim recordedE)
  have d: "dget (w_data demo_price) ''price_type'' = PStr LOT_ACCOUNT_FIELD" "dget (w_data demo_price) ''new_price'' = PFloat 5"
    by code_simp+
  show ?thesis using price_event_moves_account [OF e, of b] e b d w demo_handlers(3) by auto
qed

end
