(* ===== verification/PostingRoles.thy ===== *)
theory PostingRoles
  imports Moving
begin

text \<open>
  Posting roles: the vocabulary and type rules of \<open>celerp/accounting_roles.py\<close>, the role state of a
  company (\<open>celerp/services/account_roles.py\<close>: targets, scopes, what a line meant, changing a role,
  resolving roles), and the checks every journal line passes before it enters the ledger
  (\<open>celerp/services/journal_accounts.py\<close>).  The chart of accounts, which the accounting module keeps,
  is an argument: the rows by code, absent when accounting is not running.  So are the accounts that
  hold cash and those that still hold stock.  A role is a string in the settings and on a line;
  \<open>role_of\<close> reads one.
\<close>

section \<open>The vocabulary\<close>

datatype account_role =
    CASH_AND_EQUIVALENTS | DEFAULT_DEPOSIT | RECEIVABLE | PAYABLE | INVENTORY | INVENTORY_PURCHASED
  | INVENTORY_OPENING | LANDED_FREIGHT | LANDED_INSURANCE | LANDED_DUTY | LANDED_IMPORT_VAT | TAX_INPUT
  | TAX_OUTPUT | FIXED_ASSETS | INTANGIBLE_ASSETS | RETAINED_EARNINGS | SALES_REVENUE | STOCK_GAIN | COGS
  | GENERAL_EXPENSE | FX_GAIN | FX_LOSS | STOCK_SHRINKAGE | WORK_IN_PROGRESS | CONSIGNOR_PAYABLE
  | ONLINE_PAYMENT_FEES | ACCUMULATED_DEPRECIATION | DEPRECIATION_EXPENSE | ASSETS_UNDER_CONSTRUCTION
  | ASSET_DISPOSAL_CLEARING | DISPOSAL_GAIN | DISPOSAL_LOSS | IMPAIRMENT_LOSS | REVALUATION_SURPLUS

definition ROLE_VALUES :: "(account_role \<times> string) list" where
  "ROLE_VALUES =
     [(CASH_AND_EQUIVALENTS, ''cash_and_equivalents''), (DEFAULT_DEPOSIT, ''default_deposit''),
      (RECEIVABLE, ''receivable''), (PAYABLE, ''payable''), (INVENTORY, ''inventory''),
      (INVENTORY_PURCHASED, ''inventory_purchased''), (INVENTORY_OPENING, ''inventory_opening''),
      (LANDED_FREIGHT, ''landed_freight''), (LANDED_INSURANCE, ''landed_insurance''),
      (LANDED_DUTY, ''landed_duty''), (LANDED_IMPORT_VAT, ''landed_import_vat''), (TAX_INPUT, ''tax_input''),
      (TAX_OUTPUT, ''tax_output''), (FIXED_ASSETS, ''fixed_assets''), (INTANGIBLE_ASSETS, ''intangible_assets''),
      (RETAINED_EARNINGS, ''retained_earnings''), (SALES_REVENUE, ''sales_revenue''), (STOCK_GAIN, ''stock_gain''),
      (COGS, ''cogs''), (GENERAL_EXPENSE, ''general_expense''), (FX_GAIN, ''fx_gain''), (FX_LOSS, ''fx_loss''),
      (STOCK_SHRINKAGE, ''stock_shrinkage''), (WORK_IN_PROGRESS, ''work_in_progress''),
      (CONSIGNOR_PAYABLE, ''consignor_payable''), (ONLINE_PAYMENT_FEES, ''online_payment_fees''),
      (ACCUMULATED_DEPRECIATION, ''accumulated_depreciation''), (DEPRECIATION_EXPENSE, ''depreciation_expense''),
      (ASSETS_UNDER_CONSTRUCTION, ''assets_under_construction''),
      (ASSET_DISPOSAL_CLEARING, ''asset_disposal_clearing''), (DISPOSAL_GAIN, ''disposal_gain''),
      (DISPOSAL_LOSS, ''disposal_loss''), (IMPAIRMENT_LOSS, ''impairment_loss''),
      (REVALUATION_SURPLUS, ''revaluation_surplus'')]"

abbreviation account_roles :: "account_role list" where "account_roles \<equiv> map fst ROLE_VALUES"

definition role_value :: "account_role \<Rightarrow> string" where
  "role_value r = (case map_of ROLE_VALUES r of Some s \<Rightarrow> s | None \<Rightarrow> [])"

definition role_of :: "string \<Rightarrow> account_role option" where
  "role_of s = map_of (map (\<lambda>(r, v). (v, r)) ROLE_VALUES) s"

definition is_role :: "pyval \<Rightarrow> bool" where
  "is_role v = (case v of PStr s \<Rightarrow> role_of s \<noteq> None | _ \<Rightarrow> False)"

definition role_types :: "account_role \<Rightarrow> string list" where
  "role_types r =
     (if List.member [PAYABLE, TAX_OUTPUT, CONSIGNOR_PAYABLE] r then [''liability'']
      else if List.member [RETAINED_EARNINGS, REVALUATION_SURPLUS] r then [''equity'']
      else if List.member [SALES_REVENUE, STOCK_GAIN, FX_GAIN, DISPOSAL_GAIN] r then [''revenue'']
      else if r = COGS then [''cogs'']
      else if List.member [GENERAL_EXPENSE, FX_LOSS, STOCK_SHRINKAGE, ONLINE_PAYMENT_FEES, DEPRECIATION_EXPENSE,
                           DISPOSAL_LOSS, IMPAIRMENT_LOSS] r then [''expense'']
      else [''asset''])"

definition postable :: "account_role \<Rightarrow> bool" where
  "postable r = (\<not> List.member [CASH_AND_EQUIVALENTS, INVENTORY] r)"

definition SEEDED_TARGETS :: "(account_role \<times> string) list" where
  "SEEDED_TARGETS =
     [(CASH_AND_EQUIVALENTS, ''1110''), (DEFAULT_DEPOSIT, ''1111''), (RECEIVABLE, ''1120''), (PAYABLE, ''2110''),
      (INVENTORY, ''1130''), (INVENTORY_PURCHASED, ''1130-P''), (INVENTORY_OPENING, ''1130-OB''),
      (LANDED_FREIGHT, ''1130-FRT''), (LANDED_INSURANCE, ''1130-INS''), (LANDED_DUTY, ''1130-DTY''),
      (LANDED_IMPORT_VAT, ''1130-IVT''), (TAX_INPUT, ''1150''), (TAX_OUTPUT, ''2120''), (FIXED_ASSETS, ''1210''),
      (INTANGIBLE_ASSETS, ''1230''), (RETAINED_EARNINGS, ''3200''), (SALES_REVENUE, ''4100''),
      (STOCK_GAIN, ''4300''), (COGS, ''5100''), (GENERAL_EXPENSE, ''6950''), (FX_GAIN, ''6960''), (FX_LOSS, ''6960''),
      (STOCK_SHRINKAGE, ''6970''), (WORK_IN_PROGRESS, ''1130-WIP''), (CONSIGNOR_PAYABLE, ''2115''),
      (ONLINE_PAYMENT_FEES, ''6940''), (ACCUMULATED_DEPRECIATION, ''1220''), (DEPRECIATION_EXPENSE, ''6400''),
      (ASSETS_UNDER_CONSTRUCTION, ''1240''), (ASSET_DISPOSAL_CLEARING, ''1160''), (DISPOSAL_GAIN, ''6980''),
      (DISPOSAL_LOSS, ''6980''), (IMPAIRMENT_LOSS, ''6410''), (REVALUATION_SURPLUS, ''3400'')]"

definition INVENTORY_VALUE_ROLES :: "account_role list" where
  "INVENTORY_VALUE_ROLES = [INVENTORY, INVENTORY_PURCHASED, INVENTORY_OPENING, LANDED_FREIGHT, LANDED_INSURANCE, LANDED_DUTY,
     LANDED_IMPORT_VAT]"

definition UNGUESSED_ROLES :: "account_role list" where
  "UNGUESSED_ROLES = [INTANGIBLE_ASSETS, WORK_IN_PROGRESS, CONSIGNOR_PAYABLE, ACCUMULATED_DEPRECIATION,
     DEPRECIATION_EXPENSE, ASSETS_UNDER_CONSTRUCTION, ASSET_DISPOSAL_CLEARING, DISPOSAL_GAIN, DISPOSAL_LOSS,
     IMPAIRMENT_LOSS, REVALUATION_SURPLUS, ONLINE_PAYMENT_FEES]"

definition SHARED_PAIRS :: "(account_role \<times> account_role) list" where
  "SHARED_PAIRS = [(FX_GAIN, FX_LOSS), (DISPOSAL_GAIN, DISPOSAL_LOSS)]"

definition role_pair_of :: "account_role \<Rightarrow> (account_role \<times> account_role) option" where
  "role_pair_of r = List.find (\<lambda>(gain, loss). r = gain \<or> r = loss) SHARED_PAIRS"

section \<open>Whether an account can take a role\<close>

record chart_account =
  ca_type :: string
  ca_active :: bool
  ca_header :: bool

type_synonym chart = "(string \<times> chart_account) list"

definition chart_get :: "chart \<Rightarrow> pyval \<Rightarrow> chart_account option" where
  "chart_get accounts code = (case code of PStr s \<Rightarrow> map_of accounts s | _ \<Rightarrow> None)"

text \<open>A map of roles to codes is read by the role's name.\<close>

definition target_of :: "dict \<Rightarrow> account_role \<Rightarrow> pyval" where
  "target_of roles r = dget roles (role_value r)"

definition allowed_types :: "account_role \<Rightarrow> dict \<Rightarrow> string list" where
  "allowed_types r roles =
     (case role_pair_of r of
        Some (gain, loss) \<Rightarrow>
          if truthy (target_of roles gain) \<and> py_eq (target_of roles gain) (target_of roles loss)
          then [''revenue'', ''expense''] else role_types r
      | None \<Rightarrow> role_types r)"

definition target_problem :: "account_role \<Rightarrow> dict \<Rightarrow> chart_account option \<Rightarrow> string option" where
  "target_problem r roles account =
     (case account of
        None \<Rightarrow> Some ''posting.problem.not_in_chart''
      | Some a \<Rightarrow>
          if \<not> ca_active a then Some ''posting.problem.inactive''
          else if \<not> List.member (allowed_types r roles) (ca_type a) then Some ''posting.problem.wrong_type''
          else if postable r \<and> ca_header a then Some ''posting.problem.header''
          else None)"

definition role_problem :: "dict \<Rightarrow> chart option \<Rightarrow> account_role \<Rightarrow> string option" where
  "role_problem current accounts r =
     (if \<not> truthy (target_of current r) then Some ''posting.problem.unset''
      else case accounts of None \<Rightarrow> None | Some chart \<Rightarrow> target_problem r current (chart_get chart (target_of current r)))"

definition target_problems :: "account_role list \<Rightarrow> dict \<Rightarrow> chart option \<Rightarrow> (account_role \<times> string) list" where
  "target_problems roles current accounts =
     concat (map (\<lambda>r. case role_problem current accounts r of Some p \<Rightarrow> [(r, p)] | None \<Rightarrow> []) roles)"

section \<open>The role state of a company\<close>

definition ROLES_KEY :: string where "ROLES_KEY = ''posting_roles''"
definition SCOPES_KEY :: string where "SCOPES_KEY = ''posting_role_scopes''"
definition SCHEMA_KEY :: string where "SCHEMA_KEY = ''posting_roles_schema''"
definition SOURCE_CONTROLS_KEY :: string where "SOURCE_CONTROLS_KEY = ''posting_source_controls''"
definition POSTING_ROLES_SCHEMA :: int where "POSTING_ROLES_SCHEMA = 4"

text \<open>\<open>(settings.get(key) or {})\<close>, a dictionary.\<close>

definition stored_dict :: "dict \<Rightarrow> string \<Rightarrow> dict res" where
  "stored_dict settings key = as_dict (py_or (dget settings key) (PDict []))"

definition role_map :: "dict \<Rightarrow> dict res" where
  "role_map settings = stored_dict settings ROLES_KEY"

text \<open>\<open>list(v or ())\<close>.\<close>

definition list_or_empty :: "pyval \<Rightarrow> pyval list res" where
  "list_or_empty v = (if truthy v then py_iter v else Inr [])"

definition scope_list :: "dict \<Rightarrow> account_role \<Rightarrow> pyval list res" where
  "scope_list settings r =
     rbind (stored_dict settings SCOPES_KEY) (\<lambda>scopes. list_or_empty (dget scopes (role_value r)))"

text \<open>\<open>code in scope_codes(settings, role)\<close>: a set of codes.\<close>

definition in_scope :: "dict \<Rightarrow> account_role \<Rightarrow> pyval \<Rightarrow> bool res" where
  "in_scope settings r code =
     rbind (scope_list settings r) (\<lambda>codes.
     if list_all hashable codes \<and> hashable code then Inr (list_ex (py_eq code) codes) else Inl TypeError)"

definition serves :: "dict \<Rightarrow> dict \<Rightarrow> pyval \<Rightarrow> account_role \<Rightarrow> bool res" where
  "serves settings current code r =
     (if py_eq (target_of current r) code then Inr True else in_scope settings r code)"

definition roles_for_account :: "dict \<Rightarrow> pyval \<Rightarrow> string list res" where
  "roles_for_account settings code =
     rbind (role_map settings) (\<lambda>current.
     rmap (\<lambda>rs. sort (map role_value rs)) (filterR (serves settings current code) account_roles))"

definition line_roles :: "dict \<Rightarrow> dict \<Rightarrow> pyval list res" where
  "line_roles settings entry =
     (if dget entry ''account_roles'' \<noteq> PNone then py_iter (dget entry ''account_roles'')
      else if truthy (dget entry ''account'') then rmap (map PStr) (roles_for_account settings (dget entry ''account''))
      else Inr [])"

definition line_has_role :: "dict \<Rightarrow> dict \<Rightarrow> account_role \<Rightarrow> bool res" where
  "line_has_role settings entry r = rmap (\<lambda>rs. List.member rs (PStr (role_value r))) (line_roles settings entry)"

text \<open>Whether a line moved stock value, and whether it may have.\<close>

definition inventory_role :: "pyval \<Rightarrow> bool" where
  "inventory_role v =
     (case v of PStr s \<Rightarrow> (case role_of s of Some r \<Rightarrow> List.member INVENTORY_VALUE_ROLES r | None \<Rightarrow> False) | _ \<Rightarrow> False)"

definition stock_line :: "dict \<Rightarrow> dict \<Rightarrow> bool res" where
  "stock_line settings entry = rmap (\<lambda>rs. rs \<noteq> [] \<and> list_all inventory_role rs) (line_roles settings entry)"

definition uncertain_stock_line :: "dict \<Rightarrow> dict \<Rightarrow> bool res" where
  "uncertain_stock_line settings entry =
     (if dget entry ''account_roles'' \<noteq> PNone then Inr False
      else rmap (\<lambda>rs. list_ex inventory_role rs \<and> \<not> list_all inventory_role rs) (line_roles settings entry))"

section \<open>Changing a role\<close>

text \<open>\<open>{k: list(v) for k, v in scopes.items()}\<close>, then the code noted under the role.\<close>

definition copied_lists :: "dict \<Rightarrow> dict res" where
  "copied_lists d = mapR (\<lambda>(k, v). rmap (\<lambda>vs. (k, PList vs)) (py_iter v)) d"

definition noted_scope :: "dict \<Rightarrow> string \<Rightarrow> string \<Rightarrow> dict" where
  "noted_scope scopes role code =
     (case dget_or scopes role (PList []) of
        PList vs \<Rightarrow> dput role (PList (if List.member vs (PStr code) then vs else vs @ [PStr code])) scopes
      | _ \<Rightarrow> scopes)"

definition with_role :: "dict \<Rightarrow> account_role \<Rightarrow> string \<Rightarrow> dict res" where
  "with_role settings r code =
     rbind (role_map settings) (\<lambda>roles.
     rbind (stored_dict settings SCOPES_KEY) (\<lambda>stored.
     rbind (copied_lists stored) (\<lambda>scopes.
     Inr (dput SCOPES_KEY (PDict (noted_scope scopes (role_value r) code))
            (dput ROLES_KEY (PDict (dput (role_value r) (PStr code) roles))
               (dput SCHEMA_KEY (PInt POSTING_ROLES_SCHEMA) settings))))))"

definition seeded_roles :: dict where
  "seeded_roles = map (\<lambda>(r, c). (role_value r, PStr c)) SEEDED_TARGETS"

text \<open>One role of the loop of \<open>reconciled_settings\<close>: \<open>current\<close> and \<open>trial\<close> are read before the loop.\<close>

definition reconcile_role :: "dict \<Rightarrow> dict \<Rightarrow> chart \<Rightarrow> account_role list \<Rightarrow> dict \<Rightarrow> account_role \<times> string \<Rightarrow> dict res" where
  "reconcile_role current trial accounts claim out rc =
     (let (r, code) = rc in
      if List.member UNGUESSED_ROLES r \<and> \<not> List.member claim r then Inr out
      else if \<not> truthy (target_of current r) \<and> target_problem r trial (map_of accounts code) = None
      then with_role out r code else Inr out)"

definition reconciled_settings :: "dict \<Rightarrow> chart \<Rightarrow> account_role list \<Rightarrow> dict res" where
  "reconciled_settings settings accounts claim =
     (let out = dput SCHEMA_KEY (PInt POSTING_ROLES_SCHEMA) settings in
      if dhas out SOURCE_CONTROLS_KEY then Inr out
      else rbind (role_map out) (\<lambda>current.
           foldR (reconcile_role current (dmerge seeded_roles current) accounts claim) out SEEDED_TARGETS))"

definition unmapped_roles :: "dict \<Rightarrow> string list res" where
  "unmapped_roles settings =
     rmap (\<lambda>current. map role_value (filter (\<lambda>r. \<not> truthy (target_of current r)) account_roles)) (role_map settings)"

text \<open>\<open>stock_problems\<close> for a change of one role: \<open>cash\<close> the accounts that hold cash, \<open>holders\<close> those that
  still hold stock.\<close>

definition stock_problem :: "dict \<Rightarrow> string list \<Rightarrow> string list \<Rightarrow> account_role \<Rightarrow> string \<Rightarrow> string option" where
  "stock_problem current cash holders r code =
     (if target_of current r = PStr code then None
      else if List.member INVENTORY_VALUE_ROLES r
      then (if List.member cash code then Some ''posting.problem.not_inventory'' else None)
      else if List.member holders code then Some ''posting.problem.holds_inventory'' else None)"

text \<open>The roles \<open>set_role\<close> judges: the role and, of its gain and loss pair, the other when it is set.\<close>

definition judged_roles :: "dict \<Rightarrow> account_role \<Rightarrow> account_role list" where
  "judged_roles new_map r =
     r # (case role_pair_of r of
            Some (gain, loss) \<Rightarrow> filter (\<lambda>p. p \<noteq> r \<and> truthy (target_of new_map p)) [gain, loss]
          | None \<Rightarrow> [])"

definition first_problem :: "('a \<Rightarrow> string option) \<Rightarrow> 'a list \<Rightarrow> string option" where
  "first_problem f xs = map_option (the \<circ> f) (List.find (\<lambda>x. f x \<noteq> None) xs)"

text \<open>A gain and loss pair is judged together, then the stock of the account.\<close>

definition refused_change :: "dict \<Rightarrow> dict \<Rightarrow> chart \<Rightarrow> string list \<Rightarrow> string list \<Rightarrow> account_role \<Rightarrow> string \<Rightarrow> string option" where
  "refused_change new_map current chart cash holders r code =
     (case first_problem (\<lambda>p. target_problem p new_map (chart_get chart (target_of new_map p))) (judged_roles new_map r) of
        Some p \<Rightarrow> Some p
      | None \<Rightarrow> stock_problem current cash holders r code)"

definition record_change :: "string \<Rightarrow> pyval \<Rightarrow> pyval \<Rightarrow> dict \<Rightarrow> dict" where
  "record_change key user now settings = dput (key @ ''_set_at'') now (dput (key @ ''_set_by'') user settings)"

definition set_role ::
  "dict \<Rightarrow> chart option \<Rightarrow> string list \<Rightarrow> string list \<Rightarrow> pyval \<Rightarrow> pyval \<Rightarrow> string \<Rightarrow> string \<Rightarrow> dict res" where
  "set_role before accounts cash holders user now role raw_code =
     (case role_of role of
        None \<Rightarrow> Inl (HTTPError 422 ''posting.unknown_role_named'')
      | Some r \<Rightarrow>
          let code = py_strip raw_code in
          if code = [] then Inl (HTTPError 422 ''posting.choose_account'')
          else rbind (with_role before r code) (\<lambda>settings.
               rbind (role_map settings) (\<lambda>new_map.
               rbind (role_map before) (\<lambda>current.
               case accounts of
                 None \<Rightarrow> Inl (HTTPError 409 ''posting.needs_accounting'')
               | Some chart \<Rightarrow>
                   (case refused_change new_map current chart cash holders r code of
                      Some p \<Rightarrow> Inl (HTTPError 422 p)
                    | None \<Rightarrow> Inr (record_change ROLES_KEY user now settings))))))"

section \<open>Resolving roles\<close>

definition resolve_many :: "dict \<Rightarrow> chart option \<Rightarrow> account_role list \<Rightarrow> (account_role \<times> string) list res" where
  "resolve_many settings accounts roles =
     rbind (role_map settings) (\<lambda>current.
     if target_problems roles current accounts \<noteq> [] then Inl (HTTPError 409 ''posting.refused'')
     else Inr (map (\<lambda>r. (r, py_str (target_of current r))) roles))"

definition source_controls :: "dict \<Rightarrow> account_role \<Rightarrow> pyval list res" where
  "source_controls settings r =
     rbind (stored_dict settings SOURCE_CONTROLS_KEY) (\<lambda>controls. list_or_empty (dget controls (role_value r)))"

definition holds_code :: "pyval \<Rightarrow> string \<Rightarrow> bool" where
  "holds_code v code = (case v of PList vs \<Rightarrow> List.member vs (PStr code) | _ \<Rightarrow> False)"

definition record_source_control :: "dict \<Rightarrow> account_role \<Rightarrow> string \<Rightarrow> dict res" where
  "record_source_control settings r code =
     rbind (stored_dict settings SOURCE_CONTROLS_KEY) (\<lambda>stored. rbind (copied_lists stored) (\<lambda>controls.
     Inr (if holds_code (dget controls (role_value r)) code then settings
          else dput SOURCE_CONTROLS_KEY (PDict (noted_scope controls (role_value r) code)) settings)))"

text \<open>The roles as the source books name them: each with its one control.\<close>

definition trial_controls :: "dict \<Rightarrow> dict res" where
  "trial_controls settings =
     rmap concat (mapR (\<lambda>r. rmap (\<lambda>c. if length c = 1 then [(role_value r, c ! 0)] else []) (source_controls settings r)) account_roles)"

definition resolve :: "dict \<Rightarrow> chart option \<Rightarrow> account_role \<Rightarrow> string res" where
  "resolve settings accounts r = rmap (\<lambda>m. snd (hd m)) (resolve_many settings accounts [r])"

definition resolve_importing :: "dict \<Rightarrow> chart option \<Rightarrow> account_role \<Rightarrow> string res" where
  "resolve_importing settings accounts r =
     rbind (source_controls settings r) (\<lambda>codes.
     rbind (role_map settings) (\<lambda>current.
     if dhas settings SCHEMA_KEY \<or> truthy (target_of current r) \<or> length codes \<noteq> 1 then resolve settings accounts r
     else rbind (trial_controls settings) (\<lambda>trial.
          if target_problems [r] trial accounts \<noteq> [] then Inl (HTTPError 409 ''posting.refused'')
          else Inr (py_str (codes ! 0)))))"

definition served_both :: "dict \<Rightarrow> string \<Rightarrow> account_role \<times> account_role \<Rightarrow> bool res" where
  "served_both settings code p =
     rbind (role_map settings) (\<lambda>current.
     rmap Not (anyR (\<lambda>r. rmap Not (if target_of current r = PStr code then Inr True else in_scope settings r (PStr code)))
       [fst p, snd p]))"

definition continue_role :: "dict \<Rightarrow> chart option \<Rightarrow> account_role \<Rightarrow> string \<Rightarrow> string res" where
  "continue_role settings accounts r code =
     (case accounts of
        None \<Rightarrow> Inr code
      | Some chart \<Rightarrow>
          rbind (case role_pair_of r of
                   None \<Rightarrow> Inr [(role_value r, PStr code)]
                 | Some p \<Rightarrow> rmap (\<lambda>both. if both then [(role_value (fst p), PStr code), (role_value (snd p), PStr code)]
                                          else [(role_value r, PStr code)]) (served_both settings code p)) (\<lambda>trial.
          if target_problem r trial (map_of chart code) \<noteq> None then Inl (HTTPError 409 ''posting.continued_account_unusable'')
          else Inr code))"

section \<open>The account of a lot\<close>

definition is_consigned :: "dict \<Rightarrow> bool" where
  "is_consigned state = str_is (dget state ''consignment_flag'') ''in''"

definition lot_account :: "dict \<Rightarrow> pyval res" where
  "lot_account state =
     (if is_consigned state then Inl (HTTPError 409 ''consignment.not_owned'')
      else if truthy (dget state ''inventory_account_code'') then Inr (dget state ''inventory_account_code'')
      else Inl (HTTPError 409 ''posting.older_stock.no_account''))"

definition sold_lot_account :: "dict \<Rightarrow> pyval res" where
  "sold_lot_account state =
     (if is_consigned state
      then (if truthy (dget state ''consignor_payable_code'') then Inr (dget state ''consignor_payable_code'')
            else Inl (HTTPError 409 ''consignment.not_owned''))
      else lot_account state)"

text \<open>A posting key: an account, and for the consignor payable whom it is owed to.\<close>

definition party_key :: "string \<Rightarrow> string option \<Rightarrow> string" where
  "party_key code contact = (case contact of Some (c # cs) \<Rightarrow> code @ ''|'' @ (c # cs) | _ \<Rightarrow> code)"

definition split_party_key :: "string \<Rightarrow> string \<times> string option" where
  "split_party_key key =
     (takeWhile (\<lambda>c. c \<noteq> CHR ''|'') key,
      case dropWhile (\<lambda>c. c \<noteq> CHR ''|'') key of _ # c # cs \<Rightarrow> Some (c # cs) | _ \<Rightarrow> None)"

definition surviving_key :: "string \<Rightarrow> (string \<times> string) list \<Rightarrow> string" where
  "surviving_key key survivors =
     (case split_party_key key of
        (code, Some contact) \<Rightarrow> party_key code (Some (case map_of survivors contact of Some w \<Rightarrow> w | None \<Rightarrow> contact))
      | (code, None) \<Rightarrow> party_key code None)"

section \<open>The boundary of a journal entry\<close>

text \<open>The roles a line names, each its account's now or once.\<close>

definition check_role :: "dict \<Rightarrow> dict \<Rightarrow> chart option \<Rightarrow> string \<Rightarrow> pyval \<Rightarrow> unit res" where
  "check_role settings current accounts code v =
     (case v of
        PStr s \<Rightarrow>
          (case role_of s of
             None \<Rightarrow> Inl (HTTPError 422 ''posting.unknown_role_named'')
           | Some r \<Rightarrow>
               if target_of current r = PStr code
               then (if role_problem current accounts r \<noteq> None then Inl (HTTPError 409 ''posting.refused'') else Inr ())
               else rbind (in_scope settings r (PStr code)) (\<lambda>served.
                    if served then Inr () else Inl (HTTPError 422 ''posting.account_never_had_role'')))
      | _ \<Rightarrow> Inl (HTTPError 422 ''posting.unknown_role_named''))"

definition prepare_line :: "dict \<Rightarrow> dict \<Rightarrow> chart option \<Rightarrow> bool \<Rightarrow> dict \<Rightarrow> dict res" where
  "prepare_line settings current accounts restored entry =
     (case dget entry ''account'' of
        PStr code \<Rightarrow>
          if (case accounts of Some chart \<Rightarrow> map_of chart code = None | None \<Rightarrow> False)
          then Inl (HTTPError 422 ''posting.destination.not_in_chart'')
          else if dget entry ''account_roles'' = PNone
          then (if dhas settings SCHEMA_KEY \<and> \<not> restored
                then rmap (\<lambda>rs. dput ''account_roles'' (PList (map PStr rs)) entry) (roles_for_account settings (PStr code))
                else Inr entry)
          else rbind (py_iter (dget entry ''account_roles'')) (\<lambda>roles.
               rmap (\<lambda>_. entry) (mapR (check_role settings current accounts code) roles))
      | _ \<Rightarrow> Inl (HTTPError 422 ''posting.destination.not_in_chart''))"

text \<open>Entries that are no dictionaries, or name no account, are passed over.\<close>

definition prepare_journal_entry :: "dict \<Rightarrow> chart option \<Rightarrow> bool \<Rightarrow> pyval list \<Rightarrow> pyval list res" where
  "prepare_journal_entry settings accounts restored entries =
     (if list_ex (\<lambda>v. case v of PDict e \<Rightarrow> truthy (dget e ''account'') | _ \<Rightarrow> False) entries
      then rbind (role_map settings) (\<lambda>current.
           mapR (\<lambda>v. case v of
               PDict e \<Rightarrow> if truthy (dget e ''account'') then rmap PDict (prepare_line settings current accounts restored e) else Inr v
             | _ \<Rightarrow> Inr v) entries)
      else Inr entries)"

definition require_destinations :: "chart option \<Rightarrow> string list \<Rightarrow> unit res" where
  "require_destinations accounts codes =
     (case accounts of
        None \<Rightarrow> Inr ()
      | Some chart \<Rightarrow>
          rmap (\<lambda>_. ()) (mapR (\<lambda>code. case map_of chart code of
              None \<Rightarrow> Inl (HTTPError 422 ''posting.destination.not_in_chart'')
            | Some a \<Rightarrow> if \<not> ca_active a then Inl (HTTPError 422 ''posting.destination.inactive'')
                        else if ca_header a then Inl (HTTPError 422 ''posting.destination.header'')
                        else Inr ()) (sort (remdups codes))))"

definition require_settlement_account :: "chart option \<Rightarrow> string \<Rightarrow> unit res" where
  "require_settlement_account accounts code =
     rbind (require_destinations accounts [code]) (\<lambda>_.
     case accounts of
       None \<Rightarrow> Inr ()
     | Some chart \<Rightarrow>
         if map_option ca_type (map_of chart code) \<noteq> Some ''asset'' then Inl (HTTPError 422 ''posting.destination.not_money'') else Inr ())"

end
