(* ===== verification/RoleFacts.thy ===== *)
theory RoleFacts
  imports PostingRoles
begin

text \<open>
  What the posting roles of a company guarantee: an account a role was ever pointed at stays in the
  role's scope, so a line accepted on an account for its roles stays acceptable whatever is remapped
  later; what a line meant is fixed once it is in the books; and pointing the roles at the seeded chart
  changes no role already set, and changes nothing when it runs again.
\<close>

lemma mapR_elem: "mapR f xs = Inr ys \<Longrightarrow> x \<in> set xs \<Longrightarrow> \<exists>y. f x = Inr y"
  by (induction xs arbitrary: ys) (auto simp: rbind_eq_Inr)

lemma filterR_elem: "filterR p xs = Inr ys \<Longrightarrow> y \<in> set ys \<Longrightarrow> p y = Inr True"
  by (induction xs arbitrary: ys) (auto simp: rbind_eq_Inr split: if_splits)

section \<open>Roles and their names\<close>

lemma role_names:
  "distinct (map fst ROLE_VALUES)" "distinct (map snd ROLE_VALUES)" "distinct (map fst SEEDED_TARGETS)"
  "map fst ROLE_VALUES = map fst SEEDED_TARGETS"
  by (simp_all add: ROLE_VALUES_def SEEDED_TARGETS_def)

lemma role_of_value: "role_of (role_value r) = Some r"
  by (cases r) (simp_all add: role_of_def role_value_def ROLE_VALUES_def)

lemma role_value_of: "role_of s = Some r \<Longrightarrow> role_value r = s"
proof -
  assume "role_of s = Some r"
  then have "(r, s) \<in> set ROLE_VALUES" by (auto simp: role_of_def dest!: map_of_SomeD)
  then show "role_value r = s" using role_names(1) by (simp add: role_value_def)
qed

lemma role_value_eq [simp]: "role_value r = role_value r' \<longleftrightarrow> r = r'"
  by (metis option.inject role_of_value)

lemma account_role_member: "r \<in> fst ` set ROLE_VALUES"
  by (cases r) (simp_all add: ROLE_VALUES_def)

section \<open>Scopes\<close>

text \<open>The settings keep a dictionary of roles and, per role, a list of the codes that served it.\<close>

definition plain_scopes :: "dict \<Rightarrow> bool" where
  "plain_scopes sc \<longleftrightarrow> (\<forall>(k, v)\<in>set sc. \<exists>ss. v = PList (map PStr ss))"

definition scope_of :: "dict \<Rightarrow> account_role \<Rightarrow> string list" where
  "scope_of sc r = (case dget sc (role_value r) of PList vs \<Rightarrow> map py_str vs | _ \<Rightarrow> [])"

definition well_kept :: "dict \<Rightarrow> dict \<Rightarrow> dict \<Rightarrow> bool" where
  "well_kept settings m sc \<longleftrightarrow>
     role_map settings = Inr m \<and> stored_dict settings SCOPES_KEY = Inr sc \<and> plain_scopes sc
     \<and> (\<forall>r code. target_of m r = PStr code \<longrightarrow> code \<in> set (scope_of sc r))"

lemma plain_scopes_Cons: "plain_scopes ((k, v) # sc) \<longleftrightarrow> (\<exists>ss. v = PList (map PStr ss)) \<and> plain_scopes sc"
  by (simp add: plain_scopes_def)

lemma py_str_PStr [simp]: "py_str (PStr s) = s"
  by (simp add: py_str_def)

lemma map_py_str [simp]: "map (py_str \<circ> PStr) ss = ss" "map py_str (map PStr ss) = ss"
  by (induction ss) simp_all

lemma plain_scope: "plain_scopes sc \<Longrightarrow> map_of sc k = Some v \<Longrightarrow> \<exists>ss. v = PList (map PStr ss)"
  unfolding plain_scopes_def by (drule map_of_SomeD) fastforce

lemma copied_plain: "plain_scopes sc \<Longrightarrow> copied_lists sc = Inr sc"
proof (induction sc)
  case (Cons p sc)
  obtain k v where p: "p = (k, v)" by (cases p)
  with Cons.prems obtain ss where "v = PList (map PStr ss)" "plain_scopes sc" unfolding p plain_scopes_Cons by blast
  then show ?case using Cons.IH p by (simp add: copied_lists_def)
qed (simp add: copied_lists_def)

lemma update_elem: "p \<in> set (AList.update k v d) \<Longrightarrow> p = (k, v) \<or> p \<in> set d"
proof (induction d)
  case (Cons q d)
  then show ?case by (cases "fst q = k") auto
qed simp

lemma scope_list_plain:
  assumes "stored_dict settings SCOPES_KEY = Inr sc" "plain_scopes sc"
  shows "scope_list settings r = Inr (map PStr (scope_of sc r))"
proof (cases "map_of sc (role_value r)")
  case (Some v)
  then obtain ss where "v = PList (map PStr ss)" using plain_scope [OF assms(2)] by blast
  then show ?thesis using Some assms(1) by (auto simp: scope_list_def scope_of_def list_or_empty_def dget_Some)
qed (simp add: scope_list_def assms(1) scope_of_def list_or_empty_def dget_None)

lemma in_scope_plain:
  assumes "stored_dict settings SCOPES_KEY = Inr sc" "plain_scopes sc"
  shows "in_scope settings r (PStr code) = Inr (code \<in> set (scope_of sc r))"
  by (auto simp: in_scope_def scope_list_plain [OF assms] list_all_iff list_ex_iff hashable_def)

lemma noted_scope_plain:
  assumes "plain_scopes sc"
  shows "plain_scopes (noted_scope sc (role_value r) code)"
    "set (scope_of (noted_scope sc (role_value r) code) r') = set (scope_of sc r') \<union> (if r' = r then {code} else {})"
proof -
  obtain ss where ss: "dget_or sc (role_value r) (PList []) = PList (map PStr ss)" "scope_of sc r = ss"
  proof (cases "map_of sc (role_value r)")
    case None
    then show ?thesis using that [of "[]"] by (simp add: dget_or_def scope_of_def dget_None)
  next
    case (Some v)
    then obtain ss where "v = PList (map PStr ss)" using plain_scope [OF assms] by blast
    then show ?thesis using that [of ss] Some by (simp add: dget_or_def scope_of_def dget_Some)
  qed
  define ss' where "ss' = (if code \<in> set ss then ss else ss @ [code])"
  have n: "noted_scope sc (role_value r) code = dput (role_value r) (PList (map PStr ss')) sc"
    by (auto simp: noted_scope_def ss ss'_def)
  show "plain_scopes (noted_scope sc (role_value r) code)"
    using assms unfolding n plain_scopes_def by (auto dest!: update_elem)
  show "set (scope_of (noted_scope sc (role_value r) code) r') = set (scope_of sc r') \<union> (if r' = r then {code} else {})"
    using ss(2) by (cases "r' = r") (auto simp: n scope_of_def ss'_def)
qed

section \<open>Changing a role keeps what served it\<close>

lemma stored_dict_put: "stored_dict (dput k (PDict d) settings) k' = (if k' = k then Inr d else stored_dict settings k')"
  by (auto simp: stored_dict_def py_or_def as_dict_def)

lemma stored_dict_other: "k' \<noteq> k \<Longrightarrow> stored_dict (dput k v settings) k' = stored_dict settings k'"
  by (simp add: stored_dict_def)

lemma role_keys: "ROLES_KEY \<noteq> SCOPES_KEY" "SCHEMA_KEY \<noteq> ROLES_KEY" "SCHEMA_KEY \<noteq> SCOPES_KEY"
    "SOURCE_CONTROLS_KEY \<noteq> ROLES_KEY" "SOURCE_CONTROLS_KEY \<noteq> SCOPES_KEY" "SOURCE_CONTROLS_KEY \<noteq> SCHEMA_KEY"
  by (simp_all add: ROLES_KEY_def SCOPES_KEY_def SCHEMA_KEY_def SOURCE_CONTROLS_KEY_def)

lemma target_of_put: "target_of (dput (role_value r) v m) r' = (if r' = r then v else target_of m r')"
  by (simp add: target_of_def)

lemma with_role_kept:
  assumes "well_kept settings m sc"
  obtains settings' where "with_role settings r code = Inr settings'"
    "well_kept settings' (dput (role_value r) (PStr code) m) (noted_scope sc (role_value r) code)"
    "map_of settings' SCHEMA_KEY = Some (PInt POSTING_ROLES_SCHEMA)" "\<And>k. k \<noteq> ROLES_KEY \<Longrightarrow> k \<noteq> SCOPES_KEY \<Longrightarrow> k \<noteq> SCHEMA_KEY \<Longrightarrow> map_of settings' k = map_of settings k"
proof -
  define s' where "s' = dput SCOPES_KEY (PDict (noted_scope sc (role_value r) code))
            (dput ROLES_KEY (PDict (dput (role_value r) (PStr code) m)) (dput SCHEMA_KEY (PInt POSTING_ROLES_SCHEMA) settings))"
  have w: "with_role settings r code = Inr s'"
    using assms copied_plain by (auto simp: with_role_def well_kept_def s'_def)
  have n: "plain_scopes (noted_scope sc (role_value r) code)"
    "\<And>r'. set (scope_of (noted_scope sc (role_value r) code) r') = set (scope_of sc r') \<union> (if r' = r then {code} else {})"
    using noted_scope_plain assms by (auto simp: well_kept_def)
  have "well_kept s' (dput (role_value r) (PStr code) m) (noted_scope sc (role_value r) code)"
    using assms n role_keys by (auto simp: well_kept_def role_map_def s'_def stored_dict_put target_of_put split: if_splits)
  then show ?thesis using that [of s'] w role_keys by (auto simp: s'_def)
qed

lemma well_kept_other:
  assumes "well_kept settings m sc" "map_of settings' ROLES_KEY = map_of settings ROLES_KEY" "map_of settings' SCOPES_KEY = map_of settings SCOPES_KEY"
  shows "well_kept settings' m sc"
  using assms by (simp add: well_kept_def role_map_def stored_dict_def dget_def dget_or_def)

text \<open>What changes a company's settings: a role pointed at an account, the roles pointed at the seeded
  chart, a control of the source books noted, and every change that leaves the roles alone.\<close>

inductive settings_change :: "dict \<Rightarrow> dict \<Rightarrow> bool" where
  set: "set_role before accounts cash holders user now role code = Inr settings \<Longrightarrow> settings_change before settings"
| reconciled: "reconciled_settings before accounts claim = Inr settings \<Longrightarrow> settings_change before settings"
| control: "record_source_control before r code = Inr settings \<Longrightarrow> settings_change before settings"
| other: "list_all (\<lambda>k. map_of settings k = map_of before k) [ROLES_KEY, SCOPES_KEY, SCHEMA_KEY] \<Longrightarrow> settings_change before settings"

definition scopes_grow :: "dict \<Rightarrow> dict \<Rightarrow> bool" where
  "scopes_grow sc sc' \<longleftrightarrow> (\<forall>r. set (scope_of sc r) \<subseteq> set (scope_of sc' r))"

lemma scopes_grow_refl: "scopes_grow sc sc"
  by (simp add: scopes_grow_def)

lemma scopes_grow_trans: "scopes_grow a b \<Longrightarrow> scopes_grow b c \<Longrightarrow> scopes_grow a c"
  unfolding scopes_grow_def by blast

lemma noted_grows: "plain_scopes sc \<Longrightarrow> scopes_grow sc (noted_scope sc (role_value r) code)"
  by (simp add: scopes_grow_def noted_scope_plain)

lemma with_role_grows:
  assumes "well_kept settings m sc" "with_role settings r code = Inr settings'"
  shows "\<exists>m' sc'. well_kept settings' m' sc' \<and> scopes_grow sc sc'"
proof -
  have "plain_scopes sc" using assms(1) by (simp add: well_kept_def)
  obtain s' where "with_role settings r code = Inr s'"
    "well_kept s' (dput (role_value r) (PStr code) m) (noted_scope sc (role_value r) code)"
    using with_role_kept [OF assms(1)] .
  then show ?thesis using assms(2) noted_grows [OF \<open>plain_scopes sc\<close>] by auto
qed

lemma set_role_with:
  assumes "set_role before accounts cash holders user now role raw = Inr settings"
  obtains r s1 where "with_role before r (py_strip raw) = Inr s1" "settings = record_change ROLES_KEY user now s1"
proof -
  obtain r where r: "role_of role = Some r" using assms by (cases "role_of role") (simp_all add: set_role_def)
  have code: "py_strip raw \<noteq> []" using assms r by (auto simp: set_role_def)
  obtain s1 new_map current where s1: "with_role before r (py_strip raw) = Inr s1" "role_map s1 = Inr new_map" "role_map before = Inr current"
    using assms by (auto simp: set_role_def r code Let_def rbind_eq_Inr)
  obtain chart where chart: "accounts = Some chart"
    using assms by (cases accounts) (simp_all add: set_role_def r code Let_def s1)
  have "refused_change new_map current chart cash holders r (py_strip raw) = None"
    using assms by (cases "refused_change new_map current chart cash holders r (py_strip raw)")
      (simp_all add: set_role_def r code Let_def s1 chart)
  then have "settings = record_change ROLES_KEY user now s1"
    using assms by (simp add: set_role_def r code Let_def s1 chart)
  then show ?thesis using that s1 by blast
qed

lemma reconcile_role_kept:
  assumes "reconcile_role current trial accounts claim out rc = Inr out'" "well_kept out m sc"
  shows "\<exists>m' sc'. well_kept out' m' sc' \<and> scopes_grow sc sc'"
proof (cases "out' = out")
  case False
  then have "with_role out (fst rc) (snd rc) = Inr out'"
    using assms(1) by (auto simp: reconcile_role_def split: prod.splits if_splits)
  then show ?thesis using with_role_grows [OF assms(2)] by blast
qed (use assms(2) scopes_grow_refl in blast)

lemma settings_change_kept:
  assumes "settings_change settings settings'" "well_kept settings m sc"
  shows "\<exists>m' sc'. well_kept settings' m' sc' \<and> scopes_grow sc sc'"
  using assms
proof (induction arbitrary: m sc rule: settings_change.induct)
  case (set before accounts cash holders user now role code settings)
  obtain r s1 where s1: "with_role before r (py_strip code) = Inr s1" and s: "settings = record_change ROLES_KEY user now s1"
    using set_role_with [OF set(1)] .
  have k: "map_of settings ROLES_KEY = map_of s1 ROLES_KEY" "map_of settings SCOPES_KEY = map_of s1 SCOPES_KEY"
    by (simp_all add: s record_change_def ROLES_KEY_def SCOPES_KEY_def)
  show ?case
    using with_role_grows [OF set(2) s1] well_kept_other [OF _ k] by blast
next
  case (reconciled before accounts claim settings)
  define out where "out = dput SCHEMA_KEY (PInt POSTING_ROLES_SCHEMA) before"
  have out: "well_kept out m sc" using well_kept_other [OF reconciled(2)] role_keys by (simp add: out_def)
  show ?case
  proof (cases "dhas out SOURCE_CONTROLS_KEY")
    case True
    then show ?thesis using reconciled(1) out scopes_grow_refl by (auto simp: reconciled_settings_def Let_def out_def)
  next
    case False
    then obtain current where
      "foldR (reconcile_role current (dmerge seeded_roles current) accounts claim) out SEEDED_TARGETS = Inr settings"
      using reconciled(1) by (auto simp: reconciled_settings_def Let_def out_def rbind_eq_Inr)
    then show ?thesis
      by (rule foldR_invariant [where P = "\<lambda>s. \<exists>m' sc'. well_kept s m' sc' \<and> scopes_grow sc sc'"])
        (use out scopes_grow_refl reconcile_role_kept scopes_grow_trans in blast)+
  qed
next
  case (control before r code settings)
  have "map_of settings ROLES_KEY = map_of before ROLES_KEY" "map_of settings SCOPES_KEY = map_of before SCOPES_KEY"
    using control(1) role_keys [symmetric] by (auto simp: record_source_control_def rbind_eq_Inr split: if_splits)
  then show ?case using well_kept_other [OF control(2)] scopes_grow_refl by blast
next
  case (other settings before)
  then show ?case using well_kept_other [OF other(2)] scopes_grow_refl by auto
qed

lemma settings_changes_kept:
  assumes "settings_change\<^sup>*\<^sup>* settings settings'" "well_kept settings m sc"
  shows "\<exists>m' sc'. well_kept settings' m' sc' \<and> scopes_grow sc sc'"
  using assms
proof (induction rule: rtranclp_induct)
  case base
  then show ?case using scopes_grow_refl by blast
next
  case (step y z)
  then show ?case using settings_change_kept scopes_grow_trans by metis
qed

section \<open>A line of the books\<close>

lemma check_role_served:
  assumes "well_kept settings m sc" "check_role settings m accounts code v = Inr u"
  shows "\<exists>r. v = PStr (role_value r) \<and> code \<in> set (scope_of sc r)"
proof -
  obtain s r where s: "v = PStr s" "role_of s = Some r"
    using assms(2) by (cases v) (auto simp: check_role_def split: option.splits)
  then have "code \<in> set (scope_of sc r)"
    using assms by (auto simp: check_role_def well_kept_def in_scope_plain rbind_eq_Inr split: if_splits)
  then show ?thesis using s role_value_of by blast
qed

lemma check_role_still_served:
  assumes "well_kept settings m sc" "code \<in> set (scope_of sc r)"
  shows "check_role settings m accounts code (PStr (role_value r)) =
    (if target_of m r = PStr code \<and> role_problem m accounts r \<noteq> None then Inl (HTTPError 409 ''posting.refused'') else Inr ())"
  using assms by (auto simp: check_role_def role_of_value well_kept_def in_scope_plain)

lemma roles_for_account_served:
  assumes "well_kept settings m sc" "roles_for_account settings (PStr code) = Inr names" "n \<in> set names"
  shows "\<exists>r. n = role_value r \<and> code \<in> set (scope_of sc r)"
proof -
  have m: "role_map settings = Inr m" using assms(1) by (simp add: well_kept_def)
  obtain rs where rs: "filterR (serves settings m (PStr code)) account_roles = Inr rs" "names = sort (map role_value rs)"
    using assms(2) by (auto simp: roles_for_account_def m rmap_eq_Inr)
  obtain r where r: "n = role_value r" "r \<in> set rs" using assms(3) rs(2) by auto
  have "serves settings m (PStr code) r = Inr True" using filterR_elem [OF rs(1) r(2)] by blast
  then have "code \<in> set (scope_of sc r)"
    using assms(1) by (auto simp: serves_def well_kept_def in_scope_plain split: if_splits)
  then show ?thesis using r(1) by blast
qed

text \<open>The roles a line carries once it has been accepted.\<close>

lemma accepted_line_served:
  assumes "well_kept settings m sc" "prepare_line settings m accounts restored line = Inr line'"
    and "dget line' ''account_roles'' \<noteq> PNone" "dget line' ''account'' = PStr code"
  obtains vs where "py_iter (dget line' ''account_roles'') = Inr vs" "\<forall>v\<in>set vs. \<exists>r. v = PStr (role_value r) \<and> code \<in> set (scope_of sc r)"
proof (cases "dget line ''account_roles'' = PNone")
  case True
  obtain c where c: "dget line ''account'' = PStr c" using assms(2) by (cases "dget line ''account''") (auto simp: prepare_line_def)
  obtain rs where rs: "roles_for_account settings (PStr c) = Inr rs" "line' = dput ''account_roles'' (PList (map PStr rs)) line"
    using assms(2,3) True by (auto simp: prepare_line_def c rmap_eq_Inr split: if_splits option.splits)
  then show ?thesis
    using assms(4) c roles_for_account_served [OF assms(1) rs(1)] by (intro that [of "map PStr rs"]) auto
next
  case False
  obtain c where c: "dget line ''account'' = PStr c" using assms(2) by (cases "dget line ''account''") (auto simp: prepare_line_def)
  then obtain vs us where vs: "py_iter (dget line ''account_roles'') = Inr vs" "mapR (check_role settings m accounts c) vs = Inr us" "line' = line"
    using assms(2) False by (auto simp: prepare_line_def rbind_eq_Inr rmap_eq_Inr split: if_splits option.splits)
  have "\<exists>u. check_role settings m accounts c v = Inr u" if "v \<in> set vs" for v using mapR_elem [OF vs(2) that] by blast
  then show ?thesis using that [of vs] vs(1,3) c assms(4) check_role_served [OF assms(1)] by fastforce
qed

lemma mapR_unless:
  assumes "\<forall>x\<in>set xs. f x = Inr () \<or> f x = Inl e \<and> Q x"
  shows "(\<exists>us. mapR f xs = Inr us) \<or> mapR f xs = Inl e \<and> (\<exists>x\<in>set xs. Q x)"
  using assms by (induction xs) auto

text \<open>A line once accepted stays acceptable on its account for its roles, whatever the company's roles,
  scopes and other settings become later: it is refused only when its account is still what one of its
  roles points at and can no longer take it, as an account that was retyped, switched off or made a
  header.  So what was recognized before a role was pointed elsewhere can still be settled or reversed
  on the account that holds it.\<close>

theorem accepted_line_stays_acceptable:
  assumes "well_kept settings m sc" "prepare_line settings m accounts restored line = Inr line'"
    and "dget line' ''account_roles'' \<noteq> PNone" "dget line' ''account'' = PStr code"
    and "settings_change\<^sup>*\<^sup>* settings settings'" "role_map settings' = Inr m'"
    and "\<forall>chart. accounts' = Some chart \<longrightarrow> map_of chart code \<noteq> None"
  shows "prepare_line settings' m' accounts' restored' line' = Inr line'
    \<or> prepare_line settings' m' accounts' restored' line' = Inl (HTTPError 409 ''posting.refused'')
      \<and> (\<exists>r. target_of m' r = PStr code \<and> role_problem m' accounts' r \<noteq> None)"
proof -
  obtain vs where vs: "py_iter (dget line' ''account_roles'') = Inr vs"
    "\<forall>v\<in>set vs. \<exists>r. v = PStr (role_value r) \<and> code \<in> set (scope_of sc r)"
    using accepted_line_served [OF assms(1-4)] .
  obtain sc' where kept: "well_kept settings' m' sc'" "scopes_grow sc sc'"
    using settings_changes_kept [OF assms(5,1)] assms(6) by (auto simp: well_kept_def)
  have "\<forall>v\<in>set vs. check_role settings' m' accounts' code v = Inr ()
      \<or> check_role settings' m' accounts' code v = Inl (HTTPError 409 ''posting.refused'')
        \<and> (\<exists>r. target_of m' r = PStr code \<and> role_problem m' accounts' r \<noteq> None)"
  proof
    fix v assume "v \<in> set vs"
    then obtain r where r: "v = PStr (role_value r)" "code \<in> set (scope_of sc' r)" using vs(2) kept(2) unfolding scopes_grow_def by blast
    then show "check_role settings' m' accounts' code v = Inr ()
      \<or> check_role settings' m' accounts' code v = Inl (HTTPError 409 ''posting.refused'')
        \<and> (\<exists>r. target_of m' r = PStr code \<and> role_problem m' accounts' r \<noteq> None)"
      using check_role_still_served [OF kept(1) r(2), of accounts'] by (auto split: if_splits)
  qed
  from mapR_unless [OF this] show ?thesis
    using assms(3,4,7) vs(1) by (auto simp: prepare_line_def split: option.splits)
qed

section \<open>The seeded chart\<close>

lemma update_same: "map_of d k = Some v \<Longrightarrow> AList.update k v d = d"
  by (induction d) auto

definition chosen :: "dict \<Rightarrow> dict \<Rightarrow> chart \<Rightarrow> account_role list \<Rightarrow> account_role \<Rightarrow> string \<Rightarrow> bool" where
  "chosen current trial accounts claim r code \<longleftrightarrow>
     (r \<in> set UNGUESSED_ROLES \<longrightarrow> r \<in> set claim) \<and> \<not> truthy (target_of current r)
     \<and> target_problem r trial (map_of accounts code) = None"

lemma reconcile_role_chosen:
  "reconcile_role current trial accounts claim out (r, code)
    = (if chosen current trial accounts claim r code then with_role out r code else Inr out)"
  by (auto simp: reconcile_role_def chosen_def)

text \<open>Every role the settings name is set.\<close>

definition set_roles :: "dict \<Rightarrow> bool" where
  "set_roles m \<longleftrightarrow> distinct (map fst m) \<and> list_all (\<lambda>p. truthy (snd p)) m"

lemma set_roles_put: "set_roles m \<Longrightarrow> code \<noteq> [] \<Longrightarrow> set_roles (dput k (PStr code) m)"
  unfolding set_roles_def by (auto simp: list_all_iff distinct_update dest!: update_elem)

lemma reconcile_fold:
  assumes "well_kept out m sc" "distinct (map fst rcs)" "map_of out SCHEMA_KEY = Some (PInt POSTING_ROLES_SCHEMA)" "set_roles m"
    and "\<And>r code. (r, code) \<in> set rcs \<Longrightarrow> code \<noteq> [] \<and> (c (r, code) \<longleftrightarrow> chosen current trial accounts claim r code)"
  shows "\<exists>out' m' sc'. foldR (reconcile_role current trial accounts claim) out rcs = Inr out' \<and> well_kept out' m' sc' \<and> set_roles m'
     \<and> (\<forall>r. target_of m' r = (case map_of (filter c rcs) r of Some code \<Rightarrow> PStr code | None \<Rightarrow> target_of m r))
     \<and> map_of out' SOURCE_CONTROLS_KEY = map_of out SOURCE_CONTROLS_KEY \<and> (filter c rcs = [] \<longrightarrow> out' = out)
     \<and> map_of out' SCHEMA_KEY = Some (PInt POSTING_ROLES_SCHEMA)"
  using assms
proof (induction rcs arbitrary: out m sc)
  case (Cons rc rcs)
  obtain r code where rc: "rc = (r, code)" by (cases rc)
  have ih: "(r', code') \<in> set rcs \<Longrightarrow> code' \<noteq> [] \<and> (c (r', code') \<longleftrightarrow> chosen current trial accounts claim r' code')" for r' code'
    using Cons.prems(5) [of r' code'] by (simp add: rc)
  show ?case
  proof (cases "c rc")
    case True
    obtain s' where s': "with_role out r code = Inr s'"
      "well_kept s' (dput (role_value r) (PStr code) m) (noted_scope sc (role_value r) code)"
      "map_of s' SCHEMA_KEY = Some (PInt POSTING_ROLES_SCHEMA)" "map_of s' SOURCE_CONTROLS_KEY = map_of out SOURCE_CONTROLS_KEY"
      using with_role_kept [OF Cons.prems(1), of r code] role_keys by metis
    have set: "set_roles (dput (role_value r) (PStr code) m)" using Cons.prems(5) [of r code] by (intro set_roles_put [OF Cons.prems(4)]) (simp add: rc)
    have none: "map_of (filter c rcs) r = None" using Cons.prems(2) by (force simp: rc map_of_eq_None_iff)
    from Cons.IH [OF s'(2) _ s'(3) set ih] Cons.prems(2) True s'(4) obtain out' m' sc' where
      "foldR (reconcile_role current trial accounts claim) s' rcs = Inr out'" "well_kept out' m' sc'" "set_roles m'"
      "\<forall>r'. target_of m' r' = (case map_of (filter c rcs) r' of Some code \<Rightarrow> PStr code
         | None \<Rightarrow> target_of (dput (role_value r) (PStr code) m) r')"
      "map_of out' SOURCE_CONTROLS_KEY = map_of out SOURCE_CONTROLS_KEY" "map_of out' SCHEMA_KEY = Some (PInt POSTING_ROLES_SCHEMA)"
      by (auto simp: rc)
    then show ?thesis using True Cons.prems(5) [of r code] s'(1) none
      by (intro exI [of _ out'] exI [of _ m'] exI [of _ sc'])
        (auto simp: rc reconcile_role_chosen target_of_put split: option.splits)
  next
    case False
    from Cons.IH [OF Cons.prems(1) _ Cons.prems(3,4) ih] Cons.prems(2) show ?thesis
      using False Cons.prems(5) [of r code] by (auto simp: rc reconcile_role_chosen)
  qed
qed auto

definition seeded :: "account_role \<Rightarrow> string" where
  "seeded r = (case map_of SEEDED_TARGETS r of Some c \<Rightarrow> c | None \<Rightarrow> [])"

lemma seeded_member: "(r, code) \<in> set SEEDED_TARGETS \<longleftrightarrow> code = seeded r"
proof -
  have "map_of SEEDED_TARGETS r = Some (seeded r)"
    by (cases r) (simp_all add: seeded_def SEEDED_TARGETS_def)
  then show ?thesis using role_names(3) by (metis map_of_eq_Some_iff option.inject)
qed

lemma seeded_roles_of: "map_of seeded_roles (role_value r) = Some (PStr (seeded r))"
proof -
  have "map_of (map (\<lambda>(r, c). (role_value r, PStr c)) xs) (role_value r) = map_option PStr (map_of xs r)" for xs
    by (induction xs) auto
  moreover have "map_of SEEDED_TARGETS r = Some (seeded r)" using seeded_member role_names(3) by (metis map_of_eq_Some_iff)
  ultimately show ?thesis by (simp add: seeded_roles_def)
qed

text \<open>A pair shares its seeded account.\<close>

lemma pair_cases:
  "role_pair_of r = None \<or> (\<exists>g l. role_pair_of r = Some (g, l) \<and> (r = g \<or> r = l) \<and> (g, l) \<in> set SHARED_PAIRS)"
  by (auto simp: role_pair_of_def SHARED_PAIRS_def)

lemma shared_pair:
  assumes "(g, l) \<in> set SHARED_PAIRS"
  shows "role_pair_of g = Some (g, l)" "role_pair_of l = Some (g, l)" "seeded g = seeded l" "seeded g \<noteq> []"
    "g \<in> set UNGUESSED_ROLES \<longleftrightarrow> l \<in> set UNGUESSED_ROLES" "postable g" "postable l"
proof -
  have "g = FX_GAIN \<and> l = FX_LOSS \<or> g = DISPOSAL_GAIN \<and> l = DISPOSAL_LOSS"
    using assms by (auto simp: SHARED_PAIRS_def)
  moreover have "seeded FX_GAIN = ''6960''" "seeded FX_LOSS = ''6960''" "seeded DISPOSAL_GAIN = ''6980''" "seeded DISPOSAL_LOSS = ''6980''"
    by code_simp+
  ultimately show "role_pair_of g = Some (g, l)" "role_pair_of l = Some (g, l)" "seeded g = seeded l" "seeded g \<noteq> []"
      "g \<in> set UNGUESSED_ROLES \<longleftrightarrow> l \<in> set UNGUESSED_ROLES" "postable g" "postable l"
    by (auto simp: role_pair_of_def SHARED_PAIRS_def UNGUESSED_ROLES_def postable_def)
qed

lemma seeded_nonempty: "seeded r \<noteq> []"
  by (cases r) (simp_all add: seeded_def SEEDED_TARGETS_def)

lemma trial_target:
  assumes "set_roles m"
  shows "target_of (dmerge seeded_roles m) r = (if truthy (target_of m r) then target_of m r else PStr (seeded r))"
proof -
  have "truthy v" if "map_of m (role_value r) = Some v" for v
    using assms map_of_SomeD [OF that] by (auto simp: set_roles_def list_all_iff)
  then show ?thesis
    using assms seeded_roles_of [of r]
    by (cases "map_of m (role_value r)") (auto simp: target_of_def dget_def dget_or_def map_of_dmerge_distinct set_roles_def)
qed

lemma allowed_types_cong: "(\<And>r. target_of m r = target_of m' r) \<Longrightarrow> allowed_types r m = allowed_types r m'"
  by (simp add: allowed_types_def split: option.splits)

lemma target_problem_cong: "allowed_types r m = allowed_types r m' \<Longrightarrow> target_problem r m a = target_problem r m' a"
  by (simp add: target_problem_def split: option.splits)

text \<open>A role the loop points at its seeded account can take postings there under the new roles.\<close>

lemma chosen_types:
  assumes "set_roles m" "list_all (\<lambda>(g, l). g \<in> set claim \<longleftrightarrow> l \<in> set claim) SHARED_PAIRS"
    and new: "\<And>r. target_of m' r =
      (if chosen m (dmerge seeded_roles m) accounts claim r (seeded r) then PStr (seeded r) else target_of m r)"
    and r: "chosen m (dmerge seeded_roles m) accounts claim r (seeded r)"
  shows "allowed_types r m' = allowed_types r (dmerge seeded_roles m)"
proof -
  let ?t = "dmerge seeded_roles m"
  consider "role_pair_of r = None" | g l where "role_pair_of r = Some (g, l)" "r = g \<or> r = l" "(g, l) \<in> set SHARED_PAIRS"
    using pair_cases [of r] by metis
  then show ?thesis
  proof cases
    case 2
    note pair = shared_pair [OF 2(3)]
    have same: "target_of m' q = target_of ?t q" if q: "q = g \<or> q = l" for q
    proof (cases "truthy (target_of m q)")
      case True
      then show ?thesis using new [of q] trial_target [OF assms(1), of q] by (auto simp: chosen_def)
    next
      case False
      have types: "allowed_types q ?t = allowed_types r ?t" if "\<not> truthy (target_of m r)"
        using trial_target [OF assms(1)] pair 2(2) q that False by (auto simp: allowed_types_def seeded_nonempty)
      have "chosen m ?t accounts claim q (seeded q)"
        using r types False 2(2,3) q pair assms(2) by (auto simp: chosen_def target_problem_def list_all_iff split: option.splits if_splits)
      then show ?thesis using new [of q] trial_target [OF assms(1), of q] False by simp
    qed
    show ?thesis using same by (simp add: allowed_types_def 2(1))
  qed (simp add: allowed_types_def)
qed

lemma seeded_map: "map_of (filter c SEEDED_TARGETS) r = (if c (r, seeded r) then Some (seeded r) else None)"
proof -
  have "(r, seeded r) \<in> set SEEDED_TARGETS" by (simp add: seeded_member)
  then show ?thesis
    using distinct_map_filter [OF role_names(3), of c] by (auto simp: map_of_eq_None_iff image_iff seeded_member intro: map_of_is_SomeI)
qed

text \<open>Pointing a company's roles at the seeded chart changes no role already set; every role it does set
  can take postings at once, on its seeded account; and running it again changes nothing.\<close>

theorem reconciled_roles_fit:
  assumes "well_kept settings m sc" "set_roles m" "reconciled_settings settings accounts claim = Inr settings'"
    and "list_all (\<lambda>(g, l). g \<in> set claim \<longleftrightarrow> l \<in> set claim) SHARED_PAIRS"
  shows "\<exists>m'. role_map settings' = Inr m' \<and> reconciled_settings settings' accounts claim = Inr settings'
    \<and> (\<forall>r. target_of m' r = target_of m r
         \<or> \<not> truthy (target_of m r) \<and> target_of m' r = PStr (seeded r) \<and> role_problem m' (Some accounts) r = None)"
proof (cases "dhas settings SOURCE_CONTROLS_KEY")
  case True
  let ?out = "dput SCHEMA_KEY (PInt POSTING_ROLES_SCHEMA) settings"
  have "settings' = ?out" using assms(3) True role_keys by (simp add: reconciled_settings_def)
  moreover have "role_map ?out = Inr m" using assms(1) role_keys by (simp add: well_kept_def role_map_def stored_dict_other)
  ultimately show ?thesis using True role_keys by (auto simp: reconciled_settings_def update_same)
next
  case False
  let ?t = "dmerge seeded_roles m"
  define out where "out = dput SCHEMA_KEY (PInt POSTING_ROLES_SCHEMA) settings"
  define c where "c = (\<lambda>(r, code). chosen m ?t accounts claim r code)"
  have out: "well_kept out m sc" "map_of out SCHEMA_KEY = Some (PInt POSTING_ROLES_SCHEMA)" "map_of out SOURCE_CONTROLS_KEY = None"
    using well_kept_other [OF assms(1), of out] role_keys False by (simp_all add: out_def)
  have c: "(r, code) \<in> set SEEDED_TARGETS \<Longrightarrow> code \<noteq> [] \<and> (c (r, code) \<longleftrightarrow> chosen m ?t accounts claim r code)" for r code
    by (simp add: c_def seeded_member seeded_nonempty)
  obtain s1 m' sc' where s1: "foldR (reconcile_role m ?t accounts claim) out SEEDED_TARGETS = Inr s1"
    "well_kept s1 m' sc'" "set_roles m'" "map_of s1 SOURCE_CONTROLS_KEY = map_of out SOURCE_CONTROLS_KEY"
    "map_of s1 SCHEMA_KEY = Some (PInt POSTING_ROLES_SCHEMA)"
    and target: "\<forall>r. target_of m' r = (case map_of (filter c SEEDED_TARGETS) r of Some code \<Rightarrow> PStr code | None \<Rightarrow> target_of m r)"
    using reconcile_fold [OF out(1) role_names(3) out(2) assms(2) c] by blast
  have "role_map out = Inr m" using out(1) by (simp add: well_kept_def)
  then have "s1 = settings'" using assms(3) out(3) s1(1) by (simp add: reconciled_settings_def Let_def out_def [symmetric])
  note s' = s1(1-3,5) [unfolded this] s1(4) [unfolded this out(3)]
  have new: "target_of m' r = (if chosen m ?t accounts claim r (seeded r) then PStr (seeded r) else target_of m r)" for r
    using target by (simp add: seeded_map c_def)
  have again: "target_of (dmerge seeded_roles m') r = target_of ?t r" for r
    using trial_target [OF s'(3), of r] trial_target [OF assms(2), of r] new [of r] by (auto simp: chosen_def seeded_nonempty)
  have none: "\<not> chosen m' (dmerge seeded_roles m') accounts claim r (seeded r)" for r
    using new [of r] target_problem_cong [OF allowed_types_cong [OF again], of r "map_of accounts (seeded r)"]
    by (auto simp: chosen_def seeded_nonempty split: if_splits)
  have "filter (\<lambda>(r, code). chosen m' (dmerge seeded_roles m') accounts claim r code) SEEDED_TARGETS = []"
    using none by (auto simp: filter_empty_conv seeded_member)
  then have "foldR (reconcile_role m' (dmerge seeded_roles m') accounts claim) settings' SEEDED_TARGETS = Inr settings'"
    using reconcile_fold [OF s'(2) role_names(3) s'(4,3), of "\<lambda>(r, code). chosen m' (dmerge seeded_roles m') accounts claim r code"]
    by (force simp: seeded_member seeded_nonempty)
  then have "reconciled_settings settings' accounts claim = Inr settings'"
    using s'(2,4,5) by (simp add: reconciled_settings_def update_same well_kept_def)
  moreover have "role_problem m' (Some accounts) r = None" if "chosen m ?t accounts claim r (seeded r)" for r
    using target_problem_cong [OF chosen_types [OF assms(2,4) new that], of "map_of accounts (seeded r)"] that new [of r]
    by (simp add: role_problem_def chart_get_def chosen_def seeded_nonempty)
  ultimately show ?thesis using s'(2) new by (auto simp: well_kept_def chosen_def)
qed

section \<open>Posting keys\<close>

text \<open>A posting key gives back the account and whom it is owed to, and two keys of one account differ
  exactly when they are owed to different consignors.\<close>

lemma party_key_round_trip:
  assumes "CHR ''|'' \<notin> set code" "contact \<noteq> Some []"
  shows "split_party_key (party_key code contact) = (code, contact)"
proof -
  have t: "takeWhile (\<lambda>c. c \<noteq> CHR ''|'') (code @ rest) = code @ takeWhile (\<lambda>c. c \<noteq> CHR ''|'') rest"
    "dropWhile (\<lambda>c. c \<noteq> CHR ''|'') (code @ rest) = dropWhile (\<lambda>c. c \<noteq> CHR ''|'') rest" for rest
    using assms(1) by (induction code) auto
  show ?thesis
  proof (cases contact)
    case (Some k)
    then obtain x xs where "contact = Some (x # xs)" using assms(2) by (cases k) auto
    then show ?thesis by (simp add: party_key_def split_party_key_def t)
  next
    case None
    have "dropWhile (\<lambda>c. c \<noteq> CHR ''|'') code = []" "takeWhile (\<lambda>c. c \<noteq> CHR ''|'') code = code"
      using t [of "[]"] by simp_all
    then show ?thesis by (simp only: None party_key_def split_party_key_def option.case list.case)
  qed
qed

section \<open>Examples\<close>

definition demo_role_settings :: dict where
  "demo_role_settings =
     [(SCHEMA_KEY, PInt 4), (ROLES_KEY, PDict [(''receivable'', PStr ''1120'')]),
      (SCOPES_KEY, PDict [(''receivable'', PList [PStr ''1120''])])]"

definition demo_chart :: chart where
  "demo_chart = [(''1120'', \<lparr>ca_type = ''asset'', ca_active = True, ca_header = False\<rparr>),
     (''1121'', \<lparr>ca_type = ''asset'', ca_active = True, ca_header = False\<rparr>)]"

lemma demo_well_kept: "well_kept demo_role_settings [(''receivable'', PStr ''1120'')] [(''receivable'', PList [PStr ''1120''])]"
proof -
  have r: "role_value r = ''receivable'' \<longleftrightarrow> r = RECEIVABLE" for r
    using role_value_eq [of r RECEIVABLE] by (simp add: role_value_def ROLE_VALUES_def)
  have "plain_scopes [(''receivable'', PList [PStr ''1120''])]"
    by (auto simp: plain_scopes_def intro: exI [of _ "[''1120'']"])
  then show ?thesis
    by (auto simp: well_kept_def role_map_def stored_dict_def demo_role_settings_def ROLES_KEY_def SCOPES_KEY_def SCHEMA_KEY_def
        dget_def dget_or_def py_or_def as_dict_def target_of_def scope_of_def r split: if_splits)
qed

text \<open>A receivable recognized on 1120; then the role is pointed at 1121.\<close>

lemma accepted_line_stays_acceptable_witness:
  "\<exists>settings'. set_role demo_role_settings (Some demo_chart) [] [] PNone PNone ''receivable'' ''1121'' = Inr settings'
     \<and> (\<exists>m'. role_map settings' = Inr m' \<and> target_of m' RECEIVABLE = PStr ''1121''
        \<and> prepare_line settings' m' (Some demo_chart) False [(''account'', PStr ''1120''), (''account_roles'', PList [PStr ''receivable''])]
          = Inr [(''account'', PStr ''1120''), (''account_roles'', PList [PStr ''receivable''])])"
proof -
  let ?line = "[(''account'', PStr ''1120''), (''account_roles'', PList [PStr ''receivable''])]"
  have line: "prepare_line demo_role_settings [(''receivable'', PStr ''1120'')] (Some demo_chart) False ?line = Inr ?line"
    by code_simp
  define settings' where "settings' = projr (set_role demo_role_settings (Some demo_chart) [] [] PNone PNone ''receivable'' ''1121'')"
  have s': "set_role demo_role_settings (Some demo_chart) [] [] PNone PNone ''receivable'' ''1121'' = Inr settings'"
    "role_map settings' = Inr [(''receivable'', PStr ''1121'')]"
    unfolding settings'_def by code_simp+
  have other: "target_of [(''receivable'', PStr ''1121'')] r \<noteq> PStr ''1120''" for r
    by (simp add: target_of_def dget_def dget_or_def)
  show ?thesis
    using accepted_line_stays_acceptable [OF demo_well_kept line _ _ _ s'(2), of "''1120''" "Some demo_chart" False]
      settings_change.set [OF s'(1)] s' other
    by (auto simp: dget_def dget_or_def demo_chart_def target_of_def role_value_def ROLE_VALUES_def)
qed

lemma reconciled_roles_fit_witness:
  "\<exists>settings' m'. reconciled_settings demo_role_settings demo_chart [] = Inr settings' \<and> role_map settings' = Inr m'
     \<and> reconciled_settings settings' demo_chart [] = Inr settings' \<and> target_of m' RECEIVABLE = PStr ''1120''"
proof -
  define settings' where "settings' = projr (reconciled_settings demo_role_settings demo_chart [])"
  have s': "reconciled_settings demo_role_settings demo_chart [] = Inr settings'"
    unfolding settings'_def by code_simp
  have "set_roles [(''receivable'', PStr ''1120'')]" "target_of [(''receivable'', PStr ''1120'')] RECEIVABLE = PStr ''1120''"
    by (simp_all add: set_roles_def target_of_def dget_def dget_or_def role_value_def ROLE_VALUES_def)
  moreover have "list_all (\<lambda>(g, l). g \<in> set [] \<longleftrightarrow> l \<in> set ([] :: account_role list)) SHARED_PAIRS" by (simp add: SHARED_PAIRS_def)
  ultimately show ?thesis using reconciled_roles_fit [OF demo_well_kept _ s'] s' by (metis truthy.simps(5) list.distinct(1))
qed

end
