(* ===== verification/JournalEntry.thy ===== *)
theory JournalEntry
  imports PostingRoles DocMoney LineWrite
begin

text \<open>
  The entries \<open>celerp/services/auto_je.py\<close> posts for a document: the sale and its cost, a credit note, a
  payment and what is given back of it, a note applied to a document, a purchase order's receipt and a
  bill less what its receipts booked.  Each is the list of journal lines its \<open>create_for_\<dots>\<close> function
  hands over, and \<open>emit_auto_posted_je\<close> is the one place the lines become money.

  What these functions read of the database is an argument: the settings, the chart (\<open>PostingRoles\<close>),
  the cost of the goods sold by account (\<open>compute_doc_cogs\<close>), the account a document's balance was
  recognized on (\<open>party_origin\<close>), the items a bill names, and what the receipts of a bill booked.  The
  metadata of the ledger row, and the module that keeps the assets a line sells, are left out.
\<close>

section \<open>Lines\<close>

definition dabs :: "dec \<Rightarrow> dec res" where
  "dabs d = (case d of Fin c e \<Rightarrow> Inr (dfix (Fin \<bar>c\<bar> e)) | Inf _ \<Rightarrow> Inr (Inf False) | NaN \<Rightarrow> Inr NaN | SNaN \<Rightarrow> Inl ArithmeticError)"

abbreviation dec0 :: dec where "dec0 \<equiv> Fin 0 0"

definition journal_line :: "string \<Rightarrow> account_role \<Rightarrow> pyval \<Rightarrow> pyval \<Rightarrow> dict" where
  "journal_line code r debit credit =
     [(''account'', PStr code), (''account_roles'', PList [PStr (role_value r)]), (''debit'', debit), (''credit'', credit)]"

definition origin_line :: "dict \<Rightarrow> string \<Rightarrow> account_role \<Rightarrow> pyval \<Rightarrow> pyval \<Rightarrow> dict res" where
  "origin_line settings code r debit credit =
     rmap (\<lambda>served. if served then journal_line code r debit credit
                     else [(''account'', PStr code), (''debit'', debit), (''credit'', credit)])
       (in_scope settings r (PStr code))"

definition lot_line :: "dict \<Rightarrow> string \<Rightarrow> pyval \<Rightarrow> pyval \<Rightarrow> dict res" where
  "lot_line settings key debit credit =
     (let (code, contact) = split_party_key key in
      rbind (in_scope settings CONSIGNOR_PAYABLE (PStr code)) (\<lambda>owed.
      rbind (if owed then Inr CONSIGNOR_PAYABLE
             else rmap (\<lambda>bought. if bought then INVENTORY_PURCHASED else INVENTORY_OPENING)
                    (in_scope settings INVENTORY_PURCHASED (PStr code))) (\<lambda>r.
      rmap (\<lambda>line. case contact of Some c \<Rightarrow> dput ''contact'' (PStr c) line | None \<Rightarrow> line)
        (origin_line settings code r debit credit))))"

text \<open>What a role was resolved to.\<close>

definition role_code :: "(account_role \<times> string) list \<Rightarrow> account_role \<Rightarrow> string" where
  "role_code acc r = (case map_of acc r of Some c \<Rightarrow> c | None \<Rightarrow> [])"

definition side_total :: "string \<Rightarrow> dict list \<Rightarrow> dec res" where
  "side_total side entries = rbind (mapR (\<lambda>e. to_decimal (dget e side)) entries) dec_sum"

section \<open>The exchange difference\<close>

definition exchange_gap :: "dict list \<Rightarrow> dec res" where
  "exchange_gap entries =
     rbind (side_total ''debit'' entries) (\<lambda>d. rbind (side_total ''credit'' entries) (\<lambda>c. dsub d c))"

definition fx_difference_role :: "dict list \<Rightarrow> account_role option res" where
  "fx_difference_role entries =
     rbind (exchange_gap entries) (\<lambda>gap. rbind (deq gap dec0) (\<lambda>none.
     if none then Inr None else rmap (\<lambda>up. Some (if up then FX_GAIN else FX_LOSS)) (dless dec0 gap)))"

definition balanced_with_fx_difference :: "dict list \<Rightarrow> dict \<Rightarrow> dict list res" where
  "balanced_with_fx_difference entries difference =
     rbind (exchange_gap entries) (\<lambda>gap. rbind (deq gap dec0) (\<lambda>none.
     if none then Inr entries
     else rbind (dless dec0 gap) (\<lambda>up. rbind (rbind (dabs gap) to_stored_float) (\<lambda>v.
          Inr (entries @ [dput (if up then ''credit'' else ''debit'') v
                 (dmerge difference [(''debit'', PFloat 0), (''credit'', PFloat 0)])])))))"

definition with_fx_difference :: "dict \<Rightarrow> chart option \<Rightarrow> dict list \<Rightarrow> dict list res" where
  "with_fx_difference settings accounts entries =
     rbind (fx_difference_role entries) (\<lambda>fx.
     case fx of
       None \<Rightarrow> Inr entries
     | Some r \<Rightarrow> rbind (resolve_importing settings accounts r) (\<lambda>account.
         rbind (origin_line settings account r (PFloat 0) (PFloat 0)) (\<lambda>line. balanced_with_fx_difference entries line)))"

section \<open>Posting\<close>

record auto_entry =
  ae_id :: string
  ae_created_key :: string
  ae_posted_key :: string
  ae_ts :: pyval
  ae_lines :: "dict list"

definition rounded_line :: "pyval \<Rightarrow> dict \<Rightarrow> dict res" where
  "rounded_line currency e =
     rbind (rbind (rbind (to_decimal0 (dget e ''debit'')) (\<lambda>d. round_money d currency)) to_stored_float) (\<lambda>debit.
     rbind (rbind (rbind (to_decimal0 (dget e ''credit'')) (\<lambda>d. round_money d currency)) to_stored_float) (\<lambda>credit.
     Inr (dput ''credit'' credit (dput ''debit'' debit e))))"

text \<open>The lines an entry is written with: rounded to the currency of the books, those that move
  nothing dropped, refused when the two sides differ.\<close>

definition posted_lines :: "pyval \<Rightarrow> dict list \<Rightarrow> dict list res" where
  "posted_lines currency entries =
     rbind (mapR (rounded_line currency) entries) (\<lambda>rounded.
     rbind (filterR line_moves rounded) (\<lambda>lines.
     rbind (side_total ''debit'' lines) (\<lambda>debits.
     rbind (side_total ''credit'' lines) (\<lambda>credits.
     rbind (deq debits credits) (\<lambda>same.
     if same then Inr lines else Inl (RefusedError ''error.auto_je_unbalanced''))))))"

definition je_idempotency_key :: "string \<Rightarrow> string \<Rightarrow> string \<Rightarrow> string" where
  "je_idempotency_key doc_id je_type suffix = ''je:'' @ doc_id @ '':'' @ je_type @ '':'' @ suffix"

definition emit_auto_posted_je :: "string \<Rightarrow> string \<Rightarrow> string \<Rightarrow> pyval \<Rightarrow> pyval \<Rightarrow> dict list \<Rightarrow> auto_entry res" where
  "emit_auto_posted_je doc_id suffix je_type ts currency entries =
     rmap (\<lambda>lines. \<lparr>ae_id = ''je:auto:'' @ doc_id @ '':'' @ suffix,
         ae_created_key = je_idempotency_key doc_id je_type ''c'', ae_posted_key = je_idempotency_key doc_id je_type ''p'',
         ae_ts = ts, ae_lines = lines\<rparr>)
       (posted_lines currency entries)"

definition finalize_cycle :: "dict \<Rightarrow> string \<Rightarrow> (string \<times> string) res" where
  "finalize_cycle doc what =
     rmap (\<lambda>cycle. if cycle \<noteq> 0 then (''fin:'' @ int_str cycle, what @ ''.finalized:'' @ int_str cycle) else (''fin'', what @ ''.finalized''))
       (py_int (dget_or doc ''revert_count'' (PInt 0)))"

definition finalized_entry_day :: "dict \<Rightarrow> pyval" where
  "finalized_entry_day doc = py_or (dget doc ''finalized_at'') (dget doc ''issue_date'')"

definition shares :: "(string \<times> rat) list \<Rightarrow> rat \<Rightarrow> pyval \<Rightarrow> (string \<times> pyval) list res" where
  "shares parts amount currency =
     (case filter (\<lambda>(k, v). 0 < v) parts of
        [] \<Rightarrow> (case parts of
            [] \<Rightarrow> Inl RuntimeError
          | (k, _) # _ \<Rightarrow> rmap (\<lambda>v. [(k, v)]) (rbind (round_money (dec_of_float amount) currency) to_stored_float))
      | weighted \<Rightarrow>
          rbind (allocate_pro_rata (dec_of_float amount) (map (dec_of_float \<circ> snd) weighted) currency) (\<lambda>ss.
          mapR (\<lambda>(k, s). rmap (Pair k) (to_stored_float s)) (zip (map fst weighted) ss)))"

section \<open>A sale\<close>

definition entry_currency :: "dict \<Rightarrow> pyval" where
  "entry_currency doc = dget_or doc ''currency'' (PStr ''USD'')"

text \<open>\<open>to_base(v, rate, base_currency)\<close> of a stored amount.\<close>

definition base_amount :: "pyval \<Rightarrow> dec \<Rightarrow> pyval \<Rightarrow> pyval res" where
  "base_amount v rate base = rbind (to_decimal v) (\<lambda>d. to_base d rate base)"

text \<open>\<open>to_stored_float(round_money(doc.get(field, 0), currency))\<close>.\<close>

definition stored_money :: "pyval \<Rightarrow> pyval \<Rightarrow> pyval res" where
  "stored_money v currency = rbind (rbind (to_decimal v) (\<lambda>d. round_money d currency)) to_stored_float"

definition less_amount :: "pyval \<Rightarrow> pyval \<Rightarrow> pyval res" where
  "less_amount a b = rbind (rbind (to_decimal a) (\<lambda>x. rbind (to_decimal b) (dsub x))) to_stored_float"

definition sale_totals :: "dict \<Rightarrow> pyval \<Rightarrow> (pyval \<times> pyval \<times> pyval) res" where
  "sale_totals doc base =
     rbind (require_doc_rate doc base) (\<lambda>rate.
     rbind (stored_money (dget_or doc ''total'' (PInt 0)) (entry_currency doc)) (\<lambda>t. rbind (base_amount t rate base) (\<lambda>tot.
     rbind (stored_money (dget_or doc ''tax'' (PInt 0)) (entry_currency doc)) (\<lambda>x. rbind (base_amount x rate base) (\<lambda>tax.
     rbind (less_amount tot tax) (\<lambda>revenue. Inr (tot, tax, revenue)))))))"

text \<open>Each line's share of the net, in the document's currency and in the books'; the position of a
  share is the index the source keys it by.\<close>

definition line_weight :: "pyval \<Rightarrow> pyval \<Rightarrow> dec res" where
  "line_weight currency v =
     (case v of
        PDict li \<Rightarrow> rbind (document_line_amount li currency) (\<lambda>a.
          dmax (case a of Some d \<Rightarrow> if dec_true d then d else dec0 | None \<Rightarrow> dec0) dec0)
      | _ \<Rightarrow> Inr dec0)"

definition line_allocations :: "dict \<Rightarrow> pyval \<Rightarrow> pyval \<Rightarrow> (pyval \<times> pyval \<times> pyval) list res" where
  "line_allocations doc base revenue =
     rbind (rows_or doc ''line_items'') (\<lambda>lines.
     rbind (mapR (line_weight (entry_currency doc)) lines) (\<lambda>ws.
     let weights = (if list_ex dec_true ws then ws else Fin 1 0 # replicate (length lines - 1) dec0) in
     rbind (rbind (to_decimal (dget_or doc ''total'' (PInt 0))) (\<lambda>d. round_money d (entry_currency doc))) (\<lambda>t.
     rbind (rbind (to_decimal (dget_or doc ''tax'' (PInt 0))) (\<lambda>d. round_money d (entry_currency doc))) (\<lambda>x.
     rbind (dsub t x) (\<lambda>net.
     rbind (allocate_pro_rata net weights (entry_currency doc)) (\<lambda>in_doc.
     rbind (rbind (to_decimal revenue) (\<lambda>r. allocate_pro_rata r weights base)) (\<lambda>in_base.
     mapR (\<lambda>(li, s, b). rbind (to_stored_float s) (\<lambda>s'. rmap (\<lambda>b'. (li, s', b')) (to_stored_float b)))
       (zip lines (zip in_doc in_base)))))))))"

definition asset_lines :: "dict \<Rightarrow> dict list res" where
  "asset_lines doc = rmap (\<lambda>vs. filter (\<lambda>li. truthy (dget li ''asset_id'')) (dict_items vs)) (rows_or doc ''line_items'')"

definition asset_line_proceeds :: "dict \<Rightarrow> pyval \<Rightarrow> string \<Rightarrow> dec res" where
  "asset_line_proceeds doc base asset =
     rbind (sale_totals doc base) (\<lambda>(_, _, revenue).
     rbind (line_allocations doc base revenue) (\<lambda>allocations.
     case List.find (\<lambda>(li, _). case li of PDict d \<Rightarrow> dget d ''asset_id'' = PStr asset | _ \<Rightarrow> False) allocations of
       Some (_, _, b) \<Rightarrow> to_decimal b
     | None \<Rightarrow> Inr dec0))"

definition fabs_val :: "pyval \<Rightarrow> pyval" where
  "fabs_val v = (case v of PFloat x \<Rightarrow> PFloat \<bar>x\<bar> | _ \<Rightarrow> v)"

text \<open>One share of \<open>asset_split\<close>; the state is \<open>(clearing, cleared)\<close>.\<close>

definition clear_share :: "string \<Rightarrow> bool \<Rightarrow> dict list \<times> dec \<Rightarrow> pyval \<times> pyval \<times> pyval \<Rightarrow> (dict list \<times> dec) res" where
  "clear_share code debit st share =
     (let (clearing, cleared) = st; (li, _, b) = share in
      rbind (vget li ''asset_id'') (\<lambda>asset.
      if truthy asset \<and> truthy b
      then rbind (to_decimal b) (\<lambda>amount. rbind (dadd cleared amount) (\<lambda>cleared'. rbind (dless dec0 amount) (\<lambda>up.
           let on_debit = (debit = up) in
           Inr (clearing @ [dput ''asset_id'' asset (journal_line code ASSET_DISPOSAL_CLEARING
                  (if on_debit then fabs_val b else PFloat 0) (if on_debit then PFloat 0 else fabs_val b))], cleared'))))
      else Inr (clearing, cleared)))"

definition asset_split :: "dict \<Rightarrow> chart option \<Rightarrow> dict \<Rightarrow> pyval \<Rightarrow> pyval \<Rightarrow> bool \<Rightarrow> (dict list \<times> pyval) res" where
  "asset_split settings accounts doc base revenue debit =
     rbind (asset_lines doc) (\<lambda>assets.
     if assets = [] then Inr ([], revenue)
     else rbind (line_allocations doc base revenue) (\<lambda>allocations.
          rbind (resolve settings accounts ASSET_DISPOSAL_CLEARING) (\<lambda>code.
          rbind (foldR (clear_share code debit) ([], dec0) allocations) (\<lambda>(clearing, cleared).
          rbind (rbind (rbind (to_decimal revenue) (\<lambda>r. dsub r cleared)) to_stored_float) (\<lambda>left.
          Inr (clearing, left))))))"

text \<open>The cost of what was sold, against the accounts it sat on: each amount rounded once, their sum on
  the cost side.\<close>

definition signed_sides :: "dec \<Rightarrow> (pyval \<times> pyval) res" where
  "signed_sides d =
     rbind (rbind (dmax d dec0) to_stored_float) (\<lambda>up.
     rbind (rbind (rbind (dneg d) (\<lambda>n. dmax n dec0)) to_stored_float) (\<lambda>down. Inr (up, down)))"

definition cogs_lines :: "dict \<Rightarrow> string \<Rightarrow> (string \<times> rat) list \<Rightarrow> pyval \<Rightarrow> dict list res" where
  "cogs_lines settings cogs_code by_account currency =
     rbind (mapR (\<lambda>(code, v). rmap (Pair code) (round_money (dec_of_float v) currency)) (sort_key fst by_account)) (\<lambda>rounded.
     let amounts = filter (\<lambda>(code, a). dec_true a) rounded in
     rbind (dec_sum (map snd amounts)) (\<lambda>tot.
     rbind (if dec_true tot then rmap (\<lambda>(up, down). [journal_line cogs_code COGS up down]) (signed_sides tot) else Inr []) (\<lambda>cost.
     rbind (mapR (\<lambda>(code, a). rbind (signed_sides a) (\<lambda>(up, down). lot_line settings code down up)) amounts) (\<lambda>stock.
     Inr (cost @ stock)))))"

definition refuse_negative_output_tax :: "dict \<Rightarrow> unit res" where
  "refuse_negative_output_tax doc =
     rbind (to_decimal0 (dget doc ''tax'')) (\<lambda>tax. rbind (dless tax dec0) (\<lambda>below.
     if below then Inl (HTTPError 409 ''error.output_tax_negative'') else Inr ()))"

definition line_tax_applied :: "dict \<Rightarrow> dict list" where
  "line_tax_applied line =
     (if tax_entries (dget line ''taxes'') \<noteq> [] then tax_entries (dget line ''taxes'')
      else [[(''code'', dget line ''tax_code''), (''rate'', dget line ''tax_rate'')]])"

definition refuse_misplaced_tax :: "dict \<Rightarrow> pyval \<Rightarrow> dict \<Rightarrow> pyval list \<Rightarrow> unit res" where
  "refuse_misplaced_tax settings doc_type state lines =
     rbind (misplaced_tax settings doc_type
              (tax_entries (dget state ''doc_taxes'') @ [[(''code'', PStr []), (''rate'', dget state ''tax_rate'')]]
               @ concat (map line_tax_applied (dict_items lines)))) (\<lambda>found.
     case found of
       None \<Rightarrow> Inr ()
     | Some _ \<Rightarrow> rbind (doc_side doc_type) (\<lambda>side.
         Inl (HTTPError 422 (if side = ''sales'' then ''documents.err_tax_purchase_only'' else ''documents.err_tax_sales_only''))))"

definition refuse_unissuable_taxes :: "dict \<Rightarrow> pyval \<Rightarrow> dict \<Rightarrow> unit res" where
  "refuse_unissuable_taxes settings doc_type doc =
     rbind (rows_or doc ''line_items'') (\<lambda>lines. rbind (refuse_misplaced_tax settings doc_type doc lines) (\<lambda>_.
     rbind (doc_side doc_type) (\<lambda>side. if side = ''sales'' then refuse_negative_output_tax doc else Inr ())))"

definition invoice_entries ::
  "dict \<Rightarrow> chart option \<Rightarrow> dict \<Rightarrow> pyval \<Rightarrow> rat \<Rightarrow> (string \<times> rat) list \<Rightarrow> pyval \<Rightarrow> dict list res" where
  "invoice_entries settings accounts doc base cogs by_account currency =
     rbind (refuse_unissuable_taxes settings (PStr ''invoice'') doc) (\<lambda>_.
     rbind (sale_totals doc base) (\<lambda>(tot, tax, revenue).
     rbind (resolve_many settings accounts ([RECEIVABLE, SALES_REVENUE] @ (if truthy tax then [TAX_OUTPUT] else [])
              @ (if 0 < cogs then [COGS] else []))) (\<lambda>acc.
     rbind (asset_split settings accounts doc base revenue False) (\<lambda>(clearing, rest).
     rbind (if 0 < cogs then cogs_lines settings (role_code acc COGS) by_account currency else Inr []) (\<lambda>cost.
     Inr ([journal_line (role_code acc RECEIVABLE) RECEIVABLE tot (PFloat 0)] @ clearing
          @ (if truthy rest \<or> clearing = [] then [journal_line (role_code acc SALES_REVENUE) SALES_REVENUE (PFloat 0) rest] else [])
          @ (if truthy tax then [journal_line (role_code acc TAX_OUTPUT) TAX_OUTPUT (PFloat 0) tax] else []) @ cost))))))"

definition create_for_doc_finalized ::
  "dict \<Rightarrow> chart option \<Rightarrow> string \<Rightarrow> dict \<Rightarrow> pyval \<Rightarrow> rat \<Rightarrow> (string \<times> rat) list \<Rightarrow> pyval \<Rightarrow> auto_entry res" where
  "create_for_doc_finalized settings accounts doc_id doc base cogs by_account currency =
     rbind (invoice_entries settings accounts doc base cogs by_account currency) (\<lambda>entries.
     rbind (finalize_cycle doc ''invoice'') (\<lambda>(suffix, je_type).
     emit_auto_posted_je doc_id suffix je_type (finalized_entry_day doc) currency entries))"

end
