(* ===== verification/SettlementEntry.thy ===== *)
theory SettlementEntry
  imports JournalEntry
begin

text \<open>
  The entries that settle or reverse what a document recognized (\<open>celerp/services/auto_je.py\<close>): a credit
  note and the release of what it left open, a payment and what is given back of it, and a note applied
  to a document.  A receivable or payable moves on the account its document recognized it on
  (\<open>party_origin\<close>), read off the document's own entries: their lines are the argument here.
\<close>

section \<open>Where a document's balance sits\<close>

definition PURCHASE_TYPES :: "string list" where "PURCHASE_TYPES = [''bill'', ''purchase_order'']"

definition control_role :: "string \<Rightarrow> account_role" where
  "control_role doc_type = (if List.member PURCHASE_TYPES doc_type \<or> doc_type = ''debit_note'' then PAYABLE else RECEIVABLE)"

text \<open>The accounts an entry's lines hold the role on: by the roles they name, else those that name a
  party and no roles.\<close>

definition origin_codes :: "dict \<Rightarrow> account_role \<Rightarrow> dict list \<Rightarrow> string list res" where
  "origin_codes settings r entries =
     rbind (filterR (\<lambda>e. line_has_role settings e r) entries) (\<lambda>found.
     rbind (mapR (\<lambda>e. dkey e ''account'') found) (\<lambda>codes.
     rbind (if codes \<noteq> [] then Inr codes
            else mapR (\<lambda>e. dkey e ''account'')
                   (filter (\<lambda>e. truthy (dget e ''contact'') \<and> dget e ''account_roles'' = PNone) entries)) (\<lambda>vs.
     Inr (map py_str vs))))"

text \<open>\<open>party_origin\<close> of a document none of whose receivable sits on another document: \<open>posted\<close> are the lines of
  its posted recognition and receipt entries, \<open>entries\<close> those of all its recognition entries.\<close>

definition party_origin :: "dict \<Rightarrow> account_role \<Rightarrow> dict list list \<Rightarrow> dict list list \<Rightarrow> string option res" where
  "party_origin settings r posted entries =
     rbind (mapR (origin_codes settings r) (if posted \<noteq> [] then posted else entries)) (\<lambda>codes.
     case remdups (concat codes) of
       [] \<Rightarrow> Inr None
     | [c] \<Rightarrow> Inr (Some c)
     | _ \<Rightarrow> Inl (HTTPError 409 ''error.origin_ambiguous''))"

section \<open>A credit note\<close>

text \<open>The accounts the lines of an invoice's live entry moved revenue on, each with its net credit, in code
  order; \<open>chart\<close> types the accounts of the lines that name no role.\<close>

definition revenue_line :: "dict \<Rightarrow> chart \<Rightarrow> dict \<Rightarrow> bool res" where
  "revenue_line settings chart e =
     (if \<not> truthy (dget e ''account_roles'')
         \<and> (case chart_get chart (dget e ''account'') of Some a \<Rightarrow> List.member (role_types SALES_REVENUE) (ca_type a) | None \<Rightarrow> False)
      then Inr True else line_has_role settings e SALES_REVENUE)"

definition net_credit_step :: "dict \<Rightarrow> chart \<Rightarrow> (string \<times> dec) list \<Rightarrow> dict \<Rightarrow> (string \<times> dec) list res" where
  "net_credit_step settings chart net e =
     rbind (revenue_line settings chart e) (\<lambda>counts.
     if \<not> counts then Inr net
     else rbind (rmap py_str (dkey e ''account'')) (\<lambda>code.
          rbind (to_decimal (dget e ''credit'')) (\<lambda>credit. rbind (to_decimal (dget e ''debit'')) (\<lambda>debit.
          rbind (rbind (dadd (case map_of net code of Some v \<Rightarrow> v | None \<Rightarrow> dec0) credit) (\<lambda>x. dsub x debit)) (\<lambda>v.
          Inr (AList.update code v net))))))"

definition revenue_sold_on :: "dict \<Rightarrow> chart \<Rightarrow> dict list \<Rightarrow> (string \<times> dec) list res" where
  "revenue_sold_on settings chart lines =
     rmap (\<lambda>net. sort_key fst (filter (\<lambda>(code, a). dec_true a) net)) (foldR (net_credit_step settings chart) [] lines)"

definition revenue_shares :: "pyval \<Rightarrow> (string \<times> dec) list \<Rightarrow> pyval \<Rightarrow> (string \<times> dec) list res" where
  "revenue_shares revenue sold_on currency =
     rbind (filterR (\<lambda>(c, a). dless dec0 a) sold_on) (\<lambda>credited.
     rbind (rbind (filterR (\<lambda>(c, a). dless a dec0) sold_on) (mapR (\<lambda>(c, a). rmap (Pair c) (dneg a)))) (\<lambda>debited.
     rbind (dec_sum (map snd sold_on)) (\<lambda>net.
     rbind (to_decimal revenue) (\<lambda>rev.
     rbind (dleq net dec0) (\<lambda>none.
     if debited = [] \<or> none
     then rmap (zip (map fst credited)) (allocate_pro_rata rev (map snd credited) currency)
     else rbind (dec_sum (map snd credited)) (\<lambda>all_credit.
          rbind (rbind (rbind (dmul rev all_credit) (\<lambda>x. ddiv x net)) (\<lambda>x. round_money x currency)) (\<lambda>gross.
          rbind (rbind (round_money rev currency) (dsub gross)) (\<lambda>back.
          rbind (allocate_pro_rata gross (map snd credited) currency) (\<lambda>ups.
          rbind (rbind (allocate_pro_rata back (map snd debited) currency) (mapR dneg)) (\<lambda>downs.
          Inr (zip (map fst credited) ups @ zip (map fst debited) downs)))))))))))"

text \<open>The two sides of an amount on a credit note's line.\<close>

definition note_sides :: "bool \<Rightarrow> pyval \<Rightarrow> bool \<Rightarrow> pyval \<times> pyval" where
  "note_sides releasing amount debit =
     (let below = (case amount of PFloat x \<Rightarrow> x < 0 | _ \<Rightarrow> False);
          on_debit = ((debit \<noteq> releasing) \<noteq> below)
      in if on_debit then (fabs_val amount, PFloat 0) else (PFloat 0, fabs_val amount))"

definition credit_note_lines ::
  "dict \<Rightarrow> chart option \<Rightarrow> dict \<Rightarrow> pyval \<Rightarrow> bool \<Rightarrow> string option \<Rightarrow> (string \<times> dec) list \<Rightarrow> dict list option res" where
  "credit_note_lines settings accounts doc base releasing ar sold_on =
     rbind (sale_totals doc base) (\<lambda>(tot, tax, revenue).
     if \<not> truthy tot then Inr None
     else rbind (asset_split settings accounts doc base revenue (\<not> releasing)) (\<lambda>(clearing, rest).
          rbind (resolve_many settings accounts ((if ar = None then [RECEIVABLE] else []) @ (if sold_on = [] then [SALES_REVENUE] else [])
                   @ (if truthy tax then [TAX_OUTPUT] else []))) (\<lambda>acc.
          rbind (if sold_on \<noteq> []
                 then rbind (revenue_shares rest sold_on base) (\<lambda>ss.
                      mapR (\<lambda>(code, s). rbind (to_stored_float s) (\<lambda>v.
                          case note_sides releasing v True of (d, c) \<Rightarrow> origin_line settings code SALES_REVENUE d c))
                        (filter (\<lambda>(code, s). dec_true s) ss))
                 else if truthy rest \<or> clearing = []
                 then Inr [case note_sides releasing rest True of (d, c) \<Rightarrow> journal_line (role_code acc SALES_REVENUE) SALES_REVENUE d c]
                 else Inr []) (\<lambda>sales.
          rbind (case note_sides releasing tot False of (d, c) \<Rightarrow>
                   (case ar of Some code \<Rightarrow> origin_line settings code RECEIVABLE d c
                    | None \<Rightarrow> Inr (journal_line (role_code acc RECEIVABLE) RECEIVABLE d c))) (\<lambda>party.
          Inr (Some (sales @ clearing
            @ (if truthy tax then [case note_sides releasing tax True of (d, c) \<Rightarrow> journal_line (role_code acc TAX_OUTPUT) TAX_OUTPUT d c] else [])
            @ [party])))))))"

definition create_for_credit_note_finalized ::
  "dict \<Rightarrow> chart option \<Rightarrow> string \<Rightarrow> dict \<Rightarrow> pyval \<Rightarrow> string option \<Rightarrow> (string \<times> dec) list \<Rightarrow> pyval \<Rightarrow> auto_entry option res" where
  "create_for_credit_note_finalized settings accounts doc_id doc base ar sold_on currency =
     rbind (refuse_unissuable_taxes settings (PStr ''credit_note'') doc) (\<lambda>_.
     rbind (credit_note_lines settings accounts doc base False ar sold_on) (\<lambda>built.
     case built of
       None \<Rightarrow> Inr None
     | Some entries \<Rightarrow> rbind (finalize_cycle doc ''credit_note'') (\<lambda>(suffix, je_type).
         rmap Some (emit_auto_posted_je doc_id suffix je_type (finalized_entry_day doc) currency entries))))"

text \<open>The part of a credit note its open balance holds, taken back once its invoice is void.\<close>

definition release_credit_note_open ::
  "dict \<Rightarrow> chart option \<Rightarrow> string \<Rightarrow> dict \<Rightarrow> pyval \<Rightarrow> pyval \<Rightarrow> string option \<Rightarrow> (string \<times> dec) list \<Rightarrow> pyval \<Rightarrow> auto_entry option res" where
  "release_credit_note_open settings accounts doc_id doc amount base ar sold_on currency =
     rbind (rbind (to_decimal (dget_or doc ''total'' (PInt 0))) (\<lambda>d. round_money d (entry_currency doc))) (\<lambda>tot.
     rbind (rbind (to_decimal0 amount) (\<lambda>d. round_money d (entry_currency doc))) (\<lambda>open.
     rbind (dleq open dec0) (\<lambda>nothing. rbind (if nothing then Inr True else dleq tot dec0) (\<lambda>stop.
     if stop then Inr None
     else rbind (rbind (rbind (rbind (to_decimal0 (dget doc ''tax'')) (\<lambda>x. dmul x open)) (\<lambda>x. ddiv x tot)) (\<lambda>x. round_money x (entry_currency doc))) (\<lambda>tax.
          rbind (to_stored_float open) (\<lambda>tot'. rbind (to_stored_float tax) (\<lambda>tax'.
          rbind (credit_note_lines settings accounts (dput ''tax'' tax' (dput ''total'' tot' doc)) base True ar sold_on) (\<lambda>built.
          case built of
            None \<Rightarrow> Inr None
          | Some entries \<Rightarrow> rmap Some (emit_auto_posted_je doc_id ''release'' ''credit_note.release'' PNone currency entries)))))))))"

section \<open>Payments\<close>

text \<open>What an amount converts to after \<open>given\<close> of the payment was already given back: the difference of
  two running totals.\<close>

definition payment_piece :: "pyval \<Rightarrow> pyval \<Rightarrow> pyval \<Rightarrow> pyval \<Rightarrow> pyval res" where
  "payment_piece amount given base raw_rate =
     rbind (checked_exchange_rate raw_rate) (\<lambda>rate.
     rbind (rbind (base_amount given rate base) to_decimal) (\<lambda>before.
     rbind (rbind (to_decimal given) (\<lambda>g. rbind (to_decimal amount) (dadd g))) (\<lambda>upto.
     rbind (rbind (to_base upto rate base) to_decimal) (\<lambda>after.
     rbind (dsub after before) to_stored_float))))"

definition payment_amounts :: "pyval \<Rightarrow> pyval \<Rightarrow> pyval \<Rightarrow> pyval \<Rightarrow> pyval \<Rightarrow> (pyval \<times> pyval) res" where
  "payment_amounts amount base recorded_rate settlement_rate given =
     rbind (payment_piece amount given base recorded_rate) (\<lambda>a. rmap (Pair a) (payment_piece amount given base settlement_rate))"

definition bank_fx_fields :: "(string \<times> pyval \<times> pyval) option \<Rightarrow> bool \<Rightarrow> dict" where
  "bank_fx_fields bank_fx outflow =
     (case bank_fx of
        None \<Rightarrow> []
      | Some (currency, amount, rate) \<Rightarrow>
          [(''fx_currency'', PStr currency), (''fx_rate'', rate),
           (''fx_debit'', if outflow then PNone else amount), (''fx_credit'', if outflow then amount else PNone)])"

text \<open>\<open>payment_lines\<close>: \<open>control debit credit\<close> is the receivable or payable line, \<open>bank\<close> the bank line's account.\<close>

definition payment_lines ::
  "string \<Rightarrow> (pyval \<Rightarrow> pyval \<Rightarrow> dict res) \<Rightarrow> dict \<Rightarrow> pyval \<Rightarrow> pyval \<Rightarrow> bool \<Rightarrow> (string \<times> pyval \<times> pyval) option \<Rightarrow> dict list res" where
  "payment_lines doc_type control bank ledger_amount bank_amount returning bank_fx =
     (let outflow = ((List.member PURCHASE_TYPES doc_type \<or> doc_type = ''credit_note'') \<noteq> returning);
          bank_line = dmerge (dmerge bank [(''debit'', PFloat 0), (''credit'', PFloat 0)]) (bank_fx_fields bank_fx outflow)
      in if outflow then rmap (\<lambda>c. [c, dput ''credit'' bank_amount bank_line]) (control ledger_amount (PFloat 0))
         else rmap (\<lambda>c. [dput ''debit'' bank_amount bank_line, c]) (control (PFloat 0) ledger_amount))"

definition control_line :: "dict \<Rightarrow> string option \<Rightarrow> (account_role \<times> string) list \<Rightarrow> account_role \<Rightarrow> pyval \<Rightarrow> pyval \<Rightarrow> dict res" where
  "control_line settings origin acc control debit credit =
     (case origin of
        Some code \<Rightarrow> origin_line settings code control debit credit
      | None \<Rightarrow> Inr (journal_line (role_code acc control) control debit credit))"

definition settlement_accounts ::
  "dict \<Rightarrow> chart option \<Rightarrow> string option \<Rightarrow> account_role \<Rightarrow> string option
    \<Rightarrow> ((pyval \<Rightarrow> pyval \<Rightarrow> dict res) \<Rightarrow> string \<Rightarrow> dict list res) \<Rightarrow> dict list res" where
  "settlement_accounts settings accounts origin control bank entries_for =
     rbind (resolve_many settings accounts ((if origin = None then [control] else []) @ (if bank = None then [DEFAULT_DEPOSIT] else []))) (\<lambda>acc.
     rbind (entries_for (control_line settings origin acc control)
              (case bank of Some b \<Rightarrow> b | None \<Rightarrow> role_code acc DEFAULT_DEPOSIT)) (\<lambda>entries.
     with_fx_difference settings accounts entries))"

text \<open>The lines of a payment, or with \<open>returning\<close> of what is given back of it; \<open>bank_fx\<close> tells what a bank line
  moves in the account's own currency.\<close>

definition payment_entries ::
  "dict \<Rightarrow> chart option \<Rightarrow> string option \<Rightarrow> string \<Rightarrow> string option \<Rightarrow> (string \<Rightarrow> (string \<times> pyval \<times> pyval) option)
    \<Rightarrow> pyval \<times> pyval \<Rightarrow> bool \<Rightarrow> dict list res" where
  "payment_entries settings accounts origin doc_type bank bank_fx amounts returning =
     settlement_accounts settings accounts origin (control_role doc_type) bank
       (\<lambda>control code. payment_lines doc_type control [(''account'', PStr code)] (fst amounts) (snd amounts) returning (bank_fx code))"

definition create_for_doc_payment ::
  "dict \<Rightarrow> chart option \<Rightarrow> string option \<Rightarrow> string \<Rightarrow> string \<Rightarrow> string option \<Rightarrow> (string \<Rightarrow> (string \<times> pyval \<times> pyval) option)
    \<Rightarrow> pyval \<Rightarrow> nat \<Rightarrow> pyval \<Rightarrow> string \<Rightarrow> pyval \<Rightarrow> pyval \<Rightarrow> auto_entry res" where
  "create_for_doc_payment settings accounts origin doc_id doc_type bank bank_fx amount payment_index payment_date base recorded_rate settlement_rate =
     rbind (payment_amounts amount (PStr base) recorded_rate settlement_rate (PFloat 0)) (\<lambda>amounts.
     rbind (payment_entries settings accounts origin doc_type bank bank_fx amounts False) (\<lambda>entries.
     emit_auto_posted_je doc_id (''pay:'' @ int_str (int payment_index)) (''invoice.paid:'' @ int_str (int payment_index)) payment_date
       (PStr (py_upper base)) entries))"

section \<open>A note applied to a document\<close>

definition note_application_entries ::
  "dict \<Rightarrow> chart option \<Rightarrow> string option \<Rightarrow> string option \<Rightarrow> account_role \<Rightarrow> pyval \<Rightarrow> pyval \<Rightarrow> pyval \<Rightarrow> pyval \<Rightarrow> dict list res" where
  "note_application_entries settings accounts doc_origin note_origin r amount base conversion_rate target_rate =
     rbind (py_float amount) (\<lambda>x.
     rbind (rbind (checked_exchange_rate conversion_rate) (\<lambda>rate. base_amount (PFloat x) rate base)) (\<lambda>note_amount.
     rbind (rbind (checked_exchange_rate target_rate) (\<lambda>rate. base_amount (PFloat x) rate base)) (\<lambda>target_amount.
     rbind (case doc_origin of Some c \<Rightarrow> Inr c | None \<Rightarrow> resolve settings accounts r) (\<lambda>doc_account.
     let note_account = (case note_origin of Some (c # cs) \<Rightarrow> c # cs | _ \<Rightarrow> doc_account) in
     rbind (if r = RECEIVABLE then origin_line settings doc_account r (PFloat 0) target_amount
            else origin_line settings doc_account r target_amount (PFloat 0)) (\<lambda>doc_line.
     rbind (if r = RECEIVABLE then origin_line settings note_account r note_amount (PFloat 0)
            else origin_line settings note_account r (PFloat 0) note_amount) (\<lambda>note_line.
     with_fx_difference settings accounts [doc_line, note_line]))))))"

end
