(* ===== verification/BillEntry.thy ===== *)
theory BillEntry
  imports SettlementEntry "HOL-Library.Product_Lexorder"
begin

text \<open>
  What buying posts (\<open>celerp/services/auto_je.py\<close>): a purchase order's receipts, a bill, what the bill's
  receipts booked taken off it, and a supplier credit note.  \<open>items\<close> gives the state of an item a line
  names, \<open>drawn\<close> what the receipts drew from each landed-cost role's clearing accounts.
\<close>

section \<open>What a bill charges\<close>

text \<open>Per line: its amount, its share of the discount, its tax.\<close>

definition line_taxes_charged :: "pyval \<Rightarrow> dict \<Rightarrow> dec res" where
  "line_taxes_charged currency li =
     rbind (rbind (mapR (\<lambda>t. to_decimal0 (dget t ''amount'')) (tax_entries (dget li ''taxes''))) dec_sum) (\<lambda>d. round_money d currency)"

definition doc_money0 :: "dict \<Rightarrow> string \<Rightarrow> dec res" where
  "doc_money0 doc field = rbind (to_decimal0 (dget doc field)) (\<lambda>d. round_money d (entry_currency doc))"

definition bill_line_charges :: "dict \<Rightarrow> (dec \<times> dec \<times> dec) list res" where
  "bill_line_charges doc =
     rbind (rbind (rows_or doc ''line_items'') (mapR as_dict)) (\<lambda>items.
     rbind (mapR (\<lambda>li. rbind (require_line_amount li (entry_currency doc)) (\<lambda>a. dmax a dec0)) items) (\<lambda>gross.
     rbind (dec_sum gross) (\<lambda>goods.
     rbind (if items = [] then Inr dec0 else doc_money0 doc ''tax'') (\<lambda>tax.
     rbind (doc_money0 doc ''shipping'') (\<lambda>shipping. rbind (doc_money0 doc ''total'') (\<lambda>tot.
     rbind (rbind (dadd goods tax) (\<lambda>x. rbind (dadd x shipping) (\<lambda>y. dsub y tot))) (\<lambda>discount.
     rbind (rbind (dless dec0 discount) (\<lambda>some. if some then dleq discount goods else Inr False)) (\<lambda>shared.
     rbind (if shared then allocate_pro_rata discount gross (entry_currency doc) else Inr (map (\<lambda>_. dec0) items)) (\<lambda>discounts.
     rbind (mapR (line_taxes_charged (entry_currency doc)) items) (\<lambda>taxes.
     rbind (mapR (\<lambda>(g, d). dsub g d) (zip gross discounts)) (\<lambda>net.
     rbind (rbind (dec_sum taxes) (dsub tax)) (\<lambda>rest.
     rbind (if dec_true rest then rbind (dec_sum net) (\<lambda>n. dless dec0 n) else Inr False) (\<lambda>spread.
     rbind (if spread then rbind (allocate_pro_rata rest net (entry_currency doc)) (\<lambda>ss. mapR (\<lambda>(t, s). dadd t s) (zip taxes ss)) else Inr taxes) (\<lambda>taxes'.
     Inr (zip gross (zip discounts taxes'))))))))))))))))"

text \<open>What a debit is for: a line, by its index, or a role.\<close>

datatype bill_part = LinePart nat | RolePart account_role

definition bill_debit_parts :: "dict \<Rightarrow> (bill_part \<times> dec) list res" where
  "bill_debit_parts doc =
     rbind (bill_line_charges doc) (\<lambda>charges.
     rbind (filterR (\<lambda>(i, g, d, t). dless dec0 g) (enumerate 0 charges)) (\<lambda>charged.
     rbind (mapR (\<lambda>(i, g, d, t). rmap (Pair (LinePart i)) (dsub g d)) charged) (\<lambda>lines.
     rbind (if truthy (dget doc ''line_items'') then doc_money0 doc ''tax'' else Inr dec0) (\<lambda>tax.
     rbind (dless dec0 tax) (\<lambda>taxed.
     rbind (doc_money0 doc ''shipping'') (\<lambda>shipping. rbind (dless dec0 shipping) (\<lambda>shipped.
     Inr (lines @ (if taxed then [(RolePart TAX_INPUT, tax)] else []) @ (if shipped then [(RolePart LANDED_FREIGHT, shipping)] else [])))))))))"

fun is_line_part :: "bill_part \<Rightarrow> bool" where
  "is_line_part (LinePart _) = True"
| "is_line_part (RolePart _) = False"

text \<open>\<open>max(indices, key=...)\<close>: the first of the largest.\<close>

definition first_largest :: "(nat \<Rightarrow> rat) \<Rightarrow> nat list \<Rightarrow> nat option" where
  "first_largest f is = (case is of [] \<Rightarrow> None | i # rest \<Rightarrow> Some (foldl (\<lambda>m j. if f m < f j then j else m) i rest))"

definition base_debits :: "(bill_part \<times> dec) list \<Rightarrow> pyval \<Rightarrow> dec \<Rightarrow> pyval \<Rightarrow> dec list res" where
  "base_debits parts base_total rate base =
     rbind (mapR (\<lambda>(p, a). rbind (to_stored_float a) (\<lambda>v. rbind (base_amount v rate base) to_decimal)) parts) (\<lambda>debits.
     let goods = filter (\<lambda>i. is_line_part (fst (parts ! i))) [0..<length parts] in
     case first_largest (\<lambda>i. dval (debits ! i)) (if goods = [] then [0..<length debits] else goods) of
       None \<Rightarrow> Inl ValueError
     | Some i \<Rightarrow>
         rbind (to_decimal base_total) (\<lambda>t. rbind (dec_sum debits) (\<lambda>s. rbind (dsub t s) (\<lambda>gap.
         rbind (dadd (debits ! i) gap) (\<lambda>d. Inr (debits[i := d]))))))"

definition parts_total :: "(bill_part \<times> dec) list \<Rightarrow> dec res" where
  "parts_total parts = dec_sum (map snd parts)"

definition bill_line_base :: "dict \<Rightarrow> pyval \<Rightarrow> (nat \<times> dec) list res" where
  "bill_line_base doc base =
     rbind (bill_debit_parts doc) (\<lambda>parts.
     if parts = [] then Inr []
     else rbind (require_doc_rate doc base) (\<lambda>rate.
          rbind (doc_money0 doc ''total'') (\<lambda>tot.
          rbind (rbind (parts_total parts) (\<lambda>s. deq s tot)) (\<lambda>adds_up.
          rbind (if adds_up then rbind (rbind (to_stored_float tot) (\<lambda>v. base_amount v rate base)) (\<lambda>b. base_debits parts b rate base)
                 else mapR (\<lambda>(p, a). rbind (to_stored_float a) (\<lambda>v. rbind (base_amount v rate base) to_decimal)) parts) (\<lambda>debits.
          Inr (List.map_filter (\<lambda>((p, _), d). case p of LinePart i \<Rightarrow> Some (i, d) | RolePart _ \<Rightarrow> None) (zip parts debits)))))))"

section \<open>Where a bill's lines land\<close>

datatype bill_target = OnAccount string | ForRole account_role | OnAccountFor string account_role

definition LANDED_ROLE_BY_KIND :: "(string \<times> account_role) list" where
  "LANDED_ROLE_BY_KIND = [(''freight'', LANDED_FREIGHT), (''insurance'', LANDED_INSURANCE), (''duty'', LANDED_DUTY),
     (''import_vat'', LANDED_IMPORT_VAT)]"

text \<open>The kind and recoverability a line gives a landed charge, or takes from a freight item it names.\<close>

definition landed_kind :: "(string \<Rightarrow> dict option) \<Rightarrow> dict \<Rightarrow> (pyval \<times> pyval) option" where
  "landed_kind items li =
     (if truthy (dget li ''landed_cost_kind'') then Some (dget li ''landed_cost_kind'', dget li ''recoverable'')
      else let item = py_or (dget li ''item_id'') (dget li ''entity_id'') in
           if \<not> truthy item then None
           else (case items (py_str item) of
                   None \<Rightarrow> None
                 | Some state \<Rightarrow>
                     if \<not> str_is (py_or (dget state ''inventory_type'') (PStr ''stocked'')) ''freight'' then None
                     else Some (py_or (dget state ''landed_cost_kind'') (PStr ''freight''),
                            if dget li ''recoverable'' = PNone then dget state ''recoverable'' else dget li ''recoverable'')))"

definition landed_role_for_line :: "dict \<Rightarrow> (string \<Rightarrow> dict option) \<Rightarrow> dict \<Rightarrow> account_role option res" where
  "landed_role_for_line settings items li =
     (case landed_kind items li of
        None \<Rightarrow> Inr None
      | Some (kind, recoverable) \<Rightarrow>
          rbind (in_set kind (map fst LANDED_ROLE_BY_KIND)) (\<lambda>known.
          case (if known then map_of LANDED_ROLE_BY_KIND (py_str kind) else None) of
            None \<Rightarrow> Inr None
          | Some r \<Rightarrow>
              if r = LANDED_IMPORT_VAT
                 \<and> truthy (if recoverable = PNone then dget settings ''import_vat_recoverable_default'' else recoverable)
              then Inr (Some TAX_INPUT)
              else if truthy (dget li ''account_code'')
              then rmap (\<lambda>served. if served then Some r else None) (in_scope settings r (dget li ''account_code''))
              else Inr (Some r)))"

definition bill_line_target :: "dict \<Rightarrow> (string \<Rightarrow> dict option) \<Rightarrow> dict \<Rightarrow> bill_target res" where
  "bill_line_target settings items li =
     rbind (case py_or (dget li ''receive_as'') (PStr []) of PStr s \<Rightarrow> Inr (py_lower (py_strip s)) | _ \<Rightarrow> Inl AttributeError) (\<lambda>receive_as.
      rbind (landed_role_for_line settings items li) (\<lambda>landed.
      Inr (if truthy (dget li ''account_code'')
           then (case landed of
                   Some r \<Rightarrow> if List.member (map snd LANDED_ROLE_BY_KIND) r then OnAccountFor (py_str (dget li ''account_code'')) r
                             else OnAccount (py_str (dget li ''account_code''))
                 | None \<Rightarrow> OnAccount (py_str (dget li ''account_code'')))
           else if receive_as = ''expense'' then ForRole GENERAL_EXPENSE
           else if receive_as = ''asset'' then ForRole FIXED_ASSETS
           else (case landed of
                   Some r \<Rightarrow> ForRole r
                 | None \<Rightarrow> ForRole (if bill_line_kind li = ''stock'' then INVENTORY_PURCHASED else GENERAL_EXPENSE)))))"

definition bill_debit_line :: "(account_role \<times> string) list \<Rightarrow> bill_target \<Rightarrow> pyval \<Rightarrow> dict" where
  "bill_debit_line acc target amount =
     (case target of
        ForRole r \<Rightarrow> journal_line (role_code acc r) r amount (PFloat 0)
      | OnAccountFor code r \<Rightarrow> journal_line code r amount (PFloat 0)
      | OnAccount code \<Rightarrow> [(''account'', PStr code), (''debit'', amount), (''credit'', PFloat 0)])"

text \<open>A charge the receipts already drew from clearing is booked on the account they drew it from.\<close>

definition drawn_home :: "(account_role \<times> (string \<times> dec) list) list \<Rightarrow> bill_target \<Rightarrow> bill_target" where
  "drawn_home drawn target =
     (case target of
        ForRole r \<Rightarrow>
          (case sort_key (\<lambda>(c, v). (- dval v, c)) (filter (\<lambda>(c, v). 0 < dval v) (case map_of drawn r of Some held \<Rightarrow> held | None \<Rightarrow> [])) of
             [] \<Rightarrow> target
           | (c, _) # _ \<Rightarrow> OnAccountFor c r)
      | _ \<Rightarrow> target)"

definition part_target :: "dict \<Rightarrow> (string \<Rightarrow> dict option) \<Rightarrow> dict list \<Rightarrow> bill_part \<Rightarrow> bill_target res" where
  "part_target settings items lines p =
     (case p of LinePart i \<Rightarrow> bill_line_target settings items (lines ! i) | RolePart r \<Rightarrow> Inr (ForRole r))"

record bill_booking =
  bb_entries :: "dict list"
  bb_parts :: "bill_part list"
  bb_debits :: "dec list"

text \<open>The lines for the parts and their targets, and what the bill owes.\<close>

definition book_parts ::
  "dict \<Rightarrow> chart option \<Rightarrow> pyval \<Rightarrow> dec \<Rightarrow> dec \<Rightarrow> (bill_part \<times> dec) list \<Rightarrow> bill_target list \<Rightarrow> bill_booking res" where
  "book_parts settings accounts base rate tot parts targets =
     rbind (rbind (parts_total parts) (\<lambda>s. deq s tot)) (\<lambda>adds_up.
     if \<not> adds_up then Inl (RefusedError ''error.bill_lines_mismatch'')
     else rbind (resolve_many settings accounts (List.map_filter (\<lambda>t. case t of ForRole r \<Rightarrow> Some r | _ \<Rightarrow> None) targets @ [PAYABLE])) (\<lambda>acc.
          rbind (rbind (to_stored_float tot) (\<lambda>v. base_amount v rate base)) (\<lambda>base_total.
          rbind (base_debits parts base_total rate base) (\<lambda>debits.
          rbind (mapR to_stored_float debits) (\<lambda>amounts.
          Inr \<lparr>bb_entries = map2 (bill_debit_line acc) targets amounts @ [journal_line (role_code acc PAYABLE) PAYABLE (PFloat 0) base_total],
               bb_parts = map fst parts, bb_debits = debits\<rparr>)))))"

definition bill_entries ::
  "dict \<Rightarrow> chart option \<Rightarrow> (string \<Rightarrow> dict option) \<Rightarrow> (account_role \<times> (string \<times> dec) list) list \<Rightarrow> dict \<Rightarrow> pyval \<Rightarrow> bill_booking option res" where
  "bill_entries settings accounts items drawn doc base =
     rbind (require_doc_rate doc base) (\<lambda>rate.
     rbind (doc_money0 doc ''total'') (\<lambda>tot.
     rbind (rbind (rows_or doc ''line_items'') (mapR as_dict)) (\<lambda>lines.
     rbind (bill_debit_parts doc) (\<lambda>parts.
     rbind (mapR (\<lambda>(p, _). part_target settings items lines p) parts) (\<lambda>targets.
     rbind (dleq tot dec0) (\<lambda>nothing.
     if nothing then Inr None
     else if parts = [] then rmap Some (book_parts settings accounts base rate tot [(RolePart GENERAL_EXPENSE, tot)] (map (drawn_home drawn) [ForRole GENERAL_EXPENSE]))
     else rmap Some (book_parts settings accounts base rate tot parts (map (drawn_home drawn) targets))))))))"

section \<open>What was booked already\<close>

type_synonym net_key = "string \<times> string list"

definition net_key_of :: "dict \<Rightarrow> dict \<Rightarrow> net_key res" where
  "net_key_of settings e =
     rbind (dkey e ''account'') (\<lambda>a. rmap (\<lambda>rs. (py_str a, sort (map py_str rs))) (line_roles settings e))"

definition LOT_ROLES :: "string list" where "LOT_ROLES = [''inventory_opening'', ''inventory_purchased'']"

definition net_group :: "string list \<Rightarrow> string list" where
  "net_group roles = (if roles \<noteq> [] \<and> list_all (List.member LOT_ROLES) roles then LOT_ROLES else roles)"

definition net_get :: "(net_key \<times> dec) list \<Rightarrow> net_key \<Rightarrow> dec" where
  "net_get m k = (case map_of m k of Some v \<Rightarrow> v | None \<Rightarrow> dec0)"

definition net_add :: "net_key \<Rightarrow> dec \<Rightarrow> (net_key \<times> dec) list \<Rightarrow> (net_key \<times> dec) list res" where
  "net_add k d m = rmap (\<lambda>v. AList.update k v m) (dadd (net_get m k) d)"

definition net_sub :: "net_key \<Rightarrow> dec \<Rightarrow> (net_key \<times> dec) list \<Rightarrow> (net_key \<times> dec) list res" where
  "net_sub k d m = rmap (\<lambda>v. AList.update k v m) (dsub (net_get m k) d)"

text \<open>\<open>_doc_receipt_booked\<close>: the net debit per account and roles of the lines of the posted receipts.\<close>

definition booked_step :: "dict \<Rightarrow> (net_key \<times> dec) list \<Rightarrow> dict \<Rightarrow> (net_key \<times> dec) list res" where
  "booked_step settings m e =
     rbind (net_key_of settings e) (\<lambda>k.
     rbind (to_decimal0 (dget e ''debit'')) (\<lambda>d. rbind (to_decimal0 (dget e ''credit'')) (\<lambda>c.
     rbind (rbind (dadd (net_get m k) d) (\<lambda>x. dsub x c)) (\<lambda>v. Inr (AList.update k v m)))))"

definition doc_receipt_booked :: "dict \<Rightarrow> dict list \<Rightarrow> (net_key \<times> dec) list res" where
  "doc_receipt_booked settings lines = foldR (booked_step settings) [] lines"

text \<open>A line takes up, slot after slot, what was booked for the same purpose on the same side; the state is
  \<open>(net, unfilled, left)\<close>.\<close>

definition take_slot ::
  "(net_key \<times> dec) list \<times> (net_key \<times> dec) list \<times> dec \<Rightarrow> net_key \<Rightarrow> ((net_key \<times> dec) list \<times> (net_key \<times> dec) list \<times> dec) res" where
  "take_slot st slot =
     (let (net, unfilled, left) = st; u = net_get unfilled slot in
      if dec_true left \<and> dec_true u \<and> (0 < dval u) = (0 < dval left)
      then rbind (rbind (dabs left) (\<lambda>a. rbind (dabs u) (dmin a))) (\<lambda>m.
           rbind (dmul m (Fin (if 0 < dval left then 1 else - 1) 0)) (\<lambda>taken.
           rbind (net_add slot taken net) (\<lambda>net'. rbind (net_sub slot taken unfilled) (\<lambda>unfilled'.
           rbind (dsub left taken) (\<lambda>left'. Inr (net', unfilled', left'))))))
      else Inr (net, unfilled, left))"

definition slots_for :: "(net_key \<times> dec) list \<Rightarrow> net_key \<Rightarrow> net_key list" where
  "slots_for unfilled key =
     sort_key (\<lambda>k. (k \<noteq> key, - \<bar>dval (net_get unfilled k)\<bar>, fst k))
       (filter (\<lambda>k. snd k \<noteq> [] \<and> net_group (snd k) = net_group (snd key)) (map fst unfilled))"

definition net_line ::
  "dict \<Rightarrow> (net_key \<times> dec) list \<times> (net_key \<times> dec) list \<Rightarrow> dict \<Rightarrow> ((net_key \<times> dec) list \<times> (net_key \<times> dec) list) res" where
  "net_line settings st e =
     (let (net, unfilled) = st in
      rbind (net_key_of settings e) (\<lambda>key.
      rbind (rbind (to_decimal (dget e ''debit'')) (\<lambda>d. rbind (to_decimal (dget e ''credit'')) (dsub d))) (\<lambda>left.
      rbind (foldR take_slot (net, unfilled, left) (slots_for unfilled key)) (\<lambda>(net', unfilled', left').
      rbind (if dec_true left' then net_add key left' net' else Inr net') (\<lambda>net2. Inr (net2, unfilled'))))))"

definition net_entry :: "net_key \<times> dec \<Rightarrow> dict res" where
  "net_entry kv =
     (let ((account, roles), v) = kv in
      rmap (\<lambda>(up, down). [(''account'', PStr account), (''account_roles'', PList (map PStr roles)), (''debit'', up), (''credit'', down)])
        (signed_sides v))"

definition less_booked :: "dict \<Rightarrow> (net_key \<times> dec) list \<Rightarrow> dict list \<Rightarrow> dict list res" where
  "less_booked settings booked entries =
     (if booked = [] then Inr entries
      else rbind (foldR (net_line settings) ([], booked) entries) (\<lambda>(net, _).
           rbind (foldR (\<lambda>m (k, v). net_sub k v m) net booked) (\<lambda>left.
           mapR net_entry (filter (\<lambda>(k, v). dec_true v) left))))"

definition create_for_bill_conversion ::
  "dict \<Rightarrow> chart option \<Rightarrow> (string \<Rightarrow> dict option) \<Rightarrow> (account_role \<times> (string \<times> dec) list) list \<Rightarrow> (net_key \<times> dec) list
    \<Rightarrow> string \<Rightarrow> dict \<Rightarrow> pyval \<Rightarrow> int \<Rightarrow> pyval \<Rightarrow> pyval \<Rightarrow> auto_entry option res" where
  "create_for_bill_conversion settings accounts items drawn booked doc_id doc base revert_count day currency =
     rbind (refuse_unissuable_taxes settings (PStr ''bill'') doc) (\<lambda>_.
     rbind (bill_entries settings accounts items drawn doc base) (\<lambda>built.
     case built of
       None \<Rightarrow> Inr None
     | Some b \<Rightarrow> rbind (less_booked settings booked (bb_entries b)) (\<lambda>entries.
         if entries = [] then Inr None
         else rmap Some (emit_auto_posted_je doc_id ''bill'' (''po.converted_to_bill:'' @ int_str revert_count) day currency entries))))"

section \<open>A supplier credit note\<close>

text \<open>What a bill with the same lines books, the other way round; \<open>ap\<close> is the account its bill's payable sits on.\<close>

definition debit_note_line :: "dict \<Rightarrow> string option \<Rightarrow> dict \<Rightarrow> dict res" where
  "debit_note_line settings ap e =
     (let debit = dget_or e ''credit'' (PFloat 0);
          swapped = dput ''credit'' (dget_or e ''debit'' (PFloat 0)) (dput ''debit'' debit e)
      in case ap of
           None \<Rightarrow> Inr swapped
         | Some code \<Rightarrow> rbind (line_has_role settings e PAYABLE) (\<lambda>owed.
             if owed then origin_line settings code PAYABLE debit (PFloat 0) else Inr swapped))"

definition create_for_debit_note_finalized ::
  "dict \<Rightarrow> chart option \<Rightarrow> (string \<Rightarrow> dict option) \<Rightarrow> (account_role \<times> (string \<times> dec) list) list
    \<Rightarrow> string option \<Rightarrow> string \<Rightarrow> dict \<Rightarrow> pyval \<Rightarrow> pyval \<Rightarrow> auto_entry option res" where
  "create_for_debit_note_finalized settings accounts items drawn ap doc_id doc base currency =
     rbind (refuse_unissuable_taxes settings (PStr ''debit_note'') doc) (\<lambda>_.
     rbind (bill_entries settings accounts items drawn doc base) (\<lambda>built.
     case built of
       None \<Rightarrow> Inr None
     | Some b \<Rightarrow> rbind (mapR (debit_note_line settings ap) (bb_entries b)) (\<lambda>entries.
         rbind (finalize_cycle doc ''debit_note'') (\<lambda>(suffix, je_type).
         rmap Some (emit_auto_posted_je doc_id suffix je_type (finalized_entry_day doc) currency entries)))))"

section \<open>A receipt\<close>

text \<open>The entries of a receipt: each debit rounded, the payable their sum.\<close>

definition po_receipt_role :: "dict \<Rightarrow> string \<Rightarrow> account_role" where
  "po_receipt_role doc receive_as =
     (let what = (if receive_as = ''expense'' \<or> receive_as = ''asset'' then receive_as
                  else py_lower (py_strip (py_str (py_or (dget doc ''purchase_kind'') (PStr ''inventory'')))))
      in if what = ''expense'' then GENERAL_EXPENSE else if what = ''asset'' then FIXED_ASSETS else INVENTORY_PURCHASED)"

definition receipt_debit :: "dict \<Rightarrow> (account_role \<times> string) list \<Rightarrow> (string + account_role) \<times> dec \<Rightarrow> dict res" where
  "receipt_debit settings acc kd =
     rbind (to_stored_float (snd kd)) (\<lambda>v.
     case fst kd of Inl code \<Rightarrow> lot_line settings code v (PFloat 0)
     | Inr r \<Rightarrow> Inr (journal_line (role_code acc r) r v (PFloat 0)))"

definition po_receipt_entries ::
  "dict \<Rightarrow> chart option \<Rightarrow> string option \<Rightarrow> ((string + account_role) \<times> rat) list \<Rightarrow> pyval \<Rightarrow> dict list option res" where
  "po_receipt_entries settings accounts ap debits currency =
     rbind (mapR (\<lambda>(k, a). rmap (Pair k) (round_money (dec_of_float a) currency)) debits) (\<lambda>rounded.
     rbind (dec_sum (map snd rounded)) (\<lambda>tot. rbind (dleq tot dec0) (\<lambda>nothing.
     if nothing then Inr None
     else let moved = filter (\<lambda>(k, d). dec_true d) rounded in
          rbind (resolve_many settings accounts (List.map_filter (\<lambda>(k, d). case k of Inr r \<Rightarrow> Some r | Inl _ \<Rightarrow> None) moved
                   @ (if ap = None then [PAYABLE] else []))) (\<lambda>acc.
          rbind (mapR (receipt_debit settings acc) moved) (\<lambda>lines.
          rbind (to_stored_float tot) (\<lambda>v.
          rbind (control_line settings ap acc PAYABLE (PFloat 0) v) (\<lambda>party.
          Inr (Some (lines @ [party])))))))))"

end
