(* ===== verification/JournalFacts.thy ===== *)
theory JournalFacts
  imports BillEntry DocMoneyFacts MoneyFacts
begin

text \<open>
  The entries of documents balance: what they hand over to be posted is, rounded to the currency of the
  books, the same on both sides, so a posting is never refused for its arithmetic.  And what is split
  is split whole: the pieces of a payment, and what a bill books less what its receipts booked.
\<close>

section \<open>Amounts\<close>

text \<open>An amount as the entries carry it: a float that stands for a decimal of at most four places.\<close>

definition amount_is :: "pyval \<Rightarrow> rat \<Rightarrow> bool" where
  "amount_is v x \<longleftrightarrow> v = PFloat (fl x) \<and> at_scale 4 x \<and> \<bar>x\<bar> \<le> 10 ^ 11"

lemma amount_is_0 [simp]: "amount_is (PFloat 0) 0"
  by (simp add: amount_is_def)

lemma amount_sig: "amount_is v x \<Longrightarrow> sig_digits 15 x"
  unfolding amount_is_def using at_scale_sig [of 4 x 11 15] by simp

lemma amount_decimal: "amount_is v x \<Longrightarrow> dec_is (to_decimal v) x"
  using amount_sig [of v x] stored_decimal_reads_back [of x] by (simp add: amount_is_def)

lemma amount_truthy: "amount_is v x \<Longrightarrow> truthy v \<longleftrightarrow> x \<noteq> 0"
  by (simp add: amount_is_def)

lemma amount_decimal0: "amount_is v x \<Longrightarrow> dec_is (to_decimal0 v) x"
  using amount_decimal [of v x] amount_truthy [of v x]
  by (cases "x = 0") (auto simp: to_decimal0_def py_or_def dec_of_int_def)

lemma amount_unique: "amount_is v x \<Longrightarrow> amount_is v y \<Longrightarrow> x = y"
  by (metis amount_decimal dec_isE sum.inject(2))

lemma stored_amount: "is_fin d \<Longrightarrow> dval d = x \<Longrightarrow> at_scale 4 x \<Longrightarrow> \<bar>x\<bar> \<le> 10 ^ 11 \<Longrightarrow> \<exists>v. to_stored_float d = Inr v \<and> amount_is v x"
  by (simp add: to_stored_float_def amount_is_def)

lemma stored_inv: "to_stored_float d = Inr v \<Longrightarrow> is_fin d \<Longrightarrow> at_scale 4 (dval d) \<Longrightarrow> \<bar>dval d\<bar> \<le> 10 ^ 11 \<Longrightarrow> amount_is v (dval d)"
  using stored_is_fin [of d v] by (simp add: amount_is_def)

lemma amount_abs: "amount_is v x \<Longrightarrow> amount_is (fabs_val v) \<bar>x\<bar>"
proof -
  assume a: "amount_is v x"
  have "\<bar>fl x\<bar> = fl \<bar>x\<bar>" using fl_nonneg [of x] fl_nonpos [of x] by (cases "0 \<le> x") (auto simp: fl_minus)
  moreover have "at_scale 4 \<bar>x\<bar>" using a at_scale_minus [of 4 0 x] by (auto simp: amount_is_def abs_if)
  ultimately show ?thesis using a by (simp add: amount_is_def fabs_val_def)
qed

text \<open>A multiple of the currency's unit keeps its value when it is rounded to the currency.\<close>

definition in_units :: "nat \<Rightarrow> rat \<Rightarrow> bool" where
  "in_units dp x \<longleftrightarrow> round_places (int dp) x = x"

lemma in_units_round [simp]: "in_units dp (round_places (int dp) x)"
  by (simp add: in_units_def)

lemma in_units_iff: "in_units dp x \<longleftrightarrow> (\<exists>n::int. x = of_int n * 10 powi (- int dp))"
  unfolding in_units_def using round_places_exact [of x _ "int dp"] round_places_def [of "int dp" x] by metis

lemma in_units_0 [simp]: "in_units dp 0"
  by (simp add: in_units_def)

lemma in_units_add: "in_units dp x \<Longrightarrow> in_units dp y \<Longrightarrow> in_units dp (x + y)"
  unfolding in_units_iff by (metis distrib_right of_int_add)

lemma in_units_minus: "in_units dp (- x) = in_units dp x"
  by (simp add: in_units_def round_places_minus)

lemma in_units_diff: "in_units dp x \<Longrightarrow> in_units dp y \<Longrightarrow> in_units dp (x - y)"
  using in_units_add [of dp x "- y"] by (simp add: in_units_minus)

lemma in_units_abs: "in_units dp x \<Longrightarrow> in_units dp \<bar>x\<bar>"
  by (simp add: abs_if in_units_minus)

lemma in_units_scale: "in_units dp x \<Longrightarrow> dp \<le> 4 \<Longrightarrow> at_scale 4 x"
  using at_scale_round [of dp x] by (simp add: in_units_def)

lemma round_amount:
  assumes "dec_is m x" "in_units dp x" "\<bar>x\<bar> \<le> 10 ^ 11" "currency_dp cur = Inr dp"
  shows "\<exists>v. rbind (rbind m (\<lambda>d. round_money d cur)) to_stored_float = Inr v \<and> amount_is v x"
proof -
  obtain d where d: "m = Inr d" "is_fin d" "dval d = x" using assms(1) by (rule dec_isE)
  have "dec_is (round_money d cur) x"
    using round_money_bounded(2) [OF d(2) assms(4)] assms(2,3) by (simp add: d(3) in_units_def)
  then obtain e where "round_money d cur = Inr e" "is_fin e" "dval e = x" by (rule dec_isE)
  then show ?thesis
    using stored_amount [of e x] in_units_scale [OF assms(2) currency_dp_le [OF assms(4)]] assms(3) d(1) by simp
qed

section \<open>Posting\<close>

text \<open>A line that moves \<open>d\<close> to its account and \<open>c\<close> from it, in units of the books' currency, and names no
  amount in another currency but a number.\<close>

definition moves :: "nat \<Rightarrow> dict \<Rightarrow> rat \<Rightarrow> rat \<Rightarrow> bool" where
  "moves dp e d c \<longleftrightarrow> amount_is (dget e ''debit'') d \<and> amount_is (dget e ''credit'') c \<and> in_units dp d \<and> in_units dp c
     \<and> is_ok (to_decimal0 (dget e ''fx_debit'')) \<and> is_ok (to_decimal0 (dget e ''fx_credit''))"

lemma rounded_line_same:
  assumes "moves dp e d c" "currency_dp cur = Inr dp"
  shows "\<exists>e'. rounded_line cur e = Inr e' \<and> moves dp e' d c"
proof -
  have m: "amount_is (dget e ''debit'') d" "amount_is (dget e ''credit'') c" "in_units dp d" "in_units dp c"
    using assms(1) by (simp_all add: moves_def)
  obtain v where v: "rbind (rbind (to_decimal0 (dget e ''debit'')) (\<lambda>d. round_money d cur)) to_stored_float = Inr v" "amount_is v d"
    using round_amount [OF amount_decimal0 [OF m(1)] m(3) _ assms(2)] m(1) by (auto simp: amount_is_def)
  obtain w where w: "rbind (rbind (to_decimal0 (dget e ''credit'')) (\<lambda>d. round_money d cur)) to_stored_float = Inr w" "amount_is w c"
    using round_amount [OF amount_decimal0 [OF m(2)] m(4) _ assms(2)] m(2) by (auto simp: amount_is_def)
  show ?thesis using assms(1) v w by (simp add: rounded_line_def moves_def)
qed

lemma line_moves_ok:
  assumes "moves dp e d c"
  obtains b where "line_moves e = Inr b" "\<not> b \<Longrightarrow> d = 0 \<and> c = 0"
proof -
  have m: "amount_is (dget e ''debit'') d" "amount_is (dget e ''credit'') c" using assms by (simp_all add: moves_def)
  obtain x where x: "to_decimal0 (dget e ''debit'') = Inr x" "is_fin x" "dval x = d" using amount_decimal0 [OF m(1)] by (rule dec_isE)
  obtain y where y: "to_decimal0 (dget e ''credit'') = Inr y" "is_fin y" "dval y = c" using amount_decimal0 [OF m(2)] by (rule dec_isE)
  obtain u w where "to_decimal0 (dget e ''fx_debit'') = Inr u" "to_decimal0 (dget e ''fx_credit'') = Inr w"
    using assms by (auto simp: moves_def is_ok_def split: sum.splits)
  then have "line_moves e = Inr (d \<noteq> 0 \<or> c \<noteq> 0 \<or> dec_true u \<or> dec_true w)" using x y by (simp add: line_moves_def)
  then show ?thesis using that by blast
qed

text \<open>The amounts of a list of lines, line by line.\<close>

definition entry_moves :: "nat \<Rightarrow> dict list \<Rightarrow> (rat \<times> rat) list \<Rightarrow> bool" where
  "entry_moves dp entries ms \<longleftrightarrow> list_all2 (\<lambda>e (d, c). moves dp e d c) entries ms"

lemma entry_moves_simps [simp]:
  "entry_moves dp [] []" "entry_moves dp (e # es) ((d, c) # ms) \<longleftrightarrow> moves dp e d c \<and> entry_moves dp es ms"
  by (simp_all add: entry_moves_def)

lemma entry_moves_append: "entry_moves dp es ms \<Longrightarrow> entry_moves dp fs ns \<Longrightarrow> entry_moves dp (es @ fs) (ms @ ns)"
  unfolding entry_moves_def by (rule list_all2_appendI)

abbreviation debits_of :: "(rat \<times> rat) list \<Rightarrow> rat" where "debits_of ms \<equiv> \<Sum>(d, c)\<leftarrow>ms. d"
abbreviation credits_of :: "(rat \<times> rat) list \<Rightarrow> rat" where "credits_of ms \<equiv> \<Sum>(d, c)\<leftarrow>ms. c"

text \<open>How much an entry moves in all, sides and signs apart.\<close>

abbreviation moved :: "(rat \<times> rat) list \<Rightarrow> rat" where "moved ms \<equiv> \<Sum>(d, c)\<leftarrow>ms. \<bar>d\<bar> + \<bar>c\<bar>"

lemma rounded_lines_same:
  "entry_moves dp entries ms \<Longrightarrow> currency_dp cur = Inr dp \<Longrightarrow> \<exists>es. mapR (rounded_line cur) entries = Inr es \<and> entry_moves dp es ms"
  unfolding entry_moves_def
proof (induction entries ms rule: list_all2_induct)
  case (Cons e entries m ms)
  obtain d c where m: "m = (d, c)" by (cases m)
  then obtain e' where "rounded_line cur e = Inr e'" "moves dp e' d c" using rounded_line_same Cons by blast
  then show ?case using Cons m by auto
qed simp

lemma kept_lines:
  "entry_moves dp entries ms \<Longrightarrow> \<exists>es ms'. filterR line_moves entries = Inr es \<and> entry_moves dp es ms'
     \<and> debits_of ms' = debits_of ms \<and> credits_of ms' = credits_of ms \<and> moved ms' = moved ms"
  unfolding entry_moves_def
proof (induction entries ms rule: list_all2_induct)
  case (Cons e entries m ms)
  obtain d c where m: "m = (d, c)" by (cases m)
  then have dc: "moves dp e d c" using Cons by simp
  obtain es ms' where es: "filterR line_moves entries = Inr es" "list_all2 (\<lambda>e (d, c). moves dp e d c) es ms'"
    "debits_of ms' = debits_of ms" "credits_of ms' = credits_of ms" "moved ms' = moved ms"
    using Cons.IH by blast
  obtain b where b: "line_moves e = Inr b" "\<not> b \<Longrightarrow> d = 0 \<and> c = 0" using line_moves_ok [OF dc] by blast
  show ?case
  proof (cases b)
    case True
    then show ?thesis using b es dc m by (intro exI [of _ "e # es"] exI [of _ "m # ms'"]) simp
  next
    case False
    then show ?thesis using b es m by (intro exI [of _ es] exI [of _ ms']) simp
  qed
qed auto

lemma moved_parts: "(\<Sum>x\<leftarrow>map fst ms. \<bar>x\<bar>) \<le> moved ms" "(\<Sum>x\<leftarrow>map snd ms. \<bar>x\<bar>) \<le> moved ms" "0 \<le> moved ms"
  by (induction ms) auto

lemma at_scale_grid: "at_scale 4 x \<Longrightarrow> grid10 x"
  unfolding at_scale_def using grid10_scaled [of 4] by (elim exE, simp only:)

lemma side_total_exact:
  assumes "list_all2 (\<lambda>e x. amount_is (dget e side) x) entries xs" "(\<Sum>x\<leftarrow>xs. \<bar>x\<bar>) \<le> 10 ^ 15"
  shows "dec_is (side_total side entries) (sum_list xs)"
proof -
  have "\<exists>ds. mapR (\<lambda>e. to_decimal (dget e side)) entries = Inr ds \<and> (\<forall>d\<in>set ds. is_fin d \<and> grid10 (dval d)) \<and> map dval ds = xs"
    using assms(1)
  proof (induction entries xs rule: list_all2_induct)
    case (Cons e entries x xs)
    obtain d where "to_decimal (dget e side) = Inr d" "is_fin d" "dval d = x" using amount_decimal [OF Cons(1)] by (rule dec_isE)
    then show ?case using Cons at_scale_grid by (auto simp: amount_is_def)
  qed simp
  then obtain ds where ds: "mapR (\<lambda>e. to_decimal (dget e side)) entries = Inr ds" "\<forall>d\<in>set ds. is_fin d \<and> grid10 (dval d)" "map dval ds = xs"
    by blast
  then have "(\<Sum>d\<leftarrow>ds. \<bar>dval d\<bar>) \<le> 10 ^ 15" using assms(2) by (simp add: ds(3) [symmetric] comp_def)
  then show ?thesis using dec_sum_grid [of ds] ds by (simp add: side_total_def grid_decs_def)
qed

lemma entry_totals:
  assumes "entry_moves dp entries ms" "moved ms \<le> 10 ^ 15"
  shows "dec_is (side_total ''debit'' entries) (debits_of ms)" "dec_is (side_total ''credit'' entries) (credits_of ms)"
proof -
  have "list_all2 (\<lambda>e x. amount_is (dget e ''debit'') x) entries (map fst ms)"
    "list_all2 (\<lambda>e x. amount_is (dget e ''credit'') x) entries (map snd ms)"
    using assms(1) by (auto simp: entry_moves_def list_all2_map2 moves_def elim!: list_all2_mono)
  moreover have "map fst ms = map (\<lambda>(d, c). d) ms" "map snd ms = map (\<lambda>(d, c). c) ms" by auto
  moreover have "(\<Sum>x\<leftarrow>map fst ms. \<bar>x\<bar>) \<le> 10 ^ 15" "(\<Sum>x\<leftarrow>map snd ms. \<bar>x\<bar>) \<le> 10 ^ 15"
    using moved_parts(1,2) [of ms] assms(2) by linarith+
  ultimately show "dec_is (side_total ''debit'' entries) (debits_of ms)" "dec_is (side_total ''credit'' entries) (credits_of ms)"
    using side_total_exact by metis+
qed

text \<open>An entry whose lines balance is posted, whole.\<close>

definition posts :: "pyval \<Rightarrow> dict list \<Rightarrow> rat \<Rightarrow> bool" where
  "posts cur entries x \<longleftrightarrow>
     (\<exists>lines. posted_lines cur entries = Inr lines
        \<and> dec_is (side_total ''debit'' lines) x \<and> dec_is (side_total ''credit'' lines) x)"

lemma balanced_posts:
  assumes "entry_moves dp entries ms" "currency_dp cur = Inr dp" "moved ms \<le> 10 ^ 15" "debits_of ms = credits_of ms"
  shows "posts cur entries (debits_of ms)"
proof -
  obtain rounded where r: "mapR (rounded_line cur) entries = Inr rounded" "entry_moves dp rounded ms"
    using rounded_lines_same [OF assms(1,2)] by blast
  obtain es ms' where es: "filterR line_moves rounded = Inr es" "entry_moves dp es ms'"
    "debits_of ms' = debits_of ms" "credits_of ms' = credits_of ms" "moved ms' = moved ms"
    using kept_lines [OF r(2)] by blast
  have t: "dec_is (side_total ''debit'' es) (debits_of ms)" "dec_is (side_total ''credit'' es) (debits_of ms)"
    using entry_totals [OF es(2)] es(3-5) assms(3,4) by auto
  then obtain d c where "side_total ''debit'' es = Inr d" "side_total ''credit'' es = Inr c" "is_fin d" "is_fin c" "dval d = dval c"
    by (metis dec_isE)
  then have "posted_lines cur entries = Inr es" using r(1) es(1) by (simp add: posted_lines_def)
  then show ?thesis using t by (auto simp: posts_def)
qed

section \<open>The exchange difference\<close>

lemma dabs_val: "is_fin d \<Longrightarrow> dec_is (dabs d) (rnd28 \<bar>dval d\<bar>)"
  by (elim is_finE) (simp add: dabs_def dval_dfix abs_mult del: dfix.simps)

lemma sum_in_units: "entry_moves dp entries ms \<Longrightarrow> in_units dp (debits_of ms) \<and> in_units dp (credits_of ms)"
  unfolding entry_moves_def by (induction rule: list_all2_induct) (auto simp: moves_def intro: in_units_add)

lemma sides_le_moved: "\<bar>debits_of ms\<bar> + \<bar>credits_of ms\<bar> \<le> moved ms"
  by (induction ms) auto

lemma exchange_gap_exact:
  assumes "entry_moves dp entries ms" "dp \<le> 4" "moved ms \<le> 10 ^ 11"
  shows "dec_is (exchange_gap entries) (debits_of ms - credits_of ms)"
proof -
  obtain d where d: "side_total ''debit'' entries = Inr d" "is_fin d" "dval d = debits_of ms"
    using entry_totals(1) [OF assms(1)] assms(3) by (auto elim: dec_isE)
  obtain c where c: "side_total ''credit'' entries = Inr c" "is_fin c" "dval c = credits_of ms"
    using entry_totals(2) [OF assms(1)] assms(3) by (auto elim: dec_isE)
  have "\<bar>debits_of ms - credits_of ms\<bar> \<le> 10 ^ 11" using sides_le_moved [of ms] assms(3) by linarith
  then have "dec_is (dsub d c) (dval d - dval c)"
    using sum_in_units [OF assms(1)] in_units_scale [OF _ assms(2)] d(2,3) c(2,3) by (intro dsub_at_scale [of _ _ 4 11]) auto
  then show ?thesis using d c by (simp add: exchange_gap_def)
qed

lemma origin_line_moves:
  assumes "origin_line settings code r dv cv = Inr e" "amount_is dv d" "amount_is cv c" "in_units dp d" "in_units dp c"
  shows "moves dp e d c"
  using assms by (auto simp: origin_line_def rmap_eq_Inr journal_line_def moves_def dget_def dget_or_def to_decimal0_def py_or_def split: if_splits)

lemma journal_line_moves:
  assumes "amount_is dv d" "amount_is cv c" "in_units dp d" "in_units dp c"
  shows "moves dp (journal_line code r dv cv) d c"
  using assms by (simp add: journal_line_def moves_def dget_def dget_or_def to_decimal0_def py_or_def)

lemma moves_put:
  assumes "moves dp e d c" "amount_is v x" "in_units dp x"
  shows "moves dp (dput ''debit'' v e) x c" "moves dp (dput ''credit'' v e) d x"
  using assms by (simp_all add: moves_def)

lemma moves_reset:
  assumes "moves dp e d c"
  shows "moves dp (dmerge e [(''debit'', PFloat 0), (''credit'', PFloat 0)]) 0 0"
  using assms by (simp add: moves_def dmerge_def)

lemma fx_difference_balances:
  assumes "entry_moves dp entries ms" "dp \<le> 4" "moved ms \<le> 10 ^ 11" "with_fx_difference settings accounts entries = Inr es"
  shows "\<exists>ms'. entry_moves dp es ms' \<and> moved ms' \<le> 2 * 10 ^ 11
    \<and> debits_of ms' = max (debits_of ms) (credits_of ms) \<and> credits_of ms' = max (debits_of ms) (credits_of ms)"
proof -
  let ?g = "debits_of ms - credits_of ms"
  obtain g where g: "exchange_gap entries = Inr g" "is_fin g" "dval g = ?g"
    using exchange_gap_exact [OF assms(1-3)] by (rule dec_isE)
  show ?thesis
  proof (cases "?g = 0")
    case True
    then have "es = entries" using assms(4) g by (simp add: with_fx_difference_def fx_difference_role_def)
    then show ?thesis using assms(1,3) True by (intro exI [of _ ms]) simp
  next
    case False
    then obtain r account line where line: "origin_line settings account r (PFloat 0) (PFloat 0) = Inr line"
      "balanced_with_fx_difference entries line = Inr es"
      using assms(4) g by (auto simp: with_fx_difference_def fx_difference_role_def rbind_eq_Inr split: option.splits)
    have units: "in_units dp ?g" using sum_in_units [OF assms(1)] in_units_diff by blast
    have small: "\<bar>?g\<bar> \<le> 10 ^ 11" using sides_le_moved [of ms] assms(3) by linarith
    have s4: "at_scale 4 \<bar>?g\<bar>" using in_units_scale [OF in_units_abs [OF units] assms(2)] .
    have "rnd28 \<bar>?g\<bar> = \<bar>?g\<bar>" using at_scale_fits [OF s4, of 11] small by (intro rnd28_fits) simp
    then obtain a where a: "dabs g = Inr a" "is_fin a" "dval a = \<bar>?g\<bar>"
      using dabs_val [OF g(2)] by (auto simp: g(3) elim: dec_isE)
    obtain v where "to_stored_float a = Inr v" "amount_is v \<bar>?g\<bar>" using stored_amount [OF a(2,3) s4] small by auto
    then have v: "rbind (dabs g) to_stored_float = Inr v" "amount_is v \<bar>?g\<bar>" using a by simp_all
    define e where "e = dput (if 0 < ?g then ''credit'' else ''debit'') v (dmerge line [(''debit'', PFloat 0), (''credit'', PFloat 0)])"
    have es: "es = entries @ [e]" using line(2) g False v by (simp add: balanced_with_fx_difference_def e_def split: if_splits)
    define m where "m = (if 0 < ?g then (0, \<bar>?g\<bar>) else (\<bar>?g\<bar>, 0))"
    have "moves dp line 0 0" using origin_line_moves [OF line(1), of 0 0] by simp
    then have "moves dp e (fst m) (snd m)"
      using moves_put [OF moves_reset v(2) in_units_abs [OF units], of line]
      by (cases "0 < ?g") (simp_all only: e_def m_def if_True if_False fst_conv snd_conv)
    then have "entry_moves dp es (ms @ [m])" unfolding es using entry_moves_append [OF assms(1), of "[e]" "[m]"] by (cases m) simp
    moreover have "moved (ms @ [m]) = moved ms + \<bar>?g\<bar>" by (simp add: m_def)
    then have "moved (ms @ [m]) \<le> 2 * 10 ^ 11" using assms(3) small by linarith
    moreover have "debits_of (ms @ [m]) = max (debits_of ms) (credits_of ms) \<and> credits_of (ms @ [m]) = max (debits_of ms) (credits_of ms)"
      by (auto simp: m_def)
    ultimately show ?thesis by blast
  qed
qed

section \<open>Payments\<close>

lemma converted_bound:
  assumes "0 \<le> r" "dp \<le> 4"
  shows "\<bar>converted dp r x\<bar> \<le> 2 * (\<bar>x\<bar> * r) + 1" "in_units dp (converted dp r x)" "at_scale 4 (converted dp r x)"
proof -
  have "\<bar>rnd28 (x * r)\<bar> \<le> 2 * (\<bar>x\<bar> * r)" using rnd28_abs [of "x * r"] assms(1) by (simp add: abs_mult)
  moreover have "\<bar>round_places (int dp) (rnd28 (x * r)) - rnd28 (x * r)\<bar> \<le> 1"
    using round_places_error [of "int dp" "rnd28 (x * r)"] p10_unit_le [of dp] by linarith
  ultimately show "\<bar>converted dp r x\<bar> \<le> 2 * (\<bar>x\<bar> * r) + 1"
    unfolding converted_def using abs_triangle_ineq [of "round_places (int dp) (rnd28 (x * r)) - rnd28 (x * r)" "rnd28 (x * r)"] by simp
  show "in_units dp (converted dp r x)" by (simp add: converted_def)
  then show "at_scale 4 (converted dp r x)" using in_units_scale assms(2) by blast
qed

lemma to_base_amount:
  assumes "is_fin d" "is_fin r" "currency_dp base = Inr dp" "0 \<le> dval r" "\<bar>dval d\<bar> * dval r \<le> 10 ^ 10"
  shows "\<exists>v. to_base d r base = Inr v \<and> amount_is v (converted dp (dval r) (dval d))"
proof -
  note b = converted_bound [OF assms(4) currency_dp_le [OF assms(3)], of "dval d"]
  obtain x where x: "dmul d r = Inr x" "is_fin x" "dval x = rnd28 (dval d * dval r)" using dmul_val [OF assms(1,2)] by (rule dec_isE)
  have "\<bar>dval x\<bar> \<le> 10 ^ 23" using rnd28_abs [of "dval d * dval r"] assms(4,5) by (simp add: x abs_mult)
  then obtain m where m: "round_money x base = Inr m" "is_fin m" "dval m = converted dp (dval r) (dval d)"
    using round_money_bounded(2) [OF x(2) assms(3)] by (auto simp: converted_def x elim: dec_isE)
  then show ?thesis using stored_amount [OF m(2,3) b(3)] b(1) assms(5) x by (simp add: to_base_def)
qed

lemma payment_piece_exact:
  assumes "amount_is amount m" "amount_is given g" "checked_exchange_rate rate = Inr r" "currency_dp base = Inr dp"
    and "\<bar>g\<bar> * dval r \<le> 10 ^ 10" "\<bar>g + m\<bar> * dval r \<le> 10 ^ 10"
  shows "\<exists>v. payment_piece amount given base rate = Inr v \<and> amount_is v (converted dp (dval r) (g + m) - converted dp (dval r) g)
    \<and> in_units dp (converted dp (dval r) (g + m) - converted dp (dval r) g)
    \<and> \<bar>converted dp (dval r) (g + m) - converted dp (dval r) g\<bar> \<le> 4 * 10 ^ 10 + 2"
proof -
  obtain n where "r = Fin n (- 12)" "0 < n" using assms(3) by (rule checked_exchange_rate_Inr)
  then have r: "is_fin r" "0 \<le> dval r" by simp_all
  have dp: "dp \<le> 4" using currency_dp_le [OF assms(4)] .
  obtain gd where gd: "to_decimal given = Inr gd" "is_fin gd" "dval gd = g" using amount_decimal [OF assms(2)] by (rule dec_isE)
  obtain md where md: "to_decimal amount = Inr md" "is_fin md" "dval md = m" using amount_decimal [OF assms(1)] by (rule dec_isE)
  have gm: "at_scale 4 g" "at_scale 4 m" "\<bar>g + m\<bar> \<le> 10 ^ 12" using assms(1,2) by (auto simp: amount_is_def)
  obtain u where u: "dadd gd md = Inr u" "is_fin u" "dval u = g + m"
    using dadd_at_scale [of gd md 4 12] gd md gm by (auto elim: dec_isE)
  obtain v where v: "to_base gd r base = Inr v" "amount_is v (converted dp (dval r) g)"
    using to_base_amount [OF gd(2) r(1) assms(4) r(2)] assms(5) gd(3) by auto
  obtain w where w: "to_base u r base = Inr w" "amount_is w (converted dp (dval r) (g + m))"
    using to_base_amount [OF u(2) r(1) assms(4) r(2)] assms(6) u(3) by auto
  obtain b where b: "to_decimal v = Inr b" "is_fin b" "dval b = converted dp (dval r) g" using amount_decimal [OF v(2)] by (rule dec_isE)
  obtain a where a: "to_decimal w = Inr a" "is_fin a" "dval a = converted dp (dval r) (g + m)" using amount_decimal [OF w(2)] by (rule dec_isE)
  note cg = converted_bound(2,3) [OF r(2) dp, of g] and cu = converted_bound(2,3) [OF r(2) dp, of "g + m"]
  have "\<bar>converted dp (dval r) (g + m) - converted dp (dval r) g\<bar> \<le> 4 * 10 ^ 10 + 2"
    using converted_bound(1) [OF r(2) dp, of g] converted_bound(1) [OF r(2) dp, of "g + m"] assms(5,6)
      abs_triangle_ineq4 [of "converted dp (dval r) (g + m)" "converted dp (dval r) g"] by simp
  then have small: "\<bar>converted dp (dval r) (g + m) - converted dp (dval r) g\<bar> \<le> 4 * 10 ^ 10 + 2"
    "\<bar>converted dp (dval r) (g + m) - converted dp (dval r) g\<bar> \<le> 10 ^ 11" by simp_all
  obtain x where x: "dsub a b = Inr x" "is_fin x" "dval x = converted dp (dval r) (g + m) - converted dp (dval r) g"
    using dsub_at_scale [of a b 4 11] a b cg cu small(2) by (auto elim: dec_isE)
  obtain y where "to_stored_float x = Inr y" "amount_is y (converted dp (dval r) (g + m) - converted dp (dval r) g)"
    using stored_amount [OF x(2,3) at_scale_minus [OF cu(2) cg(2)] small(2)] by blast
  then show ?thesis
    using assms(3) gd md u v w a b x in_units_diff [OF cu(1) cg(1)] small(1) by (simp add: payment_piece_def base_amount_def)
qed

lemma pieces_from:
  assumes "checked_exchange_rate rate = Inr r" "currency_dp base = Inr dp"
  shows "list_all2 amount_is amounts ms \<Longrightarrow> list_all2 amount_is givens (map (\<lambda>k. g + sum_list (take k ms)) [0..<length ms])
    \<Longrightarrow> (\<bar>g\<bar> + (\<Sum>m\<leftarrow>ms. \<bar>m\<bar>)) * dval r \<le> 10 ^ 10
    \<Longrightarrow> \<exists>pieces ps. mapR (\<lambda>(a, g). payment_piece a g base rate) (zip amounts givens) = Inr pieces \<and> list_all2 amount_is pieces ps
      \<and> sum_list ps = converted dp (dval r) (g + sum_list ms) - converted dp (dval r) g"
proof (induction ms arbitrary: g amounts givens)
  case (Cons m ms)
  obtain n where "r = Fin n (- 12)" "0 < n" using assms(1) by (rule checked_exchange_rate_Inr)
  then have r: "0 \<le> dval r" by simp
  obtain a as where a: "amounts = a # as" "amount_is a m" "list_all2 amount_is as ms" using Cons.prems(1) by (auto simp: list_all2_Cons2)
  define f where "f = (\<lambda>k. g + sum_list (take k (m # ms)))"
  have "map f [0..<length (m # ms)] = f 0 # map (\<lambda>k. f (Suc k)) [0..<length ms]" by (simp only: length_Cons map_upt_Suc)
  then have "map f [0..<length (m # ms)] = g # map (\<lambda>k. (g + m) + sum_list (take k ms)) [0..<length ms]" by (simp add: f_def add.assoc)
  then obtain v vs where v: "givens = v # vs" "amount_is v g" "list_all2 amount_is vs (map (\<lambda>k. (g + m) + sum_list (take k ms)) [0..<length ms])"
    using Cons.prems(2) unfolding f_def by (auto simp: list_all2_Cons2)
  have nonneg: "0 \<le> (\<Sum>m\<leftarrow>ms. \<bar>m\<bar>)" by (rule sum_list_nonneg) auto
  have le: "\<bar>g + m\<bar> + (\<Sum>m\<leftarrow>ms. \<bar>m\<bar>) \<le> \<bar>g\<bar> + (\<Sum>m\<leftarrow>m # ms. \<bar>m\<bar>)" by simp
  then have rest: "(\<bar>g + m\<bar> + (\<Sum>m\<leftarrow>ms. \<bar>m\<bar>)) * dval r \<le> 10 ^ 10"
    using mult_right_mono [OF le r] Cons.prems(3) by linarith
  have "\<bar>g\<bar> * dval r \<le> 10 ^ 10" "\<bar>g + m\<bar> * dval r \<le> 10 ^ 10"
    using Cons.prems(3) rest nonneg r mult_right_mono [of "\<bar>g\<bar>" "\<bar>g\<bar> + (\<Sum>m\<leftarrow>m # ms. \<bar>m\<bar>)" "dval r"]
      mult_right_mono [of "\<bar>g + m\<bar>" "\<bar>g + m\<bar> + (\<Sum>m\<leftarrow>ms. \<bar>m\<bar>)" "dval r"] by auto
  then obtain w where w: "payment_piece a v base rate = Inr w" "amount_is w (converted dp (dval r) (g + m) - converted dp (dval r) g)"
    using payment_piece_exact [OF a(2) v(2) assms] by blast
  obtain pieces ps where "mapR (\<lambda>(a, g). payment_piece a g base rate) (zip as vs) = Inr pieces" "list_all2 amount_is pieces ps"
    "sum_list ps = converted dp (dval r) ((g + m) + sum_list ms) - converted dp (dval r) (g + m)"
    using Cons.IH [OF a(3) v(3) rest] by blast
  then show ?case using w
    by (intro exI [of _ "w # pieces"] exI [of _ "(converted dp (dval r) (g + m) - converted dp (dval r) g) # ps"])
      (simp add: a(1) v(1) add.assoc)
qed simp

text \<open>What is given back of a payment adds up to what the payment posted.  However a payment is given
  back in pieces, some taken back in between, the amounts the pieces move on the receivable or payable,
  and on the bank, add up to exactly what their total moves when it is posted at once.\<close>

theorem payment_pieces_add_up:
  assumes "list_all2 amount_is amounts ms" "list_all2 amount_is givens (map (\<lambda>k. sum_list (take k ms)) [0..<length ms])"
    and "amount_is full (sum_list ms)" "checked_exchange_rate rate = Inr r" "currency_dp base = Inr dp"
    and "(\<Sum>m\<leftarrow>ms. \<bar>m\<bar>) * dval r \<le> 10 ^ 10"
  shows "\<exists>pieces ps v. mapR (\<lambda>(a, g). payment_piece a g base rate) (zip amounts givens) = Inr pieces \<and> list_all2 amount_is pieces ps
    \<and> payment_piece full (PFloat 0) base rate = Inr v \<and> amount_is v (sum_list ps)"
proof -
  obtain n where "r = Fin n (- 12)" "0 < n" using assms(4) by (rule checked_exchange_rate_Inr)
  then have r: "0 \<le> dval r" by simp
  obtain pieces ps where p: "mapR (\<lambda>(a, g). payment_piece a g base rate) (zip amounts givens) = Inr pieces" "list_all2 amount_is pieces ps"
    "sum_list ps = converted dp (dval r) (sum_list ms)"
    using pieces_from [OF assms(4,5,1), of givens 0] assms(2,6) by auto
  have "\<bar>sum_list ms\<bar> * dval r \<le> 10 ^ 10"
    using mult_right_mono [OF sum_list_abs [of ms] r] assms(6) by linarith
  then show ?thesis using payment_piece_exact [OF assms(3) amount_is_0 assms(4,5)] p by auto
qed

lemma control_line_moves:
  assumes "control_line settings origin acc r dv cv = Inr e" "amount_is dv d" "amount_is cv c" "in_units dp d" "in_units dp c"
  shows "moves dp e d c"
  using assms origin_line_moves journal_line_moves by (auto simp: control_line_def split: option.splits)

text \<open>The bank's side of a payment: what it moves in the account's own currency is a number.\<close>

definition bank_fx_plain :: "(string \<times> pyval \<times> pyval) option \<Rightarrow> bool" where
  "bank_fx_plain bank_fx = (case bank_fx of Some (_, PFloat _, _) \<Rightarrow> True | Some _ \<Rightarrow> False | None \<Rightarrow> True)"

lemma bank_line_moves:
  assumes "bank_fx_plain bank_fx"
  shows "moves dp (dmerge (dmerge [(''account'', PStr code)] [(''debit'', PFloat 0), (''credit'', PFloat 0)]) (bank_fx_fields bank_fx outflow)) 0 0"
  using assms
  by (auto simp: bank_fx_plain_def bank_fx_fields_def moves_def dmerge_def dget_def dget_or_def to_decimal0_def py_or_def
      split: option.splits prod.splits pyval.splits)

lemma payment_lines_move:
  assumes "payment_lines doc_type (control_line settings origin acc r) [(''account'', PStr code)] lv bv returning bank_fx = Inr es"
    and "bank_fx_plain bank_fx" "amount_is lv x" "amount_is bv y" "in_units dp x" "in_units dp y"
  shows "entry_moves dp es [(x, 0), (0, y)] \<or> entry_moves dp es [(y, 0), (0, x)]"
proof -
  define outflow where "outflow = ((List.member PURCHASE_TYPES doc_type \<or> doc_type = ''credit_note'') \<noteq> returning)"
  note bank = moves_put [OF bank_line_moves [OF assms(2)] assms(4,6), of code outflow]
  note call = assms(1) [unfolded payment_lines_def Let_def, folded outflow_def]
  show ?thesis
  proof (cases outflow)
    case True
    then show ?thesis using call bank(2) control_line_moves [OF _ assms(3) amount_is_0 assms(5) in_units_0]
      by (auto simp: rmap_eq_Inr)
  next
    case False
    then show ?thesis using call bank(1) control_line_moves [OF _ amount_is_0 assms(3) in_units_0 assms(5)]
      by (auto simp: rmap_eq_Inr)
  qed
qed

text \<open>A payment's entry balances: what it takes off the receivable or payable at the rate the document
  was raised at, what it moves at the bank at the rate the cash converted at, and the exchange
  difference between them, are posted whole, on the larger of the two.  The same holds of the entry
  that gives it back.\<close>

theorem payment_entry_posts:
  assumes "payment_amounts amount base recorded settled given = Inr (ledger_amount, bank_amount)"
    and "payment_entries settings accounts origin doc_type bank bank_fx (ledger_amount, bank_amount) returning = Inr entries"
    and "amount_is amount m" "amount_is given g" "currency_dp base = Inr dp"
    and "checked_exchange_rate recorded = Inr r" "(\<bar>g\<bar> + \<bar>m\<bar>) * dval r \<le> 10 ^ 10"
    and "checked_exchange_rate settled = Inr s" "(\<bar>g\<bar> + \<bar>m\<bar>) * dval s \<le> 10 ^ 10"
    and "\<And>code. bank_fx_plain (bank_fx code)"
  shows "\<exists>x y. amount_is ledger_amount x \<and> amount_is bank_amount y \<and> posts base entries (max x y)"
proof -
  have piece: "\<exists>x. amount_is v x \<and> in_units dp x \<and> \<bar>x\<bar> \<le> 4 * 10 ^ 10 + 2"
    if v: "payment_piece amount given base rate = Inr v" and q: "checked_exchange_rate rate = Inr q" "(\<bar>g\<bar> + \<bar>m\<bar>) * dval q \<le> 10 ^ 10" for rate q v
  proof -
    obtain n where "q = Fin n (- 12)" "0 < n" using q(1) by (rule checked_exchange_rate_Inr)
    then have "0 \<le> dval q" by simp
    then have "\<bar>g\<bar> * dval q \<le> (\<bar>g\<bar> + \<bar>m\<bar>) * dval q" "\<bar>g + m\<bar> * dval q \<le> (\<bar>g\<bar> + \<bar>m\<bar>) * dval q"
      by (auto intro: mult_right_mono)
    then have "\<bar>g\<bar> * dval q \<le> 10 ^ 10" "\<bar>g + m\<bar> * dval q \<le> 10 ^ 10" using q(2) by linarith+
    then show ?thesis using payment_piece_exact [OF assms(3,4) q(1) assms(5)] v by auto
  qed
  obtain x where x: "amount_is ledger_amount x" "in_units dp x" "\<bar>x\<bar> \<le> 4 * 10 ^ 10 + 2"
    using piece [OF _ assms(6,7)] assms(1) by (auto simp: payment_amounts_def rbind_eq_Inr rmap_eq_Inr)
  obtain y where y: "amount_is bank_amount y" "in_units dp y" "\<bar>y\<bar> \<le> 4 * 10 ^ 10 + 2"
    using piece [OF _ assms(8,9)] assms(1) by (auto simp: payment_amounts_def rbind_eq_Inr rmap_eq_Inr)
  obtain acc code es where es: "payment_lines doc_type (control_line settings origin acc (control_role doc_type)) [(''account'', PStr code)]
      ledger_amount bank_amount returning (bank_fx code) = Inr es" "with_fx_difference settings accounts es = Inr entries"
    using assms(2) by (auto simp: payment_entries_def settlement_accounts_def rbind_eq_Inr)
  define ms where "ms = (if entry_moves dp es [(x, 0), (0, y)] then [(x, 0), (0, y)] else [(y, 0), (0, x)])"
  have ms: "entry_moves dp es ms" "moved ms \<le> 10 ^ 11" "max (debits_of ms) (credits_of ms) = max x y"
    using payment_lines_move [OF es(1) assms(10) x(1) y(1) x(2) y(2)] x(3) y(3) by (auto simp: ms_def)
  have dp: "dp \<le> 4" using currency_dp_le [OF assms(5)] .
  obtain ms' where ms': "entry_moves dp entries ms'" "moved ms' \<le> 2 * 10 ^ 11" "debits_of ms' = max x y" "credits_of ms' = max x y"
    using fx_difference_balances [OF ms(1) dp ms(2) es(2)] ms(3) by auto
  then have "posts base entries (max x y)" using balanced_posts [OF ms'(1) assms(5)] by simp
  then show ?thesis using x(1) y(1) by blast
qed

section \<open>A bill\<close>

lemma require_doc_rate_pos:
  assumes "require_doc_rate doc base = Inr r"
  shows "is_fin r" "0 < dval r"
proof -
  have rate: "doc_rate doc base = Inr (Some r)" using assms by (auto simp: require_doc_rate_def rbind_eq_Inr split: option.splits)
  have "is_fin r \<and> 0 < dval r"
  proof (cases "blank (dget doc ''conversion_rate'')")
    case True
    then have "r = Fin 1 0" using rate by (auto simp: doc_rate_def Let_def split: if_splits)
    then show ?thesis by simp
  next
    case False
    with rate have "checked_exchange_rate (dget doc ''conversion_rate'') = Inr r"
      by (auto simp: doc_rate_def Let_def rbind_eq_Inr rtry_def split: sum.splits if_splits)
    then obtain n where "r = Fin n (- 12)" "0 < n" by (rule checked_exchange_rate_Inr)
    then show ?thesis by simp
  qed
  then show "is_fin r" "0 < dval r" by simp_all
qed

lemma float_digits_pos: "1 \<le> float_digits x"
  by (auto simp: float_digits_def find_Some_iff split: option.splits)

lemma shortest_bound: "\<bar>shortest x\<bar> \<le> 2 * \<bar>x\<bar>"
proof (cases "x = 0")
  case False
  have "\<bar>shortest x - x\<bar> \<le> 10 powi (mag 10 \<bar>x\<bar> - int (float_digits x) + 1) / 2"
    using round_sig_error [of 10 x "float_digits x"] False by (simp add: shortest_def)
  also have "\<dots> \<le> 10 powi (mag 10 \<bar>x\<bar>) / 2" using float_digits_pos [of x] by (simp add: power_int_increasing)
  also have "\<dots> \<le> \<bar>x\<bar> / 2" using mag_bounds(1) [of 10 "\<bar>x\<bar>"] False by simp
  finally show ?thesis using abs_triangle_ineq [of "shortest x - x" x] abs_ge_zero [of x] by linarith
qed (simp add: shortest_def)

lemma fl_bound: "\<bar>fl x\<bar> \<le> 2 * \<bar>x\<bar>"
proof -
  have "\<bar>x\<bar> / 2 ^ 53 \<le> \<bar>x\<bar>" by (simp add: divide_le_eq)
  then show ?thesis using fl_error [of x] abs_triangle_ineq [of "fl x - x" x] by linarith
qed

text \<open>A stored amount converted to the books' currency.\<close>

lemma base_amount_of_stored:
  assumes "to_stored_float a = Inr v" "base_amount v r base = Inr w" "currency_dp base = Inr dp" "is_fin r" "0 < dval r"
    and "\<bar>dval a\<bar> * dval r \<le> 10 ^ 9"
  shows "\<exists>y. amount_is w y \<and> in_units dp y \<and> \<bar>y\<bar> \<le> 8 * (\<bar>dval a\<bar> * dval r) + 1"
proof -
  have v: "is_fin a" "v = PFloat (fl (dval a))" using stored_is_fin [OF assms(1)] by simp_all
  define d where "d = dec_of_float (fl (dval a))"
  have "\<bar>dval d\<bar> \<le> 4 * \<bar>dval a\<bar>"
    using shortest_bound [of "fl (dval a)"] fl_bound [of "dval a"] by (simp add: d_def dval_dec_of_float)
  then have small: "\<bar>dval d\<bar> * dval r \<le> 4 * (\<bar>dval a\<bar> * dval r)" using assms(5) mult_right_mono [of "\<bar>dval d\<bar>" "4 * \<bar>dval a\<bar>" "dval r"] by simp
  then have "\<bar>dval d\<bar> * dval r \<le> 10 ^ 10" using assms(6) by simp
  then obtain w' where w': "to_base d r base = Inr w'" "amount_is w' (converted dp (dval r) (dval d))"
    using to_base_amount [OF _ assms(4,3), of d] assms(5) by (auto simp: d_def)
  have "w' = w" using assms(2) w'(1) by (simp add: v base_amount_def d_def)
  moreover note converted_bound(1,2) [of "dval r" dp "dval d", OF less_imp_le [OF assms(5)] currency_dp_le [OF assms(3)]]
  ultimately show ?thesis using w'(2) small by (intro exI [of _ "converted dp (dval r) (dval d)"]) auto
qed

lemma first_largest_mem: "first_largest f is = Some i \<Longrightarrow> i \<in> set is"
proof (cases "is")
  case (Cons j js)
  have "foldl (\<lambda>m j. if f m < f j then j else m) k js \<in> insert k (set js)" for k
    by (induction js arbitrary: k) (simp, fastforce)
  then show "first_largest f is = Some i \<Longrightarrow> i \<in> set is" using Cons by (auto simp: first_largest_def)
qed (simp add: first_largest_def)

lemma sum_list_replaced: "i < length xs \<Longrightarrow> sum_list (xs[i := x]) = sum_list xs - xs ! i + (x :: rat)"
proof (induction xs arbitrary: i)
  case (Cons a xs)
  then show ?case by (cases i) auto
qed simp

definition unit_decs :: "nat \<Rightarrow> dec list \<Rightarrow> bool" where
  "unit_decs dp ds \<longleftrightarrow> (\<forall>d\<in>set ds. is_fin d \<and> in_units dp (dval d))"

lemma dec_sum_units:
  assumes "unit_decs dp ds" "dp \<le> 4" "(\<Sum>d\<leftarrow>ds. \<bar>dval d\<bar>) \<le> 10 ^ 15"
  shows "dec_is (dec_sum ds) (\<Sum>d\<leftarrow>ds. dval d)" "in_units dp (\<Sum>d\<leftarrow>ds. dval d)"
proof -
  show "dec_is (dec_sum ds) (\<Sum>d\<leftarrow>ds. dval d)"
    using assms at_scale_grid [OF in_units_scale] by (intro dec_sum_grid) (auto simp: grid_decs_def unit_decs_def)
  show "in_units dp (\<Sum>d\<leftarrow>ds. dval d)" using assms(1) by (induction ds) (auto simp: unit_decs_def intro: in_units_add)
qed

lemma converted_debits:
  assumes "mapR (\<lambda>(p, a). rbind (to_stored_float a) (\<lambda>v. rbind (base_amount v r base) to_decimal)) parts = Inr ds"
    and "currency_dp base = Inr dp" "is_fin r" "0 < dval r" "(\<Sum>(p, a)\<leftarrow>parts. \<bar>dval a\<bar>) * dval r \<le> 10 ^ 9"
  shows "unit_decs dp ds \<and> length ds = length parts \<and> (\<Sum>d\<leftarrow>ds. \<bar>dval d\<bar>) \<le> 8 * ((\<Sum>(p, a)\<leftarrow>parts. \<bar>dval a\<bar>) * dval r) + of_nat (length parts)"
  using assms(1,5)
proof (induction parts arbitrary: ds)
  case (Cons pa parts)
  obtain p a where pa: "pa = (p, a)" by (cases pa)
  let ?s = "\<Sum>(p, a)\<leftarrow>parts. \<bar>dval a\<bar>"
  have "0 \<le> ?s" by (rule sum_list_nonneg) auto
  then have nonneg: "0 \<le> ?s * dval r" "0 \<le> \<bar>dval a\<bar> * dval r" using assms(4) by simp_all
  have s: "(\<bar>dval a\<bar> + ?s) * dval r \<le> 10 ^ 9" using Cons.prems(2) by (simp add: pa)
  obtain v w d ds' where d: "to_stored_float a = Inr v" "base_amount v r base = Inr w" "to_decimal w = Inr d"
      "mapR (\<lambda>(p, a). rbind (to_stored_float a) (\<lambda>v. rbind (base_amount v r base) to_decimal)) parts = Inr ds'" "ds = d # ds'"
    using Cons.prems(1) by (auto simp: pa rbind_eq_Inr)
  obtain y where y: "amount_is w y" "in_units dp y" "\<bar>y\<bar> \<le> 8 * (\<bar>dval a\<bar> * dval r) + 1"
    using base_amount_of_stored [OF d(1,2) assms(2-4)] s nonneg by (auto simp: distrib_right)
  have "is_fin d" "dval d = y" using amount_decimal [OF y(1)] d(3) by simp_all
  moreover have "unit_decs dp ds' \<and> length ds' = length parts \<and> (\<Sum>d\<leftarrow>ds'. \<bar>dval d\<bar>) \<le> 8 * (?s * dval r) + of_nat (length parts)"
    using Cons.IH [OF d(4)] s nonneg by (simp add: distrib_right)
  ultimately show ?case using y(2,3) d(5) by (simp add: pa unit_decs_def distrib_right)
qed (simp add: unit_decs_def)

lemma base_debits_exact:
  assumes "base_debits parts bt r base = Inr ds" "currency_dp base = Inr dp" "is_fin r" "0 < dval r"
    and "amount_is bt t" "in_units dp t" "\<bar>t\<bar> \<le> 10 ^ 10"
    and "(\<Sum>(p, a)\<leftarrow>parts. \<bar>dval a\<bar>) * dval r \<le> 10 ^ 9" "length parts \<le> 10 ^ 6"
  shows "unit_decs dp ds" "length ds = length parts" "(\<Sum>d\<leftarrow>ds. dval d) = t" "(\<Sum>d\<leftarrow>ds. \<bar>dval d\<bar>) \<le> 10 ^ 11"
proof -
  have dp: "dp \<le> 4" using currency_dp_le [OF assms(2)] .
  obtain ds0 where ds0: "mapR (\<lambda>(p, a). rbind (to_stored_float a) (\<lambda>v. rbind (base_amount v r base) to_decimal)) parts = Inr ds0"
    using assms(1) by (auto simp: base_debits_def rbind_eq_Inr)
  have u: "unit_decs dp ds0" "length ds0 = length parts" "(\<Sum>d\<leftarrow>ds0. \<bar>dval d\<bar>) \<le> 8 * 10 ^ 9 + 10 ^ 6"
    using converted_debits [OF ds0 assms(2-4,8)] assms(8,9) by auto
  have elem: "\<bar>dval d\<bar> \<le> 8 * 10 ^ 9 + 10 ^ 6" if "d \<in> set ds0" for d
    using elem_le_sum [of "map (\<lambda>d. \<bar>dval d\<bar>) ds0" "\<bar>dval d\<bar>"] that u(3) by auto
  obtain i t' s gap d where i: "i < length ds0" and call: "to_decimal bt = Inr t'" "dec_sum ds0 = Inr s" "dsub t' s = Inr gap"
      "dadd (ds0 ! i) gap = Inr d" "ds = ds0[i := d]"
    using assms(1) ds0 u(2) by (auto simp: base_debits_def rbind_eq_Inr Let_def split: option.splits if_splits dest!: first_largest_mem)
  have s: "is_fin s" "dval s = (\<Sum>d\<leftarrow>ds0. dval d)" "in_units dp (dval s)"
    using dec_sum_units [OF u(1) dp] u(3) call(2) by auto
  have t': "is_fin t'" "dval t' = t" using amount_decimal [OF assms(5)] call(1) by simp_all
  have sb: "\<bar>dval s\<bar> \<le> 8 * 10 ^ 9 + 10 ^ 6" using sum_list_abs [of "map dval ds0"] u(3) s(2) by (simp add: comp_def)
  have gb: "\<bar>t - dval s\<bar> \<le> 2 * 10 ^ 10" using abs_triangle_ineq4 [of t "dval s"] sb assms(7) by simp
  have gap: "is_fin gap" "dval gap = t - dval s" "in_units dp (dval gap)"
    using dsub_at_scale [of t' s 4 11] t' s call(3) in_units_scale [OF _ dp] assms(6) gb in_units_diff [OF assms(6) s(3)] by auto
  have di: "is_fin (ds0 ! i)" "in_units dp (dval (ds0 ! i))" "\<bar>dval (ds0 ! i)\<bar> \<le> 8 * 10 ^ 9 + 10 ^ 6"
    using u(1) i elem by (auto simp: unit_decs_def)
  have db: "\<bar>dval (ds0 ! i) + dval gap\<bar> \<le> 4 * 10 ^ 10" using abs_triangle_ineq [of "dval (ds0 ! i)" "dval gap"] di(3) gb gap(2) by simp
  have "dec_is (dadd (ds0 ! i) gap) (dval (ds0 ! i) + dval gap)"
    using db by (intro dadd_at_scale [of _ _ 4 11] di(1) gap(1) in_units_scale [OF di(2) dp] in_units_scale [OF gap(3) dp]) simp_all
  then have d: "is_fin d" "dval d = dval (ds0 ! i) + dval gap" unfolding call(4) by (simp_all only: dec_is_Inr)
  show "length ds = length parts" using u(2) call(5) by simp
  show "unit_decs dp ds"
    using u(1) d di(2) gap(3) in_units_add [OF di(2) gap(3)] set_update_subset_insert [of ds0 i d] by (auto simp: unit_decs_def call(5))
  show "(\<Sum>d\<leftarrow>ds. dval d) = t"
    using sum_list_replaced [of i "map dval ds0" "dval d"] i d(2) gap(2) s(2) by (simp add: call(5) map_update)
  show "(\<Sum>d\<leftarrow>ds. \<bar>dval d\<bar>) \<le> 10 ^ 11"
    using sum_list_replaced [of i "map (\<lambda>d. \<bar>dval d\<bar>) ds0" "\<bar>dval d\<bar>"] i d(2) db u(3) by (simp add: call(5) map_update)
qed

lemma bill_debit_line_moves: "amount_is v d \<Longrightarrow> in_units dp d \<Longrightarrow> moves dp (bill_debit_line acc target v) d 0"
proof (cases target)
  case (OnAccount code)
  assume "amount_is v d" "in_units dp d"
  then show ?thesis by (simp add: OnAccount bill_debit_line_def moves_def dget_def dget_or_def to_decimal0_def py_or_def)
qed (use journal_line_moves [OF _ amount_is_0 _ in_units_0] in \<open>simp_all add: bill_debit_line_def\<close>)

lemma bill_debit_lines_move:
  "mapR to_stored_float ds = Inr vs \<Longrightarrow> length ts = length ds \<Longrightarrow> unit_decs dp ds \<Longrightarrow> dp \<le> 4 \<Longrightarrow> (\<Sum>d\<leftarrow>ds. \<bar>dval d\<bar>) \<le> 10 ^ 11
    \<Longrightarrow> entry_moves dp (map2 (bill_debit_line acc) ts vs) (map (\<lambda>d. (dval d, 0)) ds)"
proof (induction ds arbitrary: vs ts)
  case (Cons d ds)
  obtain v vs' t ts' where v: "vs = v # vs'" "ts = t # ts'" "to_stored_float d = Inr v" "mapR to_stored_float ds = Inr vs'" "length ts' = length ds"
    using Cons.prems(1,2) by (auto simp: rbind_eq_Inr length_Suc_conv)
  have d: "is_fin d" "in_units dp (dval d)" "unit_decs dp ds" using Cons.prems(3) by (auto simp: unit_decs_def)
  have "0 \<le> (\<Sum>d\<leftarrow>ds. \<bar>dval d\<bar>)" by (rule sum_list_nonneg) auto
  then have b: "\<bar>dval d\<bar> \<le> 10 ^ 11" "(\<Sum>d\<leftarrow>ds. \<bar>dval d\<bar>) \<le> 10 ^ 11" using Cons.prems(5) abs_ge_zero [of "dval d"] by auto
  have "amount_is v (dval d)" using stored_inv [OF v(3) d(1) in_units_scale [OF d(2) Cons.prems(4)] b(1)] .
  then show ?case using Cons.IH [OF v(4,5) d(3) Cons.prems(4) b(2)] bill_debit_line_moves d(2) by (simp add: v)
qed simp

lemma debits_then_credit:
  "debits_of (map (\<lambda>d. (dval d, 0)) ds @ [(0, t)]) = (\<Sum>d\<leftarrow>ds. dval d)" "credits_of (map (\<lambda>d. (dval d, 0)) ds @ [(0, t)]) = t"
  "moved (map (\<lambda>d. (dval d, 0)) ds @ [(0, t)]) = (\<Sum>d\<leftarrow>ds. \<bar>dval d\<bar>) + \<bar>t\<bar>"
  by (induction ds) auto

text \<open>A bill whose amounts come to no more than a thousand million in the books.\<close>

definition bill_bounded :: "dict \<Rightarrow> pyval \<Rightarrow> bool" where
  "bill_bounded doc base \<longleftrightarrow>
     (\<forall>parts tot rate. bill_debit_parts doc = Inr parts \<and> doc_money0 doc ''total'' = Inr tot \<and> require_doc_rate doc base = Inr rate
        \<longrightarrow> (\<bar>dval tot\<bar> + (\<Sum>(p, a)\<leftarrow>parts. \<bar>dval a\<bar>)) * dval rate \<le> 10 ^ 9 \<and> length parts \<le> 10 ^ 6)"

lemma book_parts_Inr:
  assumes "book_parts settings accounts base rate tot parts targets = Inr b"
  obtains acc v w ds vs where "to_stored_float tot = Inr v" "base_amount v rate base = Inr w"
    "base_debits parts w rate base = Inr ds" "mapR to_stored_float ds = Inr vs"
    "bb_entries b = map2 (bill_debit_line acc) targets vs @ [journal_line (role_code acc PAYABLE) PAYABLE (PFloat 0) w]"
proof -
  from assms have "\<exists>acc v w ds vs. to_stored_float tot = Inr v \<and> base_amount v rate base = Inr w
    \<and> base_debits parts w rate base = Inr ds \<and> mapR to_stored_float ds = Inr vs
    \<and> b = \<lparr>bb_entries = map2 (bill_debit_line acc) targets vs @ [journal_line (role_code acc PAYABLE) PAYABLE (PFloat 0) w],
         bb_parts = map fst parts, bb_debits = ds\<rparr>"
    by (auto simp: book_parts_def rbind_eq_Inr split: if_splits)
  then obtain acc v w ds vs where c: "to_stored_float tot = Inr v" "base_amount v rate base = Inr w"
      "base_debits parts w rate base = Inr ds" "mapR to_stored_float ds = Inr vs"
    and b: "b = \<lparr>bb_entries = map2 (bill_debit_line acc) targets vs @ [journal_line (role_code acc PAYABLE) PAYABLE (PFloat 0) w],
         bb_parts = map fst parts, bb_debits = ds\<rparr>"
    by blast
  have "bb_entries b = map2 (bill_debit_line acc) targets vs @ [journal_line (role_code acc PAYABLE) PAYABLE (PFloat 0) w]" by (simp only: b bill_booking.simps)
  with c show thesis by (rule that)
qed

lemma bill_entries_Inr:
  assumes "bill_entries settings accounts items drawn doc base = Inr (Some b)"
    and "doc_money0 doc ''total'' = Inr tot" "require_doc_rate doc base = Inr rate" "bill_debit_parts doc = Inr parts"
  obtains targets where "length targets = length (if parts = [] then [(RolePart GENERAL_EXPENSE, tot)] else parts)"
    "book_parts settings accounts base rate tot (if parts = [] then [(RolePart GENERAL_EXPENSE, tot)] else parts) targets = Inr b"
proof -
  obtain lines targets nothing where c: "mapR (\<lambda>(p, _). part_target settings items lines p) parts = Inr targets"
    and body: "(if nothing then Inr None
      else if parts = [] then rmap Some (book_parts settings accounts base rate tot [(RolePart GENERAL_EXPENSE, tot)] (map (drawn_home drawn) [ForRole GENERAL_EXPENSE]))
      else rmap Some (book_parts settings accounts base rate tot parts (map (drawn_home drawn) targets))) = Inr (Some b)"
    using assms by (auto simp: bill_entries_def rbind_eq_Inr)
  show thesis
  proof (cases "parts = []")
    case True
    then show ?thesis using that [of "map (drawn_home drawn) [ForRole GENERAL_EXPENSE]"] body by (auto simp: rmap_eq_Inr split: if_splits)
  next
    case False
    then show ?thesis using that [of "map (drawn_home drawn) targets"] body mapR_length [OF c] by (auto simp: rmap_eq_Inr split: if_splits)
  qed
qed

lemma bill_entries_balance:
  assumes "bill_entries settings accounts items drawn doc base = Inr (Some b)" "currency_dp base = Inr dp" "bill_bounded doc base"
    and "doc_money0 doc ''total'' = Inr tot" "require_doc_rate doc base = Inr rate"
  shows "\<exists>ms v w. entry_moves dp (bb_entries b) ms \<and> debits_of ms = credits_of ms \<and> moved ms \<le> 2 * 10 ^ 11
    \<and> to_stored_float tot = Inr v \<and> base_amount v rate base = Inr w \<and> amount_is w (debits_of ms)"
proof -
  note rate = require_doc_rate_pos [OF assms(5)]
  obtain parts0 where parts0: "bill_debit_parts doc = Inr parts0" using assms(1,4,5) by (auto simp: bill_entries_def rbind_eq_Inr)
  define parts where "parts = (if parts0 = [] then [(RolePart GENERAL_EXPENSE, tot)] else parts0)"
  obtain targets where t: "length targets = length parts" "book_parts settings accounts base rate tot parts targets = Inr b"
    using bill_entries_Inr [OF assms(1,4,5) parts0] unfolding parts_def by blast
  obtain acc v w ds vs where call: "length targets = length parts" "to_stored_float tot = Inr v" "base_amount v rate base = Inr w"
      "base_debits parts w rate base = Inr ds" "mapR to_stored_float ds = Inr vs"
      "bb_entries b = map2 (bill_debit_line acc) targets vs @ [journal_line (role_code acc PAYABLE) PAYABLE (PFloat 0) w]"
    using book_parts_Inr [OF t(2)] t(1) by metis
  have bound: "(\<bar>dval tot\<bar> + (\<Sum>(p, a)\<leftarrow>parts0. \<bar>dval a\<bar>)) * dval rate \<le> 10 ^ 9" "length parts0 \<le> 10 ^ 6"
    using assms(3-5) parts0 by (auto simp: bill_bounded_def)
  have "0 \<le> (\<Sum>(p, a)\<leftarrow>parts0. \<bar>dval a\<bar>)" by (rule sum_list_nonneg) auto
  then have "\<bar>dval tot\<bar> * dval rate \<le> (\<bar>dval tot\<bar> + (\<Sum>(p, a)\<leftarrow>parts0. \<bar>dval a\<bar>)) * dval rate"
    "(\<Sum>(p, a)\<leftarrow>parts. \<bar>dval a\<bar>) * dval rate \<le> (\<bar>dval tot\<bar> + (\<Sum>(p, a)\<leftarrow>parts0. \<bar>dval a\<bar>)) * dval rate"
    using rate(2) by (auto simp: parts_def intro!: mult_right_mono)
  then have small: "\<bar>dval tot\<bar> * dval rate \<le> 10 ^ 9" "(\<Sum>(p, a)\<leftarrow>parts. \<bar>dval a\<bar>) * dval rate \<le> 10 ^ 9" using bound(1) by linarith+
  obtain t where t: "amount_is w t" "in_units dp t" "\<bar>t\<bar> \<le> 8 * (\<bar>dval tot\<bar> * dval rate) + 1"
    using base_amount_of_stored [OF call(2,3) assms(2) rate small(1)] by blast
  have t10: "\<bar>t\<bar> \<le> 10 ^ 10" using t(3) small(1) by simp
  have len: "length parts \<le> 10 ^ 6" using bound(2) by (simp add: parts_def)
  note ds = base_debits_exact [OF call(4) assms(2) rate t(1,2) t10 small(2) len]
  define ms where "ms = map (\<lambda>d. (dval d, 0 :: rat)) ds @ [(0, t)]"
  have "entry_moves dp (bb_entries b) ms"
    unfolding call(6) ms_def
    using bill_debit_lines_move [OF call(5) _ ds(1) currency_dp_le [OF assms(2)] ds(4), of targets] call(1) ds(2)
      journal_line_moves [OF amount_is_0 t(1) in_units_0 t(2)] by (intro entry_moves_append) auto
  moreover have "debits_of ms = t" "credits_of ms = t" "moved ms \<le> 2 * 10 ^ 11" using ds(3,4) t10 by (simp_all only: ms_def debits_then_credit) simp
  ultimately show ?thesis using call(2,3) t(1) by auto
qed

text \<open>A bill's entry is posted: what its lines, its tax and its shipping debit in the books' currency is to
  the unit what its total owes, converted once, whatever each converts to by itself.\<close>

theorem bill_entry_posts:
  assumes "bill_entries settings accounts items drawn doc base = Inr (Some b)" "currency_dp base = Inr dp" "bill_bounded doc base"
    and "doc_money0 doc ''total'' = Inr tot" "require_doc_rate doc base = Inr rate"
  shows "\<exists>v w x. to_stored_float tot = Inr v \<and> base_amount v rate base = Inr w \<and> amount_is w x \<and> posts base (bb_entries b) x"
proof -
  obtain ms v w where b: "entry_moves dp (bb_entries b) ms" "debits_of ms = credits_of ms" "moved ms \<le> 2 * 10 ^ 11"
    "to_stored_float tot = Inr v" "base_amount v rate base = Inr w" "amount_is w (debits_of ms)"
    using bill_entries_balance [OF assms] by blast
  have "moved ms \<le> 10 ^ 15" using b(3) by simp
  then have "posts base (bb_entries b) (debits_of ms)" using balanced_posts [OF b(1) assms(2)] b(2) by simp
  then show ?thesis using b(4-6) by blast
qed

section \<open>Examples\<close>

text \<open>Two lines, 3.33 and 6.67 of the document's currency, at a rate of a half: each converts by itself, to 1.67
  and 3.34, and the unit too many comes off the larger.\<close>

definition demo_posting_settings :: dict where
  "demo_posting_settings = [(SCHEMA_KEY, PInt 4),
     (ROLES_KEY, PDict [(''payable'', PStr ''2110''), (''receivable'', PStr ''1120''), (''default_deposit'', PStr ''1111''),
        (''general_expense'', PStr ''6950''), (''fx_gain'', PStr ''6960''), (''fx_loss'', PStr ''6960'')])]"

definition demo_bill :: dict where
  "demo_bill = [(''currency'', PStr ''EUR''), (''conversion_rate'', PStr ''0.5''), (''total'', PInt 10),
     (''line_items'', PList [PDict [(''quantity'', PInt 1), (''line_total'', PStr ''3.33''), (''receive_as'', PStr ''expense'')],
        PDict [(''quantity'', PInt 1), (''line_total'', PStr ''6.67''), (''receive_as'', PStr ''expense'')]])]"

lemma demo_bill_parts:
  "bill_debit_parts demo_bill = Inr [(LinePart 0, Fin 333 (-2)), (LinePart 1, Fin 667 (-2))]"
  by code_simp

lemma demo_bill_rate: "require_doc_rate demo_bill (PStr ''USD'') = Inr (Fin 500000000000 (-12))"
  by code_simp

lemma demo_bill_total: "doc_money0 demo_bill ''total'' = Inr (Fin 1000 (-2))" "currency_dp (PStr ''USD'') = Inr 2"
  by code_simp+

lemma demo_bill_built:
  "(case bill_entries demo_posting_settings None (\<lambda>_. None) [] demo_bill (PStr ''USD'') of Inr (Some b) \<Rightarrow> bb_debits b = [Fin 167 (-2), Fin 333 (-2)] | _ \<Rightarrow> False)"
  by code_simp

lemma demo_amounts: "fl 5 = 5" "fl 40 = 40" "fl 20 = 20" "base_amount (PFloat 10) (Fin 500000000000 (-12)) (PStr ''USD'') = Inr (PFloat 5)"
    "to_stored_float (Fin 1000 (-2)) = Inr (PFloat 10)"
  by code_simp+

lemma whole_amount: "fl (of_int n) = of_int n \<Longrightarrow> \<bar>n\<bar> \<le> 10 ^ 11 \<Longrightarrow> amount_is (PFloat (of_int n)) (of_int n)"
proof -
  assume n: "fl (of_int n) = of_int n" "\<bar>n\<bar> \<le> 10 ^ 11"
  have "\<bar>of_int n :: rat\<bar> \<le> of_int (10 ^ 11)" using n(2) by (simp only: of_int_abs [symmetric] of_int_le_iff)
  moreover have "at_scale 4 (of_int n)" using in_units_scale [of 0 "of_int n"] by (simp add: in_units_iff)
  ultimately show ?thesis using n(1) by (simp add: amount_is_def)
qed

theorem bill_entry_posts_witness:
  "\<exists>b. bill_entries demo_posting_settings None (\<lambda>_. None) [] demo_bill (PStr ''USD'') = Inr (Some b)
     \<and> bb_debits b = [Fin 167 (-2), Fin 333 (-2)] \<and> posts (PStr ''USD'') (bb_entries b) 5"
proof -
  obtain b where b: "bill_entries demo_posting_settings None (\<lambda>_. None) [] demo_bill (PStr ''USD'') = Inr (Some b)" "bb_debits b = [Fin 167 (-2), Fin 333 (-2)]"
    using demo_bill_built by (auto split: sum.splits option.splits)
  have bounded: "bill_bounded demo_bill (PStr ''USD'')"
    by (simp add: bill_bounded_def demo_bill_parts demo_bill_total demo_bill_rate)
  have a: "amount_is (PFloat 5) 5" using whole_amount [of 5] demo_amounts(1) by simp
  obtain x where x: "amount_is (PFloat 5) x" "posts (PStr ''USD'') (bb_entries b) x"
    using bill_entry_posts [OF b(1) demo_bill_total(2) bounded demo_bill_total(1) demo_bill_rate] demo_amounts(4,5) by auto
  then show ?thesis using b amount_unique [OF a x(1)] by auto
qed

text \<open>A payment of 40 on an invoice raised at a half, converted at one: 20 off the receivable, 40 into the bank,
  and a gain of 20 between them.\<close>

lemma demo_payment:
  "payment_amounts (PFloat 40) (PStr ''USD'') (PStr ''0.5'') (PInt 1) (PFloat 0) = Inr (PFloat 20, PFloat 40)"
  "is_ok (payment_entries demo_posting_settings None None ''invoice'' None (\<lambda>_. None) (PFloat 20, PFloat 40) False)"
  "checked_exchange_rate (PStr ''0.5'') = Inr (Fin 500000000000 (-12))" "checked_exchange_rate (PInt 1) = Inr (Fin 1000000000000 (-12))"
  by code_simp+

theorem payment_entry_posts_witness:
  "\<exists>entries. payment_entries demo_posting_settings None None ''invoice'' None (\<lambda>_. None) (PFloat 20, PFloat 40) False = Inr entries
     \<and> posts (PStr ''USD'') entries 40"
proof -
  obtain entries where e: "payment_entries demo_posting_settings None None ''invoice'' None (\<lambda>_. None) (PFloat 20, PFloat 40) False = Inr entries"
    using demo_payment(2) by (auto simp: is_ok_def split: sum.splits)
  have a: "amount_is (PFloat 40) 40" "amount_is (PFloat 20) 20" using whole_amount [of 40] whole_amount [of 20] demo_amounts(2,3) by simp_all
  have "\<exists>x y. amount_is (PFloat 20) x \<and> amount_is (PFloat 40) y \<and> posts (PStr ''USD'') entries (max x y)"
    by (rule payment_entry_posts [OF demo_payment(1) e a(1) amount_is_0 demo_bill_total(2) demo_payment(3) _ demo_payment(4)])
      (simp_all add: bank_fx_plain_def)
  then obtain x y where x: "amount_is (PFloat 20) x" "amount_is (PFloat 40) y" "posts (PStr ''USD'') entries (max x y)" by blast
  then show ?thesis using e amount_unique [OF a(2) x(1)] amount_unique [OF a(1) x(2)] by auto
qed

end
