(* ===== verification/Spec2Isabelle.thy ===== *)
theory Spec2Isabelle
  imports TaxFacts DrawFacts ListFacts UnitFacts Measures ModuleFacts AccessFacts MoneyFacts DocFacts ItemFacts ContactFacts MfgFacts AssetFacts ReceivedFacts DepreciationFacts CostingFacts EngineFacts PickFacts LineFacts LotAccount
    RoleFacts JournalFacts
begin

text \<open>
  Celerp is an accounting and inventory server.  Every change to a company's records is an event in an
  immutable ledger (\<open>celerp/models/ledger.py\<close>), and the record itself, a row of the projections, is
  what the projection handler of its kind makes of its events (\<open>celerp/projections/engine.py\<close>).  An
  event is written by \<open>emit_event\<close> (\<open>celerp/events/engine.py\<close>), which holds it to the guards of its
  kind, appends it, applies it and judges the outcome in one savepoint.  Modules add handlers through
  slots (\<open>celerp/modules/slots.py\<close>).  Around this core stand computations: money, depreciation,
  recipes, the allocation of lots.

  \<^bold>\<open>Values.\<close>  \<open>PyVal\<close> is the JSON values as Python reads them, a dictionary being an association list in
  insertion order; \<open>PyText\<close> its strings (ASCII) and number literals; \<open>PyFloat\<close> its floats, as the exact
  rationals they denote with every operation rounded by \<open>fl\<close>; \<open>PyDecimal\<close> its Decimals with the
  28-digit context; \<open>Rounding\<close> the two roundings below them.  An exception is a value: a computation
  that may raise returns \<open>py_exc + 'a\<close> (\<open>Prelude\<close>), and a handler in the source that catches some
  exceptions is \<open>rtry\<close> with a test for them.  Values are immutable here; where the code changes a
  dictionary it was given, the model returns the new one, and the callers that share it read that.
  Infinities and not-a-numbers of floats are outside the model (an operation that would give one is
  \<open>NonFiniteFloat\<close>), zero has one sign, and \<open>sum()\<close> of floats adds from the left.

  \<^bold>\<open>Interfaces.\<close>  \<open>Contracts\<close> holds the locales: \<open>event_fold\<close> (a handler whose every event keeps an
  invariant; interpreted on the item projection in \<open>ItemFacts\<close>), \<open>row_store\<close> and \<open>guarded_store\<close> (a table of rows and the refusal of another kind; interpreted
  on the projections in \<open>Engine\<close>).

  \<^bold>\<open>Projections.\<close>  One theory each for the handler's state functions, an operation per branch of the
  source's dispatch and a table of them: \<open>DocProj\<close>, \<open>DocGoods\<close>, \<open>DocLists\<close> (\<open>apply_documents_event\<close>, with
  \<open>DocBalance\<close> for \<open>doc_balance.py\<close> and \<open>DocLines\<close> for the receipts of \<open>document_lines.py\<close>), \<open>ItemCost\<close> and
  \<open>ItemProj\<close> (\<open>apply_item_event\<close> and \<open>goods_cost.py\<close>), \<open>ContactProj\<close>, \<open>MfgProj\<close>, \<open>AssetProj\<close>, \<open>ReceivedProj\<close>,
  and \<open>KernelProj\<close> (system, accounting, marketplace, storefront and retired events).  Their facts:
  \<open>DocFacts\<close> (what a payment event moves and the rounded balances and status it leaves, payments keep their
  index, an edit cannot reach protected fields, an undone receipt leaves nothing), \<open>ItemFacts\<close> (what is on the books,
  what a cost is made of), \<open>ContactFacts\<close> (one primary address of each type), \<open>MfgFacts\<close> (reopening
  restores), \<open>AssetFacts\<close> (figures are the fold of the movements), \<open>ReceivedFacts\<close> (the newest revision
  wins in any order of arrival).

  \<^bold>\<open>Engine.\<close>  \<open>Slots\<close> (registration, lookup, overlap of prefixes) and \<open>Engine\<close> (the choice of a handler,
  the row an entry makes, the lock on kinds, the rebuild).  \<open>EngineFacts\<close>: live writes as a transition
  system whose ledger rebuilds every row; two writers racing to make a record; the order modules load
  in.  The wall-clock columns of a row are not kept.

  \<^bold>\<open>Emission.\<close>  \<open>Ledger\<close> (ledger rows and queries on them), \<open>LineRules\<close>, \<open>LineRefs\<close>, \<open>LineWrite\<close> (the rules for
  a document's lines in \<open>document_lines.py\<close> and the order \<open>emit_event\<close> applies them in: line ids, lines
  drawn from a memo, memo lines on invoices, links to items, newly taken items, held lots, repeated
  lots, protected lines), and \<open>Emit\<close> (the period lock, the Stripe guard, the guards on items with the
  physical codes and the draft rule, the used key, the savepoint, and \<open>emit_event\<close> itself for items,
  documents, Lists and other records).  \<open>LineFacts\<close> states what an accepted write of lines guarantees.
  \<open>EmitFacts\<close> runs writers one after another (\<open>emission\<close>, \<open>emitted\<close>) and shows that what they reach
  is a state of the engine's live writes, so that the ledger explains every row; that keys and births
  are unique; that rows conform to their events; and the safety of drafts and of Stripe's payments.
  \<open>LotAccount\<close> follows the inventory account of a lot through every handler of the item projection: no
  event but a move changes a recorded account, except in the two ways the lock does not look at: a price
  set under the account field's name, and an edit that carries the field both whole and as a change
  (\<open>restated_edit_moves_account\<close>).

  \<^bold>\<open>Computations.\<close>  \<open>Money\<close> (\<open>money.py\<close>; \<open>MoneyFacts\<close>: splits that add up, prices that give their total
  back, amounts that survive storage), \<open>Depreciation\<close> and \<open>AssetSchedule\<close> (\<open>celerp_fixed_assets/calc\<close>;
  \<open>DepreciationFacts\<close>: charges add up to the cumulative figure, every month is there, a life's end is
  found), \<open>Costing\<close> (\<open>costing.py\<close>, \<open>expansion.py\<close>; \<open>CostingFacts\<close>: the users of a product, demand
  expanded or refused), \<open>Pick\<close> (\<open>pick.py\<close>; \<open>PickFacts\<close>: what a draw takes, what is missing, lines that
  share no stock: exact for whole quantities below \<open>2 ^ 53\<close>, and within one float rounding a draw for any
  others, \<open>with_rounding\<close>).

  \<^bold>\<open>Taxes and the money of documents.\<close>  \<open>Taxes\<close> is \<open>tax_regimes.py\<close> and \<open>taxes.py\<close>: the rates a
  company charges, their lists, the amounts of a tax list on a subtotal, compound taxes on what the
  earlier ones added.  \<open>DocMoney\<close> is \<open>doc_money.py\<close> whole, with the draw of a memo onto an invoice
  (\<open>_draw_bill\<close> of the documents' \<open>routes.py\<close>) and the totals of a List: a document's money from its
  lines, discounts and taxes, the fixed amounts a draw takes, what a release gives back, the refusal
  of a tax that cannot be computed.  \<open>TaxAmounts\<close> follows decimals of few places through the 28-digit
  context exactly (\<open>at_scale\<close>); over it, \<open>TaxFacts\<close> (the taxes a new line starts with, from the
  company's defaults or from a draft that charges a tax as a whole, are ones its document may carry), \<open>DocMoneyFacts\<close> (money worked out is stable: stored, read back and worked out again it is
  the same), \<open>DrawFacts\<close> (the draws of a memo line, recorded on the memo, add up to its quantity and
  its amount) and \<open>ListFacts\<close> (a new List holds the totals its lines give).

  \<^bold>\<open>Posting roles and journal entries.\<close>  \<open>PostingRoles\<close> is what the accounts of a company are for
  (\<open>accounting_roles.py\<close>, \<open>account_roles.py\<close>) and the checks every journal line passes
  (\<open>journal_accounts.py\<close>); \<open>RoleFacts\<close>: scopes only grow, so a line once accepted stays acceptable
  whatever is remapped, and pointing roles at the seeded chart changes none that is set.  \<open>JournalEntry\<close>,
  \<open>SettlementEntry\<close> and \<open>BillEntry\<close> are the entries \<open>auto_je.py\<close> posts for a sale, a credit note, a
  payment, a note applied, a receipt, a bill and a supplier credit note, with what the code reads of
  the database as arguments; \<open>JournalFacts\<close>: the pieces of a payment add up to what it posted, and the
  entries of payments and bills balance to the unit, so they are posted and not refused.

  \<^bold>\<open>Units.\<close>  \<open>Moving\<close> is \<open>record_quantities.py\<close>: what a document or a production run can still move.
  \<open>Units\<close> is \<open>units.py\<close> up to the checks on one quantity, with the Default Sell Qty of \<open>line_measures.py\<close>
  and the check of a new list of units (\<open>_validate_units\<close> of \<open>companies.py\<close>); \<open>Measures\<close> the pieces and
  weight of a line (the rest of \<open>line_measures.py\<close> but its two texts in the \<open>g\<close> format).  \<open>UnitChange\<close> is
  the check of a record about to move again and of a change to the units, the rows of the
  projections being an argument; the company lock is what makes them one moment's.  \<open>UnitFacts\<close>: an
  accepted change keeps every live item, and all that open records can still move, within its unit;
  its hypotheses (\<open>company_plain\<close>) name the one case the check leaves out, lines whose unit comes
  from a written-off item (\<open>written_off_line_missed\<close>).

  \<^bold>\<open>Modules and permissions.\<close>  \<open>ModuleSet\<close> is the set of modules a company uses (\<open>modules/registry.py\<close>)
  and the order modules are installed in (\<open>resolve_install_order\<close> of \<open>config.py\<close>); \<open>ModuleFacts\<close> shows the
  order complete, without repetition and behind the dependencies, and the set closed under them.
  \<open>Permissions\<close> is the registry of \<open>permissions.py\<close>, the grants a company stores and the endpoint that
  changes them, with \<open>cost_visibility.py\<close>; \<open>Authority\<close> is what a request is authorized as and the company
  lock that judges it again (\<open>company_lock.py\<close>), as steps of one request on one company, with its
  savepoints and the writes of others between them.  \<open>AccessFacts\<close>: grants stay within their floors, a
  change of the matrix is one cell, and a request that holds the lock and may commit rests on what
  the company grants at that moment.

  \<^bold>\<open>Parameters.\<close>  What the code takes from outside the repository, as arguments: the handlers modules
  register and the reading of an ISO instant (\<open>env\<close>), dates and zones (\<open>clock\<close>), the company's
  settings and what modules hold an item's lineage to (\<open>emit_env\<close>), new line ids (\<open>fresh\<close>, assumed
  distinct over the ids a write needs), pydantic's reading of a tax (\<open>read\<close> of type \<open>tax_reader\<close>; the
  facts assume \<open>reads_back\<close>: a tax written out in full reads as itself), the resolver of recipes, the methods and conventions of other
  modules, and what the packages of modules on disk declare (\<open>manifests\<close>).

  \<^bold>\<open>Bounds.\<close>  The Decimal arithmetic of \<open>money.py\<close> is followed with its 28 digits; theorems that need more
  room than that name the bound on their inputs (for documents: amounts to \<open>10 ^ 11\<close>, rates of at most
  six decimals up to 1000; for a change of units: quantities to \<open>10 ^ 20\<close>, the six places
  \<open>put_units\<close> allows).  The expansion of demand carries the source's own
  nesting limit; the search for a layer's end of life has a proved bound; no fuel is used elsewhere.

  \<^bold>\<open>Not modelled.\<close>  Of \<open>emit_event\<close>: the pydantic schemas, the location check, the fixed-asset line check,
  the journal entry checks, the list totals completed before the write (\<open>DocMoney\<close> has the function,
  \<open>Emit\<close> does not call it), the checks and bookings on stock
  value after it (set-aside goods, opening stock, value changes), the connector upsert and the
  queues; each only refuses more, or writes further events.  Of the automatic journal entries: the cost
  of goods sold and its corrections, landed cost, supplier returns, online fees, imports and voids.
  The HTTP routes, the fixed asset register's operations, bank reconciliation, imports, connectors,
  backups, sign-in (tokens and sessions), the peer exchange and the web interface: code
  that queries the database at every step, calls services, or renders pages.  Of the company lock: a
  request that acts in a second company, modules judged before a write, and the locks on rows.  The texts of refusals are kept as their
  message keys.
\<close>

end
